(* ===== verification/Prelude.thy ===== *)
theory Prelude
  imports Main "HOL-Library.Word"
begin

unbundle bit_operations_syntax

text \<open>
  Shared vocabulary of the development: bytes, 64-bit \<open>usize\<close> arithmetic, Rust results as
  sums, slices, the loop combinators that the component models use for \<open>for\<close> loops with
  early return, and the reading of a byte list as one big-endian number.
\<close>

named_theorems result_simps \<open>rewriting of Rust results\<close>
named_theorems usize_simps \<open>saturating and checked arithmetic on usize\<close>

section \<open>Bytes and machine-size arithmetic\<close>

type_synonym byte = "8 word"

text \<open>
  \<open>usize\<close> is 64 bits wide. A \<open>usize\<close> value is a natural number; the saturating and
  checked operations of the standard library are written out. \<open>saturating_sub\<close> is the
  truncating subtraction of \<^typ>\<open>nat\<close>.
\<close>

definition usize_max :: nat where
  "usize_max = 2 ^ 64 - 1"

definition saturating_add :: "nat \<Rightarrow> nat \<Rightarrow> nat" where
  "saturating_add a b = min (a + b) usize_max"

definition saturating_mul :: "nat \<Rightarrow> nat \<Rightarrow> nat" where
  "saturating_mul a b = min (a * b) usize_max"

definition checked_add :: "nat \<Rightarrow> nat \<Rightarrow> nat option" where
  "checked_add a b = (if a + b \<le> usize_max then Some (a + b) else None)"

definition checked_mul :: "nat \<Rightarrow> nat \<Rightarrow> nat option" where
  "checked_mul a b = (if a * b \<le> usize_max then Some (a * b) else None)"

definition div_ceil :: "nat \<Rightarrow> nat \<Rightarrow> nat" where
  "div_ceil a b = (if a mod b = 0 then a div b else Suc (a div b))"

lemma saturating_add_exact [usize_simps]:
  "a + b \<le> usize_max \<Longrightarrow> saturating_add a b = a + b"
  by (simp add: saturating_add_def)

lemma saturating_mul_exact [usize_simps]:
  "a * b \<le> usize_max \<Longrightarrow> saturating_mul a b = a * b"
  by (simp add: saturating_mul_def)

lemma checked_add_exact [usize_simps]:
  "a + b \<le> usize_max \<Longrightarrow> checked_add a b = Some (a + b)"
  by (simp add: checked_add_def)

lemma checked_mul_exact [usize_simps]:
  "a * b \<le> usize_max \<Longrightarrow> checked_mul a b = Some (a * b)"
  by (simp add: checked_mul_def)

lemma div_ceil_8: "div_ceil n 8 = (n + 7) div 8"
  unfolding div_ceil_def by presburger

lemma div_ceil_8_bounds: "n \<le> 8 * div_ceil n 8" "8 * div_ceil n 8 < n + 8"
  unfolding div_ceil_8 by presburger+

lemma div_ceil_8_mult [simp]: "div_ceil (8 * n) 8 = n" "div_ceil (n * 8) 8 = n"
  by (simp_all add: div_ceil_def)

lemma div_ceil_8_pos: "0 < n \<Longrightarrow> 0 < div_ceil n 8"
  using div_ceil_8_bounds(1)[of n] by simp

section \<open>Results\<close>

text \<open>\<open>Result<T, E>\<close> is the sum \<open>E + T\<close>; the \<open>?\<close> operator is \<open>bindE\<close>.\<close>

fun bindE :: "'e + 'a \<Rightarrow> ('a \<Rightarrow> 'e + 'b) \<Rightarrow> 'e + 'b" where
  "bindE (Inl e) f = Inl e"
| "bindE (Inr x) f = f x"

fun find_map :: "('a \<Rightarrow> 'b option) \<Rightarrow> 'a list \<Rightarrow> 'b option" where
  "find_map f [] = None"
| "find_map f (x # xs) = (case f x of Some y \<Rightarrow> Some y | None \<Rightarrow> find_map f xs)"

lemma find_map_Some: "find_map f xs = Some y \<Longrightarrow> \<exists>x \<in> set xs. f x = Some y"
  by (induction xs) (auto split: option.splits)

definition ok_or :: "'a option \<Rightarrow> 'e \<Rightarrow> 'e + 'a" where
  "ok_or r e = (case r of None \<Rightarrow> Inl e | Some x \<Rightarrow> Inr x)"

lemma ok_or_simps [simp]: "ok_or None e = Inl e" "ok_or (Some x) e = Inr x"
  by (simp_all add: ok_or_def)

lemma bindE_Inr_iff [result_simps]:
  "bindE m f = Inr y \<longleftrightarrow> (\<exists>x. m = Inr x \<and> f x = Inr y)"
  by (cases m) auto

lemma bindE_Inl_iff [result_simps]:
  "bindE m f = Inl e \<longleftrightarrow> m = Inl e \<or> (\<exists>x. m = Inr x \<and> f x = Inl e)"
  by (cases m) auto

lemma ok_or_Inr_iff [result_simps]: "ok_or r e = Inr x \<longleftrightarrow> r = Some x"
  by (cases r) auto

lemma ok_or_Inl_iff [result_simps]: "ok_or r e = Inl e' \<longleftrightarrow> r = None \<and> e' = e"
  by (cases r) auto

fun is_ok :: "'e + 'a \<Rightarrow> bool" where
  "is_ok (Inl e) = False"
| "is_ok (Inr x) = True"

lemma is_ok_iff: "is_ok r \<longleftrightarrow> (\<exists>x. r = Inr x)"
  by (cases r) auto

lemma bindE_cong [fundef_cong]:
  "m = m' \<Longrightarrow> (\<And>x. m' = Inr x \<Longrightarrow> f x = g x) \<Longrightarrow> bindE m f = bindE m' g"
  by (cases m') auto

section \<open>Slices\<close>

text \<open>\<open>slice.get(i)\<close> and \<open>slice.get(a..b)\<close>: \<open>None\<close> out of range.\<close>

definition get :: "'a list \<Rightarrow> nat \<Rightarrow> 'a option" where
  "get xs i = (if i < length xs then Some (xs ! i) else None)"

definition get_range :: "'a list \<Rightarrow> nat \<Rightarrow> nat \<Rightarrow> 'a list option" where
  "get_range xs a b = (if a \<le> b \<and> b \<le> length xs then Some (take (b - a) (drop a xs)) else None)"

text \<open>\<open>copy_from_slice\<close> into the range starting at \<open>a\<close>; the lengths agree at every call.\<close>

definition put_range :: "'a list \<Rightarrow> nat \<Rightarrow> 'a list \<Rightarrow> 'a list" where
  "put_range xs a ys = take a xs @ ys @ drop (a + length ys) xs"

definition resize :: "'a list \<Rightarrow> nat \<Rightarrow> 'a \<Rightarrow> 'a list" where
  "resize xs n x = take n xs @ replicate (n - length xs) x"

lemma get_simps [simp]:
  "i < length xs \<Longrightarrow> get xs i = Some (xs ! i)"
  "length xs \<le> i \<Longrightarrow> get xs i = None"
  by (simp_all add: get_def)

lemma get_range_exact:
  "a \<le> b \<Longrightarrow> b \<le> length xs \<Longrightarrow> get_range xs a b = Some (take (b - a) (drop a xs))"
  by (simp add: get_range_def)

lemma get_range_Some:
  "get_range xs a b = Some ys \<Longrightarrow>
   a \<le> b \<and> b \<le> length xs \<and> length ys = b - a \<and> ys = take (b - a) (drop a xs)"
  by (auto simp: get_range_def split: if_splits)

lemma length_put_range [simp]:
  "a + length ys \<le> length xs \<Longrightarrow> length (put_range xs a ys) = length xs"
  by (simp add: put_range_def)

lemma get_range_put_range:
  "a + length ys \<le> length xs \<Longrightarrow> get_range (put_range xs a ys) a (a + length ys) = Some ys"
  by (simp add: get_range_def put_range_def)

lemma nth_put_range_outside:
  "a + length ys \<le> length xs \<Longrightarrow> i < a \<or> a + length ys \<le> i \<Longrightarrow> i < length xs \<Longrightarrow>
   put_range xs a ys ! i = xs ! i"
  by (auto simp: put_range_def nth_append)

lemma length_resize [simp]: "length (resize xs n x) = n"
  by (simp add: resize_def)

section \<open>Loops\<close>

text \<open>
  \<open>for x in xs { body?; }\<close>: the body maps the loop state to a new one or leaves the
  function with an error.
\<close>

fun for_each :: "('a \<Rightarrow> 's \<Rightarrow> 'e + 's) \<Rightarrow> 'a list \<Rightarrow> 's \<Rightarrow> 'e + 's" where
  "for_each f [] s = Inr s"
| "for_each f (x # xs) s = bindE (f x s) (for_each f xs)"

definition for_range :: "(nat \<Rightarrow> 's \<Rightarrow> 'e + 's) \<Rightarrow> nat \<Rightarrow> 's \<Rightarrow> 'e + 's" where
  "for_range f n = for_each f [0..<n]"

text \<open>The same with \<open>break\<close>: the body says whether the loop goes on.\<close>

datatype 's flow = Continue 's | Break 's

fun for_each_break :: "('a \<Rightarrow> 's \<Rightarrow> 'e + 's flow) \<Rightarrow> 'a list \<Rightarrow> 's \<Rightarrow> 'e + 's" where
  "for_each_break f [] s = Inr s"
| "for_each_break f (x # xs) s =
     bindE (f x s) (\<lambda>r. case r of Continue s' \<Rightarrow> for_each_break f xs s' | Break s' \<Rightarrow> Inr s')"

definition for_range_break :: "(nat \<Rightarrow> 's \<Rightarrow> 'e + 's flow) \<Rightarrow> nat \<Rightarrow> 's \<Rightarrow> 'e + 's" where
  "for_range_break f n = for_each_break f [0..<n]"

lemma for_each_append:
  "for_each f (xs @ ys) s = bindE (for_each f xs s) (for_each f ys)"
proof (induction xs arbitrary: s)
  case (Cons x xs)
  then show ?case by (cases "f x s") auto
qed simp

lemma for_range_Suc: "for_range f (Suc n) s = bindE (for_range f n s) (f n)"
proof -
  have "for_each f [n] t = f n t" for t by (cases "f n t") auto
  then show ?thesis by (auto simp: for_range_def for_each_append intro!: bindE_cong)
qed

text \<open>Total correctness of a counting loop: an invariant indexed by the counter.\<close>

lemma for_range_rule:
  assumes "P 0 s"
    and "\<And>i t. i < n \<Longrightarrow> P i t \<Longrightarrow> \<exists>t'. f i t = Inr t' \<and> P (Suc i) t'"
  shows "\<exists>t. for_range f n s = Inr t \<and> P n t"
  using assms(2)
proof (induction n)
  case 0
  then show ?case using assms(1) by (simp add: for_range_def)
next
  case (Suc n)
  then obtain t where "for_range f n s = Inr t" "P n t" by (metis less_SucI)
  with Suc.prems show ?case by (force simp: for_range_Suc)
qed

lemma for_each_break_upt_rule:
  assumes "P k s" and "k \<le> n"
    and step: "\<And>i t. k \<le> i \<Longrightarrow> i < n \<Longrightarrow> P i t \<Longrightarrow>
      (\<exists>t'. f i t = Inr (Continue t') \<and> P (Suc i) t') \<or> (\<exists>t'. f i t = Inr (Break t') \<and> Q t')"
    and "\<And>t. P n t \<Longrightarrow> Q t"
  shows "\<exists>t. for_each_break f [k..<n] s = Inr t \<and> Q t"
  using assms(2,1) step
proof (induction k arbitrary: s rule: inc_induct)
  case base
  then show ?case using assms(4) by simp
next
  case (step k)
  have "(\<exists>t'. f k s = Inr (Continue t') \<and> P (Suc k) t') \<or> (\<exists>t'. f k s = Inr (Break t') \<and> Q t')"
    using step.hyps step.prems by auto
  then show ?case
  proof (elim disjE exE conjE)
    fix t' assume "f k s = Inr (Continue t')" "P (Suc k) t'"
    then show ?thesis using step.hyps step.prems(2) step.IH[of t'] by (simp add: upt_conv_Cons)
  next
    fix t' assume "f k s = Inr (Break t')" "Q t'"
    then show ?thesis using step.hyps by (simp add: upt_conv_Cons)
  qed
qed

text \<open>The counting loop with \<open>break\<close>: the loop may leave early in a state that satisfies \<open>Q\<close>.\<close>

lemma for_range_break_rule:
  assumes "P 0 s"
    and "\<And>i t. i < n \<Longrightarrow> P i t \<Longrightarrow>
      (\<exists>t'. f i t = Inr (Continue t') \<and> P (Suc i) t') \<or> (\<exists>t'. f i t = Inr (Break t') \<and> Q t')"
    and "\<And>t. P n t \<Longrightarrow> Q t"
  shows "\<exists>t. for_range_break f n s = Inr t \<and> Q t"
  unfolding for_range_break_def
  by (rule for_each_break_upt_rule[where P = P]) (use assms in auto)

lemma for_each_inv:
  assumes "P s" and "\<And>x t t'. x \<in> set xs \<Longrightarrow> P t \<Longrightarrow> f x t = Inr t' \<Longrightarrow> P t'"
    and "for_each f xs s = Inr r"
  shows "P r"
  using assms
proof (induction xs arbitrary: s)
  case (Cons x xs)
  from Cons.prems(3) obtain t where t: "f x s = Inr t" "for_each f xs t = Inr r"
    by (auto simp: bindE_Inr_iff)
  show ?case by (rule Cons.IH[of t]) (use Cons.prems t in auto)
qed simp

fun flow_state :: "'s flow \<Rightarrow> 's" where
  "flow_state (Continue s) = s"
| "flow_state (Break s) = s"

lemma for_each_break_inv:
  assumes "P s" and "\<And>x t r. x \<in> set xs \<Longrightarrow> P t \<Longrightarrow> f x t = Inr r \<Longrightarrow> P (flow_state r)"
    and "for_each_break f xs s = Inr r"
  shows "P r"
  using assms
proof (induction xs arbitrary: s)
  case (Cons x xs)
  from Cons.prems(3) obtain fl where fl: "f x s = Inr fl"
    "(case fl of Continue s' \<Rightarrow> for_each_break f xs s' | Break s' \<Rightarrow> Inr s') = Inr r"
    by (auto simp: bindE_Inr_iff)
  have P: "P (flow_state fl)" by (rule Cons.prems(2)[OF _ Cons.prems(1) fl(1)]) simp
  show ?case
  proof (cases fl)
    case (Continue t)
    show ?thesis by (rule Cons.IH[of t]) (use P Continue fl Cons.prems(2) in auto)
  next
    case (Break t)
    then show ?thesis using P fl by simp
  qed
qed simp

lemma saturating_add_le: "saturating_add a b \<le> a + b"
  by (simp add: saturating_add_def)

lemma saturating_mul_le: "saturating_mul a b \<le> a * b"
  by (simp add: saturating_mul_def)

lemma div_ceil_8_mono: "a \<le> b \<Longrightarrow> div_ceil a 8 \<le> div_ceil b 8"
  by (simp add: div_ceil_8 div_le_mono)

section \<open>Big-endian bit strings\<close>

text \<open>
  Bit \<open>i\<close> of a byte list counts from the least significant bit of the last byte, the
  numbering the code uses throughout; \<open>be_val\<close> is the number the list denotes.
\<close>

definition be_bit :: "byte list \<Rightarrow> nat \<Rightarrow> bool" where
  "be_bit bs i \<longleftrightarrow> i < 8 * length bs \<and> bit (bs ! (length bs - i div 8 - 1)) (i mod 8)"

fun be_val :: "byte list \<Rightarrow> nat" where
  "be_val [] = 0"
| "be_val (b # bs) = unat b * 256 ^ length bs + be_val bs"

lemma be_bit_Nil [simp]: "\<not> be_bit [] i"
  by (simp add: be_bit_def)

lemma be_bit_Cons:
  "be_bit (b # bs) i =
     (if i < 8 * length bs then be_bit bs i
      else i < 8 * length bs + 8 \<and> bit b (i - 8 * length bs))"
proof -
  consider "i < 8 * length bs" | "8 * length bs \<le> i" "i < 8 * length bs + 8"
    | "8 * length bs + 8 \<le> i" by linarith
  then show ?thesis
  proof cases
    case 1
    then have "length bs - i div 8 = Suc (length bs - i div 8 - 1)" by linarith
    with 1 show ?thesis by (simp add: be_bit_def nth_Cons')
  next
    case 2
    then have d: "i div 8 = length bs" by auto
    then have "i mod 8 = i - 8 * length bs" by (metis minus_mult_div_eq_mod)
    with 2 d show ?thesis by (simp add: be_bit_def)
  next
    case 3
    then show ?thesis by (simp add: be_bit_def)
  qed
qed

lemma be_bit_range: "be_bit bs i \<Longrightarrow> i < 8 * length bs"
  by (simp add: be_bit_def)

lemma be_bit_replicate_0 [simp]: "\<not> be_bit (replicate n 0) i"
  by (auto simp: be_bit_def)

lemma be_bit_append:
  "be_bit (xs @ ys) i =
     (if i < 8 * length ys then be_bit ys i else be_bit xs (i - 8 * length ys))"
  by (induction xs) (auto simp: be_bit_Cons add.commute dest: be_bit_range)

lemma be_bit_drop: "be_bit (drop k xs) i = (i < 8 * (length xs - k) \<and> be_bit xs i)"
  using be_bit_append[of "take k xs" "drop k xs" i] by (auto dest: be_bit_range)

lemma be_val_bound: "be_val bs < 256 ^ length bs"
proof (induction bs)
  case (Cons b bs)
  have "unat b < 2 ^ LENGTH(8)" by (rule unsigned_less)
  then have "Suc (unat b) \<le> 256" by simp
  then have "Suc (unat b) * 256 ^ length bs \<le> 256 * 256 ^ length bs" by (rule mult_right_mono) simp
  then have "unat b * 256 ^ length bs + 256 ^ length bs \<le> 256 ^ length (b # bs)"
    by (simp only: mult_Suc power_Suc length_Cons add.commute)
  with Cons show ?case by (simp only: be_val.simps)
qed simp

lemma bit_be_val: "bit (be_val bs) i = be_bit bs i"
proof (induction bs arbitrary: i)
  case (Cons b bs)
  let ?n = "8 * length bs"
  have p: "(256::nat) ^ length bs = 2 ^ ?n" by (simp add: power_mult)
  have v: "be_val bs < 2 ^ ?n" using be_val_bound[of bs] p by simp
  show ?case
  proof (cases "i < ?n")
    case True
    then have "(be_val bs + unat b * 2 ^ ?n) mod 2 ^ Suc i = be_val bs mod 2 ^ Suc i"
      by (metis Suc_leI dvd_mult le_imp_power_dvd mod_add_self2 dvd_imp_mod_0 add.right_neutral mod_add_right_eq)
    then have "bit (take_bit (Suc i) (be_val (b # bs))) i = bit (take_bit (Suc i) (be_val bs)) i"
      by (simp add: p take_bit_eq_mod add.commute)
    then have "bit (be_val (b # bs)) i = bit (be_val bs) i"
      by (simp add: bit_take_bit_iff)
    with True Cons show ?thesis by (simp add: be_bit_Cons)
  next
    case False
    then obtain k where k: "i = ?n + k" using le_Suc_ex by (meson not_less)
    have "be_val (b # bs) div 2 ^ ?n = unat b" using v by (simp add: p)
    then have "bit (be_val (b # bs)) i = bit (unat b) k"
      by (metis k bit_drop_bit_eq comp_apply drop_bit_eq_div)
    also have "\<dots> = bit b k" by (simp add: unsigned_of_nat bit_unsigned_iff)
    finally have *: "bit (be_val (b # bs)) i = bit b k" .
    have "bit b k \<Longrightarrow> k < 8" using bit_imp_le_length[of b k] by simp
    with * False k show ?thesis by (auto simp: be_bit_Cons)
  qed
qed simp

lemma be_bit_ext:
  assumes "length a = length b" and "\<And>i. i < 8 * length a \<Longrightarrow> be_bit a i = be_bit b i"
  shows "a = b"
  using assms
proof (induction a b rule: list_induct2)
  case (Cons x xs y ys)
  have "bit x k = bit y k" if "k < 8" for k
    using Cons.prems[of "8 * length xs + k"] Cons.hyps that by (auto simp: be_bit_Cons)
  then have "x = y" by (intro bit_word_eqI) simp
  moreover have "xs = ys"
  proof (rule Cons.IH)
    fix i assume "i < 8 * length xs"
    then show "be_bit xs i = be_bit ys i"
      using Cons.prems[of i] Cons.hyps by (simp add: be_bit_Cons)
  qed
  ultimately show ?case by simp
qed simp

text \<open>A list whose bits are a window of another one denotes the shifted, truncated number.\<close>

lemma be_val_window:
  assumes "\<And>j. be_bit r j = (j < n \<and> be_bit d (p + j))"
  shows "be_val r = be_val d div 2 ^ p mod 2 ^ n"
proof -
  have "be_val r = take_bit n (drop_bit p (be_val d))"
    by (rule bit_eqI) (simp add: assms bit_be_val bit_take_bit_iff bit_drop_bit_eq)
  then show ?thesis by (simp add: take_bit_eq_mod drop_bit_eq_div)
qed

text \<open>\<open>to_be_bytes\<close> of the fixed-width integers: \<open>n\<close> bytes, most significant first.\<close>

fun be_bytes :: "nat \<Rightarrow> nat \<Rightarrow> byte list" where
  "be_bytes 0 v = []"
| "be_bytes (Suc n) v = of_nat (v div 256 ^ n) # be_bytes n v"

definition u32_max :: nat where
  "u32_max = 2 ^ 32 - 1"

definition saturating_add_u32 :: "nat \<Rightarrow> nat \<Rightarrow> nat" where
  "saturating_add_u32 a b = min (a + b) u32_max"

lemma length_be_bytes [simp]: "length (be_bytes n v) = n"
  by (induction n) simp_all

lemma be_val_be_bytes: "be_val (be_bytes n v) = v mod 256 ^ n"
proof (induction n)
  case (Suc n)
  have "unat (of_nat (v div 256 ^ n) :: byte) = v div 256 ^ n mod 256"
    by (simp add: unat_of_nat)
  then have "be_val (be_bytes (Suc n) v) = v div 256 ^ n mod 256 * 256 ^ n + v mod 256 ^ n"
    using Suc by simp
  also have "\<dots> = v mod (256 ^ n * 256)"
    unfolding mod_mult2_eq by simp
  finally show ?case by (simp add: mult.commute)
qed simp

lemma drop_be_bytes: "drop j (be_bytes (j + k) n) = be_bytes k n"
  by (induction j) simp_all

lemma take_be_bytes: "take n (be_bytes (n + k) v) = be_bytes n (v div 256 ^ k)"
proof (induction n)
  case (Suc n)
  have "v div 256 ^ (n + k) = v div 256 ^ k div 256 ^ n"
    by (simp add: power_add div_mult2_eq[symmetric] mult.commute)
  with Suc show ?case by simp
qed simp

end
