(* ===== verification/Diag_Error.thy ===== *)
theory Diag_Error
  imports Prelude
begin

text \<open>
  The error type shared by the diagnostic components, \<open>DiagServiceError\<close> of
  \<open>cda-interfaces/src/lib.rs\<close>, with the source's constructors. The message of a variant is
  kept as a string; where the source interpolates run-time values into it, the model keeps the
  constant part only.
\<close>

record data_parse_error =
  data_value :: string
  details :: string

datatype diag_service_error =
    NotFound string
  | RequestNotSupported string
  | InvalidDatabase string
  | InvalidRequest string
  | ParameterConversionError string
  | UnknownOperation
  | UdsLookupError string
  | BadPayload string
  | NotEnoughData (expected: nat) (actual: nat)
  | VariantDetectionError string
  | InvalidState string
  | InvalidAddress string
  | SendFailed string
  | Nack byte
  | UnexpectedResponse "string option"
  | NoResponse string
  | ConnectionClosed string
  | EcuOffline string
  | Timeout
  | AccessDenied string
  | ResourceError string
  | DataError data_parse_error
  | InvalidSecurityPlugin
  | AmbiguousParameters string "string list"
  | InvalidParameter "string set"
  | InvalidConfiguration string

type_synonym 'a diag_result = "diag_service_error + 'a"

fun is_bad_payload :: "'a diag_result \<Rightarrow> bool" where
  "is_bad_payload (Inl (BadPayload m)) = True"
| "is_bad_payload r = False"

end
