(* ===== verification/Bits.thy ===== *)
theory Bits
  imports Diag_Error
begin

unbundle bit_operations_syntax

text \<open>
  Bit-level access to byte slices: \<open>set_bit_checked\<close> and \<open>extract_bits\<close> of
  \<open>cda-interfaces/src/util.rs\<close>. Every loop of the coded-type component writes bits through
  \<open>set_bit_checked\<close>; the locale \<open>bit_store\<close> states what such a store promises and carries
  the loop lemmas, and its interpretation discharges the laws for the model of the code.
\<close>

section \<open>Single bits\<close>

text \<open>\<open>(byte >> off) & 1\<close>\<close>

definition byte_bit :: "byte \<Rightarrow> nat \<Rightarrow> byte" where
  "byte_bit b off = drop_bit off b AND 1"

text \<open>
  \<open>set_bit_checked\<close>: the offset is below 8 at every call of the program (it is a remainder
  modulo 8), so the shifts do not overflow.
\<close>

definition set_bit_checked :: "byte list \<Rightarrow> nat \<Rightarrow> nat \<Rightarrow> byte \<Rightarrow> bool \<Rightarrow> byte list diag_result" where
  "set_bit_checked result_bytes dst_byte_index dst_bit_offset bit_value clear_bit =
     (case get result_bytes dst_byte_index of
        Some b \<Rightarrow>
          let b' = (if clear_bit then b AND NOT (push_bit dst_bit_offset 1) else b);
              b'' = b' OR push_bit dst_bit_offset (bit_value AND 1)
          in Inr (result_bytes[dst_byte_index := b''])
      | None \<Rightarrow> Inl (BadPayload ''Destination byte index out of bounds''))"

section \<open>Extraction\<close>

definition extract_bits_step :: "nat \<Rightarrow> byte list \<Rightarrow> nat \<Rightarrow> nat \<Rightarrow> byte list \<Rightarrow> byte list diag_result" where
  "extract_bits_step bit_pos data result_byte_count i result_bytes =
     bindE (ok_or (checked_add bit_pos i) (BadPayload ''Bit index overflow'')) (\<lambda>src_bit_index.
       let src_byte_index = length data - src_bit_index div 8 - 1;
           src_bit_offset = src_bit_index mod 8
       in bindE (ok_or (map_option (\<lambda>b. byte_bit b src_bit_offset) (get data src_byte_index))
                   (BadPayload ''Source byte index out of bounds'')) (\<lambda>bit_value.
            let dst_byte_index = result_byte_count - i div 8 - 1;
                dst_bit_offset = i mod 8
            in set_bit_checked result_bytes dst_byte_index dst_bit_offset bit_value False))"

definition extract_bits :: "nat \<Rightarrow> nat \<Rightarrow> byte list \<Rightarrow> byte list diag_result" where
  "extract_bits bit_len bit_pos data =
     (if bit_pos > 7 then Inl (BadPayload ''BitPosition range is 0..=7'')
      else if bit_len = 0 then Inl (BadPayload ''Cannot extract 0 bits'')
      else
        bindE (ok_or (checked_add bit_pos bit_len) (BadPayload ''Bit operation overflow'')) (\<lambda>end_bit.
        bindE (ok_or (checked_mul (length data) 8) (BadPayload ''Bit operation overflow'')) (\<lambda>data_bits.
          if end_bit > data_bits
          then Inl (BadPayload ''Bit position with length exceeds data length bits'')
          else
            let result_byte_count = div_ceil bit_len 8
            in for_range (extract_bits_step bit_pos data result_byte_count) bit_len
                 (replicate result_byte_count 0))))"

section \<open>What a bit store promises\<close>

text \<open>
  A store of bits addressed from the least significant one: reading after a write gives the
  written value there and the old one elsewhere, and a write keeps the capacity.
\<close>

locale bit_store =
  fixes rd :: "'b \<Rightarrow> nat \<Rightarrow> bool"
    and wr :: "nat \<Rightarrow> bool \<Rightarrow> 'b \<Rightarrow> 'e + 'b"
    and cap :: "'b \<Rightarrow> nat"
    and combine :: "bool \<Rightarrow> bool \<Rightarrow> bool"
  assumes wr_ok: "i < cap b \<Longrightarrow> \<exists>b'. wr i v b = Inr b'"
    and wr_cap: "wr i v b = Inr b' \<Longrightarrow> cap b' = cap b"
    and wr_rd: "i < cap b \<Longrightarrow> wr i v b = Inr b' \<Longrightarrow>
      rd b' j = (if j = i then combine (rd b i) v else rd b j)"
begin

text \<open>Writing the consecutive bits \<open>off, \<dots>, off + n - 1\<close> in a counting loop.\<close>

lemma write_loop:
  assumes "off + n \<le> cap b"
    and step: "\<And>i t. i < n \<Longrightarrow> cap t = cap b \<Longrightarrow> (\<And>j. off + i \<le> j \<Longrightarrow> rd t j = rd b j) \<Longrightarrow>
      f i t = wr (off + i) (src i) t"
  shows "\<exists>t. for_range f n b = Inr t \<and> cap t = cap b \<and>
    (\<forall>j. rd t j = (if off \<le> j \<and> j < off + n then combine (rd b j) (src (j - off)) else rd b j))"
proof -
  let ?P = "\<lambda>i t. cap t = cap b \<and>
    (\<forall>j. rd t j = (if off \<le> j \<and> j < off + i then combine (rd b j) (src (j - off)) else rd b j))"
  have "\<exists>t. for_range f n b = Inr t \<and> ?P n t"
  proof (rule for_range_rule)
    fix i t assume i: "i < n" and P: "?P i t"
    then have lt: "off + i < cap t" using assms(1) by simp
    have eq: "f i t = wr (off + i) (src i) t" using step[OF i] P by simp
    obtain t' where t': "wr (off + i) (src i) t = Inr t'" using wr_ok[OF lt] by blast
    have "?P (Suc i) t'"
      using wr_cap[OF t'] wr_rd[OF lt t'] P by (auto simp: less_Suc_eq)
    with eq t' show "\<exists>t'. f i t = Inr t' \<and> ?P (Suc i) t'" by auto
  qed auto
  then show ?thesis by blast
qed

end

section \<open>The byte list as a bit store\<close>

lemma byte_bit_eq: "byte_bit b off = of_bool (bit b off)"
  unfolding byte_bit_def
  by (simp add: and_one_eq mod_2_eq_odd bit_iff_odd_drop_bit)

lemma byte_bit_and_1: "byte_bit b off AND 1 = of_bool (bit b off)"
  by (simp add: byte_bit_eq)

definition write_bit :: "bool \<Rightarrow> nat \<Rightarrow> bool \<Rightarrow> byte list \<Rightarrow> byte list diag_result" where
  "write_bit clear i v bs = set_bit_checked bs (length bs - i div 8 - 1) (i mod 8) (of_bool v) clear"

lemma write_bit_ok:
  assumes "i < 8 * length bs"
  shows "\<exists>bs'. write_bit clear i v bs = Inr bs'"
  using assms by (simp add: write_bit_def set_bit_checked_def Let_def)

lemma write_bit_length: "write_bit clear i v bs = Inr bs' \<Longrightarrow> length bs' = length bs"
  by (auto simp: write_bit_def set_bit_checked_def Let_def get_def split: if_splits)

lemma write_bit_byte:
  fixes b :: byte
  assumes "off < 8"
  shows "bit ((if clear then b AND NOT (push_bit off 1) else b) OR push_bit off (of_bool v AND 1)) k
    = (if k = off then (\<not> clear \<and> bit b k) \<or> v else bit b k)"
proof -
  have "bit b k \<Longrightarrow> k < 8" using bit_imp_le_length[of b k] by simp
  then show ?thesis using assms
    by (auto simp: bit_or_iff bit_and_iff bit_not_iff bit_push_bit_iff bit_1_iff bit_exp_iff)
qed

lemma write_bit_rd:
  assumes i: "i < 8 * length bs" and w: "write_bit clear i v bs = Inr bs'"
  shows "be_bit bs' j = (if j = i then (\<not> clear \<and> be_bit bs i) \<or> v else be_bit bs j)"
proof -
  let ?n = "length bs"
  let ?k = "?n - i div 8 - 1"
  let ?new = "(if clear then bs ! ?k AND NOT (push_bit (i mod 8) 1) else bs ! ?k)
    OR push_bit (i mod 8) (of_bool v AND 1)"
  have k: "?k < ?n" using i by simp
  have "write_bit clear i v bs = Inr (bs[?k := ?new])"
    unfolding write_bit_def set_bit_checked_def Let_def get_simps(1)[OF k] option.case by (rule refl)
  then have bs': "bs' = bs[?k := ?new]" using w by (simp only: sum.inject)
  show ?thesis
  proof (cases "j < 8 * ?n")
    case False
    then show ?thesis using i by (simp add: be_bit_def bs')
  next
    case True
    have same: "(?n - j div 8 - 1 = ?k) = (j div 8 = i div 8)" using True i by linarith
    have ji: "j = i \<longleftrightarrow> j div 8 = i div 8 \<and> j mod 8 = i mod 8"
      by (metis div_mult_mod_eq)
    show ?thesis
    proof (cases "j div 8 = i div 8")
      case True
      then have "be_bit bs' j = bit ?new (j mod 8)"
        using \<open>j < 8 * ?n\<close> k same by (simp add: be_bit_def bs')
      also have "\<dots> = (if j mod 8 = i mod 8 then (\<not> clear \<and> bit (bs ! ?k) (j mod 8)) \<or> v
          else bit (bs ! ?k) (j mod 8))"
        by (rule write_bit_byte) simp
      finally show ?thesis using True \<open>j < 8 * ?n\<close> ji i by (auto simp: be_bit_def)
    next
      case False
      then have "bs' ! (?n - j div 8 - 1) = bs ! (?n - j div 8 - 1)" using same by (simp add: bs')
      then show ?thesis using False ji by (auto simp: be_bit_def bs')
    qed
  qed
qed

interpretation or_store: bit_store be_bit "write_bit False" "\<lambda>bs. 8 * length bs" "\<lambda>old new. old \<or> new"
  by unfold_locales (auto simp: write_bit_ok write_bit_rd dest: write_bit_length)

interpretation put_store: bit_store be_bit "write_bit True" "\<lambda>bs. 8 * length bs" "\<lambda>old new. new"
  by unfold_locales (auto simp: write_bit_ok write_bit_rd dest: write_bit_length)

section \<open>Correctness of extraction\<close>

lemma extract_bits_step_eq:
  assumes "bit_pos + i < 8 * length data" "8 * length data \<le> usize_max"
    and "length t = n"
  shows "extract_bits_step bit_pos data n i t = write_bit False i (be_bit data (bit_pos + i)) t"
  using assms
  by (simp add: extract_bits_step_def checked_add_exact Let_def byte_bit_eq write_bit_def be_bit_def)

lemma extract_bits_loop:
  assumes "bit_pos + bit_len \<le> 8 * length data" "8 * length data \<le> usize_max"
  shows "\<exists>r. for_range (extract_bits_step bit_pos data (div_ceil bit_len 8)) bit_len
      (replicate (div_ceil bit_len 8) 0) = Inr r \<and> length r = div_ceil bit_len 8 \<and>
    (\<forall>j. be_bit r j = (j < bit_len \<and> be_bit data (bit_pos + j)))"
proof -
  have "\<exists>t. for_range (extract_bits_step bit_pos data (div_ceil bit_len 8)) bit_len
      (replicate (div_ceil bit_len 8) 0) = Inr t \<and>
    8 * length t = 8 * length (replicate (div_ceil bit_len 8) (0::byte)) \<and>
    (\<forall>j. be_bit t j = (if 0 \<le> j \<and> j < 0 + bit_len
        then be_bit (replicate (div_ceil bit_len 8) 0) j \<or> be_bit data (bit_pos + (j - 0))
        else be_bit (replicate (div_ceil bit_len 8) 0) j))"
    by (rule or_store.write_loop)
      (use assms div_ceil_8_bounds[of bit_len] in \<open>auto simp: extract_bits_step_eq\<close>)
  then show ?thesis by auto
qed

lemma extract_bits_window:
  assumes "bit_pos \<le> 7" "0 < bit_len" "bit_pos + bit_len \<le> 8 * length data"
    "8 * length data \<le> usize_max"
  shows "\<exists>r. extract_bits bit_len bit_pos data = Inr r \<and> length r = div_ceil bit_len 8 \<and>
    (\<forall>j. be_bit r j = (j < bit_len \<and> be_bit data (bit_pos + j)))"
  using extract_bits_loop[OF assms(3,4)] assms
  by (simp add: extract_bits_def checked_add_exact checked_mul_exact mult.commute Let_def)

text \<open>
  on the whole documented domain (bit position at most 7, at least one bit, all bits inside
  the slice) extraction succeeds, and the bytes it returns denote the number read from the slice,
  shifted right by the bit position and cut to the requested width, in the smallest number of
  bytes.
\<close>

theorem extract_bits_correct:
  assumes "bit_pos \<le> 7" "0 < bit_len" "bit_pos + bit_len \<le> 8 * length data"
    "8 * length data \<le> usize_max"
  shows "\<exists>r. extract_bits bit_len bit_pos data = Inr r \<and>
    length r = div_ceil bit_len 8 \<and> be_val r = be_val data div 2 ^ bit_pos mod 2 ^ bit_len"
  using extract_bits_window[OF assms] be_val_window by blast

theorem extract_bits_correct_witness:
  "\<exists>r. extract_bits 13 5 [0xAB, 0xCD, 0x42] = Inr r \<and>
    length r = div_ceil 13 8 \<and> be_val r = be_val [0xAB, 0xCD, 0x42] div 2 ^ 5 mod 2 ^ 13"
  by (rule extract_bits_correct) (simp_all add: usize_max_def)

text \<open>
  outside that domain extraction never returns data: a bit position above 7, a zero length
  or a window that leaves the slice is reported as a bad payload.
\<close>

theorem extract_bits_rejects:
  assumes "bit_pos > 7 \<or> bit_len = 0 \<or> bit_pos + bit_len > 8 * length data"
  shows "is_bad_payload (extract_bits bit_len bit_pos data)"
  using assms
  by (auto simp: extract_bits_def checked_add_def checked_mul_def mult.commute)

theorem extract_bits_rejects_witness:
  "is_bad_payload (extract_bits 16 0 [0xAB])"
  by (rule extract_bits_rejects) simp

end
