(* ===== verification/Bit_Pack.thy ===== *)
theory Bit_Pack
  imports Bits
begin

unbundle bit_operations_syntax

text \<open>
  The bit-field routines of \<open>cda-database/src/datatypes/diag_coded_type.rs\<close> that do not depend
  on a coded type: byte-order normalisation, injecting bits into a PDU cut-out, bit masks and
  condensed masks, and the packing and unpacking of one value (ISO 22901-1, 7.3.6.3 and 7.3.6.4).
\<close>

section \<open>Model\<close>

datatype byte_order_mode = Keep | ReorderPairs | Reverse

text \<open>\<open>for chunk in data.chunks_mut(2) { if chunk.len() == 2 { chunk.swap(0, 1) } }\<close>\<close>

fun swap_pairs :: "byte list \<Rightarrow> byte list" where
  "swap_pairs (a # b # rest) = b # a # swap_pairs rest"
| "swap_pairs rest = rest"

fun normalize_byte_order :: "byte list \<Rightarrow> byte_order_mode \<Rightarrow> byte list" where
  "normalize_byte_order data Keep = data"
| "normalize_byte_order data ReorderPairs = swap_pairs data"
| "normalize_byte_order data Reverse = rev data"

text \<open>The loop state of \<open>inject_bits\<close> is the running bit position and the destination.\<close>

definition inject_bits_step ::
  "nat \<Rightarrow> byte list \<Rightarrow> nat \<Rightarrow> nat \<times> byte list \<Rightarrow> (nat \<times> byte list) flow diag_result" where
  "inject_bits_step byte_count source_data i s =
     (let (bit_pos, dst_data) = s;
          src_byte_index = length source_data - i div 8 - 1;
          src_bit_offset = i mod 8
      in bindE (ok_or (map_option (\<lambda>b. byte_bit b src_bit_offset) (get source_data src_byte_index))
                  (BadPayload ''Source byte index out of bounds'')) (\<lambda>bit_value.
           let dst_byte_index = byte_count - 1 - bit_pos div 8;
               dst_bit_offset = bit_pos mod 8
           in if dst_byte_index \<ge> length dst_data then Inr (Break (bit_pos, dst_data))
              else bindE (set_bit_checked dst_data dst_byte_index dst_bit_offset bit_value False)
                (\<lambda>dst'. Inr (Continue (saturating_add bit_pos 1, dst')))))"

definition inject_bits :: "nat \<Rightarrow> nat \<Rightarrow> byte list \<Rightarrow> byte list \<Rightarrow> byte list diag_result" where
  "inject_bits bit_len bit_pos dst_data source_data =
     (if bit_pos > 7 then Inl (BadPayload ''BitPosition range is 0..=7'')
      else if bit_len = 0 then Inl (BadPayload ''Cannot inject 0 bits'')
      else
        let byte_count = div_ceil (saturating_add bit_pos bit_len) 8
        in bindE (for_range_break (inject_bits_step byte_count source_data)
                    (min bit_len (saturating_mul (length source_data) 8)) (bit_pos, dst_data))
             (\<lambda>(p, dst). Inr dst))"

definition apply_bit_mask_step ::
  "byte list \<Rightarrow> nat \<Rightarrow> nat \<Rightarrow> byte list \<Rightarrow> byte list flow diag_result" where
  "apply_bit_mask_step msk bit_pos i data =
     (if saturating_add bit_pos i \<ge> saturating_mul (length data) 8 then Inr (Break data)
      else
        let mask_byte_idx = length msk - i div 8 - 1;
            mask_bit_pos = i mod 8;
            mask_bit = (case get msk mask_byte_idx of None \<Rightarrow> 0 | Some b \<Rightarrow> byte_bit b mask_bit_pos);
            data_byte_idx = length data - saturating_add bit_pos i div 8 - 1;
            data_bit_pos = saturating_add bit_pos i mod 8;
            data_bit = (case get data data_byte_idx of None \<Rightarrow> 0 | Some b \<Rightarrow> byte_bit b data_bit_pos)
        in bindE (set_bit_checked data data_byte_idx data_bit_pos (data_bit AND mask_bit) True)
             (\<lambda>data'. Inr (Continue data')))"

definition apply_bit_mask :: "byte list \<Rightarrow> byte list \<Rightarrow> nat \<Rightarrow> nat \<Rightarrow> byte list diag_result" where
  "apply_bit_mask data msk bit_len bit_pos =
     for_range_break (apply_bit_mask_step msk bit_pos) bit_len data"

definition count_ones :: "byte \<Rightarrow> nat" where
  "count_ones b = length (filter (bit b) [0..<8])"

definition condensed_unpack_step ::
  "byte list \<Rightarrow> byte list \<Rightarrow> nat \<Rightarrow> nat \<Rightarrow> nat \<times> byte list \<Rightarrow> (nat \<times> byte list) diag_result" where
  "condensed_unpack_step bit_mask bit_field result_byte_count i s =
     (let (extracted_bits_count, result_bytes) = s;
          src_byte_index = length bit_field - i div 8 - 1;
          src_bit_offset = i mod 8
      in if src_byte_index < length bit_mask \<and>
            (case get bit_mask src_byte_index of None \<Rightarrow> 0 | Some b \<Rightarrow> byte_bit b src_bit_offset) = 1
         then
           let bit_value = (case get bit_field src_byte_index of None \<Rightarrow> 0 | Some b \<Rightarrow> byte_bit b src_bit_offset);
               target_byte_index = result_byte_count - extracted_bits_count div 8 - 1;
               target_bit_offset = extracted_bits_count mod 8
           in bindE (set_bit_checked result_bytes target_byte_index target_bit_offset bit_value False)
                (\<lambda>r. Inr (saturating_add extracted_bits_count 1, r))
         else Inr (extracted_bits_count, result_bytes))"

definition apply_condensed_mask_unpacking ::
  "byte list \<Rightarrow> byte list \<Rightarrow> nat \<Rightarrow> (byte list \<times> nat) diag_result" where
  "apply_condensed_mask_unpacking bit_mask bit_field bit_len =
     (let max_bits = min (sum_list (map count_ones bit_mask)) bit_len
      in if max_bits = 0 then Inr ([], 0)
         else
           let result_byte_count = div_ceil max_bits 8
           in bindE (for_range (condensed_unpack_step bit_mask bit_field result_byte_count) bit_len
                       (0, replicate result_byte_count 0))
                (\<lambda>(extracted_bits_count, result_bytes).
                  if div_ceil extracted_bits_count 8 < length result_bytes
                  then Inr (drop (div_ceil extracted_bits_count 8) result_bytes, max_bits)
                  else Inr (result_bytes, max_bits)))"

text \<open>
  The \<open>loop\<close> of the packing direction runs \<open>mask_bit_idx\<close> from 0 up to the number of msk
  bits, so it is a counting loop; its state is the number of data bits consumed and the result.
\<close>

definition condensed_pack_step ::
  "byte list \<Rightarrow> byte list \<Rightarrow> nat \<Rightarrow> nat \<Rightarrow> nat \<times> byte list \<Rightarrow> (nat \<times> byte list) diag_result" where
  "condensed_pack_step data msk bit_pos mask_bit_idx s =
     (let (data_bit_idx, result) = s;
          mask_byte_idx = length msk - mask_bit_idx div 8 - 1;
          mask_bit_pos = mask_bit_idx mod 8;
          mask_bit = (case get msk mask_byte_idx of None \<Rightarrow> 0 | Some b \<Rightarrow> byte_bit b mask_bit_pos)
      in if mask_bit = 1 \<and> data_bit_idx < saturating_mul (length data) 8
         then
           let data_byte_idx = length data - saturating_add bit_pos data_bit_idx div 8 - 1;
               data_bit_pos = saturating_add bit_pos data_bit_idx mod 8;
               data_bit = (case get data data_byte_idx of None \<Rightarrow> 0 | Some b \<Rightarrow> byte_bit b data_bit_pos)
           in bindE (set_bit_checked result mask_byte_idx mask_bit_pos data_bit True)
                (\<lambda>r. Inr (saturating_add data_bit_idx 1, r))
         else Inr (data_bit_idx, result))"

definition apply_condensed_mask_packing ::
  "byte list \<Rightarrow> byte list \<Rightarrow> nat \<Rightarrow> (byte list \<times> nat) diag_result" where
  "apply_condensed_mask_packing data msk bit_pos =
     (let mask_bits = saturating_mul (length msk) 8
      in bindE (for_range (condensed_pack_step data msk bit_pos) mask_bits (0, msk))
           (\<lambda>(data_bit_idx, result). Inr (result, mask_bits)))"

record bit_mask =
  mask_data :: "byte list"
  mask_condensed :: bool

definition unpack_data ::
  "nat \<Rightarrow> nat \<Rightarrow> bit_mask option \<Rightarrow> byte list \<Rightarrow> byte_order_mode \<Rightarrow> (byte list \<times> nat) diag_result" where
  "unpack_data bit_len bit_pos msk data byte_order =
     bindE (extract_bits bit_len bit_pos (normalize_byte_order data byte_order)) (\<lambda>bit_data.
       case msk of
         None \<Rightarrow> Inr (bit_data, bit_len)
       | Some m \<Rightarrow>
           if mask_condensed m then apply_condensed_mask_unpacking (mask_data m) bit_data bit_len
           else bindE (apply_bit_mask bit_data (mask_data m) bit_len bit_pos)
                  (\<lambda>masked. Inr (masked, bit_len)))"

datatype data_alignment = RightAlign | LeftAlign

definition clear_bits_above_bit_len :: "nat \<Rightarrow> byte list \<Rightarrow> byte list" where
  "clear_bits_above_bit_len bit_length result =
     (let remainder = bit_length mod 8
      in if remainder \<noteq> 0
         then
           let last_byte_idx = bit_length div 8
           in case get result last_byte_idx of
                Some last_byte \<Rightarrow> result[last_byte_idx := last_byte AND (push_bit remainder 1 - 1)]
              | None \<Rightarrow> result
         else result)"

definition checked_copy_aligned ::
  "byte list \<Rightarrow> byte list \<Rightarrow> nat \<Rightarrow> nat \<Rightarrow> data_alignment \<Rightarrow> byte list diag_result" where
  "checked_copy_aligned data result copy_bytes start_idx alignment =
     bindE (ok_or (get_range result start_idx (saturating_add start_idx copy_bytes))
              (BadPayload ''Result slice out of bounds'')) (\<lambda>dst.
     bindE (ok_or (case alignment of
                     RightAlign \<Rightarrow> get_range data (length data - copy_bytes) (length data)
                   | LeftAlign \<Rightarrow> get_range data 0 copy_bytes)
              (BadPayload ''Data slice out of bounds'')) (\<lambda>src.
       Inr (put_range result start_idx src)))"

text \<open>Both branches of \<open>pack_data\<close> that do not condense start with the same aligned copy.\<close>

definition pack_aligned :: "nat \<Rightarrow> byte list \<Rightarrow> data_alignment \<Rightarrow> byte list diag_result" where
  "pack_aligned bit_len data alignment =
     (let result_byte_len = div_ceil bit_len 8;
          result = replicate result_byte_len 0;
          copy_bytes = min (length data) result_byte_len;
          start_idx = (case alignment of RightAlign \<Rightarrow> result_byte_len - copy_bytes | LeftAlign \<Rightarrow> 0)
      in bindE (checked_copy_aligned data result copy_bytes start_idx alignment)
           (\<lambda>result'. Inr (clear_bits_above_bit_len bit_len result')))"

definition pack_data ::
  "nat \<Rightarrow> nat \<Rightarrow> bit_mask option \<Rightarrow> byte list \<Rightarrow> data_alignment \<Rightarrow> (byte list \<times> nat) diag_result" where
  "pack_data bit_len bit_pos msk data alignment =
     (if bit_len = 0 then Inl (BadPayload ''Cannot insert 0 bits'')
      else case msk of
        Some m \<Rightarrow>
          if mask_condensed m then apply_condensed_mask_packing data (mask_data m) bit_pos
          else bindE (pack_aligned bit_len data alignment) (\<lambda>result.
               bindE (apply_bit_mask result (mask_data m) bit_len bit_pos) (\<lambda>masked.
                 Inr (masked, bit_len)))
      | None \<Rightarrow>
          bindE (pack_aligned bit_len data alignment) (\<lambda>result. Inr (result, bit_len)))"

section \<open>Byte order\<close>

text \<open>
  Normalisation is applied once before and once after the bits of a cut-out change, so it must
  undo itself and keep the length.
\<close>

locale self_inverse =
  fixes f :: "'a list \<Rightarrow> 'a list"
  assumes f_f [simp]: "f (f xs) = xs"
    and f_length [simp]: "length (f xs) = length xs"
begin

lemma f_eq_iff: "f xs = ys \<longleftrightarrow> xs = f ys"
  by auto

lemma update_inside:
  assumes "length (g (f xs)) = length xs"
  shows "f (f (g (f xs))) = g (f xs)" "length (f (g (f xs))) = length xs"
  using assms by simp_all

end

lemma swap_pairs_length: "length (swap_pairs xs) = length xs"
  by (induction xs rule: swap_pairs.induct) simp_all

lemma swap_pairs_swap_pairs: "swap_pairs (swap_pairs xs) = xs"
  by (induction xs rule: swap_pairs.induct) simp_all

lemma normalize_length [simp]: "length (normalize_byte_order xs bo) = length xs"
  by (cases bo) (simp_all add: swap_pairs_length)

interpretation byte_order: self_inverse "\<lambda>xs. normalize_byte_order xs bo"
  by unfold_locales (cases bo; simp add: swap_pairs_length swap_pairs_swap_pairs)+

lemmas normalize_normalize [simp] = byte_order.f_f

section \<open>Injection\<close>

lemma inject_step_eq:
  assumes "i < 8 * length src" "p < 8 * length dst" "p < usize_max" "byte_count = length dst"
  shows "inject_bits_step byte_count src i (p, dst) =
    bindE (write_bit False p (be_bit src i) dst) (\<lambda>dst'. Inr (Continue (Suc p, dst')))"
proof -
  have "saturating_add p 1 = Suc p" using assms by (simp add: saturating_add_def)
  moreover have "\<not> length dst \<le> length dst - Suc (p div 8)" using assms by auto
  ultimately show ?thesis using assms
    by (simp add: inject_bits_step_def byte_bit_eq write_bit_def be_bit_def Let_def)
qed

lemma inject_bits_window:
  assumes "bit_pos \<le> 7" "0 < bit_len" "length dst = div_ceil (bit_pos + bit_len) 8"
    and "bit_pos + bit_len \<le> usize_max" "8 * length src \<le> usize_max"
  shows "\<exists>r. inject_bits bit_len bit_pos dst src = Inr r \<and> length r = length dst \<and>
    (\<forall>j. be_bit r j = (be_bit dst j \<or>
       (bit_pos \<le> j \<and> j < bit_pos + bit_len \<and> be_bit src (j - bit_pos))))"
proof -
  let ?n = "min bit_len (8 * length src)"
  let ?in = "\<lambda>i j. bit_pos \<le> j \<and> j < bit_pos + i \<and> be_bit src (j - bit_pos)"
  let ?P = "\<lambda>i (p, r). p = bit_pos + i \<and> length r = length dst \<and>
    (\<forall>j. be_bit r j = (be_bit dst j \<or> ?in i j))"
  have "\<exists>t. for_range_break (inject_bits_step (length dst) src) ?n (bit_pos, dst) = Inr t \<and> ?P ?n t"
  proof (rule for_range_break_rule[where P = ?P])
    fix i t assume i: "i < ?n" and P: "?P i t"
    obtain p r where t: "t = (p, r)" by (cases t)
    have p: "p < 8 * length r" "p < usize_max" "p = bit_pos + i" "length r = length dst"
      using P t i assms div_ceil_8_bounds(1)[of "bit_pos + bit_len"] by auto
    obtain r' where r': "write_bit False p (be_bit src i) r = Inr r'" using write_bit_ok[OF p(1)] by blast
    have "inject_bits_step (length dst) src i (p, r) =
        bindE (write_bit False p (be_bit src i) r) (\<lambda>d. Inr (Continue (Suc p, d)))"
      by (rule inject_step_eq) (use i p in simp_all)
    then have eq: "inject_bits_step (length dst) src i t = Inr (Continue (Suc p, r'))"
      by (simp only: t r' bindE.simps)
    have rd: "be_bit r' j = (if j = p then be_bit r p \<or> be_bit src i else be_bit r j)" for j
      using write_bit_rd[OF p(1) r'] by simp
    have "be_bit r' j = (be_bit dst j \<or> ?in (Suc i) j)" for j
      using rd[of j] P t p(3) by (cases "j = p") (auto simp: less_Suc_eq)
    then have "?P (Suc i) (Suc p, r')" using P t write_bit_length[OF r'] by simp
    with eq show "(\<exists>t'. inject_bits_step (length dst) src i t = Inr (Continue t') \<and> ?P (Suc i) t') \<or>
      (\<exists>t'. inject_bits_step (length dst) src i t = Inr (Break t') \<and> ?P ?n t')" by blast
  qed auto
  then obtain p r where t: "for_range_break (inject_bits_step (length dst) src) ?n (bit_pos, dst) = Inr (p, r)"
    and r: "length r = length dst" "\<And>j. be_bit r j = (be_bit dst j \<or> ?in ?n j)" by auto
  have "inject_bits bit_len bit_pos dst src = Inr r"
    using t assms by (simp add: inject_bits_def saturating_add_exact saturating_mul_exact mult.commute Let_def)
  moreover have "?in ?n j = ?in bit_len j" for j
    using be_bit_range[of src "j - bit_pos"] by auto
  ultimately show ?thesis using r by auto
qed

section \<open>Bit masks\<close>

lemma byte_bit_and: "byte_bit a i AND byte_bit b j = of_bool (bit a i \<and> bit b j)"
  by (simp add: byte_bit_eq)

lemma mask_step_eq:
  assumes "bit_pos + i < 8 * length d" "8 * length d \<le> usize_max" "i < 8 * length m"
  shows "apply_bit_mask_step m bit_pos i d =
    bindE (write_bit True (bit_pos + i) (be_bit d (bit_pos + i) \<and> be_bit m i) d) (\<lambda>d'. Inr (Continue d'))"
proof -
  have "length m - Suc (i div 8) < length m" "length d - Suc ((bit_pos + i) div 8) < length d"
    using assms by auto
  moreover have "saturating_add bit_pos i = bit_pos + i" "saturating_mul (length d) 8 = 8 * length d"
    using assms by (simp_all add: saturating_add_exact saturating_mul_exact mult.commute)
  ultimately show ?thesis using assms
    by (simp add: apply_bit_mask_step_def byte_bit_eq write_bit_def be_bit_def Let_def)
qed

lemma apply_bit_mask_window:
  assumes "bit_len \<le> 8 * length m" "8 * length d \<le> usize_max" "bit_pos + bit_len \<le> usize_max"
  shows "\<exists>r. apply_bit_mask d m bit_len bit_pos = Inr r \<and> length r = length d \<and>
    (\<forall>j. be_bit r j = (be_bit d j \<and>
      (bit_pos \<le> j \<and> j < bit_pos + bit_len \<longrightarrow> be_bit m (j - bit_pos))))"
proof -
  let ?f = "\<lambda>i j. bit_pos \<le> j \<and> j < bit_pos + i \<longrightarrow> be_bit m (j - bit_pos)"
  let ?P = "\<lambda>i r. length r = length d \<and> (\<forall>j. be_bit r j = (be_bit d j \<and> ?f i j))"
  have "\<exists>r. for_range_break (apply_bit_mask_step m bit_pos) bit_len d = Inr r \<and> ?P bit_len r"
  proof (rule for_range_break_rule[where P = ?P])
    fix i r assume i: "i < bit_len" and P: "?P i r"
    show "(\<exists>t'. apply_bit_mask_step m bit_pos i r = Inr (Continue t') \<and> ?P (Suc i) t') \<or>
      (\<exists>t'. apply_bit_mask_step m bit_pos i r = Inr (Break t') \<and> ?P bit_len t')"
    proof (cases "bit_pos + i < 8 * length r")
      case True
      obtain r' where r': "write_bit True (bit_pos + i) (be_bit r (bit_pos + i) \<and> be_bit m i) r = Inr r'"
        using write_bit_ok[OF True] by blast
      have "apply_bit_mask_step m bit_pos i r = Inr (Continue r')"
        using mask_step_eq[OF True, of m] r' i assms P by simp
      moreover have "be_bit r' j = (be_bit d j \<and> ?f (Suc i) j)" for j
        using write_bit_rd[OF True r', of j] P by (cases "j = bit_pos + i") (auto simp: less_Suc_eq)
      ultimately show ?thesis using P write_bit_length[OF r'] by auto
    next
      case False
      then have "saturating_mul (length r) 8 \<le> saturating_add bit_pos i"
        using assms i P by (simp add: saturating_add_exact saturating_mul_exact mult.commute)
      then have "apply_bit_mask_step m bit_pos i r = Inr (Break r)" by (simp add: apply_bit_mask_step_def)
      moreover have "be_bit d j \<Longrightarrow> j < bit_pos + i" for j
        using False P be_bit_range[of d j] by simp
      then have "?P bit_len r" using P i by (auto dest: less_trans)
      ultimately show ?thesis by blast
    qed
  qed auto
  then show ?thesis by (simp add: apply_bit_mask_def)
qed

section \<open>Packing\<close>

lemma aligned_copy_right:
  assumes "n \<le> usize_max"
  shows "checked_copy_aligned data (replicate n 0) (min (length data) n) (n - min (length data) n) RightAlign
    = Inr (replicate (n - length data) 0 @ drop (length data - n) data)"
proof -
  have "saturating_add (n - min (length data) n) (min (length data) n) = n"
    using assms by (subst saturating_add_exact) auto
  then show ?thesis
    by (cases "n \<le> length data")
      (simp_all add: checked_copy_aligned_def get_range_def put_range_def)
qed

lemma aligned_copy_left:
  assumes "n \<le> usize_max"
  shows "checked_copy_aligned data (replicate n 0) (min (length data) n) 0 LeftAlign
    = Inr (take n data @ replicate (n - length data) 0)"
proof -
  have "saturating_add 0 (min (length data) n) = min (length data) n"
    using assms by (subst saturating_add_exact) auto
  then show ?thesis
    by (cases "n \<le> length data")
      (simp_all add: checked_copy_aligned_def get_range_def put_range_def)
qed

lemma clear_bits_multiple: "bit_len mod 8 = 0 \<Longrightarrow> clear_bits_above_bit_len bit_len r = r"
  by (simp add: clear_bits_above_bit_len_def)

lemma clear_bits_length [simp]: "length (clear_bits_above_bit_len bit_len r) = length r"
  by (simp add: clear_bits_above_bit_len_def Let_def get_def)

text \<open>
  Clearing acts on the byte at index \<open>bit_len div 8\<close>, which in a big-endian buffer of the
  minimal length is the last one: it holds the least significant bits.
\<close>

lemma clear_bits_partial:
  assumes "length r = div_ceil bit_len 8" "bit_len mod 8 \<noteq> 0"
  shows "be_bit (clear_bits_above_bit_len bit_len r) j = (be_bit r j \<and> (j < 8 \<longrightarrow> j < bit_len mod 8))"
proof -
  let ?b = "r ! (bit_len div 8) AND (push_bit (bit_len mod 8) 1 - 1)"
  have len: "length r = Suc (bit_len div 8)" using assms by (simp add: div_ceil_def)
  have eq: "clear_bits_above_bit_len bit_len r = r[bit_len div 8 := ?b]"
    using assms len by (simp add: clear_bits_above_bit_len_def Let_def)
  have m: "bit (push_bit (bit_len mod 8) 1 - 1 :: byte) k = (k < bit_len mod 8 \<and> k < 8)" for k
    unfolding push_bit_of_1 mask_eq_exp_minus_1[symmetric] by (auto simp: bit_mask_iff)
  have mod8: "bit_len mod 8 < 8" by simp
  show ?thesis
  proof (cases "j < 8")
    case True
    then have "bit ?b j = (bit (r ! (bit_len div 8)) j \<and> j < bit_len mod 8)"
      using m[of j] by (auto simp only: bit_and_iff)
    then show ?thesis using True len by (simp add: be_bit_def eq)
  next
    case False
    then have "length r - j div 8 - 1 \<noteq> bit_len div 8 \<or> \<not> j < 8 * length r"
      using len by linarith
    then show ?thesis using False by (auto simp: be_bit_def eq)
  qed
qed

lemma pack_aligned_right:
  assumes "div_ceil bit_len 8 \<le> usize_max"
  shows "\<exists>r. pack_aligned bit_len data RightAlign = Inr r \<and> length r = div_ceil bit_len 8 \<and>
    (\<forall>j. be_bit r j = (j < 8 * div_ceil bit_len 8 \<and> be_bit data j \<and>
        (bit_len mod 8 \<noteq> 0 \<and> j < 8 \<longrightarrow> j < bit_len mod 8)))"
proof -
  let ?n = "div_ceil bit_len 8"
  let ?c = "replicate (?n - length data) 0 @ drop (length data - ?n) data"
  have eq: "pack_aligned bit_len data RightAlign = Inr (clear_bits_above_bit_len bit_len ?c)"
    using aligned_copy_right[OF assms, of data] by (simp add: pack_aligned_def Let_def)
  have c: "be_bit ?c j = (j < 8 * ?n \<and> be_bit data j)" for j
    by (auto simp: be_bit_append be_bit_drop dest: be_bit_range)
  have l: "length ?c = ?n" by simp
  show ?thesis
  proof (cases "bit_len mod 8 = 0")
    case True
    then show ?thesis using eq c l by (simp add: clear_bits_multiple)
  next
    case False
    then show ?thesis using eq clear_bits_partial[OF l False] c l by auto
  qed
qed

lemma pack_data_left_whole:
  assumes "data \<noteq> []" "length data * 8 \<le> usize_max"
  shows "pack_data (length data * 8) bit_pos None data LeftAlign = Inr (data, length data * 8)"
  using assms aligned_copy_left[of "length data" data]
  by (simp add: pack_data_def pack_aligned_def Let_def clear_bits_multiple)

lemma pack_data_right:
  assumes "0 < bit_len" "div_ceil bit_len 8 \<le> usize_max"
  shows "\<exists>r. pack_data bit_len bit_pos None data RightAlign = Inr (r, bit_len) \<and>
    length r = div_ceil bit_len 8 \<and>
    (\<forall>j. be_bit r j = (j < 8 * div_ceil bit_len 8 \<and> be_bit data j \<and>
        (bit_len mod 8 \<noteq> 0 \<and> j < 8 \<longrightarrow> j < bit_len mod 8)))"
  using pack_aligned_right[OF assms(2), of data] assms(1) by (auto simp: pack_data_def)

section \<open>Condensed masks\<close>

text \<open>The number of mask bits below position \<open>n\<close>: where the next selected bit goes.\<close>

definition ones :: "byte list \<Rightarrow> nat \<Rightarrow> nat" where
  "ones m n = length (filter (be_bit m) [0..<n])"

lemma ones_0 [simp]: "ones m 0 = 0"
  by (simp add: ones_def)

lemma ones_Suc [simp]: "ones m (Suc n) = ones m n + of_bool (be_bit m n)"
  by (simp add: ones_def)

lemma ones_le: "ones m n \<le> n"
  by (induction n) auto

lemma ones_mono: "a \<le> b \<Longrightarrow> ones m a \<le> ones m b"
  by (induction b) (auto simp: le_Suc_eq)

lemma ones_strict: "be_bit m i \<Longrightarrow> i < n \<Longrightarrow> ones m i < ones m n"
  using ones_mono[of "Suc i" n m] by simp

lemma ones_surj: "k < ones m n \<Longrightarrow> \<exists>i < n. be_bit m i \<and> ones m i = k"
proof (induction n)
  case (Suc n)
  show ?case
  proof (cases "k < ones m n")
    case True
    then show ?thesis using Suc.IH less_SucI by blast
  next
    case False
    with Suc.prems have "be_bit m n" "ones m n = k" by (cases "be_bit m n"; simp)+
    then show ?thesis by blast
  qed
qed simp

lemma ones_Cons: "ones (b # bs) (8 * length (b # bs)) = count_ones b + ones bs (8 * length bs)"
proof -
  let ?n = "8 * length bs"
  have "[0..<8 * length (b # bs)] = [0..<?n] @ map (\<lambda>k. k + ?n) [0..<8]"
    using upt_add_eq_append[of 0 ?n 8] map_add_upt[of ?n 8] by (simp add: add.commute)
  then have "ones (b # bs) (8 * length (b # bs)) =
      length (filter (be_bit (b # bs)) [0..<?n]) + length (filter (\<lambda>k. be_bit (b # bs) (k + ?n)) [0..<8])"
    unfolding ones_def by (simp only: filter_append length_append filter_map o_def length_map)
  also have "filter (be_bit (b # bs)) [0..<?n] = filter (be_bit bs) [0..<?n]"
    by (rule filter_cong) (auto simp: be_bit_Cons)
  also have "filter (\<lambda>k. be_bit (b # bs) (k + ?n)) [0..<8] = filter (bit b) [0..<8]"
    by (rule filter_cong) (auto simp: be_bit_Cons)
  finally show ?thesis by (simp add: ones_def count_ones_def)
qed

lemma ones_total: "sum_list (map count_ones m) = ones m (8 * length m)"
proof (induction m)
  case (Cons b m)
  then show ?case by (simp only: ones_Cons list.map sum_list.Cons)
qed simp

lemma condensed_pack_step_eq:
  assumes "i < 8 * length m" "length r = length m" "k < 8 * length d" "8 * length d \<le> usize_max"
  shows "condensed_pack_step d m 0 i (k, r) =
    (if be_bit m i then bindE (write_bit True i (be_bit d k) r) (\<lambda>r'. Inr (Suc k, r')) else Inr (k, r))"
proof -
  have "saturating_add k 1 = Suc k" "saturating_add 0 k = k" "saturating_mul (length d) 8 = 8 * length d"
    using assms by (simp_all add: saturating_add_exact saturating_mul_exact mult.commute)
  then show ?thesis using assms
    by (simp add: condensed_pack_step_def byte_bit_eq write_bit_def be_bit_def Let_def)
qed

lemma condensed_pack_step_skip:
  assumes "i < 8 * length m" "\<not> be_bit m i"
  shows "condensed_pack_step d m 0 i (k, r) = Inr (k, r)"
  using assms by (simp add: condensed_pack_step_def byte_bit_eq be_bit_def Let_def)

lemma condensed_packing_bits:
  assumes "ones m (8 * length m) \<le> 8 * length d" "8 * length d \<le> usize_max" "8 * length m \<le> usize_max"
  shows "\<exists>r. apply_condensed_mask_packing d m 0 = Inr (r, 8 * length m) \<and> length r = length m \<and>
    (\<forall>j. be_bit r j = (be_bit m j \<and> be_bit d (ones m j)))"
proof -
  let ?P = "\<lambda>i (k, r). k = ones m i \<and> length r = length m \<and>
    (\<forall>j. be_bit r j = (be_bit m j \<and> (j < i \<longrightarrow> be_bit d (ones m j))))"
  have "\<exists>t. for_range (condensed_pack_step d m 0) (8 * length m) (0, m) = Inr t \<and> ?P (8 * length m) t"
  proof (rule for_range_rule[where P = ?P])
    fix i t assume i: "i < 8 * length m" and P: "?P i t"
    obtain k r where t: "t = (k, r)" by (cases t)
    have kr: "k = ones m i" "length r = length m" using P t by auto
    show "\<exists>t'. condensed_pack_step d m 0 i t = Inr t' \<and> ?P (Suc i) t'"
    proof (cases "be_bit m i")
      case True
      have k: "k < 8 * length d" using ones_strict[OF True i] assms(1) kr by simp
      have ir: "i < 8 * length r" using i kr by simp
      obtain r' where r': "write_bit True i (be_bit d k) r = Inr r'" using write_bit_ok[OF ir] by blast
      have "condensed_pack_step d m 0 i t = Inr (Suc k, r')"
        using condensed_pack_step_eq[OF i kr(2) k assms(2)] True r' by (simp add: t)
      moreover have "be_bit r' j = (be_bit m j \<and> (j < Suc i \<longrightarrow> be_bit d (ones m j)))" for j
        using write_bit_rd[OF ir r', of j] P t True by (cases "j = i") (auto simp: less_Suc_eq)
      ultimately show ?thesis using kr True write_bit_length[OF r'] by auto
    next
      case False
      then show ?thesis using P t condensed_pack_step_skip[OF i False]
        by (auto simp: less_Suc_eq)
    qed
  qed auto
  then obtain k r where t: "for_range (condensed_pack_step d m 0) (8 * length m) (0, m) = Inr (k, r)"
    and r: "length r = length m" "\<And>j. be_bit r j = (be_bit m j \<and> (j < 8 * length m \<longrightarrow> be_bit d (ones m j)))"
    by auto
  have "saturating_mul (length m) 8 = 8 * length m"
    using assms(3) by (simp add: saturating_mul_exact mult.commute)
  then have "apply_condensed_mask_packing d m 0 = Inr (r, 8 * length m)"
    using t by (simp add: apply_condensed_mask_packing_def Let_def)
  with r show ?thesis by (auto dest: be_bit_range)
qed

lemma condensed_unpack_step_eq:
  assumes "i < 8 * length m" "length f = length m" "length r = n" "k < usize_max"
  shows "condensed_unpack_step m f n i (k, r) =
    (if be_bit m i then bindE (write_bit False k (be_bit f i) r) (\<lambda>r'. Inr (Suc k, r')) else Inr (k, r))"
proof -
  have "saturating_add k 1 = Suc k" using assms by (simp add: saturating_add_exact)
  moreover have "length m - Suc (i div 8) < length m" using assms by auto
  ultimately show ?thesis using assms
    by (simp add: condensed_unpack_step_def byte_bit_eq write_bit_def be_bit_def Let_def)
qed

lemma condensed_unpacking_bits:
  assumes "length f = length m" "8 * length m \<le> usize_max"
  shows "\<exists>r. apply_condensed_mask_unpacking m f (8 * length m) = Inr (r, ones m (8 * length m)) \<and>
    length r = div_ceil (ones m (8 * length m)) 8 \<and>
    (\<forall>k. be_bit r k = (\<exists>i < 8 * length m. be_bit m i \<and> ones m i = k \<and> be_bit f i))"
proof (cases "ones m (8 * length m) = 0")
  case True
  then have "\<not> be_bit m i" for i using ones_strict[of m i "8 * length m"] be_bit_range[of m i] by auto
  with True show ?thesis
    by (simp add: apply_condensed_mask_unpacking_def ones_total ones_le min_absorb1 div_ceil_def Let_def)
next
  case False
  let ?c = "ones m (8 * length m)"
  let ?n = "div_ceil ?c 8"
  let ?P = "\<lambda>i (k, r). k = ones m i \<and> length r = ?n \<and>
    (\<forall>j. be_bit r j = (\<exists>i' < i. be_bit m i' \<and> ones m i' = j \<and> be_bit f i'))"
  have "\<exists>t. for_range (condensed_unpack_step m f ?n) (8 * length m) (0, replicate ?n 0) = Inr t \<and> ?P (8 * length m) t"
  proof (rule for_range_rule[where P = ?P])
    fix i t assume i: "i < 8 * length m" and P: "?P i t"
    obtain k r where t: "t = (k, r)" by (cases t)
    have kr: "k = ones m i" "length r = ?n" using P t by auto
    have ku: "k < usize_max" using ones_le[of m i] i assms(2) kr by linarith
    note step = condensed_unpack_step_eq[OF i assms(1) kr(2) ku]
    show "\<exists>t'. condensed_unpack_step m f ?n i t = Inr t' \<and> ?P (Suc i) t'"
    proof (cases "be_bit m i")
      case True
      have k: "k < 8 * length r" using ones_strict[OF True i] div_ceil_8_bounds(1)[of ?c] kr by simp
      obtain r' where r': "write_bit False k (be_bit f i) r = Inr r'" using write_bit_ok[OF k] by blast
      have "condensed_unpack_step m f ?n i t = Inr (Suc k, r')" using step True r' by (simp add: t)
      moreover have "be_bit r' j = (\<exists>i' < Suc i. be_bit m i' \<and> ones m i' = j \<and> be_bit f i')" for j
        using write_bit_rd[OF k r', of j] P t True kr(1) by (cases "j = k") (auto simp: less_Suc_eq)
      ultimately show ?thesis using kr True write_bit_length[OF r'] by auto
    next
      case False
      then show ?thesis using P t step by (auto simp: less_Suc_eq)
    qed
  qed auto
  then obtain r where t: "for_range (condensed_unpack_step m f ?n) (8 * length m) (0, replicate ?n 0) = Inr (?c, r)"
    and r: "length r = ?n" "\<And>j. be_bit r j = (\<exists>i < 8 * length m. be_bit m i \<and> ones m i = j \<and> be_bit f i)"
    by auto
  have "apply_condensed_mask_unpacking m f (8 * length m) = Inr (r, ?c)"
    using t r(1) False
    by (simp add: apply_condensed_mask_unpacking_def ones_total ones_le min_absorb1 Let_def)
  with r show ?thesis by blast
qed

text \<open>Only the bits under the mask matter.\<close>

lemma condensed_unpacking_same:
  assumes "length f = length m" "length g = length m" "8 * length m \<le> usize_max"
    and "\<And>j. be_bit m j \<Longrightarrow> be_bit f j = be_bit g j"
  shows "apply_condensed_mask_unpacking m f (8 * length m) = apply_condensed_mask_unpacking m g (8 * length m)"
proof -
  obtain r where r: "apply_condensed_mask_unpacking m f (8 * length m) = Inr (r, ones m (8 * length m))"
    "length r = div_ceil (ones m (8 * length m)) 8"
    "\<And>k. be_bit r k = (\<exists>i < 8 * length m. be_bit m i \<and> ones m i = k \<and> be_bit f i)"
    using condensed_unpacking_bits[OF assms(1,3)] by blast
  obtain s where s: "apply_condensed_mask_unpacking m g (8 * length m) = Inr (s, ones m (8 * length m))"
    "length s = div_ceil (ones m (8 * length m)) 8"
    "\<And>k. be_bit s k = (\<exists>i < 8 * length m. be_bit m i \<and> ones m i = k \<and> be_bit g i)"
    using condensed_unpacking_bits[OF assms(2,3)] by blast
  have "r = s" by (rule be_bit_ext) (use r s assms(4) in auto)
  with r s show ?thesis by simp
qed

lemma condensed_roundtrip:
  assumes "ones m (8 * length m) \<le> 8 * length d" "8 * length d \<le> usize_max" "8 * length m \<le> usize_max"
  shows "\<exists>p r. apply_condensed_mask_packing d m 0 = Inr (p, 8 * length m) \<and> length p = length m \<and>
    apply_condensed_mask_unpacking m p (8 * length m) = Inr (r, ones m (8 * length m)) \<and>
    length r = div_ceil (ones m (8 * length m)) 8 \<and>
    be_val r = be_val d mod 2 ^ ones m (8 * length m)"
proof -
  let ?c = "ones m (8 * length m)"
  obtain p where p: "apply_condensed_mask_packing d m 0 = Inr (p, 8 * length m)" "length p = length m"
    "\<And>j. be_bit p j = (be_bit m j \<and> be_bit d (ones m j))"
    using condensed_packing_bits[OF assms] by blast
  obtain r where r: "apply_condensed_mask_unpacking m p (8 * length m) = Inr (r, ?c)"
    "length r = div_ceil ?c 8"
    "\<And>k. be_bit r k = (\<exists>i < 8 * length m. be_bit m i \<and> ones m i = k \<and> be_bit p i)"
    using condensed_unpacking_bits[OF p(2) assms(3)] by blast
  have "be_bit r k = (k < ?c \<and> be_bit d (0 + k))" for k
    using r(3)[of k] p(3) ones_surj[of k m "8 * length m"] ones_strict[of m _ "8 * length m"] by auto
  then have "be_val r = be_val d div 2 ^ 0 mod 2 ^ ?c" by (rule be_val_window)
  with p r show ?thesis by auto
qed

end
