(* ===== verification/Diag_Coded_Type.thy ===== *)
theory Diag_Coded_Type
  imports Bit_Pack
begin

unbundle bit_operations_syntax

text \<open>
  Coded types of diagnostic parameters, \<open>cda-database/src/datatypes/diag_coded_type.rs\<close>: the
  data model with its constructors and validations, the conversion from the flatbuffer
  description, and \<open>decode\<close> and \<open>encode\<close> of one parameter in a UDS payload. \<open>u32\<close> values
  are natural numbers, widened to \<open>usize\<close> as the source does with \<open>as usize\<close>; slices are
  shorter than \<open>isize::MAX\<close>, so a position inside a payload never saturates.
\<close>

section \<open>Data model\<close>

datatype data_type =
  Int32 | UInt32 | Float32 | AsciiString | Utf8String | Unicode2String | ByteField | Float64

datatype termination_kind = EndOfPdu | Zero | HexFF

record min_max_length_type =
  min_length :: nat
  max_length :: "nat option"
  mm_termination :: termination_kind

record standard_length_type =
  bit_length :: nat
  sl_bit_mask :: "byte list option"
  condensed :: bool

datatype diag_coded_type_variant =
    LeadingLengthInfo nat
  | MinMaxLength min_max_length_type
  | StandardLength standard_length_type
  | ParamLengthInfo string

record diag_coded_type =
  base_datatype :: data_type
  dct_type :: diag_coded_type_variant
  is_high_low_byte_order :: bool

definition validate_bit_len :: "data_type \<Rightarrow> nat \<Rightarrow> unit diag_result" where
  "validate_bit_len dt bit_len =
     (if bit_len = 0 then Inl (BadPayload ''Cannot extract data with length 0'')
      else if (dt = Int32 \<or> dt = UInt32) \<and> bit_len > 64
        then Inl (BadPayload ''Length must be at most 64 bit'')
      else if dt = Float32 \<and> bit_len \<noteq> 32 then Inl (BadPayload ''Length must be exactly 32 bit'')
      else if dt = Float64 \<and> bit_len \<noteq> 64 then Inl (BadPayload ''Length must be exactly 64 bit'')
      else if dt = Unicode2String \<and> bit_len mod 16 \<noteq> 0
        then Inl (BadPayload ''Length must be a multiple of 16 bit'')
      else Inr ())"

definition min_max_length_type_new ::
  "nat \<Rightarrow> nat option \<Rightarrow> termination_kind \<Rightarrow> min_max_length_type diag_result" where
  "min_max_length_type_new min_len max_len term =
     (case max_len of
        Some m \<Rightarrow>
          if m = 0 then Inl (BadPayload ''MinMaxLengthType max_length cannot be 0'')
          else if m < min_len
            then Inl (BadPayload ''MinMaxLengthType max_length cannot be less than min_length'')
          else Inr \<lparr>min_length = min_len, max_length = max_len, mm_termination = term\<rparr>
      | None \<Rightarrow> Inr \<lparr>min_length = min_len, max_length = max_len, mm_termination = term\<rparr>)"

fun is_byte_type :: "data_type \<Rightarrow> bool" where
  "is_byte_type ByteField = True"
| "is_byte_type AsciiString = True"
| "is_byte_type Unicode2String = True"
| "is_byte_type Utf8String = True"
| "is_byte_type dt = False"

definition diag_coded_type_new ::
  "data_type \<Rightarrow> diag_coded_type_variant \<Rightarrow> bool \<Rightarrow> diag_coded_type diag_result" where
  "diag_coded_type_new base ty high_low =
     bindE (case ty of
         LeadingLengthInfo bits \<Rightarrow>
           if \<not> is_byte_type base
           then Inl (InvalidDatabase ''LeadingLengthInfo and MinMaxLength are only allowed for ByteField, AsciiString, Unicode2String, and Utf8String'')
           else Inr ()
       | MinMaxLength mmlt \<Rightarrow>
           if \<not> is_byte_type base
           then Inl (InvalidDatabase ''LeadingLengthInfo and MinMaxLength are only allowed for ByteField, AsciiString, Unicode2String, and Utf8String'')
           else if base = Unicode2String \<and>
               (min_length mmlt mod 2 \<noteq> 0 \<or>
                \<not> (case max_length mmlt of None \<Rightarrow> False | Some l \<Rightarrow> l mod 2 = 0))
           then Inl (BadPayload ''DataType needs an even amount of min/max bytes'')
           else Inr ()
       | StandardLength slt \<Rightarrow> Inr ()
       | ParamLengthInfo key \<Rightarrow> Inr ())
     (\<lambda>_. Inr \<lparr>base_datatype = base, dct_type = ty, is_high_low_byte_order = high_low\<rparr>)"

definition new_high_low_byte_order ::
  "data_type \<Rightarrow> diag_coded_type_variant \<Rightarrow> diag_coded_type diag_result" where
  "new_high_low_byte_order base ty = diag_coded_type_new base ty True"

definition dct_bit_len :: "diag_coded_type \<Rightarrow> nat option" where
  "dct_bit_len d = (case dct_type d of
      LeadingLengthInfo bits \<Rightarrow> Some bits
    | MinMaxLength mmlt \<Rightarrow> None
    | StandardLength slt \<Rightarrow> Some (bit_length slt)
    | ParamLengthInfo key \<Rightarrow> None)"

definition length_key_name :: "diag_coded_type \<Rightarrow> string option" where
  "length_key_name d = (case dct_type d of ParamLengthInfo name \<Rightarrow> Some name | _ \<Rightarrow> None)"

section \<open>Conversion from the database description\<close>

text \<open>
  The flatbuffer enums are integer codes; the accessors of the union return the table only when
  the stored discriminant names it.
\<close>

definition data_type_try_from :: "int \<Rightarrow> data_type diag_result" where
  "data_type_try_from code =
     (if code = 1 then Inr UInt32
      else if code = 0 then Inr Int32
      else if code = 2 then Inr Float32
      else if code = 7 then Inr Float64
      else if code = 3 then Inr AsciiString
      else if code = 4 then Inr Utf8String
      else if code = 5 then Inr Unicode2String
      else if code = 6 then Inr ByteField
      else Inl (InvalidDatabase ''Unsupported DataType''))"

definition termination_try_from :: "int \<Rightarrow> termination_kind diag_result" where
  "termination_try_from code =
     (if code = 0 then Inr EndOfPdu
      else if code = 1 then Inr Zero
      else if code = 2 then Inr HexFF
      else Inl (InvalidDatabase ''Termination not found''))"

datatype fb_specific_data =
    FbLeadingLengthInfoType nat
  | FbMinMaxLengthType nat "nat option" int
  | FbParamLengthInfoType "string option option"
  | FbStandardLengthType nat "byte list option" bool

record fb_diag_coded_type =
  fb_base_data_type :: int
  fb_is_high_low_byte_order :: bool
  fb_specific_data_type :: nat
  fb_specific_data :: "fb_specific_data option"

definition variant_try_from :: "fb_diag_coded_type \<Rightarrow> diag_coded_type_variant diag_result" where
  "variant_try_from v =
     (if fb_specific_data_type v = 4 then
        (case fb_specific_data v of
           Some (FbStandardLengthType bl bm c) \<Rightarrow>
             Inr (StandardLength \<lparr>bit_length = bl, sl_bit_mask = bm, condensed = c\<rparr>)
         | _ \<Rightarrow> Inl (InvalidDatabase ''DiagCodedType SpecificData StandardLengthType not found''))
      else if fb_specific_data_type v = 1 then
        (case fb_specific_data v of
           Some (FbLeadingLengthInfoType bl) \<Rightarrow> Inr (LeadingLengthInfo bl)
         | _ \<Rightarrow> Inl (InvalidDatabase ''DiagCodedType SpecificData LeadingLengthInfoType not found''))
      else if fb_specific_data_type v = 2 then
        (case fb_specific_data v of
           Some (FbMinMaxLengthType mn mx t) \<Rightarrow>
             bindE (termination_try_from t) (\<lambda>term.
             bindE (min_max_length_type_new mn mx term) (\<lambda>mmlt. Inr (MinMaxLength mmlt)))
         | _ \<Rightarrow> Inl (InvalidDatabase ''DiagCodedType SpecificData MinMaxLengthType not found''))
      else if fb_specific_data_type v = 3 then
        (case fb_specific_data v of
           Some (FbParamLengthInfoType None) \<Rightarrow>
             Inl (InvalidDatabase ''ParamLengthInfoType has no length_key param reference'')
         | Some (FbParamLengthInfoType (Some None)) \<Rightarrow>
             Inl (InvalidDatabase ''ParamLengthInfoType length_key param has no short_name'')
         | Some (FbParamLengthInfoType (Some (Some name))) \<Rightarrow> Inr (ParamLengthInfo name)
         | _ \<Rightarrow> Inl (InvalidDatabase ''DiagCodedType SpecificData ParamLengthInfoType not found''))
      else Inl (InvalidDatabase ''DiagCodedType SpecificData type not supported''))"

definition diag_coded_type_try_from :: "fb_diag_coded_type \<Rightarrow> diag_coded_type diag_result" where
  "diag_coded_type_try_from v =
     bindE (data_type_try_from (fb_base_data_type v)) (\<lambda>base.
     bindE (variant_try_from v) (\<lambda>ty.
       Inr \<lparr>base_datatype = base, dct_type = ty,
            is_high_low_byte_order = fb_is_high_low_byte_order v\<rparr>))"

section \<open>Decoding\<close>

definition byte_order :: "diag_coded_type \<Rightarrow> byte_order_mode" where
  "byte_order d =
     (if is_high_low_byte_order d then Keep
      else case base_datatype d of
        Unicode2String \<Rightarrow> ReorderPairs
      | ByteField \<Rightarrow> Keep
      | AsciiString \<Rightarrow> Keep
      | Utf8String \<Rightarrow> Keep
      | _ \<Rightarrow> Reverse)"

definition validate_bit_pos :: "diag_coded_type \<Rightarrow> nat \<Rightarrow> unit diag_result" where
  "validate_bit_pos d bit_pos =
     (if is_byte_type (base_datatype d) \<and> bit_pos \<noteq> 0
      then Inl (BadPayload ''Bit position must be 0'') else Inr ())"

definition decode_with_runtime_byte_length ::
  "byte list \<Rightarrow> nat \<Rightarrow> nat \<Rightarrow> (byte list \<times> nat) diag_result" where
  "decode_with_runtime_byte_length uds_payload byte_pos byte_count =
     (if byte_count = 0 then Inr ([], 0)
      else
        let end_pos = saturating_add byte_pos byte_count
        in if length uds_payload < end_pos then Inl (NotEnoughData end_pos (length uds_payload))
           else Inr (case get_range uds_payload byte_pos end_pos of None \<Rightarrow> [] | Some d \<Rightarrow> d,
                     saturating_mul byte_count 8))"

type_synonym pos_info = "nat \<times> nat \<times> bit_mask option"

definition pos_info_standard_len ::
  "diag_coded_type \<Rightarrow> nat \<Rightarrow> standard_length_type \<Rightarrow> pos_info diag_result" where
  "pos_info_standard_len d byte_pos slt =
     bindE (validate_bit_len (base_datatype d) (bit_length slt)) (\<lambda>_.
       Inr (bit_length slt, byte_pos,
            map_option (\<lambda>m. \<lparr>mask_data = m, mask_condensed = condensed slt\<rparr>) (sl_bit_mask slt)))"

text \<open>
  The four search loops of the source differ in their stride (2 for UTF-16, else 1) and in the
  terminator; \<open>scan_until\<close> is the loop, \<open>stop\<close> its exit test.
\<close>

function scan_until :: "(nat \<Rightarrow> bool) \<Rightarrow> nat \<Rightarrow> nat \<Rightarrow> nat \<Rightarrow> nat" where
  "scan_until stop stride max_end end_pos =
     (if end_pos < max_end \<and> 0 < stride \<and> \<not> stop end_pos
      then scan_until stop stride max_end (end_pos + stride) else end_pos)"
  by pat_completeness auto
termination
  by (relation "measure (\<lambda>(stop, stride, max_end, end_pos). max_end - end_pos)") auto

declare scan_until.simps [simp del]

definition stop_at :: "data_type \<Rightarrow> byte list \<Rightarrow> nat \<Rightarrow> nat \<Rightarrow> byte \<Rightarrow> nat \<Rightarrow> bool" where
  "stop_at base uds_payload byte_pos min_len t end_pos \<longleftrightarrow>
     min_len \<le> end_pos - byte_pos \<and> get uds_payload end_pos = Some t \<and>
     (base = Unicode2String \<longrightarrow>
        end_pos + 1 < length uds_payload \<and> get uds_payload (end_pos + 1) = Some t)"

definition scan_stride :: "data_type \<Rightarrow> nat" where
  "scan_stride base = (if base = Unicode2String then 2 else 1)"

definition pos_info_min_max_len ::
  "diag_coded_type \<Rightarrow> byte list \<Rightarrow> nat \<Rightarrow> min_max_length_type \<Rightarrow> pos_info diag_result" where
  "pos_info_min_max_len d uds_payload byte_pos mmlt =
     (let base = base_datatype d;
          max_end = (case max_length mmlt of
              Some m \<Rightarrow> min (saturating_add byte_pos m) (length uds_payload)
            | None \<Rightarrow> length uds_payload)
      in bindE (case mm_termination mmlt of
             EndOfPdu \<Rightarrow> Inr max_end
           | Zero \<Rightarrow>
               let end_pos = scan_until (stop_at base uds_payload byte_pos (min_length mmlt) 0)
                               (scan_stride base) max_end byte_pos
               in if end_pos > length uds_payload then Inl (BadPayload ''Not enough data in payload'')
                  else Inr end_pos
           | HexFF \<Rightarrow>
               Inr (scan_until (stop_at base uds_payload byte_pos (min_length mmlt) 0xFF)
                      (scan_stride base) max_end byte_pos))
         (\<lambda>end_pos.
           let len = end_pos - byte_pos
           in if len < min_length mmlt
              then Inl (NotEnoughData (saturating_add byte_pos (min_length mmlt)) (length uds_payload))
              else Inr (saturating_mul (end_pos - byte_pos) 8, byte_pos, None)))"

definition usize_from_bytes :: "byte list \<Rightarrow> nat diag_result" where
  "usize_from_bytes length_info_bytes =
     (let n = length length_info_bytes
      in if n = 1 then Inr (unat (length_info_bytes ! 0))
         else if n = 2 then Inr (be_val [length_info_bytes ! 0, length_info_bytes ! 1])
         else if n = 3
           then Inr (be_val [0, length_info_bytes ! 0, length_info_bytes ! 1, length_info_bytes ! 2])
         else if n = 4
           then Inr (be_val [length_info_bytes ! 0, length_info_bytes ! 1,
                             length_info_bytes ! 2, length_info_bytes ! 3])
         else if 5 \<le> n \<and> n \<le> 8 then Inr (be_val (put_range (replicate 8 0) (8 - n) length_info_bytes))
         else Inl (BadPayload ''unsupported leading length size''))"

definition pos_info_leading_len ::
  "diag_coded_type \<Rightarrow> byte list \<Rightarrow> nat \<Rightarrow> nat \<Rightarrow> byte_order_mode \<Rightarrow> nat \<Rightarrow> pos_info diag_result" where
  "pos_info_leading_len d uds_payload byte_pos bit_pos bo bits =
     bindE (validate_bit_len (base_datatype d) bits) (\<lambda>_.
     bindE (ok_or (get_range uds_payload byte_pos (saturating_add byte_pos (div_ceil bits 8)))
              (BadPayload ''Payload slice for leading length out of bounds'')) (\<lambda>slice.
     bindE (unpack_data bits bit_pos None slice bo) (\<lambda>(length_info_bytes, _).
     bindE (usize_from_bytes length_info_bytes) (\<lambda>len.
       let start_pos = saturating_add byte_pos (length length_info_bytes);
           end_pos = saturating_add start_pos len
       in if end_pos > length uds_payload then Inl (NotEnoughData end_pos (length uds_payload))
          else Inr (saturating_mul (end_pos - start_pos) 8, start_pos, None)))))"

definition decode :: "diag_coded_type \<Rightarrow> byte list \<Rightarrow> nat \<Rightarrow> nat \<Rightarrow> (byte list \<times> nat) diag_result" where
  "decode d uds_payload byte_pos bit_pos =
     bindE (validate_bit_pos d bit_pos) (\<lambda>_.
     let bo = byte_order d in
     bindE (case dct_type d of
         LeadingLengthInfo bits \<Rightarrow> pos_info_leading_len d uds_payload byte_pos bit_pos bo bits
       | MinMaxLength mmlt \<Rightarrow> pos_info_min_max_len d uds_payload byte_pos mmlt
       | StandardLength slt \<Rightarrow> pos_info_standard_len d byte_pos slt
       | ParamLengthInfo key_name \<Rightarrow>
           Inl (InvalidDatabase ''ParamLengthInfo requires a runtime-resolved byte length; call decode_with_runtime_byte_length instead''))
     (\<lambda>(bit_len, start_pos, msk).
       if bit_len = 0 then Inr ([], 0)
       else
         let end_pos = saturating_add start_pos (div_ceil bit_len 8)
         in if length uds_payload < end_pos then Inl (NotEnoughData end_pos (length uds_payload))
            else bindE (ok_or (get_range uds_payload start_pos end_pos)
                          (BadPayload ''Payload slice out of bounds'')) (\<lambda>slice.
                   unpack_data bit_len bit_pos msk slice bo)))"

section \<open>Encoding\<close>

text \<open>
  \<open>input_data.len() << usize::BITS.saturating_sub(len_bit_len)\<close>: the shift amount is reduced
  modulo 64, as the machine does (it is 64 only for a bit length of 0, where the result is
  rejected right after).
\<close>

definition leading_length_bytes :: "nat \<Rightarrow> nat \<Rightarrow> byte list diag_result" where
  "leading_length_bytes bits len =
     (let len_byte_count = div_ceil bits 8;
          len_bit_len = min (len_byte_count * 8) u32_max;
          shifted = (len * 2 ^ ((64 - len_bit_len) mod 64)) mod 2 ^ 64
      in bindE (ok_or (get_range (be_bytes 8 shifted) 0 len_byte_count)
                  (BadPayload ''Length byte count out of bounds'')) (\<lambda>data.
           if data = [] then Inl (BadPayload ''Failed to create length info for leading length'')
           else Inr data))"

definition terminator_bytes :: "data_type \<Rightarrow> termination_kind \<Rightarrow> byte list" where
  "terminator_bytes base t =
     (case t of
        EndOfPdu \<Rightarrow> []
      | Zero \<Rightarrow> if base = Unicode2String then [0, 0] else [0]
      | HexFF \<Rightarrow> if base = Unicode2String then [0xFF, 0xFF] else [0xFF])"

definition alignment_of :: "data_type \<Rightarrow> data_alignment" where
  "alignment_of base = (if is_byte_type base then LeftAlign else RightAlign)"

text \<open>
  The packing half of \<open>encode\<close>. The result \<open>None\<close> is the early \<open>return Ok(())\<close> for an empty
  parameter-length field.
\<close>

definition encode_pack ::
  "diag_coded_type \<Rightarrow> byte list \<Rightarrow> (byte list \<times> nat \<times> bit_mask option) option diag_result" where
  "encode_pack d input_data =
     (case dct_type d of
        LeadingLengthInfo bits \<Rightarrow>
          bindE (leading_length_bytes bits (length input_data)) (\<lambda>len_bytes.
            let data = len_bytes @ input_data
            in bindE (pack_data (saturating_mul (length data) 8) 0 None data LeftAlign)
                 (\<lambda>(packed, len). Inr (Some (packed, len, None))))
      | MinMaxLength mmlt \<Rightarrow>
          let data = input_data @ terminator_bytes (base_datatype d) (mm_termination mmlt)
          in bindE (pack_data (saturating_mul (length data) 8) 0 None data LeftAlign)
               (\<lambda>(packed, len). Inr (Some (packed, len, None)))
      | StandardLength slt \<Rightarrow>
          bindE (validate_bit_len (base_datatype d) (bit_length slt)) (\<lambda>_.
            let msk = (case sl_bit_mask slt of
                  None \<Rightarrow> None
                | Some m \<Rightarrow> if m = [] then None
                            else Some \<lparr>mask_data = m, mask_condensed = condensed slt\<rparr>)
            in bindE (pack_data (bit_length slt) 0 msk input_data (alignment_of (base_datatype d)))
                 (\<lambda>(packed, len).
                   if len > bit_length slt
                   then Inl (BadPayload ''StandardLengthType input data length exceeds allowed length'')
                   else Inr (Some (packed, len, msk))))
      | ParamLengthInfo key \<Rightarrow>
          let bits = saturating_mul (length input_data) 8
          in if bits = 0 then Inr None
             else bindE (pack_data bits 0 None input_data LeftAlign)
                    (\<lambda>(packed, len). Inr (Some (packed, len, None))))"

definition extend_payload :: "byte list \<Rightarrow> nat \<Rightarrow> byte list" where
  "extend_payload uds_payload n = (if length uds_payload < n then resize uds_payload n 0 else uds_payload)"

text \<open>
  The second half works on the payload in place: an error after the payload was extended leaves
  the extended payload behind, so the model returns the payload with the result.
\<close>

definition encode_inject ::
  "diag_coded_type \<Rightarrow> byte list \<Rightarrow> nat \<Rightarrow> bit_mask option \<Rightarrow> byte list \<Rightarrow> nat \<Rightarrow> nat
   \<Rightarrow> unit diag_result \<times> byte list" where
  "encode_inject d packed_bytes bit_len msk uds_payload byte_pos bit_pos =
     (let byte_count = div_ceil (saturating_add bit_pos bit_len) 8;
          end_pos = saturating_add byte_pos byte_count;
          payload = extend_payload uds_payload end_pos
      in case bindE (ok_or (get_range payload byte_pos end_pos)
                       (BadPayload ''PDU cut-out slice out of bounds'')) (\<lambda>slice.
                let pdu_cut_out = normalize_byte_order slice (byte_order d)
                in bindE (case msk of
                       None \<Rightarrow> Inr pdu_cut_out
                     | Some m \<Rightarrow> apply_bit_mask pdu_cut_out (map (\<lambda>b. NOT b) (mask_data m)) bit_len bit_pos)
                   (\<lambda>masked. bindE (inject_bits bit_len bit_pos masked packed_bytes)
                   (\<lambda>injected. Inr (normalize_byte_order injected (byte_order d)))))
         of Inl e \<Rightarrow> (Inl e, payload)
          | Inr new_bytes \<Rightarrow> (Inr (), put_range payload byte_pos new_bytes))"

definition encode ::
  "diag_coded_type \<Rightarrow> byte list \<Rightarrow> byte list \<Rightarrow> nat \<Rightarrow> nat \<Rightarrow> unit diag_result \<times> byte list" where
  "encode d input_data uds_payload byte_pos bit_pos =
     (case bindE (validate_bit_pos d bit_pos) (\<lambda>_. encode_pack d input_data) of
        Inl e \<Rightarrow> (Inl e, uds_payload)
      | Inr None \<Rightarrow> (Inr (), uds_payload)
      | Inr (Some (packed_bytes, bit_len, msk)) \<Rightarrow>
          encode_inject d packed_bytes bit_len msk uds_payload byte_pos bit_pos)"

end
