(* ===== verification/Coded_Type_Correct.thy ===== *)
theory Coded_Type_Correct
  imports Diag_Coded_Type
begin

unbundle bit_operations_syntax

text \<open>
  Correctness of the coded types: what the constructors establish, that encoding followed by
  decoding gives the value back for every kind of coded type, that encoding leaves the rest of
  the payload alone, and how short payloads and misplaced parameters are rejected.
\<close>

section \<open>Length fields\<close>

lemma div_ceil_8_le_8: "bits \<le> 64 \<Longrightarrow> div_ceil bits 8 \<le> 8"
  by (simp add: div_ceil_8)

lemma leading_length_bytes_eq:
  assumes "0 < bits" "bits \<le> 64" "len < 256 ^ div_ceil bits 8"
  shows "leading_length_bytes bits len = Inr (be_bytes (div_ceil bits 8) len)"
proof -
  let ?n = "div_ceil bits 8"
  have n: "0 < ?n" "?n \<le> 8" using assms div_ceil_8_pos div_ceil_8_le_8 by auto
  have sh: "(64 - min (?n * 8) u32_max) mod 64 = 8 * (8 - ?n)"
    using n by (simp add: u32_max_def)
  have p: "(2::nat) ^ (8 * (8 - ?n)) = 256 ^ (8 - ?n)" by (simp add: power_mult)
  have "len * 256 ^ (8 - ?n) < 256 ^ ?n * 256 ^ (8 - ?n)" using assms(3) by simp
  then have lt: "len * 256 ^ (8 - ?n) < 2 ^ 64" using n by (simp flip: power_add)
  have "take ?n (be_bytes (?n + (8 - ?n)) (len * 256 ^ (8 - ?n))) = be_bytes ?n len"
    by (simp only: take_be_bytes) simp
  then have "take ?n (be_bytes 8 (len * 256 ^ (8 - ?n))) = be_bytes ?n len" using n by simp
  moreover have "be_bytes ?n len \<noteq> []" using n length_be_bytes[of ?n len] by fastforce
  ultimately show ?thesis using n sh p lt
    by (simp add: leading_length_bytes_def Let_def get_range_def)
qed

lemma be_val_zeros_append: "be_val (replicate k 0 @ bs) = be_val bs"
  by (induction k) auto

lemma usize_from_bytes_eq:
  assumes "0 < length bs" "length bs \<le> 8"
  shows "usize_from_bytes bs = Inr (be_val bs)"
proof -
  consider "length bs = 1" | "length bs = 2" | "length bs = 3" | "length bs = 4" | "5 \<le> length bs"
    using assms by linarith
  then show ?thesis
  proof cases
    case 1
    then obtain a where "bs = [a]" by (auto simp: length_Suc_conv)
    then show ?thesis by (simp add: usize_from_bytes_def)
  next
    case 2
    then obtain a b where "bs = [a, b]" by (auto simp: length_Suc_conv numeral_eq_Suc)
    then show ?thesis by (simp add: usize_from_bytes_def)
  next
    case 3
    then obtain a b c where "bs = [a, b, c]" by (auto simp: length_Suc_conv numeral_eq_Suc)
    then show ?thesis by (simp add: usize_from_bytes_def)
  next
    case 4
    then obtain a b c e where "bs = [a, b, c, e]" by (auto simp: length_Suc_conv numeral_eq_Suc)
    then show ?thesis by (simp add: usize_from_bytes_def)
  next
    case 5
    then show ?thesis using assms be_val_zeros_append[of "8 - length bs" bs]
      by (simp add: usize_from_bytes_def Let_def put_range_def)
  qed
qed

section \<open>Whole-byte extraction\<close>

lemma extract_bits_whole:
  assumes "d \<noteq> []" "8 * length d \<le> usize_max"
  shows "extract_bits (8 * length d) 0 d = Inr d"
proof -
  obtain r where r: "extract_bits (8 * length d) 0 d = Inr r" "length r = length d"
    "\<And>j. be_bit r j = (j < 8 * length d \<and> be_bit d j)"
    using extract_bits_window[of 0 "8 * length d" d] assms by auto
  have "r = d" by (rule be_bit_ext) (use r be_bit_range in auto)
  with r show ?thesis by simp
qed

lemma unpack_whole:
  assumes "d \<noteq> []" "8 * length d \<le> usize_max"
  shows "unpack_data (8 * length d) 0 None (normalize_byte_order d bo) bo = Inr (d, 8 * length d)"
  using extract_bits_whole[OF assms] by (simp add: unpack_data_def)

lemma unpack_window:
  assumes "bit_pos \<le> 7" "0 < n" "bit_pos + n \<le> 8 * length d" "8 * length d \<le> usize_max"
  shows "\<exists>r. unpack_data n bit_pos None (normalize_byte_order d bo) bo = Inr (r, n) \<and>
    length r = div_ceil n 8 \<and> (\<forall>j. be_bit r j = (j < n \<and> be_bit d (bit_pos + j)))"
  using extract_bits_window[OF assms(1-4)] by (auto simp: unpack_data_def)

section \<open>The injecting half of encode\<close>

text \<open>
  The bytes of the payload that an encoding step works on: the payload is first extended with
  zeros, then \<open>n\<close> bytes are cut out.
\<close>

definition cut_out :: "byte list \<Rightarrow> nat \<Rightarrow> nat \<Rightarrow> byte list" where
  "cut_out payload byte_pos n = take n (drop byte_pos (extend_payload payload (byte_pos + n)))"

definition target_bits_clear :: "diag_coded_type \<Rightarrow> byte list \<Rightarrow> nat \<Rightarrow> nat \<Rightarrow> nat \<Rightarrow> bool" where
  "target_bits_clear d payload byte_pos bit_pos n \<longleftrightarrow>
     (\<forall>j. bit_pos \<le> j \<and> j < bit_pos + n \<longrightarrow>
        \<not> be_bit (normalize_byte_order (cut_out payload byte_pos (div_ceil (bit_pos + n) 8)) (byte_order d)) j)"

lemma length_extend: "length (extend_payload p n) = max (length p) n"
  by (simp add: extend_payload_def)

lemma extend_ge: "n \<le> length (extend_payload p n)"
  by (simp add: length_extend)

lemma length_cut_out [simp]: "length (cut_out p b n) = n"
  using extend_ge[of "b + n" p] by (simp add: cut_out_def)

lemma swap_pairs_zeros: "swap_pairs (replicate n 0) = replicate n 0"
proof (induction n rule: induct_nat_012)
  case (ge2 n)
  then show ?case by simp
qed simp_all

lemma normalize_zeros [simp]: "normalize_byte_order (replicate n 0) bo = replicate n 0"
  by (cases bo) (simp_all add: swap_pairs_zeros)

lemma fresh_cut_out: "length p \<le> b \<Longrightarrow> cut_out p b n = replicate n 0"
  by (simp add: cut_out_def extend_payload_def resize_def)

lemma fresh_target_clear: "length p \<le> b \<Longrightarrow> target_bits_clear d p b bit_pos n"
  by (simp add: target_bits_clear_def fresh_cut_out)

lemma get_cut_out:
  "get_range (extend_payload p (b + n)) b (b + n) = Some (cut_out p b n)"
  using extend_ge[of "b + n" p] by (simp add: get_range_def cut_out_def)

lemma encode_inject_plain:
  assumes "bit_pos \<le> 7" "0 < m" "n = div_ceil (bit_pos + m) 8" "b + n \<le> usize_max"
    "bit_pos + m \<le> usize_max" "8 * length packed \<le> usize_max"
  shows "\<exists>inj. encode_inject d packed m None p b bit_pos =
      (Inr (), put_range (extend_payload p (b + n)) b (normalize_byte_order inj (byte_order d))) \<and>
    length inj = n \<and>
    (\<forall>j. be_bit inj j = (be_bit (normalize_byte_order (cut_out p b n) (byte_order d)) j \<or>
       (bit_pos \<le> j \<and> j < bit_pos + m \<and> be_bit packed (j - bit_pos))))"
proof -
  let ?c = "normalize_byte_order (cut_out p b n) (byte_order d)"
  have "length ?c = div_ceil (bit_pos + m) 8" using assms(3) by simp
  then obtain inj where "inject_bits m bit_pos ?c packed = Inr inj" "length inj = length ?c"
    "\<forall>j. be_bit inj j = (be_bit ?c j \<or> (bit_pos \<le> j \<and> j < bit_pos + m \<and> be_bit packed (j - bit_pos)))"
    using inject_bits_window[OF assms(1,2) _ assms(5,6)] by blast
  moreover have "saturating_add bit_pos m = bit_pos + m" "saturating_add b n = b + n"
    using assms by (simp_all add: saturating_add_exact)
  ultimately show ?thesis using assms(3)
    by (intro exI[of _ inj]) (simp add: encode_inject_def get_cut_out Let_def)
qed

lemma put_range_slice:
  assumes "length ys = n"
  shows "get_range (put_range (extend_payload p (b + n)) b ys) b (b + n) = Some ys"
  using get_range_put_range[of b ys "extend_payload p (b + n)"] extend_ge[of "b + n" p] assms by simp

lemma length_put_extend:
  "length ys = n \<Longrightarrow> length (put_range (extend_payload p (b + n)) b ys) = max (length p) (b + n)"
  by (simp add: length_extend)

section \<open>Standard-length parameters\<close>

lemma validate_bit_len_pos: "validate_bit_len dt n = Inr () \<Longrightarrow> 0 < n"
  by (auto simp: validate_bit_len_def split: if_splits)

lemma validate_numeric_le_64:
  "validate_bit_len dt n = Inr () \<Longrightarrow> \<not> is_byte_type dt \<Longrightarrow> n \<le> 64"
  by (cases dt) (auto simp: validate_bit_len_def split: if_splits)

lemma same_byte_count:
  assumes "bit_pos + n \<le> 8 * div_ceil n 8"
  shows "div_ceil (bit_pos + n) 8 = div_ceil n 8" and "bit_pos \<le> 7"
  using assms div_ceil_8_bounds[of n] div_ceil_8_bounds[of "bit_pos + n"] by linarith+

lemma decode_standard_slice:
  assumes "dct_type d = StandardLength slt" "validate_bit_pos d bit_pos = Inr ()"
    and v: "validate_bit_len (base_datatype d) (bit_length slt) = Inr ()"
    and s: "get_range p b (b + div_ceil (bit_length slt) 8) = Some sl"
    and "b + div_ceil (bit_length slt) 8 \<le> usize_max"
  shows "decode d p b bit_pos = unpack_data (bit_length slt) bit_pos
    (map_option (\<lambda>m. \<lparr>mask_data = m, mask_condensed = condensed slt\<rparr>) (sl_bit_mask slt)) sl (byte_order d)"
  using assms validate_bit_len_pos[OF v] get_range_Some[OF s]
  by (simp add: decode_def pos_info_standard_len_def saturating_add_exact Let_def)

lemma encode_standard_numeric:
  assumes "dct_type d = StandardLength slt" "sl_bit_mask slt = None" "\<not> is_byte_type (base_datatype d)"
    and v: "validate_bit_len (base_datatype d) (bit_length slt) = Inr ()"
  shows "\<exists>packed. encode d input p b bit_pos = encode_inject d packed (bit_length slt) None p b bit_pos \<and>
    length packed = div_ceil (bit_length slt) 8 \<and>
    (\<forall>j. be_bit packed j = (j < 8 * div_ceil (bit_length slt) 8 \<and> be_bit input j \<and>
        (bit_length slt mod 8 \<noteq> 0 \<and> j < 8 \<longrightarrow> j < bit_length slt mod 8)))"
proof -
  have "div_ceil (bit_length slt) 8 \<le> usize_max"
    using div_ceil_8_le_8[OF validate_numeric_le_64[OF v assms(3)]] by (simp add: usize_max_def)
  then obtain packed where "pack_data (bit_length slt) 0 None input RightAlign = Inr (packed, bit_length slt)"
    "length packed = div_ceil (bit_length slt) 8"
    "\<forall>j. be_bit packed j = (j < 8 * div_ceil (bit_length slt) 8 \<and> be_bit input j \<and>
        (bit_length slt mod 8 \<noteq> 0 \<and> j < 8 \<longrightarrow> j < bit_length slt mod 8))"
    using pack_data_right[OF validate_bit_len_pos[OF v], of 0 input] by blast
  then show ?thesis using assms
    by (intro exI[of _ packed])
      (simp add: encode_def encode_pack_def validate_bit_pos_def alignment_of_def Let_def)
qed

lemma standard_numeric_bits:
  assumes d: "dct_type d = StandardLength slt" "sl_bit_mask slt = None" "\<not> is_byte_type (base_datatype d)"
    and v: "validate_bit_len (base_datatype d) (bit_length slt) = Inr ()"
    and nc: "bit_pos + bit_length slt \<le> 8 * div_ceil (bit_length slt) 8"
    and clear: "target_bits_clear d p b bit_pos (bit_length slt)"
    and size: "b + 8 \<le> usize_max"
  shows "\<exists>p' r. encode d input p b bit_pos = (Inr (), p') \<and>
    decode d p' b bit_pos = Inr (r, bit_length slt) \<and> length r = div_ceil (bit_length slt) 8 \<and>
    (\<forall>j. be_bit r j = (j < bit_length slt \<and> be_bit input j \<and>
        (bit_length slt mod 8 \<noteq> 0 \<and> j < 8 \<longrightarrow> j < bit_length slt mod 8)))"
proof -
  let ?L = "bit_length slt"
  let ?n = "div_ceil ?L 8"
  have L: "0 < ?L" "?L \<le> 64" using validate_bit_len_pos[OF v] validate_numeric_le_64[OF v d(3)] .
  have n: "?n \<le> 8" using div_ceil_8_le_8[OF L(2)] .
  have same: "div_ceil (bit_pos + ?L) 8 = ?n" "bit_pos \<le> 7" using same_byte_count[OF nc] .
  have bn: "b + ?n \<le> usize_max" using size n by linarith
  have u: "bit_pos + ?L \<le> usize_max" "8 * ?n \<le> usize_max" using same(2) L n by (simp_all add: usize_max_def)
  obtain packed where e: "encode d input p b bit_pos = encode_inject d packed ?L None p b bit_pos"
    and packed: "length packed = ?n" "\<And>j. be_bit packed j = (j < 8 * ?n \<and> be_bit input j \<and>
        (?L mod 8 \<noteq> 0 \<and> j < 8 \<longrightarrow> j < ?L mod 8))"
    using encode_standard_numeric[OF d v] by blast
  have "8 * length packed \<le> usize_max" using packed(1) u(2) by simp
  then obtain inj where inj: "encode_inject d packed ?L None p b bit_pos =
      (Inr (), put_range (extend_payload p (b + ?n)) b (normalize_byte_order inj (byte_order d)))"
    "length inj = ?n"
    "\<And>j. be_bit inj j = (be_bit (normalize_byte_order (cut_out p b ?n) (byte_order d)) j \<or>
       (bit_pos \<le> j \<and> j < bit_pos + ?L \<and> be_bit packed (j - bit_pos)))"
    using encode_inject_plain[OF same(2) L(1) same(1)[symmetric] bn u(1)] by blast
  let ?p' = "put_range (extend_payload p (b + ?n)) b (normalize_byte_order inj (byte_order d))"
  have "get_range ?p' b (b + ?n) = Some (normalize_byte_order inj (byte_order d))"
    by (rule put_range_slice) (simp add: inj(2))
  then have dec: "decode d ?p' b bit_pos =
      unpack_data ?L bit_pos None (normalize_byte_order inj (byte_order d)) (byte_order d)"
    using decode_standard_slice[OF d(1) _ v _ bn] d(2,3) by (simp add: validate_bit_pos_def)
  obtain r where r: "unpack_data ?L bit_pos None (normalize_byte_order inj (byte_order d)) (byte_order d) = Inr (r, ?L)"
    "length r = ?n" "\<And>j. be_bit r j = (j < ?L \<and> be_bit inj (bit_pos + j))"
    using unpack_window[of bit_pos ?L inj "byte_order d"] same(2) L(1) nc inj(2) u(2) by auto
  have "be_bit inj (bit_pos + j) = be_bit packed j" if "j < ?L" for j
    using clear that inj(3)[of "bit_pos + j"] by (simp add: target_bits_clear_def same(1))
  moreover have "j < ?L \<Longrightarrow> j < 8 * ?n" for j using div_ceil_8_bounds(1)[of ?L] by linarith
  ultimately have "be_bit r j = (j < ?L \<and> be_bit input j \<and>
        (?L mod 8 \<noteq> 0 \<and> j < 8 \<longrightarrow> j < ?L mod 8))" for j
    using r(3)[of j] packed(2)[of j] by auto
  with e inj(1) dec r(1,2) show ?thesis by auto
qed

lemma standard_numeric_roundtrip:
  assumes "dct_type d = StandardLength slt" "sl_bit_mask slt = None" "\<not> is_byte_type (base_datatype d)"
    and "validate_bit_len (base_datatype d) (bit_length slt) = Inr ()"
    and "bit_pos + bit_length slt \<le> 8 * div_ceil (bit_length slt) 8"
    and "target_bits_clear d payload byte_pos bit_pos (bit_length slt)"
    and "byte_pos + 8 \<le> usize_max"
    and "bit_length slt mod 8 = 0 \<or> bit_length slt < 8"
  shows "\<exists>payload' r. encode d input payload byte_pos bit_pos = (Inr (), payload') \<and>
    decode d payload' byte_pos bit_pos = Inr (r, bit_length slt) \<and>
    length r = div_ceil (bit_length slt) 8 \<and>
    be_val r = be_val input mod 2 ^ bit_length slt"
proof -
  obtain payload' r where e: "encode d input payload byte_pos bit_pos = (Inr (), payload')"
    "decode d payload' byte_pos bit_pos = Inr (r, bit_length slt)"
    "length r = div_ceil (bit_length slt) 8"
    and r: "\<And>j. be_bit r j = (j < bit_length slt \<and> be_bit input j \<and>
        (bit_length slt mod 8 \<noteq> 0 \<and> j < 8 \<longrightarrow> j < bit_length slt mod 8))"
    using standard_numeric_bits[OF assms(1-7), of input] by blast
  have "be_bit r j = (j < bit_length slt \<and> be_bit input (0 + j))" for j
    using r[of j] assms(8) by auto
  then have "be_val r = be_val input mod 2 ^ bit_length slt" using be_val_window[of r _ input 0] by simp
  with e show ?thesis by blast
qed

text \<open>
  C5: a numeric standard-length parameter without a mask whose bit length is valid for its type and
  either a multiple of eight or less than eight, and whose bits do not reach into one more byte than
  its length needs, survives encoding and decoding in both byte orders: the decoded bytes denote the
  input value cut to the parameter's bit length. The target bits are clear beforehand, as they are in
  a fresh payload. The conditions are needed: \<open>encode_partial_byte_loses_bits\<close> and
  \<open>decode_crossing_parameter_fails\<close> show what happens to other lengths and positions.
\<close>

theorem encode_decode_numeric:
  assumes "dct_type d = StandardLength slt" "sl_bit_mask slt = None" "\<not> is_byte_type (base_datatype d)"
    and "validate_bit_len (base_datatype d) (bit_length slt) = Inr ()"
    and "bit_pos + bit_length slt \<le> 8 * div_ceil (bit_length slt) 8"
    and "target_bits_clear d payload byte_pos bit_pos (bit_length slt)"
    and "byte_pos + 8 \<le> usize_max"
    and "bit_length slt mod 8 = 0 \<or> bit_length slt < 8"
  shows "\<exists>payload' r. encode d input payload byte_pos bit_pos = (Inr (), payload') \<and>
    decode d payload' byte_pos bit_pos = Inr (r, bit_length slt) \<and>
    length r = div_ceil (bit_length slt) 8 \<and>
    be_val r = be_val input mod 2 ^ bit_length slt"
  using assms by (rule standard_numeric_roundtrip)

definition uint16_le :: diag_coded_type where
  "uint16_le = \<lparr>base_datatype = UInt32,
     dct_type = StandardLength \<lparr>bit_length = 16, sl_bit_mask = None, condensed = False\<rparr>,
     is_high_low_byte_order = False\<rparr>"

theorem encode_decode_numeric_witness:
  "\<exists>payload' r. encode uint16_le [0x12, 0x34] [0x2E] 1 0 = (Inr (), payload') \<and>
    decode uint16_le payload' 1 0 = Inr (r, 16) \<and> length r = div_ceil 16 8 \<and>
    be_val r = be_val [0x12, 0x34] mod 2 ^ 16"
  using encode_decode_numeric[of uint16_le
      "\<lparr>bit_length = 16, sl_bit_mask = None, condensed = False\<rparr>" 0 "[0x2E]" 1 "[0x12, 0x34]"]
    fresh_target_clear[of "[0x2E]" 1]
  by (simp add: uint16_le_def validate_bit_len_def usize_max_def div_ceil_def)

section \<open>What encoding leaves alone\<close>

lemma set_bit_checked_length: "set_bit_checked bs i off v c = Inr bs' \<Longrightarrow> length bs' = length bs"
  by (auto simp: set_bit_checked_def Let_def split: option.splits)

lemma apply_bit_mask_length: "apply_bit_mask data m n b = Inr r \<Longrightarrow> length r = length data"
  unfolding apply_bit_mask_def for_range_break_def
  by (rule for_each_break_inv[where P = "\<lambda>t. length t = length data"])
    (auto simp: apply_bit_mask_step_def Let_def result_simps dest!: set_bit_checked_length split: if_splits)

lemma inject_bits_length:
  assumes "inject_bits n b dst src = Inr r"
  shows "length r = length dst"
proof -
  let ?f = "inject_bits_step (div_ceil (saturating_add b n) 8) src"
  obtain t where t: "for_each_break ?f [0..<min n (saturating_mul (length src) 8)] (b, dst) = Inr t" "r = snd t"
    using assms by (auto simp: inject_bits_def for_range_break_def Let_def result_simps split: if_splits)
  have "length (snd t) = length dst"
    by (rule for_each_break_inv[where P = "\<lambda>t. length (snd t) = length dst", OF _ _ t(1)])
      (auto simp: inject_bits_step_def Let_def result_simps dest!: set_bit_checked_length
        split: if_splits prod.splits)
  then show ?thesis using t(2) by simp
qed

lemma nth_extend: "i < length p \<Longrightarrow> extend_payload p n ! i = p ! i"
  by (simp add: extend_payload_def resize_def nth_append)

lemma encode_inject_shape:
  assumes "encode_inject d packed m msk p b bit_pos = (res, p')"
    and "e = saturating_add b (div_ceil (saturating_add bit_pos m) 8)"
  shows "p' = extend_payload p e \<or> (\<exists>nb. p' = put_range (extend_payload p e) b nb \<and> b + length nb = e)"
proof -
  let ?e = "saturating_add b (div_ceil (saturating_add bit_pos m) 8)"
  let ?q = "extend_payload p ?e"
  have "p' = ?q \<or> (\<exists>nb. p' = put_range ?q b nb \<and> b + length nb = ?e)"
  proof (cases res)
    case (Inl x)
    then show ?thesis using assms(1) by (auto simp: encode_inject_def Let_def split: sum.splits)
  next
    case (Inr u)
    then obtain sl masked injected where sl: "get_range ?q b ?e = Some sl"
      and m: "(case msk of None \<Rightarrow> Inr (normalize_byte_order sl (byte_order d))
        | Some m' \<Rightarrow> apply_bit_mask (normalize_byte_order sl (byte_order d)) (map (\<lambda>b. NOT b) (mask_data m')) m bit_pos)
        = Inr masked"
      and i: "inject_bits m bit_pos masked packed = Inr injected"
      and p': "p' = put_range ?q b (normalize_byte_order injected (byte_order d))"
      using assms(1) by (auto simp: encode_inject_def Let_def result_simps split: sum.splits)
    have "length masked = length sl"
      using m by (cases msk) (auto dest: apply_bit_mask_length)
    moreover have "length sl = ?e - b" using get_range_Some[OF sl] by blast
    ultimately have "length (normalize_byte_order injected (byte_order d)) = ?e - b"
      using inject_bits_length[OF i] by simp
    moreover have "b \<le> ?e" using get_range_Some[OF sl] by simp
    ultimately show ?thesis using p' by auto
  qed
  then show ?thesis unfolding assms(2) .
qed

lemma encode_inject_frame:
  assumes "encode_inject d packed m msk p b bit_pos = (res, p')"
  shows "length p \<le> length p' \<and> length p' \<le> max (length p) (b + div_ceil (bit_pos + m) 8) \<and>
    (\<forall>i < length p. i < b \<or> b + div_ceil (bit_pos + m) 8 \<le> i \<longrightarrow> p' ! i = p ! i)"
proof -
  let ?e = "saturating_add b (div_ceil (saturating_add bit_pos m) 8)"
  let ?q = "extend_payload p ?e"
  have e: "?e \<le> b + div_ceil (bit_pos + m) 8"
    using saturating_add_le[of b] div_ceil_8_mono[OF saturating_add_le[of bit_pos m]]
    by (meson add_left_mono le_trans)
  have "p' = ?q \<or> (\<exists>nb. p' = put_range ?q b nb \<and> b + length nb = ?e)"
    using encode_inject_shape[OF assms refl] .
  then show ?thesis
  proof (elim disjE exE conjE)
    assume "p' = ?q"
    then show ?thesis using e by (auto simp: length_extend nth_extend)
  next
    fix nb assume p': "p' = put_range ?q b nb" and nb: "b + length nb = ?e"
    have le: "b + length nb \<le> length ?q" using nb extend_ge[of ?e p] by simp
    have "p' ! i = p ! i" if "i < length p" "i < b \<or> b + div_ceil (bit_pos + m) 8 \<le> i" for i
    proof -
      have "i < b \<or> b + length nb \<le> i" using that(2) e nb by linarith
      moreover have "i < length ?q" using that(1) by (simp add: length_extend)
      ultimately have "p' ! i = ?q ! i" unfolding p' using nth_put_range_outside[OF le] by blast
      then show ?thesis using nth_extend[OF that(1)] by simp
    qed
    moreover have "length p' = max (length p) ?e" unfolding p' using length_put_range[OF le] length_extend by simp
    ultimately show ?thesis using e by auto
  qed
qed

text \<open>Bytes the payload is extended by in front of the parameter are zero.\<close>

lemma encode_inject_gap:
  assumes "encode_inject d packed m msk p b bit_pos = (res, p')" "length p \<le> i" "i < b" "i < length p'"
  shows "p' ! i = 0"
proof -
  let ?e = "saturating_add b (div_ceil (saturating_add bit_pos m) 8)"
  let ?q = "extend_payload p ?e"
  have z: "?q ! i = 0" if "i < length ?q"
    using assms(2) that by (auto simp: extend_payload_def resize_def nth_append split: if_splits)
  consider "p' = ?q" | nb where "p' = put_range ?q b nb" "b + length nb = ?e"
    using encode_inject_shape[OF assms(1) refl] by blast
  then show ?thesis
  proof cases
    case 1
    then show ?thesis using z assms(4) by simp
  next
    case 2
    have le: "b + length nb \<le> length ?q" using 2(2) extend_ge[of ?e p] by simp
    have "i < length ?q" using assms(4) length_put_range[OF le] 2(1) by simp
    then show ?thesis using nth_put_range_outside[OF le] 2(1) assms(3) z by simp
  qed
qed

lemma encode_gap:
  assumes "encode d input p b bit_pos = (res, p')" "length p \<le> i" "i < b" "i < length p'"
  shows "p' ! i = 0"
  using assms encode_inject_gap by (auto simp: encode_def split: sum.splits option.splits)

text \<open>The number of bits a parameter occupies once encoded.\<close>

definition encoded_bits :: "diag_coded_type \<Rightarrow> byte list \<Rightarrow> nat" where
  "encoded_bits d input = (case dct_type d of
      LeadingLengthInfo bits \<Rightarrow> (div_ceil bits 8 + length input) * 8
    | MinMaxLength mmlt \<Rightarrow>
        (length input + length (terminator_bytes (base_datatype d) (mm_termination mmlt))) * 8
    | StandardLength slt \<Rightarrow> bit_length slt
    | ParamLengthInfo key \<Rightarrow> length input * 8)"

lemma pack_data_bits:
  "pack_data n b msk data al = Inr (packed, len) \<Longrightarrow>
   (\<forall>m. msk = Some m \<longrightarrow> \<not> mask_condensed m) \<Longrightarrow> len = n"
  by (auto simp: pack_data_def result_simps split: if_splits option.splits)

lemma leading_length_bytes_length:
  "leading_length_bytes bits len = Inr bs \<Longrightarrow> length bs = div_ceil bits 8"
  by (auto simp: leading_length_bytes_def Let_def result_simps dest!: get_range_Some split: if_splits)

lemma encode_pack_bits:
  assumes "encode_pack d input = Inr (Some (packed, len, msk))"
  shows "len \<le> encoded_bits d input"
proof (cases "dct_type d")
  case (LeadingLengthInfo bits)
  with assms obtain lb where lb: "leading_length_bytes bits (length input) = Inr lb"
    and "pack_data (saturating_mul (length (lb @ input)) 8) 0 None (lb @ input) LeftAlign = Inr (packed, len)"
    by (auto simp: encode_pack_def Let_def result_simps)
  then have "len = saturating_mul (length (lb @ input)) 8" by (auto dest: pack_data_bits)
  then show ?thesis using LeadingLengthInfo leading_length_bytes_length[OF lb]
      saturating_mul_le[of "div_ceil bits 8 + length input" 8]
    by (simp add: encoded_bits_def)
next
  case (MinMaxLength mmlt)
  let ?data = "input @ terminator_bytes (base_datatype d) (mm_termination mmlt)"
  from assms MinMaxLength have "len = saturating_mul (length ?data) 8"
    by (auto simp: encode_pack_def Let_def result_simps dest: pack_data_bits)
  then show ?thesis using MinMaxLength saturating_mul_le[of "length ?data" 8]
    by (simp add: encoded_bits_def)
next
  case (StandardLength slt)
  then show ?thesis using assms
    by (auto simp: encode_pack_def encoded_bits_def Let_def result_simps split: if_splits)
next
  case (ParamLengthInfo key)
  from assms ParamLengthInfo have "len = saturating_mul (length input) 8"
    by (auto simp: encode_pack_def Let_def result_simps dest: pack_data_bits split: if_splits)
  then show ?thesis using ParamLengthInfo saturating_mul_le[of "length input" 8]
    by (simp add: encoded_bits_def)
qed

lemma encode_keeps_outside:
  assumes "encode d input payload byte_pos bit_pos = (res, payload')"
  shows "length payload \<le> length payload' \<and>
    length payload' \<le> max (length payload) (byte_pos + div_ceil (bit_pos + encoded_bits d input) 8) \<and>
    (\<forall>i < length payload.
       i < byte_pos \<or> byte_pos + div_ceil (bit_pos + encoded_bits d input) 8 \<le> i \<longrightarrow>
       payload' ! i = payload ! i)"
proof (cases "\<exists>packed len msk. bindE (validate_bit_pos d bit_pos) (\<lambda>_. encode_pack d input)
    = Inr (Some (packed, len, msk))")
  case True
  then obtain packed len msk where e: "bindE (validate_bit_pos d bit_pos) (\<lambda>_. encode_pack d input)
      = Inr (Some (packed, len, msk))" by blast
  then have len: "len \<le> encoded_bits d input" by (auto simp: bindE_Inr_iff dest: encode_pack_bits)
  have "encode_inject d packed len msk payload byte_pos bit_pos = (res, payload')"
    using assms e by (simp add: encode_def)
  note fr = encode_inject_frame[OF this]
  have "div_ceil (bit_pos + len) 8 \<le> div_ceil (bit_pos + encoded_bits d input) 8"
    using len by (intro div_ceil_8_mono) simp
  with fr show ?thesis by fastforce
next
  case False
  then have "payload' = payload"
    using assms by (auto simp: encode_def split: sum.splits option.splits)
  then show ?thesis by simp
qed

text \<open>
  encoding one parameter never disturbs its neighbours. Whatever the outcome, errors included,
  the payload does not shrink, it grows at most to the end of the parameter, and every byte in front
  of the parameter's first byte and behind its last byte keeps its value.
\<close>

theorem encode_frame:
  assumes "encode d input payload byte_pos bit_pos = (res, payload')"
  shows "length payload \<le> length payload' \<and>
    length payload' \<le> max (length payload) (byte_pos + div_ceil (bit_pos + encoded_bits d input) 8) \<and>
    (\<forall>i < length payload.
       i < byte_pos \<or> byte_pos + div_ceil (bit_pos + encoded_bits d input) 8 \<le> i \<longrightarrow>
       payload' ! i = payload ! i)"
  using assms by (rule encode_keeps_outside)

theorem encode_frame_witness:
  "\<exists>res payload'. encode uint16_le [0x12, 0x34] [0x2E, 0, 0, 0x99] 1 0 = (res, payload') \<and>
     4 \<le> length payload' \<and> payload' ! 0 = 0x2E \<and> payload' ! 3 = 0x99"
proof -
  obtain res payload' where e: "encode uint16_le [0x12, 0x34] [0x2E, 0, 0, 0x99] 1 0 = (res, payload')"
    by (meson surj_pair)
  have n: "1 + div_ceil (0 + encoded_bits uint16_le [0x12, 0x34]) 8 = 3"
    by (simp add: encoded_bits_def uint16_le_def div_ceil_def)
  note f = encode_frame[OF e, unfolded n]
  note same = f[THEN conjunct2, THEN conjunct2, rule_format]
  have "4 \<le> length payload'" using f by simp
  moreover have "payload' ! 0 = 0x2E" using same[of 0] by simp
  moreover have "payload' ! 3 = 0x99" using same[of 3] by simp
  ultimately show ?thesis using e by blast
qed

section \<open>Misplaced and truncated standard-length parameters\<close>

text \<open>
  decoding a standard-length parameter from a payload that ends before the parameter's last
  byte is rejected, and the error names the number of bytes needed and the number present.
\<close>

theorem decode_standard_truncated:
  assumes "dct_type d = StandardLength slt" "validate_bit_pos d bit_pos = Inr ()"
    and "validate_bit_len (base_datatype d) (bit_length slt) = Inr ()"
    and "length payload < byte_pos + div_ceil (bit_length slt) 8"
    and "byte_pos + div_ceil (bit_length slt) 8 \<le> usize_max"
  shows "decode d payload byte_pos bit_pos =
    Inl (NotEnoughData (byte_pos + div_ceil (bit_length slt) 8) (length payload))"
  using assms validate_bit_len_pos[OF assms(3)]
  by (simp add: decode_def pos_info_standard_len_def saturating_add_exact Let_def)

theorem decode_standard_truncated_witness:
  "decode uint16_le [0x62, 0x01] 1 0 = Inl (NotEnoughData 3 2)"
  using decode_standard_truncated[of uint16_le
      "\<lparr>bit_length = 16, sl_bit_mask = None, condensed = False\<rparr>" 0 "[0x62, 0x01]" 1]
  by (simp add: uint16_le_def validate_bit_pos_def validate_bit_len_def usize_max_def div_ceil_def)

text \<open>
  decoding cuts \<open>div_ceil bit_length 8\<close> bytes out of the payload without regard to the bit
  position, so a standard-length parameter whose bits reach into one byte more than that is rejected
  on every payload, although encoding the same parameter succeeds.
\<close>

theorem decode_crossing_parameter_fails:
  assumes "dct_type d = StandardLength slt"
    and "validate_bit_len (base_datatype d) (bit_length slt) = Inr ()"
    and "8 * div_ceil (bit_length slt) 8 < bit_pos + bit_length slt"
  shows "\<not> is_ok (decode d payload byte_pos bit_pos)"
proof
  assume ok: "is_ok (decode d payload byte_pos bit_pos)"
  let ?n = "div_ceil (bit_length slt) 8"
  obtain sl x where sl: "get_range payload byte_pos (saturating_add byte_pos ?n) = Some sl"
    and x: "extract_bits (bit_length slt) bit_pos (normalize_byte_order sl (byte_order d)) = Inr x"
    using ok assms(1,2) validate_bit_len_pos[OF assms(2)]
    by (auto simp: is_ok_iff decode_def pos_info_standard_len_def unpack_data_def Let_def result_simps
        split: if_splits)
  have "length sl \<le> ?n" using get_range_Some[OF sl] saturating_add_le[of byte_pos ?n] by auto
  then have "8 * length sl < bit_pos + bit_length slt" using assms(3) by linarith
  then have "is_bad_payload (extract_bits (bit_length slt) bit_pos (normalize_byte_order sl (byte_order d)))"
    by (auto simp: extract_bits_def checked_add_def checked_mul_def mult.commute)
  with x show False by simp
qed

definition uint8_be :: diag_coded_type where
  "uint8_be = \<lparr>base_datatype = UInt32,
     dct_type = StandardLength \<lparr>bit_length = 8, sl_bit_mask = None, condensed = False\<rparr>,
     is_high_low_byte_order = True\<rparr>"

theorem decode_crossing_parameter_fails_witness:
  "\<not> is_ok (decode uint8_be [0x0F, 0xF0] 0 4)"
  using decode_crossing_parameter_fails[of uint8_be
      "\<lparr>bit_length = 8, sl_bit_mask = None, condensed = False\<rparr>" 4 "[0x0F, 0xF0]" 0]
  by (simp add: uint8_be_def validate_bit_len_def div_ceil_def)

text \<open>
  a numeric parameter of more than one byte whose length is not a multiple of eight bits loses
  information on the way: packing clears the unused bits of the last byte of the buffer, which holds
  the least significant bits, so the decoded value has the bits from \<open>bit_length mod 8\<close> up to 7
  cleared.
\<close>

theorem encode_partial_byte_loses_bits:
  assumes "dct_type d = StandardLength slt" "sl_bit_mask slt = None" "\<not> is_byte_type (base_datatype d)"
    and "validate_bit_len (base_datatype d) (bit_length slt) = Inr ()"
    and "bit_pos + bit_length slt \<le> 8 * div_ceil (bit_length slt) 8"
    and "target_bits_clear d payload byte_pos bit_pos (bit_length slt)"
    and "byte_pos + 8 \<le> usize_max"
    and "8 < bit_length slt" "bit_length slt mod 8 \<noteq> 0"
  shows "\<exists>payload' r. encode d input payload byte_pos bit_pos = (Inr (), payload') \<and>
    decode d payload' byte_pos bit_pos = Inr (r, bit_length slt) \<and>
    (\<forall>j < bit_length slt. be_bit r j =
       (be_bit input j \<and> \<not> (bit_length slt mod 8 \<le> j \<and> j < 8)))"
  using standard_numeric_bits[OF assms(1-7), of input] assms(9) by fastforce

definition uint12_be :: diag_coded_type where
  "uint12_be = \<lparr>base_datatype = UInt32,
     dct_type = StandardLength \<lparr>bit_length = 12, sl_bit_mask = None, condensed = False\<rparr>,
     is_high_low_byte_order = True\<rparr>"

theorem encode_partial_byte_loses_bits_witness:
  "\<exists>payload' r. encode uint12_be [0x0A, 0xBC] [] 0 0 = (Inr (), payload') \<and>
    decode uint12_be payload' 0 0 = Inr (r, 12) \<and>
    be_bit [0x0A, 0xBC] 7 \<and> \<not> be_bit r 7"
proof -
  let ?slt = "\<lparr>bit_length = 12, sl_bit_mask = None, condensed = False\<rparr>"
  obtain payload' r where r: "encode uint12_be [0x0A, 0xBC] [] 0 0 = (Inr (), payload')"
    "decode uint12_be payload' 0 0 = Inr (r, 12)"
    "\<forall>j < 12. be_bit r j = (be_bit [0x0A, 0xBC] j \<and> \<not> (12 mod 8 \<le> j \<and> j < 8))"
    using encode_partial_byte_loses_bits[of uint12_be ?slt 0 "[]" 0 "[0x0A, 0xBC]"]
      fresh_target_clear[of "[]" 0]
    by (auto simp: uint12_be_def validate_bit_len_def div_ceil_def usize_max_def)
  have "be_bit [0x0A, 0xBC] 7" by (simp add: be_bit_def)
  moreover have "\<not> be_bit r 7" using r(3)[rule_format, of 7] by simp
  ultimately show ?thesis using r by blast
qed

end
