(* ===== verification/Coded_Type_Variable.thy ===== *)
theory Coded_Type_Variable
  imports Coded_Type_Correct
begin

unbundle bit_operations_syntax

text \<open>
  Encoding and decoding of the byte-oriented coded types: fields with a leading length, fields
  ended by a terminator or by the end of the PDU, fields whose length another parameter carries,
  fixed-length byte fields, and condensed bit fields.
\<close>

section \<open>Whole bytes in the payload\<close>

lemma encode_inject_whole:
  assumes "data \<noteq> []" "8 * (b + length data) \<le> usize_max"
    and clear: "target_bits_clear d p b 0 (8 * length data)"
  shows "encode_inject d data (8 * length data) None p b 0 =
    (Inr (), put_range (extend_payload p (b + length data)) b (normalize_byte_order data (byte_order d)))"
proof -
  let ?c = "normalize_byte_order (cut_out p b (length data)) (byte_order d)"
  obtain inj where e: "encode_inject d data (8 * length data) None p b 0 =
      (Inr (), put_range (extend_payload p (b + length data)) b (normalize_byte_order inj (byte_order d)))"
    "length inj = length data"
    and inj: "\<And>j. be_bit inj j = (be_bit ?c j \<or> (j < 8 * length data \<and> be_bit data j))"
    using encode_inject_plain[of 0 "8 * length data" "length data" b data d p] assms(1,2) by auto
  have "inj = data"
  proof (rule be_bit_ext)
    fix j assume "j < 8 * length inj"
    then show "be_bit inj j = be_bit data j"
      using clear inj[of j] e(2) by (auto simp: target_bits_clear_def)
  qed (simp add: e(2))
  with e show ?thesis by simp
qed

lemma swap_pairs_append: "even (length xs) \<Longrightarrow> swap_pairs (xs @ ys) = swap_pairs xs @ swap_pairs ys"
  by (induction xs rule: swap_pairs.induct) auto

lemma normalize_append:
  assumes "bo \<noteq> Reverse" "bo = ReorderPairs \<Longrightarrow> even (length xs)"
  shows "normalize_byte_order (xs @ ys) bo = normalize_byte_order xs bo @ normalize_byte_order ys bo"
  using assms by (cases bo) (simp_all add: swap_pairs_append)

lemma byte_type_order: "is_byte_type (base_datatype d) \<Longrightarrow> byte_order d \<noteq> Reverse"
  by (cases "base_datatype d") (auto simp: byte_order_def)

lemma reorder_unicode: "byte_order d = ReorderPairs \<Longrightarrow> base_datatype d = Unicode2String"
  by (cases "base_datatype d") (auto simp: byte_order_def split: if_splits)

lemma get_range_put_range_parts:
  assumes "b + length xs + length ys \<le> length q"
  shows "get_range (put_range q b (xs @ ys)) b (b + length xs) = Some xs"
    and "get_range (put_range q b (xs @ ys)) (b + length xs) (b + length xs + length ys) = Some ys"
  using assms by (simp_all add: get_range_def put_range_def)

lemma get_put_range:
  assumes "b + length xs \<le> length q" "i < length xs"
  shows "get (put_range q b xs) (b + i) = Some (xs ! i)"
  using assms by (simp add: get_def put_range_def nth_append)

lemma saturating_mul_8: "8 * n \<le> usize_max \<Longrightarrow> saturating_mul n 8 = 8 * n"
  by (simp add: saturating_mul_def mult.commute)

lemma pack_data_whole:
  "data \<noteq> [] \<Longrightarrow> 8 * length data \<le> usize_max \<Longrightarrow>
   pack_data (8 * length data) b None data LeftAlign = Inr (data, 8 * length data)"
  using pack_data_left_whole[of data b] by (simp add: mult.commute)

section \<open>Leading length\<close>

lemma encode_leading:
  assumes ty: "dct_type d = LeadingLengthInfo bits" "is_byte_type (base_datatype d)"
    and bits: "0 < bits" "bits \<le> 64" "length input < 2 ^ bits"
    and clear: "target_bits_clear d p b 0 (encoded_bits d input)"
    and size: "8 * (b + 8 + length input) \<le> usize_max"
  shows "encode d input p b 0 = (Inr (),
    put_range (extend_payload p (b + div_ceil bits 8 + length input)) b
      (normalize_byte_order (be_bytes (div_ceil bits 8) (length input) @ input) (byte_order d)))"
proof -
  let ?n = "div_ceil bits 8"
  let ?data = "be_bytes ?n (length input) @ input"
  have n: "0 < ?n" "?n \<le> 8" using bits div_ceil_8_pos div_ceil_8_le_8 by auto
  have "length input < 256 ^ ?n"
  proof -
    have "(2::nat) ^ bits \<le> 2 ^ (8 * ?n)" using div_ceil_8_bounds(1)[of bits] by (intro power_increasing) auto
    then show ?thesis using bits(3) by (simp add: power_mult)
  qed
  then have lb: "leading_length_bytes bits (length input) = Inr (be_bytes ?n (length input))"
    using leading_length_bytes_eq[OF bits(1,2)] by blast
  have ld: "length ?data = ?n + length input" by simp
  have ne: "?data \<noteq> []" using n(1) ld by (metis add_gr_0 length_greater_0_conv)
  have sz: "8 * (b + length ?data) \<le> usize_max" unfolding ld using size n(2) by simp
  have sz': "8 * length ?data \<le> usize_max" using sz by simp
  have eb: "encoded_bits d input = 8 * length ?data" by (simp add: encoded_bits_def ty(1))
  have "encode_pack d input = Inr (Some (?data, 8 * length ?data, None))"
    using pack_data_whole[OF ne sz', of 0]
    by (simp only: encode_pack_def ty(1) diag_coded_type_variant.case lb bindE.simps Let_def
        saturating_mul_8[OF sz'] split_conv)
  then have "encode d input p b 0 = encode_inject d ?data (8 * length ?data) None p b 0"
    by (simp add: encode_def validate_bit_pos_def)
  then show ?thesis using encode_inject_whole[OF ne sz] clear by (simp add: eb add.assoc)
qed

lemma unpack_length_info:
  assumes "0 < bits" "bits \<le> 64" "len < 2 ^ bits"
  shows "\<exists>lb. unpack_data bits 0 None (normalize_byte_order (be_bytes (div_ceil bits 8) len) bo) bo = Inr (lb, bits) \<and>
    length lb = div_ceil bits 8 \<and> usize_from_bytes lb = Inr len"
proof -
  let ?n = "div_ceil bits 8"
  have n: "0 < ?n" "?n \<le> 8" using assms div_ceil_8_pos div_ceil_8_le_8 by auto
  obtain lb where lb: "unpack_data bits 0 None (normalize_byte_order (be_bytes ?n len) bo) bo = Inr (lb, bits)"
    "length lb = ?n" "\<And>j. be_bit lb j = (j < bits \<and> be_bit (be_bytes ?n len) (0 + j))"
    using unpack_window[of 0 bits "be_bytes ?n len" bo] assms(1) n div_ceil_8_bounds(1)[of bits]
    by (auto simp: usize_max_def)
  have "be_val lb = len mod 256 ^ ?n mod 2 ^ bits"
    using be_val_window[OF lb(3)] by (simp add: be_val_be_bytes)
  also have "len mod 256 ^ ?n = len"
  proof -
    have "(2::nat) ^ bits \<le> 2 ^ (8 * ?n)" using div_ceil_8_bounds(1)[of bits] by (intro power_increasing) auto
    then show ?thesis using assms(3) by (simp add: power_mult)
  qed
  finally have "be_val lb = len" using assms(3) by simp
  then show ?thesis using lb usize_from_bytes_eq[of lb] n by auto
qed

text \<open>
  a byte field or string with a leading length of up to 64 bits comes back unchanged, together
  with its length in bits, at every byte position, for both byte orders and for the empty field,
  whenever its length fits the length field.
\<close>

theorem encode_decode_leading_length:
  assumes "dct_type d = LeadingLengthInfo bits" "is_byte_type (base_datatype d)"
    and "validate_bit_len (base_datatype d) bits = Inr ()" "bits \<le> 64" "length input < 2 ^ bits"
    and "target_bits_clear d payload byte_pos 0 (encoded_bits d input)"
    and "8 * (byte_pos + 8 + length input) \<le> usize_max"
  shows "\<exists>payload'. encode d input payload byte_pos 0 = (Inr (), payload') \<and>
    decode d payload' byte_pos 0 = Inr (input, 8 * length input)"
proof -
  let ?n = "div_ceil bits 8" and ?bo = "byte_order d"
  let ?lb = "be_bytes ?n (length input)"
  let ?q = "extend_payload payload (byte_pos + ?n + length input)"
  let ?p' = "put_range ?q byte_pos (normalize_byte_order ?lb ?bo @ normalize_byte_order input ?bo)"
  have bits: "0 < bits" using validate_bit_len_pos[OF assms(3)] .
  have n: "0 < ?n" "?n \<le> 8" using bits assms(4) div_ceil_8_pos div_ceil_8_le_8 by auto
  have even: "?bo = ReorderPairs \<Longrightarrow> even (length ?lb)"
    using reorder_unicode[of d] assms(3) bits
    by (auto simp: validate_bit_len_def div_ceil_def split: if_splits elim!: dvdE)
  have enc: "encode d input payload byte_pos 0 = (Inr (), ?p')"
    using encode_leading[OF assms(1,2) bits assms(4,5,6,7)]
    by (simp add: normalize_append[OF byte_type_order[OF assms(2)] even])
  have ql: "byte_pos + ?n + length input \<le> length ?q" by (rule extend_ge)
  note parts = get_range_put_range_parts[of byte_pos "normalize_byte_order ?lb ?bo"
      "normalize_byte_order input ?bo" ?q]
  have s1: "get_range ?p' byte_pos (byte_pos + ?n) = Some (normalize_byte_order ?lb ?bo)"
    using parts(1) ql by simp
  have s2: "get_range ?p' (byte_pos + ?n) (byte_pos + ?n + length input) = Some (normalize_byte_order input ?bo)"
    using parts(2) ql by simp
  have pl: "byte_pos + ?n + length input \<le> length ?p'" using ql by simp
  have sat: "saturating_add byte_pos ?n = byte_pos + ?n"
    "saturating_add (byte_pos + ?n) (length input) = byte_pos + ?n + length input"
    "saturating_mul (length input) 8 = 8 * length input"
    using assms(7) n(2) by (simp_all add: saturating_add_exact saturating_mul_exact mult.commute)
  obtain lb where lb: "unpack_data bits 0 None (normalize_byte_order ?lb ?bo) ?bo = Inr (lb, bits)"
    "length lb = ?n" "usize_from_bytes lb = Inr (length input)"
    using unpack_length_info[OF bits assms(4,5)] by blast
  have pos: "pos_info_leading_len d ?p' byte_pos 0 ?bo bits = Inr (8 * length input, byte_pos + ?n, None)"
    using pl by (simp add: pos_info_leading_len_def assms(3) sat s1 lb Let_def del: length_put_range)
  have "decode d ?p' byte_pos 0 = Inr (input, 8 * length input)"
  proof (cases "input = []")
    case True
    then show ?thesis using pos by (simp add: decode_def validate_bit_pos_def assms(1) Let_def)
  next
    case False
    then show ?thesis using pos pl s2 unpack_whole[OF False, of ?bo] assms(7)
      by (simp add: decode_def validate_bit_pos_def assms(1) Let_def sat del: length_put_range)
  qed
  with enc show ?thesis by blast
qed

definition bytefield_leading :: diag_coded_type where
  "bytefield_leading = \<lparr>base_datatype = ByteField, dct_type = LeadingLengthInfo 12,
     is_high_low_byte_order = True\<rparr>"

theorem encode_decode_leading_length_witness:
  "\<exists>payload'. encode bytefield_leading [0xCA, 0xFE, 0x00] [0x36] 1 0 = (Inr (), payload') \<and>
    decode bytefield_leading payload' 1 0 = Inr ([0xCA, 0xFE, 0x00], 24)"
  using encode_decode_leading_length[of bytefield_leading 12 "[0xCA, 0xFE, 0x00]" "[0x36]" 1]
    fresh_target_clear[of "[0x36]" 1]
  by (simp add: bytefield_leading_def validate_bit_len_def usize_max_def)

section \<open>Terminated fields\<close>

lemma scan_until_steps:
  assumes "0 < k" "\<And>i. i < m \<Longrightarrow> pos + k * i < max_end \<and> \<not> stop (pos + k * i)"
  shows "scan_until stop k max_end pos = scan_until stop k max_end (pos + k * m)"
  using assms(2)
proof (induction m)
  case (Suc m)
  have "scan_until stop k max_end (pos + k * m) = scan_until stop k max_end (pos + k * m + k)"
    using Suc.prems[of m] assms(1) by (subst scan_until.simps) simp
  with Suc show ?case by (simp add: algebra_simps)
qed simp

lemma scan_until_stop: "max_end \<le> pos \<or> stop pos \<Longrightarrow> scan_until stop k max_end pos = pos"
  by (subst scan_until.simps) auto

text \<open>
  A field can be told from its terminator when no aligned character from the minimal length on is
  made of terminator bytes only.
\<close>

definition no_terminator :: "data_type \<Rightarrow> byte \<Rightarrow> nat \<Rightarrow> byte list \<Rightarrow> bool" where
  "no_terminator base t min_len input \<longleftrightarrow>
     (\<forall>i. min_len \<le> scan_stride base * i \<and> scan_stride base * i < length input \<longrightarrow>
        input ! (scan_stride base * i) \<noteq> t \<or>
        (base = Unicode2String \<and> input ! (scan_stride base * i + 1) \<noteq> t))"

fun terminator_of :: "termination_kind \<Rightarrow> byte" where
  "terminator_of Zero = 0"
| "terminator_of HexFF = 0xFF"
| "terminator_of EndOfPdu = 0"

lemma terminator_bytes_eq:
  "t \<noteq> EndOfPdu \<Longrightarrow> terminator_bytes base t = replicate (scan_stride base) (terminator_of t)"
  by (cases t) (auto simp: terminator_bytes_def scan_stride_def numeral_2_eq_2)

lemma swap_pairs_replicate: "swap_pairs (replicate n a) = replicate n a"
proof (induction n rule: induct_nat_012)
  case (ge2 n)
  then show ?case by simp
qed simp_all

lemma swap_pairs_nth:
  "even (length xs) \<Longrightarrow> 2 * i < length xs \<Longrightarrow>
   swap_pairs xs ! (2 * i) = xs ! (2 * i + 1) \<and> swap_pairs xs ! (2 * i + 1) = xs ! (2 * i)"
proof (induction xs arbitrary: i rule: swap_pairs.induct)
  case (1 a b rest)
  then show ?case by (cases i) auto
qed auto

lemma stride_pos [simp]: "0 < scan_stride base"
  by (simp add: scan_stride_def)

lemma terminator_scan:
  assumes w: "w = normalize_byte_order input (byte_order d)" and bt: "is_byte_type (base_datatype d)"
    and dv: "scan_stride (base_datatype d) dvd length input"
    and ql: "b + length input + scan_stride (base_datatype d) \<le> length q"
    and nt: "no_terminator (base_datatype d) t min_len input" and mn: "min_len \<le> length input"
    and me: "b + length input \<le> max_end" "max_end \<le> length q"
    and p': "p' = put_range q b (w @ replicate (scan_stride (base_datatype d)) t)"
  shows "scan_until (stop_at (base_datatype d) p' b min_len t) (scan_stride (base_datatype d)) max_end b
    = b + length input"
proof -
  let ?base = "base_datatype d" and ?k = "scan_stride (base_datatype d)"
  let ?stop = "stop_at ?base p' b min_len t"
  obtain m where m: "length input = ?k * m" using dv by (elim dvdE)
  have wl: "length w = length input" by (simp add: w)
  have at: "get p' (b + i) = Some ((w @ replicate ?k t) ! i)" if "i < length input + ?k" for i
    unfolding p' using that ql wl by (intro get_put_range) auto
  have pl: "length p' = length q" unfolding p' using ql wl by simp
  have "\<not> ?stop (b + ?k * i)" if i: "i < m" for i
  proof
    assume st: "?stop (b + ?k * i)"
    have lt: "?k * i < length input" using i m by simp
    have mle: "min_len \<le> ?k * i" using st by (simp add: stop_at_def)
    have w0: "w ! (?k * i) = t" using st at[of "?k * i"] lt wl by (simp add: stop_at_def nth_append)
    show False
    proof (cases "?base = Unicode2String")
      case False
      then have "byte_order d = Keep" using bt by (cases ?base) (auto simp: byte_order_def)
      then show False using w0 nt mle lt False by (simp add: w no_terminator_def)
    next
      case True
      have k: "?k = 2" using True by (simp add: scan_stride_def)
      have lt1: "2 * i + 1 < length input" using i m k by simp
      have "get p' (b + (2 * i + 1)) = Some t" using st True k by (simp add: stop_at_def)
      then have w1: "w ! (2 * i + 1) = t" using at[of "2 * i + 1"] lt1 wl by (simp add: nth_append)
      have bo: "byte_order d = Keep \<or> byte_order d = ReorderPairs"
        using True by (simp add: byte_order_def)
      have "even (length input)" using m k by simp
      then have "input ! (2 * i) = t \<and> input ! (2 * i + 1) = t"
        using bo w0 w1 k lt1 swap_pairs_nth[of input i] by (auto simp: w)
      then show False using nt mle lt True k by (auto simp: no_terminator_def)
    qed
  qed
  moreover have "b + ?k * i < max_end" if "i < m" for i
  proof -
    have "?k * i < ?k * m" using that by simp
    then show ?thesis using me(1) m by linarith
  qed
  ultimately have "scan_until ?stop ?k max_end b = scan_until ?stop ?k max_end (b + ?k * m)"
    by (intro scan_until_steps) auto
  also have "\<dots> = b + ?k * m"
  proof (rule scan_until_stop)
    have "get p' (b + length input) = Some t" using at[of "length input"] wl by (simp add: nth_append)
    moreover have "?base = Unicode2String \<Longrightarrow> get p' (b + length input + 1) = Some t"
      using at[of "length input + 1"] wl by (simp add: nth_append scan_stride_def)
    moreover have "?base = Unicode2String \<Longrightarrow> b + length input + 1 < length p'"
      using ql pl by (simp add: scan_stride_def)
    ultimately have "?stop (b + ?k * m)" using mn m by (simp add: stop_at_def)
    then show "max_end \<le> b + ?k * m \<or> ?stop (b + ?k * m)" by blast
  qed
  finally show ?thesis by (simp add: m)
qed

lemma encode_min_max:
  assumes ty: "dct_type d = MinMaxLength mmlt"
    and data: "data = input @ terminator_bytes (base_datatype d) (mm_termination mmlt)" "data \<noteq> []"
    and clear: "target_bits_clear d p b 0 (encoded_bits d input)"
    and size: "8 * (b + length data) \<le> usize_max"
  shows "encode d input p b 0 = (Inr (),
    put_range (extend_payload p (b + length data)) b (normalize_byte_order data (byte_order d)))"
proof -
  have sz: "8 * length data \<le> usize_max" using size by simp
  have "encode_pack d input = Inr (Some (data, 8 * length data, None))"
    using pack_data_whole[OF data(2) sz, of 0]
    by (simp only: encode_pack_def ty diag_coded_type_variant.case Let_def data(1)[symmetric]
        saturating_mul_8[OF sz] bindE.simps split_conv)
  moreover have "encoded_bits d input = 8 * length data"
    by (simp add: encoded_bits_def ty data(1))
  ultimately show ?thesis using encode_inject_whole[OF data(2) size, of d p] clear
    by (simp add: encode_def validate_bit_pos_def)
qed

text \<open>Once the end of the field is known, decoding copies the bytes up to it.\<close>

lemma decode_min_max_found:
  assumes ty: "dct_type d = MinMaxLength mmlt"
    and pos: "pos_info_min_max_len d p' b mmlt = Inr (8 * length input, b, None)"
    and sl: "get_range p' b (b + length input) = Some (normalize_byte_order input (byte_order d))"
    and size: "8 * (b + length input) \<le> usize_max"
  shows "decode d p' b 0 = Inr (input, 8 * length input)"
proof (cases "input = []")
  case True
  then show ?thesis using pos by (simp add: decode_def validate_bit_pos_def ty Let_def)
next
  case False
  have "saturating_add b (length input) = b + length input" using size by (simp add: saturating_add_exact)
  then show ?thesis using pos sl get_range_Some[OF sl] unpack_whole[OF False, of "byte_order d"] size False
    by (simp add: decode_def validate_bit_pos_def ty Let_def)
qed

lemma pos_info_terminated:
  assumes "mm_termination mmlt \<noteq> EndOfPdu"
    and "scan_until (stop_at (base_datatype d) p' b (min_length mmlt) (terminator_of (mm_termination mmlt)))
      (scan_stride (base_datatype d))
      (case max_length mmlt of Some m \<Rightarrow> min (saturating_add b m) (length p') | None \<Rightarrow> length p') b = b + n"
    and "b + n \<le> length p'" "min_length mmlt \<le> n" "8 * n \<le> usize_max"
  shows "pos_info_min_max_len d p' b mmlt = Inr (8 * n, b, None)"
  using assms saturating_mul_8[OF assms(5)]
  by (cases "mm_termination mmlt") (simp_all add: pos_info_min_max_len_def Let_def)

lemma normalize_terminator:
  "bo \<noteq> Reverse \<Longrightarrow> normalize_byte_order (replicate n a) bo = replicate n a"
  by (cases bo) (simp_all add: swap_pairs_replicate)

lemma max_end_ge:
  assumes "b + n \<le> usize_max" "b + n \<le> l" "\<forall>m. mx = Some m \<longrightarrow> n \<le> m"
  shows "b + n \<le> (case mx of Some m \<Rightarrow> min (saturating_add b m) l | None \<Rightarrow> l)"
  using assms by (auto simp: saturating_add_def split: option.splits)

text \<open>
  a byte field or string ended by a terminator (zero or 0xFF, doubled for UTF-16) comes back
  unchanged when its length lies between the minimal and the maximal length and no character from
  the minimal length on looks like the terminator; bytes that follow in the payload do not matter.
\<close>

theorem encode_decode_terminated:
  assumes "dct_type d = MinMaxLength mmlt" "is_byte_type (base_datatype d)"
    and "mm_termination mmlt \<noteq> EndOfPdu"
    and "min_length mmlt \<le> length input" "\<forall>m. max_length mmlt = Some m \<longrightarrow> length input \<le> m"
    and "scan_stride (base_datatype d) dvd length input"
    and "no_terminator (base_datatype d) (terminator_of (mm_termination mmlt)) (min_length mmlt) input"
    and "target_bits_clear d payload byte_pos 0 (encoded_bits d input)"
    and "8 * (byte_pos + length input + 2) \<le> usize_max"
  shows "\<exists>payload'. encode d input payload byte_pos 0 = (Inr (), payload') \<and>
    decode d payload' byte_pos 0 = Inr (input, 8 * length input)"
proof -
  let ?k = "scan_stride (base_datatype d)" and ?t = "terminator_of (mm_termination mmlt)"
  let ?data = "input @ terminator_bytes (base_datatype d) (mm_termination mmlt)"
  let ?w = "normalize_byte_order input (byte_order d)"
  let ?q = "extend_payload payload (byte_pos + length ?data)"
  let ?p' = "put_range ?q byte_pos (?w @ replicate ?k ?t)"
  have bo: "byte_order d \<noteq> Reverse" using byte_type_order[OF assms(2)] .
  have tb: "terminator_bytes (base_datatype d) (mm_termination mmlt) = replicate ?k ?t"
    using terminator_bytes_eq[OF assms(3)] .
  have k: "0 < ?k" "?k \<le> 2" by (simp_all add: scan_stride_def)
  have even: "byte_order d = ReorderPairs \<Longrightarrow> even (length input)"
    using reorder_unicode[of d] assms(6) by (simp add: scan_stride_def)
  have "?data \<noteq> []" using k(1) by (simp add: tb)
  moreover have "8 * (byte_pos + length ?data) \<le> usize_max" using assms(9) k(2) by (simp add: tb)
  ultimately have "encode d input payload byte_pos 0 = (Inr (),
      put_range ?q byte_pos (normalize_byte_order ?data (byte_order d)))"
    using encode_min_max[OF assms(1) refl _ assms(8)] by blast
  then have enc: "encode d input payload byte_pos 0 = (Inr (), ?p')"
    by (simp only: tb normalize_append[OF bo even] normalize_terminator[OF bo])
  have ql: "byte_pos + length input + ?k \<le> length ?q"
    using extend_ge[of "byte_pos + length ?data" payload] by (simp add: tb)
  have pl: "length ?p' = length ?q" using ql by simp
  let ?me = "case max_length mmlt of Some m \<Rightarrow> min (saturating_add byte_pos m) (length ?p') | None \<Rightarrow> length ?p'"
  have me: "byte_pos + length input \<le> ?me" "?me \<le> length ?q"
  proof -
    show "byte_pos + length input \<le> ?me"
      by (rule max_end_ge) (use assms(5,9) ql pl in auto)
    show "?me \<le> length ?q" unfolding pl by (simp split: option.split)
  qed
  have scan: "scan_until (stop_at (base_datatype d) ?p' byte_pos (min_length mmlt) ?t) ?k ?me byte_pos
      = byte_pos + length input"
    by (rule terminator_scan[OF refl assms(2,6) ql assms(7,4) me refl])
  have "pos_info_min_max_len d ?p' byte_pos mmlt = Inr (8 * length input, byte_pos, None)"
    by (rule pos_info_terminated[OF assms(3) scan _ assms(4)]) (use ql pl assms(9) in simp_all)
  moreover have "get_range ?p' byte_pos (byte_pos + length input) = Some ?w"
    using get_range_put_range_parts(1)[of byte_pos ?w "replicate ?k ?t" ?q] ql by simp
  moreover have "8 * (byte_pos + length input) \<le> usize_max" using assms(9) by simp
  ultimately have "decode d ?p' byte_pos 0 = Inr (input, 8 * length input)"
    by (rule decode_min_max_found[OF assms(1)])
  with enc show ?thesis by blast
qed

definition ascii_zero_terminated :: diag_coded_type where
  "ascii_zero_terminated = \<lparr>base_datatype = AsciiString,
     dct_type = MinMaxLength \<lparr>min_length = 1, max_length = Some 8, mm_termination = Zero\<rparr>,
     is_high_low_byte_order = True\<rparr>"

theorem encode_decode_terminated_witness:
  "\<exists>payload'. encode ascii_zero_terminated [0x41, 0x42] [0x62] 1 0 = (Inr (), payload') \<and>
    decode ascii_zero_terminated payload' 1 0 = Inr ([0x41, 0x42], 16)"
proof -
  let ?mm = "\<lparr>min_length = 1, max_length = Some 8, mm_termination = Zero\<rparr>"
  have "no_terminator AsciiString 0 1 [0x41, 0x42]"
    unfolding no_terminator_def
  proof (intro allI impI)
    fix i assume "1 \<le> scan_stride AsciiString * i \<and> scan_stride AsciiString * i < length [0x41, 0x42 :: byte]"
    then have "i = 1" by (simp add: scan_stride_def)
    then show "[0x41, 0x42 :: byte] ! (scan_stride AsciiString * i) \<noteq> 0 \<or>
        (AsciiString = Unicode2String \<and> [0x41, 0x42 :: byte] ! (scan_stride AsciiString * i + 1) \<noteq> 0)"
      by (simp add: scan_stride_def)
  qed
  then show ?thesis
    using encode_decode_terminated[of ascii_zero_terminated ?mm "[0x41, 0x42]" "[0x62]" 1]
      fresh_target_clear[of "[0x62]" 1]
    by (simp add: ascii_zero_terminated_def usize_max_def scan_stride_def)
qed

text \<open>
  a non-empty byte field or string that runs to the end of the PDU comes back unchanged when it
  is the last parameter of the payload and its length respects the minimal and maximal length.
\<close>

theorem encode_decode_end_of_pdu:
  assumes "dct_type d = MinMaxLength mmlt" "is_byte_type (base_datatype d)"
    and "mm_termination mmlt = EndOfPdu" "input \<noteq> []"
    and "min_length mmlt \<le> length input" "\<forall>m. max_length mmlt = Some m \<longrightarrow> length input \<le> m"
    and "target_bits_clear d payload byte_pos 0 (encoded_bits d input)"
    and "length payload \<le> byte_pos + length input"
    and "8 * (byte_pos + length input) \<le> usize_max"
  shows "\<exists>payload'. encode d input payload byte_pos 0 = (Inr (), payload') \<and>
    decode d payload' byte_pos 0 = Inr (input, 8 * length input)"
proof -
  let ?w = "normalize_byte_order input (byte_order d)"
  let ?q = "extend_payload payload (byte_pos + length input)"
  let ?p' = "put_range ?q byte_pos ?w"
  have tb: "terminator_bytes (base_datatype d) (mm_termination mmlt) = []"
    by (simp add: terminator_bytes_def assms(3))
  have enc: "encode d input payload byte_pos 0 = (Inr (), ?p')"
    using encode_min_max[OF assms(1), of input input payload byte_pos] assms(4,7,9) by (simp add: tb)
  have ql: "length ?q = byte_pos + length input" using assms(8) by (simp add: length_extend)
  then have pl: "length ?p' = byte_pos + length input" by simp
  have "byte_pos + length input \<le> (case max_length mmlt of
      Some m \<Rightarrow> min (saturating_add byte_pos m) (length ?p') | None \<Rightarrow> length ?p')"
    by (rule max_end_ge) (use assms(6,9) pl in auto)
  then have me: "(case max_length mmlt of Some m \<Rightarrow> min (saturating_add byte_pos m) (length ?p')
      | None \<Rightarrow> length ?p') = byte_pos + length input"
    unfolding pl by (auto split: option.splits)
  have sat: "saturating_mul (length input) 8 = 8 * length input"
    using assms(9) by (intro saturating_mul_8) simp
  have "pos_info_min_max_len d ?p' byte_pos mmlt = Inr (8 * length input, byte_pos, None)"
    using assms(5) sat by (simp add: pos_info_min_max_len_def assms(3) me Let_def del: length_put_range)
  moreover have "get_range ?p' byte_pos (byte_pos + length input) = Some ?w"
    using put_range_slice[of ?w "length input"] by simp
  ultimately have "decode d ?p' byte_pos 0 = Inr (input, 8 * length input)"
    using assms(9) by (rule decode_min_max_found[OF assms(1)])
  with enc show ?thesis by blast
qed

definition bytefield_end_of_pdu :: diag_coded_type where
  "bytefield_end_of_pdu = \<lparr>base_datatype = ByteField,
     dct_type = MinMaxLength \<lparr>min_length = 0, max_length = None, mm_termination = EndOfPdu\<rparr>,
     is_high_low_byte_order = True\<rparr>"

theorem encode_decode_end_of_pdu_witness:
  "\<exists>payload'. encode bytefield_end_of_pdu [0, 0xFF] [0x36, 0x01] 2 0 = (Inr (), payload') \<and>
    decode bytefield_end_of_pdu payload' 2 0 = Inr ([0, 0xFF], 16)"
  using encode_decode_end_of_pdu[of bytefield_end_of_pdu
      "\<lparr>min_length = 0, max_length = None, mm_termination = EndOfPdu\<rparr>" "[0, 0xFF]" "[0x36, 0x01]" 2]
    fresh_target_clear[of "[0x36, 0x01]" 2]
  by (simp add: bytefield_end_of_pdu_def usize_max_def)

section \<open>Fixed-length byte fields and length-key fields\<close>

text \<open>
  a byte field or string of a fixed number of bytes, without a mask, comes back cut to that
  number of bytes or padded with zero bytes at its end.
\<close>

theorem encode_decode_fixed_bytes:
  assumes "dct_type d = StandardLength slt" "sl_bit_mask slt = None" "is_byte_type (base_datatype d)"
    and "validate_bit_len (base_datatype d) (8 * n) = Inr ()" "bit_length slt = 8 * n"
    and "target_bits_clear d payload byte_pos 0 (8 * n)"
    and "8 * (byte_pos + n) \<le> usize_max"
  shows "\<exists>payload'. encode d input payload byte_pos 0 = (Inr (), payload') \<and>
    decode d payload' byte_pos 0 = Inr (take n input @ replicate (n - length input) 0, 8 * n)"
proof -
  let ?data = "take n input @ replicate (n - length input) 0"
  have n: "0 < n" using validate_bit_len_pos[OF assms(4)] by simp
  have ld: "length ?data = n" by simp
  then have ne: "?data \<noteq> []" using n by (metis length_greater_0_conv)
  have "pack_aligned (8 * n) input LeftAlign = Inr ?data"
    using aligned_copy_left[of n input] assms(7) by (simp add: pack_aligned_def clear_bits_multiple Let_def)
  then have "encode d input payload byte_pos 0 = encode_inject d ?data (8 * n) None payload byte_pos 0"
    using assms(1-5) n by (simp add: encode_def encode_pack_def validate_bit_pos_def alignment_of_def
        pack_data_def Let_def)
  then have enc: "encode d input payload byte_pos 0 =
      (Inr (), put_range (extend_payload payload (byte_pos + n)) byte_pos (normalize_byte_order ?data (byte_order d)))"
    using encode_inject_whole[OF ne, unfolded ld, OF assms(7,6)] by simp
  let ?p' = "put_range (extend_payload payload (byte_pos + n)) byte_pos (normalize_byte_order ?data (byte_order d))"
  have sl: "get_range ?p' byte_pos (byte_pos + n) = Some (normalize_byte_order ?data (byte_order d))"
    by (rule put_range_slice) simp
  have "decode d ?p' byte_pos 0 = unpack_data (8 * n) 0 None (normalize_byte_order ?data (byte_order d)) (byte_order d)"
    using decode_standard_slice[OF assms(1), of 0 ?p' byte_pos] sl assms(2,4,5,7)
    by (simp add: validate_bit_pos_def)
  also have "\<dots> = Inr (?data, 8 * n)"
    using unpack_whole[OF ne, unfolded ld, of "byte_order d"] assms(7) by simp
  finally show ?thesis using enc by blast
qed

definition bytefield_3 :: diag_coded_type where
  "bytefield_3 = \<lparr>base_datatype = ByteField,
     dct_type = StandardLength \<lparr>bit_length = 24, sl_bit_mask = None, condensed = False\<rparr>,
     is_high_low_byte_order = False\<rparr>"

theorem encode_decode_fixed_bytes_witness:
  "\<exists>payload'. encode bytefield_3 [0xAB] [] 0 0 = (Inr (), payload') \<and>
    decode bytefield_3 payload' 0 0 = Inr ([0xAB, 0, 0], 24)"
proof -
  have r: "replicate 2 (0 :: byte) = [0, 0]" by (simp add: numeral_2_eq_2)
  show ?thesis
    using encode_decode_fixed_bytes[of bytefield_3
        "\<lparr>bit_length = 24, sl_bit_mask = None, condensed = False\<rparr>" 3 "[]" 0 "[0xAB]"]
      fresh_target_clear[of "[]" 0]
    by (simp add: bytefield_3_def validate_bit_len_def usize_max_def r)
qed

text \<open>
  a field whose length is carried by another parameter is found again with that length; the
  decoding entry point returns the bytes as they stand in the payload, so they are the input in the
  coded type's byte order.
\<close>

theorem encode_decode_param_length:
  assumes "dct_type d = ParamLengthInfo key" "input \<noteq> []"
    and "target_bits_clear d payload byte_pos 0 (encoded_bits d input)"
    and "8 * (byte_pos + length input) \<le> usize_max"
  shows "\<exists>payload'. encode d input payload byte_pos 0 = (Inr (), payload') \<and>
    decode_with_runtime_byte_length payload' byte_pos (length input) =
      Inr (normalize_byte_order input (byte_order d), 8 * length input)"
proof -
  let ?w = "normalize_byte_order input (byte_order d)"
  let ?p' = "put_range (extend_payload payload (byte_pos + length input)) byte_pos ?w"
  have sz: "8 * length input \<le> usize_max" "byte_pos + length input \<le> usize_max" using assms(4) by simp_all
  have eb: "encoded_bits d input = 8 * length input" by (simp add: encoded_bits_def assms(1))
  have "encode d input payload byte_pos 0 = encode_inject d input (8 * length input) None payload byte_pos 0"
    using pack_data_whole[OF assms(2) sz(1), of 0] saturating_mul_8[OF sz(1)] assms(1,2)
    by (simp add: encode_def encode_pack_def validate_bit_pos_def Let_def)
  then have enc: "encode d input payload byte_pos 0 = (Inr (), ?p')"
    using encode_inject_whole[OF assms(2,4)] assms(3) eb by simp
  have "get_range ?p' byte_pos (byte_pos + length input) = Some ?w"
    using put_range_slice[of ?w "length input"] by simp
  then have "decode_with_runtime_byte_length ?p' byte_pos (length input) = Inr (?w, 8 * length input)"
    using assms(2) sz saturating_mul_8[OF sz(1)] get_range_Some[of ?p' byte_pos "byte_pos + length input" ?w]
    by (simp add: decode_with_runtime_byte_length_def saturating_add_exact Let_def)
  with enc show ?thesis by blast
qed

definition bytefield_keyed :: diag_coded_type where
  "bytefield_keyed = \<lparr>base_datatype = ByteField, dct_type = ParamLengthInfo ''len'',
     is_high_low_byte_order = True\<rparr>"

theorem encode_decode_param_length_witness:
  "\<exists>payload'. encode bytefield_keyed [1, 2, 3] [3] 1 0 = (Inr (), payload') \<and>
    decode_with_runtime_byte_length payload' 1 3 = Inr ([1, 2, 3], 24)"
  using encode_decode_param_length[of bytefield_keyed "''len''" "[1, 2, 3]" "[3]" 1]
    fresh_target_clear[of "[3]" 1]
  by (simp add: bytefield_keyed_def usize_max_def byte_order_def numeral_3_eq_3)

section \<open>Condensed bit fields\<close>

lemma be_bit_not: "be_bit (map (\<lambda>b. NOT b) m) j = (j < 8 * length m \<and> \<not> be_bit m j)"
  by (auto simp: be_bit_def bit_not_iff)

lemma encode_inject_masked:
  assumes m: "m \<noteq> []" "mask_data mk = m" "length packed = length m" "8 * (b + length m) \<le> usize_max"
    and sub: "\<And>j. be_bit packed j \<Longrightarrow> be_bit m j"
  shows "\<exists>inj. encode_inject d packed (8 * length m) (Some mk) p b 0 =
      (Inr (), put_range (extend_payload p (b + length m)) b (normalize_byte_order inj (byte_order d))) \<and>
    length inj = length m \<and>
    (\<forall>j. be_bit inj j = (if be_bit m j then be_bit packed j
       else be_bit (normalize_byte_order (cut_out p b (length m)) (byte_order d)) j))"
proof -
  let ?n = "length m"
  let ?c = "normalize_byte_order (cut_out p b ?n) (byte_order d)"
  have sz: "8 * ?n \<le> usize_max" using m(4) by simp
  obtain masked where mk: "apply_bit_mask ?c (map (\<lambda>b. NOT b) m) (8 * ?n) 0 = Inr masked" "length masked = ?n"
    "\<And>j. be_bit masked j = (be_bit ?c j \<and> (j < 8 * ?n \<longrightarrow> be_bit (map (\<lambda>b. NOT b) m) j))"
    using apply_bit_mask_window[of "8 * ?n" "map (\<lambda>b. NOT b) m" ?c 0] sz by auto
  obtain inj where inj: "inject_bits (8 * ?n) 0 masked packed = Inr inj" "length inj = ?n"
    "\<And>j. be_bit inj j = (be_bit masked j \<or> (j < 8 * ?n \<and> be_bit packed j))"
    using inject_bits_window[of 0 "8 * ?n" masked packed] mk(2) sz m by auto
  have "saturating_add 0 (8 * ?n) = 8 * ?n" "saturating_add b ?n = b + ?n"
    using m(4) by (simp_all add: saturating_add_exact)
  then have "encode_inject d packed (8 * ?n) (Some mk) p b 0 =
      (Inr (), put_range (extend_payload p (b + ?n)) b (normalize_byte_order inj (byte_order d)))"
    using mk(1) inj(1) m(2) by (simp add: encode_inject_def get_cut_out Let_def)
  moreover have "be_bit inj j = (if be_bit m j then be_bit packed j else be_bit ?c j)" for j
    using inj(3)[of j] mk(3)[of j] sub[of j] be_bit_range[of m j] be_bit_range[of ?c j]
    by (auto simp: be_bit_not)
  ultimately show ?thesis using inj(2) by blast
qed

text \<open>
  a condensed parameter, whose mask scatters the value over selected bits of the payload, comes
  back as the value cut to the number of mask bits. This holds whatever the payload held before, and
  every payload bit outside the mask keeps its value.
\<close>

theorem encode_decode_condensed:
  assumes "dct_type d = StandardLength slt" "sl_bit_mask slt = Some m" "m \<noteq> []" "condensed slt"
    and "bit_length slt = 8 * length m"
    and "validate_bit_len (base_datatype d) (8 * length m) = Inr ()"
    and "ones m (8 * length m) \<le> 8 * length input"
    and "8 * (byte_pos + length m) \<le> usize_max" "8 * length input \<le> usize_max"
  shows "\<exists>payload' r. encode d input payload byte_pos 0 = (Inr (), payload') \<and>
    decode d payload' byte_pos 0 = Inr (r, ones m (8 * length m)) \<and>
    be_val r = be_val input mod 2 ^ ones m (8 * length m) \<and>
    (\<forall>j. \<not> be_bit m j \<longrightarrow>
       be_bit (normalize_byte_order (cut_out payload' byte_pos (length m)) (byte_order d)) j =
       be_bit (normalize_byte_order (cut_out payload byte_pos (length m)) (byte_order d)) j)"
proof -
  let ?n = "length m" and ?mk = "\<lparr>mask_data = m, mask_condensed = True\<rparr>"
  let ?c = "normalize_byte_order (cut_out payload byte_pos ?n) (byte_order d)"
  have sz: "8 * ?n \<le> usize_max" using assms(8) by simp
  obtain packed r where pk: "apply_condensed_mask_packing input m 0 = Inr (packed, 8 * ?n)" "length packed = ?n"
    and up: "apply_condensed_mask_unpacking m packed (8 * ?n) = Inr (r, ones m (8 * ?n))"
    and r: "be_val r = be_val input mod 2 ^ ones m (8 * ?n)"
    using condensed_roundtrip[OF assms(7,9) sz] by blast
  have pb: "be_bit packed j = (be_bit m j \<and> be_bit input (ones m j))" for j
    using condensed_packing_bits[OF assms(7,9) sz] pk(1) by auto
  have "encode d input payload byte_pos 0 = encode_inject d packed (8 * ?n) (Some ?mk) payload byte_pos 0"
    using pk(1) assms(1-6) by (simp add: encode_def encode_pack_def validate_bit_pos_def pack_data_def Let_def)
  moreover obtain inj where inj: "encode_inject d packed (8 * ?n) (Some ?mk) payload byte_pos 0 =
      (Inr (), put_range (extend_payload payload (byte_pos + ?n)) byte_pos (normalize_byte_order inj (byte_order d)))"
    "length inj = ?n" "\<And>j. be_bit inj j = (if be_bit m j then be_bit packed j else be_bit ?c j)"
    using encode_inject_masked[OF assms(3) _ pk(2) assms(8), of ?mk d payload] pb by auto
  ultimately have enc: "encode d input payload byte_pos 0 =
      (Inr (), put_range (extend_payload payload (byte_pos + ?n)) byte_pos (normalize_byte_order inj (byte_order d)))"
    by simp
  let ?p' = "put_range (extend_payload payload (byte_pos + ?n)) byte_pos (normalize_byte_order inj (byte_order d))"
  have sl: "get_range ?p' byte_pos (byte_pos + ?n) = Some (normalize_byte_order inj (byte_order d))"
    by (rule put_range_slice) (simp add: inj(2))
  have ne: "inj \<noteq> []" using inj(2) assms(3) by auto
  have "decode d ?p' byte_pos 0 =
      unpack_data (8 * ?n) 0 (Some ?mk) (normalize_byte_order inj (byte_order d)) (byte_order d)"
    using decode_standard_slice[OF assms(1), of 0 ?p' byte_pos] sl assms(2,4,5,6,8)
    by (simp add: validate_bit_pos_def)
  also have "\<dots> = apply_condensed_mask_unpacking m inj (8 * ?n)"
    using extract_bits_whole[OF ne] inj(2) sz by (simp add: unpack_data_def)
  also have "\<dots> = apply_condensed_mask_unpacking m packed (8 * ?n)"
    using condensed_unpacking_same[OF _ _ sz, of inj packed] inj(2,3) pk(2) by simp
  finally have dec: "decode d ?p' byte_pos 0 = Inr (r, ones m (8 * ?n))" using up by simp
  have "cut_out ?p' byte_pos ?n = normalize_byte_order inj (byte_order d)"
    using get_range_Some[OF sl] by (simp add: cut_out_def extend_payload_def)
  then have "be_bit (normalize_byte_order (cut_out ?p' byte_pos ?n) (byte_order d)) j = be_bit ?c j"
    if "\<not> be_bit m j" for j using inj(3)[of j] that by simp
  with enc dec r show ?thesis by blast
qed

definition condensed_nibbles :: diag_coded_type where
  "condensed_nibbles = \<lparr>base_datatype = UInt32,
     dct_type = StandardLength \<lparr>bit_length = 8, sl_bit_mask = Some [0x55], condensed = True\<rparr>,
     is_high_low_byte_order = True\<rparr>"

theorem encode_decode_condensed_witness:
  "\<exists>payload' r. encode condensed_nibbles [0x0C] [0xFF] 0 0 = (Inr (), payload') \<and>
    decode condensed_nibbles payload' 0 0 = Inr (r, 4) \<and> be_val r = 12"
proof -
  have o: "ones [0x55] 8 = 4" by (simp add: ones_def upt_rec be_bit_def)
  then show ?thesis
    using encode_decode_condensed[of condensed_nibbles
        "\<lparr>bit_length = 8, sl_bit_mask = Some [0x55], condensed = True\<rparr>" "[0x55]" "[0x0C]" 0 "[0xFF]"]
    by (auto simp: condensed_nibbles_def validate_bit_len_def usize_max_def)
qed

end
