(* ===== verification/Storage_Types.thy ===== *)
theory Storage_Types
  imports Prelude
begin

text \<open>
  Data of the storage interface (\<open>cda-interfaces/src/storage_api\<close>): collection names, recorded
  operations and errors; and the path functions of \<open>cda-storage\<close>: sanitising of path segments,
  key normalisation and file extensions. A path segment is a byte string.
\<close>

section \<open>Names, operations, errors\<close>

datatype collection_name =
    DiagnosticDatabase
  | DiagnosticDatabaseNextUpdate
  | DiagnosticDatabaseBackup
  | Custom string

fun as_str :: "collection_name \<Rightarrow> string" where
  "as_str DiagnosticDatabase = ''diagnostic_database''"
| "as_str DiagnosticDatabaseNextUpdate = ''diagnostic_database_next_update''"
| "as_str DiagnosticDatabaseBackup = ''diagnostic_database_backup''"
| "as_str (Custom name) = name"

datatype operation =
    Write collection_name string string
  | Delete collection_name string
  | DeleteAll collection_name
  | CreateCollection collection_name
  | DeleteCollection collection_name
  | CopyCollection collection_name collection_name bool

text \<open>\<open>Io\<close> carries the kind of the operating-system error where the code looks at it.\<close>

datatype io_error = IoNotFound | IoOther

datatype storage_error =
    CollectionNotFound string
  | KeyNotFound string
  | PermissionDenied string
  | TransactionBusy
  | TransactionConflict string
  | NoSpaceLeft string
  | Io io_error
  | Corruption string
  | Other string

type_synonym 'a storage_result = "storage_error + 'a"

fun map_io_error :: "io_error \<Rightarrow> string \<Rightarrow> storage_error" where
  "map_io_error e key = (if e = IoNotFound then KeyNotFound key else Io e)"

section \<open>Paths\<close>

text \<open>\<open>sanitize_path_segment\<close> with the \<open>sanitize-paths\<close> feature.\<close>

definition sanitize_path_segment :: "string \<Rightarrow> unit storage_result" where
  "sanitize_path_segment segment =
     (if segment = [] then Inl (Other ''Path segment must not be empty'')
      else if segment = ''.'' \<or> segment = ''..''
        then Inl (Other ''Path segment must not be a relative reference'')
      else if CHR ''/'' \<in> set segment \<or> CHR 0x5C \<in> set segment
        then Inl (Other ''Path segment must not contain separators'')
      else if CHR 0x00 \<in> set segment
        then Inl (Other ''Path segment must not contain null bytes'')
      else Inr ())"

text \<open>\<open>str::to_ascii_lowercase\<close>\<close>

definition ascii_lower :: "char \<Rightarrow> char" where
  "ascii_lower c = (if 65 \<le> (of_char c :: nat) \<and> (of_char c :: nat) \<le> 90
     then char_of (of_char c + 32 :: nat) else c)"

definition normalize_key :: "string \<Rightarrow> string" where
  "normalize_key key = map ascii_lower key"

text \<open>
  \<open>Path::extension\<close> of a single segment: the part behind the last dot, unless the dot is the
  first character; \<open>with_extension("")\<close> removes it together with the dot.
\<close>

definition split_last_dot :: "string \<Rightarrow> (string \<times> string) option" where
  "split_last_dot s =
     (let suffix = takeWhile (\<lambda>c. c \<noteq> CHR ''.'') (rev s);
          rest = drop (length suffix) (rev s)
      in case rest of [] \<Rightarrow> None | dot # stem \<Rightarrow> Some (rev stem, rev suffix))"

definition extension :: "string \<Rightarrow> string option" where
  "extension s =
     (if s = ''..'' then None
      else case split_last_dot s of
        None \<Rightarrow> None
      | Some (stem, ext) \<Rightarrow> if stem = [] then None else Some ext)"

definition without_extension :: "string \<Rightarrow> string" where
  "without_extension s =
     (case extension s of
        None \<Rightarrow> s
      | Some _ \<Rightarrow> (case split_last_dot s of None \<Rightarrow> s | Some (stem, ext) \<Rightarrow> stem))"

definition append_extension :: "string \<Rightarrow> string \<Rightarrow> string" where
  "append_extension path ext = path @ ''.'' @ ext"

abbreviation bak :: "string \<Rightarrow> string" where
  "bak name \<equiv> append_extension name ''bak''"

definition is_bak :: "string \<Rightarrow> bool" where
  "is_bak name \<longleftrightarrow> extension name = Some ''bak''"

definition is_tmp :: "string \<Rightarrow> bool" where
  "is_tmp name \<longleftrightarrow> extension name = Some ''tmp''"

lemma split_last_dot_append:
  assumes "CHR ''.'' \<notin> set ext"
  shows "split_last_dot (s @ CHR ''.'' # ext) = Some (s, ext)"
proof -
  have "takeWhile (\<lambda>c. c \<noteq> CHR ''.'') (rev ext @ CHR ''.'' # rev s) = rev ext"
    using assms by (subst takeWhile_append2) auto
  then show ?thesis by (simp add: split_last_dot_def Let_def)
qed

lemma extension_bak: "s \<noteq> [] \<Longrightarrow> extension (bak s) = Some ''bak''"
  by (simp add: extension_def append_extension_def split_last_dot_append)

lemma without_extension_bak [simp]: "s \<noteq> [] \<Longrightarrow> without_extension (bak s) = s"
  using extension_bak[of s]
  by (simp add: without_extension_def append_extension_def split_last_dot_append)

lemma is_bak_bak [simp]: "s \<noteq> [] \<Longrightarrow> is_bak (bak s)"
  by (simp add: is_bak_def extension_bak)

lemma not_is_tmp_bak [simp]: "s \<noteq> [] \<Longrightarrow> \<not> is_tmp (bak s)"
  by (simp add: is_tmp_def extension_bak)

lemma bak_inject [simp]: "bak a = bak b \<longleftrightarrow> a = b"
  by (simp add: append_extension_def)

lemma bak_neq [simp]: "bak a \<noteq> a" "a \<noteq> bak a"
  by (simp_all add: append_extension_def)

text \<open>Every backup name is the backup of exactly one name.\<close>

lemma is_bak_cases:
  assumes "is_bak n"
  obtains s where "s \<noteq> []" "n = bak s"
proof -
  obtain stem where s: "split_last_dot n = Some (stem, ''bak'')" "stem \<noteq> []"
    using assms by (auto simp: is_bak_def extension_def split: if_splits option.splits)
  let ?suf = "takeWhile (\<lambda>c. c \<noteq> CHR ''.'') (rev n)"
  obtain dot where dot: "drop (length ?suf) (rev n) = dot # rev stem" "?suf = rev ''bak''"
    using s(1) by (auto simp: split_last_dot_def Let_def split: list.splits)
  have dw: "dropWhile (\<lambda>c. c \<noteq> CHR ''.'') (rev n) = dot # rev stem"
    using dot(1) by (simp add: dropWhile_eq_drop)
  then have "dot = CHR ''.''" using hd_dropWhile[of "\<lambda>c. c \<noteq> CHR ''.''" "rev n"] by simp
  moreover have "rev n = ?suf @ dropWhile (\<lambda>c. c \<noteq> CHR ''.'') (rev n)" by simp
  then have "rev n = rev ''bak'' @ dot # rev stem" using dw dot(2) by simp
  then have "rev (rev n) = rev (rev ''bak'' @ dot # rev stem)" by (rule arg_cong)
  ultimately have "n = bak stem" by (simp add: append_extension_def)
  with s(2) show ?thesis using that by blast
qed

section \<open>Key normalisation\<close>

lemma ascii_lower_idem [simp]: "ascii_lower (ascii_lower c) = ascii_lower c"
proof (cases "65 \<le> (of_char c :: nat) \<and> (of_char c :: nat) \<le> 90")
  case True
  then have "of_char (char_of (of_char c + 32 :: nat)) = (of_char c + 32 :: nat)"
    by (simp add: char_of_nat of_char_mod_256)
  with True show ?thesis by (simp add: ascii_lower_def)
qed (auto simp: ascii_lower_def)

lemma normalize_key_idem [simp]: "normalize_key (normalize_key k) = normalize_key k"
  by (simp add: normalize_key_def)

end
