(* ===== verification/Disk.thy ===== *)
theory Disk
  imports Storage_Types "HOL-Library.AList"
begin

text \<open>
  The part of the file system that \<open>cda-storage\<close> works on: the collection directories under
  \<open>collections/\<close>, the WAL file and the staging directory under \<open>journal/\<close>. A directory is an
  association list, whose order is the order in which \<open>read_dir\<close> reports the entries. Collection
  directories hold regular files only and \<open>collections/\<close> holds directories only; the storage never
  creates anything else there.

  Every call that changes the disk passes through \<open>mutate\<close>: it advances a clock and fails if the
  fault pattern says so. A crash at time \<open>t\<close> is the pattern in which every later call fails: what
  remains on the disk is what the next start finds.
\<close>

type_synonym dir = "(string \<times> byte list) list"

record disk =
  colls :: "(string \<times> dir) list"
  wal_file :: "byte list option"
  staging :: dir
  clock :: nat

type_synonym faults = "nat \<Rightarrow> bool"
type_synonym 'a io = "disk \<Rightarrow> 'a storage_result \<times> disk"

section \<open>Sequencing\<close>

definition ret :: "'a \<Rightarrow> 'a io" where
  "ret x d = (Inr x, d)"

definition fail :: "storage_error \<Rightarrow> 'a io" where
  "fail e d = (Inl e, d)"

definition bindIO :: "'a io \<Rightarrow> ('a \<Rightarrow> 'b io) \<Rightarrow> 'b io" where
  "bindIO m f d = (case m d of (Inl e, d') \<Rightarrow> (Inl e, d') | (Inr x, d') \<Rightarrow> f x d')"

definition thenIO :: "unit io \<Rightarrow> 'b io \<Rightarrow> 'b io" where
  "thenIO m n = bindIO m (\<lambda>_. n)"

text \<open>\<open>if let Err(e) = action { warn }\<close>: the error is dropped, the effect stays.\<close>

definition ignoreIO :: "unit io \<Rightarrow> unit io" where
  "ignoreIO m d = (Inr (), snd (m d))"

definition whenIO :: "bool \<Rightarrow> unit io \<Rightarrow> unit io" where
  "whenIO b m = (if b then m else ret ())"

text \<open>A test of the current disk.\<close>

definition query :: "(disk \<Rightarrow> 'a) \<Rightarrow> ('a \<Rightarrow> 'b io) \<Rightarrow> 'b io" where
  "query q f d = f (q d) d"

fun for_io :: "('a \<Rightarrow> unit io) \<Rightarrow> 'a list \<Rightarrow> unit io" where
  "for_io f [] = ret ()"
| "for_io f (x # xs) = thenIO (f x) (for_io f xs)"

section \<open>Primitive calls\<close>

definition mutate :: "faults \<Rightarrow> (disk \<Rightarrow> disk storage_result) \<Rightarrow> unit io" where
  "mutate flt f d =
     (let d1 = d\<lparr>clock := Suc (clock d)\<rparr>
      in if flt (clock d) then (Inl (Io IoOther), d1)
         else case f d1 of Inl e \<Rightarrow> (Inl e, d1) | Inr d2 \<Rightarrow> (Inr (), d2))"

text \<open>\<open>read_dir\<close>\<close>

definition listing :: "(string \<times> 'a) list \<Rightarrow> string list" where
  "listing al = remdups (map fst al)"

definition coll :: "disk \<Rightarrow> string \<Rightarrow> dir option" where
  "coll d c = map_of (colls d) c"

definition dir_exists :: "disk \<Rightarrow> string \<Rightarrow> bool" where
  "dir_exists d c \<longleftrightarrow> coll d c \<noteq> None"

definition file_exists :: "disk \<Rightarrow> string \<Rightarrow> string \<Rightarrow> bool" where
  "file_exists d c k \<longleftrightarrow> (case coll d c of None \<Rightarrow> False | Some al \<Rightarrow> map_of al k \<noteq> None)"

definition set_coll :: "string \<Rightarrow> dir \<Rightarrow> disk \<Rightarrow> disk" where
  "set_coll c al d = d\<lparr>colls := AList.update c al (colls d)\<rparr>"

definition del_coll :: "string \<Rightarrow> disk \<Rightarrow> disk" where
  "del_coll c d = d\<lparr>colls := AList.delete c (colls d)\<rparr>"

text \<open>\<open>create_dir_all\<close>\<close>

definition create_dir :: "string \<Rightarrow> disk \<Rightarrow> disk storage_result" where
  "create_dir c d = Inr (if dir_exists d c then d else set_coll c [] d)"

text \<open>\<open>rename\<close> of a file inside its directory replaces the target.\<close>

definition rename_file :: "string \<Rightarrow> string \<Rightarrow> string \<Rightarrow> disk \<Rightarrow> disk storage_result" where
  "rename_file c k k' d =
     (case coll d c of
        None \<Rightarrow> Inl (Io IoNotFound)
      | Some al \<Rightarrow> (case map_of al k of
          None \<Rightarrow> Inl (Io IoNotFound)
        | Some x \<Rightarrow> Inr (set_coll c (AList.update k' x (AList.delete k al)) d)))"

text \<open>\<open>rename\<close> of a directory fails when the target exists and is not empty.\<close>

definition rename_dir :: "string \<Rightarrow> string \<Rightarrow> disk \<Rightarrow> disk storage_result" where
  "rename_dir c c' d =
     (case coll d c of
        None \<Rightarrow> Inl (Io IoNotFound)
      | Some al \<Rightarrow>
          if (case coll d c' of None \<Rightarrow> False | Some al' \<Rightarrow> al' \<noteq> []) then Inl (Io IoOther)
          else Inr (set_coll c' al (del_coll c d)))"

text \<open>\<open>rename\<close> of a staged file into a collection.\<close>

definition install :: "string \<Rightarrow> string \<Rightarrow> string \<Rightarrow> disk \<Rightarrow> disk storage_result" where
  "install staged c k d =
     (case map_of (staging d) staged of
        None \<Rightarrow> Inl (Io IoNotFound)
      | Some x \<Rightarrow> (case coll d c of
          None \<Rightarrow> Inl (Io IoNotFound)
        | Some al \<Rightarrow>
            Inr ((set_coll c (AList.update k x al) d)\<lparr>staging := AList.delete staged (staging d)\<rparr>)))"

definition remove_file :: "string \<Rightarrow> string \<Rightarrow> disk \<Rightarrow> disk storage_result" where
  "remove_file c k d =
     (if file_exists d c k
      then Inr (set_coll c (AList.delete k (the (coll d c))) d) else Inl (Io IoNotFound))"

definition remove_dir :: "string \<Rightarrow> disk \<Rightarrow> disk storage_result" where
  "remove_dir c d =
     (case coll d c of
        None \<Rightarrow> Inl (Io IoNotFound)
      | Some al \<Rightarrow> if al = [] then Inr (del_coll c d) else Inl (Io IoOther))"

text \<open>\<open>std::fs::copy\<close> of one file between collections.\<close>

definition copy_file :: "string \<Rightarrow> string \<Rightarrow> string \<Rightarrow> disk \<Rightarrow> disk storage_result" where
  "copy_file src dst k d =
     (case coll d src of
        None \<Rightarrow> Inl (Io IoNotFound)
      | Some al \<Rightarrow> (case map_of al k of
          None \<Rightarrow> Inl (Io IoNotFound)
        | Some x \<Rightarrow> (case coll d dst of
            None \<Rightarrow> Inl (Io IoNotFound)
          | Some al' \<Rightarrow> Inr (set_coll dst (AList.update k x al') d))))"

text \<open>\<open>remove_dir_all\<close> removes the files one by one, then the directory.\<close>

definition remove_dir_all :: "faults \<Rightarrow> string \<Rightarrow> unit io" where
  "remove_dir_all flt c =
     query (\<lambda>d. listing (the (coll d c))) (\<lambda>names.
       thenIO (for_io (\<lambda>k. mutate flt (remove_file c k)) names) (mutate flt (remove_dir c)))"

text \<open>\<open>fsync\<close> changes nothing that the model sees, but it may fail.\<close>

definition fsync :: "faults \<Rightarrow> unit io" where
  "fsync flt = mutate flt Inr"

section \<open>Directories as maps\<close>

text \<open>What the entries of the collection directories are, whatever their order.\<close>

definition fs :: "disk \<Rightarrow> string \<Rightarrow> (string \<rightharpoonup> byte list) option" where
  "fs d c = map_option map_of (coll d c)"

lemma set_listing [simp]: "set (listing al) = dom (map_of al)"
  by (simp add: listing_def dom_map_of_conv_image_fst)

lemma distinct_listing [simp]: "distinct (listing al)"
  by (simp add: listing_def)

lemma map_of_empty_iff: "map_of al = Map.empty \<longleftrightarrow> al = []"
  by (cases al) (auto simp: fun_eq_iff split: if_splits)

lemma coll_set_coll [simp]: "coll (set_coll c al d) = (coll d)(c \<mapsto> al)"
  by (simp add: coll_def set_coll_def AList.update_conv' fun_eq_iff)

lemma coll_del_coll [simp]: "coll (del_coll c d) = (coll d)(c := None)"
  by (simp add: coll_def del_coll_def AList.delete_conv' fun_eq_iff)

lemma coll_frame [simp]:
  "coll (d\<lparr>clock := n\<rparr>) = coll d" "coll (d\<lparr>staging := s\<rparr>) = coll d" "coll (d\<lparr>wal_file := w\<rparr>) = coll d"
  by (simp_all add: coll_def fun_eq_iff)

lemma fs_frame [simp]:
  "fs (d\<lparr>clock := n\<rparr>) = fs d" "fs (d\<lparr>staging := s\<rparr>) = fs d" "fs (d\<lparr>wal_file := w\<rparr>) = fs d"
  by (simp_all add: fs_def fun_eq_iff)

lemma fs_set_coll [simp]: "fs (set_coll c al d) = (fs d)(c \<mapsto> map_of al)"
  by (simp add: fs_def fun_eq_iff)

lemma fs_del_coll [simp]: "fs (del_coll c d) = (fs d)(c := None)"
  by (simp add: fs_def fun_eq_iff)

lemma disk_frame [simp]:
  "staging (set_coll c al d) = staging d" "staging (del_coll c d) = staging d"
  "wal_file (set_coll c al d) = wal_file d" "wal_file (del_coll c d) = wal_file d"
  by (simp_all add: set_coll_def del_coll_def)

lemma dir_exists_fs: "dir_exists d c \<longleftrightarrow> fs d c \<noteq> None"
  by (simp add: dir_exists_def fs_def)

lemma file_exists_fs: "file_exists d c k \<longleftrightarrow> (\<exists>m. fs d c = Some m \<and> m k \<noteq> None)"
  by (auto simp: file_exists_def fs_def split: option.splits)

lemma coll_Some_fs: "coll d c = Some al \<Longrightarrow> fs d c = Some (map_of al)"
  by (simp add: fs_def)

lemma fs_SomeE:
  assumes "fs d c = Some m"
  obtains al where "coll d c = Some al" "m = map_of al"
  using assms by (auto simp: fs_def)

section \<open>The primitive calls on maps\<close>

text \<open>For each call: when it succeeds, and what it then does to the maps; the log is untouched.\<close>

lemma create_dir_ok:
  "\<exists>d'. create_dir c d = Inr d' \<and>
     fs d' = (fs d)(c \<mapsto> (case fs d c of None \<Rightarrow> Map.empty | Some m \<Rightarrow> m)) \<and>
     wal_file d' = wal_file d \<and> staging d' = staging d"
  by (auto simp: create_dir_def dir_exists_fs split: option.splits)

lemma rename_file_ok:
  assumes "fs d c = Some m" "m k = Some x"
  shows "\<exists>d'. rename_file c k k' d = Inr d' \<and> fs d' = (fs d)(c \<mapsto> m(k := None, k' \<mapsto> x)) \<and>
     wal_file d' = wal_file d \<and> staging d' = staging d"
  using assms
  by (auto simp: rename_file_def AList.update_conv' AList.delete_conv' elim!: fs_SomeE)

lemma rename_file_cond:
  "rename_file c k k' d = Inr d' \<Longrightarrow> \<exists>m x. fs d c = Some m \<and> m k = Some x"
  by (auto simp: rename_file_def fs_def split: option.splits)

lemma rename_dir_ok:
  assumes "fs d c = Some m" "fs d c' = None \<or> fs d c' = Some Map.empty"
  shows "\<exists>d'. rename_dir c c' d = Inr d' \<and> fs d' = (fs d)(c := None, c' \<mapsto> m) \<and>
     wal_file d' = wal_file d \<and> staging d' = staging d"
  using assms
  by (auto simp: rename_dir_def map_of_empty_iff elim!: fs_SomeE split: option.splits)
    (auto simp: fs_def map_of_empty_iff)

lemma rename_dir_cond:
  "rename_dir c c' d = Inr d' \<Longrightarrow>
   (\<exists>m. fs d c = Some m) \<and> (fs d c' = None \<or> fs d c' = Some Map.empty)"
  by (auto simp: rename_dir_def fs_def split: option.splits if_splits)

lemma install_ok:
  assumes "fs d c = Some m" "map_of (staging d) p = Some x"
  shows "\<exists>d'. install p c k d = Inr d' \<and> fs d' = (fs d)(c \<mapsto> m(k \<mapsto> x)) \<and>
     wal_file d' = wal_file d \<and> staging d' = AList.delete p (staging d)"
  using assms by (auto simp: install_def AList.update_conv' elim!: fs_SomeE)

lemma install_cond:
  "install p c k d = Inr d' \<Longrightarrow> (\<exists>m. fs d c = Some m) \<and> (\<exists>x. map_of (staging d) p = Some x)"
  by (auto simp: install_def fs_def split: option.splits)

lemma remove_file_ok:
  assumes "fs d c = Some m" "m k \<noteq> None"
  shows "\<exists>d'. remove_file c k d = Inr d' \<and> fs d' = (fs d)(c \<mapsto> m(k := None)) \<and>
     wal_file d' = wal_file d \<and> staging d' = staging d"
  using assms by (auto simp: remove_file_def file_exists_fs AList.delete_conv' elim!: fs_SomeE)

lemma remove_file_cond: "remove_file c k d = Inr d' \<Longrightarrow> \<exists>m. fs d c = Some m \<and> m k \<noteq> None"
  by (auto simp: remove_file_def file_exists_fs split: if_splits)

lemma remove_dir_ok:
  assumes "fs d c = Some Map.empty"
  shows "\<exists>d'. remove_dir c d = Inr d' \<and> fs d' = (fs d)(c := None) \<and>
     wal_file d' = wal_file d \<and> staging d' = staging d"
proof -
  have "coll d c = Some []" using assms by (auto simp: map_of_empty_iff eq_commute elim!: fs_SomeE)
  then show ?thesis by (simp add: remove_dir_def)
qed

lemma remove_dir_cond: "remove_dir c d = Inr d' \<Longrightarrow> fs d c = Some Map.empty"
  by (auto simp: remove_dir_def fs_def split: option.splits if_splits)

lemma copy_file_ok:
  assumes "fs d src = Some m" "m k = Some x" "fs d dst = Some m'"
  shows "\<exists>d'. copy_file src dst k d = Inr d' \<and> fs d' = (fs d)(dst \<mapsto> m'(k \<mapsto> x)) \<and>
     wal_file d' = wal_file d \<and> staging d' = staging d"
  using assms by (auto simp: copy_file_def AList.update_conv' elim!: fs_SomeE)

lemma copy_file_cond:
  "copy_file src dst k d = Inr d' \<Longrightarrow> \<exists>m x m'. fs d src = Some m \<and> m k = Some x \<and> fs d dst = Some m'"
  by (auto simp: copy_file_def fs_def split: option.splits)

text \<open>The entries of a directory and of the collections, through the maps.\<close>

lemma listing_coll_fs: "fs d c = Some m \<Longrightarrow> set (listing (the (coll d c))) = dom m"
  by (auto elim!: fs_SomeE)

lemma listing_colls_fs: "set (listing (colls d)) = {c. fs d c \<noteq> None}"
  by (auto simp: fs_def coll_def)

end
