(* ===== verification/Wal.thy ===== *)
theory Wal
  imports Storage_Types
begin

text \<open>
  The write-ahead log of \<open>cda-storage/src/wal.rs\<close>: an eight-byte header with the status, then one
  checksummed envelope per recorded operation. The CRC-32 (crate \<open>crc32fast\<close>) and the
  serialisation of operations (crate \<open>rkyv\<close>) are parameters: \<open>crc\<close>, \<open>ser\<close> and \<open>de\<close>. A WAL
  file is its byte list; the functions that write it return the new contents.
\<close>

section \<open>Model\<close>

datatype wal_status = Recording | Committing

definition wal_magic :: byte where
  "wal_magic = 0xCA"

definition status_recording :: byte where
  "status_recording = 0"

definition status_committing :: byte where
  "status_committing = 1"

definition wal_file_header_size :: nat where
  "wal_file_header_size = 8"

definition entry_header_size :: nat where
  "entry_header_size = 8"

text \<open>\<open>u32::to_le_bytes\<close> and \<open>u32::from_le_bytes\<close>\<close>

definition to_le_bytes :: "nat \<Rightarrow> byte list" where
  "to_le_bytes v = rev (be_bytes 4 v)"

definition from_le_bytes :: "byte list \<Rightarrow> nat" where
  "from_le_bytes bs = be_val (rev bs)"

type_synonym checksum = "byte list \<Rightarrow> 32 word"
type_synonym serialiser = "operation \<Rightarrow> string + byte list"
type_synonym deserialiser = "byte list \<Rightarrow> string + operation"

definition compute_header_checksum :: "checksum \<Rightarrow> byte \<Rightarrow> byte \<Rightarrow> nat" where
  "compute_header_checksum crc magic status = unat (crc [magic, status])"

definition compute_checksum :: "checksum \<Rightarrow> byte list \<Rightarrow> nat" where
  "compute_checksum crc data = unat (crc data)"

definition encode_header :: "checksum \<Rightarrow> byte \<Rightarrow> byte list" where
  "encode_header crc status =
     [wal_magic, status, 0, 0] @ to_le_bytes (compute_header_checksum crc wal_magic status)"

definition create_wal :: "checksum \<Rightarrow> byte list" where
  "create_wal crc = encode_header crc status_recording"

definition append_operation ::
  "checksum \<Rightarrow> serialiser \<Rightarrow> operation \<Rightarrow> byte list \<Rightarrow> byte list storage_result" where
  "append_operation crc ser oper wal =
     (case ser oper of
        Inl e \<Rightarrow> Inl (Other e)
      | Inr payload \<Rightarrow>
          let checksum = compute_checksum crc payload
          in if length payload > u32_max
             then Inl (Other ''WAL entry payload exceeds u32::MAX bytes'')
             else Inr (wal @ to_le_bytes checksum @ to_le_bytes (length payload) @ payload))"

text \<open>Seek to the start and overwrite the header in place.\<close>

definition mark_committing :: "checksum \<Rightarrow> byte list \<Rightarrow> byte list" where
  "mark_committing crc wal =
     (let header = encode_header crc status_committing in header @ drop (length header) wal)"

definition open_wal ::
  "checksum \<Rightarrow> byte list option \<Rightarrow> (wal_status \<times> byte list) option storage_result" where
  "open_wal crc file =
     (case file of
        None \<Rightarrow> Inr None
      | Some data \<Rightarrow>
          if length data < wal_file_header_size then Inr None
          else
            let magic = data ! 0; status = data ! 1
            in bindE (ok_or (get_range data 4 wal_file_header_size)
                        (Other ''WAL header CRC slice out of bounds'')) (\<lambda>stored_crc_bytes.
                 let stored_crc = from_le_bytes stored_crc_bytes;
                     expected_crc = compute_header_checksum crc magic status
                 in if magic \<noteq> wal_magic then Inr None
                    else if stored_crc \<noteq> expected_crc then Inr None
                    else if status = status_recording then Inr (Some (Recording, data))
                    else if status = status_committing then Inr (Some (Committing, data))
                    else Inr None))"

record wal_read_result =
  operations :: "operation list"
  truncated :: bool

text \<open>One pass of the reading loop: the entry at \<open>offset\<close>, or the discovery that it is torn.\<close>

datatype wal_entry = Torn | Entry operation nat

definition read_wal_entry ::
  "checksum \<Rightarrow> deserialiser \<Rightarrow> byte list \<Rightarrow> nat \<Rightarrow> wal_entry storage_result" where
  "read_wal_entry crc de data offset =
     (if length data - offset < entry_header_size then Inr Torn
      else
        bindE (ok_or (get_range data offset (offset + entry_header_size)) (Other ''WAL offset out of bounds''))
          (\<lambda>header.
        bindE (ok_or (get_range header 0 4) (Other ''WAL entry checksum slice'')) (\<lambda>checksum_bytes.
        bindE (ok_or (get_range header 4 8) (Other ''WAL entry length slice'')) (\<lambda>len_bytes.
          let stored_checksum = from_le_bytes checksum_bytes;
              payload_len = from_le_bytes len_bytes;
              payload_start = offset + entry_header_size;
              payload_end = saturating_add payload_start payload_len
          in if payload_end > length data \<or> payload_end \<le> payload_start then Inr Torn
             else
               bindE (ok_or (get_range data payload_start payload_end) (Other ''WAL payload out of bounds''))
                 (\<lambda>payload.
                   if stored_checksum \<noteq> compute_checksum crc payload then Inr Torn
                   else bindE (map_sum (\<lambda>e. Other (''Failed to decode WAL entry: '' @ e)) id (de payload))
                     (\<lambda>oper. Inr (Entry oper payload_end)))))))"

lemma read_wal_entry_advances:
  "read_wal_entry crc de data offset = Inr (Entry oper next) \<Longrightarrow> offset < next \<and> next \<le> length data"
  by (auto simp: read_wal_entry_def result_simps Let_def split: if_splits)

function read_wal_from ::
  "checksum \<Rightarrow> deserialiser \<Rightarrow> byte list \<Rightarrow> nat \<Rightarrow> operation list \<Rightarrow> wal_read_result storage_result" where
  "read_wal_from crc de data offset opers =
     (if offset < length data
      then bindE (read_wal_entry crc de data offset) (\<lambda>e. case e of
             Torn \<Rightarrow> Inr \<lparr>operations = opers, truncated = True\<rparr>
           | Entry oper next \<Rightarrow> read_wal_from crc de data next (opers @ [oper]))
      else Inr \<lparr>operations = opers, truncated = False\<rparr>)"
  by pat_completeness auto
termination
  by (relation "measure (\<lambda>(crc, de, data, offset, opers). length data - offset)")
    (auto dest: read_wal_entry_advances)

declare read_wal_from.simps [simp del]

definition read_wal :: "checksum \<Rightarrow> deserialiser \<Rightarrow> byte list \<Rightarrow> wal_read_result storage_result" where
  "read_wal crc de data = read_wal_from crc de data wal_file_header_size []"

section \<open>Little-endian fields\<close>

lemma length_to_le_bytes [simp]: "length (to_le_bytes v) = 4"
  by (simp add: to_le_bytes_def)

lemma le_bytes_roundtrip: "v \<le> u32_max \<Longrightarrow> from_le_bytes (to_le_bytes v) = v"
  by (simp add: from_le_bytes_def to_le_bytes_def be_val_be_bytes u32_max_def)

lemma checksum_le_u32_max: "unat (c :: 32 word) \<le> u32_max"
proof -
  have "unat c < 2 ^ LENGTH(32)" by (rule unsigned_less)
  then show ?thesis by (simp add: u32_max_def)
qed

section \<open>Reading back what was written\<close>

text \<open>
  What the log relies on in the serialisation crate: bytes it produced for an operation decode to
  that operation, and they are not empty.
\<close>

definition rkyv_roundtrip :: "serialiser \<Rightarrow> deserialiser \<Rightarrow> bool" where
  "rkyv_roundtrip ser de \<longleftrightarrow> (\<forall>oper bs. ser oper = Inr bs \<longrightarrow> de bs = Inr oper \<and> bs \<noteq> [])"

definition entry_bytes :: "checksum \<Rightarrow> byte list \<Rightarrow> byte list" where
  "entry_bytes crc payload =
     to_le_bytes (compute_checksum crc payload) @ to_le_bytes (length payload) @ payload"

definition entries :: "checksum \<Rightarrow> byte list list \<Rightarrow> byte list" where
  "entries crc payloads = concat (map (entry_bytes crc) payloads)"

definition serialised :: "serialiser \<Rightarrow> operation \<Rightarrow> byte list \<Rightarrow> bool" where
  "serialised ser oper payload \<longleftrightarrow> ser oper = Inr payload \<and> length payload \<le> u32_max"

definition append_all :: "checksum \<Rightarrow> serialiser \<Rightarrow> operation list \<Rightarrow> byte list \<Rightarrow> byte list storage_result" where
  "append_all crc ser opers wal = for_each (append_operation crc ser) opers wal"

lemma length_entry_bytes [simp]: "length (entry_bytes crc payload) = 8 + length payload"
  by (simp add: entry_bytes_def)

lemma entry_bytes_nonempty [simp]: "entry_bytes crc payload \<noteq> []"
proof
  assume "entry_bytes crc payload = []"
  then have "length (entry_bytes crc payload) = 0" by (simp only: list.size)
  then show False by simp
qed

lemma entries_simps [simp]:
  "entries crc [] = []" "entries crc (p # ps) = entry_bytes crc p @ entries crc ps"
  by (simp_all add: entries_def)

lemma append_operation_Inr:
  "append_operation crc ser oper wal = Inr wal' \<longleftrightarrow>
   (\<exists>p. serialised ser oper p \<and> wal' = wal @ entry_bytes crc p)"
  by (auto simp: append_operation_def serialised_def entry_bytes_def Let_def
      split: sum.splits if_splits)

lemma append_all_Inr:
  "append_all crc ser opers wal = Inr wal' \<longleftrightarrow>
   (\<exists>ps. list_all2 (serialised ser) opers ps \<and> wal' = wal @ entries crc ps)"
proof (induction opers arbitrary: wal)
  case (Cons oper opers)
  have "append_all crc ser (oper # opers) wal = Inr wal' \<longleftrightarrow>
      (\<exists>w. append_operation crc ser oper wal = Inr w \<and> append_all crc ser opers w = Inr wal')"
    by (simp add: append_all_def bindE_Inr_iff)
  also have "\<dots> \<longleftrightarrow> (\<exists>p ps. serialised ser oper p \<and> list_all2 (serialised ser) opers ps \<and>
      wal' = wal @ entry_bytes crc p @ entries crc ps)"
    unfolding append_operation_Inr Cons.IH by (metis append_assoc)
  also have "\<dots> \<longleftrightarrow> (\<exists>ps. list_all2 (serialised ser) (oper # opers) ps \<and> wal' = wal @ entries crc ps)"
    unfolding list_all2_Cons1 by (metis entries_simps(2))
  finally show ?case .
qed (auto simp: append_all_def)

lemma entry_header_fields:
  assumes "data = pre @ entry_bytes crc p @ rest" "length p \<le> u32_max"
  shows "get_range data (length pre) (length pre + 8) =
      Some (to_le_bytes (compute_checksum crc p) @ to_le_bytes (length p))"
    and "get_range data (length pre + 8) (length pre + 8 + length p) = Some p"
  using assms by (simp_all add: entry_bytes_def get_range_def)

lemma read_entry_ok:
  assumes data: "data = pre @ entry_bytes crc p @ rest" and p: "length p \<le> u32_max" "p \<noteq> []" "de p = Inr oper"
    and size: "length data \<le> usize_max"
  shows "read_wal_entry crc de data (length pre) = Inr (Entry oper (length pre + 8 + length p))"
proof -
  have s: "saturating_add (length pre + 8) (length p) = length pre + 8 + length p"
    using data size by (simp add: saturating_add_exact)
  have c: "from_le_bytes (to_le_bytes (compute_checksum crc p)) = compute_checksum crc p"
    unfolding compute_checksum_def by (rule le_bytes_roundtrip[OF checksum_le_u32_max])
  have l: "length data = length pre + 8 + length p + length rest" using data by simp
  have h: "get_range (to_le_bytes (compute_checksum crc p) @ to_le_bytes (length p)) 0 4
      = Some (to_le_bytes (compute_checksum crc p))"
    "get_range (to_le_bytes (compute_checksum crc p) @ to_le_bytes (length p)) 4 8
      = Some (to_le_bytes (length p))" by (simp_all add: get_range_def)
  show ?thesis using p(2,3) l
    by (simp add: read_wal_entry_def entry_header_size_def entry_header_fields[OF data p(1)] h
        le_bytes_roundtrip[OF p(1)] c s Let_def)
qed

lemma read_entry_torn:
  assumes data: "data = pre @ take n (entry_bytes crc p)" "0 < n" "n < length (entry_bytes crc p)"
    and p: "length p \<le> u32_max" and size: "length pre + 8 + length p \<le> usize_max"
  shows "read_wal_entry crc de data (length pre) = Inr Torn"
proof (cases "n < 8")
  case True
  then show ?thesis using data by (simp add: read_wal_entry_def entry_header_size_def)
next
  case False
  let ?h = "to_le_bytes (compute_checksum crc p) @ to_le_bytes (length p)"
  have d: "data = pre @ ?h @ take (n - 8) p"
    using False data(1) by (simp add: entry_bytes_def take_append)
  have h: "get_range data (length pre) (length pre + 8) = Some ?h"
    "get_range ?h 0 4 = Some (to_le_bytes (compute_checksum crc p))"
    "get_range ?h 4 8 = Some (to_le_bytes (length p))" using d by (simp_all add: get_range_def)
  have s: "saturating_add (length pre + 8) (length p) = length pre + 8 + length p"
    using size by (simp add: saturating_add_exact)
  have "length data < length pre + 8 + length p" "8 \<le> length data - length pre"
    using d data(3) False by simp_all
  then show ?thesis
    by (simp add: read_wal_entry_def entry_header_size_def h le_bytes_roundtrip[OF p] s Let_def)
qed

lemma read_entries:
  assumes rt: "rkyv_roundtrip ser de"
    and "list_all2 (serialised ser) opers ps" "length (pre @ entries crc ps) \<le> usize_max"
  shows "read_wal_from crc de (pre @ entries crc ps) (length pre) acc =
    Inr \<lparr>operations = acc @ opers, truncated = False\<rparr>"
  using assms(2,3)
proof (induction opers ps arbitrary: pre acc rule: list_all2_induct)
  case Nil
  then show ?case by (subst read_wal_from.simps) simp
next
  case (Cons oper opers p ps)
  let ?data = "pre @ entries crc (p # ps)"
  have p: "length p \<le> u32_max" "p \<noteq> []" "de p = Inr oper"
    using Cons.hyps(1) rt by (auto simp: serialised_def rkyv_roundtrip_def)
  have d: "?data = pre @ entry_bytes crc p @ entries crc ps" by simp
  have e: "read_wal_entry crc de ?data (length pre) = Inr (Entry oper (length pre + 8 + length p))"
    by (rule read_entry_ok[where rest = "entries crc ps"]) (use d p Cons.prems in auto)
  have "read_wal_from crc de ?data (length pre) acc =
      read_wal_from crc de ?data (length pre + 8 + length p) (acc @ [oper])"
    by (subst read_wal_from.simps) (simp only: e bindE.simps wal_entry.case, simp)
  also have "\<dots> = Inr \<lparr>operations = (acc @ [oper]) @ opers, truncated = False\<rparr>"
    using Cons.IH[of "pre @ entry_bytes crc p" "acc @ [oper]"] Cons.prems by (simp add: add.assoc)
  finally show ?case by simp
qed

lemma read_entries_prefix:
  assumes rt: "rkyv_roundtrip ser de"
    and "list_all2 (serialised ser) opers ps" "length (pre @ entries crc ps) \<le> usize_max"
  shows "\<exists>k t. read_wal_from crc de (pre @ take n (entries crc ps)) (length pre) acc =
      Inr \<lparr>operations = acc @ take k opers, truncated = t\<rparr> \<and>
    k \<le> length opers \<and> (t \<longleftrightarrow> take n (entries crc ps) \<noteq> entries crc (take k ps))"
  using assms(2,3)
proof (induction opers ps arbitrary: pre acc n rule: list_all2_induct)
  case Nil
  then show ?case by (intro exI[of _ 0] exI[of _ False]) (subst read_wal_from.simps, simp)
next
  case (Cons oper opers p ps)
  let ?e = "entry_bytes crc p"
  have p: "length p \<le> u32_max" "p \<noteq> []" "de p = Inr oper"
    using Cons.hyps(1) rt by (auto simp: serialised_def rkyv_roundtrip_def)
  consider "n = 0" | "0 < n" "n < length ?e" | "length ?e \<le> n" by linarith
  then show ?case
  proof cases
    case 1
    then show ?thesis by (intro exI[of _ 0] exI[of _ False]) (subst read_wal_from.simps, simp)
  next
    case 2
    have t: "take n (entries crc (p # ps)) = take n ?e" using 2 by simp
    have "read_wal_entry crc de (pre @ take n ?e) (length pre) = Inr Torn"
      by (rule read_entry_torn[OF refl 2]) (use p Cons.prems in auto)
    then have "read_wal_from crc de (pre @ take n ?e) (length pre) acc = Inr \<lparr>operations = acc, truncated = True\<rparr>"
      using 2 by (subst read_wal_from.simps) simp
    moreover have "take n ?e \<noteq> []" using 2 by (simp del: length_entry_bytes)
    ultimately show ?thesis unfolding t by (intro exI[of _ 0] exI[of _ True]) simp
  next
    case 3
    let ?rest = "take (n - length ?e) (entries crc ps)"
    have t: "take n (entries crc (p # ps)) = ?e @ ?rest" using 3 by simp
    have sz: "length (pre @ ?e @ ?rest) \<le> usize_max" using Cons.prems by (auto simp: min_def)
    have e: "read_wal_entry crc de (pre @ ?e @ ?rest) (length pre) = Inr (Entry oper (length pre + 8 + length p))"
      by (rule read_entry_ok[where rest = ?rest]) (use p sz in auto)
    obtain k t where k: "read_wal_from crc de ((pre @ ?e) @ ?rest) (length (pre @ ?e)) (acc @ [oper]) =
        Inr \<lparr>operations = (acc @ [oper]) @ take k opers, truncated = t\<rparr>"
      "k \<le> length opers" "t \<longleftrightarrow> ?rest \<noteq> entries crc (take k ps)"
      using Cons.IH[of "pre @ ?e" "n - length ?e" "acc @ [oper]"] Cons.prems by auto
    have "read_wal_from crc de (pre @ ?e @ ?rest) (length pre) acc =
        read_wal_from crc de (pre @ ?e @ ?rest) (length pre + 8 + length p) (acc @ [oper])"
      by (subst read_wal_from.simps) (simp only: e bindE.simps wal_entry.case, simp)
    then show ?thesis unfolding t using k
      by (intro exI[of _ "Suc k"] exI[of _ t]) (simp add: add.assoc)
  qed
qed

section \<open>The log through its interface\<close>

lemma length_encode_header [simp]: "length (encode_header crc st) = 8"
  by (simp add: encode_header_def)

lemma mark_committing_entries:
  "mark_committing crc (create_wal crc @ es) = encode_header crc status_committing @ es"
  by (simp add: mark_committing_def create_wal_def Let_def)

lemma open_wal_header:
  assumes "st = status_recording \<or> st = status_committing"
  shows "open_wal crc (Some (encode_header crc st @ es)) =
    Inr (Some (if st = status_recording then Recording else Committing, encode_header crc st @ es))"
proof -
  let ?c = "compute_header_checksum crc wal_magic st"
  have c: "from_le_bytes (to_le_bytes ?c) = ?c"
    unfolding compute_header_checksum_def by (rule le_bytes_roundtrip[OF checksum_le_u32_max])
  have "get_range (encode_header crc st @ es) 4 8 = Some (to_le_bytes ?c)"
    by (simp add: encode_header_def get_range_def)
  moreover have "(encode_header crc st @ es) ! 0 = wal_magic" "(encode_header crc st @ es) ! 1 = st"
    by (simp_all add: encode_header_def)
  ultimately show ?thesis using assms c
    by (auto simp: open_wal_def wal_file_header_size_def Let_def status_recording_def status_committing_def)
qed

lemma wal_readback:
  assumes "rkyv_roundtrip ser de"
    and "append_all crc ser opers (create_wal crc) = Inr wal" "length wal \<le> usize_max"
  shows "open_wal crc (Some wal) = Inr (Some (Recording, wal))"
    and "open_wal crc (Some (mark_committing crc wal)) = Inr (Some (Committing, mark_committing crc wal))"
    and "read_wal crc de (mark_committing crc wal) = Inr \<lparr>operations = opers, truncated = False\<rparr>"
proof -
  obtain ps where ps: "list_all2 (serialised ser) opers ps" and w: "wal = create_wal crc @ entries crc ps"
    using assms(2) by (auto simp: append_all_Inr)
  let ?h = "encode_header crc status_committing"
  have m: "mark_committing crc wal = ?h @ entries crc ps" unfolding w by (rule mark_committing_entries)
  have "read_wal_from crc de (?h @ entries crc ps) (length ?h) [] =
      Inr \<lparr>operations = [] @ opers, truncated = False\<rparr>"
    by (rule read_entries[OF assms(1) ps]) (use assms(3) w in \<open>simp add: create_wal_def\<close>)
  then show "read_wal crc de (mark_committing crc wal) = Inr \<lparr>operations = opers, truncated = False\<rparr>"
    by (simp add: m read_wal_def wal_file_header_size_def)
  show "open_wal crc (Some (mark_committing crc wal)) = Inr (Some (Committing, mark_committing crc wal))"
    using open_wal_header[of status_committing crc "entries crc ps"]
    by (simp add: m status_committing_def status_recording_def)
  show "open_wal crc (Some wal) = Inr (Some (Recording, wal))"
    using open_wal_header[of status_recording crc "entries crc ps"]
    by (simp add: w create_wal_def)
qed

text \<open>
  C27: a log that was created, extended by any sequence of operations and marked as committing is
  opened with the committing status, and reading it returns exactly the recorded operations in their
  order with no sign of truncation.
\<close>

theorem wal_roundtrip:
  assumes "rkyv_roundtrip ser de"
    and "append_all crc ser opers (create_wal crc) = Inr wal" "length wal \<le> usize_max"
  shows "open_wal crc (Some (mark_committing crc wal)) = Inr (Some (Committing, mark_committing crc wal)) \<and>
    read_wal crc de (mark_committing crc wal) = Inr \<lparr>operations = opers, truncated = False\<rparr>"
  using wal_readback[OF assms] by blast

definition demo_crc :: checksum where
  "demo_crc bs = of_nat (sum_list (map unat bs))"

definition demo_ser :: serialiser where
  "demo_ser oper = (if oper = DeleteAll DiagnosticDatabase then Inr [1] else Inl ''unsupported'')"

definition demo_de :: deserialiser where
  "demo_de bs = (if bs = [1] then Inr (DeleteAll DiagnosticDatabase) else Inl ''unsupported'')"

lemma demo_rkyv: "rkyv_roundtrip demo_ser demo_de"
  by (simp add: rkyv_roundtrip_def demo_ser_def demo_de_def)

definition demo_wal :: "byte list" where
  "demo_wal = create_wal demo_crc @ entry_bytes demo_crc [1]"

lemma demo_append: "append_all demo_crc demo_ser [DeleteAll DiagnosticDatabase] (create_wal demo_crc) = Inr demo_wal"
  unfolding append_all_Inr
  by (intro exI[of _ "[[1]]"]) (simp add: demo_wal_def serialised_def demo_ser_def u32_max_def)

lemma demo_wal_length: "length demo_wal = 17"
  by (simp add: demo_wal_def create_wal_def)

theorem wal_roundtrip_witness:
  "read_wal demo_crc demo_de (mark_committing demo_crc demo_wal) =
    Inr \<lparr>operations = [DeleteAll DiagnosticDatabase], truncated = False\<rparr>"
  using wal_roundtrip[OF demo_rkyv demo_append] by (simp add: demo_wal_length usize_max_def)

lemma open_wal_short: "n < 8 \<Longrightarrow> open_wal crc (Some (take n wal)) = Inr None"
  by (simp add: open_wal_def wal_file_header_size_def min.strict_coboundedI2)

text \<open>
  C40: when a crash cuts the log anywhere, before or after it was marked as committing, a log cut
  inside its header of eight bytes is not taken for a log at all, and a longer one opens with its
  status. Reading it then succeeds: it returns a prefix of the recorded operations, and it reports
  truncation exactly when bytes of a further entry are left over behind that prefix, so a cut log is
  never taken for a complete one unless it is the log of that prefix.
\<close>

theorem wal_truncation_detected:
  assumes "rkyv_roundtrip ser de"
    and "append_all crc ser opers (create_wal crc) = Inr wal" "length wal \<le> usize_max"
    and "log = wal \<and> st = Recording \<or> log = mark_committing crc wal \<and> st = Committing"
  shows "if n < 8 then open_wal crc (Some (take n log)) = Inr None
    else open_wal crc (Some (take n log)) = Inr (Some (st, take n log)) \<and>
      (\<exists>k \<le> length opers.
        read_wal crc de (take n log) = Inr \<lparr>operations = take k opers,
          truncated = (append_all crc ser (take k opers) (take 8 log) \<noteq> Inr (take n log))\<rparr>)"
proof (cases "n < 8")
  case False
  obtain ps where ps: "list_all2 (serialised ser) opers ps" and w: "wal = create_wal crc @ entries crc ps"
    using assms(2) by (auto simp: append_all_Inr)
  obtain b where b: "b = status_recording \<and> st = Recording \<or> b = status_committing \<and> st = Committing"
    and log: "log = encode_header crc b @ entries crc ps"
    using assms(4) w mark_committing_entries[of crc "entries crc ps"] by (auto simp: create_wal_def)
  let ?h = "encode_header crc b" and ?c = "take (n - 8) (entries crc ps)"
  have t: "take n log = ?h @ ?c" "take 8 log = ?h" using False by (simp_all add: log)
  have o: "open_wal crc (Some (?h @ ?c)) = Inr (Some (st, ?h @ ?c))"
    using open_wal_header[of b crc ?c] b by (auto simp: status_recording_def status_committing_def)
  obtain k where k: "k \<le> length opers" "read_wal_from crc de (?h @ ?c) 8 [] =
      Inr \<lparr>operations = take k opers, truncated = (?c \<noteq> entries crc (take k ps))\<rparr>"
    using read_entries_prefix[OF assms(1) ps, of ?h crc "n - 8" "[]"] assms(3) w
    by (auto simp: create_wal_def)
  have "append_all crc ser (take k opers) ?h = Inr (?h @ entries crc (take k ps))"
    unfolding append_all_Inr using list_all2_takeI[OF ps] by blast
  then show ?thesis using False k o unfolding t read_wal_def wal_file_header_size_def by auto
qed (simp add: open_wal_short)

theorem wal_truncation_detected_witness:
  "open_wal demo_crc (Some (take 5 demo_wal)) = Inr None \<and>
   (\<exists>k \<le> 1. read_wal demo_crc demo_de (take 12 demo_wal) =
      Inr \<lparr>operations = take k [DeleteAll DiagnosticDatabase],
        truncated = (append_all demo_crc demo_ser (take k [DeleteAll DiagnosticDatabase])
          (take 8 demo_wal) \<noteq> Inr (take 12 demo_wal))\<rparr>)"
  using wal_truncation_detected[OF demo_rkyv demo_append _ disjI1, of demo_wal Recording 5]
    wal_truncation_detected[OF demo_rkyv demo_append _ disjI1, of demo_wal Recording 12]
  by (simp add: demo_wal_length usize_max_def)

end
