(* ===== verification/Recovery.thy ===== *)
theory Recovery
  imports Disk Wal
begin

text \<open>
  Startup recovery (\<open>cda-storage/src/recovery.rs\<close>): undoing a partially applied commit from the
  log and the backup files, and removing backup files that a completed commit left behind. Loops
  over a directory run over the entries it had when the loop started.
\<close>

section \<open>Undoing operations\<close>

text \<open>The test \<open>dir.exists() && is_dir_empty(&dir)?\<close>.\<close>

definition is_dir_empty :: "disk \<Rightarrow> string \<Rightarrow> bool" where
  "is_dir_empty d c \<longleftrightarrow> coll d c = Some []"

fun remove_new_artifact :: "faults \<Rightarrow> operation \<Rightarrow> unit io" where
  "remove_new_artifact flt (Write collection key staged_path) =
     query (\<lambda>d. file_exists d (as_str collection) key \<and> \<not> file_exists d (as_str collection) (bak key))
       (\<lambda>b. whenIO b (mutate flt (remove_file (as_str collection) key)))"
| "remove_new_artifact flt (CreateCollection name) =
     query (\<lambda>d. dir_exists d (as_str name) \<and> is_dir_empty d (as_str name))
       (\<lambda>b. whenIO b (mutate flt (remove_dir (as_str name))))"
| "remove_new_artifact flt (CopyCollection src dest dest_existed) =
     query (\<lambda>d. \<not> dest_existed \<and> dir_exists d (as_str dest) \<and> \<not> dir_exists d (bak (as_str dest)))
       (\<lambda>b. whenIO b (remove_dir_all flt (as_str dest)))"
| "remove_new_artifact flt (Delete collection key) = ret ()"
| "remove_new_artifact flt (DeleteAll collection) = ret ()"
| "remove_new_artifact flt (DeleteCollection name) = ret ()"

definition remove_new_artifacts :: "faults \<Rightarrow> operation list \<Rightarrow> unit io" where
  "remove_new_artifacts flt opers = for_io (remove_new_artifact flt) (rev opers)"

definition restore_bak_entry :: "faults \<Rightarrow> string \<Rightarrow> string \<Rightarrow> unit io" where
  "restore_bak_entry flt c name =
     thenIO
       (whenIO (is_bak name)
         (thenIO
           (query (\<lambda>d. file_exists d c (without_extension name))
             (\<lambda>b. whenIO b (mutate flt (remove_file c (without_extension name)))))
           (mutate flt (rename_file c name (without_extension name)))))
       (whenIO (is_tmp name) (mutate flt (remove_file c name)))"

definition restore_bak_files_in_dir :: "faults \<Rightarrow> string \<Rightarrow> unit io" where
  "restore_bak_files_in_dir flt c =
     query (\<lambda>d. listing (the (coll d c))) (for_io (restore_bak_entry flt c))"

definition rollback_collection :: "faults \<Rightarrow> string \<Rightarrow> unit io" where
  "rollback_collection flt c =
     query (\<lambda>d. dir_exists d c) (\<lambda>is_dir.
       whenIO is_dir
         (if is_bak c
          then thenIO
            (query (\<lambda>d. dir_exists d (without_extension c))
              (\<lambda>b. whenIO b (remove_dir_all flt (without_extension c))))
            (mutate flt (rename_dir c (without_extension c)))
          else restore_bak_files_in_dir flt c))"

definition rollback_partial_commit :: "faults \<Rightarrow> unit io" where
  "rollback_partial_commit flt = query (\<lambda>d. listing (colls d)) (for_io (rollback_collection flt))"

section \<open>Evidence of a commit\<close>

definition has_backup_files :: "disk \<Rightarrow> bool" where
  "has_backup_files d \<longleftrightarrow>
     list_ex (\<lambda>c. is_bak c \<or> list_ex is_bak (listing (the (coll d c)))) (listing (colls d))"

fun has_new_artifact :: "disk \<Rightarrow> operation \<Rightarrow> bool" where
  "has_new_artifact d (Write collection key staged_path) \<longleftrightarrow>
     file_exists d (as_str collection) key \<and> \<not> file_exists d (as_str collection) (bak key)"
| "has_new_artifact d (CreateCollection name) \<longleftrightarrow> dir_exists d (as_str name)"
| "has_new_artifact d (CopyCollection src dest dest_existed) \<longleftrightarrow>
     \<not> dest_existed \<and> dir_exists d (as_str dest) \<and> \<not> dir_exists d (bak (as_str dest))"
| "has_new_artifact d (Delete collection key) \<longleftrightarrow> False"
| "has_new_artifact d (DeleteAll collection) \<longleftrightarrow> False"
| "has_new_artifact d (DeleteCollection name) \<longleftrightarrow> False"

definition has_new_artifacts :: "disk \<Rightarrow> operation list \<Rightarrow> bool" where
  "has_new_artifacts d opers = list_ex (has_new_artifact d) opers"

section \<open>Removing backups and staged files\<close>

definition delete_backups_in :: "faults \<Rightarrow> string \<Rightarrow> unit io" where
  "delete_backups_in flt c =
     query (\<lambda>d. dir_exists d c) (\<lambda>is_dir.
       whenIO is_dir
         (if is_bak c then remove_dir_all flt c
          else query (\<lambda>d. listing (the (coll d c)))
            (for_io (\<lambda>name. whenIO (is_bak name) (mutate flt (remove_file c name))))))"

definition delete_all_backup_files :: "faults \<Rightarrow> unit io" where
  "delete_all_backup_files flt = query (\<lambda>d. listing (colls d)) (for_io (delete_backups_in flt))"

definition remove_staged :: "string \<Rightarrow> disk \<Rightarrow> disk storage_result" where
  "remove_staged name d =
     (case map_of (staging d) name of
        None \<Rightarrow> Inl (Io IoNotFound)
      | Some _ \<Rightarrow> Inr (d\<lparr>staging := AList.delete name (staging d)\<rparr>))"

definition cleanup_staging_dir :: "faults \<Rightarrow> unit io" where
  "cleanup_staging_dir flt =
     query (\<lambda>d. listing (staging d)) (for_io (\<lambda>name. mutate flt (remove_staged name)))"

definition remove_wal :: "disk \<Rightarrow> disk storage_result" where
  "remove_wal d = (if wal_file d = None then Inl (Io IoNotFound) else Inr (d\<lparr>wal_file := None\<rparr>))"

text \<open>\<open>if wal_path.exists() { remove_file(wal_path)? }\<close>\<close>

definition remove_wal_if_exists :: "faults \<Rightarrow> unit io" where
  "remove_wal_if_exists flt = query (\<lambda>d. wal_file d \<noteq> None) (\<lambda>b. whenIO b (mutate flt remove_wal))"

section \<open>Recovery\<close>

definition recover_committing :: "faults \<Rightarrow> wal_read_result \<Rightarrow> unit io" where
  "recover_committing flt wal_result =
     (if truncated wal_result
      then query (\<lambda>d. has_backup_files d \<or> has_new_artifacts d (operations wal_result)) (\<lambda>applied.
        if applied
        then fail (Corruption ''WAL is truncated and operations were partially applied'')
        else ret ())
      else thenIO (remove_new_artifacts flt (operations wal_result)) (rollback_partial_commit flt))"

definition recover_status ::
  "faults \<Rightarrow> checksum \<Rightarrow> deserialiser \<Rightarrow> (wal_status \<times> byte list) option \<Rightarrow> unit io" where
  "recover_status flt crc de status =
     (case status of
        Some (Committing, wal_data) \<Rightarrow>
          (case read_wal crc de wal_data of
             Inl e \<Rightarrow> fail e
           | Inr wal_result \<Rightarrow> recover_committing flt wal_result)
      | Some (Recording, _) \<Rightarrow> ret ()
      | None \<Rightarrow> query has_backup_files (\<lambda>b. whenIO b (delete_all_backup_files flt)))"

definition recover :: "faults \<Rightarrow> checksum \<Rightarrow> deserialiser \<Rightarrow> unit io" where
  "recover flt crc de =
     query (\<lambda>d. open_wal crc (wal_file d)) (\<lambda>opened. case opened of
       Inl e \<Rightarrow> fail e
     | Inr status \<Rightarrow>
         thenIO (recover_status flt crc de status)
           (thenIO (remove_wal_if_exists flt) (cleanup_staging_dir flt)))"

end
