(* ===== verification/Local_Storage.thy ===== *)
theory Local_Storage
  imports Recovery
begin

text \<open>
  The local storage (\<open>cda-storage/src/local_storage.rs\<close>) and the transaction object of
  \<open>cda-interfaces/src/storage_api/transaction.rs\<close>: recording operations, applying them with
  backups, and the commit protocol around the write-ahead log. The read-write lock serialises
  commits against reads, so a commit is one action here. Staged paths are names in the staging
  directory.
\<close>

section \<open>Applying the operations\<close>

text \<open>\<open>if target.exists() { rename(target, target.bak)? }\<close>\<close>

definition backup_file :: "faults \<Rightarrow> string \<Rightarrow> string \<Rightarrow> unit io" where
  "backup_file flt c k =
     query (\<lambda>d. file_exists d c k) (\<lambda>b. whenIO b (mutate flt (rename_file c k (bak k))))"

definition backup_dir :: "faults \<Rightarrow> string \<Rightarrow> unit io" where
  "backup_dir flt c = query (\<lambda>d. dir_exists d c) (\<lambda>b. whenIO b (mutate flt (rename_dir c (bak c))))"

definition backup_all_files_in_dir :: "faults \<Rightarrow> string \<Rightarrow> unit io" where
  "backup_all_files_in_dir flt c =
     query (\<lambda>d. listing (the (coll d c))) (for_io (\<lambda>k. mutate flt (rename_file c k (bak k))))"

definition copy_dir_contents :: "faults \<Rightarrow> string \<Rightarrow> string \<Rightarrow> unit io" where
  "copy_dir_contents flt src dst =
     query (\<lambda>d. coll d src) (\<lambda>entries. case entries of
       None \<Rightarrow> fail (Io IoNotFound)
     | Some al \<Rightarrow> for_io (\<lambda>k. mutate flt (copy_file src dst k)) (listing al))"

fun apply_operation :: "faults \<Rightarrow> operation \<Rightarrow> unit io" where
  "apply_operation flt (Write collection key staged_path) =
     thenIO (mutate flt (create_dir (as_str collection)))
       (thenIO (backup_file flt (as_str collection) key)
         (mutate flt (install staged_path (as_str collection) key)))"
| "apply_operation flt (Delete collection key) = backup_file flt (as_str collection) key"
| "apply_operation flt (DeleteAll collection) =
     query (\<lambda>d. dir_exists d (as_str collection))
       (\<lambda>b. whenIO b (backup_all_files_in_dir flt (as_str collection)))"
| "apply_operation flt (CreateCollection name) = mutate flt (create_dir (as_str name))"
| "apply_operation flt (DeleteCollection name) = backup_dir flt (as_str name)"
| "apply_operation flt (CopyCollection src dest dest_existed) =
     thenIO (backup_dir flt (as_str dest))
       (thenIO (mutate flt (create_dir (as_str dest)))
         (copy_dir_contents flt (as_str src) (as_str dest)))"

definition apply_operations :: "faults \<Rightarrow> operation list \<Rightarrow> unit io" where
  "apply_operations flt opers = for_io (apply_operation flt) opers"

section \<open>Commit\<close>

definition rollback_applied_operations :: "faults \<Rightarrow> operation list \<Rightarrow> unit io" where
  "rollback_applied_operations flt opers =
     thenIO (remove_new_artifacts flt opers) (rollback_partial_commit flt)"

text \<open>The collection whose directory an operation modifies.\<close>

fun modified_dir :: "operation \<Rightarrow> string" where
  "modified_dir (Write collection key staged_path) = as_str collection"
| "modified_dir (Delete collection key) = as_str collection"
| "modified_dir (DeleteAll collection) = as_str collection"
| "modified_dir (CreateCollection name) = as_str name"
| "modified_dir (DeleteCollection name) = as_str name"
| "modified_dir (CopyCollection src dest dest_existed) = as_str dest"

fun sync_modified_dirs :: "faults \<Rightarrow> string list \<Rightarrow> operation list \<Rightarrow> unit io" where
  "sync_modified_dirs flt synced [] = ret ()"
| "sync_modified_dirs flt synced (oper # opers) =
     (let name = modified_dir oper
      in if name \<in> set synced then sync_modified_dirs flt synced opers
         else thenIO (query (\<lambda>d. dir_exists d name) (\<lambda>b. whenIO b (fsync flt)))
           (sync_modified_dirs flt (name # synced) opers))"

definition sync_collection_dirs :: "faults \<Rightarrow> operation list \<Rightarrow> unit io" where
  "sync_collection_dirs flt opers = thenIO (sync_modified_dirs flt [] opers) (fsync flt)"

text \<open>The same loop as \<open>delete_all_backup_files\<close>, run after a successful commit.\<close>

definition cleanup_backup_files :: "faults \<Rightarrow> unit io" where
  "cleanup_backup_files flt = query (\<lambda>d. listing (colls d)) (for_io (delete_backups_in flt))"

definition cleanup_directory_contents :: "faults \<Rightarrow> unit io" where
  "cleanup_directory_contents flt =
     query (\<lambda>d. listing (staging d)) (for_io (\<lambda>name. mutate flt (remove_staged name)))"

definition sync_staging_files :: "faults \<Rightarrow> unit io" where
  "sync_staging_files flt = query (\<lambda>d. listing (staging d)) (for_io (\<lambda>_. fsync flt))"

definition sync_wal :: "faults \<Rightarrow> unit io" where
  "sync_wal flt = mutate flt (\<lambda>d. if wal_file d = None then Inl (Io IoNotFound) else Inr d)"

definition sync_journal_dir :: "faults \<Rightarrow> unit io" where
  "sync_journal_dir flt = fsync flt"

definition mark_wal_committing :: "faults \<Rightarrow> checksum \<Rightarrow> unit io" where
  "mark_wal_committing flt crc = mutate flt (\<lambda>d. case wal_file d of
     None \<Rightarrow> Inl (Io IoNotFound)
   | Some wal \<Rightarrow> Inr (d\<lparr>wal_file := Some (mark_committing crc wal)\<rparr>))"

text \<open>Steps 6 and 7 of the commit: drop the log, then the backups and the staged files.\<close>

definition finish_commit :: "faults \<Rightarrow> unit storage_result \<Rightarrow> unit io" where
  "finish_commit flt result =
     thenIO (remove_wal_if_exists flt)
       (thenIO (sync_journal_dir flt)
         (thenIO (whenIO (is_ok result) (ignoreIO (cleanup_backup_files flt)))
           (thenIO (ignoreIO (cleanup_directory_contents flt))
             (\<lambda>d. (result, d)))))"

definition apply_and_finish :: "faults \<Rightarrow> operation list \<Rightarrow> unit io" where
  "apply_and_finish flt opers d =
     (case apply_operations flt opers d of
        (Inl e, d1) \<Rightarrow>
          thenIO (ignoreIO (rollback_applied_operations flt opers)) (finish_commit flt (Inl e)) d1
      | (Inr _, d1) \<Rightarrow>
          thenIO (sync_collection_dirs flt opers) (finish_commit flt (Inr ())) d1)"

definition apply_inner :: "faults \<Rightarrow> checksum \<Rightarrow> operation list \<Rightarrow> unit io" where
  "apply_inner flt crc opers =
     thenIO (mark_wal_committing flt crc)
       (thenIO (sync_staging_files flt)
         (thenIO (sync_wal flt) (apply_and_finish flt opers)))"

section \<open>Transactions\<close>

record storage =
  disk_of :: disk
  tx_active :: bool

record transaction =
  tx_operations :: "operation list"
  committed :: bool

text \<open>\<open>LocalStorage::new\<close>: recovery, then no transaction is active.\<close>

definition new_storage :: "faults \<Rightarrow> checksum \<Rightarrow> deserialiser \<Rightarrow> disk \<Rightarrow> storage storage_result \<times> disk" where
  "new_storage flt crc de d =
     (case recover flt crc de d of
        (Inl e, d') \<Rightarrow> (Inl e, d')
      | (Inr _, d') \<Rightarrow> (Inr \<lparr>disk_of = d', tx_active = False\<rparr>, d'))"

definition transaction_new :: transaction where
  "transaction_new = \<lparr>tx_operations = [], committed = False\<rparr>"

definition tx_record :: "operation \<Rightarrow> transaction \<Rightarrow> transaction" where
  "tx_record oper tx = tx\<lparr>tx_operations := tx_operations tx @ [oper]\<rparr>"

definition write_wal :: "byte list \<Rightarrow> disk \<Rightarrow> disk storage_result" where
  "write_wal wal d = Inr (d\<lparr>wal_file := Some wal\<rparr>)"

text \<open>
  The log is written, then the staging directory is created, which is empty already; either may fail.
\<close>

definition begin_transaction ::
  "faults \<Rightarrow> checksum \<Rightarrow> storage \<Rightarrow> transaction storage_result \<times> storage" where
  "begin_transaction flt crc s =
     (if tx_active s then (Inl TransactionBusy, s)
      else case thenIO (mutate flt (write_wal (create_wal crc))) (mutate flt Inr) (disk_of s) of
        (Inl e, d') \<Rightarrow> (Inl e, s\<lparr>disk_of := d', tx_active := False\<rparr>)
      | (Inr _, d') \<Rightarrow> (Inr transaction_new, s\<lparr>disk_of := d', tx_active := True\<rparr>))"

text \<open>Append to the log on disk, then record in memory.\<close>

definition log_operation ::
  "faults \<Rightarrow> checksum \<Rightarrow> serialiser \<Rightarrow> operation \<Rightarrow> storage \<Rightarrow> transaction \<Rightarrow>
   unit storage_result \<times> storage \<times> transaction" where
  "log_operation flt crc ser oper s tx =
     (case mutate flt (\<lambda>d. case wal_file d of
             None \<Rightarrow> Inl (Io IoNotFound)
           | Some wal \<Rightarrow> bindE (append_operation crc ser oper wal) (\<lambda>wal'. write_wal wal' d)) (disk_of s) of
        (Inl e, d') \<Rightarrow> (Inl e, s\<lparr>disk_of := d'\<rparr>, tx)
      | (Inr _, d') \<Rightarrow> (Inr (), s\<lparr>disk_of := d'\<rparr>, tx_record oper tx))"

definition create_collection ::
  "faults \<Rightarrow> checksum \<Rightarrow> serialiser \<Rightarrow> collection_name \<Rightarrow> storage \<Rightarrow> transaction \<Rightarrow>
   unit storage_result \<times> storage \<times> transaction" where
  "create_collection flt crc ser name s tx =
     (case sanitize_path_segment (as_str name) of
        Inl e \<Rightarrow> (Inl e, s, tx)
      | Inr _ \<Rightarrow>
          if dir_exists (disk_of s) (as_str name)
          then (Inl (TransactionConflict (''Collection already exists: '' @ as_str name)), s, tx)
          else log_operation flt crc ser (CreateCollection name) s tx)"

definition delete_collection ::
  "faults \<Rightarrow> checksum \<Rightarrow> serialiser \<Rightarrow> collection_name \<Rightarrow> storage \<Rightarrow> transaction \<Rightarrow>
   unit storage_result \<times> storage \<times> transaction" where
  "delete_collection flt crc ser name s tx =
     (case sanitize_path_segment (as_str name) of
        Inl e \<Rightarrow> (Inl e, s, tx)
      | Inr _ \<Rightarrow>
          if \<not> dir_exists (disk_of s) (as_str name)
          then (Inl (CollectionNotFound (as_str name)), s, tx)
          else log_operation flt crc ser (DeleteCollection name) s tx)"

definition copy_collection ::
  "faults \<Rightarrow> checksum \<Rightarrow> serialiser \<Rightarrow> collection_name \<Rightarrow> collection_name \<Rightarrow> storage \<Rightarrow> transaction \<Rightarrow>
   unit storage_result \<times> storage \<times> transaction" where
  "copy_collection flt crc ser src dest s tx =
     (case sanitize_path_segment (as_str src) of
        Inl e \<Rightarrow> (Inl e, s, tx)
      | Inr _ \<Rightarrow>
          if \<not> dir_exists (disk_of s) (as_str src)
          then (Inl (CollectionNotFound (as_str src)), s, tx)
          else case sanitize_path_segment (as_str dest) of
            Inl e \<Rightarrow> (Inl e, s, tx)
          | Inr _ \<Rightarrow>
              log_operation flt crc ser
                (CopyCollection src dest (dir_exists (disk_of s) (as_str dest))) s tx)"

definition get_collection :: "collection_name \<Rightarrow> storage \<Rightarrow> string storage_result" where
  "get_collection name s =
     bindE (sanitize_path_segment (as_str name)) (\<lambda>_.
       if dir_exists (disk_of s) (as_str name) then Inr (as_str name)
       else Inl (CollectionNotFound (as_str name)))"

definition get_or_create_collection ::
  "faults \<Rightarrow> collection_name \<Rightarrow> storage \<Rightarrow> string storage_result \<times> storage" where
  "get_or_create_collection flt name s =
     (case sanitize_path_segment (as_str name) of
        Inl e \<Rightarrow> (Inl e, s)
      | Inr _ \<Rightarrow>
          if dir_exists (disk_of s) (as_str name) then (Inr (as_str name), s)
          else if tx_active s then (Inl TransactionBusy, s)
          else case mutate flt (create_dir (as_str name)) (disk_of s) of
            (Inl e, d') \<Rightarrow> (Inl e, s\<lparr>disk_of := d'\<rparr>)
          | (Inr _, d') \<Rightarrow> (Inr (as_str name), s\<lparr>disk_of := d'\<rparr>))"

text \<open>\<open>Transaction::commit\<close> with \<open>LocalStorageCommitter::apply\<close>\<close>

definition commit ::
  "faults \<Rightarrow> checksum \<Rightarrow> storage \<Rightarrow> transaction \<Rightarrow> unit storage_result \<times> storage" where
  "commit flt crc s tx =
     (let (result, d') = apply_inner flt crc (tx_operations tx) (disk_of s)
      in (result, s\<lparr>disk_of := d', tx_active := False\<rparr>))"

definition discard :: "faults \<Rightarrow> storage \<Rightarrow> storage" where
  "discard flt s =
     s\<lparr>disk_of := snd (thenIO (ignoreIO (cleanup_directory_contents flt))
         (query (\<lambda>d. wal_file d \<noteq> None) (\<lambda>b. whenIO b (ignoreIO (mutate flt remove_wal))))
         (disk_of s)),
       tx_active := False\<rparr>"

text \<open>\<open>Drop\<close>: a transaction that was not committed is discarded; \<open>rollback\<close> just drops it.\<close>

definition drop_transaction :: "faults \<Rightarrow> storage \<Rightarrow> transaction \<Rightarrow> storage" where
  "drop_transaction flt s tx = (if committed tx then s else discard flt s)"

definition rollback :: "faults \<Rightarrow> storage \<Rightarrow> transaction \<Rightarrow> storage" where
  "rollback flt s tx = drop_transaction flt s tx"

end
