(* ===== verification/Disk_Logic.thy ===== *)
theory Disk_Logic
  imports Disk
begin

text \<open>
  A Hoare logic for the I/O actions of \<open>Disk\<close>. Assertions speak of the collections as maps, the log
  file and the staged files. The error assertion has a further argument: it is True only where the
  error was an injected fault, so an error assertion that excludes False says that the action can
  only fail by a fault. The rules compute weakest preconditions.
\<close>

type_synonym files = "string \<Rightarrow> (string \<rightharpoonup> byte list) option"
type_synonym assn = "files \<Rightarrow> byte list option \<Rightarrow> (string \<rightharpoonup> byte list) \<Rightarrow> bool"

definition no_faults :: faults where
  "no_faults = (\<lambda>_. False)"

text \<open>The process stops at time \<open>t\<close>: no later call reaches the disk.\<close>

definition crash_at :: "nat \<Rightarrow> faults" where
  "crash_at t = (\<lambda>n. t \<le> n)"

definition hit :: "faults \<Rightarrow> disk \<Rightarrow> bool" where
  "hit flt d \<longleftrightarrow> (\<exists>n < clock d. flt n)"

definition on :: "assn \<Rightarrow> disk \<Rightarrow> bool" where
  "on P d \<longleftrightarrow> P (fs d) (wal_file d) (map_of (staging d))"

definition triple :: "faults \<Rightarrow> assn \<Rightarrow> 'a io \<Rightarrow> assn \<Rightarrow> (bool \<Rightarrow> assn) \<Rightarrow> bool" where
  "triple flt P m Q E \<longleftrightarrow> (\<forall>d. on P d \<longrightarrow>
     (case m d of (Inr x, d') \<Rightarrow> on Q d'
      | (Inl e, d') \<Rightarrow> (\<exists>b. (b \<longrightarrow> hit flt d') \<and> on (E b) d')))"

section \<open>Structural rules\<close>

lemma tripleI:
  assumes "\<And>d x d'. on P d \<Longrightarrow> m d = (Inr x, d') \<Longrightarrow> on Q d'"
    and "\<And>d e d'. on P d \<Longrightarrow> m d = (Inl e, d') \<Longrightarrow> \<exists>b. (b \<longrightarrow> hit flt d') \<and> on (E b) d'"
  shows "triple flt P m Q E"
  unfolding triple_def
proof (intro allI impI)
  fix d assume "on P d"
  then show "case m d of (Inr x, d') \<Rightarrow> on Q d' | (Inl e, d') \<Rightarrow> (\<exists>b. (b \<longrightarrow> hit flt d') \<and> on (E b) d')"
    using assms by (cases "m d") (auto split: sum.splits)
qed

lemma triple_Inr: "triple flt P m Q E \<Longrightarrow> on P d \<Longrightarrow> m d = (Inr x, d') \<Longrightarrow> on Q d'"
  unfolding triple_def by (drule spec[of _ d]) simp

lemma triple_Inl:
  "triple flt P m Q E \<Longrightarrow> on P d \<Longrightarrow> m d = (Inl e, d') \<Longrightarrow> \<exists>b. (b \<longrightarrow> hit flt d') \<and> on (E b) d'"
  unfolding triple_def by (drule spec[of _ d]) simp

lemma triple_ret: "triple flt Q (ret x) Q E"
  by (rule tripleI) (simp_all add: ret_def)

lemma triple_fail: "triple flt (E False) (fail e) Q E"
  by (rule tripleI) (auto simp: fail_def intro: exI[of _ False])

lemma triple_bind:
  assumes "\<And>x. triple flt R (f x) Q E" "triple flt P m R E"
  shows "triple flt P (bindIO m f) Q E"
proof (rule tripleI)
  fix d x d' assume p: "on P d" and b: "bindIO m f d = (Inr x, d')"
  then obtain y d1 where "m d = (Inr y, d1)" "f y d1 = (Inr x, d')"
    by (auto simp: bindIO_def split: prod.splits sum.splits)
  then show "on Q d'" using triple_Inr[OF assms(2) p] triple_Inr[OF assms(1)] by blast
next
  fix d e d' assume p: "on P d" and b: "bindIO m f d = (Inl e, d')"
  then consider "m d = (Inl e, d')" | y d1 where "m d = (Inr y, d1)" "f y d1 = (Inl e, d')"
    by (auto simp: bindIO_def split: prod.splits sum.splits)
  then show "\<exists>b. (b \<longrightarrow> hit flt d') \<and> on (E b) d'"
    by cases (blast dest: triple_Inl[OF assms(2) p] triple_Inr[OF assms(2) p] triple_Inl[OF assms(1)])+
qed

lemma triple_then:
  "triple flt R n Q E \<Longrightarrow> triple flt P m R E \<Longrightarrow> triple flt P (thenIO m n) Q E"
  unfolding thenIO_def by (rule triple_bind)

lemma triple_pre:
  assumes "triple flt P m Q E" "\<And>F w s. P' F w s \<Longrightarrow> P F w s"
  shows "triple flt P' m Q E"
  using assms by (simp add: triple_def on_def)

lemma triple_weaken:
  assumes "triple flt P m Q E" "\<And>F w s. P' F w s \<Longrightarrow> P F w s" "\<And>F w s. Q F w s \<Longrightarrow> Q' F w s"
    "\<And>b F w s. E b F w s \<Longrightarrow> E' b F w s"
  shows "triple flt P' m Q' E'"
proof (rule tripleI)
  fix d x d' assume "on P' d" "m d = (Inr x, d')"
  then show "on Q' d'" using triple_Inr[OF assms(1)] assms(2,3) unfolding on_def by blast
next
  fix d e d' assume "on P' d" "m d = (Inl e, d')"
  then show "\<exists>b. (b \<longrightarrow> hit flt d') \<and> on (E' b) d'"
    using triple_Inl[OF assms(1)] assms(2,4) unfolding on_def by blast
qed

lemma triple_ignore:
  assumes "triple flt P m Q (\<lambda>_. Q)"
  shows "triple flt P (ignoreIO m) Q E"
proof (rule tripleI)
  fix d x d' assume a: "on P d" "ignoreIO m d = (Inr x, d')"
  obtain r where m: "m d = (r, d')" using a(2) by (cases "m d") (simp add: ignoreIO_def)
  show "on Q d'" using triple_Inr[OF assms a(1)] triple_Inl[OF assms a(1)] m by (cases r) auto
qed (simp add: ignoreIO_def)

lemma triple_when:
  "(b \<Longrightarrow> triple flt P m Q E) \<Longrightarrow> triple flt (\<lambda>F w s. if b then P F w s else Q F w s) (whenIO b m) Q E"
  by (simp add: whenIO_def triple_ret)

text \<open>A query whose answer matters beyond the maps: the disk is fixed at that point.\<close>

lemma triple_query:
  assumes "\<And>d. on P d \<Longrightarrow>
    triple flt (\<lambda>F w s. F = fs d \<and> w = wal_file d \<and> s = map_of (staging d)) (f (q d)) Q E"
  shows "triple flt P (query q f) Q E"
proof (rule tripleI)
  fix d x d' assume a: "on P d" "query q f d = (Inr x, d')"
  then show "on Q d'" using triple_Inr[OF assms[OF a(1)], of d] by (simp add: query_def on_def)
next
  fix d e d' assume a: "on P d" "query q f d = (Inl e, d')"
  then show "\<exists>b. (b \<longrightarrow> hit flt d') \<and> on (E b) d'"
    using triple_Inl[OF assms[OF a(1)], of d] by (simp add: query_def on_def)
qed

text \<open>A query about the maps.\<close>

lemma triple_ask:
  assumes "\<And>d. q d = g (fs d) (wal_file d) (map_of (staging d))" "\<And>x. triple flt (P x) (f x) Q E"
  shows "triple flt (\<lambda>F w s. P (g F w s) F w s) (query q f) Q E"
  by (rule triple_query) (rule triple_pre[OF assms(2)], auto simp: assms(1) on_def)

lemmas triple_ask_dir =
  triple_ask[where q = "\<lambda>d. dir_exists d c" and g = "\<lambda>F w s. F c \<noteq> None" for c, OF dir_exists_fs]

lemmas triple_ask_file =
  triple_ask[where q = "\<lambda>d. file_exists d c k" and g = "\<lambda>F w s. \<exists>m. F c = Some m \<and> m k \<noteq> None" for c k,
    OF file_exists_fs]

lemma triple_for:
  assumes "\<And>done x rest. xs = done @ x # rest \<Longrightarrow> triple flt (I done) (f x) (I (done @ [x])) E"
  shows "triple flt (I []) (for_io f xs) (I xs) E"
proof -
  have "triple flt (I done) (for_io f rest) (I xs) E" if "xs = done @ rest" for "done" rest
    using that
  proof (induction rest arbitrary: "done")
    case Nil
    then show ?case by (simp add: triple_ret)
  next
    case (Cons x rest)
    show ?case unfolding for_io.simps
      by (rule triple_then[OF _ assms[OF Cons.prems]]) (use Cons in auto)
  qed
  from this[of "[]" xs] show ?thesis by simp
qed

text \<open>A loop whose body keeps one assertion.\<close>

lemma triple_for_inv:
  "(\<And>x. x \<in> set xs \<Longrightarrow> triple flt I (f x) I E) \<Longrightarrow> triple flt I (for_io f xs) I E"
  by (rule triple_for[where I = "\<lambda>_. I"]) auto

section \<open>Primitive calls\<close>

lemma on_clock [simp]: "on P (d\<lparr>clock := n\<rparr>) = on P d"
  by (simp add: on_def)

lemma triple_mutate:
  assumes "\<And>d d'. on P d \<Longrightarrow> f d = Inr d' \<Longrightarrow> on Q d'"
    and "\<And>d e. on P d \<Longrightarrow> f d = Inl e \<Longrightarrow> on (E False) d"
    and "\<And>d. on P d \<Longrightarrow> on (E True) d"
  shows "triple flt P (mutate flt f) Q E"
proof (rule tripleI)
  fix d x d' assume "on P d" "mutate flt f d = (Inr x, d')"
  then show "on Q d'" using assms(1)[of "d\<lparr>clock := Suc (clock d)\<rparr>"]
    by (auto simp: mutate_def Let_def split: sum.splits if_splits)
next
  fix d e d' assume a: "on P d" "mutate flt f d = (Inl e, d')"
  let ?d = "d\<lparr>clock := Suc (clock d)\<rparr>"
  have d': "d' = ?d" using a(2) by (auto simp: mutate_def Let_def split: sum.splits if_splits)
  show "\<exists>b. (b \<longrightarrow> hit flt d') \<and> on (E b) d'"
  proof (cases "flt (clock d)")
    case True
    then have "hit flt d'" by (auto simp: hit_def d')
    then show ?thesis using assms(3)[OF a(1)] d' by (intro exI[of _ True]) simp
  next
    case False
    then have "f ?d = Inl e" using a(2) by (auto simp: mutate_def Let_def split: sum.splits)
    then show ?thesis using assms(2)[of ?d e] a(1) d' by (intro exI[of _ False]) simp
  qed
qed

text \<open>For a call that succeeds under \<open>C\<close> and then has the effect \<open>U\<close> on the maps.\<close>

lemma triple_prim:
  assumes "\<And>d. on C d \<Longrightarrow> \<exists>d'. f d = Inr d' \<and> fs d' = U (fs d) (map_of (staging d)) \<and>
      wal_file d' = W (wal_file d) \<and> map_of (staging d') = S (map_of (staging d))"
    and "\<And>d d'. f d = Inr d' \<Longrightarrow> on C d"
  shows "triple flt (\<lambda>F w s. (if C F w s then Q (U F s) (W w) (S s) else E False F w s) \<and> E True F w s)
    (mutate flt f) Q E"
proof (rule triple_mutate)
  fix d d' assume p: "on (\<lambda>F w s. (if C F w s then Q (U F s) (W w) (S s) else E False F w s) \<and> E True F w s) d"
    and f: "f d = Inr d'"
  have "on C d" by (rule assms(2)[OF f])
  then show "on Q d'" using assms(1)[of d] f p by (auto simp: on_def)
next
  fix d e assume p: "on (\<lambda>F w s. (if C F w s then Q (U F s) (W w) (S s) else E False F w s) \<and> E True F w s) d"
    and f: "f d = Inl e"
  then have "\<not> on C d" using assms(1)[of d] by auto
  then show "on (E False) d" using p by (simp add: on_def)
qed (simp add: on_def)

lemma triple_create_dir:
  "triple flt (\<lambda>F w s. Q (F(c \<mapsto> (case F c of None \<Rightarrow> Map.empty | Some m \<Rightarrow> m))) w s \<and> E True F w s)
     (mutate flt (create_dir c)) Q E"
  by (rule triple_pre[OF triple_prim[where C = "\<lambda>F w s. True" and W = "\<lambda>w. w" and S = "\<lambda>s. s"
      and U = "\<lambda>F s. F(c \<mapsto> (case F c of None \<Rightarrow> Map.empty | Some m \<Rightarrow> m))"]])
    (use create_dir_ok in \<open>fastforce simp: on_def\<close>)+

lemma triple_rename_file:
  "triple flt (\<lambda>F w s. (if \<exists>m. F c = Some m \<and> m k \<noteq> None
       then Q (F(c \<mapsto> (the (F c))(k := None, k' := the (F c) k))) w s else E False F w s) \<and> E True F w s)
     (mutate flt (rename_file c k k')) Q E"
  by (rule triple_prim[where W = "\<lambda>w. w" and S = "\<lambda>s. s"
      and U = "\<lambda>F s. F(c \<mapsto> (the (F c))(k := None, k' := the (F c) k))"])
    (use rename_file_ok rename_file_cond in \<open>fastforce simp: on_def\<close>)+

lemma triple_rename_dir:
  "triple flt (\<lambda>F w s. (if F c \<noteq> None \<and> (F c' = None \<or> F c' = Some Map.empty)
       then Q (F(c := None, c' := F c)) w s else E False F w s) \<and> E True F w s)
     (mutate flt (rename_dir c c')) Q E"
proof (rule triple_prim[where W = "\<lambda>w. w" and S = "\<lambda>s. s" and U = "\<lambda>F s. F(c := None, c' := F c)"])
  fix d assume "on (\<lambda>F w s. F c \<noteq> None \<and> (F c' = None \<or> F c' = Some Map.empty)) d"
  then obtain m where m: "fs d c = Some m" "fs d c' = None \<or> fs d c' = Some Map.empty"
    by (auto simp: on_def)
  from rename_dir_ok[OF this] m(1)
  show "\<exists>d'. rename_dir c c' d = Inr d' \<and> fs d' = (fs d)(c := None, c' := fs d c) \<and>
      wal_file d' = wal_file d \<and> map_of (staging d') = map_of (staging d)" by auto
qed (auto simp: on_def dest: rename_dir_cond)

lemma triple_install:
  "triple flt (\<lambda>F w s. (if F c \<noteq> None \<and> s p \<noteq> None
       then Q (F(c \<mapsto> (the (F c))(k := s p))) w (s(p := None)) else E False F w s) \<and> E True F w s)
     (mutate flt (install p c k)) Q E"
  by (rule triple_prim[where W = "\<lambda>w. w" and S = "\<lambda>s. s(p := None)"
      and U = "\<lambda>F s. F(c \<mapsto> (the (F c))(k := s p))"])
    (use install_ok install_cond in \<open>fastforce simp: on_def AList.delete_conv'\<close>)+

lemma triple_remove_file:
  "triple flt (\<lambda>F w s. (if \<exists>m. F c = Some m \<and> m k \<noteq> None
       then Q (F(c \<mapsto> (the (F c))(k := None))) w s else E False F w s) \<and> E True F w s)
     (mutate flt (remove_file c k)) Q E"
  by (rule triple_prim[where W = "\<lambda>w. w" and S = "\<lambda>s. s" and U = "\<lambda>F s. F(c \<mapsto> (the (F c))(k := None))"])
    (use remove_file_ok remove_file_cond in \<open>fastforce simp: on_def\<close>)+

lemma triple_remove_dir:
  "triple flt (\<lambda>F w s. (if F c = Some Map.empty then Q (F(c := None)) w s else E False F w s) \<and> E True F w s)
     (mutate flt (remove_dir c)) Q E"
  by (rule triple_prim[where W = "\<lambda>w. w" and S = "\<lambda>s. s" and U = "\<lambda>F s. F(c := None)"])
    (use remove_dir_ok remove_dir_cond in \<open>fastforce simp: on_def\<close>)+

lemma triple_copy_file:
  "triple flt (\<lambda>F w s. (if (\<exists>m. F src = Some m \<and> m k \<noteq> None) \<and> F dst \<noteq> None
       then Q (F(dst \<mapsto> (the (F dst))(k := the (F src) k))) w s else E False F w s) \<and> E True F w s)
     (mutate flt (copy_file src dst k)) Q E"
  by (rule triple_prim[where W = "\<lambda>w. w" and S = "\<lambda>s. s"
      and U = "\<lambda>F s. F(dst \<mapsto> (the (F dst))(k := the (F src) k))"])
    (use copy_file_ok copy_file_cond in \<open>fastforce simp: on_def\<close>)+

lemma triple_fsync: "triple flt (\<lambda>F w s. Q F w s \<and> E True F w s) (fsync flt) Q E"
  unfolding fsync_def by (rule triple_mutate) (auto simp: on_def)

text \<open>\<open>remove_dir_all\<close> passes through states in which some of the files are gone.\<close>

lemma triple_remove_dir_all:
  assumes "\<And>m'. m' \<subseteq>\<^sub>m m \<Longrightarrow> E True (F(c \<mapsto> m')) w s"
  shows "triple flt (\<lambda>F' w' s'. F' = F(c \<mapsto> m) \<and> w' = w \<and> s' = s) (remove_dir_all flt c)
    (\<lambda>F' w' s'. F' = F(c := None) \<and> w' = w \<and> s' = s) E"
  unfolding remove_dir_all_def
proof (rule triple_query)
  fix d assume d: "on (\<lambda>F' w' s'. F' = F(c \<mapsto> m) \<and> w' = w \<and> s' = s) d"
  let ?names = "listing (the (coll d c))"
  have names: "set ?names = dom m" using d by (intro listing_coll_fs) (simp add: on_def)
  let ?I = "\<lambda>done F' w' s'. F' = F(c \<mapsto> m |` (- set done)) \<and> w' = w \<and> s' = s"
  have "triple flt (?I []) (for_io (\<lambda>k. mutate flt (remove_file c k)) ?names) (?I ?names) E"
  proof (rule triple_for)
    fix "done" k rest assume n: "?names = done @ k # rest"
    then have "k \<notin> set done" "k \<in> dom m" using distinct_listing[of "the (coll d c)"] names by auto
    moreover have "(m |` (- set done))(k := None) = m |` (- set (done @ [k]))"
      by (auto simp: restrict_map_def)
    moreover have "E True (F(c \<mapsto> m |` (- set done))) w s"
      by (rule assms) (auto simp: map_le_def restrict_map_def split: if_splits)
    ultimately show "triple flt (?I done) (mutate flt (remove_file c k)) (?I (done @ [k])) E"
      by (intro triple_pre[OF triple_remove_file]) auto
  qed
  moreover have "triple flt (?I ?names) (mutate flt (remove_dir c))
      (\<lambda>F' w' s'. F' = F(c := None) \<and> w' = w \<and> s' = s) E"
  proof -
    have "m |` (- dom m) = Map.empty" by (auto simp: restrict_map_def)
    then show ?thesis unfolding names
      by (intro triple_pre[OF triple_remove_dir]) (auto intro!: assms)
  qed
  ultimately have "triple flt (?I []) (thenIO (for_io (\<lambda>k. mutate flt (remove_file c k)) ?names)
      (mutate flt (remove_dir c))) (\<lambda>F' w' s'. F' = F(c := None) \<and> w' = w \<and> s' = s) E"
    by (rule triple_then[rotated])
  then show "triple flt (\<lambda>F w s. F = fs d \<and> w = wal_file d \<and> s = map_of (staging d))
      (thenIO (for_io (\<lambda>k. mutate flt (remove_file c k)) ?names) (mutate flt (remove_dir c)))
      (\<lambda>F' w' s'. F' = F(c := None) \<and> w' = w \<and> s' = s) E"
    by (rule triple_pre) (use d in \<open>auto simp: on_def restrict_map_def\<close>)
qed

section \<open>Total runs and crashes\<close>

text \<open>Without faults, an action whose error assertion excludes real errors succeeds.\<close>

lemma triple_total:
  assumes "triple no_faults P m Q (\<lambda>b F w s. b)" "on P d"
  shows "\<exists>x d'. m d = (Inr x, d') \<and> on Q d'"
proof (cases "m d")
  case (Pair r d')
  show ?thesis
  proof (cases r)
    case (Inl e)
    then show ?thesis using triple_Inl[OF assms, of e d'] Pair by (auto simp: hit_def no_faults_def on_def)
  next
    case (Inr x)
    then show ?thesis using triple_Inr[OF assms, of x d'] Pair by blast
  qed
qed

end
