(* ===== verification/Storage_View.thy ===== *)
theory Storage_View
  imports Local_Storage Disk_Logic
begin

text \<open>
  What a client of the storage sees: the collections without backup files. The abstract storage is a
  map from collection names to maps from keys to contents; \<open>spec_op\<close> says what each operation
  means there, and the operations of the commit refine it.
\<close>

section \<open>The abstract storage\<close>

definition visible :: "(string \<rightharpoonup> byte list) \<Rightarrow> string \<rightharpoonup> byte list" where
  "visible m = (\<lambda>k. if is_bak k then None else m k)"

definition view :: "files \<Rightarrow> files" where
  "view F = (\<lambda>c. if is_bak c then None else map_option visible (F c))"

definition or_empty :: "(string \<rightharpoonup> byte list) option \<Rightarrow> string \<rightharpoonup> byte list" where
  "or_empty = case_option Map.empty id"

fun spec_op :: "(string \<rightharpoonup> byte list) \<Rightarrow> operation \<Rightarrow> files \<Rightarrow> files" where
  "spec_op staged (Write c k p) F = F(as_str c \<mapsto> (or_empty (F (as_str c)))(k := staged p))"
| "spec_op staged (Delete c k) F = F(as_str c := map_option (\<lambda>m. m(k := None)) (F (as_str c)))"
| "spec_op staged (DeleteAll c) F = F(as_str c := map_option (\<lambda>_. Map.empty) (F (as_str c)))"
| "spec_op staged (CreateCollection c) F = F(as_str c \<mapsto> or_empty (F (as_str c)))"
| "spec_op staged (DeleteCollection c) F = F(as_str c := None)"
| "spec_op staged (CopyCollection src dest ex) F = F(as_str dest := F (as_str src))"

definition spec_ops :: "(string \<rightharpoonup> byte list) \<Rightarrow> operation list \<Rightarrow> files \<Rightarrow> files" where
  "spec_ops staged opers F = fold (spec_op staged) opers F"

text \<open>Names that cannot be taken for backups.\<close>

definition clean_name :: "string \<Rightarrow> bool" where
  "clean_name n \<longleftrightarrow> n \<noteq> [] \<and> \<not> is_bak n"

fun clean_op :: "operation \<Rightarrow> bool" where
  "clean_op (Write c k p) \<longleftrightarrow> clean_name (as_str c) \<and> clean_name k"
| "clean_op (Delete c k) \<longleftrightarrow> clean_name (as_str c) \<and> clean_name k"
| "clean_op (DeleteAll c) \<longleftrightarrow> clean_name (as_str c)"
| "clean_op (CreateCollection c) \<longleftrightarrow> clean_name (as_str c)"
| "clean_op (DeleteCollection c) \<longleftrightarrow> clean_name (as_str c)"
| "clean_op (CopyCollection src dest ex) \<longleftrightarrow>
     clean_name (as_str src) \<and> clean_name (as_str dest) \<and> as_str src \<noteq> as_str dest"

text \<open>No file or directory has an empty name.\<close>

definition named :: "files \<Rightarrow> bool" where
  "named F \<longleftrightarrow> F [] = None \<and> (\<forall>c m. F c = Some m \<longrightarrow> m [] = None)"

section \<open>Simulation of loops\<close>

text \<open>
  A loop body that implements a step on abstract values, whatever goes wrong on the way: the loop
  implements the fold of the steps.
\<close>

locale simulation =
  fixes step :: "faults \<Rightarrow> 'op \<Rightarrow> unit io" and spec :: "'op \<Rightarrow> 'v \<Rightarrow> 'v"
    and shows_val :: "'v \<Rightarrow> assn" and good :: "'op \<Rightarrow> bool" and err :: assn
  assumes step_sim: "good x \<Longrightarrow> triple flt (shows_val v) (step flt x) (shows_val (spec x v)) (\<lambda>_. err)"
begin

lemma run:
  "list_all good xs \<Longrightarrow>
   triple flt (shows_val v) (for_io (step flt) xs) (shows_val (fold spec xs v)) (\<lambda>_. err)"
proof (induction xs arbitrary: v)
  case (Cons x xs)
  then show ?case by (auto intro!: triple_then[OF _ step_sim])
qed (simp add: triple_ret)

end

section \<open>Updates seen through the view\<close>

lemma visible_simps [simp]:
  "is_bak k \<Longrightarrow> visible (m(k := x)) = visible m"
  "\<not> is_bak k \<Longrightarrow> visible (m(k := x)) = (visible m)(k := x)"
  "visible Map.empty = Map.empty" "visible (\<lambda>_. None) = Map.empty"
  by (auto simp: visible_def)

lemma visible_bak [simp]: "is_bak k \<Longrightarrow> visible m k = None"
  by (simp add: visible_def)

lemma visible_other [simp]: "\<not> is_bak k \<Longrightarrow> visible m k = m k"
  by (simp add: visible_def)

lemma view_simps [simp]:
  "is_bak c \<Longrightarrow> view (F(c := x)) = view F"
  "\<not> is_bak c \<Longrightarrow> view (F(c := x)) = (view F)(c := map_option visible x)"
  by (auto simp: view_def)

lemma view_at [simp]: "\<not> is_bak c \<Longrightarrow> view F c = map_option visible (F c)"
  by (simp add: view_def)

lemma view_unchanged:
  "\<not> is_bak c \<Longrightarrow> (\<And>m. F c = Some m \<Longrightarrow> g (visible m) = visible m) \<Longrightarrow>
   view F = (view F)(c := map_option g (map_option visible (F c)))"
  by (cases "F c") (auto simp: fun_eq_iff)

lemma visible_or_empty: "visible (or_empty x) = or_empty (map_option visible x)"
  by (cases x) (simp_all add: or_empty_def)

lemma or_empty_case: "case_option Map.empty (\<lambda>m. m) x = or_empty x"
  by (cases x) (simp_all add: or_empty_def)

lemma named_upd [simp]:
  "named F \<Longrightarrow> named (F(c := None))"
  "named F \<Longrightarrow> c \<noteq> [] \<Longrightarrow> m [] = None \<Longrightarrow> named (F(c \<mapsto> m))"
  by (auto simp: named_def)

lemma namedD: "named F \<Longrightarrow> F c = Some m \<Longrightarrow> c \<noteq> [] \<and> m [] = None"
  by (auto simp: named_def)

lemma named_file [simp]:
  "named F \<Longrightarrow> F c = Some m \<Longrightarrow> m' [] = m [] \<Longrightarrow> named (F(c \<mapsto> m'))"
  by (auto simp: named_def)

lemma named_move [simp]:
  "named F \<Longrightarrow> F c = Some m \<Longrightarrow> c' \<noteq> [] \<Longrightarrow> named (F(c := None, c' \<mapsto> m))"
  by (auto simp: named_def)

lemma named_replace [simp]:
  "named F \<Longrightarrow> F c = Some m \<Longrightarrow> c' \<noteq> [] \<Longrightarrow> named (F(c' \<mapsto> m, c \<mapsto> Map.empty))"
  by (auto simp: named_def)

lemma named_or_empty [simp]: "named F \<Longrightarrow> or_empty (F c) [] = None"
  by (auto simp: named_def or_empty_def split: option.splits)

lemma append_extension_not_Nil [simp]: "append_extension n e \<noteq> []" "[] \<noteq> append_extension n e"
  by (simp_all add: append_extension_def)

section \<open>The operations refine their specification\<close>

definition shows_view :: "(string \<rightharpoonup> byte list) \<Rightarrow> files \<Rightarrow> assn" where
  "shows_view staged V F w s \<longleftrightarrow> view F = V \<and> s \<subseteq>\<^sub>m staged \<and> named F"

definition anything :: assn where
  "anything = (\<lambda>_ _ _. True)"

lemmas wp_io = triple_ret triple_fail triple_then triple_when triple_ask_dir triple_ask_file
  triple_create_dir triple_rename_file triple_rename_dir triple_install triple_remove_file
  triple_remove_dir triple_copy_file triple_fsync

lemma visible_delete: "visible (m(k := None)) = (visible m)(k := None)"
  by (auto simp: visible_def)

definition without_key :: "string \<Rightarrow> string \<Rightarrow> files \<Rightarrow> files" where
  "without_key c k V = V(c := map_option (\<lambda>m. m(k := None)) (V c))"

lemma backup_rename_sim:
  assumes "clean_name c" "k \<noteq> []"
  shows "triple flt (shows_view staged V) (mutate flt (rename_file c k (bak k)))
    (shows_view staged (without_key c k V)) (\<lambda>_. anything)"
  by (rule triple_pre[OF triple_rename_file])
    (use assms in \<open>auto simp: shows_view_def anything_def clean_name_def visible_delete without_key_def
      dest: namedD\<close>)

lemma copy_file_sim:
  assumes "clean_name src" "clean_name dst" "k \<noteq> []"
  shows "triple flt (shows_view staged V) (mutate flt (copy_file src dst k))
    (shows_view staged (V(dst := map_option (\<lambda>m. m(k := or_empty (V src) k)) (V dst)))) (\<lambda>_. anything)"
  by (rule triple_pre[OF triple_copy_file], cases "is_bak k")
    (use assms in \<open>auto simp: shows_view_def anything_def clean_name_def or_empty_def fun_upd_idem dest: namedD\<close>)

interpretation backup_loop:
  simulation "\<lambda>flt k. mutate flt (rename_file c k (bak k))" "without_key c" "shows_view staged"
    "\<lambda>k. clean_name c \<and> k \<noteq> []" anything for c staged
  by unfold_locales (rule backup_rename_sim, auto)

interpretation copy_loop:
  simulation "\<lambda>flt k. mutate flt (copy_file src dst k)"
    "\<lambda>k V. V(dst := map_option (\<lambda>m. m(k := or_empty (V src) k)) (V dst))" "shows_view staged"
    "\<lambda>k. clean_name src \<and> clean_name dst \<and> k \<noteq> []" anything for src dst staged
  by unfold_locales (rule copy_file_sim, auto)

lemma fold_without_key:
  "fold (without_key c) ks V = V(c := map_option (\<lambda>m. m |` (- set ks)) (V c))"
proof (induction ks arbitrary: V)
  case Nil
  show ?case by (cases "V c") (auto simp: fun_eq_iff restrict_map_def)
next
  case (Cons k ks)
  then show ?case by (cases "V c") (auto simp: without_key_def fun_eq_iff restrict_map_def)
qed

lemma fold_copy_keys:
  assumes "src \<noteq> dst"
  shows "fold (\<lambda>k V. V(dst := map_option (\<lambda>m. m(k := or_empty (V src) k)) (V dst))) ks V =
    V(dst := map_option (\<lambda>m k. if k \<in> set ks then or_empty (V src) k else m k) (V dst))"
proof (induction ks arbitrary: V)
  case (Cons k ks)
  then show ?case using assms by (cases "V dst") (auto simp: fun_eq_iff)
qed (auto simp: option.map_ident)

lemma write_sim:
  assumes "clean_op (Write c k p)"
  shows "triple flt (shows_view staged V) (apply_operation flt (Write c k p))
    (shows_view staged (spec_op staged (Write c k p) V)) (\<lambda>_. anything)"
  unfolding apply_operation.simps backup_file_def
  by (rule triple_pre, (rule wp_io)+)
    (use assms in \<open>auto simp: shows_view_def anything_def clean_name_def or_empty_case visible_or_empty
      visible_delete or_empty_def map_le_def dom_def split: option.splits if_splits dest: namedD\<close>)

lemma delete_sim:
  assumes "clean_op (Delete c k)"
  shows "triple flt (shows_view staged V) (apply_operation flt (Delete c k))
    (shows_view staged (spec_op staged (Delete c k) V)) (\<lambda>_. anything)"
  unfolding apply_operation.simps backup_file_def
  by (rule triple_pre, (rule wp_io)+)
    (use assms in \<open>auto simp: shows_view_def anything_def clean_name_def visible_delete fun_upd_idem
      intro!: view_unchanged split: option.splits dest: namedD\<close>)

lemma create_sim:
  assumes "clean_op (CreateCollection c)"
  shows "triple flt (shows_view staged V) (apply_operation flt (CreateCollection c))
    (shows_view staged (spec_op staged (CreateCollection c) V)) (\<lambda>_. anything)"
  unfolding apply_operation.simps
  by (rule triple_pre, (rule wp_io)+)
    (use assms in \<open>auto simp: shows_view_def anything_def clean_name_def or_empty_case visible_or_empty\<close>)

lemma delete_collection_sim:
  assumes "clean_op (DeleteCollection c)"
  shows "triple flt (shows_view staged V) (apply_operation flt (DeleteCollection c))
    (shows_view staged (spec_op staged (DeleteCollection c) V)) (\<lambda>_. anything)"
  unfolding apply_operation.simps backup_dir_def
  by (rule triple_pre, (rule wp_io)+)
    (use assms in \<open>auto simp: shows_view_def anything_def clean_name_def fun_upd_idem
      split: option.splits dest: namedD\<close>)

lemma delete_all_sim:
  assumes "clean_op (DeleteAll c)"
  shows "triple flt (shows_view staged V) (apply_operation flt (DeleteAll c))
    (shows_view staged (spec_op staged (DeleteAll c) V)) (\<lambda>_. anything)"
proof -
  have loop: "triple flt (\<lambda>F w s. shows_view staged V F w s \<and> F (as_str c) \<noteq> None)
      (backup_all_files_in_dir flt (as_str c)) (shows_view staged (spec_op staged (DeleteAll c) V)) (\<lambda>_. anything)"
    unfolding backup_all_files_in_dir_def
  proof (rule triple_query)
    fix d assume d: "on (\<lambda>F w s. shows_view staged V F w s \<and> F (as_str c) \<noteq> None) d"
    then obtain m where m: "fs d (as_str c) = Some m" by (auto simp: on_def)
    let ?names = "listing (the (coll d (as_str c)))"
    have names: "set ?names = dom m" by (rule listing_coll_fs[OF m])
    have "[] \<notin> dom m" "V (as_str c) = Some (visible m)"
      using d m assms by (auto simp: on_def shows_view_def clean_name_def dest: namedD)
    moreover have "visible m |` (- dom m) = Map.empty" by (auto simp: restrict_map_def visible_def)
    ultimately have "fold (without_key (as_str c)) ?names V = spec_op staged (DeleteAll c) V"
      by (simp add: fold_without_key names del: set_listing)
    moreover have "list_all (\<lambda>k. clean_name (as_str c) \<and> k \<noteq> []) ?names"
      using assms names \<open>[] \<notin> dom m\<close> by (auto simp: list_all_iff)
    ultimately have "triple flt (shows_view staged V)
        (for_io (\<lambda>k. mutate flt (rename_file (as_str c) k (bak k))) ?names)
        (shows_view staged (spec_op staged (DeleteAll c) V)) (\<lambda>_. anything)"
      using backup_loop.run[where c = "as_str c" and xs = ?names and flt = flt and v = V and staged = staged]
      by simp
    then show "triple flt (\<lambda>F w s. F = fs d \<and> w = wal_file d \<and> s = map_of (staging d))
        (for_io (\<lambda>k. mutate flt (rename_file (as_str c) k (bak k))) ?names)
        (shows_view staged (spec_op staged (DeleteAll c) V)) (\<lambda>_. anything)"
      by (rule triple_pre) (use d in \<open>auto simp: on_def\<close>)
  qed
  show ?thesis unfolding apply_operation.simps
    by (rule triple_pre, (rule wp_io loop)+)
      (use assms in \<open>auto simp: shows_view_def clean_name_def fun_upd_idem split: option.splits\<close>)
qed

lemma copy_contents_sim:
  assumes "clean_name src" "clean_name dst" "src \<noteq> dst"
  shows "triple flt (\<lambda>F w s. shows_view staged V F w s \<and> V dst = Some Map.empty)
    (copy_dir_contents flt src dst) (shows_view staged (V(dst := V src))) (\<lambda>_. anything)"
  unfolding copy_dir_contents_def
proof (rule triple_query)
  fix d assume d: "on (\<lambda>F w s. shows_view staged V F w s \<and> V dst = Some Map.empty) d"
  let ?body = "\<lambda>k. mutate flt (copy_file src dst k)"
  show "triple flt (\<lambda>F w s. F = fs d \<and> w = wal_file d \<and> s = map_of (staging d))
     (case coll d src of None \<Rightarrow> fail (Io IoNotFound) | Some al \<Rightarrow> for_io ?body (listing al))
     (shows_view staged (V(dst := V src))) (\<lambda>_. anything)"
  proof (cases "coll d src")
    case None
    then show ?thesis by (auto intro: triple_pre[OF triple_fail] simp: anything_def)
  next
    case (Some al)
    have V: "V src = Some (visible (map_of al))" and nil: "[] \<notin> dom (map_of al)"
      using d coll_Some_fs[OF Some] assms(1)
      by (auto simp: on_def shows_view_def clean_name_def dest: namedD)
    have "(\<lambda>k. if k \<in> dom (map_of al) then or_empty (V src) k else None) = visible (map_of al)"
      using V by (auto simp: or_empty_def visible_def fun_eq_iff split: if_splits)
    then have "V(dst := V src) = fold (\<lambda>k V. V(dst := map_option (\<lambda>m. m(k := or_empty (V src) k)) (V dst))) (listing al) V"
      using d V unfolding fold_copy_keys[OF assms(3)] set_listing by (simp add: on_def)
    moreover have "list_all (\<lambda>k. clean_name src \<and> clean_name dst \<and> k \<noteq> []) (listing al)"
      using assms nil by (auto simp: list_all_iff)
    ultimately have "triple flt (shows_view staged V) (for_io ?body (listing al))
        (shows_view staged (V(dst := V src))) (\<lambda>_. anything)"
      using copy_loop.run[where src = src and dst = dst and xs = "listing al" and flt = flt and v = V
          and staged = staged] by simp
    then show ?thesis using Some d by (auto simp: on_def intro: triple_pre)
  qed
qed

lemma copy_collection_sim:
  assumes "clean_op (CopyCollection src dest ex)"
  shows "triple flt (shows_view staged V) (apply_operation flt (CopyCollection src dest ex))
    (shows_view staged (spec_op staged (CopyCollection src dest ex) V)) (\<lambda>_. anything)"
proof -
  have c: "clean_name (as_str src)" "clean_name (as_str dest)" "as_str src \<noteq> as_str dest"
    using assms by auto
  have copy: "triple flt (shows_view staged (V(as_str dest \<mapsto> Map.empty)))
      (copy_dir_contents flt (as_str src) (as_str dest))
      (shows_view staged (spec_op staged (CopyCollection src dest ex) V)) (\<lambda>_. anything)"
    using copy_contents_sim[OF c, of flt staged "V(as_str dest \<mapsto> Map.empty)"] c(3) by simp
  show ?thesis unfolding apply_operation.simps backup_dir_def
    by (rule triple_pre, (rule copy wp_io)+)
      (use c in \<open>auto simp: shows_view_def anything_def clean_name_def split: option.splits dest: namedD\<close>)
qed

interpretation apply_loop:
  simulation apply_operation "spec_op staged" "shows_view staged" clean_op anything for staged
proof unfold_locales
  fix x flt V assume "clean_op x"
  then show "triple flt (shows_view staged V) (apply_operation flt x) (shows_view staged (spec_op staged x V))
      (\<lambda>_. anything)"
    by (cases x)
      (simp_all only: write_sim delete_sim create_sim delete_collection_sim delete_all_sim copy_collection_sim)
qed

end
