(* ===== verification/Storage_Cleanup.thy ===== *)
theory Storage_Cleanup
  imports Storage_View
begin

text \<open>
  Removing backup files: what the client sees does not change at any point, and at the end the
  directories hold exactly what the client sees. Staged files and the log go without touching the
  collections.
\<close>

definition is_state :: "files \<Rightarrow> byte list option \<Rightarrow> (string \<rightharpoonup> byte list) \<Rightarrow> assn" where
  "is_state F w s F' w' s' \<longleftrightarrow> F' = F \<and> w' = w \<and> s' = s"

text \<open>The error assertion: only a fault stops the clean-up, and the view is still \<open>V\<close>.\<close>

definition keeps_view :: "files \<Rightarrow> byte list option \<Rightarrow> (string \<rightharpoonup> byte list) \<Rightarrow> bool \<Rightarrow> assn" where
  "keeps_view V w s b F' w' s' \<longleftrightarrow> b \<and> view F' = V \<and> w' = w \<and> s' = s"

lemma triple_query_state:
  assumes "\<And>d. fs d = F \<Longrightarrow> wal_file d = w \<Longrightarrow> map_of (staging d) = s \<Longrightarrow>
    triple flt (is_state F w s) (f (q d)) Q E"
  shows "triple flt (is_state F w s) (query q f) Q E"
  by (rule triple_query) (auto simp: on_def is_state_def intro!: triple_pre[OF assms])

lemma triple_from_states:
  assumes "\<And>F w s. P F w s \<Longrightarrow> triple flt (is_state F w s) m Q E"
  shows "triple flt P m Q E"
proof (rule tripleI)
  fix d x d' assume "on P d" and m: "m d = (Inr x, d')"
  then show "on Q d'" using triple_Inr[OF assms _ m] by (simp add: on_def is_state_def)
next
  fix d e d' assume "on P d" and m: "m d = (Inl e, d')"
  then show "\<exists>b. (b \<longrightarrow> hit flt d') \<and> on (E b) d'"
    using triple_Inl[OF assms _ m] by (simp add: on_def is_state_def)
qed

lemma visible_idem [simp]: "visible (visible m) = visible m"
  by (auto simp: visible_def)

lemma view_idem [simp]: "view (view F) = view F"
  by (auto simp: view_def fun_eq_iff option.map_comp comp_def)

lemma delete_files_triple:
  assumes "\<not> is_bak c" "F c = Some m"
  shows "triple flt (is_state F w s)
    (query (\<lambda>d. listing (the (coll d c)))
      (for_io (\<lambda>name. whenIO (is_bak name) (mutate flt (remove_file c name)))))
    (is_state (F(c := view F c)) w s) (keeps_view (view F) w s)"
proof (rule triple_query_state)
  fix d assume d: "fs d = F"
  let ?names = "listing (the (coll d c))"
  have names: "set ?names = dom m" using assms d by (intro listing_coll_fs) simp
  let ?m = "\<lambda>done. m |` {k. is_bak k \<longrightarrow> k \<notin> set done}"
  let ?I = "\<lambda>done. is_state (F(c \<mapsto> ?m done)) w s"
  have v: "view (F(c \<mapsto> ?m done)) = view F" for "done"
    using assms by (auto simp: view_def visible_def restrict_map_def fun_eq_iff)
  have "triple flt (?I []) (for_io (\<lambda>name. whenIO (is_bak name) (mutate flt (remove_file c name))) ?names)
      (?I ?names) (keeps_view (view F) w s)"
  proof (rule triple_for)
    fix "done" k rest assume n: "?names = done @ k # rest"
    then have "k \<notin> set done" "k \<in> dom m" using distinct_listing[of "the (coll d c)"] names by auto
    moreover have "?m (done @ [k]) = (if is_bak k then (?m done)(k := None) else ?m done)"
      by (auto simp: restrict_map_def)
    ultimately show "triple flt (?I done) (whenIO (is_bak k) (mutate flt (remove_file c k))) (?I (done @ [k]))
        (keeps_view (view F) w s)"
      by (intro triple_pre[OF triple_when[OF triple_remove_file]])
        (auto simp: is_state_def keeps_view_def v split: if_splits)
  qed
  moreover have "?m ?names = visible m" unfolding names by (auto simp: restrict_map_def visible_def fun_eq_iff)
  moreover have "F(c \<mapsto> ?m []) = F" using assms by (auto simp: restrict_map_def)
  ultimately show "triple flt (is_state F w s)
      (for_io (\<lambda>name. whenIO (is_bak name) (mutate flt (remove_file c name))) ?names)
      (is_state (F(c := view F c)) w s) (keeps_view (view F) w s)"
    using assms by simp
qed

lemma delete_backups_in_triple:
  "triple flt (is_state F w s) (delete_backups_in flt c) (is_state (F(c := view F c)) w s)
     (keeps_view (view F) w s)"
proof (cases "F c")
  case None
  then show ?thesis unfolding delete_backups_in_def
    by (intro triple_query_state)
      (auto simp: dir_exists_fs whenIO_def view_def fun_upd_idem intro: triple_pre[OF triple_ret])
next
  case (Some m)
  show ?thesis
  proof (cases "is_bak c")
    case True
    have rda: "triple flt (is_state F w s) (remove_dir_all flt c) (is_state (F(c := view F c)) w s)
        (keeps_view (view F) w s)"
      by (rule triple_weaken[OF triple_remove_dir_all[where F = F and c = c and m = m and w = w and s = s]])
        (use Some True in \<open>auto simp: is_state_def keeps_view_def view_def fun_upd_idem\<close>)
    show ?thesis unfolding delete_backups_in_def
      by (rule triple_query_state) (simp add: dir_exists_fs Some whenIO_def True rda)
  next
    case False
    show ?thesis unfolding delete_backups_in_def
      using delete_files_triple[of c F m flt w s] False Some
      by (intro triple_query_state) (simp add: dir_exists_fs Some whenIO_def[of True] False)
  qed
qed

lemma delete_all_backups_triple:
  "triple flt (is_state F w s) (query (\<lambda>d. listing (colls d)) (for_io (delete_backups_in flt)))
     (is_state (view F) w s) (keeps_view (view F) w s)"
proof (rule triple_query_state)
  fix d assume d: "fs d = F"
  let ?cs = "listing (colls d)"
  have cs: "set ?cs = {c. F c \<noteq> None}" using listing_colls_fs[of d] d by simp
  let ?F = "\<lambda>done c. if c \<in> set done then view F c else F c"
  have v: "view (?F done) = view F" for "done"
    by (auto simp: view_def fun_eq_iff option.map_comp comp_def)
  have "triple flt (is_state (?F []) w s) (for_io (delete_backups_in flt) ?cs) (is_state (?F ?cs) w s)
      (keeps_view (view F) w s)"
  proof (rule triple_for)
    fix "done" c rest assume n: "?cs = done @ c # rest"
    then have "c \<notin> set done" using distinct_listing[of "colls d"] by auto
    then have "(?F done)(c := view (?F done) c) = ?F (done @ [c])" unfolding v by auto
    then show "triple flt (is_state (?F done) w s) (delete_backups_in flt c) (is_state (?F (done @ [c])) w s)
        (keeps_view (view F) w s)"
      using delete_backups_in_triple[of flt "?F done" w s c] by (simp only: v)
  qed
  moreover have "?F ?cs = view F" unfolding cs by (auto simp: view_def)
  ultimately show "triple flt (is_state F w s) (for_io (delete_backups_in flt) ?cs) (is_state (view F) w s)
      (keeps_view (view F) w s)" by simp
qed

lemmas cleanup_backups_triple =
  delete_all_backups_triple[folded cleanup_backup_files_def]
  delete_all_backups_triple[folded delete_all_backup_files_def]

text \<open>The staging directory.\<close>

lemma triple_remove_staged:
  "triple flt (\<lambda>F w s. (if s p \<noteq> None then Q F w (s(p := None)) else E False F w s) \<and> E True F w s)
     (mutate flt (remove_staged p)) Q E"
  by (rule triple_prim[where W = "\<lambda>w. w" and S = "\<lambda>s. s(p := None)" and U = "\<lambda>F s. F"])
    (auto simp: on_def remove_staged_def AList.delete_conv' fs_def fun_eq_iff split: option.splits)

lemma cleanup_staging_triple:
  "triple flt (is_state F w s) (cleanup_staging_dir flt) (is_state F w Map.empty)
     (\<lambda>b F' w' s'. b \<and> F' = F \<and> w' = w)"
  unfolding cleanup_staging_dir_def
proof (rule triple_query_state)
  fix d assume d: "map_of (staging d) = s"
  let ?names = "listing (staging d)"
  let ?I = "\<lambda>done. is_state F w (s |` (- set done))"
  have "triple flt (?I []) (for_io (\<lambda>name. mutate flt (remove_staged name)) ?names) (?I ?names)
      (\<lambda>b F' w' s'. b \<and> F' = F \<and> w' = w)"
  proof (rule triple_for)
    fix "done" k rest assume n: "?names = done @ k # rest"
    then have "k \<notin> set done" "k \<in> dom s"
      using distinct_listing[of "staging d"] set_listing[of "staging d"] d by auto
    moreover have "(s |` (- set done))(k := None) = s |` (- set (done @ [k]))"
      by (auto simp: restrict_map_def)
    ultimately show "triple flt (?I done) (mutate flt (remove_staged k)) (?I (done @ [k]))
        (\<lambda>b F' w' s'. b \<and> F' = F \<and> w' = w)"
      by (intro triple_pre[OF triple_remove_staged]) (auto simp: is_state_def)
  qed
  moreover have "s |` (- dom s) = Map.empty" "s |` UNIV = s" by (auto simp: restrict_map_def)
  ultimately show "triple flt (is_state F w s) (for_io (\<lambda>name. mutate flt (remove_staged name)) ?names)
      (is_state F w Map.empty) (\<lambda>b F' w' s'. b \<and> F' = F \<and> w' = w)" using d by simp
qed

lemmas cleanup_directory_triple =
  cleanup_staging_triple[unfolded cleanup_staging_dir_def, folded cleanup_directory_contents_def]

text \<open>The log file.\<close>

lemma remove_wal_triple:
  "triple flt (is_state F w s) (remove_wal_if_exists flt) (is_state F None s) (\<lambda>b. \<lambda>F' w' s'. b \<and> is_state F w s F' w' s')"
  unfolding remove_wal_if_exists_def
proof (rule triple_query_state)
  fix d assume d: "wal_file d = w"
  show "triple flt (is_state F w s) (whenIO (wal_file d \<noteq> None) (mutate flt remove_wal)) (is_state F None s)
      (\<lambda>b. \<lambda>F' w' s'. b \<and> is_state F w s F' w' s')"
    by (rule triple_pre[OF triple_when[OF triple_mutate[where P = "is_state F w s"]]])
      (use d in \<open>auto simp: on_def is_state_def remove_wal_def split: if_splits\<close>)
qed

end
