(* ===== verification/Storage_Undo.thy ===== *)
theory Storage_Undo
  imports Storage_Cleanup
begin

text \<open>
  What the collections look like while a transaction is being applied or undone, relative to their
  contents \<open>F0\<close> before it. The invariant \<open>undoable\<close> holds at every point of the application and of
  the rollback, so it is what a crash leaves behind; it is strong enough for the rollback to restore
  \<open>F0\<close> from the log and the backups.
\<close>

section \<open>Transactions that can be undone\<close>

fun whole :: "operation \<Rightarrow> bool" where
  "whole (DeleteCollection c) \<longleftrightarrow> True"
| "whole (CopyCollection src dest ex) \<longleftrightarrow> True"
| "whole _ \<longleftrightarrow> False"

fun key_op :: "operation \<Rightarrow> bool" where
  "key_op (Write c k p) \<longleftrightarrow> True"
| "key_op (Delete c k) \<longleftrightarrow> True"
| "key_op (DeleteAll c) \<longleftrightarrow> True"
| "key_op _ \<longleftrightarrow> False"

fun creates :: "string \<Rightarrow> operation \<Rightarrow> bool" where
  "creates c (CreateCollection n) \<longleftrightarrow> as_str n = c"
| "creates c (CopyCollection src dest ex) \<longleftrightarrow> as_str dest = c"
| "creates c _ \<longleftrightarrow> False"

fun writes_key :: "string \<Rightarrow> string \<Rightarrow> operation \<Rightarrow> bool" where
  "writes_key c k (Write c' k' p) \<longleftrightarrow> as_str c' = c \<and> k' = k"
| "writes_key c k _ \<longleftrightarrow> False"

text \<open>
  \<open>compat a b\<close>: after \<open>a\<close>, the backup that \<open>b\<close> makes still is a backup of the original. An
  operation on a whole collection comes before all others on it, \<open>delete_all\<close> before the other
  operations on keys, and a written key is not written or deleted again.
\<close>

fun compat :: "operation \<Rightarrow> operation \<Rightarrow> bool" where
  "compat a (DeleteCollection c) \<longleftrightarrow> modified_dir a \<noteq> as_str c"
| "compat a (CopyCollection src dest ex) \<longleftrightarrow> modified_dir a \<noteq> as_str dest"
| "compat a (DeleteAll c) \<longleftrightarrow> \<not> (key_op a \<and> modified_dir a = as_str c)"
| "compat a (Write c k p) \<longleftrightarrow> \<not> writes_key (as_str c) k a"
| "compat a (Delete c k) \<longleftrightarrow> \<not> writes_key (as_str c) k a"
| "compat a (CreateCollection c) \<longleftrightarrow> True"

text \<open>
  What a single operation must satisfy: collections and keys are not named like backup files, a
  written key is new, a created collection is new, and \<open>dest_existed\<close> is right.
\<close>

fun op_ok :: "files \<Rightarrow> operation \<Rightarrow> bool" where
  "op_ok F0 (Write c k p) \<longleftrightarrow> clean_name (as_str c) \<and> clean_name k \<and> \<not> is_tmp k \<and>
     (case F0 (as_str c) of None \<Rightarrow> True | Some m \<Rightarrow> m k = None)"
| "op_ok F0 (Delete c k) \<longleftrightarrow> clean_name (as_str c) \<and> clean_name k"
| "op_ok F0 (DeleteAll c) \<longleftrightarrow> clean_name (as_str c)"
| "op_ok F0 (CreateCollection c) \<longleftrightarrow> clean_name (as_str c) \<and> F0 (as_str c) = None"
| "op_ok F0 (DeleteCollection c) \<longleftrightarrow> clean_name (as_str c)"
| "op_ok F0 (CopyCollection src dest ex) \<longleftrightarrow>
     clean_name (as_str src) \<and> clean_name (as_str dest) \<and> as_str src \<noteq> as_str dest \<and>
     (ex \<longleftrightarrow> F0 (as_str dest) \<noteq> None)"

definition step_ok :: "files \<Rightarrow> operation list \<Rightarrow> operation \<Rightarrow> bool" where
  "step_ok F0 prev x \<longleftrightarrow> op_ok F0 x \<and> list_all (\<lambda>a. compat a x) prev \<and>
     (case x of
        Write c k p \<Rightarrow> F0 (as_str c) = None \<longrightarrow> list_ex (creates (as_str c)) prev
      | _ \<Rightarrow> True)"

fun valid_from :: "files \<Rightarrow> operation list \<Rightarrow> operation list \<Rightarrow> bool" where
  "valid_from F0 prev [] \<longleftrightarrow> True"
| "valid_from F0 prev (x # xs) \<longleftrightarrow> step_ok F0 prev x \<and> valid_from F0 (prev @ [x]) xs"

definition valid_tx :: "files \<Rightarrow> operation list \<Rightarrow> bool" where
  "valid_tx F0 opers = valid_from F0 [] opers"

lemma valid_from_split:
  "valid_from F0 prev (pre @ x # post) \<Longrightarrow> step_ok F0 (prev @ pre) x"
proof (induction pre arbitrary: prev)
  case (Cons a pre)
  from Cons.IH[of "prev @ [a]"] Cons.prems show ?case by simp
qed simp

lemma valid_tx_split: "valid_tx F0 (pre @ x # post) \<Longrightarrow> step_ok F0 pre x"
  using valid_from_split[of F0 "[]"] by (simp add: valid_tx_def)

lemma valid_tx_op_ok: "valid_tx F0 opers \<Longrightarrow> x \<in> set opers \<Longrightarrow> op_ok F0 x"
  by (auto simp: in_set_conv_decomp step_ok_def dest: valid_tx_split)

lemma op_ok_clean: "op_ok F0 x \<Longrightarrow> clean_op x"
  by (cases x) auto

lemma op_ok_dir: "op_ok F0 x \<Longrightarrow> clean_name (modified_dir x)"
  by (cases x) auto

definition clean_files :: "files \<Rightarrow> bool" where
  "clean_files F0 \<longleftrightarrow>
     (\<forall>c m. F0 c = Some m \<longrightarrow> clean_name c \<and> (\<forall>k\<in>dom m. clean_name k \<and> \<not> is_tmp k))"

section \<open>The invariant\<close>

definition written :: "operation set \<Rightarrow> string \<Rightarrow> string set" where
  "written dn c = {k. \<exists>x\<in>dn. writes_key c k x}"

text \<open>Files of a collection that had the contents \<open>m0\<close>.\<close>

definition partial :: "(string \<rightharpoonup> byte list) \<Rightarrow> string set \<Rightarrow> (string \<rightharpoonup> byte list) \<Rightarrow> bool" where
  "partial m0 W m \<longleftrightarrow> m [] = None \<and> (\<forall>k. is_bak k \<longrightarrow> m (bak k) = None) \<and> (\<forall>k. is_tmp k \<longrightarrow> m k = None) \<and>
     (\<forall>k. clean_name k \<longrightarrow> (case m0 k of
         Some x \<Rightarrow> m k = Some x \<and> m (bak k) = None \<or> m k = None \<and> m (bak k) = Some x
       | None \<Rightarrow> m (bak k) = None \<and> (m k = None \<or> k \<in> W)))"

definition copied :: "operation set \<Rightarrow> string \<Rightarrow> bool" where
  "copied dn c \<longleftrightarrow> (\<exists>src dest. CopyCollection src dest False \<in> dn \<and> as_str dest = c)"

definition created :: "operation set \<Rightarrow> string \<Rightarrow> bool" where
  "created dn c \<longleftrightarrow> (\<exists>n. CreateCollection n \<in> dn \<and> as_str n = c)"

text \<open>
  One collection: \<open>f0\<close> is its original state, \<open>x\<close> its directory and \<open>y\<close> its backup directory now,
  \<open>dn\<close> the operations that may have been started.
\<close>

definition coll_ok where
  "coll_ok f0 dn c x y \<longleftrightarrow> (case f0 of
     None \<Rightarrow> y = None \<and>
       (x = None \<or> copied dn c \<or> created dn c \<and> (\<exists>m. x = Some m \<and> dom m \<subseteq> written dn c))
   | Some m0 \<Rightarrow> y = Some m0 \<or> y = None \<and> (\<exists>m. x = Some m \<and> partial m0 (written dn c) m))"

definition undoable :: "files \<Rightarrow> operation set \<Rightarrow> files \<Rightarrow> bool" where
  "undoable F0 dn F \<longleftrightarrow> F [] = None \<and> (\<forall>c. is_bak c \<longrightarrow> F (bak c) = None) \<and>
     (\<forall>c. clean_name c \<longrightarrow> coll_ok (F0 c) dn c (F c) (F (bak c)))"

text \<open>What holds in addition while operations are being applied.\<close>

definition coll_fwd where
  "coll_fwd f0 dn c x y \<longleftrightarrow> (case f0 of
     None \<Rightarrow> True
   | Some m0 \<Rightarrow>
       (y \<noteq> None \<longrightarrow> (\<exists>a\<in>dn. whole a \<and> modified_dir a = c)) \<and>
       (y = None \<and> \<not> (\<exists>a\<in>dn. key_op a \<and> modified_dir a = c) \<longrightarrow> x = Some m0))"

definition forward :: "files \<Rightarrow> operation set \<Rightarrow> files \<Rightarrow> bool" where
  "forward F0 dn F \<longleftrightarrow> undoable F0 dn F \<and>
     (\<forall>c. clean_name c \<longrightarrow> coll_fwd (F0 c) dn c (F c) (F (bak c)))"

text \<open>A collection whose directory may hold anything, because the rollback replaces or removes it.\<close>

definition loose where
  "loose f0 dn c y \<longleftrightarrow> (case f0 of None \<Rightarrow> y = None \<and> copied dn c | Some m0 \<Rightarrow> y = Some m0)"

lemma loose_coll_ok: "loose f0 dn c y \<Longrightarrow> coll_ok f0 dn c x y"
  by (auto simp: loose_def coll_ok_def split: option.splits)

lemma written_mono: "dn \<subseteq> dn' \<Longrightarrow> written dn c \<subseteq> written dn' c"
  by (auto simp: written_def)

lemma partial_mono: "partial m0 W m \<Longrightarrow> W \<subseteq> W' \<Longrightarrow> partial m0 W' m"
  by (fastforce simp: partial_def split: option.splits)

lemma coll_ok_mono: "coll_ok f0 dn c x y \<Longrightarrow> dn \<subseteq> dn' \<Longrightarrow> coll_ok f0 dn' c x y"
  using written_mono[of dn dn' c] partial_mono[of _ "written dn c" _ "written dn' c"]
  by (fastforce simp: coll_ok_def copied_def created_def split: option.splits)

lemma undoable_mono: "undoable F0 dn F \<Longrightarrow> dn \<subseteq> dn' \<Longrightarrow> undoable F0 dn' F"
  by (auto simp: undoable_def intro: coll_ok_mono)

lemma loose_mono: "loose f0 dn c y \<Longrightarrow> dn \<subseteq> dn' \<Longrightarrow> loose f0 dn' c y"
  by (auto simp: loose_def copied_def split: option.splits)

lemma undoable_at: "undoable F0 dn F \<Longrightarrow> clean_name c \<Longrightarrow> coll_ok (F0 c) dn c (F c) (F (bak c))"
  by (simp add: undoable_def)

lemma forward_at:
  "forward F0 dn F \<Longrightarrow> clean_name c \<Longrightarrow> coll_fwd (F0 c) dn c (F c) (F (bak c))"
  by (simp add: forward_def)

lemma clean_bak [simp]: "clean_name c \<Longrightarrow> is_bak (bak c)" "clean_name c \<Longrightarrow> \<not> is_bak c"
  by (simp_all add: clean_name_def)

lemma not_is_bak_Nil [simp]: "\<not> is_bak []"
  by (auto elim: is_bak_cases)

lemma is_bak_twice: "is_bak n \<Longrightarrow> is_bak (bak n)"
  by (cases "n = []") auto

lemma clean_other:
  assumes "clean_name c" "clean_name n" "n \<noteq> c"
  shows "n \<noteq> bak c" "bak n \<noteq> c" "bak n \<noteq> bak c"
  using assms by (auto simp: clean_name_def)

text \<open>An update of one collection and of its backup.\<close>

definition only_at :: "string \<Rightarrow> files \<Rightarrow> files \<Rightarrow> bool" where
  "only_at c F F' \<longleftrightarrow> (\<forall>n. n \<noteq> c \<and> n \<noteq> bak c \<longrightarrow> F' n = F n)"

lemma undoable_update:
  assumes "undoable F0 dn F" "clean_name c" "only_at c F F'" "dn \<subseteq> dn'"
    and "coll_ok (F0 c) dn' c (F' c) (F' (bak c))"
  shows "undoable F0 dn' F'"
  unfolding undoable_def
proof (intro conjI allI impI)
  have other: "F' n = F n" if "n \<noteq> c" "n \<noteq> bak c" for n
    using assms(3) that by (simp add: only_at_def)
  show "F' [] = None" using assms(1,2) by (subst other) (auto simp: undoable_def clean_name_def)
  fix n
  show "F' (bak n) = None" if "is_bak n"
    using assms(1,2) that by (subst other) (auto simp: undoable_def clean_name_def dest: is_bak_twice)
  show "coll_ok (F0 n) dn' n (F' n) (F' (bak n))" if n: "clean_name n"
  proof (cases "n = c")
    case False
    then have "F' n = F n" "F' (bak n) = F (bak n)" using other clean_other[OF assms(2) n] by simp_all
    then show ?thesis using undoable_at[OF assms(1) n] assms(4) by (simp add: coll_ok_mono)
  qed (use assms(5) in simp)
qed

lemma coll_fwd_other:
  "coll_fwd f0 dn n x y \<Longrightarrow> modified_dir a \<noteq> n \<Longrightarrow> coll_fwd f0 (insert a dn) n x y"
  by (auto simp: coll_fwd_def split: option.splits)

lemma forward_update:
  assumes "forward F0 dn F" "modified_dir a = c" "clean_name c" "only_at c F F'"
    and "coll_ok (F0 c) (insert a dn) c (F' c) (F' (bak c))"
    and "coll_fwd (F0 c) (insert a dn) c (F' c) (F' (bak c))"
  shows "forward F0 (insert a dn) F'"
  unfolding forward_def
proof (intro conjI allI impI)
  have "undoable F0 dn F" using assms(1) by (simp add: forward_def)
  then show "undoable F0 (insert a dn) F'"
    by (rule undoable_update[of F0 dn F c F']) (use assms(3,4,5) in blast)+
  fix n assume n: "clean_name n"
  show "coll_fwd (F0 n) (insert a dn) n (F' n) (F' (bak n))"
  proof (cases "n = c")
    case False
    then have "F' n = F n" "F' (bak n) = F (bak n)"
      using assms(4) clean_other[OF assms(3) n] by (simp_all add: only_at_def)
    then show ?thesis using forward_at[OF assms(1) n] assms(2) False by (simp add: coll_fwd_other)
  qed (use assms(6) in simp)
qed

end
