(* ===== verification/Storage_Forward.thy ===== *)
theory Storage_Forward
  imports Storage_Undo
begin

text \<open>
  Applying an operation of a valid transaction: whatever call fails, the collections stay undoable.
\<close>

definition ahead :: "files \<Rightarrow> operation set \<Rightarrow> byte list option \<Rightarrow> assn" where
  "ahead F0 dn w0 F w s \<longleftrightarrow> forward F0 dn F \<and> w = w0"

definition behind :: "files \<Rightarrow> operation set \<Rightarrow> byte list option \<Rightarrow> assn" where
  "behind F0 dn w0 F w s \<longleftrightarrow> undoable F0 dn F \<and> w = w0"

text \<open>The situation in which operation \<open>a\<close> starts.\<close>

definition starts :: "files \<Rightarrow> operation list \<Rightarrow> operation \<Rightarrow> files \<Rightarrow> bool" where
  "starts F0 prev a F \<longleftrightarrow> forward F0 (set prev) F \<and> step_ok F0 prev a \<and> list_all (op_ok F0) prev"

lemma starts_clean: "starts F0 prev a F \<Longrightarrow> clean_name (modified_dir a)"
  by (auto simp: starts_def step_ok_def dest: op_ok_dir)

lemma starts_coll:
  assumes "starts F0 prev a F" "c = modified_dir a"
  shows "coll_ok (F0 c) (set prev) c (F c) (F (bak c))" "coll_fwd (F0 c) (set prev) c (F c) (F (bak c))"
  using assms starts_clean[OF assms(1)] by (auto simp: starts_def forward_def undoable_def)

lemma starts_undoable:
  assumes "starts F0 prev a F" "c = modified_dir a" "only_at c F F'"
    and "coll_ok (F0 c) (insert a (set prev)) c (F' c) (F' (bak c))"
  shows "undoable F0 (insert a (set prev)) F'"
  by (rule undoable_update[of F0 "set prev" F c F'])
    (use assms starts_clean[OF assms(1)] in \<open>auto simp: starts_def forward_def\<close>)

lemma starts_forward:
  assumes "starts F0 prev a F" "c = modified_dir a" "only_at c F F'"
    and "coll_ok (F0 c) (insert a (set prev)) c (F' c) (F' (bak c))"
    and "coll_fwd (F0 c) (insert a (set prev)) c (F' c) (F' (bak c))"
  shows "forward F0 (insert a (set prev)) F'"
  by (rule forward_update[of F0 "set prev" F a c F'])
    (use assms starts_clean[OF assms(1)] in \<open>auto simp: starts_def\<close>)

lemma only_at_simps [simp]:
  "only_at c F F" "only_at c F (F(c := x))" "only_at c F (F(c := x, bak c := y))"
  "only_at c F (F(bak c := x, c := y))" "only_at c F (F(bak c := x))"
  by (simp_all add: only_at_def)

lemma coll_fwd_key_op:
  "coll_fwd f0 dn c x y \<Longrightarrow> key_op a \<Longrightarrow> modified_dir a = c \<Longrightarrow> coll_fwd f0 (insert a dn) c x' y"
  by (auto simp: coll_fwd_def split: option.splits)

lemma coll_okE:
  assumes "coll_ok f0 dn c x y"
  obtains "loose f0 dn c y"
  | "f0 = None" "x = None" "y = None"
  | m where "f0 = None" "created dn c" "x = Some m" "dom m \<subseteq> written dn c" "y = None"
  | m0 m where "f0 = Some m0" "x = Some m" "partial m0 (written dn c) m" "y = None"
  using assms by (auto simp: coll_ok_def loose_def split: option.splits)

text \<open>Changes of the collection's own directory.\<close>

lemma starts_dir_undoable:
  assumes "starts F0 prev a F" "c = modified_dir a" "coll_ok (F0 c) (insert a (set prev)) c x (F (bak c))"
  shows "undoable F0 (insert a (set prev)) (F(c := x))"
  by (rule starts_undoable[OF assms(1,2)]) (use assms(3) in auto)

lemma starts_dir_forward:
  assumes "starts F0 prev a F" "c = modified_dir a" "coll_ok (F0 c) (insert a (set prev)) c x (F (bak c))" "key_op a"
  shows "forward F0 (insert a (set prev)) (F(c := x))"
  by (rule starts_forward[OF assms(1,2)])
    (use assms coll_fwd_key_op[OF starts_coll(2)[OF assms(1,2)] assms(4), of x] in auto)

lemma starts_same:
  assumes "starts F0 prev a F" "c = modified_dir a"
  shows "coll_ok (F0 c) (insert a (set prev)) c (F c) (F (bak c))" "undoable F0 (insert a (set prev)) F"
proof -
  show ok: "coll_ok (F0 c) (insert a (set prev)) c (F c) (F (bak c))"
    by (rule coll_ok_mono[OF starts_coll(1)[OF assms]]) auto
  show "undoable F0 (insert a (set prev)) F" using starts_dir_undoable[OF assms ok] by simp
qed

section \<open>Write\<close>

lemma partial_write:
  assumes "partial m0 W m" "W \<subseteq> W'" "k \<in> W'" "clean_name k" "\<not> is_tmp k" "m0 k = None"
  shows "partial m0 W' (m(k \<mapsto> v))"
proof -
  have "bak n \<noteq> k" if "is_bak n \<or> clean_name n" for n
    using that assms(4) is_bak_twice[of n] clean_bak(1)[of n] clean_bak(2)[of k] by metis
  moreover have "k \<noteq> []" using assms(4) by (simp add: clean_name_def)
  ultimately show ?thesis using partial_mono[OF assms(1,2)] assms(3-6)
    by (auto simp: partial_def split: option.splits)
qed

lemma write_local:
  assumes ok: "coll_ok f0 dn c x y" and sub: "dn \<subseteq> dn'" and new: "k \<notin> written dn c" "k \<in> written dn' c"
    and k: "clean_name k" "\<not> is_tmp k" "case f0 of None \<Rightarrow> created dn c \<or> copied dn c | Some m0 \<Rightarrow> m0 k = None"
  shows "loose f0 dn' c y \<or> (or_empty x k = None \<and>
    (\<forall>v. coll_ok f0 dn' c (Some (or_empty x)) y \<and> coll_ok f0 dn' c (Some ((or_empty x)(k := Some v))) y))"
  using ok
proof (cases rule: coll_okE)
  case 1
  then show ?thesis using loose_mono[OF _ sub] by blast
next
  case 2
  then show ?thesis using k sub new(2)
    by (auto simp: coll_ok_def loose_def or_empty_def created_def copied_def)
next
  case (3 m)
  then have "m k = None" "created dn' c" "dom m \<subseteq> written dn' c"
    using new(1) sub written_mono[OF sub, of c] by (auto simp: created_def)
  then show ?thesis using 3 new(2) by (auto simp: coll_ok_def or_empty_def)
next
  case (4 m0 m)
  then have "m k = None" using new(1) k by (auto simp: partial_def)
  moreover have "partial m0 (written dn' c) m" using 4 written_mono[OF sub] partial_mono by blast
  moreover have "partial m0 (written dn' c) (m(k \<mapsto> v))" for v
    using 4 k new(2) by (intro partial_write[OF _ written_mono[OF sub]]) auto
  ultimately show ?thesis using 4 by (auto simp: coll_ok_def or_empty_def)
qed

lemma created_or_copied:
  assumes "list_ex (creates c) prev" "list_all (op_ok F0) prev" "F0 c = None"
  shows "created (set prev) c \<or> copied (set prev) c"
proof -
  obtain x where x: "x \<in> set prev" "creates c x" "op_ok F0 x"
    using assms by (auto simp: list_ex_iff list_all_iff)
  then show ?thesis using assms(3) by (cases x rule: operation.exhaust) (auto simp: created_def copied_def)
qed

lemma write_triple:
  assumes st: "starts F0 prev a F" and a: "a = Write cn k p"
  shows "triple flt (is_state F w s) (apply_operation flt a) (ahead F0 (insert a (set prev)) w)
    (\<lambda>_. behind F0 (insert a (set prev)) w)"
proof -
  define c where "c = as_str cn"
  have c: "c = modified_dir a" "clean_name c" using a starts_clean[OF st] by (simp_all add: c_def)
  let ?dn = "insert a (set prev)"
  have "case F0 c of None \<Rightarrow> created (set prev) c \<or> copied (set prev) c | Some m0 \<Rightarrow> m0 k = None"
    "k \<notin> written (set prev) c" "clean_name k" "\<not> is_tmp k"
    using st created_or_copied[of c prev F0]
    by (auto simp: a starts_def step_ok_def c_def written_def list_all_iff split: option.splits)
  moreover have "k \<in> written ?dn c" by (simp add: written_def a c_def)
  ultimately have loc: "loose (F0 c) ?dn c (F (bak c)) \<or> (or_empty (F c) k = None \<and>
    (\<forall>v. coll_ok (F0 c) ?dn c (Some (or_empty (F c))) (F (bak c)) \<and>
         coll_ok (F0 c) ?dn c (Some ((or_empty (F c))(k := Some v))) (F (bak c))))"
    by (intro write_local[OF starts_coll(1)[OF st c(1)]]) auto
  note und = starts_dir_undoable[OF st c(1)] and und0 = starts_same(2)[OF st c(1)]
  have "key_op a" by (simp add: a)
  note fw = starts_dir_forward[OF st c(1) _ this]
  note goal_simps = is_state_def ahead_def behind_def or_empty_case a[symmetric]
  show ?thesis
  proof (cases "loose (F0 c) ?dn c (F (bak c))")
    case True
    show ?thesis unfolding a apply_operation.simps backup_file_def c_def[symmetric]
      by (rule triple_pre, (rule wp_io)+)
        (use und0 in \<open>auto simp: goal_simps intro!: und fw loose_coll_ok[OF True]\<close>)
  next
    case False
    show ?thesis unfolding a apply_operation.simps backup_file_def c_def[symmetric]
      by (rule triple_pre, (rule wp_io)+) (use loc und0 False in \<open>auto simp: goal_simps intro!: und fw\<close>)
  qed
qed

section \<open>Delete\<close>

lemma partial_backup:
  assumes "partial m0 W m" "clean_name k" "k \<notin> W" "m k = Some v"
  shows "partial m0 W (m(k := None, bak k \<mapsto> v))"
proof -
  have "m0 k = Some v" "m (bak k) = None" using assms by (auto simp: partial_def split: option.splits)
  moreover have "bak n \<noteq> k" if "is_bak n \<or> clean_name n" for n
    using that assms(2) is_bak_twice[of n] clean_bak(1)[of n] clean_bak(2)[of k] by metis
  moreover have "n \<noteq> bak k" if "is_tmp n \<or> clean_name n" for n
    using that assms(2) by (auto simp: clean_name_def)
  ultimately show ?thesis using assms(1,2)
    by (auto simp: partial_def split: option.splits)
qed

lemma delete_local:
  assumes ok: "coll_ok f0 dn c x y" and sub: "dn \<subseteq> dn'" and k: "clean_name k" "k \<notin> written dn c"
  shows "loose f0 dn' c y \<or> (\<forall>m v. x = Some m \<longrightarrow> m k = Some v \<longrightarrow>
    coll_ok f0 dn' c (Some (m(k := None, bak k \<mapsto> v))) y)"
  using ok
proof (cases rule: coll_okE)
  case 1
  then show ?thesis using loose_mono[OF _ sub] by blast
next
  case (4 m0 m)
  then have "partial m0 (written dn' c) (m(k := None, bak k \<mapsto> v))" if "m k = Some v" for v
    using partial_mono[OF partial_backup[OF 4(3) k that] written_mono[OF sub]] by blast
  then show ?thesis using 4 by (simp add: coll_ok_def)
qed (use k in auto)

lemma delete_triple:
  assumes st: "starts F0 prev a F" and a: "a = Delete cn k"
  shows "triple flt (is_state F w s) (apply_operation flt a) (ahead F0 (insert a (set prev)) w)
    (\<lambda>_. behind F0 (insert a (set prev)) w)"
proof -
  define c where "c = as_str cn"
  have c: "c = modified_dir a" using a by (simp add: c_def)
  let ?dn = "insert a (set prev)"
  have k: "clean_name k" "k \<notin> written (set prev) c"
    using st by (auto simp: a starts_def step_ok_def c_def written_def list_all_iff)
  note und = starts_dir_undoable[OF st c] and same = starts_same[OF st c]
  have "key_op a" by (simp add: a)
  note fw = starts_dir_forward[OF st c _ this]
  have fw0: "forward F0 ?dn F" using fw[OF same(1)] by simp
  have loc: "loose (F0 c) ?dn c (F (bak c)) \<or> (\<forall>m v. F c = Some m \<longrightarrow> m k = Some v \<longrightarrow>
      coll_ok (F0 c) ?dn c (Some (m(k := None, bak k \<mapsto> v))) (F (bak c)))"
    by (rule delete_local[OF starts_coll(1)[OF st c] _ k]) auto
  show ?thesis unfolding a apply_operation.simps backup_file_def c_def[symmetric]
    by (rule triple_pre, (rule wp_io)+)
      (use loc same(2) fw0 in \<open>auto simp: is_state_def ahead_def behind_def a[symmetric] intro!: fw dest: loose_coll_ok\<close>)
qed

section \<open>Create and delete a collection\<close>

lemma create_triple:
  assumes st: "starts F0 prev a F" and a: "a = CreateCollection cn"
  shows "triple flt (is_state F w s) (apply_operation flt a) (ahead F0 (insert a (set prev)) w)
    (\<lambda>_. behind F0 (insert a (set prev)) w)"
proof -
  define c where "c = as_str cn"
  have c: "c = modified_dir a" using a by (simp add: c_def)
  let ?dn = "insert a (set prev)"
  have f0: "F0 c = None" using st by (auto simp: a starts_def step_ok_def c_def)
  have "created ?dn c" by (auto simp: created_def a c_def)
  then have ok: "coll_ok (F0 c) ?dn c (Some (or_empty (F c))) (F (bak c))"
    using starts_same(1)[OF st c] by (auto simp: coll_ok_def f0 or_empty_def)
  have "forward F0 ?dn (F(c \<mapsto> or_empty (F c)))"
    by (rule starts_forward[OF st c]) (use ok in \<open>auto simp: coll_fwd_def f0\<close>)
  then show ?thesis unfolding a apply_operation.simps c_def[symmetric]
    by (intro triple_pre[OF triple_create_dir])
      (use starts_same(2)[OF st c] in \<open>auto simp: is_state_def ahead_def behind_def or_empty_case a[symmetric]\<close>)
qed

text \<open>A collection that no operation has touched is as it was.\<close>

lemma starts_whole:
  assumes st: "starts F0 prev a F" and c: "c = modified_dir a" and "whole a"
  shows "F c = F0 c" "F (bak c) = None"
proof -
  have no: "modified_dir x \<noteq> c" if "x \<in> set prev" for x
    using st that assms(3) c by (cases a) (auto simp: starts_def step_ok_def list_all_iff)
  then have "\<not> copied (set prev) c" "\<not> created (set prev) c"
    unfolding copied_def created_def using modified_dir.simps by metis+
  with no starts_coll[OF st c] show "F c = F0 c" "F (bak c) = None"
    by (auto simp: coll_ok_def coll_fwd_def split: option.splits)
qed

lemma backup_dir_triple:
  assumes st: "starts F0 prev a F" and c: "c = modified_dir a" and a: "whole a"
    and E: "F c \<noteq> None \<Longrightarrow> E True F w s"
  shows "triple flt (is_state F w s) (backup_dir flt c) (is_state (F(c := None, bak c := F0 c)) w s) E"
  unfolding backup_dir_def
  by (rule triple_pre, (rule wp_io)+)
    (use starts_whole[OF st c a] E in \<open>auto simp: is_state_def fun_upd_idem\<close>)

lemma delete_collection_triple:
  assumes st: "starts F0 prev a F" and a: "a = DeleteCollection cn"
  shows "triple flt (is_state F w s) (apply_operation flt a) (ahead F0 (insert a (set prev)) w)
    (\<lambda>_. behind F0 (insert a (set prev)) w)"
proof -
  define c where "c = as_str cn"
  have c: "c = modified_dir a" "whole a" using a by (simp_all add: c_def)
  have "forward F0 (insert a (set prev)) (F(c := None, bak c := F0 c))"
    by (rule starts_forward[OF st c(1)])
      (use c in \<open>auto simp: coll_ok_def coll_fwd_def split: option.splits\<close>)
  then show ?thesis unfolding a apply_operation.simps c_def[symmetric]
    by (intro triple_weaken[OF backup_dir_triple[OF st c, where E = "\<lambda>_. behind F0 (insert a (set prev)) w"]])
      (use starts_same(2)[OF st c(1)] in \<open>auto simp: is_state_def ahead_def behind_def a\<close>)
qed

section \<open>Copy\<close>

text \<open>Any work on the directory of a collection that is loose.\<close>

definition differs_at :: "files \<Rightarrow> string \<Rightarrow> byte list option \<Rightarrow> assn" where
  "differs_at F c w F' w' s' \<longleftrightarrow> (\<exists>m. F' = F(c \<mapsto> m)) \<and> w' = w"

lemma copy_dir_contents_differs:
  "triple flt (differs_at F dst w) (copy_dir_contents flt src dst) (differs_at F dst w) (\<lambda>_. differs_at F dst w)"
  unfolding copy_dir_contents_def
proof (rule triple_query)
  fix d assume d: "on (differs_at F dst w) d"
  have copy: "triple flt (differs_at F dst w) (mutate flt (copy_file src dst k)) (differs_at F dst w)
      (\<lambda>_. differs_at F dst w)" for k
    by (rule triple_pre[OF triple_copy_file]) (auto simp: differs_at_def)
  have "triple flt (differs_at F dst w) (case coll d src of None \<Rightarrow> fail (Io IoNotFound)
       | Some al \<Rightarrow> for_io (\<lambda>k. mutate flt (copy_file src dst k)) (listing al)) (differs_at F dst w)
      (\<lambda>_. differs_at F dst w)"
    by (auto intro: triple_fail[of flt "\<lambda>_. differs_at F dst w"] triple_for_inv copy split: option.splits)
  then show "triple flt (\<lambda>F w s. F = fs d \<and> w = wal_file d \<and> s = map_of (staging d))
     (case coll d src of None \<Rightarrow> fail (Io IoNotFound)
       | Some al \<Rightarrow> for_io (\<lambda>k. mutate flt (copy_file src dst k)) (listing al)) (differs_at F dst w)
      (\<lambda>_. differs_at F dst w)"
    by (rule triple_pre) (use d in \<open>auto simp: on_def\<close>)
qed

lemma backup_all_differs:
  "triple flt (differs_at F c w) (backup_all_files_in_dir flt c) (differs_at F c w) (\<lambda>_. differs_at F c w)"
  unfolding backup_all_files_in_dir_def
proof (rule triple_query)
  fix d assume d: "on (differs_at F c w) d"
  have step: "triple flt (differs_at F c w) (mutate flt (rename_file c k k')) (differs_at F c w)
      (\<lambda>_. differs_at F c w)" for k k'
    by (rule triple_pre[OF triple_rename_file]) (auto simp: differs_at_def)
  show "triple flt (\<lambda>F w s. F = fs d \<and> w = wal_file d \<and> s = map_of (staging d))
      (for_io (\<lambda>k. mutate flt (rename_file c k (bak k))) (listing (the (coll d c)))) (differs_at F c w)
      (\<lambda>_. differs_at F c w)"
    by (rule triple_pre[OF triple_for_inv[OF step]]) (use d in \<open>auto simp: on_def\<close>)
qed

lemma copy_triple:
  assumes st: "starts F0 prev a F" and a: "a = CopyCollection src cn ex"
  shows "triple flt (is_state F w s) (apply_operation flt a) (ahead F0 (insert a (set prev)) w)
    (\<lambda>_. behind F0 (insert a (set prev)) w)"
proof -
  define c where "c = as_str cn"
  have c: "c = modified_dir a" "whole a" using a by (simp_all add: c_def)
  let ?dn = "insert a (set prev)" and ?F = "F(c := None, bak c := F0 c)"
  have "ex \<longleftrightarrow> F0 c \<noteq> None" using st by (auto simp: a starts_def step_ok_def c_def)
  then have l: "loose (F0 c) ?dn c (F0 c)" by (auto simp: loose_def copied_def a c_def split: option.splits)
  have fw: "forward F0 ?dn (?F(c := x))" for x
    by (rule starts_forward[OF st c(1)])
      (use c loose_coll_ok[OF l] in \<open>auto simp: coll_fwd_def only_at_def split: option.splits\<close>)
  then have und: "undoable F0 ?dn (?F(c := x))" for x by (auto simp: forward_def)
  have und1: "undoable F0 ?dn ?F" using und[of None] by (simp add: fun_upd_twist)
  have copy: "triple flt (differs_at ?F c w) (copy_dir_contents flt (as_str src) c) (ahead F0 ?dn w)
      (\<lambda>_. behind F0 ?dn w)"
    by (rule triple_weaken[OF copy_dir_contents_differs])
      (use fw und in \<open>auto simp: differs_at_def ahead_def behind_def\<close>)
  have create: "triple flt (is_state ?F w s) (mutate flt (create_dir c)) (differs_at ?F c w) (\<lambda>_. behind F0 ?dn w)"
    by (rule triple_pre[OF triple_create_dir]) (use und1 in \<open>auto simp: is_state_def differs_at_def behind_def\<close>)
  have bk: "triple flt (is_state F w s) (backup_dir flt c) (is_state ?F w s) (\<lambda>_. behind F0 ?dn w)"
    by (rule backup_dir_triple[OF st c]) (use starts_same(2)[OF st c(1)] in \<open>simp add: behind_def\<close>)
  show ?thesis
    using triple_then[OF triple_then[OF copy create] bk] by (simp add: a c_def[symmetric])
qed

section \<open>Delete all\<close>

lemma partial_self:
  assumes "partial m0 W m0" "m0 k \<noteq> None"
  shows "clean_name k"
proof -
  have "k \<noteq> []" using assms by (auto simp: partial_def)
  moreover have False if b: "is_bak k"
  proof -
    obtain n where n: "n \<noteq> []" "k = bak n" using b by (auto elim: is_bak_cases)
    then have "m0 (bak n) = None"
      using assms(1) by (cases "is_bak n"; cases "m0 n") (auto simp: partial_def clean_name_def)
    then show False using assms(2) n by simp
  qed
  ultimately show ?thesis by (auto simp: clean_name_def)
qed

lemma backup_all_partial:
  assumes m0: "partial m0 W m0" "F c = Some m0" and W: "dom m0 \<inter> W = {}"
  shows "triple flt (is_state F w s) (backup_all_files_in_dir flt c)
    (\<lambda>F' w' s'. (\<exists>m. F' = F(c \<mapsto> m) \<and> partial m0 W m) \<and> w' = w)
    (\<lambda>_ F' w' s'. (\<exists>m. F' = F(c \<mapsto> m) \<and> partial m0 W m) \<and> w' = w)"
  unfolding backup_all_files_in_dir_def
proof (rule triple_query_state)
  fix d assume d: "fs d = F"
  let ?names = "listing (the (coll d c))"
  have names: "set ?names = dom m0" using m0(2) d by (intro listing_coll_fs) simp
  let ?I = "\<lambda>done F' w' s'. \<exists>m. F' = F(c \<mapsto> m) \<and> w' = w \<and> partial m0 W m \<and> (\<forall>k\<in>dom m0 - set done. m k = m0 k)"
  let ?E = "\<lambda>(_::bool) F' w' s'. (\<exists>m. F' = F(c \<mapsto> m) \<and> partial m0 W m) \<and> w' = w"
  have "triple flt (?I []) (for_io (\<lambda>k. mutate flt (rename_file c k (bak k))) ?names) (?I ?names) ?E"
  proof (rule triple_for)
    fix "done" k rest assume n: "?names = done @ k # rest"
    then have k: "k \<in> dom m0 - set done" using distinct_listing[of "the (coll d c)"] names by auto
    then have ck: "clean_name k" "k \<notin> W" using partial_self[OF m0(1), of k] W by auto
    have nb: "bak k \<notin> dom m0" using partial_self[OF m0(1), of "bak k"] clean_bak[OF ck(1)] clean_bak(2) by blast
    have keep: "\<exists>m'. F(c \<mapsto> m(k := None, bak k \<mapsto> v)) = F(c \<mapsto> m') \<and> partial m0 W m' \<and>
        (\<forall>n\<in>dom m0 - insert k (set done). m' n = m0 n)"
      if "partial m0 W m" "\<forall>n\<in>dom m0 - set done. m n = m0 n" "m k = Some v" for m v
      using partial_backup[OF that(1) ck that(3)] that(2) nb
      by (intro exI[of _ "m(k := None, bak k \<mapsto> v)"]) auto
    have "m k \<noteq> None" if "\<forall>n\<in>dom m0 - set done. m n = m0 n" for m using that k by auto
    with keep show "triple flt (?I done) (mutate flt (rename_file c k (bak k))) (?I (done @ [k])) ?E"
      by (intro triple_pre[OF triple_rename_file]) auto
  qed
  then show "triple flt (is_state F w s) (for_io (\<lambda>k. mutate flt (rename_file c k (bak k))) ?names) (?E False) ?E"
    by (rule triple_weaken) (use m0 in \<open>auto simp: is_state_def fun_upd_idem intro: exI[of _ m0]\<close>)
qed

lemma writes_key_op: "writes_key c k x \<Longrightarrow> key_op x \<and> modified_dir x = c"
  by (cases x) auto

lemma delete_all_triple:
  assumes st: "starts F0 prev a F" and a: "a = DeleteAll cn"
  shows "triple flt (is_state F w s) (apply_operation flt a) (ahead F0 (insert a (set prev)) w)
    (\<lambda>_. behind F0 (insert a (set prev)) w)"
proof -
  define c where "c = as_str cn"
  have c: "c = modified_dir a" using a by (simp add: c_def)
  let ?dn = "insert a (set prev)"
  note und = starts_dir_undoable[OF st c] and same = starts_same[OF st c]
  have "key_op a" by (simp add: a)
  note fw = starts_dir_forward[OF st c _ this]
  have no: "\<not> (\<exists>x\<in>set prev. key_op x \<and> modified_dir x = c)"
    using st by (auto simp: a starts_def step_ok_def c_def list_all_iff)
  then have nw: "written (set prev) c = {}"
    unfolding written_def by (blast dest: writes_key_op)
  have body: "triple flt (is_state F w s) (backup_all_files_in_dir flt c) (ahead F0 ?dn w) (\<lambda>_. behind F0 ?dn w)"
    if m: "F c = Some m" for m
    using starts_coll(1)[OF st c]
  proof (cases rule: coll_okE)
    case 1
    then have "coll_ok (F0 c) ?dn c x (F (bak c))" for x
      by (rule loose_coll_ok[OF loose_mono[OF _ subset_insertI]])
    then show ?thesis using m
      by (intro triple_weaken[OF backup_all_differs[of flt F c w]])
        (auto simp: is_state_def differs_at_def ahead_def behind_def fun_upd_idem intro: fw und exI[of _ m])
  next
    case (3 m')
    then have "F c = Some Map.empty" using nw by auto
    have "set (listing (the (coll d c))) = {}" if "fs d = F" for d
      using listing_coll_fs[of d c Map.empty] that \<open>F c = Some Map.empty\<close> by simp
    then have "listing (the (coll d c)) = []" if "fs d = F" for d using that by (metis set_empty)
    moreover have "triple flt (is_state F w s) (ret ()) (ahead F0 ?dn w) (\<lambda>_. behind F0 ?dn w)"
      by (rule triple_pre[OF triple_ret]) (use fw[OF same(1)] in \<open>auto simp: is_state_def ahead_def\<close>)
    ultimately show ?thesis unfolding backup_all_files_in_dir_def by (intro triple_query_state) simp
  next
    case (4 m0 m')
    then have "F c = Some m0" using starts_coll(2)[OF st c] no by (auto simp: coll_fwd_def)
    then have p: "partial m0 {} m0" using 4 nw by simp
    have ok: "coll_ok (F0 c) ?dn c (Some m') (F (bak c))" if "partial m0 {} m'" for m'
      using that 4 partial_mono by (auto simp: coll_ok_def)
    show ?thesis
      by (rule triple_weaken[OF backup_all_partial[of m0 "{}" F c flt w s]])
        (use p \<open>F c = Some m0\<close> ok in \<open>auto simp: ahead_def behind_def intro!: fw und\<close>)
  qed (use m in auto)
  have fw0: "forward F0 ?dn F" using fw[OF same(1)] by simp
  show ?thesis
  proof (cases "F c")
    case None
    then show ?thesis unfolding a apply_operation.simps c_def[symmetric]
      by (intro triple_query_state)
        (use fw0 in \<open>auto simp: dir_exists_fs whenIO_def a is_state_def ahead_def intro: triple_pre[OF triple_ret]\<close>)
  next
    case (Some m)
    show ?thesis unfolding a apply_operation.simps c_def[symmetric]
      by (rule triple_query_state) (use body[OF Some] in \<open>simp add: dir_exists_fs whenIO_def Some a\<close>)
  qed
qed

section \<open>All operations\<close>

lemma apply_operation_triple:
  assumes "starts F0 prev a F"
  shows "triple flt (is_state F w s) (apply_operation flt a) (ahead F0 (insert a (set prev)) w)
    (\<lambda>_. behind F0 (insert a (set prev)) w)"
  using write_triple[OF assms] delete_triple[OF assms] delete_all_triple[OF assms] create_triple[OF assms]
    delete_collection_triple[OF assms] copy_triple[OF assms]
  by (cases a) blast+

text \<open>
  Applying a valid transaction: at the end, and wherever it stops, the collections are undoable.
\<close>

lemma apply_operations_triple:
  assumes "valid_tx F0 opers"
  shows "triple flt (ahead F0 {} w) (apply_operations flt opers) (ahead F0 (set opers) w)
    (\<lambda>_. behind F0 (set opers) w)"
proof -
  have "triple flt (ahead F0 (set []) w) (for_io (apply_operation flt) opers) (ahead F0 (set opers) w)
      (\<lambda>_. behind F0 (set opers) w)"
  proof (rule triple_for)
    fix prev a rest assume o: "opers = prev @ a # rest"
    have step: "triple flt (is_state F w s) (apply_operation flt a) (ahead F0 (set (prev @ [a])) w)
        (\<lambda>_. behind F0 (set opers) w)" if "forward F0 (set prev) F" for F s
    proof -
      have "step_ok F0 prev a" "list_all (op_ok F0) prev"
        using assms o valid_tx_split valid_tx_op_ok[OF assms] by (auto simp: list_all_iff)
      then have "starts F0 prev a F" using that by (simp add: starts_def)
      then show ?thesis
        by (intro triple_weaken[OF apply_operation_triple])
          (auto simp: o behind_def elim: undoable_mono)
    qed
    show "triple flt (ahead F0 (set prev) w) (apply_operation flt a) (ahead F0 (set (prev @ [a])) w)
        (\<lambda>_. behind F0 (set opers) w)"
    proof (rule triple_from_states)
      fix F w' s assume "ahead F0 (set prev) w F w' s"
      then have "forward F0 (set prev) F" "w' = w" by (simp_all add: ahead_def)
      then show "triple flt (is_state F w' s) (apply_operation flt a) (ahead F0 (set (prev @ [a])) w)
          (\<lambda>_. behind F0 (set opers) w)" using step by simp
    qed
  qed
  then show ?thesis by (simp add: apply_operations_def)
qed

end
