(* ===== verification/Storage_Rollback.thy ===== *)
theory Storage_Rollback
  imports Storage_Forward
begin

text \<open>
  The rollback of a valid transaction: undoing the operations in reverse order, then restoring the
  backups. From any undoable state it ends in the original contents, only an injected fault can stop
  it, and a state in which it was stopped is still undoable.
\<close>

section \<open>Undoing one operation\<close>

lemma dir_changes:
  assumes "modified_dir a \<noteq> n"
  shows "written (insert a dn) n = written dn n" "copied (insert a dn) n = copied dn n"
    "created (insert a dn) n = created dn n"
  using assms by (auto simp: written_def copied_def created_def dest: writes_key_op)

lemma undoable_shrink:
  assumes "undoable F0 (insert a dn) F" "c = modified_dir a" "clean_name c" "only_at c F F'"
    and "coll_ok (F0 c) dn c (F' c) (F' (bak c))"
  shows "undoable F0 dn F'"
proof -
  have "undoable F0 (insert a dn) F'"
    by (rule undoable_update[of F0 "insert a dn" F c F'])
      (use assms coll_ok_mono[OF assms(5) subset_insertI] in auto)
  moreover have "coll_ok f0 dn n x y" if "coll_ok f0 (insert a dn) n x y" "n \<noteq> c" for f0 n x y
    using that(1) dir_changes[of a n dn] that(2) assms(2) by (simp add: coll_ok_def cong: option.case_cong)
  ultimately show ?thesis using assms(5) unfolding undoable_def by metis
qed

text \<open>Operations that only make backups leave no other trace in the invariant.\<close>

lemma backup_only_traces:
  assumes "\<not> (\<exists>c k p. a = Write c k p)" "\<not> (\<exists>c. a = CreateCollection c)" "\<not> (\<exists>src c. a = CopyCollection src c False)"
  shows "undoable F0 (insert a dn) F = undoable F0 dn F"
proof -
  have "written (insert a dn) = written dn"
    using assms(1) by (cases a) (auto simp: written_def fun_eq_iff)
  moreover have "copied (insert a dn) = copied dn" "created (insert a dn) = created dn"
    using assms(2,3) by (auto simp: copied_def created_def fun_eq_iff)
  ultimately show ?thesis by (simp add: undoable_def coll_ok_def cong: option.case_cong)
qed

lemma partial_unwrite:
  assumes p: "partial m0 (insert k W) m" and k: "clean_name k" "m0 k = None"
  shows "partial m0 W (m(k := None))"
proof -
  have bk: "bak n \<noteq> k" if "clean_name n" for n using that k(1) clean_bak by blast
  show ?thesis unfolding partial_def
  proof (intro conjI allI impI)
    fix n assume n: "clean_name n"
    show "case m0 n of
        Some x \<Rightarrow> (m(k := None)) n = Some x \<and> (m(k := None)) (bak n) = None \<or>
          (m(k := None)) n = None \<and> (m(k := None)) (bak n) = Some x
      | None \<Rightarrow> (m(k := None)) (bak n) = None \<and> ((m(k := None)) n = None \<or> n \<in> W)"
      using p k n bk[OF n] by (auto simp: partial_def split: option.splits)
  qed (use p in \<open>auto simp: partial_def\<close>)
qed

lemma undo_write_local:
  assumes ok: "coll_ok f0 dn' c x y" and W: "written dn' c = insert k (written dn c)"
    and same: "copied dn' c = copied dn c" "created dn' c = created dn c"
    and k: "clean_name k" "bak k \<notin> written dn' c" "case f0 of None \<Rightarrow> True | Some m0 \<Rightarrow> m0 k = None"
  shows "(\<forall>m. x = Some m \<longrightarrow> m k = None \<or> m (bak k) \<noteq> None \<longrightarrow> coll_ok f0 dn c x y) \<and>
    (\<forall>m. x = Some m \<longrightarrow> coll_ok f0 dn c (Some (m(k := None))) y) \<and> (x = None \<longrightarrow> coll_ok f0 dn c x y)"
  using ok
proof (cases rule: coll_okE)
  case 1
  then have "loose f0 dn c y" using same by (simp add: loose_def split: option.splits)
  then show ?thesis by (simp add: loose_coll_ok)
next
  case 2
  then show ?thesis by (simp add: coll_ok_def)
next
  case (3 m)
  have "m (bak k) = None" using 3(4) k(2) by blast
  moreover have "dom m \<subseteq> written dn c" if "m k = None" using 3(4) that W by (auto simp: dom_def)
  moreover have "dom m - {k} \<subseteq> written dn c" using 3(4) W by auto
  ultimately show ?thesis using 3 same by (auto simp: coll_ok_def)
next
  case (4 m0 m)
  have "m (bak k) = None" using 4 k by (auto simp: partial_def)
  moreover have u: "partial m0 (written dn c) (m(k := None))"
    by (rule partial_unwrite) (use 4(1,3) k W in auto)
  moreover have "partial m0 (written dn c) m" if "m k = None"
    using u that by (simp add: fun_upd_idem)
  ultimately show ?thesis using 4 by (auto simp: coll_ok_def)
qed

text \<open>The assertions of the rollback: only a fault stops it, and then the state is undoable.\<close>

definition stopped :: "files \<Rightarrow> operation set \<Rightarrow> byte list option \<Rightarrow> bool \<Rightarrow> assn" where
  "stopped F0 dn w0 b F w s \<longleftrightarrow> b \<and> behind F0 dn w0 F w s"

lemma undo_write_triple:
  assumes un: "undoable F0 (insert a (set prev)) F" and a: "a = Write cn k p" and ok: "op_ok F0 a"
    and prev: "list_all (op_ok F0) prev"
  shows "triple flt (is_state F w s) (remove_new_artifact flt a) (behind F0 (set prev) w)
    (stopped F0 (insert a (set prev)) w)"
proof -
  define c where "c = as_str cn"
  have c: "c = modified_dir a" "clean_name c" "clean_name k" using a ok by (simp_all add: c_def)
  let ?dn = "insert a (set prev)"
  have nb: "bak k \<notin> written ?dn c"
  proof
    assume "bak k \<in> written ?dn c"
    then obtain x where x: "op_ok F0 x" "writes_key c (bak k) x"
      using prev ok by (auto simp: written_def list_all_iff)
    then have "clean_name (bak k)" by (cases x) auto
    then show False using c(3) clean_bak by blast
  qed
  have W: "written ?dn c = insert k (written (set prev) c)" by (auto simp: written_def a c_def)
  have same: "copied ?dn c = copied (set prev) c" "created ?dn c = created (set prev) c"
    by (auto simp: a copied_def created_def)
  have fresh: "case F0 c of None \<Rightarrow> True | Some m0 \<Rightarrow> m0 k = None" using ok by (auto simp: a c_def)
  have loc: "(\<forall>m. F c = Some m \<longrightarrow> m k = None \<or> m (bak k) \<noteq> None \<longrightarrow> coll_ok (F0 c) (set prev) c (F c) (F (bak c))) \<and>
      (\<forall>m. F c = Some m \<longrightarrow> coll_ok (F0 c) (set prev) c (Some (m(k := None))) (F (bak c))) \<and>
      (F c = None \<longrightarrow> coll_ok (F0 c) (set prev) c (F c) (F (bak c)))"
    by (rule undo_write_local[OF undoable_at[OF un c(2)] W same c(3) nb fresh])
  have und: "undoable F0 (set prev) (F(c := x))" if "coll_ok (F0 c) (set prev) c x (F (bak c))" for x
    by (rule undoable_shrink[OF un c(1,2)]) (use that in auto)
  have und0: "undoable F0 (set prev) F" if "coll_ok (F0 c) (set prev) c (F c) (F (bak c))"
    using und[OF that] by simp
  let ?q = "\<lambda>d. file_exists d c k \<and> \<not> file_exists d c (bak k)"
  have q: "?q d = (\<exists>m. fs d c = Some m \<and> m k \<noteq> None \<and> m (bak k) = None)" for d
    by (auto simp: file_exists_fs)
  show ?thesis
    unfolding a remove_new_artifact.simps c_def[symmetric]
    by (rule triple_pre[OF triple_ask[where g = "\<lambda>F w s. \<exists>m. F c = Some m \<and> m k \<noteq> None \<and> m (bak k) = None",
          OF q triple_when[OF triple_remove_file]]])
      (use loc un in \<open>auto simp: is_state_def behind_def stopped_def a[symmetric] intro!: und und0 split: if_splits\<close>,
       (cases "F c"; auto)+)
qed

text \<open>A key is only written to a new collection after the collection was created.\<close>

lemma written_has_creator:
  assumes v: "valid_tx F0 (prev @ rest)" and k: "k \<in> written (set prev) c" and f0: "F0 c = None"
  shows "created (set prev) c \<or> copied (set prev) c"
proof -
  have prev_ok: "list_all (op_ok F0) prev" using valid_tx_op_ok[OF v] by (simp add: list_all_iff)
  obtain x where x: "x \<in> set prev" "writes_key c k x" using k by (auto simp: written_def)
  then obtain cn p where w: "x = Write cn k p" "as_str cn = c" by (cases x rule: operation.exhaust) auto
  obtain pre post where "prev = pre @ x # post" using x(1) by (auto simp: in_set_conv_decomp)
  then have "step_ok F0 pre x" using v by (auto intro: valid_tx_split)
  then have "list_ex (creates c) pre" using w f0 by (auto simp: step_ok_def)
  then have "list_ex (creates c) prev" using \<open>prev = pre @ x # post\<close> by auto
  then show ?thesis using prev_ok f0 by (rule created_or_copied)
qed

lemma undo_create_triple:
  assumes un: "undoable F0 (insert a (set prev)) F" and a: "a = CreateCollection cn"
    and v: "valid_tx F0 (prev @ a # rest)"
  shows "triple flt (is_state F w s) (remove_new_artifact flt a) (behind F0 (set prev) w)
    (stopped F0 (insert a (set prev)) w)"
proof -
  define c where "c = as_str cn"
  let ?dn = "insert a (set prev)"
  have ok: "op_ok F0 a" using valid_tx_op_ok[OF v] by simp
  have c: "c = modified_dir a" "clean_name c" and f0: "F0 c = None" using a ok by (simp_all add: c_def)
  have same: "copied ?dn c = copied (set prev) c" "written ?dn c = written (set prev) c"
    by (auto simp: a copied_def written_def)
  have y: "F (bak c) = None" using undoable_at[OF un c(2)] f0 by (simp add: coll_ok_def)
  have loc: "coll_ok (F0 c) (set prev) c (F c) (F (bak c))" if "F c \<noteq> Some Map.empty"
  proof (cases "created (set prev) c \<or> copied (set prev) c")
    case True
    then show ?thesis using undoable_at[OF un c(2)] f0 same by (auto simp: coll_ok_def)
  next
    case False
    then have "written (set prev) c = {}" using written_has_creator[OF v _ f0] by blast
    then show ?thesis using undoable_at[OF un c(2)] f0 same False that by (auto simp: coll_ok_def)
  qed
  have und: "undoable F0 (set prev) (F(c := x))" if "coll_ok (F0 c) (set prev) c x (F (bak c))" for x
    by (rule undoable_shrink[OF un c]) (use that in auto)
  have removed: "undoable F0 (set prev) (F(c := None))" by (rule und) (simp add: coll_ok_def f0 y)
  have kept: "undoable F0 (set prev) F" if "F c \<noteq> Some Map.empty" using und[OF loc[OF that]] by simp
  have q: "(dir_exists d c \<and> is_dir_empty d c) = (fs d c = Some Map.empty)" for d
    by (auto simp: dir_exists_def is_dir_empty_def fs_def map_of_empty_iff)
  show ?thesis unfolding a remove_new_artifact.simps c_def[symmetric]
    by (rule triple_pre[OF triple_ask[where g = "\<lambda>F w s. F c = Some Map.empty", OF q triple_when[OF triple_remove_dir]]])
      (use removed kept un in \<open>auto simp: is_state_def behind_def stopped_def a[symmetric]\<close>)
qed

lemma undo_copy_triple:
  assumes un: "undoable F0 (insert a (set prev)) F" and a: "a = CopyCollection src cn ex" and ok: "op_ok F0 a"
  shows "triple flt (is_state F w s) (remove_new_artifact flt a) (behind F0 (set prev) w)
    (stopped F0 (insert a (set prev)) w)"
proof -
  define c where "c = as_str cn"
  let ?dn = "insert a (set prev)"
  have c: "c = modified_dir a" "clean_name c" and ex: "ex \<longleftrightarrow> F0 c \<noteq> None" using a ok by (simp_all add: c_def)
  show ?thesis
  proof (cases ex)
    case True
    then have "undoable F0 (set prev) F" using un backup_only_traces[of a F0 "set prev" F] by (simp add: a)
    then show ?thesis unfolding a remove_new_artifact.simps
      by (intro triple_query_state)
        (auto simp: True whenIO_def is_state_def behind_def intro: triple_pre[OF triple_ret])
  next
    case False
    then have f0: "F0 c = None" using ex by simp
    then have y: "F (bak c) = None" using undoable_at[OF un c(2)] by (simp add: coll_ok_def)
    have gone: "undoable F0 (set prev) (F(c := None))"
      by (rule undoable_shrink[OF un c]) (auto simp: coll_ok_def f0 y)
    have "copied ?dn c" using False by (auto simp: copied_def a c_def)
    then have any: "undoable F0 ?dn (F(c := x))" for x
      by (intro undoable_update[OF un c(2)]) (auto simp: coll_ok_def f0 y)
    show ?thesis
    proof (cases "F c")
      case None
      then show ?thesis unfolding a remove_new_artifact.simps c_def[symmetric]
        by (intro triple_query_state)
          (use gone in \<open>auto simp: dir_exists_fs whenIO_def is_state_def behind_def fun_upd_idem
            intro: triple_pre[OF triple_ret]\<close>)
    next
      case (Some m)
      have "triple flt (is_state F w s) (remove_dir_all flt c) (behind F0 (set prev) w) (stopped F0 ?dn w)"
        by (rule triple_weaken[OF triple_remove_dir_all[where F = F and c = c and m = m and w = w and s = s]])
          (use Some gone any in \<open>auto simp: is_state_def behind_def stopped_def fun_upd_idem\<close>)
      then show ?thesis unfolding a remove_new_artifact.simps c_def[symmetric]
        by (intro triple_query_state) (simp add: dir_exists_fs whenIO_def Some y False)
    qed
  qed
qed

lemma undo_triple:
  assumes un: "undoable F0 (insert a (set prev)) F" and v: "valid_tx F0 (prev @ a # rest)"
  shows "triple flt (is_state F w s) (remove_new_artifact flt a) (behind F0 (set prev) w)
    (stopped F0 (insert a (set prev)) w)"
proof -
  have ok: "op_ok F0 a" "list_all (op_ok F0) prev" using valid_tx_op_ok[OF v] by (simp_all add: list_all_iff)
  have other: "triple flt (is_state F w s) (ret ()) (behind F0 (set prev) w) (stopped F0 (insert a (set prev)) w)"
    if "undoable F0 (insert a (set prev)) F = undoable F0 (set prev) F"
    by (rule triple_pre[OF triple_ret]) (use un that in \<open>auto simp: is_state_def behind_def\<close>)
  show ?thesis
    using undo_write_triple[OF un _ ok] undo_create_triple[OF un _ v] undo_copy_triple[OF un _ ok(1)]
      other[OF backup_only_traces]
    by (cases a) auto
qed

lemma remove_new_artifacts_triple:
  assumes v: "valid_tx F0 opers"
  shows "triple flt (behind F0 (set opers) w) (remove_new_artifacts flt opers) (behind F0 {} w)
    (stopped F0 (set opers) w)"
proof -
  let ?I = "\<lambda>(done :: operation list). behind F0 (set (take (length opers - length done) opers)) w"
  have "triple flt (?I []) (for_io (remove_new_artifact flt) (rev opers)) (?I (rev opers)) (stopped F0 (set opers) w)"
  proof (rule triple_for)
    fix "done" a todo assume r: "rev opers = done @ a # todo"
    then have o: "opers = rev todo @ a # rev done" by (metis rev_rev_ident rev_append rev.simps(2) append_assoc append_Cons append_Nil)
    have t: "take (length opers - length done) opers = rev todo @ [a]"
      "take (length opers - length (done @ [a])) opers = rev todo" by (simp_all add: o)
    show "triple flt (?I done) (remove_new_artifact flt a) (?I (done @ [a])) (stopped F0 (set opers) w)"
      unfolding t
    proof (rule triple_from_states)
      fix F w' s assume "behind F0 (set (rev todo @ [a])) w F w' s"
      then have un: "undoable F0 (insert a (set (rev todo))) F" and "w' = w" by (simp_all add: behind_def)
      then show "triple flt (is_state F w' s) (remove_new_artifact flt a) (behind F0 (set (rev todo)) w)
          (stopped F0 (set opers) w)"
        by (intro triple_weaken[OF undo_triple[OF un v[unfolded o]]])
          (auto simp: o stopped_def behind_def elim: undoable_mono)
    qed
  qed
  then show ?thesis by (simp add: remove_new_artifacts_def)
qed

end
