(* ===== verification/Storage_Restore.thy ===== *)
theory Storage_Restore
  imports Storage_Rollback
begin

text \<open>
  Restoring the backups, after the new artifacts are gone: the collections are the original ones.
\<close>

section \<open>The files of one collection\<close>

definition clean_map :: "(string \<rightharpoonup> byte list) \<Rightarrow> bool" where
  "clean_map m0 \<longleftrightarrow> (\<forall>k\<in>dom m0. clean_name k \<and> \<not> is_tmp k)"

definition restored :: "string \<Rightarrow> (string \<rightharpoonup> byte list) \<Rightarrow> string \<rightharpoonup> byte list" where
  "restored e m = (if is_bak e then m(e := None, without_extension e := m e) else m)"

lemma not_bak_and_tmp: "is_bak e \<Longrightarrow> \<not> is_tmp e"
  by (simp add: is_bak_def is_tmp_def)

lemma partial_restore:
  assumes p: "partial m0 W m" "clean_map m0" and b: "is_bak e" "m e \<noteq> None"
  shows "m (without_extension e) = None" "m0 (without_extension e) = m e" "e = bak (without_extension e)"
    "partial m0 W (restored e m)"
proof -
  obtain k x where k: "k \<noteq> []" "e = bak k" and x: "m e = Some x" using b by (auto elim: is_bak_cases)
  have "\<not> is_bak k" using p(1) x k by (auto simp: partial_def)
  then have ck: "clean_name k" using k by (simp add: clean_name_def)
  have m0: "m0 k = Some x" and mk: "m k = None"
    using p(1) x ck k by (auto simp: partial_def split: option.splits)
  then have nt: "\<not> is_tmp k" using p(2) by (auto simp: clean_map_def)
  have other: "bak n \<noteq> k" if "is_bak n \<or> clean_name n" for n
    using that ck is_bak_twice[of n] clean_bak(1)[of n] clean_bak(2)[of k] by metis
  have "partial m0 W (m(e := None, k \<mapsto> x))"
    unfolding partial_def
  proof (intro conjI allI impI)
    fix n assume n: "clean_name n"
    then have "n \<noteq> e" using k ck by (auto simp: clean_name_def)
    then show "case m0 n of
        Some v \<Rightarrow> (m(e := None, k \<mapsto> x)) n = Some v \<and> (m(e := None, k \<mapsto> x)) (bak n) = None \<or>
          (m(e := None, k \<mapsto> x)) n = None \<and> (m(e := None, k \<mapsto> x)) (bak n) = Some v
      | None \<Rightarrow> (m(e := None, k \<mapsto> x)) (bak n) = None \<and> ((m(e := None, k \<mapsto> x)) n = None \<or> n \<in> W)"
      using p(1) n m0 k other[of n] by (auto simp: partial_def split: option.splits)
  qed (use p(1) k(1) nt other in \<open>auto simp: partial_def\<close>)
  then show "partial m0 W (restored e m)" "m (without_extension e) = None"
    "m0 (without_extension e) = m e" "e = bak (without_extension e)"
    using k x b(1) m0 mk by (simp_all add: restored_def)
qed

text \<open>One entry of a tracked collection: at most one call, a rename.\<close>

lemma restore_entry_tracked:
  assumes p: "partial m0 W m" "clean_map m0" and e: "m e \<noteq> None"
  shows "triple flt (is_state (F(c \<mapsto> m)) w s) (restore_bak_entry flt c e)
    (is_state (F(c \<mapsto> restored e m)) w s) (\<lambda>b F' w' s'. b \<and> is_state (F(c \<mapsto> m)) w s F' w' s')"
proof (cases "is_bak e")
  case True
  note r = partial_restore[OF p True e]
  show ?thesis unfolding restore_bak_entry_def
    by (rule triple_pre, (rule wp_io)+)
      (use True not_bak_and_tmp[OF True] e r(1) in \<open>auto simp: is_state_def restored_def\<close>)
next
  case False
  have "\<not> is_tmp e" using p(1) e by (auto simp: partial_def)
  with False show ?thesis unfolding restore_bak_entry_def
    by (intro triple_pre[OF triple_then[OF triple_when triple_when]])
      (auto simp: is_state_def restored_def intro: triple_ret)
qed

text \<open>One entry of a directory with any contents: no other entry disappears, so no call fails.\<close>

lemma restore_entry_any:
  assumes e: "m e \<noteq> None"
  shows "triple flt (is_state (F(c \<mapsto> m)) w s) (restore_bak_entry flt c e)
    (\<lambda>F' w' s'. (\<exists>m'. F' = F(c \<mapsto> m') \<and> dom m - {e} \<subseteq> dom m') \<and> w' = w)
    (\<lambda>b F' w' s'. b \<and> (\<exists>m'. F' = F(c \<mapsto> m')) \<and> w' = w)"
proof -
  have ne: "e \<noteq> without_extension e" if "is_bak e" using that by (auto elim!: is_bak_cases)
  have ex: "\<exists>m'. F(c \<mapsto> m1) = F(c \<mapsto> m') \<and> dom m - {e} \<subseteq> dom m'" if "dom m - {e} \<subseteq> dom m1" for m1
    using that by blast
  show ?thesis unfolding restore_bak_entry_def
    by (rule triple_pre, (rule wp_io)+)
      (use e ne not_bak_and_tmp[of e] in \<open>auto simp: is_state_def intro!: ex split: if_splits\<close>)
qed

lemma restore_files_any:
  "triple flt (differs_at F c w) (restore_bak_files_in_dir flt c) (differs_at F c w)
     (\<lambda>b F' w' s'. b \<and> differs_at F c w F' w' s')"
  unfolding restore_bak_files_in_dir_def
proof (rule triple_query)
  fix d assume "on (differs_at F c w) d"
  then obtain m where m: "fs d = F(c \<mapsto> m)" "wal_file d = w" by (auto simp: on_def differs_at_def)
  let ?names = "listing (the (coll d c))"
  have names: "set ?names = dom m" using m by (intro listing_coll_fs) simp
  let ?I = "\<lambda>done F' w' s'. (\<exists>m'. F' = F(c \<mapsto> m') \<and> dom m - set done \<subseteq> dom m') \<and> w' = w"
  let ?E = "\<lambda>b F' w' s'. b \<and> differs_at F c w F' w' s'"
  have "triple flt (?I []) (for_io (restore_bak_entry flt c) ?names) (?I ?names) ?E"
  proof (rule triple_for, rule triple_from_states)
    fix "done" e rest F' w' s'
    assume n: "?names = done @ e # rest" and I: "?I done F' w' s'"
    then obtain m' where m': "F' = F(c \<mapsto> m')" "dom m - set done \<subseteq> dom m'" by blast
    moreover have "e \<in> dom m - set done" using n distinct_listing[of "the (coll d c)"] names by auto
    ultimately have "m' e \<noteq> None" by blast
    have sub: "\<exists>m2. F(c \<mapsto> m1) = F(c \<mapsto> m2) \<and> dom m - set (done @ [e]) \<subseteq> dom m2"
      if "dom m' - {e} \<subseteq> dom m1" for m1
      using m'(2) that unfolding set_append list.set by blast
    show "triple flt (is_state F' w' s') (restore_bak_entry flt c e) (?I (done @ [e])) ?E"
      unfolding m'(1)
      by (rule triple_weaken[OF restore_entry_any[of m' e, OF \<open>m' e \<noteq> None\<close>]])
        (use I sub in \<open>auto simp: differs_at_def simp del: set_append\<close>)
  qed
  then show "triple flt (\<lambda>F w s. F = fs d \<and> w = wal_file d \<and> s = map_of (staging d))
      (for_io (restore_bak_entry flt c) ?names) (differs_at F c w) ?E"
    by (rule triple_weaken) (use m names in \<open>auto simp: differs_at_def\<close>)
qed

lemma partial_all_restored:
  assumes p: "partial m0 {} m" "clean_map m0" and "\<And>k. is_bak k \<Longrightarrow> m k = None"
  shows "m = m0"
proof
  fix k
  show "m k = m0 k"
  proof (cases "clean_name k")
    case True
    then have "m (bak k) = None" using assms(3) clean_bak by blast
    then show ?thesis using p(1) True by (auto simp: partial_def split: option.splits)
  next
    case False
    then have "m0 k = None" using p(2) by (auto simp: clean_map_def)
    moreover have "m k = None"
      using False p(1) assms(3)[of k] by (cases "k = []") (auto simp: clean_name_def partial_def)
    ultimately show ?thesis by simp
  qed
qed

lemma restore_files_tracked:
  assumes p: "partial m0 {} m" "clean_map m0"
  shows "triple flt (is_state (F(c \<mapsto> m)) w s) (restore_bak_files_in_dir flt c)
    (\<lambda>F' w' s'. F' = F(c \<mapsto> m0) \<and> w' = w)
    (\<lambda>b F' w' s'. b \<and> (\<exists>m'. F' = F(c \<mapsto> m') \<and> partial m0 {} m') \<and> w' = w)"
  unfolding restore_bak_files_in_dir_def
proof (rule triple_query_state)
  fix d assume d: "fs d = F(c \<mapsto> m)"
  let ?names = "listing (the (coll d c))"
  have names: "set ?names = dom m" using d by (intro listing_coll_fs) simp
  let ?I = "\<lambda>done F' w' s'. (\<exists>m'. F' = F(c \<mapsto> m') \<and> partial m0 {} m' \<and> dom m - set done \<subseteq> dom m' \<and>
      {k. is_bak k \<and> m' k \<noteq> None} \<subseteq> dom m - set done) \<and> w' = w"
  let ?E = "\<lambda>b F' w' s'. b \<and> (\<exists>m'. F' = F(c \<mapsto> m') \<and> partial m0 {} m') \<and> w' = w"
  have "triple flt (?I []) (for_io (restore_bak_entry flt c) ?names) (?I ?names) ?E"
  proof (rule triple_for, rule triple_from_states)
    fix "done" e rest F' w' s'
    assume n: "?names = done @ e # rest" and I: "?I done F' w' s'"
    then obtain m' where m': "F' = F(c \<mapsto> m')" "w' = w" and pm: "partial m0 {} m'"
      and dm: "dom m - set done \<subseteq> dom m'" "{k. is_bak k \<and> m' k \<noteq> None} \<subseteq> dom m - set done" by blast
    have "e \<in> dom m - set done" using n distinct_listing[of "the (coll d c)"] names by auto
    then have e: "m' e \<noteq> None" using dm(1) by blast
    have pr: "partial m0 {} (restored e m')"
      using partial_restore(4)[OF pm p(2) _ e] pm by (cases "is_bak e") (auto simp: restored_def)
    have "dom m' - {e} \<subseteq> dom (restored e m')" using e by (auto simp: restored_def)
    then have d1: "dom m - set (done @ [e]) \<subseteq> dom (restored e m')"
      using dm(1) unfolding set_append list.set by blast
    have "\<not> is_bak (without_extension e)" if "is_bak e"
      using partial_restore(2)[OF pm p(2) that e] e p(2) by (auto simp: clean_map_def clean_name_def)
    then have d2: "{k. is_bak k \<and> restored e m' k \<noteq> None} \<subseteq> dom m - set (done @ [e])"
      using dm(2) by (auto simp: restored_def split: if_splits)
    show "triple flt (is_state F' w' s') (restore_bak_entry flt c e) (?I (done @ [e])) ?E"
      unfolding m'
      by (rule triple_weaken[OF restore_entry_tracked[OF pm p(2) e]])
        (use pm pr d1 d2 in \<open>auto simp: is_state_def\<close>)
  qed
  then show "triple flt (is_state (F(c \<mapsto> m)) w s) (for_io (restore_bak_entry flt c) ?names)
      (\<lambda>F' w' s'. F' = F(c \<mapsto> m0) \<and> w' = w) ?E"
  proof (rule triple_weaken)
    show "?I [] F' w' s'" if "is_state (F(c \<mapsto> m)) w s F' w' s'" for F' w' s'
      using that p(1) by (intro conjI exI[of _ m]) (auto simp: is_state_def)
    show "F' = F(c \<mapsto> m0) \<and> w' = w" if I: "?I ?names F' w' s'" for F' w' s'
    proof -
      obtain m' where m': "F' = F(c \<mapsto> m')" "partial m0 {} m'" "{k. is_bak k \<and> m' k \<noteq> None} \<subseteq> {}"
        using I names by auto
      then have "m' = m0" by (intro partial_all_restored[OF _ p(2)]) auto
      then show ?thesis using m' I by simp
    qed
  qed
qed

section \<open>All collections\<close>

lemma undoable_none: "coll_ok f0 {} c x y \<longleftrightarrow> (case f0 of
     None \<Rightarrow> y = None \<and> x = None
   | Some m0 \<Rightarrow> y = Some m0 \<or> y = None \<and> (\<exists>m. x = Some m \<and> partial m0 {} m))"
  by (auto simp: coll_ok_def copied_def created_def written_def split: option.splits)

text \<open>After the artifacts are gone, a directory is an original or the backup of an original.\<close>

lemma undoable_names:
  assumes "undoable F0 {} F" "F n \<noteq> None"
  obtains "clean_name n" "F0 n \<noteq> None"
  | c where "clean_name c" "n = bak c" "F n = F0 c" "F0 c \<noteq> None"
proof (cases "is_bak n")
  case True
  then obtain c where c: "c \<noteq> []" "n = bak c" by (auto elim: is_bak_cases)
  then have "\<not> is_bak c" using assms by (auto simp: undoable_def)
  then have "clean_name c" using c by (simp add: clean_name_def)
  moreover have "F n = F0 c" "F0 c \<noteq> None"
    using undoable_at[OF assms(1) \<open>clean_name c\<close>] assms(2) c by (auto simp: undoable_none split: option.splits)
  ultimately show ?thesis using that(2) c(2) by blast
next
  case False
  then have "clean_name n" using assms by (auto simp: clean_name_def undoable_def)
  moreover have "F0 n \<noteq> None"
    using undoable_at[OF assms(1) \<open>clean_name n\<close>] assms(2) by (auto simp: undoable_none split: option.splits)
  ultimately show ?thesis using that(1) by blast
qed

definition settled :: "files \<Rightarrow> files \<Rightarrow> string \<Rightarrow> bool" where
  "settled F0 F c \<longleftrightarrow> F c = F0 c \<and> F (bak c) = None"

text \<open>The loop over the directory names \<open>N\<close>, of which \<open>D\<close> are done.\<close>

definition restoring :: "files \<Rightarrow> string set \<Rightarrow> string set \<Rightarrow> files \<Rightarrow> bool" where
  "restoring F0 N D F \<longleftrightarrow> undoable F0 {} F \<and> (\<forall>c. clean_name c \<and> F0 c \<noteq> None \<longrightarrow>
     settled F0 F c \<or> F (bak c) \<noteq> None \<and> bak c \<in> N - D \<or> F (bak c) = None \<and> c \<in> N - D)"

lemma restoring_update:
  assumes r: "restoring F0 N D F" and c: "clean_name c" "only_at c F F'" "n = c \<or> n = bak c"
    and u: "undoable F0 {} F'"
    and s: "settled F0 F' c \<or> F' (bak c) \<noteq> None \<and> bak c \<in> N - insert n D \<or> F' (bak c) = None \<and> c \<in> N - insert n D"
  shows "restoring F0 N (insert n D) F'"
  unfolding restoring_def
proof (intro conjI allI impI u)
  fix c' assume c': "clean_name c' \<and> F0 c' \<noteq> None"
  show "settled F0 F' c' \<or> F' (bak c') \<noteq> None \<and> bak c' \<in> N - insert n D \<or> F' (bak c') = None \<and> c' \<in> N - insert n D"
  proof (cases "c' = c")
    case False
    have o: "c' \<noteq> bak c" "bak c' \<noteq> c" "bak c' \<noteq> bak c" using clean_other[OF c(1) _ False] c' by auto
    then have "F' c' = F c'" "F' (bak c') = F (bak c')" using c(2) False by (simp_all add: only_at_def)
    then show ?thesis using r c' o False c(3) by (auto simp: restoring_def settled_def)
  qed (use s in simp)
qed

lemma clean_filesD: "clean_files F0 \<Longrightarrow> F0 c = Some m0 \<Longrightarrow> clean_name c \<and> clean_map m0"
  by (auto simp: clean_files_def clean_map_def)

lemma partial_refl:
  assumes "clean_map m0"
  shows "partial m0 W m0"
proof -
  have "m0 k = None" if "k = [] \<or> is_bak k \<or> is_tmp k" for k
    using assms that by (cases "m0 k") (auto simp: clean_map_def clean_name_def)
  moreover have "is_bak (bak k)" if "is_bak k \<or> clean_name k" for k using that is_bak_twice by auto
  ultimately show ?thesis unfolding partial_def by (auto split: option.splits)
qed

lemma rollback_backup_dir:
  assumes r: "restoring F0 N D F" and n: "clean_name c" "n = bak c" "F n = F0 c" "F0 c = Some m0"
    and m0: "clean_map m0"
  shows "triple flt (is_state F w s) (rollback_collection flt n)
    (\<lambda>F' w' s'. restoring F0 N (insert n D) F' \<and> w' = w) (stopped F0 {} w)"
proof -
  let ?Q = "\<lambda>F' w' s'. restoring F0 N (insert n D) F' \<and> w' = w"
  have un: "undoable F0 {} F" using r by (simp add: restoring_def)
  have b: "is_bak n" "without_extension n = c" using n by (simp_all add: clean_name_def)
  have any: "undoable F0 {} (F(c := x))" for x
    by (rule undoable_update[OF un n(1)]) (use n in \<open>auto simp: coll_ok_def\<close>)
  let ?F = "F(n := None, c \<mapsto> m0)"
  have fin: "restoring F0 N (insert n D) ?F"
  proof (rule restoring_update[OF r n(1)])
    show "undoable F0 {} ?F"
      by (rule undoable_update[OF un n(1)])
        (use n partial_refl[OF m0] in \<open>auto simp: coll_ok_def only_at_def\<close>)
    show "settled F0 ?F c \<or> ?F (bak c) \<noteq> None \<and> bak c \<in> N - insert n D \<or> ?F (bak c) = None \<and> c \<in> N - insert n D"
      using n by (simp add: settled_def)
  qed (use n in \<open>auto simp: only_at_def\<close>)
  have eq: "F(c := None, n := None, c \<mapsto> m0) = ?F" using n by (auto simp: fun_eq_iff)
  have rename: "triple flt (is_state (F(c := None)) w s) (mutate flt (rename_dir n c)) ?Q (stopped F0 {} w)"
    by (rule triple_pre[OF triple_rename_dir])
      (use fin any[of None] n eq in \<open>auto simp: is_state_def stopped_def behind_def\<close>)
  have remove: "triple flt (is_state F w s) (query (\<lambda>d. dir_exists d c) (\<lambda>b. whenIO b (remove_dir_all flt c)))
      (is_state (F(c := None)) w s) (stopped F0 {} w)"
  proof (rule triple_query_state)
    fix d assume d: "fs d = F"
    show "triple flt (is_state F w s) (whenIO (dir_exists d c) (remove_dir_all flt c))
        (is_state (F(c := None)) w s) (stopped F0 {} w)"
    proof (cases "F c")
      case None
      then show ?thesis
        by (auto simp: d dir_exists_fs whenIO_def is_state_def fun_upd_idem intro: triple_pre[OF triple_ret])
    next
      case (Some m)
      show ?thesis
        by (simp add: d dir_exists_fs whenIO_def Some,
            rule triple_weaken[OF triple_remove_dir_all[where F = F and c = c and m = m and w = w and s = s]])
          (use Some any in \<open>auto simp: is_state_def stopped_def behind_def fun_upd_idem\<close>)
    qed
  qed
  show ?thesis unfolding rollback_collection_def
    by (rule triple_query_state) (use triple_then[OF rename remove] b n in \<open>simp add: dir_exists_fs whenIO_def[of True]\<close>)
qed

lemma rollback_plain_dir:
  assumes r: "restoring F0 N D F" and n: "clean_name n" "F n = Some m" "F0 n = Some m0"
    and m0: "clean_map m0"
  shows "triple flt (is_state F w s) (rollback_collection flt n)
    (\<lambda>F' w' s'. restoring F0 N (insert n D) F' \<and> w' = w) (stopped F0 {} w)"
proof -
  let ?Q = "\<lambda>F' w' s'. restoring F0 N (insert n D) F' \<and> w' = w"
  have un: "undoable F0 {} F" using r by (simp add: restoring_def)
  have F: "F(n \<mapsto> m) = F" using n by (simp add: fun_upd_idem)
  have und: "undoable F0 {} (F(n := x))" if "coll_ok (F0 n) {} n x (F (bak n))" for x
    by (rule undoable_update[OF un n(1)]) (use that in auto)
  have upd: "restoring F0 N (insert n D) (F(n := x))"
    if "coll_ok (F0 n) {} n x (F (bak n))" "settled F0 (F(n := x)) n \<or> F (bak n) \<noteq> None \<and> bak n \<in> N - insert n D" for x
    by (rule restoring_update[OF r n(1)]) (use that und in auto)
  have "triple flt (is_state F w s) (restore_bak_files_in_dir flt n) ?Q (stopped F0 {} w)"
  proof (cases "F (bak n)")
    case (Some y)
    then have "F (bak n) = Some m0" using undoable_at[OF un n(1)] n(3) by (simp add: undoable_none)
    then have ok: "coll_ok (F0 n) {} n x (F (bak n))" for x by (simp add: coll_ok_def n)
    have "bak n \<in> N - insert n D \<or> F n = F0 n \<and> F (bak n) = None"
      using r n Some by (auto simp: restoring_def settled_def)
    then have "bak n \<in> N - insert n D" using Some by simp
    then show ?thesis using Some n(2)
      by (intro triple_weaken[OF restore_files_any[of flt F n w]])
        (auto simp: is_state_def differs_at_def stopped_def behind_def fun_upd_idem intro: exI[of _ m] upd[OF ok] und[OF ok])
  next
    case None
    have p: "partial m0 {} m" using undoable_at[OF un n(1)] n None by (simp add: undoable_none)
    have ok: "coll_ok (F0 n) {} n (Some m') (F (bak n))" if "partial m0 {} m'" for m'
      using that None n by (simp add: undoable_none)
    have "restoring F0 N (insert n D) (F(n \<mapsto> m0))"
      by (rule upd[OF ok[OF partial_refl[OF m0]]]) (use None n in \<open>simp add: settled_def\<close>)
    then show ?thesis
      by (intro triple_weaken[OF restore_files_tracked[OF p m0, of flt F n w s]])
        (auto simp: F stopped_def behind_def intro: und[OF ok])
  qed
  then show ?thesis unfolding rollback_collection_def
    by (intro triple_query_state) (use n in \<open>simp add: dir_exists_fs whenIO_def[of True]\<close>)
qed

lemma rollback_collection_triple:
  assumes r: "restoring F0 N D F" and cl: "clean_files F0"
  shows "triple flt (is_state F w s) (rollback_collection flt n)
    (\<lambda>F' w' s'. restoring F0 N (insert n D) F' \<and> w' = w) (stopped F0 {} w)"
proof (cases "F n")
  case None
  have un: "undoable F0 {} F" using r by (simp add: restoring_def)
  have "restoring F0 N (insert n D) F"
    using r None undoable_at[OF un] unfolding restoring_def undoable_none
    by (force split: option.splits)
  then show ?thesis unfolding rollback_collection_def
    by (intro triple_query_state)
      (auto simp: None dir_exists_fs whenIO_def is_state_def intro: triple_pre[OF triple_ret])
next
  case (Some m)
  have un: "undoable F0 {} F" using r by (simp add: restoring_def)
  have "F n \<noteq> None" using Some by simp
  with un show ?thesis
  proof (cases rule: undoable_names)
    case 1
    then show ?thesis using rollback_plain_dir[OF r 1(1) Some] clean_filesD[OF cl] by auto
  next
    case (2 c)
    then show ?thesis using rollback_backup_dir[OF r 2(1-3)] clean_filesD[OF cl] by auto
  qed
qed

lemma restoring_done:
  assumes "restoring F0 N N F" "clean_files F0"
  shows "F = F0"
proof
  fix n
  have un: "undoable F0 {} F" using assms(1) by (simp add: restoring_def)
  have st: "settled F0 F c" if "clean_name c" "F0 c \<noteq> None" for c
    using assms(1) that by (auto simp: restoring_def)
  show "F n = F0 n"
  proof (cases "F n")
    case None
    have "F0 n = None"
    proof (rule ccontr)
      assume "F0 n \<noteq> None"
      then have "settled F0 F n" using st clean_filesD[OF assms(2)] by blast
      then show False using None \<open>F0 n \<noteq> None\<close> by (simp add: settled_def)
    qed
    then show ?thesis using None by simp
  next
    case (Some m)
    then have "F n \<noteq> None" by simp
    with un show ?thesis
      by (cases rule: undoable_names) (use st Some in \<open>force simp: settled_def\<close>)+
  qed
qed

lemma rollback_partial_commit_triple:
  assumes cl: "clean_files F0"
  shows "triple flt (behind F0 {} w) (rollback_partial_commit flt) (\<lambda>F' w' s'. F' = F0 \<and> w' = w) (stopped F0 {} w)"
  unfolding rollback_partial_commit_def
proof (rule triple_query)
  fix d assume d: "on (behind F0 {} w) d"
  let ?cs = "listing (colls d)"
  have cs: "set ?cs = {c. fs d c \<noteq> None}" by (rule listing_colls_fs)
  have un: "undoable F0 {} (fs d)" using d by (simp add: on_def behind_def)
  have init: "restoring F0 (set ?cs) {} (fs d)"
    using un undoable_at[OF un] unfolding restoring_def cs undoable_none
    by (force split: option.splits)
  let ?I = "\<lambda>done F' w' s'. restoring F0 (set ?cs) (set done) F' \<and> w' = w"
  have "triple flt (?I []) (for_io (rollback_collection flt) ?cs) (?I ?cs) (stopped F0 {} w)"
  proof (rule triple_for, rule triple_from_states)
    fix "done" n rest F' w' s' assume "?I done F' w' s'"
    then show "triple flt (is_state F' w' s') (rollback_collection flt n) (?I (done @ [n])) (stopped F0 {} w)"
      using rollback_collection_triple[OF _ cl, of "set ?cs" "set done" F' flt w s' n] by simp
  qed
  then show "triple flt (\<lambda>F w s. F = fs d \<and> w = wal_file d \<and> s = map_of (staging d))
      (for_io (rollback_collection flt) ?cs) (\<lambda>F' w' s'. F' = F0 \<and> w' = w) (stopped F0 {} w)"
    by (rule triple_weaken) (use init d restoring_done[OF _ cl] in \<open>auto simp: on_def behind_def\<close>)
qed

text \<open>The whole rollback.\<close>

lemma rollback_triple:
  assumes "valid_tx F0 opers" "clean_files F0"
  shows "triple flt (behind F0 (set opers) w) (rollback_applied_operations flt opers)
    (\<lambda>F' w' s'. F' = F0 \<and> w' = w) (stopped F0 (set opers) w)"
  unfolding rollback_applied_operations_def
proof (rule triple_then[OF _ remove_new_artifacts_triple[OF assms(1)]])
  show "triple flt (behind F0 {} w) (rollback_partial_commit flt) (\<lambda>F' w' s'. F' = F0 \<and> w' = w)
      (stopped F0 (set opers) w)"
    by (rule triple_weaken[OF rollback_partial_commit_triple[OF assms(2)]])
      (auto simp: stopped_def behind_def elim: undoable_mono)
qed

end
