(* ===== verification/Storage_Commit.thy ===== *)
theory Storage_Commit
  imports Storage_Restore
begin

text \<open>
  The commit and the recovery as a whole: a transaction is applied completely or not at all, also
  when the process stops at any point of the commit and of any number of recoveries after it.
\<close>

section \<open>After a crash nothing changes\<close>

definition inert :: "nat \<Rightarrow> 'a io \<Rightarrow> bool" where
  "inert t m \<longleftrightarrow> (\<forall>d. t \<le> clock d \<longrightarrow> (\<exists>r n. m d = (r, d\<lparr>clock := n\<rparr>) \<and> t \<le> n))"

named_theorems inert_intros

lemma inert_result [inert_intros]: "inert t (\<lambda>d. (r, d))"
proof -
  have "d = d\<lparr>clock := clock d\<rparr>" for d :: disk by simp
  then show ?thesis unfolding inert_def by blast
qed

lemma inert_ret [inert_intros]: "inert t (ret x)"
  using inert_result[of t "Inr x"] by (simp add: ret_def[abs_def])

lemma inert_mutate [inert_intros]: "inert t (mutate (crash_at t) f)"
  by (auto simp: inert_def mutate_def crash_at_def Let_def intro: le_SucI)

lemma inert_bind [inert_intros]: "inert t m \<Longrightarrow> (\<And>x. inert t (f x)) \<Longrightarrow> inert t (bindIO m f)"
  unfolding inert_def
proof (intro allI impI)
  fix d :: disk assume m: "\<forall>d. t \<le> clock d \<longrightarrow> (\<exists>r n. m d = (r, d\<lparr>clock := n\<rparr>) \<and> t \<le> n)"
    and f: "\<And>x. \<forall>d. t \<le> clock d \<longrightarrow> (\<exists>r n. f x d = (r, d\<lparr>clock := n\<rparr>) \<and> t \<le> n)" and t: "t \<le> clock d"
  obtain r n where r: "m d = (r, d\<lparr>clock := n\<rparr>)" "t \<le> n" using m t by blast
  show "\<exists>r n. bindIO m f d = (r, d\<lparr>clock := n\<rparr>) \<and> t \<le> n"
  proof (cases r)
    case (Inr x)
    then show ?thesis using r f[of x, rule_format, of "d\<lparr>clock := n\<rparr>"] by (auto simp: bindIO_def)
  qed (use r in \<open>auto simp: bindIO_def\<close>)
qed

lemma inert_then [inert_intros]: "inert t m \<Longrightarrow> inert t n \<Longrightarrow> inert t (thenIO m n)"
  unfolding thenIO_def by (rule inert_bind)

lemma inert_ignore [inert_intros]: "inert t m \<Longrightarrow> inert t (ignoreIO m)"
  unfolding inert_def ignoreIO_def by (metis snd_conv)

lemma inert_when [inert_intros]: "(b \<Longrightarrow> inert t m) \<Longrightarrow> inert t (whenIO b m)"
  by (simp add: whenIO_def inert_ret)

lemma inert_query [inert_intros]: "(\<And>x. inert t (f x)) \<Longrightarrow> inert t (query q f)"
  by (simp add: inert_def query_def)

lemma inert_for [inert_intros]: "(\<And>x. inert t (f x)) \<Longrightarrow> inert t (for_io f xs)"
  by (induction xs) (auto intro: inert_intros)

lemma inert_if [inert_intros]: "inert t m \<Longrightarrow> inert t n \<Longrightarrow> inert t (if b then m else n)"
  by simp

lemma inert_finish_commit: "inert t (finish_commit (crash_at t) result)"
  unfolding finish_commit_def remove_wal_if_exists_def sync_journal_dir_def fsync_def cleanup_backup_files_def
    delete_backups_in_def remove_dir_all_def cleanup_directory_contents_def
  by (intro inert_intros)

lemma inert_on: "inert t m \<Longrightarrow> t \<le> clock d \<Longrightarrow> on P d \<Longrightarrow> m d = (r, d') \<Longrightarrow> on P d'"
  unfolding inert_def by (metis on_clock snd_conv)

lemma crash_hit: "hit (crash_at t) d \<Longrightarrow> t \<le> clock d"
  by (auto simp: hit_def crash_at_def)

section \<open>The original state\<close>

lemma clean_files_forward:
  assumes "clean_files F0"
  shows "forward F0 {} F0"
proof -
  have none: "F0 c = None" if "c = [] \<or> is_bak c" for c
    using that clean_filesD[OF assms, of c] by (cases "F0 c") (auto simp: clean_name_def)
  have nb: "F0 (bak c) = None" if "is_bak c \<or> clean_name c" for c
    using that is_bak_twice[of c] by (intro none) auto
  have "coll_ok (F0 c) {} c (F0 c) (F0 (bak c))" "coll_fwd (F0 c) {} c (F0 c) (F0 (bak c))"
    if "clean_name c" for c
    using that nb[of c] clean_filesD[OF assms, of c] partial_refl
    by (auto simp: undoable_none coll_fwd_def split: option.splits)
  then show ?thesis using none nb by (auto simp: forward_def undoable_def)
qed

lemma clean_files_view: "clean_files F0 \<Longrightarrow> view F0 = F0"
proof
  fix c assume a: "clean_files F0"
  show "view F0 c = F0 c"
  proof (cases "F0 c")
    case (Some m)
    then have "\<not> is_bak c" "clean_map m" using clean_filesD[OF a] by (auto simp: clean_name_def)
    moreover from this(2) have "visible m k = m k" for k
      by (cases "m k") (auto simp: clean_map_def clean_name_def visible_def)
    ultimately show ?thesis using Some by (simp add: view_def fun_eq_iff)
  qed (simp add: view_def)
qed

lemma clean_files_named: "clean_files F0 \<Longrightarrow> named F0"
  unfolding named_def clean_files_def clean_name_def by (metis domI not_None_eq)

section \<open>What a stopped commit can leave behind\<close>

text \<open>
  \<open>old\<close> and \<open>new\<close> are the collections before and after the transaction, \<open>wal\<close> its log while
  recording and \<open>wc\<close> the same log marked as committing.
\<close>

definition pending ::
  "files \<Rightarrow> files \<Rightarrow> operation list \<Rightarrow> byte list \<Rightarrow> byte list \<Rightarrow> assn" where
  "pending old new opers wal wc F w s \<longleftrightarrow>
     w = Some wal \<and> F = old \<or>
     w = Some wc \<and> undoable old (set opers) F \<or>
     w = None \<and> (view F = old \<or> view F = new)"

definition applied :: "files \<Rightarrow> files \<Rightarrow> operation list \<Rightarrow> byte list \<Rightarrow> assn" where
  "applied old new opers wc F w s \<longleftrightarrow> w = Some wc \<and> undoable old (set opers) F \<and> view F = new"

definition logless :: "(files \<Rightarrow> bool) \<Rightarrow> assn" where
  "logless R F w s \<longleftrightarrow> w = None \<and> R F"

lemma triple_result_ok: "triple flt Q (\<lambda>d. (Inr x, d)) Q E"
  by (rule tripleI) auto

lemma triple_result_err: "triple flt (E False) (\<lambda>d. (Inl e, d)) Q E"
  by (rule tripleI) (auto intro: exI[of _ False])

lemma cleanup_dir_logless:
  "triple flt (logless R) (ignoreIO (cleanup_directory_contents flt)) (logless R) E"
  by (rule triple_ignore, rule triple_from_states, rule triple_weaken[OF cleanup_directory_triple])
    (auto simp: is_state_def logless_def)

lemma cleanup_backups_logless:
  assumes "\<And>F F'. R F \<Longrightarrow> view F' = view F \<Longrightarrow> R F'"
  shows "triple flt (logless R) (ignoreIO (cleanup_backup_files flt)) (logless R) E"
  by (rule triple_ignore, rule triple_from_states, rule triple_weaken[OF cleanup_backups_triple(1)])
    (auto simp: is_state_def logless_def keeps_view_def intro: assms)

lemma sync_journal_logless:
  "(\<And>F w s. logless R F w s \<Longrightarrow> E True F w s) \<Longrightarrow>
   triple flt (logless R) (sync_journal_dir flt) (logless R) E"
  unfolding sync_journal_dir_def by (rule triple_pre[OF triple_fsync]) auto

lemma finish_commit_ok:
  "triple flt (applied old new opers wc) (finish_commit flt (Inr ()))
     (logless (\<lambda>F. view F = new)) (\<lambda>_. pending old new opers wal wc)"
proof -
  have "triple flt (applied old new opers wc) (remove_wal_if_exists flt) (logless (\<lambda>F. view F = new))
      (\<lambda>_. pending old new opers wal wc)"
    by (rule triple_from_states, rule triple_weaken[OF remove_wal_triple])
      (auto simp: is_state_def applied_def logless_def pending_def)
  moreover have "triple flt (logless (\<lambda>F. view F = new)) (sync_journal_dir flt) (logless (\<lambda>F. view F = new))
      (\<lambda>_. pending old new opers wal wc)"
    by (rule sync_journal_logless) (auto simp: logless_def pending_def)
  ultimately show ?thesis unfolding finish_commit_def
    by (auto simp: whenIO_def intro!: triple_then triple_result_ok cleanup_dir_logless cleanup_backups_logless)
qed

lemma finish_commit_err:
  "triple flt (\<lambda>F w s. w = Some wc \<and> F = old \<and> undoable old (set opers) old \<and> view old = old) (finish_commit flt (Inl e))
     Q (\<lambda>_. pending old new opers wal wc)"
proof -
  have "triple flt (\<lambda>F w s. w = Some wc \<and> F = old \<and> undoable old (set opers) old \<and> view old = old) (remove_wal_if_exists flt)
      (logless (\<lambda>F. F = old \<and> view F = old)) (\<lambda>_. pending old new opers wal wc)"
    by (rule triple_from_states, rule triple_weaken[OF remove_wal_triple])
      (auto simp: is_state_def logless_def pending_def)
  moreover have "triple flt (logless (\<lambda>F. F = old \<and> view F = old)) (sync_journal_dir flt) (logless (\<lambda>F. F = old \<and> view F = old))
      (\<lambda>_. pending old new opers wal wc)"
    by (rule sync_journal_logless) (auto simp: logless_def pending_def)
  moreover have "triple flt (logless (\<lambda>F. F = old \<and> view F = old)) (\<lambda>d. (Inl e, d)) Q (\<lambda>_. pending old new opers wal wc)"
    by (rule triple_pre[OF triple_result_err]) (auto simp: logless_def pending_def)
  ultimately show ?thesis unfolding finish_commit_def
    by (auto simp: whenIO_def intro!: triple_then cleanup_dir_logless triple_ret)
qed

text \<open>The directories are synced without changing them.\<close>

lemma sync_dirs_triple:
  assumes "\<And>F w s. P F w s \<Longrightarrow> E True F w s"
  shows "triple flt P (sync_collection_dirs flt opers) P E"
proof -
  have sync: "triple flt P (fsync flt) P E" by (rule triple_pre[OF triple_fsync]) (use assms in auto)
  have "triple flt P (query (\<lambda>d. dir_exists d name) (\<lambda>b. whenIO b (fsync flt))) P E" for name
    by (rule triple_pre[OF triple_ask_dir[OF triple_when[OF sync]]]) auto
  then have "triple flt P (sync_modified_dirs flt synced opers) P E" for synced
    by (induction flt synced opers rule: sync_modified_dirs.induct)
      (auto simp: Let_def intro: triple_ret triple_then)
  then show ?thesis unfolding sync_collection_dirs_def by (auto intro: triple_then sync)
qed

lemma sync_before_apply:
  assumes "\<And>F w s. P F w s \<Longrightarrow> E True F w s" "\<And>F w s. P F w s \<Longrightarrow> w \<noteq> None"
  shows "triple flt P (sync_staging_files flt) P E" "triple flt P (sync_wal flt) P E"
proof -
  have "triple flt P (fsync flt) P E" by (rule triple_pre[OF triple_fsync]) (use assms in auto)
  then have "triple flt P (for_io (\<lambda>_. fsync flt) xs) P E" for xs :: "string list"
    by (intro triple_for_inv)
  then show "triple flt P (sync_staging_files flt) P E" unfolding sync_staging_files_def
    by (intro triple_query) (auto intro: triple_pre simp: on_def)
  show "triple flt P (sync_wal flt) P E" unfolding sync_wal_def
    by (rule triple_mutate) (use assms in \<open>auto simp: on_def split: if_splits\<close>)
qed

section \<open>The commit\<close>

lemma triple_conj:
  assumes "triple flt P m Q E" "triple flt P' m Q' (\<lambda>_. anything)"
  shows "triple flt (\<lambda>F w s. P F w s \<and> P' F w s) m (\<lambda>F w s. Q F w s \<and> Q' F w s) E"
proof (rule tripleI)
  fix d x d' assume "on (\<lambda>F w s. P F w s \<and> P' F w s) d" and m: "m d = (Inr x, d')"
  then show "on (\<lambda>F w s. Q F w s \<and> Q' F w s) d'"
    using triple_Inr[OF assms(1) _ m] triple_Inr[OF assms(2) _ m] by (simp add: on_def)
next
  fix d e d' assume "on (\<lambda>F w s. P F w s \<and> P' F w s) d" and m: "m d = (Inl e, d')"
  then show "\<exists>b. (b \<longrightarrow> hit flt d') \<and> on (E b) d'"
    using triple_Inl[OF assms(1) _ m] by (simp add: on_def)
qed

text \<open>Applying the operations: they are undoable at any time, and take effect as specified.\<close>

lemma apply_from_original:
  assumes "clean_files old" "valid_tx old opers" "new = spec_ops staged opers old"
  shows "triple flt (is_state old (Some wc) staged) (apply_operations flt opers) (applied old new opers wc)
    (\<lambda>_. behind old (set opers) (Some wc))"
proof -
  have "list_all clean_op opers"
    using valid_tx_op_ok[OF assms(2)] op_ok_clean by (auto simp: list_all_iff)
  then have "triple flt (shows_view staged old) (apply_operations flt opers)
      (shows_view staged (spec_ops staged opers old)) (\<lambda>_. anything)"
    unfolding apply_operations_def spec_ops_def by (rule apply_loop.run)
  from triple_conj[OF apply_operations_triple[OF assms(2), of flt "Some wc"] this] show ?thesis
    by (rule triple_weaken)
      (use assms clean_files_forward clean_files_view clean_files_named in
        \<open>auto simp: is_state_def ahead_def shows_view_def applied_def forward_def\<close>)
qed

lemma clean_files_undoable: "clean_files old \<Longrightarrow> undoable old (set opers) old"
  using clean_files_forward[of old] undoable_mono[of old "{}" old "set opers"] by (simp add: forward_def)

text \<open>Success continues with the syncs, failure with the rollback.\<close>

lemma triple_apply_and_finish:
  assumes app: "triple flt P (apply_operations flt opers) R (\<lambda>_. B)"
    and ok: "triple flt R (thenIO (sync_collection_dirs flt opers) (finish_commit flt (Inr ()))) Q E"
    and bad: "\<And>e. triple flt B (thenIO (ignoreIO (rollback_applied_operations flt opers)) (finish_commit flt (Inl e))) Q E"
  shows "triple flt P (apply_and_finish flt opers) Q E"
proof -
  have B: "on B d1" if "on P d" "apply_operations flt opers d = (Inl e, d1)" for d e d1
    using triple_Inl[OF app that] by blast
  show ?thesis
  proof (rule tripleI)
    fix d x d' assume p: "on P d" and run: "apply_and_finish flt opers d = (Inr x, d')"
    then show "on Q d'" using triple_Inr[OF app p] B[OF p] triple_Inr[OF ok] triple_Inr[OF bad]
      unfolding apply_and_finish_def by (cases "apply_operations flt opers d") (force split: sum.splits)
  next
    fix d e d' assume p: "on P d" and run: "apply_and_finish flt opers d = (Inl e, d')"
    show "\<exists>b. (b \<longrightarrow> hit flt d') \<and> on (E b) d'"
    proof (cases "apply_operations flt opers d")
      case (Pair q d1)
      show ?thesis
      proof (cases q)
        case (Inl e1)
        then show ?thesis using run Pair B[OF p, of e1 d1] triple_Inl[OF bad, of d1 e1 e d']
          by (auto simp: apply_and_finish_def)
      next
        case (Inr u)
        then show ?thesis using run Pair triple_Inr[OF app p, of u d1] triple_Inl[OF ok, of d1 e d']
          by (auto simp: apply_and_finish_def)
      qed
    qed
  qed
qed

lemma finish_commit_keeps_error: "finish_commit flt (Inl e) d \<noteq> (Inr x, d')"
  by (auto simp: finish_commit_def thenIO_def bindIO_def split: prod.splits sum.splits)

lemma apply_and_finish_crash:
  assumes cl: "clean_files old" and v: "valid_tx old opers" and new: "new = spec_ops staged opers old"
  shows "triple (crash_at t) (is_state old (Some wc) staged) (apply_and_finish (crash_at t) opers)
    (logless (\<lambda>F. view F = new)) (\<lambda>_. pending old new opers wal wc)"
proof -
  let ?flt = "crash_at t" and ?P = "pending old new opers wal wc"
  note app = apply_from_original[OF cl v new, of ?flt wc]
  have ok: "triple ?flt (applied old new opers wc)
      (thenIO (sync_collection_dirs ?flt opers) (finish_commit ?flt (Inr ()))) (logless (\<lambda>F. view F = new)) (\<lambda>_. ?P)"
    by (rule triple_then[OF finish_commit_ok sync_dirs_triple]) (auto simp: applied_def pending_def)
  have bad: "on ?P d2" if d1: "on (behind old (set opers) (Some wc)) d1"
    and run: "thenIO (ignoreIO (rollback_applied_operations ?flt opers)) (finish_commit ?flt (Inl e)) d1 = (r, d2)" for d1 e r d2
  proof -
    obtain q d3 where q: "rollback_applied_operations ?flt opers d1 = (q, d3)" by fastforce
    have f: "finish_commit ?flt (Inl e) d3 = (r, d2)"
      using run q by (simp add: thenIO_def bindIO_def ignoreIO_def)
    show ?thesis
    proof (cases q)
      case (Inl e')
      then obtain b where "b \<longrightarrow> hit ?flt d3" "on (stopped old (set opers) (Some wc) b) d3"
        using triple_Inl[OF rollback_triple[OF v cl] d1] q by blast
      then have "t \<le> clock d3" "on ?P d3"
        using crash_hit by (auto simp: on_def stopped_def behind_def pending_def)
      then show ?thesis using inert_on[OF inert_finish_commit _ _ f] by blast
    next
      case (Inr x)
      then have "on (\<lambda>F w s. w = Some wc \<and> F = old \<and> undoable old (set opers) old \<and> view old = old) d3"
        using triple_Inr[OF rollback_triple[OF v cl] d1] q clean_files_undoable[OF cl] clean_files_view[OF cl]
        by (auto simp: on_def)
      from triple_Inr[OF finish_commit_err[where Q = ?P] this] triple_Inl[OF finish_commit_err[where Q = ?P] this] f
      show ?thesis by (cases r) blast+
    qed
  qed
  have bad': "triple ?flt (behind old (set opers) (Some wc))
      (thenIO (ignoreIO (rollback_applied_operations ?flt opers)) (finish_commit ?flt (Inl e)))
      (logless (\<lambda>F. view F = new)) (\<lambda>_. ?P)" for e
  proof (rule tripleI)
    fix d1 x d2
    assume "thenIO (ignoreIO (rollback_applied_operations ?flt opers)) (finish_commit ?flt (Inl e)) d1 = (Inr x, d2)"
    then have False using finish_commit_keeps_error by (simp add: thenIO_def bindIO_def ignoreIO_def)
    then show "on (logless (\<lambda>F. view F = new)) d2" ..
  qed (use bad in blast)
  show ?thesis by (rule triple_apply_and_finish[OF app ok bad'])
qed

lemma triple_mark_committing:
  "triple flt (is_state F (Some wal) s) (mark_wal_committing flt crc) (is_state F (Some (mark_committing crc wal)) s)
     (\<lambda>b F' w' s'. b \<and> is_state F (Some wal) s F' w' s')"
  unfolding mark_wal_committing_def by (rule triple_mutate) (auto simp: on_def is_state_def)

lemma commit_crash_triple:
  assumes cl: "clean_files old" and v: "valid_tx old opers" and new: "new = spec_ops staged opers old"
    and wc: "wc = mark_committing crc wal"
  shows "triple (crash_at t) (is_state old (Some wal) staged) (apply_inner (crash_at t) crc opers)
    (logless (\<lambda>F. view F = new)) (\<lambda>_. pending old new opers wal wc)"
proof -
  let ?flt = "crash_at t" and ?P = "pending old new opers wal wc" and ?S = "is_state old (Some wc) staged"
  have E: "?P F w s" if "?S F w s" for F w s
    using that clean_files_undoable[OF cl] by (auto simp: is_state_def pending_def)
  have mark: "triple ?flt (is_state old (Some wal) staged) (mark_wal_committing ?flt crc) ?S (\<lambda>_. ?P)"
    by (rule triple_weaken[OF triple_mark_committing]) (auto simp: wc is_state_def pending_def)
  have "triple ?flt ?S (sync_staging_files ?flt) ?S (\<lambda>_. ?P)" "triple ?flt ?S (sync_wal ?flt) ?S (\<lambda>_. ?P)"
    by (rule sync_before_apply; use E in \<open>auto simp: is_state_def\<close>)+
  then show ?thesis unfolding apply_inner_def
    by (intro triple_then[OF triple_then[OF triple_then[OF apply_and_finish_crash[OF cl v new]]] mark])
qed

end
