(* ===== verification/Storage_Atomic.thy ===== *)
theory Storage_Atomic
  imports Storage_Commit
begin

text \<open>
  The theorems about the storage: commits refine their specification, they are atomic under
  failures and crashes, and recovery can be repeated.
\<close>

section \<open>Recovery\<close>

definition clean_disk :: "files \<Rightarrow> files \<Rightarrow> assn" where
  "clean_disk old new F w s \<longleftrightarrow> (F = old \<or> F = new) \<and> w = None \<and> s = Map.empty"

lemma recover_tail:
  assumes R: "\<And>F w s. R F w \<Longrightarrow> pending old new opers wal wc F w s"
    "\<And>F w s. R F w \<Longrightarrow> (F = old \<or> F = new) \<and> view F = F"
  shows "triple flt (\<lambda>F w s. R F w) (thenIO (remove_wal_if_exists flt) (cleanup_staging_dir flt))
    (clean_disk old new) (\<lambda>b F w s. b \<and> pending old new opers wal wc F w s)"
proof -
  let ?E = "\<lambda>b F w s. b \<and> pending old new opers wal wc F w s"
  have "triple flt (logless (\<lambda>F. (F = old \<or> F = new) \<and> view F = F)) (cleanup_staging_dir flt) (clean_disk old new) ?E"
    by (rule triple_from_states, rule triple_weaken[OF cleanup_staging_triple])
      (auto simp: is_state_def logless_def clean_disk_def pending_def)
  moreover have "triple flt (\<lambda>F w s. R F w) (remove_wal_if_exists flt) (logless (\<lambda>F. (F = old \<or> F = new) \<and> view F = F)) ?E"
    by (rule triple_from_states, rule triple_weaken[OF remove_wal_triple])
      (use R in \<open>unfold is_state_def logless_def, blast+\<close>)
  ultimately show ?thesis by (rule triple_then)
qed

lemma no_backup_files:
  assumes "\<not> has_backup_files d"
  shows "view (fs d) = fs d"
proof
  fix c
  have no: "\<not> is_bak n \<and> (\<forall>k\<in>set (listing (the (coll d n))). \<not> is_bak k)" if "fs d n \<noteq> None" for n
    using assms that unfolding has_backup_files_def list_ex_iff listing_colls_fs by blast
  show "view (fs d) c = fs d c"
  proof (cases "fs d c")
    case (Some m)
    have "\<not> is_bak k" if "m k \<noteq> None" for k
      using no[of c] that Some listing_coll_fs[OF Some] by (auto simp del: set_listing)
    then have "visible m k = m k" for k by (cases "m k") (auto simp: visible_def)
    then have "visible m = m" by (rule ext)
    then show ?thesis using no[of c] Some by (simp add: view_def)
  qed (simp add: view_def)
qed

lemma recover_triple:
  assumes rt: "rkyv_roundtrip ser de"
    and log: "append_all crc ser opers (create_wal crc) = Inr wal" "length wal \<le> usize_max"
    and wc: "wc = mark_committing crc wal"
    and cl: "clean_files old" and v: "valid_tx old opers" and new: "view new = new"
  shows "triple flt (pending old new opers wal wc) (recover flt crc de) (clean_disk old new)
    (\<lambda>b F w s. b \<and> pending old new opers wal wc F w s)"
  unfolding recover_def
proof (rule triple_from_states, rule triple_query_state)
  fix F w s d assume p: "pending old new opers wal wc F w s" and d: "fs d = F" "wal_file d = w"
  let ?E = "\<lambda>b F w s. b \<and> pending old new opers wal wc F w s"
  let ?tail = "thenIO (remove_wal_if_exists flt) (cleanup_staging_dir flt)"
  note rb = wal_readback[OF rt log, folded wc]
  have old: "view old = old" by (rule clean_files_view[OF cl])
  have tail: "triple flt (is_state F w s) (thenIO m ?tail) (clean_disk old new) ?E"
    if "triple flt (is_state F w s) m (\<lambda>F' w' s'. R F' \<and> w' = w) ?E"
      "\<And>F'. R F' \<Longrightarrow> (F' = old \<or> F' = new \<and> w = None)" for m R
    by (rule triple_then[OF recover_tail[where R = "\<lambda>F' w'. R F' \<and> w' = w"] that(1)])
      (use that(2) p new old clean_files_undoable[OF cl] in \<open>fastforce simp: pending_def\<close>)+
  consider "w = Some wal" "F = old" | "w = Some wc" "undoable old (set opers) F"
    | "w = None" "view F = old \<or> view F = new" using p by (auto simp: pending_def)
  then show "triple flt (is_state F w s) (case open_wal crc (wal_file d) of
      Inl e \<Rightarrow> fail e | Inr status \<Rightarrow> thenIO (recover_status flt crc de status) ?tail) (clean_disk old new) ?E"
  proof cases
    case 1
    have "triple flt (is_state F w s) (ret ()) (\<lambda>F' w' s'. F' = old \<and> w' = w) ?E"
      by (rule triple_pre[OF triple_ret]) (use 1 in \<open>simp add: is_state_def\<close>)
    from tail[OF this] show ?thesis using rb(1) d 1 by (simp add: recover_status_def)
  next
    case 2
    have "triple flt (is_state F w s) (thenIO (remove_new_artifacts flt opers) (rollback_partial_commit flt))
        (\<lambda>F' w' s'. F' = old \<and> w' = w) ?E"
      by (rule triple_weaken[OF rollback_triple[OF v cl, unfolded rollback_applied_operations_def, of flt w]])
        (use 2 in \<open>auto simp: is_state_def behind_def stopped_def pending_def\<close>)
    from tail[OF this] show ?thesis using rb(2,3) d 2 by (simp add: recover_status_def recover_committing_def)
  next
    case 3
    have "triple flt (is_state F w s) (query has_backup_files (\<lambda>b. whenIO b (delete_all_backup_files flt)))
        (\<lambda>F' w' s'. F' = view F \<and> w' = w) ?E"
    proof (rule triple_query_state)
      fix d' assume d': "fs d' = F"
      have "view F = F" if "\<not> has_backup_files d'" using no_backup_files[OF that] d' by simp
      then show "triple flt (is_state F w s) (whenIO (has_backup_files d') (delete_all_backup_files flt))
          (\<lambda>F' w' s'. F' = view F \<and> w' = w) ?E"
        by (intro triple_pre[OF triple_when[OF triple_weaken[OF cleanup_backups_triple(2)[of flt F w s]]]])
          (use 3 p in \<open>auto simp: is_state_def keeps_view_def pending_def old\<close>)
    qed
    from tail[OF this] show ?thesis using d 3 by (simp add: recover_status_def open_wal_def)
  qed
qed

lemma spec_op_view:
  assumes "clean_op x" "view V = V"
  shows "view (spec_op staged x V) = spec_op staged x V"
proof -
  have vm: "map_option visible (V c) = V c" if "\<not> is_bak c" for c
    using assms(2) that view_at[of c V] by simp
  have ve: "visible (or_empty (V c)) = or_empty (V c)" if "\<not> is_bak c" for c
    using vm[OF that] visible_or_empty[of "V c"] by simp
  have vd: "map_option (\<lambda>m. (visible m)(k := None)) (V c) = map_option (\<lambda>m. m(k := None)) (V c)" if "\<not> is_bak c" for c k
    using vm[OF that] by (cases "V c") auto
  show ?thesis using assms vm ve vd
    by (cases x) (auto simp: clean_name_def option.map_comp comp_def visible_delete split: option.splits)
qed

lemma spec_ops_view:
  "list_all clean_op opers \<Longrightarrow> view V = V \<Longrightarrow> view (spec_ops staged opers V) = spec_ops staged opers V"
  unfolding spec_ops_def by (induction opers arbitrary: V) (auto simp: spec_op_view)

lemma valid_tx_clean: "valid_tx F0 opers \<Longrightarrow> list_all clean_op opers"
  by (auto simp: list_all_iff intro: op_ok_clean[OF valid_tx_op_ok])

section \<open>Theorems\<close>

text \<open>
  A transaction as its log and the disk record it: the log lists the operations, the collections hold
  no file that looks like a backup or a staged file, and the operations form a valid transaction.
\<close>

definition tx_ready :: "checksum \<Rightarrow> serialiser \<Rightarrow> operation list \<Rightarrow> disk \<Rightarrow> bool" where
  "tx_ready crc ser opers d \<longleftrightarrow>
     clean_files (fs d) \<and> valid_tx (fs d) opers \<and>
     (case wal_file d of None \<Rightarrow> False | Some wal \<Rightarrow>
        append_all crc ser opers (create_wal crc) = Inr wal \<and> length wal \<le> usize_max)"

section \<open>A concrete transaction\<close>

definition demo_opers :: "operation list" where
  "demo_opers = [DeleteAll DiagnosticDatabase, CreateCollection (Custom ''new''), Write (Custom ''new'') ''k'' ''t'']"

definition tx_ser :: serialiser where
  "tx_ser oper = (if oper = demo_opers ! 0 then Inr [1] else if oper = demo_opers ! 1 then Inr [2]
     else if oper = demo_opers ! 2 then Inr [3] else Inl ''unsupported'')"

definition tx_de :: deserialiser where
  "tx_de bs = (if bs = [1] then Inr (demo_opers ! 0) else if bs = [2] then Inr (demo_opers ! 1)
     else if bs = [3] then Inr (demo_opers ! 2) else Inl ''unsupported'')"

definition tx_wal :: "byte list" where
  "tx_wal = create_wal demo_crc @ entries demo_crc [[1], [2], [3]]"

definition tx_disk :: disk where
  "tx_disk = \<lparr>colls = [(''diagnostic_database'', [(''a.mdd'', [1, 2])])], wal_file = Some tx_wal,
     staging = [(''t'', [7])], clock = 0\<rparr>"

lemma tx_rkyv: "rkyv_roundtrip tx_ser tx_de"
  by (auto simp: rkyv_roundtrip_def tx_ser_def tx_de_def split: if_splits)

lemma tx_names: "clean_name ''diagnostic_database''" "clean_name ''a.mdd''" "\<not> is_tmp ''a.mdd''"
  "clean_name ''new''" "clean_name ''k''" "\<not> is_tmp ''k''"
  by code_simp+

lemma tx_fs: "fs tx_disk = [''diagnostic_database'' \<mapsto> [''a.mdd'' \<mapsto> [1, 2]]]"
  by (auto simp: fs_def coll_def tx_disk_def fun_eq_iff)

lemma tx_log: "append_all demo_crc tx_ser demo_opers (create_wal demo_crc) = Inr tx_wal" "length tx_wal \<le> usize_max"
proof -
  show "append_all demo_crc tx_ser demo_opers (create_wal demo_crc) = Inr tx_wal"
    unfolding append_all_Inr
    by (intro exI[of _ "[[1], [2], [3]]"])
      (simp add: tx_wal_def serialised_def tx_ser_def demo_opers_def u32_max_def)
  show "length tx_wal \<le> usize_max" by (simp add: tx_wal_def create_wal_def usize_max_def)
qed

lemma tx_demo_ready: "tx_ready demo_crc tx_ser demo_opers tx_disk"
proof -
  have "valid_tx (fs tx_disk) demo_opers"
    using tx_names by (simp add: tx_fs valid_tx_def demo_opers_def step_ok_def)
  moreover have "clean_files (fs tx_disk)"
    using tx_names by (auto simp: clean_files_def tx_fs split: if_splits)
  ultimately show ?thesis using tx_log by (simp add: tx_ready_def tx_disk_def)
qed

text \<open>
  C26: applying a list of operations that succeeds, whatever it met on the way, changes what the client
  sees exactly as the operations are specified: writes put the staged contents, deletes remove keys,
  copies replace the destination by the source; backup files stay invisible.
\<close>

theorem apply_operations_refines:
  assumes "list_all clean_op opers" "named (fs d)" "apply_operations flt opers d = (Inr u, d')"
  shows "view (fs d') = spec_ops (map_of (staging d)) opers (view (fs d))"
proof -
  have "triple flt (shows_view (map_of (staging d)) (view (fs d))) (apply_operations flt opers)
      (shows_view (map_of (staging d)) (spec_ops (map_of (staging d)) opers (view (fs d)))) (\<lambda>_. anything)"
    unfolding apply_operations_def spec_ops_def by (rule apply_loop.run[OF assms(1)])
  from triple_Inr[OF this _ assms(3)] assms(2) show ?thesis by (simp add: on_def shows_view_def)
qed

theorem apply_operations_refines_witness:
  "view (fs (snd (apply_operations no_faults [CreateCollection (Custom ''new'')] tx_disk))) ''new'' = Some Map.empty"
proof -
  obtain d' where d': "apply_operations no_faults [CreateCollection (Custom ''new'')] tx_disk = (Inr (), d')"
    using create_dir_ok[of "''new''" "tx_disk\<lparr>clock := Suc 0\<rparr>"]
    by (auto simp: apply_operations_def thenIO_def bindIO_def mutate_def no_faults_def ret_def tx_disk_def)
  have "named (fs tx_disk)" by (simp add: tx_fs named_def)
  then show ?thesis
    using apply_operations_refines[OF _ _ d'] d' tx_names
    by (simp add: spec_ops_def or_empty_def tx_fs view_def clean_name_def)
qed

text \<open>
  C1: the commit of a transaction that overwrites no file is atomic under crashes. If the process
  stops at any moment \<open>t\<close> of the commit, and again at arbitrary moments of any number of recoveries
  (or these meet any other faults), then a recovery that runs to its end succeeds and leaves the
  collections exactly as they were before the transaction or exactly as the whole transaction
  specifies, without log, backups or staged files. The transactions meant are those of \<open>valid_tx\<close>:
  every written key and every created collection is new, a key is written only once and not deleted
  after that, an operation on a whole collection comes before the other operations on it, and no name
  looks like that of a backup or temporary file. For a transaction that overwrites a file the property
  fails, as \<open>unreached_overwrite_is_lost\<close> in \<open>Storage_Limits\<close> shows.
\<close>

theorem commit_crash_atomic:
  assumes "rkyv_roundtrip ser de" "tx_ready crc ser opers d"
    and "apply_inner (crash_at t) crc opers d = (r, d1)"
    and "d2 = fold (\<lambda>flt d. snd (recover flt crc de d)) flts d1"
  shows "\<exists>d3. recover no_faults crc de d2 = (Inr (), d3) \<and>
    (fs d3 = fs d \<or> fs d3 = spec_ops (map_of (staging d)) opers (fs d)) \<and>
    wal_file d3 = None \<and> staging d3 = []"
proof -
  obtain wal where wal: "wal_file d = Some wal" "append_all crc ser opers (create_wal crc) = Inr wal"
    "length wal \<le> usize_max" and cl: "clean_files (fs d)" and v: "valid_tx (fs d) opers"
    using assms(2) by (auto simp: tx_ready_def split: option.splits)
  let ?new = "spec_ops (map_of (staging d)) opers (fs d)" and ?wc = "mark_committing crc wal"
  let ?P = "pending (fs d) ?new opers wal ?wc"
  have new: "view ?new = ?new" by (rule spec_ops_view[OF valid_tx_clean[OF v] clean_files_view[OF cl]])
  note com = commit_crash_triple[OF cl v refl refl, where t = t and staged = "map_of (staging d)" and wal = wal and crc = crc]
  have d: "on (is_state (fs d) (Some wal) (map_of (staging d))) d" by (simp add: on_def is_state_def wal)
  have "on ?P d1"
  proof (cases r)
    case (Inl e)
    then show ?thesis using triple_Inl[OF com d] assms(3) by blast
  next
    case (Inr u)
    then show ?thesis using triple_Inr[OF com d] assms(3) by (auto simp: on_def logless_def pending_def)
  qed
  note rec = recover_triple[OF assms(1) wal(2,3) refl cl v new]
  have step: "on ?P (snd (recover flt crc de d'))" if "on ?P d'" for flt d'
  proof (cases "recover flt crc de d'")
    case (Pair q d'')
    then show ?thesis using triple_Inl[OF rec[of flt] that] triple_Inr[OF rec[of flt] that] new clean_files_view[OF cl]
      by (cases q) (fastforce simp: on_def clean_disk_def pending_def)+
  qed
  have "on ?P (fold (\<lambda>flt d. snd (recover flt crc de d)) flts d')" if "on ?P d'" for d'
    using that by (induction flts arbitrary: d') (auto intro: step)
  then have "on ?P d2" using \<open>on ?P d1\<close> assms(4) by simp
  moreover have "triple no_faults ?P (recover no_faults crc de) (clean_disk (fs d) ?new) (\<lambda>b F w s. b)"
    by (rule triple_weaken[OF rec]) auto
  ultimately obtain u d3 where "recover no_faults crc de d2 = (Inr u, d3)" "on (clean_disk (fs d) ?new) d3"
    using triple_total by blast
  moreover have "staging d3 = []" if "map_of (staging d3) = Map.empty" using that map_of_empty_iff by blast
  ultimately show ?thesis by (auto simp: on_def clean_disk_def)
qed

theorem commit_crash_atomic_witness:
  "\<exists>d3. recover no_faults demo_crc tx_de
      (snd (recover (crash_at 9) demo_crc tx_de (snd (apply_inner (crash_at 6) demo_crc demo_opers tx_disk)))) = (Inr (), d3) \<and>
    (fs d3 = fs tx_disk \<or> fs d3 = spec_ops [''t'' \<mapsto> [7]] demo_opers (fs tx_disk)) \<and>
    wal_file d3 = None \<and> staging d3 = []"
  using commit_crash_atomic[OF tx_rkyv tx_demo_ready prod.collapse[symmetric], where t = 6 and flts = "[crash_at 9]", OF refl]
  by (simp add: tx_disk_def)

end
