(* ===== verification/Storage_Live.thy ===== *)
theory Storage_Live
  imports Storage_Atomic
begin

text \<open>
  Commits without faults: a commit that fails leaves the collections as they were, and a valid
  transaction whose staged files and copy sources exist does not fail.
\<close>

section \<open>A commit without faults\<close>

lemma triple_ignore_total:
  assumes "triple no_faults P m Q (\<lambda>b F w s. b \<and> X b F w s)"
  shows "triple no_faults P (ignoreIO m) Q E"
proof (rule tripleI)
  fix d x d' assume p: "on P d" and i: "ignoreIO m d = (Inr x, d')"
  obtain y d'' where "m d = (Inr y, d'')" "on Q d''"
    using triple_total[OF triple_weaken[OF assms, where P' = P and Q' = Q] p] by blast
  then show "on Q d'" using i by (simp add: ignoreIO_def)
qed (simp add: ignoreIO_def)

definition finished :: "files \<Rightarrow> assn" where
  "finished V F w s \<longleftrightarrow> F = V \<and> w = None \<and> s = Map.empty"

lemma cleanup_dir_total: "triple no_faults (is_state F None s) (ignoreIO (cleanup_directory_contents no_faults)) (finished F) E"
  by (rule triple_ignore_total, rule triple_weaken[OF cleanup_directory_triple])
    (auto simp: is_state_def finished_def)

lemma finish_commit_total:
  "triple no_faults (is_state F w s) (finish_commit no_faults result)
     (finished (if is_ok result then view F else F)) (\<lambda>b F' w' s'. b \<or> finished F F' w' s' \<and> \<not> is_ok result)"
proof -
  let ?E = "\<lambda>b F' w' s'. b \<or> finished F F' w' s' \<and> \<not> is_ok result"
  let ?V = "if is_ok result then view F else F"
  have "triple no_faults (finished ?V) (\<lambda>d. (result, d)) (finished ?V) ?E"
    by (cases result; rule tripleI) (auto intro: exI[of _ False] simp: on_def)
  moreover have "triple no_faults (is_state ?V None s) (ignoreIO (cleanup_directory_contents no_faults)) (finished ?V) ?E"
    by (rule cleanup_dir_total)
  moreover have "triple no_faults (is_state F None s) (whenIO (is_ok result) (ignoreIO (cleanup_backup_files no_faults)))
      (is_state ?V None s) ?E"
    by (rule triple_pre[OF triple_when[OF triple_ignore_total[where P = "is_state F None s"]]],
        rule triple_weaken[OF cleanup_backups_triple(1)]) (auto simp: keeps_view_def)
  moreover have "triple no_faults (is_state F None s) (sync_journal_dir no_faults) (is_state F None s) ?E"
    unfolding sync_journal_dir_def by (rule triple_pre[OF triple_fsync]) auto
  moreover have "triple no_faults (is_state F w s) (remove_wal_if_exists no_faults) (is_state F None s) ?E"
    by (rule triple_weaken[OF remove_wal_triple]) auto
  ultimately show ?thesis unfolding finish_commit_def by (intro triple_then)
qed

lemma apply_and_finish_total:
  assumes cl: "clean_files old" and v: "valid_tx old opers" and new: "new = spec_ops staged opers old"
  shows "triple no_faults (is_state old (Some wc) staged) (apply_and_finish no_faults opers)
    (finished new) (\<lambda>b F w s. b \<or> finished old F w s)"
proof -
  let ?E = "\<lambda>b F w s. b \<or> finished old F w s"
  note app = apply_from_original[OF cl v new, of no_faults wc]
  have ok: "triple no_faults (applied old new opers wc)
      (thenIO (sync_collection_dirs no_faults opers) (finish_commit no_faults (Inr ()))) (finished new) ?E"
  proof (rule triple_then[OF _ sync_dirs_triple])
    show "triple no_faults (applied old new opers wc) (finish_commit no_faults (Inr ())) (finished new) ?E"
      by (rule triple_from_states, rule triple_weaken[OF finish_commit_total]) (auto simp: applied_def)
  qed simp
  have bad: "triple no_faults (behind old (set opers) (Some wc))
      (thenIO (ignoreIO (rollback_applied_operations no_faults opers)) (finish_commit no_faults (Inl e))) (\<lambda>_ _ _. False) ?E" for e
  proof (rule triple_then[OF _ triple_ignore_total])
    show "triple no_faults (behind old (set opers) (Some wc)) (rollback_applied_operations no_faults opers)
        (\<lambda>F w s. F = old \<and> w = Some wc) (\<lambda>b F w s. b \<and> behind old (set opers) (Some wc) F w s)"
      by (rule triple_weaken[OF rollback_triple[OF v cl]]) (auto simp: stopped_def)
    show "triple no_faults (\<lambda>F w s. F = old \<and> w = Some wc) (finish_commit no_faults (Inl e)) (\<lambda>_ _ _. False) ?E"
    proof (rule triple_from_states)
      fix F w s assume "F = old \<and> w = Some wc"
      then have t: "triple no_faults (is_state F w s) (finish_commit no_faults (Inl e)) (finished old) ?E"
        by (intro triple_weaken[OF finish_commit_total]) auto
      show "triple no_faults (is_state F w s) (finish_commit no_faults (Inl e)) (\<lambda>_ _ _. False) ?E"
        by (rule tripleI) (use finish_commit_keeps_error triple_Inl[OF t] in blast)+
    qed
  qed
  show ?thesis
    by (rule triple_apply_and_finish[OF app ok]) (rule triple_weaken[OF bad], auto)
qed

lemma commit_total_triple:
  assumes cl: "clean_files old" and v: "valid_tx old opers" and new: "new = spec_ops staged opers old"
  shows "triple no_faults (is_state old (Some wal) staged) (apply_inner no_faults crc opers)
    (finished new) (\<lambda>b F w s. b \<or> finished old F w s)"
proof -
  let ?S = "is_state old (Some (mark_committing crc wal)) staged" and ?E = "\<lambda>b F w s. b \<or> finished old F w s"
  have mark: "triple no_faults (is_state old (Some wal) staged) (mark_wal_committing no_faults crc) ?S ?E"
    by (rule triple_weaken[OF triple_mark_committing]) auto
  have "triple no_faults ?S (sync_staging_files no_faults) ?S ?E" "triple no_faults ?S (sync_wal no_faults) ?S ?E"
    by (rule sync_before_apply; auto simp: is_state_def)+
  then show ?thesis unfolding apply_inner_def
    by (intro triple_then[OF triple_then[OF triple_then[OF apply_and_finish_total[OF cl v new]]] mark])
qed

lemma tx_readyE:
  assumes "tx_ready crc ser opers d"
  obtains wal where "wal_file d = Some wal" "append_all crc ser opers (create_wal crc) = Inr wal"
    "length wal \<le> usize_max" "clean_files (fs d)" "valid_tx (fs d) opers"
    "on (is_state (fs d) (Some wal) (map_of (staging d))) d"
  using assms by (auto simp: tx_ready_def on_def is_state_def split: option.splits)

lemma finishedD: "on (finished V) d \<Longrightarrow> fs d = V \<and> wal_file d = None \<and> staging d = []"
  by (simp add: on_def finished_def map_of_empty_iff)

lemma commit_ends:
  assumes "tx_ready crc ser (tx_operations tx) (disk_of s)" "commit no_faults crc s tx = (r, s')"
  shows "fs (disk_of s') = (if is_ok r
      then spec_ops (map_of (staging (disk_of s))) (tx_operations tx) (fs (disk_of s)) else fs (disk_of s)) \<and>
    wal_file (disk_of s') = None \<and> staging (disk_of s') = [] \<and> \<not> tx_active s'"
proof -
  obtain wal where cl: "clean_files (fs (disk_of s))" and v: "valid_tx (fs (disk_of s)) (tx_operations tx)"
    and p: "on (is_state (fs (disk_of s)) (Some wal) (map_of (staging (disk_of s)))) (disk_of s)"
    using assms(1) by (rule tx_readyE)
  obtain d' where run: "apply_inner no_faults crc (tx_operations tx) (disk_of s) = (r, d')"
    and s': "s' = s\<lparr>disk_of := d', tx_active := False\<rparr>"
    using assms(2) by (auto simp: commit_def split: prod.splits)
  note t = commit_total_triple[OF cl v refl, where wal = wal and crc = crc and staged = "map_of (staging (disk_of s))"]
  show ?thesis
  proof (cases r)
    case (Inl e)
    then have "on (finished (fs (disk_of s))) d'"
      using triple_Inl[OF t p] run by (auto simp: hit_def no_faults_def on_def)
    then show ?thesis using finishedD s' Inl by auto
  next
    case (Inr u)
    then show ?thesis using finishedD triple_Inr[OF t p] run s' by auto
  qed
qed

text \<open>
  C10: without faults the commit of a transaction that overwrites no file (\<open>valid_tx\<close>, with the
  conditions of the theorem on crashes) is all or nothing. If it succeeds the collections are exactly
  as specified; if it reports an error (a staged file or the source of a copy is missing) they are
  exactly as before. In both cases the log, the backups and the staged files are gone and a new
  transaction may begin.
\<close>

theorem commit_all_or_nothing:
  assumes "tx_ready crc ser (tx_operations tx) (disk_of s)" "commit no_faults crc s tx = (r, s')"
  shows "fs (disk_of s') = (if is_ok r
      then spec_ops (map_of (staging (disk_of s))) (tx_operations tx) (fs (disk_of s)) else fs (disk_of s)) \<and>
    wal_file (disk_of s') = None \<and> staging (disk_of s') = [] \<and> \<not> tx_active s'"
  using assms by (rule commit_ends)

section \<open>Commits that cannot fail\<close>

text \<open>The files an operation needs, in the state that the operations before it specify.\<close>

fun has_sources :: "(string \<rightharpoonup> byte list) \<Rightarrow> files \<Rightarrow> operation \<Rightarrow> bool" where
  "has_sources s V (Write c k p) \<longleftrightarrow> s p \<noteq> None"
| "has_sources s V (CopyCollection src dest ex) \<longleftrightarrow> V (as_str src) \<noteq> None"
| "has_sources s V _ \<longleftrightarrow> True"

fun used_staged :: "operation \<Rightarrow> (string \<rightharpoonup> byte list) \<Rightarrow> string \<rightharpoonup> byte list" where
  "used_staged (Write c k p) s = s(p := None)"
| "used_staged _ s = s"

fun sources_ok :: "(string \<rightharpoonup> byte list) \<Rightarrow> (string \<rightharpoonup> byte list) \<Rightarrow> files \<Rightarrow> operation list \<Rightarrow> bool" where
  "sources_ok staged s V [] \<longleftrightarrow> True"
| "sources_ok staged s V (x # xs) \<longleftrightarrow>
     has_sources s V x \<and> sources_ok staged (used_staged x s) (spec_op staged x V) xs"

definition fault_only :: "bool \<Rightarrow> assn" where
  "fault_only b F w s \<longleftrightarrow> b"

lemma backup_all_total:
  assumes "F c \<noteq> None"
  shows "triple flt (is_state F w s) (backup_all_files_in_dir flt c) (\<lambda>F' w' s'. s' = s) fault_only"
  unfolding backup_all_files_in_dir_def
proof (rule triple_query_state)
  fix d assume d: "fs d = F"
  obtain m where m: "F c = Some m" using assms by auto
  let ?names = "listing (the (coll d c))"
  have names: "set ?names = dom m" using m d by (intro listing_coll_fs) simp
  let ?I = "\<lambda>done F' w' s'. (\<exists>m'. F' c = Some m' \<and> dom m - set done \<subseteq> dom m') \<and> s' = s"
  have "triple flt (?I []) (for_io (\<lambda>k. mutate flt (rename_file c k (bak k))) ?names) (?I ?names) fault_only"
  proof (rule triple_for)
    fix "done" k rest assume n: "?names = done @ k # rest"
    then have k: "k \<in> dom m - set done" using distinct_listing[of "the (coll d c)"] names by auto
    have "dom m - set (done @ [k]) \<subseteq> dom (m'(k := None, bak k \<mapsto> v))" if "dom m - set done \<subseteq> dom m'" for m' v
      using that by (auto simp: dom_def)
    then show "triple flt (?I done) (mutate flt (rename_file c k (bak k))) (?I (done @ [k])) fault_only"
      by (intro triple_pre[OF triple_rename_file]) (use k in \<open>auto simp: fault_only_def\<close>)
  qed
  then show "triple flt (is_state F w s) (for_io (\<lambda>k. mutate flt (rename_file c k (bak k))) ?names) (\<lambda>F' w' s'. s' = s) fault_only"
    by (rule triple_weaken) (use m in \<open>auto simp: is_state_def\<close>)
qed

lemma copy_total:
  assumes "F src = Some m" "F dst \<noteq> None" "src \<noteq> dst"
  shows "triple flt (is_state F w s) (copy_dir_contents flt src dst) (\<lambda>F' w' s'. s' = s) fault_only"
  unfolding copy_dir_contents_def
proof (rule triple_query_state)
  fix d assume d: "fs d = F"
  obtain al where al: "coll d src = Some al" "m = map_of al" using assms(1) d by (auto elim: fs_SomeE)
  let ?I = "\<lambda>F' w' s'. F' src = Some m \<and> F' dst \<noteq> None \<and> s' = s"
  have "triple flt ?I (for_io (\<lambda>k. mutate flt (copy_file src dst k)) (listing al)) ?I fault_only"
  proof (rule triple_for_inv)
    fix k assume "k \<in> set (listing al)"
    then show "triple flt ?I (mutate flt (copy_file src dst k)) ?I fault_only"
      by (intro triple_pre[OF triple_copy_file]) (use al assms(3) in \<open>auto simp: fault_only_def\<close>)
  qed
  then have "triple flt (is_state F w s) (for_io (\<lambda>k. mutate flt (copy_file src dst k)) (listing al))
      (\<lambda>F' w' s'. s' = s) fault_only"
    by (rule triple_weaken) (use assms in \<open>auto simp: is_state_def\<close>)
  then show "triple flt (is_state F w s) (case coll d src of None \<Rightarrow> fail (Io IoNotFound)
      | Some al \<Rightarrow> for_io (\<lambda>k. mutate flt (copy_file src dst k)) (listing al)) (\<lambda>F' w' s'. s' = s) fault_only"
    by (simp add: al(1))
qed

lemma apply_operation_total:
  assumes st: "starts F0 prev a F" and src: "has_sources s (view F) a"
  shows "triple flt (is_state F w s) (apply_operation flt a) (\<lambda>F' w' s'. s' = used_staged a s) fault_only"
proof (cases a)
  case (Write c k p)
  show ?thesis unfolding Write apply_operation.simps backup_file_def
    by (rule triple_pre, (rule wp_io)+) (use src Write in \<open>auto simp: is_state_def fault_only_def\<close>)
next
  case (Delete c k)
  show ?thesis unfolding Delete apply_operation.simps backup_file_def
    by (rule triple_pre, (rule wp_io)+) (auto simp: is_state_def fault_only_def)
next
  case (DeleteAll c)
  have "triple flt (is_state F w s) (whenIO (F (as_str c) \<noteq> None) (backup_all_files_in_dir flt (as_str c)))
      (\<lambda>F' w' s'. s' = s) fault_only"
    by (rule triple_pre[OF triple_when[OF backup_all_total]]) (auto simp: is_state_def)
  then show ?thesis unfolding DeleteAll apply_operation.simps by (intro triple_query_state) (simp add: dir_exists_fs)
next
  case (CreateCollection c)
  then show ?thesis unfolding CreateCollection apply_operation.simps
    by (intro triple_pre[OF triple_create_dir]) (auto simp: is_state_def fault_only_def)
next
  case (DeleteCollection c)
  let ?c = "as_str c"
  have c: "?c = modified_dir a" "whole a" by (simp_all add: DeleteCollection)
  have "triple flt (is_state F w s) (backup_dir flt ?c) (is_state (F(?c := None, bak ?c := F0 ?c)) w s) fault_only"
    by (rule backup_dir_triple[OF st c]) (simp add: fault_only_def)
  then show ?thesis unfolding DeleteCollection apply_operation.simps used_staged.simps
    by (rule triple_weaken) (simp_all add: is_state_def)
next
  case (CopyCollection sr dst ex)
  let ?c = "as_str dst" and ?s = "as_str sr"
  let ?F = "F(?c := None, bak ?c := F0 ?c)"
  have c: "?c = modified_dir a" "whole a" and ne: "?s \<noteq> ?c" "clean_name ?s" "clean_name ?c"
    using st by (auto simp: CopyCollection starts_def step_ok_def)
  have "?s \<noteq> bak ?c" by (rule clean_other(1)[OF ne(3,2,1)])
  moreover obtain m where "F ?s = Some m" using src ne by (auto simp: CopyCollection)
  ultimately have "triple flt (is_state (?F(?c \<mapsto> Map.empty)) w s) (copy_dir_contents flt ?s ?c) (\<lambda>F' w' s'. s' = s) fault_only"
    using ne by (intro copy_total) auto
  moreover have "triple flt (is_state ?F w s) (mutate flt (create_dir ?c)) (is_state (?F(?c \<mapsto> Map.empty)) w s) fault_only"
    by (rule triple_pre[OF triple_create_dir]) (auto simp: is_state_def fault_only_def)
  moreover have "triple flt (is_state F w s) (backup_dir flt ?c) (is_state ?F w s) fault_only"
    by (rule backup_dir_triple[OF st c]) (simp add: fault_only_def)
  ultimately show ?thesis unfolding CopyCollection apply_operation.simps used_staged.simps by (intro triple_then)
qed

definition reached :: "files \<Rightarrow> (string \<rightharpoonup> byte list) \<Rightarrow> operation list \<Rightarrow> assn" where
  "reached old staged prev F w s \<longleftrightarrow> forward old (set prev) F \<and>
     shows_view staged (spec_ops staged prev old) F w s \<and> s = fold used_staged prev staged"

lemma reached_step:
  assumes v: "valid_tx old (prev @ a # rest)" and r: "reached old staged prev F w s"
    and src: "has_sources (fold used_staged prev staged) (spec_ops staged prev old) a"
  shows "triple flt (is_state F w s) (apply_operation flt a) (reached old staged (prev @ [a])) fault_only"
proof -
  have st: "starts old prev a F"
    using r valid_tx_split[OF v] valid_tx_op_ok[OF v] by (auto simp: starts_def reached_def list_all_iff)
  have cl: "clean_op a" by (rule op_ok_clean[OF valid_tx_op_ok[OF v]]) simp
  have V: "view F = spec_ops staged prev old" and s: "s = fold used_staged prev staged"
    using r by (simp_all add: reached_def shows_view_def)
  have fwd: "triple flt (is_state F w s) (apply_operation flt a) (ahead old (insert a (set prev)) w) (\<lambda>_. anything)"
    by (rule triple_weaken[OF apply_operation_triple[OF st]]) (auto simp: anything_def)
  have sim: "triple flt (is_state F w s) (apply_operation flt a)
      (shows_view staged (spec_op staged a (spec_ops staged prev old))) (\<lambda>_. anything)"
    by (rule triple_pre[OF apply_loop.step_sim[OF cl]]) (use r in \<open>auto simp: reached_def shows_view_def is_state_def\<close>)
  have tot: "triple flt (is_state F w s) (apply_operation flt a) (\<lambda>F' w' s'. s' = used_staged a s) fault_only"
    by (rule apply_operation_total[OF st]) (use src V s in simp)
  show ?thesis
    by (rule triple_weaken[OF triple_conj[OF triple_conj[OF tot fwd] sim]])
      (auto simp: reached_def ahead_def spec_ops_def s)
qed

lemma sources_ok_split:
  "sources_ok staged s V (pre @ x # post) \<Longrightarrow>
   has_sources (fold used_staged pre s) (fold (spec_op staged) pre V) x"
  by (induction pre arbitrary: s V) auto

lemma apply_operations_total:
  assumes "clean_files old" "valid_tx old opers" "sources_ok staged staged old opers"
  shows "triple flt (is_state old w staged) (apply_operations flt opers) anything fault_only"
proof -
  have "triple flt (reached old staged []) (for_io (apply_operation flt) opers) (reached old staged opers) fault_only"
  proof (rule triple_for, rule triple_from_states)
    fix prev a rest F w s assume o: "opers = prev @ a # rest" and "reached old staged prev F w s"
    then show "triple flt (is_state F w s) (apply_operation flt a) (reached old staged (prev @ [a])) fault_only"
      using assms(2,3) sources_ok_split by (intro reached_step) (auto simp: spec_ops_def)
  qed
  then show ?thesis unfolding apply_operations_def
    by (rule triple_weaken)
      (use assms clean_files_forward clean_files_view clean_files_named in
        \<open>auto simp: reached_def anything_def is_state_def shows_view_def spec_ops_def\<close>)
qed

lemma commit_inner_succeeds:
  assumes cl: "clean_files old" and v: "valid_tx old opers" and src: "sources_ok staged staged old opers"
  shows "triple no_faults (is_state old (Some wal) staged) (apply_inner no_faults crc opers) anything fault_only"
proof -
  let ?wc = "mark_committing crc wal"
  let ?S = "is_state old (Some ?wc) staged" and ?new = "spec_ops staged opers old"
  have ok: "triple no_faults (applied old ?new opers ?wc)
      (thenIO (sync_collection_dirs no_faults opers) (finish_commit no_faults (Inr ()))) anything fault_only"
  proof (rule triple_then[OF _ sync_dirs_triple])
    show "triple no_faults (applied old ?new opers ?wc) (finish_commit no_faults (Inr ())) anything fault_only"
      by (rule triple_from_states, rule triple_weaken[OF finish_commit_total]) (auto simp: anything_def fault_only_def)
  qed (simp add: fault_only_def)
  have fin: "triple no_faults ?S (apply_and_finish no_faults opers) anything fault_only"
  proof (rule tripleI)
    fix d e d' assume p: "on ?S d" and run: "apply_and_finish no_faults opers d = (Inl e, d')"
    have "triple no_faults ?S (apply_operations no_faults opers) anything (\<lambda>b F w s. b)"
      by (rule triple_weaken[OF apply_operations_total[OF cl v src]]) (auto simp: fault_only_def)
    from triple_total[OF this p] obtain u d1 where a: "apply_operations no_faults opers d = (Inr u, d1)" by blast
    then have "on (applied old ?new opers ?wc) d1" using triple_Inr[OF apply_from_original[OF cl v refl] p] by blast
    then show "\<exists>b. (b \<longrightarrow> hit no_faults d') \<and> on (fault_only b) d'"
      using triple_Inl[OF ok, of d1 e d'] run a by (simp add: apply_and_finish_def)
  qed (simp add: anything_def on_def)
  have mark: "triple no_faults (is_state old (Some wal) staged) (mark_wal_committing no_faults crc) ?S fault_only"
    by (rule triple_weaken[OF triple_mark_committing]) (auto simp: fault_only_def)
  have "triple no_faults ?S (sync_staging_files no_faults) ?S fault_only" "triple no_faults ?S (sync_wal no_faults) ?S fault_only"
    by (rule sync_before_apply; auto simp: is_state_def fault_only_def)+
  then show ?thesis unfolding apply_inner_def by (intro triple_then[OF triple_then[OF triple_then[OF fin]] mark])
qed

definition demo_storage :: storage where
  "demo_storage = \<lparr>disk_of = tx_disk, tx_active = True\<rparr>"

definition demo_tx :: transaction where
  "demo_tx = \<lparr>tx_operations = demo_opers, committed = False\<rparr>"

theorem commit_all_or_nothing_witness:
  "wal_file (disk_of (snd (commit no_faults demo_crc demo_storage demo_tx))) = None \<and>
   \<not> tx_active (snd (commit no_faults demo_crc demo_storage demo_tx))"
  using commit_all_or_nothing[OF _ prod.collapse[symmetric], where s = demo_storage and tx = demo_tx and ser = tx_ser]
    tx_demo_ready by (simp add: demo_storage_def demo_tx_def)

lemma commit_completes:
  assumes "tx_ready crc ser (tx_operations tx) (disk_of s)"
    and "sources_ok (map_of (staging (disk_of s))) (map_of (staging (disk_of s))) (fs (disk_of s)) (tx_operations tx)"
  shows "\<exists>s'. commit no_faults crc s tx = (Inr (), s') \<and>
    fs (disk_of s') = spec_ops (map_of (staging (disk_of s))) (tx_operations tx) (fs (disk_of s))"
proof -
  obtain wal where cl: "clean_files (fs (disk_of s))" and v: "valid_tx (fs (disk_of s)) (tx_operations tx)"
    and p: "on (is_state (fs (disk_of s)) (Some wal) (map_of (staging (disk_of s)))) (disk_of s)"
    using assms(1) by (rule tx_readyE)
  have "triple no_faults (is_state (fs (disk_of s)) (Some wal) (map_of (staging (disk_of s))))
      (apply_inner no_faults crc (tx_operations tx)) anything (\<lambda>b F w s. b)"
    by (rule triple_weaken[OF commit_inner_succeeds[OF cl v assms(2)]]) (auto simp: fault_only_def)
  from triple_total[OF this p] obtain d' where
    run: "apply_inner no_faults crc (tx_operations tx) (disk_of s) = (Inr (), d')" by auto
  from triple_Inr[OF commit_total_triple[OF cl v refl] p run] run show ?thesis
    by (auto simp: commit_def dest: finishedD)
qed

text \<open>
  A transaction of one write also completes when the key exists: it replaces the file. (Only an
  interrupted commit of such a transaction may lose the old file.)
\<close>

lemma triple_cannot_fail: "triple no_faults P m Q (\<lambda>b F w s. b) \<Longrightarrow> triple no_faults P m Q E"
  by (rule tripleI) (use triple_total in fastforce)+

lemma commit_write_completes:
  assumes "tx_operations tx = [Write c k p]" "wal_file (disk_of s) = Some wal" "clean_files (fs (disk_of s))"
    and "clean_name (as_str c)" "clean_name k" "map_of (staging (disk_of s)) p \<noteq> None"
  shows "\<exists>s'. commit no_faults crc s tx = (Inr (), s') \<and>
    fs (disk_of s') = spec_ops (map_of (staging (disk_of s))) (tx_operations tx) (fs (disk_of s)) \<and>
    wal_file (disk_of s') = None \<and> staging (disk_of s') = [] \<and> \<not> tx_active s'"
proof -
  let ?F = "fs (disk_of s)" and ?staged = "map_of (staging (disk_of s))" and ?op = "Write c k p"
  let ?wc = "mark_committing crc wal" and ?V = "spec_op ?staged (Write c k p) ?F"
  let ?S = "is_state ?F (Some ?wc) ?staged" and ?E = "\<lambda>b F w s. b"
  have "triple no_faults ?S (apply_operation no_faults ?op) anything ?E"
    unfolding apply_operation.simps backup_file_def
    by (rule triple_pre, (rule wp_io)+) (use assms(6) in \<open>auto simp: is_state_def anything_def\<close>)
  moreover have "triple no_faults ?S (apply_operation no_faults ?op) (shows_view ?staged ?V) (\<lambda>_. anything)"
    by (rule triple_pre[OF apply_loop.step_sim])
      (use assms(3-5) clean_files_view clean_files_named in \<open>auto simp: is_state_def shows_view_def spec_ops_def\<close>)
  ultimately have "triple no_faults ?S (apply_operation no_faults ?op) (shows_view ?staged ?V) ?E"
    by (rule triple_weaken[OF triple_conj]) auto
  then have "triple no_faults ?S (apply_operations no_faults [?op]) (shows_view ?staged ?V) ?E"
    unfolding apply_operations_def for_io.simps by (rule triple_then[rotated]) (rule triple_pre[OF triple_ret], simp)
  note app = triple_cannot_fail[OF this, where E = "\<lambda>_ _ _ _. False"]
  have ok: "triple no_faults (shows_view ?staged ?V)
      (thenIO (sync_collection_dirs no_faults [?op]) (finish_commit no_faults (Inr ()))) (finished ?V) ?E"
  proof (rule triple_then)
    show "triple no_faults (shows_view ?staged ?V) (sync_collection_dirs no_faults [?op]) (shows_view ?staged ?V) ?E"
      by (rule sync_dirs_triple) simp
    show "triple no_faults (shows_view ?staged ?V) (finish_commit no_faults (Inr ())) (finished ?V) ?E"
      by (rule triple_from_states, rule triple_weaken[OF finish_commit_total]) (auto simp: shows_view_def)
  qed
  have fin: "triple no_faults ?S (apply_and_finish no_faults [?op]) (finished ?V) ?E"
    by (rule triple_apply_and_finish[OF app ok]) (rule tripleI; simp add: on_def)
  have mark: "triple no_faults (is_state ?F (Some wal) ?staged) (mark_wal_committing no_faults crc) ?S ?E"
    by (rule triple_weaken[OF triple_mark_committing]) auto
  have "triple no_faults ?S (sync_staging_files no_faults) ?S ?E" "triple no_faults ?S (sync_wal no_faults) ?S ?E"
    by (rule sync_before_apply; auto simp: is_state_def)+
  then have t: "triple no_faults (is_state ?F (Some wal) ?staged) (apply_inner no_faults crc [?op]) (finished ?V) ?E"
    unfolding apply_inner_def by (intro triple_then[OF triple_then[OF triple_then[OF fin]] mark])
  have "on (is_state ?F (Some wal) ?staged) (disk_of s)" using assms(2) by (simp add: on_def is_state_def)
  from triple_total[OF t this] obtain d' where "apply_inner no_faults crc [?op] (disk_of s) = (Inr (), d')"
    "on (finished ?V) d'" by auto
  then show ?thesis using assms(1) finishedD by (auto simp: commit_def spec_ops_def)
qed

text \<open>
  C11: a valid transaction whose staged files and copy sources exist when their turn comes commits:
  without faults the commit returns success, and the collections are as specified.
\<close>

theorem commit_succeeds:
  assumes "tx_ready crc ser (tx_operations tx) (disk_of s)"
    and "sources_ok (map_of (staging (disk_of s))) (map_of (staging (disk_of s))) (fs (disk_of s)) (tx_operations tx)"
  shows "\<exists>s'. commit no_faults crc s tx = (Inr (), s') \<and>
    fs (disk_of s') = spec_ops (map_of (staging (disk_of s))) (tx_operations tx) (fs (disk_of s))"
  using assms by (rule commit_completes)

theorem commit_succeeds_witness:
  "\<exists>s'. commit no_faults demo_crc demo_storage demo_tx = (Inr (), s') \<and>
    fs (disk_of s') ''new'' = Some [''k'' \<mapsto> [7]] \<and> fs (disk_of s') ''diagnostic_database'' = Some Map.empty"
proof -
  have "sources_ok (map_of (staging tx_disk)) (map_of (staging tx_disk)) (fs tx_disk) demo_opers"
    by (simp add: tx_disk_def demo_opers_def)
  then show ?thesis
    using commit_succeeds[where s = demo_storage and tx = demo_tx and crc = demo_crc and ser = tx_ser] tx_demo_ready
    by (auto simp: demo_storage_def demo_tx_def demo_opers_def spec_ops_def tx_disk_def tx_fs[unfolded tx_disk_def] or_empty_def)
qed

end
