(* ===== verification/Local_Collection.thy ===== *)
theory Local_Collection
  imports Local_Storage Disk_Logic
begin

text \<open>
  Collections (\<open>cda-storage/src/local_collection.rs\<close>, \<open>io.rs\<close>): reading, listing and recording
  changes of keys, and seeding of an empty collection (\<open>storage_seed.rs\<close>). A collection handle is
  the name of its collection. The name that \<open>write\<close> draws for its staged file (a fresh UUID) is an
  argument.
\<close>

section \<open>Keys on disk\<close>

definition is_valid_key :: "string \<Rightarrow> bool" where
  "is_valid_key name \<longleftrightarrow> \<not> is_bak name \<and> \<not> is_tmp name"

definition eq_ignore_ascii_case :: "string \<Rightarrow> string \<Rightarrow> bool" where
  "eq_ignore_ascii_case a b \<longleftrightarrow> normalize_key a = normalize_key b"

definition ensure_normalized_on_disk :: "faults \<Rightarrow> string \<Rightarrow> string \<Rightarrow> unit io" where
  "ensure_normalized_on_disk flt c key =
     query (\<lambda>d. (file_exists d c key, coll d c)) (\<lambda>(exists, entries).
       if exists then ret ()
       else case entries of
         None \<Rightarrow> ret ()
       | Some al \<Rightarrow>
           (case find (\<lambda>name. is_valid_key name \<and> name \<noteq> key \<and> eq_ignore_ascii_case name key) (listing al) of
              None \<Rightarrow> ret ()
            | Some name \<Rightarrow> ignoreIO (mutate flt (rename_file c name key))))"

definition list_keys_in_dir :: "disk \<Rightarrow> string \<Rightarrow> string list" where
  "list_keys_in_dir d c =
     (case coll d c of
        None \<Rightarrow> []
      | Some al \<Rightarrow> map normalize_key (filter is_valid_key (listing al)))"

section \<open>Reading\<close>

definition file_content :: "disk \<Rightarrow> string \<Rightarrow> string \<Rightarrow> byte list storage_result" where
  "file_content d c key =
     (case coll d c of
        None \<Rightarrow> Inl (map_io_error IoNotFound key)
      | Some al \<Rightarrow> ok_or (map_of al key) (map_io_error IoNotFound key))"

definition read_key :: "faults \<Rightarrow> string \<Rightarrow> string \<Rightarrow> byte list io" where
  "read_key flt c key0 d =
     (let key = normalize_key key0
      in case sanitize_path_segment key of
           Inl e \<Rightarrow> (Inl e, d)
         | Inr _ \<Rightarrow>
             (let d1 = snd (ensure_normalized_on_disk flt c key d)
              in (file_content d1 c key, d1)))"

record metadata_rec =
  meta_name :: string
  data_size :: nat

definition metadata :: "faults \<Rightarrow> string \<Rightarrow> string \<Rightarrow> metadata_rec io" where
  "metadata flt c key0 d =
     (let key = normalize_key key0
      in case sanitize_path_segment key of
           Inl e \<Rightarrow> (Inl e, d)
         | Inr _ \<Rightarrow>
             (let d1 = snd (ensure_normalized_on_disk flt c key d)
              in (map_sum id (\<lambda>x. \<lparr>meta_name = key, data_size = length x\<rparr>) (file_content d1 c key), d1)))"

definition list_keys :: "disk \<Rightarrow> string \<Rightarrow> string list storage_result" where
  "list_keys d c = Inr (list_keys_in_dir d c)"

definition len :: "disk \<Rightarrow> string \<Rightarrow> nat storage_result" where
  "len d c = Inr (length (list_keys_in_dir d c))"

definition collection_is_empty :: "disk \<Rightarrow> string \<Rightarrow> bool storage_result" where
  "collection_is_empty d c = map_sum id (\<lambda>n. n = 0) (len d c)"

text \<open>\<open>LocalRandomAccessData::read_at\<close>: what a positional read puts into a buffer of \<open>n\<close> bytes.\<close>

definition read_at :: "byte list \<Rightarrow> nat \<Rightarrow> nat \<Rightarrow> byte list" where
  "read_at file offset n = take n (drop offset file)"

definition file_path :: "faults \<Rightarrow> string \<Rightarrow> string \<Rightarrow> string io" where
  "file_path flt c key0 d =
     (let key = normalize_key key0;
          d1 = snd (ensure_normalized_on_disk flt c key d)
      in case sanitize_path_segment key of
           Inl e \<Rightarrow> (Inl e, d1)
         | Inr _ \<Rightarrow> if file_exists d1 c key then (Inr key, d1) else (Inl (KeyNotFound key), d1))"

section \<open>Recording changes\<close>

definition stage_file :: "string \<Rightarrow> byte list \<Rightarrow> disk \<Rightarrow> disk storage_result" where
  "stage_file name data d = Inr (d\<lparr>staging := AList.update name data (staging d)\<rparr>)"

definition write_key ::
  "faults \<Rightarrow> checksum \<Rightarrow> serialiser \<Rightarrow> collection_name \<Rightarrow> string \<Rightarrow> string \<Rightarrow> byte list \<Rightarrow>
   storage \<Rightarrow> transaction \<Rightarrow> unit storage_result \<times> storage \<times> transaction" where
  "write_key flt crc ser name uuid key0 data s tx =
     (let key = normalize_key key0; staging_file_name = append_extension uuid ''tmp''
      in case sanitize_path_segment key of
           Inl e \<Rightarrow> (Inl e, s, tx)
         | Inr _ \<Rightarrow>
             (case mutate flt (stage_file staging_file_name data) (disk_of s) of
                (Inl e, d') \<Rightarrow> (Inl e, s\<lparr>disk_of := d'\<rparr>, tx)
              | (Inr _, d') \<Rightarrow>
                  log_operation flt crc ser (Write name key staging_file_name) (s\<lparr>disk_of := d'\<rparr>) tx))"

definition delete_key ::
  "faults \<Rightarrow> checksum \<Rightarrow> serialiser \<Rightarrow> collection_name \<Rightarrow> string \<Rightarrow>
   storage \<Rightarrow> transaction \<Rightarrow> unit storage_result \<times> storage \<times> transaction" where
  "delete_key flt crc ser name key0 s tx =
     (let key = normalize_key key0;
          s1 = s\<lparr>disk_of := snd (ensure_normalized_on_disk flt (as_str name) key (disk_of s))\<rparr>
      in case sanitize_path_segment key of
           Inl e \<Rightarrow> (Inl e, s1, tx)
         | Inr _ \<Rightarrow>
             if \<not> file_exists (disk_of s1) (as_str name) key then (Inl (KeyNotFound key), s1, tx)
             else log_operation flt crc ser (Delete name key) s1 tx)"

definition delete_all ::
  "faults \<Rightarrow> checksum \<Rightarrow> serialiser \<Rightarrow> collection_name \<Rightarrow>
   storage \<Rightarrow> transaction \<Rightarrow> unit storage_result \<times> storage \<times> transaction" where
  "delete_all flt crc ser name s tx = log_operation flt crc ser (DeleteAll name) s tx"

section \<open>Seeding\<close>

text \<open>The loop over the entries: failed writes are skipped, the others counted.\<close>

fun seed_entries ::
  "faults \<Rightarrow> checksum \<Rightarrow> serialiser \<Rightarrow> collection_name \<Rightarrow> (string \<times> string \<times> byte list) list \<Rightarrow>
   storage \<Rightarrow> transaction \<Rightarrow> nat \<Rightarrow> storage \<times> transaction \<times> nat" where
  "seed_entries flt crc ser name [] s tx count = (s, tx, count)"
| "seed_entries flt crc ser name ((uuid, key, data) # rest) s tx count =
     (case write_key flt crc ser name uuid key data s tx of
        (Inl e, s', tx') \<Rightarrow> seed_entries flt crc ser name rest s' tx' count
      | (Inr _, s', tx') \<Rightarrow> seed_entries flt crc ser name rest s' tx' (saturating_add count 1))"

definition seed_storage_collection ::
  "faults \<Rightarrow> checksum \<Rightarrow> serialiser \<Rightarrow> collection_name \<Rightarrow> (string \<times> string \<times> byte list) list \<Rightarrow>
   storage \<Rightarrow> nat option \<times> storage" where
  "seed_storage_collection flt crc ser name seed s =
     (case get_or_create_collection flt name s of
        (Inl e, s1) \<Rightarrow> (None, s1)
      | (Inr c, s1) \<Rightarrow>
          (case collection_is_empty (disk_of s1) c of
             Inl e \<Rightarrow> (None, s1)
           | Inr False \<Rightarrow> (None, s1)
           | Inr True \<Rightarrow>
               (case begin_transaction flt crc s1 of
                  (Inl e, s2) \<Rightarrow> (None, s2)
                | (Inr tx, s2) \<Rightarrow>
                    (case seed_entries flt crc ser name seed s2 tx 0 of
                       (s3, tx', count) \<Rightarrow>
                         if count = 0 then (Some 0, drop_transaction flt s3 tx')
                         else case commit flt crc s3 tx' of
                           (Inl e, s4) \<Rightarrow> (None, s4)
                         | (Inr _, s4) \<Rightarrow> (Some count, s4)))))"

section \<open>Every listed key can be read\<close>

lemma snd_ensure:
  "snd (ensure_normalized_on_disk flt c key d) =
    (if file_exists d c key then d
     else case coll d c of
       None \<Rightarrow> d
     | Some al \<Rightarrow>
         (case find (\<lambda>name. is_valid_key name \<and> name \<noteq> key \<and> eq_ignore_ascii_case name key) (listing al) of
            None \<Rightarrow> d
          | Some name \<Rightarrow> snd (mutate flt (rename_file c name key) d)))"
  by (auto simp: ensure_normalized_on_disk_def query_def ret_def ignoreIO_def split: option.splits)

lemma mutate_ok: "f (d\<lparr>clock := Suc (clock d)\<rparr>) = Inr d' \<Longrightarrow> mutate no_faults f d = (Inr (), d')"
  by (simp add: mutate_def no_faults_def Let_def)

lemma file_content_exists: "file_exists d c key \<Longrightarrow> \<exists>x. file_content d c key = Inr x"
  by (auto simp: file_exists_def file_content_def ok_or_def split: option.splits)

text \<open>After the self-healing rename the key exists, if the collection lists it.\<close>

lemma ensure_finds_listed:
  assumes "k \<in> set (list_keys_in_dir d c)"
  shows "file_exists (snd (ensure_normalized_on_disk no_faults c k d)) c k"
proof (cases "file_exists d c k")
  case False
  obtain al where al: "coll d c = Some al"
    using assms by (cases "coll d c") (auto simp: list_keys_in_dir_def)
  obtain n where n: "n \<in> set (listing al)" "is_valid_key n" "normalize_key n = k"
    using assms al by (auto simp: list_keys_in_dir_def)
  let ?P = "\<lambda>name. is_valid_key name \<and> name \<noteq> k \<and> eq_ignore_ascii_case name k"
  have "n \<noteq> k" using False n(1) al by (auto simp: file_exists_def)
  moreover have "eq_ignore_ascii_case n k" using n(3) by (auto simp: eq_ignore_ascii_case_def)
  ultimately have "\<exists>x\<in>set (listing al). ?P x" using n by blast
  then obtain name where f: "find ?P (listing al) = Some name"
    by (cases "find ?P (listing al)") (auto simp: find_None_iff)
  then have "name \<in> dom (map_of al)" by (metis find_Some_iff nth_mem set_listing)
  then obtain x where x: "map_of al name = Some x" by blast
  have "fs (d\<lparr>clock := Suc (clock d)\<rparr>) c = Some (map_of al)" using al by (simp add: fs_def)
  from rename_file_ok[OF this x, of k] obtain d' where
    "rename_file c name k (d\<lparr>clock := Suc (clock d)\<rparr>) = Inr d'" "fs d' = (fs d)(c \<mapsto> (map_of al)(name := None, k \<mapsto> x))"
    by auto
  then show ?thesis using False al f mutate_ok[of "rename_file c name k" d d']
    by (simp add: snd_ensure file_exists_fs)
qed (simp add: snd_ensure)

lemma listed_key_normalized: "k \<in> set (list_keys_in_dir d c) \<Longrightarrow> normalize_key k = k"
  by (auto simp: list_keys_in_dir_def split: option.splits)

text \<open>
  every key that a collection lists can be read, even when the file on disk has another
  spelling of the key: \<open>read\<close> finds a file, \<open>metadata\<close> reports its size and \<open>file_path\<close> resolves it.
\<close>

theorem listed_key_readable:
  assumes "k \<in> set (list_keys_in_dir d c)" "sanitize_path_segment k = Inr ()"
  shows "\<exists>x d'. read_key no_faults c k d = (Inr x, d') \<and>
    metadata no_faults c k d = (Inr \<lparr>meta_name = k, data_size = length x\<rparr>, d') \<and>
    file_path no_faults c k d = (Inr k, d')"
proof -
  let ?d = "snd (ensure_normalized_on_disk no_faults c k d)"
  have "file_exists ?d c k" by (rule ensure_finds_listed[OF assms(1)])
  then obtain x where "file_content ?d c k = Inr x" using file_content_exists by blast
  then show ?thesis using assms(2) listed_key_normalized[OF assms(1)] \<open>file_exists ?d c k\<close>
    by (simp add: read_key_def metadata_def file_path_def Let_def)
qed

definition mixed_case_disk :: disk where
  "mixed_case_disk = \<lparr>colls = [(''c'', [(''A.mdd'', [1, 2])])], wal_file = None, staging = [], clock = 0\<rparr>"

theorem listed_key_readable_witness:
  "''a.mdd'' \<in> set (list_keys_in_dir mixed_case_disk ''c'') \<and> \<not> file_exists mixed_case_disk ''c'' ''a.mdd'' \<and>
   (\<exists>x d'. read_key no_faults ''c'' ''a.mdd'' mixed_case_disk = (Inr x, d'))"
proof -
  have k: "''a.mdd'' \<in> set (list_keys_in_dir mixed_case_disk ''c'')" by code_simp
  have s: "sanitize_path_segment ''a.mdd'' = Inr ()" by code_simp
  have "\<not> file_exists mixed_case_disk ''c'' ''a.mdd''" by code_simp
  with k listed_key_readable[OF k s] show ?thesis by blast
qed

section \<open>The log follows the transaction\<close>

text \<open>
  The log on disk lists exactly the operations that the transaction recorded.
\<close>

definition logged :: "checksum \<Rightarrow> serialiser \<Rightarrow> storage \<Rightarrow> transaction \<Rightarrow> bool" where
  "logged crc ser s tx \<longleftrightarrow> (case wal_file (disk_of s) of
     None \<Rightarrow> False
   | Some wal \<Rightarrow> append_all crc ser (tx_operations tx) (create_wal crc) = Inr wal)"

text \<open>What recording must not change: the committed files and the flag.\<close>

definition isolated :: "storage \<Rightarrow> storage \<Rightarrow> bool" where
  "isolated s s' \<longleftrightarrow> fs (disk_of s') = fs (disk_of s) \<and> tx_active s' = tx_active s"

lemma append_all_snoc:
  "append_all crc ser (xs @ [x]) w = bindE (append_all crc ser xs w) (append_operation crc ser x)"
proof -
  have "for_each f [x] = f x" for f :: "operation \<Rightarrow> byte list \<Rightarrow> byte list storage_result"
  proof
    show "for_each f [x] w = f x w" for w by (cases "f x w") auto
  qed
  then show ?thesis by (simp add: append_all_def for_each_append)
qed

lemma log_operation_cases:
  assumes "logged crc ser s tx"
  obtains e d' where "log_operation flt crc ser oper s tx = (Inl e, s\<lparr>disk_of := d'\<rparr>, tx)" "fs d' = fs (disk_of s)"
      "logged crc ser (s\<lparr>disk_of := d'\<rparr>) tx" "staging d' = staging (disk_of s)"
  | d' where "log_operation flt crc ser oper s tx = (Inr (), s\<lparr>disk_of := d'\<rparr>, tx_record oper tx)" "fs d' = fs (disk_of s)"
      "logged crc ser (s\<lparr>disk_of := d'\<rparr>) (tx_record oper tx)" "staging d' = staging (disk_of s)"
proof -
  obtain wal where w: "wal_file (disk_of s) = Some wal" "append_all crc ser (tx_operations tx) (create_wal crc) = Inr wal"
    using assms by (auto simp: logged_def split: option.splits)
  let ?d = "(disk_of s)\<lparr>clock := Suc (clock (disk_of s))\<rparr>"
  show ?thesis
  proof (cases "flt (clock (disk_of s)) \<or> (\<exists>e. append_operation crc ser oper wal = Inl e)")
    case True
    then have "\<exists>e. log_operation flt crc ser oper s tx = (Inl e, s\<lparr>disk_of := ?d\<rparr>, tx)"
      using w(1) by (cases "flt (clock (disk_of s))") (auto simp: log_operation_def mutate_def Let_def)
    then show ?thesis using that(1) w by (auto simp: logged_def)
  next
    case False
    then obtain wal' where a: "append_operation crc ser oper wal = Inr wal'"
      by (cases "append_operation crc ser oper wal") auto
    let ?d' = "?d\<lparr>wal_file := Some wal'\<rparr>"
    have "log_operation flt crc ser oper s tx = (Inr (), s\<lparr>disk_of := ?d'\<rparr>, tx_record oper tx)"
      using w(1) a False by (simp add: log_operation_def mutate_def Let_def write_wal_def)
    then show ?thesis using that(2) w(2) a by (simp add: logged_def tx_record_def append_all_snoc)
  qed
qed

text \<open>The calls a client makes while a transaction is open.\<close>

datatype request =
    CreateReq collection_name
  | DeleteReq collection_name
  | CopyReq collection_name collection_name
  | WriteKeyReq collection_name string string "byte list"
  | DeleteKeyReq collection_name string
  | DeleteAllReq collection_name

fun serve ::
  "faults \<Rightarrow> checksum \<Rightarrow> serialiser \<Rightarrow> request \<Rightarrow> storage \<Rightarrow> transaction \<Rightarrow>
   unit storage_result \<times> storage \<times> transaction" where
  "serve flt crc ser (CreateReq n) s tx = create_collection flt crc ser n s tx"
| "serve flt crc ser (DeleteReq n) s tx = delete_collection flt crc ser n s tx"
| "serve flt crc ser (CopyReq n n') s tx = copy_collection flt crc ser n n' s tx"
| "serve flt crc ser (WriteKeyReq n uuid k data) s tx = write_key flt crc ser n uuid k data s tx"
| "serve flt crc ser (DeleteKeyReq n k) s tx = delete_key flt crc ser n k s tx"
| "serve flt crc ser (DeleteAllReq n) s tx = delete_all flt crc ser n s tx"

fun serve_all ::
  "faults \<Rightarrow> checksum \<Rightarrow> serialiser \<Rightarrow> request list \<Rightarrow> storage \<Rightarrow> transaction \<Rightarrow> storage \<times> transaction" where
  "serve_all flt crc ser [] s tx = (s, tx)"
| "serve_all flt crc ser (r # rs) s tx =
     (case serve flt crc ser r s tx of (_, s', tx') \<Rightarrow> serve_all flt crc ser rs s' tx')"

definition normalized_files :: "files \<Rightarrow> bool" where
  "normalized_files F \<longleftrightarrow> (\<forall>c m k. F c = Some m \<longrightarrow> m k \<noteq> None \<longrightarrow> normalize_key k = k)"

lemma ensure_noop:
  assumes "normalized_files (fs d)" "normalize_key key = key"
  shows "snd (ensure_normalized_on_disk flt c key d) = d"
proof -
  have "find (\<lambda>name. is_valid_key name \<and> name \<noteq> key \<and> eq_ignore_ascii_case name key) (listing al) = None"
    if al: "coll d c = Some al" for al
  proof -
    have "normalize_key n = n" if "n \<in> set (listing al)" for n
      using assms(1) coll_Some_fs[OF al] that by (auto simp: normalized_files_def)
    then show ?thesis using assms(2) by (auto simp: find_None_iff eq_ignore_ascii_case_def)
  qed
  then show ?thesis by (simp add: snd_ensure split: option.splits)
qed

text \<open>One request: recorded in memory and in the log, or rejected and in neither.\<close>

definition recorded :: "checksum \<Rightarrow> serialiser \<Rightarrow> storage \<Rightarrow> transaction \<Rightarrow>
    unit storage_result \<times> storage \<times> transaction \<Rightarrow> bool" where
  "recorded crc ser s tx out \<longleftrightarrow> (case out of (r, s', tx') \<Rightarrow>
     logged crc ser s' tx' \<and> isolated s s' \<and>
     (if is_ok r then \<exists>oper. tx' = tx_record oper tx else tx' = tx))"

lemma log_operation_recorded:
  assumes "logged crc ser s tx" "isolated s0 s"
  shows "recorded crc ser s0 tx (log_operation flt crc ser oper s tx)"
  using assms(1)
  by (rule log_operation_cases[where flt = flt and oper = oper])
    (use assms(2) in \<open>auto simp: recorded_def isolated_def\<close>)

lemma rejected_recorded: "logged crc ser s tx \<Longrightarrow> recorded crc ser s tx (Inl e, s, tx)"
  by (simp add: recorded_def isolated_def)

lemma isolated_refl: "isolated s s"
  by (simp add: isolated_def)

lemma write_key_recorded:
  assumes "logged crc ser s tx"
  shows "recorded crc ser s tx (write_key flt crc ser n uuid k data s tx)"
proof (cases "sanitize_path_segment (normalize_key k)")
  case (Inl e)
  then show ?thesis using assms by (simp add: write_key_def Let_def rejected_recorded)
next
  case (Inr u)
  obtain q d' where m: "mutate flt (stage_file (append_extension uuid ''tmp'') data) (disk_of s) = (q, d')" by fastforce
  then have same: "fs d' = fs (disk_of s)" "wal_file d' = wal_file (disk_of s)"
    by (auto simp: mutate_def Let_def stage_file_def split: if_splits)
  then have l: "logged crc ser (s\<lparr>disk_of := d'\<rparr>) tx" "isolated s (s\<lparr>disk_of := d'\<rparr>)"
    using assms by (auto simp: logged_def isolated_def)
  show ?thesis
  proof (cases q)
    case (Inl e)
    then show ?thesis using l m Inr by (simp add: write_key_def Let_def recorded_def)
  next
    case (Inr u')
    then show ?thesis using log_operation_recorded[OF l] m \<open>sanitize_path_segment (normalize_key k) = Inr u\<close>
      by (simp add: write_key_def Let_def)
  qed
qed

lemma serve_recorded:
  assumes "logged crc ser s tx" "normalized_files (fs (disk_of s))"
  shows "recorded crc ser s tx (serve flt crc ser r s tx)"
proof (cases r)
  case (WriteKeyReq n uuid k data)
  then show ?thesis using write_key_recorded[OF assms(1)] by simp
next
  case (DeleteKeyReq n k)
  have "snd (ensure_normalized_on_disk flt (as_str n) (normalize_key k) (disk_of s)) = disk_of s"
    by (rule ensure_noop[OF assms(2)]) simp
  then show ?thesis
    using assms(1) log_operation_recorded[OF assms(1) isolated_refl] rejected_recorded[OF assms(1)]
    by (auto simp: DeleteKeyReq delete_key_def Let_def split: sum.splits)
qed (use log_operation_recorded[OF assms(1) isolated_refl] rejected_recorded[OF assms(1)] in
    \<open>auto simp: create_collection_def delete_collection_def copy_collection_def delete_all_def split: sum.splits\<close>)

text \<open>
  transactions are isolated and write-ahead. After \<open>begin_transaction\<close> and any sequence of
  requests, of which any may be rejected or fail, the collections are still those before the
  transaction, the transaction is active, and the log on disk lists exactly the recorded operations.
\<close>

theorem transaction_isolated_and_logged:
  assumes "begin_transaction flt crc s = (Inr tx, s1)" "normalized_files (fs (disk_of s))"
    and "serve_all flt crc ser reqs s1 tx = (s2, tx2)"
  shows "fs (disk_of s2) = fs (disk_of s) \<and> tx_active s2 \<and> logged crc ser s2 tx2"
proof -
  have b: "logged crc ser s1 tx" "fs (disk_of s1) = fs (disk_of s)" "tx_active s1"
    using assms(1)
    by (auto simp: begin_transaction_def thenIO_def bindIO_def mutate_def Let_def write_wal_def logged_def transaction_new_def
        append_all_def split: if_splits)
  have "fs (disk_of s2) = fs (disk_of s1) \<and> tx_active s2 = tx_active s1 \<and> logged crc ser s2 tx2"
    if "logged crc ser s1 tx" "normalized_files (fs (disk_of s1))" "serve_all flt crc ser reqs s1 tx = (s2, tx2)" for s1 tx
    using that
  proof (induction reqs arbitrary: s1 tx)
    case (Cons r reqs)
    obtain q s' tx' where q: "serve flt crc ser r s1 tx = (q, s', tx')" by (metis prod_cases3)
    then have "logged crc ser s' tx'" "isolated s1 s'"
      using serve_recorded[OF Cons.prems(1,2), of flt r] by (auto simp: recorded_def)
    then show ?case using Cons.IH[of s' tx'] Cons.prems q by (simp add: isolated_def)
  qed simp
  from this[OF b(1) _ assms(3)] show ?thesis using b assms(2) by simp
qed

definition lower_case_storage :: storage where
  "lower_case_storage = \<lparr>disk_of = \<lparr>colls = [(''diagnostic_database'', [(''a'', [1])])], wal_file = None,
     staging = [], clock = 0\<rparr>, tx_active = False\<rparr>"

theorem transaction_isolated_and_logged_witness:
  "case serve_all no_faults demo_crc demo_ser [DeleteAllReq DiagnosticDatabase, DeleteReq (Custom ''x'')]
      (snd (begin_transaction no_faults demo_crc lower_case_storage)) transaction_new of
    (s2, tx2) \<Rightarrow> fs (disk_of s2) = fs (disk_of lower_case_storage) \<and> tx_active s2 \<and> logged demo_crc demo_ser s2 tx2"
proof -
  obtain s1 where b: "begin_transaction no_faults demo_crc lower_case_storage = (Inr transaction_new, s1)"
    by (auto simp: begin_transaction_def thenIO_def bindIO_def lower_case_storage_def mutate_def no_faults_def write_wal_def)
  have n: "normalized_files (fs (disk_of lower_case_storage))"
    by (auto simp: normalized_files_def lower_case_storage_def fs_def coll_def normalize_key_def ascii_lower_def
        split: if_splits)
  show ?thesis using transaction_isolated_and_logged[OF b n prod.collapse[symmetric], of demo_ser
        "[DeleteAllReq DiagnosticDatabase, DeleteReq (Custom ''x'')]"] b
    by (auto simp: case_prod_beta)
qed

end
