(* ===== verification/Storage_Limits.thy ===== *)
theory Storage_Limits
  imports Storage_Live Local_Collection
begin

text \<open>
  The transaction's other exits, and situations that the commit and the recovery do not handle: they
  delimit the hypotheses of the atomicity theorems.
\<close>

section \<open>Discarding\<close>

lemma remove_wal_ignored:
  "triple no_faults (is_state F w s) (query (\<lambda>d. wal_file d \<noteq> None) (\<lambda>b. whenIO b (ignoreIO (mutate no_faults remove_wal))))
     (is_state F None s) E"
proof (rule triple_query_state)
  fix d :: disk assume d: "wal_file d = w"
  have "triple no_faults (\<lambda>F' w' s'. is_state F w s F' w' s' \<and> w \<noteq> None) (mutate no_faults remove_wal) (is_state F None s)
      (\<lambda>b F w s. b \<and> True)"
    by (rule triple_mutate) (auto simp: on_def is_state_def remove_wal_def split: if_splits)
  note rm = triple_ignore_total[OF this]
  show "triple no_faults (is_state F w s)
      (whenIO (wal_file d \<noteq> None) (ignoreIO (mutate no_faults remove_wal))) (is_state F None s) E"
    by (rule triple_pre[OF triple_when[OF rm]]) (auto simp: d is_state_def)
qed

text \<open>
  dropping or rolling back a transaction that was not committed discards it: the collections are
  untouched, the log and the staged files are gone, and the next \<open>begin_transaction\<close> is accepted;
  while a transaction is active another one is refused and changes nothing.
\<close>

theorem rollback_discards:
  assumes "\<not> committed tx"
  shows "fs (disk_of (rollback no_faults s tx)) = fs (disk_of s) \<and>
    wal_file (disk_of (rollback no_faults s tx)) = None \<and> staging (disk_of (rollback no_faults s tx)) = [] \<and>
    is_ok (fst (begin_transaction no_faults crc (rollback no_faults s tx))) \<and>
    (tx_active s \<longrightarrow> begin_transaction flt crc s = (Inl TransactionBusy, s))"
proof -
  let ?m = "thenIO (ignoreIO (cleanup_directory_contents no_faults))
      (query (\<lambda>d. wal_file d \<noteq> None) (\<lambda>b. whenIO b (ignoreIO (mutate no_faults remove_wal))))"
  let ?F = "fs (disk_of s)" and ?w = "wal_file (disk_of s)" and ?s = "map_of (staging (disk_of s))"
  have "triple no_faults (is_state ?F ?w ?s) (ignoreIO (cleanup_directory_contents no_faults)) (is_state ?F ?w Map.empty) (\<lambda>b F w s. b)"
    by (rule triple_ignore_total, rule triple_weaken[OF cleanup_directory_triple]) auto
  then have "triple no_faults (is_state ?F ?w ?s) ?m (is_state ?F None Map.empty) (\<lambda>b F w s. b)"
    by (rule triple_then[OF remove_wal_ignored])
  moreover have "on (is_state ?F ?w ?s) (disk_of s)" by (simp add: on_def is_state_def)
  ultimately have "\<exists>x d'. ?m (disk_of s) = (Inr x, d') \<and> on (is_state ?F None Map.empty) d'" by (rule triple_total)
  then obtain d' where m: "?m (disk_of s) = (Inr (), d')" and "on (is_state ?F None Map.empty) d'" by auto
  then have d': "fs d' = ?F" "wal_file d' = None" "staging d' = []"
    by (simp_all add: on_def is_state_def map_of_empty_iff)
  have r: "rollback no_faults s tx = s\<lparr>disk_of := d', tx_active := False\<rparr>"
    using assms m by (simp add: rollback_def drop_transaction_def discard_def)
  show ?thesis unfolding r using d'
    by (simp add: begin_transaction_def thenIO_def bindIO_def mutate_def no_faults_def write_wal_def Let_def)
qed

theorem rollback_discards_witness:
  "fs (disk_of (rollback no_faults demo_storage demo_tx)) = fs tx_disk \<and>
   wal_file (disk_of (rollback no_faults demo_storage demo_tx)) = None"
  using rollback_discards[of demo_tx demo_storage] by (simp add: demo_tx_def demo_storage_def)

section \<open>An overwriting write that was not reached\<close>

text \<open>
  the undo of a write takes a key without a backup for a new file. When the process stops after
  the log was marked but before an overwriting write was reached, recovery therefore removes the
  original contents of the key, which no backup holds.
\<close>

theorem unreached_overwrite_is_lost:
  assumes "rkyv_roundtrip ser de" "append_all crc ser [Write c k p] (create_wal crc) = Inr wal" "length wal \<le> usize_max"
    and "wal_file d = Some (mark_committing crc wal)" "clean_files (fs d)"
    and "fs d (as_str c) = Some m" "m k = Some x"
  shows "\<exists>d'. recover no_faults crc de d = (Inr (), d') \<and> fs d' = (fs d)(as_str c \<mapsto> m(k := None))"
proof -
  let ?F = "fs d" and ?w = "wal_file d" and ?s = "map_of (staging d)" and ?c = "as_str c"
  let ?G = "?F(?c \<mapsto> m(k := None))"
  have m: "clean_map m" using clean_filesD[OF assms(5,6)] by simp
  have G: "clean_files ?G" using assms(5,6) by (auto simp: clean_files_def split: if_splits)
  have "clean_name k" using m assms(7) by (auto simp: clean_map_def)
  then have "is_bak (bak k)" by simp
  then have "bak k \<notin> dom m" using m clean_bak(2)[of "bak k"] unfolding clean_map_def by blast
  then have "m (bak k) = None" by (simp add: domIff)
  then have undo: "triple no_faults (is_state ?F ?w ?s) (remove_new_artifacts no_faults [Write c k p]) (is_state ?G ?w ?s) fault_only"
    unfolding remove_new_artifacts_def using assms(6,7)
    by (auto simp: file_exists_fs whenIO_def is_state_def fault_only_def
        intro!: triple_then triple_ret triple_query_state triple_pre[OF triple_remove_file])
  have "triple no_faults (is_state ?G ?w ?s) (rollback_partial_commit no_faults) (\<lambda>F' w' s'. F' = ?G) fault_only"
    by (rule triple_weaken[OF rollback_partial_commit_triple[OF G, of no_faults ?w]])
      (use clean_files_forward[OF G] in \<open>auto simp: is_state_def behind_def stopped_def fault_only_def forward_def\<close>)
  from triple_then[OF this undo]
  have rb: "triple no_faults (is_state ?F ?w ?s)
      (thenIO (remove_new_artifacts no_faults [Write c k p]) (rollback_partial_commit no_faults)) (\<lambda>F' w' s'. F' = ?G) fault_only" .
  have tail: "triple no_faults (\<lambda>F' w' s'. F' = ?G) (thenIO (remove_wal_if_exists no_faults) (cleanup_staging_dir no_faults))
      (\<lambda>F' w' s'. F' = ?G) (\<lambda>b F w s. b)"
  proof (rule triple_from_states, rule triple_then)
    fix F' :: files and w' s' assume "F' = ?G"
    then show "triple no_faults (is_state F' None s') (cleanup_staging_dir no_faults) (\<lambda>F' w' s'. F' = ?G) (\<lambda>b F w s. b)"
      by (intro triple_weaken[OF cleanup_staging_triple]) (auto simp: is_state_def)
    show "triple no_faults (is_state F' w' s') (remove_wal_if_exists no_faults) (is_state F' None s') (\<lambda>b F w s. b)"
      by (rule triple_weaken[OF remove_wal_triple]) auto
  qed
  note rd = wal_readback[OF assms(1-3)]
  have "recover no_faults crc de d = thenIO (thenIO (remove_new_artifacts no_faults [Write c k p]) (rollback_partial_commit no_faults))
      (thenIO (remove_wal_if_exists no_faults) (cleanup_staging_dir no_faults)) d"
    by (simp add: recover_def query_def assms(4) rd(2,3) recover_status_def recover_committing_def)
  moreover have "triple no_faults (is_state ?F ?w ?s)
      (thenIO (thenIO (remove_new_artifacts no_faults [Write c k p]) (rollback_partial_commit no_faults))
        (thenIO (remove_wal_if_exists no_faults) (cleanup_staging_dir no_faults))) (\<lambda>F' w' s'. F' = ?G) (\<lambda>b F w s. b)"
    by (rule triple_then[OF tail]) (rule triple_weaken[OF rb], auto simp: fault_only_def)
  moreover have "on (is_state ?F ?w ?s) d" by (simp add: on_def is_state_def)
  ultimately show ?thesis using triple_total by (fastforce simp: on_def)
qed

definition overwrite_disk :: disk where
  "overwrite_disk = \<lparr>colls = [(''new'', [(''k'', [5])])],
     wal_file = Some (mark_committing demo_crc (create_wal demo_crc @ entries demo_crc [[3]])),
     staging = [(''t'', [7])], clock = 0\<rparr>"

theorem unreached_overwrite_is_lost_witness:
  "\<exists>d'. recover no_faults demo_crc tx_de overwrite_disk = (Inr (), d') \<and> fs d' ''new'' = Some Map.empty"
proof -
  have fs0: "fs overwrite_disk = [''new'' \<mapsto> [''k'' \<mapsto> [5]]]"
    by (auto simp: fs_def coll_def overwrite_disk_def fun_eq_iff)
  have log: "append_all demo_crc tx_ser [Write (Custom ''new'') ''k'' ''t''] (create_wal demo_crc) =
      Inr (create_wal demo_crc @ entries demo_crc [[3]])"
    unfolding append_all_Inr
    by (intro exI[of _ "[[3]]"]) (simp add: serialised_def tx_ser_def demo_opers_def u32_max_def)
  have "clean_files (fs overwrite_disk)" using tx_names by (auto simp: clean_files_def fs0 split: if_splits)
  moreover have "wal_file overwrite_disk = Some (mark_committing demo_crc (create_wal demo_crc @ entries demo_crc [[3]]))"
    by (simp add: overwrite_disk_def)
  ultimately show ?thesis
    using unreached_overwrite_is_lost[OF tx_rkyv log, of overwrite_disk "[''k'' \<mapsto> [5]]" "[5]"]
    by (auto simp: fs0 create_wal_def usize_max_def)
qed

section \<open>A rollback that fails\<close>

text \<open>
  A commit that deletes a key and then copies a collection that is gone; the fault hits the rename that
  would restore the key.
\<close>

definition failing_opers :: "operation list" where
  "failing_opers = [Delete (Custom ''c'') ''k'', CopyCollection (Custom ''gone'') (Custom ''d'') False]"

definition failing_disk :: disk where
  "failing_disk = \<lparr>colls = [(''c'', [(''k'', [5])])], wal_file = Some [], staging = [], clock = 0\<rparr>"

lemma failing_names: "is_bak ''k.bak''" "\<not> is_bak ''k''" "\<not> is_bak ''c''" "\<not> is_tmp ''k.bak''"
  "without_extension ''k.bak'' = ''k''"
  by code_simp+

lemmas eval_defs = apply_inner_def apply_and_finish_def apply_operations_def mark_wal_committing_def
  sync_staging_files_def sync_wal_def backup_file_def backup_dir_def copy_dir_contents_def
  rollback_applied_operations_def remove_new_artifacts_def rollback_partial_commit_def rollback_collection_def
  restore_bak_files_in_dir_def restore_bak_entry_def finish_commit_def remove_wal_if_exists_def remove_wal_def
  sync_journal_dir_def fsync_def cleanup_directory_contents_def remove_dir_all_def remove_dir_def
  create_dir_def rename_file_def remove_file_def recover_def recover_status_def has_backup_files_def
  delete_all_backup_files_def delete_backups_in_def cleanup_staging_dir_def open_wal_def
  thenIO_def bindIO_def ignoreIO_def whenIO_def query_def ret_def fail_def mutate_def no_faults_def
  listing_def coll_def dir_exists_def file_exists_def set_coll_def del_coll_def append_extension_def Let_def
  failing_names

text \<open>
  the log is removed even when the rollback of a failed commit failed. The commit reports its
  error, the original contents exist only as a backup file, and the next start takes that file for a
  leftover of a finished commit and deletes it: a transaction that was refused has destroyed data.
\<close>

theorem failed_rollback_loses_data:
  "case apply_inner (\<lambda>n. n = 5) crc failing_opers failing_disk of (r, d1) \<Rightarrow>
     \<not> is_ok r \<and> colls d1 = [(''c'', [(''k.bak'', [5])])] \<and> wal_file d1 = None \<and>
     colls (snd (recover no_faults crc de d1)) = [(''c'', [])]"
  by (simp add: failing_opers_def failing_disk_def eval_defs)

section \<open>Copying a collection onto itself\<close>

text \<open>
  \<open>copy_collection\<close> accepts a collection as its own destination, and applying that operation
  empties the collection instead of leaving it as it is: the destination is moved away before the
  source is read.
\<close>

theorem copy_onto_itself_empties:
  assumes "fs d (as_str c) = Some m" "fs d (bak (as_str c)) = None"
  shows "\<exists>d'. apply_operation no_faults (CopyCollection c c ex) d = (Inr (), d') \<and> fs d' (as_str c) = Some Map.empty"
proof -
  let ?c = "as_str c"
  let ?G = "(fs d)(?c := None, bak ?c \<mapsto> m, ?c \<mapsto> Map.empty)"
  have copy: "triple no_faults (\<lambda>F w s. F = ?G) (copy_dir_contents no_faults ?c ?c) (\<lambda>F w s. F = ?G) (\<lambda>b F w s. b)"
    unfolding copy_dir_contents_def
  proof (rule triple_query)
    fix d' assume "on (\<lambda>F w s. F = ?G) d'"
    then have g: "fs d' = ?G" by (simp add: on_def)
    then have "coll d' ?c = Some []" by (auto simp: fs_def map_of_empty_iff fun_upd_def dest: fun_cong[of _ _ ?c])
    then show "triple no_faults (\<lambda>F w s. F = fs d' \<and> w = wal_file d' \<and> s = map_of (staging d'))
        (case coll d' ?c of None \<Rightarrow> fail (Io IoNotFound) | Some al \<Rightarrow> for_io (\<lambda>k. mutate no_faults (copy_file ?c ?c k)) (listing al))
        (\<lambda>F w s. F = ?G) (\<lambda>b F w s. b)"
      using g by (auto simp: listing_def intro!: triple_pre[OF triple_ret])
  qed
  have "triple no_faults (\<lambda>F w s. F = fs d) (apply_operation no_faults (CopyCollection c c ex)) (\<lambda>F w s. F = ?G) (\<lambda>b F w s. b)"
    unfolding apply_operation.simps backup_dir_def
    by (rule triple_pre, (rule copy wp_io)+) (use assms in auto)
  from triple_total[OF this, of d] show ?thesis by (auto simp: on_def)
qed

theorem copy_onto_itself_empties_witness:
  "\<exists>d'. apply_operation no_faults (CopyCollection (Custom ''c'') (Custom ''c'') True) failing_disk = (Inr (), d') \<and>
    fs d' ''c'' = Some Map.empty"
  using copy_onto_itself_empties[of failing_disk "Custom ''c''" "[''k'' \<mapsto> [5]]" True]
  by (simp add: failing_disk_def fs_def coll_def append_extension_def)

end
