(* ===== verification/Hex_Text.thy ===== *)
theory Hex_Text
  imports Diag_Error
begin

text \<open>
  The text helpers of \<open>cda-interfaces/src/util.rs\<close>: case-insensitive comparison, hexadecimal
  prefixes, integer parsing, display-hex normalisation and hex decoding. A Rust string is the
  list of its bytes, a \<^typ>\<open>string\<close>; whitespace is ASCII whitespace. \<open>hex::decode\<close> (crate
  \<open>hex\<close>) is the parameter \<open>hex_decode\<close>. The formatting directives the code uses
  (\<open>{:X}\<close> with prefix and zero padding) and \<open>from_str_radix\<close> are modelled from the
  documented behaviour of the standard library.
\<close>

section \<open>Characters\<close>

abbreviation code :: "char \<Rightarrow> nat" where
  "code c \<equiv> of_char c"

definition to_ascii_lowercase_char :: "char \<Rightarrow> char" where
  "to_ascii_lowercase_char c = (if 65 \<le> code c \<and> code c \<le> 90 then char_of (code c + 32) else c)"

definition to_ascii_uppercase_char :: "char \<Rightarrow> char" where
  "to_ascii_uppercase_char c = (if 97 \<le> code c \<and> code c \<le> 122 then char_of (code c - 32) else c)"

definition to_ascii_uppercase :: "string \<Rightarrow> string" where
  "to_ascii_uppercase s = map to_ascii_uppercase_char s"

definition to_ascii_lowercase :: "string \<Rightarrow> string" where
  "to_ascii_lowercase s = map to_ascii_lowercase_char s"

definition eq_ignore_ascii_case :: "string \<Rightarrow> string \<Rightarrow> bool" where
  "eq_ignore_ascii_case a b \<longleftrightarrow> to_ascii_lowercase a = to_ascii_lowercase b"

text \<open>\<open>char::to_digit\<close> for radix 10 and 16.\<close>

definition to_digit :: "nat \<Rightarrow> char \<Rightarrow> nat option" where
  "to_digit radix c =
     (let n = code c;
          d = (if 48 \<le> n \<and> n \<le> 57 then Some (n - 48)
               else if 97 \<le> n \<and> n \<le> 122 then Some (n - 87)
               else if 65 \<le> n \<and> n \<le> 90 then Some (n - 55)
               else None)
      in case d of None \<Rightarrow> None | Some v \<Rightarrow> if v < radix then Some v else None)"

definition is_ascii_hexdigit :: "char \<Rightarrow> bool" where
  "is_ascii_hexdigit c \<longleftrightarrow> to_digit 16 c \<noteq> None"

definition is_whitespace :: "char \<Rightarrow> bool" where
  "is_whitespace c \<longleftrightarrow> code c = 32 \<or> (9 \<le> code c \<and> code c \<le> 13)"

text \<open>\<open>str::is_char_boundary\<close>, and \<open>str::get(a..b)\<close>, which also fails inside a character.\<close>

definition is_char_boundary :: "string \<Rightarrow> nat \<Rightarrow> bool" where
  "is_char_boundary s i \<longleftrightarrow>
     i = 0 \<or> i = length s \<or> (i < length s \<and> \<not> (128 \<le> code (s ! i) \<and> code (s ! i) < 192))"

definition get_str :: "string \<Rightarrow> nat \<Rightarrow> nat \<Rightarrow> string option" where
  "get_str s a b =
     (if is_char_boundary s a \<and> is_char_boundary s b then get_range s a b else None)"

section \<open>Case-insensitive search\<close>

definition starts_with_ignore_ascii_case :: "string \<Rightarrow> string \<Rightarrow> bool" where
  "starts_with_ignore_ascii_case s prefix \<longleftrightarrow>
     length s \<ge> length prefix \<and>
     (case get_str s 0 (length prefix) of
        None \<Rightarrow> False | Some t \<Rightarrow> eq_ignore_ascii_case t prefix)"

text \<open>\<open>slice::windows(n)\<close>\<close>

definition windows :: "nat \<Rightarrow> 'a list \<Rightarrow> 'a list list" where
  "windows n xs = map (\<lambda>i. take n (drop i xs)) [0..<Suc (length xs) - n]"

definition contains_ignore_ascii_case :: "string \<Rightarrow> string \<Rightarrow> bool" where
  "contains_ignore_ascii_case s needle =
     (if needle = [] then True
      else if length needle > length s then False
      else list_ex (\<lambda>w. eq_ignore_ascii_case w needle) (windows (length needle) s))"

definition ends_with_ignore_ascii_case :: "string \<Rightarrow> string \<Rightarrow> bool" where
  "ends_with_ignore_ascii_case s suffix \<longleftrightarrow>
     length s \<ge> length suffix \<and>
     (case get_str s (length s - length suffix) (length s) of
        None \<Rightarrow> False | Some t \<Rightarrow> eq_ignore_ascii_case t suffix)"

section \<open>Integers in text\<close>

datatype parse_int_error = Empty | InvalidDigit | PosOverflow

fun parse_digits :: "nat \<Rightarrow> nat \<Rightarrow> nat \<Rightarrow> string \<Rightarrow> parse_int_error + nat" where
  "parse_digits limit radix acc [] = Inr acc"
| "parse_digits limit radix acc (c # cs) =
     (case to_digit radix c of
        None \<Rightarrow> Inl InvalidDigit
      | Some x \<Rightarrow>
          if acc * radix > limit then Inl PosOverflow
          else if acc * radix + x > limit then Inl PosOverflow
          else parse_digits limit radix (acc * radix + x) cs)"

text \<open>\<open>from_str_radix\<close> of an unsigned type with largest value \<open>limit\<close>: one leading plus is allowed.\<close>

definition from_str_radix :: "nat \<Rightarrow> nat \<Rightarrow> string \<Rightarrow> parse_int_error + nat" where
  "from_str_radix limit radix s =
     (case s of
        [] \<Rightarrow> Inl Empty
      | c # cs \<Rightarrow>
          if cs = [] \<and> (c = CHR ''+'' \<or> c = CHR ''-'') then Inl InvalidDigit
          else if c = CHR ''+'' then parse_digits limit radix 0 cs
          else parse_digits limit radix 0 s)"

definition strip_prefix :: "string \<Rightarrow> string \<Rightarrow> string option" where
  "strip_prefix p s = (if take (length p) s = p then Some (drop (length p) s) else None)"

definition strip_hex_prefix :: "string \<Rightarrow> string" where
  "strip_hex_prefix s =
     (case strip_prefix ''0x'' s of
        Some r \<Rightarrow> r
      | None \<Rightarrow> (case strip_prefix ''0X'' s of Some r \<Rightarrow> r | None \<Rightarrow> s))"

definition try_strip_hex_prefix :: "string \<Rightarrow> string option" where
  "try_strip_hex_prefix s =
     (let rest = strip_hex_prefix s in if length rest = length s then None else Some rest)"

definition parse_u32_maybe_hex :: "string \<Rightarrow> parse_int_error + nat" where
  "parse_u32_maybe_hex input =
     (case try_strip_hex_prefix input of
        Some hex_str \<Rightarrow> from_str_radix u32_max 16 hex_str
      | None \<Rightarrow> from_str_radix u32_max 10 input)"

definition trim :: "string \<Rightarrow> string" where
  "trim s = rev (dropWhile is_whitespace (rev (dropWhile is_whitespace s)))"

text \<open>Decimal and upper-case hexadecimal display of a number.\<close>

definition digit_char :: "nat \<Rightarrow> char" where
  "digit_char d = (if d < 10 then char_of (48 + d) else char_of (55 + d))"

fun digits :: "nat \<Rightarrow> nat \<Rightarrow> string" where
  "digits radix n =
     (if radix < 2 \<or> n < radix then [digit_char n]
      else digits radix (n div radix) @ [digit_char (n mod radix)])"

declare digits.simps [simp del]

definition zero_pad :: "nat \<Rightarrow> string \<Rightarrow> string" where
  "zero_pad w s = replicate (w - length s) CHR ''0'' @ s"

text \<open>\<open>{:#0wX}\<close>: the width counts the prefix.\<close>

definition fmt_hex_prefixed :: "nat \<Rightarrow> nat \<Rightarrow> string" where
  "fmt_hex_prefixed w n = ''0x'' @ zero_pad (w - 2) (digits 16 n)"

definition fmt_hex :: "nat \<Rightarrow> nat \<Rightarrow> string" where
  "fmt_hex w n = zero_pad w (digits 16 n)"

definition to_string :: "nat \<Rightarrow> string" where
  "to_string n = digits 10 n"

definition normalize_key :: "string \<Rightarrow> string + string" where
  "normalize_key s =
     (let s = trim s in
      case (case try_strip_hex_prefix s of
              Some hex \<Rightarrow> from_str_radix 255 16 hex
            | None \<Rightarrow> from_str_radix 255 10 s) of
        Inr v \<Rightarrow> Inr (to_string v)
      | Inl e \<Rightarrow> Inl ''Invalid hex number'')"

section \<open>Display hex\<close>

fun join :: "string \<Rightarrow> string list \<Rightarrow> string" where
  "join sep [] = []"
| "join sep [x] = x"
| "join sep (x # y # ys) = x @ sep @ join sep (y # ys)"

definition print_hex :: "byte list \<Rightarrow> nat \<Rightarrow> string" where
  "print_hex bs max_size =
     (let upto = min (length bs) max_size in
      join '','' (map (\<lambda>b. fmt_hex_prefixed 4 (unat b)) (take upto bs)))"

text \<open>\<open>split(' ')\<close> keeps empty pieces, \<open>split_whitespace\<close> drops them.\<close>

fun split_at :: "(char \<Rightarrow> bool) \<Rightarrow> string \<Rightarrow> string list" where
  "split_at p [] = [[]]"
| "split_at p (c # cs) =
     (if p c then [] # split_at p cs
      else (case split_at p cs of t # ts \<Rightarrow> (c # t) # ts | [] \<Rightarrow> [[c]]))"

definition split_whitespace :: "string \<Rightarrow> string list" where
  "split_whitespace s = filter (\<lambda>t. t \<noteq> []) (split_at is_whitespace s)"

definition normalize_hex :: "string \<Rightarrow> string" where
  "normalize_hex s =
     concat (map (\<lambda>t. to_ascii_uppercase (strip_hex_prefix t)) (split_whitespace s))"

definition is_byte_field_repr :: "string \<Rightarrow> bool" where
  "is_byte_field_repr s \<longleftrightarrow>
     s \<noteq> [] \<and>
     list_all (\<lambda>t. length t = 4 \<and>
         (case try_strip_hex_prefix t of
            None \<Rightarrow> False | Some hex \<Rightarrow> list_all is_ascii_hexdigit hex))
       (split_at (\<lambda>c. c = CHR '' '') s)"

definition byte_field_matches_hex_pattern :: "string \<Rightarrow> string \<Rightarrow> bool" where
  "byte_field_matches_hex_pattern received pat \<longleftrightarrow>
     is_byte_field_repr received \<and> normalize_hex received = normalize_hex pat"

text \<open>The serialisation of a decoded byte field (\<open>DiagDataValue::serialize\<close>).\<close>

definition byte_field_repr :: "byte list \<Rightarrow> string" where
  "byte_field_repr bs = join '' '' (map (\<lambda>b. fmt_hex_prefixed 4 (unat b)) bs)"

section \<open>Decoding and padding\<close>

type_synonym hex_decoder = "string \<Rightarrow> string + byte list"

definition decode_hex :: "hex_decoder \<Rightarrow> string \<Rightarrow> byte list diag_result" where
  "decode_hex hex_decode s =
     (if \<not> list_all is_ascii_hexdigit s then
        Inl (ParameterConversionError ''Non-hex character found'')
      else bindE
        (if length s mod 2 = 0 then Inr s
         else bindE (ok_or (get_str s 0 (length s - 1))
                (ParameterConversionError ''Invalid hex string length'')) (\<lambda>first_part.
              bindE (ok_or (get_str s (length s - 1) (length s))
                (ParameterConversionError ''Invalid hex string length'')) (\<lambda>last_char.
              Inr (first_part @ ''0'' @ last_char))))
        (\<lambda>t. case hex_decode t of
               Inl e \<Rightarrow> Inl (ParameterConversionError ''Invalid hex value'')
             | Inr bs \<Rightarrow> Inr bs))"

definition padded_bytes :: "nat \<Rightarrow> string \<Rightarrow> byte list \<Rightarrow> byte list diag_result" where
  "padded_bytes n msg bs =
     (if length bs > n then Inl (ParameterConversionError msg)
      else let padd = n - length bs in
        if padd \<noteq> 0 then Inr (replicate padd 0 @ bs) else Inr bs)"

definition u32_padded_bytes :: "byte list \<Rightarrow> byte list diag_result" where
  "u32_padded_bytes = padded_bytes 4 ''Invalid data length for I32''"

definition f64_padded_bytes :: "byte list \<Rightarrow> byte list diag_result" where
  "f64_padded_bytes = padded_bytes 8 ''Invalid data length for F64''"

section \<open>Digits\<close>

lemma code_digit_char: "d < 36 \<Longrightarrow> code (digit_char d) = (if d < 10 then 48 + d else 55 + d)"
  by (simp add: digit_char_def of_char_of)

lemma to_digit_digit_char: "d < radix \<Longrightarrow> radix \<le> 36 \<Longrightarrow> to_digit radix (digit_char d) = Some d"
  by (simp add: to_digit_def code_digit_char Let_def)

lemma digits_step:
  "2 \<le> radix \<Longrightarrow> radix \<le> n \<Longrightarrow> digits radix n = digits radix (n div radix) @ [digit_char (n mod radix)]"
  by (simp add: digits.simps[of radix n])

lemma digits_single: "n < radix \<Longrightarrow> digits radix n = [digit_char n]"
  by (simp add: digits.simps)

lemma digits_nonempty [simp]: "digits radix n \<noteq> []"
  by (subst digits.simps) simp

lemma set_digits:
  "2 \<le> radix \<Longrightarrow> set (digits radix n) \<subseteq> digit_char ` {..<radix}"
proof (induction radix n rule: digits.induct)
  case (1 radix n)
  show ?case
  proof (cases "n < radix")
    case False
    with 1 have "set (digits radix (n div radix)) \<subseteq> digit_char ` {..<radix}" by simp
    with False 1(2) show ?thesis by (simp add: digits_step)
  qed (simp add: digits_single)
qed

lemma parse_digits_append:
  "parse_digits limit radix acc s = Inr v \<Longrightarrow>
   parse_digits limit radix acc (s @ t) = parse_digits limit radix v t"
  by (induction s arbitrary: acc) (auto split: option.splits if_splits)

lemma parse_digits_digits:
  "2 \<le> radix \<Longrightarrow> radix \<le> 36 \<Longrightarrow> n \<le> limit \<Longrightarrow> parse_digits limit radix 0 (digits radix n) = Inr n"
proof (induction radix n rule: digits.induct)
  case (1 radix n)
  show ?case
  proof (cases "n < radix")
    case True
    then show ?thesis using 1 by (simp add: digits_single to_digit_digit_char)
  next
    case False
    have "n div radix \<le> limit" using 1(4) by (meson div_le_dividend le_trans)
    with False 1 have "parse_digits limit radix 0 (digits radix (n div radix)) = Inr (n div radix)"
      by simp
    moreover have "n div radix * radix + n mod radix = n" by simp
    moreover from this have "n div radix * radix \<le> limit" using 1(4) by linarith
    ultimately show ?thesis
      using False 1 by (simp add: digits_step parse_digits_append to_digit_digit_char)
  qed
qed

lemma parse_digits_zeros:
  "0 < radix \<Longrightarrow> parse_digits limit radix 0 (replicate k CHR ''0'' @ s) = parse_digits limit radix 0 s"
  by (induction k) (auto simp: to_digit_def)

definition upper_hex :: "char \<Rightarrow> bool" where
  "upper_hex c \<longleftrightarrow> c \<in> digit_char ` {..<16}"

lemma upper_hex_code:
  "upper_hex c \<Longrightarrow> (48 \<le> code c \<and> code c \<le> 57) \<or> (65 \<le> code c \<and> code c \<le> 70)"
  by (auto simp: upper_hex_def code_digit_char split: if_splits)

lemma upper_hex_facts:
  assumes "upper_hex c"
  shows "c \<noteq> CHR ''+''" "c \<noteq> CHR ''-''" "c \<noteq> CHR ''x''" "c \<noteq> CHR ''X''" "c \<noteq> CHR '' ''"
    "\<not> is_whitespace c" "is_ascii_hexdigit c" "to_ascii_uppercase_char c = c"
  using upper_hex_code[OF assms]
  by (auto simp: is_whitespace_def is_ascii_hexdigit_def to_digit_def to_ascii_uppercase_char_def
      Let_def)

lemma digits_upper_hex:
  assumes "2 \<le> radix" "radix \<le> 16" "c \<in> set (digits radix n)"
  shows "upper_hex c"
proof -
  have "digit_char ` {..<radix} \<subseteq> digit_char ` {..<16}" using assms(2) by (intro image_mono) auto
  then show ?thesis using set_digits[OF assms(1), of n] assms(3) by (auto simp: upper_hex_def)
qed

lemma upper_hex_0 [simp]: "upper_hex CHR ''0''"
proof -
  have "digit_char 0 = CHR ''0''" by code_simp
  then show ?thesis unfolding upper_hex_def by (metis imageI lessThan_iff zero_less_numeral)
qed

lemma zero_pad_upper_hex: "c \<in> set (fmt_hex w n) \<Longrightarrow> upper_hex c"
  by (auto simp: fmt_hex_def zero_pad_def dest: digits_upper_hex[rotated 2])

lemma fmt_hex_nonempty [simp]: "fmt_hex w n \<noteq> []"
  by (simp add: fmt_hex_def zero_pad_def)

lemma fmt_hex_prefixed_fmt: "fmt_hex_prefixed w n = ''0x'' @ fmt_hex (w - 2) n"
  by (simp add: fmt_hex_prefixed_def fmt_hex_def)

lemma from_str_radix_plain:
  assumes "s \<noteq> []" and "\<And>c. c \<in> set s \<Longrightarrow> upper_hex c"
  shows "from_str_radix limit radix s = parse_digits limit radix 0 s"
proof -
  obtain c cs where c: "s = c # cs" using assms(1) by (cases s) auto
  then have "upper_hex c" using assms(2) by simp
  from upper_hex_facts(1,2)[OF this] show ?thesis by (simp add: from_str_radix_def c)
qed

lemma from_str_radix_to_string: "n \<le> limit \<Longrightarrow> from_str_radix limit 10 (to_string n) = Inr n"
proof -
  assume n: "n \<le> limit"
  have "from_str_radix limit 10 (to_string n) = parse_digits limit 10 0 (to_string n)"
    by (rule from_str_radix_plain) (auto simp: to_string_def intro: digits_upper_hex[of 10])
  then show ?thesis using n by (simp add: to_string_def parse_digits_digits)
qed

lemma strip_hex_prefix_0x [simp]: "strip_hex_prefix (CHR ''0'' # CHR ''x'' # s) = s"
  by (simp add: strip_hex_prefix_def strip_prefix_def)

lemma strip_hex_prefix_plain:
  assumes "\<And>c. c \<in> set s \<Longrightarrow> c \<noteq> CHR ''x'' \<and> c \<noteq> CHR ''X''"
  shows "strip_hex_prefix s = s"
proof -
  consider "s = []" | a where "s = [a]" | a b t where "s = a # b # t"
    by (cases s; cases "tl s") auto
  then show ?thesis
    using assms by cases (auto simp: strip_hex_prefix_def strip_prefix_def)
qed

text \<open>Hexadecimal display with a prefix, at any width, and decimal display are read back.\<close>

lemma parse_fmt_hex_prefixed:
  assumes "n \<le> u32_max"
  shows "parse_u32_maybe_hex (fmt_hex_prefixed w n) = Inr n"
proof -
  have "parse_digits u32_max 16 0 (fmt_hex (w - 2) n) = Inr n"
    using assms by (simp add: fmt_hex_def zero_pad_def parse_digits_zeros parse_digits_digits)
  moreover have "from_str_radix u32_max 16 (fmt_hex (w - 2) n) =
      parse_digits u32_max 16 0 (fmt_hex (w - 2) n)"
    by (rule from_str_radix_plain) (auto dest: zero_pad_upper_hex)
  ultimately show ?thesis
    by (simp add: parse_u32_maybe_hex_def try_strip_hex_prefix_def fmt_hex_prefixed_fmt Let_def)
qed

lemma parse_to_string:
  assumes "n \<le> u32_max"
  shows "parse_u32_maybe_hex (to_string n) = Inr n"
proof -
  have u: "upper_hex c" if "c \<in> set (to_string n)" for c
    using that by (auto simp: to_string_def intro: digits_upper_hex[of 10])
  then have "strip_hex_prefix (to_string n) = to_string n"
    by (intro strip_hex_prefix_plain) (auto dest: upper_hex_facts)
  moreover have "from_str_radix u32_max 10 (to_string n) = parse_digits u32_max 10 0 (to_string n)"
    using u by (intro from_str_radix_plain) (simp_all add: to_string_def)
  ultimately show ?thesis
    using assms
    by (simp add: parse_u32_maybe_hex_def try_strip_hex_prefix_def to_string_def parse_digits_digits)
qed

section \<open>Byte fields\<close>

definition bare_hex :: "byte list \<Rightarrow> string" where
  "bare_hex bs = concat (map (\<lambda>b. fmt_hex 2 (unat b)) bs)"

lemma split_at_plain: "(\<And>c. c \<in> set s \<Longrightarrow> \<not> p c) \<Longrightarrow> split_at p s = [s]"
  by (induction s) auto

lemma split_at_append:
  "(\<And>c. c \<in> set s \<Longrightarrow> \<not> p c) \<Longrightarrow> p sep \<Longrightarrow> split_at p (s @ sep # t) = s # split_at p t"
  by (induction s) auto

lemma split_at_join:
  assumes "ts \<noteq> []" and "p sep" and "\<And>t c. t \<in> set ts \<Longrightarrow> c \<in> set t \<Longrightarrow> \<not> p c"
  shows "split_at p (join [sep] ts) = ts"
  using assms
proof (induction ts rule: induct_list012)
  case (2 x)
  then show ?case by (simp add: split_at_plain)
next
  case (3 x y ys)
  have "split_at p (x @ sep # join [sep] (y # ys)) = x # split_at p (join [sep] (y # ys))"
    by (rule split_at_append) (use 3 in auto)
  moreover have "split_at p (join [sep] (y # ys)) = y # ys"
    by (rule 3(2)) (use 3(4,5) in auto)
  ultimately show ?case by simp
qed simp

lemma byte_token_chars:
  "c \<in> set (fmt_hex_prefixed w n) \<Longrightarrow> \<not> is_whitespace c \<and> c \<noteq> CHR '' ''"
  by (auto simp: fmt_hex_prefixed_fmt is_whitespace_def dest!: zero_pad_upper_hex upper_hex_code)

lemma length_fmt_hex_byte: "n < 256 \<Longrightarrow> length (fmt_hex 2 n) = 2"
  by (cases "n < 16") (simp_all add: fmt_hex_def zero_pad_def digits_single digits_step)

lemma parse_fmt_hex_byte: "n < 256 \<Longrightarrow> parse_digits 255 16 0 (fmt_hex 2 n) = Inr n"
  by (simp add: fmt_hex_def zero_pad_def parse_digits_zeros parse_digits_digits)

lemma unat_byte_less: "unat (b :: byte) < 256"
  using unsigned_less[of b] by simp

lemma is_byte_field_repr_ok:
  assumes "bs \<noteq> []"
  shows "is_byte_field_repr (byte_field_repr bs)"
proof -
  have t: "split_at (\<lambda>c. c = CHR '' '') (byte_field_repr bs) =
      map (\<lambda>b. fmt_hex_prefixed 4 (unat b)) bs"
    unfolding byte_field_repr_def using assms
    by (intro split_at_join) (auto dest: byte_token_chars)
  have "byte_field_repr bs \<noteq> []"
    using assms by (cases bs rule: remdups_adj.cases)
      (simp_all add: byte_field_repr_def fmt_hex_prefixed_fmt)
  moreover have "list_all is_ascii_hexdigit (fmt_hex 2 (unat b))" for b :: byte
    by (auto simp: list_all_iff dest: zero_pad_upper_hex upper_hex_facts)
  ultimately show ?thesis
    by (simp add: is_byte_field_repr_def t list_all_iff fmt_hex_prefixed_fmt
        length_fmt_hex_byte unat_byte_less try_strip_hex_prefix_def)
qed

lemma to_ascii_uppercase_upper: "(\<And>c. c \<in> set s \<Longrightarrow> upper_hex c) \<Longrightarrow> to_ascii_uppercase s = s"
  unfolding to_ascii_uppercase_def by (rule map_idI) (auto dest: upper_hex_facts)

lemma normalize_byte_field: "normalize_hex (byte_field_repr bs) = bare_hex bs"
proof (cases "bs = []")
  case False
  have "split_at is_whitespace (byte_field_repr bs) = map (\<lambda>b. fmt_hex_prefixed 4 (unat b)) bs"
    unfolding byte_field_repr_def using False
    by (intro split_at_join) (auto simp: is_whitespace_def dest: byte_token_chars)
  then have "split_whitespace (byte_field_repr bs) = map (\<lambda>b. fmt_hex_prefixed 4 (unat b)) bs"
    by (simp add: split_whitespace_def filter_id_conv fmt_hex_prefixed_fmt)
  moreover have "to_ascii_uppercase (fmt_hex 2 n) = fmt_hex 2 n" for n
    by (rule to_ascii_uppercase_upper) (rule zero_pad_upper_hex)
  ultimately show ?thesis
    by (simp add: normalize_hex_def bare_hex_def fmt_hex_prefixed_fmt comp_def)
qed (simp add: normalize_hex_def bare_hex_def byte_field_repr_def split_whitespace_def)

lemma bare_hex_chars: "c \<in> set (bare_hex bs) \<Longrightarrow> upper_hex c"
  by (auto simp: bare_hex_def dest: zero_pad_upper_hex)

lemma fmt_hex_byte_inj: "fmt_hex 2 (unat a) = fmt_hex 2 (unat b) \<Longrightarrow> a = (b :: byte)"
  by (metis parse_fmt_hex_byte unat_byte_less sum.inject(2) word_unat_eq_iff)

lemma bare_hex_inj: "bare_hex as = bare_hex bs \<Longrightarrow> as = bs"
proof (induction as arbitrary: bs)
  case Nil
  then show ?case by (cases bs) (simp_all add: bare_hex_def)
next
  case (Cons a as)
  then obtain b bs' where b: "bs = b # bs'" by (cases bs) (auto simp: bare_hex_def)
  have "fmt_hex 2 (unat a) @ bare_hex as = fmt_hex 2 (unat b) @ bare_hex bs'"
    using Cons.prems by (simp add: b bare_hex_def)
  then have "fmt_hex 2 (unat a) = fmt_hex 2 (unat b)" "bare_hex as = bare_hex bs'"
    by (simp_all add: length_fmt_hex_byte unat_byte_less append_eq_append_conv)
  then show ?case using Cons.IH b fmt_hex_byte_inj by blast
qed

text \<open>A character whose upper case is an upper-case hex digit is neither white space nor an x.\<close>

lemma upper_case_hex:
  assumes "upper_hex (to_ascii_uppercase_char c)"
  shows "\<not> is_whitespace c" "c \<noteq> CHR ''x''" "c \<noteq> CHR ''X''"
  using upper_hex_code[OF assms]
  by (auto simp: is_whitespace_def to_ascii_uppercase_char_def of_char_of split: if_splits)

lemma normalize_bare:
  assumes "to_ascii_uppercase pat = bare_hex bs"
  shows "normalize_hex pat = bare_hex bs"
proof -
  have u: "upper_hex (to_ascii_uppercase_char c)" if "c \<in> set pat" for c
    using that assms bare_hex_chars[of "to_ascii_uppercase_char c" bs]
    by (metis image_eqI list.set_map to_ascii_uppercase_def)
  then have "split_at is_whitespace pat = [pat]"
    by (intro split_at_plain) (auto dest: upper_case_hex)
  moreover have "strip_hex_prefix pat = pat"
    using u by (intro strip_hex_prefix_plain) (auto dest: upper_case_hex)
  ultimately show ?thesis
    using assms by (auto simp: normalize_hex_def split_whitespace_def to_ascii_uppercase_def)
qed

text \<open>
  A byte field matches a bare hex pattern exactly when the pattern spells its bytes. For a
  non-empty received byte field and a pattern that is the hex spelling of some bytes in any mix
  of upper and lower case, the comparison used by variant detection holds if and only if the
  bytes are the same.
\<close>

theorem byte_field_matches_exactly:
  assumes "bs \<noteq> []" and "to_ascii_uppercase pat = bare_hex bytes"
  shows "byte_field_matches_hex_pattern (byte_field_repr bs) pat \<longleftrightarrow> bs = bytes"
  using assms bare_hex_inj
  by (auto simp: byte_field_matches_hex_pattern_def is_byte_field_repr_ok normalize_byte_field
      normalize_bare[OF assms(2)])

theorem byte_field_matches_exactly_witness:
  "byte_field_matches_hex_pattern (byte_field_repr [0xAB, 0x04]) ''aB04''"
proof -
  have "to_ascii_uppercase ''aB04'' = bare_hex [0xAB, 0x04]" by code_simp
  from byte_field_matches_exactly[OF _ this, of "[0xAB, 0x04]"] show ?thesis by simp
qed

section \<open>Hex strings\<close>

lemma get_str_ascii:
  assumes "\<And>c. c \<in> set s \<Longrightarrow> code c < 128" and "a \<le> b" "b \<le> length s"
  shows "get_str s a b = Some (take (b - a) (drop a s))"
  using assms(2,3) assms(1)[OF nth_mem, of a] assms(1)[OF nth_mem, of b]
  by (auto simp: get_str_def is_char_boundary_def get_range_def)

lemma hexdigit_ascii: "is_ascii_hexdigit c \<Longrightarrow> code c < 128"
  by (auto simp: is_ascii_hexdigit_def to_digit_def Let_def split: if_splits)

lemma contains_ignore_ascii_case_iff:
  "contains_ignore_ascii_case s needle \<longleftrightarrow>
   (\<exists>a w b. s = a @ w @ b \<and> eq_ignore_ascii_case w needle)"
proof (cases "needle = []")
  case True
  then show ?thesis
    by (auto simp: contains_ignore_ascii_case_def eq_ignore_ascii_case_def to_ascii_lowercase_def)
next
  case False
  have len: "length w = length needle" if "eq_ignore_ascii_case w needle" for w
    using that unfolding eq_ignore_ascii_case_def to_ascii_lowercase_def by (metis length_map)
  show ?thesis
  proof
    assume "contains_ignore_ascii_case s needle"
    then obtain i where "eq_ignore_ascii_case (take (length needle) (drop i s)) needle"
      using False by (auto simp: contains_ignore_ascii_case_def windows_def list_ex_iff
          split: if_splits)
    moreover have "s = take i s @ take (length needle) (drop i s) @ drop (length needle) (drop i s)"
      by (simp only: append_take_drop_id)
    ultimately show "\<exists>a w b. s = a @ w @ b \<and> eq_ignore_ascii_case w needle" by blast
  next
    assume "\<exists>a w b. s = a @ w @ b \<and> eq_ignore_ascii_case w needle"
    then obtain a w b where s: "s = a @ w @ b" "eq_ignore_ascii_case w needle" by blast
    then have "take (length needle) (drop (length a) s) = w" using len by simp
    moreover have "length a \<in> set [0..<Suc (length s) - length needle]" using s len by auto
    ultimately have "w \<in> set (windows (length needle) s)"
      unfolding windows_def set_map by (metis image_eqI)
    moreover have "length needle \<le> length s" using s len by simp
    ultimately show "contains_ignore_ascii_case s needle"
      using s(2) by (auto simp: contains_ignore_ascii_case_def list_ex_iff)
  qed
qed

end
