(* ===== verification/Can_Id.thy ===== *)
theory Can_Id
  imports Hex_Text
begin

text \<open>
  Validated CAN identifiers (\<open>cda-interfaces/src/can_id.rs\<close>) and the request-lock key built from
  them (\<open>request_lock_key_for\<close> in \<open>cda-interfaces/src/ecumanager.rs\<close>), with the precedence by
  which \<open>cda-core/src/diag_kernel/ecumanager.rs\<close> resolves an identifier from the configuration,
  the unique-response-id table and the scalar communication parameter. The database lookup that
  gives the scalar parameter is an argument.
\<close>

section \<open>Identifiers\<close>

datatype can_id = Standard "16 word" | Extended "32 word"

datatype invalid_can_id = InvalidCanId "32 word"

fun raw :: "can_id \<Rightarrow> 32 word" where
  "raw (Standard i) = ucast i"
| "raw (Extended i) = i"

fun is_standard :: "can_id \<Rightarrow> bool" where
  "is_standard (Standard i) = True"
| "is_standard (Extended i) = False"

definition can_id_try_from :: "32 word \<Rightarrow> invalid_can_id + can_id" where
  "can_id_try_from i =
     (if i \<le> 0x7FF then Inr (Standard (ucast i))
      else if i \<le> 0x1FFFFFFF then Inr (Extended i)
      else Inl (InvalidCanId i))"

definition can_id_display :: "can_id \<Rightarrow> string" where
  "can_id_display c = fmt_hex_prefixed 5 (unat (raw c))"

record can_ids =
  request :: can_id
  response :: can_id

definition try_from_raw :: "32 word \<Rightarrow> 32 word \<Rightarrow> invalid_can_id + can_ids" where
  "try_from_raw req resp =
     bindE (can_id_try_from req) (\<lambda>a.
     bindE (can_id_try_from resp) (\<lambda>b. Inr \<lparr>request = a, response = b\<rparr>))"

section \<open>The request-lock key\<close>

definition request_lock_key_for ::
    "bool \<Rightarrow> 16 word \<Rightarrow> 16 word \<Rightarrow> can_ids option \<Rightarrow> string \<Rightarrow> string" where
  "request_lock_key_for addresses_resolved gateway_address address ids ecu_name =
     (if addresses_resolved then
        ''logical:0x'' @ fmt_hex 4 (unat gateway_address) @ ''@0x'' @ fmt_hex 4 (unat address)
      else case ids of
        Some c \<Rightarrow> ''can:'' @ fmt_hex_prefixed 0 (unat (raw (request c))) @ ''@'' @
                  fmt_hex_prefixed 0 (unat (raw (response c)))
      | None \<Rightarrow> ''ecu:'' @ to_ascii_lowercase ecu_name)"

section \<open>Resolving an identifier\<close>

datatype com_param_precedence = PrecedenceConfig | PrecedenceDatabase

datatype com_param_value = Simple string | Complex "(string \<times> com_param_value) list"

record can_com_param_config =
  param_name :: string
  config_value :: "nat option"
  precedence :: com_param_precedence

definition can_id_from_table :: "(string \<times> com_param_value) list \<Rightarrow> string \<Rightarrow> nat option" where
  "can_id_from_table entries name =
     (case map_of entries name of
        Some (Simple v) \<Rightarrow> (case parse_u32_maybe_hex (trim v) of Inr i \<Rightarrow> Some i | Inl e \<Rightarrow> None)
      | _ \<Rightarrow> None)"

definition resolve_can_id ::
    "(can_com_param_config \<Rightarrow> (nat option) diag_result) \<Rightarrow> (string \<times> com_param_value) list option
     \<Rightarrow> can_com_param_config \<Rightarrow> nat option" where
  "resolve_can_id find_com_param table config =
     (if precedence config = PrecedenceConfig then config_value config
      else case (case table of None \<Rightarrow> None
                 | Some entries \<Rightarrow> can_id_from_table entries (param_name config)) of
             Some i \<Rightarrow> Some i
           | None \<Rightarrow> (case find_com_param config of Inr v \<Rightarrow> v | Inl e \<Rightarrow> None))"

section \<open>Properties\<close>

text \<open>The range invariant of the type, which only the checked constructor establishes.\<close>

fun valid_can_id :: "can_id \<Rightarrow> bool" where
  "valid_can_id (Standard i) \<longleftrightarrow> i \<le> 0x7FF"
| "valid_can_id (Extended i) \<longleftrightarrow> 0x7FF < i \<and> i \<le> 0x1FFFFFFF"

lemma ucast_small:
  fixes i :: "32 word"
  assumes "i \<le> 0x7FF"
  shows "ucast (ucast i :: 16 word) = i" "(ucast i :: 16 word) \<le> 0x7FF"
proof -
  have "unat i \<le> 0x7FF" using assms by (simp add: word_le_nat_alt)
  then have "unat (ucast i :: 16 word) = unat i"
    by (simp add: unsigned_ucast_eq unsigned_take_bit_eq take_bit_nat_eq_self)
  then show "ucast (ucast i :: 16 word) = i" "(ucast i :: 16 word) \<le> 0x7FF"
    using assms by (simp_all add: word_unat_eq_iff unsigned_ucast_eq unsigned_take_bit_eq take_bit_nat_eq_self word_le_nat_alt)
qed

text \<open>
  The checked constructor of a CAN identifier. It succeeds exactly on the values of the
  29-bit range, the identifier is in the range of its frame format, a standard identifier is
  chosen exactly for an 11-bit value, and the raw value is the one it was built from.
\<close>

theorem can_id_try_from_correct:
  "(is_ok (can_id_try_from i) \<longleftrightarrow> i \<le> 0x1FFFFFFF) \<and>
   (case can_id_try_from i of
      Inl e \<Rightarrow> e = InvalidCanId i
    | Inr c \<Rightarrow> valid_can_id c \<and> raw c = i \<and> (is_standard c \<longleftrightarrow> i \<le> 0x7FF))"
proof -
  have "i \<le> 0x7FF \<Longrightarrow> i \<le> 0x1FFFFFFF" by (erule order_trans) simp
  then show ?thesis by (auto simp: can_id_try_from_def ucast_small)
qed

lemma raw_bound: "unat (raw c) \<le> u32_max"
proof -
  have "unat (raw c) < 2 ^ LENGTH(32)" by (rule unsigned_less)
  then show ?thesis by (simp add: u32_max_def)
qed

text \<open>
  A CAN identifier written to a log or a configuration file is read back: parsing the
  displayed text and validating the number gives the identifier again.
\<close>

theorem can_id_display_roundtrip:
  assumes "valid_can_id c"
  shows "parse_u32_maybe_hex (can_id_display c) = Inr (unat (raw c)) \<and>
         can_id_try_from (of_nat (unat (raw c))) = Inr c"
proof
  show "parse_u32_maybe_hex (can_id_display c) = Inr (unat (raw c))"
    using raw_bound by (simp add: can_id_display_def parse_fmt_hex_prefixed)
  show "can_id_try_from (of_nat (unat (raw c))) = Inr c"
  proof (cases c)
    case (Standard i)
    then have "unat i \<le> 0x7FF" using assms by (simp add: word_le_nat_alt)
    then show ?thesis using Standard
      by (simp add: can_id_try_from_def word_le_nat_alt unsigned_ucast_eq unsigned_take_bit_eq take_bit_nat_eq_self
          word_unat_eq_iff)
  next
    case (Extended i)
    then show ?thesis using assms by (simp add: can_id_try_from_def not_le)
  qed
qed

theorem can_id_display_roundtrip_witness:
  "parse_u32_maybe_hex (can_id_display (Extended 0x18DA10F1)) = Inr 0x18DA10F1"
  using can_id_display_roundtrip[of "Extended 0x18DA10F1"] by simp

text \<open>
  The target a request-lock key stands for: a resolved logical address pair, else the CAN
  identifier pair, else the ECU by its name in lower case.
\<close>

datatype lock_target = Logical "16 word" "16 word" | Can_Pair "32 word" "32 word" | Named string

definition lock_target_of ::
    "bool \<Rightarrow> 16 word \<Rightarrow> 16 word \<Rightarrow> can_ids option \<Rightarrow> string \<Rightarrow> lock_target" where
  "lock_target_of resolved g a ids name =
     (if resolved then Logical g a
      else case ids of
        Some c \<Rightarrow> Can_Pair (raw (request c)) (raw (response c))
      | None \<Rightarrow> Named (to_ascii_lowercase name))"

lemma upper_hex_split:
  assumes "a @ CHR ''@'' # x = b @ CHR ''@'' # y"
    and "\<And>c. c \<in> set a \<Longrightarrow> upper_hex c" "\<And>c. c \<in> set b \<Longrightarrow> upper_hex c"
  shows "a = b \<and> x = y"
proof -
  have n: "\<not> upper_hex CHR ''@''" using upper_hex_code[of "CHR ''@''"] by auto
  have "CHR ''@'' \<notin> set a" "CHR ''@'' \<notin> set b" using assms(2,3) n by auto
  then have "takeWhile (\<lambda>c. c \<noteq> CHR ''@'') (a @ CHR ''@'' # x) = a"
    "takeWhile (\<lambda>c. c \<noteq> CHR ''@'') (b @ CHR ''@'' # y) = b"
    by (auto simp: takeWhile_append)
  then have "a = b" using assms(1) by simp
  then show ?thesis using assms(1) by simp
qed

lemma parse_fmt_hex: "n \<le> limit \<Longrightarrow> parse_digits limit 16 0 (fmt_hex w n) = Inr n"
  by (simp add: fmt_hex_def zero_pad_def parse_digits_zeros parse_digits_digits)

lemma fmt_hex_inj:
  assumes "fmt_hex w m = fmt_hex w n"
  shows "m = n"
proof -
  have "Inr m = parse_digits (max m n) 16 0 (fmt_hex w m)" by (rule parse_fmt_hex[symmetric]) simp
  also have "\<dots> = parse_digits (max m n) 16 0 (fmt_hex w n)" by (simp only: assms)
  also have "\<dots> = Inr n" by (rule parse_fmt_hex) simp
  finally show ?thesis by simp
qed

lemma hex_pair_inj:
  "fmt_hex w a @ CHR ''@'' # CHR ''0'' # CHR ''x'' # fmt_hex w b =
   fmt_hex w c @ CHR ''@'' # CHR ''0'' # CHR ''x'' # fmt_hex w d \<longleftrightarrow> a = c \<and> b = d"
  (is "?l = ?r \<longleftrightarrow> _")
proof
  assume "?l = ?r"
  then have "fmt_hex w a = fmt_hex w c \<and>
      CHR ''0'' # CHR ''x'' # fmt_hex w b = CHR ''0'' # CHR ''x'' # fmt_hex w d"
    by (rule upper_hex_split) (rule zero_pad_upper_hex, assumption)+
  then show "a = c \<and> b = d" using fmt_hex_inj by blast
qed simp

text \<open>
  Requests are serialised per target. Two descriptions get the same request-lock key exactly
  when they denote the same target, so requests to one node share a semaphore and unrelated
  ECUs never do.
\<close>

theorem request_lock_key_identifies_target:
  "request_lock_key_for r g a ids n = request_lock_key_for r' g' a' ids' n' \<longleftrightarrow>
   lock_target_of r g a ids n = lock_target_of r' g' a' ids' n'"
  by (cases ids; cases ids'; cases r; cases r')
    (simp_all add: request_lock_key_for_def lock_target_of_def fmt_hex_prefixed_fmt hex_pair_inj
      word_unat_eq_iff)

end
