(* ===== verification/Uds.thy ===== *)
theory Uds
  imports Diag_Error
begin

text \<open>
  The UDS protocol layer shared by the gateways and the UDS manager: the identifiers and the
  classification of negative responses of \<open>cda-interfaces/src/uds.rs\<close>, the predicates of
  \<open>ServicePayload\<close> in \<open>cda-interfaces/src/ecumanager.rs\<close>, and the service-identifier
  helpers of \<open>cda-interfaces/src/util.rs\<close>. The CAN gateway filters frames with
  \<open>uds_response_matches_request_sid\<close>, the UDS manager with \<open>is_response_for_sid\<close>; the
  lemmas compare the two and characterise the echo check that follows.
\<close>

section \<open>Identifiers\<close>

definition SESSION_CONTROL :: byte where "SESSION_CONTROL = 0x10"
definition ECU_RESET :: byte where "ECU_RESET = 0x11"
definition CLEAR_DIAGNOSTIC_INFORMATION :: byte where "CLEAR_DIAGNOSTIC_INFORMATION = 0x14"
definition READ_DTC_INFORMATION :: byte where "READ_DTC_INFORMATION = 0x19"
definition READ_DATA_BY_LOCAL_IDENTIFIER :: byte where "READ_DATA_BY_LOCAL_IDENTIFIER = 0x21"
definition READ_DATA_BY_IDENTIFIER :: byte where "READ_DATA_BY_IDENTIFIER = 0x22"
definition SECURITY_ACCESS :: byte where "SECURITY_ACCESS = 0x27"
definition COMMUNICATION_CONTROL :: byte where "COMMUNICATION_CONTROL = 0x28"
definition AUTHENTICATION :: byte where "AUTHENTICATION = 0x29"
definition WRITE_DATA_BY_IDENTIFIER :: byte where "WRITE_DATA_BY_IDENTIFIER = 0x2E"
definition INPUT_OUTPUT_CONTROL_BY_IDENTIFIER :: byte where
  "INPUT_OUTPUT_CONTROL_BY_IDENTIFIER = 0x2F"
definition DYNAMICALLY_DEFINE_DATA_IDENTIFIER :: byte where
  "DYNAMICALLY_DEFINE_DATA_IDENTIFIER = 0x2C"
definition ROUTINE_CONTROL :: byte where "ROUTINE_CONTROL = 0x31"
definition REQUEST_DOWNLOAD :: byte where "REQUEST_DOWNLOAD = 0x34"
definition TRANSFER_DATA :: byte where "TRANSFER_DATA = 0x36"
definition REQUEST_TRANSFER_EXIT :: byte where "REQUEST_TRANSFER_EXIT = 0x37"
definition TESTER_PRESENT :: byte where "TESTER_PRESENT = 0x3E"
definition CONTROL_DTC_SETTING :: byte where "CONTROL_DTC_SETTING = 0x85"
definition RESPONSE_ON_EVENT :: byte where "RESPONSE_ON_EVENT = 0x86"
definition LINK_CONTROL :: byte where "LINK_CONTROL = 0x87"
definition NEGATIVE_RESPONSE :: byte where "NEGATIVE_RESPONSE = 0x7F"

definition BUSY_REPEAT_REQUEST :: byte where "BUSY_REPEAT_REQUEST = 0x21"
definition RESPONSE_PENDING :: byte where "RESPONSE_PENDING = 0x78"
definition TEMPORARILY_NOT_AVAILABLE :: byte where "TEMPORARILY_NOT_AVAILABLE = 0x94"

definition UDS_ID_RESPONSE_BITMASK :: byte where "UDS_ID_RESPONSE_BITMASK = 0x40"
definition SUPPRESS_POSITIVE_RESPONSE_BIT :: byte where "SUPPRESS_POSITIVE_RESPONSE_BIT = 0x80"
definition DEFAULT_SUBFUNCTION_MASK :: byte where "DEFAULT_SUBFUNCTION_MASK = 0x7F"

lemmas sid_defs =
  SESSION_CONTROL_def ECU_RESET_def CLEAR_DIAGNOSTIC_INFORMATION_def READ_DTC_INFORMATION_def
  READ_DATA_BY_LOCAL_IDENTIFIER_def READ_DATA_BY_IDENTIFIER_def SECURITY_ACCESS_def
  COMMUNICATION_CONTROL_def AUTHENTICATION_def WRITE_DATA_BY_IDENTIFIER_def
  INPUT_OUTPUT_CONTROL_BY_IDENTIFIER_def DYNAMICALLY_DEFINE_DATA_IDENTIFIER_def
  ROUTINE_CONTROL_def REQUEST_DOWNLOAD_def TRANSFER_DATA_def REQUEST_TRANSFER_EXIT_def
  TESTER_PRESENT_def CONTROL_DTC_SETTING_def RESPONSE_ON_EVENT_def LINK_CONTROL_def
  NEGATIVE_RESPONSE_def BUSY_REPEAT_REQUEST_def RESPONSE_PENDING_def
  TEMPORARILY_NOT_AVAILABLE_def UDS_ID_RESPONSE_BITMASK_def SUPPRESS_POSITIVE_RESPONSE_BIT_def
  DEFAULT_SUBFUNCTION_MASK_def

text \<open>\<open>u8::saturating_add\<close>, and \<open>slice.first()\<close>.\<close>

definition saturating_add_u8 :: "byte \<Rightarrow> byte \<Rightarrow> byte" where
  "saturating_add_u8 a b = (if unat a + unat b \<le> 255 then a + b else 255)"

abbreviation first :: "'a list \<Rightarrow> 'a option" where
  "first xs \<equiv> get xs 0"

section \<open>Payloads and their predicates\<close>

record service_payload =
  payload_data :: "byte list"
  source_address :: "16 word"
  target_address :: "16 word"
  new_session :: "string option"
  new_security :: "string option"

definition is_positive_response_for_sid :: "service_payload \<Rightarrow> byte \<Rightarrow> bool" where
  "is_positive_response_for_sid p sent_sid \<longleftrightarrow>
     first (payload_data p) = Some (saturating_add_u8 sent_sid UDS_ID_RESPONSE_BITMASK)"

definition is_negative_response_for_sid :: "service_payload \<Rightarrow> byte \<Rightarrow> bool" where
  "is_negative_response_for_sid p sent_sid \<longleftrightarrow>
     first (payload_data p) = Some NEGATIVE_RESPONSE \<and> get (payload_data p) 1 = Some sent_sid"

definition is_response_for_sid :: "service_payload \<Rightarrow> byte \<Rightarrow> bool" where
  "is_response_for_sid p sent_sid \<longleftrightarrow>
     is_negative_response_for_sid p sent_sid \<or> is_positive_response_for_sid p sent_sid"

definition sprmib_capable :: "byte \<Rightarrow> bool" where
  "sprmib_capable sid \<longleftrightarrow> sid \<in> set
     [SESSION_CONTROL, ECU_RESET, READ_DTC_INFORMATION, COMMUNICATION_CONTROL, SECURITY_ACCESS,
      AUTHENTICATION, DYNAMICALLY_DEFINE_DATA_IDENTIFIER, ROUTINE_CONTROL, CONTROL_DTC_SETTING,
      RESPONSE_ON_EVENT, LINK_CONTROL, TESTER_PRESENT]"

definition is_suppress_positive_response :: "service_payload \<Rightarrow> bool" where
  "is_suppress_positive_response p =
     (case first (payload_data p) of
        None \<Rightarrow> False
      | Some sid \<Rightarrow> sprmib_capable sid \<and>
          (case get (payload_data p) 1 of None \<Rightarrow> False | Some b \<Rightarrow> b AND 0x80 \<noteq> 0))"

definition echo_byte_count :: "byte \<Rightarrow> nat" where
  "echo_byte_count sent_sid =
     (if sent_sid = READ_DATA_BY_IDENTIFIER \<or> sent_sid = WRITE_DATA_BY_IDENTIFIER \<or>
         sent_sid = INPUT_OUTPUT_CONTROL_BY_IDENTIFIER then 2
      else if sent_sid = ROUTINE_CONTROL then 3
      else 0)"

definition unwrap_or :: "'a option \<Rightarrow> 'a \<Rightarrow> 'a" where
  "unwrap_or r d = (case r of None \<Rightarrow> d | Some x \<Rightarrow> x)"

definition has_matching_echo_bytes :: "service_payload \<Rightarrow> byte list \<Rightarrow> bool" where
  "has_matching_echo_bytes p request_data =
     (case first request_data of
        None \<Rightarrow> True
      | Some sent_sid \<Rightarrow>
          if \<not> is_positive_response_for_sid p sent_sid then True
          else let echo_len = echo_byte_count sent_sid in
            if echo_len = 0 then True
            else (case get_range request_data 1 (saturating_add 1 echo_len) of
                None \<Rightarrow> True
              | Some request_echo \<Rightarrow>
                  (case get_range (payload_data p) 1 (saturating_add 1 echo_len) of
                     None \<Rightarrow> False
                   | Some response_echo \<Rightarrow>
                       if sent_sid = ROUTINE_CONTROL then
                         let request_subfn =
                               unwrap_or (first request_echo) 0 AND DEFAULT_SUBFUNCTION_MASK;
                             response_subfn = unwrap_or (first response_echo) 0
                         in if request_subfn \<noteq> response_subfn then False
                            else get_range request_echo 1 (length request_echo) =
                                 get_range response_echo 1 (length response_echo)
                       else request_echo = response_echo)))"

section \<open>Service identifiers in raw frames\<close>

definition try_extract_sid_from_payload :: "byte list \<Rightarrow> byte diag_result" where
  "try_extract_sid_from_payload payload =
     (case payload of
        [] \<Rightarrow> Inl (BadPayload ''Missing service id'')
      | sid # rest \<Rightarrow>
          if sid = NEGATIVE_RESPONSE then
            (case rest of
               [] \<Rightarrow> Inl (BadPayload ''NRC without accompanying SID_RQ received'')
             | sid_nrq # _ \<Rightarrow> Inr sid_nrq)
          else Inr sid)"

definition uds_response_matches_request_sid :: "byte \<Rightarrow> byte list \<Rightarrow> bool" where
  "uds_response_matches_request_sid request_sid response \<longleftrightarrow>
     (if first response = Some NEGATIVE_RESPONSE then get response 1 = Some request_sid
      else first response = Some (request_sid OR UDS_ID_RESPONSE_BITMASK))"

section \<open>Negative responses that keep an exchange open\<close>

datatype pending_nrc =
    ResponsePending "16 word"
  | BusyRepeatRequest "16 word"
  | TemporarilyNotAvailable "16 word"

datatype transport_response = Pending pending_nrc | UdsResponse service_payload

definition is_negative_response :: "byte list \<Rightarrow> bool" where
  "is_negative_response d \<longleftrightarrow> first d = Some NEGATIVE_RESPONSE"

definition is_tester_present_nrc :: "byte list \<Rightarrow> bool" where
  "is_tester_present_nrc d \<longleftrightarrow> is_negative_response d \<and> get d 1 = Some TESTER_PRESENT"

definition is_pending_nrc :: "byte list \<Rightarrow> bool" where
  "is_pending_nrc d \<longleftrightarrow> is_negative_response d \<and> length d \<ge> 3 \<and>
     get d 2 \<in> {Some RESPONSE_PENDING, Some BUSY_REPEAT_REQUEST, Some TEMPORARILY_NOT_AVAILABLE}"

definition pending_nrc_from_raw :: "byte list \<Rightarrow> 16 word \<Rightarrow> pending_nrc option" where
  "pending_nrc_from_raw d source =
     (if \<not> is_pending_nrc d then None
      else if d ! 2 = RESPONSE_PENDING then Some (ResponsePending source)
      else if d ! 2 = BUSY_REPEAT_REQUEST then Some (BusyRepeatRequest source)
      else if d ! 2 = TEMPORARILY_NOT_AVAILABLE then Some (TemporarilyNotAvailable source)
      else None)"

definition uds_response_from_raw ::
    "byte list \<Rightarrow> 16 word \<Rightarrow> 16 word \<Rightarrow> service_payload" where
  "uds_response_from_raw d source target =
     \<lparr>payload_data = d, source_address = source, target_address = target,
      new_session = None, new_security = None\<rparr>"

section \<open>Facts\<close>

lemma first_Some_iff: "first xs = Some x \<longleftrightarrow> (\<exists>ys. xs = x # ys)"
  by (cases xs) (auto simp: get_def)

lemma get_Some_iff: "get xs i = Some x \<longleftrightarrow> i < length xs \<and> xs ! i = x"
  by (auto simp: get_def)

text \<open>
  The response bit of a request identifier is clear (ISO 14229-1), so setting it and adding it
  are the same and the sum does not saturate.
\<close>

lemma response_sid_or_add:
  assumes "\<not> bit sid 6"
  shows "sid OR UDS_ID_RESPONSE_BITMASK = sid + UDS_ID_RESPONSE_BITMASK"
proof -
  have "sid AND UDS_ID_RESPONSE_BITMASK = 0"
  proof (rule bit_word_eqI)
    fix n assume "n < LENGTH(8)"
    have "UDS_ID_RESPONSE_BITMASK = (push_bit 6 1 :: byte)"
      by (simp add: UDS_ID_RESPONSE_BITMASK_def)
    moreover have "bit (push_bit 6 1 :: byte) n \<Longrightarrow> n = 6"
      by (simp only: bit_push_bit_iff bit_1_iff) simp
    ultimately show "bit (sid AND UDS_ID_RESPONSE_BITMASK) n = bit (0 :: byte) n"
      using assms by (auto simp only: bit_and_iff bit_0_eq bot_apply bot_bool_def)
  qed
  then show ?thesis by (simp add: disjunctive_add_eq_or)
qed

lemma response_sid_no_overflow:
  assumes "\<not> bit (sid :: byte) 6"
  shows "unat sid + 64 \<le> 255"
proof (rule ccontr)
  assume "\<not> ?thesis"
  then have "192 \<le> unat sid" by simp
  moreover have "unat sid < 256" using unsigned_less[of sid] by simp
  ultimately have "unat sid div 64 = 3" by auto
  then have "bit (unat sid) 6" by (simp add: bit_iff_odd)
  then show False using assms by (simp add: bit_unsigned_iff)
qed

lemma positive_sid:
  assumes "\<not> bit sid 6"
  shows "saturating_add_u8 sid UDS_ID_RESPONSE_BITMASK = sid OR UDS_ID_RESPONSE_BITMASK"
  using response_sid_no_overflow[OF assms] response_sid_or_add[OF assms]
  by (simp add: saturating_add_u8_def UDS_ID_RESPONSE_BITMASK_def)

lemma positive_sid_not_negative:
  assumes "\<not> bit sid 6" and "sid \<noteq> 0x3F"
  shows "sid OR UDS_ID_RESPONSE_BITMASK \<noteq> NEGATIVE_RESPONSE"
proof
  assume "sid OR UDS_ID_RESPONSE_BITMASK = NEGATIVE_RESPONSE"
  then have "sid + 0x40 = 0x7F"
    using response_sid_or_add[OF assms(1)] by (simp add: sid_defs)
  then have "sid = 0x7F - 0x40" by (metis add_diff_cancel_right')
  then show False using assms(2) by simp
qed

lemma is_positive_iff:
  "\<not> bit sid 6 \<Longrightarrow>
   is_positive_response_for_sid p sid \<longleftrightarrow>
   first (payload_data p) = Some (sid OR UDS_ID_RESPONSE_BITMASK)"
  by (simp add: is_positive_response_for_sid_def positive_sid)

text \<open>
  The two response filters agree. The CAN gateway keeps a frame for a request exactly when
  the UDS manager accepts it as a response, for every request identifier whose response bit is
  clear. The identifier 0x3F is left out, since its positive response would be the
  negative-response byte itself.
\<close>

theorem response_filters_agree:
  assumes "\<not> bit sid 6" and "sid \<noteq> 0x3F"
  shows "uds_response_matches_request_sid sid (payload_data p) = is_response_for_sid p sid"
  using positive_sid_not_negative[OF assms]
  by (auto simp: uds_response_matches_request_sid_def is_response_for_sid_def
      is_negative_response_for_sid_def is_positive_iff[OF assms(1)])

theorem response_filters_agree_witness:
  "uds_response_matches_request_sid 0x22 [0x62, 0xF1, 0x90] =
   is_response_for_sid (uds_response_from_raw [0x62, 0xF1, 0x90] 1 2) 0x22"
proof -
  have "\<not> bit (0x22 :: byte) 6" by code_simp
  then show ?thesis
    using response_filters_agree[of "0x22" "uds_response_from_raw [0x62, 0xF1, 0x90] 1 2"]
    by (simp add: uds_response_from_raw_def)
qed

lemma is_pending_nrc_iff:
  "is_pending_nrc d \<longleftrightarrow>
   (\<exists>sid rest nrc. d = NEGATIVE_RESPONSE # sid # nrc # rest \<and>
      nrc \<in> {RESPONSE_PENDING, BUSY_REPEAT_REQUEST, TEMPORARILY_NOT_AVAILABLE})"
proof -
  consider "length d < 3" | a b c r where "d = a # b # c # r"
    by (cases d; cases "tl d"; cases "tl (tl d)") auto
  then show ?thesis
    by cases (auto simp: is_pending_nrc_def is_negative_response_def)
qed

text \<open>
  Classification of raw responses is exact. The three pending negative response codes are
  mapped to their own variant with the sender's address, and every other frame is left to be
  forwarded as a final response.
\<close>

theorem pending_nrc_from_raw_correct:
  "pending_nrc_from_raw d a = Some q \<longleftrightarrow>
   (\<exists>sid rest. (d = NEGATIVE_RESPONSE # sid # RESPONSE_PENDING # rest \<and> q = ResponsePending a) \<or>
      (d = NEGATIVE_RESPONSE # sid # BUSY_REPEAT_REQUEST # rest \<and> q = BusyRepeatRequest a) \<or>
      (d = NEGATIVE_RESPONSE # sid # TEMPORARILY_NOT_AVAILABLE # rest \<and>
         q = TemporarilyNotAvailable a))"
  by (auto simp: pending_nrc_from_raw_def is_pending_nrc_iff sid_defs)

text \<open>
  What the echo check establishes for a positive response: an identifier service answers for the
  identifier of the request; a routine control answers for the routine of the request, with the
  suppress bit of the sub-function removed.
\<close>

lemma get_range_tail:
  "get_range xs 1 (Suc n) = Some ys \<longleftrightarrow> (\<exists>x zs. xs = x # ys @ zs \<and> length ys = n)"
proof
  assume a: "get_range xs 1 (Suc n) = Some ys"
  then obtain x t where x: "xs = x # t" by (cases xs) (auto simp: get_range_def)
  with a have "ys = take n t" "n \<le> length t" by (auto simp: get_range_def split: if_splits)
  then show "\<exists>x zs. xs = x # ys @ zs \<and> length ys = n"
    using x by (intro exI[of _ x] exI[of _ "drop n t"]) simp
qed (auto simp: get_range_def)

lemma echo_range: "saturating_add (Suc 0) 2 = 3" "saturating_add (Suc 0) 3 = 4"
  by (simp_all add: saturating_add_def usize_max_def)

lemmas echo_tail = get_range_tail[of _ 2, simplified] get_range_tail[of _ 3, simplified]

lemma echo_identifier:
  assumes sid: "sid \<in> {READ_DATA_BY_IDENTIFIER, WRITE_DATA_BY_IDENTIFIER,
      INPUT_OUTPUT_CONTROL_BY_IDENTIFIER}"
    and pos: "is_positive_response_for_sid p sid"
  shows "has_matching_echo_bytes p (sid # hi # lo # rest) \<longleftrightarrow>
    (\<exists>r rest'. payload_data p = r # hi # lo # rest')"
proof -
  have n: "echo_byte_count sid = 2" "sid \<noteq> ROUTINE_CONTROL"
    using sid by (auto simp: echo_byte_count_def sid_defs)
  have r: "get_range (sid # hi # lo # rest) (Suc 0) 3 = Some [hi, lo]"
    by (simp add: echo_tail)
  have "has_matching_echo_bytes p (sid # hi # lo # rest) \<longleftrightarrow>
      get_range (payload_data p) (Suc 0) 3 = Some [hi, lo]"
    using pos n by (auto simp: has_matching_echo_bytes_def echo_range r split: option.splits)
  then show ?thesis by (auto simp: echo_tail)
qed

lemma echo_routine:
  assumes pos: "is_positive_response_for_sid p ROUTINE_CONTROL"
  shows "has_matching_echo_bytes p (ROUTINE_CONTROL # sub # hi # lo # rest) \<longleftrightarrow>
    (\<exists>r rest'. payload_data p = r # (sub AND DEFAULT_SUBFUNCTION_MASK) # hi # lo # rest')"
proof -
  have n: "echo_byte_count ROUTINE_CONTROL = 3" by (simp add: echo_byte_count_def sid_defs)
  have r: "get_range (ROUTINE_CONTROL # sub # hi # lo # rest) (Suc 0) 4 = Some [sub, hi, lo]"
    by (simp add: echo_tail)
  show ?thesis
  proof (cases "get_range (payload_data p) (Suc 0) 4")
    case None
    then have "\<nexists>r rest'. payload_data p = r # (sub AND DEFAULT_SUBFUNCTION_MASK) # hi # lo # rest'"
      by (auto simp: get_range_def)
    then show ?thesis
      using pos n None by (simp add: has_matching_echo_bytes_def echo_range r)
  next
    case (Some e)
    then obtain x zs where x: "payload_data p = x # e @ zs" "length e = 3"
      by (auto simp: echo_tail)
    then obtain a b c where "e = [a, b, c]" by (auto simp: length_Suc_conv numeral_3_eq_3)
    then show ?thesis
      using pos n Some x
      by (auto simp: has_matching_echo_bytes_def echo_range r unwrap_or_def get_range_def)
  qed
qed

end
