(* ===== verification/Ecu_State.thy ===== *)
theory Ecu_State
  imports Uds
begin

text \<open>
  The run-time state of an ECU and the actor that serialises its changes: \<open>EcuState\<close>,
  \<open>EcuRuntimeState\<close> (\<open>cda-interfaces/src/ecumanager.rs\<close>), the messages of \<open>EcuCoordinator\<close>
  (\<open>cda-comm-uds/src/coordinator.rs\<close>), the \<open>EcuStateCoordinator\<close> that turns connectivity
  events of the transports into such messages (\<open>state_coordinator.rs\<close>) and the decision
  when a variant detection is needed (\<open>transport.rs\<close>). A message is handled in one step, as
  the actor's mailbox guarantees; the channel to the detection task is open, so a send on it
  appends.
\<close>

section \<open>State\<close>

datatype connectivity = Online | Offline

datatype variant_state =
    NotTested
  | Detected (variant_name: string) (base_variant: bool) (fallback: bool)
  | Duplicate
  | NotDetected

record ecu_state =
  connectivity :: connectivity
  variant_state :: variant_state
  variant_index :: "nat option"

definition ecu_state_default :: ecu_state where
  "ecu_state_default = \<lparr>connectivity = Offline, variant_state = NotTested, variant_index = None\<rparr>"

fun variant_state_name :: "variant_state \<Rightarrow> string option" where
  "variant_state_name (Detected n b f) = Some n"
| "variant_state_name _ = None"

fun is_base_variant :: "variant_state \<Rightarrow> bool" where
  "is_base_variant (Detected n b f) = b"
| "is_base_variant _ = False"

fun is_fallback :: "variant_state \<Rightarrow> bool" where
  "is_fallback (Detected n b f) = f"
| "is_fallback _ = False"

fun is_detected :: "variant_state \<Rightarrow> bool" where
  "is_detected (Detected n b f) = True"
| "is_detected _ = False"

definition is_online_and_detected :: "ecu_state \<Rightarrow> bool" where
  "is_online_and_detected st \<longleftrightarrow> connectivity st = Online \<and> is_detected (variant_state st)"

record ecu_runtime_state =
  ecu_state :: ecu_state
  service_states :: "byte \<rightharpoonup> string"

definition ecu_runtime_state_new :: ecu_runtime_state where
  "ecu_runtime_state_new = \<lparr>ecu_state = ecu_state_default, service_states = Map.empty\<rparr>"

definition needs_variant_detection :: "ecu_state \<Rightarrow> bool" where
  "needs_variant_detection st \<longleftrightarrow>
     variant_state st = NotTested \<or>
     (connectivity st = Offline \<and>
      (is_detected (variant_state st) \<or> variant_state st = NotDetected))"

section \<open>The coordinator actor\<close>

record ecu_coordinator =
  coord_state :: ecu_runtime_state
  ecu_name :: string
  suppress_disconnect :: bool

definition spawn_with_state :: "string \<Rightarrow> ecu_runtime_state \<Rightarrow> ecu_coordinator" where
  "spawn_with_state name st = \<lparr>coord_state = st, ecu_name = name, suppress_disconnect = False\<rparr>"

definition spawn :: "string \<Rightarrow> ecu_coordinator" where
  "spawn name = spawn_with_state name ecu_runtime_state_new"

definition get_service_state :: "ecu_coordinator \<Rightarrow> byte \<Rightarrow> string option" where
  "get_service_state c sid = service_states (coord_state c) sid"

abbreviation modify_ecu_state :: "(ecu_state \<Rightarrow> ecu_state) \<Rightarrow> ecu_coordinator \<Rightarrow> ecu_coordinator" where
  "modify_ecu_state f c \<equiv> c\<lparr>coord_state := (coord_state c)\<lparr>ecu_state := f (ecu_state (coord_state c))\<rparr>\<rparr>"

abbreviation modify_services ::
    "((byte \<rightharpoonup> string) \<Rightarrow> (byte \<rightharpoonup> string)) \<Rightarrow> ecu_coordinator \<Rightarrow> ecu_coordinator" where
  "modify_services f c \<equiv>
     c\<lparr>coord_state := (coord_state c)\<lparr>service_states := f (service_states (coord_state c))\<rparr>\<rparr>"

abbreviation status :: "ecu_coordinator \<Rightarrow> ecu_state" where
  "status c \<equiv> ecu_state (coord_state c)"

definition handle_set_service_state :: "byte \<Rightarrow> string \<Rightarrow> ecu_coordinator \<Rightarrow> ecu_coordinator" where
  "handle_set_service_state sid v c = modify_services (\<lambda>m. m(sid \<mapsto> v)) c"

text \<open>\<open>entry(k).or_insert(v)\<close>\<close>

definition or_insert :: "('k \<rightharpoonup> 'v) \<Rightarrow> 'k \<Rightarrow> 'v \<Rightarrow> ('k \<rightharpoonup> 'v)" where
  "or_insert m k v = (case m k of None \<Rightarrow> m(k \<mapsto> v) | Some _ \<Rightarrow> m)"

definition handle_set_default_states ::
    "(byte \<times> string) list \<Rightarrow> ecu_coordinator \<Rightarrow> ecu_coordinator" where
  "handle_set_default_states defaults c =
     modify_services (\<lambda>m. fold (\<lambda>(sid, v) m. or_insert m sid v) defaults m) c"

definition handle_clear_service_states :: "ecu_coordinator \<Rightarrow> ecu_coordinator" where
  "handle_clear_service_states c = modify_services (\<lambda>m. Map.empty) c"

definition handle_ecu_disconnected_msg :: "ecu_coordinator \<Rightarrow> ecu_coordinator" where
  "handle_ecu_disconnected_msg c =
     (if suppress_disconnect c then c
      else if connectivity (status c) = Online
      then modify_ecu_state (\<lambda>st. st\<lparr>connectivity := Offline\<rparr>) c
      else c)"

definition handle_ecu_connected_msg :: "ecu_coordinator \<Rightarrow> bool \<times> ecu_coordinator" where
  "handle_ecu_connected_msg c =
     (if connectivity (status c) = Offline
      then (True, modify_ecu_state (\<lambda>st. st\<lparr>connectivity := Online, variant_state := NotTested,
              variant_index := None\<rparr>) c)
      else (False, c))"

definition handle_suppress_disconnect :: "ecu_coordinator \<Rightarrow> ecu_coordinator" where
  "handle_suppress_disconnect c = c\<lparr>suppress_disconnect := True\<rparr>"

definition handle_restore_disconnect :: "ecu_coordinator \<Rightarrow> ecu_coordinator" where
  "handle_restore_disconnect c = c\<lparr>suppress_disconnect := False\<rparr>"

definition handle_mark_as_duplicate :: "ecu_coordinator \<Rightarrow> ecu_coordinator" where
  "handle_mark_as_duplicate c =
     modify_ecu_state (\<lambda>st. st\<lparr>variant_state := Duplicate, variant_index := None\<rparr>) c"

definition handle_mark_as_no_variant_detected :: "ecu_coordinator \<Rightarrow> ecu_coordinator" where
  "handle_mark_as_no_variant_detected c =
     modify_ecu_state (\<lambda>st. st\<lparr>variant_state := NotDetected, variant_index := None\<rparr>) c"

datatype coordinator_message =
    SetServiceState byte string
  | SetDefaultStates "(byte \<times> string) list"
  | ClearServiceStates
  | EcuDisconnected
  | EcuConnected
  | SuppressDisconnectHandling
  | RestoreDisconnectHandling
  | MarkAsDuplicate
  | MarkAsNoVariantDetected

fun handle :: "coordinator_message \<Rightarrow> ecu_coordinator \<Rightarrow> ecu_coordinator" where
  "handle (SetServiceState sid v) = handle_set_service_state sid v"
| "handle (SetDefaultStates ds) = handle_set_default_states ds"
| "handle ClearServiceStates = handle_clear_service_states"
| "handle EcuDisconnected = handle_ecu_disconnected_msg"
| "handle EcuConnected = snd \<circ> handle_ecu_connected_msg"
| "handle SuppressDisconnectHandling = handle_suppress_disconnect"
| "handle RestoreDisconnectHandling = handle_restore_disconnect"
| "handle MarkAsDuplicate = handle_mark_as_duplicate"
| "handle MarkAsNoVariantDetected = handle_mark_as_no_variant_detected"

lemmas handle_defs =
  handle_set_service_state_def handle_set_default_states_def handle_clear_service_states_def
  handle_ecu_disconnected_msg_def handle_ecu_connected_msg_def handle_suppress_disconnect_def
  handle_restore_disconnect_def handle_mark_as_duplicate_def
  handle_mark_as_no_variant_detected_def

section \<open>The coordinator of all ECUs\<close>

record ecu_state_coordinator =
  handles :: "string \<rightharpoonup> ecu_coordinator"
  redetect :: "string list list"

definition ecu_state_coordinator_new :: "(string \<rightharpoonup> ecu_runtime_state) \<Rightarrow> ecu_state_coordinator" where
  "ecu_state_coordinator_new states =
     \<lparr>handles = (\<lambda>n. map_option (spawn_with_state n) (states n)), redetect = []\<rparr>"

definition tell :: "coordinator_message \<Rightarrow> string \<Rightarrow> ecu_state_coordinator \<Rightarrow> ecu_state_coordinator" where
  "tell msg name sc =
     (case handles sc name of
        None \<Rightarrow> sc
      | Some h \<Rightarrow> sc\<lparr>handles := (handles sc)(name \<mapsto> handle msg h)\<rparr>)"

definition handle_ecu_connected :: "string \<Rightarrow> ecu_state_coordinator \<Rightarrow> ecu_state_coordinator" where
  "handle_ecu_connected name sc =
     (case handles sc name of
        None \<Rightarrow> sc
      | Some h \<Rightarrow>
          let (transitioned, h') = handle_ecu_connected_msg h;
              sc' = sc\<lparr>handles := (handles sc)(name \<mapsto> h')\<rparr>
          in if transitioned \<or> needs_variant_detection (status h')
             then sc'\<lparr>redetect := redetect sc' @ [[name]]\<rparr> else sc')"

definition handle_ecu_disconnected :: "string \<Rightarrow> ecu_state_coordinator \<Rightarrow> ecu_state_coordinator" where
  "handle_ecu_disconnected = tell EcuDisconnected"

definition suppress_disconnect_handling :: "string \<Rightarrow> ecu_state_coordinator \<Rightarrow> ecu_state_coordinator" where
  "suppress_disconnect_handling = tell SuppressDisconnectHandling"

definition restore_disconnect_handling :: "string \<Rightarrow> ecu_state_coordinator \<Rightarrow> ecu_state_coordinator" where
  "restore_disconnect_handling = tell RestoreDisconnectHandling"

definition on_gateway_connected :: "string list \<Rightarrow> ecu_state_coordinator \<Rightarrow> ecu_state_coordinator" where
  "on_gateway_connected names sc = fold handle_ecu_connected names sc"

definition on_gateway_disconnected :: "string list \<Rightarrow> ecu_state_coordinator \<Rightarrow> ecu_state_coordinator" where
  "on_gateway_disconnected names sc = fold handle_ecu_disconnected names sc"

section \<open>Facts\<close>

lemma or_insert_keeps: "m k = Some v \<Longrightarrow> or_insert m k' w k = Some v"
  by (auto simp: or_insert_def split: option.splits)

lemma fold_or_insert_keeps:
  "m k = Some v \<Longrightarrow> fold (\<lambda>(sid, v) m. or_insert m sid v) ds m k = Some v"
  by (induction ds arbitrary: m) (auto simp: or_insert_keeps)

text \<open>Defaults never replace a state that is already known.\<close>

lemma set_default_states_keeps:
  "get_service_state c sid = Some v \<Longrightarrow>
   get_service_state (handle_set_default_states ds c) sid = Some v"
  by (simp add: get_service_state_def handle_set_default_states_def fold_or_insert_keeps)

text \<open>
  Disconnect suppression. From the moment a variant detection has suppressed disconnect
  events, an online ECU stays online under every sequence of messages that does not lift the
  suppression, whatever timeouts the detection's own requests report.
\<close>

theorem suppressed_stays_online:
  assumes "connectivity (status c) = Online" and "RestoreDisconnectHandling \<notin> set msgs"
  shows "connectivity (status (fold handle msgs (handle_suppress_disconnect c))) = Online"
proof -
  define P where "P c \<longleftrightarrow> connectivity (status c) = Online \<and> suppress_disconnect c" for c
  have step: "P (handle m c)" if "P c" "m \<noteq> RestoreDisconnectHandling" for m c
    using that by (cases m) (auto simp: P_def handle_defs)
  have "P (fold handle ms c)" if "P c" "RestoreDisconnectHandling \<notin> set ms" for ms c
    using that
  proof (induction ms arbitrary: c)
    case (Cons m ms)
    then have "P (handle m c)" by (intro step) auto
    then show ?case using Cons by simp
  qed simp
  moreover have "P (handle_suppress_disconnect c)"
    using assms(1) by (simp add: P_def handle_suppress_disconnect_def)
  ultimately show ?thesis using assms(2) by (simp add: P_def)
qed

theorem suppressed_stays_online_witness:
  "connectivity (status (fold handle [EcuDisconnected, MarkAsDuplicate, EcuDisconnected]
     (handle_suppress_disconnect (handle EcuConnected (spawn ''ECU''))))) = Online"
  by (rule suppressed_stays_online)
    (simp_all add: spawn_def spawn_with_state_def handle_ecu_connected_msg_def
      ecu_runtime_state_new_def ecu_state_default_def)

text \<open>A reconnected ECU is online; if it has no valid variant it is queued for detection.\<close>

lemma handle_ecu_connected_other:
  "n \<noteq> m \<Longrightarrow> handles (handle_ecu_connected m sc) n = handles sc n"
  by (auto simp: handle_ecu_connected_def Let_def split: option.splits prod.splits)

lemma handle_ecu_connected_redetect:
  "set (redetect sc) \<subseteq> set (redetect (handle_ecu_connected m sc))"
  by (auto simp: handle_ecu_connected_def Let_def split: option.splits prod.splits)

lemma handle_ecu_connected_self:
  assumes "handles sc n = Some h"
  shows "\<exists>h'. handles (handle_ecu_connected n sc) n = Some h' \<and>
    connectivity (status h') = Online \<and>
    (needs_variant_detection (status h') \<longrightarrow> [n] \<in> set (redetect (handle_ecu_connected n sc)))"
  using assms connectivity.exhaust[of "connectivity (status h)"]
  by (auto simp: handle_ecu_connected_def handle_ecu_connected_msg_def Let_def)

definition announced :: "string \<Rightarrow> ecu_state_coordinator \<Rightarrow> bool" where
  "announced n sc \<longleftrightarrow> (\<exists>h. handles sc n = Some h \<and> connectivity (status h) = Online \<and>
     (needs_variant_detection (status h) \<longrightarrow> [n] \<in> set (redetect sc)))"

lemma announced_step:
  assumes "announced n sc"
  shows "announced n (handle_ecu_connected m sc)"
proof (cases "m = n")
  case True
  then show ?thesis
    using assms handle_ecu_connected_self[of sc n] by (auto simp: announced_def)
next
  case False
  then have "handles (handle_ecu_connected m sc) n = handles sc n"
    using handle_ecu_connected_other[of n m sc] by simp
  then show ?thesis
    using assms handle_ecu_connected_redetect[of sc m] by (auto simp: announced_def)
qed

lemma announced_fold: "announced n sc \<Longrightarrow> announced n (fold handle_ecu_connected ms sc)"
  by (induction ms arbitrary: sc) (auto intro: announced_step)

lemma handles_fold_connected:
  "handles sc n \<noteq> None \<Longrightarrow> handles (handle_ecu_connected m sc) n \<noteq> None"
  using handle_ecu_connected_self[of sc n] handle_ecu_connected_other[of n m sc]
  by (cases "m = n") auto

text \<open>
  No reconnect is lost. After a gateway reports a list of connected ECUs, every known ECU of
  the list is online, and if its variant still has to be detected a detection request for it is
  in the queue.
\<close>

theorem on_gateway_connected_announces:
  assumes "n \<in> set names" and "handles sc n = Some h"
  shows "\<exists>h'. handles (on_gateway_connected names sc) n = Some h' \<and>
    connectivity (status h') = Online \<and>
    (needs_variant_detection (status h') \<longrightarrow> [n] \<in> set (redetect (on_gateway_connected names sc)))"
proof -
  have "announced n (fold handle_ecu_connected names sc)"
    using assms(1) assms(2)[THEN option.discI]
  proof (induction names arbitrary: sc)
    case (Cons m ms)
    show ?case
    proof (cases "m = n")
      case True
      then have "announced n (handle_ecu_connected m sc)"
        using Cons.prems(2) handle_ecu_connected_self[of sc n] by (auto simp: announced_def)
      then show ?thesis by (simp add: announced_fold)
    next
      case False
      then show ?thesis
        using Cons.prems Cons.IH[of "handle_ecu_connected m sc"] handles_fold_connected by simp
    qed
  qed simp
  then show ?thesis by (simp add: announced_def on_gateway_connected_def)
qed

theorem on_gateway_connected_announces_witness:
  "\<exists>h'. handles (on_gateway_connected [''A'', ''B'']
      (ecu_state_coordinator_new [''B'' \<mapsto> ecu_runtime_state_new])) ''B'' = Some h' \<and>
    connectivity (status h') = Online"
  using on_gateway_connected_announces[of "''B''" "[''A'', ''B'']"
      "ecu_state_coordinator_new [''B'' \<mapsto> ecu_runtime_state_new]"
      "spawn_with_state ''B'' ecu_runtime_state_new"]
  by (auto simp: ecu_state_coordinator_new_def)

end
