(* ===== verification/Detection_Slot.thy ===== *)
theory Detection_Slot
  imports Ecu_State
begin

text \<open>
  The variant-detection slot of an ECU: \<open>EcuCoordinatorHandle::begin_detection\<close>
  (\<open>cda-comm-uds/src/coordinator.rs\<close>) and \<open>claim_detection\<close> (\<open>variant.rs\<close>). Any number of
  tasks enter concurrently, so the code is a step relation with one step per access to shared
  state: the atomic increment of the trigger generation, the acquisition of the lock, the load
  of the generation under the lock, the look at the ECU's status, and the release. The ECU's
  status may change between any two steps. The generation is a 64-bit counter that wraps.
\<close>

section \<open>Model\<close>

datatype detection_trigger = Forced | IfNeeded

datatype task_phase =
    Idle
  | Waiting detection_trigger "64 word"
  | Holding detection_trigger "64 word"
  | Granted detection_trigger "64 word"
  | Running "64 word"
  | Skipped
  | Finished

record detection_slot =
  detection_generation :: "64 word"
  phase :: "nat \<Rightarrow> task_phase"
  slot_status :: ecu_state

fun holds_lock :: "task_phase \<Rightarrow> bool" where
  "holds_lock (Holding k g) = True"
| "holds_lock (Granted k g) = True"
| "holds_lock (Running g) = True"
| "holds_lock _ = False"

datatype slot_event =
    Trigger nat | Acquire nat | Grant nat | Supersede nat | Start nat | Obsolete nat
  | Finish nat | StatusChange

abbreviation set_phase :: "nat \<Rightarrow> task_phase \<Rightarrow> detection_slot \<Rightarrow> detection_slot" where
  "set_phase t p s \<equiv> s\<lparr>phase := (phase s)(t := p)\<rparr>"

inductive slot_step :: "slot_event \<Rightarrow> detection_slot \<Rightarrow> detection_slot \<Rightarrow> bool" where
  trigger: "phase s t = Idle \<Longrightarrow> g = detection_generation s + 1 \<Longrightarrow>
    slot_step (Trigger t) s (set_phase t (Waiting k g) (s\<lparr>detection_generation := g\<rparr>))"
| acquire: "phase s t = Waiting k g \<Longrightarrow> (\<And>u. \<not> holds_lock (phase s u)) \<Longrightarrow>
    slot_step (Acquire t) s (set_phase t (Holding k g) s)"
| grant: "phase s t = Holding k g \<Longrightarrow> detection_generation s = g \<Longrightarrow>
    slot_step (Grant t) s (set_phase t (Granted k g) s)"
| supersede: "phase s t = Holding k g \<Longrightarrow> detection_generation s \<noteq> g \<Longrightarrow>
    slot_step (Supersede t) s (set_phase t Skipped s)"
| start: "phase s t = Granted k g \<Longrightarrow>
    k = Forced \<or> needs_variant_detection (slot_status s) \<Longrightarrow>
    slot_step (Start t) s (set_phase t (Running g) s)"
| obsolete: "phase s t = Granted IfNeeded g \<Longrightarrow> \<not> needs_variant_detection (slot_status s) \<Longrightarrow>
    slot_step (Obsolete t) s (set_phase t Skipped s)"
| finish: "phase s t = Running g \<Longrightarrow> slot_step (Finish t) s (set_phase t Finished s)"
| status_change: "slot_step StatusChange s (s\<lparr>slot_status := st\<rparr>)"

inductive_cases slot_stepE: "slot_step e s s'"
inductive_cases grantE: "slot_step (Grant t) s s'"

inductive slot_run :: "slot_event list \<Rightarrow> detection_slot \<Rightarrow> detection_slot \<Rightarrow> bool" where
  nil: "slot_run [] s s"
| cons: "slot_step e s s' \<Longrightarrow> slot_run es s' s'' \<Longrightarrow> slot_run (e # es) s s''"

inductive_simps slot_run_simps: "slot_run [] s s'" "slot_run (e # es) s s'"

definition slot_init :: "ecu_state \<Rightarrow> detection_slot" where
  "slot_init st = \<lparr>detection_generation = 0, phase = (\<lambda>t. Idle), slot_status = st\<rparr>"

fun is_trigger :: "slot_event \<Rightarrow> bool" where
  "is_trigger (Trigger t) = True"
| "is_trigger _ = False"

section \<open>An example run\<close>

text \<open>A run in which task 0 is granted the slot and starts while task 1 is waiting.\<close>

definition demo_slot :: detection_slot where
  "demo_slot = \<lparr>detection_generation = 2,
     phase = (\<lambda>t. Idle)(0 := Running 1, 1 := Waiting Forced 2), slot_status = ecu_state_default\<rparr>"

lemma demo_run:
  "slot_run [Trigger 0, Acquire 0, Grant 0, Start 0, Trigger 1] (slot_init ecu_state_default) demo_slot"
proof -
  let ?s0 = "slot_init ecu_state_default"
  let ?s1 = "set_phase 0 (Waiting Forced 1) (?s0\<lparr>detection_generation := 1\<rparr>)"
  let ?s2 = "set_phase 0 (Holding Forced 1) ?s1"
  let ?s3 = "set_phase 0 (Granted Forced 1) ?s2"
  let ?s4 = "set_phase 0 (Running 1) ?s3"
  let ?s5 = "set_phase 1 (Waiting Forced 2) (?s4\<lparr>detection_generation := 2\<rparr>)"
  have 1: "slot_step (Trigger 0) ?s0 ?s1" by (rule trigger) (simp_all add: slot_init_def)
  have 2: "slot_step (Acquire 0) ?s1 ?s2" by (rule acquire) (simp_all add: slot_init_def)
  have 3: "slot_step (Grant 0) ?s2 ?s3" by (rule grant) simp_all
  have 4: "slot_step (Start 0) ?s3 ?s4" by (rule start[where k = Forced]) simp_all
  have 5: "slot_step (Trigger 1) ?s4 ?s5" by (rule trigger) (simp_all add: slot_init_def)
  have "?s5 = demo_slot" by (simp add: demo_slot_def slot_init_def)
  then show ?thesis
    using cons[OF 1 cons[OF 2 cons[OF 3 cons[OF 4 cons[OF 5 nil]]]]] by simp
qed

section \<open>Coalescing\<close>

text \<open>
  The generations of the tasks are distinct as long as fewer than \<open>2^64\<close> triggers have
  happened: \<open>n\<close> counts them, and \<open>rank\<close> gives each entered task its number.
\<close>

fun gen_of :: "task_phase \<Rightarrow> 64 word option" where
  "gen_of (Waiting k g) = Some g"
| "gen_of (Holding k g) = Some g"
| "gen_of (Granted k g) = Some g"
| "gen_of (Running g) = Some g"
| "gen_of _ = None"

definition numbered :: "nat \<Rightarrow> detection_slot \<Rightarrow> bool" where
  "numbered n s \<longleftrightarrow> detection_generation s = of_nat n \<and>
     (\<exists>rank. (\<forall>t g. gen_of (phase s t) = Some g \<longrightarrow> rank t \<in> {1..n} \<and> g = of_nat (rank t)) \<and>
        (\<forall>t u. gen_of (phase s t) \<noteq> None \<longrightarrow> gen_of (phase s u) \<noteq> None \<longrightarrow> rank t = rank u \<longrightarrow> t = u))"

lemma numbered_keep:
  assumes "numbered n s" and "gen_of p = gen_of (phase s t) \<or> gen_of p = None"
  shows "numbered n (set_phase t p s)"
proof -
  from assms(1) obtain rank where g: "detection_generation s = of_nat n"
    and r: "\<And>t g. gen_of (phase s t) = Some g \<Longrightarrow> rank t \<in> {1..n} \<and> g = of_nat (rank t)"
    and i: "\<And>t u. gen_of (phase s t) \<noteq> None \<Longrightarrow> gen_of (phase s u) \<noteq> None \<Longrightarrow>
      rank t = rank u \<Longrightarrow> t = u"
    unfolding numbered_def by blast
  have sub: "gen_of (phase (set_phase t p s) u) = gen_of (phase s u) \<or>
      gen_of (phase (set_phase t p s) u) = None" for u
    using assms(2) by auto
  show ?thesis unfolding numbered_def
  proof (intro conjI exI[of _ rank] allI impI)
    show "detection_generation (set_phase t p s) = of_nat n" using g by simp
  next
    fix u h assume "gen_of (phase (set_phase t p s) u) = Some h"
    with sub[of u] have "gen_of (phase s u) = Some h" by auto
    with r show "rank u \<in> {1..n}" "h = of_nat (rank u)" by auto
  next
    fix u v
    assume "gen_of (phase (set_phase t p s) u) \<noteq> None" "gen_of (phase (set_phase t p s) v) \<noteq> None"
      "rank u = rank v"
    with sub[of u] sub[of v] i show "u = v" by metis
  qed
qed

lemma numbered_trigger:
  assumes "numbered n s" and "phase s t = Idle"
  shows "numbered (Suc n) (set_phase t (Waiting k (detection_generation s + 1))
    (s\<lparr>detection_generation := detection_generation s + 1\<rparr>))"
proof -
  from assms(1) obtain rank where g: "detection_generation s = of_nat n"
    and r: "\<And>t g. gen_of (phase s t) = Some g \<Longrightarrow> rank t \<in> {1..n} \<and> g = of_nat (rank t)"
    and i: "\<And>t u. gen_of (phase s t) \<noteq> None \<Longrightarrow> gen_of (phase s u) \<noteq> None \<Longrightarrow>
      rank t = rank u \<Longrightarrow> t = u"
    unfolding numbered_def by blast
  have le: "rank u \<le> n" if "gen_of (phase s u) \<noteq> None" for u using r[of u] that by auto
  have idle: "gen_of (phase s t) = None" using assms(2) by simp
  show ?thesis unfolding numbered_def
  proof (intro conjI exI[of _ "rank(t := Suc n)"] allI impI)
    fix u h
    assume "gen_of (phase (set_phase t (Waiting k (detection_generation s + 1))
      (s\<lparr>detection_generation := detection_generation s + 1\<rparr>)) u) = Some h"
    then have "u = t \<and> h = of_nat (Suc n) \<or> u \<noteq> t \<and> gen_of (phase s u) = Some h"
      by (auto simp: g split: if_splits)
    then show "(rank(t := Suc n)) u \<in> {1..Suc n}" "h = of_nat ((rank(t := Suc n)) u)"
      using r[of u h] by auto
  next
    fix u v
    assume a: "gen_of (phase (set_phase t (Waiting k (detection_generation s + 1))
        (s\<lparr>detection_generation := detection_generation s + 1\<rparr>)) u) \<noteq> None"
      "gen_of (phase (set_phase t (Waiting k (detection_generation s + 1))
        (s\<lparr>detection_generation := detection_generation s + 1\<rparr>)) v) \<noteq> None"
      "(rank(t := Suc n)) u = (rank(t := Suc n)) v"
    have "gen_of (phase s x) \<noteq> None" if "x \<noteq> t" "x = u \<or> x = v" for x
      using a that by auto
    then show "u = v" using a(3) le[of u] le[of v] i[of u v] by (auto split: if_splits)
  qed (simp add: g)
qed

lemma numbered_step:
  assumes "slot_step e s s'" and "numbered n s"
  shows "numbered (if is_trigger e then Suc n else n) s'"
  using assms
proof cases
  case (trigger t g k)
  then show ?thesis using numbered_trigger[OF assms(2)] by simp
next
  case (status_change st)
  then show ?thesis using assms(2) by (simp add: numbered_def)
qed (use assms(2) in \<open>auto intro!: numbered_keep\<close>)

lemma numbered_run:
  "slot_run es s s' \<Longrightarrow> numbered n s \<Longrightarrow> numbered (n + length (filter is_trigger es)) s'"
proof (induction arbitrary: n rule: slot_run.induct)
  case (cons e s s' es s'')
  then show ?case using numbered_step[OF cons.hyps(1) cons.prems] cons.IH
    by (cases "is_trigger e") force+
qed simp

lemma numbered_unique:
  assumes "numbered n s" and "n < 2 ^ 64"
    and "gen_of (phase s t) = Some (detection_generation s)"
    and "gen_of (phase s u) = Some (detection_generation s)"
  shows "t = u"
proof -
  from assms(1) obtain rank where g: "detection_generation s = of_nat n"
    and r: "\<And>t g. gen_of (phase s t) = Some g \<Longrightarrow> rank t \<in> {1..n} \<and> g = of_nat (rank t)"
    and i: "\<And>t u. gen_of (phase s t) \<noteq> None \<Longrightarrow> gen_of (phase s u) \<noteq> None \<Longrightarrow>
      rank t = rank u \<Longrightarrow> t = u"
    unfolding numbered_def by blast
  have "rank v = n" if "gen_of (phase s v) = Some (detection_generation s)" for v
  proof -
    have "rank v \<le> n" "(of_nat n :: 64 word) = of_nat (rank v)" using r[OF that] g by auto
    moreover have "unat (of_nat n :: 64 word) = n" "unat (of_nat (rank v) :: 64 word) = rank v"
      using assms(2) \<open>rank v \<le> n\<close> by (simp_all add: unat_of_nat take_bit_nat_eq_self)
    ultimately show ?thesis by metis
  qed
  then show ?thesis using i assms(3,4) by (metis option.discI)
qed

text \<open>
  Once no task that waits or holds the lock carries the current generation, no task is granted
  the slot until the next trigger.
\<close>

fun candidate :: "detection_slot \<Rightarrow> nat \<Rightarrow> bool" where
  "candidate s t \<longleftrightarrow>
     (\<exists>k. phase s t = Waiting k (detection_generation s) \<or>
          phase s t = Holding k (detection_generation s))"

lemma candidate_step:
  "slot_step e s s' \<Longrightarrow> \<not> is_trigger e \<Longrightarrow> candidate s' t \<Longrightarrow> candidate s t"
  by (erule slot_stepE) (auto split: if_splits)

lemma grant_candidate:
  "slot_run es s s' \<Longrightarrow> \<not> list_ex is_trigger es \<Longrightarrow> Grant t \<in> set es \<Longrightarrow> candidate s t"
proof (induction rule: slot_run.induct)
  case (cons e s s' es s'')
  show ?case
  proof (cases "e = Grant t")
    case True
    then show ?thesis using cons.hyps(1) by (auto elim!: grantE)
  next
    case False
    then have "candidate s' t" using cons.IH cons.prems by simp
    then show ?thesis using candidate_step[OF cons.hyps(1)] cons.prems(1) by simp
  qed
qed simp

fun is_grant :: "slot_event \<Rightarrow> bool" where
  "is_grant (Grant t) = True"
| "is_grant _ = False"

lemma is_grant_iff: "is_grant e \<longleftrightarrow> (\<exists>t. e = Grant t)"
  by (cases e) auto

lemma grant_last_candidate:
  assumes "slot_step (Grant t) s s'" and "numbered n s" and "n < 2 ^ 64"
  shows "\<not> candidate s' u"
proof
  assume c: "candidate s' u"
  from assms(1) obtain k where k: "phase s t = Holding k (detection_generation s)"
    "s' = set_phase t (Granted k (detection_generation s)) s"
    by (auto elim!: grantE)
  with c have "u \<noteq> t" by auto
  moreover have "gen_of (phase s u) = Some (detection_generation s)"
    using c k \<open>u \<noteq> t\<close> by auto
  ultimately show False using numbered_unique[OF assms(2,3), of t u] k by simp
qed

lemma grants_le_1:
  "slot_run es s s' \<Longrightarrow> \<not> list_ex is_trigger es \<Longrightarrow> numbered n s \<Longrightarrow> n < 2 ^ 64 \<Longrightarrow>
   length (filter is_grant es) \<le> 1"
proof (induction rule: slot_run.induct)
  case (cons e s s' es s'')
  show ?case
  proof (cases "is_grant e")
    case True
    then obtain t where "e = Grant t" by (auto simp: is_grant_iff)
    then have "\<not> candidate s' u" for u
      using grant_last_candidate cons.hyps(1) cons.prems by blast
    then have "Grant u \<notin> set es" for u
      using grant_candidate[OF cons.hyps(2)] cons.prems(1) by auto
    then have "filter is_grant es = []" by (auto simp: filter_empty_conv is_grant_iff)
    then show ?thesis by simp
  next
    case False
    then show ?thesis
      using cons.IH cons.prems numbered_step[OF cons.hyps(1), of n] by simp
  qed
qed simp

text \<open>
  C16: a burst of triggers coalesces. However many tasks are queued behind the slot of an ECU, and
  however their steps interleave with one another and with changes of its status, once no further
  trigger arrives at most one of them is granted the slot, and it is a task that carries the newest
  generation: the detection that runs is the one triggered last, and all the others skip theirs. The
  bound needs the 64-bit generation not to have wrapped around.
\<close>

theorem detection_burst_coalesces:
  assumes "slot_run es0 (slot_init st) s" and "length (filter is_trigger es0) < 2 ^ 64"
    and "slot_run es s s'" and "\<not> list_ex is_trigger es"
  shows "length (filter is_grant es) \<le> 1 \<and>
    (\<forall>t. Grant t \<in> set es \<longrightarrow> (\<exists>k. phase s t \<in>
       {Waiting k (detection_generation s), Holding k (detection_generation s)}))"
proof -
  have "numbered 0 (slot_init st)" by (auto simp: numbered_def slot_init_def)
  then have "numbered (length (filter is_trigger es0)) s" using numbered_run[OF assms(1), of 0] by simp
  then have "length (filter is_grant es) \<le> 1" using grants_le_1 assms by blast
  then show ?thesis using grant_candidate[OF assms(3,4)] by auto
qed

lemma demo_run_rest:
  "\<exists>s'. slot_run [Finish 0, Acquire 1, Grant 1] demo_slot s'"
proof -
  let ?s1 = "set_phase 0 Finished demo_slot"
  let ?s2 = "set_phase 1 (Holding Forced 2) ?s1"
  have 1: "slot_step (Finish 0) demo_slot ?s1" by (rule finish) (simp add: demo_slot_def)
  have 2: "slot_step (Acquire 1) ?s1 ?s2"
    by (rule acquire) (simp_all add: demo_slot_def)
  have 3: "slot_step (Grant 1) ?s2 (set_phase 1 (Granted Forced 2) ?s2)"
    by (rule grant) (simp_all add: demo_slot_def)
  show ?thesis using cons[OF 1 cons[OF 2 cons[OF 3 nil]]] by blast
qed

theorem detection_burst_coalesces_witness:
  "\<exists>s'. slot_run [Finish 0, Acquire 1, Grant 1] demo_slot s' \<and>
     length (filter is_grant [Finish 0, Acquire 1, Grant 1]) \<le> 1 \<and>
     (\<exists>k. phase demo_slot 1 \<in>
       {Waiting k (detection_generation demo_slot), Holding k (detection_generation demo_slot)})"
  using demo_run_rest
    detection_burst_coalesces[OF demo_run, of "[Finish 0, Acquire 1, Grant 1]"] by fastforce

end
