(* ===== verification/Step_Invariant.thy ===== *)
theory Step_Invariant
  imports Main
begin

text \<open>
  Invariants of step relations. The concurrent components (the detection slot, the shared ECU
  state, the transport router) are relations between states; what each proves of a single step is
  the premise of \<open>step_invariant\<close>, and the locale carries it to every run. \<open>step_history\<close> adds a
  relation between the states of a run, such as that entries are only added.
\<close>

locale step_invariant =
  fixes step :: "'s \<Rightarrow> 's \<Rightarrow> bool"
    and inv :: "'s \<Rightarrow> bool"
  assumes preserved: "step s s' \<Longrightarrow> inv s \<Longrightarrow> inv s'"
begin

lemma run_preserves: "step\<^sup>*\<^sup>* s s' \<Longrightarrow> inv s \<Longrightarrow> inv s'"
  by (induction rule: rtranclp_induct) (auto intro: preserved)

end

locale step_history = step_invariant +
  fixes hist :: "'a \<Rightarrow> 'a \<Rightarrow> bool"
  assumes hist_refl: "hist s s"
    and hist_trans: "hist s t \<Longrightarrow> hist t u \<Longrightarrow> hist s u"
    and hist_step: "step s s' \<Longrightarrow> inv s \<Longrightarrow> hist s s'"
begin

lemma run_history: "step\<^sup>*\<^sup>* s s' \<Longrightarrow> inv s \<Longrightarrow> hist s s'"
proof (induction rule: rtranclp_induct)
  case base
  show ?case by (rule hist_refl)
next
  case (step t u)
  then have "inv t" using run_preserves by blast
  then show ?case using step hist_step hist_trans by blast
qed

end

end
