(* ===== verification/Diag_Layers.thy ===== *)
theory Diag_Layers
  imports Diag_Error
begin

text \<open>
  The layers of the diagnostic description and how they are found: the flatbuffer records that
  the kernel reads, optional where the accessor is, and the resolution of parent references
  (\<open>cda-core/src/diag_kernel/service_lookup.rs\<close>), a loop with an explicit stack over the
  references. Layers, services and state charts are inherited along these references.
\<close>

section \<open>Records\<close>

record state_transition =
  source_short_name_ref :: "string option"
  target_short_name_ref :: "string option"

record state_chart =
  chart_semantic :: "string option"
  start_state_short_name_ref :: "string option"
  chart_states :: "string option list option"
  chart_transitions :: "state_transition list option"

text \<open>A reference to a state or a transition is \<open>None\<close> when its target is missing.\<close>

record diag_comm =
  comm_short_name :: "string option"
  pre_condition_state_refs :: "string option list option"
  state_transition_refs :: "state_transition option list option"

record diag_service =
  service_diag_comm :: "diag_comm option"
  request_id :: "byte option"
  request_sub_function_id :: "nat option"
  request_param_count :: "nat option"

record diag_layer =
  layer_short_name :: "string option"
  state_charts :: "state_chart list option"
  diag_services :: "diag_service list option"

text \<open>
  A parent reference with the names of the communication elements it does not pass on.
  \<open>UnsupportedRef\<close> is a reference of another type or without its object.
\<close>

datatype parent_ref =
    FunctionalGroupRef "string list option" "diag_layer option" "parent_ref list option"
  | EcuSharedDataRef "string list option" "diag_layer option"
  | ProtocolRef "string list option" "diag_layer option" "parent_ref list option"
  | VariantRef "string list option" "diag_layer option" "parent_ref list option"
  | UnsupportedRef

section \<open>Resolution of parent references\<close>

definition flatten_refs :: "'a list option \<Rightarrow> 'a list" where
  "flatten_refs xo = (case xo of None \<Rightarrow> [] | Some xs \<Rightarrow> xs)"

fun nested_refs :: "parent_ref \<Rightarrow> parent_ref list" where
  "nested_refs (FunctionalGroupRef ns l ps) = flatten_refs ps"
| "nested_refs (ProtocolRef ns l ps) = flatten_refs ps"
| "nested_refs (VariantRef ns l ps) = flatten_refs ps"
| "nested_refs _ = []"

fun ref_layer :: "parent_ref \<Rightarrow> diag_layer option" where
  "ref_layer (FunctionalGroupRef ns l ps) = l"
| "ref_layer (EcuSharedDataRef ns l) = l"
| "ref_layer (ProtocolRef ns l ps) = l"
| "ref_layer (VariantRef ns l ps) = l"
| "ref_layer UnsupportedRef = None"

fun not_inherited_diag_comm_short_names :: "parent_ref \<Rightarrow> string list" where
  "not_inherited_diag_comm_short_names (FunctionalGroupRef ns l ps) = flatten_refs ns"
| "not_inherited_diag_comm_short_names (EcuSharedDataRef ns l) = flatten_refs ns"
| "not_inherited_diag_comm_short_names (ProtocolRef ns l ps) = flatten_refs ns"
| "not_inherited_diag_comm_short_names (VariantRef ns l ps) = flatten_refs ns"
| "not_inherited_diag_comm_short_names UnsupportedRef = []"

definition own_pair :: "parent_ref \<Rightarrow> (parent_ref \<times> diag_layer) list" where
  "own_pair r = (case ref_layer r of None \<Rightarrow> [] | Some l \<Rightarrow> [(r, l)])"

lemma nested_refs_size: "x \<in> set (nested_refs r) \<Longrightarrow> size x < size r"
proof (induction r rule: nested_refs.induct)
  case (1 ns l ps)
  then show ?case by (cases ps) (auto simp: flatten_refs_def dest!: size_list_estimation'[where f = size and y = "size x"])
next
  case (2 ns l ps)
  then show ?case by (cases ps) (auto simp: flatten_refs_def dest!: size_list_estimation'[where f = size and y = "size x"])
next
  case (3 ns l ps)
  then show ?case by (cases ps) (auto simp: flatten_refs_def dest!: size_list_estimation'[where f = size and y = "size x"])
qed auto

lemma nested_refs_weight: "sum_list (map (Suc \<circ> size) (nested_refs r)) < Suc (size r)"
proof -
  have "sum_list (map (Suc \<circ> size) xs) = size_list size xs" for xs :: "parent_ref list"
    by (induction xs) auto
  then show ?thesis by (cases r rule: nested_refs.cases) (auto simp: flatten_refs_def split: option.splits)
qed

text \<open>The loop: the stack is a vector whose last element is popped.\<close>

function resolve_loop ::
    "parent_ref list \<Rightarrow> (parent_ref \<times> diag_layer) list \<Rightarrow> (parent_ref \<times> diag_layer) list" where
  "resolve_loop stack result =
     (if stack = [] then result
      else let r = last stack in
        resolve_loop (butlast stack @ nested_refs r) (result @ own_pair r))"
  by pat_completeness auto

termination
proof (relation "measure (\<lambda>(stack, result). sum_list (map (Suc \<circ> size) stack))")
  fix stack :: "parent_ref list" and result :: "(parent_ref \<times> diag_layer) list" and r
  assume ne: "stack \<noteq> []" and r: "r = last stack"
  have "sum_list (map (Suc \<circ> size) stack) = sum_list (map (Suc \<circ> size) (butlast stack)) + Suc (size r)"
    using ne unfolding r by (cases stack rule: rev_cases) simp_all
  then show "((butlast stack @ nested_refs r, result @ own_pair r), stack, result)
      \<in> measure (\<lambda>(stack, result). sum_list (map (Suc \<circ> size) stack))"
    using nested_refs_weight[of r] by simp
qed simp

declare resolve_loop.simps [simp del]

definition get_parent_ref_diag_layers_with_refs_recursive ::
    "parent_ref list \<Rightarrow> (parent_ref \<times> diag_layer) list" where
  "get_parent_ref_diag_layers_with_refs_recursive refs = resolve_loop refs []"

definition get_parent_ref_diag_layers_recursive :: "parent_ref list \<Rightarrow> diag_layer list" where
  "get_parent_ref_diag_layers_recursive refs =
     map snd (get_parent_ref_diag_layers_with_refs_recursive refs)"

definition service_short_name :: "diag_service \<Rightarrow> string option" where
  "service_short_name s = (case service_diag_comm s of None \<Rightarrow> None | Some dc \<Rightarrow> comm_short_name dc)"

definition get_parent_ref_services_recursive :: "parent_ref list \<Rightarrow> diag_service list" where
  "get_parent_ref_services_recursive refs =
     concat (map (\<lambda>(r, l). filter (\<lambda>s. case service_short_name s of None \<Rightarrow> True
           | Some n \<Rightarrow> n \<notin> set (not_inherited_diag_comm_short_names r)) (flatten_refs (diag_services l)))
       (get_parent_ref_diag_layers_with_refs_recursive refs))"

section \<open>The order of the layers\<close>

text \<open>The reference: depth first, a layer before its parents, the last reference first.\<close>

function layers_below :: "parent_ref \<Rightarrow> (parent_ref \<times> diag_layer) list" where
  "layers_below r = own_pair r @ concat (map layers_below (rev (nested_refs r)))"
  by pat_completeness auto

termination
  by (relation "measure size") (auto simp: nested_refs_size)

declare layers_below.simps [simp del]

lemma resolve_loop_correct:
  "resolve_loop stack result = result @ concat (map layers_below (rev stack))"
proof (induction stack result rule: resolve_loop.induct)
  case (1 stack result)
  show ?case
  proof (cases "stack = []")
    case True
    then show ?thesis by (simp add: resolve_loop.simps)
  next
    case False
    let ?r = "last stack"
    have "concat (map layers_below (rev stack)) =
        layers_below ?r @ concat (map layers_below (rev (butlast stack)))"
      using False by (cases stack rule: rev_cases) simp_all
    then show ?thesis
      using 1[OF False refl] False layers_below.simps[of ?r]
      by (simp add: resolve_loop.simps[of stack result] Let_def)
  qed
qed

text \<open>
  C38: The resolution of parent references, a loop with an explicit stack, ends on every
  description and is a depth-first walk: every layer comes before the layers of its own parents,
  and of several references the last one comes first.
\<close>

theorem parent_refs_depth_first:
  "get_parent_ref_diag_layers_with_refs_recursive refs = concat (map layers_below (rev refs))"
  by (simp add: get_parent_ref_diag_layers_with_refs_recursive_def resolve_loop_correct)

end
