(* ===== verification/Variant_Detection.thy ===== *)
theory Variant_Detection
  imports Ecu_State Hex_Text Step_Invariant Diag_Layers
begin

text \<open>
  Variant detection of one ECU: matching the responses against the variant patterns
  (\<open>cda-core/src/diag_kernel/variant_detection.rs\<close>), setting the detected variant and the
  default service states (\<open>variant.rs\<close>, \<open>ecumanager.rs\<close>, \<open>state.rs\<close>). The diagnostic
  database is the data its flatbuffer accessors return, optional where the accessor is; what
  loading the database file gives is a field of the manager. A response is the result of its
  conversion to JSON, the parameters with their printed values.
\<close>

section \<open>Database\<close>

record matching_parameter =
  expected_value :: "string option"
  out_param :: "string option"
  diag_service_name :: "string option"

record variant =
  variant_layer :: "diag_layer option"
  variant_is_base :: bool
  parent_refs :: "parent_ref list option"
  variant_pattern :: "matching_parameter list option list option"

record functional_group =
  group_layer :: "diag_layer option"
  group_parent_refs :: "parent_ref list option"

record ecu_data =
  variants :: "variant list option"
  functional_groups :: "functional_group list option"

definition variant_short_name :: "variant \<Rightarrow> string option" where
  "variant_short_name v = (case variant_layer v of None \<Rightarrow> None | Some l \<Rightarrow> layer_short_name l)"

section \<open>Matching\<close>

type_synonym response_params = "(string \<times> string) list"
type_synonym service_responses = "(string \<times> response_params diag_result) list"

definition strip_quotes :: "string \<Rightarrow> string" where
  "strip_quotes s = filter (\<lambda>c. c \<noteq> CHR 0x22) s"

fun collect_responses :: "service_responses \<Rightarrow> (string \<times> response_params) list diag_result" where
  "collect_responses [] = Inr []"
| "collect_responses ((service, r) # rs) =
     bindE r (\<lambda>ps. bindE (collect_responses rs) (\<lambda>rest.
       Inr ((service, map (\<lambda>(n, v). (n, strip_quotes v)) ps) # rest)))"

definition parameter_matches :: "(string \<times> response_params) list \<Rightarrow> matching_parameter \<Rightarrow> bool" where
  "parameter_matches responses mp =
     (let wanted = unwrap_or (expected_value mp) '''';
          wanted_param = unwrap_or (out_param mp) '''';
          service = unwrap_or (diag_service_name mp) ''''
      in case map_of responses service of
           None \<Rightarrow> False
         | Some ps \<Rightarrow> (case map_of ps wanted_param of
               None \<Rightarrow> False
             | Some v \<Rightarrow> let received = strip_quotes v in
                 received = wanted \<or> byte_field_matches_hex_pattern received wanted))"

definition variant_matches :: "(string \<times> response_params) list \<Rightarrow> variant \<Rightarrow> bool" where
  "variant_matches responses v =
     (case variant_pattern v of
        None \<Rightarrow> False
      | Some patterns \<Rightarrow> list_ex (\<lambda>p. case p of
            None \<Rightarrow> False
          | Some mps \<Rightarrow> list_all (parameter_matches responses) mps) patterns)"

definition evaluate_variant :: "service_responses \<Rightarrow> ecu_data option \<Rightarrow> variant diag_result" where
  "evaluate_variant responses db =
     bindE (collect_responses responses) (\<lambda>rs.
     bindE (ok_or db (InvalidDatabase ''ECU data not loaded'')) (\<lambda>d.
     bindE (ok_or (variants d) (InvalidDatabase ''ECU has no variants!'')) (\<lambda>vs.
     ok_or (find (variant_matches rs) vs) (VariantDetectionError ''No variant found for ECU''))))"

section \<open>The manager\<close>

text \<open>The cache of service lookups: where the services of a variant were found.\<close>

datatype cache_location = VariantAt nat | ParentRefAt nat

record cached_service =
  cached_variant_index :: "nat option"
  cached_location :: "cache_location option"

type_synonym service_cache = "string \<rightharpoonup> cached_service"

record ecu_manager =
  runtime_state :: ecu_runtime_state
  diag_database :: "ecu_data option"
  db_file :: "ecu_data diag_result"
  db_cache :: service_cache
  fallback_to_base_variant :: bool
  session_semantic :: string
  security_semantic :: string
  duplicating_ecu_names :: "string list option"

abbreviation manager_status :: "ecu_manager \<Rightarrow> ecu_state" where
  "manager_status m \<equiv> ecu_state (runtime_state m)"

abbreviation set_status :: "(ecu_state \<Rightarrow> ecu_state) \<Rightarrow> ecu_manager \<Rightarrow> ecu_manager" where
  "set_status f m \<equiv>
     m\<lparr>runtime_state := (runtime_state m)\<lparr>ecu_state := f (ecu_state (runtime_state m))\<rparr>\<rparr>"

abbreviation set_services :: "((byte \<rightharpoonup> string) \<Rightarrow> (byte \<rightharpoonup> string)) \<Rightarrow> ecu_manager \<Rightarrow> ecu_manager" where
  "set_services f m \<equiv>
     m\<lparr>runtime_state := (runtime_state m)\<lparr>service_states := f (service_states (runtime_state m))\<rparr>\<rparr>"

definition load :: "ecu_manager \<Rightarrow> unit diag_result \<times> ecu_manager" where
  "load m = (case db_file m of Inl e \<Rightarrow> (Inl e, m) | Inr d \<Rightarrow> (Inr (), m\<lparr>diag_database := Some d\<rparr>))"

definition base_variant_of :: "ecu_data option \<Rightarrow> variant diag_result" where
  "base_variant_of db =
     bindE (ok_or db (InvalidDatabase ''ECU data not loaded'')) (\<lambda>d.
     ok_or (case variants d of None \<Rightarrow> None | Some vs \<Rightarrow> find variant_is_base vs)
       (InvalidDatabase ''No base variant found in ECU data.''))"

text \<open>\<open>EcuManager::variant\<close>; the accessor panics when the index is out of range.\<close>

definition current_variant :: "ecu_manager \<Rightarrow> variant option" where
  "current_variant m =
     (case variant_index (manager_status m) of
        None \<Rightarrow> None
      | Some idx \<Rightarrow> (case diag_database m of
            None \<Rightarrow> None
          | Some d \<Rightarrow> (case variants d of None \<Rightarrow> None | Some vs \<Rightarrow> get vs idx)))"

definition diag_layers_of :: "ecu_manager \<Rightarrow> diag_layer list" where
  "diag_layers_of m =
     (case (case current_variant m of
              Some v \<Rightarrow> Some v
            | None \<Rightarrow> (case base_variant_of (diag_database m) of Inr v \<Rightarrow> Some v | Inl e \<Rightarrow> None)) of
        None \<Rightarrow> []
      | Some v \<Rightarrow> (case variant_layer v of None \<Rightarrow> [] | Some l \<Rightarrow> [l]) @
                  get_parent_ref_diag_layers_recursive (flatten_refs (parent_refs v)))"

definition lookup_state_chart :: "ecu_manager \<Rightarrow> string \<Rightarrow> state_chart diag_result" where
  "lookup_state_chart m semantic =
     ok_or (find (\<lambda>sc. chart_semantic sc = Some semantic)
              (concat (List.map_filter state_charts (diag_layers_of m))))
       (NotFound ''State chart with semantic not found in base variant'')"

definition default_state :: "ecu_manager \<Rightarrow> string \<Rightarrow> string diag_result" where
  "default_state m semantic =
     bindE (lookup_state_chart m semantic) (\<lambda>sc.
     ok_or (start_state_short_name_ref sc)
       (InvalidDatabase ''No start state defined in state chart''))"

definition set_default_states :: "ecu_manager \<Rightarrow> unit diag_result \<times> ecu_manager" where
  "set_default_states m =
     (case default_state m (session_semantic m) of
        Inl e \<Rightarrow> (Inl e, m)
      | Inr session \<Rightarrow>
          let m1 = set_services (\<lambda>ss. or_insert ss SESSION_CONTROL session) m in
          (case default_state m1 (security_semantic m1) of
             Inl e \<Rightarrow> (Inl e, m1)
           | Inr security \<Rightarrow>
               (Inr (), set_services (\<lambda>ss.
                  or_insert (or_insert (or_insert ss SECURITY_ACCESS security)
                    CONTROL_DTC_SETTING ''on'') COMMUNICATION_CONTROL ''enablerxandenabletx'') m1)))"

record variant_data =
  vd_name :: string
  vd_is_base_variant :: bool
  vd_is_fallback :: bool

definition from_variant_and_fallback :: "variant \<Rightarrow> bool \<Rightarrow> variant_data" where
  "from_variant_and_fallback v is_fb =
     \<lparr>vd_name = unwrap_or (variant_short_name v) '''', vd_is_base_variant = variant_is_base v,
      vd_is_fallback = is_fb\<rparr>"

fun position :: "('a \<Rightarrow> bool) \<Rightarrow> 'a list \<Rightarrow> nat option" where
  "position p [] = None"
| "position p (x # xs) = (if p x then Some 0 else map_option Suc (position p xs))"

definition variant_position :: "ecu_data option \<Rightarrow> string \<Rightarrow> nat option" where
  "variant_position db name =
     (case db of None \<Rightarrow> None
      | Some d \<Rightarrow> (case variants d of None \<Rightarrow> None
          | Some vs \<Rightarrow> position (\<lambda>v. variant_short_name v = Some name) vs))"

definition set_variant :: "variant_data \<Rightarrow> ecu_manager \<Rightarrow> unit diag_result \<times> ecu_manager" where
  "set_variant vd m =
     (let idx = variant_position (diag_database m) (vd_name vd);
          m1 = (if variant_index (manager_status m) \<noteq> idx then m\<lparr>db_cache := Map.empty\<rparr> else m);
          m2 = set_status (\<lambda>st.
                 (if idx \<noteq> None
                  then st\<lparr>connectivity := Online,
                          variant_state := Detected (vd_name vd) (vd_is_base_variant vd)
                            (vd_is_fallback vd)\<rparr>
                  else st\<lparr>variant_state := NotDetected\<rparr>)\<lparr>variant_index := idx\<rparr>) m1
      in set_default_states m2)"

definition clear_variant_and_unload ::
    "variant_state \<Rightarrow> connectivity option \<Rightarrow> ecu_manager \<Rightarrow> ecu_manager" where
  "clear_variant_and_unload vs conn m =
     (set_status (\<lambda>st. let st' = st\<lparr>variant_state := vs, variant_index := None\<rparr> in
        case conn of None \<Rightarrow> st' | Some c \<Rightarrow> st'\<lparr>connectivity := c\<rparr>) m)
       \<lparr>db_cache := Map.empty, diag_database := None\<rparr>"

definition detect_variant :: "service_responses \<Rightarrow> ecu_manager \<Rightarrow> unit diag_result \<times> ecu_manager" where
  "detect_variant responses m =
     (case (if diag_database m = None then load m else (Inr (), m)) of
        (Inl e, m1) \<Rightarrow> (Inl e, m1)
      | (Inr _, m1) \<Rightarrow>
          if responses = [] then (Inr (), set_status (\<lambda>st. st\<lparr>connectivity := Offline\<rparr>) m1)
          else (case evaluate_variant responses (diag_database m1) of
              Inr v \<Rightarrow> set_variant (from_variant_and_fallback v False) m1
            | Inl e \<Rightarrow>
                if \<not> fallback_to_base_variant m1
                then (Inl e, clear_variant_and_unload NotDetected (Some Online) m1)
                else (case base_variant_of (diag_database m1) of
                    Inl e' \<Rightarrow> (Inl e', clear_variant_and_unload NotDetected (Some Online) m1)
                  | Inr b \<Rightarrow> set_variant (from_variant_and_fallback b True) m1)))"

definition mark_as_duplicate :: "ecu_manager \<Rightarrow> ecu_manager" where
  "mark_as_duplicate m = clear_variant_and_unload Duplicate None m"

definition mark_as_no_variant_detected :: "ecu_manager \<Rightarrow> ecu_manager" where
  "mark_as_no_variant_detected m = clear_variant_and_unload NotDetected None m"

section \<open>What the operations do to the state\<close>

lemma set_default_states_frame [simp]:
  "manager_status (snd (set_default_states m)) = manager_status m"
  "diag_database (snd (set_default_states m)) = diag_database m"
  "db_file (snd (set_default_states m)) = db_file m"
  by (auto simp: set_default_states_def Let_def split: sum.splits)

lemma current_variant_services [simp]: "current_variant (set_services (\<lambda>_. x) m) = current_variant m"
  by (simp add: current_variant_def cong: option.case_cong)

lemma diag_layers_services [simp]: "diag_layers_of (set_services (\<lambda>_. x) m) = diag_layers_of m"
  by (simp add: diag_layers_of_def cong: option.case_cong)

lemma default_state_services [simp]:
  "default_state (set_services (\<lambda>_. x) m) s = default_state m s"
  by (simp add: default_state_def lookup_state_chart_def)

text \<open>The default states do not replace the session and security state that is already known.\<close>

lemma or_insert_other: "k \<noteq> k' \<Longrightarrow> or_insert m k' v k = m k"
  by (auto simp: or_insert_def split: option.splits)

lemma set_default_states_keeps_known:
  "service_states (runtime_state m) sid = Some v \<Longrightarrow>
   service_states (runtime_state (snd (set_default_states m))) sid = Some v"
  by (auto simp: set_default_states_def Let_def or_insert_keeps split: sum.splits)

lemma set_variant_status:
  "manager_status (snd (set_variant vd m)) =
     (let idx = variant_position (diag_database m) (vd_name vd) in
      if idx = None then (manager_status m)\<lparr>variant_state := NotDetected, variant_index := None\<rparr>
      else \<lparr>connectivity = Online,
            variant_state = Detected (vd_name vd) (vd_is_base_variant vd) (vd_is_fallback vd),
            variant_index = idx\<rparr>)"
  by (simp add: set_variant_def Let_def)

lemma set_variant_database [simp]: "diag_database (snd (set_variant vd m)) = diag_database m"
  by (simp add: set_variant_def Let_def)

lemma clear_variant_status [simp]:
  "manager_status (clear_variant_and_unload vs conn m) =
     \<lparr>connectivity = (case conn of None \<Rightarrow> connectivity (manager_status m) | Some c \<Rightarrow> c),
      variant_state = vs, variant_index = None\<rparr>"
  by (simp add: clear_variant_and_unload_def Let_def split: option.splits)

text \<open>The database a detection works on: the loaded one, or what loading the file gives.\<close>

definition available_data :: "ecu_manager \<Rightarrow> ecu_data diag_result" where
  "available_data m = (case diag_database m of Some d \<Rightarrow> Inr d | None \<Rightarrow> db_file m)"

lemma detect_variant_loaded:
  assumes "available_data m = Inr d"
  shows "detect_variant responses m =
    (let m1 = m\<lparr>diag_database := Some d\<rparr> in
     if responses = [] then (Inr (), set_status (\<lambda>st. st\<lparr>connectivity := Offline\<rparr>) m1)
     else (case evaluate_variant responses (Some d) of
         Inr v \<Rightarrow> set_variant (from_variant_and_fallback v False) m1
       | Inl e \<Rightarrow>
           if \<not> fallback_to_base_variant m
           then (Inl e, clear_variant_and_unload NotDetected (Some Online) m1)
           else (case base_variant_of (Some d) of
               Inl e' \<Rightarrow> (Inl e', clear_variant_and_unload NotDetected (Some Online) m1)
             | Inr b \<Rightarrow> set_variant (from_variant_and_fallback b True) m1)))"
proof -
  have "(if diag_database m = None then load m else (Inr (), m)) = (Inr (), m\<lparr>diag_database := Some d\<rparr>)"
    using assms by (auto simp: available_data_def load_def split: option.splits)
  then show ?thesis
    by (cases "evaluate_variant responses (Some d)"; cases "base_variant_of (Some d)")
      (simp_all add: detect_variant_def Let_def)
qed

lemma detect_variant_unavailable:
  "available_data m = Inl e \<Longrightarrow> detect_variant responses m = (Inl e, m)"
  by (simp add: available_data_def detect_variant_def load_def split: option.splits)

lemma detect_variant_no_response:
  "available_data m = Inr d \<Longrightarrow>
   manager_status (snd (detect_variant [] m)) = (manager_status m)\<lparr>connectivity := Offline\<rparr>"
  by (simp add: detect_variant_loaded Let_def)

text \<open>A detection with responses ends in one of two kinds of state.\<close>

lemma detect_variant_outcome:
  assumes "available_data m = Inr d" and "responses \<noteq> []"
  shows "(\<exists>n b f i. manager_status (snd (detect_variant responses m)) =
            \<lparr>connectivity = Online, variant_state = Detected n b f, variant_index = Some i\<rparr>) \<or>
         (variant_state (manager_status (snd (detect_variant responses m))) = NotDetected \<and>
          variant_index (manager_status (snd (detect_variant responses m))) = None)"
  using assms(2)
  by (auto simp: detect_variant_loaded[OF assms(1)] set_variant_status Let_def split: sum.splits)

section \<open>The invariant of the shared state\<close>

text \<open>
  An ECU has an index into the variant list exactly while a variant is detected. The state is
  shared between the manager, which writes detection results, and the coordinator, which handles
  messages; every write happens under one lock, so the writers interleave in whole steps.
\<close>

definition index_consistent :: "ecu_state \<Rightarrow> bool" where
  "index_consistent st \<longleftrightarrow> (variant_index st \<noteq> None \<longleftrightarrow> is_detected (variant_state st))"

inductive runtime_step :: "ecu_runtime_state \<Rightarrow> ecu_runtime_state \<Rightarrow> bool" where
  message: "runtime_step (coord_state c) (coord_state (handle msg c))"
| detection: "runtime_step (runtime_state m) (runtime_state (snd (detect_variant responses m)))"
| marked_duplicate: "runtime_step (runtime_state m) (runtime_state (mark_as_duplicate m))"
| marked_undetected: "runtime_step (runtime_state m) (runtime_state (mark_as_no_variant_detected m))"
| defaults: "runtime_step (runtime_state m) (runtime_state (snd (set_default_states m)))"

lemma handle_index_consistent:
  "index_consistent (status c) \<Longrightarrow> index_consistent (status (handle msg c))"
  by (cases msg) (auto simp: handle_defs index_consistent_def)

lemma detect_variant_index_consistent:
  assumes "index_consistent (manager_status m)"
  shows "index_consistent (manager_status (snd (detect_variant responses m)))"
proof (cases "available_data m")
  case (Inr d)
  show ?thesis
  proof (cases "responses = []")
    case True
    then show ?thesis
      using assms detect_variant_no_response[OF Inr] by (simp add: index_consistent_def)
  next
    case False
    from detect_variant_outcome[OF Inr this] show ?thesis
      by (auto simp: index_consistent_def)
  qed
qed (use assms in \<open>simp add: detect_variant_unavailable\<close>)

lemma runtime_step_index_consistent:
  "runtime_step st st' \<Longrightarrow> index_consistent (ecu_state st) \<Longrightarrow> index_consistent (ecu_state st')"
  by (induction rule: runtime_step.induct)
    (auto simp: handle_index_consistent detect_variant_index_consistent mark_as_duplicate_def
      mark_as_no_variant_detected_def index_consistent_def[of "_\<lparr>connectivity := _\<rparr>"]
      index_consistent_def[of "\<lparr>connectivity = _, variant_state = _, variant_index = _\<rparr>"])

interpretation runtime: step_invariant runtime_step "\<lambda>st. index_consistent (ecu_state st)"
  by unfold_locales (rule runtime_step_index_consistent)

text \<open>
  The variant index and the variant state of an ECU agree in every reachable state. Under
  every interleaving of connectivity events, detections and markings, the index used to read the
  database is present exactly when a variant is detected.
\<close>

theorem variant_index_consistent:
  assumes "runtime_step\<^sup>*\<^sup>* ecu_runtime_state_new st"
  shows "variant_index (ecu_state st) \<noteq> None \<longleftrightarrow> is_detected (variant_state (ecu_state st))"
proof -
  have "index_consistent (ecu_state ecu_runtime_state_new)"
    by (simp add: index_consistent_def ecu_runtime_state_new_def ecu_state_default_def)
  from runtime.run_preserves[OF assms this] show ?thesis by (simp add: index_consistent_def)
qed

theorem variant_index_consistent_witness:
  "variant_index (ecu_state (coord_state (handle EcuConnected (spawn ''ECU'')))) \<noteq> None \<longleftrightarrow>
   is_detected (variant_state (ecu_state (coord_state (handle EcuConnected (spawn ''ECU'')))))"
proof (rule variant_index_consistent)
  have "coord_state (spawn ''ECU'') = ecu_runtime_state_new"
    by (simp add: spawn_def spawn_with_state_def)
  then show "runtime_step\<^sup>*\<^sup>* ecu_runtime_state_new (coord_state (handle EcuConnected (spawn ''ECU'')))"
    using message[of "spawn ''ECU''" EcuConnected] by auto
qed

section \<open>The detected variant\<close>

lemma position_first:
  "position p xs = Some i \<longleftrightarrow> i < length xs \<and> p (xs ! i) \<and> (\<forall>j<i. \<not> p (xs ! j))"
proof (induction xs arbitrary: i)
  case (Cons x xs)
  then show ?case by (cases i) (auto simp: less_Suc_eq_0_disj split: if_splits)
qed simp

lemma find_mem: "find p xs = Some x \<Longrightarrow> x \<in> set xs \<and> p x"
  by (auto simp: find_Some_iff)

lemma variant_position_unique:
  assumes "db = Some d" "variants d = Some vs" "v \<in> set vs" "variant_short_name v = Some n"
    and "distinct (map variant_short_name vs)"
  shows "\<exists>i < length vs. variant_position db n = Some i \<and> vs ! i = v"
proof -
  obtain i where i: "i < length vs" "vs ! i = v" using assms(3) by (auto simp: in_set_conv_nth)
  have "variant_short_name (vs ! j) \<noteq> Some n" if "j < i" for j
    using nth_eq_iff_index_eq[OF assms(5), of i j] assms(4) i that by auto
  then have "position (\<lambda>v. variant_short_name v = Some n) vs = Some i"
    using i assms(4) by (simp add: position_first)
  then show ?thesis using i assms(1,2) by (auto simp: variant_position_def)
qed

lemma set_variant_current:
  "current_variant (snd (set_variant vd m)) =
     (case variant_position (diag_database m) (vd_name vd) of
        None \<Rightarrow> None
      | Some idx \<Rightarrow> (case diag_database m of
            None \<Rightarrow> None
          | Some d \<Rightarrow> (case variants d of None \<Rightarrow> None | Some vs \<Rightarrow> get vs idx)))"
  by (simp add: current_variant_def set_variant_status Let_def split: option.splits)

text \<open>
  What a pattern asks for, stated on the responses as they arrive: the parameter that an ECU
  reports for a service, without its quotation marks, and the variants whose description such
  reports meet.
\<close>

definition reports :: "service_responses \<Rightarrow> string \<Rightarrow> string \<Rightarrow> string \<Rightarrow> bool" where
  "reports responses service param v \<longleftrightarrow>
     (\<exists>ps w. map_of responses service = Some (Inr ps) \<and> map_of ps param = Some w \<and> v = strip_quotes w)"

definition meets_parameter :: "service_responses \<Rightarrow> matching_parameter \<Rightarrow> bool" where
  "meets_parameter responses mp \<longleftrightarrow>
     (\<exists>v. reports responses (unwrap_or (diag_service_name mp) '''') (unwrap_or (out_param mp) '''') v \<and>
          (v = unwrap_or (expected_value mp) '''' \<or>
           byte_field_matches_hex_pattern v (unwrap_or (expected_value mp) '''')))"

definition identifies :: "service_responses \<Rightarrow> variant \<Rightarrow> bool" where
  "identifies responses v \<longleftrightarrow>
     (\<exists>patterns mps. variant_pattern v = Some patterns \<and> Some mps \<in> set patterns \<and>
        (\<forall>mp \<in> set mps. meets_parameter responses mp))"

lemma strip_quotes_idem [simp]: "strip_quotes (strip_quotes s) = strip_quotes s"
  by (simp add: strip_quotes_def)

lemma map_of_strip: "map_of (map (\<lambda>(n, v). (n, strip_quotes v)) ps) k = map_option strip_quotes (map_of ps k)"
  by (induction ps) auto

lemma collect_responses_Inr:
  assumes "list_all (\<lambda>(s, r). \<exists>ps. r = Inr ps) responses"
  obtains rs where "collect_responses responses = Inr rs"
    "\<And>s. map_of rs s = (case map_of responses s of
        Some (Inr ps) \<Rightarrow> Some (map (\<lambda>(n, v). (n, strip_quotes v)) ps) | _ \<Rightarrow> None)"
  using assms
proof (induction responses arbitrary: thesis)
  case (Cons a responses)
  obtain s ps where a: "a = (s, Inr ps)" using Cons.prems(2) by auto
  obtain rs where "collect_responses responses = Inr rs"
    "\<And>s. map_of rs s = (case map_of responses s of
        Some (Inr ps) \<Rightarrow> Some (map (\<lambda>(n, v). (n, strip_quotes v)) ps) | _ \<Rightarrow> None)"
    using Cons.IH Cons.prems(2) by auto
  then show ?case by (intro Cons.prems(1)) (auto simp: a)
qed simp

lemma parameter_matches_meets:
  assumes "\<And>s. map_of rs s = (case map_of responses s of
      Some (Inr ps) \<Rightarrow> Some (map (\<lambda>(n, v). (n, strip_quotes v)) ps) | _ \<Rightarrow> None)"
  shows "parameter_matches rs = meets_parameter responses"
  by (rule ext, auto simp: parameter_matches_def meets_parameter_def reports_def assms map_of_strip Let_def
      split: option.splits sum.splits; metis strip_quotes_idem)

lemma variant_matches_identifies:
  assumes "\<And>s. map_of rs s = (case map_of responses s of
      Some (Inr ps) \<Rightarrow> Some (map (\<lambda>(n, v). (n, strip_quotes v)) ps) | _ \<Rightarrow> None)"
  shows "variant_matches rs v = identifies responses v"
  unfolding variant_matches_def identifies_def parameter_matches_meets[OF assms]
  by (auto simp: list_ex_iff list_all_iff split: option.splits) blast

text \<open>
  C39: when every response could be converted, variant detection selects the first variant, in
  database order, that has a pattern all of whose parameters are met: the response of the service
  the parameter names reports, under the name of the parameter, the expected value as text or as
  bytes. The ECU is then online with that variant, by name and by the index through which the
  database is read from then on, and it is not marked as a fallback. The variants of the database
  have different names, as the index is found by the name.
\<close>

theorem detect_variant_selects_first_match:
  assumes "available_data m = Inr d" and "variants d = Some vs"
    and "distinct (map variant_short_name vs)"
    and "responses \<noteq> []" and "list_all (\<lambda>(service, r). \<exists>params. r = Inr params) responses"
    and "i < length vs" and "identifies responses (vs ! i)"
    and "\<forall>j < i. \<not> identifies responses (vs ! j)" and "variant_short_name (vs ! i) = Some n"
  shows "variant_state (manager_status (snd (detect_variant responses m))) =
           Detected n (variant_is_base (vs ! i)) False \<and>
         connectivity (manager_status (snd (detect_variant responses m))) = Online \<and>
         current_variant (snd (detect_variant responses m)) = Some (vs ! i)"
proof -
  let ?v = "vs ! i" let ?vd = "from_variant_and_fallback ?v False"
  have n: "vd_name ?vd = n" using assms(9) by (simp add: from_variant_and_fallback_def unwrap_or_def)
  obtain rs where rs: "collect_responses responses = Inr rs" "\<And>v. variant_matches rs v = identifies responses v"
    using collect_responses_Inr[OF assms(5)] variant_matches_identifies by metis
  have "find (variant_matches rs) vs = Some ?v"
    unfolding find_Some_iff rs(2) using assms(6,7,8) by blast
  then have "evaluate_variant responses (Some d) = Inr ?v"
    using assms(2) rs(1) by (simp add: evaluate_variant_def)
  then have dv: "detect_variant responses m = set_variant ?vd (m\<lparr>diag_database := Some d\<rparr>)"
    using assms(4) by (simp add: detect_variant_loaded[OF assms(1)])
  obtain i' where "i' < length vs" "variant_position (Some d) n = Some i'" "vs ! i' = ?v"
    using variant_position_unique[OF refl assms(2) _ assms(9,3)] nth_mem[OF assms(6)] by blast
  then show ?thesis
    using assms(2) n by (simp add: dv set_variant_status set_variant_current)
      (simp add: from_variant_and_fallback_def)
qed

text \<open>A database with a base variant and one specific variant, used in the examples.\<close>

definition demo_chart :: "string \<Rightarrow> string \<Rightarrow> state_chart" where
  "demo_chart sem start = \<lparr>chart_semantic = Some sem, start_state_short_name_ref = Some start,
     chart_states = None, chart_transitions = None\<rparr>"

definition demo_variant :: "string \<Rightarrow> bool \<Rightarrow> state_chart list \<Rightarrow> string \<Rightarrow> variant" where
  "demo_variant name base charts wanted =
     \<lparr>variant_layer = Some \<lparr>layer_short_name = Some name, state_charts = Some charts,
         diag_services = None\<rparr>,
      variant_is_base = base, parent_refs = None,
      variant_pattern = (if base then None else
        Some [Some [\<lparr>expected_value = Some wanted, out_param = Some ''ID'',
                     diag_service_name = Some ''Ident''\<rparr>]])\<rparr>"

definition demo_data :: "state_chart list \<Rightarrow> ecu_data" where
  "demo_data charts =
     \<lparr>variants = Some [demo_variant ''Base'' True charts [], demo_variant ''V1'' False charts ''0480''],
      functional_groups = None\<rparr>"

definition demo_manager :: "state_chart list \<Rightarrow> ecu_manager" where
  "demo_manager charts =
     \<lparr>runtime_state = ecu_runtime_state_new, diag_database = None, db_file = Inr (demo_data charts),
      db_cache = Map.empty, fallback_to_base_variant = True, session_semantic = ''SESSION'',
      security_semantic = ''SECURITY'', duplicating_ecu_names = None\<rparr>"

definition demo_charts :: "state_chart list" where
  "demo_charts = [demo_chart ''SESSION'' ''Default'', demo_chart ''SECURITY'' ''Locked'']"

lemma no_parent_layers: "get_parent_ref_diag_layers_recursive (flatten_refs None) = []"
  by (simp add: get_parent_ref_diag_layers_recursive_def get_parent_ref_diag_layers_with_refs_recursive_def
      flatten_refs_def resolve_loop.simps)

lemmas demo_defs = no_parent_layers demo_chart_def demo_variant_def demo_data_def demo_manager_def demo_charts_def

definition demo_responses :: service_responses where
  "demo_responses = [(''Ident'', Inr [(''ID'', ''0x04 0x80'')])]"

lemma demo_match: "byte_field_matches_hex_pattern ''0x04 0x80'' ''0480''"
  by code_simp

lemma demo_strip: "strip_quotes ''0x04 0x80'' = ''0x04 0x80''"
  by (simp add: strip_quotes_def)

lemma demo_find:
  "collect_responses demo_responses = Inr [(''Ident'', [(''ID'', ''0x04 0x80'')])]"
  "find (variant_matches [(''Ident'', [(''ID'', ''0x04 0x80'')])])
     [demo_variant ''Base'' True charts [], demo_variant ''V1'' False charts ''0480''] =
   Some (demo_variant ''V1'' False charts ''0480'')"
  using demo_match
  by (simp_all add: demo_responses_def variant_matches_def demo_variant_def parameter_matches_def
      unwrap_or_def demo_strip Let_def)

lemma demo_identified:
  "identifies demo_responses (demo_variant ''V1'' False charts ''0480'')"
  "\<not> identifies demo_responses (demo_variant ''Base'' True charts [])"
  using demo_match by (simp_all add: identifies_def meets_parameter_def reports_def demo_responses_def
      demo_variant_def unwrap_or_def demo_strip)

theorem detect_variant_selects_first_match_witness:
  "variant_state (manager_status (snd (detect_variant demo_responses (demo_manager demo_charts)))) =
     Detected ''V1'' False False \<and>
   current_variant (snd (detect_variant demo_responses (demo_manager demo_charts))) =
     Some (demo_variant ''V1'' False demo_charts ''0480'')"
  using detect_variant_selects_first_match[where m = "demo_manager demo_charts" and d = "demo_data demo_charts"
      and vs = "[demo_variant ''Base'' True demo_charts [], demo_variant ''V1'' False demo_charts ''0480'']"
      and responses = demo_responses and i = 1 and n = "''V1''"] demo_identified[of demo_charts]
  by (simp add: available_data_def demo_manager_def demo_data_def variant_short_name_def)
    (simp add: demo_variant_def demo_responses_def)

end
