(* ===== verification/Duplicate_Group.thy ===== *)
theory Duplicate_Group
  imports Variant_Detection "HOL-Library.List_Lexorder" "HOL-Library.Char_ord"
begin

text \<open>
  Variant detection for a group of ECU descriptions that share one physical node
  (\<open>cda-comm-uds/src/variant.rs\<close>): every member is evaluated against the same responses, the
  verdict of the group decides the state of each member. The ECUs are a map from names to
  managers; the members of a group are listed in the order in which the set is iterated. The
  responses are what \<open>gather_detection_responses\<close> returned.
\<close>

section \<open>Model\<close>

type_synonym ecus = "string \<rightharpoonup> ecu_manager"

datatype group_detection_result = ExactMatch string | AllFallbacks | NoOnlineEcu | NoDetection

text \<open>The loop state: the first fallback member and whether a member was online.\<close>

fun evaluate_duplicate_group_loop ::
    "service_responses \<Rightarrow> string list \<Rightarrow> string option \<Rightarrow> bool \<Rightarrow> ecus
     \<Rightarrow> group_detection_result \<times> ecus" where
  "evaluate_duplicate_group_loop responses [] first_fallback any_online ecus =
     ((if any_online then (if first_fallback \<noteq> None then AllFallbacks else NoDetection)
       else NoOnlineEcu), ecus)"
| "evaluate_duplicate_group_loop responses (name # names) first_fallback any_online ecus =
     (case ecus name of
        None \<Rightarrow> evaluate_duplicate_group_loop responses names first_fallback any_online ecus
      | Some m \<Rightarrow>
          let (r, m') = detect_variant responses m;
              ecus' = ecus(name \<mapsto> m');
              st = manager_status m';
              online = any_online \<or> connectivity st = Online
          in case r of
               Inl e \<Rightarrow> evaluate_duplicate_group_loop responses names first_fallback online ecus'
             | Inr _ \<Rightarrow>
                 if \<not> is_online_and_detected st
                 then evaluate_duplicate_group_loop responses names first_fallback online ecus'
                 else if is_fallback (variant_state st)
                 then evaluate_duplicate_group_loop responses names
                        (if first_fallback = None then Some name else first_fallback) online ecus'
                 else (ExactMatch name, ecus'))"

definition evaluate_duplicate_group ::
    "string list \<Rightarrow> service_responses \<Rightarrow> ecus \<Rightarrow> group_detection_result \<times> ecus" where
  "evaluate_duplicate_group names responses ecus =
     evaluate_duplicate_group_loop responses names None False ecus"

definition update_ecu :: "(ecu_manager \<Rightarrow> ecu_manager) \<Rightarrow> string \<Rightarrow> ecus \<Rightarrow> ecus" where
  "update_ecu f name ecus =
     (case ecus name of None \<Rightarrow> ecus | Some m \<Rightarrow> ecus(name \<mapsto> f m))"

definition apply_group_result ::
    "group_detection_result \<Rightarrow> string list \<Rightarrow> ecus \<Rightarrow> ecus" where
  "apply_group_result result names ecus =
     (case result of
        ExactMatch chosen \<Rightarrow>
          fold (\<lambda>name e. if name = chosen then e else update_ecu mark_as_duplicate name e) names ecus
      | AllFallbacks \<Rightarrow> fold (update_ecu mark_as_no_variant_detected) names ecus
      | NoOnlineEcu \<Rightarrow> ecus
      | NoDetection \<Rightarrow> ecus)"

definition mark_group_unreachable :: "string \<Rightarrow> ecus \<Rightarrow> unit diag_result \<times> ecus" where
  "mark_group_unreachable name ecus =
     (case ecus name of
        None \<Rightarrow> (Inl (NotFound ''ECU not found''), ecus)
      | Some m \<Rightarrow>
          let (r, m') = detect_variant [] m; ecus' = ecus(name \<mapsto> m') in
          case r of
            Inl e \<Rightarrow> (Inl (VariantDetectionError ''Failed to detect variant''), ecus')
          | Inr _ \<Rightarrow>
              (Inr (), case duplicating_ecu_names m' of
                 None \<Rightarrow> ecus'
               | Some ds \<Rightarrow> fold (update_ecu (snd \<circ> detect_variant [])) ds ecus'))"

definition detect_alone ::
    "string \<Rightarrow> ecu_manager \<Rightarrow> service_responses \<Rightarrow> ecus \<Rightarrow> unit diag_result \<times> ecus" where
  "detect_alone name m responses ecus =
     (let (r, m') = detect_variant responses m in
      ((case r of Inl e \<Rightarrow> Inl (VariantDetectionError ''Failed to detect variant'')
        | Inr u \<Rightarrow> Inr u), ecus(name \<mapsto> m')))"

text \<open>\<open>detect_variant_with_trigger\<close> after the slot is claimed and the responses are gathered.\<close>

definition detect_variant_group ::
    "string \<Rightarrow> service_responses \<Rightarrow> ecus \<Rightarrow> unit diag_result \<times> ecus" where
  "detect_variant_group name responses ecus =
     (case ecus name of
        None \<Rightarrow> (Inl (NotFound ''ECU not found''), ecus)
      | Some m \<Rightarrow>
          if responses = [] then mark_group_unreachable name ecus
          else (case duplicating_ecu_names m of
              None \<Rightarrow> detect_alone name m responses ecus
            | Some ds \<Rightarrow>
                if ds = [] then detect_alone name m responses ecus
                else let members = List.insert name ds;
                         (result, ecus') = evaluate_duplicate_group members responses ecus
                     in (Inr (), apply_group_result result members ecus')))"

definition duplicate_group_representative :: "ecus \<Rightarrow> string \<Rightarrow> string" where
  "duplicate_group_representative ecus name =
     (case ecus name of
        None \<Rightarrow> name
      | Some m \<Rightarrow>
          fold min (filter (\<lambda>n. ecus n \<noteq> None)
            (case duplicating_ecu_names m of None \<Rightarrow> [] | Some ds \<Rightarrow> ds)) name)"

section \<open>Members whose default states resolve\<close>

definition variant_layers :: "variant \<Rightarrow> diag_layer list" where
  "variant_layers v = (case variant_layer v of None \<Rightarrow> [] | Some l \<Rightarrow> [l]) @
     get_parent_ref_diag_layers_recursive (flatten_refs (parent_refs v))"

definition chart_ok :: "string \<Rightarrow> variant \<Rightarrow> bool" where
  "chart_ok semantic v =
     (case find (\<lambda>sc. chart_semantic sc = Some semantic)
             (concat (List.map_filter state_charts (variant_layers v))) of
        None \<Rightarrow> False
      | Some sc \<Rightarrow> start_state_short_name_ref sc \<noteq> None)"

definition charts_ok :: "ecu_manager \<Rightarrow> bool" where
  "charts_ok m =
     (case available_data m of
        Inl e \<Rightarrow> False
      | Inr d \<Rightarrow> (case variants d of
            None \<Rightarrow> True
          | Some vs \<Rightarrow> list_all (\<lambda>v. chart_ok (session_semantic m) v \<and> chart_ok (security_semantic m) v) vs))"

lemma default_state_chart_ok:
  assumes "current_variant m = Some v" and "chart_ok semantic v"
  shows "is_ok (default_state m semantic)"
  using assms
  by (auto simp: default_state_def lookup_state_chart_def diag_layers_of_def chart_ok_def
      variant_layers_def is_ok_iff bindE_Inr_iff ok_or_Inr_iff split: option.splits)

lemma set_default_states_ok:
  assumes "is_ok (default_state m (session_semantic m))"
    and "is_ok (default_state m (security_semantic m))"
  shows "fst (set_default_states m) = Inr ()"
  using assms by (auto simp: set_default_states_def Let_def is_ok_iff split: sum.splits)

lemma set_variant_ok:
  assumes "diag_database m = Some d" and "variants d = Some vs"
    and "list_all (\<lambda>v. chart_ok (session_semantic m) v \<and> chart_ok (security_semantic m) v) vs"
    and "is_detected (variant_state (manager_status (snd (set_variant vd m))))"
  shows "fst (set_variant vd m) = Inr ()"
proof -
  obtain i where i: "variant_position (diag_database m) (vd_name vd) = Some i"
    using assms(4) by (auto simp: set_variant_status Let_def split: if_splits)
  then have len: "i < length vs"
    using assms(1,2) by (simp add: variant_position_def position_first)
  then have c: "chart_ok (session_semantic m) (vs ! i)" "chart_ok (security_semantic m) (vs ! i)"
    using assms(3) by (auto simp: list_all_length)
  show ?thesis unfolding set_variant_def Let_def
    by (rule set_default_states_ok; rule default_state_chart_ok[where v = "vs ! i"])
      (use i len assms(1,2) c in \<open>simp_all add: current_variant_def\<close>)
qed

lemma detect_variant_ok:
  assumes "charts_ok m" and "responses \<noteq> []"
    and "is_detected (variant_state (manager_status (snd (detect_variant responses m))))"
  shows "fst (detect_variant responses m) = Inr ()"
proof -
  obtain d where d: "available_data m = Inr d"
    using assms(1) by (auto simp: charts_ok_def split: sum.splits)
  have vs: "\<exists>vs. variants d = Some vs"
    if "is_detected (variant_state (manager_status (snd (set_variant vd (m\<lparr>diag_database := Some d\<rparr>)))))" for vd
    using that
    by (auto simp: set_variant_status variant_position_def Let_def split: if_splits option.splits)
  have ok: "fst (set_variant vd (m\<lparr>diag_database := Some d\<rparr>)) = Inr ()"
    if "is_detected (variant_state (manager_status (snd (set_variant vd (m\<lparr>diag_database := Some d\<rparr>)))))" for vd
    using vs[OF that] assms(1) d set_variant_ok[OF _ _ _ that] by (auto simp: charts_ok_def)
  show ?thesis
    using assms(2,3)
    by (auto simp: detect_variant_loaded[OF d] Let_def intro!: ok split: sum.splits if_splits)
qed

section \<open>The group has one owner\<close>

abbreviation member_detected :: "ecus \<Rightarrow> string \<Rightarrow> bool" where
  "member_detected ecus n \<equiv>
     (\<exists>m. ecus n = Some m \<and> is_detected (variant_state (manager_status m)))"

lemma loop_unchanged:
  "evaluate_duplicate_group_loop responses names ff on ecus = (res, ecus') \<Longrightarrow>
   n \<notin> set names \<Longrightarrow> ecus' n = ecus n"
  by (induction responses names ff on ecus rule: evaluate_duplicate_group_loop.induct)
    (auto simp: Let_def split: option.splits prod.splits sum.splits if_splits)

lemma loop_keeps_fallback:
  "evaluate_duplicate_group_loop responses names ff on ecus = (res, ecus') \<Longrightarrow>
   ff \<noteq> None \<Longrightarrow> on \<Longrightarrow> res = AllFallbacks \<or> (\<exists>c. res = ExactMatch c)"
  by (induction responses names ff on ecus rule: evaluate_duplicate_group_loop.induct)
    (auto simp: Let_def split: option.splits prod.splits sum.splits if_splits)

text \<open>One member: a detection that leaves it detected succeeded, and it is online.\<close>

lemma detected_member:
  assumes "charts_ok m" and "responses \<noteq> []" and "detect_variant responses m = (r, m')"
    and "is_detected (variant_state (manager_status m'))"
  shows "r = Inr () \<and> is_online_and_detected (manager_status m')"
proof -
  obtain d where d: "available_data m = Inr d"
    using assms(1) by (auto simp: charts_ok_def split: sum.splits)
  from detect_variant_outcome[OF d assms(2)] show ?thesis
    using assms detect_variant_ok[OF assms(1,2)] by (auto simp: is_online_and_detected_def)
qed

lemma loop_exact:
  "evaluate_duplicate_group_loop responses names ff on ecus = (ExactMatch c, ecus') \<Longrightarrow>
   distinct names \<Longrightarrow> c \<in> set names \<and>
     (\<exists>m. ecus' c = Some m \<and> is_online_and_detected (manager_status m) \<and>
        \<not> is_fallback (variant_state (manager_status m)))"
  by (induction responses names ff on ecus rule: evaluate_duplicate_group_loop.induct)
    (auto simp: Let_def split: option.splits prod.splits sum.splits if_splits)

text \<open>The own verdict of a member: its detection ends with a variant that is not a fallback.\<close>

definition exact_match :: "service_responses \<Rightarrow> ecus \<Rightarrow> string \<Rightarrow> bool" where
  "exact_match responses ecus n \<longleftrightarrow>
     (\<exists>m v b. ecus n = Some m \<and>
        variant_state (manager_status (snd (detect_variant responses m))) = Detected v b False)"

lemma exact_match_at:
  "ecus n = Some m \<Longrightarrow> exact_match responses ecus n \<longleftrightarrow>
     is_detected (variant_state (manager_status (snd (detect_variant responses m)))) \<and>
     \<not> is_fallback (variant_state (manager_status (snd (detect_variant responses m))))"
  by (cases "variant_state (manager_status (snd (detect_variant responses m)))") (auto simp: exact_match_def)

text \<open>
  One round of the loop: an exact match ends it, and a member that stays detected without one is
  an online fallback, which the rest of the loop remembers.
\<close>

lemma loop_step:
  assumes "ecus name = Some m" and "detect_variant responses m = (r, m')"
    and "charts_ok m" and "responses \<noteq> []"
  obtains (exact) "exact_match responses ecus name"
      "evaluate_duplicate_group_loop responses (name # names) ff on ecus =
        (ExactMatch name, ecus(name \<mapsto> m'))"
  | (next_round) ff' where "\<not> exact_match responses ecus name"
      "evaluate_duplicate_group_loop responses (name # names) ff on ecus =
        evaluate_duplicate_group_loop responses names ff'
          (on \<or> connectivity (manager_status m') = Online) (ecus(name \<mapsto> m'))"
      "is_detected (variant_state (manager_status m')) \<Longrightarrow>
         ff' \<noteq> None \<and> connectivity (manager_status m') = Online"
proof (cases "is_detected (variant_state (manager_status m'))")
  case True
  then have "r = Inr ()" "is_online_and_detected (manager_status m')"
    using detected_member[OF assms(3,4,2)] by auto
  then show ?thesis
    using that assms(1,2) exact_match_at[of ecus name m responses]
    by (cases "is_fallback (variant_state (manager_status m'))")
      (auto simp: Let_def is_online_and_detected_def)
next
  case False
  then show ?thesis
    using that(2)[of ff] assms(1,2) exact_match_at[of ecus name m responses]
    by (auto simp: Let_def is_online_and_detected_def split: sum.splits)
qed

lemma exact_match_upd: "n \<noteq> a \<Longrightarrow> exact_match responses (ecus(a \<mapsto> m)) n = exact_match responses ecus n"
  by (simp add: exact_match_def)

lemma find_exact_upd:
  "a \<notin> set names \<Longrightarrow> find (exact_match responses (ecus(a \<mapsto> m))) names = find (exact_match responses ecus) names"
  by (intro find_cong refl exact_match_upd) auto

text \<open>The loop ends with the first member that has an exact match of its own, if there is one.\<close>

lemma loop_finds_exact:
  assumes "distinct names" and "responses \<noteq> []"
    and "\<And>n m. n \<in> set names \<Longrightarrow> ecus n = Some m \<Longrightarrow> charts_ok m"
  shows "case find (exact_match responses ecus) names of
      Some c \<Rightarrow> fst (evaluate_duplicate_group_loop responses names ff on ecus) = ExactMatch c \<and>
        snd (evaluate_duplicate_group_loop responses names ff on ecus) c =
          map_option (snd \<circ> detect_variant responses) (ecus c)
    | None \<Rightarrow> \<forall>c. fst (evaluate_duplicate_group_loop responses names ff on ecus) \<noteq> ExactMatch c"
  using assms
proof (induction names arbitrary: ff on ecus)
  case (Cons name names)
  have d: "distinct names" "name \<notin> set names" using Cons.prems(1) by auto
  show ?case
  proof (cases "ecus name")
    case None
    then have "\<not> exact_match responses ecus name" by (simp add: exact_match_def)
    moreover have "n \<in> set names \<Longrightarrow> ecus n = Some m \<Longrightarrow> charts_ok m" for n m
      using Cons.prems(3)[of n m] by simp
    ultimately show ?thesis using Cons.IH[OF d(1) Cons.prems(2), of ecus ff on] None
      by (simp split: option.splits add: comp_def)
  next
    case (Some m)
    obtain r m' where dv: "detect_variant responses m = (r, m')" by fastforce
    have "charts_ok m" using Cons.prems(3)[OF _ Some] by simp
    from loop_step[where ecus = ecus and name = name and m = m and responses = responses and
        r = r and m' = m' and names = names and ff = ff and on = on, OF Some dv this Cons.prems(2)]
    show ?thesis
    proof cases
      case 1
      then show ?thesis using Some dv by (simp del: evaluate_duplicate_group_loop.simps)
    next
      case (2 ff')
      let ?loop = "evaluate_duplicate_group_loop responses names ff'
        (on \<or> connectivity (manager_status m') = Online) (ecus(name \<mapsto> m'))"
      have charts: "n \<in> set names \<Longrightarrow> (ecus(name \<mapsto> m')) n = Some k \<Longrightarrow> charts_ok k" for n k
        using Cons.prems(3)[of n k] d(2) by (auto split: if_splits)
      have "c \<noteq> name" if "find (exact_match responses ecus) names = Some c" for c
        using that d(2) by (auto simp: find_Some_iff)
      moreover have "case find (exact_match responses (ecus(name \<mapsto> m'))) names of
          Some c \<Rightarrow> fst ?loop = ExactMatch c \<and>
            snd ?loop c = map_option (snd \<circ> detect_variant responses) ((ecus(name \<mapsto> m')) c)
        | None \<Rightarrow> \<forall>c. fst ?loop \<noteq> ExactMatch c"
        by (rule Cons.IH[OF d(1) Cons.prems(2)]) (rule charts)
      ultimately show ?thesis
        using 2(1) unfolding 2(2) find_exact_upd[OF d(2)] by (simp split: option.splits add: comp_def)
    qed
  qed
qed (simp add: evaluate_duplicate_group_loop.simps)

text \<open>Without an exact match every member keeps what its own detection left.\<close>

lemma loop_round:
  assumes "ecus name = Some m"
    and "evaluate_duplicate_group_loop responses (name # names) ff on ecus = (res, ecus')"
    and "\<forall>c. res \<noteq> ExactMatch c"
  obtains ff' on' where "evaluate_duplicate_group_loop responses names ff' on'
      (ecus(name \<mapsto> snd (detect_variant responses m))) = (res, ecus')"
proof (cases "detect_variant responses m")
  case (Pair r m')
  then show ?thesis using that assms by (auto simp: Let_def split: sum.splits if_splits)
qed

lemma loop_members:
  "evaluate_duplicate_group_loop responses names ff on ecus = (res, ecus') \<Longrightarrow> distinct names \<Longrightarrow>
   \<forall>c. res \<noteq> ExactMatch c \<Longrightarrow> n \<in> set names \<Longrightarrow>
   ecus' n = map_option (snd \<circ> detect_variant responses) (ecus n)"
proof (induction names arbitrary: ff on ecus)
  case (Cons name names)
  show ?case
  proof (cases "ecus name")
    case None
    then have l: "evaluate_duplicate_group_loop responses names ff on ecus = (res, ecus')"
      using Cons.prems(1) by simp
    show ?thesis using Cons.IH[OF l] loop_unchanged[OF l, of name] Cons.prems(2,3,4) None by auto
  next
    case (Some m)
    from loop_round[OF Some Cons.prems(1,3)] obtain ff' on'
      where l: "evaluate_duplicate_group_loop responses names ff' on'
        (ecus(name \<mapsto> snd (detect_variant responses m))) = (res, ecus')" .
    show ?thesis using Cons.IH[OF l] loop_unchanged[OF l, of name] Cons.prems(2,3,4) Some by auto
  qed
qed simp

lemma loop_not_exact:
  assumes "evaluate_duplicate_group_loop responses names ff on ecus = (res, ecus')"
    and "distinct names" and "responses \<noteq> []"
    and "\<And>n m. n \<in> set names \<Longrightarrow> ecus n = Some m \<Longrightarrow> charts_ok m"
    and "res \<noteq> AllFallbacks" and "\<And>c. res \<noteq> ExactMatch c" and "n \<in> set names"
  shows "\<not> member_detected ecus' n"
  using assms
proof (induction names arbitrary: ff on ecus)
  case (Cons name names)
  have d: "distinct names" "name \<notin> set names" using Cons.prems(2) by auto
  show ?case
  proof (cases "ecus name")
    case None
    then have l: "evaluate_duplicate_group_loop responses names ff on ecus = (res, ecus')"
      using Cons.prems(1) by simp
    show ?thesis
    proof (cases "n = name")
      case True
      then show ?thesis using None loop_unchanged[OF l d(2)] by simp
    next
      case False
      then show ?thesis using Cons.IH[OF l d(1) Cons.prems(3) _ Cons.prems(5,6)] Cons.prems(4,7) by auto
    qed
  next
    case (Some m)
    obtain r m' where dv: "detect_variant responses m = (r, m')" by fastforce
    have "charts_ok m" using Cons.prems(4)[OF _ Some] by simp
    from loop_step[where ecus = ecus and name = name and m = m and responses = responses and
        r = r and m' = m' and names = names and ff = ff and on = on, OF Some dv this Cons.prems(3)]
    show ?thesis
    proof cases
      case 1
      then show ?thesis
        using Cons.prems(1) Cons.prems(6)[of name]
        by (simp del: evaluate_duplicate_group_loop.simps)
    next
      case (2 ff')
      then have l: "evaluate_duplicate_group_loop responses names ff'
          (on \<or> connectivity (manager_status m') = Online) (ecus(name \<mapsto> m')) = (res, ecus')"
        using Cons.prems(1) by simp
      show ?thesis
      proof (cases "n = name")
        case True
        have "\<not> is_detected (variant_state (manager_status m'))"
          using loop_keeps_fallback[OF l] 2(3) Cons.prems(5,6) by blast
        then show ?thesis using True loop_unchanged[OF l d(2)] by simp
      next
        case False
        show ?thesis
          by (rule Cons.IH[OF l d(1) Cons.prems(3) _ Cons.prems(5,6)])
            (use Cons.prems(4,7) False d(2) in \<open>auto split: if_splits\<close>)
      qed
    qed
  qed
qed simp

section \<open>Applying the verdict\<close>

lemma update_ecu_at: "update_ecu f name ecus n = (if n = name then map_option f (ecus n) else ecus n)"
  by (auto simp: update_ecu_def split: option.splits)

lemma fold_update_except:
  "fold (\<lambda>name e. if name = c then e else update_ecu f name e) names ecus =
   fold (update_ecu f) (filter (\<lambda>n. n \<noteq> c) names) ecus"
  by (induction names arbitrary: ecus) auto

lemma fold_update_at:
  "distinct names \<Longrightarrow>
   fold (update_ecu f) names ecus n = (if n \<in> set names then map_option f (ecus n) else ecus n)"
  by (induction names arbitrary: ecus) (auto simp: update_ecu_at)

lemma marked_state_simps [simp]:
  "variant_state (manager_status (mark_as_duplicate m)) = Duplicate"
  "variant_state (manager_status (mark_as_no_variant_detected m)) = NotDetected"
  by (simp_all add: mark_as_duplicate_def mark_as_no_variant_detected_def)

lemma detected_or_not:
  assumes "charts_ok m" and "responses \<noteq> []"
    and "\<not> is_detected (variant_state (manager_status (snd (detect_variant responses m))))"
  shows "variant_state (manager_status (snd (detect_variant responses m))) = NotDetected"
proof -
  obtain d where d: "available_data m = Inr d"
    using assms(1) by (auto simp: charts_ok_def split: sum.splits)
  show ?thesis using detect_variant_outcome[OF d assms(2)] assms(3) by auto
qed

text \<open>What a group of descriptions looks like after the verdict, for every member.\<close>

lemma group_verdict:
  assumes "distinct names" and "responses \<noteq> []"
    and charts_all: "\<forall>n \<in> set names. \<forall>m. ecus n = Some m \<longrightarrow> charts_ok m"
    and "evaluate_duplicate_group names responses ecus = (result, ecus1)" and "n \<in> set names"
  shows "case find (exact_match responses ecus) names of
      Some c \<Rightarrow> if n = c
        then apply_group_result result names ecus1 n = map_option (snd \<circ> detect_variant responses) (ecus n)
        else \<forall>m. apply_group_result result names ecus1 n = Some m \<longrightarrow>
          variant_state (manager_status m) = Duplicate
    | None \<Rightarrow> \<forall>m. apply_group_result result names ecus1 n = Some m \<longrightarrow>
        variant_state (manager_status m) = NotDetected"
proof -
  have charts: "\<And>n m. n \<in> set names \<Longrightarrow> ecus n = Some m \<Longrightarrow> charts_ok m" using charts_all by blast
  note l = assms(4)[unfolded evaluate_duplicate_group_def]
  have v: "case find (exact_match responses ecus) names of
      Some c \<Rightarrow> result = ExactMatch c \<and> ecus1 c = map_option (snd \<circ> detect_variant responses) (ecus c)
    | None \<Rightarrow> \<forall>c. result \<noteq> ExactMatch c"
    using loop_finds_exact[where ecus = ecus and ff = None and on = False, OF assms(1,2)] charts
    unfolding l fst_conv snd_conv by blast
  show ?thesis
  proof (cases "find (exact_match responses ecus) names")
    case None
    then have ne: "\<And>c. result \<noteq> ExactMatch c" using v by simp
    have m: "ecus1 n = map_option (snd \<circ> detect_variant responses) (ecus n)"
      by (rule loop_members[OF l assms(1) _ assms(5)]) (simp add: ne)
    show ?thesis
    proof (cases "result = AllFallbacks")
      case True
      then show ?thesis using None assms(1,5) by (auto simp: apply_group_result_def fold_update_at)
    next
      case False
      then have e: "apply_group_result result names ecus1 = ecus1"
        using ne by (auto simp: apply_group_result_def split: group_detection_result.splits)
      have "\<not> member_detected ecus1 n"
        by (rule loop_not_exact[OF l assms(1,2) charts False ne assms(5)])
      then show ?thesis using None m e charts[OF assms(5)] detected_or_not[OF _ assms(2)] by auto
    qed
  next
    case (Some c)
    then show ?thesis
      using v assms(1,5) by (auto simp: apply_group_result_def fold_update_except fold_update_at)
  qed
qed

text \<open>
  C15: A duplicate group has at most one owner, provided that the databases of its members load and
  define the start states of the session and security charts (a member whose default states do not
  resolve stays detected beside the owner). When the descriptions of a group are evaluated against
  the responses of their common node, the first member whose own detection ends with a variant that
  is not a mere fallback keeps exactly the state this detection gave it, and every other member is
  marked as a duplicate; when there is no such member, no member has a detected variant afterwards.
  ECUs outside the group are untouched.
\<close>

theorem duplicate_group_single_owner:
  assumes "ecus name = Some m" and "duplicating_ecu_names m = Some ds" and "ds \<noteq> []" and "distinct ds"
    and "responses \<noteq> []"
    and "\<And>n m. n \<in> set (List.insert name ds) \<Longrightarrow> ecus n = Some m \<Longrightarrow> charts_ok m"
    and "detect_variant_group name responses ecus = (r, ecus')"
  shows "r = Inr () \<and> (\<forall>n. n \<notin> set (List.insert name ds) \<longrightarrow> ecus' n = ecus n) \<and>
    (case find (exact_match responses ecus) (List.insert name ds) of
       Some c \<Rightarrow> ecus' c = map_option (snd \<circ> detect_variant responses) (ecus c) \<and>
         (\<forall>n \<in> set (List.insert name ds). \<forall>m. n \<noteq> c \<longrightarrow> ecus' n = Some m \<longrightarrow>
            variant_state (manager_status m) = Duplicate)
     | None \<Rightarrow> \<forall>n \<in> set (List.insert name ds). \<forall>m. ecus' n = Some m \<longrightarrow>
            variant_state (manager_status m) = NotDetected)"
proof -
  let ?ms = "List.insert name ds"
  have d: "distinct ?ms" using assms(4) by simp
  obtain result ecus1 where e: "evaluate_duplicate_group ?ms responses ecus = (result, ecus1)" by fastforce
  have r: "r = Inr ()" "ecus' = apply_group_result result ?ms ecus1"
    using assms(7) e by (simp_all add: detect_variant_group_def assms(1,2,3,5))
  have "\<forall>n \<in> set ?ms. \<forall>m. ecus n = Some m \<longrightarrow> charts_ok m" using assms(6) by blast
  note v = group_verdict[OF d assms(5) this e, folded r(2)]
  have "ecus' n = ecus n" if "n \<notin> set ?ms" for n
    using that loop_unchanged[OF e[unfolded evaluate_duplicate_group_def] that] unfolding r(2)
    by (auto simp: apply_group_result_def fold_update_except fold_update_at[OF d]
        fold_update_at[OF distinct_filter[OF d]] split: group_detection_result.splits)
  moreover have "c \<in> set ?ms" if "find (exact_match responses ecus) ?ms = Some c" for c
    using that by (auto simp: find_Some_iff simp del: set_insert in_set_insert)
  ultimately show ?thesis using r(1) v
    by (cases "find (exact_match responses ecus) ?ms") (auto simp del: set_insert in_set_insert)
qed

definition demo_group :: "state_chart list \<Rightarrow> ecus" where
  "demo_group charts = [''A'' \<mapsto> demo_manager charts, ''B'' \<mapsto> demo_manager charts]"

lemma demo_charts_ok: "charts_ok (demo_manager demo_charts)"
  by (simp add: charts_ok_def available_data_def demo_defs chart_ok_def variant_layers_def
      List.map_filter_simps)

definition demo_pair :: ecus where
  "demo_pair = [''A'' \<mapsto> (demo_manager demo_charts)\<lparr>duplicating_ecu_names := Some [''B'']\<rparr>,
     ''B'' \<mapsto> (demo_manager demo_charts)\<lparr>duplicating_ecu_names := Some [''A'']\<rparr>]"

lemma charts_ok_duplicates: "charts_ok (m\<lparr>duplicating_ecu_names := x\<rparr>) = charts_ok m"
  by (simp add: charts_ok_def available_data_def cong: sum.case_cong option.case_cong)

lemma demo_pair_charts_ok: "demo_pair n = Some m \<Longrightarrow> charts_ok m"
  using demo_charts_ok by (auto simp: demo_pair_def charts_ok_duplicates split: if_splits)

lemma demo_detected:
  assumes "available_data m = Inr (demo_data charts)"
  shows "detect_variant demo_responses m =
      set_variant (from_variant_and_fallback (demo_variant ''V1'' False charts ''0480'') False)
        (m\<lparr>diag_database := Some (demo_data charts)\<rparr>)"
    and "manager_status (snd (detect_variant demo_responses m)) =
      \<lparr>connectivity = Online, variant_state = Detected ''V1'' False False, variant_index = Some 1\<rparr>"
proof -
  let ?vd = "from_variant_and_fallback (demo_variant ''V1'' False charts ''0480'') False"
  have "evaluate_variant demo_responses (Some (demo_data charts)) = Inr (demo_variant ''V1'' False charts ''0480'')"
    using demo_find(2)[of charts]
    by (simp add: evaluate_variant_def demo_find(1) demo_data_def del: find.simps)
  then show dv: "detect_variant demo_responses m = set_variant ?vd (m\<lparr>diag_database := Some (demo_data charts)\<rparr>)"
    using detect_variant_loaded[OF assms, of demo_responses] by (simp add: demo_responses_def)
  show "manager_status (snd (detect_variant demo_responses m)) =
      \<lparr>connectivity = Online, variant_state = Detected ''V1'' False False, variant_index = Some 1\<rparr>"
    using set_variant_status[of ?vd "m\<lparr>diag_database := Some (demo_data charts)\<rparr>"] unfolding dv
    by (simp add: variant_position_def demo_data_def demo_variant_def variant_short_name_def
        from_variant_and_fallback_def unwrap_or_def)
qed

lemma demo_pair_A:
  "demo_pair ''A'' = Some ((demo_manager demo_charts)\<lparr>duplicating_ecu_names := Some [''B'']\<rparr>)"
  by (simp add: demo_pair_def)

lemma demo_pair_exact: "exact_match demo_responses demo_pair ''A''"
  using demo_detected(2)[of "(demo_manager demo_charts)\<lparr>duplicating_ecu_names := Some [''B'']\<rparr>" demo_charts]
  by (subst exact_match_at[where ecus = demo_pair, OF demo_pair_A]) (simp_all add: available_data_def demo_manager_def)

theorem duplicate_group_single_owner_witness:
  "snd (detect_variant_group ''A'' demo_responses demo_pair) ''A'' =
     map_option (snd \<circ> detect_variant demo_responses) (demo_pair ''A'') \<and>
   pred_option (\<lambda>m. variant_state (manager_status m) = Duplicate)
     (snd (detect_variant_group ''A'' demo_responses demo_pair) ''B'')"
  using duplicate_group_single_owner[where ecus = demo_pair and ds = "[''B'']" and responses = demo_responses
      and r = "fst (detect_variant_group ''A'' demo_responses demo_pair)"
      and ecus' = "snd (detect_variant_group ''A'' demo_responses demo_pair)", OF demo_pair_A]
    demo_pair_charts_ok demo_pair_exact
  by (simp add: List.insert_def demo_responses_def option.pred_set)

lemma set_variant_fails:
  assumes "diag_database m = Some d" and "variants d = Some vs"
    and "variant_position (Some d) (vd_name vd) = Some i" and "i < length vs"
    and "find (\<lambda>sc. chart_semantic sc = Some (session_semantic m))
      (concat (List.map_filter state_charts (variant_layers (vs ! i)))) = None"
  shows "\<exists>e. fst (set_variant vd m) = Inl e"
proof -
  have fails: "\<exists>e. fst (set_default_states m2) = Inl e"
    if "current_variant m2 = Some (vs ! i)" "session_semantic m2 = session_semantic m" for m2
    using assms(5) that
    by (simp add: set_default_states_def default_state_def lookup_state_chart_def diag_layers_of_def
        variant_layers_def)
  show ?thesis unfolding set_variant_def Let_def
    by (rule fails) (use assms in \<open>simp_all add: current_variant_def\<close>)
qed

text \<open>
  Members whose default states do not resolve stay detected. When the databases of two
  members define no session chart, detection reports a failure for each after it has recorded
  the variant, the group verdict is that nothing was detected, and both members keep the detected
  variant, although the log says that they are marked as undetected.
\<close>

theorem failed_defaults_leave_two_owners:
  "let (result, ecus1) = evaluate_duplicate_group [''A'', ''B''] demo_responses (demo_group []);
       ecus2 = apply_group_result result [''A'', ''B''] ecus1
   in result = NoDetection \<and> member_detected ecus2 ''A'' \<and> member_detected ecus2 ''B''"
proof -
  let ?m = "demo_manager []"
  have av: "available_data ?m = Inr (demo_data [])" by (simp add: available_data_def demo_manager_def)
  obtain r m' where d: "detect_variant demo_responses ?m = (r, m')" by fastforce
  note dv = demo_detected(1)[OF av]
  have st: "manager_status m' =
      \<lparr>connectivity = Online, variant_state = Detected ''V1'' False False, variant_index = Some 1\<rparr>"
    using demo_detected(2)[OF av] d by simp
  have "\<exists>e. fst (set_variant (from_variant_and_fallback (demo_variant ''V1'' False [] ''0480'') False)
      (?m\<lparr>diag_database := Some (demo_data [])\<rparr>)) = Inl e"
    by (rule set_variant_fails[where d = "demo_data []" and i = 1 and
        vs = "[demo_variant ''Base'' True [] [], demo_variant ''V1'' False [] ''0480'']"])
      (simp_all add: demo_data_def demo_variant_def variant_position_def variant_short_name_def
        from_variant_and_fallback_def unwrap_or_def variant_layers_def no_parent_layers List.map_filter_simps)
  then have "\<exists>e. r = Inl e" using d dv by simp
  then obtain e where "r = Inl e" by blast
  then show ?thesis
    using d st
    by (simp add: evaluate_duplicate_group_def demo_group_def apply_group_result_def
        is_online_and_detected_def)
qed

end
