(* ===== verification/Uds_Transport.thy ===== *)
theory Uds_Transport
  imports Ecu_State
begin

text \<open>
  The UDS request path, \<open>UdsManager::send_with_raw_payload\<close> in
  \<open>cda-comm-uds/src/transport.rs\<close>: the outer loop that sends a request and repeats it, the
  inner loop that reads the responses of one attempt, the retry policies, and what happens to
  the ECU's state afterwards. The gateway and the clock are the environment: an attempt is what
  the gateway answers to one \<open>send\<close>, with the outcomes of the successive receives on the
  attempt's own channel, each with the time since the start of the call. The loops consume such
  a script; \<open>None\<close> means that the code is still waiting when the script ends. Durations are
  natural numbers.
\<close>

section \<open>Parameters and environment\<close>

datatype retry_policy = Disabled | ContinueUntilTimeout | ContinueUnlimited

record uds_parameters =
  timeout_default :: nat
  rc_21_retry_policy :: retry_policy
  rc_21_completion_timeout :: nat
  rc_21_repeat_request_time :: nat
  rc_78_retry_policy :: retry_policy
  rc_78_completion_timeout :: nat
  rc_78_timeout :: nat
  rc_94_retry_policy :: retry_policy
  rc_94_completion_timeout :: nat
  rc_94_repeat_request_time :: nat
  repeat_req_count_app :: nat

datatype receive_outcome =
    Got "transport_response option diag_result"
  | Closed
  | TimedOut

type_synonym receive = "nat \<times> receive_outcome"

datatype attempt = SendError diag_service_error | Sent "receive list"

section \<open>The loops\<close>

definition validate_timeout_by_policy :: "retry_policy \<Rightarrow> nat \<Rightarrow> nat \<Rightarrow> unit diag_result" where
  "validate_timeout_by_policy policy elapsed completion_timeout =
     (case policy of
        Disabled \<Rightarrow> Inl Timeout
      | ContinueUntilTimeout \<Rightarrow> if elapsed > completion_timeout then Inl Timeout else Inr ()
      | ContinueUnlimited \<Rightarrow> Inr ())"

record send_state =
  app_retry_count :: nat
  rx_timeout_next :: "nat option"
  waits :: "nat list"

text \<open>\<open>waits\<close> records the timeout of every receive, in order.\<close>

datatype read_result = Resend | Finished "service_payload diag_result"

text \<open>
  The repetition after a failed attempt, up to \<open>CP_RepeatReqCountApp\<close> times; else the error \<open>e\<close>.
\<close>

definition retry_or ::
    "uds_parameters \<Rightarrow> diag_service_error \<Rightarrow> send_state \<Rightarrow> read_result \<times> send_state" where
  "retry_or params e st =
     (if app_retry_count st < repeat_req_count_app params
      then (Resend, st\<lparr>app_retry_count := saturating_add_u32 (app_retry_count st) 1,
                       rx_timeout_next := None\<rparr>)
      else (Finished (Inl e), st))"

definition is_expected :: "byte list \<Rightarrow> byte \<Rightarrow> service_payload \<Rightarrow> bool" where
  "is_expected request sent_sid msg \<longleftrightarrow>
     payload_data msg \<noteq> [] \<and> is_response_for_sid msg sent_sid \<and> has_matching_echo_bytes msg request"

definition busy_policy :: "uds_parameters \<Rightarrow> pending_nrc \<Rightarrow> retry_policy \<times> nat" where
  "busy_policy params p =
     (case p of
        BusyRepeatRequest a \<Rightarrow> (rc_21_retry_policy params, rc_21_completion_timeout params)
      | _ \<Rightarrow> (rc_94_retry_policy params, rc_94_completion_timeout params))"

text \<open>
  One round of \<open>'read_uds_messages\<close>: \<open>Inl\<close> continues reading, \<open>Inr\<close> leaves the inner loop.
\<close>

definition read_step ::
    "uds_parameters \<Rightarrow> byte list \<Rightarrow> byte \<Rightarrow> receive \<Rightarrow> send_state
     \<Rightarrow> send_state + (read_result \<times> send_state)" where
  "read_step params request sent_sid ev st =
     (case ev of (elapsed, outcome) \<Rightarrow>
       (case outcome of
          Got (Inr (Some (UdsResponse msg))) \<Rightarrow>
            if payload_data msg \<noteq> [] \<and> is_response_for_sid msg sent_sid then
              if \<not> has_matching_echo_bytes msg request then Inl st
              else Inr (Finished (Inr msg), st)
            else Inl st
        | Got (Inr (Some (Pending p))) \<Rightarrow>
            (case p of
               ResponsePending a \<Rightarrow>
                 (case validate_timeout_by_policy (rc_78_retry_policy params) elapsed
                         (rc_78_completion_timeout params) of
                    Inl e \<Rightarrow> Inr (Finished (Inl e), st)
                  | Inr _ \<Rightarrow> Inl (st\<lparr>rx_timeout_next := Some (rc_78_timeout params)\<rparr>))
             | _ \<Rightarrow>
                 (case busy_policy params p of (policy, completion_timeout) \<Rightarrow>
                   (case validate_timeout_by_policy policy elapsed completion_timeout of
                      Inl e \<Rightarrow> Inr (Finished (Inl e), st)
                    | Inr _ \<Rightarrow> Inr (Resend, st))))
        | Got (Inr None) \<Rightarrow>
            Inr (Finished (Inl (UnexpectedResponse (Some ''Unexpected response received''))), st)
        | Got (Inl e) \<Rightarrow> Inr (retry_or params e st)
        | Closed \<Rightarrow> Inr (retry_or params Timeout st)
        | TimedOut \<Rightarrow> Inr (retry_or params Timeout st)))"

fun read_uds_messages ::
    "uds_parameters \<Rightarrow> byte list \<Rightarrow> byte \<Rightarrow> nat \<Rightarrow> receive list \<Rightarrow> send_state
     \<Rightarrow> (read_result \<times> send_state) option" where
  "read_uds_messages params request sent_sid rx_timeout [] st = None"
| "read_uds_messages params request sent_sid rx_timeout (ev # evs) st =
     (let st' = st\<lparr>waits := waits st @ [unwrap_or (rx_timeout_next st) rx_timeout]\<rparr> in
      case read_step params request sent_sid ev st' of
        Inl st'' \<Rightarrow> read_uds_messages params request sent_sid rx_timeout evs st''
      | Inr r \<Rightarrow> Some r)"

text \<open>\<open>Return\<close> leaves the function from inside the loop, \<open>Break\<close> leaves the loop.\<close>

datatype loop_result = Return "service_payload option diag_result" | Break "service_payload diag_result"

fun send_loop ::
    "uds_parameters \<Rightarrow> byte list \<Rightarrow> byte \<Rightarrow> bool \<Rightarrow> nat \<Rightarrow> attempt list \<Rightarrow> send_state
     \<Rightarrow> (loop_result \<times> send_state \<times> nat) option" where
  "send_loop params request sent_sid expect_response rx_timeout [] st = None"
| "send_loop params request sent_sid expect_response rx_timeout (SendError e # attempts) st =
     (case retry_or params e st of
        (Resend, st') \<Rightarrow>
          map_option (\<lambda>(r, s, n). (r, s, Suc n))
            (send_loop params request sent_sid expect_response rx_timeout attempts st')
      | (Finished _, st') \<Rightarrow> Some (Return (Inl e), st', 1))"
| "send_loop params request sent_sid expect_response rx_timeout (Sent evs # attempts) st =
     (if \<not> expect_response then
        (case evs of
           [] \<Rightarrow> None
         | _ \<Rightarrow> Some (Return (Inr None), st\<lparr>waits := waits st @ [rx_timeout]\<rparr>, 1))
      else case read_uds_messages params request sent_sid rx_timeout evs st of
          None \<Rightarrow> None
        | Some (Resend, st') \<Rightarrow>
            map_option (\<lambda>(r, s, n). (r, s, Suc n))
              (send_loop params request sent_sid expect_response rx_timeout attempts st')
        | Some (Finished r, st') \<Rightarrow> Some (Break r, st', 1))"

text \<open>The third component of the result counts the transmissions.\<close>

definition init_send_state :: send_state where
  "init_send_state = \<lparr>app_retry_count = 0, rx_timeout_next = None, waits = []\<rparr>"

section \<open>The whole request\<close>

text \<open>
  After the loop: a timeout of anything but tester present reports the ECU as disconnected; a
  positive response establishes the session and the security level the request asked for.
\<close>

definition finish_send ::
    "string \<Rightarrow> service_payload \<Rightarrow> byte \<Rightarrow> service_payload diag_result \<Rightarrow> ecu_state_coordinator
     \<Rightarrow> service_payload option diag_result \<times> ecu_state_coordinator" where
  "finish_send ecu payload sent_sid resp sc =
     (let sc1 = (if resp = Inl Timeout \<and> sent_sid \<noteq> TESTER_PRESENT
                 then handle_ecu_disconnected ecu sc else sc);
          sc2 = (case resp of
                   Inr msg \<Rightarrow>
                     if is_positive_response_for_sid msg sent_sid then
                       (let s1 = (case new_session payload of
                                    None \<Rightarrow> sc1
                                  | Some v \<Rightarrow> tell (SetServiceState SESSION_CONTROL v) ecu sc1)
                        in case new_security payload of
                             None \<Rightarrow> s1
                           | Some v \<Rightarrow> tell (SetServiceState SECURITY_ACCESS v) ecu s1)
                     else sc1
                 | Inl e \<Rightarrow> sc1)
      in ((case resp of Inl e \<Rightarrow> Inl e | Inr msg \<Rightarrow> Inr (Some msg)), sc2))"

definition send_with_raw_payload ::
    "(string \<rightharpoonup> uds_parameters) \<Rightarrow> string \<Rightarrow> service_payload \<Rightarrow> nat option \<Rightarrow> bool \<Rightarrow> bool
     \<Rightarrow> attempt list \<Rightarrow> ecu_state_coordinator
     \<Rightarrow> (service_payload option diag_result \<times> ecu_state_coordinator \<times> nat) option" where
  "send_with_raw_payload ecu_params ecu payload timeout expect_response acquired attempts sc =
     (case ecu_params ecu of
        None \<Rightarrow> Some (Inl (NotFound ''ECU not found''), sc, 0)
      | Some params \<Rightarrow>
          (case first (payload_data payload) of
             None \<Rightarrow> Some (Inl (BadPayload ''Cannot sent message without SID''), sc, 0)
           | Some sent_sid \<Rightarrow>
               if \<not> acquired then Some (Inl Timeout, sc, 0)
               else (case send_loop params (payload_data payload) sent_sid expect_response
                            (unwrap_or timeout (timeout_default params)) attempts init_send_state of
                   None \<Rightarrow> None
                 | Some (Return r, st, n) \<Rightarrow> Some (r, sc, n)
                 | Some (Break r, st, n) \<Rightarrow>
                     (case finish_send ecu payload sent_sid r sc of (res, sc') \<Rightarrow> Some (res, sc', n)))))"

text \<open>\<open>send_genericservice\<close> on a checked payload: no response counts as empty data.\<close>

definition send_genericservice ::
    "(string \<rightharpoonup> uds_parameters) \<Rightarrow> string \<Rightarrow> service_payload diag_result \<Rightarrow> nat option \<Rightarrow> bool
     \<Rightarrow> attempt list \<Rightarrow> ecu_state_coordinator
     \<Rightarrow> (byte list diag_result \<times> ecu_state_coordinator) option" where
  "send_genericservice ecu_params ecu checked timeout acquired attempts sc =
     (case checked of
        Inl e \<Rightarrow> Some (Inl e, sc)
      | Inr payload \<Rightarrow>
          map_option (\<lambda>(r, sc', n).
              ((case r of Inl e \<Rightarrow> Inl e | Inr (Some p) \<Rightarrow> Inr (payload_data p) | Inr None \<Rightarrow> Inr []),
               sc'))
            (send_with_raw_payload ecu_params ecu payload timeout
               (\<not> is_suppress_positive_response payload) acquired attempts sc))"

section \<open>The inner loop\<close>

fun is_busy :: "receive \<Rightarrow> bool" where
  "is_busy (t, Got (Inr (Some (Pending (BusyRepeatRequest a))))) = True"
| "is_busy (t, Got (Inr (Some (Pending (TemporarilyNotAvailable a))))) = True"
| "is_busy _ = False"

text \<open>Outcomes after which the inner loop is left whatever the state.\<close>

fun settles :: "receive \<Rightarrow> bool" where
  "settles (t, Closed) = True"
| "settles (t, TimedOut) = True"
| "settles (t, Got (Inl e)) = True"
| "settles (t, Got (Inr None)) = True"
| "settles _ = False"

text \<open>A message that the inner loop skips.\<close>

fun ignored :: "byte list \<Rightarrow> byte \<Rightarrow> receive \<Rightarrow> bool" where
  "ignored request sid (t, Got (Inr (Some (UdsResponse msg)))) \<longleftrightarrow> \<not> is_expected request sid msg"
| "ignored request sid _ = False"

lemma retry_or_cases:
  obtains "app_retry_count st < repeat_req_count_app params"
    "retry_or params e st = (Resend, st\<lparr>app_retry_count := saturating_add_u32 (app_retry_count st) 1,
       rx_timeout_next := None\<rparr>)"
  | "\<not> app_retry_count st < repeat_req_count_app params" "retry_or params e st = (Finished (Inl e), st)"
  by (cases "app_retry_count st < repeat_req_count_app params") (auto simp: retry_or_def)

lemma read_step_finished:
  assumes "read_step params request sid ev st = Inr (Finished (Inr msg), st')"
  shows "is_expected request sid msg \<and> (\<exists>t. ev = (t, Got (Inr (Some (UdsResponse msg)))))"
  using assms
  by (auto simp: read_step_def is_expected_def retry_or_def
      split: prod.splits receive_outcome.splits sum.splits option.splits transport_response.splits
        pending_nrc.splits if_splits)

lemma read_step_resend:
  assumes "read_step params request sid ev st = Inr (Resend, st')"
    and "repeat_req_count_app params \<le> u32_max"
  shows "app_retry_count st' = Suc (app_retry_count st) \<and>
      app_retry_count st < repeat_req_count_app params \<or>
    app_retry_count st' = app_retry_count st \<and> is_busy ev"
  using assms
  by (auto simp: read_step_def retry_or_def saturating_add_u32_def
      split: prod.splits receive_outcome.splits sum.splits option.splits transport_response.splits
        pending_nrc.splits if_splits)

lemma read_step_continue:
  "read_step params request sid ev st = Inl st' \<Longrightarrow> app_retry_count st' = app_retry_count st"
  by (auto simp: read_step_def
      split: prod.splits receive_outcome.splits sum.splits option.splits transport_response.splits
        pending_nrc.splits if_splits)

lemma read_step_settles: "settles ev \<Longrightarrow> \<exists>r. read_step params request sid ev st = Inr r"
  by (cases ev rule: settles.cases) (auto simp: read_step_def)

lemma read_step_ignored: "ignored request sid ev \<Longrightarrow> read_step params request sid ev st = Inl st"
  by (cases "(request, sid, ev)" rule: ignored.cases) (auto simp: read_step_def is_expected_def)

lemma read_finished:
  "read_uds_messages params request sid rx evs st = Some (Finished (Inr msg), st') \<Longrightarrow>
   is_expected request sid msg \<and> (\<exists>t. (t, Got (Inr (Some (UdsResponse msg)))) \<in> set evs)"
proof (induction evs arbitrary: st)
  case (Cons ev evs)
  then show ?case by (auto simp: Let_def split: sum.splits dest: read_step_finished)
qed simp

lemma read_resend:
  "read_uds_messages params request sid rx evs st = Some (Resend, st') \<Longrightarrow>
   repeat_req_count_app params \<le> u32_max \<Longrightarrow>
   app_retry_count st' = Suc (app_retry_count st) \<and>
     app_retry_count st < repeat_req_count_app params \<or>
   app_retry_count st' = app_retry_count st \<and> list_ex is_busy evs"
proof (induction evs arbitrary: st)
  case (Cons ev evs)
  let ?st = "st\<lparr>waits := waits st @ [unwrap_or (rx_timeout_next st) rx]\<rparr>"
  show ?case
  proof (cases "read_step params request sid ev ?st")
    case (Inl st1)
    then have "read_uds_messages params request sid rx evs st1 = Some (Resend, st')"
      using Cons.prems(1) by simp
    from Cons.IH[OF this Cons.prems(2)] read_step_continue[OF Inl] show ?thesis by auto
  next
    case (Inr r)
    then have "read_step params request sid ev ?st = Inr (Resend, st')" using Cons.prems(1) by simp
    from read_step_resend[OF this Cons.prems(2)] show ?thesis by auto
  qed
qed simp

lemma read_settles:
  "list_ex settles evs \<Longrightarrow> \<exists>r. read_uds_messages params request sid rx evs st = Some r"
proof (induction evs arbitrary: st)
  case (Cons ev evs)
  let ?st = "st\<lparr>waits := waits st @ [unwrap_or (rx_timeout_next st) rx]\<rparr>"
  show ?case
  proof (cases "read_step params request sid ev ?st")
    case (Inl st1)
    then have "\<not> settles ev" using read_step_settles[of ev params request sid ?st] by auto
    then show ?thesis using Cons Inl by simp
  qed simp
qed simp

section \<open>The outer loop\<close>

fun busy_attempt :: "attempt \<Rightarrow> bool" where
  "busy_attempt (Sent evs) = list_ex is_busy evs"
| "busy_attempt (SendError e) = False"

fun settled_attempt :: "attempt \<Rightarrow> bool" where
  "settled_attempt (Sent evs) = list_ex settles evs"
| "settled_attempt (SendError e) = True"

lemma send_loop_answer:
  "send_loop params request sid expect rx attempts st = Some (Break (Inr msg), st', n) \<Longrightarrow>
   is_expected request sid msg \<and> 0 < n \<and> n \<le> length attempts \<and>
   (\<exists>evs t. attempts ! (n - 1) = Sent evs \<and> (t, Got (Inr (Some (UdsResponse msg)))) \<in> set evs)"
proof (induction attempts arbitrary: st n)
  case (Cons a attempts)
  have rest: "is_expected request sid msg \<and> 0 < n \<and> n \<le> length (a # attempts) \<and>
      (\<exists>evs t. (a # attempts) ! (n - 1) = Sent evs \<and> (t, Got (Inr (Some (UdsResponse msg)))) \<in> set evs)"
    if "send_loop params request sid expect rx attempts st1 = Some (Break (Inr msg), st', k)" "n = Suc k"
    for st1 k
    using Cons.IH[OF that(1)] that(2) by auto
  show ?case
  proof (cases a)
    case (SendError e)
    then show ?thesis using Cons.prems rest
      by (cases rule: retry_or_cases[of st params e]) auto
  next
    case (Sent evs)
    then show ?thesis
      using Cons.prems rest read_finished
      by (auto split: if_splits option.splits read_result.splits list.splits)
  qed
qed simp

lemma send_loop_bound:
  assumes "repeat_req_count_app params \<le> u32_max"
  shows "send_loop params request sid expect rx attempts st = Some (r, st', n) \<Longrightarrow>
   app_retry_count st \<le> repeat_req_count_app params \<Longrightarrow>
   n + app_retry_count st \<le> Suc (repeat_req_count_app params + length (filter busy_attempt (take n attempts)))"
proof (induction attempts arbitrary: st n)
  case (Cons a attempts)
  have step: ?case if rec: "send_loop params request sid expect rx attempts st1 = Some (r, st', k)" "n = Suc k"
    and st1: "app_retry_count st1 = Suc (app_retry_count st) \<and> app_retry_count st < repeat_req_count_app params \<or>
      app_retry_count st1 = app_retry_count st \<and> busy_attempt a" for st1 k
  proof -
    have "app_retry_count st1 \<le> repeat_req_count_app params" using st1 Cons.prems(2) by auto
    from Cons.IH[OF rec(1) this] show ?thesis using st1 rec(2) by auto
  qed
  show ?case
  proof (cases a)
    case (SendError e)
    show ?thesis
    proof (cases rule: retry_or_cases[of st params e])
      case 1
      let ?st1 = "st\<lparr>app_retry_count := saturating_add_u32 (app_retry_count st) 1, rx_timeout_next := None\<rparr>"
      obtain k where "send_loop params request sid expect rx attempts ?st1 = Some (r, st', k)" "n = Suc k"
        using Cons.prems(1) SendError 1 by auto
      then show ?thesis using step[of ?st1 k] 1(1) assms by (simp add: saturating_add_u32_def)
    next
      case 2
      then show ?thesis using Cons.prems SendError by auto
    qed
  next
    case (Sent evs)
    show ?thesis
    proof (cases "read_uds_messages params request sid rx evs st")
      case (Some p)
      obtain q st1 where p: "p = (q, st1)" by fastforce
      show ?thesis
      proof (cases q)
        case Resend
        then have "app_retry_count st1 = Suc (app_retry_count st) \<and> app_retry_count st < repeat_req_count_app params \<or>
            app_retry_count st1 = app_retry_count st \<and> busy_attempt a"
          using read_resend[of params request sid rx evs st st1] assms Some p Sent by simp
        then show ?thesis
          using Cons.prems Some p Resend Sent step[of st1]
          by (auto split: if_splits list.splits)
      next
        case (Finished x)
        then show ?thesis using Cons.prems Some p Sent by (auto split: if_splits list.splits)
      qed
    qed (use Cons.prems Sent in \<open>auto split: if_splits list.splits\<close>)
  qed
qed simp

lemma send_loop_returns:
  assumes "repeat_req_count_app params \<le> u32_max"
  shows "list_all settled_attempt attempts \<Longrightarrow> \<not> list_ex busy_attempt attempts \<Longrightarrow>
   repeat_req_count_app params < length attempts + app_retry_count st \<Longrightarrow>
   app_retry_count st \<le> repeat_req_count_app params \<Longrightarrow>
   \<exists>r. send_loop params request sid True rx attempts st = Some r"
proof (induction attempts arbitrary: st)
  case (Cons a attempts)
  have step: "\<exists>r. send_loop params request sid True rx attempts st1 = Some r"
    if "app_retry_count st1 = Suc (app_retry_count st)" "app_retry_count st < repeat_req_count_app params" for st1
    using Cons.IH[of st1] Cons.prems that by auto
  show ?case
  proof (cases a)
    case (SendError e)
    show ?thesis
    proof (cases rule: retry_or_cases[of st params e])
      case 1
      let ?st1 = "st\<lparr>app_retry_count := saturating_add_u32 (app_retry_count st) 1, rx_timeout_next := None\<rparr>"
      obtain r where "send_loop params request sid True rx attempts ?st1 = Some r"
        using step[of ?st1] 1(1) assms by (auto simp: saturating_add_u32_def)
      then show ?thesis using SendError 1 by (auto split: prod.splits)
    qed (simp add: SendError)
  next
    case (Sent evs)
    then obtain q st1 where q: "read_uds_messages params request sid rx evs st = Some (q, st1)"
      using read_settles[of evs params request sid rx st] Cons.prems(1) by auto
    show ?thesis
    proof (cases q)
      case Resend
      then have "app_retry_count st1 = Suc (app_retry_count st)" "app_retry_count st < repeat_req_count_app params"
        using read_resend[of params request sid rx evs st st1] q assms Cons.prems(2) Sent by auto
      from step[OF this] show ?thesis using q Resend Sent by auto
    qed (use q Sent in auto)
  qed
qed simp

section \<open>Properties of a request\<close>

lemma send_uses_loop:
  assumes "send_with_raw_payload ecu_params ecu payload timeout expect acquired attempts sc = Some (r, sc', n)"
    and "ecu_params ecu = Some params"
  shows "n = 0 \<or> (\<exists>sid rx r' st'.
    send_loop params (payload_data payload) sid expect rx attempts init_send_state = Some (r', st', n))"
  using assms
  by (auto simp: send_with_raw_payload_def split: option.splits if_splits loop_result.splits prod.splits)

lemma send_bound:
  assumes "send_with_raw_payload ecu_params ecu payload timeout expect acquired attempts sc = Some (r, sc', n)"
    and "ecu_params ecu = Some params" and "repeat_req_count_app params \<le> u32_max"
  shows "n \<le> Suc (repeat_req_count_app params + length (filter busy_attempt (take n attempts)))"
  using send_uses_loop[OF assms(1,2)] send_loop_bound[OF assms(3)]
  by (fastforce simp: init_send_state_def)

lemma send_loop_no_answer:
  assumes "send_loop p req s expect rx as st0 = Some (Return (Inr mo), st1, k)"
  shows "mo = None \<and> \<not> expect"
  using assms
proof (induction as arbitrary: st0 k)
  case (Cons a as)
  then show ?case
    by (cases a) (auto split: prod.splits read_result.splits if_splits list.splits option.splits)
qed simp

lemma raw_result_cases:
  assumes "send_with_raw_payload ecu_params ecu payload timeout expect acquired attempts sc =
      Some (Inr mo, sc', n)"
  obtains (silent) "mo = None" "\<not> expect" "sc' = sc"
    | (answered) msg sid where "mo = Some msg" "first (payload_data payload) = Some sid"
      "is_expected (payload_data payload) sid msg" "sc' = snd (finish_send ecu payload sid (Inr msg) sc)"
      "\<exists>evs t. attempts ! (n - 1) = Sent evs \<and> (t, Got (Inr (Some (UdsResponse msg)))) \<in> set evs"
      "0 < n" "n \<le> length attempts"
proof -
  obtain params sid lr st where sid: "first (payload_data payload) = Some sid"
    and l: "send_loop params (payload_data payload) sid expect
      (unwrap_or timeout (timeout_default params)) attempts init_send_state = Some (lr, st, n)"
    and f: "case lr of Return r \<Rightarrow> r = Inr mo \<and> sc' = sc | Break r \<Rightarrow> finish_send ecu payload sid r sc = (Inr mo, sc')"
    using assms
    by (auto simp: send_with_raw_payload_def split: option.splits if_splits loop_result.splits prod.splits)
  show ?thesis
  proof (cases lr)
    case (Return r)
    then have "mo = None \<and> \<not> expect" "sc' = sc"
      using l f send_loop_no_answer[of params "payload_data payload" sid expect _ attempts init_send_state mo st n]
      by auto
    then show ?thesis using silent by blast
  next
    case (Break r)
    then obtain msg where "mo = Some msg" "r = Inr msg" "sc' = snd (finish_send ecu payload sid (Inr msg) sc)"
      using f by (auto simp: finish_send_def Let_def split: sum.splits)
    with send_loop_answer[of params _ sid expect _ attempts _ msg st n] l Break sid show ?thesis
      using answered by blast
  qed
qed

text \<open>
  C2: A returned response answers the request. The message is a response to the service of the
  request, it echoes the identifier of the request when the service echoes one, and it arrived in
  the attempt that was sent last; a late response to an earlier attempt is never returned.
\<close>

theorem response_answers_request:
  assumes "send_with_raw_payload ecu_params ecu payload timeout expect acquired attempts sc =
      Some (Inr (Some msg), sc', n)"
  shows "\<exists>sid. first (payload_data payload) = Some sid \<and> is_response_for_sid msg sid \<and>
    has_matching_echo_bytes msg (payload_data payload) \<and>
    (\<forall>hi lo rest. payload_data payload = sid # hi # lo # rest \<longrightarrow>
       sid \<in> {READ_DATA_BY_IDENTIFIER, WRITE_DATA_BY_IDENTIFIER, INPUT_OUTPUT_CONTROL_BY_IDENTIFIER} \<longrightarrow>
       is_positive_response_for_sid msg sid \<longrightarrow> (\<exists>r rest'. payload_data msg = r # hi # lo # rest')) \<and>
    (\<exists>evs t. attempts ! (n - 1) = Sent evs \<and> (t, Got (Inr (Some (UdsResponse msg)))) \<in> set evs)"
proof (cases rule: raw_result_cases[OF assms])
  case (2 msg' sid)
  then show ?thesis using echo_identifier[of sid msg'] by (auto simp: is_expected_def)
qed simp

text \<open>
  C22: Transmissions are bounded. Whatever the gateway answers, a request is transmitted at most
  once plus the configured number of application retries plus once for every attempt in which
  the ECU asked for a repetition.
\<close>

theorem transmissions_bounded:
  assumes "ecu_params ecu = Some params" and "repeat_req_count_app params \<le> u32_max"
    and "send_with_raw_payload ecu_params ecu payload timeout expect acquired attempts sc = Some (r, sc', n)"
  shows "n \<le> 1 + repeat_req_count_app params + length (filter busy_attempt (take n attempts))"
  using send_bound[OF assms(3,1,2)] by simp

text \<open>
  A request returns. When every attempt ends, by an error of the gateway, a closed channel
  or a timer that fires, and the ECU does not ask for repetitions, the call returns after at most
  the configured number of retries.
\<close>

theorem request_returns:
  assumes "ecu_params ecu = Some params" and "repeat_req_count_app params \<le> u32_max"
    and "list_all settled_attempt attempts" and "\<not> list_ex busy_attempt attempts"
    and "repeat_req_count_app params < length attempts"
  shows "\<exists>r sc' n. send_with_raw_payload ecu_params ecu payload timeout True acquired attempts sc =
      Some (r, sc', n) \<and> n \<le> 1 + repeat_req_count_app params"
proof -
  have l: "\<exists>r st n. send_loop params (payload_data payload) sid True rx attempts init_send_state =
      Some (r, st, n)" for sid rx
    using send_loop_returns[OF assms(2,3,4), of init_send_state] assms(5)
    by (auto simp: init_send_state_def)
  have "\<exists>r sc' n. send_with_raw_payload ecu_params ecu payload timeout True acquired attempts sc =
      Some (r, sc', n)"
  proof (cases "first (payload_data payload)")
    case (Some sid)
    obtain r st n where "send_loop params (payload_data payload) sid True
        (unwrap_or timeout (timeout_default params)) attempts init_send_state = Some (r, st, n)"
      using l by blast
    then show ?thesis
      using assms(1) Some
      by (cases r) (auto simp: send_with_raw_payload_def split: prod.splits)
  qed (use assms(1) in \<open>simp add: send_with_raw_payload_def\<close>)
  then obtain r sc' n where s: "send_with_raw_payload ecu_params ecu payload timeout True acquired attempts sc =
      Some (r, sc', n)" by blast
  have "filter busy_attempt (take n attempts) = []"
    using assms(4) by (auto simp: filter_empty_conv list_ex_iff dest: in_set_takeD)
  then show ?thesis using s send_bound[OF s assms(1,2)] by auto
qed

text \<open>Concrete requests for the examples: reading data identifier F190 with one retry.\<close>

definition demo_params :: uds_parameters where
  "demo_params = \<lparr>timeout_default = 1000, rc_21_retry_policy = ContinueUntilTimeout,
     rc_21_completion_timeout = 5000, rc_21_repeat_request_time = 200,
     rc_78_retry_policy = ContinueUntilTimeout, rc_78_completion_timeout = 25000,
     rc_78_timeout = 6000, rc_94_retry_policy = Disabled, rc_94_completion_timeout = 5000,
     rc_94_repeat_request_time = 200, repeat_req_count_app = 1\<rparr>"

definition demo_request :: service_payload where
  "demo_request = uds_response_from_raw [0x22, 0xF1, 0x90] 0x0E00 0x1001"

definition demo_answer :: service_payload where
  "demo_answer = uds_response_from_raw [0x62, 0xF1, 0x90, 0x41] 0x1001 0x0E00"

definition demo_coordinator :: ecu_state_coordinator where
  "demo_coordinator = ecu_state_coordinator_new [''ECU'' \<mapsto> ecu_runtime_state_new]"

lemma demo_answer_positive: "is_positive_response_for_sid demo_answer 0x22"
  by (simp add: is_positive_response_for_sid_def demo_answer_def uds_response_from_raw_def
      saturating_add_u8_def UDS_ID_RESPONSE_BITMASK_def)

lemma demo_answer_expected: "is_expected [0x22, 0xF1, 0x90] 0x22 demo_answer"
  using echo_identifier[of "0x22" demo_answer "0xF1" "0x90" "[]"] demo_answer_positive
  by (simp add: is_expected_def is_response_for_sid_def demo_answer_def uds_response_from_raw_def
      sid_defs)

lemma demo_exchange:
  "send_with_raw_payload [''ECU'' \<mapsto> demo_params] ''ECU'' demo_request None True True
     [Sent [(1000, TimedOut)], Sent [(1200, Got (Inr (Some (UdsResponse demo_answer))))]]
     demo_coordinator = Some (Inr (Some demo_answer), demo_coordinator, 2)"
  using demo_answer_expected
  by (simp add: send_with_raw_payload_def demo_request_def uds_response_from_raw_def init_send_state_def
      read_step_def retry_or_def demo_params_def saturating_add_u32_def u32_max_def is_expected_def
      finish_send_def)

theorem response_answers_request_witness:
  "\<exists>r rest'. payload_data demo_answer = r # 0xF1 # 0x90 # rest'"
proof -
  have d: "payload_data demo_request = [0x22, 0xF1, 0x90]"
    by (simp add: demo_request_def uds_response_from_raw_def)
  from response_answers_request[OF demo_exchange] demo_answer_positive d show ?thesis
    by (auto simp: READ_DATA_BY_IDENTIFIER_def)
qed

theorem transmissions_bounded_witness:
  "(2 :: nat) \<le> 1 + repeat_req_count_app demo_params +
     length (filter busy_attempt (take 2
       [Sent [(1000, TimedOut)], Sent [(1200, Got (Inr (Some (UdsResponse demo_answer))))]]))"
  by (rule transmissions_bounded[OF _ _ demo_exchange]) (simp_all add: demo_params_def u32_max_def)

theorem request_returns_witness:
  "\<exists>r sc' n. send_with_raw_payload [''ECU'' \<mapsto> demo_params] ''ECU'' demo_request None True True
     [SendError (SendFailed ''link''), Sent [(1000, Closed)]] demo_coordinator = Some (r, sc', n) \<and>
     n \<le> 1 + repeat_req_count_app demo_params"
  by (rule request_returns) (simp_all add: demo_params_def u32_max_def)

section \<open>Silent ECUs\<close>

definition silent_attempt :: "byte list \<Rightarrow> byte \<Rightarrow> attempt \<Rightarrow> bool" where
  "silent_attempt request sid a \<longleftrightarrow>
     (\<exists>evs t. a = Sent (evs @ [(t, TimedOut)]) \<and> list_all (ignored request sid) evs)"

lemma read_skips:
  "list_all (ignored request sid) evs \<Longrightarrow>
   \<exists>w. read_uds_messages params request sid rx (evs @ evs') st =
     read_uds_messages params request sid rx evs' (st\<lparr>waits := w\<rparr>)"
proof (induction evs arbitrary: st)
  case Nil
  show ?case by (intro exI[of _ "waits st"]) simp
next
  case (Cons ev evs)
  then have "read_step params request sid ev s = Inl s" for s by (simp add: read_step_ignored)
  then show ?case
    using Cons.IH[of "st\<lparr>waits := waits st @ [unwrap_or (rx_timeout_next st) rx]\<rparr>"] Cons.prems
    by (auto simp: Let_def)
qed

lemma read_silent:
  assumes "list_all (ignored request sid) evs"
  shows "\<exists>w. read_uds_messages params request sid rx (evs @ [(t, TimedOut)]) st =
    Some (retry_or params Timeout (st\<lparr>waits := w\<rparr>))"
  using read_skips[OF assms, of params rx "[(t, TimedOut)]" st]
  by (auto simp: Let_def read_step_def)

lemma send_loop_silent:
  assumes "repeat_req_count_app params \<le> u32_max"
  shows "list_all (silent_attempt request sid) attempts \<Longrightarrow>
   length attempts + app_retry_count st = Suc (repeat_req_count_app params) \<Longrightarrow>
   \<exists>st'. send_loop params request sid True rx attempts st =
     (if attempts = [] then None else Some (Break (Inl Timeout), st', length attempts))"
proof (induction attempts arbitrary: st)
  case (Cons a attempts)
  obtain evs t where a: "a = Sent (evs @ [(t, TimedOut)])" "list_all (ignored request sid) evs"
    using Cons.prems(1) by (auto simp: silent_attempt_def)
  obtain w where w: "read_uds_messages params request sid rx (evs @ [(t, TimedOut)]) st =
      Some (retry_or params Timeout (st\<lparr>waits := w\<rparr>))"
    using read_silent[OF a(2)] by blast
  show ?case
  proof (cases "attempts = []")
    case True
    then show ?thesis using a w Cons.prems(2) by (auto simp: retry_or_def)
  next
    case False
    let ?st1 = "(st\<lparr>waits := w\<rparr>)\<lparr>app_retry_count := saturating_add_u32 (app_retry_count st) 1, rx_timeout_next := None\<rparr>"
    have lt: "app_retry_count st < repeat_req_count_app params"
      using False Cons.prems(2) by (cases attempts) auto
    then have "app_retry_count ?st1 = Suc (app_retry_count st)"
      using assms by (simp add: saturating_add_u32_def)
    then obtain st' where "send_loop params request sid True rx attempts ?st1 =
        Some (Break (Inl Timeout), st', length attempts)"
      using Cons.IH[of ?st1] Cons.prems False by auto
    then show ?thesis using a w lt by (auto simp: retry_or_def)
  qed
qed simp

text \<open>
  A silent ECU. When no attempt brings a matching response before its timer fires, whatever
  unrelated messages arrive, the request is transmitted exactly once more than the configured
  number of retries, the call fails with a timeout, and the ECU is reported as disconnected
  unless the request was a tester-present message.
\<close>

theorem silent_ecu_times_out:
  assumes "ecu_params ecu = Some params" and "repeat_req_count_app params \<le> u32_max"
    and "payload_data payload = sid # rest"
    and "list_all (silent_attempt (sid # rest) sid) attempts"
    and "length attempts = Suc (repeat_req_count_app params)"
  shows "send_with_raw_payload ecu_params ecu payload timeout True True attempts sc =
    Some (Inl Timeout,
      if sid = TESTER_PRESENT then sc else handle_ecu_disconnected ecu sc,
      Suc (repeat_req_count_app params))"
proof -
  have "\<exists>st'. send_loop params (sid # rest) sid True rx attempts init_send_state =
      Some (Break (Inl Timeout), st', Suc (repeat_req_count_app params))" for rx
    using send_loop_silent[OF assms(2,4), of init_send_state rx] assms(5)
    by (auto simp: init_send_state_def)
  then obtain st' where "send_loop params (sid # rest) sid True
      (unwrap_or timeout (timeout_default params)) attempts init_send_state =
      Some (Break (Inl Timeout), st', Suc (repeat_req_count_app params))" by blast
  then show ?thesis
    using assms(1,3) by (simp add: send_with_raw_payload_def finish_send_def)
qed

theorem silent_ecu_times_out_witness:
  "send_with_raw_payload [''ECU'' \<mapsto> demo_params] ''ECU'' demo_request None True True
     [Sent [(1000, TimedOut)], Sent [(2000, TimedOut)]] demo_coordinator =
   Some (Inl Timeout, handle_ecu_disconnected ''ECU'' demo_coordinator, 2)"
  using silent_ecu_times_out[of "[''ECU'' \<mapsto> demo_params]" "''ECU''" demo_params demo_request
      "0x22" "[0xF1, 0x90]" "[Sent [(1000, TimedOut)], Sent [(2000, TimedOut)]]" None demo_coordinator]
  by (simp add: demo_params_def u32_max_def demo_request_def uds_response_from_raw_def
      silent_attempt_def TESTER_PRESENT_def)

section \<open>Limits of the timers\<close>

text \<open>
  Every skipped message starts the receive timer again and there is no deadline for the whole
  request, so a channel that keeps delivering unrelated messages keeps the call waiting.
\<close>

theorem unrelated_messages_keep_waiting:
  "list_all (ignored request sid) evs \<Longrightarrow> read_uds_messages params request sid rx evs st = None"
  using read_skips[of request sid evs params rx "[]" st] by auto

text \<open>
  After a response-pending code followed by a busy code, the repeated request waits with the
  timeout of the response-pending code instead of the default, since only the other repetitions
  reset it.
\<close>

theorem busy_repeat_keeps_pending_timeout:
  "map_option (\<lambda>(r, st, n). waits st)
     (send_loop demo_params [0x22, 0xF1, 0x90] 0x22 True 1000
       [Sent [(100, Got (Inr (Some (Pending (ResponsePending 1))))),
              (200, Got (Inr (Some (Pending (BusyRepeatRequest 1)))))],
        Sent [(300, Got (Inr (Some (UdsResponse demo_answer))))]] init_send_state) =
   Some [1000, 6000, 6000]"
  using demo_answer_expected
  by (simp add: init_send_state_def read_step_def validate_timeout_by_policy_def demo_params_def
      busy_policy_def is_expected_def unwrap_or_def)

end
