(* ===== verification/Detection_Requests.thy ===== *)
theory Detection_Requests
  imports Uds_Transport
begin

text \<open>
  The requests of a variant detection: \<open>send_without_variant_guard\<close>
  (\<open>cda-comm-uds/src/transport.rs\<close>) and the sending part of \<open>gather_detection_responses\<close>
  (\<open>variant.rs\<close>), which suppresses disconnect events while it sends. The encoding of a request
  into a payload and the decoding of a response are arguments, as is the empty positive response.
\<close>

section \<open>Model\<close>

definition send_without_variant_guard ::
    "(string \<rightharpoonup> uds_parameters) \<Rightarrow> string \<Rightarrow> service_payload diag_result \<Rightarrow> (service_payload \<Rightarrow> 'r diag_result)
     \<Rightarrow> 'r \<Rightarrow> nat option \<Rightarrow> bool \<Rightarrow> attempt list \<Rightarrow> ecu_state_coordinator
     \<Rightarrow> ('r diag_result \<times> ecu_state_coordinator) option" where
  "send_without_variant_guard ecu_params ecu encoded decode_response empty_positive timeout acquired
       attempts sc =
     (case ecu_params ecu of
        None \<Rightarrow> Some (Inl (NotFound ''ECU not found''), sc)
      | Some _ \<Rightarrow>
          (case encoded of
             Inl e \<Rightarrow> Some (Inl e, sc)
           | Inr payload \<Rightarrow>
               map_option (\<lambda>(r, sc', n).
                   ((case r of
                       Inl e \<Rightarrow> Inl e
                     | Inr (Some msg) \<Rightarrow> decode_response msg
                     | Inr None \<Rightarrow> Inr empty_positive), sc'))
                 (send_with_raw_payload ecu_params ecu payload timeout
                    (\<not> is_suppress_positive_response payload) acquired attempts sc)))"

record 'r detection_request =
  request_name :: string
  encoded_request :: "service_payload diag_result"
  response_decoder :: "service_payload \<Rightarrow> 'r diag_result"
  empty_response :: 'r
  slot_acquired :: bool
  request_attempts :: "attempt list"

text \<open>The loop ends at the first request that fails.\<close>

fun gather_loop ::
    "(string \<rightharpoonup> uds_parameters) \<Rightarrow> string \<Rightarrow> 'r detection_request list \<Rightarrow> (string \<rightharpoonup> 'r)
     \<Rightarrow> ecu_state_coordinator \<Rightarrow> ((string \<rightharpoonup> 'r) \<times> ecu_state_coordinator) option" where
  "gather_loop ecu_params ecu [] responses sc = Some (responses, sc)"
| "gather_loop ecu_params ecu (r # rs) responses sc =
     (case send_without_variant_guard ecu_params ecu (encoded_request r) (response_decoder r)
             (empty_response r) None (slot_acquired r) (request_attempts r) sc of
        None \<Rightarrow> None
      | Some (Inl e, sc') \<Rightarrow> Some (responses, sc')
      | Some (Inr x, sc') \<Rightarrow> gather_loop ecu_params ecu rs (responses(request_name r \<mapsto> x)) sc')"

definition gather_detection_responses ::
    "(string \<rightharpoonup> uds_parameters) \<Rightarrow> string \<Rightarrow> 'r detection_request list \<Rightarrow> ecu_state_coordinator
     \<Rightarrow> ((string \<rightharpoonup> 'r) \<times> ecu_state_coordinator) option" where
  "gather_detection_responses ecu_params ecu requests sc =
     map_option (\<lambda>(responses, sc'). (responses, restore_disconnect_handling ecu sc'))
       (gather_loop ecu_params ecu requests Map.empty (suppress_disconnect_handling ecu sc))"

section \<open>What the requests do to the shared state\<close>

text \<open>
  While disconnects of \<open>ecu\<close> are suppressed, sending to it changes service states at most.
\<close>

definition quiet :: "ecu_state_coordinator \<Rightarrow> ecu_state_coordinator \<Rightarrow> bool" where
  "quiet sc sc' \<longleftrightarrow>
     (\<forall>n. map_option status (handles sc' n) = map_option status (handles sc n) \<and>
          map_option suppress_disconnect (handles sc' n) = map_option suppress_disconnect (handles sc n))"

lemma quiet_refl [simp]: "quiet sc sc"
  by (simp add: quiet_def)

lemma quiet_trans: "quiet sc sc1 \<Longrightarrow> quiet sc1 sc2 \<Longrightarrow> quiet sc sc2"
  by (simp add: quiet_def)

lemma quiet_set_service: "quiet sc (tell (SetServiceState sid v) n sc)"
  by (simp add: quiet_def tell_def handle_set_service_state_def split: option.splits)

definition suppressed :: "string \<Rightarrow> ecu_state_coordinator \<Rightarrow> bool" where
  "suppressed ecu sc \<longleftrightarrow> (\<forall>h. handles sc ecu = Some h \<longrightarrow> suppress_disconnect h)"

lemma quiet_suppressed: "quiet sc sc' \<Longrightarrow> suppressed ecu sc \<Longrightarrow> suppressed ecu sc'"
proof -
  assume q: "quiet sc sc'" and s: "suppressed ecu sc"
  have "map_option suppress_disconnect (handles sc' ecu) = map_option suppress_disconnect (handles sc ecu)"
    using q by (simp add: quiet_def)
  then show "suppressed ecu sc'"
    using s by (cases "handles sc ecu") (auto simp: suppressed_def)
qed

lemma quiet_disconnected: "suppressed ecu sc \<Longrightarrow> quiet sc (handle_ecu_disconnected ecu sc)"
  by (auto simp: suppressed_def quiet_def handle_ecu_disconnected_def tell_def handle_ecu_disconnected_msg_def
      split: option.splits)

lemma finish_send_quiet:
  assumes "suppressed ecu sc"
  shows "quiet sc (snd (finish_send ecu payload sid r sc))"
  using quiet_disconnected[OF assms] quiet_trans[OF quiet_set_service quiet_set_service]
  by (cases r) (auto simp: finish_send_def Let_def quiet_set_service split: option.splits)

lemma send_raw_quiet:
  assumes "send_with_raw_payload params ecu payload timeout ex acquired attempts sc = Some (r, sc', n)"
    and "suppressed ecu sc"
  shows "quiet sc sc'"
proof -
  have "sc' = sc \<or> (\<exists>sid r. sc' = snd (finish_send ecu payload sid r sc))"
    using assms(1)
    by (auto simp: send_with_raw_payload_def
        split: option.splits if_splits prod.splits loop_result.splits) (metis snd_conv)+
  then show ?thesis using finish_send_quiet[OF assms(2)] by auto
qed

lemma send_quiet:
  assumes "send_without_variant_guard params ecu enc dec em timeout acquired attempts sc = Some (r, sc')"
    and "suppressed ecu sc"
  shows "quiet sc sc'"
proof (cases "params ecu = None \<or> (\<exists>e. enc = Inl e)")
  case True
  then show ?thesis using assms(1) by (auto simp: send_without_variant_guard_def split: option.splits)
next
  case False
  then obtain p where "enc = Inr p" by (cases enc) auto
  then obtain r0 n where "send_with_raw_payload params ecu p timeout (\<not> is_suppress_positive_response p)
      acquired attempts sc = Some (r0, sc', n)"
    using assms(1) False by (auto simp: send_without_variant_guard_def)
  then show ?thesis using send_raw_quiet assms(2) by blast
qed

lemma gather_loop_quiet:
  "gather_loop params ecu rs m sc = Some (m', sc') \<Longrightarrow> suppressed ecu sc \<Longrightarrow> quiet sc sc'"
proof (induction rs arbitrary: m sc)
  case (Cons r rs)
  obtain x sc1 where s: "send_without_variant_guard params ecu (encoded_request r) (response_decoder r)
      (empty_response r) None (slot_acquired r) (request_attempts r) sc = Some (x, sc1)"
    using Cons.prems(1) by (auto split: option.splits)
  have q: "quiet sc sc1" using send_quiet[OF s Cons.prems(2)] .
  show ?case
  proof (cases x)
    case (Inl e)
    then show ?thesis using Cons.prems(1) s q by simp
  next
    case (Inr y)
    have "suppressed ecu sc1" using quiet_suppressed[OF q Cons.prems(2)] .
    moreover have "gather_loop params ecu rs (m(request_name r \<mapsto> y)) sc1 = Some (m', sc')"
      using Cons.prems(1) s Inr by simp
    ultimately have "quiet sc1 sc'" using Cons.IH by blast
    then show ?thesis using q quiet_trans by blast
  qed
qed simp

text \<open>
  A variant detection never disconnects anything. Whatever the ECU answers to the requests of
  a detection, timeouts included, gathering the responses leaves the connectivity and the variant
  of every ECU as they were, and afterwards disconnect events of the ECU are handled again.
\<close>

theorem detection_requests_keep_status:
  assumes "gather_detection_responses params ecu requests sc = Some (responses, sc')"
  shows "(\<forall>n. map_option status (handles sc' n) = map_option status (handles sc n)) \<and>
    (\<forall>h. handles sc' ecu = Some h \<longrightarrow> \<not> suppress_disconnect h)"
proof -
  let ?sup = "suppress_disconnect_handling ecu sc"
  obtain sc1 where g: "gather_loop params ecu requests Map.empty ?sup = Some (responses, sc1)"
    and sc': "sc' = restore_disconnect_handling ecu sc1"
    using assms by (auto simp: gather_detection_responses_def)
  have "suppressed ecu ?sup"
    by (auto simp: suppressed_def suppress_disconnect_handling_def tell_def handle_suppress_disconnect_def
        split: option.splits)
  then have q: "quiet ?sup sc1" using gather_loop_quiet[OF g] by simp
  have "map_option status (handles ?sup n) = map_option status (handles sc n)" for n
    by (simp add: suppress_disconnect_handling_def tell_def handle_suppress_disconnect_def split: option.splits)
  moreover have "map_option status (handles sc' n) = map_option status (handles sc1 n)" for n
    by (simp add: sc' restore_disconnect_handling_def tell_def handle_restore_disconnect_def split: option.splits)
  moreover have "\<not> suppress_disconnect h" if "handles sc' ecu = Some h" for h
    using that
    by (auto simp: sc' restore_disconnect_handling_def tell_def handle_restore_disconnect_def split: option.splits)
  ultimately show ?thesis using q by (simp add: quiet_def)
qed

text \<open>A detection request that is never answered.\<close>

definition silent_request :: "nat detection_request" where
  "silent_request = \<lparr>request_name = ''ident'', encoded_request = Inr demo_request,
     response_decoder = (\<lambda>p. Inr 0), empty_response = 0, slot_acquired = True,
     request_attempts = [Sent [(1000, TimedOut)], Sent [(2000, TimedOut)]]\<rparr>"

definition online_coordinator :: ecu_state_coordinator where
  "online_coordinator = handle_ecu_connected ''ECU'' demo_coordinator"

lemma silent_gathering:
  "\<exists>sc'. gather_detection_responses [''ECU'' \<mapsto> demo_params] ''ECU'' [silent_request] online_coordinator =
     Some (Map.empty, sc')"
  by (simp add: gather_detection_responses_def silent_request_def send_without_variant_guard_def
      send_with_raw_payload_def demo_request_def uds_response_from_raw_def init_send_state_def read_step_def
      retry_or_def demo_params_def saturating_add_u32_def u32_max_def finish_send_def
      is_suppress_positive_response_def sprmib_capable_def sid_defs)

theorem detection_requests_keep_status_witness:
  "\<exists>sc' h. gather_detection_responses [''ECU'' \<mapsto> demo_params] ''ECU'' [silent_request] online_coordinator =
     Some (Map.empty, sc') \<and> handles sc' ''ECU'' = Some h \<and> connectivity (status h) = Online"
proof -
  obtain sc' where g: "gather_detection_responses [''ECU'' \<mapsto> demo_params] ''ECU'' [silent_request]
      online_coordinator = Some (Map.empty, sc')" using silent_gathering by blast
  have "map_option status (handles sc' ''ECU'') = map_option status (handles online_coordinator ''ECU'')"
    using detection_requests_keep_status[OF g] by simp
  then show ?thesis
    using g by (auto simp: online_coordinator_def handle_ecu_connected_def handle_ecu_connected_msg_def
        demo_coordinator_def ecu_state_coordinator_new_def spawn_with_state_def ecu_runtime_state_new_def
        ecu_state_default_def Let_def)
qed

end
