(* ===== verification/Transport_Router.thy ===== *)
theory Transport_Router
  imports Ecu_State Hex_Text Step_Invariant
begin

text \<open>
  The diagnostic transport router (\<open>cda-transport-router/src/lib.rs\<close>), which sends a request over
  DoIP or CAN. A gateway is the record of the answers its interface gives; the router keeps the
  configured overrides and the bindings made at first detection. The binding table is shared by
  concurrent requests, so the resolution of a transport is modelled twice: as the function the
  code spells out, and as a step relation in which the resolutions of any number of tasks
  interleave at every access to the table, with arbitrary answers of the gateways. ECU names are
  folded to lower case in the ASCII range.
\<close>

section \<open>Model\<close>

datatype transport_type = DoIP | Can

datatype route_status = NotConfigured | Ready | ProbeRequired | Unavailable

record gateway =
  route_status :: "string \<Rightarrow> route_status"
  probe_ecu :: "string \<Rightarrow> bool"
  gateway_send :: "string \<Rightarrow> service_payload \<Rightarrow> unit diag_result"
  gateway_send_functional :: "service_payload \<Rightarrow> (string \<times> service_payload diag_result) list diag_result"
  gateway_ecu_online :: "string \<Rightarrow> unit diag_result"
  gateway_network_address :: "16 word \<Rightarrow> string option"
  gateway_ecu_address :: "string \<Rightarrow> string option"

record router =
  doip_gateway :: "gateway option"
  can_gateway :: "gateway option"
  transport_overrides :: "string \<rightharpoonup> transport_type"
  ecu_bindings :: "string \<rightharpoonup> transport_type"

definition router_new :: "(string \<rightharpoonup> transport_type) \<Rightarrow> router" where
  "router_new overrides =
     \<lparr>doip_gateway = None, can_gateway = None, transport_overrides = overrides,
      ecu_bindings = Map.empty\<rparr>"

definition with_doip :: "gateway \<Rightarrow> router \<Rightarrow> router" where
  "with_doip g r = r\<lparr>doip_gateway := Some g\<rparr>"

definition with_can :: "gateway \<Rightarrow> router \<Rightarrow> router" where
  "with_can g r = r\<lparr>can_gateway := Some g\<rparr>"

definition bind_transport :: "string \<Rightarrow> transport_type \<Rightarrow> router \<Rightarrow> transport_type \<times> router" where
  "bind_transport name transport r =
     (let b = or_insert (ecu_bindings r) name transport
      in (the (b name), r\<lparr>ecu_bindings := b\<rparr>))"

definition try_bind_transport ::
    "string \<Rightarrow> gateway \<Rightarrow> transport_type \<Rightarrow> router \<Rightarrow> transport_type option \<times> router" where
  "try_bind_transport name g transport r =
     (case route_status g name of
        Ready \<Rightarrow> (case bind_transport name transport r of (t, r') \<Rightarrow> (Some t, r'))
      | ProbeRequired \<Rightarrow>
          if probe_ecu g name
          then (case bind_transport name transport r of (t, r') \<Rightarrow> (Some t, r'))
          else (None, r)
      | NotConfigured \<Rightarrow> (None, r)
      | Unavailable \<Rightarrow> (None, r))"

definition try_bind_optional ::
    "string \<Rightarrow> gateway option \<Rightarrow> transport_type \<Rightarrow> router \<Rightarrow> transport_type option \<times> router" where
  "try_bind_optional name g transport r =
     (case g of None \<Rightarrow> (None, r) | Some g \<Rightarrow> try_bind_transport name g transport r)"

definition resolve_transport :: "string \<Rightarrow> router \<Rightarrow> transport_type diag_result \<times> router" where
  "resolve_transport name r =
     (let lower = to_ascii_lowercase name in
      case transport_overrides r lower of
        Some pinned \<Rightarrow> (Inr pinned, r)
      | None \<Rightarrow>
          (case ecu_bindings r lower of
             Some bound \<Rightarrow> (Inr bound, r)
           | None \<Rightarrow>
               (case try_bind_optional lower (doip_gateway r) DoIP r of
                  (Some t, r1) \<Rightarrow> (Inr t, r1)
                | (None, r1) \<Rightarrow>
                    (case try_bind_optional lower (can_gateway r1) Can r1 of
                       (Some t, r2) \<Rightarrow> (Inr t, r2)
                     | (None, r2) \<Rightarrow> (Inl (EcuOffline name), r2)))))"

definition gateway_for :: "transport_type \<Rightarrow> router \<Rightarrow> gateway option" where
  "gateway_for t r = (case t of DoIP \<Rightarrow> doip_gateway r | Can \<Rightarrow> can_gateway r)"

definition router_send :: "string \<Rightarrow> service_payload \<Rightarrow> router \<Rightarrow> unit diag_result \<times> router" where
  "router_send name message r =
     (case resolve_transport (to_ascii_lowercase name) r of
        (Inl e, r') \<Rightarrow> (Inl e, r')
      | (Inr t, r') \<Rightarrow>
          (case gateway_for t r' of
             None \<Rightarrow> (Inl (EcuOffline name), r')
           | Some g \<Rightarrow> (gateway_send g name message, r')))"

definition router_ecu_online :: "string \<Rightarrow> router \<Rightarrow> unit diag_result \<times> router" where
  "router_ecu_online name r =
     (case resolve_transport name r of
        (Inl e, r') \<Rightarrow> (Inl e, r')
      | (Inr t, r') \<Rightarrow>
          (case gateway_for t r' of
             None \<Rightarrow> (Inl (EcuOffline name), r')
           | Some g \<Rightarrow> (gateway_ecu_online g name, r')))"

definition router_send_functional ::
    "service_payload \<Rightarrow> router \<Rightarrow> (string \<times> service_payload diag_result) list diag_result" where
  "router_send_functional message r =
     (case doip_gateway r of
        Some g \<Rightarrow> gateway_send_functional g message
      | None \<Rightarrow>
          if can_gateway r \<noteq> None
          then Inl (RequestNotSupported ''CAN transport does not support functional communication'')
          else Inl (EcuOffline ''No transport configured for functional request''))"

definition can_ecu_network_address :: "string \<Rightarrow> router \<Rightarrow> string option" where
  "can_ecu_network_address name r =
     (case can_gateway r of
        None \<Rightarrow> None
      | Some g \<Rightarrow> map_option (\<lambda>a. ''can://'' @ a) (gateway_ecu_address g name))"

definition network_address_for_transport :: "string \<Rightarrow> transport_type \<Rightarrow> router \<Rightarrow> string option" where
  "network_address_for_transport name t r =
     (case t of
        DoIP \<Rightarrow> (case doip_gateway r of None \<Rightarrow> None | Some g \<Rightarrow> gateway_ecu_address g name)
      | Can \<Rightarrow> can_ecu_network_address name r)"

definition get_gateway_network_address :: "16 word \<Rightarrow> router \<Rightarrow> string option" where
  "get_gateway_network_address address r =
     (case (case doip_gateway r of None \<Rightarrow> None | Some g \<Rightarrow> gateway_network_address g address) of
        Some a \<Rightarrow> Some a
      | None \<Rightarrow>
          (case can_gateway r of
             None \<Rightarrow> None
           | Some g \<Rightarrow> map_option (\<lambda>a. ''can://'' @ a) (gateway_network_address g address)))"

definition get_ecu_network_address :: "string \<Rightarrow> router \<Rightarrow> string option" where
  "get_ecu_network_address name r =
     (let lower = to_ascii_lowercase name in
      case transport_overrides r lower of
        Some pinned \<Rightarrow> network_address_for_transport lower pinned r
      | None \<Rightarrow>
          (case ecu_bindings r lower of
             Some bound \<Rightarrow> network_address_for_transport lower bound r
           | None \<Rightarrow>
               (case (case doip_gateway r of None \<Rightarrow> None | Some g \<Rightarrow> gateway_ecu_address g lower) of
                  Some a \<Rightarrow> Some a
                | None \<Rightarrow> can_ecu_network_address lower r)))"

section \<open>Sequential behaviour\<close>

lemma lowercase_idem [simp]: "to_ascii_lowercase (to_ascii_lowercase s) = to_ascii_lowercase s"
proof -
  have "to_ascii_lowercase_char (to_ascii_lowercase_char c) = to_ascii_lowercase_char c" for c
    by (simp add: to_ascii_lowercase_char_def of_char_of)
  then show ?thesis by (simp add: to_ascii_lowercase_def)
qed

lemma or_insert_is_Some: "\<exists>t. or_insert m k v k = Some t"
  by (auto simp: or_insert_def split: option.splits)

definition same_config :: "router \<Rightarrow> router \<Rightarrow> bool" where
  "same_config r r' \<longleftrightarrow> doip_gateway r' = doip_gateway r \<and> can_gateway r' = can_gateway r \<and>
     transport_overrides r' = transport_overrides r \<and>
     (\<forall>n u. ecu_bindings r n = Some u \<longrightarrow> ecu_bindings r' n = Some u)"

lemma same_config_refl [simp]: "same_config r r"
  by (simp add: same_config_def)

lemma same_config_trans: "same_config r r' \<Longrightarrow> same_config r' r'' \<Longrightarrow> same_config r r''"
  by (auto simp: same_config_def)

lemma bind_transport_result:
  assumes "bind_transport name t r = (t', r')"
  shows "ecu_bindings r' name = Some t'" "same_config r r'"
  using assms or_insert_is_Some[of "ecu_bindings r" name t]
  by (auto simp: bind_transport_def Let_def or_insert_keeps same_config_def)

lemma try_bind_result:
  assumes "try_bind_optional name g t r = (x, r')"
  shows "x = Some t' \<Longrightarrow> ecu_bindings r' name = Some t'" "same_config r r'"
  using assms
  by (auto simp: try_bind_optional_def try_bind_transport_def
      split: option.splits route_status.splits if_splits prod.splits dest: bind_transport_result)

text \<open>The transport an ECU is fixed to: pinned by the configuration, else bound.\<close>

definition fixed_transport :: "string \<Rightarrow> router \<Rightarrow> transport_type option" where
  "fixed_transport name r =
     (case transport_overrides r (to_ascii_lowercase name) of
        Some t \<Rightarrow> Some t
      | None \<Rightarrow> ecu_bindings r (to_ascii_lowercase name))"

lemma resolve_cases:
  assumes "resolve_transport name r = (x, r')"
  obtains (fixed) t where "fixed_transport name r = Some t" "x = Inr t" "r' = r"
  | (doip) t where "fixed_transport name r = None" "x = Inr t"
      "try_bind_optional (to_ascii_lowercase name) (doip_gateway r) DoIP r = (Some t, r')"
  | (other) r1 y where "fixed_transport name r = None"
      "try_bind_optional (to_ascii_lowercase name) (doip_gateway r) DoIP r = (None, r1)"
      "try_bind_optional (to_ascii_lowercase name) (can_gateway r1) Can r1 = (y, r')"
      "x = (case y of None \<Rightarrow> Inl (EcuOffline name) | Some t \<Rightarrow> Inr t)"
  using assms
  by (auto simp: resolve_transport_def fixed_transport_def Let_def split: option.splits prod.splits)

lemma resolve_config: "resolve_transport name r = (x, r') \<Longrightarrow> same_config r r'"
  by (erule resolve_cases) (auto dest: try_bind_result intro: same_config_trans)

text \<open>
  A later state of the router: the configuration is the same and bindings have only been added;
  the gateways may answer differently.
\<close>

definition later :: "router \<Rightarrow> router \<Rightarrow> bool" where
  "later r r' \<longleftrightarrow> transport_overrides r' = transport_overrides r \<and>
     (\<forall>n u. ecu_bindings r n = Some u \<longrightarrow> ecu_bindings r' n = Some u)"

lemma resolve_later: "later r (snd (resolve_transport name r))"
  using resolve_config[of name r] by (cases "resolve_transport name r") (auto simp: same_config_def later_def)

lemma fixed_transport_later:
  "later r r' \<Longrightarrow> fixed_transport name r = Some t \<Longrightarrow> fixed_transport name r' = Some t"
  by (auto simp: later_def fixed_transport_def split: option.splits)

lemma fixed_transport_binding:
  "same_config r r' \<Longrightarrow> fixed_transport name r = None \<Longrightarrow>
   ecu_bindings r' (to_ascii_lowercase name) = Some t \<Longrightarrow> fixed_transport name r' = Some t"
  by (auto simp: same_config_def fixed_transport_def split: option.splits)

lemma resolve_fixes:
  assumes "resolve_transport name r = (Inr t, r')"
  shows "fixed_transport name r' = Some t"
proof -
  note cfg = resolve_config[OF assms]
  from assms show ?thesis
  proof (cases rule: resolve_cases)
    case (doip u)
    then show ?thesis using try_bind_result(1)[OF doip(3)] fixed_transport_binding[OF cfg] by simp
  next
    case (other r1 y)
    then have "y = Some t" by (auto split: option.splits)
    then show ?thesis
      using try_bind_result(1)[OF other(3)] fixed_transport_binding[OF cfg other(1)] by simp
  qed simp
qed

lemma resolve_fixed:
  "fixed_transport name r = Some t \<Longrightarrow> resolve_transport name r = (Inr t, r)"
  by (auto simp: fixed_transport_def resolve_transport_def Let_def split: option.splits)

text \<open>
  Routing is sticky. Once a transport has been resolved for an ECU, every later resolution
  gives the same transport without probing again, whatever the gateways answer then and whatever
  other ECUs have been bound meanwhile, and the reported network address is that of the same
  transport.
\<close>

theorem routing_sticky:
  assumes "resolve_transport name r = (Inr t, r1)" and "later r1 r2"
  shows "resolve_transport name r2 = (Inr t, r2) \<and>
    get_ecu_network_address name r2 = network_address_for_transport (to_ascii_lowercase name) t r2"
proof -
  have "fixed_transport name r2 = Some t"
    using resolve_fixes[OF assms(1)] fixed_transport_later[OF assms(2)] by blast
  then show ?thesis
    by (auto simp: resolve_fixed get_ecu_network_address_def fixed_transport_def Let_def
        split: option.splits)
qed

definition demo_gateway :: "route_status \<Rightarrow> gateway" where
  "demo_gateway st = \<lparr>route_status = (\<lambda>_. st), probe_ecu = (\<lambda>_. False),
     gateway_send = (\<lambda>_ _. Inr ()), gateway_send_functional = (\<lambda>_. Inr []),
     gateway_ecu_online = (\<lambda>_. Inr ()), gateway_network_address = (\<lambda>_. None),
     gateway_ecu_address = (\<lambda>_. Some ''can0'')\<rparr>"

definition demo_router :: router where
  "demo_router = with_can (demo_gateway Ready) (with_doip (demo_gateway Unavailable) (router_new Map.empty))"

lemma demo_resolve:
  "resolve_transport ''ECU'' demo_router = (Inr Can, demo_router\<lparr>ecu_bindings := [''ecu'' \<mapsto> Can]\<rparr>)"
proof -
  have "to_ascii_lowercase ''ECU'' = ''ecu''" by code_simp
  then show ?thesis
    by (simp add: resolve_transport_def demo_router_def with_can_def with_doip_def router_new_def
        try_bind_optional_def try_bind_transport_def demo_gateway_def bind_transport_def or_insert_def)
qed

theorem routing_sticky_witness:
  "resolve_transport ''ECU'' (with_doip (demo_gateway Ready) (demo_router\<lparr>ecu_bindings := [''ecu'' \<mapsto> Can]\<rparr>)) =
   (Inr Can, with_doip (demo_gateway Ready) (demo_router\<lparr>ecu_bindings := [''ecu'' \<mapsto> Can]\<rparr>))"
  using routing_sticky[OF demo_resolve,
      of "with_doip (demo_gateway Ready) (demo_router\<lparr>ecu_bindings := [''ecu'' \<mapsto> Can]\<rparr>)"]
  by (simp add: later_def with_doip_def)

section \<open>Concurrent resolutions\<close>

text \<open>
  A task that resolves the transport of one ECU (its name in lower case): it reads the override,
  reads the binding, asks the DoIP gateway, writes the binding, and so on; other tasks may act
  between any two of these.
\<close>

datatype resolver =
    Start string
  | ReadBinding string
  | AskDoip string
  | BindDoip string
  | AskCan string
  | BindCan string
  | Resolved string transport_type
  | Failed string

record routing =
  shared :: router
  resolvers :: "nat \<Rightarrow> resolver"

abbreviation set_resolver :: "nat \<Rightarrow> resolver \<Rightarrow> routing \<Rightarrow> routing" where
  "set_resolver i p s \<equiv> s\<lparr>resolvers := (resolvers s)(i := p)\<rparr>"

inductive resolve_step :: "routing \<Rightarrow> routing \<Rightarrow> bool" where
  pinned: "resolvers s i = Start n \<Longrightarrow> transport_overrides (shared s) n = Some t \<Longrightarrow>
    resolve_step s (set_resolver i (Resolved n t) s)"
| unpinned: "resolvers s i = Start n \<Longrightarrow> transport_overrides (shared s) n = None \<Longrightarrow>
    resolve_step s (set_resolver i (ReadBinding n) s)"
| bound: "resolvers s i = ReadBinding n \<Longrightarrow> ecu_bindings (shared s) n = Some t \<Longrightarrow>
    resolve_step s (set_resolver i (Resolved n t) s)"
| unbound: "resolvers s i = ReadBinding n \<Longrightarrow> ecu_bindings (shared s) n = None \<Longrightarrow>
    resolve_step s (set_resolver i (AskDoip n) s)"
| on_doip: "resolvers s i = AskDoip n \<Longrightarrow> doip_gateway (shared s) \<noteq> None \<Longrightarrow>
    resolve_step s (set_resolver i (BindDoip n) s)"
| not_on_doip: "resolvers s i = AskDoip n \<Longrightarrow> resolve_step s (set_resolver i (AskCan n) s)"
| bind_doip: "resolvers s i = BindDoip n \<Longrightarrow> bind_transport n DoIP (shared s) = (t, r) \<Longrightarrow>
    resolve_step s (set_resolver i (Resolved n t) (s\<lparr>shared := r\<rparr>))"
| on_can: "resolvers s i = AskCan n \<Longrightarrow> can_gateway (shared s) \<noteq> None \<Longrightarrow>
    resolve_step s (set_resolver i (BindCan n) s)"
| not_on_can: "resolvers s i = AskCan n \<Longrightarrow> resolve_step s (set_resolver i (Failed n) s)"
| bind_can: "resolvers s i = BindCan n \<Longrightarrow> bind_transport n Can (shared s) = (t, r) \<Longrightarrow>
    resolve_step s (set_resolver i (Resolved n t) (s\<lparr>shared := r\<rparr>))"
| request: "resolve_step s (set_resolver i (Start n) s)"

inductive_cases resolve_stepE: "resolve_step s s'"

text \<open>Every finished resolution agrees with the table.\<close>

definition fixed_for :: "router \<Rightarrow> string \<Rightarrow> transport_type option" where
  "fixed_for r n = (case transport_overrides r n of Some t \<Rightarrow> Some t | None \<Rightarrow> ecu_bindings r n)"

definition agrees :: "router \<Rightarrow> resolver \<Rightarrow> bool" where
  "agrees r p \<longleftrightarrow>
     (case p of
        Resolved n t \<Rightarrow> fixed_for r n = Some t
      | Start n \<Rightarrow> True
      | Failed n \<Rightarrow> True
      | ReadBinding n \<Rightarrow> transport_overrides r n = None
      | AskDoip n \<Rightarrow> transport_overrides r n = None
      | BindDoip n \<Rightarrow> transport_overrides r n = None
      | AskCan n \<Rightarrow> transport_overrides r n = None
      | BindCan n \<Rightarrow> transport_overrides r n = None)"

definition consistent :: "routing \<Rightarrow> bool" where
  "consistent s \<longleftrightarrow> (\<forall>i. agrees (shared s) (resolvers s i))"

lemma agrees_later: "same_config r r' \<Longrightarrow> agrees r p \<Longrightarrow> agrees r' p"
  by (cases p) (auto simp: agrees_def same_config_def fixed_for_def split: option.splits)

lemma consistent_update:
  "consistent s \<Longrightarrow> agrees (shared s) p \<Longrightarrow> consistent (set_resolver i p s)"
  by (simp add: consistent_def)

lemma consistent_bind:
  assumes "consistent s" and "bind_transport n u (shared s) = (t, r)"
    and "transport_overrides (shared s) n = None"
  shows "consistent (set_resolver i (Resolved n t) (s\<lparr>shared := r\<rparr>))"
proof -
  note b = bind_transport_result[OF assms(2)]
  have "fixed_for r n = Some t" using b assms(3) by (simp add: fixed_for_def same_config_def)
  then show ?thesis
    using assms(1) agrees_later[OF b(2)] by (auto simp: consistent_def agrees_def[of r "Resolved n t"])
qed

lemma agrees_simps:
  "agrees r (Resolved n t) \<longleftrightarrow> fixed_for r n = Some t"
  "agrees r (Start n)" "agrees r (Failed n)"
  "agrees r (ReadBinding n) \<longleftrightarrow> transport_overrides r n = None"
  "agrees r (AskDoip n) \<longleftrightarrow> transport_overrides r n = None"
  "agrees r (BindDoip n) \<longleftrightarrow> transport_overrides r n = None"
  "agrees r (AskCan n) \<longleftrightarrow> transport_overrides r n = None"
  "agrees r (BindCan n) \<longleftrightarrow> transport_overrides r n = None"
  by (simp_all add: agrees_def)

lemma agreesD: "consistent s \<Longrightarrow> resolvers s i = p \<Longrightarrow> agrees (shared s) p"
  by (auto simp: consistent_def)

lemma consistent_step:
  assumes "resolve_step s s'" and "consistent s"
  shows "consistent s' \<and> same_config (shared s) (shared s')"
  using assms(1)
proof cases
  case (bind_doip i n t r)
  then show ?thesis
    using consistent_bind[OF assms(2) bind_doip(3)] bind_transport_result(2)[OF bind_doip(3)]
      agreesD[OF assms(2) bind_doip(2)] by (simp add: agrees_simps)
next
  case (bind_can i n t r)
  then show ?thesis
    using consistent_bind[OF assms(2) bind_can(3)] bind_transport_result(2)[OF bind_can(3)]
      agreesD[OF assms(2) bind_can(2)] by (simp add: agrees_simps)
qed (auto intro!: consistent_update[OF assms(2)] simp: agrees_simps fixed_for_def
      dest: agreesD[OF assms(2)])

interpretation routing_run: step_history resolve_step consistent "\<lambda>s s'. same_config (shared s) (shared s')"
  by unfold_locales (auto dest: consistent_step intro: same_config_trans)

text \<open>
  C31: Concurrent requests agree on the transport. However the resolutions of any number of tasks
  interleave, and whatever the gateways answer to each of them, two tasks that resolve the same
  ECU get the same transport, even if they finish at different times.
\<close>

theorem concurrent_routing_agrees:
  assumes "\<And>i. \<exists>n. resolvers s i = Start n"
    and "resolve_step\<^sup>*\<^sup>* s s1" and "resolvers s1 i = Resolved n t"
    and "resolve_step\<^sup>*\<^sup>* s1 s2" and "resolvers s2 j = Resolved n u"
  shows "t = u"
proof -
  have "consistent s"
    unfolding consistent_def using assms(1) by (metis agrees_simps(2))
  then have c1: "consistent s1" using routing_run.run_preserves[OF assms(2)] by blast
  then have c2: "consistent s2" "same_config (shared s1) (shared s2)"
    using routing_run.run_preserves[OF assms(4)] routing_run.run_history[OF assms(4)] by auto
  have "agrees (shared s2) (Resolved n t)"
    using agreesD[OF c1 assms(3)] agrees_later[OF c2(2)] by blast
  then show ?thesis using agreesD[OF c2(1) assms(5)] by (simp add: agrees_simps)
qed

text \<open>
  Two tasks that race for one ECU: the second has found the ECU on CAN and is about to bind it
  when the first binds it to DoIP.
\<close>

definition race_start :: routing where
  "race_start = \<lparr>shared = demo_router, resolvers = (\<lambda>i. Start ''ecu'')\<rparr>"

definition race_bound :: routing where
  "race_bound = \<lparr>shared = demo_router\<lparr>ecu_bindings := [''ecu'' \<mapsto> DoIP]\<rparr>,
     resolvers = (\<lambda>i. Start ''ecu'')(0 := Resolved ''ecu'' DoIP, 1 := BindCan ''ecu'')\<rparr>"

lemmas demo_router_defs = demo_router_def with_can_def with_doip_def router_new_def

lemma race_first: "resolve_step\<^sup>*\<^sup>* race_start race_bound"
proof -
  let ?s0 = race_start
  let ?s1 = "set_resolver 0 (ReadBinding ''ecu'') ?s0"
  let ?s2 = "set_resolver 0 (AskDoip ''ecu'') ?s1"
  let ?s3 = "set_resolver 0 (BindDoip ''ecu'') ?s2"
  let ?s4 = "set_resolver 1 (ReadBinding ''ecu'') ?s3"
  let ?s5 = "set_resolver 1 (AskDoip ''ecu'') ?s4"
  let ?s6 = "set_resolver 1 (AskCan ''ecu'') ?s5"
  let ?s7 = "set_resolver 1 (BindCan ''ecu'') ?s6"
  let ?r = "demo_router\<lparr>ecu_bindings := [''ecu'' \<mapsto> DoIP]\<rparr>"
  let ?s8 = "set_resolver 0 (Resolved ''ecu'' DoIP) (?s7\<lparr>shared := ?r\<rparr>)"
  have 1: "resolve_step ?s0 ?s1" by (rule unpinned) (simp_all add: race_start_def demo_router_defs)
  have 2: "resolve_step ?s1 ?s2" by (rule unbound) (simp_all add: race_start_def demo_router_defs)
  have 3: "resolve_step ?s2 ?s3" by (rule on_doip) (simp_all add: race_start_def demo_router_defs)
  have 4: "resolve_step ?s3 ?s4" by (rule unpinned) (simp_all add: race_start_def demo_router_defs)
  have 5: "resolve_step ?s4 ?s5" by (rule unbound) (simp_all add: race_start_def demo_router_defs)
  have 6: "resolve_step ?s5 ?s6" by (rule not_on_doip) simp
  have 7: "resolve_step ?s6 ?s7" by (rule on_can) (simp_all add: race_start_def demo_router_defs)
  have 8: "resolve_step ?s7 ?s8"
    by (rule bind_doip) (simp_all add: race_start_def demo_router_defs bind_transport_def or_insert_def)
  have "?s8 = race_bound" by (auto simp: race_start_def race_bound_def)
  note r = converse_rtranclp_into_rtranclp[where r = resolve_step]
  have "resolve_step\<^sup>*\<^sup>* ?s0 ?s8"
    by (rule r[OF 1 r[OF 2 r[OF 3 r[OF 4 r[OF 5 r[OF 6 r[OF 7 r[OF 8 rtranclp.rtrancl_refl]]]]]]]])
  then show ?thesis using \<open>?s8 = race_bound\<close> by simp
qed

lemma race_second:
  "resolve_step race_bound (set_resolver 1 (Resolved ''ecu'' DoIP) (race_bound\<lparr>shared := shared race_bound\<rparr>))"
  by (rule bind_can) (simp_all add: race_bound_def bind_transport_def or_insert_def)

theorem concurrent_routing_agrees_witness:
  "\<exists>s u. resolve_step\<^sup>*\<^sup>* race_bound s \<and> resolvers race_bound 0 = Resolved ''ecu'' DoIP \<and>
     resolvers s 1 = Resolved ''ecu'' u \<and> DoIP = u"
proof -
  let ?s = "set_resolver 1 (Resolved ''ecu'' DoIP) (race_bound\<lparr>shared := shared race_bound\<rparr>)"
  have s: "resolve_step\<^sup>*\<^sup>* race_bound ?s" using race_second by blast
  have 0: "resolvers race_bound 0 = Resolved ''ecu'' DoIP" by (simp add: race_bound_def)
  have start: "\<exists>n. resolvers race_start i = Start n" for i by (simp add: race_start_def)
  have u: "resolvers ?s 1 = Resolved ''ecu'' DoIP" by simp
  have "DoIP = DoIP" by (rule concurrent_routing_agrees[OF start race_first 0 s u])
  with s 0 u show ?thesis by blast
qed

end
