(* ===== verification/Tester_Present.thy ===== *)
theory Tester_Present
  imports Uds_Transport
begin

text \<open>
  The tester-present tasks that keep diagnostic sessions alive
  (\<open>cda-comm-uds/src/tester_present.rs\<close>) and the selection of the ECUs of a functional group
  (\<open>functional_group.rs\<close>). The table of running tasks is a map from ECU names; one tick of a task
  is one request through the UDS transport. The loaded ECUs are listed in the iteration order of
  their map.
\<close>

section \<open>ECUs and functional groups\<close>

record ecu_info =
  logical_address :: "16 word"
  logical_gateway_address :: "16 word"
  logical_functional_address :: "16 word"
  tester_address :: "16 word"
  is_physical_ecu :: bool
  functional_groups :: "string list"
  tester_present_time :: nat

type_synonym ecu_table = "(string \<times> ecu_info) list"

definition ecus_for_functional_group :: "ecu_table \<Rightarrow> string \<Rightarrow> bool \<Rightarrow> string list" where
  "ecus_for_functional_group ecus fg gateway_only =
     map fst (filter (\<lambda>(name, e).
       \<not> (gateway_only \<and> logical_address e \<noteq> logical_gateway_address e) \<and>
       is_physical_ecu e \<and> fg \<in> set (functional_groups e)) ecus)"

section \<open>Starting and stopping\<close>

datatype tester_present_type = TpEcu string | TpFunctional string

type_synonym tester_present_tasks = "string \<rightharpoonup> tester_present_type"

definition control_start ::
    "ecu_table \<Rightarrow> tester_present_type \<Rightarrow> string \<Rightarrow> nat option \<Rightarrow> tester_present_tasks
     \<Rightarrow> unit diag_result \<times> tester_present_tasks" where
  "control_start ecus type ecu interval tasks =
     (if tasks ecu \<noteq> None then (Inl (InvalidRequest ''A tester present is already running''), tasks)
      else case (case interval of
                   Some i \<Rightarrow> Inr i
                 | None \<Rightarrow> bindE (ok_or (map_of ecus ecu) (NotFound ''ECU not found''))
                             (\<lambda>e. Inr (tester_present_time e))) of
             Inl e \<Rightarrow> (Inl e, tasks)
           | Inr i \<Rightarrow> (Inr (), tasks(ecu \<mapsto> type)))"

definition control_stop ::
    "string \<Rightarrow> tester_present_tasks \<Rightarrow> unit diag_result \<times> tester_present_tasks" where
  "control_stop ecu tasks =
     (case tasks ecu of
        None \<Rightarrow> (Inl (InvalidRequest ''ECU has no active tester present task''), tasks)
      | Some t \<Rightarrow> (Inr (), tasks(ecu := None)))"

definition start_tester_present ::
    "ecu_table \<Rightarrow> tester_present_type \<Rightarrow> tester_present_tasks \<Rightarrow> unit diag_result \<times> tester_present_tasks"
  where
  "start_tester_present ecus type tasks =
     (case type of
        TpEcu ecu \<Rightarrow> control_start ecus type ecu None tasks
      | TpFunctional fg \<Rightarrow>
          (Inr (), fold (\<lambda>name t. snd (control_start ecus type name None t))
             (ecus_for_functional_group ecus fg True) tasks))"

definition stop_tester_present ::
    "ecu_table \<Rightarrow> tester_present_type \<Rightarrow> tester_present_tasks \<Rightarrow> unit diag_result \<times> tester_present_tasks"
  where
  "stop_tester_present ecus type tasks =
     (case type of
        TpEcu ecu \<Rightarrow> control_stop ecu tasks
      | TpFunctional fg \<Rightarrow>
          (Inr (), fold (\<lambda>name t. snd (control_stop name t))
             (ecus_for_functional_group ecus fg True) tasks))"

definition check_tester_present_active ::
    "ecu_table \<Rightarrow> tester_present_type \<Rightarrow> tester_present_tasks \<Rightarrow> bool" where
  "check_tester_present_active ecus type tasks =
     (case type of
        TpEcu ecu \<Rightarrow> tasks ecu \<noteq> None
      | TpFunctional fg \<Rightarrow>
          list_all (\<lambda>ecu. tasks ecu \<noteq> None) (ecus_for_functional_group ecus fg True))"

section \<open>One tick\<close>

definition tester_present_payload :: "tester_present_type \<Rightarrow> ecu_info \<Rightarrow> service_payload" where
  "tester_present_payload type e =
     \<lparr>payload_data = [TESTER_PRESENT, SUPPRESS_POSITIVE_RESPONSE_BIT],
      source_address = tester_address e,
      target_address = (case type of TpFunctional g \<Rightarrow> logical_functional_address e
                                   | TpEcu n \<Rightarrow> logical_address e),
      new_session = None, new_security = None\<rparr>"

definition send_tester_present ::
    "(string \<rightharpoonup> uds_parameters) \<Rightarrow> ecu_table \<Rightarrow> tester_present_type \<Rightarrow> string \<Rightarrow> bool \<Rightarrow> attempt list
     \<Rightarrow> ecu_state_coordinator \<Rightarrow> (unit diag_result \<times> ecu_state_coordinator) option" where
  "send_tester_present params ecus type ecu acquired attempts sc =
     (case map_of ecus ecu of
        None \<Rightarrow> Some (Inl (NotFound ''ECU not found''), sc)
      | Some e \<Rightarrow>
          map_option (\<lambda>(r, sc', n). ((case r of Inl x \<Rightarrow> Inl x | Inr _ \<Rightarrow> Inr ()), sc'))
            (send_with_raw_payload params ecu (tester_present_payload type e) None False acquired
               attempts sc))"

text \<open>The body of the task's loop: an ECU that is known and not online is skipped.\<close>

definition tester_present_tick ::
    "(string \<rightharpoonup> uds_parameters) \<Rightarrow> ecu_table \<Rightarrow> tester_present_type \<Rightarrow> string \<Rightarrow> bool \<Rightarrow> attempt list
     \<Rightarrow> ecu_state_coordinator \<Rightarrow> (unit diag_result \<times> ecu_state_coordinator) option" where
  "tester_present_tick params ecus type ecu acquired attempts sc =
     (if map_of ecus ecu \<noteq> None \<and>
         (case handles sc ecu of None \<Rightarrow> False | Some h \<Rightarrow> connectivity (status h) \<noteq> Online)
      then Some (Inr (), sc)
      else send_tester_present params ecus type ecu acquired attempts sc)"

section \<open>Facts\<close>

lemma control_start_active: "control_start ecus type ecu i tasks = (Inr (), tasks') \<Longrightarrow> tasks' ecu = Some type"
  by (auto simp: control_start_def split: if_splits option.splits sum.splits)

lemma control_start_keeps: "tasks n \<noteq> None \<Longrightarrow> snd (control_start ecus type ecu i tasks) n = tasks n"
  by (auto simp: control_start_def split: if_splits option.splits sum.splits)

lemma control_stop_inactive [simp]: "snd (control_stop ecu tasks) ecu = None"
  by (simp add: control_stop_def split: option.splits)

lemma control_stop_other: "n \<noteq> ecu \<Longrightarrow> snd (control_stop ecu tasks) n = tasks n"
  by (simp add: control_stop_def split: option.splits)

lemma fold_start_keeps:
  "tasks n \<noteq> None \<Longrightarrow> fold (\<lambda>name t. snd (control_start ecus type name None t)) ns tasks n = tasks n"
proof (induction ns arbitrary: tasks)
  case (Cons a ns)
  have "snd (control_start ecus type a None tasks) n = tasks n"
    by (rule control_start_keeps) (rule Cons.prems)
  then show ?case using Cons by simp
qed simp

lemma control_start_known:
  "map_of ecus ecu \<noteq> None \<Longrightarrow> snd (control_start ecus type ecu None tasks) ecu \<noteq> None"
  by (auto simp: control_start_def)

lemma fold_start_active:
  assumes "n \<in> set ns" and "\<And>m. m \<in> set ns \<Longrightarrow> map_of ecus m \<noteq> None"
  shows "fold (\<lambda>name t. snd (control_start ecus type name None t)) ns tasks n \<noteq> None"
  using assms
proof (induction ns arbitrary: tasks)
  case (Cons a ns)
  let ?t = "snd (control_start ecus type a None tasks)"
  show ?case
  proof (cases "a = n")
    case True
    then have "?t n \<noteq> None" using control_start_known[of ecus n type tasks] Cons.prems(2) by simp
    from fold_start_keeps[of ?t n, OF this] this show ?thesis by simp
  qed (use Cons in auto)
qed simp

text \<open>
  After a start of a functional group every gateway of the group has a task, and after a stop
  none has.
\<close>

lemma start_functional_active:
  "check_tester_present_active ecus (TpFunctional fg)
     (snd (start_tester_present ecus (TpFunctional fg) tasks))"
proof -
  have "map_of ecus m \<noteq> None" if "m \<in> set (ecus_for_functional_group ecus fg True)" for m
    using that by (auto simp: ecus_for_functional_group_def map_of_eq_None_iff)
  then show ?thesis
    using fold_start_active[of _ "ecus_for_functional_group ecus fg True" ecus]
    by (simp add: check_tester_present_active_def start_tester_present_def list_all_iff)
qed

lemma fold_stop:
  "fold (\<lambda>name t. snd (control_stop name t)) ns tasks n = (if n \<in> set ns then None else tasks n)"
  by (induction ns arbitrary: tasks) (auto simp: control_stop_other)

text \<open>
  A tester-present message suppresses the positive response and expects none, so a silent ECU is
  never reported as disconnected because of it.
\<close>

lemma send_loop_no_response:
  "send_loop params request sid False rx attempts st = Some (r, st', n) \<Longrightarrow> \<exists>x. r = Return x"
proof (induction attempts arbitrary: st n)
  case (Cons a attempts)
  then show ?case
    by (cases a) (auto split: prod.splits read_result.splits list.splits)
qed simp

text \<open>
  Tester present never changes what is known of an ECU. Whatever the gateway answers, a tick
  of a tester-present task leaves the connectivity, the variant and the service states of all
  ECUs as they are, and its message asks for no positive response.
\<close>

theorem tester_present_is_silent:
  assumes "tester_present_tick params ecus type ecu acquired attempts sc = Some (r, sc')"
  shows "sc' = sc \<and> is_suppress_positive_response (tester_present_payload type e)"
proof
  show "sc' = sc"
    using assms
    by (auto simp: tester_present_tick_def send_tester_present_def send_with_raw_payload_def
        split: if_splits option.splits prod.splits loop_result.splits dest!: send_loop_no_response)
  show "is_suppress_positive_response (tester_present_payload type e)"
    by (simp add: is_suppress_positive_response_def tester_present_payload_def sprmib_capable_def
        SUPPRESS_POSITIVE_RESPONSE_BIT_def)
qed

theorem tester_present_is_silent_witness:
  "is_suppress_positive_response (tester_present_payload (TpEcu ''ECU'')
     \<lparr>logical_address = 1, logical_gateway_address = 1, logical_functional_address = 2,
      tester_address = 3, is_physical_ecu = True, functional_groups = [], tester_present_time = 2000\<rparr>)"
  using tester_present_is_silent[of Map.empty "[]" "TpEcu ''ECU''" "''ECU''" True "[]" demo_coordinator
      "Inl (NotFound ''ECU not found'')" demo_coordinator]
  by (simp add: tester_present_tick_def send_tester_present_def)

end
