(* ===== verification/Sovd_Locks.thy ===== *)
theory Sovd_Locks
  imports Tester_Present Hex_Text "HOL-Library.AList"
begin

text \<open>
  The locks of the SOVD interface (\<open>cda-sovd/src/sovd/locks.rs\<close> and the functional-group handlers
  in \<open>functions/functional_groups/locks.rs\<close>): the vehicle lock, the locks of ECUs and of functional
  groups, their expiry tasks and the clean-up that ends a lock. A lock table is an association
  list in the iteration order of the map; an entry without a lock is \<open>None\<close>. A handler runs with
  the guards of the tables it uses held, so it is one step, except the functional-group \<open>post\<close>,
  whose two phases are separate definitions. Times are integers in milliseconds; a fresh lock
  identifier (\<open>Uuid::new_v4\<close>), the current time and the limit of the monotonic clock are
  arguments. The expiry tasks are a table of pending deletions; ending a task removes its entry.
\<close>

section \<open>Errors\<close>

datatype api_error =
    ApiBadRequest string
  | ApiForbidden "string option"
  | ApiNotFound "string option"
  | ApiInternalServerError "string option"
  | ApiConflict string
  | ApiNotResponding string
  | ApiInvalidParameter "string set"

type_synonym 'a api_result = "api_error + 'a"

text \<open>The message is the constant part of the error's display text.\<close>

fun api_error_from :: "diag_service_error \<Rightarrow> api_error" where
  "api_error_from (UdsLookupError m) = ApiNotFound (Some ''UDS lookup error'')"
| "api_error_from (NotFound m) = ApiNotFound (Some ''Not found'')"
| "api_error_from (InvalidParameter vs) = ApiInvalidParameter vs"
| "api_error_from (EcuOffline m) = ApiNotResponding ''Ecu offline''"
| "api_error_from Timeout = ApiNotResponding ''Timeout''"
| "api_error_from (NoResponse m) = ApiNotResponding ''No response''"
| "api_error_from (InvalidDatabase m) = ApiInternalServerError (Some ''Invalid database'')"
| "api_error_from (VariantDetectionError m) = ApiInternalServerError (Some ''Variant detection error'')"
| "api_error_from (ResourceError m) = ApiInternalServerError (Some ''Resource error'')"
| "api_error_from (ConnectionClosed m) = ApiInternalServerError (Some ''Connection closed'')"
| "api_error_from (SendFailed m) = ApiInternalServerError (Some ''Sending message failed'')"
| "api_error_from (InvalidAddress m) = ApiInternalServerError (Some m)"
| "api_error_from (UnexpectedResponse m) = ApiInternalServerError (Some ''Unexpected response.'')"
| "api_error_from (DataError d) = ApiInternalServerError (Some ''Data parse error'')"
| "api_error_from (InvalidConfiguration m) = ApiInternalServerError (Some ''Invalid configuration'')"
| "api_error_from InvalidSecurityPlugin = ApiInternalServerError (Some ''Invalid security plugin provided'')"
| "api_error_from (NotEnoughData e a) = ApiBadRequest ''Payload too short''"
| "api_error_from (InvalidRequest m) = ApiBadRequest ''Invalid request''"
| "api_error_from (Nack c) = ApiBadRequest ''Received Nack''"
| "api_error_from (ParameterConversionError m) = ApiBadRequest ''Parameter conversion error''"
| "api_error_from (BadPayload m) = ApiBadRequest ''Bad payload''"
| "api_error_from (InvalidState m) = ApiBadRequest m"
| "api_error_from UnknownOperation = ApiBadRequest ''Unknown operation''"
| "api_error_from (RequestNotSupported m) = ApiBadRequest ''Request not supported''"
| "api_error_from (AmbiguousParameters n cs) = ApiBadRequest ''Unable to find a unique value''"
| "api_error_from (AccessDenied m) = ApiForbidden (Some ''Access denied'')"

section \<open>State\<close>

record lock =
  lock_id :: string
  expiration :: int
  owner :: string
  deletion_task :: nat

type_synonym lock_table = "(string \<times> lock option) list"

datatype lock_type = Vehicle | Ecu | FunctionalGroup

record timer =
  timer_type :: lock_type
  timer_entity :: "string option"
  timer_lock_id :: string
  fire_at :: int

datatype uds_call = ResetSession string | ResetSecurityAccess string

record lock_state =
  vehicle :: "lock option"
  ecu :: lock_table
  functional_group :: lock_table
  timers :: "nat \<rightharpoonup> timer"
  next_task :: nat
  tp_tasks :: tester_present_tasks
  uds_calls :: "uds_call list"

definition locks_new :: "string list \<Rightarrow> lock_state" where
  "locks_new ecu_names =
     \<lparr>vehicle = None, ecu = map (\<lambda>n. (n, None)) ecu_names, functional_group = [],
      timers = Map.empty, next_task = 0, tp_tasks = Map.empty, uds_calls = []\<rparr>"

definition is_owned_by :: "lock \<Rightarrow> string \<Rightarrow> bool" where
  "is_owned_by l sub \<longleftrightarrow> owner l = sub"

definition held :: "lock_table \<Rightarrow> (string \<times> lock) list" where
  "held t = List.map_filter (\<lambda>(n, l). map_option (Pair n) l) t"

definition is_any_locked :: "lock_table \<Rightarrow> bool" where
  "is_any_locked t \<longleftrightarrow> list_ex (\<lambda>(n, l). l \<noteq> None) t"

definition lock_of :: "lock_table \<Rightarrow> string \<Rightarrow> lock option" where
  "lock_of t n = (case map_of t n of None \<Rightarrow> None | Some l \<Rightarrow> l)"

text \<open>The table of a lock type, for the two types that have one.\<close>

definition table :: "lock_type \<Rightarrow> lock_state \<Rightarrow> lock_table" where
  "table k st = (case k of FunctionalGroup \<Rightarrow> functional_group st | _ \<Rightarrow> ecu st)"

definition set_table :: "lock_type \<Rightarrow> lock_table \<Rightarrow> lock_state \<Rightarrow> lock_state" where
  "set_table k t st =
     (case k of FunctionalGroup \<Rightarrow> st\<lparr>functional_group := t\<rparr> | _ \<Rightarrow> st\<lparr>ecu := t\<rparr>)"

text \<open>\<open>WriteLock::get_mut\<close>: the entry is created when it is missing.\<close>

definition get_mut :: "lock_type \<Rightarrow> string option \<Rightarrow> lock_state \<Rightarrow> (lock option \<times> lock_state) api_result" where
  "get_mut k entity st =
     (case k of
        Vehicle \<Rightarrow> Inr (vehicle st, st)
      | _ \<Rightarrow> (case entity of
            None \<Rightarrow> Inl (ApiNotFound (Some ''lock does not exist''))
          | Some n \<Rightarrow>
              (case map_of (table k st) n of
                 Some l \<Rightarrow> Inr (l, st)
               | None \<Rightarrow> Inr (None, set_table k (table k st @ [(n, None)]) st))))"

definition put_lock :: "lock_type \<Rightarrow> string option \<Rightarrow> lock option \<Rightarrow> lock_state \<Rightarrow> lock_state" where
  "put_lock k entity l st =
     (case k of
        Vehicle \<Rightarrow> st\<lparr>vehicle := l\<rparr>
      | _ \<Rightarrow> (case entity of
            None \<Rightarrow> st
          | Some n \<Rightarrow> set_table k (AList.update n l (table k st)) st))"

definition abort :: "nat \<Rightarrow> lock_state \<Rightarrow> lock_state" where
  "abort h st = st\<lparr>timers := (timers st)(h := None)\<rparr>"

section \<open>Ending a lock\<close>

definition reset_ecu_session_and_security :: "string \<Rightarrow> lock_state \<Rightarrow> lock_state" where
  "reset_ecu_session_and_security n st =
     st\<lparr>uds_calls := uds_calls st @ [ResetSession n, ResetSecurityAccess n]\<rparr>"

definition cleanup_ecu :: "ecu_table \<Rightarrow> string \<Rightarrow> lock_state \<Rightarrow> lock_state" where
  "cleanup_ecu ecus n st =
     (let n' = to_ascii_lowercase n in
      reset_ecu_session_and_security n'
        (st\<lparr>tp_tasks := snd (stop_tester_present ecus (TpEcu n') (tp_tasks st))\<rparr>))"

definition cleanup_functional_group :: "ecu_table \<Rightarrow> string \<Rightarrow> lock_state \<Rightarrow> lock_state" where
  "cleanup_functional_group ecus n st =
     (let n' = to_ascii_lowercase n in
      fold reset_ecu_session_and_security (ecus_for_functional_group ecus n' False)
        (st\<lparr>tp_tasks := snd (stop_tester_present ecus (TpFunctional n') (tp_tasks st))\<rparr>))"

definition cleanup_entity :: "ecu_table \<Rightarrow> lock_type \<Rightarrow> string \<Rightarrow> lock_state \<Rightarrow> lock_state" where
  "cleanup_entity ecus k n st =
     (case k of FunctionalGroup \<Rightarrow> cleanup_functional_group ecus n st | _ \<Rightarrow> cleanup_ecu ecus n st)"

text \<open>\<open>WriteLock::delete\<close> on a table.\<close>

definition delete_entity ::
    "ecu_table \<Rightarrow> lock_type \<Rightarrow> string \<Rightarrow> lock_state \<Rightarrow> unit api_result \<times> lock_state" where
  "delete_entity ecus k n st =
     (case map_of (table k st) n of
        None \<Rightarrow> (Inl (ApiNotFound (Some ''cannot delete, no entity is not locked'')), st)
      | Some l \<Rightarrow>
          let st1 = set_table k (AList.delete n (table k st)) st in
          (Inr (), case l of None \<Rightarrow> st1 | Some _ \<Rightarrow> cleanup_entity ecus k n st1))"

lemma table_frame [simp]:
  "table k (reset_ecu_session_and_security n st) = table k st"
  "table k (abort h st) = table k st"
  "table k (st\<lparr>tp_tasks := x\<rparr>) = table k st"
  "table k (st\<lparr>uds_calls := y\<rparr>) = table k st"
  by (simp_all add: table_def reset_ecu_session_and_security_def abort_def split: lock_type.splits)

lemma table_fold_reset [simp]: "table k (fold reset_ecu_session_and_security ns st) = table k st"
  by (induction ns arbitrary: st) simp_all

lemma table_cleanup [simp]: "table k (cleanup_entity ecus k' n st) = table k st"
  by (simp add: cleanup_entity_def cleanup_ecu_def cleanup_functional_group_def Let_def
      split: lock_type.splits)

lemma table_set_table [simp]: "k \<noteq> Vehicle \<Longrightarrow> table k (set_table k t st) = t"
  by (simp add: table_def set_table_def split: lock_type.splits)

text \<open>
  The loop of the vehicle clean-up over one table: find a held lock, end its task, delete it.
\<close>

function release_all :: "ecu_table \<Rightarrow> lock_type \<Rightarrow> lock_state \<Rightarrow> lock_state" where
  "release_all ecus k st =
     (if k = Vehicle then st
      else case held (table k st) of
        [] \<Rightarrow> st
      | (n, l) # _ \<Rightarrow> release_all ecus k (snd (delete_entity ecus k n (abort (deletion_task l) st))))"
  by pat_completeness auto

lemma held_mem: "(n, l) \<in> set (held t) \<longleftrightarrow> (n, Some l) \<in> set t"
  by (auto simp: held_def List.map_filter_def split: option.splits) force

lemma length_AList_delete: "(n, x) \<in> set t \<Longrightarrow> length (AList.delete n t) < length t"
  by (induction t) (auto simp: le_imp_less_Suc AList.length_delete_le)

lemma delete_entity_table:
  assumes "k \<noteq> Vehicle" and "map_of (table k st) n \<noteq> None"
  shows "table k (snd (delete_entity ecus k n st)) = AList.delete n (table k st)"
  using assms by (auto simp: delete_entity_def Let_def split: option.splits)

lemma map_of_held: "(n, l) \<in> set (held t) \<Longrightarrow> map_of t n \<noteq> None"
  by (auto simp: held_mem map_of_eq_None_iff) force

termination release_all
proof (relation "measure (\<lambda>(ecus, k, st). length (table k st))")
  fix ecus k st p rest n l
  assume a: "k \<noteq> Vehicle" "held (table k st) = p # rest" "(n, l) = p"
  then have m: "(n, l) \<in> set (held (table k st))" by auto
  then have "map_of (table k st) n \<noteq> None" by (rule map_of_held)
  then have "table k (snd (delete_entity ecus k n (abort (deletion_task l) st))) =
      AList.delete n (table k st)"
    using a(1) delete_entity_table[of k "abort (deletion_task l) st" n ecus] by simp
  moreover have "length (AList.delete n (table k st)) < length (table k st)"
    using m length_AList_delete by (auto simp: held_mem)
  ultimately show "((ecus, k, snd (delete_entity ecus k n (abort (deletion_task l) st))), ecus, k, st)
      \<in> measure (\<lambda>(ecus, k, st). length (table k st))"
    by simp
qed simp

declare release_all.simps [simp del]

definition cleanup_vehicle :: "ecu_table \<Rightarrow> lock_state \<Rightarrow> lock_state" where
  "cleanup_vehicle ecus st =
     release_all ecus FunctionalGroup (release_all ecus Ecu
       (fold reset_ecu_session_and_security (map fst ecus) st))"

definition delete_locked ::
    "ecu_table \<Rightarrow> lock_type \<Rightarrow> string option \<Rightarrow> lock_state \<Rightarrow> unit api_result \<times> lock_state" where
  "delete_locked ecus k entity st =
     (case k of
        Vehicle \<Rightarrow>
          (Inr (), case vehicle st of
             None \<Rightarrow> st
           | Some _ \<Rightarrow> cleanup_vehicle ecus (st\<lparr>vehicle := None\<rparr>))
      | _ \<Rightarrow> (case entity of
            None \<Rightarrow> (Inl (ApiBadRequest ''cannot delete, no entity name provided''), st)
          | Some n \<Rightarrow> delete_entity ecus k n st))"

section \<open>Claims\<close>

definition validate_claim :: "string option \<Rightarrow> string \<Rightarrow> lock option \<Rightarrow> unit api_result" where
  "validate_claim lid sub lock_opt =
     (case lock_opt of
        None \<Rightarrow> Inr ()
      | Some l \<Rightarrow>
          if sub \<noteq> owner l \<or> (case lid of None \<Rightarrow> False | Some i \<Rightarrow> i \<noteq> lock_id l)
          then Inl (ApiForbidden (Some ''lock validation failed'')) else Inr ())"

definition all_locks_owned :: "lock_table \<Rightarrow> string \<Rightarrow> unit api_result" where
  "all_locks_owned t sub = for_each (\<lambda>(n, l) _. validate_claim None sub l) t ()"

definition vehicle_read_lock :: "lock_state \<Rightarrow> string \<Rightarrow> unit api_result" where
  "vehicle_read_lock st sub = validate_claim None sub (vehicle st)"

record sovd_lock =
  sovd_id :: string
  owned :: "bool option"

definition to_sovd_lock :: "string \<Rightarrow> lock \<Rightarrow> sovd_lock" where
  "to_sovd_lock sub l = \<lparr>sovd_id = lock_id l, owned = Some (sub = owner l)\<rparr>"

definition get_locks :: "string \<Rightarrow> lock_type \<Rightarrow> string option \<Rightarrow> lock_state \<Rightarrow> sovd_lock list" where
  "get_locks sub k entity st =
     (case k of
        Vehicle \<Rightarrow> (case vehicle st of None \<Rightarrow> [] | Some l \<Rightarrow> [to_sovd_lock sub l])
      | _ \<Rightarrow> map (\<lambda>(n, l). to_sovd_lock sub l) (held (filter (\<lambda>(n, l). entity = Some n) (table k st))))"

text \<open>\<open>None\<close> grants access, \<open>Some\<close> is the response that refuses it.\<close>

definition refusal :: "unit api_result \<Rightarrow> api_error option" where
  "refusal r = (case r of Inl e \<Rightarrow> Some e | Inr _ \<Rightarrow> None)"

definition validate_lock :: "string \<Rightarrow> string \<Rightarrow> lock_state \<Rightarrow> api_error option" where
  "validate_lock sub name st =
     (if get_locks sub Ecu (Some name) st = [] \<and> get_locks sub Vehicle None st = []
      then Some (ApiForbidden (Some ''Required ECU lock is missing''))
      else case validate_claim None sub (vehicle st) of
        Inl e \<Rightarrow> Some e
      | Inr _ \<Rightarrow> refusal (bindE (all_locks_owned (ecu st) sub) (\<lambda>_. all_locks_owned (ecu st) sub)))"

definition validate_fg_lock :: "string \<Rightarrow> string \<Rightarrow> lock_state \<Rightarrow> api_error option" where
  "validate_fg_lock sub fg_name st =
     (if get_locks sub FunctionalGroup (Some fg_name) st = [] \<and> get_locks sub Vehicle None st = []
      then Some (ApiForbidden (Some ''Required functional group lock is missing''))
      else case validate_claim None sub (vehicle st) of
        Inl e \<Rightarrow> Some e
      | Inr _ \<Rightarrow> refusal (all_locks_owned (functional_group st) sub))"

section \<open>Creating and updating\<close>

text \<open>The clocks: the current time, and whether an expiry is too far for the monotonic clock.\<close>

record clock =
  now :: int
  too_far :: "int \<Rightarrow> bool"

definition schedule_token_deletion ::
    "clock \<Rightarrow> lock_type \<Rightarrow> string option \<Rightarrow> string \<Rightarrow> int \<Rightarrow> lock_state \<Rightarrow> nat api_result \<times> lock_state" where
  "schedule_token_deletion c k entity lid expires st =
     (if expires - now c < 0 then (Inl (ApiBadRequest ''expiration date is in the past''), st)
      else let secs = (expires - now c) div 1000 in
        if too_far c secs then (Inl (ApiInternalServerError (Some ''Timeout is too large'')), st)
        else (Inr (next_task st),
              st\<lparr>timers := (timers st)(next_task st \<mapsto>
                   \<lparr>timer_type = k, timer_entity = entity, timer_lock_id = lid,
                    fire_at = now c + secs * 1000\<rparr>),
                 next_task := Suc (next_task st)\<rparr>))"

text \<open>Starting the tester-present task a new lock needs.\<close>

definition start_for_lock ::
    "ecu_table \<Rightarrow> lock_type \<Rightarrow> string option \<Rightarrow> lock_state \<Rightarrow> unit api_result \<times> lock_state" where
  "start_for_lock ecus k entity st =
     (case k of
        Vehicle \<Rightarrow> (Inr (), st)
      | Ecu \<Rightarrow> (case entity of
            None \<Rightarrow> (Inl (ApiBadRequest ''No ECU name provided''), st)
          | Some n \<Rightarrow>
              let t = TpEcu (to_ascii_lowercase n) in
              if check_tester_present_active ecus t (tp_tasks st) then (Inr (), st)
              else (case start_tester_present ecus t (tp_tasks st) of
                  (Inl e, tp) \<Rightarrow> (Inl (api_error_from e), st\<lparr>tp_tasks := tp\<rparr>)
                | (Inr _, tp) \<Rightarrow> (Inr (), st\<lparr>tp_tasks := tp\<rparr>)))
      | FunctionalGroup \<Rightarrow> (case entity of
            None \<Rightarrow> (Inl (ApiBadRequest ''No functional group name provided''), st)
          | Some n \<Rightarrow>
              (case start_tester_present ecus (TpFunctional (to_ascii_lowercase n)) (tp_tasks st) of
                 (Inl e, tp) \<Rightarrow> (Inl (api_error_from e), st\<lparr>tp_tasks := tp\<rparr>)
               | (Inr _, tp) \<Rightarrow> (Inr (), st\<lparr>tp_tasks := tp\<rparr>))))"

definition create_lock ::
    "clock \<Rightarrow> ecu_table \<Rightarrow> int \<Rightarrow> lock_type \<Rightarrow> string option \<Rightarrow> string \<Rightarrow> string \<Rightarrow> lock_state
     \<Rightarrow> lock api_result \<times> lock_state" where
  "create_lock c ecus expires k entity sub uuid st =
     (if expires < now c then (Inl (ApiBadRequest ''Expiration date is in the past''), st)
      else case schedule_token_deletion c k entity uuid expires st of
        (Inl e, st1) \<Rightarrow> (Inl e, st1)
      | (Inr task, st1) \<Rightarrow>
          (case start_for_lock ecus k entity st1 of
             (Inl e, st2) \<Rightarrow> (Inl e, st2)
           | (Inr _, st2) \<Rightarrow>
               (Inr \<lparr>lock_id = uuid, expiration = expires, owner = sub, deletion_task = task\<rparr>, st2)))"

definition update_lock ::
    "clock \<Rightarrow> string \<Rightarrow> string \<Rightarrow> lock option \<Rightarrow> int \<Rightarrow> string option \<Rightarrow> lock_type \<Rightarrow> lock_state
     \<Rightarrow> sovd_lock api_result \<times> lock_state" where
  "update_lock c lid sub entity_lock expires entity k st =
     (case validate_claim (Some lid) sub entity_lock of
        Inl e \<Rightarrow> (Inl e, st)
      | Inr _ \<Rightarrow> (case entity_lock of
            None \<Rightarrow> (Inl (ApiConflict ''No lock found''), st)
          | Some l \<Rightarrow>
              (case schedule_token_deletion c k entity (lock_id l) expires (abort (deletion_task l) st) of
                 (Inl e, st1) \<Rightarrow> (Inl e, st1)
               | (Inr task, st1) \<Rightarrow>
                   (Inr \<lparr>sovd_id = lock_id l, owned = None\<rparr>,
                    put_lock k entity (Some (l\<lparr>deletion_task := task, expiration := expires\<rparr>)) st1))))"

section \<open>Handlers\<close>

datatype response = Created sovd_lock | NoContent | Locks "sovd_lock list" | Expires int | Error api_error

definition post_handler ::
    "clock \<Rightarrow> ecu_table \<Rightarrow> lock_type \<Rightarrow> string option \<Rightarrow> int \<Rightarrow> string \<Rightarrow> string \<Rightarrow> lock_state
     \<Rightarrow> response \<times> lock_state" where
  "post_handler c ecus k entity expires sub uuid st =
     (case get_mut k entity st of
        Inl e \<Rightarrow> (Error e, st)
      | Inr (Some l, st1) \<Rightarrow>
          (case update_lock c (lock_id l) sub (Some l) expires entity k st1 of
             (Inl e, st2) \<Rightarrow> (Error e, st2)
           | (Inr r, st2) \<Rightarrow> (Created r, st2))
      | Inr (None, st1) \<Rightarrow>
          (case create_lock c ecus expires k entity sub uuid st1 of
             (Inl e, st2) \<Rightarrow> (Error e, st2)
           | (Inr l, st2) \<Rightarrow>
               (Created \<lparr>sovd_id = lock_id l, owned = None\<rparr>, put_lock k entity (Some l) st2)))"

definition put_handler ::
    "clock \<Rightarrow> lock_type \<Rightarrow> string \<Rightarrow> string \<Rightarrow> string option \<Rightarrow> int \<Rightarrow> lock_state \<Rightarrow> response \<times> lock_state" where
  "put_handler c k lid sub entity expires st =
     (case get_mut k entity st of
        Inl e \<Rightarrow> (Error e, st)
      | Inr (l, st1) \<Rightarrow>
          (case update_lock c lid sub l expires entity k st1 of
             (Inl e, st2) \<Rightarrow> (Error e, st2)
           | (Inr r, st2) \<Rightarrow> (NoContent, st2)))"

definition delete_lock ::
    "ecu_table \<Rightarrow> lock_type \<Rightarrow> string \<Rightarrow> string \<Rightarrow> string option \<Rightarrow> lock_state
     \<Rightarrow> unit api_result \<times> lock_state" where
  "delete_lock ecus k lid sub entity st =
     (case get_mut k entity st of
        Inl e \<Rightarrow> (Inl e, st)
      | Inr (entity_lock, st1) \<Rightarrow>
          (case validate_claim (Some lid) sub entity_lock of
             Inl e \<Rightarrow> (Inl e, st1)
           | Inr _ \<Rightarrow> (case entity_lock of
                 None \<Rightarrow> (Inl (ApiNotFound (Some ''No lock found'')), st1)
               | Some l \<Rightarrow> delete_locked ecus k entity (abort (deletion_task l) st1))))"

definition delete_handler ::
    "ecu_table \<Rightarrow> lock_type \<Rightarrow> string \<Rightarrow> string \<Rightarrow> string option \<Rightarrow> lock_state \<Rightarrow> response \<times> lock_state" where
  "delete_handler ecus k lid sub entity st =
     (case delete_lock ecus k lid sub entity st of
        (Inr _, st') \<Rightarrow> (NoContent, st')
      | (Inl e, st') \<Rightarrow> (Error e, st'))"

definition get_handler :: "lock_type \<Rightarrow> string \<Rightarrow> string option \<Rightarrow> lock_state \<Rightarrow> response" where
  "get_handler k sub entity st = Locks (get_locks sub k entity st)"

text \<open>\<open>ReadLock::get\<close> does not look at the identifier of the vehicle lock.\<close>

definition read_lock_get :: "lock_type \<Rightarrow> string option \<Rightarrow> string option \<Rightarrow> lock_state \<Rightarrow> lock option" where
  "read_lock_get k key lid st =
     (case k of
        Vehicle \<Rightarrow> vehicle st
      | _ \<Rightarrow> (case key of
            None \<Rightarrow> None
          | Some n \<Rightarrow> (case lock_of (table k st) n of
                None \<Rightarrow> None
              | Some l \<Rightarrow> if lid = None \<or> lid = Some (lock_id l) then Some l else None)))"

definition get_id_handler :: "lock_type \<Rightarrow> string \<Rightarrow> string option \<Rightarrow> lock_state \<Rightarrow> response" where
  "get_id_handler k lid entity st =
     (case read_lock_get k entity (Some lid) st of
        Some l \<Rightarrow> Expires (expiration l)
      | None \<Rightarrow> Error (ApiNotFound (Some ''no lock found with id'')))"

definition ecu_post ::
    "clock \<Rightarrow> ecu_table \<Rightarrow> string \<Rightarrow> int \<Rightarrow> string \<Rightarrow> string \<Rightarrow> lock_state \<Rightarrow> response \<times> lock_state" where
  "ecu_post c ecus name expires sub uuid st =
     (case vehicle_read_lock st sub of
        Inl e \<Rightarrow> (Error e, st)
      | Inr _ \<Rightarrow>
          if is_any_locked (functional_group st)
          then (Error (ApiConflict ''functional lock prevents setting ecu lock''), st)
          else post_handler c ecus Ecu (Some name) expires sub uuid st)"

definition vehicle_post ::
    "clock \<Rightarrow> ecu_table \<Rightarrow> int \<Rightarrow> string \<Rightarrow> string \<Rightarrow> lock_state \<Rightarrow> response \<times> lock_state" where
  "vehicle_post c ecus expires sub uuid st =
     (case validate_claim None sub (vehicle st) of
        Inl e \<Rightarrow> (Error e, st)
      | Inr _ \<Rightarrow> (case all_locks_owned (ecu st) sub of
            Inl e \<Rightarrow> (Error e, st)
          | Inr _ \<Rightarrow> (case all_locks_owned (functional_group st) sub of
                Inl e \<Rightarrow> (Error e, st)
              | Inr _ \<Rightarrow> post_handler c ecus Vehicle None expires sub uuid st)))"

text \<open>
  The functional-group \<open>post\<close> first collects the ECU locks of the group that the caller holds,
  then deletes them one by one and takes the group lock.
\<close>

definition fg_collect_step ::
    "ecu_table \<Rightarrow> string \<Rightarrow> string \<Rightarrow> string \<times> lock option \<Rightarrow> (string \<times> string) list
     \<Rightarrow> (string \<times> string) list api_result" where
  "fg_collect_step ecus fg_name sub entry acc =
     (case entry of (n, l) \<Rightarrow>
       (case map_of ecus n of
          None \<Rightarrow> Inl (api_error_from (NotFound ''ECU not found''))
        | Some e \<Rightarrow>
            if fg_name \<notin> set (functional_groups e) then Inr acc
            else (case l of
                None \<Rightarrow> Inr acc
              | Some l \<Rightarrow>
                  if \<not> is_owned_by l sub
                  then Inl (ApiConflict ''ECU is locked by different user'')
                  else Inr (acc @ [(n, lock_id l)]))))"

definition fg_collect ::
    "ecu_table \<Rightarrow> string \<Rightarrow> string \<Rightarrow> lock_state \<Rightarrow> (string \<times> string) list api_result" where
  "fg_collect ecus fg_name sub st =
     bindE (vehicle_read_lock st sub) (\<lambda>_. for_each (fg_collect_step ecus fg_name sub) (ecu st) [])"

fun fg_delete_all ::
    "ecu_table \<Rightarrow> string \<Rightarrow> (string \<times> string) list \<Rightarrow> lock_state \<Rightarrow> unit api_result \<times> lock_state" where
  "fg_delete_all ecus sub [] st = (Inr (), st)"
| "fg_delete_all ecus sub ((n, lid) # rest) st =
     (case delete_lock ecus Ecu lid sub (Some n) st of
        (Inl e, st') \<Rightarrow> (Inl e, st')
      | (Inr _, st') \<Rightarrow> fg_delete_all ecus sub rest st')"

definition fg_finish ::
    "clock \<Rightarrow> ecu_table \<Rightarrow> string \<Rightarrow> int \<Rightarrow> string \<Rightarrow> string \<Rightarrow> (string \<times> string) list \<Rightarrow> lock_state
     \<Rightarrow> response \<times> lock_state" where
  "fg_finish c ecus fg_name expires sub uuid own st =
     (case fg_delete_all ecus sub own st of
        (Inl e, st') \<Rightarrow> (Error e, st')
      | (Inr _, st') \<Rightarrow> post_handler c ecus FunctionalGroup (Some fg_name) expires sub uuid st')"

text \<open>The expiry task: it deletes the lock only if it is still the one it was started for.\<close>

definition fire_timer :: "ecu_table \<Rightarrow> nat \<Rightarrow> lock_state \<Rightarrow> lock_state" where
  "fire_timer ecus h st =
     (case timers st h of
        None \<Rightarrow> st
      | Some t \<Rightarrow>
          let st0 = abort h st in
          (case get_mut (timer_type t) (timer_entity t) st0 of
             Inl e \<Rightarrow> st0
           | Inr (None, st1) \<Rightarrow> st1
           | Inr (Some l, st1) \<Rightarrow>
               if lock_id l = timer_lock_id t
               then snd (delete_locked ecus (timer_type t) (timer_entity t) st1) else st1))"

datatype lock_update_error = EcuLocksHeld | FunctionalGroupLocksHeld

definition update_entries :: "string list \<Rightarrow> lock_state \<Rightarrow> (lock_update_error + unit) \<times> lock_state" where
  "update_entries names st =
     (if is_any_locked (functional_group st) then (Inl FunctionalGroupLocksHeld, st)
      else if is_any_locked (ecu st) then (Inl EcuLocksHeld, st)
      else let kept = filter (\<lambda>(n, l). n \<in> set names) (ecu st) in
        (Inr (), st\<lparr>ecu := fold (\<lambda>n t. if map_of t n = None then t @ [(n, None)] else t) names kept\<rparr>))"

end
