(* ===== verification/Sovd_Lock_Safety.thy ===== *)
theory Sovd_Lock_Safety
  imports Sovd_Locks Step_Invariant
begin

text \<open>
  What the SOVD locks guarantee: access is granted to one client at a time, a client's requests
  leave the locks of other clients alone, the holder of the vehicle lock holds every other lock,
  and an expired ECU lock is cleaned up. Two theorems at the end record where the code does less
  than it means to.
\<close>

section \<open>Tables\<close>

definition keys_distinct :: "lock_state \<Rightarrow> bool" where
  "keys_distinct st \<longleftrightarrow> distinct (map fst (ecu st)) \<and> distinct (map fst (functional_group st))"

lemma held_append_None [simp]: "held (t @ [(n, None)]) = held t"
  by (simp add: held_def List.map_filter_def)

lemma held_AList_delete: "(m, l) \<in> set (held (AList.delete n t)) \<longleftrightarrow> m \<noteq> n \<and> (m, l) \<in> set (held t)"
  by (auto simp: held_mem AList.delete_eq)

lemma held_AList_update:
  assumes "distinct (map fst t)"
  shows "(m, l) \<in> set (held (AList.update n (Some x) t)) \<longleftrightarrow>
    (m = n \<and> l = x) \<or> (m \<noteq> n \<and> (m, l) \<in> set (held t))"
proof -
  have d: "distinct (map fst (AList.update n (Some x) t))" using assms by (rule AList.distinct_update)
  have "(m, Some l) \<in> set (AList.update n (Some x) t) \<longleftrightarrow> map_of (AList.update n (Some x) t) m = Some (Some l)"
    using d by (simp add: map_of_eq_Some_iff)
  also have "\<dots> \<longleftrightarrow> (if m = n then Some x = Some l else map_of t m = Some (Some l))"
    by (simp add: AList.update_conv)
  also have "\<dots> \<longleftrightarrow> (m = n \<and> l = x) \<or> (m \<noteq> n \<and> (m, Some l) \<in> set t)"
    using assms by (auto simp: map_of_eq_Some_iff)
  finally show ?thesis by (simp add: held_mem)
qed

lemma lock_of_held: "distinct (map fst t) \<Longrightarrow> lock_of t n = Some l \<longleftrightarrow> (n, l) \<in> set (held t)"
proof -
  assume d: "distinct (map fst t)"
  have "lock_of t n = Some l \<longleftrightarrow> map_of t n = Some (Some l)"
    by (auto simp: lock_of_def split: option.splits)
  then show ?thesis using d by (simp add: held_mem map_of_eq_Some_iff)
qed

lemma all_locks_owned_iff:
  "all_locks_owned t sub = Inr () \<longleftrightarrow> (\<forall>(n, l) \<in> set (held t). owner l = sub)"
proof (induction t)
  case (Cons e t)
  obtain n l where e: "e = (n, l)" by fastforce
  have "all_locks_owned (e # t) sub = bindE (validate_claim None sub l) (\<lambda>_. all_locks_owned t sub)"
    by (simp add: all_locks_owned_def e)
  then show ?case
    using Cons by (cases l) (auto simp: e validate_claim_def held_def List.map_filter_simps)
qed (simp add: all_locks_owned_def held_def List.map_filter_def)

lemma validate_claim_iff:
  "validate_claim lid sub lo = Inr () \<longleftrightarrow>
   (\<forall>l. lo = Some l \<longrightarrow> owner l = sub \<and> (\<forall>i. lid = Some i \<longrightarrow> i = lock_id l))"
  by (auto simp: validate_claim_def split: option.splits)

section \<open>Access\<close>

lemma get_locks_empty:
  "get_locks sub Ecu (Some n) st = [] \<longleftrightarrow> (\<forall>l. (n, l) \<notin> set (held (ecu st)))"
  "get_locks sub Vehicle e st = [] \<longleftrightarrow> vehicle st = None"
  "get_locks sub FunctionalGroup (Some n) st = [] \<longleftrightarrow> (\<forall>l. (n, l) \<notin> set (held (functional_group st)))"
proof -
  have h: "held (filter (\<lambda>(m, l). Some n = Some m) t) = [] \<longleftrightarrow> (\<forall>l. (n, l) \<notin> set (held t))" for t
  proof
    assume a: "held (filter (\<lambda>(m, l). Some n = Some m) t) = []"
    show "\<forall>l. (n, l) \<notin> set (held t)"
    proof (intro allI notI)
      fix l assume "(n, l) \<in> set (held t)"
      then have "(n, l) \<in> set (held (filter (\<lambda>(m, l). Some n = Some m) t))" by (simp add: held_mem)
      with a show False by simp
    qed
  next
    assume a: "\<forall>l. (n, l) \<notin> set (held t)"
    have "(m, l) \<notin> set (held (filter (\<lambda>(m, l). Some n = Some m) t))" for m l
      using a by (auto simp: held_mem)
    then show "held (filter (\<lambda>(m, l). Some n = Some m) t) = []"
      by (metis list.set_intros(1) neq_Nil_conv surj_pair)
  qed
  show "get_locks sub Ecu (Some n) st = [] \<longleftrightarrow> (\<forall>l. (n, l) \<notin> set (held (ecu st)))"
    "get_locks sub FunctionalGroup (Some n) st = [] \<longleftrightarrow> (\<forall>l. (n, l) \<notin> set (held (functional_group st)))"
    using h by (simp_all add: get_locks_def table_def)
  show "get_locks sub Vehicle e st = [] \<longleftrightarrow> vehicle st = None"
    by (simp add: get_locks_def split: option.splits)
qed

lemma validate_lock_None:
  "validate_lock sub n st = None \<longleftrightarrow>
   ((\<exists>l. (n, l) \<in> set (held (ecu st))) \<or> vehicle st \<noteq> None) \<and>
   (\<forall>v. vehicle st = Some v \<longrightarrow> owner v = sub) \<and> (\<forall>(m, l) \<in> set (held (ecu st)). owner l = sub)"
proof -
  have "refusal (bindE (all_locks_owned (ecu st) sub) (\<lambda>_. all_locks_owned (ecu st) sub)) = None \<longleftrightarrow>
      all_locks_owned (ecu st) sub = Inr ()"
    by (cases "all_locks_owned (ecu st) sub") (simp_all add: refusal_def)
  moreover have "validate_claim None sub (vehicle st) = Inr () \<longleftrightarrow>
      (\<forall>v. vehicle st = Some v \<longrightarrow> owner v = sub)" by (simp add: validate_claim_iff)
  ultimately show ?thesis
    unfolding validate_lock_def get_locks_empty all_locks_owned_iff[symmetric]
    by (cases "validate_claim None sub (vehicle st)") auto
qed

text \<open>
  C32: Access to an ECU is exclusive. Access is granted only to a client that holds the lock of the
  ECU or the vehicle lock, and two different clients are never granted access to the same ECU in
  the same state.
\<close>

theorem access_exclusive:
  assumes "validate_lock sub n st = None"
  shows "(\<exists>l. ((n, l) \<in> set (held (ecu st)) \<or> vehicle st = Some l) \<and> owner l = sub) \<and>
    (\<forall>sub'. validate_lock sub' n st = None \<longrightarrow> sub' = sub)"
  using assms unfolding validate_lock_None by (auto; blast)

section \<open>Requests of clients and expiry\<close>

text \<open>
  A request of the client \<open>sub\<close>. The second phase of a functional-group \<open>post\<close> runs with the
  read guard of the vehicle lock still held, so the claim checked in the first phase holds.
\<close>

inductive client_step :: "ecu_table \<Rightarrow> string \<Rightarrow> lock_state \<Rightarrow> lock_state \<Rightarrow> bool" for ecus sub where
  ecu_post: "client_step ecus sub st (snd (ecu_post c ecus n expires sub uuid st))"
| vehicle_post: "client_step ecus sub st (snd (vehicle_post c ecus expires sub uuid st))"
| fg_post: "vehicle_read_lock st sub = Inr () \<Longrightarrow>
    client_step ecus sub st (snd (fg_finish c ecus n expires sub uuid own st))"
| put: "client_step ecus sub st (snd (put_handler c k lid sub entity expires st))"
| delete: "client_step ecus sub st (snd (delete_handler ecus k lid sub entity st))"

inductive lock_step :: "ecu_table \<Rightarrow> lock_state \<Rightarrow> lock_state \<Rightarrow> bool" for ecus where
  client: "client_step ecus sub st st' \<Longrightarrow> lock_step ecus st st'"
| expiry: "lock_step ecus st (fire_timer ecus h st)"
| reload: "lock_step ecus st (snd (update_entries names st))"

text \<open>
  The invariant: keys are distinct, and while the vehicle is locked every other lock belongs to
  the owner of the vehicle lock.
\<close>

definition dominated :: "lock_state \<Rightarrow> bool" where
  "dominated st \<longleftrightarrow> (\<forall>v n l. vehicle st = Some v \<longrightarrow>
     (n, l) \<in> set (held (ecu st)) \<union> set (held (functional_group st)) \<longrightarrow> owner l = owner v)"

definition locks_ok :: "lock_state \<Rightarrow> bool" where
  "locks_ok st \<longleftrightarrow> keys_distinct st \<and> dominated st"

text \<open>
  What releasing does to the tables: entries without a lock may be added, locks may go; the locks
  that go satisfy \<open>P\<close>.
\<close>

definition releases :: "(lock \<Rightarrow> bool) \<Rightarrow> lock_state \<Rightarrow> lock_state \<Rightarrow> bool" where
  "releases P st st' \<longleftrightarrow>
     (keys_distinct st \<longrightarrow> keys_distinct st') \<and>
     (vehicle st' = vehicle st \<or> (\<exists>v. vehicle st = Some v \<and> P v \<and> vehicle st' = None)) \<and>
     set (held (ecu st')) \<subseteq> set (held (ecu st)) \<and>
     set (held (functional_group st')) \<subseteq> set (held (functional_group st)) \<and>
     (\<forall>(n, l) \<in> set (held (ecu st)). P l \<or> (n, l) \<in> set (held (ecu st'))) \<and>
     (\<forall>(n, l) \<in> set (held (functional_group st)). P l \<or> (n, l) \<in> set (held (functional_group st')))"

lemma releases_refl [simp]: "releases P st st"
  by (auto simp: releases_def)

lemma releases_trans: "releases P st st1 \<Longrightarrow> releases P st1 st2 \<Longrightarrow> releases P st st2"
  unfolding releases_def by (elim conjE; intro conjI) (auto; blast)+

lemma releases_frame:
  assumes "vehicle st' = vehicle st" "ecu st' = ecu st" "functional_group st' = functional_group st"
  shows "releases P st st'"
  using assms by (auto simp: releases_def keys_distinct_def)

lemma releases_table: "releases P st st' \<Longrightarrow> set (held (table k st')) \<subseteq> set (held (table k st))"
  by (cases k) (simp_all add: releases_def table_def)

lemma releases_vehicle: "releases P st st' \<Longrightarrow> vehicle st' = Some v \<Longrightarrow> vehicle st = Some v"
  by (auto simp: releases_def)

lemma releases_dominated:
  assumes "releases P st st'" and "dominated st"
  shows "dominated st'"
  unfolding dominated_def
proof (intro allI impI)
  fix v n l
  assume a: "vehicle st' = Some v" "(n, l) \<in> set (held (ecu st')) \<union> set (held (functional_group st'))"
  have "vehicle st = Some v" using assms(1) a(1) by (rule releases_vehicle)
  moreover have "(n, l) \<in> set (held (ecu st)) \<union> set (held (functional_group st))"
    using a(2) releases_table[OF assms(1), of Ecu] releases_table[OF assms(1), of FunctionalGroup]
    by (auto simp: table_def)
  ultimately show "owner l = owner v" using assms(2) unfolding dominated_def by blast
qed

lemma releases_locks_ok: "releases P st st' \<Longrightarrow> locks_ok st \<Longrightarrow> locks_ok st'"
  using releases_dominated by (auto simp: locks_ok_def releases_def)

lemma releases_abort [simp]: "releases P st (abort h st)"
  by (rule releases_frame) (simp_all add: abort_def)

lemma releases_reset: "releases P st (fold reset_ecu_session_and_security ns st)"
proof (induction ns arbitrary: st)
  case (Cons n ns)
  have "releases P st (reset_ecu_session_and_security n st)"
    by (rule releases_frame) (simp_all add: reset_ecu_session_and_security_def)
  then show ?case using Cons releases_trans by simp
qed simp

lemma releases_cleanup_entity: "releases P st (cleanup_entity ecus k n st)"
proof -
  have t: "releases P st (st\<lparr>tp_tasks := x\<rparr>)" for x by (rule releases_frame) simp_all
  have r: "releases P s (reset_ecu_session_and_security m s)" for m s
    using releases_reset[of P s "[m]"] by simp
  show ?thesis
    unfolding cleanup_entity_def cleanup_ecu_def cleanup_functional_group_def Let_def
    by (cases k) (auto intro: releases_trans[OF t] releases_reset r)
qed

lemma releases_get_mut:
  assumes "get_mut k entity st = Inr (l, st')"
  shows "releases P st st'"
proof -
  have d: "distinct (map fst (t @ [(n, None)]))" if "distinct (map fst t)" "map_of t n = None" for t :: lock_table and n
    using that by (auto simp: map_of_eq_None_iff)
  show ?thesis
    using assms d
    by (auto simp: get_mut_def table_def set_table_def releases_def keys_distinct_def
        split: lock_type.splits option.splits)
qed

lemma get_mut_lock:
  assumes "get_mut k entity st = Inr (Some l, st')"
  shows "st' = st" "k = Vehicle \<Longrightarrow> vehicle st = Some l"
    "k \<noteq> Vehicle \<Longrightarrow> \<exists>n. entity = Some n \<and> map_of (table k st) n = Some (Some l)"
  using assms by (auto simp: get_mut_def split: lock_type.splits option.splits)

lemma releases_delete_entity:
  assumes "k \<noteq> Vehicle" and "\<And>l. (n, l) \<in> set (held (table k st)) \<Longrightarrow> P l"
  shows "releases P st (snd (delete_entity ecus k n st))"
proof (cases "map_of (table k st) n")
  case (Some lo)
  let ?st1 = "set_table k (AList.delete n (table k st)) st"
  have "releases P st ?st1"
    using assms
    by (cases k) (auto simp: releases_def keys_distinct_def set_table_def table_def held_AList_delete
        AList.distinct_delete)
  then show ?thesis
    using Some releases_trans[OF _ releases_cleanup_entity]
    by (auto simp: delete_entity_def Let_def split: option.splits)
qed (simp add: delete_entity_def)

lemma releases_release_all:
  assumes "\<And>n l. (n, l) \<in> set (held (table k st)) \<Longrightarrow> P l"
  shows "releases P st (release_all ecus k st)"
  using assms
proof (induction ecus k st rule: release_all.induct)
  case (1 ecus k st)
  show ?case
  proof (cases "k = Vehicle \<or> held (table k st) = []")
    case True
    then show ?thesis by (auto simp: release_all.simps[of ecus k st])
  next
    case False
    then obtain n l rest where h: "held (table k st) = (n, l) # rest" by (cases "held (table k st)") auto
    let ?st1 = "snd (delete_entity ecus k n (abort (deletion_task l) st))"
    have "releases P (abort (deletion_task l) st) ?st1"
      using False 1(2) by (intro releases_delete_entity) auto
    then have r1: "releases P st ?st1" using releases_trans releases_abort by blast
    have sub: "set (held (table k ?st1)) \<subseteq> set (held (table k st))"
      using r1 False by (cases k) (auto simp: releases_def table_def)
    have "releases P ?st1 (release_all ecus k ?st1)"
      using 1(1)[OF _ h refl] False 1(2) sub by blast
    then show ?thesis
      using r1 False h releases_trans by (auto simp: release_all.simps[of ecus k st])
  qed
qed

lemma releases_cleanup_vehicle:
  assumes "\<And>n l. (n, l) \<in> set (held (ecu st)) \<union> set (held (functional_group st)) \<Longrightarrow> P l"
  shows "releases P st (cleanup_vehicle ecus st)"
proof -
  let ?st1 = "fold reset_ecu_session_and_security (map fst ecus) st"
  let ?st2 = "release_all ecus Ecu ?st1"
  have 1: "releases P st ?st1" by (rule releases_reset)
  have "releases P ?st1 ?st2"
    using assms 1 by (intro releases_release_all) (auto simp: table_def releases_def)
  then have 2: "releases P st ?st2" using 1 releases_trans by blast
  have "releases P ?st2 (release_all ecus FunctionalGroup ?st2)"
    using assms 2 by (intro releases_release_all) (auto simp: table_def releases_def)
  then show ?thesis using 2 releases_trans by (auto simp: cleanup_vehicle_def)
qed

text \<open>The locks that deleting the lock of type \<open>k\<close> at \<open>entity\<close> ends.\<close>

definition ends :: "lock_type \<Rightarrow> string option \<Rightarrow> lock_state \<Rightarrow> lock \<Rightarrow> bool" where
  "ends k entity st l \<longleftrightarrow>
     (if k = Vehicle then vehicle st = Some l \<or>
        (\<exists>n. (n, l) \<in> set (held (ecu st)) \<union> set (held (functional_group st)))
      else \<exists>n. entity = Some n \<and> (n, l) \<in> set (held (table k st)))"

lemma releases_delete_locked:
  assumes "\<And>l. ends k entity st l \<Longrightarrow> P l"
  shows "releases P st (snd (delete_locked ecus k entity st))"
proof (cases "k = Vehicle")
  case True
  show ?thesis
  proof (cases "vehicle st")
    case (Some v)
    have "releases P st (st\<lparr>vehicle := None\<rparr>)"
      using assms[of v] True Some by (auto simp: releases_def ends_def keys_distinct_def)
    moreover have "releases P (st\<lparr>vehicle := None\<rparr>) (cleanup_vehicle ecus (st\<lparr>vehicle := None\<rparr>))"
      using assms True by (intro releases_cleanup_vehicle) (auto simp: ends_def)
    ultimately show ?thesis using True Some releases_trans by (auto simp: delete_locked_def)
  qed (simp add: True delete_locked_def)
next
  case False
  show ?thesis
  proof (cases entity)
    case None
    then show ?thesis using False by (cases k) (simp_all add: delete_locked_def)
  next
    case (Some n)
    have "delete_locked ecus k entity st = delete_entity ecus k n st"
      using False Some by (cases k) (simp_all add: delete_locked_def)
    then show ?thesis
      using releases_delete_entity[of k n st P ecus] False Some assms by (simp add: ends_def)
  qed
qed

section \<open>One request\<close>

definition foreign_locks :: "string \<Rightarrow> lock_state \<Rightarrow> (lock_type \<times> string \<times> lock) set" where
  "foreign_locks sub st = {(k, n, l). owner l \<noteq> sub \<and>
     (if k = Vehicle then vehicle st = Some l else (n, l) \<in> set (held (table k st)))}"

definition client_ok :: "string \<Rightarrow> lock_state \<Rightarrow> lock_state \<Rightarrow> bool" where
  "client_ok sub st st' \<longleftrightarrow> (locks_ok st \<longrightarrow> locks_ok st' \<and> foreign_locks sub st' = foreign_locks sub st)"

lemma client_ok_refl [simp]: "client_ok sub st st"
  by (simp add: client_ok_def)

lemma client_ok_trans: "client_ok sub st st1 \<Longrightarrow> client_ok sub st1 st2 \<Longrightarrow> client_ok sub st st2"
  by (simp add: client_ok_def)

lemma releases_client:
  assumes "releases (\<lambda>l. owner l = sub) st st'"
  shows "client_ok sub st st'"
proof -
  have "(k, n, l) \<in> foreign_locks sub st' \<longleftrightarrow> (k, n, l) \<in> foreign_locks sub st" for k n l
    using assms
    by (cases k; cases "owner l = sub") (auto simp: releases_def foreign_locks_def table_def)
  then have "foreign_locks sub st' = foreign_locks sub st" by (intro set_eqI) auto
  then show ?thesis using assms releases_locks_ok by (auto simp: client_ok_def)
qed

text \<open>The condition under which \<open>sub\<close> may put a lock of its own at a place.\<close>

definition may_take :: "lock_type \<Rightarrow> string option \<Rightarrow> string \<Rightarrow> lock_state \<Rightarrow> bool" where
  "may_take k entity sub st \<longleftrightarrow>
     (\<forall>v. vehicle st = Some v \<longrightarrow> owner v = sub) \<and> (\<forall>l. ends k entity st l \<longrightarrow> owner l = sub)"

lemma releases_ends: "releases P st st' \<Longrightarrow> ends k entity st' l \<Longrightarrow> ends k entity st l"
  using releases_table[of P st st' k] releases_table[of P st st' Ecu]
    releases_table[of P st st' FunctionalGroup] releases_vehicle[of P st st' l]
  by (auto simp: ends_def table_def split: if_splits)

lemma releases_may_take: "releases P st st' \<Longrightarrow> may_take k entity sub st \<Longrightarrow> may_take k entity sub st'"
  using releases_ends releases_vehicle unfolding may_take_def by blast

lemma put_lock_client:
  assumes "may_take k entity sub st" and "owner l = sub"
  shows "client_ok sub st (put_lock k entity (Some l) st)"
proof (cases "locks_ok st")
  case True
  then have d: "distinct (map fst (ecu st))" "distinct (map fst (functional_group st))" and
    dom: "dominated st" by (auto simp: locks_ok_def keys_distinct_def)
  note upd = held_AList_update[OF d(1)] held_AList_update[OF d(2)]
  have ok: "locks_ok (put_lock k entity (Some l) st)"
    using assms d dom upd
    by (cases k; cases entity)
      (auto simp: put_lock_def set_table_def table_def locks_ok_def keys_distinct_def dominated_def
        may_take_def ends_def AList.distinct_update)
  have "(k', n, x) \<in> foreign_locks sub (put_lock k entity (Some l) st) \<longleftrightarrow> (k', n, x) \<in> foreign_locks sub st" for k' n x
    using assms upd
    by (cases k; cases entity; cases k')
      (auto simp: put_lock_def set_table_def table_def foreign_locks_def may_take_def ends_def)
  then have "foreign_locks sub (put_lock k entity (Some l) st) = foreign_locks sub st"
    by (intro set_eqI) auto
  then show ?thesis using ok by (simp add: client_ok_def)
qed (simp add: client_ok_def)

lemma holder_may_take:
  assumes ok: "locks_ok st" and get: "get_mut k entity st = Inr (Some l, st')" and "owner l = sub"
  shows "may_take k entity sub st"
proof (cases "k = Vehicle")
  case True
  then have "vehicle st = Some l" using get get_mut_lock by blast
  then show ?thesis
    using assms True by (auto simp: may_take_def ends_def locks_ok_def dominated_def)
next
  case False
  then obtain n where n: "entity = Some n" "map_of (table k st) n = Some (Some l)"
    using get get_mut_lock by blast
  have d: "distinct (map fst (table k st))"
    using ok by (cases k) (simp_all add: locks_ok_def keys_distinct_def table_def)
  have "(n, l') \<in> set (held (table k st)) \<longleftrightarrow> l' = l" for l'
    using n d lock_of_held[OF d, of n l'] by (auto simp: lock_of_def)
  moreover have "owner l = owner v" if "vehicle st = Some v" for v
  proof -
    have "(n, l) \<in> set (held (table k st))" using n by (simp add: held_mem map_of_SomeD)
    then show ?thesis
      using that ok by (cases k) (auto simp: locks_ok_def dominated_def table_def)
  qed
  ultimately show ?thesis using assms(3) False n by (auto simp: may_take_def ends_def)
qed

lemma releases_schedule: "releases P st (snd (schedule_token_deletion c k entity lid expires st))"
  by (rule releases_frame) (simp_all add: schedule_token_deletion_def Let_def)

lemma releases_start: "releases P st (snd (start_for_lock ecus k entity st))"
  by (rule releases_frame)
    (simp_all add: start_for_lock_def Let_def split: lock_type.splits option.splits prod.splits sum.splits)

lemma releases_create: "releases P st (snd (create_lock c ecus expires k entity sub uuid st))"
proof -
  obtain r st1 where s: "schedule_token_deletion c k entity uuid expires st = (r, st1)" by fastforce
  obtain r' st2 where t: "start_for_lock ecus k entity st1 = (r', st2)" by fastforce
  have 1: "releases P st st1" using releases_schedule[of P st c k entity uuid expires] s by simp
  have "releases P st1 st2" using releases_start[of P st1 ecus k entity] t by simp
  then have "releases P st st2" using 1 releases_trans by blast
  then show ?thesis using 1 s t by (simp add: create_lock_def split: sum.splits)
qed

lemma create_lock_owner: "create_lock c ecus expires k entity sub uuid st = (Inr l, st') \<Longrightarrow> owner l = sub"
  by (auto simp: create_lock_def split: if_splits prod.splits sum.splits)

lemma update_lock_client:
  assumes "\<And>l. entity_lock = Some l \<Longrightarrow> owner l = sub \<Longrightarrow> may_take k entity sub st"
  shows "client_ok sub st (snd (update_lock c lid sub entity_lock expires entity k st))"
proof (cases "validate_claim (Some lid) sub entity_lock")
  case (Inr u)
  show ?thesis
  proof (cases entity_lock)
    case (Some l)
    obtain r st1 where sch:
      "schedule_token_deletion c k entity (lock_id l) expires (abort (deletion_task l) st) = (r, st1)"
      by fastforce
    have own: "owner l = sub" using Inr Some validate_claim_iff[of "Some lid" sub entity_lock] by auto
    have rel: "releases P st st1" for P
      using releases_trans[OF releases_abort releases_schedule] sch by (metis snd_conv)
    have "may_take k entity sub st1" using assms[OF Some own] rel releases_may_take by blast
    then have "client_ok sub st1 (put_lock k entity (Some (l\<lparr>deletion_task := t, expiration := expires\<rparr>)) st1)" for t
      using own by (intro put_lock_client) simp_all
    from client_ok_trans[OF releases_client[OF rel] this] show ?thesis
      using releases_client[OF rel] Inr Some sch by (simp add: update_lock_def split: sum.splits)
  qed (use Inr in \<open>simp add: update_lock_def\<close>)
qed (simp add: update_lock_def)

lemma post_handler_client:
  assumes "\<And>v. vehicle st = Some v \<Longrightarrow> owner v = sub"
    and "\<And>n l. k = Vehicle \<Longrightarrow> (n, l) \<in> set (held (ecu st)) \<union> set (held (functional_group st)) \<Longrightarrow> owner l = sub"
  shows "client_ok sub st (snd (post_handler c ecus k entity expires sub uuid st))"
proof (cases "locks_ok st")
  case ok: True
  show ?thesis
  proof (cases "get_mut k entity st")
    case (Inr p)
    obtain lo st1 where p: "p = (lo, st1)" by fastforce
    have rel: "releases P st st1" for P using Inr p releases_get_mut by blast
    show ?thesis
    proof (cases lo)
      case (Some l)
      have "st1 = st" using Inr p Some get_mut_lock by blast
      have "client_ok sub st (snd (update_lock c (lock_id l) sub (Some l) expires entity k st))"
      proof (rule update_lock_client)
        fix l' assume "Some l = Some l'" "owner l' = sub"
        then show "may_take k entity sub st" using holder_may_take[OF ok] Inr p Some by blast
      qed
      then show ?thesis
        using Inr p Some \<open>st1 = st\<close> by (auto simp: post_handler_def split: prod.splits sum.splits)
    next
      case None
      have free: "may_take k entity sub st"
        using assms Inr p None ok
        by (cases k; cases entity)
          (auto simp: may_take_def ends_def get_mut_def table_def locks_ok_def keys_distinct_def held_mem
            map_of_eq_Some_iff map_of_eq_None_iff rev_image_eqI split: option.splits dest: eq_key_imp_eq_value)
      obtain r st2 where cr: "create_lock c ecus expires k entity sub uuid st1 = (r, st2)" by fastforce
      have rel2: "releases P st st2" for P
        using releases_trans[OF rel releases_create] cr by (metis snd_conv)
      have "client_ok sub st (put_lock k entity (Some l) st2)" if "r = Inr l" for l
      proof (rule client_ok_trans[OF releases_client[OF rel2] put_lock_client])
        show "may_take k entity sub st2" by (rule releases_may_take[OF rel2 free])
        show "owner l = sub" using that cr create_lock_owner by blast
      qed
      then show ?thesis
        using releases_client[OF rel2] Inr p None cr by (simp add: post_handler_def split: sum.splits)
    qed
  qed (simp add: post_handler_def)
qed (simp add: client_ok_def)

lemma put_handler_client: "client_ok sub st (snd (put_handler c k lid sub entity expires st))"
proof (cases "locks_ok st \<and> (\<exists>p. get_mut k entity st = Inr p)")
  case True
  then obtain lo st1 where get: "get_mut k entity st = Inr (lo, st1)" and ok: "locks_ok st" by auto
  have rel: "releases P st st1" for P using get releases_get_mut by blast
  have ok1: "locks_ok st1" using rel ok releases_locks_ok by blast
  have "client_ok sub st1 (snd (update_lock c lid sub lo expires entity k st1))"
  proof (rule update_lock_client)
    fix l assume l: "lo = Some l" "owner l = sub"
    then have "st1 = st" using get get_mut_lock by blast
    then show "may_take k entity sub st1" using holder_may_take[OF ok] get l by blast
  qed
  then have "client_ok sub st (snd (update_lock c lid sub lo expires entity k st1))"
    by (rule client_ok_trans[OF releases_client[OF rel]])
  then show ?thesis using get by (auto simp: put_handler_def split: prod.splits sum.splits)
next
  case False
  then show ?thesis
    by (cases "get_mut k entity st") (auto simp: client_ok_def put_handler_def)
qed

lemma delete_lock_releases:
  assumes "locks_ok st"
  shows "releases (\<lambda>l. owner l = sub) st (snd (delete_lock ecus k lid sub entity st))"
proof (cases "get_mut k entity st")
  case (Inr p)
  obtain lo st1 where p: "p = (lo, st1)" by fastforce
  have rel: "releases (\<lambda>l. owner l = sub) st st1" using Inr p releases_get_mut by blast
  show ?thesis
  proof (cases "validate_claim (Some lid) sub lo")
    case claim: (Inr u)
    show ?thesis
    proof (cases lo)
      case (Some l)
      have own: "owner l = sub" using claim Some validate_claim_iff[of "Some lid" sub lo] by auto
      have st1: "st1 = st" using Inr p Some get_mut_lock by blast
      have "may_take k entity sub st" using holder_may_take[OF assms] Inr p Some own by blast
      then have "may_take k entity sub (abort (deletion_task l) st)"
        by (rule releases_may_take[OF releases_abort])
      then have "releases (\<lambda>l. owner l = sub) (abort (deletion_task l) st)
          (snd (delete_locked ecus k entity (abort (deletion_task l) st)))"
        by (intro releases_delete_locked) (auto simp: may_take_def)
      then show ?thesis
        using releases_trans[OF releases_abort] Inr p claim Some st1 by (simp add: delete_lock_def)
    qed (use Inr p claim rel in \<open>simp add: delete_lock_def\<close>)
  qed (use Inr p rel in \<open>simp add: delete_lock_def\<close>)
qed (simp add: delete_lock_def)

lemma fg_delete_all_releases:
  "locks_ok st \<Longrightarrow> releases (\<lambda>l. owner l = sub) st (snd (fg_delete_all ecus sub own st))"
proof (induction ecus sub own st rule: fg_delete_all.induct)
  case (2 ecus sub n lid rest st)
  obtain r st1 where d: "delete_lock ecus Ecu lid sub (Some n) st = (r, st1)" by fastforce
  have rel: "releases (\<lambda>l. owner l = sub) st st1"
    using delete_lock_releases[OF 2(2), of sub ecus Ecu lid "Some n"] d by simp
  then have ok: "locks_ok st1" using 2(2) releases_locks_ok by blast
  show ?case
  proof (cases r)
    case (Inr u)
    have "releases (\<lambda>l. owner l = sub) st1 (snd (fg_delete_all ecus sub rest st1))"
      using 2(1)[of r st1 u] d Inr ok by simp
    then show ?thesis using rel d Inr releases_trans by auto
  qed (use d rel in simp)
qed simp

lemma fg_finish_client:
  assumes "vehicle_read_lock st sub = Inr ()"
  shows "client_ok sub st (snd (fg_finish c ecus n expires sub uuid own st))"
proof (cases "locks_ok st")
  case True
  obtain r st1 where d: "fg_delete_all ecus sub own st = (r, st1)" by fastforce
  have rel: "releases (\<lambda>l. owner l = sub) st st1"
    using fg_delete_all_releases[OF True, of sub ecus own] d by simp
  have "owner v = sub" if "vehicle st1 = Some v" for v
    using releases_vehicle[OF rel that] assms by (simp add: vehicle_read_lock_def validate_claim_iff)
  then have "client_ok sub st1 (snd (post_handler c ecus FunctionalGroup (Some n) expires sub uuid st1))"
    by (intro post_handler_client) simp_all
  then show ?thesis
    using d releases_client[OF rel] client_ok_trans by (auto simp: fg_finish_def split: sum.splits)
qed (simp add: client_ok_def)

lemma ecu_post_client: "client_ok sub st (snd (ecu_post c ecus n expires sub uuid st))"
proof (cases "vehicle_read_lock st sub")
  case (Inr u)
  then have "owner v = sub" if "vehicle st = Some v" for v
    using that validate_claim_iff[of None sub "vehicle st"] by (simp add: vehicle_read_lock_def)
  then have "client_ok sub st (snd (post_handler c ecus Ecu (Some n) expires sub uuid st))"
    by (intro post_handler_client) simp_all
  then show ?thesis using Inr by (simp add: ecu_post_def)
qed (simp add: ecu_post_def)

lemma vehicle_post_client: "client_ok sub st (snd (vehicle_post c ecus expires sub uuid st))"
proof (cases "validate_claim None sub (vehicle st) = Inr () \<and> all_locks_owned (ecu st) sub = Inr () \<and>
    all_locks_owned (functional_group st) sub = Inr ()")
  case True
  then have "client_ok sub st (snd (post_handler c ecus Vehicle None expires sub uuid st))"
    by (intro post_handler_client) (auto simp: validate_claim_iff all_locks_owned_iff)
  then show ?thesis using True by (simp add: vehicle_post_def)
next
  case False
  then show ?thesis by (auto simp: vehicle_post_def split: sum.splits)
qed

lemma client_step_ok: "client_step ecus sub st st' \<Longrightarrow> client_ok sub st st'"
proof (induction rule: client_step.induct)
  case (delete st k lid entity)
  have "snd (delete_handler ecus k lid sub entity st) = snd (delete_lock ecus k lid sub entity st)"
    by (simp add: delete_handler_def split: prod.splits sum.splits)
  then show ?case
    using releases_client[OF delete_lock_releases] by (cases "locks_ok st") (simp_all add: client_ok_def)
qed (rule ecu_post_client vehicle_post_client fg_finish_client put_handler_client; assumption?)+

section \<open>Runs\<close>

lemma fire_timer_releases: "releases (\<lambda>l. True) st (fire_timer ecus h st)"
proof (cases "timers st h")
  case (Some t)
  let ?st0 = "abort h st"
  show ?thesis
  proof (cases "get_mut (timer_type t) (timer_entity t) ?st0")
    case (Inr p)
    obtain lo st1 where p: "p = (lo, st1)" by fastforce
    have 1: "releases (\<lambda>l. True) st st1"
      using releases_trans[OF releases_abort releases_get_mut] Inr p by blast
    have "releases (\<lambda>l. True) st (snd (delete_locked ecus (timer_type t) (timer_entity t) st1))"
      by (rule releases_trans[OF 1 releases_delete_locked]) simp
    then show ?thesis using Some Inr p 1 by (auto simp: fire_timer_def split: option.splits)
  qed (simp add: fire_timer_def Some)
qed (simp add: fire_timer_def)

lemma held_none: "held t = [] \<longleftrightarrow> \<not> is_any_locked t"
  by (induction t) (auto simp: held_def is_any_locked_def List.map_filter_simps split: option.splits)

lemma update_entries_ok:
  assumes "locks_ok st"
  shows "locks_ok (snd (update_entries names st))"
proof (cases "is_any_locked (ecu st) \<or> is_any_locked (functional_group st)")
  case False
  let ?add = "\<lambda>n t. if map_of t n = None then t @ [(n, None)] else t :: lock_table"
  let ?kept = "filter (\<lambda>(n, l). n \<in> set names) (ecu st)"
  have fold: "distinct (map fst (fold ?add ns t)) \<and> held (fold ?add ns t) = []"
    if "distinct (map fst t)" "held t = []" for ns t
    using that by (induction ns arbitrary: t) (auto simp: map_of_eq_None_iff)
  have "distinct (map fst ?kept)"
    using assms by (simp add: locks_ok_def keys_distinct_def distinct_map_filter)
  moreover have "held ?kept = []"
    using False by (auto simp: held_none is_any_locked_def list_ex_iff)
  ultimately show ?thesis
    using fold[of ?kept names] assms False
    by (simp add: update_entries_def locks_ok_def keys_distinct_def dominated_def held_none[symmetric])
qed (use assms in \<open>auto simp: update_entries_def\<close>)

interpretation lock_run: step_invariant "lock_step ecus" locks_ok for ecus
proof
  fix st st'
  assume "lock_step ecus st st'" and ok: "locks_ok st"
  then show "locks_ok st'"
  proof cases
    case (client sub)
    then show ?thesis using client_step_ok ok by (auto simp: client_ok_def)
  next
    case (expiry h)
    then show ?thesis using fire_timer_releases releases_locks_ok ok by blast
  next
    case (reload names)
    then show ?thesis using update_entries_ok ok by blast
  qed
qed

lemma locks_new_ok: "distinct names \<Longrightarrow> locks_ok (locks_new names)"
  by (simp add: locks_ok_def locks_new_def keys_distinct_def dominated_def comp_def)

text \<open>
  C25: From the start of the server, through any sequence of lock requests of any clients, expiries
  and database reloads, the client that holds the vehicle lock also owns every ECU and
  functional-group lock there is.
\<close>

theorem vehicle_lock_dominates:
  assumes "distinct names" and "(lock_step ecus)\<^sup>*\<^sup>* (locks_new names) st"
    and "vehicle st = Some v" and "k \<noteq> Vehicle" and "(n, l) \<in> set (held (table k st))"
  shows "owner l = owner v"
proof -
  have "locks_ok st" using lock_run.run_preserves[OF assms(2) locks_new_ok[OF assms(1)]] .
  then show ?thesis using assms(3-5) by (cases k) (auto simp: locks_ok_def dominated_def table_def)
qed

text \<open>
  C4: Requests are isolated. In a reachable state, no request of a client (taking, extending or
  deleting a lock, of any type, with any identifier) adds, removes or changes a lock owned by
  another client.
\<close>

theorem requests_isolated:
  assumes "distinct names" and "(lock_step ecus)\<^sup>*\<^sup>* (locks_new names) st"
    and "client_step ecus sub st st'"
  shows "foreign_locks sub st' = foreign_locks sub st"
proof -
  have "locks_ok st" using lock_run.run_preserves[OF assms(2) locks_new_ok[OF assms(1)]] .
  then show ?thesis using client_step_ok[OF assms(3)] by (simp add: client_ok_def)
qed

section \<open>Expiry\<close>

lemma lock_of_delete [simp]: "lock_of (AList.delete n t) n = None"
  by (simp add: lock_of_def AList.delete_conv')

lemma fire_timer_ends:
  assumes "timers st h = Some \<lparr>timer_type = Ecu, timer_entity = Some n, timer_lock_id = lock_id l, fire_at = f\<rparr>"
    and "map_of (ecu st) n = Some (Some l)"
  shows "lock_of (ecu (fire_timer ecus h st)) n = None"
    and "tp_tasks (fire_timer ecus h st) (to_ascii_lowercase n) = None"
    and "uds_calls (fire_timer ecus h st) = uds_calls st @
      [ResetSession (to_ascii_lowercase n), ResetSecurityAccess (to_ascii_lowercase n)]"
  using assms
  by (simp_all add: fire_timer_def Let_def get_mut_def table_def abort_def delete_locked_def
      delete_entity_def set_table_def cleanup_entity_def cleanup_ecu_def
      reset_ecu_session_and_security_def stop_tester_present_def)

lemma start_for_lock_frame:
  assumes "start_for_lock ecus k entity st = (r, st')"
  shows "ecu st' = ecu st" "timers st' = timers st" "uds_calls st' = uds_calls st"
  using assms
  by (auto simp: start_for_lock_def Let_def split: lock_type.splits option.splits prod.splits sum.splits if_splits)

lemma create_lock_timer:
  assumes "create_lock c ecus expires k entity sub uuid st = (Inr l, st')"
  shows "\<exists>f. f \<le> expires \<and> timers st' (deletion_task l) = Some
    \<lparr>timer_type = k, timer_entity = entity, timer_lock_id = lock_id l, fire_at = f\<rparr>"
proof -
  obtain task st1 where s: "schedule_token_deletion c k entity uuid expires st = (Inr task, st1)"
    and t: "start_for_lock ecus k entity st1 = (Inr (), st')"
    and l: "l = \<lparr>lock_id = uuid, expiration = expires, owner = sub, deletion_task = task\<rparr>"
    using assms by (auto simp: create_lock_def split: if_splits prod.splits sum.splits)
  have "(expires - now c) div 1000 * 1000 \<le> expires - now c" by simp
  then have "now c + (expires - now c) div 1000 * 1000 \<le> expires" by linarith
  then show ?thesis
    using s l start_for_lock_frame(2)[OF t]
    by (auto simp: schedule_token_deletion_def Let_def split: if_splits)
qed

text \<open>
  C33: Locks end by themselves. When a client has been given a new lock on an ECU, an expiry task
  is pending for it that is due no later than the requested expiry; when it runs, the lock is
  gone, the tester-present task of the ECU is stopped and the session and the security access of
  the ECU are reset.
\<close>

theorem ecu_lock_expires:
  assumes "lock_of (ecu st) n = None"
    and "ecu_post c ecus n expires sub uuid st = (Created r, st')"
  shows "\<exists>h t. timers st' h = Some t \<and> fire_at t \<le> expires \<and>
    lock_of (ecu (fire_timer ecus h st')) n = None \<and>
    tp_tasks (fire_timer ecus h st') (to_ascii_lowercase n) = None \<and>
    uds_calls (fire_timer ecus h st') = uds_calls st' @
      [ResetSession (to_ascii_lowercase n), ResetSecurityAccess (to_ascii_lowercase n)]"
proof -
  have post: "post_handler c ecus Ecu (Some n) expires sub uuid st = (Created r, st')"
    using assms(2) by (auto simp: ecu_post_def split: sum.splits if_splits)
  obtain st1 where g: "get_mut Ecu (Some n) st = Inr (None, st1)"
    using assms(1) by (auto simp: get_mut_def lock_of_def table_def split: option.splits)
  obtain l st2 where cr: "create_lock c ecus expires Ecu (Some n) sub uuid st1 = (Inr l, st2)"
    and st': "st' = put_lock Ecu (Some n) (Some l) st2"
    using post g by (auto simp: post_handler_def split: prod.splits sum.splits)
  obtain f where f: "f \<le> expires" "timers st2 (deletion_task l) = Some
      \<lparr>timer_type = Ecu, timer_entity = Some n, timer_lock_id = lock_id l, fire_at = f\<rparr>"
    using create_lock_timer[OF cr] by blast
  have "timers st' (deletion_task l) = Some
      \<lparr>timer_type = Ecu, timer_entity = Some n, timer_lock_id = lock_id l, fire_at = f\<rparr>"
    and "map_of (ecu st') n = Some (Some l)"
    using st' f by (simp_all add: put_lock_def set_table_def table_def AList.update_conv')
  from this(1) fire_timer_ends[OF this, of ecus] f(1) show ?thesis by fastforce
qed

section \<open>Sample runs\<close>

definition demo_info :: ecu_info where
  "demo_info = \<lparr>logical_address = 1, logical_gateway_address = 1, logical_functional_address = 2,
     tester_address = 3, is_physical_ecu = True, functional_groups = [], tester_present_time = 2000\<rparr>"

definition demo_ecus :: ecu_table where
  "demo_ecus = [(''e'', demo_info), (''f'', demo_info)]"

definition demo_clock :: clock where
  "demo_clock = \<lparr>now = 1000, too_far = (\<lambda>s. False)\<rparr>"

definition alice_locks :: lock_state where
  "alice_locks = snd (ecu_post demo_clock demo_ecus ''e'' 5000 ''alice'' ''id0'' (locks_new [''e'', ''f'']))"

definition vehicle_locked :: lock_state where
  "vehicle_locked = snd (vehicle_post demo_clock demo_ecus 6000 ''alice'' ''id1'' alice_locks)"

lemma demo_lower: "to_ascii_lowercase ''e'' = ''e''" "to_ascii_lowercase ''f'' = ''f''"
  by code_simp+

lemmas lock_eval = ecu_post_def vehicle_post_def put_handler_def post_handler_def update_lock_def
  create_lock_def schedule_token_deletion_def start_for_lock_def start_tester_present_def
  check_tester_present_active_def control_start_def get_mut_def put_lock_def set_table_def table_def
  abort_def validate_claim_def all_locks_owned_def vehicle_read_lock_def is_any_locked_def
  locks_new_def demo_clock_def demo_ecus_def demo_info_def demo_lower

lemma alice_locks_eq: "alice_locks =
  \<lparr>vehicle = None,
   ecu = [(''e'', Some \<lparr>lock_id = ''id0'', expiration = 5000, owner = ''alice'', deletion_task = 0\<rparr>), (''f'', None)],
   functional_group = [],
   timers = [0 \<mapsto> \<lparr>timer_type = Ecu, timer_entity = Some ''e'', timer_lock_id = ''id0'', fire_at = 5000\<rparr>],
   next_task = 1, tp_tasks = [''e'' \<mapsto> TpEcu ''e''], uds_calls = []\<rparr>"
  by (simp add: alice_locks_def lock_eval Let_def)

lemma vehicle_locked_parts:
  "vehicle vehicle_locked =
     Some \<lparr>lock_id = ''id1'', expiration = 6000, owner = ''alice'', deletion_task = 1\<rparr>"
  "ecu vehicle_locked = ecu alice_locks" "functional_group vehicle_locked = []"
  by (simp_all add: vehicle_locked_def alice_locks_eq lock_eval Let_def)

lemma alice_reachable: "(lock_step demo_ecus)\<^sup>*\<^sup>* (locks_new [''e'', ''f'']) alice_locks"
  unfolding alice_locks_def by (rule r_into_rtranclp, rule lock_step.client, rule client_step.ecu_post)

lemma vehicle_locked_reachable: "(lock_step demo_ecus)\<^sup>*\<^sup>* (locks_new [''e'', ''f'']) vehicle_locked"
  unfolding vehicle_locked_def
  by (rule rtranclp.rtrancl_into_rtrancl[OF alice_reachable], rule lock_step.client,
      rule client_step.vehicle_post)

theorem access_exclusive_witness:
  "validate_lock ''alice'' ''e'' alice_locks = None \<and> validate_lock ''bob'' ''e'' alice_locks \<noteq> None"
proof -
  have "validate_lock ''alice'' ''e'' alice_locks = None"
    by (auto simp: validate_lock_None alice_locks_eq held_def List.map_filter_simps)
  moreover have "''bob'' \<noteq> ''alice''" by simp
  ultimately show ?thesis using access_exclusive by blast
qed

theorem vehicle_lock_dominates_witness:
  "owner (the (lock_of (ecu vehicle_locked) ''e'')) = ''alice''"
  using vehicle_lock_dominates[OF _ vehicle_locked_reachable vehicle_locked_parts(1), of Ecu "''e''"
      "\<lparr>lock_id = ''id0'', expiration = 5000, owner = ''alice'', deletion_task = 0\<rparr>"]
  by (simp add: table_def vehicle_locked_parts alice_locks_eq held_mem lock_of_def)

theorem requests_isolated_witness:
  "foreign_locks ''bob'' (snd (delete_handler demo_ecus Ecu ''id0'' ''bob'' (Some ''e'') alice_locks)) =
   foreign_locks ''bob'' alice_locks"
  by (rule requests_isolated[OF _ alice_reachable client_step.delete]) simp

theorem ecu_lock_expires_witness:
  "\<exists>h t. timers alice_locks h = Some t \<and> fire_at t \<le> 5000 \<and>
    lock_of (ecu (fire_timer demo_ecus h alice_locks)) ''e'' = None"
proof -
  have "ecu_post demo_clock demo_ecus ''e'' 5000 ''alice'' ''id0'' (locks_new [''e'', ''f'']) =
      (Created \<lparr>sovd_id = ''id0'', owned = None\<rparr>, alice_locks)"
    by (simp add: alice_locks_def lock_eval Let_def)
  from ecu_lock_expires[OF _ this] show ?thesis by (auto simp: lock_of_def locks_new_def)
qed

section \<open>Where the code does less\<close>

text \<open>
  An extension to a time in the past is refused, but the expiry task of the lock has already been
  ended: the lock stays and nothing is left that would end it.
\<close>

theorem refused_extension_never_expires:
  "\<exists>st'. put_handler demo_clock Ecu ''id0'' ''alice'' (Some ''e'') 500 alice_locks =
      (Error (ApiBadRequest ''expiration date is in the past''), st') \<and>
    lock_of (ecu st') ''e'' \<noteq> None \<and> timers st' = Map.empty"
  by (simp add: alice_locks_eq lock_eval lock_of_def)

text \<open>
  Access to an ECU is refused to the client that holds its lock while another client holds the
  lock of a different ECU.
\<close>

theorem other_ecu_lock_refuses_owner:
  "validate_lock ''alice'' ''e''
     (snd (ecu_post demo_clock demo_ecus ''f'' 5000 ''bob'' ''id2'' alice_locks)) \<noteq> None"
  by (simp add: validate_lock_None alice_locks_eq lock_eval Let_def held_def List.map_filter_simps)

end
