(* ===== verification/Flash_Transfer.thy ===== *)
theory Flash_Transfer
  imports Diag_Error
begin

text \<open>
  Flash data transfer to an ECU (\<open>cda-comm-uds/src/data_transfer.rs\<close>): starting a transfer, the
  task that reads the file block by block and sends \<open>TransferData\<close> requests, the exit and the
  status queries. Lengths are 64-bit, as is \<open>usize\<close>. The answers to the requests are a script,
  one result per request; \<open>None\<close> means that the task still waits. The file is its content with
  the outcome of the calls on it; a read beyond the end fails. The lookup of the service and the
  check of the access rights are arguments. The buffer has the length of a block, so its slices
  exist. A watch channel is a number, and sending on it puts the number into \<open>signalled\<close>.
\<close>

section \<open>State\<close>

datatype data_transfer_status = Running | Aborted | Finished | Queued

record data_transfer_meta_data =
  acknowledged_bytes :: nat
  blocksize :: nat
  next_block_sequence_counter :: byte
  transfer_id :: string
  file_id :: string
  transfer_status :: data_transfer_status
  transfer_error :: "string list option"

record ecu_data_transfer =
  meta_data :: data_transfer_meta_data
  status_receiver :: nat

record flash_state =
  data_transfers :: "string \<rightharpoonup> ecu_data_transfer"
  signalled :: "nat set"
  next_channel :: nat
  update_in_progress :: bool

definition update_meta ::
    "string \<Rightarrow> (data_transfer_meta_data \<Rightarrow> data_transfer_meta_data) \<Rightarrow> flash_state \<Rightarrow> flash_state" where
  "update_meta ecu f st =
     st\<lparr>data_transfers := (data_transfers st)(ecu :=
          map_option (\<lambda>dt. dt\<lparr>meta_data := f (meta_data dt)\<rparr>) (data_transfers st ecu))\<rparr>"

definition signal :: "nat \<Rightarrow> flash_state \<Rightarrow> flash_state" where
  "signal sender st = st\<lparr>signalled := insert sender (signalled st)\<rparr>"

section \<open>The transfer task\<close>

definition set_transfer_aborted :: "string \<Rightarrow> string \<Rightarrow> nat \<Rightarrow> flash_state \<Rightarrow> flash_state" where
  "set_transfer_aborted ecu reason sender st =
     signal sender (update_meta ecu
       (\<lambda>m. m\<lparr>transfer_status := Aborted, transfer_error := Some [reason]\<rparr>) st)"

definition read_exact :: "nat \<Rightarrow> byte list \<Rightarrow> (byte list \<times> byte list) option" where
  "read_exact n reader = (if length reader < n then None else Some (take n reader, drop n reader))"

text \<open>After an answered block; \<open>remaining\<close> is what is left after it.\<close>

definition acknowledge :: "string \<Rightarrow> nat \<Rightarrow> byte \<Rightarrow> nat \<Rightarrow> nat \<Rightarrow> flash_state \<Rightarrow> flash_state option" where
  "acknowledge ecu sender counter bytes_read remaining st =
     (case data_transfers st ecu of
        None \<Rightarrow> None
      | Some dt \<Rightarrow>
          let st1 = update_meta ecu (\<lambda>m. m\<lparr>next_block_sequence_counter := counter,
                      acknowledged_bytes := saturating_add (acknowledged_bytes m) bytes_read\<rparr>) st
          in Some (if remaining = 0
                   then signal sender (update_meta ecu (\<lambda>m. m\<lparr>transfer_status := Finished\<rparr>) st1)
                   else st1))"

text \<open>The first component of the result lists the requests that were sent.\<close>

fun transfer_loop ::
    "string \<Rightarrow> nat \<Rightarrow> nat \<Rightarrow> nat \<Rightarrow> byte \<Rightarrow> byte list \<Rightarrow> unit diag_result list \<Rightarrow> flash_state
     \<Rightarrow> (byte list list \<times> flash_state) option" where
  "transfer_loop ecu sender block_size remaining counter reader replies st =
     (if remaining = 0 then Some ([], st)
      else if remaining > usize_max
      then Some ([], set_transfer_aborted ecu ''Remaining bytes overflowed usize'' sender st)
      else let n = min block_size remaining in
        (case read_exact n reader of
           None \<Rightarrow> Some ([], set_transfer_aborted ecu ''Failed to read data'' sender st)
         | Some (block, reader') \<Rightarrow>
             (case replies of
                [] \<Rightarrow> None
              | Inl e # rest \<Rightarrow>
                  Some ([counter # block], set_transfer_aborted ecu ''Failed to read data'' sender st)
              | Inr _ # rest \<Rightarrow>
                  (case acknowledge ecu sender (counter + 1) n (remaining - n) st of
                     None \<Rightarrow> Some ([counter # block], st)
                   | Some st' \<Rightarrow>
                       map_option (\<lambda>(sent, s). ((counter # block) # sent, s))
                         (transfer_loop ecu sender block_size (remaining - n) (counter + 1) reader'
                            rest st')))))"

declare transfer_loop.simps [simp del]

definition transfer_ecu_data ::
    "string \<Rightarrow> nat \<Rightarrow> nat \<Rightarrow> byte list \<Rightarrow> unit diag_result list \<Rightarrow> flash_state
     \<Rightarrow> (byte list list \<times> flash_state) option" where
  "transfer_ecu_data ecu len sender reader replies st =
     (case data_transfers st ecu of
        None \<Rightarrow> Some ([], st)
      | Some dt \<Rightarrow>
          transfer_loop ecu sender (blocksize (meta_data dt)) len
            (next_block_sequence_counter (meta_data dt)) reader replies
            (update_meta ecu (\<lambda>m. m\<lparr>transfer_status := Running\<rparr>) st))"

section \<open>Starting, ending and status\<close>

record flash_file =
  content :: "byte list"
  metadata_ok :: bool
  seek_ok :: bool

record transfer_task =
  task_sender :: nat
  task_length :: nat
  task_reader :: "byte list"

text \<open>The first phase: the table is locked for the check only.\<close>

definition start_check :: "string \<Rightarrow> nat \<Rightarrow> flash_state \<Rightarrow> unit diag_result" where
  "start_check ecu len st =
     (if len = 0 then Inl (InvalidRequest ''Transfer length must be greater than 0'')
      else case data_transfers st ecu of
        Some dt \<Rightarrow> Inl (InvalidRequest ''Transfer data already running'')
      | None \<Rightarrow> Inr ())"

definition open_flash_file :: "flash_file option \<Rightarrow> nat \<Rightarrow> nat \<Rightarrow> byte list diag_result" where
  "open_flash_file file offset len =
     bindE (ok_or file (InvalidRequest ''Failed to open file'')) (\<lambda>f.
     if \<not> metadata_ok f then Inl (InvalidRequest ''Failed to get metadata'')
     else if length (content f) < saturating_add offset len
     then Inl (InvalidRequest ''File size is too small for the requested offset and length'')
     else if \<not> seek_ok f then Inl (InvalidRequest ''Failed to seek to offset in file'')
     else Inr (drop offset (content f)))"

text \<open>The second phase, with the table locked again.\<close>

definition start_insert ::
    "string \<Rightarrow> nat \<Rightarrow> byte list \<Rightarrow> data_transfer_meta_data \<Rightarrow> flash_state
     \<Rightarrow> transfer_task diag_result \<times> flash_state" where
  "start_insert ecu len reader meta st =
     (if update_in_progress st
      then (Inl (InvalidRequest ''Runtime update in progress, flash transfer blocked''), st)
      else (Inr \<lparr>task_sender = next_channel st, task_length = len, task_reader = reader\<rparr>,
            st\<lparr>data_transfers := (data_transfers st)(ecu \<mapsto>
                  \<lparr>meta_data = meta, status_receiver = next_channel st\<rparr>),
               next_channel := Suc (next_channel st)\<rparr>))"

definition ecu_flash_transfer_start ::
    "string \<Rightarrow> flash_file option \<Rightarrow> nat \<Rightarrow> nat \<Rightarrow> data_transfer_meta_data \<Rightarrow> unit diag_result
     \<Rightarrow> unit diag_result \<Rightarrow> flash_state \<Rightarrow> transfer_task diag_result \<times> flash_state" where
  "ecu_flash_transfer_start ecu file offset len meta lookup allowed st =
     (case bindE (start_check ecu len st) (\<lambda>_.
           bindE (open_flash_file file offset len) (\<lambda>reader.
           bindE lookup (\<lambda>_. bindE allowed (\<lambda>_. Inr reader)))) of
        Inl e \<Rightarrow> (Inl e, st)
      | Inr reader \<Rightarrow> start_insert ecu len reader meta st)"

text \<open>\<open>None\<close>: the caller waits for the signal of the task. The identifier is not looked at.\<close>

definition ecu_flash_transfer_exit ::
    "string \<Rightarrow> string \<Rightarrow> flash_state \<Rightarrow> (unit diag_result \<times> flash_state) option" where
  "ecu_flash_transfer_exit ecu tid st =
     (case data_transfers st ecu of
        None \<Rightarrow> Some (Inl (NotFound ''Data transfer for ECU not found''), st)
      | Some dt \<Rightarrow>
          if transfer_status (meta_data dt) \<notin> {Aborted, Finished}
          then Some (Inl (InvalidRequest ''Data transfer cannot exit''), st)
          else if status_receiver dt \<in> signalled st
          then Some (Inr (), st\<lparr>data_transfers := (data_transfers st)(ecu := None)\<rparr>)
          else None)"

definition ecu_flash_transfer_status ::
    "string \<Rightarrow> flash_state \<Rightarrow> data_transfer_meta_data list diag_result" where
  "ecu_flash_transfer_status ecu st =
     bindE (ok_or (data_transfers st ecu) (NotFound ''No data transfer running for ECU''))
       (\<lambda>dt. Inr [meta_data dt])"

definition ecu_flash_transfer_status_id ::
    "string \<Rightarrow> string \<Rightarrow> flash_state \<Rightarrow> data_transfer_meta_data diag_result" where
  "ecu_flash_transfer_status_id ecu tid st =
     bindE (ecu_flash_transfer_status ecu st) (\<lambda>ms.
       ok_or (find (\<lambda>m. transfer_id m = tid) ms)
         (NotFound ''Data transfer with id not found for ECU''))"

text \<open>The guard of runtime updates, when the table is not locked.\<close>

definition is_active :: "flash_state \<Rightarrow> bool" where
  "is_active st \<longleftrightarrow> data_transfers st \<noteq> Map.empty"

section \<open>The loop\<close>

lemma data_transfers_update [simp]:
  "data_transfers (update_meta ecu f st) ecu =
     map_option (\<lambda>dt. dt\<lparr>meta_data := f (meta_data dt)\<rparr>) (data_transfers st ecu)"
  by (simp add: update_meta_def)

lemma signalled_update [simp]: "signalled (update_meta ecu f st) = signalled st"
  by (simp add: update_meta_def)

lemma signal_simps [simp]:
  "data_transfers (signal s st) = data_transfers st" "signalled (signal s st) = insert s (signalled st)"
  by (simp_all add: signal_def)

lemma read_exact_Some:
  "read_exact n reader = Some (a, b) \<longleftrightarrow> n \<le> length reader \<and> a = take n reader \<and> b = drop n reader"
  by (auto simp: read_exact_def)

lemma read_exact_None: "length reader < n \<Longrightarrow> read_exact n reader = None"
  by (simp add: read_exact_def)

text \<open>What the loop has done when it returns.\<close>

definition transferred ::
    "string \<Rightarrow> nat \<Rightarrow> nat \<Rightarrow> nat \<Rightarrow> byte \<Rightarrow> byte list \<Rightarrow> unit diag_result list \<Rightarrow> data_transfer_meta_data
     \<Rightarrow> byte list list \<Rightarrow> flash_state \<Rightarrow> bool" where
  "transferred ecu sender block_size remaining counter reader replies m sent st' \<longleftrightarrow>
     concat (map tl sent) = take (length (concat (map tl sent))) reader \<and>
     map hd sent = map (\<lambda>i. counter + of_nat i) [0..<length sent] \<and>
     (\<forall>b \<in> set sent. b \<noteq> [] \<and> length b \<le> Suc block_size) \<and>
     sender \<in> signalled st' \<and>
     (\<exists>dt'. data_transfers st' ecu = Some dt' \<and>
        ((transfer_status (meta_data dt') = Aborted \<and> transfer_error (meta_data dt') \<noteq> None) \<or>
         (transfer_status (meta_data dt') = Finished \<and> length (concat (map tl sent)) = remaining \<and>
          length sent \<le> length replies \<and> list_all is_ok (take (length sent) replies) \<and>
          acknowledged_bytes (meta_data dt') = saturating_add (acknowledged_bytes m) remaining)))"

lemma counters_Cons:
  "map (\<lambda>i. c + of_nat i) [0..<Suc l] = c # map (\<lambda>i. (c + 1 :: byte) + of_nat i) [0..<l]"
proof -
  have "[0..<Suc l] = 0 # map Suc [0..<l]" by (simp add: map_Suc_upt upt_conv_Cons)
  then show ?thesis by (simp add: comp_def algebra_simps)
qed

lemma saturating_add_split: "n \<le> k \<Longrightarrow> saturating_add (saturating_add a n) (k - n) = saturating_add a k"
  by (auto simp: saturating_add_def min_def)

lemma aborted_transferred:
  assumes "data_transfers st ecu = Some dt"
    and "sent = [] \<or> (\<exists>n. sent = [counter # take n reader] \<and> n \<le> block_size)"
  shows "transferred ecu sender block_size remaining counter reader replies m sent
    (set_transfer_aborted ecu reason sender st)"
  using assms by (auto simp: transferred_def set_transfer_aborted_def min_def)

lemma transferred_Cons:
  assumes rest: "transferred ecu sender block_size (remaining - n) (counter + 1) (drop n reader) rest m1 sent st'"
    and n: "n \<le> length reader" "n \<le> block_size" "n \<le> remaining"
    and ack: "acknowledged_bytes m1 = saturating_add (acknowledged_bytes m) n"
  shows "transferred ecu sender block_size remaining counter reader (Inr () # rest) m
    ((counter # take n reader) # sent) st'"
proof -
  let ?k = "length (concat (map tl sent))"
  have pre: "concat (map tl sent) = take ?k (drop n reader)" using rest by (simp add: transferred_def)
  have len: "length (concat (map tl ((counter # take n reader) # sent))) = n + ?k" using n by simp
  have "concat (map tl ((counter # take n reader) # sent)) = take n reader @ take ?k (drop n reader)"
    using pre by simp
  also have "\<dots> = take (n + ?k) reader" by (rule take_add[symmetric])
  finally have concat: "concat (map tl ((counter # take n reader) # sent)) =
      take (length (concat (map tl ((counter # take n reader) # sent)))) reader" unfolding len .
  have "map hd sent = map (\<lambda>i. (counter + 1) + of_nat i) [0..<length sent]"
    using rest unfolding transferred_def by blast
  then have hds: "map hd ((counter # take n reader) # sent) =
      map (\<lambda>i. counter + of_nat i) [0..<length ((counter # take n reader) # sent)]"
    using counters_Cons[of counter "length sent"] by simp
  have sizes: "\<forall>b \<in> set ((counter # take n reader) # sent). b \<noteq> [] \<and> length b \<le> Suc block_size"
    using rest n by (auto simp: transferred_def)
  have sig: "sender \<in> signalled st'" using rest by (simp add: transferred_def)
  obtain dt' where dt': "data_transfers st' ecu = Some dt'"
    and st: "(transfer_status (meta_data dt') = Aborted \<and> transfer_error (meta_data dt') \<noteq> None) \<or>
      (transfer_status (meta_data dt') = Finished \<and> ?k = remaining - n \<and>
       length sent \<le> length rest \<and> list_all is_ok (take (length sent) rest) \<and>
       acknowledged_bytes (meta_data dt') = saturating_add (acknowledged_bytes m1) (remaining - n))"
    using rest unfolding transferred_def by blast
  have "(transfer_status (meta_data dt') = Aborted \<and> transfer_error (meta_data dt') \<noteq> None) \<or>
      (transfer_status (meta_data dt') = Finished \<and>
       length (concat (map tl ((counter # take n reader) # sent))) = remaining \<and>
       length ((counter # take n reader) # sent) \<le> length (Inr () # rest) \<and>
       list_all is_ok (take (length ((counter # take n reader) # sent)) (Inr () # rest)) \<and>
       acknowledged_bytes (meta_data dt') = saturating_add (acknowledged_bytes m) remaining)"
    using st n saturating_add_split[OF n(3), of "acknowledged_bytes m"] unfolding ack len by auto
  then show ?thesis unfolding transferred_def using concat hds sizes sig dt' by blast
qed

lemma acknowledge_Some:
  assumes "data_transfers st ecu = Some dt"
  shows "\<exists>st1 dt1. acknowledge ecu sender counter n remaining st = Some st1 \<and>
    data_transfers st1 ecu = Some dt1 \<and>
    acknowledged_bytes (meta_data dt1) = saturating_add (acknowledged_bytes (meta_data dt)) n \<and>
    status_receiver dt1 = status_receiver dt \<and>
    (remaining = 0 \<longrightarrow> transfer_status (meta_data dt1) = Finished \<and> sender \<in> signalled st1)"
  using assms by (simp add: acknowledge_def Let_def)

lemma finished_transferred:
  assumes "data_transfers st ecu = Some dt1" "transfer_status (meta_data dt1) = Finished"
    "acknowledged_bytes (meta_data dt1) = saturating_add (acknowledged_bytes m) remaining"
    "sender \<in> signalled st" "remaining \<le> length reader" "remaining \<le> block_size"
  shows "transferred ecu sender block_size remaining counter reader (Inr () # rest) m
    [counter # take remaining reader] st"
  using assms by (auto simp: transferred_def)

lemma transfer_loop_transferred:
  "transfer_loop ecu sender block_size remaining counter reader replies st = Some (sent, st') \<Longrightarrow>
   0 < remaining \<Longrightarrow> data_transfers st ecu = Some dt \<Longrightarrow>
   transferred ecu sender block_size remaining counter reader replies (meta_data dt) sent st'"
proof (induction replies arbitrary: remaining counter reader st dt sent)
  case Nil
  then show ?case
    by (auto simp: transfer_loop.simps[of ecu sender block_size remaining counter reader] Let_def
        intro: aborted_transferred split: if_splits option.splits)
next
  case (Cons r rest)
  let ?n = "min block_size remaining"
  consider (big) "remaining > usize_max"
    | (short) "\<not> remaining > usize_max" "length reader < ?n"
    | (error) e where "\<not> remaining > usize_max" "?n \<le> length reader" "r = Inl e"
    | (ok) "\<not> remaining > usize_max" "?n \<le> length reader" "r = Inr ()"
    by (cases "remaining > usize_max"; cases "length reader < ?n"; cases r)
      (auto simp: not_less simp del: min_less_iff_conj)
  then show ?case
  proof cases
    case ok
    obtain st1 dt1 where ack: "acknowledge ecu sender (counter + 1) ?n (remaining - ?n) st = Some st1"
      "data_transfers st1 ecu = Some dt1"
      "acknowledged_bytes (meta_data dt1) = saturating_add (acknowledged_bytes (meta_data dt)) ?n"
      "remaining - ?n = 0 \<longrightarrow> transfer_status (meta_data dt1) = Finished \<and> sender \<in> signalled st1"
      using acknowledge_Some[OF Cons.prems(3)] by metis
    have rd: "read_exact ?n reader = Some (take ?n reader, drop ?n reader)"
      using ok(2) read_exact_Some by blast
    obtain sent1 where rec: "transfer_loop ecu sender block_size (remaining - ?n) (counter + 1)
        (drop ?n reader) rest st1 = Some (sent1, st')" and sent: "sent = (counter # take ?n reader) # sent1"
      using Cons.prems(1,2) ok ack(1) rd
      by (auto simp: transfer_loop.simps[of ecu sender block_size remaining counter reader] Let_def)
    show ?thesis
    proof (cases "remaining - ?n = 0")
      case True
      then have "?n = remaining" by simp
      then show ?thesis
        using finished_transferred[OF ack(2)] ack True rec sent ok(2,3)
        by (simp add: transfer_loop.simps[of ecu sender block_size 0])
    next
      case False
      then show ?thesis
        using transferred_Cons[OF Cons.IH[OF rec _ ack(2)] ok(2) _ _ ack(3)] sent ok(3) by simp
    qed
  next
    case big
    then show ?thesis
      using Cons.prems aborted_transferred
      by (auto simp: transfer_loop.simps[of ecu sender block_size remaining counter reader])
  next
    case short
    then have "sent = [] \<and> st' = set_transfer_aborted ecu ''Failed to read data'' sender st"
      using Cons.prems(1,2) read_exact_None[OF short(2)]
      by (simp add: transfer_loop.simps[of ecu sender block_size remaining counter reader])
    then show ?thesis using aborted_transferred[OF Cons.prems(3)] by simp
  next
    case error
    have "read_exact ?n reader = Some (take ?n reader, drop ?n reader)"
      using error(2) read_exact_Some by blast
    then have "sent = [counter # take ?n reader] \<and>
        st' = set_transfer_aborted ecu ''Failed to read data'' sender st"
      using Cons.prems(1,2) error
      by (simp add: transfer_loop.simps[of ecu sender block_size remaining counter reader])
    moreover have "\<exists>n. [counter # take ?n reader] = [counter # take n reader] \<and> n \<le> block_size"
      by (intro exI[of _ ?n]) simp
    ultimately show ?thesis using aborted_transferred[OF Cons.prems(3) disjI2] by blast
  qed
qed

text \<open>With enough positive answers and enough data the loop ends and the transfer is finished.\<close>

lemma blocks_step:
  assumes "0 < bs" "0 < r"
  shows "(r + bs - 1) div bs = Suc ((r - min bs r + bs - 1) div bs)"
proof -
  have "(r + bs - 1) div bs = Suc ((r + bs - 1 - bs) div bs)" using assms by (intro le_div_geq) auto
  also have "(r + bs - 1 - bs) div bs = (r - min bs r + bs - 1) div bs"
    using assms by (cases "r \<le> bs") (auto simp: min_def)
  finally show ?thesis .
qed

lemma transfer_loop_succeeds:
  "0 < bs \<Longrightarrow> remaining \<le> usize_max \<Longrightarrow> remaining \<le> length reader \<Longrightarrow> list_all is_ok replies \<Longrightarrow>
   remaining \<le> bs * length replies \<Longrightarrow> data_transfers st ecu = Some dt \<Longrightarrow>
   \<exists>sent st' dt'. transfer_loop ecu sender bs remaining counter reader replies st = Some (sent, st') \<and>
     length sent = (remaining + bs - 1) div bs \<and> data_transfers st' ecu = Some dt' \<and>
     status_receiver dt' = status_receiver dt \<and>
     (0 < remaining \<longrightarrow> transfer_status (meta_data dt') = Finished)"
proof (induction replies arbitrary: remaining counter reader st dt)
  case Nil
  then show ?case by (simp add: transfer_loop.simps)
next
  case (Cons r rest)
  let ?n = "min bs remaining"
  show ?case
  proof (cases "remaining = 0")
    case True
    then show ?thesis using Cons.prems by (simp add: transfer_loop.simps)
  next
    case False
    obtain st1 dt1 where ack: "acknowledge ecu sender (counter + 1) ?n (remaining - ?n) st = Some st1"
      "data_transfers st1 ecu = Some dt1" "status_receiver dt1 = status_receiver dt"
      "remaining - ?n = 0 \<longrightarrow> transfer_status (meta_data dt1) = Finished"
      using acknowledge_Some[OF Cons.prems(6)] by metis
    have rd: "read_exact ?n reader = Some (take ?n reader, drop ?n reader)"
      using Cons.prems(3) read_exact_Some[of ?n reader] by auto
    have le: "remaining - ?n \<le> usize_max" "remaining - ?n \<le> length (drop ?n reader)"
      "list_all is_ok rest" "remaining - ?n \<le> bs * length rest"
      using Cons.prems by (cases "remaining \<le> bs"; simp)+
    obtain sent st' dt' where ih: "transfer_loop ecu sender bs (remaining - ?n) (counter + 1)
        (drop ?n reader) rest st1 = Some (sent, st')" "length sent = (remaining - ?n + bs - 1) div bs"
      "data_transfers st' ecu = Some dt'" "status_receiver dt' = status_receiver dt1"
      "0 < remaining - ?n \<longrightarrow> transfer_status (meta_data dt') = Finished"
      using Cons.IH[OF Cons.prems(1) le ack(2)] by blast
    have loop: "transfer_loop ecu sender bs remaining counter reader (r # rest) st =
        Some ((counter # take ?n reader) # sent, st')"
      using False Cons.prems(2,4) rd ack(1) ih(1)
      by (cases r) (simp_all add: transfer_loop.simps[of ecu sender bs remaining counter reader])
    have "transfer_status (meta_data dt') = Finished"
    proof (cases "remaining - ?n = 0")
      case True
      then have "st' = st1" using ih(1) by (simp add: transfer_loop.simps)
      then show ?thesis using ack(2,4) ih(3) True by simp
    qed (use ih(5) in simp)
    then show ?thesis
      using loop ih blocks_step[OF Cons.prems(1), of remaining] False ack(3) by auto
  qed
qed

section \<open>Properties\<close>

lemma start_ok:
  assumes "ecu_flash_transfer_start ecu (Some file) offset len meta lookup allowed st = (Inr task, st1)"
  shows "0 < len" "saturating_add offset len \<le> length (content file)"
    "task = \<lparr>task_sender = next_channel st, task_length = len, task_reader = drop offset (content file)\<rparr>"
    "st1 = st\<lparr>data_transfers := (data_transfers st)(ecu \<mapsto>
        \<lparr>meta_data = meta, status_receiver = next_channel st\<rparr>), next_channel := Suc (next_channel st)\<rparr>"
proof -
  obtain reader where pre: "bindE (start_check ecu len st) (\<lambda>_.
      bindE (open_flash_file (Some file) offset len) (\<lambda>reader.
      bindE lookup (\<lambda>_. bindE allowed (\<lambda>_. Inr reader)))) = Inr reader"
    and ins: "start_insert ecu len reader meta st = (Inr task, st1)"
    using assms unfolding ecu_flash_transfer_start_def by (auto split: sum.splits)
  from pre have c: "start_check ecu len st = Inr ()" and o: "open_flash_file (Some file) offset len = Inr reader"
    by (auto simp: bindE_Inr_iff)
  show "0 < len" using c by (auto simp: start_check_def split: if_splits)
  have "saturating_add offset len \<le> length (content file) \<and> reader = drop offset (content file)"
    using o by (auto simp: open_flash_file_def split: if_splits)
  then show "saturating_add offset len \<le> length (content file)"
    "task = \<lparr>task_sender = next_channel st, task_length = len, task_reader = drop offset (content file)\<rparr>"
    "st1 = st\<lparr>data_transfers := (data_transfers st)(ecu \<mapsto>
        \<lparr>meta_data = meta, status_receiver = next_channel st\<rparr>), next_channel := Suc (next_channel st)\<rparr>"
    using ins by (auto simp: start_insert_def split: if_splits)
qed

text \<open>
  C17: A flash transfer delivers the file. When a transfer was started, the block size is not zero
  and the ECU answers every block, the task ends after exactly as many requests as blocks are
  needed; the data of the requests, in order, is the requested region of the file, no request
  exceeds the block size, the block counters count up from the given one and wrap at 256, the
  status is finished with all bytes acknowledged, and the exit then succeeds and makes room for
  the next transfer.
\<close>

theorem flash_transfer_delivers:
  assumes "ecu_flash_transfer_start ecu (Some file) offset len meta lookup allowed st = (Inr task, st1)"
    and "offset + len \<le> usize_max" and "acknowledged_bytes meta = 0"
    and "0 < blocksize meta" and "list_all is_ok replies" and "len \<le> blocksize meta * length replies"
  shows "\<exists>sent st2 dt. transfer_ecu_data ecu (task_length task) (task_sender task) (task_reader task) replies st1 =
      Some (sent, st2) \<and>
    length sent = (len + blocksize meta - 1) div blocksize meta \<and>
    concat (map tl sent) = take len (drop offset (content file)) \<and>
    map hd sent = map (\<lambda>i. next_block_sequence_counter meta + of_nat i) [0..<length sent] \<and>
    (\<forall>b \<in> set sent. length b \<le> Suc (blocksize meta)) \<and>
    data_transfers st2 ecu = Some dt \<and> transfer_status (meta_data dt) = Finished \<and>
    acknowledged_bytes (meta_data dt) = len \<and>
    ecu_flash_transfer_exit ecu tid st2 =
      Some (Inr (), st2\<lparr>data_transfers := (data_transfers st2)(ecu := None)\<rparr>)"
proof -
  let ?bs = "blocksize meta" and ?c = "next_block_sequence_counter meta"
  let ?rd = "drop offset (content file)" and ?s = "next_channel st"
  let ?dt = "\<lparr>meta_data = meta\<lparr>transfer_status := Running\<rparr>, status_receiver = ?s\<rparr>"
  define st0 where "st0 = update_meta ecu (\<lambda>m. m\<lparr>transfer_status := Running\<rparr>) st1"
  note ok = start_ok[OF assms(1)]
  have sat: "saturating_add offset len = offset + len" using assms(2) by (rule saturating_add_exact)
  have fits: "len \<le> usize_max" "len \<le> length ?rd" using ok(2) assms(2) unfolding sat by simp_all
  have dt0: "data_transfers st0 ecu = Some ?dt" using ok(4) by (simp add: st0_def)
  obtain sent st2 dt where loop: "transfer_loop ecu ?s ?bs len ?c ?rd replies st0 = Some (sent, st2)"
    "length sent = (len + ?bs - 1) div ?bs" "data_transfers st2 ecu = Some dt" "status_receiver dt = ?s"
    "transfer_status (meta_data dt) = Finished"
    using transfer_loop_succeeds[OF assms(4) fits assms(5,6) dt0, of ?s ?c] ok(1) by auto
  have tr: "transferred ecu ?s ?bs len ?c ?rd replies (meta\<lparr>transfer_status := Running\<rparr>) sent st2"
    using transfer_loop_transferred[OF loop(1) ok(1) dt0] by simp
  have total: "length (concat (map tl sent)) = len"
    and "acknowledged_bytes (meta_data dt) = saturating_add (acknowledged_bytes meta) len"
    using tr loop(3,5) by (auto simp: transferred_def)
  then have ack: "acknowledged_bytes (meta_data dt) = len"
    using assms(3) fits(1) by (simp add: saturating_add_def)
  have data: "concat (map tl sent) = take len ?rd" using tr total unfolding transferred_def by metis
  have run: "transfer_ecu_data ecu (task_length task) (task_sender task) (task_reader task) replies st1 =
      Some (sent, st2)"
    using loop(1) ok(3,4) by (simp add: transfer_ecu_data_def st0_def)
  have exit: "ecu_flash_transfer_exit ecu tid st2 =
      Some (Inr (), st2\<lparr>data_transfers := (data_transfers st2)(ecu := None)\<rparr>)"
    using tr loop(3-5) by (simp add: ecu_flash_transfer_exit_def transferred_def)
  have "map hd sent = map (\<lambda>i. ?c + of_nat i) [0..<length sent]" "\<forall>b \<in> set sent. length b \<le> Suc ?bs"
    using tr by (auto simp: transferred_def)
  then show ?thesis using run loop data ack exit by blast
qed

text \<open>
  C34: No transfer is reported as finished that was not. Whatever the ECU answers and however long
  the file is, when the task ends the requests it sent carry a prefix of the file region with
  consecutive block counters, the exit is unblocked, and the status is aborted with a reason, or
  finished, and then every byte was sent and every request was answered without an error.
\<close>

theorem flash_transfer_honest:
  assumes "data_transfers st ecu = Some dt" and "0 < len"
    and "transfer_ecu_data ecu len sender reader replies st = Some (sent, st')"
  shows "transferred ecu sender (blocksize (meta_data dt)) len
    (next_block_sequence_counter (meta_data dt)) reader replies (meta_data dt) sent st'"
proof -
  let ?st0 = "update_meta ecu (\<lambda>m. m\<lparr>transfer_status := Running\<rparr>) st"
  have "transferred ecu sender (blocksize (meta_data dt)) len (next_block_sequence_counter (meta_data dt))
      reader replies ((meta_data dt)\<lparr>transfer_status := Running\<rparr>) sent st'"
    using transfer_loop_transferred[of ecu sender "blocksize (meta_data dt)" len
        "next_block_sequence_counter (meta_data dt)" reader replies ?st0 sent st'] assms
    by (auto simp: transfer_ecu_data_def)
  then show ?thesis by (simp add: transferred_def)
qed

section \<open>Samples\<close>

definition demo_meta :: data_transfer_meta_data where
  "demo_meta = \<lparr>acknowledged_bytes = 0, blocksize = 2, next_block_sequence_counter = 255,
     transfer_id = ''t'', file_id = ''f'', transfer_status = Queued, transfer_error = None\<rparr>"

definition demo_file :: flash_file where
  "demo_file = \<lparr>content = [10, 11, 12, 13, 14], metadata_ok = True, seek_ok = True\<rparr>"

definition idle_flash :: flash_state where
  "idle_flash = \<lparr>data_transfers = Map.empty, signalled = {}, next_channel = 0, update_in_progress = False\<rparr>"

definition demo_task :: transfer_task where
  "demo_task = \<lparr>task_sender = 0, task_length = 3, task_reader = [11, 12, 13, 14]\<rparr>"

definition started_flash :: flash_state where
  "started_flash = idle_flash\<lparr>data_transfers := [''ecu'' \<mapsto> \<lparr>meta_data = demo_meta, status_receiver = 0\<rparr>],
     next_channel := 1\<rparr>"

lemma demo_start: "ecu_flash_transfer_start ''ecu'' (Some demo_file) 1 3 demo_meta (Inr ()) (Inr ()) idle_flash =
  (Inr demo_task, started_flash)"
  by (simp add: ecu_flash_transfer_start_def start_check_def open_flash_file_def start_insert_def
      demo_file_def idle_flash_def demo_task_def started_flash_def saturating_add_def usize_max_def)

theorem flash_transfer_delivers_witness:
  "\<exists>sent st2. transfer_ecu_data ''ecu'' 3 0 [11, 12, 13, 14] [Inr (), Inr ()] started_flash = Some (sent, st2) \<and>
     concat (map tl sent) = [11, 12, 13]"
  using flash_transfer_delivers[OF demo_start, of "[Inr (), Inr ()]" "''t''"]
  by (auto simp: demo_task_def demo_meta_def demo_file_def usize_max_def)

theorem flash_transfer_honest_witness:
  "\<exists>sent st'. transfer_ecu_data ''ecu'' 3 0 [11, 12, 13, 14] [Inr (), Inl Timeout] started_flash = Some (sent, st') \<and>
     transferred ''ecu'' 0 2 3 255 [11, 12, 13, 14] [Inr (), Inl Timeout] demo_meta sent st'"
proof -
  have s: "data_transfers started_flash ''ecu'' = Some \<lparr>meta_data = demo_meta, status_receiver = 0\<rparr>"
    by (simp add: started_flash_def)
  obtain sent st' where
    "transfer_ecu_data ''ecu'' 3 0 [11, 12, 13, 14] [Inr (), Inl Timeout] started_flash = Some (sent, st')"
    by (auto simp: transfer_ecu_data_def s demo_meta_def transfer_loop.simps usize_max_def read_exact_def
        acknowledge_def Let_def)
  from this flash_transfer_honest[OF s _ this] show ?thesis by (auto simp: demo_meta_def)
qed

section \<open>Where the code does less\<close>

text \<open>With a block size of zero the task sends empty blocks for ever.\<close>

theorem zero_blocksize_never_ends:
  "0 < len \<Longrightarrow> len \<le> usize_max \<Longrightarrow> list_all is_ok replies \<Longrightarrow> data_transfers st ecu = Some dt \<Longrightarrow>
   transfer_loop ecu sender 0 len counter reader replies st = None"
proof (induction replies arbitrary: counter st dt)
  case (Cons r rest)
  obtain st1 dt1 where "acknowledge ecu sender (counter + 1) 0 len st = Some st1"
    "data_transfers st1 ecu = Some dt1"
    using acknowledge_Some[OF Cons.prems(4)] by metis
  then show ?case
    using Cons by (cases r) (simp_all add: transfer_loop.simps[of ecu sender 0 len] read_exact_def)
qed (simp add: transfer_loop.simps read_exact_def)

text \<open>
  The check for a running transfer and the entry in the table are separate critical sections, so
  two starts that both pass the check both start a task, and the second replaces the entry of the
  first.
\<close>

theorem concurrent_start_replaces:
  "start_check ''ecu'' 3 idle_flash = Inr () \<and>
   (\<exists>task2 st2. start_insert ''ecu'' 3 [1, 2, 3] (demo_meta\<lparr>transfer_id := ''u''\<rparr>) started_flash =
      (Inr task2, st2) \<and>
    ecu_flash_transfer_status_id ''ecu'' ''t'' st2 =
      Inl (NotFound ''Data transfer with id not found for ECU''))"
  by (simp add: start_check_def start_insert_def idle_flash_def started_flash_def demo_meta_def
      ecu_flash_transfer_status_id_def ecu_flash_transfer_status_def)

end
