(* ===== verification/Ieee_Float.thy ===== *)
theory Ieee_Float
  imports Hex_Text "HOL-Library.Log_Nat"
begin

text \<open>
  The binary floating-point arithmetic of the language as far as the conversions of
  \<open>cda-core/src/diag_kernel/operations.rs\<close> use it: \<open>f32\<close> and \<open>f64\<close> values are their bit
  patterns, so \<open>from_be_bytes\<close> and \<open>to_be_bytes\<close> are the byte order alone. A finite value is
  a whole number of units, a unit being the smallest positive number of the format
  (\<open>2\<^sup>-\<^sup>1\<^sup>0\<^sup>7\<^sup>4\<close> for \<open>f64\<close>, \<open>2\<^sup>-\<^sup>1\<^sup>4\<^sup>9\<close> for \<open>f32\<close>); every operation computes the exact result as
  a fraction of units and rounds it once, to nearest with ties to even. A result that is not a
  number is the canonical quiet NaN, where the language leaves sign and payload open.
\<close>

section \<open>Formats and values\<close>

record float_format =
  frac_bits :: nat
  exp_bits :: nat
  unit_exp :: nat

definition binary64 :: float_format where
  "binary64 = \<lparr>frac_bits = 52, exp_bits = 11, unit_exp = 1074\<rparr>"

definition binary32 :: float_format where
  "binary32 = \<lparr>frac_bits = 23, exp_bits = 8, unit_exp = 149\<rparr>"

type_synonym f64 = "64 word"
type_synonym f32 = "32 word"

datatype fp = FpNaN | FpInf bool | FpFin bool nat

definition inf_mag :: "float_format \<Rightarrow> nat" where
  "inf_mag fmt = (2 ^ exp_bits fmt - 1) * 2 ^ frac_bits fmt"

definition sign_bit :: "float_format \<Rightarrow> nat" where
  "sign_bit fmt = 2 ^ (frac_bits fmt + exp_bits fmt)"

definition fp_units :: "float_format \<Rightarrow> nat \<Rightarrow> nat" where
  "fp_units fmt mag =
     (let e = mag div 2 ^ frac_bits fmt; m = mag mod 2 ^ frac_bits fmt
      in if e = 0 then m else (2 ^ frac_bits fmt + m) * 2 ^ (e - 1))"

definition fp_decode :: "float_format \<Rightarrow> nat \<Rightarrow> fp" where
  "fp_decode fmt bits =
     (let mag = bits mod sign_bit fmt; neg = (bits div sign_bit fmt \<noteq> 0)
      in if mag > inf_mag fmt then FpNaN
         else if mag = inf_mag fmt then FpInf neg
         else FpFin neg (fp_units fmt mag))"

definition round_half_even :: "nat \<Rightarrow> nat \<Rightarrow> nat" where
  "round_half_even n d =
     (let q = n div d; r = n mod d
      in if 2 * r < d \<or> (2 * r = d \<and> even q) then q else q + 1)"

definition round_units :: "float_format \<Rightarrow> nat \<Rightarrow> nat \<Rightarrow> nat" where
  "round_units fmt n d =
     (let q = floorlog 2 (n div d) - (frac_bits fmt + 1)
      in min (inf_mag fmt) (q * 2 ^ frac_bits fmt + round_half_even n (d * 2 ^ q)))"

definition fp_bits :: "float_format \<Rightarrow> bool \<Rightarrow> nat \<Rightarrow> nat" where
  "fp_bits fmt neg mag = (if neg then sign_bit fmt else 0) + mag"

definition dec64 :: "f64 \<Rightarrow> fp" where
  "dec64 x = fp_decode binary64 (unat x)"

definition dec32 :: "f32 \<Rightarrow> fp" where
  "dec32 x = fp_decode binary32 (unat x)"

definition mk64 :: "bool \<Rightarrow> nat \<Rightarrow> f64" where
  "mk64 neg mag = of_nat (fp_bits binary64 neg mag)"

definition mk32 :: "bool \<Rightarrow> nat \<Rightarrow> f32" where
  "mk32 neg mag = of_nat (fp_bits binary32 neg mag)"

definition nan64 :: f64 where
  "nan64 = mk64 False (inf_mag binary64 + 2 ^ 51)"

definition nan32 :: f32 where
  "nan32 = mk32 False (inf_mag binary32 + 2 ^ 22)"

definition inf64 :: "bool \<Rightarrow> f64" where
  "inf64 neg = mk64 neg (inf_mag binary64)"

definition inf32 :: "bool \<Rightarrow> f32" where
  "inf32 neg = mk32 neg (inf_mag binary32)"

text \<open>The number 1 in units.\<close>

definition unit_of :: "float_format \<Rightarrow> nat" where
  "unit_of fmt = 2 ^ unit_exp fmt"

definition unit64 :: nat where
  "unit64 = unit_of binary64"

section \<open>Arithmetic, comparison and casts\<close>

definition signed :: "bool \<Rightarrow> nat \<Rightarrow> int" where
  "signed neg n = (if neg then - int n else int n)"

definition f64_neg :: "f64 \<Rightarrow> f64" where
  "f64_neg x = (case dec64 x of
      FpNaN \<Rightarrow> x
    | FpInf s \<Rightarrow> inf64 (\<not> s)
    | FpFin s n \<Rightarrow> mk64 (\<not> s) (unat x mod sign_bit binary64))"

definition f64_add :: "f64 \<Rightarrow> f64 \<Rightarrow> f64" where
  "f64_add x y = (case (dec64 x, dec64 y) of
      (FpFin a m, FpFin b n) \<Rightarrow>
        let z = signed a m + signed b n
        in if z = 0 then mk64 (a \<and> b) 0 else mk64 (z < 0) (round_units binary64 (nat \<bar>z\<bar>) 1)
    | (FpNaN, _) \<Rightarrow> nan64
    | (_, FpNaN) \<Rightarrow> nan64
    | (FpInf a, FpInf b) \<Rightarrow> if a = b then inf64 a else nan64
    | (FpInf a, _) \<Rightarrow> inf64 a
    | (_, FpInf b) \<Rightarrow> inf64 b)"

definition f64_sub :: "f64 \<Rightarrow> f64 \<Rightarrow> f64" where
  "f64_sub x y = f64_add x (f64_neg y)"

definition f64_mul :: "f64 \<Rightarrow> f64 \<Rightarrow> f64" where
  "f64_mul x y = (case (dec64 x, dec64 y) of
      (FpFin a m, FpFin b n) \<Rightarrow> mk64 (a \<noteq> b) (round_units binary64 (m * n) (unit64))
    | (FpNaN, _) \<Rightarrow> nan64
    | (_, FpNaN) \<Rightarrow> nan64
    | (FpInf a, FpInf b) \<Rightarrow> inf64 (a \<noteq> b)
    | (FpInf a, FpFin b n) \<Rightarrow> if n = 0 then nan64 else inf64 (a \<noteq> b)
    | (FpFin a m, FpInf b) \<Rightarrow> if m = 0 then nan64 else inf64 (a \<noteq> b))"

definition f64_div :: "f64 \<Rightarrow> f64 \<Rightarrow> f64" where
  "f64_div x y = (case (dec64 x, dec64 y) of
      (FpFin a m, FpFin b n) \<Rightarrow>
        if n = 0 then (if m = 0 then nan64 else inf64 (a \<noteq> b))
        else mk64 (a \<noteq> b) (round_units binary64 (m * unit64) n)
    | (FpNaN, _) \<Rightarrow> nan64
    | (_, FpNaN) \<Rightarrow> nan64
    | (FpInf a, FpInf b) \<Rightarrow> nan64
    | (FpInf a, FpFin b n) \<Rightarrow> inf64 (a \<noteq> b)
    | (FpFin a m, FpInf b) \<Rightarrow> mk64 (a \<noteq> b) 0)"

fun fp_lt :: "fp \<Rightarrow> fp \<Rightarrow> bool" where
  "fp_lt (FpFin a m) (FpFin b n) = (signed a m < signed b n)"
| "fp_lt (FpInf a) (FpInf b) = (a \<and> \<not> b)"
| "fp_lt (FpInf a) (FpFin b n) = a"
| "fp_lt (FpFin a m) (FpInf b) = (\<not> b)"
| "fp_lt x y = False"

fun fp_eq :: "fp \<Rightarrow> fp \<Rightarrow> bool" where
  "fp_eq (FpFin a m) (FpFin b n) = (signed a m = signed b n)"
| "fp_eq (FpInf a) (FpInf b) = (a = b)"
| "fp_eq x y = False"

definition fp_le :: "fp \<Rightarrow> fp \<Rightarrow> bool" where
  "fp_le x y \<longleftrightarrow> fp_lt x y \<or> fp_eq x y"

fun fp_finite :: "fp \<Rightarrow> bool" where
  "fp_finite (FpFin a m) = True"
| "fp_finite x = False"

definition f64_of_int :: "int \<Rightarrow> f64" where
  "f64_of_int z = mk64 (z < 0) (round_units binary64 (nat \<bar>z\<bar> * unit64) 1)"

definition f32_of_f64 :: "f64 \<Rightarrow> f32" where
  "f32_of_f64 x = (case dec64 x of
      FpNaN \<Rightarrow> nan32
    | FpInf a \<Rightarrow> inf32 a
    | FpFin a m \<Rightarrow> mk32 a (round_units binary32 m (2 ^ (1074 - 149))))"

definition f64_of_f32 :: "f32 \<Rightarrow> f64" where
  "f64_of_f32 x = (case dec32 x of
      FpNaN \<Rightarrow> nan64
    | FpInf a \<Rightarrow> inf64 a
    | FpFin a m \<Rightarrow> mk64 a (round_units binary64 (m * 2 ^ (1074 - 149)) 1))"

text \<open>\<open>x as T\<close> for an integer type with bounds \<open>lo\<close> and \<open>hi\<close>: truncation, saturation, NaN to 0.\<close>

definition fp_as_int :: "float_format \<Rightarrow> int \<Rightarrow> int \<Rightarrow> fp \<Rightarrow> int" where
  "fp_as_int fmt lo hi x = (case x of
      FpNaN \<Rightarrow> 0
    | FpInf a \<Rightarrow> if a then lo else hi
    | FpFin a m \<Rightarrow> max lo (min hi (signed a (m div unit_of fmt))))"

section \<open>Decimal text\<close>

definition is_digit :: "char \<Rightarrow> bool" where
  "is_digit c \<longleftrightarrow> 48 \<le> code c \<and> code c \<le> 57"

definition dec_val :: "string \<Rightarrow> nat" where
  "dec_val = foldl (\<lambda>a c. a * 10 + (code c - 48)) 0"

definition split_sign :: "string \<Rightarrow> bool \<times> string" where
  "split_sign s = (case s of
      [] \<Rightarrow> (False, [])
    | c # cs \<Rightarrow> if c = CHR ''-'' then (True, cs) else if c = CHR ''+'' then (False, cs) else (False, s))"

definition parse_exponent :: "string \<Rightarrow> int option" where
  "parse_exponent s = (case s of
      [] \<Rightarrow> Some 0
    | c # cs \<Rightarrow>
        if c = CHR ''e'' \<or> c = CHR ''E'' then
          (let (neg, ds) = split_sign cs
           in if ds \<noteq> [] \<and> list_all is_digit ds then Some (signed neg (dec_val ds)) else None)
        else None)"

definition parse_number :: "string \<Rightarrow> (nat \<times> int) option" where
  "parse_number s =
     (let whole = takeWhile is_digit s;
          rest = dropWhile is_digit s;
          has_point = (rest \<noteq> [] \<and> hd rest = CHR ''.'');
          frac = (if has_point then takeWhile is_digit (tl rest) else []);
          rest' = (if has_point then dropWhile is_digit (tl rest) else rest)
      in if whole @ frac = [] then None
         else map_option (\<lambda>e. (dec_val (whole @ frac), e - int (length frac))) (parse_exponent rest'))"

definition parse_float :: "float_format \<Rightarrow> string \<Rightarrow> nat option" where
  "parse_float fmt s =
     (let (neg, body) = split_sign s in
      if eq_ignore_ascii_case body ''inf'' \<or> eq_ignore_ascii_case body ''infinity''
      then Some (fp_bits fmt neg (inf_mag fmt))
      else if eq_ignore_ascii_case body ''nan''
      then Some (fp_bits fmt neg (inf_mag fmt + 2 ^ (frac_bits fmt - 1)))
      else map_option (\<lambda>(n, e).
             fp_bits fmt neg
               (if 0 \<le> e then round_units fmt (n * 10 ^ nat e * unit_of fmt) 1
                else round_units fmt (n * unit_of fmt) (10 ^ nat (- e))))
           (parse_number body))"

definition parse_f64 :: "string \<Rightarrow> f64 option" where
  "parse_f64 s = map_option of_nat (parse_float binary64 s)"

definition parse_f32 :: "string \<Rightarrow> f32 option" where
  "parse_f32 s = map_option of_nat (parse_float binary32 s)"

section \<open>Exactness on whole numbers\<close>

lemma round_half_even_exact: "0 < d \<Longrightarrow> round_half_even (k * d) d = k"
  by (simp add: round_half_even_def)

lemma floorlog_dvd_split:
  assumes "0 < u"
  shows "u < 2 ^ floorlog 2 u" "2 ^ (floorlog 2 u - 1) \<le> u"
  using floorlog_bounds[of u 2] assms by auto

text \<open>A multiple of the rounding step that fits the format is represented exactly.\<close>

lemma round_units_exact:
  assumes d: "0 < d" and u: "0 < u" and step: "2 ^ (floorlog 2 u - (frac_bits fmt + 1)) dvd u"
    and fits: "floorlog 2 u \<le> frac_bits fmt + 2 ^ exp_bits fmt - 2" and e: "2 \<le> exp_bits fmt"
  shows "fp_units fmt (round_units fmt (u * d) d) = u"
    and "round_units fmt (u * d) d < inf_mag fmt"
proof -
  define f where "f = frac_bits fmt"
  define q where "q = floorlog 2 u - (f + 1)"
  obtain m where m: "u = m * 2 ^ q" using step by (auto simp: dvd_def q_def f_def mult.commute)
  have m0: "0 < m" using u m by auto
  have "u < 2 ^ (f + 1 + q)"
    using floorlog_dvd_split(1)[OF u] by (rule less_le_trans) (rule power_increasing, auto simp: q_def)
  then have mlt: "m < 2 ^ (f + 1)" unfolding m power_add by simp
  have mge: "2 ^ f \<le> m" if "0 < q"
  proof -
    have "floorlog 2 u - 1 = f + q" using that by (simp add: q_def)
    then have "2 ^ f * 2 ^ q \<le> m * 2 ^ q"
      using floorlog_dvd_split(2)[OF u] unfolding m by (simp add: power_add)
    then show ?thesis by simp
  qed
  have r: "round_half_even (u * d) (d * 2 ^ q) = m"
    using round_half_even_exact[of "d * 2 ^ q" m] d by (simp add: m ac_simps)
  have pow: "(4::nat) \<le> 2 ^ exp_bits fmt"
    using power_increasing[OF e, of "2::nat"] by simp
  have "q \<le> 2 ^ exp_bits fmt - 3" using fits pow by (simp add: q_def f_def)
  then have "q + 2 \<le> 2 ^ exp_bits fmt - 1" using pow by linarith
  then have "(q + 2) * 2 ^ f \<le> inf_mag fmt"
    unfolding inf_mag_def f_def by (rule mult_right_mono) simp
  moreover have "q * 2 ^ f + m < (q + 2) * 2 ^ f" using mlt by simp
  ultimately have lt: "q * 2 ^ f + m < inf_mag fmt" by linarith
  have mag: "round_units fmt (u * d) d = q * 2 ^ f + m"
    using lt d by (simp add: round_units_def Let_def r[unfolded q_def f_def, simplified]
        f_def q_def[unfolded f_def])
  then show "round_units fmt (u * d) d < inf_mag fmt" using lt by simp
  show "fp_units fmt (round_units fmt (u * d) d) = u"
  proof (cases "m < 2 ^ f")
    case True
    then have "q = 0" using mge by (cases "q = 0") auto
    then show ?thesis using True m unfolding mag by (simp add: fp_units_def flip: f_def)
  next
    case False
    then have "m div 2 ^ f = 1" using mlt by (simp add: div_nat_eqI)
    moreover have "m mod 2 ^ f = m - 2 ^ f"
      using False mlt by (simp add: mod_if le_mod_geq)
    ultimately show ?thesis using False m unfolding mag
      by (simp add: fp_units_def Let_def flip: f_def)
  qed
qed

lemma unit64_pos [simp]: "0 < unit64" "unit64 \<noteq> 0"
  by (simp_all add: unit64_def unit_of_def)

lemma unit64_power: "unit64 = 2 ^ 1074"
  unfolding unit64_def unit_of_def by (simp add: binary64_def)

lemma unit_of_64 [simp]: "unit_of binary64 = unit64"
  by (simp add: unit64_def)

lemma binary64_simps [simp]:
  "frac_bits binary64 = 52" "exp_bits binary64 = 11" "unit_exp binary64 = 1074"
  by (simp_all add: binary64_def)

lemma inf_mag64: "inf_mag binary64 < 2 ^ 63" "sign_bit binary64 = 2 ^ 63"
  by (simp_all add: inf_mag_def sign_bit_def)

lemma dec64_mk64:
  assumes "mag < inf_mag binary64"
  shows "dec64 (mk64 neg mag) = FpFin neg (fp_units binary64 mag)"
proof -
  have lt: "mag < 2 ^ 63" using assms inf_mag64(1) by linarith
  then have "fp_bits binary64 neg mag < 2 ^ LENGTH(64)"
    by (simp add: fp_bits_def inf_mag64)
  then have "unat (mk64 neg mag) = fp_bits binary64 neg mag"
    by (simp add: mk64_def unat_of_nat)
  then show ?thesis
    using assms lt by (simp add: dec64_def fp_decode_def fp_bits_def inf_mag64)
qed

text \<open>\<open>denotes x z\<close>: the value of the \<open>f64\<close> is the whole number \<open>z\<close> (either zero denotes 0).\<close>

definition denotes :: "f64 \<Rightarrow> int \<Rightarrow> bool" where
  "denotes x z \<longleftrightarrow> (\<exists>s m. dec64 x = FpFin s (m * unit64) \<and> signed s m = z)"

lemma signed_abs [simp]: "signed (z < 0) (nat \<bar>z\<bar>) = z"
  by (simp add: signed_def)

lemma signed_scale: "signed s (m * k) = signed s m * int k"
  by (simp add: signed_def)

lemma denotes_zero: "denotes (mk64 s 0) 0"
  by (simp add: denotes_def dec64_mk64 inf_mag_def fp_units_def signed_def)

lemma floorlog_le_53: "m < 2 ^ 53 \<Longrightarrow> floorlog 2 m \<le> 53"
  using floorlog_le_iff[of 2 m 53] by simp

lemma denotes_round:
  assumes d: "0 < d" and m: "m < 2 ^ 53"
  shows "denotes (mk64 s (round_units binary64 (m * unit64 * d) d)) (signed s m)"
proof (cases "m = 0")
  case True
  then show ?thesis
    using d by (simp add: denotes_zero round_units_def round_half_even_def floorlog_def signed_def)
next
  case False
  let ?u = "m * unit64"
  have fl: "floorlog 2 ?u = floorlog 2 m + 1074" using False floorlog_power[of m 2 1074] by (simp only: unit64_power)
  have le: "floorlog 2 m \<le> 53" using m by (rule floorlog_le_53)
  have "floorlog 2 ?u - (frac_bits binary64 + 1) \<le> 1074" using le by (simp add: fl)
  then have "2 ^ (floorlog 2 ?u - (frac_bits binary64 + 1)) dvd unit64"
    unfolding unit64_power by (rule le_imp_power_dvd)
  then have dv: "2 ^ (floorlog 2 ?u - (frac_bits binary64 + 1)) dvd ?u" by (rule dvd_mult)
  have fits: "floorlog 2 ?u \<le> frac_bits binary64 + 2 ^ exp_bits binary64 - 2"
    using le by (simp add: fl)
  have "0 < ?u" using False by simp
  note ex = round_units_exact[OF d this dv fits]
  have "dec64 (mk64 s (round_units binary64 (?u * d) d)) = FpFin s ?u"
    using ex by (simp add: dec64_mk64)
  then show ?thesis unfolding denotes_def by blast
qed

lemma denotes_dec:
  assumes "denotes x z"
  obtains s m where "dec64 x = FpFin s (m * unit64)" "signed s m = z" "m = nat \<bar>z\<bar>"
  using assms by (auto simp: denotes_def signed_def split: if_splits)

lemma nat_abs_less: "\<bar>z\<bar> < 2 ^ 53 \<Longrightarrow> nat \<bar>z\<bar> < 2 ^ 53"
  by simp

lemma f64_of_int_exact: "\<bar>z\<bar> < 2 ^ 53 \<Longrightarrow> denotes (f64_of_int z) z"
  using denotes_round[of 1 "nat \<bar>z\<bar>" "z < 0"] by (simp add: f64_of_int_def)

lemma f64_add_exact:
  assumes "denotes x a" "denotes y b" "\<bar>a + b\<bar> < 2 ^ 53"
  shows "denotes (f64_add x y) (a + b)"
proof -
  obtain s m where x: "dec64 x = FpFin s (m * unit64)" "signed s m = a"
    using assms(1) by (rule denotes_dec)
  obtain t n where y: "dec64 y = FpFin t (n * unit64)" "signed t n = b"
    using assms(2) by (rule denotes_dec)
  have z: "signed s (m * unit64) + signed t (n * unit64) = (a + b) * int unit64"
    using x(2) y(2) by (simp only: signed_scale distrib_right)
  show ?thesis
  proof (cases "a + b = 0")
    case True
    then show ?thesis using z by (simp add: f64_add_def x(1) y(1) denotes_zero)
  next
    case False
    have "nat \<bar>(a + b) * int unit64\<bar> = nat \<bar>a + b\<bar> * unit64"
      by (simp add: abs_mult nat_mult_distrib)
    then have "f64_add x y = mk64 (a + b < 0) (round_units binary64 (nat \<bar>a + b\<bar> * unit64 * 1) 1)"
      using False unfolding f64_add_def x(1) y(1) prod.case fp.case z Let_def
      by (simp add: mult_less_0_iff)
    then show ?thesis
      using denotes_round[of 1 "nat \<bar>a + b\<bar>" "a + b < 0"] assms(3) by simp
  qed
qed

lemma f64_neg_exact:
  assumes "denotes x a" shows "denotes (f64_neg x) (- a)"
proof -
  obtain s m where x: "dec64 x = FpFin s (m * unit64)" "signed s m = a"
    using assms by (rule denotes_dec)
  then have lt: "unat x mod sign_bit binary64 < inf_mag binary64"
    and u: "fp_units binary64 (unat x mod sign_bit binary64) = m * unit64"
    by (auto simp: dec64_def fp_decode_def Let_def split: if_splits)
  show ?thesis using dec64_mk64[OF lt, of "\<not> s"] x
    by (auto simp: denotes_def f64_neg_def u signed_def)
qed

lemma f64_sub_exact:
  "denotes x a \<Longrightarrow> denotes y b \<Longrightarrow> \<bar>a - b\<bar> < 2 ^ 53 \<Longrightarrow> denotes (f64_sub x y) (a - b)"
  unfolding f64_sub_def using f64_add_exact[OF _ f64_neg_exact, of x a y b] by simp

lemma signed_xor: "signed (s = (\<not> t)) (m * n) = signed s m * signed t n"
  by (auto simp: signed_def)

lemma f64_mul_exact:
  assumes "denotes x a" "denotes y b" "\<bar>a * b\<bar> < 2 ^ 53"
  shows "denotes (f64_mul x y) (a * b)"
proof -
  obtain s m where x: "dec64 x = FpFin s (m * unit64)" "signed s m = a" "m = nat \<bar>a\<bar>"
    using assms(1) by (rule denotes_dec)
  obtain t n where y: "dec64 y = FpFin t (n * unit64)" "signed t n = b" "n = nat \<bar>b\<bar>"
    using assms(2) by (rule denotes_dec)
  have "f64_mul x y = mk64 (s \<noteq> t) (round_units binary64 (m * n * unit64 * unit64) (unit64))"
    unfolding f64_mul_def x(1) y(1) prod.case fp.case by (simp only: ac_simps)
  moreover have "m * n < 2 ^ 53"
    using assms(3) unfolding x(3) y(3) by (simp add: abs_mult nat_mult_distrib[symmetric] nat_less_iff)
  ultimately show ?thesis
    using denotes_round[of "unit64" "m * n" "s \<noteq> t"] x(2) y(2) by (simp add: signed_xor)
qed

lemma f64_div_exact:
  assumes "denotes x (q * b)" "denotes y b" "b \<noteq> 0" "\<bar>q\<bar> < 2 ^ 53"
  shows "denotes (f64_div x y) q"
proof -
  obtain s m where x: "dec64 x = FpFin s (m * unit64)" "signed s m = q * b" "m = nat \<bar>q * b\<bar>"
    using assms(1) by (rule denotes_dec)
  obtain t n where y: "dec64 y = FpFin t (n * unit64)" "signed t n = b" "n = nat \<bar>b\<bar>"
    using assms(2) by (rule denotes_dec)
  let ?k = "nat \<bar>q\<bar>"
  have mk: "m = ?k * n" unfolding x(3) y(3) by (simp add: abs_mult nat_mult_distrib)
  have n0: "0 < n" using assms(3) by (simp add: y(3))
  have "f64_div x y = mk64 (s \<noteq> t) (round_units binary64 (?k * unit64 * (n * unit64)) (n * unit64))"
    unfolding f64_div_def x(1) y(1) prod.case fp.case using n0 by (simp add: mk ac_simps)
  moreover have "signed (s \<noteq> t) ?k = q"
    using x(2) y(2) n0 assms(3) unfolding mk
    by (auto simp: signed_def abs_if mult_less_0_iff split: if_splits)
  ultimately show ?thesis
    using denotes_round[of "n * unit64" ?k "s \<noteq> t"] n0 assms(4) by simp
qed

lemma denotes_compare:
  assumes "denotes x a" "denotes y b"
  shows "fp_lt (dec64 x) (dec64 y) \<longleftrightarrow> a < b" "fp_eq (dec64 x) (dec64 y) \<longleftrightarrow> a = b"
    "fp_le (dec64 x) (dec64 y) \<longleftrightarrow> a \<le> b"
proof -
  obtain s m where x: "dec64 x = FpFin s (m * unit64)" "signed s m = a"
    using assms(1) by (rule denotes_dec)
  obtain t n where y: "dec64 y = FpFin t (n * unit64)" "signed t n = b"
    using assms(2) by (rule denotes_dec)
  show lt: "fp_lt (dec64 x) (dec64 y) \<longleftrightarrow> a < b" and eq: "fp_eq (dec64 x) (dec64 y) \<longleftrightarrow> a = b"
    unfolding x(1) y(1) fp_lt.simps fp_eq.simps signed_scale x(2) y(2) by simp_all
  show "fp_le (dec64 x) (dec64 y) \<longleftrightarrow> a \<le> b" using lt eq by (auto simp: fp_le_def)
qed

lemma denotes_as_int:
  assumes "denotes x z" shows "fp_as_int binary64 lo hi (dec64 x) = max lo (min hi z)"
  using assms by (auto simp: denotes_def fp_as_int_def)

lemma denotes_finite: "denotes x z \<Longrightarrow> fp_finite (dec64 x)"
  by (auto simp: denotes_def)

section \<open>Whole numbers in text\<close>

lemma digit_not_special:
  "is_digit c \<Longrightarrow> c \<noteq> CHR ''-'' \<and> c \<noteq> CHR ''+'' \<and> to_ascii_lowercase_char c = c"
  by (auto simp: is_digit_def to_ascii_lowercase_char_def)

lemma digit_first_no_word:
  assumes "is_digit c" "\<not> is_digit d" "to_ascii_lowercase_char d = d"
  shows "\<not> eq_ignore_ascii_case (c # cs) (d # ds)"
  using assms digit_not_special[of c] by (auto simp: eq_ignore_ascii_case_def to_ascii_lowercase_def)

lemma parse_number_digits:
  "s \<noteq> [] \<Longrightarrow> list_all is_digit s \<Longrightarrow> parse_number s = Some (dec_val s, 0)"
  by (simp add: parse_number_def takeWhile_eq_all_conv[THEN iffD2] dropWhile_eq_Nil_conv[THEN iffD2]
      list_all_iff parse_exponent_def Let_def)

lemma parse_f64_digits:
  assumes "s \<noteq> []" "list_all is_digit s" "dec_val s < 2 ^ 53"
  shows "\<exists>x. parse_f64 s = Some x \<and> denotes x (int (dec_val s))"
proof -
  obtain c cs where s: "s = c # cs" "is_digit c" using assms(1,2) by (cases s) auto
  have sg: "split_sign s = (False, s)" using digit_not_special[OF s(2)] by (simp add: split_sign_def s(1))
  have w: "\<not> eq_ignore_ascii_case s ''inf''" "\<not> eq_ignore_ascii_case s ''infinity''"
    "\<not> eq_ignore_ascii_case s ''nan''"
    unfolding s(1) by (rule digit_first_no_word[OF s(2)]; code_simp)+
  have "parse_f64 s = Some (mk64 False (round_units binary64 (dec_val s * unit64) 1))"
    using parse_number_digits[OF assms(1,2)]
    by (simp add: parse_f64_def parse_float_def sg w mk64_def Let_def)
  then show ?thesis using denotes_round[of 1 "dec_val s" False] assms(3) by (simp add: signed_def)
qed

lemma dec_val_append_digit:
  "dec_val (s @ [c]) = dec_val s * 10 + (code c - 48)"
  by (simp add: dec_val_def)

lemma to_string_digits: "list_all is_digit (to_string n) \<and> dec_val (to_string n) = n"
proof (induction n rule: less_induct)
  case (less n)
  have dc: "code (digit_char d) = 48 + d" if "d < 10" for d using that code_digit_char[of d] by simp
  show ?case
  proof (cases "n < 10")
    case True
    then show ?thesis
      by (simp add: to_string_def digits_single is_digit_def dc dec_val_def)
  next
    case False
    then have "to_string n = to_string (n div 10) @ [digit_char (n mod 10)]"
      by (simp add: to_string_def digits.simps[of 10 n])
    then show ?thesis
      using less[of "n div 10"] False by (simp add: dec_val_append_digit is_digit_def dc)
  qed
qed

lemma parse_f64_to_string:
  "n < 2 ^ 53 \<Longrightarrow> \<exists>x. parse_f64 (to_string n) = Some x \<and> denotes x (int n)"
  using parse_f64_digits[of "to_string n"] to_string_digits[of n]
  by (simp add: to_string_def)

lemma to_string_nonempty [simp]: "to_string n \<noteq> []"
  by (simp add: to_string_def)

end
