(* ===== verification/Diag_Value.thy ===== *)
theory Diag_Value
  imports Diag_Coded_Type Ieee_Float
begin

text \<open>
  Physical values and the limits they are compared with: \<open>DiagDataValue\<close> of
  \<open>cda-core/src/diag_kernel.rs\<close> with its constructors, conversions and \<open>within_limits\<close>, the
  limits and computation methods of \<open>cda-database/src/datatypes/data_operation.rs\<close>, and the
  texts of the negative response codes. \<open>i32\<close> and \<open>u32\<close> values are whole numbers in range,
  floats are bit patterns, a \<open>String\<close> is the list of its UTF-8 bytes, and a \<open>HashMap\<close> is an
  association list in its iteration order.
\<close>

section \<open>Database descriptions of values\<close>

datatype compu_category =
  Identical | Linear | ScaleLinear | TextTable | CompuCode | TabIntp | RatFunc | ScaleRatFunc

datatype interval_type = Open | Closed | Infinite

record limit =
  limit_value :: string
  limit_interval :: interval_type

record compu_values =
  cv_v :: f64
  cv_vt :: "string option"
  cv_vt_ti :: "string option"

record compu_rational_coefficients =
  numerator :: "f64 list"
  denominator :: "f64 list"

record compu_scale =
  lower_limit :: "limit option"
  upper_limit :: "limit option"
  rational_coefficients :: "compu_rational_coefficients option"
  scale_consts :: "compu_values option"
  inverse_values :: "compu_values option"

record compu_method =
  cm_category :: compu_category
  cm_scales :: "compu_scale list"

datatype radix = Hex | Decimal | Binary | Octal

record physical_type =
  pt_precision :: "nat option"
  pt_base_type :: data_type
  pt_display_radix :: "radix option"

section \<open>External operations\<close>

text \<open>
  The conversions of the \<open>num_traits\<close> crate and the hexadecimal decoder of the \<open>hex\<close> crate are
  arguments. \<open>show_f64\<close> is the display of an \<open>f64\<close>, which only a branch of \<open>from_number\<close>
  uses that no caller reaches.
\<close>

datatype numeric = NI32 int | NU32 nat | NF32 f32 | NF64 f64

record externs =
  hex_decode :: hex_decoder
  to_i32 :: "numeric \<Rightarrow> int option"
  to_u32 :: "numeric \<Rightarrow> nat option"
  to_f32 :: "numeric \<Rightarrow> f32 option"
  to_f64 :: "numeric \<Rightarrow> f64 option"
  show_f64 :: "f64 \<Rightarrow> string"

section \<open>Machine numbers and bytes\<close>

definition i32_of_u32 :: "nat \<Rightarrow> int" where
  "i32_of_u32 n = (if n < 2 ^ 31 then int n else int n - 2 ^ 32)"

definition u32_of_i32 :: "int \<Rightarrow> nat" where
  "u32_of_i32 z = nat (z mod 2 ^ 32)"

definition i32_to_be_bytes :: "int \<Rightarrow> byte list" where
  "i32_to_be_bytes z = be_bytes 4 (u32_of_i32 z)"

definition u32_to_be_bytes :: "nat \<Rightarrow> byte list" where
  "u32_to_be_bytes n = be_bytes 4 n"

definition f32_to_be_bytes :: "f32 \<Rightarrow> byte list" where
  "f32_to_be_bytes x = be_bytes 4 (unat x)"

definition f64_to_be_bytes :: "f64 \<Rightarrow> byte list" where
  "f64_to_be_bytes x = be_bytes 8 (unat x)"

definition i32_from_be_bytes :: "byte list \<Rightarrow> int" where
  "i32_from_be_bytes bs = i32_of_u32 (be_val bs)"

definition f32_from_be_bytes :: "byte list \<Rightarrow> f32" where
  "f32_from_be_bytes bs = of_nat (be_val bs)"

definition f64_from_be_bytes :: "byte list \<Rightarrow> f64" where
  "f64_from_be_bytes bs = of_nat (be_val bs)"

definition i32_min :: int where "i32_min = - (2 ^ 31)"

definition i32_max :: int where "i32_max = 2 ^ 31 - 1"

definition pad_msb_to_len :: "byte list \<Rightarrow> nat \<Rightarrow> byte list" where
  "pad_msb_to_len bs target_len = replicate (target_len - length bs) 0 @ bs"

section \<open>Text\<close>

text \<open>\<open>b as char\<close> pushed to a \<open>String\<close>: one byte below 128, two above.\<close>

definition latin1_to_utf8 :: "byte \<Rightarrow> string" where
  "latin1_to_utf8 b =
     (if unat b < 128 then [char_of (unat b)]
      else [char_of (192 + unat b div 64), char_of (128 + unat b mod 64)])"

definition continuation :: "nat \<Rightarrow> bool" where
  "continuation b \<longleftrightarrow> 128 \<le> b \<and> b \<le> 191"

text \<open>The well-formed byte sequences of UTF-8, which \<open>String::from_utf8\<close> accepts.\<close>

fun utf8_valid :: "nat list \<Rightarrow> bool" where
  "utf8_valid [] = True"
| "utf8_valid (a # bs) =
     (if a < 128 then utf8_valid bs
      else if 194 \<le> a \<and> a \<le> 223 then
        (case bs of b # cs \<Rightarrow> continuation b \<and> utf8_valid cs | _ \<Rightarrow> False)
      else if 224 \<le> a \<and> a \<le> 239 then
        (case bs of b # c # cs \<Rightarrow>
           continuation b \<and> (a = 224 \<longrightarrow> 160 \<le> b) \<and> (a = 237 \<longrightarrow> b \<le> 159) \<and>
           continuation c \<and> utf8_valid cs
         | _ \<Rightarrow> False)
      else if 240 \<le> a \<and> a \<le> 244 then
        (case bs of b # c # d # cs \<Rightarrow>
           continuation b \<and> (a = 240 \<longrightarrow> 144 \<le> b) \<and> (a = 244 \<longrightarrow> b \<le> 143) \<and>
           continuation c \<and> continuation d \<and> utf8_valid cs
         | _ \<Rightarrow> False)
      else False)"

definition string_of_bytes :: "byte list \<Rightarrow> string" where
  "string_of_bytes = map (\<lambda>b. char_of (unat b))"

definition as_bytes :: "string \<Rightarrow> byte list" where
  "as_bytes = map (\<lambda>c. of_nat (code c))"

definition string_from_utf8 :: "byte list \<Rightarrow> string diag_result" where
  "string_from_utf8 bs =
     (if utf8_valid (map unat bs) then Inr (string_of_bytes bs)
      else Inl (ParameterConversionError ''invalid utf-8 sequence''))"

section \<open>Values\<close>

datatype diag_data_value =
    VInt32 int
  | VUInt32 nat
  | VFloat32 f32
  | VString string
  | VByteField "byte list"
  | VFloat64 f64
  | VStruct "(string \<times> diag_data_value) list"
  | VRepeatingStruct "(string \<times> diag_data_value) list list"

definition diag_data_value_new :: "data_type \<Rightarrow> byte list \<Rightarrow> diag_data_value diag_result" where
  "diag_data_value_new diag_type bs = (case diag_type of
      Int32 \<Rightarrow> bindE (u32_padded_bytes bs) (\<lambda>b. Inr (VInt32 (i32_from_be_bytes b)))
    | UInt32 \<Rightarrow> bindE (u32_padded_bytes bs) (\<lambda>b. Inr (VUInt32 (be_val b)))
    | Float32 \<Rightarrow> bindE (u32_padded_bytes bs) (\<lambda>b. Inr (VFloat32 (f32_from_be_bytes b)))
    | AsciiString \<Rightarrow> Inr (VString (concat (map latin1_to_utf8 bs)))
    | Utf8String \<Rightarrow> bindE (string_from_utf8 bs) (\<lambda>s. Inr (VString s))
    | Unicode2String \<Rightarrow> bindE (string_from_utf8 bs) (\<lambda>s. Inr (VString s))
    | ByteField \<Rightarrow> Inr (VByteField bs)
    | Float64 \<Rightarrow> bindE (f64_padded_bytes bs) (\<lambda>b. Inr (VFloat64 (f64_from_be_bytes b))))"

definition from_number :: "externs \<Rightarrow> f64 \<Rightarrow> data_type \<Rightarrow> diag_data_value diag_result" where
  "from_number ext v diag_type =
     ok_or (case diag_type of
         Int32 \<Rightarrow> map_option VInt32 (to_i32 ext (NF64 v))
       | UInt32 \<Rightarrow> map_option VUInt32 (to_u32 ext (NF64 v))
       | Float32 \<Rightarrow> map_option VFloat32 (to_f32 ext (NF64 v))
       | Float64 \<Rightarrow> map_option VFloat64 (to_f64 ext (NF64 v))
       | ByteField \<Rightarrow> Some (VByteField (f64_to_be_bytes v))
       | AsciiString \<Rightarrow> Some (VString (show_f64 ext v))
       | Utf8String \<Rightarrow> Some (VString (show_f64 ext v))
       | Unicode2String \<Rightarrow> Some (VString (show_f64 ext v)))
     (ParameterConversionError ''Failed to convert number to DiagDataValue'')"

definition value_to_f64 :: "diag_data_value \<Rightarrow> f64 diag_result" where
  "value_to_f64 v = (case v of
      VInt32 i \<Rightarrow> Inr (f64_of_int i)
    | VUInt32 i \<Rightarrow> Inr (f64_of_int (int i))
    | VFloat32 f \<Rightarrow> Inr (f64_of_f32 f)
    | VFloat64 f \<Rightarrow> Inr f
    | _ \<Rightarrow> Inl (ParameterConversionError ''Cannot convert DiagDataValue to f64''))"

definition f64_u32_max :: f64 where "f64_u32_max = f64_of_int (int u32_max)"

definition value_to_u32 :: "diag_data_value \<Rightarrow> nat diag_result" where
  "value_to_u32 v = (case v of
      VInt32 i \<Rightarrow>
        if 0 \<le> i then Inr (nat i)
        else Inl (ParameterConversionError ''Int32 value out of u32 range'')
    | VUInt32 i \<Rightarrow> Inr i
    | VFloat32 f \<Rightarrow>
        if fp_lt (dec32 f) (FpFin False 0) \<or> fp_lt (dec64 f64_u32_max) (dec64 (f64_of_f32 f))
        then Inl (ParameterConversionError ''Float32 value out of u32 range'')
        else Inr (nat (fp_as_int binary32 0 (int u32_max) (dec32 f)))
    | VFloat64 f \<Rightarrow>
        if fp_lt (dec64 f) (FpFin False 0) \<or> fp_lt (dec64 f64_u32_max) (dec64 f)
        then Inl (ParameterConversionError ''Float64 value out of u32 range'')
        else Inr (nat (fp_as_int binary64 0 (int u32_max) (dec64 f)))
    | _ \<Rightarrow> Inl (ParameterConversionError ''Cannot convert DiagDataValue to u32''))"

section \<open>Limits\<close>

definition limit_to_f64 :: "limit \<Rightarrow> f64 diag_result" where
  "limit_to_f64 l =
     (if limit_value l = [] then Inr 0
      else ok_or (parse_f64 (limit_value l)) (ParameterConversionError ''Cannot convert Limit into f64''))"

definition limit_to_f32 :: "limit \<Rightarrow> f32 diag_result" where
  "limit_to_f32 l =
     (if limit_value l = [] then Inr 0
      else ok_or (parse_f32 (limit_value l)) (ParameterConversionError ''Cannot convert Limit into f32''))"

definition limit_to_u32 :: "limit \<Rightarrow> nat diag_result" where
  "limit_to_u32 l =
     bindE (limit_to_f64 l) (\<lambda>f.
       if fp_lt (dec64 f) (dec64 (f64_of_int 0)) \<or> fp_lt (dec64 f64_u32_max) (dec64 f) \<or>
          \<not> fp_finite (dec64 f)
       then Inl (ParameterConversionError ''Cannot convert Limit into u32, value is negative'')
       else Inr (nat (fp_as_int binary64 0 (int u32_max) (dec64 f))))"

definition limit_to_i32 :: "limit \<Rightarrow> int diag_result" where
  "limit_to_i32 l =
     bindE (limit_to_f64 l) (\<lambda>f.
       if fp_lt (dec64 f) (dec64 (f64_of_int i32_min)) \<or> fp_lt (dec64 (f64_of_int i32_max)) (dec64 f) \<or>
          \<not> fp_finite (dec64 f)
       then Inl (ParameterConversionError ''Cannot convert Limit into i32, value out of range'')
       else Inr (fp_as_int binary64 i32_min i32_max (dec64 f)))"

definition limit_token_bytes :: "externs \<Rightarrow> string \<Rightarrow> byte list diag_result" where
  "limit_token_bytes ext tok =
     (if list_all is_digit tok then
        (case from_str_radix 255 10 tok of
           Inl e \<Rightarrow> Inl (ParameterConversionError ''Invalid value type for ByteField'')
         | Inr v \<Rightarrow> Inr [of_nat v])
      else if CHR ''.'' \<in> set tok then
        bindE (ok_or (parse_f64 tok) (ParameterConversionError ''Invalid value for float''))
          (\<lambda>f. Inr [of_int (fp_as_int binary64 0 255 (dec64 f))])
      else (case try_strip_hex_prefix tok of
              Some stripped \<Rightarrow> decode_hex (hex_decode ext) stripped
            | None \<Rightarrow> decode_hex (hex_decode ext) tok))"

fun collect_results :: "('a \<Rightarrow> 'e + 'b) \<Rightarrow> 'a list \<Rightarrow> 'e + 'b list" where
  "collect_results f [] = Inr []"
| "collect_results f (x # xs) = bindE (f x) (\<lambda>y. bindE (collect_results f xs) (\<lambda>ys. Inr (y # ys)))"

definition limit_to_bytes :: "externs \<Rightarrow> limit \<Rightarrow> byte list diag_result" where
  "limit_to_bytes ext l =
     bindE (collect_results (limit_token_bytes ext) (split_whitespace (limit_value l)))
       (\<lambda>vecs. Inr (concat vecs))"

definition check_numeric_limits ::
  "('a \<Rightarrow> 'a \<Rightarrow> bool) \<Rightarrow> ('a \<Rightarrow> 'a \<Rightarrow> bool) \<Rightarrow> (limit \<Rightarrow> 'a diag_result) \<Rightarrow>
   'a \<Rightarrow> limit option \<Rightarrow> limit option \<Rightarrow> bool" where
  "check_numeric_limits lt le conv v upper lower \<longleftrightarrow>
     (case upper of None \<Rightarrow> True | Some u \<Rightarrow>
        (case conv u of Inl e \<Rightarrow> False | Inr u_val \<Rightarrow>
           if limit_interval u = Open then lt v u_val else le v u_val)) \<and>
     (case lower of None \<Rightarrow> True | Some l \<Rightarrow>
        (case conv l of Inl e \<Rightarrow> False | Inr l_val \<Rightarrow>
           if limit_interval l = Open then lt l_val v else le l_val v))"

fun bytes_le :: "byte list \<Rightarrow> byte list \<Rightarrow> bool" where
  "bytes_le [] ys = True"
| "bytes_le (x # xs) [] = False"
| "bytes_le (x # xs) (y # ys) = (x < y \<or> (x = y \<and> bytes_le xs ys))"

definition ok_option :: "'e + 'a \<Rightarrow> 'a option" where
  "ok_option r = (case r of Inl e \<Rightarrow> None | Inr x \<Rightarrow> Some x)"

definition within_byte_limits ::
  "externs \<Rightarrow> byte list \<Rightarrow> limit option \<Rightarrow> limit option \<Rightarrow> bool" where
  "within_byte_limits ext v upper lower \<longleftrightarrow>
     (let upper_bytes = Option.bind upper (\<lambda>u. ok_option (limit_to_bytes ext u));
          lower_bytes = Option.bind lower (\<lambda>l. ok_option (limit_to_bytes ext l));
          len = (\<lambda>b. case b of None \<Rightarrow> 0 | Some bs \<Rightarrow> length bs);
          max_len = max (length v) (max (len upper_bytes) (len lower_bytes));
          padded_v = pad_msb_to_len v max_len
      in (case upper_bytes of None \<Rightarrow> True | Some u \<Rightarrow> bytes_le padded_v (pad_msb_to_len u max_len)) \<and>
         (case lower_bytes of None \<Rightarrow> True | Some l \<Rightarrow> bytes_le (pad_msb_to_len l max_len) padded_v))"

definition within_limits :: "externs \<Rightarrow> diag_data_value \<Rightarrow> limit option \<Rightarrow> limit option \<Rightarrow> bool" where
  "within_limits ext self upper lower = (case self of
      VInt32 v \<Rightarrow> check_numeric_limits (<) (\<le>) limit_to_i32 v upper lower
    | VUInt32 v \<Rightarrow> check_numeric_limits (<) (\<le>) limit_to_u32 v upper lower
    | VFloat32 v \<Rightarrow>
        check_numeric_limits (\<lambda>a b. fp_lt (dec32 a) (dec32 b)) (\<lambda>a b. fp_le (dec32 a) (dec32 b))
          limit_to_f32 v upper lower
    | VFloat64 v \<Rightarrow>
        check_numeric_limits (\<lambda>a b. fp_lt (dec64 a) (dec64 b)) (\<lambda>a b. fp_le (dec64 a) (dec64 b))
          limit_to_f64 v upper lower
    | VByteField v \<Rightarrow> within_byte_limits ext v upper lower
    | VString v \<Rightarrow>
        (case upper of None \<Rightarrow> True | Some u \<Rightarrow> limit_value u = v) \<and>
        (case lower of None \<Rightarrow> True | Some l \<Rightarrow> limit_value l = v)
    | _ \<Rightarrow> False)"

definition reserved_param_data_type :: "nat \<Rightarrow> data_type" where
  "reserved_param_data_type n = (if n > 32 then ByteField else UInt32)"

section \<open>Negative response codes\<close>

definition nrc_texts :: "(nat \<times> string) list" where
  "nrc_texts =
    [(0x00, ''Positive Response''),
     (0x10, ''General Reject''),
     (0x11, ''Service Not Supported''),
     (0x12, ''Sub-function Not Supported''),
     (0x13, ''Incorrect Message Length Or Invalid Format''),
     (0x14, ''Response Too Long''),
     (0x21, ''Busy Repeat Request''),
     (0x22, ''Conditions Not Correct''),
     (0x24, ''Request Sequence Error''),
     (0x25, ''No Response From Subnet Component''),
     (0x26, ''Failure Prevents Execution Of Requested Action''),
     (0x31, ''Request Out Of Range''),
     (0x33, ''Security Access Denied''),
     (0x34, ''Authentication Required''),
     (0x35, ''Invalid Key''),
     (0x36, ''Exceed Number Of Attempts''),
     (0x37, ''Required Time Delay Not Expired''),
     (0x38, ''Secure Data Transmission Required''),
     (0x39, ''Secure Data Transmission Not Allowed''),
     (0x3A, ''Secure Data Verification Failed''),
     (0x50, ''Certificate verification failed - Invalid Time Period''),
     (0x51, ''Certificate verification failed - Invalid Signature''),
     (0x52, ''Certificate verification failed - Invalid Chain of Trust''),
     (0x53, ''Certificate verification failed - Invalid Type''),
     (0x54, ''Certificate verification failed - Invalid Format''),
     (0x55, ''Certificate verification failed - Invalid Content''),
     (0x56, ''Certificate verification failed - Invalid Scope''),
     (0x57, ''Certificate verification failed - Invalid Certificate (revoked)''),
     (0x58, ''Ownership verification failed''),
     (0x59, ''Challenge calculation failed''),
     (0x5A, ''Setting Access Rights failed''),
     (0x5B, ''Session key creation/derivation failed''),
     (0x5C, ''Configuration data usage failed''),
     (0x5D, ''DeAuthentication failed''),
     (0x70, ''uploadDownloadNotAccepted''),
     (0x71, ''transferDataSuspended''),
     (0x72, ''generalProgrammingFailure''),
     (0x73, ''wrongBlockSequenceCounter''),
     (0x78, ''Request Correctly Received-Response Pending''),
     (0x7E, ''Sub-function Not Supported In Active Session''),
     (0x7F, ''Service Not Supported In Active Session''),
     (0x81, ''Rpm Too High''),
     (0x82, ''Rpm Too Low''),
     (0x83, ''Engine Is Running''),
     (0x84, ''Engine Is Not Running''),
     (0x85, ''Engine Run Time Too Low''),
     (0x86, ''Temperature Too High''),
     (0x87, ''Temperature Too Low''),
     (0x88, ''Vehicle Speed Too High''),
     (0x89, ''Vehicle Speed Too Low''),
     (0x8A, ''Throttle/Pedal Position Too High''),
     (0x8B, ''Throttle/Pedal Position Too Low''),
     (0x8C, ''Transmission Range Not In Neutral''),
     (0x8D, ''Transmission Range Not In Gear''),
     (0x8F, ''Brake Switch(es) Not Closed (Brake Pedal not pressed or not applied)''),
     (0x90, ''Shifter Lever Not In Park''),
     (0x91, ''Torque Converter Clutch Locked''),
     (0x92, ''Voltage Too High''),
     (0x93, ''Voltage Too Low''),
     (0x94, ''Resource Temporarily Not Available'')]"

definition get_nrc_code :: "byte \<Rightarrow> string" where
  "get_nrc_code val = (case map_of nrc_texts (unat val) of
      Some text \<Rightarrow> text | None \<Rightarrow> ''ISO SAE Reserved'')"

section \<open>A reference for the external operations\<close>

text \<open>
  The documented behaviour of \<open>num_traits\<close> (the whole part of a number, when the target type has
  it) and of \<open>hex::decode\<close>, for concrete inputs.
\<close>

definition whole_part :: "numeric \<Rightarrow> int option" where
  "whole_part x = (case x of
      NI32 z \<Rightarrow> Some z
    | NU32 n \<Rightarrow> Some (int n)
    | NF32 f \<Rightarrow> (case dec32 f of FpFin s m \<Rightarrow> Some (signed s (m div unit_of binary32)) | _ \<Rightarrow> None)
    | NF64 f \<Rightarrow> (case dec64 f of FpFin s m \<Rightarrow> Some (signed s (m div unit_of binary64)) | _ \<Rightarrow> None))"

definition whole_between :: "int \<Rightarrow> int \<Rightarrow> numeric \<Rightarrow> int option" where
  "whole_between lo hi x = Option.bind (whole_part x) (\<lambda>z. if lo \<le> z \<and> z \<le> hi then Some z else None)"

fun hex_pairs :: "string \<Rightarrow> string + byte list" where
  "hex_pairs [] = Inr []"
| "hex_pairs [c] = Inl ''Odd number of digits''"
| "hex_pairs (c # d # s) =
     (case (to_digit 16 c, to_digit 16 d) of
        (Some x, Some y) \<Rightarrow> bindE (hex_pairs s) (\<lambda>bs. Inr (of_nat (16 * x + y) # bs))
      | _ \<Rightarrow> Inl ''Invalid character'')"

definition numeric_f64 :: "numeric \<Rightarrow> f64" where
  "numeric_f64 x = (case x of
      NI32 z \<Rightarrow> f64_of_int z | NU32 n \<Rightarrow> f64_of_int (int n) | NF32 f \<Rightarrow> f64_of_f32 f | NF64 f \<Rightarrow> f)"

definition reference_externs :: externs where
  "reference_externs = \<lparr>hex_decode = hex_pairs,
     to_i32 = whole_between i32_min i32_max,
     to_u32 = (\<lambda>x. map_option nat (whole_between 0 (int u32_max) x)),
     to_f32 = (\<lambda>x. case x of NF32 f \<Rightarrow> Some f | _ \<Rightarrow> Some (f32_of_f64 (numeric_f64 x))),
     to_f64 = (\<lambda>x. Some (numeric_f64 x)),
     show_f64 = (\<lambda>f. [])\<rparr>"

lemma whole_part_denotes: "denotes x z \<Longrightarrow> whole_part (NF64 x) = Some z"
  by (auto simp: denotes_def whole_part_def)

lemma reference_casts:
  assumes "denotes x z"
  shows "i32_min \<le> z \<Longrightarrow> z \<le> i32_max \<Longrightarrow> to_i32 reference_externs (NF64 x) = Some z"
    and "0 \<le> z \<Longrightarrow> z \<le> int u32_max \<Longrightarrow> to_u32 reference_externs (NF64 x) = Some (nat z)"
  using whole_part_denotes[OF assms] by (simp_all add: reference_externs_def whole_between_def)

end
