(* ===== verification/Compu_Method.thy ===== *)
theory Compu_Method
  imports Diag_Value
begin

text \<open>
  Conversion between coded and physical values, \<open>cda-core/src/diag_kernel/operations.rs\<close>: the
  computation methods in both directions, the conversion of JSON values to bytes, and the
  validation of bit lengths. JSON values are those of \<open>serde_json\<close>; an integer number keeps
  its value, any other number its \<open>f64\<close>. Where the source would panic (\<open>expect\<close>,
  \<open>unreachable!\<close>) the outcome is \<open>Panics\<close>; \<open>Diverges\<close> stands for a call that does not
  return.
\<close>

section \<open>Outcomes and JSON values\<close>

datatype failure = Fail diag_service_error | Panics | Diverges

type_synonym 'a run = "failure + 'a"

definition lift_result :: "'a diag_result \<Rightarrow> 'a run" where
  "lift_result r = (case r of Inl e \<Rightarrow> Inl (Fail e) | Inr x \<Rightarrow> Inr x)"

abbreviation err :: "diag_service_error \<Rightarrow> 'a run" where
  "err e \<equiv> Inl (Fail e)"

datatype json_number = PosInt nat | NegInt int | FloatNumber f64

datatype json =
    JNull
  | JBool bool
  | JNumber json_number
  | JString string
  | JArray "json list"
  | JObject "(string \<times> json) list"

definition i64_max :: nat where "i64_max = 2 ^ 63 - 1"

definition u64_max :: nat where "u64_max = 2 ^ 64 - 1"

definition as_f64 :: "json \<Rightarrow> f64 option" where
  "as_f64 v = (case v of
      JNumber (PosInt n) \<Rightarrow> Some (f64_of_int (int n))
    | JNumber (NegInt z) \<Rightarrow> Some (f64_of_int z)
    | JNumber (FloatNumber f) \<Rightarrow> Some f
    | _ \<Rightarrow> None)"

definition as_i64 :: "json \<Rightarrow> int option" where
  "as_i64 v = (case v of
      JNumber (PosInt n) \<Rightarrow> if n \<le> i64_max then Some (int n) else None
    | JNumber (NegInt z) \<Rightarrow> Some z
    | _ \<Rightarrow> None)"

definition as_u64 :: "json \<Rightarrow> nat option" where
  "as_u64 v = (case v of JNumber (PosInt n) \<Rightarrow> Some n | _ \<Rightarrow> None)"

definition as_str :: "json \<Rightarrow> string option" where
  "as_str v = (case v of JString s \<Rightarrow> Some s | _ \<Rightarrow> None)"

definition as_array :: "json \<Rightarrow> json list option" where
  "as_array v = (case v of JArray xs \<Rightarrow> Some xs | _ \<Rightarrow> None)"

definition as_object :: "json \<Rightarrow> (string \<times> json) list option" where
  "as_object v = (case v of JObject m \<Rightarrow> Some m | _ \<Rightarrow> None)"

definition is_number :: "json \<Rightarrow> bool" where
  "is_number v = (case v of JNumber n \<Rightarrow> True | _ \<Rightarrow> False)"

definition number_from_int :: "int \<Rightarrow> json" where
  "number_from_int z = JNumber (if z < 0 then NegInt z else PosInt (nat z))"

definition number_from_f64 :: "f64 \<Rightarrow> json_number option" where
  "number_from_f64 f = (if fp_finite (dec64 f) then Some (FloatNumber f) else None)"

text \<open>\<open>parse\<close> of a signed decimal integer with bounds \<open>lo\<close> and \<open>hi\<close>.\<close>

definition parse_int :: "int \<Rightarrow> int \<Rightarrow> string \<Rightarrow> int option" where
  "parse_int lo hi s =
     (let (neg, ds) = split_sign s in
      if ds \<noteq> [] \<and> list_all is_digit ds then
        let v = signed neg (dec_val ds) in if lo \<le> v \<and> v \<le> hi then Some v else None
      else None)"

section \<open>From coded to physical values\<close>

datatype conversion_direction = InternalToPhys | PhysToInternal "compu_values option"

definition is_zero64 :: "f64 \<Rightarrow> bool" where
  "is_zero64 f \<longleftrightarrow> fp_eq (dec64 f) (FpFin False 0)"

definition apply_linear_conversion ::
  "compu_rational_coefficients \<Rightarrow> f64 \<Rightarrow> conversion_direction \<Rightarrow> f64 diag_result" where
  "apply_linear_conversion coeffs v direction =
     (if length (numerator coeffs) \<noteq> 2
      then Inl (InvalidDatabase ''Expected 2 numerators (offset, factor)'')
      else if length (denominator coeffs) > 1
      then Inl (InvalidDatabase ''Expected 0 or 1 denominator'')
      else
        bindE (ok_or (get (numerator coeffs) 0) (InvalidDatabase ''Missing numerator[0] (offset)''))
        (\<lambda>offset.
        bindE (ok_or (get (numerator coeffs) 1) (InvalidDatabase ''Missing numerator[1] (factor)''))
        (\<lambda>factor.
        let d = (case get (denominator coeffs) 0 of Some x \<Rightarrow> x | None \<Rightarrow> f64_of_int 1) in
        case direction of
          PhysToInternal inverse_value \<Rightarrow>
            if is_zero64 factor then
              (case inverse_value of
                 Some iv \<Rightarrow> Inr (cv_v iv)
               | None \<Rightarrow> Inl (InvalidDatabase ''Factor (V1) cannot be zero for inverse conversion''))
            else Inr (f64_div (f64_sub (f64_mul d v) offset) factor)
        | InternalToPhys \<Rightarrow>
            if is_zero64 d then Inl (InvalidDatabase ''Denominator cannot be zero'')
            else Inr (f64_div (f64_add offset (f64_mul factor v)) d))))"

definition compu_lookup_linear ::
  "externs \<Rightarrow> data_type \<Rightarrow> compu_method \<Rightarrow> diag_data_value \<Rightarrow> compu_scale \<Rightarrow> diag_data_value diag_result" where
  "compu_lookup_linear ext diag_type cm lookup scale =
     (if length (cm_scales cm) \<noteq> 1
      then Inl (InvalidDatabase ''LINEAR: Expected exactly 1 COMPU-SCALE'')
      else
        bindE (ok_or (rational_coefficients scale)
                 (InvalidDatabase ''LINEAR: Missing rational coefficients'')) (\<lambda>coeffs.
        bindE (case value_to_f64 lookup of
                 Inl e \<Rightarrow> Inl (ParameterConversionError ''Failed to convert lookup value'')
               | Inr f \<Rightarrow> Inr f) (\<lambda>lookup_val.
        bindE (apply_linear_conversion coeffs lookup_val InternalToPhys) (\<lambda>val.
          from_number ext val diag_type))))"

definition compu_lookup_scale_linear ::
  "externs \<Rightarrow> data_type \<Rightarrow> diag_data_value \<Rightarrow> compu_scale \<Rightarrow> diag_data_value diag_result" where
  "compu_lookup_scale_linear ext diag_type lookup scale =
     bindE (ok_or (rational_coefficients scale)
              (InvalidDatabase ''SCALE-LINEAR: Missing rational coefficients'')) (\<lambda>coeffs.
     bindE (value_to_f64 lookup) (\<lambda>lookup_val.
     bindE (apply_linear_conversion coeffs lookup_val InternalToPhys) (\<lambda>val.
       from_number ext val diag_type)))"

definition scale_text :: "compu_values \<Rightarrow> string option" where
  "scale_text c = (case cv_vt c of Some t \<Rightarrow> Some t | None \<Rightarrow> cv_vt_ti c)"

definition compu_lookup_text_table :: "compu_scale \<Rightarrow> diag_data_value diag_result" where
  "compu_lookup_text_table scale =
     bindE (ok_or (scale_consts scale) (InvalidDatabase ''TextTable lookup has no Consts'')) (\<lambda>c.
     bindE (ok_or (scale_text c) (UdsLookupError ''failed to read compu value'')) (\<lambda>mapped_value.
       Inr (VString mapped_value)))"

definition compu_lookup ::
  "externs \<Rightarrow> data_type \<Rightarrow> compu_method \<Rightarrow> compu_category \<Rightarrow> bool \<Rightarrow> byte list \<Rightarrow> diag_data_value run" where
  "compu_lookup ext diag_type cm category is_negative_response bs =
     (if category = Linear \<and> cm_scales cm = []
      then err (InvalidDatabase ''LINEAR COMPU-METHOD must have exactly one COMPU-SCALE'')
      else
        bindE (lift_result (diag_data_value_new diag_type bs)) (\<lambda>lookup.
        case find (\<lambda>s. within_limits ext lookup (upper_limit s) (lower_limit s)) (cm_scales cm) of
          Some scale \<Rightarrow>
            (case category of
               Identical \<Rightarrow> Inl Panics
             | Linear \<Rightarrow> lift_result (compu_lookup_linear ext diag_type cm lookup scale)
             | ScaleLinear \<Rightarrow> lift_result (compu_lookup_scale_linear ext diag_type lookup scale)
             | TextTable \<Rightarrow> lift_result (compu_lookup_text_table scale)
             | CompuCode \<Rightarrow> err (RequestNotSupported ''compu_lookup for CompuCode is not implemented'')
             | TabIntp \<Rightarrow> err (RequestNotSupported ''compu_lookup for TabIntp is not implemented'')
             | RatFunc \<Rightarrow> err (RequestNotSupported ''compu_lookup for RatFunc is not implemented'')
             | ScaleRatFunc \<Rightarrow>
                 err (RequestNotSupported ''compu_lookup for ScaleRatFunc is not implemented''))
        | None \<Rightarrow>
            if is_negative_response then
              bindE (lift_result (value_to_u32 lookup)) (\<lambda>n.
                if n \<le> 0xFF then Inr (VString (get_nrc_code (of_nat n)))
                else Inr (VString (''Unknown ('' @ to_string n @ '')'')))
            else lift_result (diag_data_value_new diag_type bs)))"

definition uds_data_to_serializable ::
  "externs \<Rightarrow> data_type \<Rightarrow> compu_method option \<Rightarrow> bool \<Rightarrow> byte list \<Rightarrow> diag_data_value run" where
  "uds_data_to_serializable ext diag_type compu_method is_negative_response bs =
     (if bs = [] then Inr (VString [])
      else case compu_method of
        Some cm \<Rightarrow>
          if cm_category cm = Identical then lift_result (diag_data_value_new diag_type bs)
          else compu_lookup ext diag_type cm (cm_category cm) is_negative_response bs
      | None \<Rightarrow> lift_result (diag_data_value_new diag_type bs))"

section \<open>Validation of bit lengths\<close>

text \<open>
  \<open>validate_bit_len_signed\<close> at a type of \<open>w\<close> bits: \<open>checked_shl\<close> fails when the shift reaches
  the width and otherwise wraps, \<open>checked_sub\<close> and \<open>checked_neg\<close> fail on overflow.
\<close>

definition checked_shl_one :: "nat \<Rightarrow> nat \<Rightarrow> int option" where
  "checked_shl_one w k =
     (if w \<le> k then None else Some (if k = w - 1 then - (2 ^ (w - 1)) else 2 ^ k))"

definition in_signed :: "nat \<Rightarrow> int \<Rightarrow> int option" where
  "in_signed w z = (if - (2 ^ (w - 1)) \<le> z \<and> z < 2 ^ (w - 1) then Some z else None)"

definition validate_bit_len_signed :: "nat \<Rightarrow> int \<Rightarrow> nat \<Rightarrow> unit diag_result" where
  "validate_bit_len_signed w v bit_len =
     (if bit_len = 0
      then Inl (ParameterConversionError ''Bit length 0 is not allowed for validation'')
      else
        let one = checked_shl_one w (bit_len - 1);
            max_value = (case Option.bind one (\<lambda>x. in_signed w (x - 1)) of
                Some m \<Rightarrow> m | None \<Rightarrow> 2 ^ (w - 1) - 1);
            min_value = (case Option.bind one (\<lambda>x. in_signed w (- x)) of
                Some m \<Rightarrow> m | None \<Rightarrow> - (2 ^ (w - 1)))
        in if v < min_value then Inl (ParameterConversionError ''Value is below minimum'')
           else if v > max_value then Inl (ParameterConversionError ''Value exceeds maximum'')
           else Inr ())"

definition validate_bit_len_unsigned :: "nat \<Rightarrow> nat \<Rightarrow> nat \<Rightarrow> unit diag_result" where
  "validate_bit_len_unsigned w v bit_len =
     (if bit_len = 0
      then Inl (ParameterConversionError ''Bit length 0 is not allowed for validation'')
      else
        let max_value = (if w \<le> bit_len then 2 ^ w - 1 else 2 ^ bit_len - 1)
        in if v > max_value then Inl (ParameterConversionError ''Value exceeds maximum'') else Inr ())"

section \<open>Numbers in text\<close>

definition decode_hex_with_optional_prefix :: "externs \<Rightarrow> string \<Rightarrow> byte list diag_result" where
  "decode_hex_with_optional_prefix ext s =
     bindE (collect_results
              (\<lambda>v. case try_strip_hex_prefix v of
                      Some stripped \<Rightarrow> decode_hex (hex_decode ext) stripped
                    | None \<Rightarrow> decode_hex (hex_decode ext) v)
              (filter (\<lambda>v. v \<noteq> []) (split_at (\<lambda>c. c = CHR '' '' \<or> c = CHR '','') s)))
       (\<lambda>vecs. Inr (concat vecs))"

definition decode_u32_octal_with_optional_prefix :: "string \<Rightarrow> byte list diag_result" where
  "decode_u32_octal_with_optional_prefix s =
     (let stripped = (case strip_prefix ''0o'' s of Some r \<Rightarrow> r | None \<Rightarrow> s) in
      if \<not> list_all (\<lambda>c. 48 \<le> code c \<and> code c \<le> 55) stripped
      then Inl (ParameterConversionError ''Non-octal character found'')
      else case from_str_radix u32_max 8 stripped of
             Inl e \<Rightarrow> Inl (ParameterConversionError ''Invalid octal value'')
           | Inr v \<Rightarrow> Inr (u32_to_be_bytes v))"

definition decode_u32_binary_with_optional_prefix :: "string \<Rightarrow> byte list diag_result" where
  "decode_u32_binary_with_optional_prefix s =
     (let stripped = (case strip_prefix ''0b'' s of Some r \<Rightarrow> r | None \<Rightarrow> s) in
      if \<not> list_all (\<lambda>c. c = CHR ''0'' \<or> c = CHR ''1'') stripped
      then Inl (ParameterConversionError ''Non-binary character found'')
      else case from_str_radix u32_max 2 stripped of
             Inl e \<Rightarrow> Inl (ParameterConversionError ''Invalid binary value'')
           | Inr v \<Rightarrow> Inr (u32_to_be_bytes v))"

text \<open>
  The prefix test \<open>value.to_lowercase().starts_with(..)\<close>: no character outside ASCII has a
  lower case among the letters tested, so ASCII lower case decides it.
\<close>

definition has_prefix :: "string \<Rightarrow> string \<Rightarrow> bool" where
  "has_prefix p s \<longleftrightarrow> take (length p) (to_ascii_lowercase s) = p"

definition bit_len_or_32 :: "diag_coded_type \<Rightarrow> nat" where
  "bit_len_or_32 d = (case dct_bit_len d of Some n \<Rightarrow> n | None \<Rightarrow> 32)"

definition decode_numeric_val_from_str ::
  "externs \<Rightarrow> string \<Rightarrow> physical_type \<Rightarrow> diag_coded_type \<Rightarrow> byte list run" where
  "decode_numeric_val_from_str ext s pt diag_type = (case pt_base_type pt of
      Int32 \<Rightarrow>
        bindE (lift_result (ok_or (parse_int i32_min i32_max s)
                 (ParameterConversionError ''Invalid value for Int32''))) (\<lambda>v.
        bindE (lift_result (validate_bit_len_signed 32 v (bit_len_or_32 diag_type))) (\<lambda>_.
          Inr (i32_to_be_bytes v)))
    | UInt32 \<Rightarrow>
        if has_prefix ''0x'' s then
          bindE (lift_result (decode_hex_with_optional_prefix ext s)) (\<lambda>decoded0.
          let decoded = (if length decoded0 < 4 then pad_msb_to_len decoded0 4 else decoded0) in
          if length decoded \<noteq> 4 then Inl Panics
          else
            bindE (lift_result (validate_bit_len_unsigned 32 (be_val decoded) (bit_len_or_32 diag_type)))
              (\<lambda>_. Inr (u32_to_be_bytes (be_val decoded))))
        else if has_prefix ''0o'' s then lift_result (decode_u32_octal_with_optional_prefix s)
        else if has_prefix ''0b'' s then lift_result (decode_u32_binary_with_optional_prefix s)
        else
          (case from_str_radix u32_max 10 s of
             Inl e \<Rightarrow> err (ParameterConversionError ''Invalid value for UInt32'')
           | Inr v \<Rightarrow>
               bindE (lift_result (validate_bit_len_unsigned 32 v (bit_len_or_32 diag_type))) (\<lambda>_.
                 Inr (u32_to_be_bytes v)))
    | Float32 \<Rightarrow>
        bindE (lift_result (ok_or (parse_f32 s) (ParameterConversionError ''Invalid value for Float'')))
          (\<lambda>v. Inr (f32_to_be_bytes v))
    | Float64 \<Rightarrow>
        bindE (lift_result (ok_or (parse_f64 s) (ParameterConversionError ''Invalid value for Float'')))
          (\<lambda>v. Inr (f64_to_be_bytes v))
    | _ \<Rightarrow> err (ParameterConversionError ''Cannot parse string value for non-numeric physical type''))"

section \<open>From physical to coded values\<close>

text \<open>\<open>bytes.try_into().expect(..)\<close>: the conversion to an array of \<open>n\<close> bytes.\<close>

definition expect_len :: "nat \<Rightarrow> byte list \<Rightarrow> byte list run" where
  "expect_len n bs = (if length bs = n then Inr bs else Inl Panics)"

definition parse_json_to_f64 ::
  "externs \<Rightarrow> json \<Rightarrow> diag_coded_type \<Rightarrow> physical_type option \<Rightarrow> f64 run" where
  "parse_json_to_f64 ext v diag_type pt =
     (case as_f64 v of
        Some num \<Rightarrow> Inr num
      | None \<Rightarrow>
     (case as_i64 v of
        Some num \<Rightarrow> Inr (f64_of_int num)
      | None \<Rightarrow>
     (case (as_str v, pt) of
        (Some s, Some phys_type) \<Rightarrow>
          bindE (decode_numeric_val_from_str ext s phys_type diag_type) (\<lambda>base_bytes.
          case base_datatype diag_type of
            Int32 \<Rightarrow>
              if length base_bytes > 4
              then err (ParameterConversionError ''Input value is too large for Int32'')
              else bindE (expect_len 4 (pad_msb_to_len base_bytes 4))
                     (\<lambda>b. Inr (f64_of_int (i32_from_be_bytes b)))
          | UInt32 \<Rightarrow>
              if length base_bytes > 4
              then err (ParameterConversionError ''Input value is too large for UInt32'')
              else bindE (expect_len 4 (pad_msb_to_len base_bytes 4))
                     (\<lambda>b. Inr (f64_of_int (int (be_val b))))
          | Float32 \<Rightarrow>
              if length base_bytes > 4
              then err (ParameterConversionError ''Input value is too large for Float32'')
              else bindE (expect_len 4 (pad_msb_to_len base_bytes 4))
                     (\<lambda>b. Inr (f64_of_f32 (f32_from_be_bytes b)))
          | Float64 \<Rightarrow>
              if length base_bytes > 8
              then err (ParameterConversionError ''Input value is too large for Float64'')
              else bindE (expect_len 8 (pad_msb_to_len base_bytes 8))
                     (\<lambda>b. Inr (f64_from_be_bytes b))
          | _ \<Rightarrow> err (ParameterConversionError ''Cannot parse string value for non-numeric physical type''))
      | _ \<Rightarrow> err (ParameterConversionError ''Invalid JSON value for numeric conversion''))))"

definition linear_scaled_value_to_bytes :: "f64 \<Rightarrow> data_type \<Rightarrow> byte list diag_result" where
  "linear_scaled_value_to_bytes v diag_type = (case diag_type of
      Int32 \<Rightarrow> Inr (i32_to_be_bytes (fp_as_int binary64 i32_min i32_max (dec64 v)))
    | UInt32 \<Rightarrow> Inr (u32_to_be_bytes (nat (fp_as_int binary64 0 (int u32_max) (dec64 v))))
    | Float32 \<Rightarrow> Inr (f32_to_be_bytes (f32_of_f64 v))
    | Float64 \<Rightarrow> Inr (f64_to_be_bytes v)
    | _ \<Rightarrow> Inl (InvalidDatabase ''Database only supports Int32, UInt32, Float32 and Float64 for linear scaling''))"

definition compu_convert_linear ::
  "externs \<Rightarrow> diag_coded_type \<Rightarrow> compu_method \<Rightarrow> physical_type option \<Rightarrow> json \<Rightarrow> byte list run" where
  "compu_convert_linear ext diag_type cm phys_type v =
     (if length (cm_scales cm) \<noteq> 1
      then err (InvalidDatabase ''LINEAR: Expected exactly 1 COMPU-SCALE'')
      else
        bindE (lift_result (ok_or (get (cm_scales cm) 0)
                 (UdsLookupError ''Failed to find scales for linear scaling''))) (\<lambda>scale.
        bindE (parse_json_to_f64 ext v diag_type phys_type) (\<lambda>physical_value.
        bindE (lift_result (ok_or (rational_coefficients scale)
                 (UdsLookupError ''LINEAR: Missing rational coefficients''))) (\<lambda>coeffs.
        bindE (lift_result (apply_linear_conversion coeffs physical_value
                 (PhysToInternal (inverse_values scale)))) (\<lambda>internal_value.
          lift_result (linear_scaled_value_to_bytes internal_value (base_datatype diag_type)))))))"

definition phys_limit :: "compu_rational_coefficients \<Rightarrow> limit option \<Rightarrow> f64 option" where
  "phys_limit coeffs l =
     Option.bind l (\<lambda>l. Option.bind (ok_option (limit_to_f64 l)) (\<lambda>internal_val.
       ok_option (apply_linear_conversion coeffs internal_val InternalToPhys)))"

definition within_phys_scale :: "f64 \<Rightarrow> compu_scale \<Rightarrow> bool" where
  "within_phys_scale physical_value scale = (case rational_coefficients scale of
      None \<Rightarrow> False
    | Some coeffs \<Rightarrow>
        (case phys_limit coeffs (lower_limit scale) of
           None \<Rightarrow> True
         | Some l \<Rightarrow>
             (case lower_limit scale of
                Some lm \<Rightarrow>
                  (case limit_interval lm of
                     Closed \<Rightarrow> fp_le (dec64 l) (dec64 physical_value)
                   | Open \<Rightarrow> fp_lt (dec64 l) (dec64 physical_value)
                   | Infinite \<Rightarrow> True)
              | None \<Rightarrow> fp_le (dec64 l) (dec64 physical_value))) \<and>
        (case phys_limit coeffs (upper_limit scale) of
           None \<Rightarrow> True
         | Some u \<Rightarrow>
             (case upper_limit scale of
                Some lm \<Rightarrow>
                  (case limit_interval lm of
                     Closed \<Rightarrow> fp_le (dec64 physical_value) (dec64 u)
                   | Open \<Rightarrow> fp_lt (dec64 physical_value) (dec64 u)
                   | Infinite \<Rightarrow> True)
              | None \<Rightarrow> fp_le (dec64 physical_value) (dec64 u))))"

definition compu_convert_scale_linear ::
  "externs \<Rightarrow> diag_coded_type \<Rightarrow> compu_method \<Rightarrow> physical_type option \<Rightarrow> json \<Rightarrow> byte list run" where
  "compu_convert_scale_linear ext diag_type cm phys_type v =
     bindE (parse_json_to_f64 ext v diag_type phys_type) (\<lambda>physical_value.
     bindE (lift_result (ok_or (find (within_phys_scale physical_value) (cm_scales cm))
              (UdsLookupError ''Failed to find matching scale for SCALE-LINEAR conversion''))) (\<lambda>scale.
     bindE (lift_result (ok_or (rational_coefficients scale)
              (UdsLookupError ''SCALE-LINEAR: Missing rational coefficients''))) (\<lambda>coeffs.
     bindE (lift_result (apply_linear_conversion coeffs physical_value
              (PhysToInternal (inverse_values scale)))) (\<lambda>internal_value.
       lift_result (linear_scaled_value_to_bytes internal_value (base_datatype diag_type))))))"

definition text_limit :: "string \<Rightarrow> compu_scale \<Rightarrow> limit option" where
  "text_limit s scale =
     (case Option.bind (scale_consts scale) scale_text of
        Some t \<Rightarrow> if s = t then lower_limit scale else None
      | None \<Rightarrow> None)"

definition compu_convert_text_table ::
  "data_type \<Rightarrow> compu_method \<Rightarrow> json \<Rightarrow> byte list run" where
  "compu_convert_text_table diag_type cm v =
     (if \<not> (diag_type = Int32 \<or> diag_type = UInt32 \<or> diag_type = Float32 \<or> diag_type = Float64)
      then err (InvalidDatabase ''TextTable conversion only supports numeric data types'')
      else case map_option (filter (\<lambda>c. c \<noteq> char_of (34 :: nat))) (as_str v) of
        None \<Rightarrow> err (UdsLookupError ''Failed to convert value to string'')
      | Some s \<Rightarrow>
          (case find_map (text_limit s) (cm_scales cm) of
             None \<Rightarrow> err (UdsLookupError ''Failed to find matching TextTable value'')
           | Some l \<Rightarrow>
               (case diag_type of
                  Int32 \<Rightarrow> bindE (lift_result (limit_to_i32 l)) (\<lambda>x. Inr (i32_to_be_bytes x))
                | UInt32 \<Rightarrow> bindE (lift_result (limit_to_u32 l)) (\<lambda>x. Inr (u32_to_be_bytes x))
                | Float32 \<Rightarrow> bindE (lift_result (limit_to_f32 l)) (\<lambda>x. Inr (f32_to_be_bytes x))
                | Float64 \<Rightarrow> bindE (lift_result (limit_to_f64 l)) (\<lambda>x. Inr (f64_to_be_bytes x))
                | _ \<Rightarrow> Inl Panics)))"

definition compu_convert ::
  "externs \<Rightarrow> diag_coded_type \<Rightarrow> compu_method \<Rightarrow> physical_type option \<Rightarrow> compu_category \<Rightarrow> json \<Rightarrow>
   byte list run" where
  "compu_convert ext diag_type cm phys_type category v = (case category of
      Identical \<Rightarrow> err (RequestNotSupported ''compu_convert for Identical is not implemented'')
    | Linear \<Rightarrow> compu_convert_linear ext diag_type cm phys_type v
    | ScaleLinear \<Rightarrow> compu_convert_scale_linear ext diag_type cm phys_type v
    | TextTable \<Rightarrow> compu_convert_text_table (base_datatype diag_type) cm v
    | CompuCode \<Rightarrow> err (RequestNotSupported ''compu_convert for CompuCode is not implemented'')
    | TabIntp \<Rightarrow> err (RequestNotSupported ''compu_convert for TabIntp is not implemented'')
    | RatFunc \<Rightarrow> err (RequestNotSupported ''compu_convert for RatFunc is not implemented'')
    | ScaleRatFunc \<Rightarrow> err (RequestNotSupported ''compu_convert for ScaleRatFunc is not implemented''))"

definition process_numeric_json_value :: "json \<Rightarrow> diag_coded_type \<Rightarrow> byte list run" where
  "process_numeric_json_value v d = (case base_datatype d of
      Int32 \<Rightarrow>
        bindE (lift_result (ok_or (as_i64 v) (ParameterConversionError ''Invalid value''))) (\<lambda>x.
        bindE (lift_result (validate_bit_len_signed 64 x (bit_len_or_32 d))) (\<lambda>_.
          if i32_min \<le> x \<and> x \<le> i32_max then Inr (i32_to_be_bytes x)
          else err (ParameterConversionError ''Failed to convert to Int32'')))
    | UInt32 \<Rightarrow>
        bindE (lift_result (ok_or (as_u64 v) (ParameterConversionError ''Invalid value''))) (\<lambda>x.
        bindE (lift_result (validate_bit_len_unsigned 64 x (bit_len_or_32 d))) (\<lambda>_.
          if x \<le> u32_max then Inr (u32_to_be_bytes x)
          else err (ParameterConversionError ''Failed to convert to UInt32'')))
    | Float32 \<Rightarrow>
        bindE (lift_result (ok_or (as_f64 v) (ParameterConversionError ''Invalid value for Float32'')))
          (\<lambda>x. Inr (f32_to_be_bytes (f32_of_f64 x)))
    | Float64 \<Rightarrow>
        bindE (lift_result (ok_or (as_f64 v) (ParameterConversionError ''Invalid value for Float64'')))
          (\<lambda>x. Inr (f64_to_be_bytes x))
    | _ \<Rightarrow> err (ParameterConversionError ''Not support data type for value conversion''))"

definition to_numeric_base_type :: "externs \<Rightarrow> numeric \<Rightarrow> data_type \<Rightarrow> byte list diag_result" where
  "to_numeric_base_type ext val base_type = (case base_type of
      Int32 \<Rightarrow> bindE (ok_or (to_i32 ext val) (ParameterConversionError ''Failed to convert to Int32''))
                 (\<lambda>v. Inr (i32_to_be_bytes v))
    | UInt32 \<Rightarrow> bindE (ok_or (to_u32 ext val) (ParameterConversionError ''Failed to convert to UInt32''))
                 (\<lambda>v. Inr (u32_to_be_bytes v))
    | Float32 \<Rightarrow> bindE (ok_or (to_f32 ext val) (ParameterConversionError ''Failed to convert to Float32''))
                 (\<lambda>v. Inr (f32_to_be_bytes v))
    | Float64 \<Rightarrow> bindE (ok_or (to_f64 ext val) (ParameterConversionError ''Failed to convert to Float64''))
                 (\<lambda>v. Inr (f64_to_be_bytes v))
    | _ \<Rightarrow> Inl (ParameterConversionError ''Cannot convert numeric value to non-numeric base type''))"

definition process_physical_type_value ::
  "externs \<Rightarrow> json \<Rightarrow> physical_type \<Rightarrow> diag_coded_type \<Rightarrow> byte list run" where
  "process_physical_type_value ext v pt d =
     bindE (lift_result (ok_or (as_str v)
       (ParameterConversionError ''Non-numeric JSON value could not be converted to string''))) (\<lambda>s.
     bindE (decode_numeric_val_from_str ext s pt d) (\<lambda>bs.
       if pt_base_type pt = base_datatype d then Inr bs
       else case pt_base_type pt of
         Int32 \<Rightarrow> bindE (expect_len 4 (pad_msb_to_len bs 4))
                    (\<lambda>b. lift_result (to_numeric_base_type ext (NI32 (i32_from_be_bytes b)) (base_datatype d)))
       | UInt32 \<Rightarrow> bindE (expect_len 4 (pad_msb_to_len bs 4))
                    (\<lambda>b. lift_result (to_numeric_base_type ext (NU32 (be_val b)) (base_datatype d)))
       | Float32 \<Rightarrow> bindE (expect_len 4 (pad_msb_to_len bs 4))
                    (\<lambda>b. lift_result (to_numeric_base_type ext (NF32 (f32_from_be_bytes b)) (base_datatype d)))
       | Float64 \<Rightarrow> bindE (expect_len 8 (pad_msb_to_len bs 8))
                    (\<lambda>b. lift_result (to_numeric_base_type ext (NF64 (f64_from_be_bytes b)) (base_datatype d)))
       | _ \<Rightarrow> err (ParameterConversionError ''Cannot convert from non-numeric physical type to numeric base type'')))"

definition validate_data_length :: "byte list \<Rightarrow> data_type \<Rightarrow> unit diag_result" where
  "validate_data_length bs base_type =
     (if (base_type = Int32 \<or> base_type = UInt32 \<or> base_type = Float32) \<and> length bs > 4
      then Inl (ParameterConversionError ''Invalid data length'')
      else if base_type = Float64 \<and> length bs > 8
      then Inl (ParameterConversionError ''Invalid data length for Float64'')
      else Inr ())"

definition numeric_json_value_to_byte_vector ::
  "externs \<Rightarrow> json \<Rightarrow> diag_coded_type \<Rightarrow> physical_type option \<Rightarrow> byte list run" where
  "numeric_json_value_to_byte_vector ext v d pt =
     bindE (if is_number v then process_numeric_json_value v d
            else case pt of
              Some phys \<Rightarrow> process_physical_type_value ext v phys d
            | None \<Rightarrow> err (ParameterConversionError ''Cannot decode non-numeric JSON value without physical type information''))
     (\<lambda>bs. bindE (lift_result (validate_data_length bs (base_datatype d))) (\<lambda>_. Inr bs))"

definition json_value_to_uds_data ::
  "externs \<Rightarrow> diag_coded_type \<Rightarrow> compu_method option \<Rightarrow> physical_type option \<Rightarrow> json \<Rightarrow> byte list run" where
  "json_value_to_uds_data ext d compu_method phys_type v =
     (let identical = (case base_datatype d of
          Int32 \<Rightarrow> numeric_json_value_to_byte_vector ext v d phys_type
        | UInt32 \<Rightarrow> numeric_json_value_to_byte_vector ext v d phys_type
        | Float32 \<Rightarrow> numeric_json_value_to_byte_vector ext v d phys_type
        | Float64 \<Rightarrow> numeric_json_value_to_byte_vector ext v d phys_type
        | ByteField \<Rightarrow>
            bindE (lift_result (ok_or (as_str v) (ParameterConversionError ''Invalid value for ByteField'')))
              (\<lambda>s. lift_result (decode_hex_with_optional_prefix ext s))
        | _ \<Rightarrow>
            bindE (lift_result (ok_or (as_str v) (ParameterConversionError ''Invalid value for AsciiString'')))
              (\<lambda>s. Inr (as_bytes s)))
      in case compu_method of
           Some cm \<Rightarrow>
             if cm_category cm = Identical then identical
             else compu_convert ext d cm phys_type (cm_category cm) v
         | None \<Rightarrow> identical)"

end
