(* ===== verification/Payload_View.thy ===== *)
theory Payload_View
  imports Compu_Method
begin

text \<open>
  The cursor over a UDS payload, \<open>Payload\<close> of \<open>cda-core/src/diag_kernel/payload.rs\<close>: a stack
  of absolute slices, the current index, the last read position inside the current view and the
  bytes to skip; and the conversion of constants of the database to JSON.
\<close>

section \<open>The cursor\<close>

record payload =
  pl_data :: "byte list"
  current_index :: nat
  slices :: "(nat \<times> nat) list"
  last_read_byte_pos :: nat
  bytes_to_skip :: nat

text \<open>The back of the deque is the head of the list \<open>slices\<close>.\<close>

definition payload_new :: "byte list \<Rightarrow> payload" where
  "payload_new bs = \<lparr>pl_data = bs, current_index = 0, slices = [], last_read_byte_pos = 0,
     bytes_to_skip = 0\<rparr>"

definition pl_len :: "payload \<Rightarrow> nat" where
  "pl_len p = (case slices p of (s, e) # _ \<Rightarrow> e - s | [] \<Rightarrow> length (pl_data p))"

definition pl_pos :: "payload \<Rightarrow> nat" where
  "pl_pos p = (case slices p of (s, e) # _ \<Rightarrow> s | [] \<Rightarrow> current_index p)"

definition set_last_read_byte_pos :: "nat \<Rightarrow> payload \<Rightarrow> payload" where
  "set_last_read_byte_pos pos p =
     p\<lparr>last_read_byte_pos := (if pos > pl_len p then pl_len p else pos)\<rparr>"

definition set_bytes_to_skip :: "nat \<Rightarrow> payload \<Rightarrow> payload" where
  "set_bytes_to_skip count p = p\<lparr>bytes_to_skip := saturating_add (bytes_to_skip p) count\<rparr>"

definition payload_data :: "payload \<Rightarrow> byte list diag_result" where
  "payload_data p =
     ok_or (case slices p of
              (s, e) # _ \<Rightarrow> get_range (pl_data p) s e
            | [] \<Rightarrow> get_range (pl_data p) (pl_pos p) (length (pl_data p)))
       (BadPayload ''Slice out of bounds'')"

definition consume :: "payload \<Rightarrow> nat \<times> payload" where
  "consume p =
     (let advance_len = saturating_add (last_read_byte_pos p) (bytes_to_skip p);
          idx = (if saturating_add (pl_pos p) advance_len > length (pl_data p)
                 then length (pl_data p) else saturating_add (current_index p) advance_len)
      in (advance_len, p\<lparr>current_index := idx, last_read_byte_pos := 0, bytes_to_skip := 0\<rparr>))"

definition exhausted :: "payload \<Rightarrow> bool" where
  "exhausted p = (case slices p of
      (s, e) # _ \<Rightarrow> current_index p \<ge> e
    | [] \<Rightarrow> current_index p \<ge> length (pl_data p))"

definition pl_first :: "payload \<Rightarrow> byte option" where
  "pl_first p = get (pl_data p) (pl_pos p)"

definition push_slice :: "nat \<Rightarrow> nat \<Rightarrow> payload \<Rightarrow> payload diag_result" where
  "push_slice start_pos end_pos p =
     (if start_pos > end_pos \<or> end_pos > pl_len p
      then Inl (BadPayload ''Invalid range for restricting view'')
      else Inr (p\<lparr>slices :=
             (saturating_add (pl_pos p) start_pos,
              min (saturating_add (pl_pos p) end_pos) (length (pl_data p))) # slices p\<rparr>))"

definition push_slice_to_abs_end :: "nat \<Rightarrow> payload \<Rightarrow> payload diag_result" where
  "push_slice_to_abs_end start_pos p = push_slice start_pos (pl_len p) p"

definition pop_slice :: "payload \<Rightarrow> payload diag_result" where
  "pop_slice p = (case slices p of
      [] \<Rightarrow> Inl (BadPayload ''No restricted view to pop'')
    | _ # rest \<Rightarrow> Inr (p\<lparr>slices := rest\<rparr>))"

definition str_to_json_value :: "string \<Rightarrow> data_type \<Rightarrow> json diag_result" where
  "str_to_json_value s dt = (case dt of
      Int32 \<Rightarrow> bindE (ok_or (parse_int i32_min i32_max s) (InvalidDatabase ''CodedConst value conversion error''))
                 (\<lambda>z. Inr (number_from_int z))
    | UInt32 \<Rightarrow> (case from_str_radix u32_max 10 s of
                  Inl e \<Rightarrow> Inl (InvalidDatabase ''CodedConst value conversion error'')
                | Inr n \<Rightarrow> Inr (number_from_int (int n)))
    | Float32 \<Rightarrow> bindE (ok_or (parse_f64 s) (InvalidDatabase ''CodedConst value conversion error''))
                 (\<lambda>f. Inr (case number_from_f64 f of Some n \<Rightarrow> JNumber n | None \<Rightarrow> JNull))
    | Float64 \<Rightarrow> bindE (ok_or (parse_f64 s) (InvalidDatabase ''CodedConst value conversion error''))
                 (\<lambda>f. Inr (case number_from_f64 f of Some n \<Rightarrow> JNumber n | None \<Rightarrow> JNull))
    | _ \<Rightarrow> Inr (JString s))"

section \<open>The views stay inside the payload\<close>

text \<open>Every slice ends inside the payload.\<close>

definition payload_wf :: "payload \<Rightarrow> bool" where
  "payload_wf p \<longleftrightarrow>
     length (pl_data p) \<le> usize_max \<and>
     (\<forall>(s, e) \<in> set (slices p). e \<le> length (pl_data p)) \<and>
     current_index p \<le> usize_max"

lemma payload_new_wf: "length bs \<le> usize_max \<Longrightarrow> payload_wf (payload_new bs)"
  by (simp add: payload_wf_def payload_new_def)

lemma payload_wf_update [simp]:
  "payload_wf (p\<lparr>last_read_byte_pos := n\<rparr>) = payload_wf p"
  "payload_wf (p\<lparr>bytes_to_skip := n\<rparr>) = payload_wf p"
  by (simp_all add: payload_wf_def)

lemma consume_wf: "payload_wf p \<Longrightarrow> payload_wf (snd (consume p))"
  by (simp add: consume_def payload_wf_def Let_def saturating_add_def)

lemma pop_slice_wf: "payload_wf p \<Longrightarrow> pop_slice p = Inr q \<Longrightarrow> payload_wf q"
  by (auto simp: pop_slice_def payload_wf_def split: list.splits)

end
