(* ===== verification/Diag_Description.thy ===== *)
theory Diag_Description
  imports Payload_View
begin

text \<open>
  The part of the diagnostic description that encoding and decoding walk over: parameters with
  their specific data and data operations, as \<open>cda-database/src/datatypes.rs\<close> wraps the tables
  of \<open>diagnostic_description.fbs\<close>. An absent table field is \<open>None\<close>; a union is a datatype
  whose accessors return the table only for its own constructor. The tables reference each other
  by forward offsets, so a description is a finite tree. \<open>u32\<close> fields are natural numbers.
\<close>

section \<open>Tables\<close>

datatype param_type =
    PtCodedConst | PtDynamic | PtLengthKey | PtMatchingRequestParam | PtNrcConst | PtPhysConst
  | PtReserved | PtSystem | PtTableEntry | PtTableKey | PtTableStruct | PtValue

definition param_type_try_from :: "int \<Rightarrow> param_type diag_result" where
  "param_type_try_from c =
     (if c = 0 then Inr PtCodedConst
      else if c = 1 then Inr PtDynamic
      else if c = 2 then Inr PtLengthKey
      else if c = 3 then Inr PtMatchingRequestParam
      else if c = 4 then Inr PtNrcConst
      else if c = 5 then Inr PtPhysConst
      else if c = 6 then Inr PtReserved
      else if c = 7 then Inr PtSystem
      else if c = 8 then Inr PtTableEntry
      else if c = 9 then Inr PtTableKey
      else if c = 10 then Inr PtTableStruct
      else if c = 11 then Inr PtValue
      else Inl (InvalidDatabase ''Unknown ParamType''))"

record normal_dop =
  nd_diag_coded_type :: "fb_diag_coded_type option"
  nd_compu_method :: "compu_method option"
  nd_physical_type :: "physical_type option"

record coded_const =
  cc_coded_value :: "string option"
  cc_diag_coded_type :: "fb_diag_coded_type option"

record dtc =
  dtc_short_name :: "string option"
  trouble_code :: nat
  display_trouble_code :: "string option"
  dtc_text :: "string option"
  dtc_level :: "nat option"

record dtc_dop =
  dd_diag_coded_type :: "fb_diag_coded_type option"
  dd_dtcs :: "dtc list option"

datatype 'd dop_field = DopField (basic_structure: "'d option") (env_data_desc: "'d option")

datatype 'p struct_dop = Structure (st_params: "'p list option") (st_byte_size: "nat option")

datatype 'p env_data = EnvData (dtc_values: "nat list option") (ed_params: "'p list option")

datatype 'd switch_key =
  SwitchKey (sk_byte_position: nat) (sk_bit_position: "nat option") (sk_dop: "'d option")

datatype 'd default_case = DefaultCase (dc_short_name: "string option") (dc_structure: "'d option")

datatype 'd mux_case =
  MuxCase (mc_short_name: "string option") (mc_structure: "'d option")
    (mc_lower_limit: "limit option") (mc_upper_limit: "limit option")

datatype 'd num_items =
  NumItems (ni_byte_position: nat) (ni_bit_position: nat) (ni_dop: "'d option")

datatype 'd table_row =
  TableRow (row_short_name: "string option") (row_key: "string option") (row_structure: "'d option")

datatype 'd table_dop =
  TableDop (key_dop: "'d option") (table_rows: "'d table_row list option")

datatype 'd mux_dop =
  Mux (mux_byte_position: nat) (mux_switch_key: "'d switch_key option")
    (mux_default_case: "'d default_case option") (mux_cases: "'d mux_case list option")

datatype param =
  Param (p_short_name: "string option") (p_semantic: "string option")
    (p_byte_position: "nat option") (p_bit_position: "nat option") (p_type: int)
    (p_specific: specific)
and specific =
    NoSpecific
  | CodedConstData coded_const
  | DynamicData
  | LengthKeyRefData "dop option"
  | MatchingRequestData int
  | NrcConstData
  | PhysConstData "string option" "dop option"
  | ReservedData nat
  | SystemData
  | TableEntryData
  | TableKeyData "dop table_dop option"
  | TableStructData "param option"
  | ValueData "string option" "dop option"
and dop =
    DopNone
  | DopUnknown
  | DopMissing string
  | NormalDop normal_dop
  | EndOfPduField "nat option" "nat option" "dop dop_field option"
  | StructureDop "param struct_dop"
  | EnvDataDescDop "string option" "dop list option"
  | EnvDataDop "param env_data"
  | DtcDop dtc_dop
  | StaticFieldDop nat nat "dop dop_field option"
  | MuxDop "dop mux_dop"
  | DynamicLengthFieldDop nat "dop dop_field option" "dop num_items option"

section \<open>Accessors\<close>

definition byte_position :: "param \<Rightarrow> nat" where
  "byte_position p = (case p_byte_position p of Some n \<Rightarrow> n | None \<Rightarrow> 0)"

definition has_byte_position :: "param \<Rightarrow> bool" where
  "has_byte_position p \<longleftrightarrow> p_byte_position p \<noteq> None"

definition bit_position :: "param \<Rightarrow> nat" where
  "bit_position p = (case p_bit_position p of Some n \<Rightarrow> n | None \<Rightarrow> 0)"

definition param_type_of :: "param \<Rightarrow> param_type diag_result" where
  "param_type_of p = param_type_try_from (p_type p)"

definition specific_data_as_coded_const :: "param \<Rightarrow> coded_const option" where
  "specific_data_as_coded_const p = (case p_specific p of CodedConstData c \<Rightarrow> Some c | _ \<Rightarrow> None)"

definition specific_data_as_value :: "param \<Rightarrow> (string option \<times> dop option) option" where
  "specific_data_as_value p = (case p_specific p of ValueData s d \<Rightarrow> Some (s, d) | _ \<Rightarrow> None)"

definition specific_data_as_length_key_ref :: "param \<Rightarrow> dop option option" where
  "specific_data_as_length_key_ref p = (case p_specific p of LengthKeyRefData d \<Rightarrow> Some d | _ \<Rightarrow> None)"

definition specific_data_as_matching_request_param :: "param \<Rightarrow> int option" where
  "specific_data_as_matching_request_param p =
     (case p_specific p of MatchingRequestData z \<Rightarrow> Some z | _ \<Rightarrow> None)"

definition specific_data_as_phys_const :: "param \<Rightarrow> (string option \<times> dop option) option" where
  "specific_data_as_phys_const p = (case p_specific p of PhysConstData s d \<Rightarrow> Some (s, d) | _ \<Rightarrow> None)"

definition specific_data_as_reserved :: "param \<Rightarrow> nat option" where
  "specific_data_as_reserved p = (case p_specific p of ReservedData n \<Rightarrow> Some n | _ \<Rightarrow> None)"

definition specific_data_as_table_key :: "param \<Rightarrow> dop table_dop option option" where
  "specific_data_as_table_key p = (case p_specific p of TableKeyData t \<Rightarrow> Some t | _ \<Rightarrow> None)"

definition specific_data_as_table_struct :: "param \<Rightarrow> param option option" where
  "specific_data_as_table_struct p = (case p_specific p of TableStructData k \<Rightarrow> Some k | _ \<Rightarrow> None)"

definition specific_data_as_structure :: "dop \<Rightarrow> param struct_dop option" where
  "specific_data_as_structure d = (case d of StructureDop s \<Rightarrow> Some s | _ \<Rightarrow> None)"

definition specific_data_as_env_data :: "dop \<Rightarrow> param env_data option" where
  "specific_data_as_env_data d = (case d of EnvDataDop e \<Rightarrow> Some e | _ \<Rightarrow> None)"

text \<open>\<open>DataOperation::variant\<close>: the operation itself, unless its specific data are unusable.\<close>

definition dop_variant :: "dop \<Rightarrow> dop diag_result" where
  "dop_variant d = (case d of
      DopNone \<Rightarrow> Inl (ParameterConversionError ''DataOperation has no specific data type'')
    | DopUnknown \<Rightarrow> Inl (ParameterConversionError ''Unknown DataOperation specific data type'')
    | DopMissing type_name \<Rightarrow>
        Inl (InvalidDatabase (''Failed to get '' @ type_name @ '' specific data''))
    | _ \<Rightarrow> Inr d)"

definition diag_coded_type_of :: "string \<Rightarrow> fb_diag_coded_type option \<Rightarrow> diag_coded_type diag_result" where
  "diag_coded_type_of type_name dc = (case dc of
      Some fb \<Rightarrow> diag_coded_type_try_from fb
    | None \<Rightarrow> Inl (InvalidDatabase (''Expected DiagCodedType for '' @ type_name)))"

definition nd_coded_type :: "normal_dop \<Rightarrow> diag_coded_type diag_result" where
  "nd_coded_type nd = diag_coded_type_of ''NormalDop'' (nd_diag_coded_type nd)"

definition extract_struct_dop_from_field :: "dop dop_field option \<Rightarrow> param struct_dop diag_result" where
  "extract_struct_dop_from_field f =
     ok_or (Option.bind f (\<lambda>f. Option.bind (basic_structure f) specific_data_as_structure))
       (InvalidDatabase ''Field none or does not contain a struct'')"

definition mux_case_struct_from_selector_value ::
  "externs \<Rightarrow> dop mux_dop \<Rightarrow> diag_data_value \<Rightarrow> (dop mux_case \<times> param struct_dop option) option" where
  "mux_case_struct_from_selector_value ext mux v =
     Option.bind (mux_cases mux) (\<lambda>cs.
       map_option (\<lambda>c. (c, Option.bind (mc_structure c) specific_data_as_structure))
         (find (\<lambda>c. within_limits ext v (mc_upper_limit c) (mc_lower_limit c)) cs))"

section \<open>Order of the parameters\<close>

text \<open>
  \<open>sort_by\<close> is stable; the comparison puts positioned parameters first, by byte and bit
  position, and keeps the order of the others. It is the order of the sort key.
\<close>

definition param_position_le :: "param \<Rightarrow> param \<Rightarrow> bool" where
  "param_position_le a b \<longleftrightarrow>
     (if has_byte_position a \<and> has_byte_position b then
        byte_position a < byte_position b \<or>
        (byte_position a = byte_position b \<and> bit_position a \<le> bit_position b)
      else has_byte_position a \<or> \<not> has_byte_position b)"

fun insert_param :: "param \<Rightarrow> param list \<Rightarrow> param list" where
  "insert_param p [] = [p]"
| "insert_param p (q # qs) = (if param_position_le p q then p # q # qs else q # insert_param p qs)"

definition sort_params :: "param list \<Rightarrow> param list" where
  "sort_params ps = foldr insert_param ps []"

lemma set_insert_param [simp]: "set (insert_param p qs) = insert p (set qs)"
  by (induction qs) auto

lemma set_sort_params [simp]: "set (sort_params ps) = set ps"
  by (induction ps) (auto simp: sort_params_def)

end
