(* ===== verification/Payload_Decode.thy ===== *)
theory Payload_Decode
  imports Diag_Description
begin

text \<open>
  Decoding of a UDS message into named values, \<open>cda-core/src/diag_kernel/payload_decode.rs\<close>.
  The mutable cursor and the mutable map of decoded values are the state of every operation, and
  an operation that fails still returns its state, because callers catch some errors and go on
  with the same cursor. All recursion of the source passes through \<open>map_param_from_uds\<close>: each
  operation takes it as its first argument, and the knot is tied at the end with a bound on the
  depth of nested calls (\<open>Diverges\<close> beyond it).
\<close>

section \<open>Decoded values\<close>

record raw_container =
  rc_data :: "byte list"
  rc_bit_len :: nat
  rc_data_type :: data_type
  rc_compu_method :: "compu_method option"

record dtc_container =
  dtc_code :: nat
  dtc_display_code :: "string option"
  dtc_fault_name :: string
  dtc_severity :: nat
  dtc_bit_pos :: nat
  dtc_bit_len :: nat
  dtc_byte_pos :: nat

datatype container =
    RawContainer raw_container
  | StructContainer "(string \<times> container) list"
  | RepeatingStruct "(string \<times> container) list list"
  | DtcStruct dtc_container

type_synonym mapped = "(string \<times> container) list"

fun hm_insert :: "'k \<Rightarrow> 'v \<Rightarrow> ('k \<times> 'v) list \<Rightarrow> ('k \<times> 'v) list" where
  "hm_insert k v [] = [(k, v)]"
| "hm_insert k v ((k', v') # m) = (if k' = k then (k, v) # m else (k', v') # hm_insert k v m)"

lemma map_of_hm_insert [simp]: "map_of (hm_insert k v m) = (map_of m)(k \<mapsto> v)"
  by (induction k v m rule: hm_insert.induct) (auto simp: fun_eq_iff)

definition hm_extend :: "('k \<times> 'v) list \<Rightarrow> ('k \<times> 'v) list \<Rightarrow> ('k \<times> 'v) list" where
  "hm_extend m items = fold (\<lambda>(k, v). hm_insert k v) items m"

section \<open>Operations on the decoder state\<close>

type_synonym dec_state = "payload \<times> mapped"

type_synonym 'a dec = "dec_state \<Rightarrow> 'a run \<times> dec_state"

definition returnD :: "'a \<Rightarrow> 'a dec" where
  "returnD x s = (Inr x, s)"

definition failD :: "failure \<Rightarrow> 'a dec" where
  "failD f s = (Inl f, s)"

definition bindD :: "'a dec \<Rightarrow> ('a \<Rightarrow> 'b dec) \<Rightarrow> 'b dec" where
  "bindD m k s = (case m s of (Inl f, s') \<Rightarrow> (Inl f, s') | (Inr x, s') \<Rightarrow> k x s')"

definition runD :: "'a run \<Rightarrow> 'a dec" where
  "runD r s = (r, s)"

definition liftD :: "'a diag_result \<Rightarrow> 'a dec" where
  "liftD r = runD (lift_result r)"

definition errD :: "diag_service_error \<Rightarrow> 'a dec" where
  "errD e = failD (Fail e)"

definition payloadD :: "payload dec" where
  "payloadD s = (Inr (fst s), s)"

definition updateD :: "(payload \<Rightarrow> payload) \<Rightarrow> unit dec" where
  "updateD f s = (Inr (), (f (fst s), snd s))"

definition tryD :: "(payload \<Rightarrow> payload diag_result) \<Rightarrow> unit dec" where
  "tryD f s = (case f (fst s) of
      Inl e \<Rightarrow> (Inl (Fail e), s) | Inr p \<Rightarrow> (Inr (), (p, snd s)))"

definition consumeD :: "nat dec" where
  "consumeD s = (let (n, p) = consume (fst s) in (Inr n, (p, snd s)))"

definition mappedD :: "mapped dec" where
  "mappedD s = (Inr (snd s), s)"

definition insertD :: "string \<Rightarrow> container \<Rightarrow> unit dec" where
  "insertD k v s = (Inr (), (fst s, hm_insert k v (snd s)))"

definition dataD :: "byte list dec" where
  "dataD = bindD payloadD (\<lambda>p. liftD (payload_data p))"

text \<open>\<open>catchD m h\<close> runs \<open>h\<close> on a failure of \<open>m\<close>, in the state the failure left.\<close>

definition catchD :: "'a dec \<Rightarrow> (failure \<Rightarrow> 'a dec) \<Rightarrow> 'a dec" where
  "catchD m h s = (case m s of (Inl f, s') \<Rightarrow> h f s' | (Inr x, s') \<Rightarrow> (Inr x, s'))"

text \<open>\<open>localD m\<close> runs \<open>m\<close> on a map of its own and returns that map.\<close>

definition localD :: "unit dec \<Rightarrow> mapped dec" where
  "localD m s = (case m (fst s, []) of
      (Inl f, (p, _)) \<Rightarrow> (Inl f, (p, snd s)) | (Inr _, (p, d)) \<Rightarrow> (Inr d, (p, snd s)))"

fun forD :: "('a \<Rightarrow> unit dec) \<Rightarrow> 'a list \<Rightarrow> unit dec" where
  "forD f [] = returnD ()"
| "forD f (x # xs) = bindD (f x) (\<lambda>_. forD f xs)"

section \<open>Parameters in context\<close>

record param_ctx =
  pc_parameter :: param
  pc_base_offset :: nat
  pc_outer_context :: "mapped option"

definition param_context_new :: "param \<Rightarrow> nat \<Rightarrow> param_ctx" where
  "param_context_new p base =
     \<lparr>pc_parameter = p, pc_base_offset = base, pc_outer_context = None\<rparr>"

definition with_outer_context :: "param_ctx \<Rightarrow> mapped option \<Rightarrow> param_ctx" where
  "with_outer_context ctx outer = ctx\<lparr>pc_outer_context := outer\<rparr>"

definition abs_byte_pos :: "param_ctx \<Rightarrow> nat" where
  "abs_byte_pos ctx = saturating_add (pc_base_offset ctx) (byte_position (pc_parameter ctx))"

type_synonym map_param = "string \<Rightarrow> param_ctx \<Rightarrow> unit dec"

section \<open>Simple parameters\<close>

definition is_optional_type :: "diag_coded_type \<Rightarrow> bool" where
  "is_optional_type d = (case dct_type d of MinMaxLength mm \<Rightarrow> min_length mm = 0 | _ \<Rightarrow> False)"

definition extract_diag_data_container ::
  "nat \<Rightarrow> nat \<Rightarrow> diag_coded_type \<Rightarrow> compu_method option \<Rightarrow> container dec" where
  "extract_diag_data_container byte_pos bit_pos diag_type cm =
     bindD dataD (\<lambda>uds_payload.
     bindD (if is_optional_type diag_type \<and> byte_pos \<ge> length uds_payload then returnD ([], 0)
            else liftD (decode diag_type uds_payload byte_pos bit_pos)) (\<lambda>(bs, bit_len).
     if bs = [] \<and> \<not> is_optional_type diag_type
     then errD (NotEnoughData (saturating_add byte_pos 1) (length uds_payload))
     else
       bindD (updateD (set_last_read_byte_pos (saturating_add byte_pos (length bs)))) (\<lambda>_.
         returnD (RawContainer \<lparr>rc_data = bs, rc_bit_len = bit_len,
           rc_data_type = base_datatype diag_type, rc_compu_method = cm\<rparr>))))"

definition raw_only :: "container \<Rightarrow> raw_container dec" where
  "raw_only c = (case c of
      RawContainer raw \<Rightarrow> returnD raw
    | StructContainer m \<Rightarrow> errD (ParameterConversionError ''Struct not supported'')
    | RepeatingStruct ms \<Rightarrow> errD (ParameterConversionError ''RepeatingStruct not supported'')
    | DtcStruct d \<Rightarrow> errD (ParameterConversionError ''DtcStruct not supported''))"

definition map_param_reserved_from_uds :: "string \<Rightarrow> param_ctx \<Rightarrow> unit dec" where
  "map_param_reserved_from_uds param_name ctx =
     bindD (liftD (ok_or (specific_data_as_reserved (pc_parameter ctx))
              (InvalidDatabase ''Expected Reserved specific data''))) (\<lambda>bits.
     let data_type = reserved_param_data_type bits in
     bindD (liftD (new_high_low_byte_order data_type
              (StandardLength \<lparr>bit_length = bits, sl_bit_mask = None, condensed = False\<rparr>))) (\<lambda>coded_type.
     bindD dataD (\<lambda>uds_payload.
     bindD (liftD (decode coded_type uds_payload (abs_byte_pos ctx) (bit_position (pc_parameter ctx))))
       (\<lambda>(bs, bit_len).
       insertD param_name (RawContainer \<lparr>rc_data = bs, rc_bit_len = bit_len,
         rc_data_type = data_type, rc_compu_method = None\<rparr>)))))"

definition map_param_coded_const_from_uds :: "externs \<Rightarrow> string \<Rightarrow> param_ctx \<Rightarrow> unit dec" where
  "map_param_coded_const_from_uds ext param_name ctx =
     bindD (liftD (ok_or (specific_data_as_coded_const (pc_parameter ctx))
              (InvalidDatabase ''Expected CodedConst specific data''))) (\<lambda>c.
     bindD (case cc_diag_coded_type c of
              Some fb \<Rightarrow> liftD (diag_coded_type_try_from fb)
            | None \<Rightarrow> errD (InvalidDatabase ''Expected DiagCodedType in CodedConst specific data''))
     (\<lambda>diag_type.
     bindD (extract_diag_data_container (abs_byte_pos ctx) (bit_position (pc_parameter ctx))
              diag_type None) (\<lambda>v.
     bindD (raw_only v) (\<lambda>raw.
     bindD (liftD (ok_or (cc_coded_value c) (InvalidDatabase ''CodedConst has no coded value'')))
     (\<lambda>const_value.
     bindD (liftD (str_to_json_value const_value (base_datatype diag_type))) (\<lambda>const_json_value.
     bindD (runD (json_value_to_uds_data ext diag_type None None const_json_value)) (\<lambda>expected_all.
     let expected_tail = drop (length expected_all - length (rc_data raw)) expected_all in
     if rc_data raw \<noteq> expected_tail then errD (BadPayload ''Expected constant not found'')
     else insertD param_name (RawContainer raw))))))))"

definition map_dtc_dop_from_uds :: "string \<Rightarrow> dtc_dop \<Rightarrow> param_ctx \<Rightarrow> unit dec" where
  "map_dtc_dop_from_uds param_name dd ctx =
     bindD (liftD (diag_coded_type_of ''DtcDop'' (dd_diag_coded_type dd))) (\<lambda>coded_type.
     bindD dataD (\<lambda>uds_payload.
     bindD (liftD (decode coded_type uds_payload (abs_byte_pos ctx) (bit_position (pc_parameter ctx))))
     (\<lambda>(dtc_value, _).
     bindD (liftD (bindE (diag_data_value_new (base_datatype coded_type) dtc_value) value_to_u32)) (\<lambda>c.
     bindD (liftD (ok_or (Option.bind (dd_dtcs dd) (find (\<lambda>d. trouble_code d = c)))
              (BadPayload ''No DTC with code found in DTC references''))) (\<lambda>rec_dtc.
     if abs_byte_pos ctx > u32_max then errD (InvalidDatabase ''DTC byte position overflows u32'')
     else insertD param_name (DtcStruct \<lparr>dtc_code = c,
       dtc_display_code = display_trouble_code rec_dtc,
       dtc_fault_name = (case dtc_text rec_dtc of Some t \<Rightarrow> t | None \<Rightarrow> []),
       dtc_severity = (case dtc_level rec_dtc of Some l \<Rightarrow> l | None \<Rightarrow> 0),
       dtc_bit_pos = bit_position (pc_parameter ctx),
       dtc_bit_len = 24,
       dtc_byte_pos = abs_byte_pos ctx\<rparr>))))))"

definition map_table_key_from_uds :: "string \<Rightarrow> param_ctx \<Rightarrow> unit dec" where
  "map_table_key_from_uds param_name ctx =
     bindD (liftD (ok_or (specific_data_as_table_key (pc_parameter ctx))
              (InvalidDatabase ''TABLE-KEY param missing TableKey specific data''))) (\<lambda>table_ref.
     bindD (liftD (ok_or table_ref (InvalidDatabase ''TABLE-KEY has no TableDop reference''))) (\<lambda>table.
     bindD (liftD (ok_or (key_dop table) (InvalidDatabase ''TableDop missing key_dop''))) (\<lambda>kd.
     bindD (liftD (dop_variant kd)) (\<lambda>v.
     case v of
       NormalDop nd \<Rightarrow>
         bindD (liftD (nd_coded_type nd)) (\<lambda>diag_type.
         bindD (extract_diag_data_container (abs_byte_pos ctx) (bit_position (pc_parameter ctx))
                  diag_type (nd_compu_method nd)) (\<lambda>c.
           insertD param_name c))
     | _ \<Rightarrow> errD (InvalidDatabase ''TABLE-KEY key_dop must be a NormalDOP'')))))"

definition effective_byte_pos :: "param_ctx \<Rightarrow> payload \<Rightarrow> nat" where
  "effective_byte_pos ctx p =
     (if has_byte_position (pc_parameter ctx) then abs_byte_pos ctx else last_read_byte_pos p)"

definition map_normal_dop_from_uds :: "string \<Rightarrow> normal_dop \<Rightarrow> param_ctx \<Rightarrow> unit dec" where
  "map_normal_dop_from_uds short_name nd ctx =
     bindD (liftD (nd_coded_type nd)) (\<lambda>diag_coded_type.
     bindD (liftD (ok_or (nd_compu_method nd) (InvalidDatabase ''param has no compu method''))) (\<lambda>cm.
     bindD payloadD (\<lambda>p.
     bindD (extract_diag_data_container (effective_byte_pos ctx p) (bit_position (pc_parameter ctx))
              diag_coded_type (Some cm)) (\<lambda>c.
       insertD short_name c))))"

definition runtime_byte_count :: "externs \<Rightarrow> container option \<Rightarrow> nat run" where
  "runtime_byte_count ext entry = (case entry of
      Some (RawContainer raw) \<Rightarrow>
        bindE (uds_data_to_serializable ext (rc_data_type raw) (rc_compu_method raw) False (rc_data raw))
        (\<lambda>phys_val. case phys_val of
            VUInt32 n \<Rightarrow> Inr n
          | VInt32 z \<Rightarrow> Inr (if z < 0 then 0 else nat z)
          | _ \<Rightarrow> err (ParameterConversionError ''LENGTH-KEY resolved to unsupported type''))
    | None \<Rightarrow> err (InvalidDatabase ''LENGTH-KEY not yet decoded'')
    | _ \<Rightarrow> err (InvalidDatabase ''LENGTH-KEY has unexpected container type''))"

definition map_param_length_info_dop_from_uds ::
  "externs \<Rightarrow> string \<Rightarrow> normal_dop \<Rightarrow> string \<Rightarrow> param_ctx \<Rightarrow> unit dec" where
  "map_param_length_info_dop_from_uds ext short_name nd length_key ctx =
     bindD mappedD (\<lambda>m.
     bindD (runD (runtime_byte_count ext (map_of m length_key))) (\<lambda>byte_count.
     bindD (liftD (nd_coded_type nd)) (\<lambda>diag_coded_type.
     let container_of = (\<lambda>bs bit_len. RawContainer \<lparr>rc_data = bs, rc_bit_len = bit_len,
           rc_data_type = base_datatype diag_coded_type, rc_compu_method = nd_compu_method nd\<rparr>) in
     if byte_count = 0 then insertD short_name (container_of [] 0)
     else
       bindD payloadD (\<lambda>p.
       let byte_pos = effective_byte_pos ctx p in
       bindD dataD (\<lambda>uds_bytes.
       bindD (liftD (decode_with_runtime_byte_length uds_bytes byte_pos byte_count)) (\<lambda>(bs, bit_len).
       bindD (updateD (set_last_read_byte_pos (saturating_add byte_pos byte_count))) (\<lambda>_.
         insertD short_name (container_of bs bit_len))))))))"

section \<open>Structures and fields\<close>

definition with_short_name :: "string \<Rightarrow> param \<Rightarrow> (string \<Rightarrow> unit dec) \<Rightarrow> unit dec" where
  "with_short_name msg p k =
     bindD (liftD (ok_or (p_short_name p) (InvalidDatabase msg))) k"

definition map_struct_from_uds :: "map_param \<Rightarrow> param struct_dop \<Rightarrow> mapped \<Rightarrow> mapped dec" where
  "map_struct_from_uds map_param_from structure_dop outer =
     localD (case st_params structure_dop of
       None \<Rightarrow> returnD ()
     | Some ps \<Rightarrow>
         forD (\<lambda>p. with_short_name ''Unable to find short name for param'' p (\<lambda>short_name.
           map_param_from short_name (with_outer_context (param_context_new p 0) (Some outer)))) ps)"

definition map_structure_dop_from_uds ::
  "map_param \<Rightarrow> string \<Rightarrow> param struct_dop \<Rightarrow> param_ctx \<Rightarrow> unit dec" where
  "map_structure_dop_from_uds map_param_from short_name structure_dop ctx =
     (let structure_start = abs_byte_pos ctx in
     bindD (case st_byte_size structure_dop of
         None \<Rightarrow> returnD ()
       | Some byte_size \<Rightarrow>
           bindD (liftD (ok_or (checked_add structure_start byte_size)
                    (BadPayload ''Overflow in end calculation''))) (\<lambda>end_pos.
           bindD payloadD (\<lambda>p.
             if pl_len p < end_pos then errD (NotEnoughData end_pos (pl_len p)) else returnD ())))
     (\<lambda>_. case st_params structure_dop of
         None \<Rightarrow> returnD ()
       | Some ps \<Rightarrow>
           forD (\<lambda>p. map_param_from short_name (param_context_new p structure_start)) ps))"

fun static_items ::
  "map_param \<Rightarrow> param struct_dop \<Rightarrow> nat \<Rightarrow> nat \<Rightarrow> nat list \<Rightarrow> mapped list dec" where
  "static_items map_param_from structure_dop base item_size [] = returnD []"
| "static_items map_param_from structure_dop base item_size (i # is) =
     (let start_pos = saturating_add base (min (i * item_size) u32_max);
          end_pos = saturating_add start_pos item_size in
     bindD (tryD (push_slice start_pos end_pos)) (\<lambda>_.
     bindD mappedD (\<lambda>outer.
     bindD (map_struct_from_uds map_param_from structure_dop outer) (\<lambda>item.
     bindD (tryD pop_slice) (\<lambda>_.
     bindD (static_items map_param_from structure_dop base item_size is) (\<lambda>rest.
       returnD (item # rest)))))))"

definition map_static_field_dop_from_uds ::
  "map_param \<Rightarrow> string \<Rightarrow> nat \<Rightarrow> nat \<Rightarrow> dop dop_field option \<Rightarrow> param_ctx \<Rightarrow> unit dec" where
  "map_static_field_dop_from_uds map_param_from short_name number item_size fld ctx =
     bindD payloadD (\<lambda>p.
     let static_field_size = min (item_size * number) u32_max in
     if pl_len p < static_field_size then errD (BadPayload ''Not enough data for static field'')
     else
       bindD (liftD (extract_struct_dop_from_field fld)) (\<lambda>structure_dop.
       bindD (static_items map_param_from structure_dop (abs_byte_pos ctx) item_size [0..<number])
       (\<lambda>items. insertD short_name (RepeatingStruct items))))"

text \<open>
  The loop of an end-of-PDU field. It is given one round more than the payload has bytes; every
  round that does not end the loop moves the index forward.
\<close>

fun end_of_pdu_loop ::
  "map_param \<Rightarrow> param struct_dop \<Rightarrow> nat \<Rightarrow> mapped list \<Rightarrow> mapped list dec" where
  "end_of_pdu_loop map_param_from structure_dop 0 nested = failD Diverges"
| "end_of_pdu_loop map_param_from structure_dop (Suc rounds) nested =
     bindD payloadD (\<lambda>p0.
     bindD (tryD (push_slice_to_abs_end (last_read_byte_pos p0))) (\<lambda>_.
     bindD payloadD (\<lambda>p1.
     bindD (if exhausted p1 then returnD (Some nested)
            else
              catchD
                (bindD mappedD (\<lambda>outer.
                 bindD (map_struct_from_uds map_param_from structure_dop outer) (\<lambda>item.
                   returnD (Some (nested @ [item])))))
                (\<lambda>f. case f of
                    Fail (NotEnoughData n k) \<Rightarrow> bindD (tryD pop_slice) (\<lambda>_. returnD None)
                  | _ \<Rightarrow> failD f))
     (\<lambda>decoded. case decoded of
        None \<Rightarrow> returnD nested
      | Some nested' \<Rightarrow>
          bindD consumeD (\<lambda>consumed.
          bindD (tryD pop_slice) (\<lambda>_.
          bindD payloadD (\<lambda>p2.
            if exhausted p2 then returnD nested'
            else if consumed = 0
            then errD (BadPayload ''EndOfPdu did not consume any bytes, breaking potential infinite loop'')
            else end_of_pdu_loop map_param_from structure_dop rounds nested')))))))"

definition map_end_of_pdu_dop_from_uds ::
  "map_param \<Rightarrow> string \<Rightarrow> dop dop_field option \<Rightarrow> unit dec" where
  "map_end_of_pdu_dop_from_uds map_param_from short_name fld =
     bindD (liftD (extract_struct_dop_from_field fld)) (\<lambda>structure_dop.
     bindD consumeD (\<lambda>consumed.
     if consumed = 0 then returnD ()
     else
       bindD payloadD (\<lambda>p.
       bindD (end_of_pdu_loop map_param_from structure_dop (Suc (length (pl_data p))) []) (\<lambda>nested.
         insertD short_name (RepeatingStruct nested)))))"

section \<open>Environment data\<close>

definition discriminator_value_from_outer_data :: "externs \<Rightarrow> mapped \<Rightarrow> string \<Rightarrow> nat run" where
  "discriminator_value_from_outer_data ext outer_data param_short_name =
     (case map_of outer_data param_short_name of
        Some (DtcStruct d) \<Rightarrow> Inr (dtc_code d)
      | Some (RawContainer raw) \<Rightarrow>
          bindE (uds_data_to_serializable ext (rc_data_type raw) (rc_compu_method raw) False (rc_data raw))
          (\<lambda>val. case val of
              VUInt32 n \<Rightarrow> Inr n
            | VInt32 z \<Rightarrow>
                if z < 0 then err (ParameterConversionError ''EnvDataDesc discriminator is negative'')
                else Inr (nat z)
            | _ \<Rightarrow> err (ParameterConversionError ''EnvDataDesc discriminator resolved to unexpected type''))
      | _ \<Rightarrow> err (InvalidDatabase ''EnvDataDesc selector param not found in decoded data''))"

definition matching_env_data :: "nat \<Rightarrow> dop list \<Rightarrow> param env_data option" where
  "matching_env_data discriminator dops =
     (case find_map (\<lambda>d. Option.bind (specific_data_as_env_data d) (\<lambda>e.
             Option.bind (dtc_values e) (\<lambda>vs. if discriminator \<in> set vs then Some e else None))) dops of
        Some e \<Rightarrow> Some e
      | None \<Rightarrow>
          find_map (\<lambda>d. Option.bind (specific_data_as_env_data d) (\<lambda>e.
             if (case dtc_values e of None \<Rightarrow> True | Some vs \<Rightarrow> vs = []) then Some e else None)) dops)"

definition map_env_data_desc_item_from_uds ::
  "map_param \<Rightarrow> externs \<Rightarrow> mapped \<Rightarrow> string option \<Rightarrow> dop list option \<Rightarrow> nat \<Rightarrow> mapped dec" where
  "map_env_data_desc_item_from_uds map_param_from ext outer_data selector env_datas base_offset =
     bindD (liftD (ok_or selector (InvalidDatabase ''EnvDataDesc missing param_short_name''))) (\<lambda>param_short_name.
     bindD (runD (discriminator_value_from_outer_data ext outer_data param_short_name)) (\<lambda>discriminator.
     bindD (liftD (ok_or env_datas (InvalidDatabase ''EnvDataDesc has no env_datas''))) (\<lambda>dops.
     case matching_env_data discriminator dops of
       None \<Rightarrow> returnD []
     | Some e \<Rightarrow>
         localD (case ed_params e of
           None \<Rightarrow> returnD ()
         | Some ps \<Rightarrow>
             forD (\<lambda>p. with_short_name ''EnvData param missing short_name'' p (\<lambda>name.
               map_param_from name
                 (with_outer_context (param_context_new p base_offset) (Some outer_data)))) ps))))"

definition map_env_data_dop_from_uds :: "map_param \<Rightarrow> param env_data \<Rightarrow> param_ctx \<Rightarrow> unit dec" where
  "map_env_data_dop_from_uds map_param_from e ctx = (case ed_params e of
      None \<Rightarrow> returnD ()
    | Some ps \<Rightarrow>
        forD (\<lambda>p. with_short_name ''EnvData param missing short_name'' p (\<lambda>name.
          map_param_from name (with_outer_context (param_context_new p (pc_base_offset ctx))
            (pc_outer_context ctx)))) ps)"

section \<open>Fields of dynamic length\<close>

definition decode_dynamic_length_field_item ::
  "map_param \<Rightarrow> externs \<Rightarrow> dop dop_field \<Rightarrow> nat \<Rightarrow> (mapped \<times> nat) dec" where
  "decode_dynamic_length_field_item map_param_from ext repeated_dop start_pos =
     bindD payloadD (\<lambda>p0.
     let skip_before = bytes_to_skip p0 in
     bindD (tryD (push_slice start_pos (pl_len p0))) (\<lambda>_.
     bindD (updateD (set_last_read_byte_pos 0)) (\<lambda>_.
     bindD mappedD (\<lambda>outer.
     case Option.bind (basic_structure repeated_dop) specific_data_as_structure of
       Some s \<Rightarrow>
         bindD (map_struct_from_uds map_param_from s outer) (\<lambda>struct_data.
         bindD payloadD (\<lambda>p.
         let item_size = (case st_byte_size s of
               None \<Rightarrow> saturating_add (last_read_byte_pos p) (bytes_to_skip p - skip_before)
             | Some n \<Rightarrow> n) in
         bindD (tryD pop_slice) (\<lambda>_. returnD (struct_data, item_size))))
     | None \<Rightarrow>
         (case env_data_desc repeated_dop of
            Some (EnvDataDescDop selector env_datas) \<Rightarrow>
              bindD (map_env_data_desc_item_from_uds map_param_from ext outer selector env_datas 0)
              (\<lambda>item_data.
              bindD payloadD (\<lambda>p.
              let item_size = saturating_add (last_read_byte_pos p) (bytes_to_skip p - skip_before) in
              bindD (tryD pop_slice) (\<lambda>_. returnD (item_data, item_size))))
          | Some _ \<Rightarrow> errD (InvalidDatabase ''DynamicLengthField env_data_desc DOP is not EnvDataDesc type'')
          | None \<Rightarrow>
              bindD (tryD pop_slice) (\<lambda>_.
                errD (InvalidDatabase ''DynamicLengthField repeated_dop is neither Structure nor EnvDataDesc'')))))))"

fun dynamic_items ::
  "map_param \<Rightarrow> externs \<Rightarrow> dop dop_field \<Rightarrow> nat \<Rightarrow> mapped list \<Rightarrow> nat \<Rightarrow> (mapped list \<times> nat) dec" where
  "dynamic_items map_param_from ext repeated_dop 0 items start_pos = returnD (items, start_pos)"
| "dynamic_items map_param_from ext repeated_dop (Suc n) items start_pos =
     bindD (catchD
              (bindD (decode_dynamic_length_field_item map_param_from ext repeated_dop start_pos)
                 (\<lambda>r. returnD (Some r)))
              (\<lambda>f. case f of Fail (NotEnoughData a b) \<Rightarrow> returnD None | _ \<Rightarrow> failD f))
     (\<lambda>decoded. case decoded of
        None \<Rightarrow> returnD (items, start_pos)
      | Some (item, item_size) \<Rightarrow>
          dynamic_items map_param_from ext repeated_dop n (items @ [item])
            (saturating_add start_pos item_size))"

definition map_dynamic_length_field_from_uds ::
  "map_param \<Rightarrow> externs \<Rightarrow> string \<Rightarrow> nat \<Rightarrow> dop dop_field option \<Rightarrow> dop num_items option \<Rightarrow>
   param_ctx \<Rightarrow> unit dec" where
  "map_dynamic_length_field_from_uds map_param_from ext short_name offset fld determine ctx =
     bindD (liftD (ok_or determine
       (InvalidDatabase ''DynamicLengthField determine_number_of_items_of_items is None''))) (\<lambda>ni.
     bindD (liftD (ok_or (ni_dop ni)
       (InvalidDatabase ''DynamicLengthField determine_number_of_items DoP is None''))) (\<lambda>num_dop.
     bindD (case num_dop of
         NormalDop nd \<Rightarrow> returnD nd
       | _ \<Rightarrow> errD (InvalidDatabase ''DynamicLengthField num_items DoP is not a NormalDoP'')) (\<lambda>nd.
     bindD (liftD (nd_coded_type nd)) (\<lambda>num_type.
     let param_pos = (if has_byte_position (pc_parameter ctx) then abs_byte_pos ctx
                      else pc_base_offset ctx) in
     bindD dataD (\<lambda>uds.
     bindD (liftD (ok_or (get_range uds param_pos (length uds))
       (BadPayload ''Not enough bytes to get DynamicLengthField item count''))) (\<lambda>view.
     bindD (liftD (decode num_type view (ni_byte_position ni) (ni_bit_position ni))) (\<lambda>(num_data, _).
     bindD (runD (uds_data_to_serializable ext UInt32 None False num_data)) (\<lambda>num_val.
     bindD (liftD (ok_or fld (InvalidDatabase ''DynamicLengthField field is None''))) (\<lambda>repeated_dop.
     bindD (liftD (value_to_u32 num_val)) (\<lambda>num.
     bindD (updateD (set_last_read_byte_pos
              (saturating_add (ni_byte_position ni) (length num_data)))) (\<lambda>_.
     let items_start = saturating_add param_pos offset in
     bindD payloadD (\<lambda>p.
     bindD (tryD (push_slice items_start (pl_len p))) (\<lambda>_.
     bindD (dynamic_items map_param_from ext repeated_dop num [] 0) (\<lambda>(items, final_start).
     bindD (tryD pop_slice) (\<lambda>_.
     bindD (updateD (set_last_read_byte_pos (saturating_add items_start final_start))) (\<lambda>_.
       insertD short_name (RepeatingStruct items)))))))))))))))))"

section \<open>Multiplexers\<close>

definition select_mux_case ::
  "externs \<Rightarrow> dop mux_dop \<Rightarrow> diag_data_value \<Rightarrow> (string \<times> param struct_dop option) diag_result" where
  "select_mux_case ext mux v =
     (case mux_case_struct_from_selector_value ext mux v of
        Some (c, case_struct) \<Rightarrow>
          bindE (ok_or (mc_short_name c) (InvalidDatabase ''Mux case short name not found''))
            (\<lambda>name. Inr (name, case_struct))
      | None \<Rightarrow>
          ok_or (Option.bind (mux_default_case mux) (\<lambda>dflt.
                   Option.bind (dc_short_name dflt) (\<lambda>name.
                     Some (name, Option.bind (dc_structure dflt) specific_data_as_structure))))
            (BadPayload ''Switch key value not found in mux cases and no default case defined for MUX''))"

definition map_mux_from_uds :: "map_param \<Rightarrow> externs \<Rightarrow> string \<Rightarrow> dop mux_dop \<Rightarrow> unit dec" where
  "map_mux_from_uds map_param_from ext short_name mux =
     bindD (liftD (ok_or (mux_switch_key mux) (InvalidDatabase ''Mux switch key not defined''))) (\<lambda>sk.
     bindD (liftD (ok_or (sk_dop sk) (InvalidDatabase ''Mux switch key DoP is None''))) (\<lambda>d.
     bindD (liftD (dop_variant d)) (\<lambda>v.
     case v of
       NormalDop nd \<Rightarrow>
         bindD (liftD (nd_coded_type nd)) (\<lambda>switch_key_type.
         bindD dataD (\<lambda>uds.
         bindD (liftD (ok_or (get_range uds (sk_byte_position sk) (length uds))
                  (BadPayload ''Not enough bytes to get switch key''))) (\<lambda>view.
         bindD (liftD (decode switch_key_type view (sk_byte_position sk)
                  (case sk_bit_position sk of Some b \<Rightarrow> b | None \<Rightarrow> 0))) (\<lambda>(key_data, bit_len).
         bindD (runD (uds_data_to_serializable ext (base_datatype switch_key_type)
                  (nd_compu_method nd) False key_data)) (\<lambda>key_value.
         bindD (updateD (set_bytes_to_skip (length key_data))) (\<lambda>_.
         let mux_data = [(''Selector'', RawContainer \<lparr>rc_data = key_data, rc_bit_len = bit_len,
               rc_data_type = base_datatype switch_key_type, rc_compu_method = None\<rparr>)] in
         bindD (liftD (select_mux_case ext mux key_value)) (\<lambda>(case_name, case_structure).
         bindD (case case_structure of
             None \<Rightarrow> returnD mux_data
           | Some s \<Rightarrow>
               bindD payloadD (\<lambda>p.
               bindD (tryD (push_slice (mux_byte_position mux) (pl_len p))) (\<lambda>_.
               bindD (updateD (set_last_read_byte_pos 0)) (\<lambda>_.
               bindD mappedD (\<lambda>outer.
               bindD (catchD (map_struct_from_uds map_param_from s outer)
                        (\<lambda>f. case f of Fail (NotEnoughData a b) \<Rightarrow> returnD [] | _ \<Rightarrow> failD f)) (\<lambda>case_data.
               bindD (tryD pop_slice) (\<lambda>_.
                 returnD (hm_insert case_name (StructContainer case_data) mux_data))))))))
         (\<lambda>mux_map. insertD short_name (StructContainer mux_map)))))))))
     | _ \<Rightarrow> errD (InvalidDatabase ''Mux switch key DoP is not a NormalDoP''))))"

definition map_mux_dop_from_uds ::
  "map_param \<Rightarrow> externs \<Rightarrow> string \<Rightarrow> dop mux_dop \<Rightarrow> param_ctx \<Rightarrow> unit dec" where
  "map_mux_dop_from_uds map_param_from ext short_name mux ctx =
     bindD payloadD (\<lambda>p.
     bindD (tryD (push_slice (abs_byte_pos ctx) (pl_len p))) (\<lambda>_.
     bindD (map_mux_from_uds map_param_from ext short_name mux) (\<lambda>_.
       tryD pop_slice)))"

section \<open>Data operations\<close>

definition map_dop_from_uds :: "map_param \<Rightarrow> externs \<Rightarrow> dop \<Rightarrow> param_ctx \<Rightarrow> unit dec" where
  "map_dop_from_uds map_param_from ext d ctx =
     bindD (liftD (ok_or (p_short_name (pc_parameter ctx))
              (InvalidDatabase ''Unable to find short name for param in Strings''))) (\<lambda>short_name.
     bindD (liftD (dop_variant d)) (\<lambda>v.
     case v of
       NormalDop nd \<Rightarrow>
         bindD (liftD (nd_coded_type nd)) (\<lambda>coded_type.
         case length_key_name coded_type of
           Some key \<Rightarrow> map_param_length_info_dop_from_uds ext short_name nd key ctx
         | None \<Rightarrow> map_normal_dop_from_uds short_name nd ctx)
     | EndOfPduField mx mn fld \<Rightarrow> map_end_of_pdu_dop_from_uds map_param_from short_name fld
     | StructureDop s \<Rightarrow> map_structure_dop_from_uds map_param_from short_name s ctx
     | DtcDop dd \<Rightarrow> map_dtc_dop_from_uds short_name dd ctx
     | EnvDataDescDop selector env_datas \<Rightarrow>
         bindD mappedD (\<lambda>m.
         let outer = (case pc_outer_context ctx of Some c \<Rightarrow> c | None \<Rightarrow> m) in
         bindD (map_env_data_desc_item_from_uds map_param_from ext outer selector env_datas
                  (abs_byte_pos ctx)) (\<lambda>item.
           forD (\<lambda>(k, c). insertD k c) item))
     | EnvDataDop e \<Rightarrow> map_env_data_dop_from_uds map_param_from e ctx
     | StaticFieldDop number item_size fld \<Rightarrow>
         map_static_field_dop_from_uds map_param_from short_name number item_size fld ctx
     | MuxDop mux \<Rightarrow> map_mux_dop_from_uds map_param_from ext short_name mux ctx
     | DynamicLengthFieldDop offset fld determine \<Rightarrow>
         map_dynamic_length_field_from_uds map_param_from ext short_name offset fld determine ctx
     | _ \<Rightarrow> failD Panics))"

text \<open>
  \<open>dop_variant\<close> returns none of the unusable operations, so the last branch above is not taken.
\<close>

section \<open>Parameters with data operations\<close>

definition map_param_value_from_uds :: "map_param \<Rightarrow> externs \<Rightarrow> param_ctx \<Rightarrow> unit dec" where
  "map_param_value_from_uds map_param_from ext ctx =
     bindD (liftD (ok_or (specific_data_as_value (pc_parameter ctx))
              (InvalidDatabase ''Expected Value specific data''))) (\<lambda>(_, value_dop).
     bindD (liftD (ok_or value_dop (InvalidDatabase ''Value DoP is None''))) (\<lambda>d.
       map_dop_from_uds map_param_from ext d ctx))"

definition map_param_length_key_from_uds :: "map_param \<Rightarrow> externs \<Rightarrow> param_ctx \<Rightarrow> unit dec" where
  "map_param_length_key_from_uds map_param_from ext ctx =
     bindD (liftD (ok_or (specific_data_as_length_key_ref (pc_parameter ctx))
              (InvalidDatabase ''Expected LengthKeyRef specific data''))) (\<lambda>key_ref.
     bindD (liftD (ok_or key_ref (InvalidDatabase ''LengthKey DoP is None''))) (\<lambda>d.
       map_dop_from_uds map_param_from ext d ctx))"

definition map_param_matching_request_from_uds ::
  "map_param \<Rightarrow> param list option option \<Rightarrow> string \<Rightarrow> param_ctx \<Rightarrow> unit dec" where
  "map_param_matching_request_from_uds map_param_from request_params param_name ctx =
     bindD (liftD (ok_or (specific_data_as_matching_request_param (pc_parameter ctx))
              (InvalidDatabase ''Expected MatchingRequestParam specific data''))) (\<lambda>req_pos.
     bindD (liftD (ok_or request_params (InvalidDatabase ''Expected request for service''))) (\<lambda>params.
     bindD (if 0 \<le> req_pos then returnD (nat req_pos)
            else errD (InvalidDatabase ''Matching request param byte position conversion error'')) (\<lambda>pos.
     bindD (liftD (ok_or (Option.bind params (find (\<lambda>q. byte_position q = pos)))
              (UdsLookupError ''No matching request parameter found''))) (\<lambda>matching.
     let pop = (pos < byte_position (pc_parameter ctx)) in
     bindD (if pop then bindD payloadD (\<lambda>p. tryD (push_slice (abs_byte_pos ctx) (pl_len p)))
            else returnD ()) (\<lambda>_.
     bindD (map_param_from param_name (param_context_new matching 0)) (\<lambda>_.
       if pop then tryD pop_slice else returnD ()))))))"

definition map_param_phys_const_from_uds ::
  "map_param \<Rightarrow> externs \<Rightarrow> string \<Rightarrow> param_ctx \<Rightarrow> unit dec" where
  "map_param_phys_const_from_uds map_param_from ext param_name ctx =
     bindD (liftD (ok_or (specific_data_as_phys_const (pc_parameter ctx))
              (InvalidDatabase ''Expected PhysConst specific data''))) (\<lambda>(_, const_dop).
     bindD (liftD (ok_or const_dop (InvalidDatabase ''PhysConst has no DOP''))) (\<lambda>d.
     bindD (liftD (dop_variant d)) (\<lambda>v.
     case v of
       NormalDop nd \<Rightarrow>
         bindD (liftD (nd_coded_type nd)) (\<lambda>diag_type.
         bindD (extract_diag_data_container (abs_byte_pos ctx) (bit_position (pc_parameter ctx))
                  diag_type None) (\<lambda>c.
         bindD (raw_only c) (\<lambda>raw. insertD param_name (RawContainer raw))))
     | StructureDop s \<Rightarrow> map_dop_from_uds map_param_from ext d ctx
     | EndOfPduField mx mn fld \<Rightarrow> map_dop_from_uds map_param_from ext d ctx
     | StaticFieldDop number item_size fld \<Rightarrow> map_dop_from_uds map_param_from ext d ctx
     | MuxDop mux \<Rightarrow> map_dop_from_uds map_param_from ext d ctx
     | DynamicLengthFieldDop offset fld determine \<Rightarrow> map_dop_from_uds map_param_from ext d ctx
     | _ \<Rightarrow> errD (InvalidDatabase ''PhysConst has unsupported DOP variant''))))"

section \<open>Tables\<close>

definition int_to_string :: "int \<Rightarrow> string" where
  "int_to_string z = (if z < 0 then CHR ''-'' # to_string (nat (- z)) else to_string (nat z))"

definition table_key_string :: "externs \<Rightarrow> container \<Rightarrow> string run" where
  "table_key_string ext c = (case c of
      RawContainer raw \<Rightarrow>
        bindE (uds_data_to_serializable ext (rc_data_type raw) (rc_compu_method raw) False (rc_data raw))
        (\<lambda>v. case v of
            VString s \<Rightarrow> Inr s
          | VUInt32 n \<Rightarrow> Inr (to_string n)
          | VInt32 z \<Rightarrow> Inr (int_to_string z)
          | _ \<Rightarrow> err (ParameterConversionError ''TABLE-KEY decoded to unexpected type''))
    | _ \<Rightarrow> err (ParameterConversionError ''TABLE-KEY expected RawContainer, got complex type''))"

definition row_matches :: "string \<Rightarrow> dop table_row \<Rightarrow> bool" where
  "row_matches key_str row \<longleftrightarrow> row_short_name row = Some key_str \<or> row_key row = Some key_str"

definition map_table_struct_from_uds ::
  "map_param \<Rightarrow> externs \<Rightarrow> string \<Rightarrow> param_ctx \<Rightarrow> unit dec" where
  "map_table_struct_from_uds map_param_from ext param_name ctx =
     bindD (liftD (ok_or (specific_data_as_table_struct (pc_parameter ctx))
              (InvalidDatabase ''TABLE-STRUCT param missing TableStruct specific data''))) (\<lambda>key_ref.
     bindD (liftD (ok_or key_ref (InvalidDatabase ''TABLE-STRUCT missing table_key back-reference'')))
     (\<lambda>table_key_param.
     bindD (liftD (ok_or (p_short_name table_key_param)
              (InvalidDatabase ''TABLE-KEY param referenced by TABLE-STRUCT has no short_name'')))
     (\<lambda>key_param_name.
     bindD mappedD (\<lambda>m.
     bindD (liftD (ok_or (map_of m key_param_name)
              (InvalidRequest ''TABLE-STRUCT references TABLE-KEY but it was not decoded''))) (\<lambda>key_container.
     bindD (runD (table_key_string ext key_container)) (\<lambda>key_str.
     bindD (liftD (ok_or (specific_data_as_table_key table_key_param)
              (InvalidDatabase ''TABLE-KEY param missing TableKey specific data''))) (\<lambda>table_ref.
     bindD (liftD (ok_or table_ref (InvalidDatabase ''TABLE-KEY has no TableDop reference''))) (\<lambda>table.
     bindD (liftD (ok_or (table_rows table) (InvalidDatabase ''TableDop missing rows''))) (\<lambda>rows.
     bindD (liftD (ok_or (find (row_matches key_str) rows)
              (InvalidRequest ''TABLE-KEY value does not match any table row''))) (\<lambda>row.
     let row_name = (case row_short_name row of Some n \<Rightarrow> n | None \<Rightarrow> []) in
     case row_structure row of
       None \<Rightarrow> insertD param_name (StructContainer [])
     | Some sd \<Rightarrow>
         bindD (liftD (dop_variant sd)) (\<lambda>v.
         case v of
           StructureDop s \<Rightarrow>
             bindD payloadD (\<lambda>p.
             bindD (tryD (push_slice (abs_byte_pos ctx) (pl_len p))) (\<lambda>_.
             bindD (updateD (set_last_read_byte_pos 0)) (\<lambda>_.
             bindD mappedD (\<lambda>outer.
             bindD (map_struct_from_uds map_param_from s outer) (\<lambda>struct_data.
             bindD (tryD pop_slice) (\<lambda>_.
               insertD param_name (StructContainer [(row_name, StructContainer struct_data)])))))))
         | _ \<Rightarrow> errD (InvalidDatabase ''TABLE-STRUCT row structure DOP is not a Structure variant''))))))))))))"

section \<open>All parameters\<close>

definition map_param_step ::
  "map_param \<Rightarrow> externs \<Rightarrow> param list option option \<Rightarrow> map_param" where
  "map_param_step map_param_from ext request_params param_name ctx =
     bindD (liftD (param_type_of (pc_parameter ctx))) (\<lambda>t.
     case t of
       PtCodedConst \<Rightarrow> map_param_coded_const_from_uds ext param_name ctx
     | PtMatchingRequestParam \<Rightarrow>
         map_param_matching_request_from_uds map_param_from request_params param_name ctx
     | PtValue \<Rightarrow> map_param_value_from_uds map_param_from ext ctx
     | PtReserved \<Rightarrow> map_param_reserved_from_uds param_name ctx
     | PtTableEntry \<Rightarrow> returnD ()
     | PtDynamic \<Rightarrow> returnD ()
     | PtLengthKey \<Rightarrow> map_param_length_key_from_uds map_param_from ext ctx
     | PtNrcConst \<Rightarrow> returnD ()
     | PtPhysConst \<Rightarrow> map_param_phys_const_from_uds map_param_from ext param_name ctx
     | PtSystem \<Rightarrow> returnD ()
     | PtTableKey \<Rightarrow> map_table_key_from_uds param_name ctx
     | PtTableStruct \<Rightarrow> map_table_struct_from_uds map_param_from ext param_name ctx)"

text \<open>\<open>map_param_from_uds\<close> with at most \<open>depth\<close> nested calls.\<close>

fun map_param_from_uds :: "nat \<Rightarrow> externs \<Rightarrow> param list option option \<Rightarrow> map_param" where
  "map_param_from_uds 0 ext request_params param_name ctx = failD Diverges"
| "map_param_from_uds (Suc depth) ext request_params param_name ctx =
     map_param_step (map_param_from_uds depth ext request_params) ext request_params param_name ctx"

end
