(* ===== verification/Decode_Sound.thy ===== *)
theory Decode_Sound
  imports Payload_Decode
begin

text \<open>
  Decoding always returns and never panics: the kinds of error each building block raises, what
  every operation keeps of the cursor, and the depth of nested calls that is enough. The
  operations share one interface, \<open>map_param_interface\<close>: whatever function they call for the
  parameters nested in them is sound on those parameters.
\<close>

section \<open>Errors of the coded types\<close>

named_theorems plain_intros \<open>results that are never a DataError\<close>

definition plain :: "'a diag_result \<Rightarrow> bool" where
  "plain r \<longleftrightarrow> (\<forall>d. r \<noteq> Inl (DataError d))"

lemma plain_Inr [simp, plain_intros]: "plain (Inr x)"
  by (simp add: plain_def)

lemma plain_Inl [simp]: "plain (Inl e) \<longleftrightarrow> (\<forall>d. e \<noteq> DataError d)"
  by (simp add: plain_def)

lemma plain_ok_or [simp]: "plain (ok_or x e) \<longleftrightarrow> x \<noteq> None \<or> (\<forall>d. e \<noteq> DataError d)"
  by (cases x) (auto simp: plain_def)

lemma plain_bindE [plain_intros]: "plain r \<Longrightarrow> (\<And>x. plain (f x)) \<Longrightarrow> plain (bindE r f)"
  by (cases r) (auto simp: plain_def)

lemma plain_if [plain_intros]: "(c \<Longrightarrow> plain a) \<Longrightarrow> (\<not> c \<Longrightarrow> plain b) \<Longrightarrow> plain (if c then a else b)"
  by simp

lemma plain_prod [plain_intros]: "(\<And>a b. plain (f a b)) \<Longrightarrow> plain (case p of (a, b) \<Rightarrow> f a b)"
  by (cases p) simp

lemma plain_option [plain_intros]:
  "plain n \<Longrightarrow> (\<And>x. plain (f x)) \<Longrightarrow> plain (case v of None \<Rightarrow> n | Some x \<Rightarrow> f x)"
  by (cases v) auto

lemma plain_for_each: "(\<And>x s. plain (f x s)) \<Longrightarrow> plain (for_each f xs s)"
  by (induction xs arbitrary: s) (auto intro: plain_bindE)

lemma plain_for_range [plain_intros]: "(\<And>i s. plain (f i s)) \<Longrightarrow> plain (for_range f n s)"
  by (simp add: for_range_def plain_for_each)

lemma plain_for_each_break: "(\<And>x s. plain (f x s)) \<Longrightarrow> plain (for_each_break f xs s)"
proof (induction xs arbitrary: s)
  case (Cons x xs)
  then show ?case by (cases "f x s") (auto intro!: plain_bindE split: flow.splits simp: plain_def)
qed simp

lemma plain_for_range_break [plain_intros]:
  "(\<And>i s. plain (f i s)) \<Longrightarrow> plain (for_range_break f n s)"
  by (simp add: for_range_break_def plain_for_each_break)

lemma plain_collect [plain_intros]: "(\<And>x. plain (f x)) \<Longrightarrow> plain (collect_results f xs)"
  by (induction xs) (auto intro!: plain_bindE)

lemma set_bit_checked_plain [plain_intros]: "plain (set_bit_checked bs i off v c)"
  unfolding set_bit_checked_def by (auto intro!: plain_intros split: option.splits)

lemma extract_bits_plain [plain_intros]: "plain (extract_bits n p bs)"
  unfolding extract_bits_def extract_bits_step_def Let_def by (intro plain_intros) simp_all

lemma apply_bit_mask_plain [plain_intros]: "plain (apply_bit_mask bs m n p)"
  unfolding apply_bit_mask_def apply_bit_mask_step_def Let_def
  by (auto intro!: plain_intros split: option.splits)

lemma condensed_unpacking_plain [plain_intros]: "plain (apply_condensed_mask_unpacking m bs n)"
  unfolding apply_condensed_mask_unpacking_def condensed_unpack_step_def Let_def
  by (auto intro!: plain_intros split: option.splits prod.splits)

lemma unpack_data_plain [plain_intros]: "plain (unpack_data n p m bs bo)"
  unfolding unpack_data_def by (auto intro!: plain_intros split: option.splits)

lemma validate_bit_len_plain [plain_intros]: "plain (validate_bit_len dt n)"
  by (simp add: validate_bit_len_def)

lemma usize_from_bytes_plain [plain_intros]: "plain (usize_from_bytes bs)"
  by (simp add: usize_from_bytes_def Let_def)

lemma plain_Let [plain_intros]: "plain (f x) \<Longrightarrow> plain (let y = x in f y)"
  by simp

lemma pos_info_plain [plain_intros]:
  "plain (pos_info_leading_len d bs byte_pos bit_pos bo n)"
  "plain (pos_info_min_max_len d bs byte_pos mm)"
  "plain (pos_info_standard_len d byte_pos slt)"
  unfolding pos_info_leading_len_def pos_info_min_max_len_def pos_info_standard_len_def
  by (intro plain_intros; simp add: Let_def split: termination_kind.split)+

lemma validate_bit_pos_plain [plain_intros]: "plain (validate_bit_pos d n)"
  by (simp add: validate_bit_pos_def)

lemma decode_plain [plain_intros]: "plain (decode d bs byte_pos bit_pos)"
  unfolding decode_def
  by (intro plain_intros) (auto intro!: plain_intros split: diag_coded_type_variant.split)

lemma decode_runtime_plain [plain_intros]: "plain (decode_with_runtime_byte_length bs p n)"
  by (simp add: decode_with_runtime_byte_length_def Let_def)

lemma coded_type_try_from_plain [plain_intros]: "plain (diag_coded_type_try_from fb)"
proof -
  have "plain (data_type_try_from c)" for c by (simp add: data_type_try_from_def)
  moreover have "plain (termination_try_from c)" for c by (simp add: termination_try_from_def)
  moreover have "plain (min_max_length_type_new a b c)" for a b c
    by (auto simp: min_max_length_type_new_def split: option.splits)
  ultimately have "plain (variant_try_from fb)"
    unfolding variant_try_from_def
    by (auto intro!: plain_bindE split: option.splits fb_specific_data.splits)
  then show ?thesis
    unfolding diag_coded_type_try_from_def
    by (auto intro!: plain_bindE simp: data_type_try_from_def)
qed

lemma new_high_low_plain [plain_intros]: "plain (new_high_low_byte_order dt v)"
  unfolding new_high_low_byte_order_def diag_coded_type_new_def
  by (auto intro!: plain_bindE split: diag_coded_type_variant.splits)

section \<open>Errors of the conversions\<close>

named_theorems tame_intros \<open>outcomes that are a value or an ordinary error\<close>

definition ordinary :: "failure \<Rightarrow> bool" where
  "ordinary f \<longleftrightarrow> (\<exists>e. f = Fail e \<and> (\<forall>d. e \<noteq> DataError d))"

definition tame :: "'a run \<Rightarrow> bool" where
  "tame r \<longleftrightarrow> (\<forall>f. r = Inl f \<longrightarrow> ordinary f)"

lemma ordinary_Fail [simp]: "ordinary (Fail e) \<longleftrightarrow> (\<forall>d. e \<noteq> DataError d)"
  by (simp add: ordinary_def)

lemma tame_simps [simp]: "tame (Inr x)" "tame (Inl f) \<longleftrightarrow> ordinary f"
  by (simp_all add: tame_def)

lemma tame_lift [tame_intros]: "plain r \<Longrightarrow> tame (lift_result r)"
  by (cases r) (auto simp: lift_result_def)

lemma tame_bindE [tame_intros]: "tame r \<Longrightarrow> (\<And>x. tame (f x)) \<Longrightarrow> tame (bindE r f)"
  by (cases r) auto

lemma value_new_plain [plain_intros]: "plain (diag_data_value_new dt bs)"
  unfolding diag_data_value_new_def u32_padded_bytes_def f64_padded_bytes_def padded_bytes_def
    string_from_utf8_def Let_def
  by (auto intro!: plain_bindE split: data_type.splits)

lemma value_to_plain [plain_intros]: "plain (value_to_u32 v)" "plain (value_to_f64 v)"
  by (auto simp: value_to_u32_def value_to_f64_def split: diag_data_value.splits)

lemma linear_conversion_plain [plain_intros]: "plain (apply_linear_conversion c v dir)"
  unfolding apply_linear_conversion_def Let_def
  by (auto intro!: plain_intros split: conversion_direction.splits option.splits)

lemma from_number_plain [plain_intros]: "plain (from_number ext v dt)"
  by (simp add: from_number_def)

lemma compu_lookup_tame:
  assumes "cat \<noteq> Identical" shows "tame (compu_lookup ext dt cm cat neg bs)"
proof -
  have p: "plain (compu_lookup_linear ext dt cm l s)" "plain (compu_lookup_scale_linear ext dt l s)"
    "plain (compu_lookup_text_table s)" for l s
    unfolding compu_lookup_linear_def compu_lookup_scale_linear_def compu_lookup_text_table_def
    by (auto intro!: plain_intros split: sum.splits)
  show ?thesis
    unfolding compu_lookup_def
    using assms by (auto intro!: tame_intros plain_intros p split: option.splits compu_category.splits)
qed

lemma serializable_tame [tame_intros]: "tame (uds_data_to_serializable ext dt cm neg bs)"
  unfolding uds_data_to_serializable_def
  by (auto intro!: tame_lift plain_intros compu_lookup_tame split: option.splits)

lemma str_to_json_plain [plain_intros]: "plain (str_to_json_value s dt)"
  unfolding str_to_json_value_def
  by (auto intro!: plain_bindE split: data_type.splits sum.splits)

lemma decode_hex_plain [plain_intros]: "plain (decode_hex h s)"
  unfolding decode_hex_def by (auto intro!: plain_bindE split: sum.splits)

lemma hex_with_prefix_plain [plain_intros]: "plain (decode_hex_with_optional_prefix ext s)"
  unfolding decode_hex_with_optional_prefix_def
  by (auto intro!: plain_intros split: option.splits)

lemma validate_bits_plain [plain_intros]:
  "plain (validate_bit_len_signed w v n)" "plain (validate_bit_len_unsigned w m n)"
  by (simp_all add: validate_bit_len_signed_def validate_bit_len_unsigned_def Let_def)

text \<open>Without a physical type no text is parsed as a number, and the conversion cannot panic.\<close>

lemma json_constant_tame [tame_intros]: "tame (json_value_to_uds_data ext d None None v)"
proof -
  have "tame (process_numeric_json_value v d)"
    unfolding process_numeric_json_value_def
    by (auto intro!: tame_intros plain_intros split: data_type.splits)
  then have "tame (numeric_json_value_to_byte_vector ext v d None)"
    unfolding numeric_json_value_to_byte_vector_def
    by (auto intro!: tame_intros plain_intros simp: validate_data_length_def)
  then show ?thesis
    unfolding json_value_to_uds_data_def Let_def
    by (auto intro!: tame_intros plain_intros split: data_type.splits)
qed

section \<open>What every operation keeps of the cursor\<close>

definition left_over :: "payload \<Rightarrow> nat" where
  "left_over p = length (pl_data p) - current_index p"

definition keeps :: "payload \<Rightarrow> payload \<Rightarrow> bool" where
  "keeps p q \<longleftrightarrow> pl_data q = pl_data p \<and> left_over q \<le> left_over p \<and> payload_wf q"

lemma keeps_refl: "payload_wf p \<Longrightarrow> keeps p p"
  by (simp add: keeps_def)

lemma keeps_trans: "keeps p q \<Longrightarrow> keeps q r \<Longrightarrow> keeps p r"
  by (auto simp: keeps_def)

lemma keeps_wf: "keeps p q \<Longrightarrow> payload_wf q"
  by (simp add: keeps_def)

definition sound_at :: "'a dec \<Rightarrow> dec_state \<Rightarrow> bool" where
  "sound_at m s \<longleftrightarrow> keeps (fst s) (fst (snd (m s))) \<and> tame (fst (m s))"

definition sound :: "'a dec \<Rightarrow> bool" where
  "sound m \<longleftrightarrow> (\<forall>s. payload_wf (fst s) \<longrightarrow> sound_at m s)"

named_theorems sound_intros \<open>sound operations of the decoder\<close>

lemma soundD: "sound m \<Longrightarrow> payload_wf (fst s) \<Longrightarrow> sound_at m s"
  unfolding sound_def by blast

lemma sound_returnD [sound_intros]: "sound (returnD x)"
  by (simp add: sound_def sound_at_def returnD_def keeps_refl)

lemma sound_failD: "ordinary f \<Longrightarrow> sound (failD f)"
  by (simp add: sound_def sound_at_def failD_def keeps_refl)

lemma sound_errD [sound_intros]: "(\<forall>d. e \<noteq> DataError d) \<Longrightarrow> sound (errD e)"
  by (simp add: errD_def sound_failD)

lemma sound_at_bindD:
  assumes "sound_at m s" "\<And>x s'. m s = (Inr x, s') \<Longrightarrow> keeps (fst s) (fst s') \<Longrightarrow> sound_at (k x) s'"
  shows "sound_at (bindD m k) s"
proof -
  obtain r s' where Pair: "m s = (r, s')" by (rule prod.exhaust)
  then have k: "keeps (fst s) (fst s')" "tame r" using assms(1) by (simp_all add: sound_at_def)
  show ?thesis
  proof (cases r)
    case (Inl f)
    then show ?thesis using Pair k by (simp add: sound_at_def bindD_def)
  next
    case (Inr x)
    then have "sound_at (k x) s'" using assms(2) Pair k by simp
    then show ?thesis using Pair Inr k(1) by (auto simp: sound_at_def bindD_def dest: keeps_trans)
  qed
qed

lemma sound_bindD [sound_intros]: "sound m \<Longrightarrow> (\<And>x. sound (k x)) \<Longrightarrow> sound (bindD m k)"
  unfolding sound_def by (blast intro: sound_at_bindD keeps_wf)

lemma sound_runD [sound_intros]: "tame r \<Longrightarrow> sound (runD r)"
  by (simp add: sound_def sound_at_def runD_def keeps_refl)

lemma sound_liftD [sound_intros]: "plain r \<Longrightarrow> sound (liftD r)"
  by (simp add: liftD_def sound_runD tame_lift)

lemma sound_bind_liftD:
  assumes "plain r" "\<And>x. r = Inr x \<Longrightarrow> sound (k x)"
  shows "sound (bindD (liftD r) k)"
proof (cases r)
  case (Inl e)
  then show ?thesis using assms(1)
    by (simp add: sound_def sound_at_def bindD_def liftD_def runD_def lift_result_def keeps_refl)
next
  case (Inr x)
  then show ?thesis using assms(2)[of x]
    by (simp add: sound_def sound_at_def bindD_def liftD_def runD_def lift_result_def)
qed

lemma sound_state [sound_intros]: "sound payloadD" "sound mappedD" "sound (insertD k c)"
  by (simp_all add: sound_def sound_at_def payloadD_def mappedD_def insertD_def keeps_refl)

lemma sound_at_payloadD: "sound_at (bindD payloadD k) s = sound_at (k (fst s)) s"
  by (simp add: sound_at_def bindD_def payloadD_def)

lemma sound_dataD [sound_intros]: "sound dataD"
  unfolding dataD_def payload_data_def by (intro sound_intros) simp

lemma sound_update [sound_intros]:
  "sound (updateD (set_last_read_byte_pos n))" "sound (updateD (set_bytes_to_skip n))"
  by (simp_all add: sound_def sound_at_def updateD_def keeps_def set_last_read_byte_pos_def
      set_bytes_to_skip_def left_over_def)

lemma sound_push [sound_intros]: "sound (tryD (push_slice a b))"
  by (auto simp: sound_def sound_at_def tryD_def keeps_def push_slice_def left_over_def
      payload_wf_def split: sum.splits if_splits)

lemma sound_push_abs [sound_intros]: "sound (tryD (push_slice_to_abs_end a))"
  by (auto simp: sound_def sound_at_def tryD_def keeps_def push_slice_to_abs_end_def push_slice_def
      left_over_def payload_wf_def split: sum.splits if_splits)

lemma sound_pop [sound_intros]: "sound (tryD pop_slice)"
  by (auto simp: sound_def sound_at_def tryD_def keeps_def pop_slice_def left_over_def
      payload_wf_def split: sum.splits list.splits)

lemma consume_keeps:
  assumes "payload_wf p" shows "keeps p (snd (consume p))"
  using assms consume_wf[OF assms]
  by (auto simp: keeps_def consume_def Let_def left_over_def saturating_add_def payload_wf_def)

lemma sound_consume [sound_intros]: "sound consumeD"
  using consume_keeps by (simp add: sound_def sound_at_def consumeD_def case_prod_beta Let_def)

lemma sound_at_catchD:
  assumes "sound_at m s"
    "\<And>f s'. m s = (Inl f, s') \<Longrightarrow> ordinary f \<Longrightarrow> keeps (fst s) (fst s') \<Longrightarrow> sound_at (h f) s'"
  shows "sound_at (catchD m h) s"
proof -
  obtain r s' where Pair: "m s = (r, s')" by (rule prod.exhaust)
  then have k: "keeps (fst s) (fst s')" "tame r" using assms(1) by (simp_all add: sound_at_def)
  show ?thesis
  proof (cases r)
    case (Inr x)
    then show ?thesis using Pair k by (simp add: sound_at_def catchD_def)
  next
    case (Inl f)
    then have "sound_at (h f) s'" using assms(2) Pair k by simp
    then show ?thesis using Pair Inl k(1) by (auto simp: sound_at_def catchD_def dest: keeps_trans)
  qed
qed

lemma sound_catchD: "sound m \<Longrightarrow> (\<And>f. ordinary f \<Longrightarrow> sound (h f)) \<Longrightarrow> sound (catchD m h)"
  unfolding sound_def by (blast intro: sound_at_catchD keeps_wf)

lemma sound_catch_short [sound_intros]:
  assumes "sound m" "sound r"
  shows "sound (catchD m (\<lambda>f. case f of Fail (NotEnoughData a b) \<Rightarrow> r | _ \<Rightarrow> failD f))"
  using assms(1)
proof (rule sound_catchD)
  fix f assume "ordinary f"
  then show "sound (case f of Fail (NotEnoughData a b) \<Rightarrow> r | _ \<Rightarrow> failD f)"
    using assms(2) by (auto split: failure.split diag_service_error.split intro: sound_failD)
qed

lemma sound_localD [sound_intros]:
  assumes "sound m" shows "sound (localD m)"
  unfolding sound_def
proof (intro allI impI)
  fix s :: dec_state
  assume "payload_wf (fst s)"
  then have "sound_at m (fst s, [])" using soundD[OF assms, of "(fst s, [])"] by simp
  then show "sound_at (localD m) s"
    by (cases "m (fst s, [])") (auto simp: sound_at_def localD_def split: sum.split)
qed

lemma sound_forD: "(\<And>x. x \<in> set xs \<Longrightarrow> sound (f x)) \<Longrightarrow> sound (forD f xs)"
  by (induction xs) (auto intro!: sound_intros)

lemma sound_if [sound_intros]: "(c \<Longrightarrow> sound a) \<Longrightarrow> (\<not> c \<Longrightarrow> sound b) \<Longrightarrow> sound (if c then a else b)"
  by simp

lemma sound_prod [sound_intros]: "(\<And>a b. sound (f a b)) \<Longrightarrow> sound (case p of (a, b) \<Rightarrow> f a b)"
  by (cases p) simp

lemma sound_prod_eq: "(\<And>a b. p = (a, b) \<Longrightarrow> sound (f a b)) \<Longrightarrow> sound (case p of (a, b) \<Rightarrow> f a b)"
  by (cases p) simp

lemma sound_option [sound_intros]:
  "sound n \<Longrightarrow> (\<And>x. v = Some x \<Longrightarrow> sound (f x)) \<Longrightarrow> sound (case v of None \<Rightarrow> n | Some x \<Rightarrow> f x)"
  by (cases v) auto

lemma sound_Let [sound_intros]: "sound (f x) \<Longrightarrow> sound (let y = x in f y)"
  by simp

section \<open>Parameters without nested parameters\<close>

lemma extract_sound [sound_intros]: "sound (extract_diag_data_container a b d cm)"
  unfolding extract_diag_data_container_def by (intro sound_intros plain_intros) simp_all

lemma raw_only_sound [sound_intros]: "sound (raw_only c)"
  by (auto simp: raw_only_def intro!: sound_intros split: container.splits)

lemma coded_type_of_plain [plain_intros]: "plain (diag_coded_type_of t fb)" "plain (nd_coded_type nd)"
  by (auto simp: nd_coded_type_def diag_coded_type_of_def intro!: plain_intros split: option.splits)

lemma dop_variant_plain [plain_intros]: "plain (dop_variant d)"
  by (cases d) (simp_all add: dop_variant_def)

lemma reserved_sound [sound_intros]: "sound (map_param_reserved_from_uds n ctx)"
  unfolding map_param_reserved_from_uds_def by (intro sound_intros plain_intros) simp_all

lemma coded_const_sound [sound_intros]: "sound (map_param_coded_const_from_uds ext n ctx)"
  unfolding map_param_coded_const_from_uds_def
  by (intro sound_intros plain_intros tame_intros) simp_all

lemma dtc_sound [sound_intros]: "sound (map_dtc_dop_from_uds n dd ctx)"
  unfolding map_dtc_dop_from_uds_def by (intro sound_intros plain_intros) simp_all

lemma table_key_sound [sound_intros]: "sound (map_table_key_from_uds n ctx)"
  unfolding map_table_key_from_uds_def
  by (auto intro!: sound_intros plain_intros split: dop.split)

lemma normal_dop_sound [sound_intros]: "sound (map_normal_dop_from_uds n nd ctx)"
  unfolding map_normal_dop_from_uds_def by (intro sound_intros plain_intros) simp_all

lemma byte_count_tame [tame_intros]: "tame (runtime_byte_count ext c)"
  unfolding runtime_byte_count_def
  by (auto intro!: tame_intros split: option.split container.split diag_data_value.split)

lemma length_info_sound [sound_intros]: "sound (map_param_length_info_dop_from_uds ext n nd k ctx)"
  unfolding map_param_length_info_dop_from_uds_def
  by (intro sound_intros plain_intros tame_intros)

lemma discriminator_tame [tame_intros]: "tame (discriminator_value_from_outer_data ext m n)"
  unfolding discriminator_value_from_outer_data_def
  by (auto intro!: tame_intros split: option.split container.split diag_data_value.split)

lemma table_key_string_tame [tame_intros]: "tame (table_key_string ext c)"
  unfolding table_key_string_def
  by (auto intro!: tame_intros split: container.split diag_data_value.split)

lemma select_mux_plain [plain_intros]: "plain (select_mux_case ext mux v)"
  unfolding select_mux_case_def by (auto intro!: plain_intros split: option.split)

lemma field_struct_plain [plain_intros]: "plain (extract_struct_dop_from_field f)"
  by (simp add: extract_struct_dop_from_field_def)

lemma with_short_name_sound [sound_intros]: "(\<And>n. sound (k n)) \<Longrightarrow> sound (with_short_name msg p k)"
  unfolding with_short_name_def by (intro sound_intros plain_intros) simp_all

section \<open>Nested parameters\<close>

definition struct_params :: "dop option \<Rightarrow> param set" where
  "struct_params d = (case Option.bind d specific_data_as_structure of
      Some s \<Rightarrow> set_struct_dop s | None \<Rightarrow> {})"

definition env_params :: "dop list option \<Rightarrow> param set" where
  "env_params ds = (case ds of None \<Rightarrow> {} | Some xs \<Rightarrow> \<Union>d \<in> set xs.
      (case specific_data_as_env_data d of Some e \<Rightarrow> set_env_data e | None \<Rightarrow> {}))"

definition field_params :: "dop dop_field option \<Rightarrow> param set" where
  "field_params f = (case f of None \<Rightarrow> {} | Some x \<Rightarrow> struct_params (basic_structure x) \<union>
      (case env_data_desc x of Some (EnvDataDescDop n ds) \<Rightarrow> env_params ds | _ \<Rightarrow> {}))"

definition dop_params :: "dop \<Rightarrow> param set" where
  "dop_params d = (case d of
      StructureDop s \<Rightarrow> set_struct_dop s
    | EndOfPduField mx mn f \<Rightarrow> field_params f
    | StaticFieldDop n k f \<Rightarrow> field_params f
    | EnvDataDescDop n ds \<Rightarrow> env_params ds
    | EnvDataDop e \<Rightarrow> set_env_data e
    | MuxDop m \<Rightarrow>
        (case mux_cases m of None \<Rightarrow> {} | Some cs \<Rightarrow> \<Union>c \<in> set cs. struct_params (mc_structure c)) \<union>
        (case mux_default_case m of None \<Rightarrow> {} | Some c \<Rightarrow> struct_params (dc_structure c))
    | DynamicLengthFieldDop n f k \<Rightarrow> field_params f
    | _ \<Rightarrow> {})"

definition row_params :: "param \<Rightarrow> param set" where
  "row_params k = (case p_specific k of
      TableKeyData (Some t) \<Rightarrow>
        (case table_rows t of None \<Rightarrow> {} | Some rs \<Rightarrow> \<Union>r \<in> set rs. struct_params (row_structure r))
    | _ \<Rightarrow> {})"

definition param_children :: "param \<Rightarrow> param set" where
  "param_children p = (case p_specific p of
      ValueData n (Some d) \<Rightarrow> dop_params d
    | LengthKeyRefData (Some d) \<Rightarrow> dop_params d
    | PhysConstData n (Some d) \<Rightarrow> dop_params d
    | TableStructData (Some k) \<Rightarrow> row_params k
    | _ \<Rightarrow> {})"

declare end_of_pdu_loop.simps [simp del]

locale map_param_interface =
  fixes map_param_from :: map_param
    and good :: "param \<Rightarrow> bool"
  assumes good_sound: "good q \<Longrightarrow>
    sound (map_param_from name \<lparr>pc_parameter = q, pc_base_offset = b, pc_outer_context = c\<rparr>)"
begin

lemma context_sound [sound_intros]:
  "good q \<Longrightarrow> sound (map_param_from name (param_context_new q b))"
  "good q \<Longrightarrow> sound (map_param_from name (with_outer_context (param_context_new q b) c))"
  by (simp_all add: param_context_new_def with_outer_context_def good_sound)

lemma struct_sound:
  assumes "\<forall>q \<in> set_struct_dop s. good q"
  shows "sound (map_struct_from_uds map_param_from s outer)"
  using assms unfolding map_struct_from_uds_def
  by (cases s) (auto intro!: sound_intros sound_forD)

lemma structure_dop_sound:
  assumes "\<forall>q \<in> set_struct_dop s. good q"
  shows "sound (map_structure_dop_from_uds map_param_from n s ctx)"
  using assms unfolding map_structure_dop_from_uds_def Let_def
  by (cases s) (auto intro!: sound_intros plain_intros sound_forD)

lemma static_items_sound:
  assumes "\<forall>q \<in> set_struct_dop s. good q"
  shows "sound (static_items map_param_from s base k is)"
  by (induction "is") (auto intro!: sound_intros struct_sound[OF assms])

lemma field_struct_good:
  assumes "extract_struct_dop_from_field f = Inr s" "\<forall>q \<in> field_params f. good q"
  shows "\<forall>q \<in> set_struct_dop s. good q"
  using assms
  by (auto simp: extract_struct_dop_from_field_def field_params_def struct_params_def
      result_simps bind_eq_Some_conv split: option.splits)

lemma sound_field_bind:
  assumes "\<forall>q \<in> field_params f. good q"
    "\<And>s. \<forall>q \<in> set_struct_dop s. good q \<Longrightarrow> sound (k s)"
  shows "sound (bindD (liftD (extract_struct_dop_from_field f)) k)"
  by (rule sound_bind_liftD[OF field_struct_plain], rule assms(2), rule field_struct_good[OF _ assms(1)])

lemma static_field_sound:
  "\<forall>q \<in> field_params f. good q \<Longrightarrow>
     sound (map_static_field_dop_from_uds map_param_from n number item_size f ctx)"
  unfolding map_static_field_dop_from_uds_def
  by (auto intro!: sound_intros sound_field_bind static_items_sound)

text \<open>One round of the end-of-PDU loop that does not end it moves the index forward.\<close>

lemma not_exhausted: "payload_wf p \<Longrightarrow> \<not> exhausted p \<Longrightarrow> current_index p < length (pl_data p)"
  by (fastforce simp: exhausted_def payload_wf_def split: list.splits)

lemma consume_progress:
  assumes "payload_wf p" "consume p = (n, q)" "n \<noteq> 0" "current_index q < length (pl_data q)"
  shows "left_over q < left_over p"
  using assms
  by (auto simp: consume_def Let_def left_over_def saturating_add_def payload_wf_def split: if_splits)

lemma end_of_pdu_loop_sound:
  assumes "\<forall>q \<in> set_struct_dop s. good q"
  shows "payload_wf (fst st) \<Longrightarrow> left_over (fst st) < rounds \<Longrightarrow>
     sound_at (end_of_pdu_loop map_param_from s rounds nested) st"
proof (induction rounds arbitrary: nested st)
  case (Suc rounds)
  have after: "sound_at (if exhausted p2 then returnD nested'
      else if consumed = 0 then errD (BadPayload m)
      else end_of_pdu_loop map_param_from s rounds nested') st'"
    if "payload_wf (fst st')" "p2 = fst st'"
      "consumed \<noteq> 0 \<Longrightarrow> \<not> exhausted (fst st') \<Longrightarrow> left_over (fst st') < left_over (fst st)"
    for nested' consumed st' p2 m
    using that Suc.prems(2)
    by (auto intro!: soundD[OF sound_returnD] soundD[OF sound_errD] Suc.IH)
  have tail: "sound_at (bindD consumeD (\<lambda>consumed. bindD (tryD pop_slice) (\<lambda>_. bindD payloadD (\<lambda>p2.
      if exhausted p2 then returnD nested' else if consumed = 0 then errD (BadPayload m)
      else end_of_pdu_loop map_param_from s rounds nested')))) st'"
    if k: "keeps (fst st) (fst st')" for nested' st' m
  proof (rule sound_at_bindD[OF soundD[OF sound_consume keeps_wf[OF k]]])
    fix consumed st1
    assume c: "consumeD st' = (Inr consumed, st1)" and k1: "keeps (fst st') (fst st1)"
    show "sound_at (bindD (tryD pop_slice) (\<lambda>_. bindD payloadD (\<lambda>p2.
        if exhausted p2 then returnD nested' else if consumed = 0 then errD (BadPayload m)
        else end_of_pdu_loop map_param_from s rounds nested'))) st1"
    proof (rule sound_at_bindD[OF soundD[OF sound_pop keeps_wf[OF k1]]])
      fix u st2
      assume pop: "tryD pop_slice st1 = (Inr u, st2)" and k2: "keeps (fst st1) (fst st2)"
      have same: "current_index (fst st2) = current_index (fst st1)" "pl_data (fst st2) = pl_data (fst st1)"
        using pop by (auto simp: tryD_def pop_slice_def split: sum.splits list.splits)
      have less: "left_over (fst st2) < left_over (fst st)"
        if "consumed \<noteq> 0" "\<not> exhausted (fst st2)"
      proof -
        have "current_index (fst st1) < length (pl_data (fst st1))"
          using not_exhausted[OF keeps_wf[OF k2] that(2)] same by simp
        moreover have "consume (fst st') = (consumed, fst st1)"
          using c by (auto simp: consumeD_def split: prod.splits)
        ultimately have "left_over (fst st1) < left_over (fst st')"
          using consume_progress keeps_wf[OF k] that(1) by blast
        moreover have "left_over (fst st2) = left_over (fst st1)" using same by (simp add: left_over_def)
        moreover have "left_over (fst st') \<le> left_over (fst st)" using k by (simp add: keeps_def)
        ultimately show ?thesis by linarith
      qed
      show "sound_at (bindD payloadD (\<lambda>p2. if exhausted p2 then returnD nested'
          else if consumed = 0 then errD (BadPayload m)
          else end_of_pdu_loop map_param_from s rounds nested')) st2"
        unfolding sound_at_payloadD by (rule after[OF keeps_wf[OF k2] refl less])
    qed
  qed
  show ?case
    unfolding end_of_pdu_loop.simps
    apply (rule sound_at_bindD[OF soundD[OF sound_state(1) Suc.prems(1)]])
    apply (rule sound_at_bindD[OF soundD[OF sound_push_abs]], erule keeps_wf)
    apply (rule sound_at_bindD[OF soundD[OF sound_state(1)]], erule keeps_wf)
    apply (rule sound_at_bindD[OF soundD], intro sound_intros struct_sound[OF assms], erule keeps_wf)
    subgoal premises prems for p0 s0 u s1 p1 s2 decoded s3
    proof -
      have k: "keeps (fst st) (fst s3)" using prems by (blast intro: keeps_trans)
      show ?thesis
        by (cases decoded) (simp_all add: tail[OF k] soundD[OF sound_returnD keeps_wf[OF k]])
    qed
    done
qed simp

lemma end_of_pdu_sound:
  assumes "\<forall>q \<in> field_params f. good q"
  shows "sound (map_end_of_pdu_dop_from_uds map_param_from n f)"
proof -
  have loop: "sound (bindD payloadD (\<lambda>p. bindD (end_of_pdu_loop map_param_from s (Suc (length (pl_data p))) [])
      (\<lambda>nested. insertD n (RepeatingStruct nested))))"
    if "\<forall>q \<in> set_struct_dop s. good q" for s
    unfolding sound_def
  proof (intro allI impI)
    fix st :: dec_state
    assume wf: "payload_wf (fst st)"
    have "sound_at (end_of_pdu_loop map_param_from s (Suc (length (pl_data (fst st)))) []) st"
      by (rule end_of_pdu_loop_sound[OF that wf]) (simp add: left_over_def)
    then show "sound_at (bindD payloadD (\<lambda>p.
        bindD (end_of_pdu_loop map_param_from s (Suc (length (pl_data p))) [])
        (\<lambda>nested. insertD n (RepeatingStruct nested)))) st"
      unfolding sound_at_payloadD
      by (rule sound_at_bindD) (rule soundD[OF sound_state(3)], erule keeps_wf)
  qed
  show ?thesis
    unfolding map_end_of_pdu_dop_from_uds_def
    by (rule sound_field_bind[OF assms], rule sound_bindD[OF sound_consume],
        rule sound_if[OF sound_returnD], rule loop)
qed

end

context map_param_interface
begin

lemma matching_env_good:
  assumes "matching_env_data n ds = Some e" "\<forall>q \<in> env_params (Some ds). good q"
  shows "\<forall>q \<in> set_env_data e. good q"
proof -
  have "\<exists>d \<in> set ds. specific_data_as_env_data d = Some e"
    using assms(1) unfolding matching_env_data_def
    by (auto simp: bind_eq_Some_conv dest!: find_map_Some split: option.splits if_split_asm) blast+
  then show ?thesis using assms(2) by (fastforce simp: env_params_def)
qed

lemma env_item_sound:
  assumes "\<forall>q \<in> env_params ds. good q"
  shows "sound (map_env_data_desc_item_from_uds map_param_from ext outer sel ds base)"
proof -
  have e: "sound (localD (case ed_params e of None \<Rightarrow> returnD ()
      | Some ps \<Rightarrow> forD (\<lambda>p. with_short_name m p (\<lambda>name.
          map_param_from name (with_outer_context (param_context_new p base) (Some outer)))) ps))"
    if "matching_env_data d xs = Some e" "ds = Some xs" for d e m xs
    using matching_env_good[OF that(1)] assms that(2)
    by (cases e) (auto intro!: sound_intros sound_forD)
  show ?thesis
    unfolding map_env_data_desc_item_from_uds_def
    by (rule sound_bindD, rule sound_liftD, simp, rule sound_bindD, rule sound_runD, rule discriminator_tame,
        rule sound_bind_liftD, simp, rule sound_option, rule sound_returnD, rule e)
      (auto simp: result_simps)
qed

lemma env_data_sound:
  assumes "\<forall>q \<in> set_env_data e. good q"
  shows "sound (map_env_data_dop_from_uds map_param_from e ctx)"
  using assms unfolding map_env_data_dop_from_uds_def
  by (cases e) (auto intro!: sound_intros sound_forD)

lemma dynamic_item_sound:
  assumes "\<forall>q \<in> field_params (Some f). good q"
  shows "sound (decode_dynamic_length_field_item map_param_from ext f start)"
  using assms unfolding decode_dynamic_length_field_item_def Let_def
  by (auto intro!: sound_intros struct_sound env_item_sound
      simp: field_params_def struct_params_def split: option.splits dop.split)

lemma dynamic_items_sound:
  assumes "\<forall>q \<in> field_params (Some f). good q"
  shows "sound (dynamic_items map_param_from ext f n items start)"
  by (induction n arbitrary: items start)
    (auto intro!: sound_intros dynamic_item_sound[OF assms] split: option.split)

lemma dynamic_field_sound:
  assumes "\<forall>q \<in> field_params f. good q"
  shows "sound (map_dynamic_length_field_from_uds map_param_from ext n offset f det ctx)"
proof -
  have items: "sound (dynamic_items map_param_from ext x k items st)" if "ok_or f e = Inr x" for x e k items st
    using that assms by (intro dynamic_items_sound) (simp add: result_simps)
  show ?thesis
    unfolding map_dynamic_length_field_from_uds_def Let_def
    apply (rule sound_bindD, rule sound_liftD, simp)+
    apply (rule sound_bindD, simp add: sound_intros split: dop.split)
    apply (rule sound_bindD, rule sound_liftD, rule plain_intros)
    apply (rule sound_bindD, rule sound_dataD, rule sound_bindD, rule sound_liftD, simp)
    apply (rule sound_bindD, rule sound_liftD, rule decode_plain, rule sound_prod)
    apply (rule sound_bindD, rule sound_runD, rule serializable_tame)
    apply (rule sound_bind_liftD, simp)
    apply (intro sound_intros plain_intros items, assumption)
    done
qed

end

context map_param_interface
begin

lemma select_mux_good:
  assumes "select_mux_case ext mux v = Inr (name, Some s)" "\<forall>q \<in> dop_params (MuxDop mux). good q"
  shows "\<forall>q \<in> set_struct_dop s. good q"
proof (cases "mux_case_struct_from_selector_value ext mux v")
  case None
  then obtain c where "mux_default_case mux = Some c"
    "Option.bind (dc_structure c) specific_data_as_structure = Some s"
    using assms(1) by (auto simp: select_mux_case_def result_simps bind_eq_Some_conv)
  then show ?thesis using assms(2) by (auto simp: dop_params_def struct_params_def)
next
  case (Some r)
  obtain c st where r: "r = (c, st)" by (cases r)
  obtain cs where cs: "mux_cases mux = Some cs" "find (\<lambda>c. within_limits ext v (mc_upper_limit c) (mc_lower_limit c)) cs = Some c"
    "st = Option.bind (mc_structure c) specific_data_as_structure"
    using Some r by (auto simp: mux_case_struct_from_selector_value_def bind_eq_Some_conv)
  have "st = Some s" using assms(1) Some r by (auto simp: select_mux_case_def result_simps)
  moreover have "c \<in> set cs" using cs(2) by (auto simp: find_Some_iff in_set_conv_nth)
  ultimately have "mux_cases mux = Some cs" "c \<in> set cs"
    "struct_params (mc_structure c) = set_struct_dop s" using cs by (simp_all add: struct_params_def)
  then show ?thesis using assms(2) by (fastforce simp: dop_params_def)
qed

lemma mux_sound:
  assumes "\<forall>q \<in> dop_params (MuxDop mux). good q"
  shows "sound (map_mux_from_uds map_param_from ext n mux)"
proof -
  have st: "sound (map_struct_from_uds map_param_from s outer)"
    if "select_mux_case ext mux v = Inr (name, Some s)" for v name s outer
    using select_mux_good[OF that assms] by (rule struct_sound)
  show ?thesis
    unfolding map_mux_from_uds_def Let_def
    apply (rule sound_bindD, rule sound_liftD, simp)
    apply (rule sound_bindD, rule sound_liftD, simp)
    apply (rule sound_bindD, rule sound_liftD, rule dop_variant_plain)
    subgoal for sk d v
      apply (cases "\<exists>nd. v = NormalDop nd")
       prefer 2
       apply (simp add: sound_errD split: dop.split)
      apply (elim exE, simp)
      apply (rule sound_bindD, rule sound_liftD, rule plain_intros)
      apply (rule sound_bindD, rule sound_dataD, rule sound_bindD, rule sound_liftD, simp)
      apply (rule sound_bindD, rule sound_liftD, rule decode_plain, rule sound_prod)
      apply (rule sound_bindD, rule sound_runD, rule serializable_tame)
      apply (rule sound_bindD, rule sound_update, rule sound_bind_liftD, rule select_mux_plain)
      apply (rule sound_prod_eq)
      apply (intro sound_intros st)
      apply simp
      done
    done
qed

lemma dop_sound:
  assumes "\<forall>q \<in> dop_params d. good q"
  shows "sound (map_dop_from_uds map_param_from ext d ctx)"
proof -
  have outer: "sound (map_env_data_desc_item_from_uds map_param_from ext c sel ds k)"
    if "d = EnvDataDescDop sel ds" for c sel ds k
    using assms that by (intro env_item_sound) (simp add: dop_params_def)
  show ?thesis
    unfolding map_dop_from_uds_def
    apply (rule sound_bindD, rule sound_liftD, simp)
    apply (rule sound_bind_liftD, rule dop_variant_plain)
    subgoal for n v
      using assms
      by (cases d; simp add: dop_variant_def)
        (auto simp: dop_params_def map_mux_dop_from_uds_def Let_def
          intro!: sound_intros plain_intros sound_forD end_of_pdu_sound structure_dop_sound
          env_data_sound static_field_sound mux_sound dynamic_field_sound outer
          split: prod.split option.split)
    done
qed

lemma matching_sound:
  assumes "\<And>ps q. req = Some (Some ps) \<Longrightarrow> q \<in> set ps \<Longrightarrow> good q"
  shows "sound (map_param_matching_request_from_uds map_param_from req n ctx)"
proof -
  have q: "good q" if r: "ok_or req e = Inr ps" and f: "ok_or (Option.bind ps (find P)) e' = Inr q"
    for ps q P e e'
  proof -
    obtain xs where "ps = Some xs" "find P xs = Some q"
      using f by (auto simp: result_simps bind_eq_Some_conv)
    then show ?thesis using assms[of xs q] r
      by (auto simp: result_simps find_Some_iff in_set_conv_nth)
  qed
  show ?thesis
    unfolding map_param_matching_request_from_uds_def Let_def
    apply (rule sound_bindD, rule sound_liftD, simp)
    apply (rule sound_bind_liftD, simp)
    apply (rule sound_bindD, intro sound_intros, simp)
    apply (rule sound_bind_liftD, simp)
    apply (intro sound_intros q; assumption)
    done
qed

lemma value_sound:
  assumes "\<forall>q \<in> param_children (pc_parameter ctx). good q"
  shows "sound (map_param_value_from_uds map_param_from ext ctx)"
    and "sound (map_param_length_key_from_uds map_param_from ext ctx)"
  using assms
  unfolding map_param_value_from_uds_def map_param_length_key_from_uds_def
  by (auto intro!: sound_bind_liftD sound_prod dop_sound simp: result_simps specific_data_as_value_def
      specific_data_as_length_key_ref_def param_children_def split: specific.splits option.splits)

lemma phys_const_sound:
  assumes "\<forall>q \<in> param_children (pc_parameter ctx). good q"
  shows "sound (map_param_phys_const_from_uds map_param_from ext n ctx)"
proof -
  have d: "sound (map_dop_from_uds map_param_from ext d ctx)"
    if "specific_data_as_phys_const (pc_parameter ctx) = Some (c, Some d)" for c d
    using assms that
    by (intro dop_sound) (auto simp: specific_data_as_phys_const_def param_children_def
        split: specific.splits)
  show ?thesis
    unfolding map_param_phys_const_from_uds_def
    apply (rule sound_bind_liftD, simp, rule sound_prod_eq, rule sound_bind_liftD, simp)
    apply (rule sound_bindD, rule sound_liftD, rule dop_variant_plain)
    subgoal for x a b dp v
      using d[of a dp] by (cases v) (auto intro!: sound_intros plain_intros simp: result_simps)
    done
qed

lemma table_struct_sound:
  assumes "\<forall>q \<in> param_children (pc_parameter ctx). good q"
  shows "sound (map_table_struct_from_uds map_param_from ext n ctx)"
proof -
  have s: "sound (map_struct_from_uds map_param_from s outer)"
    if "specific_data_as_table_struct (pc_parameter ctx) = Some (Some k)"
      "specific_data_as_table_key k = Some (Some t)" "table_rows t = Some rs"
      "find P rs = Some r" "row_structure r = Some d" "dop_variant d = Inr (StructureDop s)"
    for k t rs P r d s outer
  proof (rule struct_sound)
    have "d = StructureDop s" using that(6) by (cases d) (auto simp: dop_variant_def)
    moreover have "r \<in> set rs" using that(4) by (auto simp: find_Some_iff in_set_conv_nth)
    ultimately have "set_struct_dop s \<subseteq> row_params k"
      using that by (auto simp: row_params_def specific_data_as_table_key_def struct_params_def
          specific_data_as_structure_def split: specific.splits)
    moreover have "param_children (pc_parameter ctx) = row_params k"
      using that(1) by (auto simp: specific_data_as_table_struct_def param_children_def
          split: specific.splits)
    ultimately show "\<forall>q \<in> set_struct_dop s. good q" using assms by auto
  qed
  show ?thesis
    unfolding map_table_struct_from_uds_def Let_def
    apply (rule sound_bind_liftD, simp)+
    apply (rule sound_bindD, rule sound_state, rule sound_bindD, rule sound_liftD, simp)
    apply (rule sound_bindD, rule sound_runD, rule table_key_string_tame)
    apply (rule sound_bind_liftD, simp)+
    apply (rule sound_option, rule sound_state)
    apply (rule sound_bind_liftD, rule dop_variant_plain)
    subgoal for a b c d e f g h i r sd v
      by (cases v) (auto intro!: sound_intros s simp: result_simps)
    done
qed

lemma step_sound:
  assumes "\<forall>q \<in> param_children p. good q"
    and "\<And>ps q. param_type_of p = Inr PtMatchingRequestParam \<Longrightarrow> req = Some (Some ps) \<Longrightarrow>
      q \<in> set ps \<Longrightarrow> good q"
  shows "sound (map_param_step map_param_from ext req name
    \<lparr>pc_parameter = p, pc_base_offset = b, pc_outer_context = c\<rparr>)"
  unfolding map_param_step_def
proof (rule sound_bind_liftD)
  show "plain (param_type_of (pc_parameter \<lparr>pc_parameter = p, pc_base_offset = b, pc_outer_context = c\<rparr>))"
    by (simp add: param_type_of_def param_type_try_from_def)
  fix t
  assume "param_type_of (pc_parameter \<lparr>pc_parameter = p, pc_base_offset = b, pc_outer_context = c\<rparr>) = Inr t"
  then show "sound (case t of
       PtCodedConst \<Rightarrow> map_param_coded_const_from_uds ext name
         \<lparr>pc_parameter = p, pc_base_offset = b, pc_outer_context = c\<rparr>
     | PtMatchingRequestParam \<Rightarrow> map_param_matching_request_from_uds map_param_from req name
         \<lparr>pc_parameter = p, pc_base_offset = b, pc_outer_context = c\<rparr>
     | PtValue \<Rightarrow> map_param_value_from_uds map_param_from ext
         \<lparr>pc_parameter = p, pc_base_offset = b, pc_outer_context = c\<rparr>
     | PtReserved \<Rightarrow> map_param_reserved_from_uds name
         \<lparr>pc_parameter = p, pc_base_offset = b, pc_outer_context = c\<rparr>
     | PtTableEntry \<Rightarrow> returnD ()
     | PtDynamic \<Rightarrow> returnD ()
     | PtLengthKey \<Rightarrow> map_param_length_key_from_uds map_param_from ext
         \<lparr>pc_parameter = p, pc_base_offset = b, pc_outer_context = c\<rparr>
     | PtNrcConst \<Rightarrow> returnD ()
     | PtPhysConst \<Rightarrow> map_param_phys_const_from_uds map_param_from ext name
         \<lparr>pc_parameter = p, pc_base_offset = b, pc_outer_context = c\<rparr>
     | PtSystem \<Rightarrow> returnD ()
     | PtTableKey \<Rightarrow> map_table_key_from_uds name
         \<lparr>pc_parameter = p, pc_base_offset = b, pc_outer_context = c\<rparr>
     | PtTableStruct \<Rightarrow> map_table_struct_from_uds map_param_from ext name
         \<lparr>pc_parameter = p, pc_base_offset = b, pc_outer_context = c\<rparr>)"
    using assms
    by (cases t) (auto intro!: sound_intros matching_sound value_sound phys_const_sound table_struct_sound)
qed

end

section \<open>A depth that is enough\<close>

lemma size_list_mem: "x \<in> set xs \<Longrightarrow> f x < size_list f xs"
  by (induction xs) auto

lemma size_wrappers:
  "q \<in> set_struct_dop s \<Longrightarrow> f q < size_struct_dop f s"
  "q \<in> set_env_data e \<Longrightarrow> f q < size_env_data f e"
  by (cases s; force dest: size_list_mem[where f = f])
    (cases e; force dest: size_list_mem[where f = f])

lemma specific_data_iff:
  "specific_data_as_structure d = Some s \<longleftrightarrow> d = StructureDop s"
  "specific_data_as_env_data d = Some e \<longleftrightarrow> d = EnvDataDop e"
  by (cases d; simp add: specific_data_as_structure_def specific_data_as_env_data_def)+

lemma struct_params_Some:
  assumes "q \<in> struct_params d" obtains x where "d = Some x" "size q < size x"
proof -
  obtain x s where "d = Some x" "x = StructureDop s" "q \<in> set_struct_dop s"
    using assms by (auto simp: struct_params_def specific_data_iff bind_eq_Some_conv split: option.splits)
  then show thesis using that size_wrappers(1)[of q s size] by simp
qed

lemma env_params_size: "q \<in> env_params (Some ds) \<Longrightarrow> size q < size_list size ds"
proof -
  assume "q \<in> env_params (Some ds)"
  then obtain d e where d: "d \<in> set ds" "d = EnvDataDop e" "q \<in> set_env_data e"
    by (auto simp: env_params_def specific_data_iff split: option.splits)
  then have "size q < size d" using size_wrappers(2)[of q e size] by simp
  also have "size d < size_list size ds" using d(1) by (rule size_list_mem)
  finally show ?thesis .
qed

lemma env_desc_size: "q \<in> env_params ds \<Longrightarrow> size q < size (EnvDataDescDop n ds)"
proof (cases ds)
  case (Some xs)
  assume "q \<in> env_params ds"
  then show ?thesis using env_params_size[of q xs] Some by simp
qed (simp add: env_params_def)

lemma field_params_size: "q \<in> field_params (Some f) \<Longrightarrow> size q < size_dop_field size f"
proof (cases f)
  case (DopField bs ed)
  assume "q \<in> field_params (Some f)"
  then consider "q \<in> struct_params bs" | n ds where "ed = Some (EnvDataDescDop n ds)" "q \<in> env_params ds"
    by (auto simp: field_params_def DopField split: option.splits dop.splits)
  then show ?thesis
  proof cases
    case 1
    then obtain x where "bs = Some x" "size q < size x" by (rule struct_params_Some)
    then show ?thesis using DopField by simp
  next
    case 2
    then show ?thesis using env_desc_size[OF 2(2), of n] DopField by simp
  qed
qed

lemma mux_params_size:
  assumes "q \<in> dop_params (MuxDop m)" shows "size q < size_mux_dop size m"
proof (cases m)
  case (Mux pos sk dc cs)
  from assms consider c xs where "cs = Some xs" "c \<in> set xs" "q \<in> struct_params (mc_structure c)"
    | c where "dc = Some c" "q \<in> struct_params (dc_structure c)"
    by (auto simp: dop_params_def Mux split: option.splits)
  then show ?thesis
  proof cases
    case 1
    obtain x where x: "mc_structure c = Some x" "size q < size x" using 1(3) by (rule struct_params_Some)
    have "size q < size_mux_case size c" using x by (cases c) simp
    moreover have "size_mux_case size c < size_list (size_mux_case size) xs" using 1(2) by (rule size_list_mem)
    ultimately show ?thesis using 1(1) Mux by simp
  next
    case 2
    obtain x where x: "dc_structure c = Some x" "size q < size x" using 2(2) by (rule struct_params_Some)
    have "size q < size_default_case size c" using x by (cases c) simp
    then show ?thesis using 2(1) Mux by simp
  qed
qed

lemma dop_params_size: "q \<in> dop_params d \<Longrightarrow> size q < size d"
proof (cases d)
  case (EndOfPduField mx mn f)
  assume "q \<in> dop_params d"
  with EndOfPduField show ?thesis by (cases f) (auto simp: dop_params_def field_params_def[of None] dest!: field_params_size)
next
  case (StaticFieldDop n k f)
  assume "q \<in> dop_params d"
  with StaticFieldDop show ?thesis by (cases f) (auto simp: dop_params_def field_params_def[of None] dest!: field_params_size)
next
  case (DynamicLengthFieldDop n f k)
  assume "q \<in> dop_params d"
  with DynamicLengthFieldDop show ?thesis by (cases f) (auto simp: dop_params_def field_params_def[of None] dest!: field_params_size)
next
  case (MuxDop m)
  assume "q \<in> dop_params d"
  with MuxDop show ?thesis using mux_params_size[of q m] by simp
next
  case (EnvDataDescDop n ds)
  assume "q \<in> dop_params d"
  with EnvDataDescDop show ?thesis using env_desc_size[of q ds n] by (simp add: dop_params_def)
qed (auto simp: dop_params_def less_Suc_eq dest: size_wrappers[where f = size])

lemma row_params_size: "q \<in> row_params k \<Longrightarrow> size q < size k"
proof -
  assume q: "q \<in> row_params k"
  then obtain t rs r where t: "p_specific k = TableKeyData (Some t)" "table_rows t = Some rs"
    "r \<in> set rs" "q \<in> struct_params (row_structure r)"
    by (auto simp: row_params_def split: specific.splits option.splits)
  obtain x where x: "row_structure r = Some x" "size q < size x" using t(4) by (rule struct_params_Some)
  have "size q < size_table_row size r" using x by (cases r) simp
  also have "\<dots> < size_list (size_table_row size) rs" using t(3) by (rule size_list_mem)
  also have "\<dots> < size_table_dop size t" using t(2) by (cases t) simp
  also have "\<dots> < size k" using t(1) by (cases k) simp
  finally show ?thesis .
qed

lemma param_children_size: "q \<in> param_children p \<Longrightarrow> size q < size p"
  by (cases p) (auto simp: param_children_def split: specific.splits option.splits
      dest!: dop_params_size row_params_size)

definition free_of_matching :: "param \<Rightarrow> bool" where
  "free_of_matching p \<longleftrightarrow> (\<forall>q. (\<lambda>a b. b \<in> param_children a)\<^sup>*\<^sup>* p q \<longrightarrow> p_type q \<noteq> 3)"

definition request_free :: "param list option option \<Rightarrow> bool" where
  "request_free req \<longleftrightarrow> (\<forall>ps. req = Some (Some ps) \<longrightarrow> list_all free_of_matching ps)"

definition request_size :: "param list option option \<Rightarrow> nat" where
  "request_size req = (case req of Some (Some ps) \<Rightarrow> size_list size ps | _ \<Rightarrow> 0)"

lemma free_of_matching_child: "free_of_matching p \<Longrightarrow> q \<in> param_children p \<Longrightarrow> free_of_matching q"
  unfolding free_of_matching_def by (blast intro: converse_rtranclp_into_rtranclp)

lemma free_of_matching_leaf: "param_children p = {} \<Longrightarrow> p_type p \<noteq> 3 \<Longrightarrow> free_of_matching p"
  unfolding free_of_matching_def by (auto elim: converse_rtranclpE)

lemma matching_type: "param_type_of p = Inr PtMatchingRequestParam \<longleftrightarrow> p_type p = 3"
  by (auto simp: param_type_of_def param_type_try_from_def)

lemma free_param_sound:
  "free_of_matching p \<Longrightarrow> size p < depth \<Longrightarrow> sound (map_param_from_uds depth ext req name
     \<lparr>pc_parameter = p, pc_base_offset = b, pc_outer_context = c\<rparr>)"
proof (induction depth arbitrary: p name b c)
  case (Suc depth)
  show ?case
    unfolding map_param_from_uds.simps
  proof (rule map_param_interface.step_sound)
    show "map_param_interface (map_param_from_uds depth ext req)
      (\<lambda>q. free_of_matching q \<and> size q < depth)"
      by unfold_locales (blast intro: Suc.IH)
    show "\<forall>q \<in> param_children p. free_of_matching q \<and> size q < depth"
      using Suc.prems free_of_matching_child param_children_size by fastforce
    show "free_of_matching q \<and> size q < depth"
      if "param_type_of p = Inr PtMatchingRequestParam" for q
      using that Suc.prems(1) by (auto simp: matching_type free_of_matching_def)
  qed
qed simp

lemma map_param_sound:
  assumes "request_free req"
  shows "size p + request_size req < depth \<Longrightarrow> sound (map_param_from_uds depth ext req name
     \<lparr>pc_parameter = p, pc_base_offset = b, pc_outer_context = c\<rparr>)"
proof (induction depth arbitrary: p name b c)
  case (Suc depth)
  let ?good = "\<lambda>q. size q + request_size req < depth \<or> free_of_matching q \<and> size q < depth"
  show ?case
    unfolding map_param_from_uds.simps
  proof (rule map_param_interface.step_sound)
    show "map_param_interface (map_param_from_uds depth ext req) ?good"
      by unfold_locales (blast intro: Suc.IH free_param_sound)
    show "\<forall>q \<in> param_children p. ?good q"
      using Suc.prems param_children_size by fastforce
    show "?good q" if "req = Some (Some ps)" "q \<in> set ps" for ps q
    proof -
      have "free_of_matching q" using assms that by (simp add: request_free_def list_all_iff)
      moreover have "size q < request_size req"
        using that by (simp add: request_size_def size_list_mem)
      ultimately show ?thesis using Suc.prems by simp
    qed
  qed
qed simp

interpretation kernel: map_param_interface "map_param_from_uds depth ext req"
  "\<lambda>q. request_free req \<and> size q + request_size req < depth" for depth ext req
  by unfold_locales (simp add: map_param_sound)

end
