(* ===== verification/Service_Access.thy ===== *)
theory Service_Access
  imports Variant_Detection
begin

text \<open>
  Sessions, security levels and the services that need them
  (\<open>cda-core/src/diag_kernel/state.rs\<close>, \<open>security.rs\<close>): which service changes the state of an ECU
  and to what, which service is looked up for a requested change, and whether a service may be
  sent in the current state. A service is returned as it is; its conversion to the request type
  of the interface is left out. The identifiers of a service's request are fields of the service.
  The security plugin is an argument; \<open>None\<close> stands for the void plugin.
\<close>

section \<open>Services of the active variant\<close>

definition get_services_from_variant_and_parent_refs ::
    "(diag_service \<Rightarrow> bool) \<Rightarrow> ecu_manager \<Rightarrow> diag_service list" where
  "get_services_from_variant_and_parent_refs service_filter m =
     (case (case current_variant m of
              Some v \<Rightarrow> Some v
            | None \<Rightarrow> (case base_variant_of (diag_database m) of Inr v \<Rightarrow> Some v | Inl e \<Rightarrow> None)) of
        None \<Rightarrow> []
      | Some v \<Rightarrow> (case variant_layer v of
            None \<Rightarrow> []
          | Some dl \<Rightarrow> filter service_filter
              (flatten_refs (diag_services dl) @
               get_parent_ref_services_recursive (flatten_refs (parent_refs v)))))"

definition lookup_services_by_sid :: "byte \<Rightarrow> ecu_manager \<Rightarrow> diag_service list diag_result" where
  "lookup_services_by_sid sid m =
     (let services = get_services_from_variant_and_parent_refs (\<lambda>s. request_id s = Some sid) m
      in if services = [] then Inl (NotFound ''No services with SID found'') else Inr services)"

section \<open>State transitions\<close>

definition opt_eq_ic :: "string option \<Rightarrow> string \<Rightarrow> bool" where
  "opt_eq_ic xo y = (case xo of None \<Rightarrow> False | Some x \<Rightarrow> eq_ignore_ascii_case x y)"

definition transition_target :: "state_chart \<Rightarrow> string \<Rightarrow> state_transition option \<Rightarrow> string option" where
  "transition_target chart current st_ref =
     (case st_ref of
        None \<Rightarrow> None
      | Some st \<Rightarrow> (case source_short_name_ref st of
            None \<Rightarrow> None
          | Some src \<Rightarrow> (case target_short_name_ref st of
                None \<Rightarrow> None
              | Some tgt \<Rightarrow> (case chart_transitions chart of
                    None \<Rightarrow> None
                  | Some ts \<Rightarrow>
                      if list_ex (\<lambda>c. opt_eq_ic (source_short_name_ref c) src \<and>
                            opt_eq_ic (target_short_name_ref c) tgt \<and>
                            eq_ignore_ascii_case src current) ts
                      then Some tgt else None))))"

definition lookup_state_transition :: "diag_comm \<Rightarrow> state_chart \<Rightarrow> string \<Rightarrow> string option" where
  "lookup_state_transition dc chart current =
     (case state_transition_refs dc of
        None \<Rightarrow> None
      | Some refs \<Rightarrow> find_map (transition_target chart current) refs)"

text \<open>The first chart of the layers with a semantic, up to the case of its letters.\<close>

definition chart_with_semantic :: "ecu_manager \<Rightarrow> string \<Rightarrow> state_chart option" where
  "chart_with_semantic m semantic =
     find_map (\<lambda>dl. case state_charts dl of
         None \<Rightarrow> None
       | Some charts \<Rightarrow> find (\<lambda>c. opt_eq_ic (chart_semantic c) semantic) charts) (diag_layers_of m)"

definition lookup_state_transition_by_diagcomm_for_active ::
    "diag_comm \<Rightarrow> ecu_manager \<Rightarrow> string option \<times> string option" where
  "lookup_state_transition_by_diagcomm_for_active dc m =
     (let ss = service_states (runtime_state m);
          change = (\<lambda>sid semantic.
            case ss sid of
              None \<Rightarrow> None
            | Some current \<Rightarrow> (case chart_with_semantic m semantic of
                  None \<Rightarrow> None
                | Some sc \<Rightarrow> lookup_state_transition dc sc current))
      in (change SESSION_CONTROL (session_semantic m), change SECURITY_ACCESS (security_semantic m)))"

definition find_service_for_state ::
    "state_transition list \<Rightarrow> string \<Rightarrow> string \<Rightarrow> ecu_manager \<Rightarrow> diag_service option" where
  "find_service_for_state transitions target source m =
     (case get_services_from_variant_and_parent_refs (\<lambda>s.
        case service_diag_comm s of
          None \<Rightarrow> False
        | Some dc \<Rightarrow> list_ex (\<lambda>r. case r of
              None \<Rightarrow> False
            | Some st \<Rightarrow> opt_eq_ic (source_short_name_ref st) source \<and>
                opt_eq_ic (target_short_name_ref st) target \<and> st \<in> set transitions)
            (flatten_refs (state_transition_refs dc))) m of
        [] \<Rightarrow> None
      | s # _ \<Rightarrow> Some s)"

definition lookup_state_transition_for_active ::
    "string \<Rightarrow> string \<Rightarrow> string \<Rightarrow> ecu_manager \<Rightarrow> diag_service diag_result" where
  "lookup_state_transition_for_active semantic current target m =
     bindE (ok_or
       (find_map (\<lambda>c. if opt_eq_ic (chart_semantic c) semantic then chart_transitions c else None)
         (concat (List.map_filter state_charts (diag_layers_of m))))
       (NotFound ''State chart with semantic not found in base variant'')) (\<lambda>transitions.
     ok_or
       (case find_service_for_state transitions target current m of
          Some s \<Rightarrow> Some s
        | None \<Rightarrow> (case default_state m semantic of
              Inl e \<Rightarrow> None
            | Inr d \<Rightarrow> if eq_ignore_ascii_case d current then None
                       else find_service_for_state transitions target d m))
       (NotFound ''No service found for state transition''))"

definition state_or :: "byte \<Rightarrow> string \<Rightarrow> ecu_manager \<Rightarrow> string diag_result" where
  "state_or sid msg m = ok_or (service_states (runtime_state m) sid) (InvalidState msg)"

definition session :: "ecu_manager \<Rightarrow> string diag_result" where
  "session = state_or SESSION_CONTROL ''ECU session is none''"

definition security_access :: "ecu_manager \<Rightarrow> string diag_result" where
  "security_access = state_or SECURITY_ACCESS ''ECU security is none''"

definition set_service_state :: "byte \<Rightarrow> string \<Rightarrow> ecu_manager \<Rightarrow> ecu_manager" where
  "set_service_state sid v m = set_services (\<lambda>ss. ss(sid \<mapsto> v)) m"

definition lookup_session_change :: "string \<Rightarrow> ecu_manager \<Rightarrow> diag_service diag_result" where
  "lookup_session_change target m =
     bindE (session m) (\<lambda>current.
       lookup_state_transition_for_active (session_semantic m) current target m)"

text \<open>The update after a positive response, in \<open>convert_from_uds\<close>.\<close>

definition apply_positive_response :: "diag_comm \<Rightarrow> ecu_manager \<Rightarrow> ecu_manager" where
  "apply_positive_response dc m =
     (case lookup_state_transition_by_diagcomm_for_active dc m of (ses, sec) \<Rightarrow>
       let m1 = (case ses of None \<Rightarrow> m | Some s \<Rightarrow> set_service_state SESSION_CONTROL s m)
       in case sec of None \<Rightarrow> m1 | Some s \<Rightarrow> set_service_state SECURITY_ACCESS s m1)"

section \<open>Security access\<close>

datatype security_access_service = RequestSeed diag_service | SendKey diag_service

definition level_sub_func :: "string \<Rightarrow> nat option" where
  "level_sub_func level =
     (let l = last (split_at (\<lambda>c. c = CHR ''_'') level) in
      case from_str_radix u32_max 16 l of
        Inr n \<Rightarrow> Some n
      | Inl e \<Rightarrow> (case from_str_radix u32_max 10 l of Inr n \<Rightarrow> Some n | Inl e \<Rightarrow> None))"

definition is_request_seed :: "string \<Rightarrow> diag_service \<Rightarrow> bool" where
  "is_request_seed level s =
     (case request_id s of None \<Rightarrow> False | Some sid \<Rightarrow>
       (case request_sub_function_id s of None \<Rightarrow> False | Some sub \<Rightarrow>
          sid = SECURITY_ACCESS \<and>
          (sub = 1 \<or> 3 \<le> sub \<and> sub \<le> 5 \<or> 7 \<le> sub \<and> sub \<le> 41) \<and>
          (case request_param_count s of None \<Rightarrow> False | Some n \<Rightarrow> 2 \<le> n) \<and>
          ((case service_short_name s of None \<Rightarrow> False | Some n \<Rightarrow>
              contains_ignore_ascii_case (filter (\<lambda>c. c \<noteq> CHR ''_'') n) (filter (\<lambda>c. c \<noteq> CHR ''_'') level)) \<or>
           Some sub = level_sub_func level)))"

definition lookup_security_access_change ::
    "string \<Rightarrow> bool \<Rightarrow> ecu_manager \<Rightarrow> security_access_service diag_result" where
  "lookup_security_access_change level has_key m =
     bindE (security_access m) (\<lambda>current.
       if has_key
       then bindE (lookup_state_transition_for_active (security_semantic m) current level m)
              (\<lambda>s. Inr (SendKey s))
       else bindE (lookup_services_by_sid SECURITY_ACCESS m) (\<lambda>services.
            bindE (ok_or (find (is_request_seed level) services)
              (NotFound ''No matching request seed SecurityAccess service found for level''))
              (\<lambda>s. Inr (RequestSeed s))))"

section \<open>Preconditions of a service\<close>

definition get_state_names :: "string \<Rightarrow> ecu_manager \<Rightarrow> string list diag_result" where
  "get_state_names semantic m =
     bindE (lookup_state_chart m semantic) (\<lambda>sc.
       Inr (map to_ascii_lowercase (List.map_filter id (flatten_refs (chart_states sc)))))"

definition validate_state :: "string list \<Rightarrow> string \<Rightarrow> string \<Rightarrow> string \<Rightarrow> unit diag_result" where
  "validate_state required current deflt msg =
     (if required = [] \<or> current \<in> set required \<or> deflt \<in> set required then Inr ()
      else Inl (InvalidState msg))"

definition transition_sources :: "diag_comm \<Rightarrow> string list" where
  "transition_sources dc =
     map to_ascii_lowercase (List.map_filter (\<lambda>r. case r of None \<Rightarrow> None
       | Some st \<Rightarrow> source_short_name_ref st) (flatten_refs (state_transition_refs dc)))"

definition check_service_preconditions :: "diag_comm \<Rightarrow> ecu_manager \<Rightarrow> unit diag_result" where
  "check_service_preconditions dc m =
     (if flatten_refs (pre_condition_state_refs dc) = [] then Inr ()
      else
        bindE (state_or SESSION_CONTROL ''ECU session is none'' m) (\<lambda>session0.
        bindE (state_or SECURITY_ACCESS ''ECU security level is none'' m) (\<lambda>security0.
        bindE (get_state_names (session_semantic m) m) (\<lambda>session_states.
        bindE (get_state_names (security_semantic m) m) (\<lambda>security_states.
        let pre = map to_ascii_lowercase (List.map_filter id (flatten_refs (pre_condition_state_refs dc)));
            allowed_security = filter (\<lambda>n. n \<in> set security_states) pre @ transition_sources dc;
            allowed_session = filter (\<lambda>n. n \<notin> set security_states \<and> n \<in> set session_states) pre @
              transition_sources dc
        in bindE (default_state m (session_semantic m)) (\<lambda>default_session.
           bindE (default_state m (security_semantic m)) (\<lambda>default_security.
           bindE (validate_state allowed_security (to_ascii_lowercase security0)
                    (to_ascii_lowercase default_security) ''Security level mismatch'') (\<lambda>_.
           validate_state allowed_session (to_ascii_lowercase session0)
             (to_ascii_lowercase default_session) ''Session mismatch''))))))))"

type_synonym security_plugin = "(diag_service \<Rightarrow> unit diag_result) option"

definition check_security_plugin :: "security_plugin \<Rightarrow> diag_service \<Rightarrow> unit diag_result" where
  "check_security_plugin plugin s = (case plugin of None \<Rightarrow> Inr () | Some validate_service \<Rightarrow> validate_service s)"

definition check_service_access :: "security_plugin \<Rightarrow> diag_service \<Rightarrow> ecu_manager \<Rightarrow> unit diag_result" where
  "check_service_access plugin s m =
     bindE (ok_or (service_diag_comm s) (InvalidDatabase ''Service has no DiagComm'')) (\<lambda>dc.
     bindE (check_service_preconditions dc m) (\<lambda>_. check_security_plugin plugin s))"

section \<open>State changes follow the charts\<close>

definition chart_edge :: "state_chart \<Rightarrow> string \<Rightarrow> string \<Rightarrow> bool" where
  "chart_edge sc a b \<longleftrightarrow> list_ex (\<lambda>t. opt_eq_ic (source_short_name_ref t) a \<and>
     opt_eq_ic (target_short_name_ref t) b) (flatten_refs (chart_transitions sc))"

definition state_edge :: "ecu_manager \<Rightarrow> string \<Rightarrow> string \<Rightarrow> string \<Rightarrow> bool" where
  "state_edge m semantic a b \<longleftrightarrow> (\<exists>sc. chart_with_semantic m semantic = Some sc \<and> chart_edge sc a b)"

lemma eq_ic_refl [simp]: "eq_ignore_ascii_case a a"
  by (simp add: eq_ignore_ascii_case_def)

lemma eq_ic_trans: "eq_ignore_ascii_case a b \<Longrightarrow> eq_ignore_ascii_case b c \<Longrightarrow> eq_ignore_ascii_case a c"
  by (simp add: eq_ignore_ascii_case_def)

lemma opt_eq_ic_trans: "opt_eq_ic x a \<Longrightarrow> eq_ignore_ascii_case a b \<Longrightarrow> opt_eq_ic x b"
  by (auto simp: opt_eq_ic_def split: option.splits intro: eq_ic_trans)

lemma transition_target_edge:
  assumes "transition_target sc current r = Some tgt"
  shows "chart_edge sc current tgt"
proof -
  obtain src ts where ts: "chart_transitions sc = Some ts"
    and ex: "list_ex (\<lambda>c. opt_eq_ic (source_short_name_ref c) src \<and>
        opt_eq_ic (target_short_name_ref c) tgt \<and> eq_ignore_ascii_case src current) ts"
    using assms by (auto simp: transition_target_def split: option.splits if_splits)
  then show ?thesis
    by (auto simp: chart_edge_def flatten_refs_def list_ex_iff intro: opt_eq_ic_trans)
qed

lemma lookup_state_transition_edge:
  assumes "lookup_state_transition dc sc current = Some tgt"
  shows "chart_edge sc current tgt"
proof -
  obtain refs where "find_map (transition_target sc current) refs = Some tgt"
    using assms by (auto simp: lookup_state_transition_def split: option.splits)
  then obtain r where "transition_target sc current r = Some tgt" using find_map_Some by metis
  then show ?thesis by (rule transition_target_edge)
qed

definition semantic_of :: "ecu_manager \<Rightarrow> byte \<Rightarrow> string" where
  "semantic_of m sid = (if sid = SESSION_CONTROL then session_semantic m else security_semantic m)"

abbreviation service_state :: "ecu_manager \<Rightarrow> byte \<Rightarrow> string option" where
  "service_state m sid \<equiv> service_states (runtime_state m) sid"

lemma sids_differ: "SESSION_CONTROL \<noteq> SECURITY_ACCESS"
  by (simp add: SESSION_CONTROL_def SECURITY_ACCESS_def)

lemma set_service_state_frame [simp]:
  "diag_layers_of (set_service_state sid v m) = diag_layers_of m"
  "session_semantic (set_service_state sid v m) = session_semantic m"
  "security_semantic (set_service_state sid v m) = security_semantic m"
  "service_state (set_service_state sid v m) sid' = (if sid' = sid then Some v else service_state m sid')"
  by (simp_all add: set_service_state_def)

lemma apply_positive_response_frame [simp]:
  "diag_layers_of (apply_positive_response dc m) = diag_layers_of m"
  "session_semantic (apply_positive_response dc m) = session_semantic m"
  "security_semantic (apply_positive_response dc m) = security_semantic m"
  by (simp_all add: apply_positive_response_def Let_def split: prod.splits option.splits)

lemma apply_positive_response_state:
  assumes "service_state m sid = Some a"
  shows "\<exists>b. service_state (apply_positive_response dc m) sid = Some b \<and>
    (b = a \<or> (sid = SESSION_CONTROL \<or> sid = SECURITY_ACCESS) \<and> state_edge m (semantic_of m sid) a b)"
proof -
  obtain ses sec where l: "lookup_state_transition_by_diagcomm_for_active dc m = (ses, sec)" by fastforce
  have ses: "state_edge m (session_semantic m) c b"
    if "ses = Some b" "service_state m SESSION_CONTROL = Some c" for b c
    using l that lookup_state_transition_edge
    by (auto simp: lookup_state_transition_by_diagcomm_for_active_def Let_def state_edge_def split: option.splits)
  have sec: "state_edge m (security_semantic m) c b"
    if "sec = Some b" "service_state m SECURITY_ACCESS = Some c" for b c
    using l that lookup_state_transition_edge
    by (auto simp: lookup_state_transition_by_diagcomm_for_active_def Let_def state_edge_def split: option.splits)
  show ?thesis
    using assms ses sec sids_differ
    by (cases ses; cases sec)
      (auto simp: apply_positive_response_def l Let_def semantic_of_def)
qed

text \<open>What a run does: positive responses arrive for services of any kind, in any order.\<close>

inductive response_step :: "ecu_manager \<Rightarrow> ecu_manager \<Rightarrow> bool" where
  positive: "response_step m (apply_positive_response dc m)"

definition along_charts :: "ecu_manager \<Rightarrow> ecu_manager \<Rightarrow> bool" where
  "along_charts m m' \<longleftrightarrow>
     diag_layers_of m' = diag_layers_of m \<and> session_semantic m' = session_semantic m \<and>
     security_semantic m' = security_semantic m \<and>
     (\<forall>sid a. service_state m sid = Some a \<longrightarrow>
        (\<exists>b. service_state m' sid = Some b \<and> (state_edge m (semantic_of m sid))\<^sup>*\<^sup>* a b))"

lemma state_edge_layers:
  "diag_layers_of m' = diag_layers_of m \<Longrightarrow> state_edge m' = state_edge m"
  by (intro ext) (simp add: state_edge_def chart_with_semantic_def)

lemma along_charts_trans:
  assumes 1: "along_charts m m1" and 2: "along_charts m1 m2"
  shows "along_charts m m2"
proof -
  have e: "state_edge m1 = state_edge m" using 1 by (intro state_edge_layers) (simp add: along_charts_def)
  have sem: "semantic_of m1 = semantic_of m"
    using 1 by (intro ext) (simp add: along_charts_def semantic_of_def)
  have "\<exists>c. service_state m2 sid = Some c \<and> (state_edge m (semantic_of m sid))\<^sup>*\<^sup>* a c"
    if a: "service_state m sid = Some a" for sid a
  proof -
    obtain b where b: "service_state m1 sid = Some b" "(state_edge m (semantic_of m sid))\<^sup>*\<^sup>* a b"
      using 1 a unfolding along_charts_def by blast
    obtain c where "service_state m2 sid = Some c" "(state_edge m1 (semantic_of m1 sid))\<^sup>*\<^sup>* b c"
      using 2 b(1) unfolding along_charts_def by blast
    then have c: "service_state m2 sid = Some c" "(state_edge m (semantic_of m sid))\<^sup>*\<^sup>* b c"
      unfolding e sem by auto
    show ?thesis using c(1) rtranclp_trans[OF b(2) c(2)] by blast
  qed
  then show ?thesis using 1 2 by (simp add: along_charts_def)
qed

interpretation responses: step_history response_step "\<lambda>m. True" along_charts
proof
  fix m m' :: ecu_manager
  assume "response_step m m'"
  then obtain dc where m': "m' = apply_positive_response dc m" by (auto elim: response_step.cases)
  have "\<exists>b. service_state m' sid = Some b \<and> (state_edge m (semantic_of m sid))\<^sup>*\<^sup>* a b"
    if "service_state m sid = Some a" for sid a
    using apply_positive_response_state[OF that, of dc] m' by auto
  then show "along_charts m m'" by (simp add: along_charts_def m')
next
  show "along_charts m m" for m by (simp add: along_charts_def)
  show "along_charts m u" if "along_charts m t" "along_charts t u" for m t u
    using that by (rule along_charts_trans)
qed simp

text \<open>
  C18: Sessions and security levels follow the state charts. Whatever services are answered
  positively, in whatever order, the session of an ECU (and in the same way its security level)
  is reached from the earlier one along transitions of the state chart of the active variant; no
  known state is ever forgotten.
\<close>

theorem states_follow_charts:
  assumes "response_step\<^sup>*\<^sup>* m m'" and "service_state m sid = Some a"
    and "sid = SESSION_CONTROL \<or> sid = SECURITY_ACCESS"
  shows "\<exists>b. service_state m' sid = Some b \<and>
    (state_edge m (if sid = SESSION_CONTROL then session_semantic m else security_semantic m))\<^sup>*\<^sup>* a b"
  using responses.run_history[OF assms(1) TrueI] assms(2)
  unfolding along_charts_def semantic_of_def by blast

section \<open>Samples\<close>

definition to_extended :: state_transition where
  "to_extended = \<lparr>source_short_name_ref = Some ''Default'', target_short_name_ref = Some ''Extended''\<rparr>"

definition session_chart :: state_chart where
  "session_chart = \<lparr>chart_semantic = Some ''SESSION'', start_state_short_name_ref = Some ''Default'',
     chart_states = Some [Some ''Default'', Some ''Extended''], chart_transitions = Some [to_extended]\<rparr>"

definition security_chart :: state_chart where
  "security_chart = \<lparr>chart_semantic = Some ''SECURITY'', start_state_short_name_ref = Some ''Locked'',
     chart_states = Some [Some ''Locked''], chart_transitions = None\<rparr>"

definition extended_start :: diag_comm where
  "extended_start = \<lparr>comm_short_name = Some ''Extended_Start'',
     pre_condition_state_refs = Some [Some ''Default''], state_transition_refs = Some [Some to_extended]\<rparr>"

definition access_manager :: ecu_manager where
  "access_manager = set_services
     (\<lambda>ss. [SESSION_CONTROL \<mapsto> ''Default'', SECURITY_ACCESS \<mapsto> ''Locked''])
     ((demo_manager [session_chart, security_chart])
       \<lparr>diag_database := Some (demo_data [session_chart, security_chart])\<rparr>)"

lemma access_manager_states:
  "service_state access_manager SESSION_CONTROL = Some ''Default''"
  "service_state access_manager SECURITY_ACCESS = Some ''Locked''"
  using sids_differ by (simp_all add: access_manager_def)

theorem states_follow_charts_witness:
  "\<exists>b. service_state (apply_positive_response extended_start access_manager) SESSION_CONTROL = Some b \<and>
     (state_edge access_manager (session_semantic access_manager))\<^sup>*\<^sup>* ''Default'' b"
proof -
  have "response_step\<^sup>*\<^sup>* access_manager (apply_positive_response extended_start access_manager)"
    by (rule r_into_rtranclp) (rule response_step.positive)
  from states_follow_charts[OF this access_manager_states(1)] show ?thesis by simp
qed

section \<open>Where the code does less\<close>

lemma access_lower:
  "to_ascii_lowercase ''Default'' = ''default''" "to_ascii_lowercase ''Extended'' = ''extended''"
  "to_ascii_lowercase ''Locked'' = ''locked''"
  by code_simp+

lemma access_layers:
  "concat (List.map_filter state_charts (diag_layers_of access_manager)) = [session_chart, security_chart]"
  by (simp add: access_manager_def diag_layers_of_def current_variant_def base_variant_of_def demo_defs
      demo_data_def demo_variant_def List.map_filter_simps ecu_runtime_state_new_def ecu_state_default_def)

text \<open>
  The source states of a service's transitions are added to the allowed states of both charts. A
  session service with a precondition on the session is therefore refused because its session
  source is not a security level, although the ECU is in exactly the required session.
\<close>

theorem session_change_refused:
  "check_service_preconditions extended_start access_manager = Inl (InvalidState ''Security level mismatch'')"
proof -
  have sem: "session_semantic access_manager = ''SESSION''" "security_semantic access_manager = ''SECURITY''"
    by (simp_all add: access_manager_def demo_defs)
  have charts: "lookup_state_chart access_manager ''SESSION'' = Inr session_chart"
    "lookup_state_chart access_manager ''SECURITY'' = Inr security_chart"
    by (simp_all add: lookup_state_chart_def access_layers session_chart_def security_chart_def)
  show ?thesis
    by (simp add: check_service_preconditions_def state_or_def access_manager_states sem get_state_names_def
        charts default_state_def session_chart_def security_chart_def extended_start_def to_extended_def
        flatten_refs_def List.map_filter_simps transition_sources_def access_lower validate_state_def Let_def)
qed

end
