(* ===== verification/Service_Lookup.thy ===== *)
theory Service_Lookup
  imports Service_Access Compu_Method
begin

text \<open>
  Finding the service a request is about: the naming convention of a database
  (\<open>cda-interfaces/src/datatypes/database_naming_convention.rs\<close>), the request's own description
  (\<open>DiagComm\<close> of \<open>cda-interfaces/src/lib.rs\<close>), and the lookup in the active variant with its cache
  of locations (\<open>cda-core/src/diag_kernel/service_lookup.rs\<close>, \<open>diag_comm_lookup.rs\<close>). The cache is
  keyed by text, which stands for the interned identifier of that text. \<open>str::to_lowercase\<close> is
  modelled on ASCII text.
\<close>

section \<open>Naming convention\<close>

datatype affix_position = Prefix | Suffix

record action_affixes =
  affix_position_of_action :: affix_position
  affix_read :: string
  affix_write :: string
  affix_start :: string
  affix_request_results :: string
  affix_stop :: string

record semantics =
  semantic_data :: string
  semantic_service_id_rq :: string

record naming_convention =
  short_name_affix_position :: affix_position
  long_name_affix_position :: affix_position
  short_name_affixes :: "string list"
  long_name_affixes :: "string list"
  service_affixes :: "string \<rightharpoonup> affix_position \<times> string list"
  action_affixes_of :: action_affixes
  nc_semantics :: semantics

definition starts_with :: "string \<Rightarrow> string \<Rightarrow> bool" where
  "starts_with s p \<longleftrightarrow> take (length p) s = p"

definition ends_with :: "string \<Rightarrow> string \<Rightarrow> bool" where
  "ends_with s p \<longleftrightarrow> length p \<le> length s \<and> drop (length s - length p) s = p"

text \<open>One affix: \<open>Some\<close> the trimmed name when it matches; \<open>folded\<close> is the affix as compared.\<close>

definition trim_affix :: "affix_position \<Rightarrow> string \<Rightarrow> string \<Rightarrow> string \<Rightarrow> string option" where
  "trim_affix pos name affix folded =
     (let lower = to_ascii_lowercase name in
      if pos = Prefix \<and> starts_with lower folded
      then Some (unwrap_or (get_str name (length affix) (length name)) name)
      else if pos = Suffix \<and> ends_with lower folded
      then Some (unwrap_or (get_str name 0 (length name - length affix)) name)
      else None)"

definition trim_affixes :: "affix_position \<Rightarrow> string list \<Rightarrow> string \<Rightarrow> string" where
  "trim_affixes pos affixes name =
     unwrap_or (find_map (\<lambda>affix. trim_affix pos name affix affix) affixes) name"

definition trim_long_name_affixes :: "naming_convention \<Rightarrow> string \<Rightarrow> string" where
  "trim_long_name_affixes nc = trim_affixes (long_name_affix_position nc) (long_name_affixes nc)"

definition trim_short_name_affixes :: "naming_convention \<Rightarrow> string \<Rightarrow> string" where
  "trim_short_name_affixes nc = trim_affixes (short_name_affix_position nc) (short_name_affixes nc)"

definition trim_service_name_affixes :: "naming_convention \<Rightarrow> byte \<Rightarrow> string \<Rightarrow> string" where
  "trim_service_name_affixes nc service_id short_name =
     (case service_affixes nc (to_string (unat service_id)) of
        None \<Rightarrow> short_name
      | Some (pos, affixes) \<Rightarrow>
          unwrap_or (find_map (\<lambda>affix. trim_affix pos short_name affix (to_ascii_lowercase affix)) affixes)
            short_name)"

definition trim_routine_name :: "naming_convention \<Rightarrow> string \<Rightarrow> string" where
  "trim_routine_name nc name =
     trim_short_name_affixes nc (trim_service_name_affixes nc ROUTINE_CONTROL name)"

section \<open>Requests\<close>

datatype diag_comm_action = ReadAction | WriteAction | StartAction | RequestResultsAction | StopAction

datatype diag_comm_type = Configurations | Data | Faults | Modes | Operations

record comm_request =
  comm_name :: string
  comm_type :: diag_comm_type
  comm_lookup_name :: "string option"
  comm_subfunction_id :: "byte option"

definition diag_comm_new :: "string \<Rightarrow> diag_comm_type \<Rightarrow> comm_request" where
  "diag_comm_new name t =
     \<lparr>comm_name = name, comm_type = t, comm_lookup_name = Some name, comm_subfunction_id = None\<rparr>"

fun action_of_type :: "diag_comm_type \<Rightarrow> diag_comm_action" where
  "action_of_type Configurations = WriteAction"
| "action_of_type Data = ReadAction"
| "action_of_type _ = StartAction"

fun action_affix :: "action_affixes \<Rightarrow> diag_comm_action \<Rightarrow> string" where
  "action_affix a ReadAction = affix_read a"
| "action_affix a WriteAction = affix_write a"
| "action_affix a StartAction = affix_start a"
| "action_affix a RequestResultsAction = affix_request_results a"
| "action_affix a StopAction = affix_stop a"

definition apply_action_affix :: "naming_convention \<Rightarrow> string \<Rightarrow> diag_comm_action \<Rightarrow> string" where
  "apply_action_affix nc name action =
     (let affix = action_affix (action_affixes_of nc) action in
      case affix_position_of_action (action_affixes_of nc) of
        Prefix \<Rightarrow> affix @ name | Suffix \<Rightarrow> name @ affix)"

fun service_prefixes :: "diag_comm_type \<Rightarrow> byte list" where
  "service_prefixes Configurations = [WRITE_DATA_BY_IDENTIFIER]"
| "service_prefixes Data = [READ_DATA_BY_LOCAL_IDENTIFIER, READ_DATA_BY_IDENTIFIER]"
| "service_prefixes Faults = [CLEAR_DIAGNOSTIC_INFORMATION, READ_DTC_INFORMATION]"
| "service_prefixes Modes = [SESSION_CONTROL, ECU_RESET, SECURITY_ACCESS, COMMUNICATION_CONTROL,
     AUTHENTICATION, CONTROL_DTC_SETTING]"
| "service_prefixes Operations = [INPUT_OUTPUT_CONTROL_BY_IDENTIFIER, ROUTINE_CONTROL,
     REQUEST_DOWNLOAD, TRANSFER_DATA, REQUEST_TRANSFER_EXIT]"

definition diag_comm_type_try_from :: "byte \<Rightarrow> diag_comm_type diag_result" where
  "diag_comm_type_try_from v =
     (if v = WRITE_DATA_BY_IDENTIFIER then Inr Configurations
      else if v = READ_DATA_BY_LOCAL_IDENTIFIER \<or> v = READ_DATA_BY_IDENTIFIER then Inr Data
      else if v = CLEAR_DIAGNOSTIC_INFORMATION \<or> v = READ_DTC_INFORMATION then Inr Faults
      else if v = SESSION_CONTROL \<or> v = ECU_RESET \<or> v = SECURITY_ACCESS \<or> v = COMMUNICATION_CONTROL
        \<or> v = AUTHENTICATION \<or> v = CONTROL_DTC_SETTING then Inr Modes
      else if v = INPUT_OUTPUT_CONTROL_BY_IDENTIFIER \<or> v = ROUTINE_CONTROL \<or> v = REQUEST_DOWNLOAD
        \<or> v = TRANSFER_DATA \<or> v = REQUEST_TRANSFER_EXIT then Inr Operations
      else Inl (InvalidRequest ''Invalid DiagCommType value''))"

section \<open>Services that can be seen\<close>

definition active_variant :: "ecu_manager \<Rightarrow> variant option" where
  "active_variant m = (case current_variant m of
      Some v \<Rightarrow> Some v
    | None \<Rightarrow> (case base_variant_of (diag_database m) of Inr v \<Rightarrow> Some v | Inl e \<Rightarrow> None))"

definition own_services :: "ecu_manager \<Rightarrow> diag_service list option" where
  "own_services m = Option.bind (Option.bind (active_variant m) variant_layer) diag_services"

definition get_variant_parent_ref_services :: "ecu_manager \<Rightarrow> diag_service list option" where
  "get_variant_parent_ref_services m =
     Option.bind (Option.bind (active_variant m) parent_refs) (\<lambda>refs.
       let services = get_parent_ref_services_recursive refs
       in if services = [] then None else Some services)"

definition get_services_from_functional_group_and_parent_refs ::
  "string \<Rightarrow> (diag_service \<Rightarrow> bool) \<Rightarrow> ecu_manager \<Rightarrow> diag_service list diag_result" where
  "get_services_from_functional_group_and_parent_refs group_name service_filter m =
     (case Option.bind (diag_database m) functional_groups of
        None \<Rightarrow> Inl (InvalidDatabase ''Database has no functional groups'')
      | Some groups \<Rightarrow>
          bindE (ok_or (find (\<lambda>g. opt_eq_ic (Option.bind (group_layer g) layer_short_name) group_name) groups)
            (NotFound ''Functional group not found'')) (\<lambda>g.
          Inr (case group_layer g of
              None \<Rightarrow> []
            | Some dl \<Rightarrow> filter service_filter (flatten_refs (diag_services dl) @
                get_parent_ref_services_recursive (flatten_refs (group_parent_refs g))))))"

text \<open>The first element with a property, with its index.\<close>

definition find_indexed :: "('a \<Rightarrow> bool) \<Rightarrow> 'a list \<Rightarrow> (nat \<times> 'a) option" where
  "find_indexed p xs = map_option (\<lambda>i. (i, xs ! i)) (position p xs)"

definition search_with_location ::
  "(diag_service \<Rightarrow> bool) \<Rightarrow> ecu_manager \<Rightarrow> (diag_service \<times> cache_location) option" where
  "search_with_location predicate m =
     (case Option.bind (own_services m) (find_indexed predicate) of
        Some (idx, s) \<Rightarrow> Some (s, VariantAt idx)
      | None \<Rightarrow> map_option (\<lambda>(idx, s). (s, ParentRefAt idx))
          (Option.bind (get_variant_parent_ref_services m) (find_indexed predicate)))"

text \<open>The accessor of the flatbuffer vector panics when the index is out of range.\<close>

definition get_service_by_location :: "cache_location \<Rightarrow> ecu_manager \<Rightarrow> diag_service option run" where
  "get_service_by_location loc m = (case loc of
      VariantAt idx \<Rightarrow> (case own_services m of
          None \<Rightarrow> Inr None
        | Some services \<Rightarrow> if idx < length services then Inr (Some (services ! idx)) else Inl Panics)
    | ParentRefAt idx \<Rightarrow>
        Inr (Option.bind (get_variant_parent_ref_services m) (\<lambda>services. get services idx)))"

section \<open>Lookup\<close>

definition diag_comm_short_name_starts_with :: "diag_service \<Rightarrow> string \<Rightarrow> bool" where
  "diag_comm_short_name_starts_with s name_prefix = (case service_short_name s of
      None \<Rightarrow> False | Some name \<Rightarrow> starts_with_ignore_ascii_case name name_prefix)"

definition effective_mask :: "byte option \<Rightarrow> byte" where
  "effective_mask mo = unwrap_or mo DEFAULT_SUBFUNCTION_MASK"

definition sub_function_matches :: "byte \<Rightarrow> byte \<Rightarrow> diag_service \<Rightarrow> bool" where
  "sub_function_matches sf m s = (case request_sub_function_id s of
      None \<Rightarrow> False
    | Some i \<Rightarrow> and (word_of_nat i :: 32 word) (ucast m) = and (ucast sf) (ucast m))"

definition lookup_name_of :: "naming_convention \<Rightarrow> comm_request \<Rightarrow> string" where
  "lookup_name_of nc dc = to_ascii_lowercase (case comm_lookup_name dc of
      Some n \<Rightarrow> n | None \<Rightarrow> apply_action_affix nc (comm_name dc) (action_of_type (comm_type dc)))"

definition lookup_predicate ::
  "naming_convention \<Rightarrow> comm_request \<Rightarrow> byte option \<Rightarrow> diag_service \<Rightarrow> bool" where
  "lookup_predicate nc dc mo s =
     (case comm_subfunction_id dc of
        Some sf \<Rightarrow> diag_comm_short_name_starts_with s (to_ascii_lowercase (comm_name dc)) \<and>
          (\<exists>sid \<in> set (service_prefixes (comm_type dc)). request_id s = Some sid) \<and>
          sub_function_matches sf (effective_mask mo) s
      | None \<Rightarrow> diag_comm_short_name_starts_with s (lookup_name_of nc dc) \<and>
          (\<exists>sid \<in> set (service_prefixes (comm_type dc)). request_id s = Some sid))"

definition cache_key :: "naming_convention \<Rightarrow> comm_request \<Rightarrow> byte option \<Rightarrow> string" where
  "cache_key nc dc mo = (case comm_subfunction_id dc of
      Some sf \<Rightarrow> to_ascii_lowercase (comm_name dc) @ '':sf'' @ to_string (unat sf) @ '':m'' @
        fmt_hex 2 (unat (effective_mask mo))
    | None \<Rightarrow> lookup_name_of nc dc)"

definition search_and_cache_location ::
  "string \<Rightarrow> (diag_service \<Rightarrow> bool) \<Rightarrow> ecu_manager \<Rightarrow> diag_service option \<times> ecu_manager" where
  "search_and_cache_location lookup_id predicate m =
     (case search_with_location predicate m of
        None \<Rightarrow> (None, m)
      | Some (s, loc) \<Rightarrow> (Some s, m\<lparr>db_cache := (db_cache m)(lookup_id \<mapsto>
          \<lparr>cached_variant_index = variant_index (manager_status m), cached_location = Some loc\<rparr>)\<rparr>))"

definition live_location :: "string \<Rightarrow> ecu_manager \<Rightarrow> cache_location option" where
  "live_location lookup_id m = (case db_cache m lookup_id of
      None \<Rightarrow> None
    | Some c \<Rightarrow> if cached_variant_index c = variant_index (manager_status m)
                then cached_location c else None)"

definition lookup_diag_service ::
  "naming_convention \<Rightarrow> comm_request \<Rightarrow> string option \<Rightarrow> byte option \<Rightarrow> ecu_manager \<Rightarrow>
   diag_service run \<times> ecu_manager" where
  "lookup_diag_service nc dc functional_group_name subfunction_mask m =
     (let predicate = lookup_predicate nc dc subfunction_mask;
          lookup_id = cache_key nc dc subfunction_mask
      in case functional_group_name of
        Some fg \<Rightarrow>
          (lift_result (bindE (get_services_from_functional_group_and_parent_refs fg predicate m)
            (\<lambda>services. case services of
                [] \<Rightarrow> Inl (NotFound ''Diagnostic service not found in functional group'')
              | s # _ \<Rightarrow> Inr s)), m)
      | None \<Rightarrow>
          (case live_location lookup_id m of
             Some loc \<Rightarrow>
               (bindE (get_service_by_location loc m) (\<lambda>found. case found of
                   Some s \<Rightarrow> Inr s
                 | None \<Rightarrow> err (NotFound ''Cached diagnostic service not found at stored location'')), m)
           | None \<Rightarrow>
               (case search_and_cache_location lookup_id predicate m of
                  (Some s, m') \<Rightarrow> (Inr s, m')
                | (None, m') \<Rightarrow>
                    (err (NotFound ''Diagnostic service not found in variant or parent refs''),
                     m'\<lparr>db_cache := (db_cache m')(lookup_id \<mapsto>
                       \<lparr>cached_variant_index = variant_index (manager_status m),
                        cached_location = None\<rparr>)\<rparr>))))"

section \<open>Lookup by service identifier\<close>

definition lookup_service_by_sid_and_name ::
  "naming_convention \<Rightarrow> byte \<Rightarrow> string \<Rightarrow> string option \<Rightarrow> ecu_manager \<Rightarrow>
   comm_request diag_result" where
  "lookup_service_by_sid_and_name nc service_id name functional_group_name m =
     bindE (case functional_group_name of
         Some fg \<Rightarrow> get_services_from_functional_group_and_parent_refs fg
           (\<lambda>s. request_id s = Some service_id) m
       | None \<Rightarrow> lookup_services_by_sid service_id m) (\<lambda>services.
     case find_map (\<lambda>s. Option.bind (service_short_name s) (\<lambda>short_name.
         let no_affix = trim_service_name_affixes nc service_id short_name;
             matches = (case short_name_affix_position nc of
                 Suffix \<Rightarrow> starts_with_ignore_ascii_case no_affix name
               | Prefix \<Rightarrow> ends_with_ignore_ascii_case no_affix name)
         in if \<not> matches then None
            else (case diag_comm_type_try_from service_id of
                Inl e \<Rightarrow> None
              | Inr t \<Rightarrow> Some \<lparr>comm_name = short_name, comm_type = t,
                  comm_lookup_name = Some short_name, comm_subfunction_id = None\<rparr>))) services of
       Some dc \<Rightarrow> Inr dc
     | None \<Rightarrow> Inl (InvalidParameter (set (List.map_filter (\<lambda>s. map_option (\<lambda>short_name.
         trim_short_name_affixes nc (trim_service_name_affixes nc service_id short_name))
           (service_short_name s)) services))))"

section \<open>The cache agrees with the database\<close>

text \<open>The services a lookup may return, in the order of the search.\<close>

definition visible_services :: "ecu_manager \<Rightarrow> diag_service list" where
  "visible_services m =
     flatten_refs (own_services m) @ flatten_refs (get_variant_parent_ref_services m)"

lemma position_find: "find p xs = map_option (\<lambda>i. xs ! i) (position p xs)"
  by (induction xs) (auto simp: option.map_comp comp_def)

lemma position_less: "position p xs = Some i \<Longrightarrow> i < length xs"
  by (induction xs arbitrary: i) (auto split: if_splits)

lemma find_append: "find p (xs @ ys) = (case find p xs of Some x \<Rightarrow> Some x | None \<Rightarrow> find p ys)"
  by (induction xs) auto

lemma find_indexed_find: "map_option snd (find_indexed p xs) = find p xs"
  by (simp add: find_indexed_def position_find option.map_comp comp_def)

lemma find_indexed_flatten:
  "map_option snd (Option.bind xo (find_indexed p)) = find p (flatten_refs xo)"
  by (cases xo) (simp_all add: find_indexed_find flatten_refs_def)

lemma search_finds: "map_option fst (search_with_location p m) = find p (visible_services m)"
  by (auto simp: search_with_location_def visible_services_def find_append
      find_indexed_flatten[symmetric] option.map_comp comp_def split: option.splits intro: option.map_cong)

lemma search_location:
  "search_with_location p m = Some (s, loc) \<Longrightarrow> get_service_by_location loc m = Inr (Some s)"
  by (auto simp: search_with_location_def get_service_by_location_def find_indexed_def get_def
      dest: position_less split: option.splits bind_splits)

definition same_database :: "ecu_manager \<Rightarrow> ecu_manager \<Rightarrow> bool" where
  "same_database m m' \<longleftrightarrow> diag_database m' = diag_database m \<and>
     variant_index (manager_status m') = variant_index (manager_status m)"

lemma same_database_services:
  assumes "same_database m m'"
  shows "own_services m' = own_services m"
    and "get_variant_parent_ref_services m' = get_variant_parent_ref_services m"
    and "visible_services m' = visible_services m"
    and "get_service_by_location loc m' = get_service_by_location loc m"
proof -
  have "active_variant m' = active_variant m"
    using assms unfolding same_database_def active_variant_def current_variant_def
    by (elim conjE) (simp only:)
  then show own: "own_services m' = own_services m"
    and par: "get_variant_parent_ref_services m' = get_variant_parent_ref_services m"
    by (simp_all add: own_services_def get_variant_parent_ref_services_def)
  show "visible_services m' = visible_services m"
    and "get_service_by_location loc m' = get_service_by_location loc m"
    unfolding visible_services_def get_service_by_location_def own par by (rule refl)+
qed

text \<open>
  Every cache entry was made for the variant that is active now, and a location it holds leads to
  the service that a search with the predicate of its key finds.
\<close>

definition cache_coherent :: "(string \<Rightarrow> diag_service \<Rightarrow> bool) \<Rightarrow> ecu_manager \<Rightarrow> bool" where
  "cache_coherent preds m \<longleftrightarrow> (\<forall>k c. db_cache m k = Some c \<longrightarrow>
     cached_variant_index c = variant_index (manager_status m) \<and>
     (\<forall>loc. cached_location c = Some loc \<longrightarrow>
        (\<exists>s. get_service_by_location loc m = Inr (Some s) \<and>
             find (preds k) (visible_services m) = Some s)))"

lemma coherent_empty: "db_cache m = Map.empty \<Longrightarrow> cache_coherent preds m"
  by (simp add: cache_coherent_def)

lemma coherent_same:
  "same_database m m' \<Longrightarrow> db_cache m' = db_cache m \<Longrightarrow> cache_coherent preds m \<Longrightarrow> cache_coherent preds m'"
  unfolding cache_coherent_def by (simp only: same_database_services) (simp add: same_database_def)

lemma coherent_insert:
  assumes "cache_coherent preds m"
    and "cached_variant_index c = variant_index (manager_status m)"
    and "\<And>loc. cached_location c = Some loc \<Longrightarrow>
      \<exists>s. get_service_by_location loc m = Inr (Some s) \<and> find (preds k) (visible_services m) = Some s"
  shows "cache_coherent preds (m\<lparr>db_cache := (db_cache m)(k \<mapsto> c)\<rparr>)"
proof -
  have "same_database m (m\<lparr>db_cache := (db_cache m)(k \<mapsto> c)\<rparr>)" by (simp add: same_database_def)
  then show ?thesis using assms
    unfolding cache_coherent_def by (simp add: same_database_services)
qed

text \<open>Without a database there are no locations, so loading one keeps the cache coherent.\<close>

lemma coherent_load:
  assumes "cache_coherent preds m" and none: "diag_database m = None"
  shows "cache_coherent preds (m\<lparr>diag_database := db\<rparr>)"
proof -
  have "active_variant m = None"
    using none by (simp add: active_variant_def current_variant_def base_variant_of_def split: option.splits)
  then have "get_service_by_location loc m = Inr None" for loc
    by (simp add: get_service_by_location_def own_services_def get_variant_parent_ref_services_def
        split: cache_location.splits)
  then show ?thesis using assms(1) by (fastforce simp: cache_coherent_def)
qed

lemma lookup_coherent:
  assumes coh: "cache_coherent preds m"
    and pred: "lookup_predicate nc dc mo = preds (cache_key nc dc mo)"
  shows "cache_coherent preds (snd (lookup_diag_service nc dc fg mo m))"
proof (cases "fg = None \<and> live_location (cache_key nc dc mo) m = None")
  case False
  then show ?thesis using coh by (auto simp: lookup_diag_service_def Let_def split: option.splits)
next
  case True
  show ?thesis
  proof (cases "search_with_location (lookup_predicate nc dc mo) m")
    case None
    then show ?thesis using True coh
      by (auto simp: lookup_diag_service_def search_and_cache_location_def intro: coherent_insert)
  next
    case (Some r)
    obtain s loc where r: "r = (s, loc)" by fastforce
    have "find (preds (cache_key nc dc mo)) (visible_services m) = Some s"
      using Some r search_finds[of "lookup_predicate nc dc mo" m] pred by simp
    then show ?thesis using True coh Some r search_location[OF Some[unfolded r]]
      by (auto simp: lookup_diag_service_def search_and_cache_location_def intro: coherent_insert)
  qed
qed

lemma set_default_states_cache [simp]: "db_cache (snd (set_default_states m)) = db_cache m"
  by (auto simp: set_default_states_def Let_def split: sum.splits)

lemma set_variant_coherent:
  assumes "cache_coherent preds m"
  shows "cache_coherent preds (snd (set_variant vd m))"
proof (cases "variant_index (manager_status m) = variant_position (diag_database m) (vd_name vd)")
  case False
  then show ?thesis by (intro coherent_empty) (simp add: set_variant_def Let_def)
next
  case True
  have "same_database m (snd (set_variant vd m))"
    using True by (simp add: same_database_def set_variant_status Let_def)
  moreover have "db_cache (snd (set_variant vd m)) = db_cache m"
    using True by (simp add: set_variant_def Let_def)
  ultimately show ?thesis using assms by (rule coherent_same)
qed

lemma clear_coherent: "cache_coherent preds (clear_variant_and_unload vs conn m)"
  by (rule coherent_empty) (simp add: clear_variant_and_unload_def)

lemma detect_variant_coherent:
  assumes "cache_coherent preds m"
  shows "cache_coherent preds (snd (detect_variant rs m))"
proof -
  obtain r m1 where m1: "(if diag_database m = None then load m else (Inr (), m)) = (r, m1)" by fastforce
  have coh: "cache_coherent preds m1"
    using m1 assms coherent_load[OF assms] by (auto simp: load_def split: if_splits sum.splits)
  have "cache_coherent preds (set_status (\<lambda>st. st\<lparr>connectivity := Offline\<rparr>) m1)"
    by (rule coherent_same[OF _ _ coh]) (simp_all add: same_database_def)
  then show ?thesis
    using m1 coh by (auto simp: detect_variant_def set_variant_coherent clear_coherent split: sum.splits)
qed

section \<open>Lookups in any order\<close>

text \<open>
  What happens to a manager: lookups whose key stands for their predicate, variant detections,
  marks that drop the variant, and positive responses.
\<close>

inductive lookup_step :: "naming_convention \<Rightarrow> (string \<Rightarrow> diag_service \<Rightarrow> bool) \<Rightarrow>
    ecu_manager \<Rightarrow> ecu_manager \<Rightarrow> bool" for nc preds where
  lookup: "lookup_predicate nc dc mo = preds (cache_key nc dc mo) \<Longrightarrow>
     lookup_step nc preds m (snd (lookup_diag_service nc dc fg mo m))"
| detect: "lookup_step nc preds m (snd (detect_variant rs m))"
| duplicate: "lookup_step nc preds m (mark_as_duplicate m)"
| undetected: "lookup_step nc preds m (mark_as_no_variant_detected m)"
| response: "lookup_step nc preds m (apply_positive_response dc m)"

lemma set_service_state_same:
  "same_database m (set_service_state sid v m)" "db_cache (set_service_state sid v m) = db_cache m"
  by (simp_all add: set_service_state_def same_database_def)

lemma positive_response_coherent:
  "cache_coherent preds m \<Longrightarrow> cache_coherent preds (apply_positive_response dc m)"
  by (auto simp: apply_positive_response_def Let_def split: prod.splits option.splits
      intro: coherent_same[OF set_service_state_same])

interpretation lookups: step_invariant "lookup_step nc preds" "cache_coherent preds" for nc preds
proof
  fix m m' assume "lookup_step nc preds m m'" "cache_coherent preds m"
  then show "cache_coherent preds m'"
    by (cases rule: lookup_step.cases)
      (auto simp: lookup_coherent detect_variant_coherent mark_as_duplicate_def
        mark_as_no_variant_detected_def clear_coherent positive_response_coherent)
qed

lemma coherent_lookup_result:
  assumes coh: "cache_coherent preds m"
    and pred: "lookup_predicate nc dc mo = preds (cache_key nc dc mo)"
  shows "fst (lookup_diag_service nc dc None mo m) =
    (case find (lookup_predicate nc dc mo) (visible_services m) of
       Some s \<Rightarrow> Inr s
     | None \<Rightarrow> err (NotFound ''Diagnostic service not found in variant or parent refs''))"
proof (cases "live_location (cache_key nc dc mo) m")
  case (Some loc)
  then obtain s where "get_service_by_location loc m = Inr (Some s)"
    and "find (preds (cache_key nc dc mo)) (visible_services m) = Some s"
    using coh by (auto simp: cache_coherent_def live_location_def split: option.splits if_splits)
  then show ?thesis using Some pred by (simp add: lookup_diag_service_def)
next
  case None
  then show ?thesis
    by (auto simp: lookup_diag_service_def search_and_cache_location_def search_finds[symmetric]
        split: option.splits)
qed

text \<open>
  C7: The cache of service lookups never changes an answer. Start with an empty cache and let
  lookups, variant detections, duplicate marks and positive responses happen in any order; then
  a lookup in the active variant returns exactly the service an uncached search of the variant's
  own services and then of the inherited ones returns, and \<open>NotFound\<close> when there is none. The
  hypothesis is that requests with one cache key search with one predicate: \<open>preds\<close> gives the
  predicate of a key, and the lookups of the run and the last one keep to it. Without it the cache
  does change answers, as \<open>cache_key_ignores_type\<close> below shows.
\<close>

theorem cached_lookup_agrees:
  assumes "(lookup_step nc preds)\<^sup>*\<^sup>* m0 m" and "db_cache m0 = Map.empty"
    and "lookup_predicate nc dc mo = preds (cache_key nc dc mo)"
  shows "fst (lookup_diag_service nc dc None mo m) =
    (case find (lookup_predicate nc dc mo) (visible_services m) of
       Some s \<Rightarrow> Inr s
     | None \<Rightarrow> err (NotFound ''Diagnostic service not found in variant or parent refs''))"
  using lookups.run_preserves[OF assms(1) coherent_empty[OF assms(2)]] assms(3)
  by (rule coherent_lookup_result)

section \<open>Samples\<close>

definition sample_convention :: naming_convention where
  "sample_convention = \<lparr>short_name_affix_position = Suffix, long_name_affix_position = Suffix,
     short_name_affixes = [''_read'', ''_write''], long_name_affixes = [],
     service_affixes = Map.empty,
     action_affixes_of = \<lparr>affix_position_of_action = Suffix, affix_read = ''_read'',
       affix_write = ''_write'', affix_start = ''_start'', affix_request_results = ''_requestresults'',
       affix_stop = ''_stop''\<rparr>,
     nc_semantics = \<lparr>semantic_data = ''DATA'', semantic_service_id_rq = ''SERVICEIDRQ''\<rparr>\<rparr>"

definition sample_service :: "string \<Rightarrow> byte \<Rightarrow> diag_service" where
  "sample_service name sid = \<lparr>service_diag_comm = Some \<lparr>comm_short_name = Some name,
       pre_condition_state_refs = None, state_transition_refs = None\<rparr>,
     request_id = Some sid, request_sub_function_id = None, request_param_count = None\<rparr>"

definition sample_services :: "diag_service list" where
  "sample_services = [sample_service ''Vin_Read'' READ_DATA_BY_IDENTIFIER,
     sample_service ''Vin_Write'' WRITE_DATA_BY_IDENTIFIER]"

definition sample_data :: ecu_data where
  "sample_data = \<lparr>variants = Some [\<lparr>variant_layer = Some \<lparr>layer_short_name = Some ''Base'',
       state_charts = None, diag_services = Some sample_services\<rparr>,
       variant_is_base = True, parent_refs = None, variant_pattern = None\<rparr>],
     functional_groups = None\<rparr>"

definition sample_manager :: ecu_manager where
  "sample_manager = (demo_manager [])\<lparr>diag_database := Some sample_data\<rparr>"

lemma starts_with_ic_ascii:
  "starts_with_ignore_ascii_case ''Vin_Read'' ''vin''"
  "starts_with_ignore_ascii_case ''Vin_Write'' ''vin''"
  by code_simp+

lemma vin_key:
  "cache_key sample_convention (diag_comm_new ''Vin'' t) None = ''vin''"
  "lookup_name_of sample_convention (diag_comm_new ''Vin'' t) = ''vin''"
proof -
  have "to_ascii_lowercase ''Vin'' = ''vin''" by code_simp
  then show "lookup_name_of sample_convention (diag_comm_new ''Vin'' t) = ''vin''"
    and "cache_key sample_convention (diag_comm_new ''Vin'' t) None = ''vin''"
    by (simp_all add: lookup_name_of_def cache_key_def diag_comm_new_def)
qed

lemma vin_predicates:
  "lookup_predicate sample_convention (diag_comm_new ''Vin'' Data) None
     (sample_service ''Vin_Read'' READ_DATA_BY_IDENTIFIER)"
  "\<not> lookup_predicate sample_convention (diag_comm_new ''Vin'' Configurations) None
     (sample_service ''Vin_Read'' READ_DATA_BY_IDENTIFIER)"
  "lookup_predicate sample_convention (diag_comm_new ''Vin'' Configurations) None
     (sample_service ''Vin_Write'' WRITE_DATA_BY_IDENTIFIER)"
  using vin_key starts_with_ic_ascii
  by (simp_all add: lookup_predicate_def diag_comm_new_def sample_service_def
      diag_comm_short_name_starts_with_def service_short_name_def
      WRITE_DATA_BY_IDENTIFIER_def READ_DATA_BY_IDENTIFIER_def READ_DATA_BY_LOCAL_IDENTIFIER_def)

lemma sample_services_visible:
  "own_services sample_manager = Some sample_services"
  "get_variant_parent_ref_services sample_manager = None"
  "variant_index (manager_status sample_manager) = None"
  "db_cache sample_manager = Map.empty"
  by (simp_all add: own_services_def get_variant_parent_ref_services_def active_variant_def
      current_variant_def base_variant_of_def sample_manager_def demo_manager_def sample_data_def
      ecu_runtime_state_new_def ecu_state_default_def)

theorem cached_lookup_agrees_witness:
  "let dc = diag_comm_new ''Vin'' Data;
       m = snd (lookup_diag_service sample_convention dc None None sample_manager)
   in fst (lookup_diag_service sample_convention dc None None m) =
        Inr (sample_service ''Vin_Read'' READ_DATA_BY_IDENTIFIER)"
proof -
  let ?dc = "diag_comm_new ''Vin'' Data"
  let ?preds = "\<lambda>k. lookup_predicate sample_convention ?dc None"
  let ?m = "snd (lookup_diag_service sample_convention ?dc None None sample_manager)"
  have "lookup_step sample_convention ?preds sample_manager ?m" by (rule lookup_step.lookup) simp
  then have run: "(lookup_step sample_convention ?preds)\<^sup>*\<^sup>* sample_manager ?m" by (rule r_into_rtranclp)
  have "same_database sample_manager ?m"
    by (simp add: same_database_def lookup_diag_service_def search_and_cache_location_def Let_def
        split: option.splits prod.splits)
  then have "visible_services ?m = sample_services"
    using sample_services_visible
    by (simp only: same_database_services(3)) (simp add: visible_services_def flatten_refs_def)
  then have "find (?preds ''vin'') (visible_services ?m) =
      Some (sample_service ''Vin_Read'' READ_DATA_BY_IDENTIFIER)"
    using vin_predicates by (simp add: sample_services_def)
  then show ?thesis
    using cached_lookup_agrees[OF run sample_services_visible(4), of ?dc None] by (simp add: Let_def)
qed

text \<open>
  The cache key leaves out the type of the request. After a lookup of the data service \<open>Vin\<close>, a
  lookup of the configuration \<open>Vin\<close> returns the data service, a read, although the
  configuration service is there and is found with an empty cache.
\<close>

lemma cache_key_ignores_type:
  "fst (lookup_diag_service sample_convention (diag_comm_new ''Vin'' Configurations) None None
      (snd (lookup_diag_service sample_convention (diag_comm_new ''Vin'' Data) None None sample_manager))) =
     Inr (sample_service ''Vin_Read'' READ_DATA_BY_IDENTIFIER)"
  "fst (lookup_diag_service sample_convention (diag_comm_new ''Vin'' Configurations) None None
      sample_manager) = Inr (sample_service ''Vin_Write'' WRITE_DATA_BY_IDENTIFIER)"
proof -
  let ?entry = "\<lparr>cached_variant_index = None, cached_location = Some (VariantAt 0)\<rparr>"
  let ?m = "sample_manager\<lparr>db_cache := [''vin'' \<mapsto> ?entry]\<rparr>"
  have first: "snd (lookup_diag_service sample_convention (diag_comm_new ''Vin'' Data) None None
      sample_manager) = ?m"
    using sample_services_visible vin_key vin_predicates
    by (simp add: lookup_diag_service_def live_location_def search_and_cache_location_def
        search_with_location_def find_indexed_def sample_services_def)
  have "same_database sample_manager ?m" by (simp add: same_database_def)
  then have "own_services ?m = Some sample_services"
    using sample_services_visible(1) by (simp only: same_database_services(1))
  then show "fst (lookup_diag_service sample_convention (diag_comm_new ''Vin'' Configurations) None None
      (snd (lookup_diag_service sample_convention (diag_comm_new ''Vin'' Data) None None sample_manager))) =
     Inr (sample_service ''Vin_Read'' READ_DATA_BY_IDENTIFIER)"
    using sample_services_visible(3) vin_key unfolding first
    by (simp add: lookup_diag_service_def live_location_def get_service_by_location_def sample_services_def)
  show "fst (lookup_diag_service sample_convention (diag_comm_new ''Vin'' Configurations) None None
      sample_manager) = Inr (sample_service ''Vin_Write'' WRITE_DATA_BY_IDENTIFIER)"
    using sample_services_visible vin_key vin_predicates
    by (simp add: lookup_diag_service_def live_location_def search_and_cache_location_def
        search_with_location_def find_indexed_def sample_services_def)
qed

end
