(* ===== verification/Response_Conversion.thy ===== *)
theory Response_Conversion
  imports Decode_Sound Service_Lookup
begin

text \<open>
  Conversion of a whole UDS message, \<open>PayloadDecoder\<close> of \<open>EcuManager\<close>
  (\<open>cda-core/src/diag_kernel/payload_decode.rs\<close>): the response is matched against the responses
  of the service by its first byte, a positive one changes session and security level, and its
  parameters are decoded in the order of their positions. The messages of a service are the data
  its flatbuffer accessors return, given as a function of the service.
\<close>

section \<open>Messages of a service\<close>

datatype response_type = PositiveType | NegativeType | GlobalNegativeType

definition response_type_try_from :: "nat \<Rightarrow> response_type diag_result" where
  "response_type_try_from v =
     (if v = 0 then Inr PositiveType
      else if v = 1 then Inr NegativeType
      else if v = 2 then Inr GlobalNegativeType
      else Inl (InvalidDatabase ''ResponseType not found''))"

record response_desc =
  response_code :: nat
  response_params_of :: "param list option"

text \<open>\<open>request_of\<close> is \<open>None\<close> without a request and \<open>Some None\<close> for one without parameters.\<close>

record service_messages =
  request_of :: "param list option option"
  pos_responses :: "response_desc list option"
  neg_responses :: "response_desc list option"

section \<open>Converted responses\<close>

datatype diag_response_type = PositiveResponse | NegativeResponse

record field_parse_error =
  error_path :: string
  field_error :: data_parse_error

record mapped_response =
  mapped_fields :: mapped
  mapped_errors :: "field_parse_error list"

record diag_response =
  response_service :: comm_request
  response_data :: "byte list"
  mapped_data :: "mapped_response option"
  response_kind :: diag_response_type

definition create_diag_service_response ::
  "comm_request \<Rightarrow> mapped \<Rightarrow> response_type \<Rightarrow> byte list \<Rightarrow> field_parse_error list \<Rightarrow> diag_response" where
  "create_diag_service_response dc m t raw errors =
     \<lparr>response_service = dc, response_data = raw,
      mapped_data = Some \<lparr>mapped_fields = m, mapped_errors = errors\<rparr>,
      response_kind = (case t of
          PositiveType \<Rightarrow> PositiveResponse
        | NegativeType \<Rightarrow> NegativeResponse
        | GlobalNegativeType \<Rightarrow> NegativeResponse)\<rparr>"

section \<open>Matching the response\<close>

definition first_byte_matches :: "string \<Rightarrow> param list \<Rightarrow> bool" where
  "first_byte_matches first_byte_value ps =
     list_ex (\<lambda>p. byte_position p = 0 \<and> (case specific_data_as_coded_const p of
         None \<Rightarrow> False | Some c \<Rightarrow> cc_coded_value c = Some first_byte_value)) ps"

definition matching_response :: "service_messages \<Rightarrow> byte \<Rightarrow> (response_desc \<times> param list) option" where
  "matching_response msgs b =
     find_map (\<lambda>r. Option.bind (response_params_of r) (\<lambda>ps.
         if first_byte_matches (to_string (unat b)) ps then Some (r, ps) else None))
       (flatten_refs (pos_responses msgs) @ flatten_refs (neg_responses msgs))"

section \<open>Decoding the parameters\<close>

text \<open>
  One parameter of a message: its error is collected when it is a \<open>DataError\<close> and ends the
  conversion otherwise.
\<close>

definition collect_param ::
  "map_param \<Rightarrow> string \<Rightarrow> param \<Rightarrow> field_parse_error list \<Rightarrow> field_parse_error list dec" where
  "collect_param map_param_from short_name p errors =
     catchD (bindD (map_param_from short_name (param_context_new p 0)) (\<lambda>_. returnD errors))
       (\<lambda>f. case f of
           Fail (DataError e) \<Rightarrow>
             returnD (errors @ [\<lparr>error_path = CHR ''/'' # short_name, field_error = e\<rparr>])
         | _ \<Rightarrow> failD f)"

definition skipped_semantic :: "naming_convention \<Rightarrow> param \<Rightarrow> bool" where
  "skipped_semantic nc p = (case p_semantic p of
      None \<Rightarrow> False
    | Some s \<Rightarrow> s \<noteq> semantic_data (nc_semantics nc) \<and> s \<noteq> semantic_service_id_rq (nc_semantics nc))"

fun map_response_params ::
  "map_param \<Rightarrow> naming_convention \<Rightarrow> param list \<Rightarrow> field_parse_error list \<Rightarrow> field_parse_error list dec" where
  "map_response_params map_param_from nc [] errors = returnD errors"
| "map_response_params map_param_from nc (p # ps) errors =
     (if skipped_semantic nc p then map_response_params map_param_from nc ps errors
      else
        bindD (liftD (ok_or (p_short_name p) (InvalidDatabase ''Unable to find short name for param'')))
        (\<lambda>short_name.
        bindD (if has_byte_position p then updateD (set_last_read_byte_pos (byte_position p))
               else returnD ()) (\<lambda>_.
        bindD (collect_param map_param_from short_name p errors) (\<lambda>errors'.
          map_response_params map_param_from nc ps errors'))))"

fun map_request_params ::
  "map_param \<Rightarrow> param list \<Rightarrow> field_parse_error list \<Rightarrow> field_parse_error list dec" where
  "map_request_params map_param_from [] errors = returnD errors"
| "map_request_params map_param_from (p # ps) errors =
     bindD (liftD (ok_or (p_short_name p) (InvalidDatabase ''Unable to find short name for request param'')))
     (\<lambda>short_name.
     bindD (updateD (\<lambda>pl. set_last_read_byte_pos
              (if has_byte_position p then byte_position p else last_read_byte_pos pl) pl)) (\<lambda>_.
     bindD (collect_param map_param_from short_name p errors) (\<lambda>errors'.
       map_request_params map_param_from ps errors')))"

section \<open>Conversion\<close>

definition raw_payload_offset :: "naming_convention \<Rightarrow> param list \<Rightarrow> nat" where
  "raw_payload_offset nc ps =
     (case map byte_position (filter (\<lambda>p. p_semantic p = Some (semantic_data (nc_semantics nc))) ps) of
        [] \<Rightarrow> 0 | n # ns \<Rightarrow> Min (set (n # ns)))"

text \<open>The part after the response was found, without the change of the manager.\<close>

definition decode_response ::
  "nat \<Rightarrow> externs \<Rightarrow> naming_convention \<Rightarrow> comm_request \<Rightarrow> service_messages \<Rightarrow> byte list \<Rightarrow> bool \<Rightarrow>
   response_type \<Rightarrow> param list \<Rightarrow> diag_response run" where
  "decode_response depth ext nc dc msgs bs map_to_json t ps =
     bindE (lift_result (Payload_View.payload_data (payload_new bs))) (\<lambda>view.
     bindE (lift_result (ok_or (get_range view (raw_payload_offset nc ps) (length view))
       (BadPayload ''Payload offset out of bounds''))) (\<lambda>raw.
     if t = PositiveType \<and> \<not> map_to_json
     then Inr \<lparr>response_service = dc, response_data = raw, mapped_data = None,
        response_kind = PositiveResponse\<rparr>
     else (case map_response_params (map_param_from_uds depth ext (request_of msgs)) nc (sort_params ps) []
             (payload_new bs, []) of
         (Inl f, _) \<Rightarrow> Inl f
       | (Inr errors, (_, m)) \<Rightarrow> Inr (create_diag_service_response dc m t raw errors))))"

definition convert_from_uds ::
  "nat \<Rightarrow> externs \<Rightarrow> (diag_service \<Rightarrow> service_messages) \<Rightarrow> naming_convention \<Rightarrow> comm_request \<Rightarrow> byte list \<Rightarrow>
   bool \<Rightarrow> string option \<Rightarrow> ecu_manager \<Rightarrow> diag_response run \<times> ecu_manager" where
  "convert_from_uds depth ext messages nc dc bs map_to_json functional_group_name m0 =
     (case lookup_diag_service nc dc functional_group_name None m0 of
        (Inl f, m) \<Rightarrow> (Inl f, m)
      | (Inr service, m) \<Rightarrow>
          (case service_diag_comm service of
             None \<Rightarrow> (err (InvalidDatabase ''No DiagComm found''), m)
           | Some comm \<Rightarrow>
               (case try_extract_sid_from_payload bs of
                  Inl e \<Rightarrow> (Inl (Fail e), m)
                | Inr sid \<Rightarrow>
                    (case pl_first (payload_new bs) of
                       None \<Rightarrow> (err (BadPayload ''Payload too short to read first byte''), m)
                     | Some b \<Rightarrow>
                         (case matching_response (messages service) b of
                            None \<Rightarrow>
                              (Inr \<lparr>response_service = dc, response_data = bs, mapped_data = None,
                                 response_kind = (if b = NEGATIVE_RESPONSE then NegativeResponse
                                                  else PositiveResponse)\<rparr>, m)
                          | Some (r, ps) \<Rightarrow>
                              (case response_type_try_from (response_code r) of
                                 Inl e \<Rightarrow> (Inl (Fail e), m)
                               | Inr t \<Rightarrow>
                                   (decode_response depth ext nc dc (messages service) bs map_to_json t ps,
                                    if t = PositiveType then apply_positive_response comm m else m)))))))"

definition convert_request_from_uds ::
  "nat \<Rightarrow> externs \<Rightarrow> (diag_service \<Rightarrow> service_messages) \<Rightarrow> naming_convention \<Rightarrow> comm_request \<Rightarrow> byte list \<Rightarrow>
   bool \<Rightarrow> ecu_manager \<Rightarrow> diag_response run \<times> ecu_manager" where
  "convert_request_from_uds depth ext messages nc dc bs map_to_json m0 =
     (case lookup_diag_service nc dc None None m0 of
        (Inl f, m) \<Rightarrow> (Inl f, m)
      | (Inr service, m) \<Rightarrow>
          (case request_of (messages service) of
             None \<Rightarrow> (err (RequestNotSupported ''Service is not supported''), m)
           | Some params \<Rightarrow>
               (case map_request_params (map_param_from_uds depth ext (request_of (messages service)))
                   (flatten_refs params) [] (payload_new bs, []) of
                  (Inl f, _) \<Rightarrow> (Inl f, m)
                | (Inr errors, (_, decoded)) \<Rightarrow>
                    (Inr (if map_to_json
                       then create_diag_service_response dc decoded PositiveType bs errors
                       else \<lparr>response_service = dc, response_data = bs, mapped_data = None,
                              response_kind = PositiveResponse\<rparr>), m))))"

definition CLEAR_FAULT_MEM_POS_RESPONSE_SID :: byte where
  "CLEAR_FAULT_MEM_POS_RESPONSE_SID = 0x54"

definition convert_service_14_response :: "comm_request \<Rightarrow> byte list \<Rightarrow> diag_response diag_result" where
  "convert_service_14_response dc bs =
     bindE (try_extract_sid_from_payload bs) (\<lambda>sid.
     let response = (\<lambda>k. Inr \<lparr>response_service = dc, response_data = bs, mapped_data = None,
           response_kind = k\<rparr>) in
     if sid = CLEAR_FAULT_MEM_POS_RESPONSE_SID then response PositiveResponse
     else if sid = NEGATIVE_RESPONSE then response NegativeResponse
     else Inl (UnexpectedResponse (Some ''received unexpected response'')))"

section \<open>No field error is ever collected\<close>

text \<open>Operations that are sound and return nothing but \<open>x\<close>.\<close>

definition yields :: "'a \<Rightarrow> 'a dec \<Rightarrow> bool" where
  "yields x m \<longleftrightarrow> (\<forall>s. payload_wf (fst s) \<longrightarrow> sound_at m s \<and> (\<forall>y. fst (m s) = Inr y \<longrightarrow> y = x))"

lemma yields_sound: "yields x m \<Longrightarrow> sound m"
  by (simp add: yields_def sound_def)

lemma yields_return: "yields x (returnD x)"
  using sound_returnD[of x] by (simp add: yields_def sound_def returnD_def)

lemma yields_bind:
  assumes "sound m" and "\<And>x s s'. payload_wf (fst s) \<Longrightarrow> m s = (Inr x, s') \<Longrightarrow> yields y (k x)"
  shows "yields y (bindD m k)"
  unfolding yields_def
proof (intro allI impI)
  fix s :: dec_state assume wf: "payload_wf (fst s)"
  obtain r s' where m: "m s = (r, s')" by (rule prod.exhaust)
  have s: "sound_at m s" using assms(1) wf by (rule soundD)
  then have "payload_wf (fst s')" using m by (simp add: sound_at_def keeps_def)
  then show "sound_at (bindD m k) s \<and> (\<forall>z. fst (bindD m k s) = Inr z \<longrightarrow> z = y)"
  proof (cases r)
    case (Inl f)
    then show ?thesis using s m by (simp add: sound_at_def bindD_def)
  next
    case (Inr x)
    then have "yields y (k x)" using assms(2) wf m by blast
    then have "sound_at (k x) s' \<and> (\<forall>z. fst (k x s') = Inr z \<longrightarrow> z = y)"
      using \<open>payload_wf (fst s')\<close> unfolding yields_def by blast
    then show ?thesis using s m Inr by (auto simp: sound_at_def bindD_def dest: keeps_trans)
  qed
qed

lemma yields_after: "yields x m \<Longrightarrow> yields y (k x) \<Longrightarrow> yields y (bindD m k)"
proof (rule yields_bind[OF yields_sound])
  fix z s s' assume "yields x m" "yields y (k x)" "payload_wf (fst s)" "m s = (Inr z, s')"
  then have "z = x" unfolding yields_def by (metis fst_conv)
  then show "yields y (k z)" using \<open>yields y (k x)\<close> by simp
qed

lemma collect_param_yields:
  assumes s: "sound (mp n (param_context_new p 0))"
  shows "yields errors (collect_param mp n p errors)"
proof -
  let ?m = "bindD (mp n (param_context_new p 0)) (\<lambda>_. returnD errors)"
  have y: "yields errors ?m" using s yields_return by (rule yields_bind)
  have eq: "collect_param mp n p errors st = ?m st" if "payload_wf (fst st)" for st
  proof -
    obtain r st' where r: "?m st = (r, st')" by (rule prod.exhaust)
    moreover have "sound_at ?m st" using yields_sound[OF y] that by (rule soundD)
    ultimately have "tame r" by (simp add: sound_at_def)
    then show ?thesis
      by (auto simp: collect_param_def catchD_def r failD_def split: sum.split failure.split
          diag_service_error.split)
  qed
  then show ?thesis using y by (simp add: yields_def sound_at_def)
qed

lemma response_params_yield:
  "(\<And>p n. p \<in> set ps \<Longrightarrow> sound (mp n (param_context_new p 0))) \<Longrightarrow>
   yields errors (map_response_params mp nc ps errors)"
  by (induction ps)
    (auto intro!: yields_return yields_bind yields_after[OF collect_param_yields] sound_liftD sound_if
      sound_update sound_returnD)

lemma request_params_yield:
  "(\<And>p n. p \<in> set ps \<Longrightarrow> sound (mp n (param_context_new p 0))) \<Longrightarrow>
   yields errors (map_request_params mp ps errors)"
proof (induction ps)
  case (Cons p ps)
  have "sound (updateD (\<lambda>pl. set_last_read_byte_pos (f pl) pl))" for f
    by (auto simp: sound_def sound_at_def updateD_def keeps_def left_over_def set_last_read_byte_pos_def)
  with Cons show ?case
    by (auto intro!: yields_return yields_bind yields_after[OF collect_param_yields] sound_liftD)
qed (auto intro: yields_return)

section \<open>Conversion returns\<close>

definition messages_size :: "service_messages \<Rightarrow> nat" where
  "messages_size msgs = request_size (request_of msgs) +
     sum_list (map (\<lambda>r. size_list size (flatten_refs (response_params_of r)))
       (flatten_refs (pos_responses msgs) @ flatten_refs (neg_responses msgs)))"

text \<open>A usable outcome: a response without field errors or an error that is none of a field.\<close>

definition settled :: "diag_response run \<Rightarrow> bool" where
  "settled r \<longleftrightarrow> (case r of
      Inr resp \<Rightarrow> (\<forall>d. mapped_data resp = Some d \<longrightarrow> mapped_errors d = [])
    | Inl f \<Rightarrow> ordinary f)"

lemma settled_simps [simp]:
  "settled (Inl f) \<longleftrightarrow> ordinary f"
  "settled (Inr resp) \<longleftrightarrow> (\<forall>d. mapped_data resp = Some d \<longrightarrow> mapped_errors d = [])"
  by (simp_all add: settled_def)

lemma create_settled [simp]: "settled (Inr (create_diag_service_response dc m t raw []))"
  by (simp add: create_diag_service_response_def)

lemma settled_lift: "plain r \<Longrightarrow> (\<And>x. settled (k x)) \<Longrightarrow> settled (bindE (lift_result r) k)"
  by (cases r) (simp_all add: lift_result_def)

lemma message_param_sound:
  assumes "request_free (request_of msgs)" "size p + request_size (request_of msgs) < depth"
  shows "sound (map_param_from_uds depth ext (request_of msgs) n (param_context_new p 0))"
  unfolding param_context_new_def using assms by (rule map_param_sound)

lemma matching_response_size:
  assumes m: "matching_response msgs b = Some (r, ps)" and p: "p \<in> set ps"
  shows "size p + request_size (request_of msgs) < messages_size msgs"
proof -
  let ?rs = "flatten_refs (pos_responses msgs) @ flatten_refs (neg_responses msgs)"
  have r: "r \<in> set ?rs" "response_params_of r = Some ps"
    using m find_map_Some unfolding matching_response_def
    by (fastforce split: if_splits bind_splits)+
  have "size p < size_list size ps" using p by (rule size_list_mem)
  also have "\<dots> = size_list size (flatten_refs (response_params_of r))" using r by (simp add: flatten_refs_def)
  also have "\<dots> \<le> sum_list (map (\<lambda>r. size_list size (flatten_refs (response_params_of r))) ?rs)"
    using r(1) by (intro member_le_sum_list) auto
  finally show ?thesis by (simp add: messages_size_def)
qed

lemma decode_response_settled:
  assumes "request_free (request_of msgs)" "length bs \<le> usize_max"
    and "\<And>p. p \<in> set ps \<Longrightarrow> size p + request_size (request_of msgs) < depth"
  shows "settled (decode_response depth ext nc dc msgs bs json t ps)"
proof -
  let ?m = "map_response_params (map_param_from_uds depth ext (request_of msgs)) nc (sort_params ps) []"
  have "yields [] ?m"
    using assms by (intro response_params_yield message_param_sound) simp_all
  then have y: "sound_at ?m (payload_new bs, [])" "fst (?m (payload_new bs, [])) = Inr e \<Longrightarrow> e = []" for e
    using payload_new_wf[OF assms(2)] unfolding yields_def by fastforce+
  obtain r st where r: "?m (payload_new bs, []) = (r, st)" by (rule prod.exhaust)
  show ?thesis
    unfolding decode_response_def
  proof (intro settled_lift)
    show "plain (Payload_View.payload_data (payload_new bs))" by (simp add: Payload_View.payload_data_def)
  next
    fix view raw
    show "settled (if t = PositiveType \<and> \<not> json
       then Inr \<lparr>response_service = dc, response_data = raw, mapped_data = None, response_kind = PositiveResponse\<rparr>
       else (case ?m (payload_new bs, []) of (Inl f, _) \<Rightarrow> Inl f
         | (Inr errors, (_, m)) \<Rightarrow> Inr (create_diag_service_response dc m t raw errors)))"
      using y r by (cases r) (auto simp: sound_at_def create_diag_service_response_def split: prod.split)
  qed simp
qed

text \<open>
  C8: A response is always converted or refused for a reason of its own. Outside functional groups,
  with a coherent cache of services whose key determines the search, requests without parameters
  that match against the request, and a nesting bound not below the size of the service's
  description, the conversion of any payload ends with a response or with an error: it does not
  panic and does not recurse beyond the bound. The list of field errors of the response is empty,
  since no parameter fails with a \<open>DataError\<close>: a field that cannot be interpreted fails the whole
  conversion, where the documentation of the response has it listed.
\<close>

theorem conversion_returns:
  assumes "cache_coherent preds m" "lookup_predicate nc dc None = preds (cache_key nc dc None)"
    and "\<forall>s \<in> set (visible_services m). request_free (request_of (messages s)) \<and>
           messages_size (messages s) \<le> depth"
    and "length bs \<le> usize_max"
  shows "(\<exists>r. fst (convert_from_uds depth ext messages nc dc bs json None m) = Inr r \<and>
           (\<forall>d. mapped_data r = Some d \<longrightarrow> mapped_errors d = [])) \<or>
         (\<exists>e. fst (convert_from_uds depth ext messages nc dc bs json None m) = Inl (Fail e) \<and>
           (\<forall>d. e \<noteq> DataError d))"
proof -
  have "settled (fst (convert_from_uds depth ext messages nc dc bs json None m))"
  proof (cases "fst (lookup_diag_service nc dc None None m)")
    case (Inl f)
    then have "ordinary f" using coherent_lookup_result[OF assms(1,2)] by (auto simp: split: option.splits)
    then show ?thesis using Inl by (auto simp: convert_from_uds_def split: prod.split sum.split)
  next
    case (Inr s)
    then have s: "s \<in> set (visible_services m)"
      using coherent_lookup_result[OF assms(1,2)]
      by (auto simp: find_Some_iff in_set_conv_nth split: option.splits)
    then have msgs: "request_free (request_of (messages s))" "messages_size (messages s) \<le> depth"
      using assms(3) by auto
    have resp: "settled (decode_response depth ext nc dc (messages s) bs json t ps)"
      if "matching_response (messages s) b = Some (r, ps)" for b r ps t
      using msgs assms(4) matching_response_size[OF that] by (intro decode_response_settled) fastforce+
    have "plain (try_extract_sid_from_payload bs)"
      by (auto simp: try_extract_sid_from_payload_def plain_def split: list.splits)
    moreover have "plain (response_type_try_from c)" for c by (simp add: response_type_try_from_def)
    ultimately show ?thesis using Inr resp
      by (auto simp: convert_from_uds_def plain_def split: prod.split sum.split option.split)
  qed
  then show ?thesis
    by (cases "fst (convert_from_uds depth ext messages nc dc bs json None m)")
      (auto simp: ordinary_def split: failure.splits)
qed

text \<open>A request is converted in the same way.\<close>

lemma request_conversion_settled:
  assumes "cache_coherent preds m" "lookup_predicate nc dc None = preds (cache_key nc dc None)"
    and "\<forall>s \<in> set (visible_services m). request_free (request_of (messages s)) \<and>
           2 * messages_size (messages s) \<le> depth"
    and "length bs \<le> usize_max"
  shows "settled (fst (convert_request_from_uds depth ext messages nc dc bs json m))"
proof (cases "fst (lookup_diag_service nc dc None None m)")
  case (Inl f)
  then have "ordinary f" using coherent_lookup_result[OF assms(1,2)] by (auto split: option.splits)
  then show ?thesis using Inl by (auto simp: convert_request_from_uds_def split: prod.split sum.split)
next
  case (Inr s)
  then have s: "s \<in> set (visible_services m)"
    using coherent_lookup_result[OF assms(1,2)]
    by (auto simp: find_Some_iff in_set_conv_nth split: option.splits)
  show ?thesis
  proof (cases "request_of (messages s)")
    case None
    then show ?thesis using Inr by (auto simp: convert_request_from_uds_def split: prod.split)
  next
    case (Some ps)
    let ?m = "map_request_params (map_param_from_uds depth ext (request_of (messages s))) (flatten_refs ps) []"
    have small: "size p + request_size (request_of (messages s)) < depth" if "p \<in> set (flatten_refs ps)" for p
    proof -
      have "size p < request_size (request_of (messages s))"
        using that Some by (cases ps) (simp_all add: flatten_refs_def request_size_def size_list_mem)
      then show ?thesis using assms(3) s by (fastforce simp: messages_size_def)
    qed
    have "yields [] ?m"
      using assms(3) s small by (intro request_params_yield message_param_sound) auto
    then have y: "sound_at ?m (payload_new bs, [])" "fst (?m (payload_new bs, [])) = Inr e \<Longrightarrow> e = []" for e
      using payload_new_wf[OF assms(4)] unfolding yields_def by fastforce+
    obtain r st where r: "?m (payload_new bs, []) = (r, st)" by (rule prod.exhaust)
    then show ?thesis using Inr Some y
      by (cases r) (auto simp: convert_request_from_uds_def sound_at_def create_diag_service_response_def
          split: prod.split)
  qed
qed

text \<open>
  Sessions and security levels change with a positive response that was recognised, and with
  nothing else; the change is made before the parameters are decoded, so it stays when that fails.
\<close>

lemma convert_state:
  assumes l: "lookup_diag_service nc dc fg None m = (r, m1)"
  shows "snd (convert_from_uds depth ext messages nc dc bs json fg m) = m1 \<or>
    (\<exists>comm. snd (convert_from_uds depth ext messages nc dc bs json fg m) = apply_positive_response comm m1)"
    (is "?m' = m1 \<or> _")
proof (cases r)
  case (Inr s)
  show ?thesis
  proof (cases "service_diag_comm s")
    case (Some comm)
    note found = l Inr Some
    show ?thesis
    proof (cases "try_extract_sid_from_payload bs")
      case (Inr sid)
      note extracted = found Inr
      show ?thesis
      proof (cases "pl_first (payload_new bs)")
        case (Some b)
        note first = extracted Some
        show ?thesis
        proof (cases "matching_response (messages s) b")
          case (Some x)
          with first show ?thesis
            by (cases x; cases "response_type_try_from (response_code (fst x))")
              (auto simp: convert_from_uds_def)
        qed (use first in \<open>simp add: convert_from_uds_def\<close>)
      qed (use extracted in \<open>simp add: convert_from_uds_def\<close>)
    qed (use found in \<open>simp add: convert_from_uds_def\<close>)
  qed (use l Inr in \<open>simp add: convert_from_uds_def\<close>)
qed (use l in \<open>simp add: convert_from_uds_def\<close>)

text \<open>
  A refusal to clear the fault memory is never recognised: \<open>try_extract_sid_from_payload\<close> returns
  the identifier of the request for a negative response, which is not \<open>NEGATIVE_RESPONSE\<close>.
\<close>

lemma clear_faults_refusal_unexpected:
  "convert_service_14_response dc (NEGATIVE_RESPONSE # CLEAR_DIAGNOSTIC_INFORMATION # rest) =
     Inl (UnexpectedResponse (Some ''received unexpected response''))"
  by (simp add: convert_service_14_response_def try_extract_sid_from_payload_def NEGATIVE_RESPONSE_def
      CLEAR_DIAGNOSTIC_INFORMATION_def CLEAR_FAULT_MEM_POS_RESPONSE_SID_def)

section \<open>Samples\<close>

definition sid_param :: "string \<Rightarrow> param" where
  "sid_param v = Param (Some ''SID'') (Some ''SERVICEIDRQ'') (Some 0) None 0
     (CodedConstData \<lparr>cc_coded_value = Some v, cc_diag_coded_type = None\<rparr>)"

definition sample_messages :: service_messages where
  "sample_messages = \<lparr>request_of = Some (Some [sid_param ''34'']),
     pos_responses = Some [\<lparr>response_code = 0, response_params_of = Some [sid_param ''98'']\<rparr>],
     neg_responses = None\<rparr>"

theorem conversion_returns_witness:
  "(\<exists>r. fst (convert_from_uds 100 reference_externs (\<lambda>_. sample_messages) sample_convention
           (diag_comm_new ''Vin'' Data) [0x62, 0xF1] True None sample_manager) = Inr r \<and>
      (\<forall>d. mapped_data r = Some d \<longrightarrow> mapped_errors d = [])) \<or>
   (\<exists>e. fst (convert_from_uds 100 reference_externs (\<lambda>_. sample_messages) sample_convention
           (diag_comm_new ''Vin'' Data) [0x62, 0xF1] True None sample_manager) = Inl (Fail e) \<and>
      (\<forall>d. e \<noteq> DataError d))"
proof -
  let ?preds = "\<lambda>k. lookup_predicate sample_convention (diag_comm_new ''Vin'' Data) None"
  have "free_of_matching (sid_param v)" for v
    by (rule free_of_matching_leaf) (simp_all add: sid_param_def param_children_def)
  then have "request_free (request_of sample_messages)" "messages_size sample_messages \<le> 100"
    by (simp_all add: sample_messages_def request_free_def messages_size_def request_size_def
        flatten_refs_def sid_param_def)
  moreover have "cache_coherent ?preds sample_manager"
    using sample_services_visible(4) by (rule coherent_empty)
  ultimately show ?thesis
    by (intro conversion_returns[where preds = ?preds]) (simp_all add: usize_max_def)
qed

end
