(* ===== verification/Payload_Encode.thy ===== *)
theory Payload_Encode
  imports Response_Conversion
begin

text \<open>
  Encoding of a request, \<open>PayloadEncoder\<close> of \<open>EcuManager\<close>
  (\<open>cda-core/src/diag_kernel/payload_encode.rs\<close>): the coded constants of the request are written
  first, then the parameters from a map of JSON values or raw bytes. An error ends the whole
  encoding, so an operation maps the payload so far to the extended payload. All recursion passes
  through \<open>map_param_to_uds\<close>, as in decoding, with a bound on the depth of nested calls.
\<close>

section \<open>Building blocks\<close>

type_synonym enc = "byte list \<Rightarrow> byte list run"

type_synonym json_map = "(string \<times> json) list"

text \<open>The arguments: parameter, its value, the start of the parent, the values beside it.\<close>

type_synonym map_param_to = "param \<Rightarrow> json option \<Rightarrow> nat \<Rightarrow> json_map option \<Rightarrow> enc"

fun try_for_each :: "('a \<Rightarrow> enc) \<Rightarrow> 'a list \<Rightarrow> enc" where
  "try_for_each f [] payload = Inr payload"
| "try_for_each f (x # xs) payload = bindE (f x payload) (try_for_each f xs)"

definition encode_at :: "diag_coded_type \<Rightarrow> byte list \<Rightarrow> nat \<Rightarrow> nat \<Rightarrow> enc" where
  "encode_at d uds_data byte_pos bit_pos payload =
     (case encode d uds_data payload byte_pos bit_pos of
        (Inl e, _) \<Rightarrow> err e | (Inr _, payload') \<Rightarrow> Inr payload')"

text \<open>The branch for a normal data operation, which four operations share.\<close>

definition encode_normal :: "externs \<Rightarrow> normal_dop \<Rightarrow> json \<Rightarrow> nat \<Rightarrow> nat \<Rightarrow> enc" where
  "encode_normal ext nd v byte_pos bit_pos payload =
     bindE (lift_result (nd_coded_type nd)) (\<lambda>diag_type.
     bindE (json_value_to_uds_data ext diag_type (nd_compu_method nd) (nd_physical_type nd) v) (\<lambda>uds_data.
       encode_at diag_type uds_data byte_pos bit_pos payload))"

definition param_pos :: "nat \<Rightarrow> param \<Rightarrow> nat" where
  "param_pos parent_byte_pos p = saturating_add parent_byte_pos (byte_position p)"

section \<open>Values from text\<close>

definition try_parse_str_as_json_number :: "string \<Rightarrow> json diag_result" where
  "try_parse_str_as_json_number s =
     (case parse_int (- (2 ^ 63)) (2 ^ 63 - 1) s of
        Some z \<Rightarrow> Inr (number_from_int z)
      | None \<Rightarrow>
     (case from_str_radix u64_max 10 s of
        Inr n \<Rightarrow> Inr (JNumber (PosInt n))
      | Inl e \<Rightarrow>
     (case parse_f64 s of
        Some f \<Rightarrow>
          bindE (ok_or (number_from_f64 f) (ParameterConversionError ''Failed to parse string as a number''))
            (\<lambda>n. Inr (JNumber n))
      | None \<Rightarrow> Inl (ParameterConversionError ''Failed to parse string as a number''))))"

definition phys_value_str_to_json :: "string \<Rightarrow> json" where
  "phys_value_str_to_json s = (case try_parse_str_as_json_number s of
      Inr number \<Rightarrow> number | Inl e \<Rightarrow> JString s)"

definition resolve_required_param :: "json option \<Rightarrow> dop \<Rightarrow> string option \<Rightarrow> json diag_result" where
  "resolve_required_param provided_value d default_value = (case provided_value of
      Some v \<Rightarrow> Inr v
    | None \<Rightarrow>
        bindE (dop_variant d) (\<lambda>v. case v of
            NormalDop nd \<Rightarrow>
              bindE (ok_or default_value (InvalidRequest ''Required parameter missing''))
                (\<lambda>s. Inr (phys_value_str_to_json s))
          | _ \<Rightarrow> Inl (InvalidRequest ''Required parameter missing'')))"

definition reject_unexpected_keys :: "bool \<Rightarrow> string list \<Rightarrow> string list \<Rightarrow> unit diag_result" where
  "reject_unexpected_keys strict expected_names provided =
     (if strict \<and> filter (\<lambda>k. k \<notin> set expected_names) provided \<noteq> []
      then Inl (BadPayload ''Unexpected parameters in request'') else Inr ())"

section \<open>Structures\<close>

definition map_struct_to_uds ::
  "map_param_to \<Rightarrow> bool \<Rightarrow> param struct_dop \<Rightarrow> nat \<Rightarrow> json \<Rightarrow> enc" where
  "map_struct_to_uds map_param_to strict s struct_byte_pos v payload =
     (case as_object v of
        None \<Rightarrow> err (InvalidRequest ''Expected value to be object type'')
      | Some obj \<Rightarrow>
          let params = flatten_refs (st_params s) in
          bindE (lift_result (if strict
              then reject_unexpected_keys strict (List.map_filter p_short_name params) (map fst obj)
              else Inr ())) (\<lambda>_.
            try_for_each (\<lambda>p payload.
              bindE (lift_result (ok_or (p_short_name p) (InvalidDatabase ''Unable to find short name for param'')))
                (\<lambda>short_name. map_param_to p (map_of obj short_name) struct_byte_pos None payload))
              params payload))"

section \<open>Multiplexers\<close>

definition encode_selector ::
  "externs \<Rightarrow> normal_dop \<Rightarrow> diag_coded_type \<Rightarrow> dop switch_key \<Rightarrow> json_map \<Rightarrow> byte list run" where
  "encode_selector ext nd d sk obj =
     (let selector = (case map_of obj ''Selector'' of Some v \<Rightarrow> v | None \<Rightarrow> number_from_int 0) in
      bindE (json_value_to_uds_data ext d (nd_compu_method nd) (nd_physical_type nd) selector)
        (\<lambda>switch_key_value. encode_at d switch_key_value (sk_byte_position sk)
          (case sk_bit_position sk of Some b \<Rightarrow> b | None \<Rightarrow> 0) []))"

definition mux_case_to_encode ::
  "externs \<Rightarrow> dop mux_dop \<Rightarrow> diag_data_value \<Rightarrow> (string \<times> param struct_dop option) diag_result" where
  "mux_case_to_encode ext mux selector =
     ok_or (case Option.bind (mux_case_struct_from_selector_value ext mux selector)
              (\<lambda>(c, s). map_option (\<lambda>name. (name, s)) (mc_short_name c)) of
         Some x \<Rightarrow> Some x
       | None \<Rightarrow> Option.bind (mux_default_case mux) (\<lambda>dflt.
           Option.bind (dc_short_name dflt) (\<lambda>name.
             map_option (\<lambda>s. (name, Some s))
               (Option.bind (dc_structure dflt) specific_data_as_structure))))
       (InvalidRequest ''Cannot find selector value or default case'')"

definition map_mux_to_uds ::
  "map_param_to \<Rightarrow> externs \<Rightarrow> bool \<Rightarrow> dop mux_dop \<Rightarrow> json \<Rightarrow> enc" where
  "map_mux_to_uds map_param_to ext strict mux v uds_payload =
     (case as_object v of
        None \<Rightarrow> err (InvalidRequest ''Expected value to be object type'')
      | Some obj \<Rightarrow>
          bindE (lift_result (ok_or (mux_switch_key mux) (InvalidDatabase ''Mux switch key is None''))) (\<lambda>sk.
          bindE (lift_result (ok_or (sk_dop sk) (InvalidDatabase ''Mux switch key DoP is None''))) (\<lambda>d.
          bindE (lift_result (dop_variant d)) (\<lambda>variant.
          case variant of
            NormalDop nd \<Rightarrow>
              bindE (lift_result (nd_coded_type nd)) (\<lambda>switch_key_type.
              bindE (encode_selector ext nd switch_key_type sk obj) (\<lambda>mux_payload.
              bindE (uds_data_to_serializable ext (base_datatype switch_key_type) None False mux_payload)
              (\<lambda>selector.
              bindE (lift_result (mux_case_to_encode ext mux selector)) (\<lambda>(case_name, case_structure).
              bindE (lift_result (reject_unexpected_keys strict [''Selector'', case_name] (map fst obj))) (\<lambda>_.
              case case_structure of
                None \<Rightarrow> Inr (uds_payload @ mux_payload)
              | Some s \<Rightarrow>
                  bindE (lift_result (ok_or (map_of obj case_name)
                    (BadPayload ''Mux case value not found in json''))) (\<lambda>struct_data.
                  bindE (map_struct_to_uds map_param_to strict s 0 struct_data []) (\<lambda>struct_payload.
                    Inr (uds_payload @ mux_payload @ struct_payload))))))))
          | _ \<Rightarrow> err (InvalidDatabase ''Mux switch key DoP is not a NormalDoP'')))))"

section \<open>Values and constants\<close>

definition end_of_pdu_structure :: "dop dop_field option \<Rightarrow> param struct_dop diag_result" where
  "end_of_pdu_structure fld =
     bindE (ok_or (Option.bind fld (\<lambda>f. map_option specific_data_as_structure (basic_structure f)))
       (InvalidDatabase ''EndOfPdu has no basic structure'')) (\<lambda>s.
     ok_or s (InvalidDatabase ''EndOfPdu basic structure lookup failed''))"

definition map_end_of_pdu_to_uds ::
  "map_param_to \<Rightarrow> bool \<Rightarrow> nat option \<Rightarrow> nat option \<Rightarrow> dop dop_field option \<Rightarrow> nat \<Rightarrow> json \<Rightarrow> enc" where
  "map_end_of_pdu_to_uds map_param_to strict max_items min_items fld field_start_pos v payload =
     (case as_array v of
        None \<Rightarrow> err (InvalidRequest ''Expected array value'')
      | Some items \<Rightarrow>
          if length items < unwrap_or min_items 0 \<or>
             (case max_items of None \<Rightarrow> False
              | Some mx \<Rightarrow> length items > u32_max \<or> length items mod 2 ^ 32 > mx)
          then err (InvalidRequest ''EndOfPdu expected different amount of items'')
          else
            bindE (lift_result (end_of_pdu_structure fld)) (\<lambda>s.
              try_for_each (\<lambda>item payload.
                map_struct_to_uds map_param_to strict s (max (length payload) field_start_pos) item payload)
                items payload))"

definition map_param_value_to_uds ::
  "map_param_to \<Rightarrow> externs \<Rightarrow> bool \<Rightarrow> param \<Rightarrow> json option \<Rightarrow> nat \<Rightarrow> enc" where
  "map_param_value_to_uds map_param_to ext strict p provided parent_byte_pos payload =
     bindE (lift_result (ok_or (specific_data_as_value p) (InvalidDatabase ''Expected Value specific data'')))
     (\<lambda>(physical_default_value, value_dop).
     bindE (lift_result (ok_or value_dop (InvalidDatabase ''DoP lookup failed''))) (\<lambda>d.
     bindE (lift_result (resolve_required_param provided d physical_default_value)) (\<lambda>v.
     bindE (lift_result (dop_variant d)) (\<lambda>variant.
     case variant of
       NormalDop nd \<Rightarrow> encode_normal ext nd v (param_pos parent_byte_pos p) (bit_position p) payload
     | EndOfPduField mx mn fld \<Rightarrow>
         map_end_of_pdu_to_uds map_param_to strict mx mn fld (param_pos parent_byte_pos p) v payload
     | StructureDop s \<Rightarrow> map_struct_to_uds map_param_to strict s (param_pos parent_byte_pos p) v payload
     | StaticFieldDop _ _ _ \<Rightarrow>
         err (ParameterConversionError ''Mapping StaticField DoP to UDS payload not implemented'')
     | MuxDop mux \<Rightarrow> map_mux_to_uds map_param_to ext strict mux v payload
     | EnvDataDescDop _ _ \<Rightarrow> err (InvalidDatabase ''EnvData(Desc) and DTC DoPs cannot be mapped via parameters'')
     | EnvDataDop _ \<Rightarrow> err (InvalidDatabase ''EnvData(Desc) and DTC DoPs cannot be mapped via parameters'')
     | DtcDop _ \<Rightarrow> err (InvalidDatabase ''EnvData(Desc) and DTC DoPs cannot be mapped via parameters'')
     | DynamicLengthFieldDop _ _ _ \<Rightarrow>
         err (ParameterConversionError ''Mapping DynamicLengthField DoP to UDS payload not implemented'')
     | _ \<Rightarrow> Inl Panics))))"

text \<open>As in decoding, \<open>dop_variant\<close> returns none of the operations of the last branch.\<close>

definition map_param_length_key_to_uds :: "externs \<Rightarrow> param \<Rightarrow> json option \<Rightarrow> nat \<Rightarrow> enc" where
  "map_param_length_key_to_uds ext p provided parent_byte_pos payload =
     bindE (lift_result (ok_or (specific_data_as_length_key_ref p)
       (InvalidDatabase ''Expected LengthKeyRef specific data''))) (\<lambda>key_ref.
     bindE (lift_result (ok_or key_ref (InvalidDatabase ''LengthKey DoP is None''))) (\<lambda>d.
     bindE (lift_result (ok_or provided (InvalidRequest ''Required LengthKey parameter missing''))) (\<lambda>v.
     bindE (lift_result (dop_variant d)) (\<lambda>variant.
     case variant of
       NormalDop nd \<Rightarrow> encode_normal ext nd v (param_pos parent_byte_pos p) (bit_position p) payload
     | _ \<Rightarrow> err (ParameterConversionError ''Unsupported DOP variant for LengthKey parameter'')))))"

definition map_reserved_param_to_uds :: "param \<Rightarrow> enc" where
  "map_reserved_param_to_uds p payload =
     bindE (lift_result (ok_or (specific_data_as_reserved p)
       (InvalidDatabase ''Expected Reserved specific data''))) (\<lambda>n.
     bindE (lift_result (new_high_low_byte_order (reserved_param_data_type n)
       (StandardLength \<lparr>bit_length = n, sl_bit_mask = None, condensed = False\<rparr>))) (\<lambda>coded_type.
       encode_at coded_type (replicate n 0) (byte_position p) (bit_position p) payload))"

definition map_phys_const_param_to_uds ::
  "map_param_to \<Rightarrow> externs \<Rightarrow> bool \<Rightarrow> param \<Rightarrow> json option \<Rightarrow> enc" where
  "map_phys_const_param_to_uds map_param_to ext strict p provided payload =
     bindE (lift_result (ok_or (specific_data_as_phys_const p)
       (InvalidDatabase ''Expected PhysConst specific data''))) (\<lambda>(phys_constant_value, const_dop).
     bindE (lift_result (ok_or const_dop (InvalidDatabase ''PhysConst has no DOP''))) (\<lambda>d.
     bindE (lift_result (resolve_required_param provided d phys_constant_value)) (\<lambda>v.
     bindE (lift_result (dop_variant d)) (\<lambda>variant.
     case variant of
       NormalDop nd \<Rightarrow> encode_normal ext nd v (byte_position p) (bit_position p) payload
     | StructureDop s \<Rightarrow> map_struct_to_uds map_param_to strict s (byte_position p) v payload
     | MuxDop mux \<Rightarrow> map_mux_to_uds map_param_to ext strict mux v payload
     | _ \<Rightarrow> err (InvalidDatabase ''PhysConst has unsupported DOP variant'')))))"

section \<open>Tables\<close>

definition map_table_key_to_uds :: "externs \<Rightarrow> param \<Rightarrow> json option \<Rightarrow> nat \<Rightarrow> enc" where
  "map_table_key_to_uds ext p provided parent_byte_pos payload =
     bindE (lift_result (ok_or provided (InvalidRequest ''Required TABLE-KEY parameter missing''))) (\<lambda>v.
     bindE (lift_result (ok_or (as_str v) (InvalidRequest ''TABLE-KEY parameter must be a string''))) (\<lambda>key_str.
     bindE (lift_result (ok_or (specific_data_as_table_key p)
       (InvalidDatabase ''TABLE-KEY param missing TableKey specific data''))) (\<lambda>table_ref.
     bindE (lift_result (ok_or table_ref (InvalidDatabase ''TABLE-KEY has no TableDop reference''))) (\<lambda>table.
     bindE (lift_result (ok_or (key_dop table) (InvalidDatabase ''TableDop missing key_dop''))) (\<lambda>kd.
     bindE (lift_result (ok_or (table_rows table) (InvalidDatabase ''TableDop missing rows''))) (\<lambda>rows.
     if \<not> list_ex (row_matches key_str) rows
     then err (InvalidRequest ''TABLE-KEY value does not match any row'')
     else
       bindE (lift_result (dop_variant kd)) (\<lambda>variant.
       case variant of
         NormalDop nd \<Rightarrow> encode_normal ext nd v (param_pos parent_byte_pos p) (bit_position p) payload
       | _ \<Rightarrow> err (InvalidDatabase ''TABLE-KEY key_dop must be a NormalDOP''))))))))"

definition map_table_struct_to_uds ::
  "map_param_to \<Rightarrow> bool \<Rightarrow> param \<Rightarrow> json option \<Rightarrow> nat \<Rightarrow> json_map option \<Rightarrow> enc" where
  "map_table_struct_to_uds map_param_to strict p provided parent_byte_pos siblings payload =
     bindE (lift_result (ok_or (specific_data_as_table_struct p)
       (InvalidDatabase ''TABLE-STRUCT param missing TableStruct specific data''))) (\<lambda>key_ref.
     bindE (lift_result (ok_or key_ref (InvalidDatabase ''TABLE-STRUCT missing table_key back-reference'')))
     (\<lambda>table_key_param.
     bindE (lift_result (ok_or (p_short_name table_key_param)
       (InvalidDatabase ''TABLE-KEY param referenced by TABLE-STRUCT has no short_name''))) (\<lambda>key_param_name.
     bindE (lift_result (ok_or siblings
       (InvalidRequest ''TABLE-STRUCT requires sibling parameter context to resolve the TABLE-KEY value'')))
     (\<lambda>sibling_values.
     bindE (lift_result (ok_or (map_of sibling_values key_param_name)
       (InvalidRequest ''TABLE-STRUCT references TABLE-KEY but it is not in the request parameters'')))
     (\<lambda>key_value.
     bindE (lift_result (ok_or (as_str key_value) (InvalidRequest ''TABLE-KEY must be a string''))) (\<lambda>key_str.
     bindE (lift_result (ok_or (specific_data_as_table_key table_key_param)
       (InvalidDatabase ''TABLE-KEY param missing TableKey specific data''))) (\<lambda>table_ref.
     bindE (lift_result (ok_or table_ref (InvalidDatabase ''TABLE-KEY has no TableDop reference''))) (\<lambda>table.
     bindE (lift_result (ok_or (table_rows table) (InvalidDatabase ''TableDop missing rows''))) (\<lambda>rows.
     bindE (lift_result (ok_or (find (row_matches key_str) rows)
       (InvalidRequest ''TABLE-KEY value does not match any table row''))) (\<lambda>row.
     case row_structure row of
       None \<Rightarrow>
         (case provided of
            None \<Rightarrow> Inr payload
          | Some v \<Rightarrow>
              if as_object v = Some [] then Inr payload
              else err (InvalidRequest ''TABLE-STRUCT for row has no structure, but non-empty data was provided''))
     | Some sd \<Rightarrow>
         bindE (lift_result (dop_variant sd)) (\<lambda>variant.
         case variant of
           StructureDop s \<Rightarrow>
             let row_name = unwrap_or (row_short_name row) [];
                 struct_value = Option.bind (Option.bind provided as_object) (\<lambda>obj.
                   if obj = [] then None else map_of obj row_name);
                 struct_json = unwrap_or struct_value (JObject [])
             in map_struct_to_uds map_param_to strict s (param_pos parent_byte_pos p) struct_json payload
         | _ \<Rightarrow> err (InvalidDatabase ''TABLE-STRUCT row structure DOP is not a Structure variant''))))))))))))"

section \<open>All parameters\<close>

definition map_param_to_step :: "map_param_to \<Rightarrow> externs \<Rightarrow> bool \<Rightarrow> map_param_to" where
  "map_param_to_step map_param_to ext strict p v parent_byte_pos siblings payload =
     bindE (lift_result (param_type_of p)) (\<lambda>t.
     case t of
       PtCodedConst \<Rightarrow> Inr payload
     | PtMatchingRequestParam \<Rightarrow> err (InvalidRequest ''MatchingRequestParam only supported for responses'')
     | PtValue \<Rightarrow> map_param_value_to_uds map_param_to ext strict p v parent_byte_pos payload
     | PtReserved \<Rightarrow> map_reserved_param_to_uds p payload
     | PtTableStruct \<Rightarrow> map_table_struct_to_uds map_param_to strict p v parent_byte_pos siblings payload
     | PtDynamic \<Rightarrow> err (ParameterConversionError ''Mapping Dynamic DoP to UDS payload not implemented'')
     | PtLengthKey \<Rightarrow> map_param_length_key_to_uds ext p v parent_byte_pos payload
     | PtNrcConst \<Rightarrow> err (ParameterConversionError ''Mapping NrcConst DoP to UDS payload not implemented'')
     | PtPhysConst \<Rightarrow> map_phys_const_param_to_uds map_param_to ext strict p v payload
     | PtSystem \<Rightarrow> err (ParameterConversionError ''Mapping System DoP to UDS payload not implemented'')
     | PtTableEntry \<Rightarrow> err (ParameterConversionError ''Mapping TableEntry DoP to UDS payload not implemented'')
     | PtTableKey \<Rightarrow> map_table_key_to_uds ext p v parent_byte_pos payload)"

text \<open>\<open>map_param_to_uds\<close> with at most \<open>depth\<close> nested calls.\<close>

fun map_param_to_uds :: "nat \<Rightarrow> externs \<Rightarrow> bool \<Rightarrow> map_param_to" where
  "map_param_to_uds 0 ext strict p v parent_byte_pos siblings payload = Inl Diverges"
| "map_param_to_uds (Suc depth) ext strict p v parent_byte_pos siblings payload =
     map_param_to_step (map_param_to_uds depth ext strict) ext strict p v parent_byte_pos siblings payload"

section \<open>Requests\<close>

definition process_parameter :: "map_param_to \<Rightarrow> json_map \<Rightarrow> param \<Rightarrow> enc" where
  "process_parameter map_param_to json_values p uds =
     (let effective_byte_pos = (if has_byte_position p then byte_position p else length uds);
          padded = uds @ replicate (effective_byte_pos - length uds) 0
      in bindE (lift_result (ok_or (p_short_name p) (InvalidDatabase ''Unable to find short name for param'')))
         (\<lambda>short_name.
           map_param_to p (map_of json_values short_name)
             (if has_byte_position p then 0 else effective_byte_pos) (Some json_values) padded))"

definition process_parameter_map ::
  "map_param_to \<Rightarrow> bool \<Rightarrow> param list \<Rightarrow> json_map \<Rightarrow> enc" where
  "process_parameter_map map_param_to strict mapped_params json_values uds =
     bindE (lift_result (reject_unexpected_keys strict (List.map_filter p_short_name mapped_params)
       (map fst json_values))) (\<lambda>_.
     try_for_each (process_parameter map_param_to json_values) mapped_params uds)"

definition process_coded_constant :: "externs \<Rightarrow> param \<Rightarrow> enc" where
  "process_coded_constant ext p uds = (case specific_data_as_coded_const p of
      None \<Rightarrow> Inr uds
    | Some c \<Rightarrow>
        bindE (lift_result (ok_or (Option.bind (cc_diag_coded_type c) (\<lambda>t. ok_option (diag_coded_type_try_from t)))
          (InvalidDatabase ''Param is missing DiagCodedType''))) (\<lambda>diag_type.
        bindE (lift_result (ok_or (cc_coded_value c) (InvalidDatabase ''Param is missing coded value'')))
        (\<lambda>coded_const_value.
        bindE (lift_result (case try_parse_str_as_json_number coded_const_value of
            Inr number \<Rightarrow> Inr number
          | Inl e \<Rightarrow> str_to_json_value coded_const_value (base_datatype diag_type))) (\<lambda>const_json_value.
        bindE (json_value_to_uds_data ext diag_type None None const_json_value) (\<lambda>uds_val.
          encode_at diag_type uds_val (byte_position p) (bit_position p) uds)))))"

definition process_coded_constants :: "externs \<Rightarrow> param list \<Rightarrow> byte list run" where
  "process_coded_constants ext mapped_params = try_for_each (process_coded_constant ext) mapped_params []"

datatype uds_payload_data = RawData "byte list" | ParameterMap json_map

text \<open>The payload of a request from its parameters and the data given for them.\<close>

definition build_request ::
  "nat \<Rightarrow> externs \<Rightarrow> bool \<Rightarrow> param list option \<Rightarrow> uds_payload_data option \<Rightarrow> byte list run" where
  "build_request depth ext strict params given =
     (let mapped_params = sort_params (flatten_refs params) in
      bindE (process_coded_constants ext mapped_params) (\<lambda>uds.
      case unwrap_or given (ParameterMap []) of
        RawData bs \<Rightarrow> Inr (uds @ bs)
      | ParameterMap json_values \<Rightarrow>
          process_parameter_map (map_param_to_uds depth ext strict) strict mapped_params json_values uds))"

definition create_uds_payload ::
  "nat \<Rightarrow> externs \<Rightarrow> bool \<Rightarrow> (diag_service \<Rightarrow> service_messages) \<Rightarrow> naming_convention \<Rightarrow> 16 word \<Rightarrow> 16 word \<Rightarrow>
   comm_request \<Rightarrow> security_plugin \<Rightarrow> uds_payload_data option \<Rightarrow> string option \<Rightarrow> ecu_manager \<Rightarrow>
   service_payload run \<times> ecu_manager" where
  "create_uds_payload depth ext strict messages nc tester_address logical_address dc plugin given fg m0 =
     (case lookup_diag_service nc dc fg None m0 of
        (Inl f, m) \<Rightarrow> (Inl f, m)
      | (Inr service, m) \<Rightarrow>
          (bindE (lift_result (ok_or (service_diag_comm service) (InvalidDatabase ''No DiagComm found''))) (\<lambda>comm.
           bindE (lift_result (ok_or (request_of (messages service))
             (RequestNotSupported ''Service is not supported''))) (\<lambda>params.
           bindE (lift_result (if fg = None then check_service_access plugin service m else Inr ())) (\<lambda>_.
           bindE (build_request depth ext strict params given) (\<lambda>uds.
             case lookup_state_transition_by_diagcomm_for_active comm m of (ses, sec) \<Rightarrow>
               Inr \<lparr>service_payload.payload_data = uds, source_address = tester_address,
                    target_address = logical_address, new_session = ses, new_security = sec\<rparr>)))), m))"

end
