(* ===== verification/Compu_Correct.thy ===== *)
theory Compu_Correct
  imports Compu_Method
begin

text \<open>
  Computation methods are inverse to each other: a physical value converted to its coded bytes
  (\<open>compu_convert\<close>) and read back (\<open>uds_data_to_serializable\<close>) is the same value, for linear
  methods with whole coefficients and for text tables; and the exact bounds of the validation of
  signed values (\<open>cda-core/src/diag_kernel/operations.rs\<close>).
\<close>

section \<open>Whole numbers of a coded type\<close>

definition is_int_type :: "data_type \<Rightarrow> bool" where
  "is_int_type dt \<longleftrightarrow> dt = Int32 \<or> dt = UInt32"

definition int_fits :: "data_type \<Rightarrow> int \<Rightarrow> bool" where
  "int_fits dt z \<longleftrightarrow> (if dt = Int32 then i32_min \<le> z \<and> z \<le> i32_max else 0 \<le> z \<and> z \<le> int u32_max)"

definition int_value :: "data_type \<Rightarrow> int \<Rightarrow> diag_data_value" where
  "int_value dt z = (if dt = Int32 then VInt32 z else VUInt32 (nat z))"

definition int_bytes :: "data_type \<Rightarrow> int \<Rightarrow> byte list" where
  "int_bytes dt z = (if dt = Int32 then i32_to_be_bytes z else u32_to_be_bytes (nat z))"

lemma int_fits_small: "int_fits dt z \<Longrightarrow> \<bar>z\<bar> < 2 ^ 53"
  by (auto simp: int_fits_def i32_min_def i32_max_def u32_max_def split: if_splits)

lemma u32_of_i32_inverse:
  "i32_min \<le> z \<Longrightarrow> z \<le> i32_max \<Longrightarrow> i32_of_u32 (u32_of_i32 z) = z"
  "u32_of_i32 z < 2 ^ 32"
proof -
  show "u32_of_i32 z < 2 ^ 32" by (simp add: u32_of_i32_def nat_less_iff)
  assume z: "i32_min \<le> z" "z \<le> i32_max"
  show "i32_of_u32 (u32_of_i32 z) = z"
  proof (cases "0 \<le> z")
    case True
    then have "z mod 2 ^ 32 = z" using z by (intro mod_pos_pos_trivial) (simp_all add: i32_max_def)
    then show ?thesis using z True by (simp add: i32_of_u32_def u32_of_i32_def i32_max_def nat_less_iff)
  next
    case False
    then have "z mod 2 ^ 32 = (z + 2 ^ 32) mod 2 ^ 32" by simp
    also have "\<dots> = z + 2 ^ 32" using z False by (intro mod_pos_pos_trivial) (simp_all add: i32_min_def)
    finally show ?thesis using z False by (simp add: i32_of_u32_def u32_of_i32_def i32_min_def nat_less_iff)
  qed
qed

lemma int_bytes_value:
  assumes "is_int_type dt" "int_fits dt z"
  shows "diag_data_value_new dt (int_bytes dt z) = Inr (int_value dt z)"
    and "length (int_bytes dt z) = 4"
proof -
  show len: "length (int_bytes dt z) = 4"
    by (simp add: int_bytes_def i32_to_be_bytes_def u32_to_be_bytes_def)
  have "nat z < 2 ^ 32" if "dt = UInt32"
    using assms(2) that by (simp add: int_fits_def u32_max_def nat_less_iff)
  then show "diag_data_value_new dt (int_bytes dt z) = Inr (int_value dt z)"
    using assms u32_of_i32_inverse[of z]
    by (auto simp: is_int_type_def int_fits_def int_bytes_def int_value_def diag_data_value_new_def
        i32_to_be_bytes_def u32_to_be_bytes_def i32_from_be_bytes_def u32_padded_bytes_def
        padded_bytes_def be_val_be_bytes)
qed

lemma int_value_f64:
  assumes "is_int_type dt" "int_fits dt z"
  shows "\<exists>x. value_to_f64 (int_value dt z) = Inr x \<and> denotes x z"
proof -
  have "denotes (f64_of_int z) z" using int_fits_small[OF assms(2)] by (rule f64_of_int_exact)
  then show ?thesis using assms by (auto simp: is_int_type_def int_fits_def int_value_def value_to_f64_def)
qed

text \<open>The law of the number conversions: a whole number that fits is converted to itself.\<close>

definition casts_exact :: "externs \<Rightarrow> bool" where
  "casts_exact ext \<longleftrightarrow> (\<forall>x z. denotes x z \<longrightarrow>
     (i32_min \<le> z \<and> z \<le> i32_max \<longrightarrow> to_i32 ext (NF64 x) = Some z) \<and>
     (0 \<le> z \<and> z \<le> int u32_max \<longrightarrow> to_u32 ext (NF64 x) = Some (nat z)))"

lemma reference_casts_exact: "casts_exact reference_externs"
  using reference_casts by (simp add: casts_exact_def)

lemma from_number_int:
  assumes "casts_exact ext" "is_int_type dt" "int_fits dt z" "denotes x z"
  shows "from_number ext x dt = Inr (int_value dt z)"
  using assms by (auto simp: casts_exact_def is_int_type_def int_fits_def from_number_def int_value_def)

lemma scaled_bytes_int:
  assumes "is_int_type dt" "int_fits dt z" "denotes x z"
  shows "linear_scaled_value_to_bytes x dt = Inr (int_bytes dt z)"
  using assms denotes_as_int[OF assms(3)]
  by (auto simp: is_int_type_def int_fits_def linear_scaled_value_to_bytes_def int_bytes_def)

section \<open>Linear methods\<close>

definition whole_coeffs :: "compu_rational_coefficients \<Rightarrow> int \<Rightarrow> int \<Rightarrow> int \<Rightarrow> bool" where
  "whole_coeffs c v0 v1 d \<longleftrightarrow> (\<exists>fo fk. numerator c = [fo, fk] \<and> denotes fo v0 \<and> denotes fk v1 \<and>
     (case denominator c of [] \<Rightarrow> d = 1 | [fd] \<Rightarrow> denotes fd d | _ \<Rightarrow> False))"

lemma whole_coeffs_parts:
  assumes "whole_coeffs c v0 v1 d"
  obtains fo fk fd where "numerator c = [fo, fk]" "denotes fo v0" "denotes fk v1" "denotes fd d"
    "length (denominator c) \<le> 1"
    "(case get (denominator c) 0 of Some x \<Rightarrow> x | None \<Rightarrow> f64_of_int 1) = fd"
proof -
  obtain fo fk where n: "numerator c = [fo, fk]" "denotes fo v0" "denotes fk v1"
    and dn: "case denominator c of [] \<Rightarrow> d = 1 | [fd] \<Rightarrow> denotes fd d | _ \<Rightarrow> False"
    using assms unfolding whole_coeffs_def by blast
  have "denotes (f64_of_int 1) 1" by (rule f64_of_int_exact) simp
  then show thesis
    using n dn by (intro that[of fo fk "case get (denominator c) 0 of Some x \<Rightarrow> x | None \<Rightarrow> f64_of_int 1"])
      (auto simp: get_def split: list.splits)
qed

lemma is_zero64_denotes: "denotes x z \<Longrightarrow> is_zero64 x \<longleftrightarrow> z = 0"
proof -
  assume "denotes x z"
  then obtain s m where "dec64 x = FpFin s (m * unit64)" "signed s m = z" by (rule denotes_dec)
  then show ?thesis by (auto simp: is_zero64_def signed_def split: if_splits)
qed

text \<open>Both directions, on a coded value \<open>i\<close> and a physical value \<open>p\<close> with \<open>d p = v0 + v1 i\<close>.\<close>

lemma linear_both_ways:
  assumes c: "whole_coeffs c v0 v1 d" and eq: "d * p = v0 + v1 * i"
    and nz: "v1 \<noteq> 0" "d \<noteq> 0"
    and small: "\<bar>d * p\<bar> < 2 ^ 53" "\<bar>v1 * i\<bar> < 2 ^ 53" "\<bar>p\<bar> < 2 ^ 53" "\<bar>i\<bar> < 2 ^ 53"
  shows "denotes x p \<Longrightarrow> \<exists>y. apply_linear_conversion c x (PhysToInternal iv) = Inr y \<and> denotes y i"
    and "denotes x i \<Longrightarrow> \<exists>y. apply_linear_conversion c x InternalToPhys = Inr y \<and> denotes y p"
proof -
  obtain fo fk fd where f: "numerator c = [fo, fk]" "denotes fo v0" "denotes fk v1" "denotes fd d"
    "length (denominator c) \<le> 1"
    "(case get (denominator c) 0 of Some x \<Rightarrow> x | None \<Rightarrow> f64_of_int 1) = fd"
    using c by (rule whole_coeffs_parts)
  have z: "\<not> is_zero64 fk" "\<not> is_zero64 fd" using nz is_zero64_denotes f(3,4) by blast+
  show "\<exists>y. apply_linear_conversion c x (PhysToInternal iv) = Inr y \<and> denotes y i" if x: "denotes x p"
  proof -
    have "denotes (f64_mul fd x) (d * p)" using f(4) x small(1) by (rule f64_mul_exact)
    then have "denotes (f64_sub (f64_mul fd x) fo) (d * p - v0)"
      using f(2) by (rule f64_sub_exact) (use eq small(2) in simp)
    then have "denotes (f64_div (f64_sub (f64_mul fd x) fo) fk) i"
      using f(3) nz(1) small(4) by (intro f64_div_exact[of _ i v1]) (simp_all add: eq ac_simps)
    then show ?thesis using f z by (simp add: apply_linear_conversion_def get_def Let_def)
  qed
  show "\<exists>y. apply_linear_conversion c x InternalToPhys = Inr y \<and> denotes y p" if x: "denotes x i"
  proof -
    have "denotes (f64_mul fk x) (v1 * i)" using f(3) x small(2) by (rule f64_mul_exact)
    with f(2) have "denotes (f64_add fo (f64_mul fk x)) (v0 + v1 * i)"
      by (rule f64_add_exact) (use eq small(1) in simp)
    then have "denotes (f64_div (f64_add fo (f64_mul fk x)) fd) p"
      unfolding eq[symmetric] using f(4) nz(2) small(3)
      by (intro f64_div_exact[of _ p d]) (simp_all add: ac_simps)
    then show ?thesis using f z by (simp add: apply_linear_conversion_def get_def Let_def)
  qed
qed

lemma as_f64_int: "as_f64 (number_from_int z) = Some (f64_of_int z)"
  by (simp add: as_f64_def number_from_int_def)

lemma get_singleton: "length xs = 1 \<Longrightarrow> get xs 0 = Some (xs ! 0)"
  by (simp add: get_def)

lemma linear_converts:
  assumes "cm_scales cm = [scale]" "rational_coefficients scale = Some c"
    and "apply_linear_conversion c (f64_of_int p) (PhysToInternal (inverse_values scale)) = Inr y"
    and "is_int_type (base_datatype dct)" "int_fits (base_datatype dct) i" "denotes y i"
  shows "compu_convert ext dct cm pt Linear (number_from_int p) = Inr (int_bytes (base_datatype dct) i)"
  using assms scaled_bytes_int[OF assms(4-6)]
  by (simp add: compu_convert_def compu_convert_linear_def get_def parse_json_to_f64_def as_f64_int
      lift_result_def)

lemma linear_reads_bytes:
  assumes "cm_scales cm = [scale]" "rational_coefficients scale = Some c" "cm_category cm = Linear"
    and "is_int_type dt" "int_fits dt i" "int_fits dt p" "casts_exact ext"
    and "within_limits ext (int_value dt i) (upper_limit scale) (lower_limit scale)"
    and "\<And>x. denotes x i \<Longrightarrow> \<exists>y. apply_linear_conversion c x InternalToPhys = Inr y \<and> denotes y p"
    and "diag_data_value_new dt bs = Inr (int_value dt i)" "bs \<noteq> []"
  shows "uds_data_to_serializable ext dt (Some cm) neg bs = Inr (int_value dt p)"
proof -
  obtain x where x: "value_to_f64 (int_value dt i) = Inr x" "denotes x i"
    using int_value_f64[OF assms(4,5)] by blast
  obtain y where y: "apply_linear_conversion c x InternalToPhys = Inr y" "denotes y p"
    using assms(9) x(2) by blast
  show ?thesis
    using assms(1-3,8,10,11) x y from_number_int[OF assms(7,4,6) y(2)]
    by (simp add: uds_data_to_serializable_def compu_lookup_def compu_lookup_linear_def lift_result_def)
qed

lemma linear_reads:
  assumes "cm_scales cm = [scale]" "rational_coefficients scale = Some c" "cm_category cm = Linear"
    and "is_int_type dt" "int_fits dt i" "int_fits dt p" "casts_exact ext"
    and "within_limits ext (int_value dt i) (upper_limit scale) (lower_limit scale)"
    and "\<And>x. denotes x i \<Longrightarrow> \<exists>y. apply_linear_conversion c x InternalToPhys = Inr y \<and> denotes y p"
  shows "uds_data_to_serializable ext dt (Some cm) neg (int_bytes dt i) = Inr (int_value dt p)"
  using assms int_bytes_value[OF assms(4,5)] by (intro linear_reads_bytes) auto

text \<open>
  Linear computation methods are exact on whole values. When the offset, the factor and the
  denominator are whole numbers and a physical value \<open>p\<close> has the coded value \<open>i\<close> under them,
  \<open>d p = v0 + v1 i\<close>, then \<open>p\<close> is encoded as the four bytes of \<open>i\<close>, and these bytes are read back
  as \<open>p\<close>: the floating-point arithmetic in both directions loses nothing. The products stay below
  \<open>2 ^ 53\<close>; the conversion of a whole floating-point number to an integer is taken to be exact.
\<close>

theorem linear_roundtrip:
  assumes "cm_category cm = Linear" "cm_scales cm = [scale]" "rational_coefficients scale = Some c"
    and "whole_coeffs c v0 v1 d" "d * p = v0 + v1 * i" "v1 \<noteq> 0" "d \<noteq> 0"
    and "\<bar>d * p\<bar> < 2 ^ 53" "\<bar>v1 * i\<bar> < 2 ^ 53"
    and "is_int_type (base_datatype dct)" "int_fits (base_datatype dct) p" "int_fits (base_datatype dct) i"
    and "within_limits ext (int_value (base_datatype dct) i) (upper_limit scale) (lower_limit scale)"
    and "casts_exact ext"
  shows "compu_convert ext dct cm pt Linear (number_from_int p) = Inr (int_bytes (base_datatype dct) i) \<and>
    uds_data_to_serializable ext (base_datatype dct) (Some cm) False (int_bytes (base_datatype dct) i) =
      Inr (int_value (base_datatype dct) p)"
proof -
  note small = int_fits_small[OF assms(11)] int_fits_small[OF assms(12)]
  note both = linear_both_ways[OF assms(4-9) small]
  have "denotes (f64_of_int p) p" using small(1) by (rule f64_of_int_exact)
  then obtain y where y: "apply_linear_conversion c (f64_of_int p) (PhysToInternal (inverse_values scale)) = Inr y"
    "denotes y i" using both(1) by blast
  show ?thesis
    using linear_converts[OF assms(2,3) y(1) assms(10,12) y(2)]
      linear_reads[OF assms(2,3,1,10,12,11,14,13) both(2)] by blast
qed

section \<open>Text tables\<close>

text \<open>The entry of a table for the coded value \<open>i\<close>, whose limits are its digits.\<close>

definition text_entry :: "data_type \<Rightarrow> string \<Rightarrow> int \<Rightarrow> compu_scale \<Rightarrow> bool" where
  "text_entry dt t i s \<longleftrightarrow> 0 \<le> i \<and> Option.bind (scale_consts s) scale_text = Some t \<and>
     (\<exists>k. lower_limit s = Some \<lparr>limit_value = to_string (nat i), limit_interval = k\<rparr> \<and> k \<noteq> Open) \<and>
     (case upper_limit s of None \<Rightarrow> True
      | Some u \<Rightarrow> limit_value u = to_string (nat i) \<and> limit_interval u \<noteq> Open)"

lemma limit_to_int:
  assumes "0 \<le> i" "limit_value l = to_string (nat i)"
  shows "i \<le> i32_max \<Longrightarrow> limit_to_i32 l = Inr i" and "i \<le> int u32_max \<Longrightarrow> limit_to_u32 l = Inr (nat i)"
proof -
  have s: "to_string (nat i) \<noteq> []" by (simp add: to_string_def)
  have pf: "\<exists>x. parse_f64 (to_string (nat i)) = Some x \<and> denotes x i" if "i < 2 ^ 53"
  proof -
    have "nat i < 2 ^ 53" using that assms(1) by simp
    then show ?thesis using parse_f64_to_string[of "nat i"] assms(1) by simp
  qed
  have d: "denotes (f64_of_int z) z" if "\<bar>z\<bar> < 2 ^ 53" for z using that by (rule f64_of_int_exact)
  show "limit_to_i32 l = Inr i" if "i \<le> i32_max"
  proof -
    have "i < 2 ^ 53" using that by (simp add: i32_max_def)
    then obtain x where x: "parse_f64 (to_string (nat i)) = Some x" "denotes x i" using pf by blast
    have "denotes (f64_of_int i32_min) i32_min" "denotes (f64_of_int i32_max) i32_max"
      by (rule d; simp add: i32_min_def i32_max_def)+
    then show ?thesis
      using x s assms that denotes_finite[OF x(2)] denotes_as_int[OF x(2), of i32_min i32_max]
        denotes_compare(1)[OF x(2)] denotes_compare(1)[OF _ x(2)]
      by (simp add: limit_to_i32_def limit_to_f64_def i32_min_def)
  qed
  show "limit_to_u32 l = Inr (nat i)" if "i \<le> int u32_max"
  proof -
    have "i < 2 ^ 53" using that by (simp add: u32_max_def)
    then obtain x where x: "parse_f64 (to_string (nat i)) = Some x" "denotes x i" using pf by blast
    have "denotes (f64_of_int 0) 0" "denotes f64_u32_max (int u32_max)"
      unfolding f64_u32_max_def by (rule d; simp add: u32_max_def)+
    then show ?thesis
      using x s assms that denotes_finite[OF x(2)] denotes_as_int[OF x(2), of 0 "int u32_max"]
        denotes_compare(1)[OF x(2)] denotes_compare(1)[OF _ x(2)]
      by (simp add: limit_to_u32_def limit_to_f64_def)
  qed
qed

lemma text_entry_limits:
  assumes "is_int_type dt" "int_fits dt i" "text_entry dt t i s"
  shows "within_limits ext (int_value dt i) (upper_limit s) (lower_limit s)"
    and "\<exists>l. lower_limit s = Some l \<and> (if dt = Int32 then limit_to_i32 l = Inr i else limit_to_u32 l = Inr (nat i))"
proof -
  note lim = limit_to_int[of i]
  show "within_limits ext (int_value dt i) (upper_limit s) (lower_limit s)"
    using assms lim
    by (auto simp: text_entry_def is_int_type_def int_fits_def int_value_def within_limits_def
        check_numeric_limits_def split: option.splits)
  show "\<exists>l. lower_limit s = Some l \<and> (if dt = Int32 then limit_to_i32 l = Inr i else limit_to_u32 l = Inr (nat i))"
    using assms lim by (auto simp: text_entry_def is_int_type_def int_fits_def)
qed

lemma find_map_first:
  "(\<And>x. x \<in> set pre \<Longrightarrow> f x = None) \<Longrightarrow> f s = Some y \<Longrightarrow> find_map f (pre @ s # post) = Some y"
  by (induction pre) auto

lemma find_first: "(\<And>x. x \<in> set pre \<Longrightarrow> \<not> P x) \<Longrightarrow> P s \<Longrightarrow> find P (pre @ s # post) = Some s"
  by (induction pre) auto

text \<open>
  C29: Text tables are inverse on both sides. Take a 32 bit integer parameter with a text table and an
  entry of it with a text without quotation marks, whose lower limit, and upper limit if it has one,
  is the coded value \<open>i\<close>, closed and not negative, and let no earlier entry have the same text or
  contain the value. Then the text is encoded as the four bytes of \<open>i\<close>, and outside a negative
  response these bytes are read back as the text.
\<close>

theorem text_table_roundtrip:
  assumes "cm_category cm = TextTable" "cm_scales cm = pre @ s # post"
    and "is_int_type (base_datatype dct)" "int_fits (base_datatype dct) i"
    and "text_entry (base_datatype dct) t i s" "CHR 0x22 \<notin> set t"
    and "\<forall>e \<in> set pre. Option.bind (scale_consts e) scale_text \<noteq> Some t"
    and "\<forall>e \<in> set pre. \<not> within_limits ext (int_value (base_datatype dct) i) (upper_limit e) (lower_limit e)"
  shows "compu_convert ext dct cm pt TextTable (JString t) = Inr (int_bytes (base_datatype dct) i) \<and>
    uds_data_to_serializable ext (base_datatype dct) (Some cm) False (int_bytes (base_datatype dct) i) =
      Inr (VString t)"
proof
  let ?dt = "base_datatype dct"
  note lim = text_entry_limits[OF assms(3-5)]
  obtain l where l: "lower_limit s = Some l"
    "if ?dt = Int32 then limit_to_i32 l = Inr i else limit_to_u32 l = Inr (nat i)" using lim(2) by blast
  have t: "Option.bind (scale_consts s) scale_text = Some t" using assms(5) by (simp add: text_entry_def)
  have "find_map (text_limit t) (pre @ s # post) = Some l"
    using assms(7) t l(1) by (intro find_map_first) (auto simp: text_limit_def split: option.splits)
  moreover have "char_of (34 :: nat) = CHR 0x22" by code_simp
  then have "filter (\<lambda>c. c \<noteq> char_of (34 :: nat)) t = t" using assms(6) by (intro filter_True) auto
  ultimately show "compu_convert ext dct cm pt TextTable (JString t) = Inr (int_bytes ?dt i)"
    using assms(2,3) l(2)
    by (auto simp: compu_convert_def compu_convert_text_table_def as_str_def is_int_type_def int_bytes_def
        lift_result_def split: data_type.splits)
  have "find (\<lambda>e. within_limits ext (int_value ?dt i) (upper_limit e) (lower_limit e)) (pre @ s # post) = Some s"
    using assms(8) lim(1) by (intro find_first) auto
  moreover have "int_bytes ?dt i \<noteq> []" using int_bytes_value(2)[OF assms(3,4)] by auto
  moreover obtain c where "scale_consts s = Some c" "scale_text c = Some t"
    using t by (cases "scale_consts s") auto
  ultimately show "uds_data_to_serializable ext ?dt (Some cm) False (int_bytes ?dt i) = Inr (VString t)"
    using assms(1,2) int_bytes_value(1)[OF assms(3,4)]
    by (simp add: uds_data_to_serializable_def compu_lookup_def compu_lookup_text_table_def lift_result_def)
qed

section \<open>Validation of bit lengths\<close>

lemma in_signed_Some: "- (2 ^ (w - 1)) \<le> z \<Longrightarrow> z < 2 ^ (w - 1) \<Longrightarrow> in_signed w z = Some z"
  by (simp add: in_signed_def)

lemma signed_bounds_below:
  assumes "0 < n" "n < w"
  shows "validate_bit_len_signed w v n = Inr () \<longleftrightarrow> - (2 ^ (n - 1)) \<le> v \<and> v < 2 ^ (n - 1)"
proof -
  have p: "(2::int) ^ (n - 1) < 2 ^ (w - 1)" using assms by (intro power_strict_increasing) auto
  have "(1::int) \<le> 2 ^ (n - 1)" by simp
  then have in_range: "in_signed w (2 ^ (n - 1) - 1) = Some (2 ^ (n - 1) - 1)"
    "in_signed w (- (2 ^ (n - 1))) = Some (- (2 ^ (n - 1)))"
    using p by (intro in_signed_Some; linarith)+
  have "\<not> w \<le> n - 1" "n - 1 \<noteq> w - 1" using assms by auto
  then have "checked_shl_one w (n - 1) = Some (2 ^ (n - 1))" unfolding checked_shl_one_def by simp
  then show ?thesis using assms(1) in_range by (auto simp: validate_bit_len_signed_def Let_def)
qed

lemma signed_bounds_above:
  assumes "0 < w" "w \<le> n" "- (2 ^ (w - 1)) \<le> v" "v < 2 ^ (w - 1)"
  shows "validate_bit_len_signed w v n = Inr ()"
proof (cases "n = w")
  case True
  have "checked_shl_one w (n - 1) = Some (- (2 ^ (w - 1)))" using assms(1) True by (simp add: checked_shl_one_def)
  then show ?thesis using assms True by (simp add: validate_bit_len_signed_def Let_def in_signed_def)
next
  case False
  then have "checked_shl_one w (n - 1) = None" using assms(2) by (simp add: checked_shl_one_def)
  then show ?thesis using assms False by (simp add: validate_bit_len_signed_def Let_def)
qed

text \<open>
  The range check of signed values is exact at every bit length, also where its shift,
  subtraction and negation overflow. For a value of a signed type of \<open>w\<close> bits and a bit length
  \<open>n\<close> it accepts exactly the values of \<open>n\<close>-bit two's complement, and every value once \<open>n\<close> reaches
  the width of the type.
\<close>

theorem validate_bit_len_signed_exact:
  assumes "0 < w" "- (2 ^ (w - 1)) \<le> v" "v < 2 ^ (w - 1)"
  shows "validate_bit_len_signed w v n = Inr () \<longleftrightarrow>
    0 < n \<and> - (2 ^ (min n w - 1)) \<le> v \<and> v < 2 ^ (min n w - 1)"
proof (cases "0 < n \<and> n < w")
  case True
  then show ?thesis using signed_bounds_below[of n w v] by (simp add: min_absorb1)
next
  case False
  then consider "n = 0" | "w \<le> n" "0 < n" by linarith
  then show ?thesis
  proof cases
    case 1
    then show ?thesis by (simp add: validate_bit_len_signed_def)
  next
    case 2
    then show ?thesis using signed_bounds_above[OF assms(1) 2(1) assms(2,3)] assms by (simp add: min_absorb2)
  qed
qed

lemma validate_bit_len_unsigned_exact:
  assumes "v < 2 ^ w"
  shows "validate_bit_len_unsigned w v n = Inr () \<longleftrightarrow> 0 < n \<and> v < 2 ^ min n w"
proof (cases "w \<le> n")
  case True
  then have "\<not> v > 2 ^ w - 1" using assms by linarith
  then show ?thesis using assms True by (simp add: validate_bit_len_unsigned_def min_absorb2)
next
  case False
  have "v > 2 ^ n - 1 \<longleftrightarrow> \<not> v < 2 ^ n" using one_le_power[of "2::nat" n] by linarith
  then show ?thesis using False by (simp add: validate_bit_len_unsigned_def min_absorb1)
qed

section \<open>Samples\<close>

definition int32_type :: diag_coded_type where
  "int32_type = \<lparr>base_datatype = Int32,
     dct_type = StandardLength \<lparr>bit_length = 32, sl_bit_mask = None, condensed = False\<rparr>,
     is_high_low_byte_order = True\<rparr>"

definition plain_scale :: compu_scale where
  "plain_scale = \<lparr>lower_limit = None, upper_limit = None, rational_coefficients = None,
     scale_consts = None, inverse_values = None\<rparr>"

text \<open>A temperature in degrees, coded with an offset of forty.\<close>

definition offset_coeffs :: compu_rational_coefficients where
  "offset_coeffs = \<lparr>numerator = [f64_of_int (-40), f64_of_int 1], denominator = []\<rparr>"

definition temperature :: compu_method where
  "temperature = \<lparr>cm_category = Linear,
     cm_scales = [plain_scale\<lparr>rational_coefficients := Some offset_coeffs\<rparr>]\<rparr>"

lemma offset_whole: "whole_coeffs offset_coeffs (-40) 1 1"
  using f64_of_int_exact[of "-40"] f64_of_int_exact[of 1] by (simp add: whole_coeffs_def offset_coeffs_def)

theorem linear_roundtrip_witness:
  "compu_convert reference_externs int32_type temperature None Linear (number_from_int (-15)) =
     Inr (int_bytes Int32 25) \<and>
   uds_data_to_serializable reference_externs Int32 (Some temperature) False (int_bytes Int32 25) =
     Inr (VInt32 (-15))"
  using linear_roundtrip[of temperature "plain_scale\<lparr>rational_coefficients := Some offset_coeffs\<rparr>"
      offset_coeffs "-40" 1 1 "-15" 25 int32_type reference_externs None] offset_whole reference_casts_exact
  by (simp add: temperature_def int32_type_def is_int_type_def int_fits_def int_value_def i32_min_def
      i32_max_def plain_scale_def within_limits_def check_numeric_limits_def)

definition off_on_scale :: "string \<Rightarrow> nat \<Rightarrow> compu_scale" where
  "off_on_scale t n = plain_scale\<lparr>
     lower_limit := Some \<lparr>limit_value = to_string n, limit_interval = Closed\<rparr>,
     upper_limit := Some \<lparr>limit_value = to_string n, limit_interval = Closed\<rparr>,
     scale_consts := Some \<lparr>cv_v = 0, cv_vt = Some t, cv_vt_ti = None\<rparr>\<rparr>"

definition off_on :: compu_method where
  "off_on = \<lparr>cm_category = TextTable, cm_scales = [off_on_scale ''off'' 0, off_on_scale ''on'' 1]\<rparr>"

theorem text_table_roundtrip_witness:
  "compu_convert reference_externs int32_type off_on None TextTable (JString ''on'') =
     Inr (int_bytes Int32 1) \<and>
   uds_data_to_serializable reference_externs Int32 (Some off_on) False (int_bytes Int32 1) =
     Inr (VString ''on'')"
proof -
  have zero: "limit_to_i32 \<lparr>limit_value = to_string 0, limit_interval = Closed\<rparr> = Inr 0"
    by (rule limit_to_int(1)) (simp_all add: i32_max_def)
  show ?thesis
    using text_table_roundtrip[of off_on "[off_on_scale ''off'' 0]" "off_on_scale ''on'' 1" "[]" int32_type 1
        "''on''" reference_externs None] zero
    by (simp add: off_on_def off_on_scale_def plain_scale_def int32_type_def is_int_type_def int_fits_def
        i32_min_def i32_max_def int_value_def text_entry_def scale_text_def within_limits_def
        check_numeric_limits_def)
qed

theorem validate_bit_len_signed_exact_witness:
  "validate_bit_len_signed 32 (-128) 8 = Inr () \<and> validate_bit_len_signed 32 128 8 \<noteq> Inr () \<and>
   validate_bit_len_signed 32 (- (2 ^ 31)) 32 = Inr ()"
  using validate_bit_len_signed_exact[of 32 "-128" 8] validate_bit_len_signed_exact[of 32 128 8]
    validate_bit_len_signed_exact[of 32 "- (2 ^ 31)" 32] by simp

section \<open>Where the conversions differ from what they mean\<close>

text \<open>
  A signed value of fewer than 32 bits loses its sign: \<open>-1\<close> in a single byte is accepted by the
  range check, its last byte is \<open>FF\<close>, and this byte is read as 255.
\<close>

lemma narrow_signed_value_unsigned:
  "validate_bit_len_signed 32 (-1) 8 = Inr ()"
  "last (i32_to_be_bytes (-1)) = 0xFF"
  "diag_data_value_new Int32 [0xFF] = Inr (VInt32 255)"
proof -
  show "validate_bit_len_signed 32 (-1) 8 = Inr ()" by code_simp
  show "last (i32_to_be_bytes (-1)) = 0xFF"
  proof -
    have "last (be_bytes (Suc n) v) = of_nat v" for n v by (induction n) simp_all
    from this[of 3] have "last (be_bytes 4 v) = of_nat v" for v by simp
    then show ?thesis by (simp add: i32_to_be_bytes_def u32_of_i32_def)
  qed
  show "diag_data_value_new Int32 [0xFF] = Inr (VInt32 255)"
  proof -
    have "u32_padded_bytes [0xFF] = Inr [0, 0, 0, 0xFF]"
      by (simp add: u32_padded_bytes_def padded_bytes_def numeral_3_eq_3)
    moreover have "be_val [0, 0, 0, 0xFF] = 255" by simp
    ultimately show ?thesis by (simp add: diag_data_value_new_def i32_from_be_bytes_def i32_of_u32_def)
  qed
qed

text \<open>
  A limit of the kind \<open>Infinite\<close> has no value, which reads as 0, and is compared like a closed
  one: no positive value is below an infinite upper limit. The other direction
  (\<open>within_phys_scale\<close>) treats it as unbounded.
\<close>

lemma infinite_limit_compared:
  "\<not> within_limits ext (VUInt32 5) (Some \<lparr>limit_value = [], limit_interval = Infinite\<rparr>) None"
proof -
  have "denotes (f64_of_int 0) 0" "denotes f64_u32_max (int u32_max)"
    unfolding f64_u32_max_def by (rule f64_of_int_exact; simp add: u32_max_def)+
  moreover have "denotes (0 :: f64) 0"
    using denotes_zero[of False] by (simp add: mk64_def fp_bits_def)
  ultimately have "limit_to_u32 \<lparr>limit_value = [], limit_interval = Infinite\<rparr> = Inr 0"
    using denotes_compare(1) denotes_finite denotes_as_int
    by (simp add: limit_to_u32_def limit_to_f64_def)
  then show ?thesis by (simp add: within_limits_def check_numeric_limits_def)
qed

text \<open>A hexadecimal text of more than four bytes for an unsigned value ends in a panic.\<close>

lemma long_hex_text_panics:
  "decode_numeric_val_from_str reference_externs ''0x0102030405''
     \<lparr>pt_precision = None, pt_base_type = UInt32, pt_display_radix = None\<rparr> int32_type = Inl Panics"
proof -
  have "has_prefix ''0x'' ''0x0102030405''" by code_simp
  moreover have "decode_hex_with_optional_prefix reference_externs ''0x0102030405'' = Inr [1, 2, 3, 4, 5]"
  proof -
    have "filter (\<lambda>v. v \<noteq> []) (split_at (\<lambda>c. c = CHR '' '' \<or> c = CHR '','') ''0x0102030405'') = [''0x0102030405'']"
      by code_simp
    moreover have "try_strip_hex_prefix ''0x0102030405'' = Some ''0102030405''" by code_simp
    moreover have "decode_hex hex_pairs ''0102030405'' = Inr [1, 2, 3, 4, 5]" by code_simp
    ultimately show ?thesis by (simp add: decode_hex_with_optional_prefix_def reference_externs_def)
  qed
  ultimately show ?thesis by (simp add: decode_numeric_val_from_str_def lift_result_def)
qed

end
