(* ===== verification/Byte_Slots.thy ===== *)
theory Byte_Slots
  imports Coded_Type_Correct
begin

text \<open>
  Several numeric parameters of whole bytes in one payload. A slot is the place of such a
  parameter; slots that do not overlap are written in any order and each keeps its value
  (\<open>DiagCodedType::encode\<close> and \<open>decode\<close> of \<open>cda-database/src/datatypes/diag_coded_type.rs\<close>).
\<close>

record byte_slot =
  slot_type :: diag_coded_type
  slot_pos :: nat
  slot_len :: nat

definition slot_ok :: "byte_slot \<Rightarrow> bool" where
  "slot_ok s \<longleftrightarrow> (\<exists>slt. dct_type (slot_type s) = StandardLength slt \<and> sl_bit_mask slt = None \<and>
     \<not> is_byte_type (base_datatype (slot_type s)) \<and>
     validate_bit_len (base_datatype (slot_type s)) (bit_length slt) = Inr () \<and>
     bit_length slt = 8 * slot_len s) \<and> slot_pos s + 8 \<le> usize_max"

definition slot_clear :: "byte_slot \<Rightarrow> byte list \<Rightarrow> bool" where
  "slot_clear s p \<longleftrightarrow>
     (\<forall>i. slot_pos s \<le> i \<and> i < slot_pos s + slot_len s \<and> i < length p \<longrightarrow> p ! i = 0)"

definition slot_holds :: "byte_slot \<Rightarrow> nat \<Rightarrow> byte list \<Rightarrow> bool" where
  "slot_holds s n p \<longleftrightarrow> slot_pos s + slot_len s \<le> length p \<and>
     decode (slot_type s) p (slot_pos s) 0 = Inr (be_bytes (slot_len s) n, 8 * slot_len s)"

definition slots_apart :: "byte_slot \<Rightarrow> byte_slot \<Rightarrow> bool" where
  "slots_apart s t \<longleftrightarrow>
     slot_pos s + slot_len s \<le> slot_pos t \<or> slot_pos t + slot_len t \<le> slot_pos s"

lemma slots_apart_sym: "slots_apart s t = slots_apart t s"
  by (auto simp: slots_apart_def)

lemma be_bytes_unique: "length r = k \<Longrightarrow> be_val r = v mod 256 ^ k \<Longrightarrow> r = be_bytes k v"
proof (induction k arbitrary: r)
  case (Suc k)
  then obtain b bs where r: "r = b # bs" "length bs = k" by (cases r) auto
  have lt: "be_val bs < 256 ^ k" using be_val_bound[of bs] r(2) by simp
  have "v mod 256 ^ Suc k = v div 256 ^ k mod 256 * 256 ^ k + v mod 256 ^ k"
    using mod_mult2_eq[of v "256 ^ k" 256] by (simp add: ac_simps)
  then have eq: "unat b * 256 ^ k + be_val bs = v div 256 ^ k mod 256 * 256 ^ k + v mod 256 ^ k"
    using Suc.prems(2) r by simp
  have "unat b = (unat b * 256 ^ k + be_val bs) div 256 ^ k" using lt by simp
  also have "\<dots> = v div 256 ^ k mod 256" unfolding eq by simp
  finally have "unat b = unat (of_nat (v div 256 ^ k) :: byte)" by (simp add: unat_of_nat)
  then have b: "b = of_nat (v div 256 ^ k)" by (rule unsigned_word_eqI)
  have "be_val bs = (unat b * 256 ^ k + be_val bs) mod 256 ^ k" using lt by simp
  also have "\<dots> = v mod 256 ^ k" unfolding eq by simp
  finally show ?case using Suc.IH[OF r(2)] b r(1) by simp
qed simp

text \<open>Writing one slot.\<close>

lemma slot_clear_target:
  assumes "slot_clear s p"
  shows "target_bits_clear d p (slot_pos s) 0 (8 * slot_len s)"
proof -
  have "cut_out p (slot_pos s) (slot_len s) = replicate (slot_len s) 0"
  proof (rule nth_equalityI)
    fix i assume "i < length (cut_out p (slot_pos s) (slot_len s))"
    then have i: "i < slot_len s" by simp
    then have "cut_out p (slot_pos s) (slot_len s) ! i =
        extend_payload p (slot_pos s + slot_len s) ! (slot_pos s + i)"
      using extend_ge[of "slot_pos s + slot_len s" p] by (simp add: cut_out_def)
    also have "\<dots> = 0"
      using assms i by (auto simp: slot_clear_def extend_payload_def resize_def nth_append)
    finally show "cut_out p (slot_pos s) (slot_len s) ! i = replicate (slot_len s) 0 ! i" using i by simp
  qed simp
  moreover have "div_ceil (0 + 8 * slot_len s) 8 = slot_len s" by (simp add: div_ceil_def)
  ultimately show ?thesis by (simp add: target_bits_clear_def)
qed

lemma slot_len_bounds:
  assumes "slot_ok s" shows "slot_len s \<le> 8" "0 < slot_len s"
  using assms by (auto simp: slot_ok_def dest: validate_bit_len_pos validate_numeric_le_64)

lemma slot_read_cong:
  assumes "slot_ok s" "slot_pos s + slot_len s \<le> length p" "length p \<le> length p'"
    and "\<And>i. slot_pos s \<le> i \<Longrightarrow> i < slot_pos s + slot_len s \<Longrightarrow> p' ! i = p ! i"
  shows "decode (slot_type s) p' (slot_pos s) 0 = decode (slot_type s) p (slot_pos s) 0"
proof -
  obtain slt where slt: "dct_type (slot_type s) = StandardLength slt" "bit_length slt = 8 * slot_len s"
    "validate_bit_len (base_datatype (slot_type s)) (bit_length slt) = Inr ()"
    using assms(1) by (auto simp: slot_ok_def)
  have "slot_len s \<le> 8" using assms(1) by (rule slot_len_bounds)
  then have u: "slot_pos s + div_ceil (bit_length slt) 8 \<le> usize_max"
    using assms(1) by (simp add: slot_ok_def slt(2) div_ceil_def)
  let ?e = "slot_pos s + div_ceil (bit_length slt) 8"
  have e: "?e = slot_pos s + slot_len s" by (simp add: slt(2) div_ceil_def)
  obtain x where x: "get_range p (slot_pos s) ?e = Some x" "x = take (slot_len s) (drop (slot_pos s) p)"
    using assms(2) by (simp add: get_range_def e)
  have "take (slot_len s) (drop (slot_pos s) p') = x"
    unfolding x(2) using assms(2-4) by (intro nth_equalityI) auto
  then have x': "get_range p' (slot_pos s) ?e = Some x" using assms(2,3) by (simp add: get_range_def e)
  have v: "validate_bit_pos (slot_type s) 0 = Inr ()" by (simp add: validate_bit_pos_def)
  show ?thesis
    using decode_standard_slice[OF slt(1) v slt(3) x(1) u] decode_standard_slice[OF slt(1) v slt(3) x' u]
    by simp
qed

text \<open>
  A clear slot is written successfully; then it holds the low bytes of the input, and every slot
  apart from it is as clear or holds the same value as before.
\<close>

lemma slot_write:
  assumes ok: "slot_ok s" and clear: "slot_clear s p"
  obtains p' where "encode (slot_type s) u p (slot_pos s) 0 = (Inr (), p')"
    "slot_holds s (be_val u) p'" "length p \<le> length p'"
    "\<And>t. slots_apart s t \<Longrightarrow> slot_clear t p \<Longrightarrow> slot_clear t p'"
    "\<And>t n. slots_apart s t \<Longrightarrow> slot_ok t \<Longrightarrow> slot_holds t n p \<Longrightarrow> slot_holds t n p'"
proof -
  let ?d = "slot_type s" and ?b = "slot_pos s" and ?k = "slot_len s"
  obtain slt where slt: "dct_type ?d = StandardLength slt" "sl_bit_mask slt = None"
    "\<not> is_byte_type (base_datatype ?d)" "validate_bit_len (base_datatype ?d) (bit_length slt) = Inr ()"
    "bit_length slt = 8 * ?k" and pos: "?b + 8 \<le> usize_max"
    using ok by (auto simp: slot_ok_def)
  have k: "div_ceil (8 * ?k) 8 = ?k" by (simp add: div_ceil_def)
  obtain p' r where e: "encode ?d u p ?b 0 = (Inr (), p')" and r: "decode ?d p' ?b 0 = Inr (r, 8 * ?k)"
    "length r = ?k" "be_val r = be_val u mod 2 ^ (8 * ?k)"
    using standard_numeric_roundtrip[OF slt(1-4), of 0 p ?b u] slot_clear_target[OF clear, of ?d] pos slt(5) k
    by auto
  have "be_val r = be_val u mod 256 ^ ?k" using r(3) by (simp add: power_mult)
  then have rb: "r = be_bytes ?k (be_val u)" using r(2) by (intro be_bytes_unique)
  have n: "div_ceil (0 + encoded_bits ?d u) 8 = ?k" by (simp add: encoded_bits_def slt(1,5) k)
  note fr = encode_keeps_outside[OF e, unfolded n]
  have len: "?b + ?k \<le> length p'"
  proof (rule ccontr)
    assume "\<not> ?b + ?k \<le> length p'"
    moreover have "?b + div_ceil (bit_length slt) 8 \<le> usize_max"
      using slot_len_bounds[OF ok] pos by (simp add: slt(5) k)
    ultimately show False
      using r(1) slot_len_bounds(2)[OF ok] slt
      by (simp add: decode_def validate_bit_pos_def pos_info_standard_len_def k saturating_add_exact)
  qed
  have outside: "p' ! i = p ! i" if "i < length p" "i < ?b \<or> ?b + ?k \<le> i" for i
    using fr that by blast
  have gap: "p' ! i = 0" if "length p \<le> i" "i < length p'" "i < ?b \<or> ?b + ?k \<le> i" for i
  proof -
    have "i < ?b" using that fr by linarith
    then show ?thesis using encode_gap[OF e that(1) _ that(2)] by blast
  qed
  show thesis
  proof (rule that[OF e])
    show "slot_holds s (be_val u) p'" using len r(1) rb by (simp add: slot_holds_def)
    show "length p \<le> length p'" using fr by blast
  next
    fix t assume t: "slots_apart s t" "slot_clear t p"
    have "p' ! i = 0" if "slot_pos t \<le> i" "i < slot_pos t + slot_len t" "i < length p'" for i
    proof -
      have "i < ?b \<or> ?b + ?k \<le> i" using t(1) that by (auto simp: slots_apart_def)
      then show ?thesis using outside[of i] gap[of i] t(2) that by (cases "i < length p") (auto simp: slot_clear_def)
    qed
    then show "slot_clear t p'" by (simp add: slot_clear_def)
  next
    fix t n assume t: "slots_apart s t" "slot_ok t" "slot_holds t n p"
    then have tl: "slot_pos t + slot_len t \<le> length p" by (simp add: slot_holds_def)
    have "decode (slot_type t) p' (slot_pos t) 0 = decode (slot_type t) p (slot_pos t) 0"
    proof (rule slot_read_cong[OF t(2) tl])
      show "length p \<le> length p'" using fr by blast
      show "p' ! i = p ! i" if "slot_pos t \<le> i" "i < slot_pos t + slot_len t" for i
        using outside[of i] t(1) that tl by (auto simp: slots_apart_def)
    qed
    then show "slot_holds t n p'" using t(3) fr by (auto simp: slot_holds_def)
  qed
qed

text \<open>Padding with zeros disturbs no slot.\<close>

lemma slot_pad:
  assumes "slot_ok s"
  shows "slot_clear s p \<Longrightarrow> slot_clear s (p @ replicate m 0)"
    and "slot_holds s n p \<Longrightarrow> slot_holds s n (p @ replicate m 0)"
proof -
  show "slot_clear s p \<Longrightarrow> slot_clear s (p @ replicate m 0)" by (auto simp: slot_clear_def nth_append)
  assume h: "slot_holds s n p"
  then have l: "slot_pos s + slot_len s \<le> length p" by (simp add: slot_holds_def)
  have "decode (slot_type s) (p @ replicate m 0) (slot_pos s) 0 = decode (slot_type s) p (slot_pos s) 0"
    by (rule slot_read_cong[OF assms l]) (use l in \<open>simp_all add: nth_append\<close>)
  then show "slot_holds s n (p @ replicate m 0)" using h by (simp add: slot_holds_def)
qed

end
