(* ===== verification/Response_Json.thy ===== *)
theory Response_Json
  imports Response_Conversion
begin

text \<open>
  What a converted response is read as (\<open>DiagServiceResponseStruct\<close> of
  \<open>cda-core/src/diag_kernel/diagservices.rs\<close>): the JSON document of its parameters, with the errors of
  single fields collected on the way, the diagnostic trouble codes it holds and the negative
  response code it carries, named after \<open>iso_14229_nrc.rs\<close>. A \<open>HashMap\<close> is the list of its entries
  in the order it is iterated.
\<close>

section \<open>JSON of a value\<close>

definition float_to_json :: "f64 \<Rightarrow> json" where
  "float_to_json f = (case number_from_f64 f of None \<Rightarrow> JNull | Some n \<Rightarrow> JNumber n)"

fun value_to_json :: "diag_data_value \<Rightarrow> json" where
  "value_to_json (VInt32 z) = number_from_int z"
| "value_to_json (VUInt32 n) = JNumber (PosInt n)"
| "value_to_json (VFloat32 f) = float_to_json (f64_of_f32 f)"
| "value_to_json (VString s) = JString s"
| "value_to_json (VByteField bs) = JString (join '' '' (map (\<lambda>b. fmt_hex_prefixed 4 (unat b)) bs))"
| "value_to_json (VFloat64 f) = float_to_json f"
| "value_to_json (VStruct fs) = JObject (map (\<lambda>(k, v). (k, value_to_json v)) fs)"
| "value_to_json (VRepeatingStruct items) =
     JArray (map (\<lambda>fs. JObject (map (\<lambda>(k, v). (k, value_to_json v)) fs)) items)"

section \<open>The JSON document of a response\<close>

record json_response =
  json_data :: json
  json_errors :: "field_parse_error list"

text \<open>A computation that may fail and that adds to the list of field errors either way.\<close>

type_synonym 'a collecting = "'a run \<times> field_parse_error list"

definition create_dtc :: "dtc_container \<Rightarrow> diag_data_value" where
  "create_dtc d = VStruct (
     hm_insert ''severity'' (VUInt32 (dtc_severity d))
       (hm_insert ''fault_name'' (VString (dtc_fault_name d))
         ((case dtc_display_code d of
             None \<Rightarrow> id | Some s \<Rightarrow> hm_insert ''display_code'' (VString s))
           (hm_insert ''code'' (VUInt32 (dtc_code d)) []))))"

abbreviation fields_size :: "(string \<times> container) list \<Rightarrow> nat" where
  "fields_size \<equiv> size_list (size_prod (\<lambda>_. 0) size)"

function (sequential) create_struct ::
    "externs \<Rightarrow> (string \<times> container) list \<Rightarrow> (string \<times> diag_data_value) list \<Rightarrow>
     field_parse_error list \<Rightarrow> string \<Rightarrow> (string \<times> diag_data_value) list collecting"
  and create_items ::
    "externs \<Rightarrow> (string \<times> container) list list \<Rightarrow> (string \<times> diag_data_value) list list \<Rightarrow>
     field_parse_error list \<Rightarrow> string \<Rightarrow> (string \<times> diag_data_value) list list collecting" where
  "create_struct ext [] inner_mapped errors path = (Inr inner_mapped, errors)"
| "create_struct ext ((k, v) # hash_map) inner_mapped errors path =
     (case (case v of
          RawContainer raw \<Rightarrow>
            (uds_data_to_serializable ext (rc_data_type raw) (rc_compu_method raw) False (rc_data raw), errors)
        | StructContainer s \<Rightarrow> (case create_struct ext s [] errors (path @ ''/'' @ k) of
              (Inr nested_mapped, errors') \<Rightarrow> (Inr (VStruct nested_mapped), errors')
            | (Inl (Fail (DataError e)), errors') \<Rightarrow>
                (Inr (VStruct []), errors' @ [\<lparr>error_path = path @ ''/'' @ k, field_error = e\<rparr>])
            | (Inl f, errors') \<Rightarrow> (Inl f, errors'))
        | RepeatingStruct items \<Rightarrow> (case create_items ext items [] errors (path @ ''/'' @ k) of
              (Inr nested_vec, errors') \<Rightarrow> (Inr (VRepeatingStruct nested_vec), errors')
            | (Inl f, errors') \<Rightarrow> (Inl f, errors'))
        | DtcStruct d \<Rightarrow> (Inr (create_dtc d), errors)) of
       (Inl f, errors') \<Rightarrow> (Inl f, errors')
     | (Inr val, errors') \<Rightarrow> create_struct ext hash_map (hm_insert k val inner_mapped) errors' path)"
| "create_items ext [] nested_vec errors path = (Inr nested_vec, errors)"
| "create_items ext (inner_hash_map # vec) nested_vec errors path =
     (case create_struct ext inner_hash_map [] errors path of
       (Inr inner_mapped, errors') \<Rightarrow> create_items ext vec (nested_vec @ [inner_mapped]) errors' path
     | (Inl (Fail (DataError e)), errors') \<Rightarrow>
         create_items ext vec nested_vec (errors' @ [\<lparr>error_path = path, field_error = e\<rparr>]) path
     | (Inl f, errors') \<Rightarrow> (Inl f, errors'))"
  by pat_completeness auto
termination
  by (relation "measure (\<lambda>x. case x of
      Inl (_, fs, _, _, _) \<Rightarrow> fields_size fs
    | Inr (_, items, _, _, _) \<Rightarrow> size_list fields_size items)") auto

fun map_items ::
  "externs \<Rightarrow> (string \<times> container) list list \<Rightarrow> (string \<times> diag_data_value) list list \<Rightarrow>
   field_parse_error list \<Rightarrow> string \<Rightarrow> (string \<times> diag_data_value) list list collecting" where
  "map_items ext [] mapped errors path = (Inr mapped, errors)"
| "map_items ext (hash_map # vec) mapped errors path =
     (case create_struct ext hash_map [] errors path of
       (Inr inner_mapped, errors') \<Rightarrow> map_items ext vec (mapped @ [inner_mapped]) errors' path
     | (Inl f, errors') \<Rightarrow> (Inl f, errors'))"

fun map_data ::
  "externs \<Rightarrow> container \<Rightarrow> field_parse_error list \<Rightarrow> string \<Rightarrow> diag_data_value collecting" where
  "map_data ext (RawContainer raw) errors path =
     (uds_data_to_serializable ext (rc_data_type raw) (rc_compu_method raw) False (rc_data raw), errors)"
| "map_data ext (StructContainer hash_map) errors path =
     (case create_struct ext hash_map [] errors path of
       (Inr mapped, errors') \<Rightarrow> (Inr (VStruct mapped), errors')
     | (Inl f, errors') \<Rightarrow> (Inl f, errors'))"
| "map_data ext (RepeatingStruct vec) errors path =
     (case map_items ext vec [] errors path of
       (Inr mapped, errors') \<Rightarrow> (Inr (VRepeatingStruct mapped), errors')
     | (Inl f, errors') \<Rightarrow> (Inl f, errors'))"
| "map_data ext (DtcStruct d) errors path = (Inr (create_dtc d), errors)"

text \<open>The fields of the response, those with a \<open>DataError\<close> left out and reported.\<close>

fun map_fields ::
  "externs \<Rightarrow> mapped \<Rightarrow> (string \<times> diag_data_value) list \<Rightarrow> field_parse_error list \<Rightarrow>
   (string \<times> diag_data_value) list collecting" where
  "map_fields ext [] acc errors = (Inr acc, errors)"
| "map_fields ext ((k, v) # data) acc errors =
     (case map_data ext v errors (''/'' @ k) of
       (Inr m, errors') \<Rightarrow> map_fields ext data (hm_insert k m acc) errors'
     | (Inl (Fail (DataError e)), errors') \<Rightarrow>
         map_fields ext data acc (errors' @ [\<lparr>error_path = ''/'' @ k, field_error = e\<rparr>])
     | (Inl f, errors') \<Rightarrow> (Inl f, errors'))"

definition get_mapped_payload :: "diag_response \<Rightarrow> mapped_response diag_result" where
  "get_mapped_payload r =
     ok_or (mapped_data r) (BadPayload ''Raw payload cannot be serialized to JSON'')"

definition serialize_to_json :: "externs \<Rightarrow> diag_response \<Rightarrow> json_response run" where
  "serialize_to_json ext r =
     bindE (lift_result (get_mapped_payload r)) (\<lambda>payload.
       if mapped_fields payload = [] then Inr \<lparr>json_data = JNull, json_errors = mapped_errors payload\<rparr>
       else (case map_fields ext (mapped_fields payload) [] (mapped_errors payload) of
           (Inr mapped, errors) \<Rightarrow> Inr \<lparr>json_data = value_to_json (VStruct mapped), json_errors = errors\<rparr>
         | (Inl f, errors) \<Rightarrow> Inl f))"

section \<open>Negative responses\<close>

record mapped_nrc =
  nrc_code :: "byte option"
  nrc_description :: "string option"
  nrc_sid :: "byte option"
definition extract_nrc_from_raw_data :: "byte list \<Rightarrow> mapped_nrc diag_result" where
  "extract_nrc_from_raw_data bs =
     (case (get bs 0, get bs 1, get bs 2) of
        (Some first_byte, Some sid_byte, Some nrc_byte) \<Rightarrow>
          if first_byte \<noteq> NEGATIVE_RESPONSE
          then Inl (UnexpectedResponse (Some ''First byte is not NEGATIVE_RESPONSE''))
          else if length bs > 3
          then Inl (UnexpectedResponse (Some ''Negative response data has extra bytes''))
          else Inr \<lparr>nrc_code = Some nrc_byte, nrc_description = Some (get_nrc_code nrc_byte),
                    nrc_sid = Some sid_byte\<rparr>
      | _ \<Rightarrow> Inl (UnexpectedResponse (Some ''Negative response data is too short'')))"

text \<open>The code and its text from the parameter \<open>NRC\<close>.\<close>

definition nrc_of_container :: "externs \<Rightarrow> container \<Rightarrow> (byte \<times> string) option run" where
  "nrc_of_container ext c = (case c of
      RawContainer nrc \<Rightarrow> (case get (rc_data nrc) 0 of
          None \<Rightarrow> Inr None
        | Some raw \<Rightarrow>
            (case uds_data_to_serializable ext (rc_data_type nrc) (rc_compu_method nrc) True (rc_data nrc) of
               Inr (VString v) \<Rightarrow> Inr (Some (raw, v))
             | Inr _ \<Rightarrow> Inr (Some (raw, ''N/A''))
             | Inl (Fail _) \<Rightarrow> Inr (Some (raw, ''Unknown''))
             | Inl f \<Rightarrow> Inl f))
    | _ \<Rightarrow> Inr None)"

definition sid_of_container :: "container \<Rightarrow> byte option" where
  "sid_of_container c = (case c of RawContainer sid \<Rightarrow> get (rc_data sid) 0 | _ \<Rightarrow> None)"

definition as_nrc :: "externs \<Rightarrow> diag_response \<Rightarrow> mapped_nrc run" where
  "as_nrc ext r = (case mapped_data r of
      None \<Rightarrow> lift_result (extract_nrc_from_raw_data (response_data r))
    | Some d \<Rightarrow>
        bindE (case map_of (mapped_fields d) ''NRC'' of
            None \<Rightarrow> Inr None | Some c \<Rightarrow> nrc_of_container ext c) (\<lambda>found.
        let sid = Option.bind (map_of (mapped_fields d) ''SIDRQ_NR'') sid_of_container
        in Inr \<lparr>nrc_code = map_option fst found, nrc_description = map_option snd found, nrc_sid = sid\<rparr>))"

section \<open>Trouble codes\<close>

record dtc_field =
  field_bit_pos :: nat
  field_bit_len :: nat
  field_byte_pos :: nat

record dtc_record =
  record_code :: nat
  record_display_code :: "string option"
  record_fault_name :: string
  record_severity :: nat

text \<open>The inner function \<open>get\<close>: \<open>None\<close> for a plain value.\<close>

fun container_dtcs :: "container \<Rightarrow> dtc_container list option" where
  "container_dtcs (DtcStruct d) = Some [d]"
| "container_dtcs (StructContainer s) =
     Some (concat (map (\<lambda>(k, c). case container_dtcs c of None \<Rightarrow> [] | Some ds \<Rightarrow> ds) s))"
| "container_dtcs (RepeatingStruct r) =
     Some (concat (concat (map (\<lambda>m. map (\<lambda>(k, c). case container_dtcs c of None \<Rightarrow> [] | Some ds \<Rightarrow> ds) m) r)))"
| "container_dtcs (RawContainer raw) = None"

definition dtc_entry :: "dtc_container \<Rightarrow> dtc_field \<times> dtc_record" where
  "dtc_entry d = (\<lparr>field_bit_pos = dtc_bit_pos d, field_bit_len = dtc_bit_len d, field_byte_pos = dtc_byte_pos d\<rparr>,
     \<lparr>record_code = dtc_code d, record_display_code = dtc_display_code d,
      record_fault_name = dtc_fault_name d, record_severity = dtc_severity d\<rparr>)"

definition get_dtcs :: "diag_response \<Rightarrow> (dtc_field \<times> dtc_record) list diag_result" where
  "get_dtcs r =
     bindE (ok_or (mapped_data r) (BadPayload ''No mapped data available'')) (\<lambda>d.
       Inr (concat (map (\<lambda>(k, c). case container_dtcs c of
           None \<Rightarrow> [] | Some ds \<Rightarrow> map dtc_entry ds) (mapped_fields d))))"

section \<open>The document without the bookkeeping of errors\<close>

lemma collect_results_cong [fundef_cong]:
  "xs = ys \<Longrightarrow> (\<And>x. x \<in> set ys \<Longrightarrow> f x = g x) \<Longrightarrow> collect_results f xs = collect_results g ys"
  by (induction ys arbitrary: xs) auto

lemma snd_size: "size (snd f) \<le> size_prod (\<lambda>_. 0) size f"
  by (cases f) simp

lemma field_size: "f \<in> set fs \<Longrightarrow> size (snd f) \<le> fields_size fs"
  using size_list_estimation'[of f fs "size (snd f)" "size_prod (\<lambda>_. 0) size"] snd_size by blast

text \<open>
  The reference: the value of a container is the value of its bytes, of its fields or of its
  items, and the first failure is the failure of the whole.
\<close>

function container_value :: "externs \<Rightarrow> container \<Rightarrow> diag_data_value run" where
  "container_value ext (RawContainer raw) =
     uds_data_to_serializable ext (rc_data_type raw) (rc_compu_method raw) False (rc_data raw)"
| "container_value ext (StructContainer fs) =
     bindE (collect_results (\<lambda>f. bindE (container_value ext (snd f)) (\<lambda>v. Inr (fst f, v))) fs)
       (\<lambda>vs. Inr (VStruct (hm_extend [] vs)))"
| "container_value ext (RepeatingStruct items) =
     bindE (collect_results (\<lambda>fs.
         bindE (collect_results (\<lambda>f. bindE (container_value ext (snd f)) (\<lambda>v. Inr (fst f, v))) fs)
           (\<lambda>vs. Inr (hm_extend [] vs))) items)
       (\<lambda>vss. Inr (VRepeatingStruct vss))"
| "container_value ext (DtcStruct d) = Inr (create_dtc d)"
  by pat_completeness auto
termination
proof (relation "measure (\<lambda>(ext, c). size c)")
  fix fs :: "(string \<times> container) list" and f and ext :: externs
  assume "f \<in> set fs"
  then show "((ext, snd f), (ext, StructContainer fs)) \<in> measure (\<lambda>(ext, c). size c)"
    using field_size[of f fs] by (simp add: less_Suc_eq_le)
next
  fix items :: "(string \<times> container) list list" and fs f and ext :: externs
  assume "fs \<in> set items" "f \<in> set fs"
  then show "((ext, snd f), (ext, RepeatingStruct items)) \<in> measure (\<lambda>(ext, c). size c)"
    using field_size[of f fs] size_list_estimation'[of fs items "size (snd f)" fields_size]
    by (simp add: less_Suc_eq_le)
qed simp

definition fields_value :: "externs \<Rightarrow> (string \<times> container) list \<Rightarrow> (string \<times> diag_data_value) list run" where
  "fields_value ext fs = collect_results (\<lambda>f. bindE (container_value ext (snd f)) (\<lambda>v. Inr (fst f, v))) fs"

lemma fields_value_simps [simp]:
  "fields_value ext [] = Inr []"
  "fields_value ext ((k, c) # fs) = bindE (container_value ext c) (\<lambda>v.
     bindE (fields_value ext fs) (\<lambda>vs. Inr ((k, v) # vs)))"
  by (cases "container_value ext c"; simp add: fields_value_def)+

lemma container_value_struct [simp]:
  "container_value ext (StructContainer fs) = bindE (fields_value ext fs) (\<lambda>vs. Inr (VStruct (hm_extend [] vs)))"
  "container_value ext (RepeatingStruct items) =
     bindE (collect_results (\<lambda>fs. bindE (fields_value ext fs) (\<lambda>vs. Inr (hm_extend [] vs))) items)
       (\<lambda>vss. Inr (VRepeatingStruct vss))"
  by (simp_all add: fields_value_def)

declare container_value.simps(2,3) [simp del]

lemma hm_extend_simps [simp]:
  "hm_extend m [] = m" "hm_extend m ((k, v) # vs) = hm_extend (hm_insert k v m) vs"
  by (simp_all add: hm_extend_def)

lemma tame_collect [tame_intros]: "(\<And>x. x \<in> set xs \<Longrightarrow> tame (f x)) \<Longrightarrow> tame (collect_results f xs)"
  by (induction xs) (auto intro!: tame_bindE)

lemma fields_value_tameI: "(\<And>f. f \<in> set fs \<Longrightarrow> tame (container_value ext (snd f))) \<Longrightarrow> tame (fields_value ext fs)"
  unfolding fields_value_def by (auto intro!: tame_intros)

lemma container_value_tame: "tame (container_value ext c)"
proof (induction ext c rule: container_value.induct)
  case (2 ext fs)
  then show ?case by (auto intro!: tame_bindE fields_value_tameI)
next
  case (3 ext items)
  then show ?case by (auto intro!: tame_bindE tame_collect fields_value_tameI)
qed (auto intro: tame_intros)

lemma fields_value_tame: "tame (fields_value ext fs)"
  by (rule fields_value_tameI) (rule container_value_tame)

lemma create_struct_value:
  "create_struct ext fs acc errors path =
     (case fields_value ext fs of Inr vs \<Rightarrow> (Inr (hm_extend acc vs), errors) | Inl f \<Rightarrow> (Inl f, errors))"
  "create_items ext items accs errors path =
     (case collect_results (\<lambda>fs. bindE (fields_value ext fs) (\<lambda>vs. Inr (hm_extend [] vs))) items of
        Inr vss \<Rightarrow> (Inr (accs @ vss), errors) | Inl f \<Rightarrow> (Inl f, errors))"
proof (induction ext fs acc errors path and ext items accs errors path rule: create_struct_create_items.induct)
  case (2 ext k v hash_map inner_mapped errors path)
  have t: "tame (container_value ext v)" by (rule container_value_tame)
  show ?case
  proof (cases v)
    case (StructContainer s)
    then show ?thesis using 2 t
      by (cases "fields_value ext s"; cases "fields_value ext hash_map")
        (auto simp: tame_def ordinary_def split: diag_service_error.splits failure.splits)
  next
    case (RepeatingStruct items)
    then show ?thesis using 2
      by (cases "collect_results (\<lambda>fs. bindE (fields_value ext fs) (\<lambda>vs. Inr (hm_extend [] vs))) items";
          cases "fields_value ext hash_map") auto
  qed (use 2 in \<open>auto split: sum.splits\<close>)
next
  case (4 ext inner_hash_map vec nested_vec errors path)
  show ?case using 4 fields_value_tame[of ext inner_hash_map]
    by (cases "fields_value ext inner_hash_map")
      (auto simp: tame_def ordinary_def split: sum.splits diag_service_error.splits)
qed simp_all

lemma map_items_value:
  "map_items ext items accs errors path =
     (case collect_results (\<lambda>fs. bindE (fields_value ext fs) (\<lambda>vs. Inr (hm_extend [] vs))) items of
        Inr vss \<Rightarrow> (Inr (accs @ vss), errors) | Inl f \<Rightarrow> (Inl f, errors))"
proof (induction items arbitrary: accs)
  case (Cons fs items)
  then show ?case by (cases "fields_value ext fs") (auto simp: create_struct_value split: sum.splits)
qed simp

lemma map_data_value: "map_data ext c errors path = (container_value ext c, errors)"
proof (cases c)
  case (StructContainer fs)
  then show ?thesis by (cases "fields_value ext fs") (simp_all add: create_struct_value)
next
  case (RepeatingStruct items)
  then show ?thesis
    by (cases "collect_results (\<lambda>fs. bindE (fields_value ext fs) (\<lambda>vs. Inr (hm_extend [] vs))) items")
      (simp_all add: map_items_value)
qed simp_all

lemma map_fields_value:
  "map_fields ext fs acc errors =
     (case fields_value ext fs of Inr vs \<Rightarrow> (Inr (hm_extend acc vs), errors) | Inl f \<Rightarrow> (Inl f, errors))"
proof (induction fs arbitrary: acc)
  case (Cons f fs)
  obtain k c where f: "f = (k, c)" by fastforce
  show ?case using Cons container_value_tame[of ext c] unfolding f
    by (cases "container_value ext c")
      (auto simp: map_data_value tame_def ordinary_def split: sum.splits diag_service_error.splits)
qed simp

text \<open>
  C28: The JSON document of a response is its fields, each with the value its bytes stand for:
  \<open>serialize_to_json\<close> agrees on every response with the plain recursion over its containers. The
  errors it reports are those of the decoding, since no value of a field fails with a \<open>DataError\<close>;
  any other failure of a value is the failure of the whole document, and a response with no decoded
  parameters is \<open>null\<close>. The documentation of \<open>DiagServiceJsonResponse\<close> has the fields whose data
  could not be interpreted in the list of errors; the code adds none there.\<close>

theorem serialize_to_json_correct:
  "serialize_to_json ext r = (case mapped_data r of
      None \<Rightarrow> Inl (Fail (BadPayload ''Raw payload cannot be serialized to JSON''))
    | Some d \<Rightarrow>
        if mapped_fields d = [] then Inr \<lparr>json_data = JNull, json_errors = mapped_errors d\<rparr>
        else bindE (container_value ext (StructContainer (mapped_fields d))) (\<lambda>v.
          Inr \<lparr>json_data = value_to_json v, json_errors = mapped_errors d\<rparr>))"
  by (cases "mapped_data r")
    (auto simp: serialize_to_json_def get_mapped_payload_def lift_result_def map_fields_value
      split: sum.splits)

section \<open>Trouble codes are those the response holds\<close>

inductive holds_dtc :: "container \<Rightarrow> dtc_container \<Rightarrow> bool" where
  here: "holds_dtc (DtcStruct d) d"
| in_field: "(k, c) \<in> set fs \<Longrightarrow> holds_dtc c d \<Longrightarrow> holds_dtc (StructContainer fs) d"
| in_item: "fs \<in> set items \<Longrightarrow> (k, c) \<in> set fs \<Longrightarrow> holds_dtc c d \<Longrightarrow> holds_dtc (RepeatingStruct items) d"

inductive_simps holds_dtc_simps [simp]:
  "holds_dtc (DtcStruct x) d" "holds_dtc (StructContainer fs) d" "holds_dtc (RepeatingStruct items) d"
  "holds_dtc (RawContainer raw) d"

lemma container_dtcs_set:
  "set (case container_dtcs c of None \<Rightarrow> [] | Some ds \<Rightarrow> ds) = {d. holds_dtc c d}"
  by (induction c rule: container_dtcs.induct) (fastforce split: option.splits)+

lemma get_dtcs_complete:
  assumes "mapped_data r = Some d"
  shows "\<exists>ds. get_dtcs r = Inr ds \<and> set ds = {dtc_entry x | x k c. (k, c) \<in> set (mapped_fields d) \<and> holds_dtc c x}"
proof -
  define entries where "entries c = (case container_dtcs c of None \<Rightarrow> [] | Some ds \<Rightarrow> map dtc_entry ds)" for c
  have "set (entries c) = dtc_entry ` {x. holds_dtc c x}" for c
    unfolding container_dtcs_set[symmetric] entries_def by (cases "container_dtcs c") simp_all
  moreover have "get_dtcs r = Inr (concat (map (\<lambda>(k, c). entries c) (mapped_fields d)))"
    using assms by (simp add: get_dtcs_def entries_def)
  ultimately show ?thesis by auto
qed

section \<open>Negative response codes\<close>

lemma extract_nrc_exact:
  "extract_nrc_from_raw_data bs = Inr n \<longleftrightarrow> (\<exists>sid val. bs = [NEGATIVE_RESPONSE, sid, val] \<and>
     n = \<lparr>nrc_code = Some val, nrc_description = Some (get_nrc_code val), nrc_sid = Some sid\<rparr>)"
proof (cases "\<exists>a b c rest. bs = a # b # c # rest")
  case True
  then show ?thesis by (auto simp: extract_nrc_from_raw_data_def get_def)
next
  case False
  then have "length bs < 3" by (cases bs; cases "tl bs"; cases "tl (tl bs)") auto
  then show ?thesis by (auto simp: extract_nrc_from_raw_data_def get_def split: option.splits)
qed

lemma as_nrc_returns: "mapped_data r \<noteq> None \<Longrightarrow> \<exists>n. as_nrc ext r = Inr n"
proof -
  have "\<exists>x. nrc_of_container ext c = Inr x" for c
  proof (cases c)
    case (RawContainer raw)
    then show ?thesis
      using serializable_tame[of ext "rc_data_type raw" "rc_compu_method raw" True "rc_data raw"]
      by (auto simp: nrc_of_container_def tame_def ordinary_def split: option.splits sum.splits diag_data_value.splits)
  qed (simp_all add: nrc_of_container_def)
  then have "\<exists>found. (case map_of m ''NRC'' of None \<Rightarrow> Inr None | Some c \<Rightarrow> nrc_of_container ext c) = Inr found" for m
    by (auto split: option.splits)
  then show "mapped_data r \<noteq> None \<Longrightarrow> \<exists>n. as_nrc ext r = Inr n"
    by (auto simp: as_nrc_def Let_def result_simps split: option.splits)
qed

section \<open>Values have the type of their parameter\<close>

fun value_has_type :: "data_type \<Rightarrow> diag_data_value \<Rightarrow> bool" where
  "value_has_type Int32 (VInt32 z) \<longleftrightarrow> - (2 ^ 31) \<le> z \<and> z < 2 ^ 31"
| "value_has_type UInt32 (VUInt32 n) \<longleftrightarrow> n < 2 ^ 32"
| "value_has_type Float32 (VFloat32 f) \<longleftrightarrow> True"
| "value_has_type Float64 (VFloat64 f) \<longleftrightarrow> True"
| "value_has_type ByteField (VByteField bs) \<longleftrightarrow> True"
| "value_has_type AsciiString (VString s) \<longleftrightarrow> True"
| "value_has_type Utf8String (VString s) \<longleftrightarrow> True"
| "value_has_type Unicode2String (VString s) \<longleftrightarrow> True"
| "value_has_type _ _ \<longleftrightarrow> False"

text \<open>What the casts of \<open>num_traits\<close> promise: a number of a 32 bit type is in its range.\<close>

definition casts_in_range :: "externs \<Rightarrow> bool" where
  "casts_in_range ext \<longleftrightarrow>
     (\<forall>x z. to_i32 ext x = Some z \<longrightarrow> - (2 ^ 31) \<le> z \<and> z < 2 ^ 31) \<and>
     (\<forall>x n. to_u32 ext x = Some n \<longrightarrow> n < 2 ^ 32)"

lemma lift_result_Inr [simp]: "lift_result r = Inr x \<longleftrightarrow> r = Inr x"
  by (cases r) (simp_all add: lift_result_def)

lemma i32_of_u32_range: "n < 2 ^ 32 \<Longrightarrow> - (2 ^ 31) \<le> i32_of_u32 n \<and> i32_of_u32 n < 2 ^ 31"
  by (simp add: i32_of_u32_def)

lemma u32_padded_range: "u32_padded_bytes bs = Inr b \<Longrightarrow> be_val b < 2 ^ 32"
  using be_val_bound[of b] by (auto simp: u32_padded_bytes_def padded_bytes_def split: if_splits)

lemma value_new_typed: "diag_data_value_new dt bs = Inr v \<Longrightarrow> value_has_type dt v"
  using i32_of_u32_range u32_padded_range
  by (cases dt) (fastforce simp: diag_data_value_new_def i32_from_be_bytes_def result_simps)+

lemma from_number_typed: "casts_in_range ext \<Longrightarrow> from_number ext x dt = Inr v \<Longrightarrow> value_has_type dt v"
  by (cases dt) (auto simp: from_number_def casts_in_range_def result_simps)

lemma linear_typed:
  assumes "casts_in_range ext"
  shows "compu_lookup_linear ext dt cm l s = Inr v \<Longrightarrow> value_has_type dt v"
    and "compu_lookup_scale_linear ext dt l s = Inr v \<Longrightarrow> value_has_type dt v"
  using from_number_typed[OF assms]
  by (auto simp: compu_lookup_linear_def compu_lookup_scale_linear_def result_simps split: if_splits)

lemma text_table_typed: "compu_lookup_text_table s = Inr v \<Longrightarrow> \<exists>t. v = VString t"
  by (auto simp: compu_lookup_text_table_def result_simps)

text \<open>
  The value of a parameter has the type its coded type declares: a 32 bit integer in the range
  of its signedness, a float of its width, bytes or a text, also after the conversion of its
  computation method. The exceptions are texts: of a parameter without bytes, of a text table and
  of a negative response code.\<close>

theorem parameter_value_typed:
  assumes "uds_data_to_serializable ext dt cm neg bs = Inr v" "casts_in_range ext"
  shows "value_has_type dt v \<or>
    (\<exists>t. v = VString t) \<and> (bs = [] \<or> neg \<or> (\<exists>m. cm = Some m \<and> cm_category m = TextTable))"
proof (cases "bs = [] \<or> (\<forall>m. cm = Some m \<longrightarrow> cm_category m = Identical)")
  case True
  then show ?thesis using assms(1) value_new_typed[of dt bs v]
    by (auto simp: uds_data_to_serializable_def split: option.splits if_splits)
next
  case False
  then obtain m where m: "cm = Some m" "compu_lookup ext dt m (cm_category m) neg bs = Inr v"
    using assms(1) by (auto simp: uds_data_to_serializable_def split: option.splits if_splits)
  obtain l where l: "diag_data_value_new dt bs = Inr l"
    using m(2) by (auto simp: compu_lookup_def result_simps split: if_splits)
  then have read: "lift_result (diag_data_value_new dt bs) = Inr l" by simp
  show ?thesis
  proof (cases "find (\<lambda>s. within_limits ext l (upper_limit s) (lower_limit s)) (cm_scales m)")
    case None
    then show ?thesis using m value_new_typed[OF l] by (auto simp: compu_lookup_def read result_simps split: if_splits)
  next
    case (Some s)
    then show ?thesis using m linear_typed[OF assms(2)] text_table_typed[of s v]
      by (cases "cm_category m") (auto simp: compu_lookup_def read split: if_splits)
  qed
qed

lemma reference_casts_in_range: "casts_in_range reference_externs"
  by (auto simp: casts_in_range_def reference_externs_def whole_between_def i32_min_def i32_max_def u32_max_def
      split: bind_splits if_splits)

theorem parameter_value_typed_witness:
  "\<exists>v. uds_data_to_serializable reference_externs Int32 None False [0xFF, 0xFF, 0xFF, 0xF1] = Inr v \<and>
     value_has_type Int32 v"
proof -
  have "uds_data_to_serializable reference_externs Int32 None False [0xFF, 0xFF, 0xFF, 0xF1] = Inr (VInt32 (-15))"
    by (simp add: uds_data_to_serializable_def lift_result_def diag_data_value_new_def u32_padded_bytes_def
        padded_bytes_def i32_from_be_bytes_def i32_of_u32_def)
  then show ?thesis using parameter_value_typed[OF _ reference_casts_in_range] by fastforce
qed

end
