(* ===== verification/Message_Roundtrip.thy ===== *)
theory Message_Roundtrip
  imports Payload_Encode Compu_Correct Byte_Slots Response_Json
begin

text \<open>
  A request that is encoded (\<open>create_uds_payload\<close>) and decoded again
  (\<open>convert_request_from_uds\<close>) has the values it was made of, for requests of constants and of
  numeric values of whole bytes that do not overlap, up to the JSON document of the decoded request.
\<close>

section \<open>Fields of a message\<close>

text \<open>The place of a parameter in the message.\<close>

definition coded_type_in :: "param \<Rightarrow> diag_coded_type option" where
  "coded_type_in p = (case p_specific p of
      CodedConstData c \<Rightarrow> Option.bind (cc_diag_coded_type c) (\<lambda>t. ok_option (diag_coded_type_try_from t))
    | ValueData dflt (Some (NormalDop nd)) \<Rightarrow> ok_option (nd_coded_type nd)
    | _ \<Rightarrow> None)"

definition param_slot :: "param \<Rightarrow> byte_slot \<Rightarrow> bool" where
  "param_slot p s \<longleftrightarrow> coded_type_in p = Some (slot_type s) \<and> p_byte_position p = Some (slot_pos s) \<and>
     bit_position p = 0 \<and> slot_ok s"

definition const_param :: "param \<Rightarrow> byte_slot \<Rightarrow> nat \<Rightarrow> bool" where
  "const_param p s n \<longleftrightarrow> p_type p = 0 \<and>
     (\<exists>c. p_specific p = CodedConstData c \<and> cc_coded_value c = Some (to_string n)) \<and>
     base_datatype (slot_type s) = UInt32 \<and> slot_len s \<le> 4 \<and> n < 256 ^ slot_len s"

definition value_param :: "param \<Rightarrow> normal_dop \<Rightarrow> bool" where
  "value_param p nd \<longleftrightarrow> p_type p = 11 \<and> (\<exists>dflt. p_specific p = ValueData dflt (Some (NormalDop nd))) \<and>
     nd_compu_method nd \<noteq> None"

text \<open>The bytes the encoder makes of a parameter, before they are cut to its length.\<close>

definition carries :: "externs \<Rightarrow> json_map \<Rightarrow> param \<Rightarrow> byte_slot \<Rightarrow> byte list \<Rightarrow> bool" where
  "carries ext vals p s u \<longleftrightarrow>
     (\<exists>n. const_param p s n \<and> u = u32_to_be_bytes n) \<or>
     (\<exists>nd name v. value_param p nd \<and> p_short_name p = Some name \<and> map_of vals name = Some v \<and>
        json_value_to_uds_data ext (slot_type s) (nd_compu_method nd) (nd_physical_type nd) v = Inr u)"

definition request_layout ::
  "externs \<Rightarrow> json_map \<Rightarrow> (param \<Rightarrow> byte_slot) \<Rightarrow> (param \<Rightarrow> byte list) \<Rightarrow> param list \<Rightarrow> bool" where
  "request_layout ext vals slot u ps \<longleftrightarrow>
     (\<forall>p \<in> set ps. p_short_name p \<noteq> None \<and> param_slot p (slot p) \<and> carries ext vals p (slot p) (u p)) \<and>
     sorted_wrt (\<lambda>p q. slots_apart (slot p) (slot q)) ps \<and> distinct (map p_short_name ps)"

lemma param_slot_facts:
  assumes "param_slot p s"
  shows "byte_position p = slot_pos s" "has_byte_position p" "bit_position p = 0" "slot_ok s"
  using assms by (simp_all add: param_slot_def byte_position_def has_byte_position_def)

section \<open>Writing the fields\<close>

text \<open>
  A pass over parameters in which some write their slot, possibly after padding, and the others
  at most pad: every written slot holds its value afterwards, and slots apart from the written
  ones are undisturbed.
\<close>

lemma write_pass:
  assumes "\<And>q p. q \<in> set qs \<Longrightarrow> writes q \<Longrightarrow>
      \<exists>m. f q p = encode_at (slot_type (slot q)) (u q) (slot_pos (slot q)) 0 (p @ replicate m 0)"
    and "\<And>q p. q \<in> set qs \<Longrightarrow> \<not> writes q \<Longrightarrow> \<exists>m. f q p = Inr (p @ replicate m 0)"
    and "\<And>q. q \<in> set qs \<Longrightarrow> slot_ok (slot q)"
    and "sorted_wrt (\<lambda>a b. slots_apart (slot a) (slot b)) qs"
    and "\<And>q. q \<in> set qs \<Longrightarrow> writes q \<Longrightarrow> slot_clear (slot q) p"
  shows "\<exists>p'. try_for_each f qs p = Inr p' \<and>
    (\<forall>q \<in> set qs. writes q \<longrightarrow> slot_holds (slot q) (be_val (u q)) p') \<and>
    (\<forall>t. slot_ok t \<and> (\<forall>q \<in> set qs. writes q \<longrightarrow> slots_apart (slot q) t) \<longrightarrow>
       (slot_clear t p \<longrightarrow> slot_clear t p') \<and> (\<forall>n. slot_holds t n p \<longrightarrow> slot_holds t n p'))"
  using assms
proof (induction qs arbitrary: p)
  case (Cons q qs)
  note ok = Cons.prems(3)
  obtain p1 where p1: "f q p = Inr p1"
    and w: "writes q \<Longrightarrow> slot_holds (slot q) (be_val (u q)) p1"
    and keep: "\<And>t. slot_ok t \<Longrightarrow> (writes q \<Longrightarrow> slots_apart (slot q) t) \<Longrightarrow>
       (slot_clear t p \<longrightarrow> slot_clear t p1) \<and> (\<forall>n. slot_holds t n p \<longrightarrow> slot_holds t n p1)"
  proof (cases "writes q")
    case False
    then obtain m where "f q p = Inr (p @ replicate m 0)" using Cons.prems(2) by fastforce
    then show thesis using False slot_pad by (intro that[of "p @ replicate m 0"]) auto
  next
    case True
    then obtain m where fq: "f q p =
        encode_at (slot_type (slot q)) (u q) (slot_pos (slot q)) 0 (p @ replicate m 0)"
      using Cons.prems(1) by fastforce
    have "slot_clear (slot q) (p @ replicate m 0)"
      using slot_pad(1)[OF ok[of q]] Cons.prems(5) True by simp
    then obtain p' where p': "encode (slot_type (slot q)) (u q) (p @ replicate m 0) (slot_pos (slot q)) 0 = (Inr (), p')"
      "slot_holds (slot q) (be_val (u q)) p'"
      "\<And>t. slots_apart (slot q) t \<Longrightarrow> slot_clear t (p @ replicate m 0) \<Longrightarrow> slot_clear t p'"
      "\<And>t n. slots_apart (slot q) t \<Longrightarrow> slot_ok t \<Longrightarrow> slot_holds t n (p @ replicate m 0) \<Longrightarrow> slot_holds t n p'"
      using slot_write[OF ok[of q]] by (metis list.set_intros(1))
    show thesis
    proof (rule that[of p'])
      show "f q p = Inr p'" using fq p'(1) by (simp add: encode_at_def)
      show "slot_holds (slot q) (be_val (u q)) p'" using p'(2) .
      show "(slot_clear t p \<longrightarrow> slot_clear t p') \<and> (\<forall>n. slot_holds t n p \<longrightarrow> slot_holds t n p')"
        if "slot_ok t" "writes q \<Longrightarrow> slots_apart (slot q) t" for t
        using that True p'(3,4)[of t] slot_pad[OF that(1)] by auto
    qed
  qed
  have apart: "slots_apart (slot q) (slot r)" if "r \<in> set qs" for r using Cons.prems(4) that by simp
  have "\<exists>p'. try_for_each f qs p1 = Inr p' \<and>
    (\<forall>q \<in> set qs. writes q \<longrightarrow> slot_holds (slot q) (be_val (u q)) p') \<and>
    (\<forall>t. slot_ok t \<and> (\<forall>q \<in> set qs. writes q \<longrightarrow> slots_apart (slot q) t) \<longrightarrow>
       (slot_clear t p1 \<longrightarrow> slot_clear t p') \<and> (\<forall>n. slot_holds t n p1 \<longrightarrow> slot_holds t n p'))"
  proof (rule Cons.IH)
    show "slot_clear (slot r) p1" if "r \<in> set qs" "writes r" for r
      using keep[OF ok[of r]] apart[OF that(1)] Cons.prems(5)[of r] that by simp
  qed (use Cons.prems in auto)
  then obtain p' where p': "try_for_each f qs p1 = Inr p'"
    "\<forall>q \<in> set qs. writes q \<longrightarrow> slot_holds (slot q) (be_val (u q)) p'"
    "\<And>t. slot_ok t \<Longrightarrow> (\<forall>q \<in> set qs. writes q \<longrightarrow> slots_apart (slot q) t) \<Longrightarrow>
       (slot_clear t p1 \<longrightarrow> slot_clear t p') \<and> (\<forall>n. slot_holds t n p1 \<longrightarrow> slot_holds t n p')" by blast
  have "slot_holds (slot q) (be_val (u q)) p'" if "writes q"
    using p'(3)[OF ok[of q]] w[OF that] apart slots_apart_sym by auto
  moreover have "(slot_clear t p \<longrightarrow> slot_clear t p') \<and> (\<forall>n. slot_holds t n p \<longrightarrow> slot_holds t n p')"
    if "slot_ok t" "\<forall>r \<in> set (q # qs). writes r \<longrightarrow> slots_apart (slot r) t" for t
    using keep[OF that(1)] p'(3)[OF that(1)] that(2) by auto
  ultimately show ?case using p1 p'(1,2) by auto
qed simp

section \<open>Constants\<close>

lemma split_sign_digits: "s \<noteq> [] \<Longrightarrow> list_all is_digit s \<Longrightarrow> split_sign s = (False, s)"
  using digit_not_special by (cases s) (auto simp: split_sign_def)

lemma parse_int_to_string:
  "lo \<le> int n \<Longrightarrow> int n \<le> hi \<Longrightarrow> parse_int lo hi (to_string n) = Some (int n)"
  using to_string_digits[of n] split_sign_digits[of "to_string n"]
  by (simp add: parse_int_def signed_def)

lemma json_number_of_text: "n < 2 ^ 63 \<Longrightarrow> try_parse_str_as_json_number (to_string n) = Inr (number_from_int (int n))"
  using parse_int_to_string[of "- (2 ^ 63)" n "2 ^ 63 - 1"]
  by (simp add: try_parse_str_as_json_number_def)

lemma constant_text: "n \<le> u32_max \<Longrightarrow> str_to_json_value (to_string n) UInt32 = Inr (number_from_int (int n))"
  by (simp add: str_to_json_value_def from_str_radix_to_string)

text \<open>An unsigned number that fits its bits is encoded as its four bytes.\<close>

lemma unsigned_json_bytes:
  assumes "base_datatype d = UInt32" "dct_type d = StandardLength slt" "0 < bit_length slt"
    and "n < 2 ^ bit_length slt" "n \<le> u32_max"
    and "case cm of None \<Rightarrow> True | Some c \<Rightarrow> cm_category c = Identical"
  shows "json_value_to_uds_data ext d cm pt (number_from_int (int n)) = Inr (u32_to_be_bytes n)"
proof -
  have "n < 2 ^ min (bit_length slt) 64" using assms(4,5) by (auto simp: min_def u32_max_def)
  then have "validate_bit_len_unsigned 64 n (bit_length slt) = Inr ()"
    using assms(3,5) by (subst validate_bit_len_unsigned_exact) (simp_all add: u32_max_def)
  then have "numeric_json_value_to_byte_vector ext (number_from_int (int n)) d pt = Inr (u32_to_be_bytes n)"
    using assms(1,2,5)
    by (simp add: numeric_json_value_to_byte_vector_def process_numeric_json_value_def is_number_def
        number_from_int_def as_u64_def bit_len_or_32_def dct_bit_len_def validate_data_length_def
        lift_result_def u32_to_be_bytes_def)
  then show ?thesis using assms(1,6) by (auto simp: json_value_to_uds_data_def split: option.splits)
qed

lemma const_param_bytes:
  assumes "const_param p s n" "param_slot p s"
  shows "json_value_to_uds_data ext (slot_type s) None None (number_from_int (int n)) = Inr (u32_to_be_bytes n)"
    and "n \<le> u32_max"
proof -
  obtain slt where slt: "dct_type (slot_type s) = StandardLength slt" "bit_length slt = 8 * slot_len s"
    using assms(2) by (auto simp: param_slot_def slot_ok_def)
  have k: "0 < slot_len s" "slot_len s \<le> 4" "n < 256 ^ slot_len s"
    using assms slot_len_bounds(2) by (auto simp: const_param_def param_slot_def)
  have "(256 :: nat) ^ slot_len s \<le> 256 ^ 4" using k(2) by (intro power_increasing) simp_all
  then show u: "n \<le> u32_max" using k(3) by (simp add: u32_max_def)
  show "json_value_to_uds_data ext (slot_type s) None None (number_from_int (int n)) = Inr (u32_to_be_bytes n)"
    using assms(1) slt k u by (intro unsigned_json_bytes) (auto simp: const_param_def power_mult)
qed

lemma write_constant:
  assumes "const_param p s n" "param_slot p s"
  shows "process_coded_constant ext p uds = encode_at (slot_type s) (u32_to_be_bytes n) (slot_pos s) 0 uds"
proof -
  obtain c where c: "p_specific p = CodedConstData c" "cc_coded_value c = Some (to_string n)"
    using assms(1) by (auto simp: const_param_def)
  have t: "Option.bind (cc_diag_coded_type c) (\<lambda>t. ok_option (diag_coded_type_try_from t)) = Some (slot_type s)"
    using assms(2) c by (simp add: param_slot_def coded_type_in_def)
  have "n < 2 ^ 63" using const_param_bytes(2)[OF assms] by (simp add: u32_max_def)
  then show ?thesis
    using c t const_param_bytes(1)[OF assms] param_slot_facts[OF assms(2)]
    by (simp add: process_coded_constant_def specific_data_as_coded_const_def json_number_of_text
        lift_result_def)
qed

lemma value_param_no_constant: "value_param p nd \<Longrightarrow> process_coded_constant ext p uds = Inr uds"
  by (auto simp: process_coded_constant_def specific_data_as_coded_const_def value_param_def)

section \<open>Building the request\<close>

lemma saturating_add_zero: "n \<le> usize_max \<Longrightarrow> saturating_add 0 n = n"
  by (simp add: saturating_add_def)

lemma param_pos_zero: "param_slot p s \<Longrightarrow> param_pos 0 p = slot_pos s"
  using param_slot_facts[of p s] by (simp add: param_pos_def saturating_add_zero slot_ok_def)

lemma write_value:
  assumes "value_param p nd" "param_slot p s" "p_short_name p = Some name" "map_of vals name = Some v"
    and "json_value_to_uds_data ext (slot_type s) (nd_compu_method nd) (nd_physical_type nd) v = Inr u"
  shows "\<exists>m. process_parameter (map_param_to_uds (Suc depth) ext strict) vals p uds =
    encode_at (slot_type s) u (slot_pos s) 0 (uds @ replicate m 0)"
proof -
  obtain dflt where sp: "p_specific p = ValueData dflt (Some (NormalDop nd))" "p_type p = 11"
    using assms(1) by (auto simp: value_param_def)
  have d: "nd_coded_type nd = Inr (slot_type s)"
    using assms(2) sp by (auto simp: param_slot_def coded_type_in_def ok_option_def split: sum.splits)
  show ?thesis
    using assms(3-5) sp d param_slot_facts[OF assms(2)] param_pos_zero[OF assms(2)]
    by (auto simp: process_parameter_def Let_def lift_result_def map_param_to_step_def param_type_of_def
        param_type_try_from_def map_param_value_to_uds_def specific_data_as_value_def
        resolve_required_param_def dop_variant_def encode_normal_def)
qed

lemma skip_constant:
  assumes "const_param p s n" "p_short_name p \<noteq> None"
  shows "\<exists>m. process_parameter (map_param_to_uds (Suc depth) ext strict) vals p uds =
    Inr (uds @ replicate m 0)"
  using assms
  by (auto simp: process_parameter_def Let_def lift_result_def map_param_to_step_def param_type_of_def
      param_type_try_from_def const_param_def)

lemma sorted_wrt_insert_param:
  "symp P \<Longrightarrow> sorted_wrt P (insert_param p qs) \<longleftrightarrow> sorted_wrt P (p # qs)"
  by (induction qs) (auto dest: sympD)

lemma sorted_wrt_sort_params:
  assumes "symp P" shows "sorted_wrt P (sort_params ps) \<longleftrightarrow> sorted_wrt P ps"
proof (induction ps)
  case (Cons p ps)
  have "sort_params (p # ps) = insert_param p (sort_params ps)" by (simp add: sort_params_def)
  then show ?case using sorted_wrt_insert_param[OF assms] Cons by simp
qed (simp add: sort_params_def)

lemma layout_cases:
  assumes "request_layout ext vals slot u ps" "p \<in> set ps"
  obtains (Const) n where "const_param p (slot p) n" "u p = u32_to_be_bytes n"
  | (Value) nd name v where "value_param p nd" "p_short_name p = Some name" "map_of vals name = Some v"
      "json_value_to_uds_data ext (slot_type (slot p)) (nd_compu_method nd) (nd_physical_type nd) v = Inr (u p)"
  using assms unfolding request_layout_def carries_def by blast

lemma not_both: "const_param p s n \<Longrightarrow> value_param p nd \<Longrightarrow> False"
  by (auto simp: const_param_def value_param_def)

lemma layout_slots:
  assumes "request_layout ext vals slot u ps" "p \<in> set ps"
  shows "param_slot p (slot p)" "slot_ok (slot p)" "p_short_name p \<noteq> None"
  using assms param_slot_facts(4) by (auto simp: request_layout_def)

lemma layout_apart:
  assumes lay: "request_layout ext vals slot u ps"
  shows "sorted_wrt (\<lambda>p q. slots_apart (slot p) (slot q)) (sort_params ps)"
    and "a \<in> set ps \<Longrightarrow> b \<in> set ps \<Longrightarrow> a \<noteq> b \<Longrightarrow> slots_apart (slot a) (slot b)"
proof -
  have s: "sorted_wrt (\<lambda>p q. slots_apart (slot p) (slot q)) ps" using lay by (simp add: request_layout_def)
  have "symp (\<lambda>p q. slots_apart (slot p) (slot q))" by (auto intro: sympI simp: slots_apart_sym)
  then show "sorted_wrt (\<lambda>p q. slots_apart (slot p) (slot q)) (sort_params ps)"
    using s by (simp add: sorted_wrt_sort_params)
  assume "a \<in> set ps" "b \<in> set ps" "a \<noteq> b"
  then obtain i j where "i < length ps" "j < length ps" "a = ps ! i" "b = ps ! j" "i \<noteq> j"
    by (metis in_set_conv_nth)
  then show "slots_apart (slot a) (slot b)" using s slots_apart_sym sorted_wrt_nth_less by (metis nat_neq_iff)
qed

abbreviation is_const :: "(param \<Rightarrow> byte_slot) \<Rightarrow> param \<Rightarrow> bool" where
  "is_const slot p \<equiv> \<exists>n. const_param p (slot p) n"

text \<open>The first pass writes the constants and leaves the slots of the values clear.\<close>

lemma constants_written:
  assumes lay: "request_layout ext vals slot u ps"
  obtains p1 where "process_coded_constants ext (sort_params ps) = Inr p1"
    "\<And>q. q \<in> set ps \<Longrightarrow> is_const slot q \<Longrightarrow> slot_holds (slot q) (be_val (u q)) p1"
    "\<And>q. q \<in> set ps \<Longrightarrow> \<not> is_const slot q \<Longrightarrow> slot_clear (slot q) p1"
proof -
  note L = layout_cases[OF lay] and slots = layout_slots[OF lay]
  have "\<exists>p'. try_for_each (process_coded_constant ext) (sort_params ps) [] = Inr p' \<and>
    (\<forall>q \<in> set (sort_params ps). is_const slot q \<longrightarrow> slot_holds (slot q) (be_val (u q)) p') \<and>
    (\<forall>t. slot_ok t \<and> (\<forall>q \<in> set (sort_params ps). is_const slot q \<longrightarrow> slots_apart (slot q) t) \<longrightarrow>
       (slot_clear t [] \<longrightarrow> slot_clear t p') \<and> (\<forall>n. slot_holds t n [] \<longrightarrow> slot_holds t n p'))"
  proof (rule write_pass[OF _ _ _ layout_apart(1)[OF lay]]; (simp only: set_sort_params)?)
    fix q p assume q: "q \<in> set ps" "is_const slot q"
    then obtain n where n: "const_param q (slot q) n" "u q = u32_to_be_bytes n"
      by (cases rule: L) (auto dest: not_both)
    then show "\<exists>m. process_coded_constant ext q p =
        encode_at (slot_type (slot q)) (u q) (slot_pos (slot q)) 0 (p @ replicate m 0)"
      using write_constant[OF n(1) slots(1)[OF q(1)], of ext p] by (intro exI[of _ 0]) simp
  next
    fix q p assume q: "q \<in> set ps" "\<not> is_const slot q"
    then obtain nd where "value_param q nd" by (cases rule: L) auto
    then show "\<exists>m. process_coded_constant ext q p = Inr (p @ replicate m 0)"
      using value_param_no_constant[of q nd ext p] by (intro exI[of _ 0]) simp
  qed (simp_all add: slots slot_clear_def)
  then obtain p1 where p1: "try_for_each (process_coded_constant ext) (sort_params ps) [] = Inr p1"
    "\<forall>q \<in> set ps. is_const slot q \<longrightarrow> slot_holds (slot q) (be_val (u q)) p1"
    "\<And>t. slot_ok t \<Longrightarrow> (\<forall>q \<in> set ps. is_const slot q \<longrightarrow> slots_apart (slot q) t) \<Longrightarrow>
       slot_clear t [] \<Longrightarrow> slot_clear t p1"
    unfolding set_sort_params by blast
  show thesis
  proof (rule that[of p1])
    show "process_coded_constants ext (sort_params ps) = Inr p1"
      using p1(1) by (simp add: process_coded_constants_def)
    show "slot_holds (slot q) (be_val (u q)) p1" if "q \<in> set ps" "is_const slot q" for q using p1(2) that by blast
    show "slot_clear (slot q) p1" if q: "q \<in> set ps" "\<not> is_const slot q" for q
    proof (rule p1(3)[OF slots(2)[OF q(1)]])
      show "\<forall>r \<in> set ps. is_const slot r \<longrightarrow> slots_apart (slot r) (slot q)"
        using layout_apart(2)[OF lay] q by metis
    qed (simp add: slot_clear_def)
  qed
qed

text \<open>The second pass writes the values and keeps the constants.\<close>

lemma values_written:
  assumes lay: "request_layout ext vals slot u ps"
    and held: "\<And>q. q \<in> set ps \<Longrightarrow> is_const slot q \<Longrightarrow> slot_holds (slot q) (be_val (u q)) p1"
    and clear: "\<And>q. q \<in> set ps \<Longrightarrow> \<not> is_const slot q \<Longrightarrow> slot_clear (slot q) p1"
  obtains bs where
    "try_for_each (process_parameter (map_param_to_uds (Suc depth) ext strict) vals) (sort_params ps) p1 = Inr bs"
    "\<And>q. q \<in> set ps \<Longrightarrow> slot_holds (slot q) (be_val (u q)) bs"
proof -
  note L = layout_cases[OF lay] and slots = layout_slots[OF lay]
  let ?f = "process_parameter (map_param_to_uds (Suc depth) ext strict) vals"
  have "\<exists>p'. try_for_each ?f (sort_params ps) p1 = Inr p' \<and>
    (\<forall>q \<in> set (sort_params ps). \<not> is_const slot q \<longrightarrow> slot_holds (slot q) (be_val (u q)) p') \<and>
    (\<forall>t. slot_ok t \<and> (\<forall>q \<in> set (sort_params ps). \<not> is_const slot q \<longrightarrow> slots_apart (slot q) t) \<longrightarrow>
       (slot_clear t p1 \<longrightarrow> slot_clear t p') \<and> (\<forall>n. slot_holds t n p1 \<longrightarrow> slot_holds t n p'))"
  proof (rule write_pass[OF _ _ _ layout_apart(1)[OF lay]]; (simp only: set_sort_params not_not)?)
    fix q p assume q: "q \<in> set ps" "\<not> is_const slot q"
    then obtain nd name v where v: "value_param q nd" "p_short_name q = Some name" "map_of vals name = Some v"
      "json_value_to_uds_data ext (slot_type (slot q)) (nd_compu_method nd) (nd_physical_type nd) v = Inr (u q)"
      by (cases rule: L) auto
    show "\<exists>m. ?f q p = encode_at (slot_type (slot q)) (u q) (slot_pos (slot q)) 0 (p @ replicate m 0)"
      using v(1) slots(1)[OF q(1)] v(2-4) by (rule write_value)
  next
    fix q p assume q: "q \<in> set ps" "is_const slot q"
    then obtain n where "const_param q (slot q) n" by blast
    then show "\<exists>m. ?f q p = Inr (p @ replicate m 0)" using slots(3)[OF q(1)] by (rule skip_constant)
  qed (simp_all add: slots clear)
  then obtain bs where bs: "try_for_each ?f (sort_params ps) p1 = Inr bs"
    "\<forall>q \<in> set ps. \<not> is_const slot q \<longrightarrow> slot_holds (slot q) (be_val (u q)) bs"
    "\<And>t n. slot_ok t \<Longrightarrow> (\<forall>q \<in> set ps. \<not> is_const slot q \<longrightarrow> slots_apart (slot q) t) \<Longrightarrow>
      slot_holds t n p1 \<Longrightarrow> slot_holds t n bs"
    unfolding set_sort_params by blast
  have "slot_holds (slot q) (be_val (u q)) bs" if q: "q \<in> set ps" for q
  proof (cases "is_const slot q")
    case True
    have "\<forall>r \<in> set ps. \<not> is_const slot r \<longrightarrow> slots_apart (slot r) (slot q)"
      using layout_apart(2)[OF lay] q True by metis
    then show ?thesis using bs(3)[OF slots(2)[OF q]] held[OF q True] by blast
  next
    case False
    then show ?thesis using bs(2) q by blast
  qed
  then show thesis by (rule that[OF bs(1)])
qed

text \<open>Every slot of the built request holds the bytes of its parameter.\<close>

lemma request_built:
  assumes lay: "request_layout ext vals slot u ps"
    and keys: "strict \<longrightarrow> set (map fst vals) \<subseteq> set (List.map_filter p_short_name ps)"
  obtains bs where "build_request (Suc depth) ext strict (Some ps) (Some (ParameterMap vals)) = Inr bs"
    "\<And>p. p \<in> set ps \<Longrightarrow> slot_holds (slot p) (be_val (u p)) bs"
proof -
  obtain p1 where p1: "process_coded_constants ext (sort_params ps) = Inr p1"
    "\<And>q. q \<in> set ps \<Longrightarrow> is_const slot q \<Longrightarrow> slot_holds (slot q) (be_val (u q)) p1"
    "\<And>q. q \<in> set ps \<Longrightarrow> \<not> is_const slot q \<Longrightarrow> slot_clear (slot q) p1"
    using constants_written[OF lay] by blast
  obtain bs where bs:
    "try_for_each (process_parameter (map_param_to_uds (Suc depth) ext strict) vals) (sort_params ps) p1 = Inr bs"
    "\<And>q. q \<in> set ps \<Longrightarrow> slot_holds (slot q) (be_val (u q)) bs"
    using values_written[OF lay p1(2,3)] by blast
  have "set (List.map_filter p_short_name (sort_params ps)) = set (List.map_filter p_short_name ps)"
    by (simp add: List.map_filter_def)
  then have "reject_unexpected_keys strict (List.map_filter p_short_name (sort_params ps)) (map fst vals) = Inr ()"
    using keys by (auto simp: reject_unexpected_keys_def filter_empty_conv)
  then have "build_request (Suc depth) ext strict (Some ps) (Some (ParameterMap vals)) = Inr bs"
    using p1(1) bs(1)
    by (simp add: build_request_def process_parameter_map_def flatten_refs_def unwrap_or_def lift_result_def
        del: map_param_to_uds.simps)
  then show thesis using bs(2) by (rule that)
qed

section \<open>Reading the fields\<close>

definition at_start :: "byte list \<Rightarrow> payload \<Rightarrow> bool" where
  "at_start bs pl \<longleftrightarrow> pl_data pl = bs \<and> slices pl = [] \<and> current_index pl = 0"

lemma at_start_data: "at_start bs pl \<Longrightarrow> Payload_View.payload_data pl = Inr bs"
  by (simp add: at_start_def Payload_View.payload_data_def pl_pos_def get_range_def)

lemma at_start_set [simp]: "at_start bs (set_last_read_byte_pos n pl) = at_start bs pl"
  by (simp add: at_start_def set_last_read_byte_pos_def)

definition field_method :: "param \<Rightarrow> compu_method option" where
  "field_method p = (case p_specific p of
      ValueData dflt (Some (NormalDop nd)) \<Rightarrow> nd_compu_method nd | _ \<Rightarrow> None)"

definition field_container :: "param \<Rightarrow> byte_slot \<Rightarrow> nat \<Rightarrow> raw_container" where
  "field_container p s n = \<lparr>rc_data = be_bytes (slot_len s) n, rc_bit_len = 8 * slot_len s,
     rc_data_type = base_datatype (slot_type s), rc_compu_method = field_method p\<rparr>"

lemma context_new [simp]: "pc_parameter (param_context_new p b) = p"
  by (simp add: param_context_new_def)

lemma abs_pos_new: "param_slot p s \<Longrightarrow> abs_byte_pos (param_context_new p 0) = slot_pos s"
  using param_pos_zero[of p s] by (simp add: abs_byte_pos_def param_context_new_def param_pos_def)

lemma extract_slot:
  assumes "slot_ok s" "slot_holds s n bs" "at_start bs pl"
  shows "\<exists>pl'. at_start bs pl' \<and> extract_diag_data_container (slot_pos s) 0 (slot_type s) cm (pl, m) =
    (Inr (RawContainer \<lparr>rc_data = be_bytes (slot_len s) n, rc_bit_len = 8 * slot_len s,
       rc_data_type = base_datatype (slot_type s), rc_compu_method = cm\<rparr>), (pl', m))"
proof -
  have opt: "\<not> is_optional_type (slot_type s)" using assms(1) by (auto simp: slot_ok_def is_optional_type_def)
  have ne: "be_bytes (slot_len s) n \<noteq> []"
    using slot_len_bounds(2)[OF assms(1)] length_be_bytes[of "slot_len s" n] by (metis length_0_conv not_less0)
  have d: "decode (slot_type s) bs (slot_pos s) 0 = Inr (be_bytes (slot_len s) n, 8 * slot_len s)"
    using assms(2) by (simp add: slot_holds_def)
  show ?thesis
    using opt ne d at_start_data[OF assms(3)] assms(3)
    by (simp add: extract_diag_data_container_def dataD_def bindD_def payloadD_def liftD_def runD_def
        lift_result_def returnD_def updateD_def)
qed

lemma read_value:
  assumes "value_param p nd" "param_slot p s" "p_short_name p = Some name"
    and "slot_holds s n bs" "at_start bs pl"
  shows "\<exists>pl'. at_start bs pl' \<and> map_param_from_uds (Suc depth) ext req nm (param_context_new p 0) (pl, m) =
    (Inr (), (pl', hm_insert name (RawContainer (field_container p s n)) m))"
proof -
  obtain dflt cm where sp: "p_specific p = ValueData dflt (Some (NormalDop nd))" "p_type p = 11"
    "nd_compu_method nd = Some cm"
    using assms(1) by (auto simp: value_param_def)
  have d: "nd_coded_type nd = Inr (slot_type s)"
    using assms(2) sp by (auto simp: param_slot_def coded_type_in_def ok_option_def split: sum.splits)
  have nk: "length_key_name (slot_type s) = None"
    using param_slot_facts(4)[OF assms(2)] by (auto simp: slot_ok_def length_key_name_def)
  have pos: "effective_byte_pos (param_context_new p 0) pl = slot_pos s"
    using abs_pos_new[OF assms(2)] param_slot_facts(2)[OF assms(2)]
    by (simp add: effective_byte_pos_def)
  obtain pl' where pl': "at_start bs pl'" "extract_diag_data_container (slot_pos s) 0 (slot_type s) (Some cm) (pl, m) =
    (Inr (RawContainer (field_container p s n)), (pl', m))"
    using extract_slot[OF param_slot_facts(4)[OF assms(2)] assms(4,5), of "Some cm" m] sp
    by (auto simp: field_container_def field_method_def)
  have "map_normal_dop_from_uds name nd (param_context_new p 0) (pl, m) =
      (Inr (), (pl', hm_insert name (RawContainer (field_container p s n)) m))"
    using d sp pos pl'(2) param_slot_facts(3)[OF assms(2)]
    by (simp add: map_normal_dop_from_uds_def bindD_def liftD_def runD_def lift_result_def payloadD_def
        insertD_def)
  then have "map_param_from_uds (Suc depth) ext req nm (param_context_new p 0) (pl, m) =
      (Inr (), (pl', hm_insert name (RawContainer (field_container p s n)) m))"
    using sp assms(3) d nk
    by (simp add: map_param_step_def param_type_of_def param_type_try_from_def map_param_value_from_uds_def
        map_dop_from_uds_def specific_data_as_value_def dop_variant_def bindD_def liftD_def runD_def
        lift_result_def)
  with pl'(1) show ?thesis by blast
qed

lemma read_constant:
  assumes "const_param p s n" "param_slot p s" "slot_holds s (be_val (u32_to_be_bytes n)) bs" "at_start bs pl"
  shows "\<exists>pl'. at_start bs pl' \<and> map_param_from_uds (Suc depth) ext req nm (param_context_new p 0) (pl, m) =
    (Inr (), (pl', hm_insert nm (RawContainer (field_container p s (be_val (u32_to_be_bytes n)))) m))"
proof -
  let ?v = "be_val (u32_to_be_bytes n)"
  obtain c where c: "p_specific p = CodedConstData c" "cc_coded_value c = Some (to_string n)"
    and base: "base_datatype (slot_type s) = UInt32" "slot_len s \<le> 4" and t0: "p_type p = 0"
    using assms(1) by (auto simp: const_param_def)
  obtain fb where fb: "cc_diag_coded_type c = Some fb" "diag_coded_type_try_from fb = Inr (slot_type s)"
    using assms(2) c by (auto simp: param_slot_def coded_type_in_def ok_option_def split: sum.splits bind_splits)
  have n: "n \<le> u32_max" and js: "json_value_to_uds_data ext (slot_type s) None None (number_from_int (int n)) =
      Inr (u32_to_be_bytes n)"
    using const_param_bytes[OF assms(1,2)] by blast+
  have "?v = n" using n by (simp add: u32_to_be_bytes_def be_val_be_bytes u32_max_def)
  moreover have "drop (4 - slot_len s) (u32_to_be_bytes n) = be_bytes (slot_len s) n"
    using base(2) drop_be_bytes[of "4 - slot_len s" "slot_len s" n] by (simp add: u32_to_be_bytes_def)
  moreover have "length (u32_to_be_bytes n) = 4" by (simp add: u32_to_be_bytes_def)
  ultimately have tail: "drop (length (u32_to_be_bytes n) - length (be_bytes (slot_len s) ?v))
      (u32_to_be_bytes n) = be_bytes (slot_len s) ?v" by simp
  obtain pl' where pl': "at_start bs pl'" "extract_diag_data_container (slot_pos s) 0 (slot_type s) None (pl, m) =
    (Inr (RawContainer (field_container p s ?v)), (pl', m))"
    using extract_slot[OF param_slot_facts(4)[OF assms(2)] assms(3,4), of None m] c
    by (auto simp: field_container_def field_method_def)
  have "map_param_coded_const_from_uds ext nm (param_context_new p 0) (pl, m) =
      (Inr (), (pl', hm_insert nm (RawContainer (field_container p s ?v)) m))"
    using c fb pl'(2) js tail constant_text[OF n] base(1) abs_pos_new[OF assms(2)] param_slot_facts(3)[OF assms(2)]
    by (simp add: map_param_coded_const_from_uds_def bindD_def liftD_def runD_def lift_result_def
        raw_only_def returnD_def insertD_def Let_def specific_data_as_coded_const_def)
      (simp add: field_container_def)
  then have "map_param_from_uds (Suc depth) ext req nm (param_context_new p 0) (pl, m) =
      (Inr (), (pl', hm_insert nm (RawContainer (field_container p s ?v)) m))"
    using t0 by (simp add: map_param_step_def param_type_of_def param_type_try_from_def bindD_def liftD_def
        runD_def lift_result_def)
  with pl'(1) show ?thesis by blast
qed

lemma layout_Cons:
  assumes "request_layout ext vals slot u (p # ps)"
  shows "request_layout ext vals slot u ps" "p_short_name p \<notin> p_short_name ` set ps"
  using assms by (auto simp: request_layout_def)

lemma read_field:
  assumes lay: "request_layout ext vals slot u ps" and p: "p \<in> set ps" "p_short_name p = Some name"
    and "slot_holds (slot p) (be_val (u p)) bs" "at_start bs pl"
  shows "\<exists>pl'. at_start bs pl' \<and> map_param_from_uds (Suc depth) ext req name (param_context_new p 0) (pl, m) =
    (Inr (), (pl', hm_insert name (RawContainer (field_container p (slot p) (be_val (u p)))) m))"
  using lay p(1)
proof (cases rule: layout_cases)
  case (Const n)
  then show ?thesis using read_constant[OF Const(1) layout_slots(1)[OF lay p(1)]] assms(4,5) by simp
next
  case (Value nd name' v)
  then show ?thesis using read_value[OF Value(1) layout_slots(1)[OF lay p(1)] p(2) assms(4,5)] by blast
qed

definition read_entry :: "(param \<Rightarrow> byte_slot) \<Rightarrow> (param \<Rightarrow> byte list) \<Rightarrow> param \<Rightarrow> string \<times> container" where
  "read_entry slot u p = (the (p_short_name p), RawContainer (field_container p (slot p) (be_val (u p))))"

lemma hm_insert_new: "k \<notin> fst ` set m \<Longrightarrow> hm_insert k v m = m @ [(k, v)]"
  by (induction k v m rule: hm_insert.induct) auto

lemma read_all:
  assumes "request_layout ext vals slot u ps"
    and "\<And>p. p \<in> set ps \<Longrightarrow> slot_holds (slot p) (be_val (u p)) bs" "at_start bs pl"
    and "\<And>p. p \<in> set ps \<Longrightarrow> the (p_short_name p) \<notin> fst ` set m"
  shows "\<exists>pl'. map_request_params (map_param_from_uds (Suc depth) ext req) ps errors (pl, m) =
      (Inr errors, (pl', m @ map (read_entry slot u) ps))"
  using assms
proof (induction ps arbitrary: pl m)
  case Nil
  then show ?case by (simp add: returnD_def)
next
  case (Cons p ps)
  obtain name where name: "p_short_name p = Some name"
    using layout_slots(3)[OF Cons.prems(1)] by (metis list.set_intros(1) not_Some_eq)
  have pos: "has_byte_position p"
    using layout_slots(1)[OF Cons.prems(1)] param_slot_facts(2) by (metis list.set_intros(1))
  let ?pl = "set_last_read_byte_pos (byte_position p) pl"
  let ?m = "m @ [read_entry slot u p]"
  have m: "hm_insert name (RawContainer (field_container p (slot p) (be_val (u p)))) m = ?m"
    using Cons.prems(4)[of p] name by (simp add: hm_insert_new read_entry_def)
  have "at_start bs ?pl" using Cons.prems(3) by simp
  then obtain pl1 where pl1: "at_start bs pl1"
    "map_param_from_uds (Suc depth) ext req name (param_context_new p 0) (?pl, m) = (Inr (), (pl1, ?m))"
    using read_field[OF Cons.prems(1) _ name] Cons.prems(2) unfolding m[symmetric] by (metis list.set_intros(1))
  have held: "slot_holds (slot q) (be_val (u q)) bs" if "q \<in> set ps" for q
    using Cons.prems(2) that by simp
  have fresh: "the (p_short_name q) \<notin> fst ` set ?m" if "q \<in> set ps" for q
    using Cons.prems(4)[of q] that layout_Cons(2)[OF Cons.prems(1)] layout_slots(3)[OF Cons.prems(1), of q] name
    by (force simp: read_entry_def)
  obtain pl' where IH: "map_request_params (map_param_from_uds (Suc depth) ext req) ps errors (pl1, ?m) =
      (Inr errors, (pl', ?m @ map (read_entry slot u) ps))"
    using Cons.IH[OF layout_Cons(1)[OF Cons.prems(1)] held pl1(1) fresh] by blast
  have "map_request_params (map_param_from_uds (Suc depth) ext req) (p # ps) errors (pl, m) =
      (Inr errors, (pl', ?m @ map (read_entry slot u) ps))"
    using name pos pl1(2) IH
    by (simp add: bindD_def liftD_def runD_def lift_result_def updateD_def collect_param_def catchD_def
        returnD_def del: map_param_from_uds.simps)
  then show ?case by (simp only: list.map append_assoc append.simps) blast
qed

section \<open>The whole message\<close>

lemma lookup_changes_cache: "\<exists>c. snd (lookup_diag_service nc dc fg mo m) = m\<lparr>db_cache := c\<rparr>"
proof -
  have "\<exists>c. m = m\<lparr>db_cache := c\<rparr>" by (rule exI[of _ "db_cache m"]) simp
  then show ?thesis
    by (auto simp: lookup_diag_service_def search_and_cache_location_def Let_def
        split: option.split prod.split)
qed

lemma access_ignores_cache: "check_service_access plugin s (m\<lparr>db_cache := c\<rparr>) = check_service_access plugin s m"
proof -
  let ?m = "m\<lparr>db_cache := c\<rparr>"
  have layers: "diag_layers_of ?m = diag_layers_of m"
    by (simp add: diag_layers_of_def current_variant_def cong: option.case_cong)
  have "state_or sid msg ?m = state_or sid msg m" "get_state_names x ?m = get_state_names x m"
    "default_state ?m x = default_state m x" for sid msg x
    by (simp_all add: state_or_def get_state_names_def lookup_state_chart_def default_state_def layers)
  then show ?thesis unfolding check_service_access_def check_service_preconditions_def by (simp cong: if_cong)
qed

text \<open>What the reader makes of the bytes of a field.\<close>

definition reads_as :: "externs \<Rightarrow> param \<Rightarrow> byte_slot \<Rightarrow> byte list \<Rightarrow> diag_data_value \<Rightarrow> bool" where
  "reads_as ext p s u x \<longleftrightarrow> uds_data_to_serializable ext (base_datatype (slot_type s)) (field_method p) False
     (be_bytes (slot_len s) (be_val u)) = Inr x"

lemma coherent_lookup_twice:
  assumes coh: "cache_coherent preds m" and pred: "lookup_predicate nc dc None = preds (cache_key nc dc None)"
    and found: "find (lookup_predicate nc dc None) (visible_services m) = Some s"
  shows "fst (lookup_diag_service nc dc None None m) = Inr s"
    and "fst (lookup_diag_service nc dc None None (snd (lookup_diag_service nc dc None None m))) = Inr s"
proof -
  show "fst (lookup_diag_service nc dc None None m) = Inr s"
    using coherent_lookup_result[OF coh pred] found by simp
  let ?m = "snd (lookup_diag_service nc dc None None m)"
  have "same_database m ?m" using lookup_changes_cache[of nc dc None None m] by (auto simp: same_database_def)
  then have "visible_services ?m = visible_services m" by (rule same_database_services(3))
  then show "fst (lookup_diag_service nc dc None None ?m) = Inr s"
    using coherent_lookup_result[OF lookup_coherent[OF coh pred] pred] found by simp
qed

lemma create_payload_ok:
  assumes "fst (lookup_diag_service nc dc None None m) = Inr s" "service_diag_comm s = Some comm"
    and "request_of (messages s) = Some params" "check_service_access plugin s m = Inr ()"
    and "build_request depth ext strict params given = Inr bs"
  shows "\<exists>pl. create_uds_payload depth ext strict messages nc ta la dc plugin given None m =
    (Inr pl, snd (lookup_diag_service nc dc None None m)) \<and> service_payload.payload_data pl = bs"
proof -
  obtain c where c: "snd (lookup_diag_service nc dc None None m) = m\<lparr>db_cache := c\<rparr>"
    using lookup_changes_cache by blast
  then have l: "lookup_diag_service nc dc None None m = (Inr s, m\<lparr>db_cache := c\<rparr>)"
    using assms(1) by (metis prod.collapse)
  show ?thesis
    using assms(2-5) access_ignores_cache[where plugin = plugin and s = s and m = m and c = c]
    by (auto simp: create_uds_payload_def l lift_result_def split: prod.split)
qed

lemma convert_request_ok:
  assumes "fst (lookup_diag_service nc dc None None m) = Inr s"
    and "request_of (messages s) = Some (Some ps)"
    and "map_request_params (map_param_from_uds depth ext (request_of (messages s))) ps []
      (payload_new bs, []) = (Inr [], (pl, d))"
  shows "fst (convert_request_from_uds depth ext messages nc dc bs True m) =
    Inr (create_diag_service_response dc d PositiveType bs [])"
proof -
  obtain m' where l: "lookup_diag_service nc dc None None m = (Inr s, m')"
    using assms(1) by (metis prod.collapse)
  have p: "map_request_params (map_param_from_uds depth ext (Some (Some ps))) ps [] (payload_new bs, []) =
      (Inr [], (pl, d))" using assms(2,3) by simp
  show ?thesis by (simp add: convert_request_from_uds_def l assms(2) flatten_refs_def p)
qed

section \<open>Values that are read back\<close>

text \<open>
  The coded values that a field of \<open>k\<close> bytes gives back: all of its type in a field of four bytes, and
  the non-negative ones with a clear sign bit in a shorter one, since a shorter field is padded with
  zero bytes when it is read.
\<close>

definition keeps_value :: "data_type \<Rightarrow> nat \<Rightarrow> int \<Rightarrow> bool" where
  "keeps_value dt k i \<longleftrightarrow> is_int_type dt \<and> int_fits dt i \<and> 0 < k \<and>
     (k = 4 \<or> k < 4 \<and> 0 \<le> i \<and> (if dt = Int32 then 2 * i < 256 ^ k else i < 256 ^ k))"

text \<open>
  The coded value \<open>i\<close> of a physical value \<open>z\<close>: itself, or the one of a linear method with whole
  coefficients in whose limits it is.
\<close>

definition coded_as :: "externs \<Rightarrow> data_type \<Rightarrow> compu_method \<Rightarrow> int \<Rightarrow> int \<Rightarrow> bool" where
  "coded_as ext dt cm z i \<longleftrightarrow> cm_category cm = Identical \<and> i = z \<or>
     cm_category cm = Linear \<and> int_fits dt z \<and> (\<exists>scale c v0 v1 d.
       cm_scales cm = [scale] \<and> rational_coefficients scale = Some c \<and> whole_coeffs c v0 v1 d \<and>
       d * z = v0 + v1 * i \<and> v1 \<noteq> 0 \<and> d \<noteq> 0 \<and> \<bar>d * z\<bar> < 2 ^ 53 \<and> \<bar>v1 * i\<bar> < 2 ^ 53 \<and>
       within_limits ext (int_value dt i) (upper_limit scale) (lower_limit scale))"

text \<open>The parameter stands for the number \<open>z\<close>: a constant, or a value that was given for it.\<close>

definition stands_for :: "externs \<Rightarrow> json_map \<Rightarrow> param \<Rightarrow> byte_slot \<Rightarrow> int \<Rightarrow> bool" where
  "stands_for ext vals p s z \<longleftrightarrow>
     (\<exists>n. z = int n \<and> const_param p s n) \<or>
     (\<exists>nd cm name i. value_param p nd \<and> nd_compu_method nd = Some cm \<and> p_short_name p = Some name \<and>
        map_of vals name = Some (number_from_int z) \<and>
        coded_as ext (base_datatype (slot_type s)) cm z i \<and>
        keeps_value (base_datatype (slot_type s)) (slot_len s) i)"

lemma short_field:
  assumes "k < 4" "0 \<le> i" "i < 256 ^ k"
  shows "be_val (int_bytes dt i) = nat i" "be_val (be_bytes k (nat i)) = nat i"
proof -
  have n: "nat i < 256 ^ k" using assms(2,3) by (simp add: nat_less_iff)
  have "(256 :: nat) ^ k \<le> 256 ^ 3" using assms(1) by (intro power_increasing) simp_all
  with n have "nat i < 256 ^ 3" by (rule less_le_trans)
  then have l: "nat i < 2 ^ 32" by simp
  then have "u32_of_i32 i = nat i" using assms(2) by (simp add: u32_of_i32_def nat_less_iff)
  then show "be_val (int_bytes dt i) = nat i"
    using l by (simp add: int_bytes_def i32_to_be_bytes_def u32_to_be_bytes_def be_val_be_bytes)
  show "be_val (be_bytes k (nat i)) = nat i" using n by (simp add: be_val_be_bytes)
qed

lemma field_reads:
  assumes "keeps_value dt k i"
  shows "diag_data_value_new dt (be_bytes k (be_val (int_bytes dt i))) = Inr (int_value dt i)"
proof (cases "k = 4")
  case True
  have i: "is_int_type dt" "int_fits dt i" using assms by (simp_all add: keeps_value_def)
  have "int_bytes dt i = be_bytes 4 (be_val (int_bytes dt i))"
    using int_bytes_value(2)[OF i] be_val_bound[of "int_bytes dt i"] by (intro be_bytes_unique) simp_all
  then show ?thesis using int_bytes_value(1)[OF i] True by simp
next
  case False
  then have k: "k < 4" "0 \<le> i" "if dt = Int32 then 2 * i < 256 ^ k else i < 256 ^ k" "is_int_type dt" "int_fits dt i"
    using assms by (auto simp: keeps_value_def)
  then have l: "i < 256 ^ k" by (auto split: if_splits)
  note v = short_field[OF k(1,2) l]
  have "u32_padded_bytes (be_bytes k (nat i)) = Inr (replicate (4 - k) 0 @ be_bytes k (nat i))"
    using k(1) by (simp add: u32_padded_bytes_def padded_bytes_def Let_def)
  moreover have "i32_of_u32 (nat i) = i" if "dt = Int32"
    using k(2,5) that by (simp add: i32_of_u32_def int_fits_def i32_max_def nat_less_iff)
  ultimately show ?thesis
    using k(4) v by (auto simp: is_int_type_def diag_data_value_new_def i32_from_be_bytes_def be_val_zeros_append
        int_value_def)
qed

text \<open>An integer that a field keeps is encoded as the four bytes of its type.\<close>

lemma identical_bytes:
  assumes "keeps_value (base_datatype d) k z" "dct_type d = StandardLength slt" "bit_length slt = 8 * k"
    and "cm_category cm = Identical"
  shows "json_value_to_uds_data ext d (Some cm) pt (number_from_int z) = Inr (int_bytes (base_datatype d) z)"
proof (cases "base_datatype d = Int32")
  case True
  have z: "i32_min \<le> z" "z \<le> i32_max" and k: "0 < k" "k = 4 \<or> k < 4 \<and> 0 \<le> z \<and> 2 * z < 256 ^ k"
    using assms(1) True by (auto simp: keeps_value_def int_fits_def)
  have "(256 :: int) ^ k = 2 * 2 ^ (8 * k - 1)"
    using k(1) by (simp add: power_mult flip: power_Suc)
  then have "- (2 ^ (8 * k - 1)) \<le> z" "z < 2 ^ (8 * k - 1)" "min (8 * k) 64 = 8 * k"
    using k(2) z by (auto simp: i32_min_def i32_max_def intro: order_trans[of _ 0])
  then have "validate_bit_len_signed 64 z (8 * k) = Inr ()"
    using z k(1) by (subst validate_bit_len_signed_exact) (simp_all add: i32_min_def i32_max_def)
  moreover have "as_i64 (number_from_int z) = Some z"
    using z by (auto simp: number_from_int_def as_i64_def i32_min_def i32_max_def i64_max_def nat_le_iff)
  ultimately have "process_numeric_json_value (number_from_int z) d = Inr (i32_to_be_bytes z)"
    using True assms(2,3) z
    by (simp add: process_numeric_json_value_def bit_len_or_32_def dct_bit_len_def lift_result_def)
  then show ?thesis using True assms(4)
    by (simp add: json_value_to_uds_data_def numeric_json_value_to_byte_vector_def is_number_def number_from_int_def
        validate_data_length_def lift_result_def int_bytes_def i32_to_be_bytes_def)
next
  case False
  then have t: "base_datatype d = UInt32" using assms(1) by (simp add: keeps_value_def is_int_type_def)
  have z: "0 \<le> z" "z \<le> int u32_max" and k: "0 < k" "k = 4 \<or> z < 256 ^ k"
    using assms(1) t by (auto simp: keeps_value_def int_fits_def)
  have "z < 256 ^ k" using k(2) z(2) by (auto simp: u32_max_def)
  then have "nat z < 2 ^ (8 * k)" using z(1) by (simp add: power_mult nat_less_iff)
  then have "json_value_to_uds_data ext d (Some cm) pt (number_from_int (int (nat z))) = Inr (u32_to_be_bytes (nat z))"
    using t assms(2-4) k(1) z by (intro unsigned_json_bytes[of d slt]) (simp_all add: nat_le_iff)
  then show ?thesis using t z(1) by (simp add: int_bytes_def)
qed

lemma value_codec:
  assumes "coded_as ext (base_datatype d) cm z i" "keeps_value (base_datatype d) k i"
    and "dct_type d = StandardLength slt" "bit_length slt = 8 * k" "casts_exact ext"
  shows "json_value_to_uds_data ext d (Some cm) pt (number_from_int z) = Inr (int_bytes (base_datatype d) i)"
    and "uds_data_to_serializable ext (base_datatype d) (Some cm) False
      (be_bytes k (be_val (int_bytes (base_datatype d) i))) = Inr (int_value (base_datatype d) z)"
    and "int_fits (base_datatype d) z"
proof -
  let ?dt = "base_datatype d" let ?bs = "be_bytes k (be_val (int_bytes ?dt i))"
  have i: "is_int_type ?dt" "int_fits ?dt i" "0 < k" using assms(2) by (simp_all add: keeps_value_def)
  have ne: "?bs \<noteq> []" using i(3) length_be_bytes[of k "be_val (int_bytes ?dt i)"] by (metis length_0_conv not_less0)
  note new = field_reads[OF assms(2)]
  consider "cm_category cm = Identical" "i = z"
    | (linear) scale c v0 v1 d' where "cm_category cm = Linear" "int_fits ?dt z" "cm_scales cm = [scale]"
      "rational_coefficients scale = Some c" "whole_coeffs c v0 v1 d'" "d' * z = v0 + v1 * i" "v1 \<noteq> 0" "d' \<noteq> 0"
      "\<bar>d' * z\<bar> < 2 ^ 53" "\<bar>v1 * i\<bar> < 2 ^ 53"
      "within_limits ext (int_value ?dt i) (upper_limit scale) (lower_limit scale)"
    using assms(1) unfolding coded_as_def by blast
  then have "json_value_to_uds_data ext d (Some cm) pt (number_from_int z) = Inr (int_bytes ?dt i) \<and>
    uds_data_to_serializable ext ?dt (Some cm) False ?bs = Inr (int_value ?dt z) \<and> int_fits ?dt z"
  proof cases
    case 1
    then show ?thesis using identical_bytes[OF _ assms(3,4)] assms(2) new ne i(2)
      by (simp add: uds_data_to_serializable_def lift_result_def)
  next
    case linear
    note small = int_fits_small[OF linear(2)] int_fits_small[OF i(2)]
    note both = linear_both_ways[OF linear(5-10) small]
    have "denotes (f64_of_int z) z" using small(1) by (rule f64_of_int_exact)
    then obtain y where y: "apply_linear_conversion c (f64_of_int z) (PhysToInternal (inverse_values scale)) = Inr y"
      "denotes y i" using both(1) by blast
    have "json_value_to_uds_data ext d (Some cm) pt (number_from_int z) = Inr (int_bytes ?dt i)"
      using linear_converts[OF linear(3,4) y(1) i(1,2) y(2)] linear(1) by (simp add: json_value_to_uds_data_def)
    then show ?thesis
      using linear_reads_bytes[OF linear(3,4,1) i(1,2) linear(2) assms(5) linear(11) both(2) new ne] linear(2)
      by blast
  qed
  then show "json_value_to_uds_data ext d (Some cm) pt (number_from_int z) = Inr (int_bytes ?dt i)"
    "uds_data_to_serializable ext ?dt (Some cm) False ?bs = Inr (int_value ?dt z)" "int_fits ?dt z" by blast+
qed

lemma number_to_json: "int_fits dt z \<Longrightarrow> value_to_json (int_value dt z) = number_from_int z"
  by (auto simp: int_fits_def int_value_def number_from_int_def)

text \<open>The encoded bytes of a parameter that stands for a number, and what is read from its field.\<close>

lemma stands_for_codec:
  assumes "stands_for ext vals p s z" "param_slot p s" "casts_exact ext"
  shows "\<exists>u x. carries ext vals p s u \<and> reads_as ext p s u x \<and> value_to_json x = number_from_int z"
proof -
  obtain slt where slt: "dct_type (slot_type s) = StandardLength slt" "bit_length slt = 8 * slot_len s"
    and pos: "0 < slot_len s"
    using assms(2) slot_len_bounds(2) by (auto simp: param_slot_def slot_ok_def)
  let ?dt = "base_datatype (slot_type s)"
  from assms(1) show ?thesis unfolding stands_for_def
  proof (elim disjE exE conjE)
    fix n assume n: "z = int n" "const_param p s n"
    then have k: "?dt = UInt32" "slot_len s \<le> 4" "n < 256 ^ slot_len s" and m: "field_method p = None"
      by (auto simp: const_param_def field_method_def)
    have fits: "int_fits UInt32 (int n)" using const_param_bytes(2)[OF n(2) assms(2)] by (simp add: int_fits_def)
    have "int n < 256 ^ slot_len s" using k(3) by (metis of_nat_less_iff of_nat_numeral of_nat_power)
    then have keep: "keeps_value UInt32 (slot_len s) (int n)"
      using k(2) pos fits by (auto simp: keeps_value_def is_int_type_def)
    have ne: "be_bytes (slot_len s) v \<noteq> []" for v
      using pos length_be_bytes[of "slot_len s" v] by (metis length_0_conv not_less0)
    have "reads_as ext p s (u32_to_be_bytes n) (int_value UInt32 (int n))"
      using field_reads[OF keep] k(1) m ne
      by (simp add: reads_as_def uds_data_to_serializable_def lift_result_def int_bytes_def)
    moreover have "carries ext vals p s (u32_to_be_bytes n)" using n(2) by (auto simp: carries_def)
    ultimately show ?thesis using number_to_json[OF fits] n(1) by blast
  next
    fix nd cm name i
    assume v: "value_param p nd" "nd_compu_method nd = Some cm" "p_short_name p = Some name"
      "map_of vals name = Some (number_from_int z)" "coded_as ext ?dt cm z i" "keeps_value ?dt (slot_len s) i"
    note codec = value_codec[OF v(5,6) slt assms(3)]
    have "field_method p = Some cm" using v(1,2) by (auto simp: value_param_def field_method_def)
    then have "reads_as ext p s (int_bytes ?dt i) (int_value ?dt z)" using codec(2) by (simp add: reads_as_def)
    moreover have "carries ext vals p s (int_bytes ?dt i)"
      using v(1-4) codec(1)[of "nd_physical_type nd"] unfolding carries_def by (metis)
    ultimately show ?thesis using number_to_json[OF codec(3)] by blast
  qed
qed

lemma read_values:
  assumes "\<And>p. p \<in> set ps \<Longrightarrow> reads_as ext p (slot p) (u p) (x p)"
  shows "fields_value ext (map (read_entry slot u) ps) = Inr (map (\<lambda>p. (the (p_short_name p), x p)) ps)"
  using assms
  by (induction ps) (auto simp: read_entry_def field_container_def reads_as_def)

lemma hm_extend_new:
  "distinct (map fst (m @ vs)) \<Longrightarrow> hm_extend m vs = m @ vs"
proof (induction vs arbitrary: m)
  case (Cons kv vs)
  obtain k v where kv: "kv = (k, v)" by (rule prod.exhaust)
  have "hm_insert k v m = m @ [(k, v)]" using Cons.prems by (intro hm_insert_new) (auto simp: kv)
  then show ?case using Cons.IH[of "m @ [(k, v)]"] Cons.prems by (simp add: kv)
qed simp

text \<open>
  C6: A request carries its values. Take a service whose request is made of unsigned constants
  and of integer values that occupy whole bytes, in any order and in either byte order, at byte
  positions where no two of them overlap. Every value is an integer that its field keeps: the method
  of the parameter is the identical one, or a linear one with whole coefficients under which the given
  number has a whole code within the limits; a field of four bytes keeps every code of its type, and a
  shorter one keeps the codes that are not negative and, when it is signed, have a clear sign bit
  (a negative number in a shorter field is read back as another one). Then the request is built from
  the values, and decoding the built payload and printing it as JSON gives exactly the constants and
  the values that were given, in the order of the description, under their names, with no errors.
\<close>

theorem request_roundtrip:
  assumes "cache_coherent preds m" "lookup_predicate nc dc None = preds (cache_key nc dc None)"
    and "find (lookup_predicate nc dc None) (visible_services m) = Some s"
    and "service_diag_comm s = Some comm" "request_of (messages s) = Some (Some ps)"
    and "check_service_access plugin s m = Inr ()"
    and "\<forall>p \<in> set ps. p_short_name p \<noteq> None \<and> param_slot p (slot p) \<and> stands_for ext vals p (slot p) (z p)"
    and "sorted_wrt (\<lambda>p q. slots_apart (slot p) (slot q)) ps" "distinct (map p_short_name ps)"
    and "strict \<longrightarrow> set (map fst vals) \<subseteq> set (List.map_filter p_short_name ps)"
    and "casts_exact ext"
  shows "\<exists>pl m' r. create_uds_payload (Suc depth) ext strict messages nc ta la dc plugin
        (Some (ParameterMap vals)) None m = (Inr pl, m') \<and>
    fst (convert_request_from_uds (Suc depth) ext messages nc dc (service_payload.payload_data pl) True m') =
      Inr r \<and>
    serialize_to_json ext r = Inr \<lparr>json_data = (if ps = [] then JNull
        else JObject (map (\<lambda>p. (the (p_short_name p), number_from_int (z p))) ps)), json_errors = []\<rparr>"
proof -
  have "\<forall>p \<in> set ps. \<exists>ux. carries ext vals p (slot p) (fst ux) \<and> reads_as ext p (slot p) (fst ux) (snd ux) \<and>
      value_to_json (snd ux) = number_from_int (z p)"
    using stands_for_codec[OF _ _ assms(11)] assms(7) by fastforce
  then obtain ux where ux: "\<And>p. p \<in> set ps \<Longrightarrow> carries ext vals p (slot p) (fst (ux p)) \<and>
      reads_as ext p (slot p) (fst (ux p)) (snd (ux p)) \<and> value_to_json (snd (ux p)) = number_from_int (z p)"
    by metis
  let ?u = "\<lambda>p. fst (ux p)" and ?x = "\<lambda>p. snd (ux p)"
  have lay: "request_layout ext vals slot ?u ps" using ux assms(7-9) by (auto simp: request_layout_def)
  note look = coherent_lookup_twice[OF assms(1-3)]
  let ?m = "snd (lookup_diag_service nc dc None None m)"
  obtain bs where bs: "build_request (Suc depth) ext strict (Some ps) (Some (ParameterMap vals)) = Inr bs"
    "\<And>p. p \<in> set ps \<Longrightarrow> slot_holds (slot p) (be_val (?u p)) bs"
    using request_built[OF lay assms(10)] by blast
  obtain pl where pl: "create_uds_payload (Suc depth) ext strict messages nc ta la dc plugin
      (Some (ParameterMap vals)) None m = (Inr pl, ?m)" "service_payload.payload_data pl = bs"
    using create_payload_ok[where messages = messages, OF look(1) assms(4,5,6) bs(1)] by blast
  have "at_start bs (payload_new bs)" by (simp add: at_start_def payload_new_def)
  then obtain pv where f:
    "map_request_params (map_param_from_uds (Suc depth) ext (request_of (messages s))) ps []
      (payload_new bs, []) = (Inr [], (pv, map (read_entry slot ?u) ps))"
    using read_all[where m = "[]" and errors = "[]" and depth = depth and req = "request_of (messages s)",
        OF lay bs(2)] by (simp del: map_param_from_uds.simps) blast
  note conv = convert_request_ok[where messages = messages, OF look(2) assms(5) f]
  have "map p_short_name ps = map Some (map (\<lambda>p. the (p_short_name p)) ps)"
    using assms(7) by auto
  then have names: "distinct (map (\<lambda>p. the (p_short_name p)) ps)" using assms(9) by (metis distinct_map)
  have "fields_value ext (map (read_entry slot ?u) ps) = Inr (map (\<lambda>p. (the (p_short_name p), ?x p)) ps)"
    using ux by (intro read_values) blast
  moreover have "hm_extend [] (map (\<lambda>p. (the (p_short_name p), ?x p)) ps) = map (\<lambda>p. (the (p_short_name p), ?x p)) ps"
    using names by (subst hm_extend_new) (simp_all add: comp_def)
  ultimately have "serialize_to_json ext (create_diag_service_response dc (map (read_entry slot ?u) ps) PositiveType bs []) =
      Inr \<lparr>json_data = (if ps = [] then JNull
        else JObject (map (\<lambda>p. (the (p_short_name p), number_from_int (z p))) ps)), json_errors = []\<rparr>"
    using ux by (auto simp: serialize_to_json_def get_mapped_payload_def lift_result_def map_fields_value
        create_diag_service_response_def comp_def)
  then show ?thesis using pl conv by auto
qed

text \<open>
  A constant of a byte field or text type whose coded value is all digits cannot be encoded: it is
  read as a number first, which these types do not take. So no request of such a service is built.
\<close>

lemma digit_constant_not_encoded:
  assumes "cc_diag_coded_type c = Some fb" "diag_coded_type_try_from fb = Inr d"
    and "base_datatype d \<in> {ByteField, AsciiString, Utf8String, Unicode2String}"
    and "cc_coded_value c = Some (to_string n)" "n < 2 ^ 63" "p_specific p = CodedConstData c"
  shows "\<exists>e. process_coded_constant ext p uds = Inl (Fail (ParameterConversionError e))"
  using assms json_number_of_text[OF assms(5)]
  by (auto simp: process_coded_constant_def specific_data_as_coded_const_def ok_option_def lift_result_def
      json_value_to_uds_data_def as_str_def number_from_int_def)

section \<open>Samples\<close>

text \<open>A write of a temperature: service identifier, two bytes of data identifier, four of value.\<close>

definition standard_fb :: "int \<Rightarrow> nat \<Rightarrow> fb_diag_coded_type" where
  "standard_fb base bits = \<lparr>fb_base_data_type = base, fb_is_high_low_byte_order = True,
     fb_specific_data_type = 4, fb_specific_data = Some (FbStandardLengthType bits None False)\<rparr>"

definition standard_type :: "data_type \<Rightarrow> nat \<Rightarrow> diag_coded_type" where
  "standard_type dt bits = \<lparr>base_datatype = dt,
     dct_type = StandardLength \<lparr>bit_length = bits, sl_bit_mask = None, condensed = False\<rparr>,
     is_high_low_byte_order = True\<rparr>"

definition const_at :: "string \<Rightarrow> nat \<Rightarrow> nat \<Rightarrow> nat \<Rightarrow> param" where
  "const_at name pos bits n = Param (Some name) None (Some pos) None 0
     (CodedConstData \<lparr>cc_coded_value = Some (to_string n), cc_diag_coded_type = Some (standard_fb 1 bits)\<rparr>)"

definition temperature_at :: "nat \<Rightarrow> param" where
  "temperature_at pos = Param (Some ''Temperature'') (Some ''DATA'') (Some pos) None 11
     (ValueData None (Some (NormalDop \<lparr>nd_diag_coded_type = Some (standard_fb 0 32),
        nd_compu_method = Some temperature, nd_physical_type = None\<rparr>)))"

definition write_params :: "param list" where
  "write_params = [const_at ''SID'' 0 8 46, const_at ''DID'' 1 16 61840, temperature_at 3]"

definition write_messages :: service_messages where
  "write_messages = \<lparr>request_of = Some (Some write_params), pos_responses = None, neg_responses = None\<rparr>"

definition write_slot :: "param \<Rightarrow> byte_slot" where
  "write_slot p =
     (if byte_position p = 0 then \<lparr>slot_type = standard_type UInt32 8, slot_pos = 0, slot_len = 1\<rparr>
      else if byte_position p = 1 then \<lparr>slot_type = standard_type UInt32 16, slot_pos = 1, slot_len = 2\<rparr>
      else \<lparr>slot_type = standard_type Int32 32, slot_pos = 3, slot_len = 4\<rparr>)"

definition write_numbers :: "param \<Rightarrow> int" where
  "write_numbers p = (if byte_position p = 0 then 46 else if byte_position p = 1 then 61840 else -15)"

lemmas write_defs = write_params_def const_at_def temperature_at_def write_slot_def write_numbers_def
  standard_type_def standard_fb_def byte_position_def bit_position_def

lemma standard_fb_types:
  "diag_coded_type_try_from (standard_fb 1 bits) = Inr (standard_type UInt32 bits)"
  "diag_coded_type_try_from (standard_fb 0 bits) = Inr (standard_type Int32 bits)"
  by (simp_all add: diag_coded_type_try_from_def data_type_try_from_def variant_try_from_def
      standard_fb_def standard_type_def)

lemma write_slots_ok:
  "slot_ok \<lparr>slot_type = standard_type UInt32 8, slot_pos = 0, slot_len = 1\<rparr>"
  "slot_ok \<lparr>slot_type = standard_type UInt32 16, slot_pos = 1, slot_len = 2\<rparr>"
  "slot_ok \<lparr>slot_type = standard_type Int32 32, slot_pos = 3, slot_len = 4\<rparr>"
  by (simp_all add: slot_ok_def standard_type_def validate_bit_len_def usize_max_def)

lemma temperature_code: "coded_as reference_externs Int32 temperature (-15) 25"
proof -
  let ?sc = "plain_scale\<lparr>rational_coefficients := Some offset_coeffs\<rparr>"
  have "within_limits reference_externs (int_value Int32 25) (upper_limit ?sc) (lower_limit ?sc)"
    by (simp add: plain_scale_def within_limits_def check_numeric_limits_def int_value_def)
  moreover have "cm_category temperature = Linear" "cm_scales temperature = [?sc]"
    "rational_coefficients ?sc = Some offset_coeffs" "int_fits Int32 (-15)"
    by (simp_all add: temperature_def int_fits_def i32_min_def i32_max_def)
  moreover have "1 * (-15) = (-40) + 1 * (25 :: int)" by simp
  ultimately show ?thesis
    unfolding coded_as_def using offset_whole
    by (intro disjI2 conjI exI[of _ ?sc] exI[of _ offset_coeffs] exI[of _ "-40"] exI[of _ 1]) simp_all
qed

lemma write_fields:
  "\<forall>p \<in> set write_params. p_short_name p \<noteq> None \<and> param_slot p (write_slot p) \<and>
     stands_for reference_externs [(''Temperature'', number_from_int (-15))] p (write_slot p) (write_numbers p)"
proof
  let ?vals = "[(''Temperature'', number_from_int (-15))]"
  fix p assume p: "p \<in> set write_params"
  then have slot: "p_short_name p \<noteq> None" "param_slot p (write_slot p)"
    using write_slots_ok
    by (auto simp: write_params_def param_slot_def coded_type_in_def const_at_def temperature_at_def
        write_slot_def byte_position_def bit_position_def standard_fb_types ok_option_def nd_coded_type_def
        diag_coded_type_of_def)
  consider "p = const_at ''SID'' 0 8 46" | "p = const_at ''DID'' 1 16 61840" | "p = temperature_at 3"
    using p by (auto simp: write_params_def)
  then have "stands_for reference_externs ?vals p (write_slot p) (write_numbers p)"
  proof cases
    case 3
    have "value_param p \<lparr>nd_diag_coded_type = Some (standard_fb 0 32), nd_compu_method = Some temperature,
        nd_physical_type = None\<rparr>" "p_short_name p = Some ''Temperature''"
      "base_datatype (slot_type (write_slot p)) = Int32" "slot_len (write_slot p) = 4" "write_numbers p = -15"
      by (simp_all add: 3 value_param_def temperature_at_def write_slot_def write_numbers_def byte_position_def
          standard_type_def)
    moreover have "keeps_value Int32 4 25"
      by (simp add: keeps_value_def is_int_type_def int_fits_def i32_min_def i32_max_def)
    ultimately show ?thesis unfolding stands_for_def using temperature_code by fastforce
  next
    case 1
    then have "const_param p (write_slot p) 46" "write_numbers p = int 46"
      by (simp_all add: const_param_def write_defs)
    then show ?thesis unfolding stands_for_def by metis
  next
    case 2
    then have "const_param p (write_slot p) 61840" "write_numbers p = int 61840"
      by (simp_all add: const_param_def write_defs)
    then show ?thesis unfolding stands_for_def by metis
  qed
  with slot show "p_short_name p \<noteq> None \<and> param_slot p (write_slot p) \<and>
     stands_for reference_externs ?vals p (write_slot p) (write_numbers p)" by blast
qed

theorem request_roundtrip_witness:
  "\<exists>pl m' r. create_uds_payload 1 reference_externs True (\<lambda>_. write_messages) sample_convention 0x0E00 0x1000
        (diag_comm_new ''Vin'' Configurations) None (Some (ParameterMap [(''Temperature'', number_from_int (-15))]))
        None sample_manager = (Inr pl, m') \<and>
    fst (convert_request_from_uds 1 reference_externs (\<lambda>_. write_messages) sample_convention
        (diag_comm_new ''Vin'' Configurations) (service_payload.payload_data pl) True m') = Inr r \<and>
    serialize_to_json reference_externs r = Inr \<lparr>json_data = JObject [(''SID'', number_from_int 46),
      (''DID'', number_from_int 61840), (''Temperature'', number_from_int (-15))], json_errors = []\<rparr>"
proof -
  let ?dc = "diag_comm_new ''Vin'' Configurations"
  let ?s = "sample_service ''Vin_Write'' WRITE_DATA_BY_IDENTIFIER"
  let ?preds = "\<lambda>k. lookup_predicate sample_convention ?dc None"
  have "find (lookup_predicate sample_convention ?dc None) (visible_services sample_manager) = Some ?s"
    using sample_services_visible vin_predicates
    by (simp add: visible_services_def flatten_refs_def sample_services_def)
  moreover have "check_service_access None ?s sample_manager = Inr ()"
    by (simp add: check_service_access_def check_service_preconditions_def sample_service_def
        flatten_refs_def check_security_plugin_def)
  moreover have "cache_coherent ?preds sample_manager"
    using sample_services_visible(4) by (rule coherent_empty)
  moreover have "set (map fst [(''Temperature'', number_from_int (-15))]) \<subseteq>
      set (List.map_filter p_short_name write_params)"
    by (simp add: write_defs List.map_filter_simps)
  moreover have "sorted_wrt (\<lambda>p q. slots_apart (write_slot p) (write_slot q)) write_params"
    "distinct (map p_short_name write_params)"
    by (simp_all add: write_defs slots_apart_def)
  moreover have "map (\<lambda>p. (the (p_short_name p), number_from_int (write_numbers p))) write_params =
      [(''SID'', number_from_int 46), (''DID'', number_from_int 61840), (''Temperature'', number_from_int (-15))]"
    "write_params \<noteq> []" by (simp_all add: write_defs)
  ultimately show ?thesis
    using request_roundtrip[of ?preds sample_manager sample_convention ?dc ?s
        "\<lparr>comm_short_name = Some ''Vin_Write'', pre_condition_state_refs = None, state_transition_refs = None\<rparr>"
        "\<lambda>_. write_messages" write_params None write_slot reference_externs
        "[(''Temperature'', number_from_int (-15))]" write_numbers True 0 "0x0E00" "0x1000"]
      write_fields reference_casts_exact
    by (simp add: sample_service_def write_messages_def)
qed

end
