(* ===== verification/Encode_Total.thy ===== *)
theory Encode_Total
  imports Payload_Encode
begin

text \<open>
  Encoding always returns: the operations of \<open>Payload_Encode\<close> call \<open>map_param_to_uds\<close> only for
  parameters nested in the one they encode, so a bound above the size of the request's
  description is never reached. The operations share one interface, as in decoding.
\<close>

named_theorems returns_intros \<open>results that come from a call that returned\<close>

definition returns :: "'a run \<Rightarrow> bool" where
  "returns r \<longleftrightarrow> r \<noteq> Inl Diverges"

lemma returns_simps [simp]:
  "returns (Inr x)" "returns (err e)" "returns (Inl Panics)" "\<not> returns (Inl Diverges)"
  by (simp_all add: returns_def)

lemma returns_lift [returns_intros]: "returns (lift_result r)"
  by (cases r) (simp_all add: lift_result_def)

lemma returns_bindE [returns_intros]: "returns r \<Longrightarrow> (\<And>x. returns (f x)) \<Longrightarrow> returns (bindE r f)"
  by (cases r) (auto simp: returns_def)

lemma returns_if [returns_intros]: "(c \<Longrightarrow> returns a) \<Longrightarrow> (\<not> c \<Longrightarrow> returns b) \<Longrightarrow> returns (if c then a else b)"
  by simp

lemma returns_Let [returns_intros]: "returns (f x) \<Longrightarrow> returns (let y = x in f y)"
  by simp

lemma returns_option [returns_intros]:
  "returns n \<Longrightarrow> (\<And>x. v = Some x \<Longrightarrow> returns (f x)) \<Longrightarrow> returns (case v of None \<Rightarrow> n | Some x \<Rightarrow> f x)"
  by (cases v) auto

lemma returns_prod [returns_intros]: "(\<And>a b. returns (f a b)) \<Longrightarrow> returns (case p of (a, b) \<Rightarrow> f a b)"
  by (cases p) simp

lemma returns_sum [returns_intros]:
  "(\<And>e. returns (f e)) \<Longrightarrow> (\<And>x. returns (g x)) \<Longrightarrow> returns (case v of Inl e \<Rightarrow> f e | Inr x \<Rightarrow> g x)"
  by (cases v) auto

lemma returns_data_type [returns_intros]:
  "returns a \<Longrightarrow> returns b \<Longrightarrow> returns c \<Longrightarrow> returns d \<Longrightarrow> returns e \<Longrightarrow> returns f \<Longrightarrow> returns g \<Longrightarrow> returns h \<Longrightarrow>
   returns (case t of Int32 \<Rightarrow> a | UInt32 \<Rightarrow> b | Float32 \<Rightarrow> c | AsciiString \<Rightarrow> d | Utf8String \<Rightarrow> e
     | Unicode2String \<Rightarrow> f | ByteField \<Rightarrow> g | Float64 \<Rightarrow> h)"
  by (cases t) auto

lemma returns_bind_lift [returns_intros]:
  "(\<And>x. r = Inr x \<Longrightarrow> returns (f x)) \<Longrightarrow> returns (bindE (lift_result r) f)"
  by (cases r) (simp_all add: lift_result_def)

section \<open>Values\<close>

lemma decode_numeric_returns [returns_intros]: "returns (decode_numeric_val_from_str ext s pt d)"
  unfolding decode_numeric_val_from_str_def by (intro returns_intros returns_simps)

lemma expect_len_returns [returns_intros]: "returns (expect_len n bs)"
  by (simp add: expect_len_def)

lemma parse_json_returns [returns_intros]: "returns (parse_json_to_f64 ext v d pt)"
  unfolding parse_json_to_f64_def by (intro returns_intros returns_simps)

lemma compu_convert_returns [returns_intros]: "returns (compu_convert ext d cm pt cat v)"
proof -
  have "returns (compu_convert_linear ext d cm pt v)"
    unfolding compu_convert_linear_def by (intro returns_intros returns_simps)
  moreover have "returns (compu_convert_scale_linear ext d cm pt v)"
    unfolding compu_convert_scale_linear_def by (intro returns_intros returns_simps)
  moreover have "returns (compu_convert_text_table t cm v)" for t
    unfolding compu_convert_text_table_def by (intro returns_intros returns_simps)
  ultimately show ?thesis by (cases cat) (simp_all add: compu_convert_def)
qed

lemma numeric_json_returns [returns_intros]: "returns (numeric_json_value_to_byte_vector ext v d pt)"
proof -
  have "returns (process_numeric_json_value v d)"
    unfolding process_numeric_json_value_def by (intro returns_intros returns_simps)
  moreover have "returns (process_physical_type_value ext v p d)" for p
    unfolding process_physical_type_value_def by (intro returns_intros returns_simps)
  ultimately show ?thesis
    unfolding numeric_json_value_to_byte_vector_def by (intro returns_intros returns_simps)
qed

lemma json_value_returns [returns_intros]: "returns (json_value_to_uds_data ext d cm pt v)"
  unfolding json_value_to_uds_data_def Let_def by (intro returns_intros returns_simps)

lemma serializable_returns [returns_intros]: "returns (uds_data_to_serializable ext dt cm neg bs)"
  using serializable_tame[of ext dt cm neg bs]
  by (cases "uds_data_to_serializable ext dt cm neg bs") (auto simp: returns_def ordinary_def)

lemma encode_at_returns [returns_intros]: "returns (encode_at d u b p payload)"
  by (auto simp: encode_at_def split: prod.split sum.split)

lemma encode_normal_returns [returns_intros]: "returns (encode_normal ext nd v b p payload)"
  unfolding encode_normal_def by (intro returns_intros)

lemma try_for_each_returns:
  "(\<And>x payload. x \<in> set xs \<Longrightarrow> returns (f x payload)) \<Longrightarrow> returns (try_for_each f xs payload)"
  by (induction xs arbitrary: payload) (auto intro!: returns_bindE)

section \<open>Operations on nested parameters\<close>

locale map_param_to_interface =
  fixes map_param_to :: map_param_to
    and fine :: "param \<Rightarrow> bool"
  assumes fine_returns: "fine q \<Longrightarrow> returns (map_param_to q v pos siblings payload)"
begin

lemma struct_returns:
  assumes "\<forall>q \<in> set_struct_dop s. fine q"
  shows "returns (map_struct_to_uds map_param_to strict s pos v payload)"
proof -
  have "fine p" if "p \<in> set (flatten_refs (st_params s))" for p
    using assms that by (cases s) (auto simp: flatten_refs_def split: option.splits)
  then show ?thesis
    unfolding map_struct_to_uds_def Let_def
    by (intro returns_intros returns_simps try_for_each_returns fine_returns)
qed

lemma end_of_pdu_returns:
  assumes "\<forall>q \<in> field_params fld. fine q"
  shows "returns (map_end_of_pdu_to_uds map_param_to strict mx mn fld pos v payload)"
proof -
  have "\<forall>q \<in> set_struct_dop s. fine q" if "end_of_pdu_structure fld = Inr s" for s
    using assms that
    by (auto simp: end_of_pdu_structure_def field_params_def struct_params_def bindE_Inr_iff
        split: option.splits bind_splits)
  then show ?thesis
    unfolding map_end_of_pdu_to_uds_def
    by (intro returns_intros returns_simps try_for_each_returns struct_returns) auto
qed

lemma selected_case_fine:
  assumes "\<forall>q \<in> dop_params (MuxDop mux). fine q" "mux_case_to_encode ext mux v = Inr (name, Some s)"
  shows "\<forall>q \<in> set_struct_dop s. fine q"
proof (cases "Option.bind (mux_case_struct_from_selector_value ext mux v)
    (\<lambda>(c, s). map_option (\<lambda>name. (name, s)) (mc_short_name c))")
  case None
  then obtain c where "mux_default_case mux = Some c"
    "Option.bind (dc_structure c) specific_data_as_structure = Some s"
    using assms(2) by (auto simp: mux_case_to_encode_def ok_or_def split: option.splits bind_splits)
  then show ?thesis using assms(1) by (auto simp: dop_params_def struct_params_def)
next
  case (Some x)
  then obtain c where "mux_case_struct_from_selector_value ext mux v = Some (c, Some s)"
    using assms(2) by (auto simp: mux_case_to_encode_def split: bind_splits)
  then obtain cs where "mux_cases mux = Some cs" "c \<in> set cs"
    "Option.bind (mc_structure c) specific_data_as_structure = Some s"
    by (auto simp: mux_case_struct_from_selector_value_def find_Some_iff split: bind_splits)
  then show ?thesis using assms(1) by (fastforce simp: dop_params_def struct_params_def)
qed

lemma mux_returns:
  assumes "\<forall>q \<in> dop_params (MuxDop mux). fine q"
  shows "returns (map_mux_to_uds map_param_to ext strict mux v payload)"
proof -
  have sel: "returns (encode_selector ext nd d sk obj)" for nd d sk obj
    unfolding encode_selector_def by (intro returns_intros)
  have case_ok: "returns (case case_structure of
        None \<Rightarrow> Inr (payload @ mp)
      | Some s \<Rightarrow> bindE (lift_result (ok_or (map_of obj name) e)) (\<lambda>struct_data.
          bindE (map_struct_to_uds map_param_to strict s 0 struct_data []) (\<lambda>struct_payload.
            Inr (payload @ mp @ struct_payload))))"
    if "mux_case_to_encode ext mux w = Inr (name, case_structure)" for w name case_structure mp obj e
    using selected_case_fine[OF assms] that
    by (cases case_structure) (auto intro!: returns_intros struct_returns)
  show ?thesis
    unfolding map_mux_to_uds_def
    apply (intro returns_intros returns_simps)
    subgoal for obj sk d variant
      by (cases variant) (auto intro!: returns_intros sel case_ok)
    done
qed

lemma value_returns:
  assumes "\<forall>q \<in> param_children p. fine q"
  shows "returns (map_param_value_to_uds map_param_to ext strict p v pos payload)"
proof (cases "\<exists>dflt d. p_specific p = ValueData dflt (Some d)")
  case True
  then obtain dflt d where sp: "p_specific p = ValueData dflt (Some d)" by blast
  then have fine: "\<forall>q \<in> dop_params d. fine q" using assms by (simp add: param_children_def)
  have "returns (case d of
       NormalDop nd \<Rightarrow> encode_normal ext nd w (param_pos pos p) (bit_position p) payload
     | EndOfPduField mx mn fld \<Rightarrow>
         map_end_of_pdu_to_uds map_param_to strict mx mn fld (param_pos pos p) w payload
     | StructureDop s \<Rightarrow> map_struct_to_uds map_param_to strict s (param_pos pos p) w payload
     | StaticFieldDop _ _ _ \<Rightarrow>
         err (ParameterConversionError ''Mapping StaticField DoP to UDS payload not implemented'')
     | MuxDop mux \<Rightarrow> map_mux_to_uds map_param_to ext strict mux w payload
     | EnvDataDescDop _ _ \<Rightarrow> err (InvalidDatabase ''EnvData(Desc) and DTC DoPs cannot be mapped via parameters'')
     | EnvDataDop _ \<Rightarrow> err (InvalidDatabase ''EnvData(Desc) and DTC DoPs cannot be mapped via parameters'')
     | DtcDop _ \<Rightarrow> err (InvalidDatabase ''EnvData(Desc) and DTC DoPs cannot be mapped via parameters'')
     | DynamicLengthFieldDop _ _ _ \<Rightarrow>
         err (ParameterConversionError ''Mapping DynamicLengthField DoP to UDS payload not implemented'')
     | _ \<Rightarrow> Inl Panics)" for w
    using fine
    by (cases d) (auto simp: dop_params_def intro!: encode_normal_returns end_of_pdu_returns struct_returns mux_returns)
  moreover have "dop_variant d = Inr variant \<Longrightarrow> variant = d" for variant
    by (cases d) (auto simp: dop_variant_def)
  ultimately show ?thesis
    unfolding map_param_value_to_uds_def
    by (auto simp: sp specific_data_as_value_def intro!: returns_bind_lift)
next
  case False
  then show ?thesis
    by (auto simp: map_param_value_to_uds_def specific_data_as_value_def lift_result_def
        split: specific.splits option.splits)
qed

lemma phys_const_returns:
  assumes "\<forall>q \<in> param_children p. fine q"
  shows "returns (map_phys_const_param_to_uds map_param_to ext strict p v payload)"
proof (cases "\<exists>c d. p_specific p = PhysConstData c (Some d)")
  case True
  then obtain c d where sp: "p_specific p = PhysConstData c (Some d)" by blast
  then have fine: "\<forall>q \<in> dop_params d. fine q" using assms by (simp add: param_children_def)
  have "returns (case d of
       NormalDop nd \<Rightarrow> encode_normal ext nd w (byte_position p) (bit_position p) payload
     | StructureDop s \<Rightarrow> map_struct_to_uds map_param_to strict s (byte_position p) w payload
     | MuxDop mux \<Rightarrow> map_mux_to_uds map_param_to ext strict mux w payload
     | _ \<Rightarrow> err (InvalidDatabase ''PhysConst has unsupported DOP variant''))" for w
    using fine
    by (cases d) (auto simp: dop_params_def intro!: encode_normal_returns struct_returns mux_returns)
  moreover have "dop_variant d = Inr variant \<Longrightarrow> variant = d" for variant
    by (cases d) (auto simp: dop_variant_def)
  ultimately show ?thesis
    unfolding map_phys_const_param_to_uds_def
    by (auto simp: sp specific_data_as_phys_const_def intro!: returns_bind_lift)
next
  case False
  then show ?thesis
    by (auto simp: map_phys_const_param_to_uds_def specific_data_as_phys_const_def lift_result_def
        split: specific.splits option.splits)
qed

lemma table_struct_returns:
  assumes "\<forall>q \<in> param_children p. fine q"
  shows "returns (map_table_struct_to_uds map_param_to strict p v pos siblings payload)"
proof -
  have row_fine: "\<forall>q \<in> set_struct_dop s. fine q"
    if "specific_data_as_table_struct p = Some (Some k)" "specific_data_as_table_key k = Some (Some table)"
      "table_rows table = Some rows" "find P rows = Some row" "row_structure row = Some (StructureDop s)"
    for k table rows P row s
  proof -
    have "row \<in> set rows" using that(4) by (auto simp: find_Some_iff)
    then have "set_struct_dop s \<subseteq> row_params k"
      using that(2,3,5)
      by (auto simp: row_params_def struct_params_def specific_data_as_table_key_def
          specific_data_as_structure_def split: specific.splits intro!: bexI[of _ row])
    moreover have "row_params k \<subseteq> param_children p"
      using that(1) by (auto simp: param_children_def specific_data_as_table_struct_def split: specific.splits)
    ultimately show ?thesis using assms by blast
  qed
  show ?thesis
    unfolding map_table_struct_to_uds_def Let_def
    apply (intro returns_bind_lift returns_option returns_if returns_simps)
    subgoal for key_ref key_param key_name sib key_value key_str table_ref table rows row sd variant
      using row_fine[of key_param table rows "row_matches key_str" row]
      by (cases sd) (auto simp: dop_variant_def ok_or_def split: option.splits intro!: struct_returns)
    done
qed

lemma step_returns:
  assumes "\<forall>q \<in> param_children p. fine q"
  shows "returns (map_param_to_step map_param_to ext strict p v pos siblings payload)"
proof -
  have "returns (map_param_length_key_to_uds ext p v pos payload)"
    unfolding map_param_length_key_to_uds_def
    by (intro returns_bind_lift) (auto split: dop.split intro: encode_normal_returns)
  moreover have "returns (map_table_key_to_uds ext p v pos payload)"
    unfolding map_table_key_to_uds_def
    by (intro returns_bind_lift returns_if) (auto split: dop.split intro: encode_normal_returns)
  moreover have "returns (map_reserved_param_to_uds p payload)"
    unfolding map_reserved_param_to_uds_def by (intro returns_intros)
  ultimately show ?thesis
    using value_returns[OF assms] phys_const_returns[OF assms] table_struct_returns[OF assms]
    unfolding map_param_to_step_def
    by (intro returns_bind_lift) (auto split: param_type.split)
qed

end

lemma map_param_to_uds_returns:
  "size p < depth \<Longrightarrow> returns (map_param_to_uds depth ext strict p v pos siblings payload)"
proof (induction depth arbitrary: p v pos siblings payload)
  case (Suc depth)
  have "map_param_to_interface (map_param_to_uds depth ext strict) (\<lambda>q. size q < depth)"
    by unfold_locales (rule Suc.IH)
  then show ?case
    using Suc.prems param_children_size
    unfolding map_param_to_uds.simps by (intro map_param_to_interface.step_returns) fastforce+
qed simp

interpretation encoder: map_param_to_interface "map_param_to_uds depth ext strict"
  "\<lambda>q. size q < depth" for depth ext strict
  by unfold_locales (rule map_param_to_uds_returns)

text \<open>
  C30: Building a request always comes to an end, and this is all the theorem says: with a nesting
  bound above the size of every parameter of the request, whatever data are given for it, the result
  is a payload, an error or the panic of a conversion, and never a call beyond the bound. The panic
  does occur, for a long hexadecimal text: \<open>long_hex_text_panics\<close> in \<open>Compu_Correct\<close>.
\<close>

theorem build_request_returns:
  assumes "\<forall>p \<in> set (flatten_refs params). size p < depth"
  shows "build_request depth ext strict params given \<noteq> Inl Diverges"
proof -
  have const: "returns (process_coded_constant ext p payload)" for p payload
    unfolding process_coded_constant_def by (intro returns_intros returns_simps)
  have "returns (process_parameter (map_param_to_uds depth ext strict) vals p payload)"
    if "p \<in> set (sort_params (flatten_refs params))" for vals p payload
    using assms that unfolding process_parameter_def Let_def
    by (intro returns_bind_lift encoder.fine_returns) simp
  then have "returns (build_request depth ext strict params given)"
    unfolding build_request_def process_coded_constants_def process_parameter_map_def Let_def
    by (intro returns_bindE try_for_each_returns const)
      (auto split: uds_payload_data.split intro!: returns_bind_lift try_for_each_returns)
  then show ?thesis by (simp add: returns_def)
qed

theorem build_request_returns_witness:
  "build_request 100 reference_externs True (Some [sid_param ''34'']) None \<noteq> Inl Diverges"
  using build_request_returns[of "Some [sid_param ''34'']" 100 reference_externs True None]
  by (simp add: flatten_refs_def sid_param_def)

end
