(* ===== verification/Request_Prefix.thy ===== *)
theory Request_Prefix
  imports Payload_Encode Response_Json
begin

text \<open>
  Raw requests and the services they belong to: the coded constants a request starts with and
  the comparison of raw bytes with them (\<open>DiagService\<close> of \<open>cda-database/src/datatypes.rs\<close>), and the
  access check of a raw request (\<open>check_genericservice\<close> of
  \<open>cda-core/src/diag_kernel/payload_encode.rs\<close>, \<open>diag_comm_lookup.rs\<close>).
\<close>

section \<open>Constants at the start of a request\<close>

definition request_const_at :: "nat \<Rightarrow> nat \<Rightarrow> param \<Rightarrow> (nat \<times> nat) option" where
  "request_const_at byte_pos bit_pos p =
     (if byte_position p \<noteq> byte_pos \<or> bit_position p \<noteq> bit_pos then None
      else Option.bind (specific_data_as_coded_const p) (\<lambda>c.
        Option.bind (cc_diag_coded_type c) (\<lambda>t.
        if fb_base_data_type t \<noteq> 1 \<or> fb_specific_data_type t \<noteq> 4 then None
        else (case fb_specific_data t of
            Some (FbStandardLengthType bits bit_mask cond) \<Rightarrow>
              if cond \<or> (case bit_mask of None \<Rightarrow> False | Some m \<Rightarrow> m \<noteq> []) then None
              else Option.bind (cc_coded_value c) (\<lambda>s.
                case from_str_radix u32_max 10 s of Inl e \<Rightarrow> None | Inr v \<Rightarrow> Some (v, bits))
          | _ \<Rightarrow> None))))"

definition find_request_sid_or_sub_func_param ::
  "param list option option \<Rightarrow> nat \<Rightarrow> nat \<Rightarrow> (nat \<times> nat) option" where
  "find_request_sid_or_sub_func_param request byte_pos bit_pos =
     Option.bind request (\<lambda>params. Option.bind params (find_map (request_const_at byte_pos bit_pos)))"

record raw_coded_const =
  raw_byte_position :: nat
  raw_value :: nat
  raw_bit_length :: nat

definition raw_byte_count :: "raw_coded_const \<Rightarrow> nat" where
  "raw_byte_count c = div_ceil (raw_bit_length c) 8"

text \<open>The loop of \<open>extract_sequential_coded_consts\<close>; \<open>None\<close> stands for not returning.\<close>

partial_function (option) extract_loop ::
  "param list option option \<Rightarrow> nat \<Rightarrow> raw_coded_const list \<Rightarrow> raw_coded_const list option" where
  "extract_loop request byte_pos result =
     (case find_request_sid_or_sub_func_param request byte_pos 0 of
        None \<Rightarrow> Some result
      | Some (v, bits) \<Rightarrow>
          extract_loop request (saturating_add_u32 byte_pos (div_ceil bits 8))
            (result @ [\<lparr>raw_byte_position = byte_pos, raw_value = v, raw_bit_length = bits\<rparr>]))"

definition extract_sequential_coded_consts :: "param list option option \<Rightarrow> raw_coded_const list option" where
  "extract_sequential_coded_consts request = extract_loop request 0 []"

section \<open>Comparison with raw bytes\<close>

fun match_consts :: "byte list \<Rightarrow> raw_coded_const list \<Rightarrow> nat \<Rightarrow> bool" where
  "match_consts request_bytes [] byte_idx = True"
| "match_consts request_bytes (c # cs) byte_idx =
     (if raw_byte_count c > 4 then False
      else if byte_idx + raw_byte_count c > usize_max then False
      else if byte_idx + raw_byte_count c > length request_bytes then True
      else case get_range request_bytes byte_idx (byte_idx + raw_byte_count c) of
          None \<Rightarrow> False
        | Some param_slice \<Rightarrow>
            if raw_value c \<noteq> be_val (replicate (4 - raw_byte_count c) 0 @ param_slice) then False
            else match_consts request_bytes cs (byte_idx + raw_byte_count c))"

definition matches_request_prefix :: "param list option option \<Rightarrow> byte list \<Rightarrow> bool option" where
  "matches_request_prefix request request_bytes =
     map_option (\<lambda>cs. match_consts request_bytes cs 0) (extract_sequential_coded_consts request)"

text \<open>\<open>find\<close> with a test that may not return.\<close>

fun find_returning :: "('a \<Rightarrow> bool option) \<Rightarrow> 'a list \<Rightarrow> 'a option option" where
  "find_returning f [] = Some None"
| "find_returning f (x # xs) = Option.bind (f x) (\<lambda>b. if b then Some (Some x) else find_returning f xs)"

definition check_genericservice ::
  "(diag_service \<Rightarrow> service_messages) \<Rightarrow> 16 word \<Rightarrow> 16 word \<Rightarrow> security_plugin \<Rightarrow> byte list \<Rightarrow> ecu_manager \<Rightarrow>
   service_payload run" where
  "check_genericservice messages tester_address logical_address plugin rawdata m =
     bindE (lift_result (ok_or (get rawdata 0) (BadPayload ''Expected at least 1 byte to read SID''))) (\<lambda>sid.
     bindE (lift_result (lookup_services_by_sid sid m)) (\<lambda>services.
     case find_returning (\<lambda>s. matches_request_prefix (request_of (messages s)) rawdata) services of
       None \<Rightarrow> Inl Diverges
     | Some found \<Rightarrow>
         bindE (lift_result (ok_or found (NotFound ''No matching generic service found for request prefix'')))
         (\<lambda>service.
         bindE (lift_result (ok_or (service_diag_comm service) (InvalidDatabase ''Service is missing DiagComm'')))
         (\<lambda>comm.
         bindE (lift_result (check_service_access plugin service m)) (\<lambda>_.
           case lookup_state_transition_by_diagcomm_for_active comm m of (ses, sec) \<Rightarrow>
             Inr \<lparr>service_payload.payload_data = rawdata, source_address = tester_address,
                  target_address = logical_address, new_session = ses, new_security = sec\<rparr>)))))"

section \<open>Extraction ends\<close>

definition consts_advance :: "param list option option \<Rightarrow> bool" where
  "consts_advance request \<longleftrightarrow> (\<forall>pos v bits.
     find_request_sid_or_sub_func_param request pos 0 = Some (v, bits) \<longrightarrow>
       0 < bits \<and> pos + div_ceil bits 8 \<le> u32_max)"

lemma const_position:
  "find_request_sid_or_sub_func_param request pos 0 = Some x \<Longrightarrow>
   \<exists>ps p. request = Some (Some ps) \<and> p \<in> set ps \<and> byte_position p = pos"
proof -
  assume f: "find_request_sid_or_sub_func_param request pos 0 = Some x"
  then obtain ps where ps: "request = Some (Some ps)" "find_map (request_const_at pos 0) ps = Some x"
    by (auto simp: find_request_sid_or_sub_func_param_def split: bind_splits)
  obtain p where "p \<in> set ps" "request_const_at pos 0 p = Some x" using find_map_Some[OF ps(2)] by blast
  then show ?thesis using ps(1) by (auto simp: request_const_at_def split: if_splits)
qed

definition last_position :: "param list option option \<Rightarrow> nat" where
  "last_position request = (case request of
      Some (Some ps) \<Rightarrow> Max (insert 0 (byte_position ` set ps)) | _ \<Rightarrow> 0)"

lemma const_below_last:
  "find_request_sid_or_sub_func_param request pos 0 = Some x \<Longrightarrow> pos \<le> last_position request"
  using const_position[of request pos x] by (auto simp: last_position_def)

lemma extract_loop_returns:
  "consts_advance request \<Longrightarrow> \<exists>cs. extract_loop request pos result = Some (result @ cs)"
proof (induction "Suc (last_position request) - pos" arbitrary: pos result rule: less_induct)
  case less
  show ?case
  proof (cases "find_request_sid_or_sub_func_param request pos 0")
    case None
    then show ?thesis by (simp add: extract_loop.simps[of request pos])
  next
    case (Some x)
    obtain v bits where x: "x = (v, bits)" by fastforce
    let ?next = "saturating_add_u32 pos (div_ceil bits 8)"
    have adv: "0 < bits" "pos + div_ceil bits 8 \<le> u32_max"
      using less.prems Some x by (auto simp: consts_advance_def)
    have "0 < div_ceil bits 8" using adv(1) by (auto simp: div_ceil_def)
    then have "pos < ?next" using adv(2) by (simp add: saturating_add_u32_def)
    then have "Suc (last_position request) - ?next < Suc (last_position request) - pos"
      using const_below_last[OF Some] by linarith
    then obtain cs where "extract_loop request ?next
        (result @ [\<lparr>raw_byte_position = pos, raw_value = v, raw_bit_length = bits\<rparr>]) =
        Some ((result @ [\<lparr>raw_byte_position = pos, raw_value = v, raw_bit_length = bits\<rparr>]) @ cs)"
      using less.hyps less.prems by blast
    then show ?thesis using Some x by (simp add: extract_loop.simps[of request pos])
  qed
qed

text \<open>A constant of no bits keeps the loop at its position for ever.\<close>

lemma zero_bits_diverge:
  assumes "find_request_sid_or_sub_func_param request pos 0 = Some (v, 0)" "pos \<le> u32_max"
  shows "extract_loop request pos result = None"
proof -
  have "\<not> (request' = request \<and> pos' = pos)" if "extract_loop request' pos' result' = Some r"
    for request' pos' result' r
    using that
  proof (induction rule: extract_loop.raw_induct[rotated, consumes 1, case_names step])
    case (step loop request' pos' result' r)
    show ?case
    proof
      assume eq: "request' = request \<and> pos' = pos"
      have "loop request pos (result' @ [\<lparr>raw_byte_position = pos, raw_value = v, raw_bit_length = 0\<rparr>]) = Some r"
        using step(2) eq assms by (simp add: saturating_add_u32_def div_ceil_def)
      then show False using step(1) by blast
    qed
  qed
  then show ?thesis by (cases "extract_loop request pos result") auto
qed

section \<open>An accepted request belongs to the service that was checked\<close>

fun sequential :: "param list option option \<Rightarrow> nat \<Rightarrow> raw_coded_const list \<Rightarrow> bool" where
  "sequential request pos [] \<longleftrightarrow> True"
| "sequential request pos (c # cs) \<longleftrightarrow> raw_byte_position c = pos \<and>
     find_request_sid_or_sub_func_param request pos 0 = Some (raw_value c, raw_bit_length c) \<and>
     sequential request (saturating_add_u32 pos (raw_byte_count c)) cs"

definition const_in :: "byte list \<Rightarrow> raw_coded_const \<Rightarrow> bool" where
  "const_in bs c \<longleftrightarrow> (raw_byte_position c + raw_byte_count c \<le> length bs \<longrightarrow>
     be_val (take (raw_byte_count c) (drop (raw_byte_position c) bs)) = raw_value c)"

lemma extract_loop_sequential:
  assumes "extract_loop request pos result = Some r"
  shows "\<exists>cs. r = result @ cs \<and> sequential request pos cs"
  using assms
proof (induction rule: extract_loop.raw_induct[rotated, consumes 1, case_names step])
  case (step loop request pos result r)
  show ?case
  proof (cases "find_request_sid_or_sub_func_param request pos 0")
    case None
    then show ?thesis using step(2) by (auto intro: exI[of _ "[]"])
  next
    case (Some x)
    obtain v bits where x: "x = (v, bits)" by fastforce
    let ?c = "\<lparr>raw_byte_position = pos, raw_value = v, raw_bit_length = bits\<rparr>"
    obtain cs where "r = (result @ [?c]) @ cs"
        "sequential request (saturating_add_u32 pos (div_ceil bits 8)) cs"
      using step(1)[of request "saturating_add_u32 pos (div_ceil bits 8)" "result @ [?c]" r] step(2) Some x
      by auto
    then show ?thesis using Some x
      by (intro exI[of _ "?c # cs"]) (simp add: raw_byte_count_def)
  qed
qed

lemma sequential_from: "sequential request pos cs \<Longrightarrow> pos \<le> u32_max \<Longrightarrow> c \<in> set cs \<Longrightarrow> pos \<le> raw_byte_position c"
proof (induction cs arbitrary: pos)
  case (Cons d ds)
  let ?next = "saturating_add_u32 pos (raw_byte_count d)"
  have "pos \<le> ?next" "?next \<le> u32_max" using Cons.prems(2) by (simp_all add: saturating_add_u32_def)
  then show ?case using Cons.IH[of ?next] Cons.prems by auto
qed simp

lemma be_val_padded: "be_val (replicate k 0 @ bs) = be_val bs"
  by (induction k) simp_all

lemma match_consts_in:
  assumes "match_consts bs cs i" "sequential request (min i u32_max) cs" "length bs < u32_max" "c \<in> set cs"
  shows "const_in bs c"
  using assms
proof (induction cs arbitrary: i)
  case (Cons d ds)
  let ?i = "i + raw_byte_count d"
  have seq: "raw_byte_position d = min i u32_max" "sequential request (min ?i u32_max) ds"
    using Cons.prems(2) by (auto simp: saturating_add_u32_def min_def split: if_splits)
  show ?case
  proof (cases "?i > length bs")
    case True
    have "min ?i u32_max \<le> raw_byte_position c" if "c \<in> set ds"
      using sequential_from[OF seq(2) _ that] by simp
    then show ?thesis using True Cons.prems(3,4) seq(1) by (auto simp: const_in_def min_def split: if_splits)
  next
    case False
    then have here: "const_in bs d" and rest: "match_consts bs ds ?i"
      using Cons.prems(1,3) seq(1) by (auto simp: const_in_def get_range_def be_val_padded min_def split: if_splits)
    then show ?thesis using Cons.IH[OF rest seq(2) Cons.prems(3)] Cons.prems(4) by auto
  qed
qed simp

lemma matches_request_prefix_sound:
  assumes "matches_request_prefix request bs = Some True" "length bs < u32_max"
  shows "\<exists>cs. extract_sequential_coded_consts request = Some cs \<and> sequential request 0 cs \<and> list_all (const_in bs) cs"
proof -
  obtain cs where cs: "extract_sequential_coded_consts request = Some cs" "match_consts bs cs 0"
    using assms(1) by (auto simp: matches_request_prefix_def)
  then have "sequential request 0 cs"
    using extract_loop_sequential[of request 0 "[]" cs] by (auto simp: extract_sequential_coded_consts_def)
  then show ?thesis using cs match_consts_in[OF cs(2) _ assms(2)] by (auto simp: list_all_iff)
qed

lemma match_consts_not:
  assumes "\<not> match_consts bs cs i" "sequential request (min i u32_max) cs" "length bs < u32_max" "i \<le> length bs"
  shows "\<exists>c \<in> set cs. 4 < raw_byte_count c \<or> \<not> const_in bs c"
  using assms
proof (induction cs arbitrary: i)
  case (Cons d ds)
  let ?i = "i + raw_byte_count d"
  have seq: "raw_byte_position d = i" "sequential request (min ?i u32_max) ds"
    using Cons.prems(2-4) by (auto simp: saturating_add_u32_def min_def split: if_splits)
  show ?case
  proof (cases "4 < raw_byte_count d \<or> \<not> const_in bs d")
    case True
    then show ?thesis by auto
  next
    case False
    have "?i \<le> usize_max" using False Cons.prems(3,4) by (simp add: u32_max_def usize_max_def)
    then have "?i \<le> length bs" "\<not> match_consts bs ds ?i"
      using Cons.prems(1) False seq(1) by (auto simp: const_in_def get_range_def be_val_padded split: if_splits)
    then show ?thesis using Cons.IH[OF _ seq(2) Cons.prems(3)] by auto
  qed
qed simp

lemma matches_request_prefix_refused:
  assumes "matches_request_prefix request bs = Some False" "length bs < u32_max"
  shows "\<exists>cs. extract_sequential_coded_consts request = Some cs \<and>
    (\<exists>c \<in> set cs. 4 < raw_byte_count c \<or> \<not> const_in bs c)"
proof -
  obtain cs where cs: "extract_sequential_coded_consts request = Some cs" "\<not> match_consts bs cs 0"
    using assms(1) by (auto simp: matches_request_prefix_def)
  then have "sequential request 0 cs"
    using extract_loop_sequential[of request 0 "[]" cs] by (auto simp: extract_sequential_coded_consts_def)
  then show ?thesis using cs match_consts_not[OF cs(2) _ assms(2)] by auto
qed

lemma find_returning_first:
  "find_returning f xs = Some (Some x) \<Longrightarrow>
   \<exists>pre post. xs = pre @ x # post \<and> f x = Some True \<and> (\<forall>y\<in>set pre. f y = Some False)"
proof (induction xs)
  case (Cons y ys)
  then obtain b where b: "f y = Some b" by (auto split: bind_splits)
  show ?case
  proof (cases b)
    case True
    then show ?thesis using Cons.prems b by (intro exI[of _ "[]"] exI[of _ ys]) simp
  next
    case False
    then obtain pre post where "ys = pre @ x # post" "f x = Some True" "\<forall>z\<in>set pre. f z = Some False"
      using Cons b by auto
    then show ?thesis using b False by (intro exI[of _ "y # pre"] exI[of _ post]) auto
  qed
qed simp

text \<open>
  C9: A raw request that \<open>check_genericservice\<close> accepts is sent as it was given, after the access check
  of the first service with its service identifier whose constants at the start of the request
  (identifier, sub-function, data identifier, ...) agree with the request: every constant that lies
  wholly within the request has its value there, at the position the database gives it. A constant
  that the request ends in or before is not compared. Each earlier service has a constant that lies
  wholly within the request with another value, or one of more than four bytes. The session and
  security changes attached to the request are those of the service that was checked.\<close>

theorem generic_service_checked:
  assumes accepted: "check_genericservice messages tester ecu plugin rawdata m = Inr p"
    and size: "length rawdata < u32_max"
  shows "service_payload.payload_data p = rawdata \<and> source_address p = tester \<and> target_address p = ecu \<and>
    (\<exists>sid rest pre s post comm cs. rawdata = sid # rest \<and>
       lookup_services_by_sid sid m = Inr (pre @ s # post) \<and>
       (\<forall>t\<in>set pre. \<exists>cs. extract_sequential_coded_consts (request_of (messages t)) = Some cs \<and>
          (\<exists>c \<in> set cs. 4 < raw_byte_count c \<or>
             raw_byte_position c + raw_byte_count c \<le> length rawdata \<and>
             be_val (take (raw_byte_count c) (drop (raw_byte_position c) rawdata)) \<noteq> raw_value c)) \<and>
       extract_sequential_coded_consts (request_of (messages s)) = Some cs \<and>
       sequential (request_of (messages s)) 0 cs \<and>
       (\<forall>c \<in> set cs. raw_byte_position c + raw_byte_count c \<le> length rawdata \<longrightarrow>
          be_val (take (raw_byte_count c) (drop (raw_byte_position c) rawdata)) = raw_value c) \<and>
       check_service_access plugin s m = Inr () \<and> service_diag_comm s = Some comm \<and>
       (new_session p, new_security p) = lookup_state_transition_by_diagcomm_for_active comm m)"
proof -
  obtain sid rest where raw: "rawdata = sid # rest"
    using accepted by (cases rawdata) (auto simp: check_genericservice_def get_def lift_result_def)
  obtain services s comm where parts: "lookup_services_by_sid sid m = Inr services"
      "find_returning (\<lambda>s. matches_request_prefix (request_of (messages s)) rawdata) services = Some (Some s)"
      "service_diag_comm s = Some comm" "check_service_access plugin s m = Inr ()"
      and p: "(case lookup_state_transition_by_diagcomm_for_active comm m of (ses, sec) \<Rightarrow>
        Inr \<lparr>service_payload.payload_data = rawdata, source_address = tester,
          target_address = ecu, new_session = ses, new_security = sec\<rparr>) = (Inr p :: service_payload run)"
    using accepted raw
    by (auto simp: check_genericservice_def get_def result_simps split: option.splits)
  obtain pre post where found: "services = pre @ s # post"
      "matches_request_prefix (request_of (messages s)) rawdata = Some True"
      "\<forall>t\<in>set pre. matches_request_prefix (request_of (messages t)) rawdata = Some False"
    using find_returning_first[OF parts(2)] by blast
  obtain cs where cs: "extract_sequential_coded_consts (request_of (messages s)) = Some cs"
      "sequential (request_of (messages s)) 0 cs" "list_all (const_in rawdata) cs"
    using matches_request_prefix_sound[OF found(2) size] by blast
  have agree: "\<forall>c \<in> set cs. raw_byte_position c + raw_byte_count c \<le> length rawdata \<longrightarrow>
      be_val (take (raw_byte_count c) (drop (raw_byte_position c) rawdata)) = raw_value c"
    using cs(3) by (auto simp: list_all_iff const_in_def)
  have refused: "\<forall>t\<in>set pre. \<exists>cs. extract_sequential_coded_consts (request_of (messages t)) = Some cs \<and>
      (\<exists>c \<in> set cs. 4 < raw_byte_count c \<or> raw_byte_position c + raw_byte_count c \<le> length rawdata \<and>
         be_val (take (raw_byte_count c) (drop (raw_byte_position c) rawdata)) \<noteq> raw_value c)"
    using found(3) matches_request_prefix_refused[OF _ size] unfolding const_in_def by blast
  have "service_payload.payload_data p = rawdata" "source_address p = tester" "target_address p = ecu"
      "(new_session p, new_security p) = lookup_state_transition_by_diagcomm_for_active comm m"
    using p by (auto split: prod.splits)
  then show ?thesis using raw parts(1,3,4) found(1) cs(1,2) agree refused by blast
qed

section \<open>Samples\<close>

definition prefix_const :: "nat \<Rightarrow> nat \<Rightarrow> nat \<Rightarrow> param" where
  "prefix_const n pos bits = Param (Some ''Const'') None (Some pos) None 0
     (CodedConstData \<lparr>cc_coded_value = Some (to_string n), cc_diag_coded_type = Some \<lparr>fb_base_data_type = 1,
        fb_is_high_low_byte_order = True, fb_specific_data_type = 4,
        fb_specific_data = Some (FbStandardLengthType bits None False)\<rparr>\<rparr>)"

definition did_request :: "param list option option" where
  "did_request = Some (Some [prefix_const 46 0 8, prefix_const 61840 1 16])"

lemma prefix_const_at [simp]:
  "n \<le> u32_max \<Longrightarrow> request_const_at pos 0 (prefix_const n p bits) = (if p = pos then Some (n, bits) else None)"
  by (simp add: prefix_const_def request_const_at_def from_str_radix_to_string byte_position_def bit_position_def
      specific_data_as_coded_const_def)

lemma did_consts_at:
  "find_request_sid_or_sub_func_param did_request pos 0 =
     (if pos = 0 then Some (46, 8) else if pos = 1 then Some (61840, 16) else None)"
  by (simp add: find_request_sid_or_sub_func_param_def did_request_def u32_max_def)

lemma did_consts:
  "extract_sequential_coded_consts did_request =
     Some [\<lparr>raw_byte_position = 0, raw_value = 46, raw_bit_length = 8\<rparr>,
           \<lparr>raw_byte_position = 1, raw_value = 61840, raw_bit_length = 16\<rparr>]"
  by (simp add: extract_sequential_coded_consts_def extract_loop.simps[of did_request] did_consts_at
      saturating_add_u32_def div_ceil_def u32_max_def)

lemma did_matches: "matches_request_prefix did_request [0x2E, 0xF1, 0x90, 1] = Some True"
  by (simp add: matches_request_prefix_def did_consts raw_byte_count_def div_ceil_def usize_max_def
      get_range_def be_val_padded)

text \<open>
  A request that ends inside a constant is not compared with the bytes it does have: a write of a
  data identifier that starts with 12 is taken for a write of F190.
\<close>

lemma truncated_const_ignored: "matches_request_prefix did_request [0x2E, 0x12] = Some True"
  by (simp add: matches_request_prefix_def did_consts raw_byte_count_def div_ceil_def usize_max_def
      get_range_def be_val_padded)

text \<open>A constant of no bits keeps the extraction, and so the check of a raw request, from returning.\<close>

lemma zero_bit_const_diverges:
  "matches_request_prefix (Some (Some [prefix_const 46 0 0])) bs = None"
proof -
  have "find_request_sid_or_sub_func_param (Some (Some [prefix_const 46 0 0])) 0 0 = Some (46, 0)"
    by (simp add: find_request_sid_or_sub_func_param_def u32_max_def)
  then show ?thesis
    by (simp add: matches_request_prefix_def extract_sequential_coded_consts_def zero_bits_diverge)
qed

theorem generic_service_checked_witness:
  "\<exists>p. check_genericservice (\<lambda>_. sample_messages\<lparr>request_of := did_request\<rparr>) 0x0E00 0x1000 None
      [0x2E, 0xF1, 0x90, 1] sample_manager = Inr p \<and> service_payload.payload_data p = [0x2E, 0xF1, 0x90, 1] \<and>
    (\<exists>s cs. extract_sequential_coded_consts did_request = Some cs \<and>
       (\<forall>c \<in> set cs. raw_byte_position c + raw_byte_count c \<le> 4 \<longrightarrow>
          be_val (take (raw_byte_count c) (drop (raw_byte_position c) [0x2E, 0xF1, 0x90, 1])) = raw_value c) \<and>
       check_service_access None s sample_manager = Inr ())"
proof -
  let ?m = "\<lambda>_::diag_service. sample_messages\<lparr>request_of := did_request\<rparr>"
  let ?raw = "[0x2E, 0xF1, 0x90, 1] :: byte list"
  let ?s = "sample_service ''Vin_Write'' WRITE_DATA_BY_IDENTIFIER"
  have "lookup_services_by_sid 0x2E sample_manager = Inr [?s]"
    by (simp add: lookup_services_by_sid_def get_services_from_variant_and_parent_refs_def sample_manager_def
        demo_manager_def sample_data_def current_variant_def base_variant_of_def ecu_runtime_state_new_def
        ecu_state_default_def sample_services_def sample_service_def flatten_refs_def
        READ_DATA_BY_IDENTIFIER_def WRITE_DATA_BY_IDENTIFIER_def get_parent_ref_services_recursive_def
        get_parent_ref_diag_layers_with_refs_recursive_def resolve_loop.simps)
  moreover have "check_service_access None ?s sample_manager = Inr ()"
    by (simp add: check_service_access_def check_service_preconditions_def sample_service_def
        flatten_refs_def check_security_plugin_def)
  moreover obtain comm where "service_diag_comm ?s = Some comm" by (simp add: sample_service_def)
  moreover obtain ses sec where "lookup_state_transition_by_diagcomm_for_active comm sample_manager = (ses, sec)"
    by (rule prod.exhaust)
  ultimately obtain p where p: "check_genericservice ?m 0x0E00 0x1000 None ?raw sample_manager = Inr p"
    by (simp add: check_genericservice_def get_def lift_result_def did_matches)
  show ?thesis using generic_service_checked[OF p] p by (auto simp: u32_max_def)
qed

end
