(* ===== verification/Diag_Request.thy ===== *)
theory Diag_Request
  imports Detection_Requests Response_Json Request_Prefix
begin

text \<open>
  A whole diagnostic request (\<open>cda-comm-uds/src/transport.rs\<close>): the lookup and the access check of
  the service, the encoding of its parameters, the exchange with the ECU and the decoding of the
  answer, over one state. The run-time state of an ECU is shared between its manager and the
  coordinator, so each part continues with the state the other one left.
\<close>

section \<open>Model\<close>

text \<open>What does not change during a request; \<open>link_depth\<close> bounds the nesting of the description.\<close>

record ecu_link =
  link_name :: string
  link_params :: uds_parameters
  link_tester :: "16 word"
  link_logical :: "16 word"
  link_convention :: naming_convention
  link_messages :: "diag_service \<Rightarrow> service_messages"
  link_externs :: externs
  link_depth :: nat
  link_strict :: bool

text \<open>What the environment does during an exchange: the semaphore and the script of attempts.\<close>

record exchange =
  sem_acquired :: bool
  sent_attempts :: "attempt list"

definition coordinator_of :: "string \<Rightarrow> ecu_manager \<Rightarrow> ecu_state_coordinator" where
  "coordinator_of name m =
     \<lparr>handles = [name \<mapsto> spawn_with_state name (runtime_state m)], redetect = []\<rparr>"

definition shared_state :: "string \<Rightarrow> ecu_state_coordinator \<Rightarrow> ecu_manager \<Rightarrow> ecu_manager" where
  "shared_state name sc m = (case handles sc name of
      None \<Rightarrow> m | Some h \<Rightarrow> m\<lparr>runtime_state := coord_state h\<rparr>)"

definition encode_request ::
  "ecu_link \<Rightarrow> comm_request \<Rightarrow> security_plugin \<Rightarrow> uds_payload_data option \<Rightarrow> ecu_manager \<Rightarrow>
   service_payload run \<times> ecu_manager" where
  "encode_request l service plugin given m =
     create_uds_payload (link_depth l) (link_externs l) (link_strict l) (link_messages l) (link_convention l)
       (link_tester l) (link_logical l) service plugin given None m"

definition convert_answer ::
  "ecu_link \<Rightarrow> comm_request \<Rightarrow> byte list \<Rightarrow> bool \<Rightarrow> ecu_manager \<Rightarrow> diag_response run \<times> ecu_manager" where
  "convert_answer l service bs map_to_json m =
     convert_from_uds (link_depth l) (link_externs l) (link_messages l) (link_convention l) service bs
       map_to_json None m"

definition raw_exchange ::
  "ecu_link \<Rightarrow> service_payload \<Rightarrow> nat option \<Rightarrow> bool \<Rightarrow> exchange \<Rightarrow> ecu_manager \<Rightarrow>
   (service_payload option diag_result \<times> ecu_manager \<times> nat) option" where
  "raw_exchange l payload timeout expect x m =
     map_option (\<lambda>(r, sc, n). (r, shared_state (link_name l) sc m, n))
       (send_with_raw_payload [link_name l \<mapsto> link_params l] (link_name l) payload timeout expect
          (sem_acquired x) (sent_attempts x) (coordinator_of (link_name l) m))"

definition empty_positive :: "comm_request \<Rightarrow> diag_response" where
  "empty_positive service = \<lparr>response_service = service, response_data = [], mapped_data = None,
     response_kind = PositiveResponse\<rparr>"

text \<open>\<open>None\<close>: the exchange still waits at the end of the script.\<close>

definition send_service ::
  "ecu_link \<Rightarrow> comm_request \<Rightarrow> security_plugin \<Rightarrow> uds_payload_data option \<Rightarrow> bool \<Rightarrow> nat option \<Rightarrow> exchange \<Rightarrow>
   ecu_manager \<Rightarrow> (diag_response run \<times> ecu_manager) option" where
  "send_service l service plugin given map_to_json timeout x m0 =
     (case encode_request l service plugin given m0 of
        (Inl f, m) \<Rightarrow> Some (Inl f, m)
      | (Inr payload, m) \<Rightarrow>
          (case raw_exchange l payload timeout (\<not> is_suppress_positive_response payload) x m of
             None \<Rightarrow> None
           | Some (Inl e, m', n) \<Rightarrow> Some (Inl (Fail e), m')
           | Some (Inr None, m', n) \<Rightarrow> Some (Inr (empty_positive service), m')
           | Some (Inr (Some msg), m', n) \<Rightarrow>
               Some (convert_answer l service (service_payload.payload_data msg) map_to_json m')))"

text \<open>
  \<open>send_with_optional_timeout\<close>. The detection before the request runs in the detection slot of the
  ECU, beside other tasks; \<open>detect\<close> is the state it leaves.
\<close>

definition send_guarded ::
  "(ecu_manager \<Rightarrow> ecu_manager) \<Rightarrow> ecu_link \<Rightarrow> comm_request \<Rightarrow> security_plugin \<Rightarrow> uds_payload_data option \<Rightarrow> bool \<Rightarrow>
   nat option \<Rightarrow> exchange \<Rightarrow> ecu_manager \<Rightarrow> (diag_response run \<times> ecu_manager) option" where
  "send_guarded detect l service plugin given map_to_json timeout x m =
     (let m1 = (if needs_variant_detection (manager_status m) then detect m else m) in
      if needs_variant_detection (manager_status m) \<and> connectivity (manager_status m1) = Offline
      then Some (Inl (Fail (EcuOffline (link_name l))), m1)
      else send_service l service plugin given map_to_json timeout x m1)"

definition send_generic ::
  "ecu_link \<Rightarrow> security_plugin \<Rightarrow> byte list \<Rightarrow> nat option \<Rightarrow> exchange \<Rightarrow> ecu_manager \<Rightarrow>
   (byte list run \<times> ecu_manager) option" where
  "send_generic l plugin rawdata timeout x m =
     (case check_genericservice (link_messages l) (link_tester l) (link_logical l) plugin rawdata m of
        Inl f \<Rightarrow> Some (Inl f, m)
      | Inr payload \<Rightarrow>
          (case raw_exchange l payload timeout (\<not> is_suppress_positive_response payload) x m of
             None \<Rightarrow> None
           | Some (Inl e, m', n) \<Rightarrow> Some (Inl (Fail e), m')
           | Some (Inr None, m', n) \<Rightarrow> Some (Inr [], m')
           | Some (Inr (Some msg), m', n) \<Rightarrow> Some (Inr (service_payload.payload_data msg), m')))"

section \<open>A response belongs to the request\<close>

lemma encode_request_ok:
  assumes "encode_request l service plugin given m0 = (Inr payload, m)"
  obtains s comm params uds where
    "lookup_diag_service (link_convention l) service None None m0 = (Inr s, m)"
    "service_diag_comm s = Some comm" "request_of (link_messages l s) = Some params"
    "check_service_access plugin s m = Inr ()"
    "build_request (link_depth l) (link_externs l) (link_strict l) params given = Inr uds"
    "payload = \<lparr>service_payload.payload_data = uds, source_address = link_tester l,
       target_address = link_logical l,
       new_session = fst (lookup_state_transition_by_diagcomm_for_active comm m),
       new_security = snd (lookup_state_transition_by_diagcomm_for_active comm m)\<rparr>"
proof -
  obtain r m1 where look: "lookup_diag_service (link_convention l) service None None m0 = (r, m1)"
    by (rule prod.exhaust)
  with assms that show thesis
    by (cases r) (auto simp: encode_request_def create_uds_payload_def result_simps case_prod_beta)
qed

lemma raw_exchange_ok:
  assumes "raw_exchange l payload timeout ex x m = Some (Inr mo, m', n)"
  obtains (silent) "mo = None" "\<not> ex" "m' = shared_state (link_name l) (coordinator_of (link_name l) m) m"
    | (answered) msg sid where "mo = Some msg" "first (service_payload.payload_data payload) = Some sid"
      "is_expected (service_payload.payload_data payload) sid msg"
      "\<exists>evs t. Sent evs \<in> set (sent_attempts x) \<and> (t, Got (Inr (Some (UdsResponse msg)))) \<in> set evs"
      "m' = shared_state (link_name l)
         (snd (finish_send (link_name l) payload sid (Inr msg) (coordinator_of (link_name l) m))) m"
proof -
  obtain sc' where r: "send_with_raw_payload [link_name l \<mapsto> link_params l] (link_name l) payload timeout ex
      (sem_acquired x) (sent_attempts x) (coordinator_of (link_name l) m) = Some (Inr mo, sc', n)"
    and m': "m' = shared_state (link_name l) sc' m"
    using assms by (auto simp: raw_exchange_def)
  show thesis
  proof (cases rule: raw_result_cases[OF r])
    case 1
    then show ?thesis using silent m' by simp
  next
    case (2 msg sid)
    from 2(6,7) have "sent_attempts x ! (n - 1) \<in> set (sent_attempts x)" by simp
    with 2(5) have "\<exists>evs t. Sent evs \<in> set (sent_attempts x) \<and>
        (t, Got (Inr (Some (UdsResponse msg)))) \<in> set evs" by metis
    then show ?thesis using answered[OF 2(1-3) _ ] 2(4) m' by simp
  qed
qed

text \<open>
  C3: The response of a request is the ECU's answer to that request. When a request returns a
  response, the requested service was found, its access check passed before anything was sent,
  and the response either stands for the silence that the request asked for, or is the decoding,
  as a response of the same service, of a message that arrived after one of the transmissions and
  that answers the bytes encoded from the given parameters: its service and its echoed identifier
  are those of the request.
\<close>

theorem answer_of_own_request:
  assumes "send_service l service plugin given map_to_json timeout x m = Some (Inr response, m')"
  shows "\<exists>s payload m1. lookup_diag_service (link_convention l) service None None m = (Inr s, m1) \<and>
      check_service_access plugin s m1 = Inr () \<and>
      (\<exists>params. request_of (link_messages l s) = Some params \<and>
        build_request (link_depth l) (link_externs l) (link_strict l) params given =
          Inr (service_payload.payload_data payload)) \<and>
      (is_suppress_positive_response payload \<and> response = empty_positive service \<or>
       (\<exists>msg sid m2. first (service_payload.payload_data payload) = Some sid \<and>
          is_expected (service_payload.payload_data payload) sid msg \<and>
          (\<exists>evs t. Sent evs \<in> set (sent_attempts x) \<and> (t, Got (Inr (Some (UdsResponse msg)))) \<in> set evs) \<and>
          convert_answer l service (service_payload.payload_data msg) map_to_json m2 = (Inr response, m')))"
proof -
  obtain r m1 where enc: "encode_request l service plugin given m = (r, m1)" by (rule prod.exhaust)
  with assms obtain payload where r: "r = Inr payload" by (cases r) (auto simp: send_service_def)
  let ?d = "service_payload.payload_data payload"
  obtain mo m2 n where ex: "raw_exchange l payload timeout (\<not> is_suppress_positive_response payload) x m1 =
      Some (Inr mo, m2, n)"
    and res: "(case mo of None \<Rightarrow> (Inr (empty_positive service), m2)
       | Some msg \<Rightarrow> convert_answer l service (service_payload.payload_data msg) map_to_json m2) = (Inr response, m')"
    using assms enc r by (auto simp: send_service_def split: option.splits sum.splits)
  have "is_suppress_positive_response payload \<and> response = empty_positive service \<or>
       (\<exists>msg sid m2. first ?d = Some sid \<and> is_expected ?d sid msg \<and>
          (\<exists>evs t. Sent evs \<in> set (sent_attempts x) \<and> (t, Got (Inr (Some (UdsResponse msg)))) \<in> set evs) \<and>
          convert_answer l service (service_payload.payload_data msg) map_to_json m2 = (Inr response, m'))"
  proof (cases rule: raw_exchange_ok[OF ex])
    case 1
    then show ?thesis using res by simp
  next
    case (2 msg sid)
    then show ?thesis using res by auto
  qed
  moreover obtain s params where "lookup_diag_service (link_convention l) service None None m = (Inr s, m1)"
    "request_of (link_messages l s) = Some params" "check_service_access plugin s m1 = Inr ()"
    "build_request (link_depth l) (link_externs l) (link_strict l) params given = Inr ?d"
    using encode_request_ok[OF enc[unfolded r]] by (metis service_payload.select_convs(1))
  ultimately show ?thesis by blast
qed

section \<open>The state change of an answered request\<close>

lemma shared_state_coordinator [simp]: "shared_state name (coordinator_of name m) m = m"
  by (simp add: shared_state_def coordinator_of_def spawn_with_state_def)

text \<open>A positive answer has the state change of the service, computed when the request was encoded.\<close>

lemma exchange_applies_transition:
  assumes "lookup_state_transition_by_diagcomm_for_active comm m = (new_session payload, new_security payload)"
  shows "shared_state name (snd (finish_send name payload sid (Inr msg) (coordinator_of name m))) m =
    (if is_positive_response_for_sid msg sid then apply_positive_response comm m else m)"
  by (cases "new_session payload"; cases "new_security payload")
    (simp_all add: finish_send_def Let_def apply_positive_response_def assms tell_def coordinator_of_def
      handle_set_service_state_def shared_state_def spawn_with_state_def set_service_state_def)

text \<open>
  \<open>convert_from_uds\<close> looks the state change up again, in the state that the exchange has already
  changed. A positively answered request whose response is described therefore follows two
  transitions of its service when it has one that starts where the other ends.
\<close>

lemma answered_request_changes_state_twice:
  assumes "encode_request l service plugin given m0 = (Inr payload, m)"
    and "raw_exchange l payload timeout (\<not> is_suppress_positive_response payload) x m = Some (Inr (Some msg), m1, n)"
    and "is_positive_response_for_sid msg sid" "first (service_payload.payload_data payload) = Some sid"
    and "lookup_diag_service (link_convention l) service None None m1 = (Inr s, m2)"
    and "service_diag_comm s = Some comm"
    and "try_extract_sid_from_payload (service_payload.payload_data msg) = Inr k"
    and "pl_first (payload_new (service_payload.payload_data msg)) = Some b"
    and "matching_response (link_messages l s) b = Some (r, ps)" "response_type_try_from (response_code r) = Inr PositiveType"
  shows "\<exists>first_comm. m1 = apply_positive_response first_comm m \<and>
    send_service l service plugin given map_to_json timeout x m0 =
      Some (decode_response (link_depth l) (link_externs l) (link_convention l) service (link_messages l s)
        (service_payload.payload_data msg) map_to_json PositiveType ps, apply_positive_response comm m2)"
proof -
  obtain s0 comm0 where tr: "lookup_state_transition_by_diagcomm_for_active comm0 m =
      (new_session payload, new_security payload)"
    by (rule encode_request_ok[OF assms(1)]) (auto intro: prod_eqI)
  have "m1 = apply_positive_response comm0 m"
    by (rule raw_exchange_ok[OF assms(2)])
      (use assms(3,4) exchange_applies_transition[OF tr] in auto)
  moreover have "send_service l service plugin given map_to_json timeout x m0 =
      Some (decode_response (link_depth l) (link_externs l) (link_convention l) service (link_messages l s)
        (service_payload.payload_data msg) map_to_json PositiveType ps, apply_positive_response comm m2)"
    using assms by (simp add: send_service_def convert_answer_def convert_from_uds_def)
  ultimately show ?thesis by blast
qed

text \<open>Each part of a request keeps the layers and follows the charts.\<close>

lemma along_charts_refl [simp]: "along_charts m m"
  by (simp add: along_charts_def)

lemma along_charts_response: "along_charts m (apply_positive_response comm m)"
  using responses.run_history[OF r_into_rtranclp[of response_step, OF response_step.positive] TrueI] .

lemma same_database_layers: "same_database m m' \<Longrightarrow> diag_layers_of m' = diag_layers_of m"
  unfolding same_database_def diag_layers_of_def current_variant_def by (elim conjE) (simp only:)

lemma lookup_along_charts:
  assumes "lookup_diag_service nc dc fg mo m = (r, m')"
  shows "along_charts m m'"
proof -
  obtain c where m': "m' = m\<lparr>db_cache := c\<rparr>"
  proof (cases "m' = m")
    case True
    then show ?thesis using that[of "db_cache m"] by simp
  next
    case False
    then show ?thesis using that assms
      by (auto simp: lookup_diag_service_def search_and_cache_location_def Let_def
          split: option.splits prod.splits)
  qed
  then have "same_database m m'" by (simp add: same_database_def)
  from same_database_layers[OF this] m' show ?thesis by (simp add: along_charts_def)
qed

lemma convert_along_charts:
  "along_charts m (snd (convert_from_uds depth ext messages nc dc bs json fg m))"
proof -
  obtain r m1 where l: "lookup_diag_service nc dc fg None m = (r, m1)" by (rule prod.exhaust)
  note 1 = lookup_along_charts[OF l]
  from convert_state[OF l, of depth ext messages bs json] show ?thesis
    using 1 along_charts_trans[OF 1 along_charts_response] by auto
qed

lemma exchange_along_charts:
  assumes "encode_request l service plugin given m0 = (Inr payload, m)"
    and "raw_exchange l payload timeout ex x m = Some (Inr mo, m1, n)"
  shows "along_charts m m1"
proof (cases rule: raw_exchange_ok[OF assms(2)])
  case (2 msg sid)
  obtain comm where "lookup_state_transition_by_diagcomm_for_active comm m =
      (new_session payload, new_security payload)"
    by (rule encode_request_ok[OF assms(1)]) (auto intro: prod_eqI)
  from exchange_applies_transition[OF this] 2(5) show ?thesis by (simp add: along_charts_response)
qed simp

text \<open>
  C19: A request moves the session along the state chart. Whatever an answered request returns,
  a response or an error of the decoding, the session of the ECU and its security level after it
  are reached from those before it along transitions of the charts of the active variant, over
  the lookup, the exchange and the decoding together; none of the two is forgotten.
\<close>

theorem request_follows_charts:
  assumes "send_service l service plugin given map_to_json timeout x m = Some (r, m')"
    and "encode_request l service plugin given m = (Inr payload, m1)"
    and "raw_exchange l payload timeout (\<not> is_suppress_positive_response payload) x m1 = Some (Inr mo, m2, n)"
    and "service_state m sid = Some a" and "sid = SESSION_CONTROL \<or> sid = SECURITY_ACCESS"
  shows "\<exists>b. service_state m' sid = Some b \<and>
    (state_edge m (if sid = SESSION_CONTROL then session_semantic m else security_semantic m))\<^sup>*\<^sup>* a b"
proof -
  have m1: "along_charts m m1" by (rule encode_request_ok[OF assms(2)]) (rule lookup_along_charts)
  have m2: "along_charts m1 m2" using exchange_along_charts[OF assms(2,3)] .
  have "along_charts m2 m'"
  proof (cases mo)
    case (Some msg)
    then have "m' = snd (convert_answer l service (service_payload.payload_data msg) map_to_json m2)"
      using assms(1-3) by (simp add: send_service_def)
    then show ?thesis by (simp add: convert_answer_def convert_along_charts)
  qed (use assms(1-3) in \<open>simp add: send_service_def\<close>)
  then have "along_charts m m'" using along_charts_trans[OF along_charts_trans[OF m1 m2]] by blast
  then show ?thesis using assms(4) unfolding along_charts_def semantic_of_def by blast
qed

section \<open>Requests from outside\<close>

text \<open>A generic request returns the bytes of an answer to the bytes it was given.\<close>

lemma generic_answer_of_own_request:
  assumes "send_generic l plugin rawdata timeout x m = Some (Inr bs, m')"
  shows "\<exists>payload. check_genericservice (link_messages l) (link_tester l) (link_logical l) plugin rawdata m =
      Inr payload \<and>
    (is_suppress_positive_response payload \<and> bs = [] \<or>
     (\<exists>msg sid. first (service_payload.payload_data payload) = Some sid \<and>
        is_expected (service_payload.payload_data payload) sid msg \<and> bs = service_payload.payload_data msg))"
proof -
  obtain payload where p: "check_genericservice (link_messages l) (link_tester l) (link_logical l) plugin rawdata m =
      Inr payload"
    using assms by (cases "check_genericservice (link_messages l) (link_tester l) (link_logical l) plugin rawdata m")
      (auto simp: send_generic_def)
  obtain mo n where ex: "raw_exchange l payload timeout (\<not> is_suppress_positive_response payload) x m =
      Some (Inr mo, m', n)" and bs: "bs = (case mo of None \<Rightarrow> [] | Some msg \<Rightarrow> service_payload.payload_data msg)"
    using assms p by (auto simp: send_generic_def split: option.splits sum.splits)
  show ?thesis
    by (rule raw_exchange_ok[OF ex]) (use p bs in auto)
qed

text \<open>After a detection that found the ECU offline nothing is sent.\<close>

lemma guarded_request_cases:
  assumes "send_guarded detect l service plugin given map_to_json timeout x m = Some (Inr response, m')"
  obtains m1 where "send_service l service plugin given map_to_json timeout x m1 = Some (Inr response, m')"
    "m1 = m \<and> \<not> needs_variant_detection (manager_status m) \<or>
     m1 = detect m \<and> needs_variant_detection (manager_status m) \<and> connectivity (manager_status m1) \<noteq> Offline"
  using assms by (auto simp: send_guarded_def Let_def split: if_splits)

section \<open>Sequences of requests\<close>

text \<open>
  Each request of an operation takes the next exchange of a list; \<open>None\<close> means that one of them
  still waits.
\<close>

type_synonym 'a requests = "exchange list \<Rightarrow> ecu_manager \<Rightarrow> ('a run \<times> exchange list \<times> ecu_manager) option"

definition returnX :: "'a \<Rightarrow> 'a requests" where
  "returnX v xs m = Some (Inr v, xs, m)"

definition liftX :: "'a run \<Rightarrow> 'a requests" where
  "liftX r xs m = Some (r, xs, m)"

definition askX :: "(ecu_manager \<Rightarrow> 'a run) \<Rightarrow> 'a requests" where
  "askX f xs m = Some (f m, xs, m)"

definition bindX :: "'a requests \<Rightarrow> ('a \<Rightarrow> 'b requests) \<Rightarrow> 'b requests" where
  "bindX a k xs m = (case a xs m of
      None \<Rightarrow> None
    | Some (Inl f, xs', m') \<Rightarrow> Some (Inl f, xs', m')
    | Some (Inr v, xs', m') \<Rightarrow> k v xs' m')"

text \<open>
  What an operation does not change: the link to the ECU, the detection before a request and the
  security plugin.
\<close>

record request_env =
  env_link :: ecu_link
  env_detect :: "ecu_manager \<Rightarrow> ecu_manager"
  env_plugin :: security_plugin

definition sendX ::
  "'z request_env_scheme \<Rightarrow> comm_request \<Rightarrow> uds_payload_data option \<Rightarrow> bool \<Rightarrow> diag_response requests" where
  "sendX env service given map_to_json xs m = (case xs of
      [] \<Rightarrow> None
    | x # xs' \<Rightarrow> map_option (\<lambda>(r, m'). (r, xs', m'))
        (send_guarded (env_detect env) (env_link env) service (env_plugin env) given map_to_json None x m))"

definition send_rawX :: "'z request_env_scheme \<Rightarrow> service_payload \<Rightarrow> service_payload option requests" where
  "send_rawX env payload xs m = (case xs of
      [] \<Rightarrow> None
    | x # xs' \<Rightarrow> map_option (\<lambda>(r, m', n). (lift_result r, xs', m'))
        (raw_exchange (env_link env) payload None True x m))"

definition service_to_comm :: "diag_service \<Rightarrow> comm_request diag_result" where
  "service_to_comm s =
     bindE (ok_or (service_diag_comm s) (InvalidDatabase ''DiagService missing diag_comm'')) (\<lambda>dc.
     bindE (ok_or (comm_short_name dc) (InvalidDatabase ''DiagService missing name'')) (\<lambda>name.
     bindE (ok_or (request_id s) (InvalidDatabase ''DiagService missing request_id'')) (\<lambda>service_id.
     bindE (diag_comm_type_try_from service_id) (\<lambda>t.
     Inr \<lparr>comm_name = name, comm_type = t, comm_lookup_name = Some name, comm_subfunction_id = None\<rparr>))))"

definition is_service_allowed :: "'z request_env_scheme \<Rightarrow> comm_request \<Rightarrow> unit requests" where
  "is_service_allowed env service xs m =
     (case lookup_diag_service (link_convention (env_link env)) service None None m of
        (Inl f, m') \<Rightarrow> Some (Inl f, xs, m')
      | (Inr s, m') \<Rightarrow> Some (lift_result (check_service_access (env_plugin env) s m'), xs, m'))"

lemma bindX_ok:
  assumes "bindX a k xs m = Some (Inr v, xs', m')"
  obtains u ys m1 where "a xs m = Some (Inr u, ys, m1)" "k u ys m1 = Some (Inr v, xs', m')"
  using assms by (auto simp: bindX_def split: option.splits sum.splits)

lemma requests_ok [simp]:
  "liftX r xs m = Some (Inr v, xs', m') \<longleftrightarrow> r = Inr v \<and> xs' = xs \<and> m' = m"
  "askX f xs m = Some (Inr v, xs', m') \<longleftrightarrow> f m = Inr v \<and> xs' = xs \<and> m' = m"
  "returnX u xs m = Some (Inr v, xs', m') \<longleftrightarrow> u = v \<and> xs' = xs \<and> m' = m"
  by (auto simp: liftX_def askX_def returnX_def)

lemma service_allowed_ok:
  "is_service_allowed env service xs m = Some (Inr u, ys, m1) \<Longrightarrow> ys = xs \<and>
     (\<exists>s. lookup_diag_service (link_convention (env_link env)) service None None m = (Inr s, m1) \<and>
       check_service_access (env_plugin env) s m1 = Inr ())"
  by (auto simp: is_service_allowed_def split: prod.splits sum.splits)

section \<open>Samples\<close>

text \<open>Reading the identification, whose response is not described in the database.\<close>

definition vin_link :: ecu_link where
  "vin_link = \<lparr>link_name = ''ECU'', link_params = demo_params, link_tester = 0x0E00, link_logical = 0x1001,
     link_convention = sample_convention,
     link_messages = (\<lambda>s. \<lparr>request_of = Some None, pos_responses = None, neg_responses = None\<rparr>),
     link_externs = reference_externs, link_depth = 1, link_strict = True\<rparr>"

definition vin_exchange :: exchange where
  "vin_exchange = \<lparr>sem_acquired = True,
     sent_attempts = [Sent [(5, Got (Inr (Some (UdsResponse demo_answer))))]]\<rparr>"

definition vin_manager :: ecu_manager where
  "vin_manager = set_services (\<lambda>ss. [SESSION_CONTROL \<mapsto> ''Default'']) sample_manager"

abbreviation vin_cached :: ecu_manager where
  "vin_cached \<equiv> vin_manager\<lparr>db_cache := [''vin'' \<mapsto>
     \<lparr>cached_variant_index = None, cached_location = Some (VariantAt 0)\<rparr>]\<rparr>"

lemma vin_lookup:
  "lookup_diag_service sample_convention (diag_comm_new ''Vin'' Data) None None vin_manager =
     (Inr (sample_service ''Vin_Read'' READ_DATA_BY_IDENTIFIER), vin_cached)"
  "lookup_diag_service sample_convention (diag_comm_new ''Vin'' Data) None None vin_cached =
     (Inr (sample_service ''Vin_Read'' READ_DATA_BY_IDENTIFIER), vin_cached)"
proof -
  have "same_database sample_manager vin_manager" "same_database sample_manager vin_cached"
    by (simp_all add: same_database_def vin_manager_def)
  then have services: "own_services vin_manager = Some sample_services" "own_services vin_cached = Some sample_services"
    using sample_services_visible(1) by (simp_all only: same_database_services(1))
  have fresh: "db_cache vin_manager = Map.empty" "variant_index (manager_status vin_manager) = None"
    using sample_services_visible(3,4) by (simp_all add: vin_manager_def)
  show "lookup_diag_service sample_convention (diag_comm_new ''Vin'' Data) None None vin_manager =
     (Inr (sample_service ''Vin_Read'' READ_DATA_BY_IDENTIFIER), vin_cached)"
    using services fresh vin_key vin_predicates
    by (simp add: lookup_diag_service_def live_location_def search_and_cache_location_def
        search_with_location_def find_indexed_def sample_services_def)
  show "lookup_diag_service sample_convention (diag_comm_new ''Vin'' Data) None None vin_cached =
     (Inr (sample_service ''Vin_Read'' READ_DATA_BY_IDENTIFIER), vin_cached)"
    using services fresh vin_key
    by (simp add: lookup_diag_service_def live_location_def get_service_by_location_def sample_services_def)
qed

lemma raw_request: "build_request depth ext strict None (Some (RawData bs)) = Inr bs"
  by (simp add: build_request_def process_coded_constants_def sort_params_def flatten_refs_def unwrap_or_def)

lemma no_transition:
  "state_transition_refs comm = None \<Longrightarrow> lookup_state_transition_by_diagcomm_for_active comm m = (None, None)"
  by (simp add: lookup_state_transition_by_diagcomm_for_active_def lookup_state_transition_def Let_def
      split: option.splits)

lemma sample_accessible: "check_service_access None (sample_service name sid) m = Inr ()"
  by (simp add: check_service_access_def check_service_preconditions_def check_security_plugin_def
      sample_service_def flatten_refs_def)

lemma vin_encode:
  "encode_request vin_link (diag_comm_new ''Vin'' Data) None (Some (RawData [0x22, 0xF1, 0x90])) vin_manager =
     (Inr demo_request, vin_cached)"
  using sample_accessible[of "''Vin_Read''" READ_DATA_BY_IDENTIFIER vin_cached]
  by (simp add: encode_request_def create_uds_payload_def vin_link_def vin_lookup sample_service_def
      raw_request no_transition demo_request_def uds_response_from_raw_def lift_result_def)

lemma vin_raw_exchange:
  "raw_exchange vin_link demo_request None (\<not> is_suppress_positive_response demo_request) vin_exchange vin_cached =
     Some (Inr (Some demo_answer), vin_cached, 1)"
proof -
  have "\<not> is_suppress_positive_response demo_request"
    by (simp add: demo_request_def uds_response_from_raw_def is_suppress_positive_response_def
        sprmib_capable_def sid_defs)
  moreover have "send_with_raw_payload [''ECU'' \<mapsto> demo_params] ''ECU'' demo_request None True True
     [Sent [(5, Got (Inr (Some (UdsResponse demo_answer))))]] sc = Some (Inr (Some demo_answer), sc, 1)" for sc
    using demo_answer_expected
    by (simp add: send_with_raw_payload_def demo_request_def uds_response_from_raw_def init_send_state_def
        read_step_def demo_params_def is_expected_def finish_send_def)
  ultimately show ?thesis by (simp add: raw_exchange_def vin_link_def vin_exchange_def)
qed

abbreviation vin_response :: diag_response where
  "vin_response \<equiv> \<lparr>response_service = diag_comm_new ''Vin'' Data, response_data = [0x62, 0xF1, 0x90, 0x41],
     mapped_data = None, response_kind = PositiveResponse\<rparr>"

lemma vin_send:
  "send_service vin_link (diag_comm_new ''Vin'' Data) None (Some (RawData [0x22, 0xF1, 0x90])) True None
     vin_exchange vin_manager = Some (Inr vin_response, vin_cached)"
proof -
  have "pl_first (payload_new [0x62, 0xF1, 0x90, 0x41]) = Some 0x62" by code_simp
  then have "convert_answer vin_link (diag_comm_new ''Vin'' Data) (service_payload.payload_data demo_answer) True
      vin_cached = (Inr vin_response, vin_cached)"
    by (simp add: convert_answer_def convert_from_uds_def vin_link_def vin_lookup demo_answer_def
        uds_response_from_raw_def sample_service_def matching_response_def flatten_refs_def
        try_extract_sid_from_payload_def NEGATIVE_RESPONSE_def)
  then show ?thesis by (simp add: send_service_def vin_encode vin_raw_exchange)
qed

theorem answer_of_own_request_witness:
  "\<exists>(payload :: service_payload) msg sid. first (service_payload.payload_data payload) = Some sid \<and>
     is_expected (service_payload.payload_data payload) sid msg \<and>
     (\<exists>m2. convert_answer vin_link (diag_comm_new ''Vin'' Data) (service_payload.payload_data msg) True m2 =
       (Inr vin_response, vin_cached))"
  using answer_of_own_request[OF vin_send] by (auto simp: empty_positive_def)

theorem request_follows_charts_witness:
  "\<exists>b. service_state vin_cached SESSION_CONTROL = Some b \<and>
     (state_edge vin_manager (session_semantic vin_manager))\<^sup>*\<^sup>* ''Default'' b"
  using request_follows_charts[OF vin_send vin_encode vin_raw_exchange, of SESSION_CONTROL "''Default''"]
  by (simp add: vin_manager_def)

text \<open>A service of two transitions, as in the charts of an ECU that is programmed by one request.\<close>

definition to_programming :: state_transition where
  "to_programming = \<lparr>source_short_name_ref = Some ''Extended'', target_short_name_ref = Some ''Programming''\<rparr>"

definition relay_start :: diag_comm where
  "relay_start = \<lparr>comm_short_name = Some ''Relay_Start'', pre_condition_state_refs = None,
     state_transition_refs = Some [Some to_extended, Some to_programming]\<rparr>"

definition relay_chart :: state_chart where
  "relay_chart = \<lparr>chart_semantic = Some ''SESSION'', start_state_short_name_ref = Some ''Default'',
     chart_states = None, chart_transitions = Some [to_extended, to_programming]\<rparr>"

definition relay_manager :: ecu_manager where
  "relay_manager = set_services (\<lambda>ss. [SESSION_CONTROL \<mapsto> ''Default''])
     ((demo_manager [relay_chart])\<lparr>diag_database := Some (demo_data [relay_chart])\<rparr>)"

lemma relay_lower: "\<not> eq_ignore_ascii_case ''Default'' ''Extended''"
  "eq_ignore_ascii_case ''Default'' ''Default''" "eq_ignore_ascii_case ''SESSION'' ''SESSION''"
  by code_simp+

lemma relay_step:
  assumes "diag_layers_of m = diag_layers_of relay_manager" "session_semantic m = ''SESSION''"
    and "service_state m SECURITY_ACCESS = None" "service_state m SESSION_CONTROL = Some a"
    and "lookup_state_transition relay_start relay_chart a = Some b"
  shows "apply_positive_response relay_start m = set_service_state SESSION_CONTROL b m"
proof -
  have "chart_with_semantic relay_manager ''SESSION'' = Some relay_chart"
    by (simp add: chart_with_semantic_def relay_manager_def diag_layers_of_def current_variant_def
        base_variant_of_def demo_defs demo_data_def demo_variant_def ecu_runtime_state_new_def
        ecu_state_default_def relay_chart_def opt_eq_ic_def)
  then have "chart_with_semantic m ''SESSION'' = Some relay_chart"
    by (simp only: chart_with_semantic_def assms(1))
  then show ?thesis using assms(2-)
    by (simp add: apply_positive_response_def lookup_state_transition_by_diagcomm_for_active_def Let_def)
qed

text \<open>
  One transition leaves the default session for the extended one; the answered request of the same
  service ends in the programming session.
\<close>

lemma transition_applied_twice:
  "service_state (apply_positive_response relay_start relay_manager) SESSION_CONTROL = Some ''Extended''"
  "service_state (apply_positive_response relay_start (apply_positive_response relay_start relay_manager))
     SESSION_CONTROL = Some ''Programming''"
proof -
  have look: "lookup_state_transition relay_start relay_chart ''Default'' = Some ''Extended''"
    "lookup_state_transition relay_start relay_chart ''Extended'' = Some ''Programming''"
    using relay_lower
    by (simp_all add: lookup_state_transition_def relay_start_def transition_target_def relay_chart_def
        to_extended_def to_programming_def opt_eq_ic_def)
  have "session_semantic relay_manager = ''SESSION''" by (simp add: relay_manager_def demo_defs)
  moreover have "service_state relay_manager SECURITY_ACCESS = None"
    "service_state relay_manager SESSION_CONTROL = Some ''Default''"
    using sids_differ by (simp_all add: relay_manager_def)
  ultimately have "apply_positive_response relay_start relay_manager =
      set_service_state SESSION_CONTROL ''Extended'' relay_manager"
    and "apply_positive_response relay_start (set_service_state SESSION_CONTROL ''Extended'' relay_manager) =
      set_service_state SESSION_CONTROL ''Programming'' (set_service_state SESSION_CONTROL ''Extended'' relay_manager)"
    using look sids_differ by (simp_all add: relay_step)
  then show "service_state (apply_positive_response relay_start relay_manager) SESSION_CONTROL = Some ''Extended''"
    and "service_state (apply_positive_response relay_start (apply_positive_response relay_start relay_manager))
     SESSION_CONTROL = Some ''Programming''" by simp_all
qed

end
