(* ===== verification/Fault_Codes.thy ===== *)
theory Fault_Codes
  imports Response_Json
begin

text \<open>
  The fault memory of an ECU, its codes and its description: \<open>cda-interfaces/src/datatypes/faults.rs\<close>,
  the helpers of \<open>cda-comm-uds/src/dtc.rs\<close> and \<open>cda-core/src/diag_kernel/dtc.rs\<close>. A code is a \<open>u32\<close>
  of which 24 bits are used, a status a byte with one flag per bit.
\<close>

section \<open>Types\<close>

datatype dtc_read_information_function =
    FaultMemoryByStatusMask
  | FaultMemorySnapshotRecordByDtcNumber
  | FaultMemoryExtDataRecordByDtcNumber
  | UserMemoryDtcByStatusMask
  | UserMemoryDtcSnapshotRecordByDtcNumber
  | UserMemoryDtcExtDataRecordByDtcNumber

fun function_code :: "dtc_read_information_function \<Rightarrow> nat" where
  "function_code FaultMemoryByStatusMask = 0x02"
| "function_code FaultMemorySnapshotRecordByDtcNumber = 0x04"
| "function_code FaultMemoryExtDataRecordByDtcNumber = 0x06"
| "function_code UserMemoryDtcByStatusMask = 0x17"
| "function_code UserMemoryDtcSnapshotRecordByDtcNumber = 0x18"
| "function_code UserMemoryDtcExtDataRecordByDtcNumber = 0x19"

fun is_user_scope :: "dtc_read_information_function \<Rightarrow> bool" where
  "is_user_scope UserMemoryDtcByStatusMask = True"
| "is_user_scope UserMemoryDtcSnapshotRecordByDtcNumber = True"
| "is_user_scope UserMemoryDtcExtDataRecordByDtcNumber = True"
| "is_user_scope _ = False"

definition default_scope :: "dtc_read_information_function \<Rightarrow> string" where
  "default_scope f = (case f of
      FaultMemoryByStatusMask \<Rightarrow> ''FaultMem''
    | FaultMemoryExtDataRecordByDtcNumber \<Rightarrow> ''FaultMem''
    | FaultMemorySnapshotRecordByDtcNumber \<Rightarrow> ''FaultMem''
    | UserMemoryDtcByStatusMask \<Rightarrow> ''UserMem''
    | UserMemoryDtcExtDataRecordByDtcNumber \<Rightarrow> ''UserMem''
    | UserMemoryDtcSnapshotRecordByDtcNumber \<Rightarrow> ''UserMem'')"

datatype dtc_mask =
    TestFailed | TestFailedThisOperationCycle | PendingDtc | ConfirmedDtc
  | TestNotCompletedSinceLastClear | TestFailedSinceLastClear
  | TestNotCompletedThisOperationCycle | WarningIndicatorRequested

fun mask_bit :: "dtc_mask \<Rightarrow> byte" where
  "mask_bit TestFailed = 0x01"
| "mask_bit TestFailedThisOperationCycle = 0x02"
| "mask_bit PendingDtc = 0x04"
| "mask_bit ConfirmedDtc = 0x08"
| "mask_bit TestNotCompletedSinceLastClear = 0x10"
| "mask_bit TestFailedSinceLastClear = 0x20"
| "mask_bit TestNotCompletedThisOperationCycle = 0x40"
| "mask_bit WarningIndicatorRequested = 0x80"

text \<open>The names that \<open>strum\<close> derives for \<open>Display\<close>, and the order of \<open>iter\<close>.\<close>

fun mask_name :: "dtc_mask \<Rightarrow> string" where
  "mask_name TestFailed = ''TestFailed''"
| "mask_name TestFailedThisOperationCycle = ''TestFailedThisOperationCycle''"
| "mask_name PendingDtc = ''PendingDtc''"
| "mask_name ConfirmedDtc = ''ConfirmedDtc''"
| "mask_name TestNotCompletedSinceLastClear = ''TestNotCompletedSinceLastClear''"
| "mask_name TestFailedSinceLastClear = ''TestFailedSinceLastClear''"
| "mask_name TestNotCompletedThisOperationCycle = ''TestNotCompletedThisOperationCycle''"
| "mask_name WarningIndicatorRequested = ''WarningIndicatorRequested''"

definition mask_iter :: "dtc_mask list" where
  "mask_iter = [TestFailed, TestFailedThisOperationCycle, PendingDtc, ConfirmedDtc,
     TestNotCompletedSinceLastClear, TestFailedSinceLastClear,
     TestNotCompletedThisOperationCycle, WarningIndicatorRequested]"

unbundle bit_operations_syntax

definition all_bits :: byte where
  "all_bits = fold (\<lambda>b acc. acc OR mask_bit b) mask_iter 0"

record dtc_status =
  test_failed :: bool
  test_failed_this_operation_cycle :: bool
  pending_dtc :: bool
  confirmed_dtc :: bool
  test_not_completed_since_last_clear :: bool
  test_failed_since_last_clear :: bool
  test_not_completed_this_operation_cycle :: bool
  warning_indicator_requested :: bool
  status_mask :: byte

record dtc_record_and_status =
  rs_record :: dtc_record
  rs_scope :: dtc_read_information_function
  rs_status :: dtc_status

record dtc_lookup =
  lookup_scope :: dtc_read_information_function
  lookup_service :: comm_request
  lookup_dtcs :: "dtc_record list"

definition DTC_CODE_BIT_LEN :: nat where "DTC_CODE_BIT_LEN = 24"

section \<open>Status\<close>

definition check_flag :: "byte \<Rightarrow> byte \<Rightarrow> bool" where
  "check_flag status_byte flag \<longleftrightarrow> status_byte AND flag = flag"

definition get_dtc_status_for_mask :: "byte \<Rightarrow> dtc_status" where
  "get_dtc_status_for_mask b = \<lparr>
     test_failed = check_flag b (mask_bit TestFailed),
     test_failed_this_operation_cycle = check_flag b (mask_bit TestFailedThisOperationCycle),
     pending_dtc = check_flag b (mask_bit PendingDtc),
     confirmed_dtc = check_flag b (mask_bit ConfirmedDtc),
     test_not_completed_since_last_clear = check_flag b (mask_bit TestNotCompletedSinceLastClear),
     test_failed_since_last_clear = check_flag b (mask_bit TestFailedSinceLastClear),
     test_not_completed_this_operation_cycle = check_flag b (mask_bit TestNotCompletedThisOperationCycle),
     warning_indicator_requested = check_flag b (mask_bit WarningIndicatorRequested),
     status_mask = b\<rparr>"

definition int_to_bool :: "nat \<Rightarrow> bool diag_result" where
  "int_to_bool n =
     (if n \<noteq> 0 \<and> n \<noteq> 1
      then Inl (InvalidRequest ''Invalid status value for mask bit must be 0 or 1 if using integers'')
      else Inr (n = 1))"

definition status_value_to_bool :: "json \<Rightarrow> bool diag_result" where
  "status_value_to_bool v = (case v of
      JString s \<Rightarrow> (case from_str_radix u64_max 10 s of
          Inr n \<Rightarrow> int_to_bool n
        | Inl e \<Rightarrow>
            if s = ''true'' then Inr True
            else if s = ''false'' then Inr False
            else Inl (InvalidRequest ''Status value string is neither a valid integer nor boolean''))
    | JBool b \<Rightarrow> Inr b
    | JNumber n \<Rightarrow> (case as_u64 v of
          Some n \<Rightarrow> int_to_bool n
        | None \<Rightarrow> Inl (InvalidRequest ''Status value cannot be parsed as u64''))
    | _ \<Rightarrow> Inl (InvalidRequest ''Status value must be a string, boolean or integer''))"

text \<open>The mask of a query; the loop ends at the first value that is no truth value.\<close>

fun mask_loop :: "(string \<rightharpoonup> json) \<Rightarrow> dtc_mask list \<Rightarrow> byte \<Rightarrow> bool \<Rightarrow> (byte \<times> bool) diag_result" where
  "mask_loop st [] acc any = Inr (acc, any)"
| "mask_loop st (b # bs) acc any =
     (case st (to_ascii_lowercase (mask_name b)) of
        None \<Rightarrow> mask_loop st bs acc any
      | Some v \<Rightarrow> bindE (status_value_to_bool v) (\<lambda>is_set.
          if is_set then mask_loop st bs (acc OR mask_bit b) True else mask_loop st bs acc any))"

definition query_mask :: "(string \<rightharpoonup> json) option \<Rightarrow> byte diag_result" where
  "query_mask wanted = (case wanted of
      None \<Rightarrow> Inr 0xFF
    | Some st \<Rightarrow> bindE (mask_loop st mask_iter 0 False) (\<lambda>(acc, any). Inr (if any then acc else 0xFF)))"

section \<open>Codes\<close>

definition sae_system :: "char \<Rightarrow> nat option" where
  "sae_system = map_of (zip ''pcbu'' [0, 1, 2, 3])"

definition sae_group :: "char \<Rightarrow> nat option" where
  "sae_group = map_of (zip ''0123'' [0, 1, 2, 3])"

text \<open>\<open><<\<close> and \<open>|\<close> of \<open>u32\<close>; the shifted values are at most 3.\<close>

definition sae_to_dtc_code :: "string \<Rightarrow> nat diag_result" where
  "sae_to_dtc_code sae_dtc0 =
     (if length sae_dtc0 \<noteq> 7 then Inl (InvalidRequest ''Invalid SAE dtc code'')
      else let sae_dtc = to_ascii_lowercase sae_dtc0 in
        bindE (ok_or (get sae_dtc 0) (InvalidRequest ''Invalid SAE dtc code, missing system'')) (\<lambda>c0.
        bindE (ok_or (sae_system c0) (InvalidRequest ''Unknown system digit in SAE dtc code'')) (\<lambda>system.
        bindE (ok_or (get sae_dtc 1) (InvalidRequest ''Invalid SAE dtc code, missing group'')) (\<lambda>c1.
        bindE (ok_or (sae_group c1) (InvalidRequest ''Unknown group digit in SAE dtc code'')) (\<lambda>group.
        bindE (ok_or (get_str sae_dtc 2 (length sae_dtc))
          (InvalidRequest ''Invalid SAE dtc code, missing hex part'')) (\<lambda>hex_part.
        case from_str_radix u32_max 16 hex_part of
          Inl e \<Rightarrow> Inl (InvalidRequest ''Invalid hex characters in SAE dtc code'')
        | Inr number \<Rightarrow> Inr ((push_bit 22 system OR push_bit 20 group) OR number)))))))"

text \<open>\<open>trim_start_matches\<close> removes the prefix as often as it is there.\<close>

fun trim_start_0x :: "string \<Rightarrow> string" where
  "trim_start_0x (a # b # s) = (if a = CHR ''0'' \<and> b = CHR ''x'' then trim_start_0x s else a # b # s)"
| "trim_start_0x s = s"

definition decode_dtc_from_str :: "externs \<Rightarrow> string \<Rightarrow> nat diag_result" where
  "decode_dtc_from_str ext text_code =
     (if length text_code = 6 \<or> length text_code = 8 then
        bindE (if length text_code = 6 then decode_hex (hex_decode ext) text_code
               else decode_hex (hex_decode ext) (trim_start_0x text_code)) (\<lambda>bs.
        let dtc_bytes = 0 # bs in
        if length dtc_bytes = 4 then Inr (be_val dtc_bytes)
        else Inl (InvalidRequest ''Failed to decode DTC code''))
      else if length text_code = 7 then sae_to_dtc_code text_code
      else Inl (InvalidRequest ''Invalid DTC format''))"

section \<open>The description of the fault memory\<close>

definition record_of_dtc :: "dtc \<Rightarrow> dtc_record" where
  "record_of_dtc d = \<lparr>record_code = trouble_code d, record_display_code = display_trouble_code d,
     record_fault_name = (case dtc_short_name d of Some n \<Rightarrow> n | None \<Rightarrow> ''DTC_'' @ to_string (trouble_code d)),
     record_severity = (case dtc_level d of Some l \<Rightarrow> l | None \<Rightarrow> 0)\<rparr>"

definition extract_nested_params :: "dop \<Rightarrow> param list diag_result" where
  "extract_nested_params d = (case d of
      EndOfPduField mn mx f \<Rightarrow>
        bindE (ok_or (Option.bind f (\<lambda>f. Option.bind (basic_structure f) specific_data_as_structure))
          (InvalidDatabase ''EndOfPdu does not contain a struct'')) (\<lambda>s. Inr (flatten_refs (st_params s)))
    | StructureDop s \<Rightarrow> Inr (flatten_refs (st_params s))
    | _ \<Rightarrow> Inr [])"

lemma nested_params_size:
  assumes "extract_nested_params d = Inr ps"
  shows "size_list size ps \<le> size d"
proof -
  have st: "size_list size (flatten_refs (st_params s)) < size (StructureDop s)" for s
    by (cases s) (auto simp: flatten_refs_def split: option.splits)
  show ?thesis
  proof (cases d)
    case (EndOfPduField mn mx f)
    then obtain fd x s where "f = Some fd" "basic_structure fd = Some x" "x = StructureDop s"
      "ps = flatten_refs (st_params s)"
      using assms by (auto simp: extract_nested_params_def result_simps specific_data_iff bind_eq_Some_conv)
    then show ?thesis using st[of s] EndOfPduField by (cases fd) auto
  qed (use assms st in \<open>auto simp: extract_nested_params_def less_imp_le\<close>)
qed

lemma nested_size:
  assumes "specific_data_as_value p = Some (s, Some d)" "extract_nested_params d = Inr ps"
  shows "size_list size ps < Suc (size p + n)"
proof -
  have "size d < size p"
    using assms(1) by (cases p) (auto simp: specific_data_as_value_def split: specific.splits)
  then show ?thesis using nested_params_size[OF assms(2)] by simp
qed

function (sequential) find_dtc_dop_in_params :: "param list \<Rightarrow> dtc_dop option diag_result" where
  "find_dtc_dop_in_params [] = Inr None"
| "find_dtc_dop_in_params (p # ps) =
     (case specific_data_as_value p of
        Some (_, Some (DtcDop dtc_dop)) \<Rightarrow> Inr (Some dtc_dop)
      | Some (_, Some d) \<Rightarrow>
          (case extract_nested_params d of
             Inl e \<Rightarrow> Inl e
           | Inr nested_params \<Rightarrow>
               (case find_dtc_dop_in_params nested_params of
                  Inl e \<Rightarrow> Inl e
                | Inr (Some result) \<Rightarrow> Inr (Some result)
                | Inr None \<Rightarrow> find_dtc_dop_in_params ps))
      | _ \<Rightarrow> find_dtc_dop_in_params ps)"
  by pat_completeness auto
termination
  by (relation "measure (size_list size)") (auto intro: nested_size)


text \<open>The last service of a function remains in the \<open>HashMap\<close>.\<close>

definition dtc_lookup_of ::
  "(diag_service \<Rightarrow> service_messages) \<Rightarrow> diag_service \<Rightarrow> dtc_read_information_function \<Rightarrow>
   (dtc_read_information_function \<times> dtc_lookup) diag_result" where
  "dtc_lookup_of messages service scope =
     bindE (ok_or (service_short_name service) (InvalidDatabase ''No DiagComm found'')) (\<lambda>name.
     bindE (ok_or (pos_responses (messages service))
       (ParameterConversionError ''No positive response found for DTC service'')) (\<lambda>responses.
     bindE (find_dtc_dop_in_params (concat (map (\<lambda>r. flatten_refs (response_params_of r)) responses))) (\<lambda>found.
     Inr (scope, \<lparr>lookup_scope = scope,
       lookup_service = \<lparr>comm_name = name, comm_type = Faults, comm_lookup_name = Some name,
         comm_subfunction_id = None\<rparr>,
       lookup_dtcs = map record_of_dtc (flatten_refs (Option.bind found dd_dtcs))\<rparr>))))"

definition lookup_dtc_services ::
  "(diag_service \<Rightarrow> service_messages) \<Rightarrow> dtc_read_information_function list \<Rightarrow> ecu_manager \<Rightarrow>
   (dtc_read_information_function \<times> dtc_lookup) list diag_result" where
  "lookup_dtc_services messages service_types m =
     bindE (lookup_services_by_sid READ_DTC_INFORMATION m) (\<lambda>services.
     bindE (collect_results (\<lambda>(s, t). dtc_lookup_of messages s t)
       (List.map_filter (\<lambda>s. Option.bind (request_sub_function_id s) (\<lambda>sub_function_id.
          map_option (\<lambda>st. (s, st)) (find (\<lambda>st. function_code st = sub_function_id) service_types))) services))
     (\<lambda>entries. Inr (fold (\<lambda>(k, v). hm_insert k v) entries [])))"

section \<open>Codes have 24 bits\<close>

lemma or_push_add:
  assumes "n < 2 ^ k" shows "push_bit k a OR n = a * 2 ^ k + (n :: nat)"
proof -
  have "\<not> bit n i" if "k \<le> i" for i
    using that assms by (metis take_bit_nat_eq_self bit_take_bit_iff not_less)
  then have "push_bit k a AND n = 0"
    by (intro bit_eqI) (auto simp: bit_and_iff bit_push_bit_iff)
  then show ?thesis by (simp add: disjunctive_add_eq_or[symmetric] push_bit_eq_mult)
qed

lemma parse_digits_bound:
  "parse_digits limit radix acc cs = Inr n \<Longrightarrow> 0 < radix \<Longrightarrow> n < Suc acc * radix ^ length cs"
proof (induction cs arbitrary: acc)
  case (Cons c cs)
  obtain x where x: "to_digit radix c = Some x" "parse_digits limit radix (acc * radix + x) cs = Inr n"
    using Cons.prems(1) by (auto split: option.splits if_splits)
  have "x < radix" using x(1) by (auto simp: to_digit_def Let_def split: if_splits option.splits)
  then have "Suc (acc * radix + x) \<le> Suc acc * radix" by simp
  then have "Suc (acc * radix + x) * radix ^ length cs \<le> Suc acc * radix * radix ^ length cs"
    by (rule mult_le_mono1)
  from less_le_trans[OF Cons.IH[OF x(2) Cons.prems(2)] this] show ?case
    by (simp only: list.size add_Suc_right add_0_right power_Suc mult.assoc)
qed simp

lemma from_str_radix_bound: "from_str_radix limit radix s = Inr n \<Longrightarrow> 0 < radix \<Longrightarrow> n < radix ^ length s"
proof (cases s)
  case (Cons c cs)
  assume "from_str_radix limit radix s = Inr n" and r: "0 < radix"
  then consider "parse_digits limit radix 0 cs = Inr n" | "parse_digits limit radix 0 s = Inr n"
    using Cons by (auto simp: from_str_radix_def split: if_splits)
  then show ?thesis
  proof cases
    case 1
    from parse_digits_bound[OF this r] have "n < radix ^ length cs" by simp
    also have "\<dots> \<le> radix ^ length s" using r Cons by (simp add: power_increasing)
    finally show ?thesis .
  next
    case 2
    from parse_digits_bound[OF this r] show ?thesis by simp
  qed
qed (simp add: from_str_radix_def)

lemma sae_digit_bounds:
  "sae_system c = Some n \<Longrightarrow> n < 4" "sae_group c = Some n \<Longrightarrow> n < 4"
  by (auto simp: sae_system_def sae_group_def split: if_splits)

lemma sae_layout:
  assumes "sae_to_dtc_code s = Inr c"
  obtains sys grp n where "length s = 7" "sae_system (to_ascii_lowercase_char (s ! 0)) = Some sys"
    "sae_group (to_ascii_lowercase_char (s ! 1)) = Some grp"
    "from_str_radix u32_max 16 (drop 2 (to_ascii_lowercase s)) = Inr n" "n < 2 ^ 20"
    "c = sys * 2 ^ 22 + grp * 2 ^ 20 + n"
proof -
  let ?t = "to_ascii_lowercase s"
  have len: "length s = 7" using assms by (auto simp: sae_to_dtc_code_def split: if_splits)
  then have t: "length ?t = 7" "\<And>i. i < 7 \<Longrightarrow> ?t ! i = to_ascii_lowercase_char (s ! i)"
    by (simp_all add: to_ascii_lowercase_def)
  obtain c0 sys c1 grp h where p: "get ?t 0 = Some c0" "sae_system c0 = Some sys" "get ?t 1 = Some c1"
    "sae_group c1 = Some grp" "get_str ?t 2 (length ?t) = Some h"
    and r: "(case from_str_radix u32_max 16 h of
        Inl e \<Rightarrow> Inl (InvalidRequest ''Invalid hex characters in SAE dtc code'')
      | Inr number \<Rightarrow> Inr ((push_bit 22 sys OR push_bit 20 grp) OR number)) = Inr c"
    using assms len by (auto simp: sae_to_dtc_code_def Let_def result_simps)
  from r obtain n where n: "from_str_radix u32_max 16 h = Inr n" "c = (push_bit 22 sys OR push_bit 20 grp) OR n"
    by (cases "from_str_radix u32_max 16 h") auto
  have h: "h = drop 2 ?t" "length h = 5"
    using p(5) t(1) by (auto simp: get_str_def get_range_def split: if_splits)
  have bound: "n < 2 ^ 20" using from_str_radix_bound[OF n(1)] h(2) by simp
  have g: "grp < 4" using sae_digit_bounds(2)[OF p(4)] .
  have "push_bit 22 sys OR push_bit 20 grp = push_bit 20 (push_bit 2 sys OR grp)"
    by (simp add: push_bit_or)
  then have "c = sys * 2 ^ 22 + grp * 2 ^ 20 + n"
    using n(2) bound g by (simp add: or_push_add)
  then show thesis using that len p n(1) h(1) bound t by (auto simp: get_def split: if_splits)
qed

lemma dtc_code_bound:
  assumes "decode_dtc_from_str ext s = Inr c"
  shows "c < 2 ^ 24"
proof (cases "length s = 7")
  case True
  then have "sae_to_dtc_code s = Inr c" using assms by (simp add: decode_dtc_from_str_def)
  then show ?thesis by (rule sae_layout) (use sae_digit_bounds in fastforce)
next
  case False
  then obtain bs where "length bs = 3" "c = be_val bs"
    using assms by (auto simp: decode_dtc_from_str_def Let_def result_simps split: if_splits)
  then show ?thesis using be_val_bound[of bs] by simp
qed

text \<open>
  Every trouble code in a request has 24 bits. A code is accepted as three hexadecimal bytes,
  with or without one \<open>0x\<close>, or in the SAE form, whose letter, digit and five hexadecimal digits
  are then the two highest bits, the next two and the remaining twenty.
\<close>

theorem dtc_code_layout:
  assumes "decode_dtc_from_str ext s = Inr c"
  shows "c < 2 ^ 24 \<and>
    (length s = 7 \<longrightarrow> sae_system (to_ascii_lowercase_char (s ! 0)) = Some (c div 2 ^ 22) \<and>
       sae_group (to_ascii_lowercase_char (s ! 1)) = Some (c div 2 ^ 20 mod 4) \<and>
       from_str_radix u32_max 16 (drop 2 (to_ascii_lowercase s)) = Inr (c mod 2 ^ 20)) \<and>
    (length s \<noteq> 7 \<longrightarrow> (\<exists>bs. length bs = 3 \<and> c = be_val bs \<and>
       decode_hex (hex_decode ext) (if length s = 6 then s else trim_start_0x s) = Inr bs))"
proof (cases "length s = 7")
  case True
  then have "sae_to_dtc_code s = Inr c" using assms by (simp add: decode_dtc_from_str_def)
  then obtain sys grp n where p: "sae_system (to_ascii_lowercase_char (s ! 0)) = Some sys"
    "sae_group (to_ascii_lowercase_char (s ! 1)) = Some grp"
    "from_str_radix u32_max 16 (drop 2 (to_ascii_lowercase s)) = Inr n" "n < 2 ^ 20"
    "c = sys * 2 ^ 22 + grp * 2 ^ 20 + n" by (rule sae_layout)
  have b: "sys < 4" "grp < 4" using sae_digit_bounds p(1,2) by blast+
  have c: "c = (sys * 4 + grp) * 2 ^ 20 + n" using p(5) by simp
  have "(a * k + n) div k = a \<and> (a * k + n) mod k = n" if "n < k" for a k :: nat using that by simp
  from this[OF p(4), of "sys * 4 + grp"] have q: "c div 2 ^ 20 = sys * 4 + grp" "c mod 2 ^ 20 = n"
    unfolding c by blast+
  moreover have "c div 2 ^ 22 = c div 2 ^ 20 div 4" by (simp add: div_mult2_eq[symmetric])
  ultimately have "c div 2 ^ 22 = sys" "c div 2 ^ 20 mod 4 = grp" using b(2) by simp_all
  then show ?thesis using dtc_code_bound[OF assms] True p q(2) by simp
next
  case False
  then obtain bs where "length bs = 3" "c = be_val bs"
    "decode_hex (hex_decode ext) (if length s = 6 then s else trim_start_0x s) = Inr bs"
    using assms by (auto simp: decode_dtc_from_str_def Let_def result_simps split: if_splits)
  then show ?thesis using dtc_code_bound[OF assms] False by auto
qed

theorem dtc_code_layout_witness:
  "(0xDA5B12 :: nat) < 2 ^ 24 \<and> sae_group (to_ascii_lowercase_char (''U1A5B12'' ! 1)) = Some 1"
proof -
  have "to_digit 16 CHR ''a'' = Some 10" "to_digit 16 CHR ''5'' = Some 5" "to_digit 16 CHR ''b'' = Some 11"
    "to_digit 16 CHR ''1'' = Some 1" "to_digit 16 CHR ''2'' = Some 2" by code_simp+
  then have "from_str_radix u32_max 16 ''a5b12'' = Inr 0xA5B12"
    by (simp add: from_str_radix_def u32_max_def)
  moreover have "to_ascii_lowercase ''U1A5B12'' = ''u1a5b12''" "get_str ''u1a5b12'' 2 (length ''u1a5b12'') = Some ''a5b12''"
    by code_simp+
  ultimately have "sae_to_dtc_code ''U1A5B12'' = Inr 0xDA5B12"
    by (simp add: sae_to_dtc_code_def sae_system_def sae_group_def push_bit_eq_mult)
  then have "decode_dtc_from_str reference_externs ''U1A5B12'' = Inr 0xDA5B12"
    by (simp add: decode_dtc_from_str_def)
  from dtc_code_layout[OF this] show ?thesis by simp
qed

section \<open>Status bytes and queries\<close>

fun status_flag :: "dtc_status \<Rightarrow> dtc_mask \<Rightarrow> bool" where
  "status_flag s TestFailed = test_failed s"
| "status_flag s TestFailedThisOperationCycle = test_failed_this_operation_cycle s"
| "status_flag s PendingDtc = pending_dtc s"
| "status_flag s ConfirmedDtc = confirmed_dtc s"
| "status_flag s TestNotCompletedSinceLastClear = test_not_completed_since_last_clear s"
| "status_flag s TestFailedSinceLastClear = test_failed_since_last_clear s"
| "status_flag s TestNotCompletedThisOperationCycle = test_not_completed_this_operation_cycle s"
| "status_flag s WarningIndicatorRequested = warning_indicator_requested s"

fun mask_index :: "dtc_mask \<Rightarrow> nat" where
  "mask_index TestFailed = 0"
| "mask_index TestFailedThisOperationCycle = 1"
| "mask_index PendingDtc = 2"
| "mask_index ConfirmedDtc = 3"
| "mask_index TestNotCompletedSinceLastClear = 4"
| "mask_index TestFailedSinceLastClear = 5"
| "mask_index TestNotCompletedThisOperationCycle = 6"
| "mask_index WarningIndicatorRequested = 7"

lemma bit_mask_bit: "bit (mask_bit k) i \<longleftrightarrow> i = mask_index k"
proof -
  have "mask_bit k = 2 ^ mask_index k" "mask_index k < 8" by (cases k; simp)+
  then show ?thesis by (auto simp: bit_exp_iff)
qed

lemma check_flag_bit: "check_flag b (mask_bit k) \<longleftrightarrow> bit b (mask_index k)"
  unfolding check_flag_def by (metis bit_and_iff bit_eqI bit_mask_bit)

lemma status_flag_bit: "status_flag (get_dtc_status_for_mask b) k \<longleftrightarrow> bit b (mask_index k)"
  using check_flag_bit[of b k] by (cases k) (simp_all add: get_dtc_status_for_mask_def del: mask_bit.simps)

lemma mask_loop_values:
  assumes "\<And>k. k \<in> set ks \<Longrightarrow> st (to_ascii_lowercase (mask_name k)) = Some (JBool (f k))"
  shows "mask_loop st ks acc any =
    Inr (fold (\<lambda>k a. if f k then a OR mask_bit k else a) ks acc, any \<or> (\<exists>k \<in> set ks. f k))"
  using assms by (induction ks arbitrary: acc any) (auto simp: status_value_to_bool_def)

lemma fold_mask_bits:
  "bit (fold (\<lambda>k a. if f k then a OR mask_bit k else a) ks acc) i \<longleftrightarrow>
     bit acc i \<or> (\<exists>k \<in> set ks. f k \<and> i = mask_index k)"
  by (induction ks arbitrary: acc) (auto simp: bit_or_iff bit_mask_bit)

lemma mask_iter_complete: "k \<in> set mask_iter"
  by (cases k) (simp_all add: mask_iter_def)

lemma mask_index_onto: "i < 8 \<Longrightarrow> \<exists>k. mask_index k = i"
proof -
  assume "i < 8"
  then consider "i = 0" | "i = 1" | "i = 2" | "i = 3" | "i = 4" | "i = 5" | "i = 6" | "i = 7" by linarith
  then show ?thesis by cases (metis mask_index.simps)+
qed

text \<open>
  The flags of a status are its bits. The eight flags reported for a status byte, given back
  as the status of a query in lower case, select exactly that byte, unless it is zero.
\<close>

theorem status_query_roundtrip:
  assumes "b \<noteq> 0"
    and "\<And>k. st (to_ascii_lowercase (mask_name k)) = Some (JBool (status_flag (get_dtc_status_for_mask b) k))"
  shows "query_mask (Some st) = Inr b \<and> status_mask (get_dtc_status_for_mask b) = b"
proof -
  let ?f = "status_flag (get_dtc_status_for_mask b)"
  let ?acc = "fold (\<lambda>k a. if ?f k then a OR mask_bit k else a) mask_iter 0"
  have loop: "mask_loop st mask_iter 0 False = Inr (?acc, \<exists>k \<in> set mask_iter. ?f k)"
    using mask_loop_values[of mask_iter st ?f 0 False] assms(2) by simp
  have b: "?acc = b"
    using mask_index_onto mask_iter_complete
    by (intro bit_word_eqI) (auto simp: fold_mask_bits status_flag_bit)
  have "\<exists>k \<in> set mask_iter. ?f k"
  proof (rule ccontr)
    assume "\<not> ?thesis"
    then have "?acc = 0" by (intro bit_word_eqI) (auto simp: fold_mask_bits)
    then show False using b assms(1) by simp
  qed
  then show ?thesis using loop b by (simp add: query_mask_def get_dtc_status_for_mask_def)
qed

lemma mask_lower:
  "to_ascii_lowercase (mask_name TestFailed) = ''testfailed''"
  "to_ascii_lowercase (mask_name TestFailedThisOperationCycle) = ''testfailedthisoperationcycle''"
  "to_ascii_lowercase (mask_name PendingDtc) = ''pendingdtc''"
  "to_ascii_lowercase (mask_name ConfirmedDtc) = ''confirmeddtc''"
  "to_ascii_lowercase (mask_name TestNotCompletedSinceLastClear) = ''testnotcompletedsincelastclear''"
  "to_ascii_lowercase (mask_name TestFailedSinceLastClear) = ''testfailedsincelastclear''"
  "to_ascii_lowercase (mask_name TestNotCompletedThisOperationCycle) = ''testnotcompletedthisoperationcycle''"
  "to_ascii_lowercase (mask_name WarningIndicatorRequested) = ''warningindicatorrequested''"
  by code_simp+

text \<open>
  A flag that is asked to be off counts as no flag: a query for faults whose test has not failed is
  sent with the mask of all faults.
\<close>

lemma negative_query_selects_all: "query_mask (Some [''testfailed'' \<mapsto> JBool False]) = Inr 0xFF"
proof -
  have "to_ascii_lowercase (mask_name k) = ''testfailed'' \<longleftrightarrow> k = TestFailed" for k
    by (cases k) (simp_all add: mask_lower del: mask_name.simps)
  then have "mask_loop [''testfailed'' \<mapsto> JBool False] ks acc any = Inr (acc, any)" for ks acc any
    by (induction ks arbitrary: acc any) (auto simp: status_value_to_bool_def)
  then show ?thesis by (simp add: query_mask_def)
qed

definition flag_named :: "string \<Rightarrow> dtc_mask option" where
  "flag_named n = find (\<lambda>k. to_ascii_lowercase (mask_name k) = n) mask_iter"

lemma flag_named_name: "flag_named (to_ascii_lowercase (mask_name k)) = Some k"
  by (cases k) (simp_all add: flag_named_def mask_iter_def mask_lower del: mask_name.simps)

theorem status_query_roundtrip_witness:
  "query_mask (Some (\<lambda>n. map_option (\<lambda>k. JBool (status_flag (get_dtc_status_for_mask 0x2F) k)) (flag_named n))) =
     Inr 0x2F"
  using status_query_roundtrip[of "0x2F" "\<lambda>n. map_option (\<lambda>k. JBool (status_flag (get_dtc_status_for_mask 0x2F) k))
      (flag_named n)"] by (simp add: flag_named_name)

end
