(* ===== verification/Fault_Memory.thy ===== *)
theory Fault_Memory
  imports Diag_Request Fault_Codes Byte_Slots
begin

text \<open>
  Reading and clearing the fault memory of an ECU (\<open>cda-comm-uds/src/dtc.rs\<close>) and the lookups it
  uses (\<open>cda-core/src/diag_kernel/diag_comm_lookup.rs\<close>). An operation sends several requests. The
  schemas of responses, which a client may ask for beside the data, are not part of the model.
\<close>

section \<open>Configuration\<close>

record fault_config =
  user_defined_dtc_clear_service :: "byte list option"
  user_memory_scope :: string
  default_memory_scope :: string

text \<open>
  Also the names of the functional classes of a service, the printing of JSON, which is
  \<open>serde_json\<close>, and the configuration.
\<close>

record fault_env = request_env +
  fe_classes :: "diag_service \<Rightarrow> string option list option"
  fe_json_text :: "json \<Rightarrow> string"
  fe_config :: fault_config

section \<open>Lookups\<close>

definition lookup_service_through_func_class ::
  "(diag_service \<Rightarrow> string option list option) \<Rightarrow> string \<Rightarrow> byte \<Rightarrow> ecu_manager \<Rightarrow> comm_request diag_result" where
  "lookup_service_through_func_class funct_class func_class_name service_id m =
     (case get_services_from_variant_and_parent_refs (\<lambda>s.
         service_diag_comm s \<noteq> None \<and>
         list_ex (\<lambda>fc. opt_eq_ic fc func_class_name) (flatten_refs (funct_class s)) \<and>
         request_id s = Some service_id) m of
        [] \<Rightarrow> Inl (NotFound ''Service with functional class and SID not found'')
      | s # _ \<Rightarrow> (case service_to_comm s of
            Inr dc \<Rightarrow> Inr dc
          | Inl e \<Rightarrow> Inl (NotFound ''Service with functional class and SID not found'')))"

text \<open>\<open>filter\<close> with a test that may not return.\<close>

fun filter_returning :: "('a \<Rightarrow> bool option) \<Rightarrow> 'a list \<Rightarrow> 'a list option" where
  "filter_returning f [] = Some []"
| "filter_returning f (x # xs) = Option.bind (f x) (\<lambda>b.
     map_option (\<lambda>ys. if b then x # ys else ys) (filter_returning f xs))"

definition lookup_diagcomms_by_request_prefix ::
  "ecu_link \<Rightarrow> byte list \<Rightarrow> ecu_manager \<Rightarrow> comm_request list run" where
  "lookup_diagcomms_by_request_prefix l request_bytes m =
     bindE (lift_result (ok_or (first request_bytes) (NotFound ''cannot lookup service by empty prefix''))) (\<lambda>service_id.
     bindE (lift_result (lookup_services_by_sid service_id m)) (\<lambda>services.
     case filter_returning (\<lambda>s. matches_request_prefix (request_of (link_messages l s)) request_bytes) services of
       None \<Rightarrow> Inl Diverges
     | Some matching \<Rightarrow>
         let found = List.map_filter (\<lambda>s. Option.bind (service_short_name s) (\<lambda>short_name.
               case diag_comm_type_try_from service_id of
                 Inl e \<Rightarrow> None
               | Inr t \<Rightarrow> Some \<lparr>comm_name = trim_short_name_affixes (link_convention l) short_name,
                   comm_type = t, comm_lookup_name = Some short_name, comm_subfunction_id = None\<rparr>)) matching
         in if found = [] then err (NotFound ''No service found matching request prefix'') else Inr found))"

section \<open>Faults by status\<close>

text \<open>The status byte of each code that the response holds.\<close>

fun status_loop ::
  "dtc_read_information_function \<Rightarrow> byte list \<Rightarrow> (dtc_field \<times> dtc_record) list \<Rightarrow> nat \<Rightarrow>
   (nat \<rightharpoonup> dtc_record_and_status) \<Rightarrow> (nat \<rightharpoonup> dtc_record_and_status) diag_result" where
  "status_loop scope raw [] byte_pos all = Inr all"
| "status_loop scope raw ((field, dtc_rec) # active) byte_pos all =
     (let pos = saturating_add_u32 byte_pos (saturating_add_u32 (div_ceil (field_bit_len field) 8) 1) in
      bindE (ok_or (get raw pos) (BadPayload ''Failed to get status byte for DTC'')) (\<lambda>status_byte.
      status_loop scope raw active pos (all(record_code dtc_rec \<mapsto>
        \<lparr>rs_record = dtc_rec, rs_scope = scope, rs_status = get_dtc_status_for_mask status_byte\<rparr>))))"

definition active_faults ::
  "dtc_read_information_function \<Rightarrow> diag_response \<Rightarrow> (nat \<rightharpoonup> dtc_record_and_status) \<Rightarrow>
   (nat \<rightharpoonup> dtc_record_and_status) diag_result" where
  "active_faults scope response all =
     bindE (get_dtcs response) (\<lambda>active.
     status_loop scope (response_data response) active
       (case active of [] \<Rightarrow> 0 | (f, _) # _ \<Rightarrow> field_byte_pos f) all)"

text \<open>The codes of the description that the ECU did not report; \<open>entry(k).or_insert(v)\<close>.\<close>

definition add_described ::
  "dtc_read_information_function \<Rightarrow> dtc_record list \<Rightarrow> (nat \<rightharpoonup> dtc_record_and_status) \<Rightarrow>
   (nat \<rightharpoonup> dtc_record_and_status)" where
  "add_described scope dtcs all = fold (\<lambda>d acc. or_insert acc (record_code d)
     \<lparr>rs_record = d, rs_scope = scope, rs_status = get_dtc_status_for_mask 0\<rparr>) dtcs all"

fun read_services ::
  "fault_env \<Rightarrow> byte \<Rightarrow> byte option \<Rightarrow> (dtc_read_information_function \<times> dtc_lookup) list \<Rightarrow>
   (nat \<rightharpoonup> dtc_record_and_status) \<Rightarrow> (nat \<rightharpoonup> dtc_record_and_status) requests" where
  "read_services env wanted memory_selection [] all = returnX all"
| "read_services env wanted memory_selection ((read_info, look) # services) all =
     bindX (sendX env (lookup_service look)
       (Some (RawData (wanted # (if is_user_scope read_info then [unwrap_or memory_selection 0] else [])))) True)
     (\<lambda>response. bindX (liftX (lift_result (active_faults (lookup_scope look) response all))) (\<lambda>all1.
       read_services env wanted memory_selection services
         (if wanted = 0xFF \<or> wanted = 0x00 then add_described (lookup_scope look) (lookup_dtcs look) all1
          else all1)))"

definition ecu_dtc_by_mask ::
  "fault_env \<Rightarrow> (string \<rightharpoonup> json) option \<Rightarrow> nat option \<Rightarrow> string option \<Rightarrow> byte option \<Rightarrow>
   (nat \<rightharpoonup> dtc_record_and_status) requests" where
  "ecu_dtc_by_mask env wanted severity scope memory_selection =
     bindX (askX (\<lambda>m. lift_result (lookup_dtc_services (link_messages (env_link env))
       [FaultMemoryByStatusMask, UserMemoryDtcByStatusMask] m))) (\<lambda>services.
     let scoped_services = filter (\<lambda>(_, look). case scope of None \<Rightarrow> True
           | Some s \<Rightarrow> eq_ignore_ascii_case s (default_scope (lookup_scope look))) services in
     if scoped_services = [] then liftX (err (RequestNotSupported ''ECU does not support fault memory''))
     else bindX (liftX (lift_result (query_mask wanted))) (\<lambda>b.
       bindX (read_services env b memory_selection scoped_services Map.empty) (\<lambda>all.
       returnX (\<lambda>k. case all k of None \<Rightarrow> None
         | Some d \<Rightarrow> if (case severity of None \<Rightarrow> True | Some s \<Rightarrow> record_severity (rs_record d) \<le> s)
                     then Some d else None))))"

section \<open>Extended data and snapshots\<close>

definition DTC_RECORD_NUMBER_ALL :: byte where "DTC_RECORD_NUMBER_ALL = 0xFF"

definition request_extended_data ::
  "fault_env \<Rightarrow> nat \<Rightarrow> dtc_read_information_function list \<Rightarrow> byte option \<Rightarrow> diag_response requests" where
  "request_extended_data env number service_types memory_selection =
     bindX (askX (\<lambda>m. lift_result (lookup_dtc_services (link_messages (env_link env)) service_types m))) (\<lambda>lookups.
     bindX (liftX (lift_result (ok_or
       (find (\<lambda>(_, look). list_ex (\<lambda>d. record_code d = number) (lookup_dtcs look)) lookups)
       (InvalidRequest ''DTC not found in ECU'')))) (\<lambda>(read_func, look).
     bindX (liftX (lift_result (extract_bits DTC_CODE_BIT_LEN 0 (u32_to_be_bytes number)))) (\<lambda>code_bytes.
     sendX env (lookup_service look)
       (Some (RawData (code_bytes @ [DTC_RECORD_NUMBER_ALL] @
          (if is_user_scope read_func then [unwrap_or memory_selection 0] else [])))) True)))"

text \<open>\<open>Value::to_string\<close> without quotation marks.\<close>

definition unquoted :: "fault_env \<Rightarrow> json \<Rightarrow> string" where
  "unquoted env v = filter (\<lambda>c. c \<noteq> CHR ''\"'') (fe_json_text env v)"

definition first_array :: "json \<Rightarrow> json list option" where
  "first_array v = Option.bind (as_object v) (\<lambda>fs. find_map (\<lambda>(_, x). as_array x) fs)"

definition some_errors :: "field_parse_error list \<Rightarrow> field_parse_error list option" where
  "some_errors es = (if es = [] then None else Some es)"

definition extended_record :: "fault_env \<Rightarrow> json \<Rightarrow> (string \<times> json) option" where
  "extended_record env item = Option.bind (as_object item) (\<lambda>fs.
     case (find (\<lambda>(_, v). as_object v = None) fs, find_map (\<lambda>(_, v). as_object v) fs) of
       (Some (_, record_number), Some rec_fields) \<Rightarrow> Some (unquoted env record_number, JObject rec_fields)
     | _ \<Rightarrow> None)"

record extended_data_records =
  ed_data :: "(string \<times> json) list option"
  ed_errors :: "field_parse_error list option"

definition map_extended_data ::
  "fault_env \<Rightarrow> nat \<Rightarrow> byte option \<Rightarrow> dtc_read_information_function \<Rightarrow> extended_data_records option requests" where
  "map_extended_data env number memory_selection scope =
     bindX (request_extended_data env number
       [if is_user_scope scope then UserMemoryDtcExtDataRecordByDtcNumber
        else FaultMemoryExtDataRecordByDtcNumber] memory_selection) (\<lambda>response.
     if response_kind response = NegativeResponse then returnX None
     else bindX (liftX (serialize_to_json (link_externs (env_link env)) response)) (\<lambda>doc.
       returnX (Some \<lparr>ed_data = map_option (\<lambda>arr.
           fold (\<lambda>(k, v). hm_insert k v) (List.map_filter (extended_record env) arr) [])
           (first_array (json_data doc)),
         ed_errors = some_errors (json_errors doc)\<rparr>)))"

record dtc_snapshot =
  number_of_identifiers :: nat
  snapshot_record :: "json list"

definition snapshot_of :: "fault_env \<Rightarrow> json \<Rightarrow> (string \<times> dtc_snapshot) option" where
  "snapshot_of env item = Option.bind (as_object item) (\<lambda>fs.
     case (find_map (\<lambda>(_, v). as_array v) fs, find (\<lambda>(_, v). is_number v) fs,
           find (\<lambda>(_, v). as_str v \<noteq> None) fs) of
       (Some records, Some (_, count), Some (_, record_number)) \<Rightarrow>
         Some (unquoted env record_number,
           \<lparr>number_of_identifiers = unwrap_or (as_u64 count) 0, snapshot_record = records\<rparr>)
     | _ \<Rightarrow> None)"

record extended_snapshots =
  es_data :: "(string \<times> dtc_snapshot) list option"
  es_errors :: "field_parse_error list option"

definition map_snapshots ::
  "fault_env \<Rightarrow> nat \<Rightarrow> byte option \<Rightarrow> dtc_read_information_function \<Rightarrow> extended_snapshots option requests" where
  "map_snapshots env number memory_selection scope =
     bindX (request_extended_data env number
       [if is_user_scope scope then UserMemoryDtcSnapshotRecordByDtcNumber
        else FaultMemorySnapshotRecordByDtcNumber] memory_selection) (\<lambda>response.
     if response_kind response = NegativeResponse then returnX None
     else bindX (liftX (serialize_to_json (link_externs (env_link env)) response)) (\<lambda>doc.
       returnX (Some \<lparr>es_data = map_option (\<lambda>arr.
           fold (\<lambda>(k, v). hm_insert k v) (List.map_filter (snapshot_of env) arr) [])
           (first_array (json_data doc)),
         es_errors = some_errors (json_errors doc)\<rparr>)))"

record dtc_extended_info =
  record_and_status :: dtc_record_and_status
  extended_records :: "extended_data_records option"
  extended_info_snapshots :: "extended_snapshots option"

definition ecu_dtc_extended ::
  "fault_env \<Rightarrow> string \<Rightarrow> bool \<Rightarrow> bool \<Rightarrow> byte option \<Rightarrow> dtc_extended_info requests" where
  "ecu_dtc_extended env sae_dtc include_extended_data include_snapshot memory_selection =
     bindX (liftX (lift_result (decode_dtc_from_str (link_externs (env_link env)) sae_dtc))) (\<lambda>number.
     bindX (ecu_dtc_by_mask env None None None memory_selection) (\<lambda>dtc_by_mask.
     bindX (liftX (lift_result (ok_or (dtc_by_mask number) (InvalidRequest ''DTC not found in ECU'')))) (\<lambda>found.
     bindX (if include_snapshot then map_snapshots env number memory_selection (rs_scope found)
            else returnX None) (\<lambda>snapshots.
     bindX (if include_extended_data then map_extended_data env number memory_selection (rs_scope found)
            else returnX None) (\<lambda>extended.
     returnX \<lparr>record_and_status = found, extended_records = extended,
       extended_info_snapshots = snapshots\<rparr>)))))"

section \<open>Clearing\<close>

definition DTC_GROUP_ALL :: "byte list" where "DTC_GROUP_ALL = [0xFF, 0xFF, 0xFF]"

definition clear_payload :: "fault_env \<Rightarrow> string option \<Rightarrow> service_payload diag_result" where
  "clear_payload env fault_code =
     bindE (case fault_code of
         None \<Rightarrow> Inr DTC_GROUP_ALL
       | Some s \<Rightarrow> bindE (decode_dtc_from_str (link_externs (env_link env)) s) (\<lambda>number.
           Inr (drop 1 (u32_to_be_bytes number)))) (\<lambda>group.
     Inr \<lparr>service_payload.payload_data = CLEAR_DIAGNOSTIC_INFORMATION # group,
       source_address = link_tester (env_link env), target_address = link_logical (env_link env),
       new_session = None, new_security = None\<rparr>)"

definition delete_dtcs :: "fault_env \<Rightarrow> string option \<Rightarrow> diag_response requests" where
  "delete_dtcs env fault_code =
     bindX (askX (\<lambda>m. lift_result (lookup_service_through_func_class (fe_classes env) ''faultmem''
       CLEAR_DIAGNOSTIC_INFORMATION m))) (\<lambda>service.
     bindX (is_service_allowed env service) (\<lambda>_.
     bindX (liftX (lift_result (clear_payload env fault_code))) (\<lambda>payload.
     bindX (send_rawX env payload) (\<lambda>answer.
     liftX (lift_result (case answer of
         None \<Rightarrow> Inl (NoResponse ''ECU did not respond to DTC clear'')
       | Some resp \<Rightarrow> convert_service_14_response service (service_payload.payload_data resp)))))))"

definition delete_dtcs_scoped :: "fault_env \<Rightarrow> string \<Rightarrow> diag_response requests" where
  "delete_dtcs_scoped env scope =
     (let config = fe_config env in
      if eq_ignore_ascii_case scope (default_memory_scope config) then delete_dtcs env None
      else if \<not> eq_ignore_ascii_case scope (user_memory_scope config)
      then liftX (err (InvalidParameter {default_memory_scope config, user_memory_scope config}))
      else bindX (liftX (lift_result (ok_or (user_defined_dtc_clear_service config)
             (InvalidConfiguration ''User defined DTC scope name is not set in the configuration'')))) (\<lambda>prefix.
        bindX (askX (lookup_diagcomms_by_request_prefix (env_link env) prefix)) (\<lambda>found.
        bindX (liftX (lift_result (ok_or (first found)
          (InvalidConfiguration ''Unable to find service matching payload'')))) (\<lambda>service.
        bindX (is_service_allowed env service) (\<lambda>_.
        sendX env service None False)))))"

section \<open>Every code has its own status\<close>

text \<open>
  The response of ISO 14229: after the availability mask, the part of a response that holds data, a
  record of four bytes per fault. The fields of the records are relative to their record.
\<close>

definition fault_bytes :: "(dtc_record \<times> byte) list \<Rightarrow> byte list" where
  "fault_bytes faults = concat (map (\<lambda>(d, st). be_bytes 3 (record_code d) @ [st]) faults)"

definition fault_entry :: "dtc_record \<times> byte \<Rightarrow> dtc_field \<times> dtc_record" where
  "fault_entry f = (\<lparr>field_bit_pos = 0, field_bit_len = DTC_CODE_BIT_LEN, field_byte_pos = 0\<rparr>, fst f)"

definition reported :: "dtc_read_information_function \<Rightarrow> dtc_record \<times> byte \<Rightarrow> dtc_record_and_status" where
  "reported scope f = \<lparr>rs_record = fst f, rs_scope = scope, rs_status = get_dtc_status_for_mask (snd f)\<rparr>"

lemma length_fault_bytes: "length (fault_bytes faults) = 4 * length faults"
  by (induction faults) (auto simp: fault_bytes_def)

lemma status_step:
  assumes "get raw (byte_pos + 4) = Some (snd f)" "byte_pos + 4 \<le> u32_max"
  shows "status_loop scope raw (fault_entry f # active) byte_pos all =
    status_loop scope raw active (byte_pos + 4) (all(record_code (fst f) \<mapsto> reported scope f))"
proof -
  have "saturating_add_u32 byte_pos (saturating_add_u32 (div_ceil DTC_CODE_BIT_LEN 8) 1) = byte_pos + 4"
    using assms(2) by (simp add: saturating_add_u32_def DTC_CODE_BIT_LEN_def div_ceil_def u32_max_def)
  then show ?thesis using assms(1) by (simp add: fault_entry_def reported_def Let_def)
qed

lemma status_loop_records:
  assumes "length front = Suc byte_pos" "byte_pos + 4 * length faults \<le> u32_max"
  shows "status_loop scope (front @ fault_bytes faults) (map fault_entry faults) byte_pos all =
    Inr (all ++ map_of (rev (map (\<lambda>f. (record_code (fst f), reported scope f)) faults)))"
  using assms
proof (induction faults arbitrary: front byte_pos all)
  case (Cons f faults)
  let ?block = "be_bytes 3 (record_code (fst f)) @ [snd f]"
  let ?raw = "(front @ ?block) @ fault_bytes faults"
  have bytes: "front @ fault_bytes (f # faults) = ?raw"
    by (simp add: fault_bytes_def case_prod_beta)
  have "get ?raw (byte_pos + 4) = Some (snd f)"
    using Cons.prems(1) by (simp add: get_def nth_append)
  then have "status_loop scope ?raw (map fault_entry (f # faults)) byte_pos all =
      status_loop scope ?raw (map fault_entry faults) (byte_pos + 4)
        (all(record_code (fst f) \<mapsto> reported scope f))"
    using Cons.prems(2) by (simp only: list.map) (intro status_step, simp_all)
  also have "\<dots> = Inr (all(record_code (fst f) \<mapsto> reported scope f) ++
      map_of (rev (map (\<lambda>f. (record_code (fst f), reported scope f)) faults)))"
    using Cons.prems by (intro Cons.IH) simp_all
  finally show ?case unfolding bytes by (simp add: map_add_assoc[symmetric])
qed (simp add: fault_bytes_def)

text \<open>
  C21: Every fault is reported with its own status. When the ECU answers in the layout of the
  standard, each code of the answer is reported with the flags of the status byte of its own
  record, a code that comes twice with the last of them, and the faults collected before stay.
\<close>

theorem fault_status_iso:
  assumes "get_dtcs response = Inr (map fault_entry faults)"
    and "response_data response = availability # fault_bytes faults"
    and "4 * length faults \<le> u32_max"
  shows "\<exists>all'. active_faults scope response all = Inr all' \<and>
    (\<forall>k. all' k = (case find (\<lambda>f. record_code (fst f) = k) (rev faults) of
        None \<Rightarrow> all k
      | Some f \<Rightarrow> Some \<lparr>rs_record = fst f, rs_scope = scope, rs_status = get_dtc_status_for_mask (snd f)\<rparr>))"
proof -
  have start: "(case map fault_entry faults of [] \<Rightarrow> 0 | (f, _) # _ \<Rightarrow> field_byte_pos f) = 0"
    by (cases faults) (simp_all add: fault_entry_def)
  have "active_faults scope response all =
      Inr (all ++ map_of (rev (map (\<lambda>f. (record_code (fst f), reported scope f)) faults)))"
    using status_loop_records[of "[availability]" 0 faults scope all] assms start
    by (simp add: active_faults_def)
  moreover have "map_of (map (\<lambda>f. (record_code (fst f), reported scope f)) fs) k =
      map_option (reported scope) (find (\<lambda>f. record_code (fst f) = k) fs)" for fs k
    by (induction fs) auto
  ultimately show ?thesis
    by (auto simp: map_add_def rev_map reported_def split: option.splits)
qed

section \<open>A cleared memory was confirmed by the ECU\<close>

lemma clear_payload_bytes:
  assumes "clear_payload env fault_code = Inr payload"
  obtains dtc_group where "payload = \<lparr>service_payload.payload_data = CLEAR_DIAGNOSTIC_INFORMATION # dtc_group,
      source_address = link_tester (env_link env), target_address = link_logical (env_link env),
      new_session = None, new_security = None\<rparr>"
    "length dtc_group = 3"
    "case fault_code of None \<Rightarrow> be_val dtc_group = 0xFFFFFF
     | Some s \<Rightarrow> decode_dtc_from_str (link_externs (env_link env)) s = Inr (be_val dtc_group)"
proof (cases fault_code)
  case None
  then show thesis using that assms by (auto simp: clear_payload_def DTC_GROUP_ALL_def)
next
  case (Some s)
  then obtain number where n: "decode_dtc_from_str (link_externs (env_link env)) s = Inr number"
    and p: "payload = \<lparr>service_payload.payload_data = CLEAR_DIAGNOSTIC_INFORMATION # drop 1 (be_bytes 4 number),
      source_address = link_tester (env_link env), target_address = link_logical (env_link env),
      new_session = None, new_security = None\<rparr>"
    using assms by (auto simp: clear_payload_def result_simps u32_to_be_bytes_def)
  have d: "drop 1 (be_bytes 4 number) = be_bytes 3 number"
    using drop_be_bytes[of 1 3 number] by (simp del: be_bytes.simps)
  then have "be_val (drop 1 (be_bytes 4 number)) = number" "length (drop 1 (be_bytes 4 number)) = 3"
    using dtc_code_bound[OF n] by (simp_all add: be_val_be_bytes)
  then show thesis using that[of "drop 1 (be_bytes 4 number)"] n p Some by simp
qed

text \<open>The ECU answers \<open>54\<close>; a refusal is not taken for it.\<close>

lemma clear_confirmed:
  assumes "is_expected (CLEAR_DIAGNOSTIC_INFORMATION # dtc_group) CLEAR_DIAGNOSTIC_INFORMATION msg"
    and "convert_service_14_response service (service_payload.payload_data msg) = Inr r"
  shows "first (service_payload.payload_data msg) = Some CLEAR_FAULT_MEM_POS_RESPONSE_SID \<and>
    response_kind r = PositiveResponse"
proof -
  have "is_response_for_sid msg CLEAR_DIAGNOSTIC_INFORMATION" using assms(1) by (simp add: is_expected_def)
  then show ?thesis
    using assms(2)
    by (cases "service_payload.payload_data msg")
      (auto simp: is_response_for_sid_def convert_service_14_response_def try_extract_sid_from_payload_def
        is_positive_response_for_sid_def is_negative_response_for_sid_def saturating_add_u8_def
        UDS_ID_RESPONSE_BITMASK_def sid_defs CLEAR_FAULT_MEM_POS_RESPONSE_SID_def Let_def
        split: list.splits if_splits)
qed

text \<open>
  C20: Faults are reported as cleared only when the ECU confirmed it. A clearing that returns has
  found the service of the functional class for the fault memory that clears, has passed the access
  check of that service, and has then exchanged exactly one message with the ECU: the request is the
  clearing service followed by the three bytes of the given code, or of all codes, from the tester to
  the ECU, and the message that came back answers it and is positive, as is the response that is
  returned; a refused clearing is never reported as done.
\<close>

theorem clear_faults_confirmed:
  assumes "delete_dtcs env fault_code xs m = Some (Inr r, xs', m')"
  shows "\<exists>x service s m1 dtc_group payload msg n.
    xs = x # xs' \<and>
    lookup_service_through_func_class (fe_classes env) ''faultmem'' CLEAR_DIAGNOSTIC_INFORMATION m = Inr service \<and>
    lookup_diag_service (link_convention (env_link env)) service None None m = (Inr s, m1) \<and>
    check_service_access (env_plugin env) s m1 = Inr () \<and>
    length dtc_group = 3 \<and>
    (case fault_code of None \<Rightarrow> be_val dtc_group = 0xFFFFFF
     | Some t \<Rightarrow> decode_dtc_from_str (link_externs (env_link env)) t = Inr (be_val dtc_group)) \<and>
    clear_payload env fault_code = Inr payload \<and>
    payload = \<lparr>service_payload.payload_data = CLEAR_DIAGNOSTIC_INFORMATION # dtc_group,
       source_address = link_tester (env_link env), target_address = link_logical (env_link env),
       new_session = None, new_security = None\<rparr> \<and>
    raw_exchange (env_link env) payload None True x m1 = Some (Inr (Some msg), m', n) \<and>
    (\<exists>evs t. Sent evs \<in> set (sent_attempts x) \<and> (t, Got (Inr (Some (UdsResponse msg)))) \<in> set evs) \<and>
    first (service_payload.payload_data msg) = Some CLEAR_FAULT_MEM_POS_RESPONSE_SID \<and>
    response_kind r = PositiveResponse"
proof -
  obtain service s m1 payload answer where
    look: "lookup_service_through_func_class (fe_classes env) ''faultmem'' CLEAR_DIAGNOSTIC_INFORMATION m = Inr service"
      "lookup_diag_service (link_convention (env_link env)) service None None m = (Inr s, m1)"
    and access: "check_service_access (env_plugin env) s m1 = Inr ()"
    and p: "clear_payload env fault_code = Inr payload"
    and sent: "send_rawX env payload xs m1 = Some (Inr answer, xs', m')"
    and conv: "(case answer of None \<Rightarrow> Inl (NoResponse ''ECU did not respond to DTC clear'')
      | Some resp \<Rightarrow> convert_service_14_response service (service_payload.payload_data resp)) = Inr r"
    using assms unfolding delete_dtcs_def
    by (elim bindX_ok) (auto dest!: service_allowed_ok)
  obtain msg where ans: "answer = Some msg"
    and c: "convert_service_14_response service (service_payload.payload_data msg) = Inr r"
    using conv by (cases answer) auto
  obtain x n where x: "xs = x # xs'" "raw_exchange (env_link env) payload None True x m1 = Some (Inr (Some msg), m', n)"
    using sent ans by (auto simp: send_rawX_def split: list.splits)
  obtain dtc_group where g: "payload = \<lparr>service_payload.payload_data = CLEAR_DIAGNOSTIC_INFORMATION # dtc_group,
      source_address = link_tester (env_link env), target_address = link_logical (env_link env),
      new_session = None, new_security = None\<rparr>"
    "length dtc_group = 3" "case fault_code of None \<Rightarrow> be_val dtc_group = 0xFFFFFF
     | Some t \<Rightarrow> decode_dtc_from_str (link_externs (env_link env)) t = Inr (be_val dtc_group)"
    using p by (rule clear_payload_bytes)
  have got: "is_expected (CLEAR_DIAGNOSTIC_INFORMATION # dtc_group) CLEAR_DIAGNOSTIC_INFORMATION msg \<and>
    (\<exists>evs t. Sent evs \<in> set (sent_attempts x) \<and> (t, Got (Inr (Some (UdsResponse msg)))) \<in> set evs)"
    by (rule raw_exchange_ok[OF x(2)]) (use g(1) in auto)
  have "first (service_payload.payload_data msg) = Some CLEAR_FAULT_MEM_POS_RESPONSE_SID \<and>
      response_kind r = PositiveResponse"
    using got by (intro clear_confirmed[OF _ c]) blast
  with got look access x p g show ?thesis by blast
qed

section \<open>Unfiltered queries\<close>

lemma dom_or_insert: "dom (or_insert m k v) = insert k (dom m)"
  by (auto simp: or_insert_def split: option.splits)

lemma dom_add_described: "dom (add_described scope dtcs all) = dom all \<union> record_code ` set dtcs"
  unfolding add_described_def
  by (induction dtcs arbitrary: all) (simp_all add: dom_or_insert del: dom_def)

lemma dom_status_loop: "status_loop scope raw active pos all = Inr all' \<Longrightarrow> dom all \<subseteq> dom all'"
  by (induction scope raw active pos all rule: status_loop.induct)
    (fastforce simp: Let_def result_simps)+

lemma read_services_lists:
  assumes "read_services env 0xFF sel services all xs m = Some (Inr all', xs', m')"
  shows "dom all \<union> (\<Union>(f, look) \<in> set services. record_code ` set (lookup_dtcs look)) \<subseteq> dom all'"
  using assms
proof (induction services arbitrary: all xs m)
  case (Cons s services)
  obtain f look where s: "s = (f, look)" by (rule prod.exhaust)
  obtain response all1 ys m1 where a: "active_faults (lookup_scope look) response all = Inr all1"
    and rest: "read_services env 0xFF sel services (add_described (lookup_scope look) (lookup_dtcs look) all1)
      ys m1 = Some (Inr all', xs', m')"
    using Cons.prems unfolding s by (auto elim!: bindX_ok)
  have "dom all \<subseteq> dom all1" using a by (auto simp: active_faults_def result_simps dest!: dom_status_loop)
  with Cons.IH[OF rest] show ?case unfolding s dom_add_described by auto
qed simp

text \<open>
  A query without a status lists every code that the description has for the memories it reads,
  whether or not the ECU reported it.
\<close>

lemma unfiltered_query_complete:
  assumes "ecu_dtc_by_mask env None None scope sel xs m = Some (Inr all, xs', m')"
    and "lookup_dtc_services (link_messages (env_link env)) [FaultMemoryByStatusMask, UserMemoryDtcByStatusMask] m =
      Inr services"
    and "(f, look) \<in> set services" "d \<in> set (lookup_dtcs look)"
    and "\<forall>s. scope = Some s \<longrightarrow> eq_ignore_ascii_case s (default_scope (lookup_scope look))"
  shows "all (record_code d) \<noteq> None"
proof -
  let ?scoped = "filter (\<lambda>(_, look). case scope of None \<Rightarrow> True
           | Some s \<Rightarrow> eq_ignore_ascii_case s (default_scope (lookup_scope look))) services"
  have mem: "(f, look) \<in> set ?scoped" using assms(3,5) by (auto split: option.splits)
  then have ne: "?scoped \<noteq> []" by (metis empty_iff empty_set)
  obtain all1 where "read_services env 0xFF sel ?scoped Map.empty xs m = Some (Inr all1, xs', m')"
    "all = (\<lambda>k. case all1 k of None \<Rightarrow> None | Some d \<Rightarrow> if (case (None :: nat option) of None \<Rightarrow> True
       | Some s \<Rightarrow> record_severity (rs_record d) \<le> s) then Some d else None)"
    using assms(1,2) ne unfolding ecu_dtc_by_mask_def
    by (auto elim!: bindX_ok simp: Let_def query_mask_def)
  moreover from this(1) have "record_code d \<in> dom all1"
    using read_services_lists[of env sel ?scoped Map.empty xs m all1 xs' m'] mem assms(4) by blast
  ultimately show ?thesis by auto
qed

text \<open>
  The scope of a query is compared with the fixed names of the memories. The configured name of the
  user memory, which selects it for clearing, selects nothing for reading.
\<close>

lemma user_scope_not_readable:
  "ecu_dtc_by_mask env wanted severity (Some ''DevelopmentFaultMemory'') sel xs m \<noteq> Some (Inr all, xs', m')"
proof
  have none: "\<not> eq_ignore_ascii_case ''DevelopmentFaultMemory'' (default_scope f)" for f
    by (induction f) code_simp+
  assume "ecu_dtc_by_mask env wanted severity (Some ''DevelopmentFaultMemory'') sel xs m = Some (Inr all, xs', m')"
  then show False
    unfolding ecu_dtc_by_mask_def by (auto elim!: bindX_ok simp: Let_def none case_prod_beta)
qed

section \<open>Samples\<close>

definition sample_faults :: "(dtc_record \<times> byte) list" where
  "sample_faults = [(\<lparr>record_code = 0x1E240, record_display_code = None, record_fault_name = ''A'',
      record_severity = 1\<rparr>, 0x24)]"

definition sample_fault_response :: diag_response where
  "sample_fault_response = \<lparr>response_service = diag_comm_new ''Faults'' Faults,
     response_data = [0xFF, 0x01, 0xE2, 0x40, 0x24],
     mapped_data = Some \<lparr>mapped_fields = [(''DTCRecords'', RepeatingStruct [[(''DTC'', DtcStruct
       \<lparr>dtc_code = 0x1E240, dtc_display_code = None, dtc_fault_name = ''A'', dtc_severity = 1,
        dtc_bit_pos = 0, dtc_bit_len = 24, dtc_byte_pos = 0\<rparr>)]])], mapped_errors = []\<rparr>,
     response_kind = PositiveResponse\<rparr>"

theorem fault_status_iso_witness:
  "\<exists>all'. active_faults FaultMemoryByStatusMask sample_fault_response Map.empty = Inr all' \<and>
     map_option (\<lambda>d. confirmed_dtc (rs_status d)) (all' 0x1E240) = Some False \<and>
     map_option (\<lambda>d. pending_dtc (rs_status d)) (all' 0x1E240) = Some True"
proof -
  have "get_dtcs sample_fault_response = Inr (map fault_entry sample_faults)"
    by (simp add: get_dtcs_def sample_fault_response_def sample_faults_def dtc_entry_def fault_entry_def
        DTC_CODE_BIT_LEN_def)
  moreover have "[0x01, 0xE2, 0x40] = be_bytes 3 0x1E240" by (rule be_bytes_unique) simp_all
  then have "response_data sample_fault_response = 0xFF # fault_bytes sample_faults"
    by (simp add: sample_fault_response_def fault_bytes_def sample_faults_def del: be_bytes.simps)
  ultimately obtain all' where a: "active_faults FaultMemoryByStatusMask sample_fault_response Map.empty = Inr all'"
    and k: "all' 0x1E240 = (case find (\<lambda>f. record_code (fst f) = 0x1E240) (rev sample_faults) of
        None \<Rightarrow> None
      | Some f \<Rightarrow> Some \<lparr>rs_record = fst f, rs_scope = FaultMemoryByStatusMask,
          rs_status = get_dtc_status_for_mask (snd f)\<rparr>)"
    using fault_status_iso[of sample_fault_response sample_faults "0xFF" FaultMemoryByStatusMask Map.empty]
    by (auto simp: sample_faults_def u32_max_def)
  then show ?thesis
    by (intro exI[of _ all']) (simp add: sample_faults_def get_dtc_status_for_mask_def check_flag_def)
qed

definition clear_service :: diag_service where
  "clear_service = sample_service ''FaultMem_Clear'' CLEAR_DIAGNOSTIC_INFORMATION"

definition clear_manager :: ecu_manager where
  "clear_manager = (demo_manager [])\<lparr>diag_database := Some
     \<lparr>variants = Some [\<lparr>variant_layer = Some \<lparr>layer_short_name = Some ''Base'', state_charts = None,
         diag_services = Some [clear_service]\<rparr>,
       variant_is_base = True, parent_refs = None, variant_pattern = None\<rparr>], functional_groups = None\<rparr>\<rparr>"

definition clear_answer :: service_payload where
  "clear_answer = uds_response_from_raw [0x54] 0x1001 0x0E00"

definition clear_env :: fault_env where
  "clear_env = \<lparr>env_link = vin_link, env_detect = id, env_plugin = None, fe_classes = (\<lambda>s. Some [Some ''FaultMem'']),
     fe_json_text = (\<lambda>v. []), fe_config = \<lparr>user_defined_dtc_clear_service = None,
       user_memory_scope = ''DevelopmentFaultMemory'', default_memory_scope = ''FaultMem''\<rparr>\<rparr>"

definition clear_exchange :: exchange where
  "clear_exchange = \<lparr>sem_acquired = True,
     sent_attempts = [Sent [(5, Got (Inr (Some (UdsResponse clear_answer))))]]\<rparr>"

abbreviation clear_comm :: comm_request where
  "clear_comm \<equiv> diag_comm_new ''FaultMem_Clear'' Faults"

lemma clear_services:
  "get_services_from_variant_and_parent_refs p clear_manager = (if p clear_service then [clear_service] else [])"
  by (simp add: get_services_from_variant_and_parent_refs_def clear_manager_def demo_manager_def current_variant_def
      base_variant_of_def ecu_runtime_state_new_def ecu_state_default_def flatten_refs_def
      get_parent_ref_services_recursive_def get_parent_ref_diag_layers_with_refs_recursive_def resolve_loop.simps)

lemma clear_lookup:
  "lookup_service_through_func_class (fe_classes clear_env) ''faultmem'' CLEAR_DIAGNOSTIC_INFORMATION clear_manager =
     Inr clear_comm"
proof -
  have "opt_eq_ic (Some ''FaultMem'') ''faultmem''" by code_simp
  then show ?thesis
    by (simp add: lookup_service_through_func_class_def clear_services clear_env_def flatten_refs_def)
      (simp add: clear_service_def sample_service_def service_to_comm_def diag_comm_type_try_from_def sid_defs
        diag_comm_new_def)
qed

lemma clear_found:
  "\<exists>m1. lookup_diag_service sample_convention clear_comm None None clear_manager = (Inr clear_service, m1)"
proof -
  have key: "lookup_name_of sample_convention clear_comm = ''faultmem_clear''"
    by (simp add: lookup_name_of_def diag_comm_new_def) code_simp
  have "starts_with_ignore_ascii_case ''FaultMem_Clear'' ''faultmem_clear''" by code_simp
  then have pred: "lookup_predicate sample_convention clear_comm None clear_service"
    using key by (simp add: lookup_predicate_def diag_comm_new_def clear_service_def sample_service_def
        diag_comm_short_name_starts_with_def service_short_name_def)
  have "own_services clear_manager = Some [clear_service]" "db_cache clear_manager = Map.empty"
    by (simp_all add: own_services_def active_variant_def current_variant_def base_variant_of_def
        clear_manager_def demo_manager_def ecu_runtime_state_new_def ecu_state_default_def)
  then show ?thesis
    using pred by (simp add: lookup_diag_service_def live_location_def search_and_cache_location_def
        search_with_location_def find_indexed_def diag_comm_new_def)
qed

lemma clear_all:
  "\<exists>r m'. delete_dtcs clear_env None [clear_exchange] clear_manager = Some (Inr r, [], m')"
proof -
  obtain m1 where found: "lookup_diag_service sample_convention clear_comm None None clear_manager =
      (Inr clear_service, m1)" using clear_found by blast
  then have allowed: "is_service_allowed clear_env clear_comm [clear_exchange] clear_manager =
      Some (Inr (), [clear_exchange], m1)"
    using sample_accessible[of "''FaultMem_Clear''" CLEAR_DIAGNOSTIC_INFORMATION m1]
    by (simp add: is_service_allowed_def clear_env_def vin_link_def clear_service_def lift_result_def)
  let ?payload = "uds_response_from_raw [0x14, 0xFF, 0xFF, 0xFF] 0x0E00 0x1001"
  have payload: "clear_payload clear_env None = Inr ?payload"
    by (simp add: clear_payload_def DTC_GROUP_ALL_def CLEAR_DIAGNOSTIC_INFORMATION_def clear_env_def vin_link_def
        uds_response_from_raw_def)
  have ok: "is_expected [0x14, 0xFF, 0xFF, 0xFF] 0x14 clear_answer"
    by code_simp
  then have "send_with_raw_payload [''ECU'' \<mapsto> demo_params] ''ECU'' ?payload None True True
     [Sent [(5, Got (Inr (Some (UdsResponse clear_answer))))]] sc = Some (Inr (Some clear_answer), sc, 1)" for sc
    by (simp add: send_with_raw_payload_def uds_response_from_raw_def init_send_state_def
        read_step_def demo_params_def is_expected_def finish_send_def)
  then have sent: "send_rawX clear_env ?payload [clear_exchange] m1 = Some (Inr (Some clear_answer), [], m1)"
    by (simp add: send_rawX_def raw_exchange_def clear_env_def vin_link_def clear_exchange_def lift_result_def)
  have "\<exists>r. convert_service_14_response clear_comm (service_payload.payload_data clear_answer) = Inr r"
    by (simp add: convert_service_14_response_def clear_answer_def uds_response_from_raw_def
        try_extract_sid_from_payload_def sid_defs CLEAR_FAULT_MEM_POS_RESPONSE_SID_def Let_def)
  then show ?thesis
    using clear_lookup allowed payload sent
    by (auto simp: delete_dtcs_def bindX_def askX_def liftX_def lift_result_def)
qed

theorem clear_faults_confirmed_witness:
  "\<exists>m1 m' msg n. check_service_access (env_plugin clear_env) clear_service m1 = Inr () \<and>
     raw_exchange (env_link clear_env) (uds_response_from_raw [0x14, 0xFF, 0xFF, 0xFF] 0x0E00 0x1001)
       None True clear_exchange m1 = Some (Inr (Some msg), m', n) \<and>
     first (service_payload.payload_data msg) = Some CLEAR_FAULT_MEM_POS_RESPONSE_SID"
proof -
  obtain r m' where d: "delete_dtcs clear_env None [clear_exchange] clear_manager = Some (Inr r, [], m')"
    using clear_all by blast
  have link: "link_convention (env_link clear_env) = sample_convention"
    "link_tester (env_link clear_env) = 0x0E00" "link_logical (env_link clear_env) = 0x1001"
    by (simp_all add: clear_env_def vin_link_def)
  obtain m1 g msg n where g: "length g = 3" "be_val g = 0xFFFFFF"
    "check_service_access (env_plugin clear_env) clear_service m1 = Inr ()"
    "raw_exchange (env_link clear_env) (uds_response_from_raw (CLEAR_DIAGNOSTIC_INFORMATION # g) 0x0E00 0x1001)
       None True clear_exchange m1 = Some (Inr (Some msg), m', n)"
    "first (service_payload.payload_data msg) = Some CLEAR_FAULT_MEM_POS_RESPONSE_SID"
    using clear_faults_confirmed[OF d] clear_lookup clear_found unfolding link
    by (auto simp: uds_response_from_raw_def)
  have "[0xFF, 0xFF, 0xFF] = be_bytes 3 0xFFFFFF" by (rule be_bytes_unique) simp_all
  moreover have "g = be_bytes 3 0xFFFFFF" using g(1,2) by (intro be_bytes_unique) simp_all
  ultimately show ?thesis using g(3,4,5) by (auto simp: CLEAR_DIAGNOSTIC_INFORMATION_def)
qed

end
