(* ===== verification/Access_Reset.thy ===== *)
theory Access_Reset
  imports Diag_Request
begin

text \<open>
  Changing the session and the security level of an ECU for a limited time
  (\<open>cda-comm-uds/src/session.rs\<close>, \<open>security.rs\<close>): the request that changes them, the tasks that
  reset them later and the reset itself. The state is that of one ECU; a task is the time at which
  its sleep ends. The service of a change is looked up as in \<open>state.rs\<close> and \<open>security.rs\<close> of the
  diagnostic kernel.
\<close>

section \<open>Model\<close>

datatype reset_type = ResetSession | ResetSecurityAccess

record access_state =
  acc_ecu :: ecu_manager
  session_reset_task :: "nat option"
  security_reset_task :: "nat option"

definition reset_task :: "reset_type \<Rightarrow> access_state \<Rightarrow> nat option" where
  "reset_task t st = (case t of
      ResetSession \<Rightarrow> session_reset_task st | ResetSecurityAccess \<Rightarrow> security_reset_task st)"

definition set_reset_task :: "reset_type \<Rightarrow> nat option \<Rightarrow> access_state \<Rightarrow> access_state" where
  "set_reset_task t v st = (case t of
      ResetSession \<Rightarrow> st\<lparr>session_reset_task := v\<rparr>
    | ResetSecurityAccess \<Rightarrow> st\<lparr>security_reset_task := v\<rparr>)"

text \<open>The old task is aborted and replaced; without an expiration nothing happens.\<close>

definition start_reset_task :: "nat \<Rightarrow> nat option \<Rightarrow> reset_type \<Rightarrow> access_state \<Rightarrow> access_state" where
  "start_reset_task now expiration t st = (case expiration of
      None \<Rightarrow> st
    | Some d \<Rightarrow> if d = 0 then st else set_reset_task t (Some (now + d)) (set_reset_task t None st))"

type_synonym 'a access = "exchange list \<Rightarrow> access_state \<Rightarrow> ('a run \<times> exchange list \<times> access_state) option"

text \<open>A change: \<open>now\<close> is the time of the response.\<close>

definition send_change ::
  "'z request_env_scheme \<Rightarrow> comm_request \<Rightarrow> uds_payload_data option \<Rightarrow> bool \<Rightarrow>
   (diag_response \<Rightarrow> access_state \<Rightarrow> access_state) \<Rightarrow> diag_response access" where
  "send_change env dc given map_to_json after xs st =
     map_option (\<lambda>(r, xs', m). (r, xs', case r of
         Inl f \<Rightarrow> st\<lparr>acc_ecu := m\<rparr> | Inr response \<Rightarrow> after response (st\<lparr>acc_ecu := m\<rparr>)))
       (sendX env dc given map_to_json xs (acc_ecu st))"

definition set_ecu_session ::
  "'z request_env_scheme \<Rightarrow> nat \<Rightarrow> string \<Rightarrow> nat option \<Rightarrow> diag_response access" where
  "set_ecu_session env now target expiration xs st =
     (case bindE (lookup_session_change target (acc_ecu st)) service_to_comm of
        Inl e \<Rightarrow> Some (err e, xs, st)
      | Inr dc \<Rightarrow> send_change env dc None True (\<lambda>response st'.
          if response_kind response = PositiveResponse
          then start_reset_task now expiration ResetSession st' else st') xs st)"

definition set_ecu_security_access ::
  "'z request_env_scheme \<Rightarrow> nat \<Rightarrow> string \<Rightarrow> uds_payload_data option \<Rightarrow> nat option \<Rightarrow> diag_response access" where
  "set_ecu_security_access env now level authentication_data expiration xs st =
     (case lookup_security_access_change level (authentication_data \<noteq> None) (acc_ecu st) of
        Inl e \<Rightarrow> Some (err e, xs, st)
      | Inr (RequestSeed s) \<Rightarrow> (case service_to_comm s of
            Inl e \<Rightarrow> Some (err e, xs, st)
          | Inr dc \<Rightarrow> send_change env dc None False (\<lambda>response st'. st') xs st)
      | Inr (SendKey s) \<Rightarrow> (case service_to_comm s of
            Inl e \<Rightarrow> Some (err e, xs, st)
          | Inr dc \<Rightarrow> send_change env dc authentication_data True (\<lambda>response st'.
              if response_kind response = PositiveResponse
              then start_reset_task now expiration ResetSecurityAccess st' else st') xs st))"

definition confirmed_reset :: "string \<Rightarrow> diag_response access \<Rightarrow> unit access" where
  "confirmed_reset msg change xs st =
     map_option (\<lambda>(r, xs', st'). (bindE r (\<lambda>response.
         if response_kind response = PositiveResponse then Inr ()
         else err (UnexpectedResponse (Some msg))), xs', st')) (change xs st)"

definition reset_ecu_session :: "'z request_env_scheme \<Rightarrow> nat \<Rightarrow> unit access" where
  "reset_ecu_session env now xs st =
     (let st1 = set_reset_task ResetSession None st; m = acc_ecu st1 in
      case bindE (default_state m (session_semantic m)) (\<lambda>d. bindE (session m) (\<lambda>c. Inr (d, c))) of
        Inl e \<Rightarrow> Some (err e, xs, st1)
      | Inr (d, c) \<Rightarrow>
          if c = d then Some (Inr (), xs, st1)
          else confirmed_reset ''Session reset negative response'' (set_ecu_session env now d None) xs st1)"

definition reset_ecu_security_access :: "'z request_env_scheme \<Rightarrow> nat \<Rightarrow> unit access" where
  "reset_ecu_security_access env now xs st =
     (let st1 = set_reset_task ResetSecurityAccess None st; m = acc_ecu st1 in
      case bindE (default_state m (security_semantic m)) (\<lambda>d. bindE (security_access m) (\<lambda>c. Inr (d, c))) of
        Inl e \<Rightarrow> Some (err e, xs, st1)
      | Inr (d, c) \<Rightarrow>
          if c = d then Some (Inr (), xs, st1)
          else confirmed_reset ''Security access reset negative response''
            (set_ecu_security_access env now d None None) xs st1)"

text \<open>The body of a task after its sleep, with the void plugin.\<close>

definition run_reset_task :: "request_env \<Rightarrow> nat \<Rightarrow> reset_type \<Rightarrow> unit access" where
  "run_reset_task env now t xs st =
     (let st1 = set_reset_task t None st; void = env\<lparr>env_plugin := None\<rparr> in
      case t of
        ResetSession \<Rightarrow> reset_ecu_session void now xs st1
      | ResetSecurityAccess \<Rightarrow> reset_ecu_security_access void now xs st1)"

definition get_send_key_param_name :: "'z request_env_scheme \<Rightarrow> string \<Rightarrow> ecu_manager \<Rightarrow> string run \<times> ecu_manager" where
  "get_send_key_param_name env level m =
     (case lookup_security_access_change level True m of
        Inl e \<Rightarrow> (err e, m)
      | Inr (RequestSeed s) \<Rightarrow> (Inl Panics, m)
      | Inr (SendKey s) \<Rightarrow> (case service_to_comm s of
            Inl e \<Rightarrow> (err e, m)
          | Inr dc \<Rightarrow> (case lookup_diag_service (link_convention (env_link env)) dc None None m of
                (Inl f, m') \<Rightarrow> (Inl f, m')
              | (Inr mapped_service, m') \<Rightarrow>
                  (bindE (lift_result (ok_or (request_of (link_messages (env_link env) mapped_service))
                     (RequestNotSupported ''Service is not supported''))) (\<lambda>params.
                   lift_result (ok_or (find_map (\<lambda>p.
                       if p_semantic p = Some (semantic_data (nc_semantics (link_convention (env_link env))))
                       then p_short_name p else None) (flatten_refs params))
                     (InvalidDatabase ''No parameter found for sending key''))), m'))))"

section \<open>Reset tasks\<close>

lemma reset_task_simps [simp]:
  "reset_task t (set_reset_task u v st) = (if t = u then v else reset_task t st)"
  "acc_ecu (set_reset_task u v st) = acc_ecu st"
  "reset_task t (st\<lparr>acc_ecu := m\<rparr>) = reset_task t st"
  by (cases t; cases u; simp add: reset_task_def set_reset_task_def)+

lemma start_reset_task_task:
  "reset_task t (start_reset_task now expiration u st) =
     (if t = u then (case expiration of Some (Suc d) \<Rightarrow> Some (now + Suc d) | _ \<Rightarrow> reset_task t st)
      else reset_task t st)"
  by (auto simp: start_reset_task_def split: option.splits nat.splits)

lemma send_change_task:
  assumes "send_change env dc given json after xs st = Some (r, xs', st')"
    and "\<And>response m. reset_task t (after response (st\<lparr>acc_ecu := m\<rparr>)) = reset_task t st"
  shows "reset_task t st' = reset_task t st"
  using assms by (cases r) (auto simp: send_change_def)

text \<open>Without an expiration, a change leaves the task of an earlier change running.\<close>

lemma change_without_expiration_keeps_task:
  "set_ecu_session env now target None xs st = Some (r, xs', st') \<Longrightarrow> reset_task t st' = reset_task t st"
  "set_ecu_security_access env now level key None xs st = Some (r, xs', st') \<Longrightarrow> reset_task t st' = reset_task t st"
  by (auto simp: set_ecu_session_def set_ecu_security_access_def start_reset_task_task
      split: sum.splits security_access_service.splits elim!: send_change_task)

text \<open>
  A reset leaves no reset task behind. However the reset of a session or of a security level
  ends, with success, a refusal or any error, and whether a client or an expired task started it,
  no task for it remains, and the task of the other kind is as it was: a reset never repeats itself.
\<close>

theorem reset_leaves_no_task:
  "(reset_ecu_session env now xs st = Some (r, xs', st') \<longrightarrow>
      reset_task ResetSession st' = None \<and> reset_task ResetSecurityAccess st' = reset_task ResetSecurityAccess st) \<and>
   (reset_ecu_security_access env now xs st = Some (r, xs', st') \<longrightarrow>
      reset_task ResetSecurityAccess st' = None \<and> reset_task ResetSession st' = reset_task ResetSession st) \<and>
   (run_reset_task env now t xs st = Some (r, xs', st') \<longrightarrow> reset_task t st' = None)"
proof -
  have ses: "reset_task u st' = reset_task u (set_reset_task ResetSession None st)"
    if "reset_ecu_session env now xs st = Some (r, xs', st')" for env u st
    using that
    by (auto simp: reset_ecu_session_def confirmed_reset_def Let_def split: sum.splits prod.splits if_splits
        dest!: change_without_expiration_keeps_task(1)[where t = u])
  have sec: "reset_task u st' = reset_task u (set_reset_task ResetSecurityAccess None st)"
    if "reset_ecu_security_access env now xs st = Some (r, xs', st')" for env u st
    using that
    by (auto simp: reset_ecu_security_access_def confirmed_reset_def Let_def
        split: sum.splits prod.splits if_splits dest!: change_without_expiration_keeps_task(2)[where t = u])
  have "reset_task t st' = None" if "run_reset_task env now t xs st = Some (r, xs', st')"
    using that ses[of "env\<lparr>env_plugin := None\<rparr>" "set_reset_task t None st" t]
      sec[of "env\<lparr>env_plugin := None\<rparr>" "set_reset_task t None st" t]
    by (cases t) (auto simp: run_reset_task_def Let_def)
  then show ?thesis using ses[of env st] sec[of env st] by auto
qed

text \<open>A positively answered change with an expiration has the one task that ends with it.\<close>

lemma change_with_expiration_schedules:
  assumes "set_ecu_session env now target (Some d) xs st = Some (Inr response, xs', st')"
    and "response_kind response = PositiveResponse" "0 < d"
  shows "reset_task ResetSession st' = Some (now + d) \<and>
    reset_task ResetSecurityAccess st' = reset_task ResetSecurityAccess st"
proof -
  obtain dc m where "sendX env dc None True xs (acc_ecu st) = Some (Inr response, xs', m)"
    "st' = start_reset_task now (Some d) ResetSession (st\<lparr>acc_ecu := m\<rparr>)"
    using assms(1,2) by (auto simp: set_ecu_session_def send_change_def split: sum.splits)
  then show ?thesis using assms(3) by (cases d) (auto simp: start_reset_task_task)
qed

section \<open>Where the code does less\<close>

text \<open>
  A session that is set without an expiration, after one with an expiration, is still reset when
  the first one expires.
\<close>

lemma unlimited_session_still_reset:
  assumes "set_ecu_session env now target (Some d) xs st = Some (Inr response, xs1, st1)"
    and "response_kind response = PositiveResponse" "0 < d"
    and "set_ecu_session env later target' None xs1 st1 = Some (r, xs2, st2)"
  shows "reset_task ResetSession st2 = Some (now + d)"
  using change_with_expiration_schedules[OF assms(1-3)]
    change_without_expiration_keeps_task(1)[OF assms(4), of ResetSession] by simp

text \<open>The \<open>unreachable!\<close> of \<open>get_send_key_param_name\<close> is not reached.\<close>

lemma key_lookup_sends_key: "lookup_security_access_change level True m \<noteq> Inr (RequestSeed s)"
  by (auto simp: lookup_security_access_change_def result_simps)

text \<open>
  The reset of a security level passes no key. What it sends is a request for a seed, whose
  positive answer it reports as a successful reset.
\<close>

lemma security_reset_requests_seed:
  assumes "reset_ecu_security_access env now xs st = Some (Inr (), xs', st')"
    and "security_access (acc_ecu st) = Inr c"
    and "default_state (acc_ecu st) (security_semantic (acc_ecu st)) = Inr d" "c \<noteq> d"
  shows "\<exists>s dc response m. is_request_seed d s \<and> service_to_comm s = Inr dc \<and>
    sendX env dc None False xs (acc_ecu st) = Some (Inr response, xs', m) \<and>
    response_kind response = PositiveResponse \<and> acc_ecu st' = m"
proof -
  obtain response where change: "set_ecu_security_access env now d None None xs
      (set_reset_task ResetSecurityAccess None st) = Some (Inr response, xs', st')"
    and pos: "response_kind response = PositiveResponse"
    using assms by (auto simp: reset_ecu_security_access_def confirmed_reset_def Let_def result_simps
        split: if_splits)
  obtain services s dc where "find (is_request_seed d) services = Some s" "service_to_comm s = Inr dc"
    "send_change env dc None False (\<lambda>response st'. st') xs (set_reset_task ResetSecurityAccess None st) =
      Some (Inr response, xs', st')"
    using change assms(2)
    by (auto simp: set_ecu_security_access_def lookup_security_access_change_def result_simps split: sum.splits)
  then show ?thesis using pos by (auto simp: send_change_def find_Some_iff split: sum.splits)
qed

section \<open>Samples\<close>

definition sample_env :: request_env where
  "sample_env = \<lparr>env_link = vin_link, env_detect = id, env_plugin = None\<rparr>"

definition timed_access :: access_state where
  "timed_access = \<lparr>acc_ecu = access_manager, session_reset_task = Some 5, security_reset_task = Some 9\<rparr>"

lemma reset_in_default_session:
  "reset_ecu_session sample_env 5 [] timed_access = Some (Inr (), [], timed_access\<lparr>session_reset_task := None\<rparr>)"
proof -
  have "session_semantic access_manager = ''SESSION''" by (simp add: access_manager_def demo_defs)
  moreover have "default_state access_manager ''SESSION'' = Inr ''Default''"
    by (simp add: default_state_def lookup_state_chart_def access_layers session_chart_def)
  moreover have "session access_manager = Inr ''Default''"
    by (simp add: session_def state_or_def access_manager_states(1))
  ultimately show ?thesis
    by (simp add: reset_ecu_session_def timed_access_def set_reset_task_def)
qed

theorem reset_leaves_no_task_witness:
  "reset_task ResetSession (timed_access\<lparr>session_reset_task := None\<rparr>) = None \<and>
   reset_task ResetSecurityAccess (timed_access\<lparr>session_reset_task := None\<rparr>) = Some 9"
  using reset_leaves_no_task[of sample_env 5 "[]" timed_access "Inr ()" "[]" "timed_access\<lparr>session_reset_task := None\<rparr>"]
    reset_in_default_session
  by (simp add: reset_task_def timed_access_def)

end
