(* ===== verification/Functional_Group.thy ===== *)
theory Functional_Group
  imports Access_Reset Tester_Present
begin

text \<open>
  Requests to a functional group (\<open>cda-comm-uds/src/functional_group.rs\<close>): the ECUs of the group
  are sorted by gateway, one functional request is sent per gateway, and the answers are converted
  with the description of the group, which is an ECU of its own. A \<open>HashMap\<close> is the list of its
  entries; the gateway of the transport is an argument.
\<close>

section \<open>Sorting the ECUs by gateway\<close>

record functional_ecu =
  fu_info :: ecu_info
  fu_status :: ecu_state
  fu_timeout :: nat

record per_gateway_info =
  pg_params_of :: string
  pg_timeout :: nat
  pg_source :: "16 word"
  pg_functional :: "16 word"
  pg_ecus :: "(16 word \<times> string) list"

record gateways =
  ecus_by_gateway :: "(16 word \<times> per_gateway_info) list"
  ecu_infos_by_gateway :: "(16 word \<times> (16 word \<times> string) list) list"
  early_results :: "(string \<times> diag_response run) list"

definition gateway_info :: "string \<Rightarrow> functional_ecu \<Rightarrow> per_gateway_info" where
  "gateway_info name e = \<lparr>pg_params_of = name, pg_timeout = fu_timeout e,
     pg_source = tester_address (fu_info e), pg_functional = logical_functional_address (fu_info e),
     pg_ecus = [(logical_address (fu_info e), name)]\<rparr>"

definition sort_ecu :: "(string \<rightharpoonup> functional_ecu) \<Rightarrow> string \<Rightarrow> gateways \<Rightarrow> gateways" where
  "sort_ecu ecus name gs = (case ecus name of
      None \<Rightarrow> gs
    | Some e \<Rightarrow>
        if \<not> is_physical_ecu (fu_info e) \<or> \<not> is_online_and_detected (fu_status e) then gs
        else
          (let gateway_addr = logical_gateway_address (fu_info e);
               logical_addr = logical_address (fu_info e)
           in if gateway_addr = logical_addr then
                gs\<lparr>ecus_by_gateway := hm_insert gateway_addr (gateway_info name e) (ecus_by_gateway gs),
                   early_results := (if map_of (ecus_by_gateway gs) gateway_addr = None then early_results gs
                     else hm_insert name (err (ResourceError ''Another ECU with the same logical address is online''))
                       (early_results gs))\<rparr>
              else
                gs\<lparr>ecu_infos_by_gateway := hm_insert gateway_addr (hm_insert logical_addr name
                  (unwrap_or (map_of (ecu_infos_by_gateway gs) gateway_addr) [])) (ecu_infos_by_gateway gs)\<rparr>))"

definition attach_ecus ::
  "16 word \<times> (16 word \<times> string) list \<Rightarrow> (16 word \<times> per_gateway_info) list \<Rightarrow> (16 word \<times> per_gateway_info) list" where
  "attach_ecus entry gws = (case entry of (gateway_addr, ecu_info_list) \<Rightarrow>
     (case map_of gws gateway_addr of
        None \<Rightarrow> gws
      | Some info \<Rightarrow> hm_insert gateway_addr (info\<lparr>pg_ecus := hm_extend (pg_ecus info) ecu_info_list\<rparr>) gws))"

definition sorted_ecus :: "(string \<rightharpoonup> functional_ecu) \<Rightarrow> string list \<Rightarrow> gateways" where
  "sorted_ecus ecus ecu_list = fold (sort_ecu ecus) ecu_list
     \<lparr>ecus_by_gateway = [], ecu_infos_by_gateway = [], early_results = []\<rparr>"

definition group_gateways :: "gateways \<Rightarrow> (16 word \<times> per_gateway_info) list" where
  "group_gateways gs = fold attach_ecus (ecu_infos_by_gateway gs) (ecus_by_gateway gs)"

section \<open>Sending\<close>

text \<open>\<open>send_functional\<close> of the gateway: the ECU whose parameters are used, message, ECUs, time-out.\<close>

type_synonym functional_gateway =
  "string \<Rightarrow> service_payload \<Rightarrow> (16 word \<times> string) list \<Rightarrow> nat \<Rightarrow> bool \<Rightarrow>
   (string \<times> service_payload diag_result) list diag_result"

definition convert_group ::
  "ecu_link \<Rightarrow> comm_request \<Rightarrow> bool \<Rightarrow> string \<Rightarrow> byte list \<Rightarrow> ecu_manager \<Rightarrow> diag_response run \<times> ecu_manager" where
  "convert_group l service map_to_json fg bs m =
     convert_from_uds (link_depth l) (link_externs l) (link_messages l) (link_convention l) service bs
       map_to_json (Some fg) m"

fun convert_results ::
  "ecu_link \<Rightarrow> comm_request \<Rightarrow> bool \<Rightarrow> string \<Rightarrow> (string \<times> service_payload diag_result) list \<Rightarrow>
   (string \<times> diag_response run) list \<Rightarrow> ecu_manager \<Rightarrow> (string \<times> diag_response run) list \<times> ecu_manager" where
  "convert_results l service map_to_json fg [] result_map m = (result_map, m)"
| "convert_results l service map_to_json fg ((name, Inr msg) # rs) result_map m =
     (case convert_group l service map_to_json fg (service_payload.payload_data msg) m of
        (r, m') \<Rightarrow> convert_results l service map_to_json fg rs (hm_insert name r result_map) m')"
| "convert_results l service map_to_json fg ((name, Inl e) # rs) result_map m =
     convert_results l service map_to_json fg rs (hm_insert name (err e) result_map) m"

definition send_functional_to_gateway ::
  "functional_gateway \<Rightarrow> ecu_link \<Rightarrow> per_gateway_info \<Rightarrow> comm_request \<Rightarrow> service_payload \<Rightarrow> bool \<Rightarrow> string \<Rightarrow>
   ecu_manager \<Rightarrow> (string \<times> diag_response run) list \<times> ecu_manager" where
  "send_functional_to_gateway gw l info service payload map_to_json fg m =
     (case gw (pg_params_of info) payload (pg_ecus info) (pg_timeout info)
             (\<not> is_suppress_positive_response payload) of
        Inr uds_responses \<Rightarrow> convert_results l service map_to_json fg uds_responses [] m
      | Inl e \<Rightarrow> (fold (\<lambda>(_, name). hm_insert name (err e)) (pg_ecus info) [], m))"

text \<open>The futures of the gateways end in any order, here in that of the list.\<close>

fun run_gateways ::
  "functional_gateway \<Rightarrow> ecu_link \<Rightarrow> comm_request \<Rightarrow> service_payload \<Rightarrow> bool \<Rightarrow> string \<Rightarrow>
   per_gateway_info list \<Rightarrow> (string \<times> diag_response run) list \<Rightarrow> ecu_manager \<Rightarrow>
   (string \<times> diag_response run) list \<times> ecu_manager" where
  "run_gateways gw l service payload map_to_json fg [] result_map m = (result_map, m)"
| "run_gateways gw l service payload map_to_json fg (info # infos) result_map m =
     (case send_functional_to_gateway gw l info service
         (payload\<lparr>source_address := pg_source info, target_address := pg_functional info\<rparr>) map_to_json fg m of
        (gateway_results, m') \<Rightarrow>
          run_gateways gw l service payload map_to_json fg infos (hm_extend result_map gateway_results) m')"

text \<open>
  The second argument is the description of the group, if it is loaded; \<open>order\<close> is the order in
  which the gateways end.
\<close>

definition send_functional_group ::
  "functional_gateway \<Rightarrow> ecu_link \<Rightarrow> (per_gateway_info list \<Rightarrow> per_gateway_info list) \<Rightarrow>
   (string \<times> functional_ecu) list \<Rightarrow> string \<Rightarrow> comm_request \<Rightarrow> security_plugin \<Rightarrow> uds_payload_data option \<Rightarrow>
   bool \<Rightarrow> ecu_manager option \<Rightarrow> (string \<times> diag_response run) list \<times> ecu_manager option" where
  "send_functional_group gw l order ecus fg service plugin given map_to_json globals =
     (let ecu_list = ecus_for_functional_group (map (\<lambda>(n, e). (n, fu_info e)) ecus) fg False in
      if ecu_list = [] then ([], globals)
      else case globals of
        None \<Rightarrow> ([], None)
      | Some m0 \<Rightarrow>
          (case create_uds_payload (link_depth l) (link_externs l) (link_strict l) (link_messages l)
               (link_convention l) (link_tester l) (link_logical l) service plugin given (Some fg) m0 of
             (Inl f, m) \<Rightarrow> (fold (\<lambda>name. hm_insert name (Inl f)) ecu_list [], Some m)
           | (Inr payload, m) \<Rightarrow>
               let gs = sorted_ecus (map_of ecus) ecu_list in
               apsnd Some (run_gateways gw l service payload map_to_json fg
                 (order (map snd (group_gateways gs))) (early_results gs) m)))"

section \<open>States of a mode\<close>

definition set_ecu_state ::
  "'z request_env_scheme \<Rightarrow> byte \<Rightarrow> string \<Rightarrow> json_map option \<Rightarrow> bool \<Rightarrow> diag_response requests" where
  "set_ecu_state env sid service_name params map_to_json =
     bindX (askX (\<lambda>m. lift_result (lookup_service_by_sid_and_name (link_convention (env_link env)) sid service_name None m)))
     (\<lambda>service. bindX (sendX env service (map_option ParameterMap params) map_to_json) (\<lambda>response xs m.
        Some (Inr response, xs,
          if response_kind response = PositiveResponse then set_service_state sid service_name m else m)))"

definition apply_functional_state ::
  "nat \<Rightarrow> byte \<Rightarrow> string \<Rightarrow> nat option \<Rightarrow> (string \<times> diag_response run) list \<Rightarrow>
   (string \<rightharpoonup> access_state) \<Rightarrow> (string \<rightharpoonup> access_state)" where
  "apply_functional_state now sid service_name mode_expiration results states =
     fold (\<lambda>(ecu, r) ss. case r of
         Inl f \<Rightarrow> ss
       | Inr response \<Rightarrow>
           if response_kind response \<noteq> PositiveResponse then ss
           else (case ss ecu of
               None \<Rightarrow> ss
             | Some st \<Rightarrow>
                 let st1 = st\<lparr>acc_ecu := set_service_state sid service_name (acc_ecu st)\<rparr> in
                 ss(ecu \<mapsto> (case mode_expiration of
                     None \<Rightarrow> st1
                   | Some d \<Rightarrow> start_reset_task now (Some d) ResetSession st1)))) results states"

definition set_functional_state ::
  "functional_gateway \<Rightarrow> ecu_link \<Rightarrow> (per_gateway_info list \<Rightarrow> per_gateway_info list) \<Rightarrow>
   (string \<times> functional_ecu) list \<Rightarrow> string \<Rightarrow> security_plugin \<Rightarrow> nat \<Rightarrow> byte \<Rightarrow> string \<Rightarrow> json_map option \<Rightarrow>
   nat option \<Rightarrow> bool \<Rightarrow> ecu_manager option \<Rightarrow> (string \<rightharpoonup> access_state) \<Rightarrow>
   (string \<times> diag_response run) list diag_result \<times> ecu_manager option \<times> (string \<rightharpoonup> access_state)" where
  "set_functional_state gw l order ecus group_name plugin now sid service_name params mode_expiration
       map_to_json globals states =
     (case bindE (ok_or globals (NotFound ''ECU not found''))
         (lookup_service_by_sid_and_name (link_convention l) sid service_name (Some group_name)) of
        Inl e \<Rightarrow> (Inl e, globals, states)
      | Inr service \<Rightarrow>
          (case send_functional_group gw l order ecus group_name service plugin
               (map_option ParameterMap params) map_to_json globals of
             (results, globals') \<Rightarrow> (Inr results, globals',
               apply_functional_state now sid service_name mode_expiration results states)))"

section \<open>Every ECU behind its gateway\<close>

text \<open>The ECUs that take part, and what they are addressed by.\<close>

definition takes_part :: "(string \<rightharpoonup> functional_ecu) \<Rightarrow> string \<Rightarrow> 16 word \<Rightarrow> 16 word \<Rightarrow> bool" where
  "takes_part ecus name gateway_addr logical_addr \<longleftrightarrow> (\<exists>e. ecus name = Some e \<and>
     is_physical_ecu (fu_info e) \<and> is_online_and_detected (fu_status e) \<and>
     logical_gateway_address (fu_info e) = gateway_addr \<and> logical_address (fu_info e) = logical_addr)"

definition addresses_unique :: "(string \<rightharpoonup> functional_ecu) \<Rightarrow> string list \<Rightarrow> bool" where
  "addresses_unique ecus names \<longleftrightarrow> (\<forall>n \<in> set names. \<forall>n' \<in> set names. \<forall>g a.
     takes_part ecus n g a \<longrightarrow> takes_part ecus n' g a \<longrightarrow> n = n')"

lemma takes_part_addresses: "takes_part ecus n g a \<Longrightarrow> takes_part ecus n g' a' \<Longrightarrow> g' = g \<and> a' = a"
  by (auto simp: takes_part_def)

text \<open>
  Of several participating ECUs with the same two addresses, the last one of the group answers for
  them. A gateway ECU that comes after another one at the same address is a rival of it.
\<close>

definition responsible :: "(string \<rightharpoonup> functional_ecu) \<Rightarrow> string list \<Rightarrow> 16 word \<Rightarrow> 16 word \<Rightarrow> string option" where
  "responsible ecus names g a = find (\<lambda>n. takes_part ecus n g a) (rev names)"

definition rival :: "(string \<rightharpoonup> functional_ecu) \<Rightarrow> string list \<Rightarrow> string \<Rightarrow> bool" where
  "rival ecus names n \<longleftrightarrow> (\<exists>g before after. names = before @ n # after \<and> takes_part ecus n g g \<and>
     (\<exists>n' \<in> set before. takes_part ecus n' g g))"

abbreviation same_address_error :: "diag_response run" where
  "same_address_error \<equiv> err (ResourceError ''Another ECU with the same logical address is online'')"

lemma responsible_Nil [simp]: "responsible ecus [] g a = None"
  by (simp add: responsible_def)

lemma responsible_snoc [simp]:
  "responsible ecus (names @ [n]) g a = (if takes_part ecus n g a then Some n else responsible ecus names g a)"
  by (simp add: responsible_def)

lemma responsible_SomeD: "responsible ecus names g a = Some n \<Longrightarrow> n \<in> set names \<and> takes_part ecus n g a"
  by (metis responsible_def find_Some_iff nth_mem set_rev)

lemma responsible_None: "responsible ecus names g a = None \<longleftrightarrow> (\<forall>n \<in> set names. \<not> takes_part ecus n g a)"
  by (auto simp: responsible_def find_None_iff)

lemma responsible_unique:
  assumes "addresses_unique ecus names"
  shows "responsible ecus names g a = Some n \<longleftrightarrow> n \<in> set names \<and> takes_part ecus n g a"
proof
  assume n: "n \<in> set names \<and> takes_part ecus n g a"
  then obtain n' where n': "responsible ecus names g a = Some n'" using responsible_None by fastforce
  then show "responsible ecus names g a = Some n"
    using responsible_SomeD[OF n'] n assms unfolding addresses_unique_def by blast
qed (rule responsible_SomeD)

lemma rival_snoc:
  "rival ecus (names @ [k]) n \<longleftrightarrow>
     rival ecus names n \<or> n = k \<and> (\<exists>g. takes_part ecus k g g \<and> responsible ecus names g g \<noteq> None)"
proof -
  have split: "names @ [k] = before @ n # after \<longleftrightarrow>
      (\<exists>rest. after = rest @ [k] \<and> names = before @ n # rest) \<or> after = [] \<and> names = before \<and> n = k"
    for before after by (cases after rule: rev_cases) auto
  show ?thesis unfolding rival_def split responsible_None by blast
qed

definition sorted_inv :: "(string \<rightharpoonup> functional_ecu) \<Rightarrow> string list \<Rightarrow> gateways \<Rightarrow> bool" where
  "sorted_inv ecus names gs \<longleftrightarrow>
     (\<forall>g. map_of (ecus_by_gateway gs) g =
        map_option (\<lambda>n. gateway_info n (the (ecus n))) (responsible ecus names g g)) \<and>
     (\<forall>g a. map_of (unwrap_or (map_of (ecu_infos_by_gateway gs) g) []) a =
        (if a = g then None else responsible ecus names g a)) \<and>
     (\<forall>n. map_of (early_results gs) n = (if rival ecus names n then Some same_address_error else None)) \<and>
     distinct (map fst (ecu_infos_by_gateway gs)) \<and> distinct (map fst (ecus_by_gateway gs)) \<and>
     (\<forall>g. distinct (map fst (unwrap_or (map_of (ecu_infos_by_gateway gs) g) [])))"

lemma set_hm_insert_keys: "set (map fst (hm_insert k v m)) = insert k (set (map fst m))"
  by (induction k v m rule: hm_insert.induct) auto

lemma distinct_hm_insert: "distinct (map fst m) \<Longrightarrow> distinct (map fst (hm_insert k v m))"
proof (induction k v m rule: hm_insert.induct)
  case (2 k v k' v' m)
  then show ?case using set_hm_insert_keys[of k v m] by auto
qed simp

lemma unwrap_or_Some: "unwrap_or (Some v) d = v"
  by (simp add: unwrap_or_def)

lemma sort_ecu_inv:
  assumes inv: "sorted_inv ecus names gs"
  shows "sorted_inv ecus (names @ [n]) (sort_ecu ecus n gs)"
proof (cases "\<exists>g a. takes_part ecus n g a")
  case False
  then have "sort_ecu ecus n gs = gs" by (auto simp: sort_ecu_def takes_part_def split: option.splits)
  then show ?thesis using inv False by (auto simp: sorted_inv_def rival_snoc)
next
  case True
  then obtain g a where part: "takes_part ecus n g a" by blast
  then obtain e where e: "ecus n = Some e" "is_physical_ecu (fu_info e)" "is_online_and_detected (fu_status e)"
    "logical_gateway_address (fu_info e) = g" "logical_address (fu_info e) = a"
    by (auto simp: takes_part_def)
  have own: "takes_part ecus n g' a' \<longleftrightarrow> g' = g \<and> a' = a" for g' a'
    using part takes_part_addresses by blast
  show ?thesis
  proof (cases "g = a")
    case True
    then have "sort_ecu ecus n gs = gs\<lparr>ecus_by_gateway := hm_insert g (gateway_info n e) (ecus_by_gateway gs),
        early_results := (if responsible ecus names g g = None then early_results gs
          else hm_insert n same_address_error (early_results gs))\<rparr>"
      using e inv by (simp add: sort_ecu_def sorted_inv_def)
    then show ?thesis
      using inv own True e(1) unfolding sorted_inv_def
      by (auto simp: distinct_hm_insert rival_snoc)
  next
    case False
    then have "sort_ecu ecus n gs = gs\<lparr>ecu_infos_by_gateway := hm_insert g (hm_insert a n
        (unwrap_or (map_of (ecu_infos_by_gateway gs) g) [])) (ecu_infos_by_gateway gs)\<rparr>"
      using e by (simp add: sort_ecu_def Let_def)
    then show ?thesis
      using inv own False unfolding sorted_inv_def
      by (auto simp: distinct_hm_insert unwrap_or_Some rival_snoc)
  qed
qed

lemma sorted_ecus_inv: "sorted_inv ecus names (sorted_ecus ecus names)"
proof (induction names rule: rev_induct)
  case Nil
  show ?case by (simp add: sorted_inv_def sorted_ecus_def unwrap_or_def rival_def)
next
  case (snoc n names)
  then show ?case using sort_ecu_inv[OF snoc.IH] by (simp add: sorted_ecus_def)
qed

lemma map_of_hm_extend: "distinct (map fst t) \<Longrightarrow> map_of (hm_extend m t) = map_of m ++ map_of t"
proof (induction t arbitrary: m)
  case (Cons kv t)
  obtain k v where kv: "kv = (k, v)" by (rule prod.exhaust)
  have "map_of (hm_extend m (kv # t)) = (map_of m)(k \<mapsto> v) ++ map_of t"
    using Cons by (simp add: kv hm_extend_def[of m] hm_extend_def[of "hm_insert k v m", symmetric])
  moreover have "map_of t k = None" using Cons.prems by (simp add: kv map_of_eq_None_iff)
  ultimately show ?case by (auto simp: kv fun_eq_iff map_add_def split: option.splits)
qed (simp add: hm_extend_def)

lemma hm_extend_distinct: "distinct (map fst m) \<Longrightarrow> distinct (map fst (hm_extend m items))"
  by (induction items arbitrary: m) (simp_all add: hm_extend_def distinct_hm_insert case_prod_beta)

definition with_ecus :: "(16 word \<times> string) list option \<Rightarrow> per_gateway_info \<Rightarrow> per_gateway_info" where
  "with_ecus t info = (case t of None \<Rightarrow> info | Some t \<Rightarrow> info\<lparr>pg_ecus := hm_extend (pg_ecus info) t\<rparr>)"

lemma attach_all:
  "distinct (map fst infos) \<Longrightarrow>
   map_of (fold attach_ecus infos gws) g = map_option (with_ecus (map_of infos g)) (map_of gws g)"
proof (induction infos arbitrary: gws)
  case Nil
  show ?case by (cases "map_of gws g") (simp_all add: with_ecus_def)
next
  case (Cons kv infos)
  obtain k t where kv: "kv = (k, t)" by (rule prod.exhaust)
  have none: "map_of infos k = None" using Cons.prems by (simp add: kv map_of_eq_None_iff)
  have "map_of (attach_ecus kv gws) g =
      (if g = k then map_option (with_ecus (Some t)) (map_of gws k) else map_of gws g)"
    by (auto simp: attach_ecus_def kv with_ecus_def split: option.splits)
  then show ?case
    using Cons none by (cases "map_of gws k") (auto simp: kv with_ecus_def option.map_ident)
qed

lemma distinct_attach_all: "distinct (map fst gws) \<Longrightarrow> distinct (map fst (fold attach_ecus infos gws))"
proof (induction infos arbitrary: gws)
  case (Cons kv infos)
  have "distinct (map fst (attach_ecus kv gws))"
    using Cons.prems by (auto simp: attach_ecus_def distinct_hm_insert split: prod.splits option.splits)
  then show ?case using Cons.IH by simp
qed simp

lemma gateways_early: "map_of (early_results (sorted_ecus ecus names)) n =
    (if rival ecus names n then Some same_address_error else None)"
  and gateways_distinct: "distinct (map fst (group_gateways (sorted_ecus ecus names)))"
  using sorted_ecus_inv[of ecus names] unfolding sorted_inv_def group_gateways_def
  by (simp_all add: distinct_attach_all)

lemma gateways_responsible:
  shows "responsible ecus names g g = None \<Longrightarrow> map_of (group_gateways (sorted_ecus ecus names)) g = None"
    and "responsible ecus names g g = Some n \<Longrightarrow>
      \<exists>ps. map_of ps = responsible ecus names g \<and> distinct (map fst ps) \<and>
        map_of (group_gateways (sorted_ecus ecus names)) g = Some ((gateway_info n (the (ecus n)))\<lparr>pg_ecus := ps\<rparr>)"
proof -
  let ?gs = "sorted_ecus ecus names"
  let ?infos = "ecu_infos_by_gateway ?gs"
  note inv = sorted_ecus_inv[of ecus names, unfolded sorted_inv_def]
  have gw: "map_of (group_gateways ?gs) g = map_option (with_ecus (map_of ?infos g))
      (map_option (\<lambda>n. gateway_info n (the (ecus n))) (responsible ecus names g g))"
    unfolding group_gateways_def using inv by (subst attach_all) simp_all
  then show "map_of (group_gateways ?gs) g = None" if "responsible ecus names g g = None" using that by simp
  assume n: "responsible ecus names g g = Some n"
  let ?info = "gateway_info n (the (ecus n))"
  have own: "pg_ecus ?info = [(g, n)]"
    using responsible_SomeD[OF n] by (auto simp: gateway_info_def takes_part_def)
  have inner: "map_of (unwrap_or (map_of ?infos g) []) a = (if a = g then None else responsible ecus names g a)" for a
    using inv by blast
  have infos_distinct: "distinct (map fst (unwrap_or (map_of ?infos g) []))" using inv by blast
  let ?ps = "pg_ecus (with_ecus (map_of ?infos g) ?info)"
  have "map_of ?ps = [g \<mapsto> n] ++ map_of (unwrap_or (map_of ?infos g) [])"
  proof (cases "map_of ?infos g")
    case None
    then show ?thesis using own by (simp add: with_ecus_def unwrap_or_def)
  next
    case (Some t)
    then have "distinct (map fst t)" using infos_distinct by (simp add: unwrap_or_Some)
    then show ?thesis using own Some by (simp add: with_ecus_def unwrap_or_def map_of_hm_extend)
  qed
  then have "map_of ?ps = responsible ecus names g"
    using n by (auto simp: fun_eq_iff map_add_def inner split: option.splits)
  moreover have "with_ecus (map_of ?infos g) ?info = ?info\<lparr>pg_ecus := ?ps\<rparr>"
    by (simp add: with_ecus_def split: option.splits)
  moreover have "distinct (map fst ?ps)"
    using own by (simp add: with_ecus_def hm_extend_distinct split: option.splits)
  moreover have "map_of (group_gateways ?gs) g = Some (with_ecus (map_of ?infos g) ?info)"
    using gw n by simp
  ultimately show "\<exists>ps. map_of ps = responsible ecus names g \<and> distinct (map fst ps) \<and>
      map_of (group_gateways ?gs) g = Some (?info\<lparr>pg_ecus := ps\<rparr>)"
    by metis
qed

text \<open>When no two participating ECUs share their addresses, every one of them is asked.\<close>

lemma gateways_exact:
  assumes "distinct ecu_list" and "addresses_unique ecus ecu_list"
  defines "gs \<equiv> sorted_ecus ecus ecu_list"
  shows "early_results gs = []" "distinct (map fst (group_gateways gs))"
    and "map_of (group_gateways gs) g = Some info \<Longrightarrow>
      map_of (pg_ecus info) a = Some n \<longleftrightarrow> n \<in> set ecu_list \<and> takes_part ecus n g a"
proof -
  have "\<not> rival ecus ecu_list n" for n
    using assms(1,2) unfolding rival_def addresses_unique_def by fastforce
  then have "map_of (early_results gs) = Map.empty" unfolding gs_def gateways_early by auto
  then show "early_results gs = []" by simp
  show "distinct (map fst (group_gateways gs))" unfolding gs_def by (rule gateways_distinct)
  assume "map_of (group_gateways gs) g = Some info"
  then have "map_of (pg_ecus info) = responsible ecus ecu_list g"
    using gateways_responsible[of ecus ecu_list g] unfolding gs_def
    by (cases "responsible ecus ecu_list g g") auto
  then show "map_of (pg_ecus info) a = Some n \<longleftrightarrow> n \<in> set ecu_list \<and> takes_part ecus n g a"
    using responsible_unique[OF assms(2)] by simp
qed

text \<open>
  C23: A functional request is prepared once for every gateway address at which a gateway ECU takes
  part, an ECU that is physical, online and detected, with the parameters, addresses and time-out of
  the last such ECU of the group. It expects answers, under every logical address, from the last
  participating ECU of the group with this gateway and this logical address, so from all of them
  when no two share their addresses. An ECU is reported as failed beforehand exactly when it is a
  gateway ECU that comes after another participating one with its address.
\<close>

theorem functional_group_addressed:
  "let gs = sorted_ecus ecus ecu_list; gws = group_gateways gs in
    distinct (map fst gws) \<and>
    (\<forall>g. case find (\<lambda>n. takes_part ecus n g g) (rev ecu_list) of
       None \<Rightarrow> map_of gws g = None
     | Some n \<Rightarrow> (\<exists>e info. ecus n = Some e \<and> map_of gws g = Some info \<and>
         pg_params_of info = n \<and> pg_timeout info = fu_timeout e \<and>
         pg_source info = tester_address (fu_info e) \<and>
         pg_functional info = logical_functional_address (fu_info e) \<and>
         (\<forall>a. map_of (pg_ecus info) a = find (\<lambda>n. takes_part ecus n g a) (rev ecu_list)))) \<and>
    (\<forall>n. map_of (early_results gs) n =
       (if \<exists>g before after. ecu_list = before @ n # after \<and> takes_part ecus n g g \<and>
            (\<exists>n' \<in> set before. takes_part ecus n' g g)
        then Some (err (ResourceError ''Another ECU with the same logical address is online'')) else None))"
proof -
  have "case responsible ecus ecu_list g g of
       None \<Rightarrow> map_of (group_gateways (sorted_ecus ecus ecu_list)) g = None
     | Some n \<Rightarrow> (\<exists>e info. ecus n = Some e \<and> map_of (group_gateways (sorted_ecus ecus ecu_list)) g = Some info \<and>
         pg_params_of info = n \<and> pg_timeout info = fu_timeout e \<and>
         pg_source info = tester_address (fu_info e) \<and>
         pg_functional info = logical_functional_address (fu_info e) \<and>
         (\<forall>a. map_of (pg_ecus info) a = responsible ecus ecu_list g a))" for g
  proof (cases "responsible ecus ecu_list g g")
    case (Some n)
    obtain e where "ecus n = Some e" using responsible_SomeD[OF Some] by (auto simp: takes_part_def)
    then show ?thesis using gateways_responsible(2)[OF Some] Some by (auto simp: gateway_info_def)
  qed (simp add: gateways_responsible(1))
  then show ?thesis
    using gateways_distinct[of ecus ecu_list] gateways_early[of ecus ecu_list]
    unfolding Let_def responsible_def rival_def by blast
qed

section \<open>The order of the answers\<close>

text \<open>The conversion with the description of a group depends on the database only.\<close>

lemma group_lookup:
  "lookup_diag_service nc dc (Some fg) mo m =
     (fst (lookup_diag_service nc dc (Some fg) mo m), m)"
  by (simp add: lookup_diag_service_def Let_def)

lemma group_lookup_database:
  "diag_database m = diag_database m' \<Longrightarrow>
   fst (lookup_diag_service nc dc (Some fg) mo m) = fst (lookup_diag_service nc dc (Some fg) mo m')"
  by (simp add: lookup_diag_service_def get_services_from_functional_group_and_parent_refs_def Let_def)

lemma apply_positive_response_database [simp]:
  "diag_database (apply_positive_response dc m) = diag_database m"
  by (simp add: apply_positive_response_def set_service_state_def Let_def split: prod.splits option.splits)

lemma convert_group_state: "diag_database (snd (convert_group l service json fg bs m)) = diag_database m"
proof -
  obtain r m1 where l: "lookup_diag_service (link_convention l) service (Some fg) None m = (r, m1)"
    by (rule prod.exhaust)
  with group_lookup[of "link_convention l" service fg None m] have "m1 = m" by simp
  then show ?thesis
    using convert_state[OF l, of "link_depth l" "link_externs l" "link_messages l" bs json]
    by (auto simp: convert_group_def)
qed

lemma convert_group_result:
  assumes "diag_database m = diag_database m'"
  shows "fst (convert_group l service json fg bs m) = fst (convert_group l service json fg bs m')"
proof -
  let ?look = "\<lambda>m. lookup_diag_service (link_convention l) service (Some fg) None m"
  obtain r where r: "?look m = (r, m)" "?look m' = (r, m')"
    using group_lookup group_lookup_database[OF assms] by metis
  show ?thesis
    by (simp add: convert_group_def convert_from_uds_def r split: sum.split option.split prod.split)
qed

definition converted ::
  "ecu_link \<Rightarrow> comm_request \<Rightarrow> bool \<Rightarrow> string \<Rightarrow> ecu_manager \<Rightarrow> service_payload diag_result \<Rightarrow> diag_response run" where
  "converted l service json fg m r = (case r of
      Inl e \<Rightarrow> err e
    | Inr msg \<Rightarrow> fst (convert_group l service json fg (service_payload.payload_data msg) m))"

lemma hm_extend_Cons: "hm_extend acc ((k, v) # items) = hm_extend (hm_insert k v acc) items"
  by (simp add: hm_extend_def)

lemma convert_results_converted:
  "diag_database m' = diag_database m \<Longrightarrow>
   \<exists>m''. diag_database m'' = diag_database m \<and> convert_results l service json fg rs acc m' =
     (hm_extend acc (map (\<lambda>(n, r). (n, converted l service json fg m r)) rs), m'')"
proof (induction rs arbitrary: acc m')
  case (Cons nr rs)
  obtain n r where nr: "nr = (n, r)" by (rule prod.exhaust)
  show ?case
  proof (cases r)
    case (Inl e)
    then show ?thesis using Cons by (simp add: nr converted_def hm_extend_Cons)
  next
    case (Inr msg)
    let ?bs = "service_payload.payload_data msg"
    obtain v m1 where c: "convert_group l service json fg ?bs m' = (v, m1)" by (rule prod.exhaust)
    have "v = converted l service json fg m r" "diag_database m1 = diag_database m"
      using convert_group_result[OF Cons.prems, of l service json fg ?bs]
        convert_group_state[of l service json fg ?bs m'] c Inr Cons.prems
      by (simp_all add: converted_def)
    then show ?thesis using Cons.IH[of m1 "hm_insert n v acc"] c Inr by (simp add: nr hm_extend_Cons)
  qed
qed (simp add: hm_extend_def)

definition gateway_results ::
  "functional_gateway \<Rightarrow> ecu_link \<Rightarrow> comm_request \<Rightarrow> service_payload \<Rightarrow> bool \<Rightarrow> string \<Rightarrow> ecu_manager \<Rightarrow>
   per_gateway_info \<Rightarrow> (string \<times> diag_response run) list" where
  "gateway_results gw l service payload json fg m info = fst (send_functional_to_gateway gw l info service
     (payload\<lparr>source_address := pg_source info, target_address := pg_functional info\<rparr>) json fg m)"

lemma gateway_step:
  assumes "diag_database m' = diag_database m"
  shows "\<exists>m''. diag_database m'' = diag_database m \<and> send_functional_to_gateway gw l info service
     (payload\<lparr>source_address := pg_source info, target_address := pg_functional info\<rparr>) json fg m' =
     (gateway_results gw l service payload json fg m info, m'')"
proof -
  let ?p = "payload\<lparr>source_address := pg_source info, target_address := pg_functional info\<rparr>"
  show ?thesis
  proof (cases "gw (pg_params_of info) ?p (pg_ecus info) (pg_timeout info) (\<not> is_suppress_positive_response ?p)")
    case (Inl e)
    then show ?thesis using assms by (simp add: gateway_results_def send_functional_to_gateway_def)
  next
    case (Inr rs)
    show ?thesis
      using convert_results_converted[OF assms, of l service json fg rs "[]"]
        convert_results_converted[of m m l service json fg rs "[]"] Inr
      by (auto simp: gateway_results_def send_functional_to_gateway_def)
  qed
qed

lemma run_gateways_results:
  "diag_database m' = diag_database m \<Longrightarrow>
   fst (run_gateways gw l service payload json fg infos acc m') =
     fold (\<lambda>info acc. hm_extend acc (gateway_results gw l service payload json fg m info)) infos acc"
proof (induction infos arbitrary: acc m')
  case (Cons info infos)
  obtain m1 where "diag_database m1 = diag_database m" "send_functional_to_gateway gw l info service
     (payload\<lparr>source_address := pg_source info, target_address := pg_functional info\<rparr>) json fg m' =
     (gateway_results gw l service payload json fg m info, m1)"
    using gateway_step[OF Cons.prems] by blast
  then show ?case using Cons.IH[of m1] by simp
qed simp

lemma map_of_extend:
  "map_of (hm_extend acc items) k = (case map_of (rev items) k of Some v \<Rightarrow> Some v | None \<Rightarrow> map_of acc k)"
proof (induction items arbitrary: acc)
  case (Cons kv items)
  then show ?case
    by (cases kv) (auto simp: hm_extend_Cons map_of_append map_add_def split: option.splits)
qed (simp add: hm_extend_def)

text \<open>Tables with different keys can be added in any order.\<close>

lemma fold_extend_own:
  "i \<in> set is \<Longrightarrow> k \<in> fst ` set (R i) \<Longrightarrow>
   (\<And>j. j \<in> set is \<Longrightarrow> k \<in> fst ` set (R j) \<Longrightarrow> j = i) \<Longrightarrow>
   map_of (fold (\<lambda>i acc. hm_extend acc (R i)) is acc) k = map_of (rev (R i)) k"
proof (induction "is" rule: rev_induct)
  case (snoc j js)
  have none: "map_of (rev (R j)) k = None" if "j \<noteq> i"
    using that snoc.prems(3)[of j] by (auto simp: map_of_eq_None_iff)
  have some: "map_of (rev (R i)) k \<noteq> None" using snoc.prems(2) by (auto simp: map_of_eq_None_iff)
  show ?case
  proof (cases "j = i")
    case True
    then show ?thesis using some by (auto simp: map_of_extend)
  next
    case False
    have "map_of (fold (\<lambda>i acc. hm_extend acc (R i)) js acc) k = map_of (rev (R i)) k"
    proof (rule snoc.IH)
      show "i \<in> set js" using snoc.prems(1) False by simp
      show "j' = i" if "j' \<in> set js" "k \<in> fst ` set (R j')" for j' using that snoc.prems(3)[of j'] by simp
    qed (rule snoc.prems(2))
    then show ?thesis using none[OF False] by (simp add: map_of_extend)
  qed
qed simp

lemma fold_extend_none:
  "(\<And>i. i \<in> set is \<Longrightarrow> k \<notin> fst ` set (R i)) \<Longrightarrow>
   map_of (fold (\<lambda>i acc. hm_extend acc (R i)) is acc) k = map_of acc k"
proof (induction "is" rule: rev_induct)
  case (snoc j js)
  have "map_of (rev (R j)) k = None" using snoc.prems[of j] by (simp add: map_of_eq_None_iff)
  moreover have "map_of (fold (\<lambda>i acc. hm_extend acc (R i)) js acc) k = map_of acc k"
    by (rule snoc.IH) (simp add: snoc.prems)
  ultimately show ?case by (simp add: map_of_extend)
qed simp

lemma fold_extend_order:
  assumes "set is' = set is"
    and "\<And>i j k. i \<in> set is \<Longrightarrow> j \<in> set is \<Longrightarrow> k \<in> fst ` set (R i) \<Longrightarrow> k \<in> fst ` set (R j) \<Longrightarrow> i = j"
  shows "map_of (fold (\<lambda>i acc. hm_extend acc (R i)) is' acc) = map_of (fold (\<lambda>i acc. hm_extend acc (R i)) is acc)"
proof
  fix k
  show "map_of (fold (\<lambda>i acc. hm_extend acc (R i)) is' acc) k = map_of (fold (\<lambda>i acc. hm_extend acc (R i)) is acc) k"
  proof (cases "\<exists>i \<in> set is. k \<in> fst ` set (R i)")
    case True
    then obtain i where i: "i \<in> set is" "k \<in> fst ` set (R i)" by blast
    then have u: "j = i" if "j \<in> set is" "k \<in> fst ` set (R j)" for j using that assms(2) by blast
    have "map_of (fold (\<lambda>i acc. hm_extend acc (R i)) js acc) k = map_of (rev (R i)) k" if "set js = set is" for js
      by (rule fold_extend_own[of i js k R]) (use i u that in blast)+
    from this[OF assms(1)] this[OF refl] show ?thesis by (rule trans[OF _ sym])
  next
    case False
    then have "map_of (fold (\<lambda>i acc. hm_extend acc (R i)) js acc) k = map_of acc k" if "set js = set is" for js
      using that by (intro fold_extend_none) auto
    from this[OF assms(1)] this[OF refl] show ?thesis by (rule trans[OF _ sym])
  qed
qed

text \<open>A gateway answers for the ECUs it was asked about.\<close>

definition answers_expected :: "functional_gateway \<Rightarrow> bool" where
  "answers_expected gw \<longleftrightarrow> (\<forall>p msg es t e rs. gw p msg es t e = Inr rs \<longrightarrow> fst ` set rs \<subseteq> snd ` set es)"

lemma hm_insert_keys: "fst ` set (hm_insert k v m) = insert k (fst ` set m)"
  using set_hm_insert_keys[of k v m] by simp

lemma hm_extend_keys: "fst ` set (hm_extend m items) = fst ` set m \<union> fst ` set items"
  by (induction items arbitrary: m) (simp_all add: hm_extend_def hm_insert_keys case_prod_beta)

lemma error_keys: "fst ` set (fold (\<lambda>(_, name). hm_insert name v) es acc) = fst ` set acc \<union> snd ` set es"
  by (induction es arbitrary: acc) (simp_all add: hm_insert_keys case_prod_beta)

lemma gateway_results_keys:
  assumes "answers_expected gw"
  shows "fst ` set (gateway_results gw l service payload json fg m info) \<subseteq> snd ` set (pg_ecus info)"
proof -
  let ?p = "payload\<lparr>source_address := pg_source info, target_address := pg_functional info\<rparr>"
  show ?thesis
  proof (cases "gw (pg_params_of info) ?p (pg_ecus info) (pg_timeout info) (\<not> is_suppress_positive_response ?p)")
    case (Inl e)
    then show ?thesis by (simp add: gateway_results_def send_functional_to_gateway_def error_keys)
  next
    case (Inr rs)
    obtain m'' where "convert_results l service json fg rs [] m =
        (hm_extend [] (map (\<lambda>(n, r). (n, converted l service json fg m r)) rs), m'')"
      using convert_results_converted[of m m] by blast
    moreover have "fst ` set rs \<subseteq> snd ` set (pg_ecus info)" using Inr assms unfolding answers_expected_def by blast
    moreover have "fst ` set (map (\<lambda>(n, r). (n, converted l service json fg m r)) rs) = fst ` set rs" by force
    ultimately show ?thesis using Inr
      by (simp add: gateway_results_def send_functional_to_gateway_def hm_extend_keys del: set_map)
  qed
qed

text \<open>The ECUs of a prepared gateway take part through it.\<close>

lemma gateway_ecus_take_part:
  assumes info: "map_of (group_gateways (sorted_ecus ecus ecu_list)) g = Some info"
    and n: "n \<in> snd ` set (pg_ecus info)"
  shows "\<exists>a. takes_part ecus n g a"
proof -
  obtain n0 where "responsible ecus ecu_list g g = Some n0"
    using gateways_responsible(1) info by (metis not_None_eq)
  from gateways_responsible(2)[OF this]
  have "map_of (pg_ecus info) = responsible ecus ecu_list g" "distinct (map fst (pg_ecus info))"
    using info by auto
  moreover obtain a where "map_of (pg_ecus info) a = Some n"
    using n calculation(2) map_of_is_SomeI by fastforce
  ultimately show ?thesis using responsible_SomeD by metis
qed

lemma gateway_names_disjoint:
  assumes "distinct ecu_list" "addresses_unique ecus ecu_list"
    and "i \<in> set (map snd (group_gateways (sorted_ecus ecus ecu_list)))"
    and "j \<in> set (map snd (group_gateways (sorted_ecus ecus ecu_list)))"
    and "n \<in> snd ` set (pg_ecus i)" "n \<in> snd ` set (pg_ecus j)"
  shows "i = j"
proof -
  let ?gws = "group_gateways (sorted_ecus ecus ecu_list)"
  have "distinct (map fst ?gws)" by (rule gateways_exact(2)[OF assms(1,2)])
  then obtain g h where "map_of ?gws g = Some i" "map_of ?gws h = Some j"
    using assms(3,4) by auto
  moreover from this have "g = h"
    using gateway_ecus_take_part assms(5,6) takes_part_addresses by metis
  ultimately show ?thesis by simp
qed

text \<open>
  C24: The answers of a functional request do not depend on the order in which the gateways end.
  When no two participating ECUs share their addresses and a gateway answers only for the ECUs it was
  asked about, two runs in which the gateways end in different orders report the same result for
  every ECU, although all of them share the state of the group's description and one table of results.
\<close>

theorem functional_results_order_free:
  assumes "distinct (map fst ecus)"
    and "addresses_unique (map_of ecus) (ecus_for_functional_group (map (\<lambda>(n, e). (n, fu_info e)) ecus) fg False)"
    and "answers_expected gw"
    and "\<And>xs. set (order xs) = set xs" and "\<And>xs. set (order' xs) = set xs"
  shows "map_of (fst (send_functional_group gw l order ecus fg service plugin given json globals)) =
         map_of (fst (send_functional_group gw l order' ecus fg service plugin given json globals))"
proof (cases globals)
  case None
  then show ?thesis by (simp add: send_functional_group_def Let_def)
next
  case (Some m0)
  let ?ecu_list = "ecus_for_functional_group (map (\<lambda>(n, e). (n, fu_info e)) ecus) fg False"
  let ?gs = "sorted_ecus (map_of ecus) ?ecu_list"
  let ?infos = "map snd (group_gateways ?gs)"
  obtain r m where payload: "create_uds_payload (link_depth l) (link_externs l) (link_strict l) (link_messages l)
      (link_convention l) (link_tester l) (link_logical l) service plugin given (Some fg) m0 = (r, m)"
    by (rule prod.exhaust)
  show ?thesis
  proof (cases r)
    case (Inl f)
    then show ?thesis using payload Some by (simp add: send_functional_group_def Let_def)
  next
    case (Inr p)
    let ?R = "gateway_results gw l service p json fg m"
    have "distinct ?ecu_list" using assms(1)
      by (simp add: ecus_for_functional_group_def distinct_map_filter comp_def case_prod_beta)
    note disjoint = gateway_names_disjoint[OF this assms(2)] and keys = gateway_results_keys[OF assms(3)]
    have "i = j" if "i \<in> set ?infos" "j \<in> set ?infos" "k \<in> fst ` set (?R i)" "k \<in> fst ` set (?R j)" for i j k
      by (rule disjoint[OF that(1,2)]) (rule subsetD[OF keys that(3)], rule subsetD[OF keys that(4)])
    note swap = fold_extend_order[OF _ this]
    have "map_of (fold (\<lambda>i acc. hm_extend acc (?R i)) (order ?infos) acc) =
        map_of (fold (\<lambda>i acc. hm_extend acc (?R i)) (order' ?infos) acc)" for acc
      by (rule trans[OF swap[OF assms(4)] swap[OF assms(5), symmetric]])
    then show ?thesis
      using payload Some Inr
      by (simp add: send_functional_group_def Let_def run_gateways_results[of m m])
  qed
qed

text \<open>An ECU that did not answer positively keeps its states and its reset task.\<close>

lemma functional_state_confirmed_only:
  assumes "\<And>response. (ecu, Inr response) \<in> set results \<Longrightarrow> response_kind response \<noteq> PositiveResponse"
  shows "apply_functional_state now sid service_name expiration results states ecu = states ecu"
  using assms
proof (induction results arbitrary: states)
  case (Cons nr results)
  obtain n r where nr: "nr = (n, r)" by (rule prod.exhaust)
  let ?states = "apply_functional_state now sid service_name expiration [nr] states"
  have "?states ecu = states ecu"
    using Cons.prems nr by (auto simp: apply_functional_state_def Let_def split: sum.split option.split)
  moreover have "apply_functional_state now sid service_name expiration results ?states ecu = ?states ecu"
    by (rule Cons.IH) (use Cons.prems in auto)
  ultimately show ?case by (simp add: apply_functional_state_def)
qed (simp add: apply_functional_state_def)

section \<open>Concrete groups\<close>

definition group_ecu :: "16 word \<Rightarrow> 16 word \<Rightarrow> functional_ecu" where
  "group_ecu gateway_addr logical_addr = \<lparr>
     fu_info = \<lparr>logical_address = logical_addr, logical_gateway_address = gateway_addr,
       logical_functional_address = 0xE400, tester_address = 0x0E00, is_physical_ecu = True,
       functional_groups = [''AllEcus''], tester_present_time = 2\<rparr>,
     fu_status = \<lparr>connectivity = Online, variant_state = Detected ''Base'' True False, variant_index = Some 0\<rparr>, fu_timeout = 1000\<rparr>"

definition two_gateways :: "(string \<times> functional_ecu) list" where
  "two_gateways = [(''Gw1'', group_ecu 1 1), (''Door'', group_ecu 1 2), (''Gw2'', group_ecu 3 3)]"

definition same_address :: "(string \<times> functional_ecu) list" where
  "same_address = [(''Gw1'', group_ecu 1 1), (''Gw2'', group_ecu 1 1)]"

text \<open>A gateway whose ECUs all repeat the request.\<close>

definition echo_gateway :: functional_gateway where
  "echo_gateway params msg es limit expect = Inr (map (\<lambda>(_, name). (name, Inr msg)) es)"

lemma group_ecu_takes_part [simp]:
  "takes_part (map_of two_gateways) n g a \<longleftrightarrow>
     n = ''Gw1'' \<and> g = 1 \<and> a = 1 \<or> n = ''Door'' \<and> g = 1 \<and> a = 2 \<or> n = ''Gw2'' \<and> g = 3 \<and> a = 3"
  by (auto simp: takes_part_def two_gateways_def group_ecu_def is_online_and_detected_def)

lemma two_gateways_unique: "addresses_unique (map_of two_gateways) names"
  unfolding addresses_unique_def by auto

theorem functional_group_addressed_witness:
  "let gws = group_gateways (sorted_ecus (map_of two_gateways) [''Gw1'', ''Door'', ''Gw2'']) in
     map_of gws 2 = None \<and>
     (\<exists>info. map_of gws 1 = Some info \<and> map_of (pg_ecus info) 2 = Some ''Door'' \<and> map_of (pg_ecus info) 3 = None)"
proof -
  let ?gws = "group_gateways (sorted_ecus (map_of two_gateways) [''Gw1'', ''Door'', ''Gw2''])"
  have all: "case find (\<lambda>n. takes_part (map_of two_gateways) n g g) [''Gw2'', ''Door'', ''Gw1''] of
       None \<Rightarrow> map_of ?gws g = None
     | Some n \<Rightarrow> (\<exists>e info. map_of two_gateways n = Some e \<and> map_of ?gws g = Some info \<and>
         pg_params_of info = n \<and> pg_timeout info = fu_timeout e \<and>
         pg_source info = tester_address (fu_info e) \<and>
         pg_functional info = logical_functional_address (fu_info e) \<and>
         (\<forall>a. map_of (pg_ecus info) a =
            find (\<lambda>n. takes_part (map_of two_gateways) n g a) [''Gw2'', ''Door'', ''Gw1'']))" for g
    using functional_group_addressed[of "map_of two_gateways" "[''Gw1'', ''Door'', ''Gw2'']"]
    unfolding Let_def rev.simps append.simps by blast
  show ?thesis using all[of 1] all[of 2] by (auto simp: Let_def)
qed

theorem functional_results_order_free_witness:
  "\<forall>l service plugin given json globals.
     map_of (fst (send_functional_group echo_gateway l rev two_gateways ''AllEcus'' service plugin given json globals)) =
     map_of (fst (send_functional_group echo_gateway l id two_gateways ''AllEcus'' service plugin given json globals))"
proof (intro allI functional_results_order_free)
  show "answers_expected echo_gateway"
    by (force simp: answers_expected_def echo_gateway_def)
qed (simp_all add: two_gateways_unique, simp add: two_gateways_def)

text \<open>
  Of two gateway ECUs with the same address the code keeps the last one, reports that one as
  failed, and asks the first one nothing; its log message says that only the first is used.
\<close>

lemma last_gateway_used:
  "let gs = sorted_ecus (map_of same_address) [''Gw1'', ''Gw2''] in
     map pg_params_of (map snd (group_gateways gs)) = [''Gw2''] \<and> map fst (early_results gs) = [''Gw2''] \<and>
     map (pg_ecus \<circ> snd) (group_gateways gs) = [[(1, ''Gw2'')]]"
  by (simp add: same_address_def sorted_ecus_def sort_ecu_def group_gateways_def group_ecu_def
      is_online_and_detected_def gateway_info_def Let_def)

end
