(* ===== verification/Mdd_File.thy ===== *)
theory Mdd_File
  imports Local_Collection
begin

text \<open>
  Description files (\<open>cda-database/src/mdd_data.rs\<close>): the magic bytes, loading of chunks with their
  decompression, and the rewriting of a file with uncompressed chunks. The protocol-buffer codec, the
  LZMA decoder and the SHA-512 digest are third-party code and arguments of the definitions. A file is
  named by its collection and key; a file that cannot be opened is \<open>None\<close>.
\<close>

section \<open>Files and chunks\<close>

text \<open>Messages into which the code does not look are kept as bytes.\<close>

record mdd_chunk =
  chunk_type_tag :: int
  chunk_name :: "string option"
  chunk_metadata :: "(string \<times> string) list"
  chunk_signatures :: "byte list list"
  compression_algorithm :: "string option"
  uncompressed_size :: "nat option"
  chunk_encryption :: "byte list option"
  mime_type :: "string option"
  chunk_data :: "byte list option"

record mdd_file =
  mdd_version :: string
  mdd_feature_flags :: "int list"
  mdd_ecu_name :: string
  mdd_revision :: "string option"
  mdd_metadata :: "(string \<times> string) list"
  mdd_chunks :: "mdd_chunk list"
  mdd_signature :: "byte list option"

record mdd_codec =
  proto_decode :: "byte list \<Rightarrow> mdd_file option"
  proto_encode :: "mdd_file \<Rightarrow> byte list option"
  lzma_decode :: "byte list \<Rightarrow> byte list option"
  sha512 :: "byte list \<Rightarrow> byte list"

text \<open>Messages of errors without their variable parts.\<close>

datatype mdd_error =
    MddIo string
  | MddInvalidFormat string
  | MddParsing string
  | MddMissingData string
  | MddInvalidParameter string

definition file_magic_bytes :: "byte list" where
  "file_magic_bytes = [0x4d, 0x44, 0x44, 0x20, 0x76, 0x65, 0x72, 0x73, 0x69, 0x6f, 0x6e, 0x20, 0x30,
     0x20, 0x20, 0x20, 0x20, 0x20, 0x20, 0x00]"

definition FILE_MAGIC_BYTES_LEN :: nat where
  "FILE_MAGIC_BYTES_LEN = 20"

definition mmap_and_decode_mdd :: "mdd_codec \<Rightarrow> byte list option \<Rightarrow> mdd_error + mdd_file" where
  "mmap_and_decode_mdd codec file =
     bindE (ok_or file (MddIo ''Failed to open MDD file'')) (\<lambda>content.
       if length content < FILE_MAGIC_BYTES_LEN then Inl (MddParsing ''Invalid file format: file too small'')
       else if take FILE_MAGIC_BYTES_LEN content \<noteq> file_magic_bytes
       then Inl (MddParsing ''Invalid file format: Magic Byte mismatch'')
       else ok_or (proto_decode codec (drop FILE_MAGIC_BYTES_LEN content)) (MddParsing ''Failed to parse MDD file''))"

definition decompress_chunk_data ::
  "mdd_codec \<Rightarrow> byte list \<Rightarrow> string option \<Rightarrow> mdd_error + byte list" where
  "decompress_chunk_data codec data algorithm =
     (case map_option normalize_key algorithm of
        None \<Rightarrow> Inr data
      | Some a \<Rightarrow>
          if a = ''lzma'' then ok_or (lzma_decode codec data) (MddIo ''Failed to decompress chunk data'')
          else Inl (MddParsing ''Unsupported compression algorithm''))"

section \<open>Loading\<close>

datatype chunk_type = DiagnosticDescription | CodeFile | CodeFilePartial | EmbeddedFile | VendorSpecific

definition chunk_data_type :: "int \<Rightarrow> chunk_type option" where
  "chunk_data_type tag = map_of [(0, DiagnosticDescription), (1, CodeFile), (2, CodeFilePartial),
     (3, EmbeddedFile), (1024, VendorSpecific)] tag"

record proto_load_config =
  load_data :: bool
  load_type :: chunk_type
  load_name :: "string option"

record chunk =
  chunk_payload :: "byte list option"
  meta_type :: chunk_type
  meta_chunk_name :: string
  meta_uncompressed_size :: nat
  meta_content_type :: "string option"

definition chunk_selected :: "proto_load_config \<Rightarrow> mdd_chunk \<Rightarrow> bool" where
  "chunk_selected info p \<longleftrightarrow> chunk_data_type (chunk_type_tag p) = Some (load_type info) \<and>
     (load_name info = None \<or> load_name info = chunk_name p)"

definition loaded_chunk :: "proto_load_config \<Rightarrow> byte list option \<Rightarrow> mdd_chunk \<Rightarrow> chunk" where
  "loaded_chunk info data p = \<lparr>chunk_payload = data, meta_type = load_type info,
     meta_chunk_name = (case chunk_name p of None \<Rightarrow> [] | Some n \<Rightarrow> n),
     meta_uncompressed_size = (case uncompressed_size p of None \<Rightarrow> 0 | Some n \<Rightarrow> n),
     meta_content_type = mime_type p\<rparr>"

text \<open>One configuration; a selected chunk without data is left out.\<close>

fun load_chunks :: "mdd_codec \<Rightarrow> proto_load_config \<Rightarrow> mdd_chunk list \<Rightarrow> mdd_error + chunk list" where
  "load_chunks codec info [] = Inr []"
| "load_chunks codec info (p # ps) =
     (if \<not> chunk_selected info p then load_chunks codec info ps
      else if \<not> load_data info
      then bindE (load_chunks codec info ps) (\<lambda>cs. Inr (loaded_chunk info None p # cs))
      else case chunk_data p of
        None \<Rightarrow> load_chunks codec info ps
      | Some data \<Rightarrow>
          bindE (decompress_chunk_data codec data (compression_algorithm p)) (\<lambda>x.
            bindE (load_chunks codec info ps) (\<lambda>cs. Inr (loaded_chunk info (Some x) p # cs))))"

definition load_proto_data ::
  "mdd_codec \<Rightarrow> byte list option \<Rightarrow> proto_load_config list \<Rightarrow>
   mdd_error + string \<times> (chunk_type \<times> chunk list) list" where
  "load_proto_data codec file load_info =
     bindE (mmap_and_decode_mdd codec file) (\<lambda>mdd.
       bindE (for_each (\<lambda>info m. bindE (load_chunks codec info (mdd_chunks mdd))
            (\<lambda>cs. Inr (AList.update (load_type info) cs m))) load_info [])
         (\<lambda>data. Inr (mdd_ecu_name mdd, data)))"

definition load_ecudata :: "mdd_codec \<Rightarrow> byte list option \<Rightarrow> mdd_error + string \<times> byte list" where
  "load_ecudata codec file =
     bindE (load_proto_data codec file
         [\<lparr>load_data = True, load_type = DiagnosticDescription, load_name = None\<rparr>]) (\<lambda>(name, data).
       case data of
         (_, c # _) # _ \<Rightarrow> bindE (ok_or (chunk_payload c) (MddMissingData ''No diagnostic payload found in MDD file''))
           (\<lambda>payload. Inr (name, payload))
       | _ \<Rightarrow> Inl (MddMissingData ''No diagnostic description found in MDD file''))"

definition load_chunk_data :: "mdd_codec \<Rightarrow> byte list option \<Rightarrow> chunk \<Rightarrow> mdd_error + byte list" where
  "load_chunk_data codec file c =
     bindE (load_proto_data codec file
         [\<lparr>load_data = True, load_type = meta_type c, load_name = Some (meta_chunk_name c)\<rparr>]) (\<lambda>(_, data).
       case map_of data (meta_type c) of
         Some (d # _) \<Rightarrow> ok_or (chunk_payload d) (MddMissingData ''Chunk data found in MDD file'')
       | _ \<Rightarrow> Inl (MddMissingData ''Chunk data found in MDD file''))"

definition load_chunk :: "mdd_codec \<Rightarrow> byte list option \<Rightarrow> chunk \<Rightarrow> (mdd_error + byte list) \<times> chunk" where
  "load_chunk codec file c = (case chunk_payload c of
      Some p \<Rightarrow> (Inr p, c)
    | None \<Rightarrow> (case load_chunk_data codec file c of
        Inl e \<Rightarrow> (Inl e, c)
      | Inr p \<Rightarrow> (Inr p, c\<lparr>chunk_payload := Some p\<rparr>)))"

section \<open>Rewriting with uncompressed chunks\<close>

definition content_of :: "disk \<Rightarrow> string \<Rightarrow> string \<Rightarrow> byte list option" where
  "content_of d c k = Option.bind (coll d c) (\<lambda>al. map_of al k)"

fun decompress_chunks :: "mdd_codec \<Rightarrow> mdd_chunk list \<Rightarrow> mdd_error + mdd_chunk list" where
  "decompress_chunks codec [] = Inr []"
| "decompress_chunks codec (p # ps) = (case chunk_data p of
      None \<Rightarrow> bindE (decompress_chunks codec ps) (\<lambda>qs. Inr (p # qs))
    | Some data \<Rightarrow>
        bindE (decompress_chunk_data codec data (compression_algorithm p)) (\<lambda>x.
          bindE (decompress_chunks codec ps) (\<lambda>qs. Inr
            (p\<lparr>chunk_data := Some x, compression_algorithm := None, uncompressed_size := None\<rparr> # qs))))"

definition verify_mdd_chunk_checksums ::
  "mdd_codec \<Rightarrow> byte list option \<Rightarrow> byte list option list \<Rightarrow> mdd_error + unit" where
  "verify_mdd_chunk_checksums codec file expected_hashes =
     bindE (mmap_and_decode_mdd codec file) (\<lambda>mdd.
       if length (mdd_chunks mdd) \<noteq> length expected_hashes
       then Inl (MddParsing ''Verification failed: chunk count mismatch'')
       else if list_all2 (\<lambda>p h. map_option (sha512 codec) (chunk_data p) = h) (mdd_chunks mdd) expected_hashes
       then Inr () else Inl (MddParsing ''Verification failed: SHA-512 mismatch''))"

text \<open>\<open>std::fs::write\<close> into a directory.\<close>

definition put_file :: "string \<Rightarrow> string \<Rightarrow> byte list \<Rightarrow> disk \<Rightarrow> disk storage_result" where
  "put_file c k data d = (case coll d c of
      None \<Rightarrow> Inl (Io IoNotFound)
    | Some al \<Rightarrow> Inr (set_coll c (AList.update k data al) d))"

text \<open>The temporary file, its verification and the replacement of the original.\<close>

definition replace_mdd ::
  "faults \<Rightarrow> mdd_codec \<Rightarrow> string \<Rightarrow> string \<Rightarrow> byte list \<Rightarrow> byte list option list \<Rightarrow> disk \<Rightarrow>
   (mdd_error + bool) \<times> disk" where
  "replace_mdd flt codec c key out expected_hashes d =
     (let tmp = append_extension key ''tmp''; discard_tmp = (\<lambda>d. snd (mutate flt (remove_file c tmp) d)) in
      case mutate flt (put_file c tmp out) d of
        (Inl e, d1) \<Rightarrow> (Inl (MddIo ''Failed to write temporary MDD file''), d1)
      | (Inr _, d1) \<Rightarrow>
          (case verify_mdd_chunk_checksums codec (content_of d1 c tmp) expected_hashes of
             Inl e \<Rightarrow> (Inl e, discard_tmp d1)
           | Inr _ \<Rightarrow>
               (case mutate flt (rename_file c tmp key) d1 of
                  (Inl e, d2) \<Rightarrow> (Inl (MddIo ''Failed to rename temporary MDD file''), discard_tmp d2)
                | (Inr _, d2) \<Rightarrow> (Inr True, d2))))"

definition uncompressed_mdd :: "mdd_codec \<Rightarrow> mdd_file \<Rightarrow> mdd_error + mdd_file \<times> byte list" where
  "uncompressed_mdd codec mdd =
     bindE (decompress_chunks codec (mdd_chunks mdd)) (\<lambda>cs.
       let mdd' = mdd\<lparr>mdd_chunks := cs\<rparr> in
       bindE (ok_or (proto_encode codec mdd') (MddIo ''Failed to encode updated MDD'')) (\<lambda>bs.
         Inr (mdd', file_magic_bytes @ bs)))"

definition update_mdd_uncompressed ::
  "faults \<Rightarrow> mdd_codec \<Rightarrow> string \<Rightarrow> string \<Rightarrow> disk \<Rightarrow> (mdd_error + bool) \<times> disk" where
  "update_mdd_uncompressed flt codec c key d =
     (case mmap_and_decode_mdd codec (content_of d c key) of
        Inl e \<Rightarrow> (Inl e, d)
      | Inr mdd \<Rightarrow>
          if \<not> list_ex (\<lambda>p. compression_algorithm p \<noteq> None) (mdd_chunks mdd) then (Inr False, d)
          else case uncompressed_mdd codec mdd of
            Inl e \<Rightarrow> (Inl e, d)
          | Inr (mdd', out) \<Rightarrow>
              replace_mdd flt codec c key out (map (map_option (sha512 codec) \<circ> chunk_data) (mdd_chunks mdd')) d)"

section \<open>What is loaded from a rewritten file\<close>

text \<open>Decoding reverses encoding, as the library documents it.\<close>

definition prost_roundtrip :: "mdd_codec \<Rightarrow> bool" where
  "prost_roundtrip codec \<longleftrightarrow> (\<forall>f bs. proto_encode codec f = Some bs \<longrightarrow> proto_decode codec bs = Some f)"

definition unsized :: "chunk \<Rightarrow> chunk" where
  "unsized c = c\<lparr>meta_uncompressed_size := 0\<rparr>"

lemma load_uncompressed:
  assumes "load_data info"
  shows "decompress_chunks codec ps = Inr qs \<Longrightarrow>
    \<exists>cs. load_chunks codec info ps = Inr cs \<and> load_chunks codec info qs = Inr (map unsized cs)"
proof (induction ps arbitrary: qs)
  case (Cons p ps)
  show ?case
  proof (cases "chunk_data p")
    case None
    then obtain qs' where "decompress_chunks codec ps = Inr qs'" "qs = p # qs'"
      using Cons.prems by (auto simp: result_simps)
    then show ?thesis using Cons.IH None assms by auto
  next
    case (Some data)
    then obtain x qs' where x: "decompress_chunk_data codec data (compression_algorithm p) = Inr x"
      and qs': "decompress_chunks codec ps = Inr qs'"
        "qs = p\<lparr>chunk_data := Some x, compression_algorithm := None, uncompressed_size := None\<rparr> # qs'"
      using Cons.prems by (auto simp: result_simps)
    have "decompress_chunk_data codec x None = Inr x" by (simp add: decompress_chunk_data_def)
    then show ?thesis
      using Cons.IH[OF qs'(1)] Some assms x qs'(2)
      by (auto simp: chunk_selected_def loaded_chunk_def unsized_def)
  qed
qed simp

text \<open>Two files that give the same data, whatever sizes they declare.\<close>

definition same_data :: "mdd_codec \<Rightarrow> byte list option \<Rightarrow> byte list option \<Rightarrow> bool" where
  "same_data codec file file' \<longleftrightarrow> file = file' \<or> (\<exists>mdd mdd'.
     mmap_and_decode_mdd codec file = Inr mdd \<and> mmap_and_decode_mdd codec file' = Inr mdd' \<and>
     mdd_ecu_name mdd' = mdd_ecu_name mdd \<and>
     (\<forall>info. load_data info \<longrightarrow> (\<exists>cs. load_chunks codec info (mdd_chunks mdd) = Inr cs \<and>
        load_chunks codec info (mdd_chunks mdd') = Inr (map unsized cs))))"

lemma load_one:
  assumes "mmap_and_decode_mdd codec file = Inr mdd" "load_chunks codec info (mdd_chunks mdd) = Inr cs"
  shows "load_proto_data codec file [info] = Inr (mdd_ecu_name mdd, [(load_type info, cs)])"
  using assms by (simp add: load_proto_data_def)

lemma same_data_loads:
  assumes "same_data codec file file'"
  shows "load_ecudata codec file' = load_ecudata codec file"
    and "load_chunk_data codec file' ch = load_chunk_data codec file ch"
proof -
  have "load_ecudata codec file' = load_ecudata codec file \<and> load_chunk_data codec file' ch = load_chunk_data codec file ch"
  proof (cases "file = file'")
    case False
    then obtain mdd mdd' where m: "mmap_and_decode_mdd codec file = Inr mdd" "mmap_and_decode_mdd codec file' = Inr mdd'"
      "mdd_ecu_name mdd' = mdd_ecu_name mdd"
      and l: "\<And>info. load_data info \<Longrightarrow> \<exists>cs. load_chunks codec info (mdd_chunks mdd) = Inr cs \<and>
        load_chunks codec info (mdd_chunks mdd') = Inr (map unsized cs)"
      using assms unfolding same_data_def by blast
    have p: "\<exists>cs. load_proto_data codec file [info] = Inr (mdd_ecu_name mdd, [(load_type info, cs)]) \<and>
        load_proto_data codec file' [info] = Inr (mdd_ecu_name mdd, [(load_type info, map unsized cs)])"
      if "load_data info" for info
      using l[OF that] load_one[OF m(1)] load_one[OF m(2)] m(3) by metis
    let ?all = "\<lparr>load_data = True, load_type = DiagnosticDescription, load_name = None\<rparr>"
    let ?one = "\<lparr>load_data = True, load_type = meta_type ch, load_name = Some (meta_chunk_name ch)\<rparr>"
    have "load_ecudata codec file' = load_ecudata codec file"
      using p[of ?all] by (auto simp: load_ecudata_def unsized_def split: list.splits)
    moreover have "load_chunk_data codec file' ch = load_chunk_data codec file ch"
      using p[of ?one] by (auto simp: load_chunk_data_def unsized_def split: list.splits)
    ultimately show ?thesis ..
  qed simp
  then show "load_ecudata codec file' = load_ecudata codec file"
    "load_chunk_data codec file' ch = load_chunk_data codec file ch" by blast+
qed

section \<open>Rewriting keeps the data\<close>

lemma content_frame [simp]: "content_of (d\<lparr>clock := n\<rparr>) = content_of d"
  by (simp add: content_of_def fun_eq_iff)

lemma content_set_coll [simp]:
  "content_of (set_coll c al d) c' k = (if c' = c then map_of al k else content_of d c' k)"
  by (simp add: content_of_def)

lemma content_coll: "coll d c = Some al \<Longrightarrow> content_of d c k = map_of al k" "coll d c = None \<Longrightarrow> content_of d c k = None"
  by (simp_all add: content_of_def)

definition untouched :: "string \<Rightarrow> string set \<Rightarrow> disk \<Rightarrow> disk \<Rightarrow> bool" where
  "untouched c ks d d' \<longleftrightarrow> (\<forall>c' k. c' \<noteq> c \<or> k \<notin> ks \<longrightarrow> content_of d' c' k = content_of d c' k)"

text \<open>Each call on the temporary file changes that file at most.\<close>

lemma mutate_cases:
  assumes "mutate flt f d = (r, d')"
  obtains e where "r = Inl e" "content_of d' = content_of d"
  | "r = Inr ()" "f (d\<lparr>clock := Suc (clock d)\<rparr>) = Inr d'"
  using assms by (auto simp: mutate_def Let_def split: if_splits sum.splits)

lemma put_file_call:
  assumes "mutate flt (put_file c k x) d = (r, d')"
  shows "untouched c {k} d d'" "r = Inr () \<Longrightarrow> content_of d' c k = Some x"
  using assms by (auto elim!: mutate_cases simp: untouched_def put_file_def AList.update_conv' content_coll split: option.splits)

lemma remove_file_call:
  assumes "mutate flt (remove_file c k) d = (r, d')"
  shows "untouched c {k} d d'"
  using assms by (auto elim!: mutate_cases simp: untouched_def remove_file_def AList.delete_conv' content_coll
      file_exists_def split: option.splits if_splits)

lemma rename_file_call:
  assumes "mutate flt (rename_file c k k') d = (r, d')" "k \<noteq> k'"
  shows "untouched c {k, k'} d d'" "r = Inr () \<Longrightarrow> content_of d' c k' = content_of d c k \<and> content_of d' c k = None"
    "r \<noteq> Inr () \<Longrightarrow> content_of d' = content_of d"
  using assms by (auto elim!: mutate_cases simp: untouched_def rename_file_def AList.update_conv' AList.delete_conv'
      content_coll split: option.splits if_splits)

lemma tmp_neq [simp]: "append_extension key ext \<noteq> key" "key \<noteq> append_extension key ext"
  by (simp_all add: append_extension_def)

lemma replace_mdd_effect:
  assumes "replace_mdd flt codec c key out hashes d = (r, d')"
  shows "untouched c {key, append_extension key ''tmp''} d d'"
    and "r = Inr True \<Longrightarrow> content_of d' c key = Some out \<and> content_of d' c (append_extension key ''tmp'') = None"
    and "r \<noteq> Inr True \<Longrightarrow> content_of d' c key = content_of d c key"
proof -
  let ?tmp = "append_extension key ''tmp''"
  obtain q1 d1 where put: "mutate flt (put_file c ?tmp out) d = (q1, d1)" by (rule prod.exhaust)
  obtain q2 d2 where rename: "mutate flt (rename_file c ?tmp key) d1 = (q2, d2)" by (rule prod.exhaust)
  note calls = put_file_call[OF put] rename_file_call[OF rename tmp_neq(1)]
  have gone: "untouched c {?tmp} dd (snd (mutate flt (remove_file c ?tmp) dd))" for dd
    by (rule remove_file_call[OF prod.collapse[symmetric]])
  note defs = replace_mdd_def Let_def put rename
  show "untouched c {key, ?tmp} d d'"
    using assms calls gone[of d1] gone[of d2]
    by (auto simp: defs untouched_def split: sum.splits)
  show "content_of d' c key = Some out \<and> content_of d' c ?tmp = None" if "r = Inr True"
    using assms calls that by (auto simp: defs split: sum.splits)
  show "content_of d' c key = content_of d c key" if "r \<noteq> Inr True"
    using assms calls gone[of d1] gone[of d2] that
    by (auto simp: defs untouched_def split: sum.splits)
qed

lemma uncompressed_same_data:
  assumes "prost_roundtrip codec" "mmap_and_decode_mdd codec file = Inr mdd" "uncompressed_mdd codec mdd = Inr (mdd', out)"
  shows "same_data codec file (Some out)"
proof -
  obtain cs bs where cs: "decompress_chunks codec (mdd_chunks mdd) = Inr cs" and mdd': "mdd' = mdd\<lparr>mdd_chunks := cs\<rparr>"
    and bs: "proto_encode codec mdd' = Some bs" "out = file_magic_bytes @ bs"
    using assms(3) by (auto simp: uncompressed_mdd_def Let_def result_simps)
  have "proto_decode codec bs = Some mdd'" using assms(1) bs(1) unfolding prost_roundtrip_def by blast
  then have "mmap_and_decode_mdd codec (Some out) = Inr mdd'"
    by (simp add: mmap_and_decode_mdd_def bs(2) FILE_MAGIC_BYTES_LEN_def file_magic_bytes_def)
  then show ?thesis
    using assms(2) load_uncompressed[OF _ cs] mdd' unfolding same_data_def by fastforce
qed

lemma update_uncompressed_effect:
  assumes "prost_roundtrip codec" "update_mdd_uncompressed flt codec c key d = (r, d')"
  shows "same_data codec (content_of d c key) (content_of d' c key)"
    and "untouched c {key, append_extension key ''tmp''} d d'"
    and "r = Inr True \<Longrightarrow> content_of d' c (append_extension key ''tmp'') = None"
proof -
  let ?tmp = "append_extension key ''tmp''"
  have all: "same_data codec (content_of d c key) (content_of d' c key) \<and> untouched c {key, ?tmp} d d' \<and>
    (r = Inr True \<longrightarrow> content_of d' c ?tmp = None)"
  proof (cases "\<exists>mdd mdd' out. mmap_and_decode_mdd codec (content_of d c key) = Inr mdd \<and>
      uncompressed_mdd codec mdd = Inr (mdd', out) \<and>
      replace_mdd flt codec c key out (map (map_option (sha512 codec) \<circ> chunk_data) (mdd_chunks mdd')) d = (r, d')")
    case True
    then obtain mdd mdd' out where mdd: "mmap_and_decode_mdd codec (content_of d c key) = Inr mdd"
      "uncompressed_mdd codec mdd = Inr (mdd', out)"
      and rep: "replace_mdd flt codec c key out (map (map_option (sha512 codec) \<circ> chunk_data) (mdd_chunks mdd')) d = (r, d')"
      by blast
    show ?thesis
      using replace_mdd_effect[OF rep] uncompressed_same_data[OF assms(1) mdd]
      by (cases "r = Inr True") (auto simp: same_data_def)
  next
    case False
    then have "d' = d \<and> r \<noteq> Inr True"
      using assms(2) by (auto simp: update_mdd_uncompressed_def split: sum.splits if_splits)
    then show ?thesis by (simp add: same_data_def untouched_def)
  qed
  then show "same_data codec (content_of d c key) (content_of d' c key)" "untouched c {key, ?tmp} d d'"
    "r = Inr True \<Longrightarrow> content_of d' c ?tmp = None" by blast+
qed

text \<open>
  C37: Rewriting a description file with uncompressed chunks keeps what is loaded from it. Whatever
  calls of the file system fail on the way, afterwards the description and every chunk load from the
  file exactly as before, with the same errors, and no file but this one and its temporary companion
  has changed; after success the companion is gone. The codec is assumed to decode what it encodes.
\<close>

theorem rewritten_file_loads_same:
  assumes "prost_roundtrip codec" "update_mdd_uncompressed flt codec c key d = (r, d')"
  shows "load_ecudata codec (content_of d' c key) = load_ecudata codec (content_of d c key) \<and>
    (\<forall>ch. load_chunk_data codec (content_of d' c key) ch = load_chunk_data codec (content_of d c key) ch) \<and>
    (\<forall>c' k. c' \<noteq> c \<or> k \<noteq> key \<and> k \<noteq> append_extension key ''tmp'' \<longrightarrow> content_of d' c' k = content_of d c' k) \<and>
    (r = Inr True \<longrightarrow> content_of d' c (append_extension key ''tmp'') = None)"
  using update_uncompressed_effect[OF assms] same_data_loads unfolding untouched_def by blast

definition packed_chunk :: mdd_chunk where
  "packed_chunk = \<lparr>chunk_type_tag = 0, chunk_name = Some ''diag'', chunk_metadata = [], chunk_signatures = [],
     compression_algorithm = Some ''LZMA'', uncompressed_size = Some 2, chunk_encryption = None, mime_type = None,
     chunk_data = Some [7, 8]\<rparr>"

definition packed_file :: "mdd_chunk \<Rightarrow> mdd_file" where
  "packed_file p = \<lparr>mdd_version = ''1'', mdd_feature_flags = [], mdd_ecu_name = ''ECU'', mdd_revision = None,
     mdd_metadata = [], mdd_chunks = [p], mdd_signature = None\<rparr>"

definition unpacked_file :: mdd_file where
  "unpacked_file = packed_file (packed_chunk\<lparr>compression_algorithm := None, uncompressed_size := None,
     chunk_data := Some [8, 7]\<rparr>)"

definition small_codec :: mdd_codec where
  "small_codec = \<lparr>proto_decode = (\<lambda>bs. if bs = [1] then Some (packed_file packed_chunk)
       else if bs = [2] then Some unpacked_file else None),
     proto_encode = (\<lambda>f. if f = unpacked_file then Some [2] else None),
     lzma_decode = (\<lambda>bs. Some (rev bs)), sha512 = id\<rparr>"

definition packed_disk :: disk where
  "packed_disk = \<lparr>colls = [(''db'', [(''a.mdd'', file_magic_bytes @ [1])])], wal_file = None, staging = [], clock = 0\<rparr>"

lemma small_codec_roundtrip: "prost_roundtrip small_codec"
  by (simp add: prost_roundtrip_def small_codec_def)

theorem rewritten_file_loads_same_witness:
  "fst (update_mdd_uncompressed no_faults small_codec ''db'' ''a.mdd'' packed_disk) = Inr True \<and>
   load_ecudata small_codec (content_of (snd (update_mdd_uncompressed no_faults small_codec ''db'' ''a.mdd'' packed_disk))
     ''db'' ''a.mdd'') = Inr (''ECU'', [8, 7])"
proof -
  have "fst (update_mdd_uncompressed no_faults small_codec ''db'' ''a.mdd'' packed_disk) = Inr True"
    by code_simp
  moreover have "load_ecudata small_codec (content_of packed_disk ''db'' ''a.mdd'') = Inr (''ECU'', [8, 7])"
    by code_simp
  ultimately show ?thesis
    using rewritten_file_loads_same[OF small_codec_roundtrip prod.collapse[symmetric], of no_faults "''db''" "''a.mdd''" packed_disk]
    by simp
qed

text \<open>
  A chunk without data keeps its compression algorithm, so a file with such a chunk is rewritten again
  at every start.
\<close>

lemma dataless_chunk_stays_compressed:
  "decompress_chunks codec ps = Inr qs \<Longrightarrow> p \<in> set ps \<Longrightarrow> chunk_data p = None \<Longrightarrow> p \<in> set qs"
  by (induction ps arbitrary: qs) (auto simp: result_simps split: option.splits)

end
