(* ===== verification/Runtime_Update.thy ===== *)
theory Runtime_Update
  imports Storage_Live Mdd_File
begin

text \<open>
  The runtime update of the description files (\<open>cda-plugin-runtime-update\<close>): uploads, deletions and
  listings of the staged, current and backed-up files (\<open>storage.rs\<close>), and the operations apply,
  rollback and clean-up (\<open>operations.rs\<close>, \<open>operations/*.rs\<close>), all as transactions of the storage. The
  reloader of the application, the SHA-256 digest and fresh names of staged files are arguments. A path
  is a key of the collection it lies in.
\<close>

section \<open>Errors and sequencing\<close>

datatype runtime_update_error =
    StorageFailure storage_error
  | InvalidMddFile string
  | InvalidFileType string
  | ValidationFailed string
  | NoLock string
  | LockConflict string
  | OperationsInProgress string
  | NoPendingUpdate
  | NoBackup
  | UpdateTransactionBusy
  | ReloadFailed string
  | ExecutionConflict
  | FileNotFound string
  | FatalError string
  | SevereError string

definition from_storage_error :: "storage_error \<Rightarrow> runtime_update_error" where
  "from_storage_error e = (case e of TransactionBusy \<Rightarrow> UpdateTransactionBusy | _ \<Rightarrow> StorageFailure e)"

record update_env =
  up_faults :: faults
  up_crc :: checksum
  up_ser :: serialiser
  up_codec :: mdd_codec
  up_sha256 :: "byte list \<Rightarrow> byte list"
  up_reload :: "disk \<Rightarrow> string list \<Rightarrow> string + unit"

type_synonym 'a update_result = "runtime_update_error + 'a"
type_synonym 'a update = "storage \<Rightarrow> 'a update_result \<times> storage"
type_synonym tx_step = "storage \<Rightarrow> transaction \<Rightarrow> unit update_result \<times> storage \<times> transaction"

definition okU :: "'a \<Rightarrow> 'a update" where
  "okU x s = (Inr x, s)"

definition errU :: "runtime_update_error \<Rightarrow> 'a update" where
  "errU e s = (Inl e, s)"

definition bindU :: "'a update \<Rightarrow> ('a \<Rightarrow> 'b update) \<Rightarrow> 'b update" where
  "bindU m f s = (case m s of (Inl e, s') \<Rightarrow> (Inl e, s') | (Inr x, s') \<Rightarrow> f x s')"

definition askU :: "(storage \<Rightarrow> 'a update_result) \<Rightarrow> 'a update" where
  "askU q s = (q s, s)"

definition storeU :: "(storage \<Rightarrow> 'a storage_result \<times> storage) \<Rightarrow> 'a update" where
  "storeU m s = map_prod (map_sum from_storage_error id) id (m s)"

text \<open>Reads of a collection may rename a file to its normalised name.\<close>

definition ioU :: "'a io \<Rightarrow> 'a update" where
  "ioU m s = (case m (disk_of s) of (r, d') \<Rightarrow> (map_sum from_storage_error id r, s\<lparr>disk_of := d'\<rparr>))"

definition stepT :: "(storage \<Rightarrow> transaction \<Rightarrow> unit storage_result \<times> storage \<times> transaction) \<Rightarrow> tx_step" where
  "stepT m s tx = map_prod (map_sum from_storage_error id) id (m s tx)"

definition thenT :: "tx_step \<Rightarrow> tx_step \<Rightarrow> tx_step" where
  "thenT a b s tx = (case a s tx of (Inl e, s', tx') \<Rightarrow> (Inl e, s', tx') | (Inr _, s', tx') \<Rightarrow> b s' tx')"

text \<open>
  \<open>begin_transaction()?\<close>, the steps with \<open>?\<close>, \<open>commit().await?\<close>. An error of a step drops the
  transaction, which discards it.
\<close>

definition transact :: "'z update_env_scheme \<Rightarrow> tx_step \<Rightarrow> unit update" where
  "transact env body = bindU (storeU (begin_transaction (up_faults env) (up_crc env))) (\<lambda>tx s.
     case body s tx of
       (Inl e, s', tx') \<Rightarrow> (Inl e, drop_transaction (up_faults env) s' tx')
     | (Inr _, s', tx') \<Rightarrow> storeU (\<lambda>s. commit (up_faults env) (up_crc env) s tx') s')"

definition collection_of :: "'z update_env_scheme \<Rightarrow> collection_name \<Rightarrow> string update" where
  "collection_of env name = storeU (get_or_create_collection (up_faults env) name)"

section \<open>Operations\<close>

definition missing_ok :: "unit storage_result \<Rightarrow> unit storage_result" where
  "missing_ok r = (case r of Inl (CollectionNotFound _) \<Rightarrow> Inr () | _ \<Rightarrow> r)"

definition try_get_collection :: "collection_name \<Rightarrow> string option update" where
  "try_get_collection name = askU (\<lambda>s. case get_collection name s of
      Inr col \<Rightarrow> Inr (Some col)
    | Inl (CollectionNotFound _) \<Rightarrow> Inr None
    | Inl e \<Rightarrow> Inl (from_storage_error e))"

definition delete_collection_ignore_missing :: "'z update_env_scheme \<Rightarrow> collection_name \<Rightarrow> tx_step" where
  "delete_collection_ignore_missing env name = stepT (\<lambda>s tx.
     map_prod missing_ok id (delete_collection (up_faults env) (up_crc env) (up_ser env) name s tx))"

text \<open>Keys whose path cannot be resolved are skipped.\<close>

fun resolve_paths :: "faults \<Rightarrow> string \<Rightarrow> string list \<Rightarrow> disk \<Rightarrow> string list \<times> disk" where
  "resolve_paths flt col [] d = ([], d)"
| "resolve_paths flt col (key # keys) d = (case file_path flt col key d of
      (Inl e, d') \<Rightarrow> resolve_paths flt col keys d'
    | (Inr p, d') \<Rightarrow> map_prod (\<lambda>ps. p # ps) id (resolve_paths flt col keys d'))"

definition decompress_paths :: "'z update_env_scheme \<Rightarrow> string \<Rightarrow> string list \<Rightarrow> disk \<Rightarrow> disk" where
  "decompress_paths env col paths d =
     fold (\<lambda>p d. snd (update_mdd_uncompressed (up_faults env) (up_codec env) col p d)) paths d"

definition reload_database_if_present :: "'z update_env_scheme \<Rightarrow> bool \<Rightarrow> unit update" where
  "reload_database_if_present env decompress =
     bindU (collection_of env DiagnosticDatabase) (\<lambda>col s.
       let keys = (case list_keys (disk_of s) col of Inl _ \<Rightarrow> [] | Inr ks \<Rightarrow> ks);
           (mdd_paths, d1) = resolve_paths (up_faults env) col keys (disk_of s);
           d2 = (if decompress then decompress_paths env col mdd_paths d1 else d1)
       in (map_sum ReloadFailed id (up_reload env d2 mdd_paths), s\<lparr>disk_of := d2\<rparr>))"

definition copy_step :: "'z update_env_scheme \<Rightarrow> collection_name \<Rightarrow> collection_name \<Rightarrow> tx_step" where
  "copy_step env src dest = stepT (copy_collection (up_faults env) (up_crc env) (up_ser env) src dest)"

definition delete_all_step :: "'z update_env_scheme \<Rightarrow> collection_name \<Rightarrow> tx_step" where
  "delete_all_step env name = stepT (delete_all (up_faults env) (up_crc env) (up_ser env) name)"

definition swap_collection ::
  "'z update_env_scheme \<Rightarrow> collection_name \<Rightarrow> collection_name \<Rightarrow> collection_name \<Rightarrow> tx_step" where
  "swap_collection env current backup next_update =
     thenT (copy_step env current backup)
       (thenT (copy_step env next_update current)
         (stepT (delete_collection (up_faults env) (up_crc env) (up_ser env) next_update)))"

definition execute_apply :: "'z update_env_scheme \<Rightarrow> bool \<Rightarrow> unit update" where
  "execute_apply env mdd_decompress =
     bindU (try_get_collection DiagnosticDatabaseNextUpdate) (\<lambda>mdd_next.
       if mdd_next = None then errU NoPendingUpdate
       else bindU (collection_of env DiagnosticDatabase) (\<lambda>_.
         bindU (collection_of env DiagnosticDatabaseBackup) (\<lambda>_.
           bindU (transact env (swap_collection env DiagnosticDatabase DiagnosticDatabaseBackup
               DiagnosticDatabaseNextUpdate)) (\<lambda>_.
             reload_database_if_present env mdd_decompress))))"

definition restore_from_backup ::
  "'z update_env_scheme \<Rightarrow> collection_name \<Rightarrow> collection_name \<Rightarrow> collection_name \<Rightarrow> tx_step" where
  "restore_from_backup env backup current next_update =
     thenT (copy_step env backup current)
       (thenT (delete_collection_ignore_missing env next_update) (delete_all_step env backup))"

definition execute_rollback :: "'z update_env_scheme \<Rightarrow> unit update" where
  "execute_rollback env =
     bindU (collection_of env DiagnosticDatabaseBackup) (\<lambda>mdd_backup_col.
       bindU (askU (\<lambda>s. map_sum from_storage_error id (collection_is_empty (disk_of s) mdd_backup_col))) (\<lambda>mdd_backup_empty.
         if mdd_backup_empty then errU NoBackup
         else bindU (transact env (restore_from_backup env DiagnosticDatabaseBackup DiagnosticDatabase
             DiagnosticDatabaseNextUpdate)) (\<lambda>_.
           reload_database_if_present env False)))"

definition execute_cleanup :: "'z update_env_scheme \<Rightarrow> unit update" where
  "execute_cleanup env =
     bindU (collection_of env DiagnosticDatabaseBackup) (\<lambda>_.
       transact env (thenT (delete_collection_ignore_missing env DiagnosticDatabaseNextUpdate)
         (delete_all_step env DiagnosticDatabaseBackup)))"

end
