(* ===== verification/Update_Correct.thy ===== *)
theory Update_Correct
  imports Runtime_Update
begin

text \<open>
  Correctness of apply, rollback and clean-up: as transactions of the storage without faults they
  have exactly the effect on the collections that an update promises.
\<close>

section \<open>Transactions of the plugin\<close>

abbreviation current_db :: string where "current_db \<equiv> as_str DiagnosticDatabase"
abbreviation next_db :: string where "next_db \<equiv> as_str DiagnosticDatabaseNextUpdate"
abbreviation backup_db :: string where "backup_db \<equiv> as_str DiagnosticDatabaseBackup"

text \<open>Operations serialise to payloads that an entry of the log can hold.\<close>

definition serialises :: "serialiser \<Rightarrow> bool" where
  "serialises ser \<longleftrightarrow> (\<forall>x. \<exists>p. ser x = Inr p \<and> length p \<le> u32_max)"

definition idle :: "storage \<Rightarrow> bool" where
  "idle s \<longleftrightarrow> \<not> tx_active s \<and> staging (disk_of s) = []"

definition open_tx :: "'z update_env_scheme \<Rightarrow> files \<Rightarrow> storage \<Rightarrow> transaction \<Rightarrow> bool" where
  "open_tx env F s tx \<longleftrightarrow> logged (up_crc env) (up_ser env) s tx \<and> fs (disk_of s) = F \<and>
     staging (disk_of s) = [] \<and> \<not> committed tx"

text \<open>A body that records the given operations, whatever was recorded before.\<close>

definition logs :: "'z update_env_scheme \<Rightarrow> files \<Rightarrow> tx_step \<Rightarrow> operation list \<Rightarrow> bool" where
  "logs env F body opers \<longleftrightarrow> (\<forall>s tx. open_tx env F s tx \<longrightarrow>
     (\<exists>s' tx'. body s tx = (Inr (), s', tx') \<and> open_tx env F s' tx' \<and> tx_operations tx' = tx_operations tx @ opers))"

lemma logs_then: "logs env F a xs \<Longrightarrow> logs env F b ys \<Longrightarrow> logs env F (thenT a b) (xs @ ys)"
  unfolding logs_def thenT_def by (fastforce split: prod.splits sum.splits)

lemma log_operation_ok:
  assumes "serialises ser" "logged crc ser s tx"
  shows "\<exists>s'. log_operation no_faults crc ser oper s tx = (Inr (), s', tx_record oper tx) \<and>
    logged crc ser s' (tx_record oper tx) \<and> fs (disk_of s') = fs (disk_of s) \<and> staging (disk_of s') = staging (disk_of s)"
proof -
  obtain p where p: "ser oper = Inr p" "length p \<le> u32_max" using assms(1) unfolding serialises_def by blast
  obtain wal where w: "wal_file (disk_of s) = Some wal" using assms(2) by (auto simp: logged_def split: option.splits)
  have "\<exists>s'. log_operation no_faults crc ser oper s tx = (Inr (), s', tx_record oper tx)"
    using p w by (simp add: log_operation_def mutate_def no_faults_def append_operation_def write_wal_def Let_def)
  then show ?thesis
    using log_operation_cases[OF assms(2), of no_faults oper] by (metis Inl_Inr_False prod.inject storage.select_convs(1)
        storage.surjective storage.update_convs(1))
qed

lemma logs_operation:
  assumes "up_faults env = no_faults" "serialises (up_ser env)"
    and "\<And>s tx. fs (disk_of s) = F \<Longrightarrow> m s tx = log_operation no_faults (up_crc env) (up_ser env) oper s tx"
  shows "logs env F (stepT m) [oper]"
  unfolding logs_def
proof (intro allI impI)
  fix s tx assume o: "open_tx env F s tx"
  then have "logged (up_crc env) (up_ser env) s tx" and F: "fs (disk_of s) = F" by (simp_all add: open_tx_def)
  from log_operation_ok[OF assms(2) this(1), of oper] assms(3)[OF F] o
  show "\<exists>s' tx'. stepT m s tx = (Inr (), s', tx') \<and> open_tx env F s' tx' \<and> tx_operations tx' = tx_operations tx @ [oper]"
    by (auto simp: stepT_def open_tx_def tx_record_def)
qed

lemma sane_names [simp]: "sanitize_path_segment current_db = Inr ()" "sanitize_path_segment next_db = Inr ()"
  "sanitize_path_segment backup_db = Inr ()"
  by code_simp+

lemma clean_names [simp]: "clean_name current_db" "clean_name next_db" "clean_name backup_db"
  by code_simp+

definition update_collection :: "collection_name \<Rightarrow> bool" where
  "update_collection n \<longleftrightarrow> n \<in> {DiagnosticDatabase, DiagnosticDatabaseNextUpdate, DiagnosticDatabaseBackup}"

lemma update_collection_sane: "update_collection n \<Longrightarrow> sanitize_path_segment (as_str n) = Inr ()"
  using sane_names by (auto simp: update_collection_def)

lemma logs_copy:
  assumes "up_faults env = no_faults" "serialises (up_ser env)" "update_collection src" "update_collection dest"
    and "F (as_str src) \<noteq> None"
  shows "logs env F (copy_step env src dest) [CopyCollection src dest (F (as_str dest) \<noteq> None)]"
  unfolding copy_step_def
  by (rule logs_operation) (use assms update_collection_sane in \<open>auto simp: copy_collection_def dir_exists_fs\<close>)

lemma logs_delete_all:
  assumes "up_faults env = no_faults" "serialises (up_ser env)"
  shows "logs env F (delete_all_step env n) [DeleteAll n]"
  unfolding delete_all_step_def by (rule logs_operation) (use assms in \<open>auto simp: delete_all_def\<close>)

lemma logs_delete:
  assumes "up_faults env = no_faults" "serialises (up_ser env)" "update_collection n" "F (as_str n) \<noteq> None"
  shows "logs env F (stepT (delete_collection (up_faults env) (up_crc env) (up_ser env) n)) [DeleteCollection n]"
  by (rule logs_operation) (use assms update_collection_sane in \<open>auto simp: delete_collection_def dir_exists_fs\<close>)

lemma logs_missing_ok:
  assumes "logs env F (stepT m) opers"
  shows "logs env F (stepT (\<lambda>s tx. map_prod missing_ok id (m s tx))) opers"
  unfolding logs_def
proof (intro allI impI)
  fix s tx assume o: "open_tx env F s tx"
  obtain r s' tx' where m: "m s tx = (r, s', tx')" by (rule prod_cases3)
  with o assms have run: "map_sum from_storage_error id r = Inr ()" "open_tx env F s' tx'" "tx_operations tx' = tx_operations tx @ opers"
    unfolding logs_def stepT_def by fastforce+
  then have "r = Inr ()" by (cases r) simp_all
  then show "\<exists>s' tx'. stepT (\<lambda>s tx. map_prod missing_ok id (m s tx)) s tx = (Inr (), s', tx') \<and>
      open_tx env F s' tx' \<and> tx_operations tx' = tx_operations tx @ opers"
    using m run by (simp add: stepT_def missing_ok_def)
qed

lemma logs_delete_missing:
  assumes "up_faults env = no_faults" "serialises (up_ser env)" "update_collection n"
  shows "logs env F (delete_collection_ignore_missing env n) (if F (as_str n) = None then [] else [DeleteCollection n])"
proof (cases "F (as_str n)")
  case None
  then show ?thesis using update_collection_sane[OF assms(3)]
    by (auto simp: logs_def open_tx_def delete_collection_ignore_missing_def stepT_def delete_collection_def
        dir_exists_fs missing_ok_def)
next
  case (Some m)
  then show ?thesis
    using logs_missing_ok[OF logs_delete[OF assms, of F]] by (simp add: delete_collection_ignore_missing_def)
qed

text \<open>A short log has a length that a read of it can represent.\<close>

lemma entries_bounded:
  "list_all2 (serialised ser) opers ps \<Longrightarrow> length (entries crc ps) \<le> length opers * (8 + u32_max)"
  by (induction rule: list_all2_induct) (auto simp: serialised_def entries_def)

lemma logged_short:
  assumes "logged crc ser s tx" "length (tx_operations tx) \<le> 3" "wal_file (disk_of s) = Some wal"
  shows "length wal \<le> usize_max"
proof -
  obtain ps where "list_all2 (serialised ser) (tx_operations tx) ps" "wal = create_wal crc @ entries crc ps"
    using assms(1,3) by (auto simp: logged_def append_all_Inr)
  moreover have "length (tx_operations tx) * (8 + u32_max) \<le> 3 * (8 + u32_max)" by (rule mult_le_mono1[OF assms(2)])
  ultimately have "length wal \<le> length (create_wal crc) + 3 * (8 + u32_max)"
    using entries_bounded[of ser "tx_operations tx" ps crc] by simp
  then show ?thesis by (simp add: create_wal_def u32_max_def usize_max_def)
qed

lemma begin_opens:
  assumes "up_faults env = no_faults" "idle s"
  shows "\<exists>s1. begin_transaction (up_faults env) (up_crc env) s = (Inr transaction_new, s1) \<and>
    open_tx env (fs (disk_of s)) s1 transaction_new"
  using assms by (auto simp: begin_transaction_def thenIO_def bindIO_def idle_def mutate_def no_faults_def write_wal_def Let_def open_tx_def
      logged_def transaction_new_def append_all_def)

lemma transact_runs:
  assumes env: "up_faults env = no_faults" and "idle s" "clean_files (fs (disk_of s))"
    and body: "logs env (fs (disk_of s)) body opers" and "valid_tx (fs (disk_of s)) opers"
    and "sources_ok Map.empty Map.empty (fs (disk_of s)) opers" "length opers \<le> 3"
  shows "\<exists>s'. transact env body s = (Inr (), s') \<and> fs (disk_of s') = spec_ops Map.empty opers (fs (disk_of s)) \<and> idle s'"
proof -
  let ?F = "fs (disk_of s)"
  obtain s1 where s1: "begin_transaction (up_faults env) (up_crc env) s = (Inr transaction_new, s1)"
    "open_tx env ?F s1 transaction_new" using begin_opens[OF env assms(2)] by blast
  from body s1(2) obtain s2 tx2 where s2: "body s1 transaction_new = (Inr (), s2, tx2)" "open_tx env ?F s2 tx2"
    "tx_operations tx2 = opers" unfolding logs_def by (fastforce simp: transaction_new_def)
  then obtain wal where wal: "wal_file (disk_of s2) = Some wal" by (auto simp: open_tx_def logged_def split: option.splits)
  have "tx_ready (up_crc env) (up_ser env) (tx_operations tx2) (disk_of s2)"
    using s2 assms wal logged_short[of _ _ s2 tx2 wal] by (auto simp: tx_ready_def open_tx_def logged_def)
  moreover have "staging (disk_of s2) = []" "fs (disk_of s2) = ?F" using s2(2) by (simp_all add: open_tx_def)
  ultimately obtain s3 where s3: "commit no_faults (up_crc env) s2 tx2 = (Inr (), s3)"
    "fs (disk_of s3) = spec_ops Map.empty opers ?F" "idle s3"
    using commit_completes[of "up_crc env" "up_ser env" tx2 s2] commit_ends[of "up_crc env" "up_ser env" tx2 s2] assms(6) s2(3)
    by (fastforce simp: idle_def)
  then show ?thesis
    using s1(1) s2(1) env by (simp add: transact_def bindU_def storeU_def)
qed

lemma collection_of_ok:
  assumes "up_faults env = no_faults" "idle s" "update_collection n"
  shows "\<exists>s'. collection_of env n s = (Inr (as_str n), s') \<and> idle s' \<and>
    fs (disk_of s') = (fs (disk_of s))(as_str n \<mapsto> or_empty (fs (disk_of s) (as_str n)))"
proof (cases "fs (disk_of s) (as_str n)")
  case (Some m)
  then show ?thesis using assms update_collection_sane[OF assms(3)]
    by (auto simp: collection_of_def storeU_def get_or_create_collection_def dir_exists_fs or_empty_def)
next
  case None
  then show ?thesis using assms update_collection_sane[OF assms(3)]
    by (auto simp: collection_of_def storeU_def get_or_create_collection_def dir_exists_fs or_empty_def idle_def
        mutate_def no_faults_def create_dir_def Let_def)
qed

section \<open>Reloading\<close>

lemma content_of_fs: "content_of d c k = Option.bind (fs d c) (\<lambda>m. m k)"
  by (cases "coll d c") (simp_all add: content_of_def fs_def)

lemma put_file_ok:
  assumes "fs d c = Some m"
  shows "\<exists>d'. put_file c k x d = Inr d' \<and> fs d' = (fs d)(c \<mapsto> m(k \<mapsto> x)) \<and> staging d' = staging d"
  using assms by (auto simp: put_file_def AList.update_conv' elim!: fs_SomeE)

text \<open>Without faults a rewrite keeps the names of the files.\<close>

lemma replace_mdd_fs:
  assumes "fs d c = Some m" "m (append_extension key ''tmp'') = None" "m key \<noteq> None"
    and "replace_mdd no_faults codec c key out hashes d = (r, d')"
  shows "\<exists>m'. fs d' = (fs d)(c \<mapsto> m') \<and> dom m' = dom m \<and> staging d' = staging d"
proof -
  let ?tmp = "append_extension key ''tmp''"
  obtain d1 where d1: "mutate no_faults (put_file c ?tmp out) d = (Inr (), d1)"
    "fs d1 = (fs d)(c \<mapsto> m(?tmp \<mapsto> out))" "staging d1 = staging d"
    using put_file_ok[of "d\<lparr>clock := Suc (clock d)\<rparr>" c m ?tmp out] assms(1) mutate_ok[of "put_file c ?tmp out"] by fastforce
  have m1: "fs d1 c = Some (m(?tmp \<mapsto> out))" by (simp add: d1)
  obtain d2 where d2: "mutate no_faults (rename_file c ?tmp key) d1 = (Inr (), d2)"
    "fs d2 = (fs d1)(c \<mapsto> (m(?tmp \<mapsto> out))(?tmp := None, key \<mapsto> out))" "staging d2 = staging d1"
    using rename_file_ok[of "d1\<lparr>clock := Suc (clock d1)\<rparr>" c "m(?tmp \<mapsto> out)" ?tmp out key] m1
      mutate_ok[of "rename_file c ?tmp key"] by fastforce
  obtain d3 where d3: "mutate no_faults (remove_file c ?tmp) d1 = (Inr (), d3)"
    "fs d3 = (fs d1)(c \<mapsto> (m(?tmp \<mapsto> out))(?tmp := None))" "staging d3 = staging d1"
    using remove_file_ok[of "d1\<lparr>clock := Suc (clock d1)\<rparr>" c "m(?tmp \<mapsto> out)" ?tmp] m1
      mutate_ok[of "remove_file c ?tmp"] by fastforce
  have "d' = d2 \<or> d' = d3"
    using assms(4) d1(1) d2(1) d3(1) by (auto simp: replace_mdd_def Let_def split: sum.splits)
  moreover have "dom ((m(?tmp \<mapsto> out))(?tmp := None, key \<mapsto> out)) = dom m" "dom ((m(?tmp \<mapsto> out))(?tmp := None)) = dom m"
    using assms(2,3) by (auto simp: dom_def)
  ultimately show ?thesis using d1 d2 d3 by (metis fun_upd_upd)
qed

lemma update_uncompressed_fs:
  assumes "fs d c = Some m" "m (append_extension key ''tmp'') = None"
    and "update_mdd_uncompressed no_faults codec c key d = (r, d')"
  shows "\<exists>m'. fs d' = (fs d)(c \<mapsto> m') \<and> dom m' = dom m \<and> staging d' = staging d"
proof (cases "d' = d")
  case True
  then show ?thesis using assms(1) by (intro exI[of _ m]) auto
next
  case False
  then obtain mdd where "mmap_and_decode_mdd codec (content_of d c key) = Inr mdd"
    and rep: "\<exists>out hashes. replace_mdd no_faults codec c key out hashes d = (r, d')"
    using assms(3) by (auto simp: update_mdd_uncompressed_def split: sum.splits if_splits)
  then have "m key \<noteq> None"
    using assms(1) by (auto simp: mmap_and_decode_mdd_def content_of_fs result_simps)
  then show ?thesis using rep replace_mdd_fs[OF assms(1,2)] by blast
qed

lemma is_tmp_companion: "p \<noteq> [] \<Longrightarrow> is_tmp (append_extension p ''tmp'')"
  by (simp add: is_tmp_def extension_def append_extension_def split_last_dot_append)

lemma decompress_paths_keeps:
  assumes "up_faults env = no_faults" "prost_roundtrip (up_codec env)"
  shows "[] \<notin> set paths \<Longrightarrow> fs d c = Some m \<Longrightarrow> (\<forall>k \<in> dom m. \<not> is_tmp k) \<Longrightarrow>
    \<exists>m'. fs (decompress_paths env c paths d) = (fs d)(c \<mapsto> m') \<and> dom m' = dom m \<and>
      staging (decompress_paths env c paths d) = staging d \<and>
      (\<forall>k. \<not> is_tmp k \<longrightarrow> load_ecudata (up_codec env) (m' k) = load_ecudata (up_codec env) (m k))"
proof (induction paths arbitrary: d m)
  case Nil
  then show ?case by (intro exI[of _ m]) (auto simp: decompress_paths_def)
next
  case (Cons p paths)
  obtain r d1 where up: "update_mdd_uncompressed no_faults (up_codec env) c p d = (r, d1)" by (rule prod.exhaust)
  have tmp: "is_tmp (append_extension p ''tmp'')" using Cons.prems(1) is_tmp_companion[of p] by auto
  then have "m (append_extension p ''tmp'') = None" using Cons.prems(3) by auto
  from update_uncompressed_fs[OF Cons.prems(2) this up] obtain m1 where m1: "fs d1 = (fs d)(c \<mapsto> m1)" "dom m1 = dom m"
    "staging d1 = staging d" by blast
  have "load_ecudata (up_codec env) (m1 k) = load_ecudata (up_codec env) (m k)" if "\<not> is_tmp k" for k
  proof (cases "k = p")
    case True
    then show ?thesis
      using same_data_loads(1)[OF update_uncompressed_effect(1)[OF assms(2) up]] Cons.prems(2) m1(1)
      by (simp add: content_of_fs)
  next
    case False
    moreover have "k \<noteq> append_extension p ''tmp''" using that tmp by auto
    ultimately have "content_of d1 c k = content_of d c k"
      using update_uncompressed_effect(2)[OF assms(2) up] by (simp add: untouched_def)
    then show ?thesis using Cons.prems(2) m1(1) by (simp add: content_of_fs)
  qed
  moreover obtain m2 where "fs (decompress_paths env c paths d1) = (fs d1)(c \<mapsto> m2)" "dom m2 = dom m1"
    "staging (decompress_paths env c paths d1) = staging d1"
    "\<forall>k. \<not> is_tmp k \<longrightarrow> load_ecudata (up_codec env) (m2 k) = load_ecudata (up_codec env) (m1 k)"
  proof -
    have "[] \<notin> set paths" "fs d1 c = Some m1" "\<forall>k \<in> dom m1. \<not> is_tmp k" using Cons.prems m1 by simp_all
    from Cons.IH[OF this] that show thesis by blast
  qed
  moreover have "decompress_paths env c (p # paths) d = decompress_paths env c paths d1"
    using up assms(1) by (simp add: decompress_paths_def)
  ultimately show ?case using m1 by auto
qed

lemma resolve_paths_id:
  "normalized_files (fs d) \<Longrightarrow> (\<forall>k \<in> set keys. normalize_key k = k) \<Longrightarrow>
   snd (resolve_paths flt c keys d) = d \<and> [] \<notin> set (fst (resolve_paths flt c keys d))"
proof (induction keys)
  case (Cons k keys)
  then have "snd (file_path flt c k d) = d"
    using ensure_noop[of d k flt c] by (simp add: file_path_def Let_def split: sum.split)
  moreover have "fst (file_path flt c k d) = Inr p \<Longrightarrow> p \<noteq> []" for p
    using Cons.prems(2) by (auto simp: file_path_def Let_def sanitize_path_segment_def split: if_splits)
  ultimately show ?case
    using Cons by (cases "file_path flt c k d"; cases "fst (file_path flt c k d)") (auto simp: case_prod_beta)
qed simp

lemma list_keys_normalized: "k \<in> set (list_keys_in_dir d c) \<Longrightarrow> normalize_key k = k"
  by (auto simp: list_keys_in_dir_def split: option.splits)

text \<open>A storage between transactions, its files with the names that the storage gives them.\<close>

definition update_ready :: "'z update_env_scheme \<Rightarrow> storage \<Rightarrow> bool" where
  "update_ready env s \<longleftrightarrow> up_faults env = no_faults \<and> serialises (up_ser env) \<and> prost_roundtrip (up_codec env) \<and>
     idle s \<and> clean_files (fs (disk_of s)) \<and> normalized_files (fs (disk_of s))"

lemma same_names_ready:
  assumes "update_ready env s" "idle s'"
    and "\<And>c m k. fs (disk_of s') c = Some m \<Longrightarrow> clean_name c \<and>
      (m k \<noteq> None \<longrightarrow> (\<exists>c' m'. fs (disk_of s) c' = Some m' \<and> m' k \<noteq> None))"
  shows "update_ready env s'"
proof -
  have old: "clean_name k \<and> \<not> is_tmp k \<and> normalize_key k = k" if "fs (disk_of s) c' = Some m'" "m' k \<noteq> None" for c' m' k
    using that assms(1) unfolding update_ready_def clean_files_def normalized_files_def by blast
  have new: "clean_name k \<and> \<not> is_tmp k \<and> normalize_key k = k" if "fs (disk_of s') c = Some m" "m k \<noteq> None" for c m k
    using assms(3)[OF that(1), of k] that(2) old by blast
  have "clean_files (fs (disk_of s'))"
    unfolding clean_files_def using assms(3) new by (metis domIff)
  moreover have "normalized_files (fs (disk_of s'))" unfolding normalized_files_def using new by blast
  ultimately show ?thesis using assms(1,2) by (simp add: update_ready_def)
qed

lemma reload_effect:
  assumes "update_ready env s" "fs (disk_of s) current_db = Some m" "reload_database_if_present env decompress s = (r, s')"
  shows "\<exists>m'. fs (disk_of s') = (fs (disk_of s))(current_db \<mapsto> m') \<and> dom m' = dom m \<and> idle s' \<and>
    (\<not> decompress \<longrightarrow> m' = m) \<and>
    (\<forall>k. \<not> is_tmp k \<longrightarrow> load_ecudata (up_codec env) (m' k) = load_ecudata (up_codec env) (m k)) \<and>
    (\<forall>e. r = Inl e \<longrightarrow> (\<exists>t. e = ReloadFailed t))"
proof -
  let ?keys = "list_keys_in_dir (disk_of s) current_db"
  let ?paths = "fst (resolve_paths (up_faults env) current_db ?keys (disk_of s))"
  have clean: "\<forall>k \<in> dom m. \<not> is_tmp k" using assms(1,2) by (auto simp: update_ready_def clean_files_def)
  have "collection_of env DiagnosticDatabase s = (Inr current_db, s)"
    using assms(2) sane_names(1) by (simp add: collection_of_def storeU_def get_or_create_collection_def dir_exists_fs)
  moreover have "snd (resolve_paths (up_faults env) current_db ?keys (disk_of s)) = disk_of s" and paths: "[] \<notin> set ?paths"
    using resolve_paths_id[of "disk_of s" ?keys] assms(1) list_keys_normalized by (auto simp: update_ready_def)
  ultimately have s': "s' = s\<lparr>disk_of := if decompress then decompress_paths env current_db ?paths (disk_of s) else disk_of s\<rparr>"
    and r: "\<exists>q. r = map_sum ReloadFailed id q"
    using assms(3) by (auto simp: reload_database_if_present_def bindU_def list_keys_def Let_def case_prod_beta)
  obtain q where "r = map_sum ReloadFailed id q" using r by blast
  then have err: "\<forall>e. r = Inl e \<longrightarrow> (\<exists>t. e = ReloadFailed t)" by (cases q) simp_all
  show ?thesis
  proof (cases decompress)
    case True
    obtain m' where "fs (decompress_paths env current_db ?paths (disk_of s)) = (fs (disk_of s))(current_db \<mapsto> m')" "dom m' = dom m"
      "staging (decompress_paths env current_db ?paths (disk_of s)) = staging (disk_of s)"
      "\<forall>k. \<not> is_tmp k \<longrightarrow> load_ecudata (up_codec env) (m' k) = load_ecudata (up_codec env) (m k)"
      using decompress_paths_keeps[OF _ _ paths assms(2) clean] assms(1) unfolding update_ready_def by blast
    then show ?thesis using s' True err assms(1) by (intro exI[of _ m']) (auto simp: update_ready_def idle_def)
  next
    case False
    then show ?thesis using s' err assms(1,2) by (intro exI[of _ m]) (auto simp: update_ready_def)
  qed
qed

section \<open>Apply, rollback and clean-up\<close>

lemma clean_collections:
  "clean_files F \<Longrightarrow> F c = Some m \<Longrightarrow> clean_name c"
  by (auto simp: clean_files_def)

lemma reload_ready:
  assumes "update_ready env s" "fs (disk_of s) current_db = Some m"
    and "fs (disk_of s') = (fs (disk_of s))(current_db \<mapsto> m')" "dom m' = dom m" "idle s'"
  shows "update_ready env s'"
proof (rule same_names_ready[OF assms(1,5)])
  fix c n k assume c: "fs (disk_of s') c = Some n"
  show "clean_name c \<and> (n k \<noteq> None \<longrightarrow> (\<exists>c' m'. fs (disk_of s) c' = Some m' \<and> m' k \<noteq> None))"
  proof (cases "c = current_db")
    case True
    then have "n = m'" using c assms(3) by simp
    then have "n k \<noteq> None \<longrightarrow> m k \<noteq> None" using assms(4) by auto
    then show ?thesis using True clean_names(1) assms(2) by blast
  next
    case False
    then have "fs (disk_of s) c = Some n" using c assms(3) by simp
    then show ?thesis using assms(1) clean_collections unfolding update_ready_def by blast
  qed
qed

lemma collection_prepared:
  assumes "update_ready env s" "update_collection n"
  shows "\<exists>s'. collection_of env n s = (Inr (as_str n), s') \<and> update_ready env s' \<and>
    fs (disk_of s') = (fs (disk_of s))(as_str n \<mapsto> or_empty (fs (disk_of s) (as_str n)))"
proof -
  obtain s' where s': "collection_of env n s = (Inr (as_str n), s')" "idle s'"
    "fs (disk_of s') = (fs (disk_of s))(as_str n \<mapsto> or_empty (fs (disk_of s) (as_str n)))"
    using collection_of_ok[OF _ _ assms(2), of env s] assms(1) unfolding update_ready_def by blast
  have "clean_name (as_str n)" using assms(2) clean_names by (auto simp: update_collection_def)
  then have "update_ready env s'"
    using s'(3) assms(1) clean_collections
    by (intro same_names_ready[OF assms(1) s'(2)])
      (auto simp: update_ready_def or_empty_def split: if_splits option.splits)
  then show ?thesis using s' by blast
qed

abbreviation swap_step :: "'z update_env_scheme \<Rightarrow> tx_step" where
  "swap_step env \<equiv> swap_collection env DiagnosticDatabase DiagnosticDatabaseBackup DiagnosticDatabaseNextUpdate"

lemma swap_runs:
  assumes "update_ready env s" "fs (disk_of s) next_db = Some new" "fs (disk_of s) current_db = Some old"
    and "fs (disk_of s) backup_db \<noteq> None"
  shows "\<exists>s'. transact env (swap_step env) s = (Inr (), s') \<and> update_ready env s' \<and>
    fs (disk_of s') = (fs (disk_of s))(next_db := None, backup_db \<mapsto> old, current_db \<mapsto> new)"
proof -
  let ?F = "fs (disk_of s)"
  note ready = assms(1)[unfolded update_ready_def]
  have names: "update_collection DiagnosticDatabase" "update_collection DiagnosticDatabaseBackup"
    "update_collection DiagnosticDatabaseNextUpdate" by (simp_all add: update_collection_def)
  let ?opers = "[CopyCollection DiagnosticDatabase DiagnosticDatabaseBackup True,
      CopyCollection DiagnosticDatabaseNextUpdate DiagnosticDatabase True, DeleteCollection DiagnosticDatabaseNextUpdate]"
  have "logs env ?F (swap_step env) ([CopyCollection DiagnosticDatabase DiagnosticDatabaseBackup (?F backup_db \<noteq> None)] @
      [CopyCollection DiagnosticDatabaseNextUpdate DiagnosticDatabase (?F current_db \<noteq> None)] @
      [DeleteCollection DiagnosticDatabaseNextUpdate])"
    unfolding swap_collection_def by (intro logs_then logs_copy logs_delete names) (use ready assms in auto)
  then have body: "logs env ?F (swap_step env) ?opers" using assms by simp
  have "valid_tx ?F ?opers" using assms clean_names by (simp add: valid_tx_def step_ok_def)
  moreover have "sources_ok Map.empty Map.empty ?F ?opers" using assms by simp
  ultimately obtain s' where s': "transact env (swap_step env) s = (Inr (), s')" "idle s'"
    "fs (disk_of s') = spec_ops Map.empty ?opers ?F"
    using transact_runs[OF _ _ _ body] ready by auto
  have "update_ready env s'"
    by (rule same_names_ready[OF assms(1) s'(2)])
      (use s'(3) assms ready clean_collections clean_names in \<open>auto simp: spec_ops_def split: if_splits\<close>)
  moreover have "spec_ops Map.empty ?opers ?F = ?F(next_db := None, backup_db \<mapsto> old, current_db \<mapsto> new)"
    using assms by (auto simp: spec_ops_def fun_eq_iff)
  ultimately show ?thesis using s' by metis
qed

lemma apply_pending:
  assumes "update_ready env s" "fs (disk_of s) next_db = Some new" "execute_apply env decompress s = (r, s')"
  shows "\<exists>m'. fs (disk_of s') = (fs (disk_of s))(next_db := None,
      backup_db \<mapsto> or_empty (fs (disk_of s) current_db), current_db \<mapsto> m') \<and>
    dom m' = dom new \<and> update_ready env s' \<and> (\<not> decompress \<longrightarrow> m' = new) \<and>
    (\<forall>k. \<not> is_tmp k \<longrightarrow> load_ecudata (up_codec env) (m' k) = load_ecudata (up_codec env) (new k)) \<and>
    (\<forall>e. r = Inl e \<longrightarrow> (\<exists>t. e = ReloadFailed t))"
proof -
  let ?old = "or_empty (fs (disk_of s) current_db)"
  have pending: "try_get_collection DiagnosticDatabaseNextUpdate s = (Inr (Some next_db), s)"
    using assms(2) sane_names(2) by (simp add: try_get_collection_def askU_def get_collection_def dir_exists_fs)
  obtain s1 where s1: "collection_of env DiagnosticDatabase s = (Inr current_db, s1)" "update_ready env s1"
    "fs (disk_of s1) = (fs (disk_of s))(current_db \<mapsto> ?old)"
    using collection_prepared[OF assms(1), of DiagnosticDatabase] by (auto simp: update_collection_def)
  obtain s2 where s2: "collection_of env DiagnosticDatabaseBackup s1 = (Inr backup_db, s2)" "update_ready env s2"
    "fs (disk_of s2) = (fs (disk_of s1))(backup_db \<mapsto> or_empty (fs (disk_of s1) backup_db))"
    using collection_prepared[OF s1(2), of DiagnosticDatabaseBackup] by (auto simp: update_collection_def)
  obtain s3 where s3: "transact env (swap_step env) s2 = (Inr (), s3)" "update_ready env s3"
    "fs (disk_of s3) = (fs (disk_of s2))(next_db := None, backup_db \<mapsto> ?old, current_db \<mapsto> new)"
    using swap_runs[OF s2(2), of new ?old] s1(3) s2(3) assms(2) by auto
  have fs3: "fs (disk_of s3) = (fs (disk_of s))(next_db := None, backup_db \<mapsto> ?old, current_db \<mapsto> new)"
    using s3(3) s1(3) s2(3) by (auto simp: fun_eq_iff)
  have reload: "reload_database_if_present env decompress s3 = (r, s')"
    using assms(3) pending s1(1) s2(1) s3(1) by (simp add: execute_apply_def bindU_def)
  have current: "fs (disk_of s3) current_db = Some new" unfolding fs3 by simp
  obtain m' where m': "fs (disk_of s') = (fs (disk_of s3))(current_db \<mapsto> m')" "dom m' = dom new" "idle s'"
    "\<not> decompress \<longrightarrow> m' = new" "\<forall>k. \<not> is_tmp k \<longrightarrow> load_ecudata (up_codec env) (m' k) = load_ecudata (up_codec env) (new k)"
    "\<forall>e. r = Inl e \<longrightarrow> (\<exists>t. e = ReloadFailed t)"
    using reload_effect[OF s3(2) current reload] by blast
  then show ?thesis using reload_ready[OF s3(2) current m'(1-3)] fs3 by (intro exI[of _ m']) simp
qed

lemma collection_empty_iff:
  assumes "clean_files (fs d)" "fs d c = Some m"
  shows "collection_is_empty d c = Inr (m = Map.empty)"
proof -
  obtain al where al: "coll d c = Some al" "m = map_of al" using assms(2) by (rule fs_SomeE)
  have "\<forall>k \<in> set (listing al). is_valid_key k"
    using assms al(2) by (auto simp: clean_files_def is_valid_key_def clean_name_def)
  then have "filter is_valid_key (listing al) = listing al" by simp
  moreover have "listing al = [] \<longleftrightarrow> m = Map.empty"
    using set_listing[of al] al(2) by (metis dom_eq_empty_conv set_empty)
  ultimately show ?thesis using al(1) by (simp add: collection_is_empty_def len_def list_keys_in_dir_def)
qed

lemma collection_of_existing:
  "update_collection n \<Longrightarrow> fs (disk_of s) (as_str n) \<noteq> None \<Longrightarrow> collection_of env n s = (Inr (as_str n), s)"
  using update_collection_sane by (simp add: collection_of_def storeU_def get_or_create_collection_def dir_exists_fs)

lemma rollback_empty:
  assumes "update_ready env s" "fs (disk_of s) backup_db = Some Map.empty"
  shows "execute_rollback env s = (Inl NoBackup, s)"
  using assms collection_empty_iff[of "disk_of s" backup_db] collection_of_existing[of DiagnosticDatabaseBackup s env]
  by (simp add: execute_rollback_def bindU_def askU_def errU_def update_ready_def update_collection_def)

lemma rollback_restores:
  assumes "update_ready env s" "fs (disk_of s) backup_db = Some old" "old \<noteq> Map.empty" "execute_rollback env s = (r, s')"
  shows "fs (disk_of s') = (fs (disk_of s))(next_db := None, current_db \<mapsto> old, backup_db \<mapsto> Map.empty) \<and> idle s' \<and>
    (\<forall>e. r = Inl e \<longrightarrow> (\<exists>t. e = ReloadFailed t))"
proof -
  note ready = assms(1)[unfolded update_ready_def]
  let ?F = "fs (disk_of s)"
  have names: "update_collection DiagnosticDatabase" "update_collection DiagnosticDatabaseBackup"
    "update_collection DiagnosticDatabaseNextUpdate" by (simp_all add: update_collection_def)
  let ?restore = "restore_from_backup env DiagnosticDatabaseBackup DiagnosticDatabase DiagnosticDatabaseNextUpdate"
  let ?opers = "[CopyCollection DiagnosticDatabaseBackup DiagnosticDatabase (?F current_db \<noteq> None)] @
      (if ?F next_db = None then [] else [DeleteCollection DiagnosticDatabaseNextUpdate]) @ [DeleteAll DiagnosticDatabaseBackup]"
  have body: "logs env ?F ?restore ?opers"
    unfolding restore_from_backup_def
    by (intro logs_then logs_copy logs_delete_missing logs_delete_all names) (use ready assms(2) in auto)
  have "valid_tx ?F ?opers" using clean_names by (simp add: valid_tx_def step_ok_def)
  moreover have "sources_ok Map.empty Map.empty ?F ?opers" "length ?opers \<le> 3" using assms(2) by simp_all
  ultimately obtain s1 where s1: "transact env ?restore s = (Inr (), s1)" "fs (disk_of s1) = spec_ops Map.empty ?opers ?F" "idle s1"
    using transact_runs[OF _ _ _ body] ready by blast
  have fs1: "fs (disk_of s1) = ?F(next_db := None, current_db \<mapsto> old, backup_db \<mapsto> Map.empty)"
    using s1(2) assms(2) by (auto simp: spec_ops_def fun_eq_iff)
  have ready1: "update_ready env s1"
  proof (rule same_names_ready[OF assms(1) s1(3)])
    fix c m k assume c: "fs (disk_of s1) c = Some m"
    show "clean_name c \<and> (m k \<noteq> None \<longrightarrow> (\<exists>c' m'. ?F c' = Some m' \<and> m' k \<noteq> None))"
    proof (cases "c = current_db")
      case True
      then have "m = old" using c unfolding fs1 by simp
      then show ?thesis using True clean_names(1) assms(2) by blast
    next
      case other: False
      show ?thesis
      proof (cases "c = backup_db")
        case True
        then have "m = Map.empty" using c unfolding fs1 by simp
        then show ?thesis using True clean_names(3) by simp
      next
        case False
        then have "?F c = Some m" using c other unfolding fs1 by (simp split: if_splits)
        then show ?thesis using ready clean_collections by blast
      qed
    qed
  qed
  have "reload_database_if_present env False s1 = (r, s')"
    using assms(2-4) s1(1) collection_empty_iff[of "disk_of s" backup_db old] ready collection_of_existing[OF names(2), of s env]
    by (simp add: execute_rollback_def bindU_def askU_def)
  from reload_effect[OF ready1 _ this, of old] fs1 show ?thesis by auto
qed

lemma cleanup_effect:
  assumes "update_ready env s" "execute_cleanup env s = (r, s')"
  shows "r = Inr () \<and> fs (disk_of s') = (fs (disk_of s))(next_db := None, backup_db \<mapsto> Map.empty) \<and> idle s'"
proof -
  note ready = assms(1)[unfolded update_ready_def]
  have names: "update_collection DiagnosticDatabaseBackup" "update_collection DiagnosticDatabaseNextUpdate"
    by (simp_all add: update_collection_def)
  obtain s1 where s1: "collection_of env DiagnosticDatabaseBackup s = (Inr backup_db, s1)" "idle s1"
    "fs (disk_of s1) = (fs (disk_of s))(backup_db \<mapsto> or_empty (fs (disk_of s) backup_db))"
    using collection_of_ok[of env s, OF _ _ names(1)] ready by blast
  let ?F = "fs (disk_of s1)"
  let ?body = "thenT (delete_collection_ignore_missing env DiagnosticDatabaseNextUpdate)
      (delete_all_step env DiagnosticDatabaseBackup)"
  let ?opers = "(if ?F next_db = None then [] else [DeleteCollection DiagnosticDatabaseNextUpdate]) @ [DeleteAll DiagnosticDatabaseBackup]"
  have body: "logs env ?F ?body ?opers"
    by (intro logs_then logs_delete_missing logs_delete_all names) (use ready in auto)
  have "clean_files ?F" using ready s1(3) clean_names(3) by (auto simp: clean_files_def or_empty_def split: option.splits if_splits)
  moreover have "valid_tx ?F ?opers" using clean_names by (simp add: valid_tx_def step_ok_def)
  moreover have "sources_ok Map.empty Map.empty ?F ?opers" "length ?opers \<le> 3" by simp_all
  ultimately obtain s2 where s2: "transact env ?body s1 = (Inr (), s2)" "fs (disk_of s2) = spec_ops Map.empty ?opers ?F" "idle s2"
    using transact_runs[OF _ s1(2) _ body] ready by blast
  have "(r, s') = (Inr (), s2)" using assms(2) s1(1) s2(1) by (simp add: execute_cleanup_def bindU_def)
  then show ?thesis using s2 s1(3) by (auto simp: spec_ops_def fun_eq_iff)
qed

section \<open>What an update promises\<close>

text \<open>
  C12: Apply replaces the database by the staged update and keeps the old one as backup. On a storage
  between transactions and without faults: without a staged update it reports that and changes
  nothing. Otherwise the backup holds exactly the files that were current, the staged collection is
  gone, all other collections are unchanged, and every file that is not temporary loads from the
  current collection exactly as the staged one did, also when files were decompressed in place;
  without decompression the current collection is the staged one. The only error then is a failed
  reload, which comes after the exchange.
\<close>

theorem apply_installs_update:
  assumes "update_ready env s" "execute_apply env decompress s = (r, s')"
  shows "case fs (disk_of s) next_db of
      None \<Rightarrow> r = Inl NoPendingUpdate \<and> s' = s
    | Some new \<Rightarrow> (\<exists>m'. fs (disk_of s') = (fs (disk_of s))(next_db := None,
          backup_db \<mapsto> or_empty (fs (disk_of s) current_db), current_db \<mapsto> m') \<and>
        dom m' = dom new \<and> (\<not> decompress \<longrightarrow> m' = new) \<and>
        (\<forall>k. \<not> is_tmp k \<longrightarrow> load_ecudata (up_codec env) (m' k) = load_ecudata (up_codec env) (new k))) \<and>
      (\<forall>e. r = Inl e \<longrightarrow> (\<exists>t. e = ReloadFailed t)) \<and> \<not> tx_active s'"
proof (cases "fs (disk_of s) next_db")
  case None
  then show ?thesis
    using assms(2) sane_names(2)
    by (auto simp: execute_apply_def bindU_def try_get_collection_def askU_def errU_def get_collection_def dir_exists_fs)
next
  case (Some new)
  from apply_pending[OF assms(1) Some assms(2)] Some show ?thesis
    by (auto simp: update_ready_def idle_def)
qed

text \<open>
  C13: Rollback undoes apply. After an apply of a staged update, with or without decompression and
  whether its reload succeeded or not, a rollback makes the current collection exactly what it was
  before the apply, empties the backup and leaves nothing staged; only the reload can fail. When there
  were no files before the apply, the rollback is refused and changes nothing.
\<close>

theorem rollback_undoes_apply:
  assumes "update_ready env s" "fs (disk_of s) next_db \<noteq> None"
    and "execute_apply env decompress s = (r, s1)" "execute_rollback env s1 = (r', s2)"
  shows "if or_empty (fs (disk_of s) current_db) = Map.empty then r' = Inl NoBackup \<and> s2 = s1
    else fs (disk_of s2) = (fs (disk_of s))(next_db := None, backup_db \<mapsto> Map.empty) \<and>
      \<not> tx_active s2 \<and> (\<forall>e. r' = Inl e \<longrightarrow> (\<exists>t. e = ReloadFailed t))"
proof -
  obtain new where new: "fs (disk_of s) next_db = Some new" using assms(2) by blast
  let ?old = "or_empty (fs (disk_of s) current_db)"
  obtain m' where m': "fs (disk_of s1) = (fs (disk_of s))(next_db := None, backup_db \<mapsto> ?old, current_db \<mapsto> m')"
    and ready: "update_ready env s1" using apply_pending[OF assms(1) new assms(3)] by blast
  have backup: "fs (disk_of s1) backup_db = Some ?old" unfolding m' by simp
  show ?thesis
  proof (cases "?old = Map.empty")
    case True
    then show ?thesis using rollback_empty[OF ready] backup assms(4) by simp
  next
    case False
    then have old: "fs (disk_of s) current_db = Some ?old" by (auto simp: or_empty_def split: option.splits)
    from rollback_restores[OF ready backup False assms(4)]
    have "fs (disk_of s2) = (fs (disk_of s))(next_db := None, backup_db \<mapsto> Map.empty)"
      using old by (auto simp: m' fun_eq_iff)
    then show ?thesis using rollback_restores[OF ready backup False assms(4)] False by (simp add: idle_def)
  qed
qed

section \<open>A concrete update\<close>

definition update_disk :: disk where
  "update_disk = \<lparr>colls = [(''diagnostic_database'', [(''a.mdd'', [1])]),
     (''diagnostic_database_next_update'', [(''a.mdd'', [2]), (''b.mdd'', [3])])], wal_file = None, staging = [], clock = 0\<rparr>"

definition update_storage :: storage where
  "update_storage = \<lparr>disk_of = update_disk, tx_active = False\<rparr>"

definition small_env :: update_env where
  "small_env = \<lparr>up_faults = no_faults, up_crc = demo_crc, up_ser = (\<lambda>_. Inr []), up_codec = small_codec,
     up_sha256 = id, up_reload = (\<lambda>_ paths. Inl ''reload refused'')\<rparr>"

lemma update_fs: "fs update_disk = [current_db \<mapsto> [''a.mdd'' \<mapsto> [1]], next_db \<mapsto> [''a.mdd'' \<mapsto> [2], ''b.mdd'' \<mapsto> [3]]]"
  by (auto simp: fs_def coll_def update_disk_def fun_eq_iff)

lemma update_names: "clean_name ''a.mdd''" "\<not> is_tmp ''a.mdd''" "normalize_key ''a.mdd'' = ''a.mdd''"
  "clean_name ''b.mdd''" "\<not> is_tmp ''b.mdd''" "normalize_key ''b.mdd'' = ''b.mdd''"
  by code_simp+

lemma update_storage_ready: "update_ready small_env update_storage"
proof -
  have "clean_files (fs update_disk)" "normalized_files (fs update_disk)"
    using update_names clean_names
    by (auto simp: update_fs clean_files_def normalized_files_def split: if_splits)
  then show ?thesis
    using small_codec_roundtrip
    by (simp add: update_ready_def small_env_def serialises_def idle_def update_storage_def update_disk_def)
qed

theorem apply_installs_update_witness:
  "fs (disk_of (snd (execute_apply small_env False update_storage))) current_db = Some [''a.mdd'' \<mapsto> [2], ''b.mdd'' \<mapsto> [3]] \<and>
   fs (disk_of (snd (execute_apply small_env False update_storage))) backup_db = Some [''a.mdd'' \<mapsto> [1]]"
proof -
  have "fs (disk_of update_storage) next_db = Some [''a.mdd'' \<mapsto> [2], ''b.mdd'' \<mapsto> [3]]"
    "fs (disk_of update_storage) current_db = Some [''a.mdd'' \<mapsto> [1]]"
    by (simp_all add: update_storage_def update_fs)
  then show ?thesis
    using apply_installs_update[OF update_storage_ready prod.collapse[symmetric], of False] by (auto simp: or_empty_def)
qed

theorem rollback_undoes_apply_witness:
  "fs (disk_of (snd (execute_rollback small_env (snd (execute_apply small_env True update_storage))))) =
     [current_db \<mapsto> [''a.mdd'' \<mapsto> [1]], backup_db \<mapsto> Map.empty]"
proof -
  have "fs (disk_of update_storage) next_db \<noteq> None" "or_empty (fs (disk_of update_storage) current_db) \<noteq> Map.empty"
    by (simp_all add: update_storage_def update_fs or_empty_def)
  then have "fs (disk_of (snd (execute_rollback small_env (snd (execute_apply small_env True update_storage))))) =
      (fs (disk_of update_storage))(next_db := None, backup_db \<mapsto> Map.empty)"
    using rollback_undoes_apply[OF update_storage_ready _ prod.collapse[symmetric] prod.collapse[symmetric], of True]
    by presburger
  also have "\<dots> = [current_db \<mapsto> [''a.mdd'' \<mapsto> [1]], backup_db \<mapsto> Map.empty]"
    by (auto simp: update_storage_def update_fs fun_eq_iff)
  finally show ?thesis .
qed

end
