(* ===== verification/Update_Files.thy ===== *)
theory Update_Files
  imports Update_Correct Storage_Limits "HOL-Library.Char_ord" "HOL-Library.List_Lexorder"
begin

text \<open>
  The files of an update (\<open>cda-plugin-runtime-update/src/storage.rs\<close>): upload with the check of every
  file, deletion and listing. File names are ASCII. The name that the storage draws for a staged file
  comes with the uploaded file, and the integrity check of the security plugin is an argument.
\<close>

section \<open>Names\<close>

text \<open>\<open>Path::extension\<close> of a path: that of its last component.\<close>

fun split_on :: "char \<Rightarrow> string \<Rightarrow> string list" where
  "split_on sep [] = [[]]"
| "split_on sep (c # cs) = (if c = sep then [] # split_on sep cs
     else case split_on sep cs of [] \<Rightarrow> [[c]] | w # ws \<Rightarrow> (c # w) # ws)"

definition path_extension :: "string \<Rightarrow> string option" where
  "path_extension path = (case filter (\<lambda>c. c \<noteq> [] \<and> c \<noteq> ''.'') (split_on CHR ''/'' path) of
      [] \<Rightarrow> None
    | cs \<Rightarrow> extension (last cs))"

definition is_mdd_file :: "string \<Rightarrow> bool" where
  "is_mdd_file filename \<longleftrightarrow> map_option normalize_key (path_extension filename) = Some ''mdd''"

section \<open>Upload\<close>

record upload_file =
  upload_uuid :: string
  upload_filename :: string
  upload_data :: "byte list"

type_synonym integrity_check = "disk \<Rightarrow> string \<Rightarrow> string \<Rightarrow> string + unit"

definition init_collection_from_copy_if_missing ::
  "'z update_env_scheme \<Rightarrow> bool \<Rightarrow> bool \<Rightarrow> collection_name \<Rightarrow> collection_name \<Rightarrow> tx_step" where
  "init_collection_from_copy_if_missing env already_exists initialized src dest s tx =
     (if already_exists \<or> initialized then (Inr (), s, tx)
      else stepT (\<lambda>s tx. map_prod missing_ok id
        (copy_collection (up_faults env) (up_crc env) (up_ser env) src dest s tx)) s tx)"

definition write_step :: "'z update_env_scheme \<Rightarrow> collection_name \<Rightarrow> string \<Rightarrow> string \<Rightarrow> byte list \<Rightarrow> tx_step" where
  "write_step env name uuid key data = stepT (write_key (up_faults env) (up_crc env) (up_ser env) name uuid key data)"

definition delete_step :: "'z update_env_scheme \<Rightarrow> collection_name \<Rightarrow> string \<Rightarrow> tx_step" where
  "delete_step env name key = stepT (delete_key (up_faults env) (up_crc env) (up_ser env) name key)"

definition check_file_integrity_and_roll_back_on_error ::
  "'z update_env_scheme \<Rightarrow> integrity_check \<Rightarrow> string \<Rightarrow> unit update" where
  "check_file_integrity_and_roll_back_on_error env check key =
     bindU (ioU (file_path (up_faults env) next_db key)) (\<lambda>path s.
       case check (disk_of s) next_db path of
         Inr _ \<Rightarrow> (Inr (), s)
       | Inl verification_error \<Rightarrow>
           (case transact env (delete_step env DiagnosticDatabaseNextUpdate key) s of
              (Inr _, s') \<Rightarrow> (Inl (ValidationFailed ''File failed integrity check and was rolled back''), s')
            | (Inl rollback_error, s') \<Rightarrow>
                (case execute_cleanup env s' of
                   (Inl cleanup_error, s'') \<Rightarrow> (Inl (FatalError ''unable to cleanup update state''), s'')
                 | (Inr _, s'') \<Rightarrow> (Inl (SevereError ''update state was cleaned up''), s''))))"

fun upload_loop ::
  "'z update_env_scheme \<Rightarrow> integrity_check \<Rightarrow> bool \<Rightarrow> bool \<Rightarrow> upload_file list \<Rightarrow> string list \<Rightarrow> string list update" where
  "upload_loop env check already_exists initialized [] items = okU items"
| "upload_loop env check already_exists initialized (file # files) items =
     (let key = normalize_key (upload_filename file) in
      if \<not> is_mdd_file (upload_filename file) then errU (InvalidFileType (upload_filename file))
      else
        bindU (transact env (thenT
            (init_collection_from_copy_if_missing env already_exists initialized DiagnosticDatabase DiagnosticDatabaseNextUpdate)
            (write_step env DiagnosticDatabaseNextUpdate (upload_uuid file) key (upload_data file)))) (\<lambda>_.
          bindU (check_file_integrity_and_roll_back_on_error env check key) (\<lambda>_.
            upload_loop env check already_exists (initialized \<or> \<not> already_exists) files (items @ [key]))))"

definition upload_files ::
  "'z update_env_scheme \<Rightarrow> integrity_check \<Rightarrow> upload_file list \<Rightarrow> string list update" where
  "upload_files env check files =
     (case find (\<lambda>file. \<not> is_mdd_file (upload_filename file)) files of
        Some file \<Rightarrow> errU (InvalidFileType (upload_filename file))
      | None \<Rightarrow>
          bindU (askU (\<lambda>s. Inr (is_ok (get_collection DiagnosticDatabaseNextUpdate s)))) (\<lambda>mdd_already_exists.
            bindU (collection_of env DiagnosticDatabaseNextUpdate) (\<lambda>_.
              upload_loop env check mdd_already_exists False files [])))"

section \<open>Deletion\<close>

definition list_of :: "string \<Rightarrow> string list update" where
  "list_of col = askU (\<lambda>s. map_sum from_storage_error id (list_keys (disk_of s) col))"

definition delete_nextupdate_file :: "'z update_env_scheme \<Rightarrow> string \<Rightarrow> unit update" where
  "delete_nextupdate_file env file_id =
     (let key = normalize_key file_id in
      if \<not> is_mdd_file key then errU (InvalidFileType file_id)
      else
        bindU (try_get_collection DiagnosticDatabaseNextUpdate) (\<lambda>next.
          bindU (if next \<noteq> None then okU () else transact env
              (init_collection_from_copy_if_missing env False False DiagnosticDatabase DiagnosticDatabaseNextUpdate)) (\<lambda>_.
            bindU (collection_of env DiagnosticDatabaseNextUpdate) (\<lambda>next_col.
              bindU (list_of next_col) (\<lambda>next_keys.
                if key \<notin> set next_keys then errU (FileNotFound file_id)
                else transact env (delete_step env DiagnosticDatabaseNextUpdate key))))))"

definition delete_all_nextupdate :: "'z update_env_scheme \<Rightarrow> string list update" where
  "delete_all_nextupdate env =
     bindU (try_get_collection DiagnosticDatabaseNextUpdate) (\<lambda>col.
       bindU (case col of None \<Rightarrow> okU [] | Some c \<Rightarrow> list_of c) (\<lambda>deleted_ids.
         bindU (transact env (delete_collection_ignore_missing env DiagnosticDatabaseNextUpdate)) (\<lambda>_.
           okU deleted_ids)))"

definition is_backup_empty :: "'z update_env_scheme \<Rightarrow> bool update" where
  "is_backup_empty env = bindU (collection_of env DiagnosticDatabaseBackup) (\<lambda>col.
     askU (\<lambda>s. map_sum from_storage_error id (collection_is_empty (disk_of s) col)))"

text \<open>The code lists the keys after the begin of the transaction, which changes no collection.\<close>

definition delete_all_backup :: "'z update_env_scheme \<Rightarrow> string list update" where
  "delete_all_backup env =
     bindU (collection_of env DiagnosticDatabaseBackup) (\<lambda>col.
       bindU (list_of col) (\<lambda>deleted_ids.
         bindU (transact env (delete_all_step env DiagnosticDatabaseBackup)) (\<lambda>_. okU deleted_ids)))"

section \<open>Listing\<close>

text \<open>\<open>compute_sha256\<close> feeds the digest with pieces of 64 KiB; the pieces are the list of bytes it has seen.\<close>

function sha256_input :: "byte list \<Rightarrow> nat \<Rightarrow> byte list" where
  "sha256_input data offset =
     (if offset < length data
      then (let piece = read_at data offset 65536 in
            if piece = [] then [] else piece @ sha256_input data (offset + length piece))
      else [])"
  by pat_completeness auto
termination
  by (relation "measure (\<lambda>(data, offset). length data - offset)") (auto intro: diff_less_mono2)

declare sha256_input.simps [simp del]

definition hex_02x :: "byte \<Rightarrow> string" where
  "hex_02x b = map (\<lambda>n. if n < 10 then char_of (48 + n) else char_of (87 + n)) [unat b div 16, unat b mod 16]"

definition compute_sha256 :: "'z update_env_scheme \<Rightarrow> byte list \<Rightarrow> string" where
  "compute_sha256 env data = concat (map hex_02x (up_sha256 env (sha256_input data 0)))"

text \<open>The parts of a query that are applied, and the parts of an item that differ between files.\<close>

record runtime_files_query =
  include_hash :: bool
  include_file_size :: bool
  include_revision :: bool

record bulk_data_descriptor =
  item_id :: string
  item_size :: "nat option"
  item_hash :: "string option"
  item_revision :: "string option"

text \<open>One item; \<open>Inr None\<close> when it is skipped.\<close>

definition describe_file ::
  "'z update_env_scheme \<Rightarrow> runtime_files_query \<Rightarrow> string \<Rightarrow> string \<Rightarrow> bulk_data_descriptor option update" where
  "describe_file env q col key s =
     (let item = \<lparr>item_id = key, item_size = None, item_hash = None, item_revision = None\<rparr>;
          hashed = (\<lambda>item. if \<not> include_hash q then okU item
            else bindU (ioU (read_key (up_faults env) col key)) (\<lambda>data. okU (item\<lparr>item_hash := Some (compute_sha256 env data)\<rparr>)));
          revised = (\<lambda>item. if \<not> include_revision q then okU (Some item)
            else bindU (ioU (file_path (up_faults env) col key)) (\<lambda>path s.
              (Inr (Some (item\<lparr>item_revision := (case mmap_and_decode_mdd (up_codec env) (content_of (disk_of s) col path) of
                 Inl _ \<Rightarrow> None | Inr mdd \<Rightarrow> mdd_revision mdd)\<rparr>)), s)))
      in if \<not> include_file_size q then bindU (hashed item) revised s
         else case metadata (up_faults env) col key (disk_of s) of
           (Inl e, d') \<Rightarrow> (Inr None, s\<lparr>disk_of := d'\<rparr>)
         | (Inr meta, d') \<Rightarrow> bindU (hashed (item\<lparr>item_size := Some (data_size meta)\<rparr>)) revised (s\<lparr>disk_of := d'\<rparr>))"

fun describe_files ::
  "'z update_env_scheme \<Rightarrow> runtime_files_query \<Rightarrow> string \<Rightarrow> string list \<Rightarrow> bulk_data_descriptor list update" where
  "describe_files env q col [] = okU []"
| "describe_files env q col (key # keys) = bindU (describe_file env q col key) (\<lambda>item.
     bindU (describe_files env q col keys) (\<lambda>items. okU (case item of None \<Rightarrow> items | Some i \<Rightarrow> i # items)))"

definition list_collection_files ::
  "'z update_env_scheme \<Rightarrow> runtime_files_query \<Rightarrow> string \<Rightarrow> bulk_data_descriptor list update" where
  "list_collection_files env q col = bindU (list_of col) (describe_files env q col)"

definition get_collection_items ::
  "'z update_env_scheme \<Rightarrow> runtime_files_query \<Rightarrow> collection_name \<Rightarrow> bulk_data_descriptor list update" where
  "get_collection_items env q name = bindU (try_get_collection name) (\<lambda>col.
     case col of None \<Rightarrow> okU [] | Some c \<Rightarrow> list_collection_files env q c)"

definition list_current_files ::
  "'z update_env_scheme \<Rightarrow> runtime_files_query \<Rightarrow> bulk_data_descriptor list update" where
  "list_current_files env q = get_collection_items env q DiagnosticDatabase"

definition list_backup_files ::
  "'z update_env_scheme \<Rightarrow> runtime_files_query \<Rightarrow> bulk_data_descriptor list update" where
  "list_backup_files env q = get_collection_items env q DiagnosticDatabaseBackup"

definition get_nextupdate_or_current_items ::
  "'z update_env_scheme \<Rightarrow> runtime_files_query \<Rightarrow> collection_name \<Rightarrow> collection_name \<Rightarrow> bulk_data_descriptor list update" where
  "get_nextupdate_or_current_items env q next_collection current_collection =
     bindU (try_get_collection next_collection) (\<lambda>col.
       case col of None \<Rightarrow> get_collection_items env q current_collection | Some c \<Rightarrow> list_collection_files env q c)"

definition compute_nextupdate_state ::
  "'z update_env_scheme \<Rightarrow> runtime_files_query \<Rightarrow> bulk_data_descriptor list update" where
  "compute_nextupdate_state env q =
     bindU (get_nextupdate_or_current_items env q DiagnosticDatabaseNextUpdate DiagnosticDatabase) (\<lambda>items.
       okU (sort_key item_id items))"

section \<open>Uploading a file\<close>

lemma sha256_input_drop: "sha256_input data offset = drop offset data"
proof (induction data offset rule: sha256_input.induct)
  case (1 data offset)
  let ?piece = "read_at data offset 65536"
  show ?case
  proof (cases "offset < length data")
    case True
    then have "?piece \<noteq> []" by (simp add: read_at_def)
    with True have "sha256_input data offset = ?piece @ sha256_input data (offset + length ?piece)"
      by (subst sha256_input.simps) (simp add: Let_def)
    also have "\<dots> = ?piece @ drop (length ?piece) (drop offset data)"
      using 1 True \<open>?piece \<noteq> []\<close> by (simp add: add.commute)
    also have "\<dots> = drop offset data"
    proof -
      have "take n xs @ drop (length (take n xs)) xs = xs" for n and xs :: "byte list" by (cases "length xs \<le> n") simp_all
      then show ?thesis unfolding read_at_def .
    qed
    finally show ?thesis .
  qed (subst sha256_input.simps, simp)
qed

text \<open>The digest is that of the whole file, whatever its length.\<close>

lemma compute_sha256_whole: "compute_sha256 env data = concat (map hex_02x (up_sha256 env data))"
  by (simp add: compute_sha256_def sha256_input_drop)

text \<open>A transaction whose body fails changes no collection.\<close>

lemma transact_rejected:
  assumes "up_faults env = no_faults" "idle s"
    and "\<And>s1. open_tx env (fs (disk_of s)) s1 transaction_new \<Longrightarrow>
      \<exists>s2 tx2. body s1 transaction_new = (Inl e, s2, tx2) \<and> open_tx env (fs (disk_of s)) s2 tx2"
  shows "\<exists>s'. transact env body s = (Inl e, s') \<and> fs (disk_of s') = fs (disk_of s) \<and> idle s'"
proof -
  obtain s1 where s1: "begin_transaction (up_faults env) (up_crc env) s = (Inr transaction_new, s1)"
    "open_tx env (fs (disk_of s)) s1 transaction_new" using begin_opens[OF assms(1,2)] by blast
  from assms(3)[OF s1(2)] obtain s2 tx2 where s2: "body s1 transaction_new = (Inl e, s2, tx2)"
    "open_tx env (fs (disk_of s)) s2 tx2" by blast
  then have "\<not> committed tx2" "fs (disk_of s2) = fs (disk_of s)" by (simp_all add: open_tx_def)
  moreover have "\<not> tx_active (drop_transaction no_faults s2 tx2)"
    using \<open>\<not> committed tx2\<close> by (simp add: drop_transaction_def discard_def)
  ultimately show ?thesis
    using s1(1) s2(1) assms(1) rollback_discards[of tx2 s2] by (simp add: transact_def bindU_def storeU_def rollback_def idle_def)
qed

lemma logs_init:
  assumes "update_ready env s" "fs (disk_of s) next_db \<noteq> None"
  shows "logs env (fs (disk_of s))
    (init_collection_from_copy_if_missing env already initialized DiagnosticDatabase DiagnosticDatabaseNextUpdate)
    (if already \<or> initialized \<or> fs (disk_of s) current_db = None then []
     else [CopyCollection DiagnosticDatabase DiagnosticDatabaseNextUpdate True])"
proof (cases "already \<or> initialized \<or> fs (disk_of s) current_db = None")
  case True
  then show ?thesis using sane_names
    by (auto simp: logs_def init_collection_from_copy_if_missing_def stepT_def copy_collection_def open_tx_def
        dir_exists_fs missing_ok_def)
next
  case False
  then have "logs env (fs (disk_of s)) (copy_step env DiagnosticDatabase DiagnosticDatabaseNextUpdate)
      [CopyCollection DiagnosticDatabase DiagnosticDatabaseNextUpdate True]"
    using logs_copy[of env DiagnosticDatabase DiagnosticDatabaseNextUpdate "fs (disk_of s)"] assms
    by (simp add: update_ready_def update_collection_def)
  from logs_missing_ok[OF this[unfolded copy_step_def]] False show ?thesis
    by (auto simp add: logs_def init_collection_from_copy_if_missing_def)
qed

text \<open>Keys that the storage accepts and that cannot be taken for its own files.\<close>

definition good_key :: "string \<Rightarrow> bool" where
  "good_key key \<longleftrightarrow> sanitize_path_segment key = Inr () \<and> normalize_key key = key \<and> clean_name key \<and> \<not> is_tmp key"

lemma write_step_ok:
  assumes "up_faults env = no_faults" "serialises (up_ser env)" "good_key key" "open_tx env F s tx"
  shows "\<exists>s'. write_step env n uuid key data s tx =
      (Inr (), s', tx_record (Write n key (append_extension uuid ''tmp'')) tx) \<and>
    logged (up_crc env) (up_ser env) s' (tx_record (Write n key (append_extension uuid ''tmp'')) tx) \<and>
    fs (disk_of s') = F \<and> staging (disk_of s') = [(append_extension uuid ''tmp'', data)]"
proof -
  let ?p = "append_extension uuid ''tmp''"
  let ?d = "(disk_of s)\<lparr>clock := Suc (clock (disk_of s)), staging := [(?p, data)]\<rparr>"
  have o: "logged (up_crc env) (up_ser env) s tx" "fs (disk_of s) = F" "staging (disk_of s) = []"
    using assms(4) by (simp_all add: open_tx_def)
  have "mutate no_faults (stage_file ?p data) (disk_of s) = (Inr (), ?d)"
    using o(3) by (simp add: mutate_def no_faults_def stage_file_def Let_def)
  moreover have "logged (up_crc env) (up_ser env) (s\<lparr>disk_of := ?d\<rparr>) tx" using o(1) by (simp add: logged_def)
  from log_operation_ok[OF assms(2) this, of "Write n key ?p"] obtain s' where
    "log_operation no_faults (up_crc env) (up_ser env) (Write n key ?p) (s\<lparr>disk_of := ?d\<rparr>) tx =
       (Inr (), s', tx_record (Write n key ?p) tx)"
    "logged (up_crc env) (up_ser env) s' (tx_record (Write n key ?p) tx)" "fs (disk_of s') = F" "staging (disk_of s') = [(?p, data)]"
    using o(2) by auto
  ultimately show ?thesis
    using assms(1,3) by (simp add: write_step_def stepT_def write_key_def good_key_def Let_def)
qed

text \<open>The files from which an update starts: those staged, or the current ones.\<close>

definition update_base :: "files \<Rightarrow> string \<rightharpoonup> byte list" where
  "update_base F = (case F next_db of Some m \<Rightarrow> m | None \<Rightarrow> or_empty (F current_db))"

lemma upload_transaction:
  assumes ready: "update_ready env s" and staged: "fs (disk_of s) next_db = Some m" "already \<or> m key = None"
    and key: "good_key key"
    and base: "base = (if already \<or> fs (disk_of s) current_db = None then m else the (fs (disk_of s) current_db))"
  shows "\<exists>s'. transact env (thenT
      (init_collection_from_copy_if_missing env already False DiagnosticDatabase DiagnosticDatabaseNextUpdate)
      (write_step env DiagnosticDatabaseNextUpdate uuid key data)) s = (Inr (), s') \<and>
    fs (disk_of s') = (fs (disk_of s))(next_db \<mapsto> base(key \<mapsto> data)) \<and> idle s'"
proof -
  let ?F = "fs (disk_of s)" and ?p = "append_extension uuid ''tmp''"
  let ?copy = "if already \<or> False \<or> ?F current_db = None then []
     else [CopyCollection DiagnosticDatabase DiagnosticDatabaseNextUpdate True]"
  let ?opers = "?copy @ [Write DiagnosticDatabaseNextUpdate key ?p]"
  note env = ready[unfolded update_ready_def]
  obtain s1 where s1: "begin_transaction no_faults (up_crc env) s = (Inr transaction_new, s1)"
    "open_tx env ?F s1 transaction_new" using begin_opens[of env s] env by auto
  have init: "logs env ?F (init_collection_from_copy_if_missing env already False DiagnosticDatabase
      DiagnosticDatabaseNextUpdate) ?copy"
    by (rule logs_init[OF ready]) (simp only: staged(1), simp)
  obtain s2 tx2 where s2: "init_collection_from_copy_if_missing env already False DiagnosticDatabase
      DiagnosticDatabaseNextUpdate s1 transaction_new = (Inr (), s2, tx2)" "open_tx env ?F s2 tx2"
    and "tx_operations tx2 = tx_operations transaction_new @ ?copy"
    using init[unfolded logs_def] s1(2) by blast
  then have ops2: "tx_operations tx2 = ?copy" by (simp add: transaction_new_def)
  obtain s3 where s3: "write_step env DiagnosticDatabaseNextUpdate uuid key data s2 tx2 =
      (Inr (), s3, tx_record (Write DiagnosticDatabaseNextUpdate key ?p) tx2)"
    "logged (up_crc env) (up_ser env) s3 (tx_record (Write DiagnosticDatabaseNextUpdate key ?p) tx2)"
    "fs (disk_of s3) = ?F" "staging (disk_of s3) = [(?p, data)]"
    using write_step_ok[OF _ _ key s2(2)] env by blast
  let ?tx = "tx_record (Write DiagnosticDatabaseNextUpdate key ?p) tx2"
  have opers: "tx_operations ?tx = ?opers" "length ?opers \<le> 3" using ops2 by (simp_all add: tx_record_def)
  obtain wal where wal: "wal_file (disk_of s3) = Some wal" using s3(2) by (auto simp: logged_def split: option.splits)
  have "\<exists>s4. commit no_faults (up_crc env) s3 ?tx = (Inr (), s4) \<and>
    fs (disk_of s4) = spec_ops (map_of [(?p, data)]) ?opers ?F \<and> idle s4"
  proof (cases already)
    case True
    then have one: "tx_operations ?tx = [Write DiagnosticDatabaseNextUpdate key ?p]" using opers(1) by simp
    show ?thesis
      using commit_write_completes[OF one wal, of "up_crc env", unfolded s3(3,4) one] env key clean_names True
      by (auto simp: good_key_def idle_def)
  next
    case False
    then have valid: "valid_tx ?F ?opers"
      using key staged clean_names by (simp add: valid_tx_def step_ok_def good_key_def)
    have short: "length wal \<le> usize_max" by (rule logged_short[OF s3(2) _ wal]) (unfold opers(1), rule opers(2))
    have "append_all (up_crc env) (up_ser env) (tx_operations ?tx) (create_wal (up_crc env)) = Inr wal"
      using s3(2) wal by (simp add: logged_def)
    then have txr: "tx_ready (up_crc env) (up_ser env) (tx_operations ?tx) (disk_of s3)"
      unfolding tx_ready_def wal opers(1) s3(3) using env valid short by simp
    have "sources_ok (map_of [(?p, data)]) (map_of [(?p, data)]) ?F ?opers" by simp
    then obtain s4 where s4: "commit no_faults (up_crc env) s3 ?tx = (Inr (), s4)"
      "fs (disk_of s4) = spec_ops (map_of [(?p, data)]) ?opers ?F"
      using commit_completes[OF txr, unfolded s3(3,4) opers(1)] by blast
    moreover have "idle s4" using commit_ends[OF txr s4(1)] by (simp add: idle_def)
    ultimately show ?thesis by blast
  qed
  then obtain s4 where "commit no_faults (up_crc env) s3 ?tx = (Inr (), s4)"
    "fs (disk_of s4) = spec_ops (map_of [(?p, data)]) ?opers ?F" "idle s4" by blast
  moreover have "spec_ops (map_of [(?p, data)]) ?opers ?F = ?F(next_db \<mapsto> base(key \<mapsto> data))"
    using staged base by (auto simp: spec_ops_def or_empty_def)
  ultimately show ?thesis
    using s1(1) s2(1) s3(1) env by (simp add: transact_def thenT_def bindU_def storeU_def)
qed

lemma file_path_existing:
  assumes "update_ready env s" "fs (disk_of s) c = Some m" "m key \<noteq> None" "good_key key"
  shows "file_path flt c key (disk_of s) = (Inr key, disk_of s)"
  using assms ensure_noop[of "disk_of s" key flt c]
  by (auto simp: file_path_def good_key_def update_ready_def file_exists_fs Let_def)

lemma delete_transaction:
  assumes "update_ready env s" "fs (disk_of s) next_db = Some m" "m key \<noteq> None" "good_key key"
  shows "\<exists>s'. transact env (delete_step env DiagnosticDatabaseNextUpdate key) s = (Inr (), s') \<and>
    fs (disk_of s') = (fs (disk_of s))(next_db \<mapsto> m(key := None)) \<and> idle s'"
proof -
  note env = assms(1)[unfolded update_ready_def]
  have body: "logs env (fs (disk_of s)) (delete_step env DiagnosticDatabaseNextUpdate key) [Delete DiagnosticDatabaseNextUpdate key]"
    unfolding delete_step_def
    by (rule logs_operation)
      (use env assms ensure_noop in \<open>auto simp: delete_key_def good_key_def file_exists_fs Let_def\<close>)
  have "valid_tx (fs (disk_of s)) [Delete DiagnosticDatabaseNextUpdate key]"
    using assms(4) clean_names by (simp add: valid_tx_def step_ok_def good_key_def)
  then obtain s' where "transact env (delete_step env DiagnosticDatabaseNextUpdate key) s = (Inr (), s')"
    "fs (disk_of s') = spec_ops Map.empty [Delete DiagnosticDatabaseNextUpdate key] (fs (disk_of s))" "idle s'"
    using transact_runs[OF _ _ _ body] env by auto
  then show ?thesis using assms(2) by (auto simp: spec_ops_def)
qed

lemma staged_ready:
  assumes "update_ready env s" "idle s'" "fs (disk_of s') = (fs (disk_of s))(next_db \<mapsto> m')" "good_key key"
    and "\<And>k. m' k \<noteq> None \<Longrightarrow> k \<noteq> key \<Longrightarrow> \<exists>c m. fs (disk_of s) c = Some m \<and> m k \<noteq> None"
  shows "update_ready env s'"
proof -
  have old: "clean_name c \<and> (m k \<noteq> None \<longrightarrow> clean_name k \<and> \<not> is_tmp k \<and> normalize_key k = k)" if "fs (disk_of s) c = Some m" for c m k
    using that assms(1) unfolding update_ready_def clean_files_def normalized_files_def by blast
  have new: "clean_name c \<and> (m k \<noteq> None \<longrightarrow> clean_name k \<and> \<not> is_tmp k \<and> normalize_key k = k)"
    if "fs (disk_of s') c = Some m" for c m k
  proof (cases "c = next_db")
    case True
    then have "m = m'" using that assms(3) by simp
    then show ?thesis using True clean_names(2) assms(4) assms(5)[of k] old unfolding good_key_def by blast
  next
    case False
    then have "fs (disk_of s) c = Some m" using that assms(3) by simp
    then show ?thesis by (rule old)
  qed
  have "clean_files (fs (disk_of s'))" unfolding clean_files_def using new by (metis domIff)
  moreover have "normalized_files (fs (disk_of s'))" unfolding normalized_files_def using new by blast
  ultimately show ?thesis using assms(1,2) by (simp add: update_ready_def)
qed

lemma upload_single:
  assumes "is_mdd_file (upload_filename file)" "key = normalize_key (upload_filename file)"
  shows "upload_files env check [file] s = bindU (collection_of env DiagnosticDatabaseNextUpdate) (\<lambda>_.
    bindU (transact env (thenT
        (init_collection_from_copy_if_missing env (fs (disk_of s) next_db \<noteq> None) False DiagnosticDatabase DiagnosticDatabaseNextUpdate)
        (write_step env DiagnosticDatabaseNextUpdate (upload_uuid file) key (upload_data file)))) (\<lambda>_.
      bindU (check_file_integrity_and_roll_back_on_error env check key) (\<lambda>_. okU [key]))) s"
proof -
  have "is_ok (get_collection DiagnosticDatabaseNextUpdate s) = (fs (disk_of s) next_db \<noteq> None)"
    using sane_names(2) by (simp add: get_collection_def dir_exists_fs)
  then show ?thesis
    using assms by (simp add: upload_files_def bindU_def[of "askU _"] askU_def Let_def)
qed

text \<open>
  C36: Uploading one file to an idle storage without faults stages it beside the files that are staged
  or, when nothing is staged, beside copies of the current ones; it replaces a file with its key. Then
  the integrity check sees the storage with the file staged: if it accepts, the key is returned and the
  file stays; if it rejects, a failed validation is reported and the key is removed from the staged
  files, with it the file that it replaced, so a rejected upload may end without a file that was
  accepted before. No other collection changes, and the next transaction may begin.
\<close>

theorem upload_stages_file:
  assumes "update_ready env s" "is_mdd_file (upload_filename file)" "key = normalize_key (upload_filename file)" "good_key key"
    and "upload_files env check [file] s = (r, s')"
  shows "\<exists>d. fs d = (fs (disk_of s))(next_db \<mapsto> (update_base (fs (disk_of s)))(key \<mapsto> upload_data file)) \<and>
    (if is_ok (check d next_db key) then r = Inr [key] \<and> fs (disk_of s') = fs d
     else (\<exists>t. r = Inl (ValidationFailed t)) \<and>
       fs (disk_of s') = (fs (disk_of s))(next_db \<mapsto> (update_base (fs (disk_of s)))(key := None))) \<and>
    \<not> tx_active s'"
proof -
  let ?F = "fs (disk_of s)"
  let ?m = "or_empty (?F next_db)" and ?base = "update_base ?F"
  define already where "already = (?F next_db \<noteq> None)"
  have names: "update_collection DiagnosticDatabaseNextUpdate" by (simp add: update_collection_def)
  obtain s1 where s1: "collection_of env DiagnosticDatabaseNextUpdate s = (Inr next_db, s1)" "idle s1"
    "fs (disk_of s1) = ?F(next_db \<mapsto> ?m)"
    using collection_of_ok[OF _ _ names, of env s] assms(1) unfolding update_ready_def by blast
  have ready1: "update_ready env s1"
    by (rule staged_ready[OF assms(1) s1(2,3) assms(4)]) (auto simp: or_empty_def split: option.splits)
  have staged: "fs (disk_of s1) next_db = Some ?m" "already \<or> ?m key = None"
    using s1(3) by (auto simp: or_empty_def already_def split: option.splits)
  have base: "?base = (if already \<or> fs (disk_of s1) current_db = None then ?m else the (fs (disk_of s1) current_db))"
    using s1(3) by (auto simp: already_def update_base_def or_empty_def split: option.splits)
  obtain s2 where s2: "transact env (thenT
      (init_collection_from_copy_if_missing env already False DiagnosticDatabase DiagnosticDatabaseNextUpdate)
      (write_step env DiagnosticDatabaseNextUpdate (upload_uuid file) key (upload_data file))) s1 = (Inr (), s2)"
    "fs (disk_of s2) = (fs (disk_of s1))(next_db \<mapsto> ?base(key \<mapsto> upload_data file))" "idle s2"
    using upload_transaction[OF ready1 staged assms(4) base] by blast
  have fs2: "fs (disk_of s2) = ?F(next_db \<mapsto> ?base(key \<mapsto> upload_data file))" using s2(2) s1(3) by simp
  have ready2: "update_ready env s2"
    by (rule staged_ready[OF assms(1) s2(3) fs2 assms(4)]) (auto simp: update_base_def or_empty_def split: option.splits)
  have staged2: "fs (disk_of s2) next_db = Some (?base(key \<mapsto> upload_data file))" using fs2 by simp
  have path: "file_path (up_faults env) next_db key (disk_of s2) = (Inr key, disk_of s2)"
    by (rule file_path_existing[OF ready2 staged2 _ assms(4)]) simp
  obtain s3 where s3: "transact env (delete_step env DiagnosticDatabaseNextUpdate key) s2 = (Inr (), s3)"
    "fs (disk_of s3) = (fs (disk_of s2))(next_db \<mapsto> (?base(key \<mapsto> upload_data file))(key := None))" "idle s3"
    using delete_transaction[OF ready2 staged2 _ assms(4)] by auto
  let ?failed = "Inl (ValidationFailed ''File failed integrity check and was rolled back'')"
  have checked: "check_file_integrity_and_roll_back_on_error env check key s2 =
      (case check (disk_of s2) next_db key of Inr _ \<Rightarrow> (Inr (), s2) | Inl _ \<Rightarrow> (?failed, s3))"
    using path s3(1) by (simp add: check_file_integrity_and_roll_back_on_error_def bindU_def ioU_def split: sum.split)
  have "upload_files env check [file] s = bindU (check_file_integrity_and_roll_back_on_error env check key) (\<lambda>_. okU [key]) s2"
    unfolding upload_single[OF assms(2,3), of env check s, folded already_def] by (simp add: bindU_def[of "collection_of _ _"] s1(1) bindU_def[of "transact _ _"] s2(1))
  then have run: "(r, s') = (case check (disk_of s2) next_db key of Inr _ \<Rightarrow> (Inr [key], s2) | Inl _ \<Rightarrow> (?failed, s3))"
    using assms(5) checked by (simp add: bindU_def okU_def split: sum.splits)
  show ?thesis
  proof (intro exI[of _ "disk_of s2"] conjI)
    show "fs (disk_of s2) = ?F(next_db \<mapsto> ?base(key \<mapsto> upload_data file))" by (rule fs2)
    show "if is_ok (check (disk_of s2) next_db key) then r = Inr [key] \<and> fs (disk_of s') = fs (disk_of s2)
      else (\<exists>t. r = Inl (ValidationFailed t)) \<and> fs (disk_of s') = ?F(next_db \<mapsto> ?base(key := None))"
      using run s3(2) fs2 by (cases "check (disk_of s2) next_db key") simp_all
    show "\<not> tx_active s'"
      using run s2(3) s3(3) by (cases "check (disk_of s2) next_db key") (simp_all add: idle_def)
  qed
qed

section \<open>A concrete upload\<close>

definition new_upload :: "string \<Rightarrow> upload_file" where
  "new_upload name = \<lparr>upload_uuid = ''u'', upload_filename = name, upload_data = [9]\<rparr>"

definition fresh_storage :: storage where
  "fresh_storage = \<lparr>disk_of = \<lparr>colls = [(''diagnostic_database'', [(''a.mdd'', [1])])], wal_file = None, staging = [],
     clock = 0\<rparr>, tx_active = False\<rparr>"

lemma fresh_fs: "fs (disk_of fresh_storage) = [current_db \<mapsto> [''a.mdd'' \<mapsto> [1]]]"
  by (auto simp: fs_def coll_def fresh_storage_def fun_eq_iff)

lemma fresh_storage_ready: "update_ready small_env fresh_storage"
proof -
  have "clean_files (fs (disk_of fresh_storage))" "normalized_files (fs (disk_of fresh_storage))"
    using update_names clean_names by (auto simp: fresh_fs clean_files_def normalized_files_def split: if_splits)
  then show ?thesis
    using small_codec_roundtrip
    by (simp add: update_ready_def small_env_def serialises_def idle_def fresh_storage_def)
qed

lemma upload_names: "is_mdd_file ''B.MDD''" "normalize_key ''B.MDD'' = ''b.mdd''" "good_key ''b.mdd''"
  by code_simp+

theorem upload_stages_file_witness:
  "fst (upload_files small_env (\<lambda>_ _ _. Inr ()) [new_upload ''B.MDD''] fresh_storage) = Inr [''b.mdd''] \<and>
   fs (disk_of (snd (upload_files small_env (\<lambda>_ _ _. Inr ()) [new_upload ''B.MDD''] fresh_storage))) next_db =
     Some [''a.mdd'' \<mapsto> [1], ''b.mdd'' \<mapsto> [9]]"
proof -
  have upload: "upload_filename (new_upload ''B.MDD'') = ''B.MDD''" "upload_data (new_upload ''B.MDD'') = [9]"
    by (simp_all add: new_upload_def)
  have base: "update_base (fs (disk_of fresh_storage)) = [''a.mdd'' \<mapsto> [1]]" "fs (disk_of fresh_storage) next_db = None"
    by (simp_all add: fresh_fs update_base_def or_empty_def)
  show ?thesis
    using upload_stages_file[OF fresh_storage_ready _ _ upload_names(3) prod.collapse[symmetric],
        of "new_upload ''B.MDD''" "\<lambda>_ _ _. Inr ()"] upload base upload_names
    by auto
qed

section \<open>Uploads that are rejected\<close>

text \<open>
  An upload that the storage rejects has created the staged collection before and leaves it empty. The
  next apply takes it for an update without files and removes the whole database.
\<close>

lemma rejected_upload_empties_database:
  assumes "update_ready env s" "fs (disk_of s) next_db = None" "is_mdd_file (upload_filename file)"
    and "sanitize_path_segment (normalize_key (upload_filename file)) = Inl e"
  shows "\<exists>s'. upload_files env check [file] s = (Inl (from_storage_error e), s') \<and>
    fs (disk_of s') = (fs (disk_of s))(next_db \<mapsto> Map.empty) \<and>
    fs (disk_of (snd (execute_apply env False s'))) current_db = Some Map.empty"
proof -
  let ?key = "normalize_key (upload_filename file)"
  let ?init = "init_collection_from_copy_if_missing env False False DiagnosticDatabase DiagnosticDatabaseNextUpdate"
  let ?put = "write_step env DiagnosticDatabaseNextUpdate (upload_uuid file) ?key (upload_data file)"
  note env = assms(1)[unfolded update_ready_def]
  obtain s1 where s1: "collection_of env DiagnosticDatabaseNextUpdate s = (Inr next_db, s1)" "idle s1"
    "fs (disk_of s1) = (fs (disk_of s))(next_db \<mapsto> Map.empty)"
    using collection_of_ok[of env s DiagnosticDatabaseNextUpdate] env assms(2) by (auto simp: update_collection_def or_empty_def)
  have ready1: "update_ready env s1"
    by (rule same_names_ready[OF assms(1) s1(2)])
      (use s1(3) env clean_collections clean_names(2) in \<open>auto split: if_splits\<close>)
  have init: "logs env (fs (disk_of s1)) ?init
      (if False \<or> False \<or> fs (disk_of s1) current_db = None then []
       else [CopyCollection DiagnosticDatabase DiagnosticDatabaseNextUpdate True])"
    by (rule logs_init[OF ready1]) (simp add: s1(3))
  have rejected: "\<exists>s2 tx2. thenT ?init ?put s0 transaction_new = (Inl (from_storage_error e), s2, tx2) \<and>
      open_tx env (fs (disk_of s1)) s2 tx2" if "open_tx env (fs (disk_of s1)) s0 transaction_new" for s0
  proof -
    from init[unfolded logs_def] that obtain s2 tx2 where "?init s0 transaction_new = (Inr (), s2, tx2)"
      "open_tx env (fs (disk_of s1)) s2 tx2" by blast
    then show ?thesis using assms(4) by (simp add: thenT_def write_step_def stepT_def write_key_def Let_def)
  qed
  have "up_faults env = no_faults" using env by blast
  from transact_rejected[of env s1 "thenT ?init ?put" "from_storage_error e", OF this s1(2) rejected]
  obtain s3 where s3: "transact env (thenT ?init ?put) s1 = (Inl (from_storage_error e), s3)"
    "fs (disk_of s3) = fs (disk_of s1)" "idle s3" by blast
  have up: "upload_files env check [file] s = (Inl (from_storage_error e), s3)"
    unfolding upload_single[OF assms(3) refl] assms(2)
    by (simp add: bindU_def[of "collection_of _ _"] s1(1) bindU_def[of "transact _ _"] s3(1))
  have "update_ready env s3" using ready1 s3(2,3) by (simp add: update_ready_def)
  moreover have "fs (disk_of s3) next_db = Some Map.empty" using s3(2) s1(3) by simp
  ultimately have "fs (disk_of (snd (execute_apply env False s3))) current_db = Some Map.empty"
    using apply_pending[OF _ _ prod.collapse[symmetric], of env s3 Map.empty False] by auto
  then show ?thesis using up s3(2) s1(3) by auto
qed

end
