(* ===== verification/Update_Executions.thy ===== *)
theory Update_Executions
  imports Update_Files Sovd_Locks Step_Invariant
begin

text \<open>
  Executions of an update (\<open>cda-plugin-runtime-update/src/security.rs\<close> and
  \<open>operations/executions.rs\<close>): what must hold before one starts, the table of executions, the flag
  that other components read, and the task that carries an execution out. The exclusive lock of the
  plugin makes a start one step; the task runs beside other requests and is two steps, the operation
  with its status, and the release of the flag. The operation is atomic, as its transaction is.
\<close>

section \<open>Permission\<close>

definition vehicle_lock_owner_sub :: "lock_state \<Rightarrow> string option" where
  "vehicle_lock_owner_sub locks = map_option owner (vehicle locks)"

definition has_non_vehicle_locks :: "lock_state \<Rightarrow> bool" where
  "has_non_vehicle_locks locks \<longleftrightarrow> is_any_locked (ecu locks) \<or> is_any_locked (functional_group locks)"

definition guards_active :: "bool list \<Rightarrow> bool" where
  "guards_active guards \<longleftrightarrow> list_ex id guards"

definition check_file_integrity :: "mdd_codec \<Rightarrow> integrity_check" where
  "check_file_integrity codec d col key =
     map_sum (\<lambda>_. ''Failed to parse MDD'') (\<lambda>_. ()) (mmap_and_decode_mdd codec (content_of d col key))"

fun mdd_ecu_names_loop :: "'z update_env_scheme \<Rightarrow> string \<Rightarrow> string list \<Rightarrow> disk \<Rightarrow> string list update_result \<times> disk" where
  "mdd_ecu_names_loop env col [] d = (Inr [], d)"
| "mdd_ecu_names_loop env col (key # keys) d =
     (case file_path (up_faults env) col key d of
        (Inl e, d') \<Rightarrow> (Inl (ValidationFailed ''path''), d')
      | (Inr path, d') \<Rightarrow>
          (case mmap_and_decode_mdd (up_codec env) (content_of d' col path) of
             Inl e \<Rightarrow> (Inl (ValidationFailed ''Failed to read MDD''), d')
           | Inr mdd \<Rightarrow> apfst (map_sum id (\<lambda>ns. mdd_ecu_name mdd # ns)) (mdd_ecu_names_loop env col keys d')))"

definition mdd_ecu_names :: "'z update_env_scheme \<Rightarrow> string \<Rightarrow> string set update" where
  "mdd_ecu_names env col s =
     (case list_keys (disk_of s) col of
        Inl e \<Rightarrow> (Inl (ValidationFailed ''list''), s)
      | Inr keys \<Rightarrow> (case mdd_ecu_names_loop env col keys (disk_of s) of
          (r, d') \<Rightarrow> (map_sum id set r, s\<lparr>disk_of := d'\<rparr>)))"

text \<open>A difference between the sets of names is only logged.\<close>

definition check_apply_allowed ::
  "'z update_env_scheme \<Rightarrow> lock_state \<Rightarrow> bool list \<Rightarrow> string option \<Rightarrow> string option \<Rightarrow> unit update" where
  "check_apply_allowed env locks guards pending_mdd current_mdd =
     (if vehicle_lock_owner_sub locks = None then errU (NoLock ''No vehicle lock owned'')
      else if has_non_vehicle_locks locks then errU (LockConflict ''Non-vehicle locks are held, cannot apply update'')
      else if guards_active guards then errU (OperationsInProgress ''Another operation is running already'')
      else case (pending_mdd, current_mdd) of
        (Some pending_col, Some current_col) \<Rightarrow>
          bindU (mdd_ecu_names env pending_col) (\<lambda>_. bindU (mdd_ecu_names env current_col) (\<lambda>_. okU ()))
      | _ \<Rightarrow> okU ())"

section \<open>Executions\<close>

datatype execution_mode = Apply | Rollback | Cleanup

datatype execution_status = Running | Completed | Failed runtime_update_error

record update_execution =
  exec_mode :: execution_mode
  exec_status :: execution_status

datatype update_task_phase = Executing execution_mode | Releasing

record update_state =
  update_storage_of :: storage
  executions :: "(string \<times> update_execution) list"
  update_in_progress :: bool
  update_tasks :: "(string \<times> update_task_phase) list"

definition execute_operation :: "'z update_env_scheme \<Rightarrow> bool \<Rightarrow> execution_mode \<Rightarrow> unit update" where
  "execute_operation env mdd_decompress mode = (case mode of
      Apply \<Rightarrow> execute_apply env mdd_decompress
    | Rollback \<Rightarrow> execute_rollback env
    | Cleanup \<Rightarrow> execute_cleanup env)"

text \<open>What is checked before the task is spawned.\<close>

definition execution_admitted ::
  "'z update_env_scheme \<Rightarrow> lock_state \<Rightarrow> bool list \<Rightarrow> execution_mode \<Rightarrow> (string \<times> update_execution) list \<Rightarrow> unit update" where
  "execution_admitted env locks guards mode execs =
     bindU (askU (\<lambda>s. Inr (case get_collection DiagnosticDatabaseNextUpdate s of Inl _ \<Rightarrow> None | Inr c \<Rightarrow> Some c))) (\<lambda>pending_mdd.
       bindU (askU (\<lambda>s. Inr (case get_collection DiagnosticDatabase s of Inl _ \<Rightarrow> None | Inr c \<Rightarrow> Some c))) (\<lambda>current_mdd.
         bindU (check_apply_allowed env locks guards pending_mdd current_mdd) (\<lambda>_.
           if list_ex (\<lambda>(_, e). exec_status e = Running) execs then errU ExecutionConflict
           else bindU (if mode = Rollback then is_backup_empty env else okU False) (\<lambda>backup_empty.
             if backup_empty then errU NoBackup
             else if mode = Apply \<and> pending_mdd = None then errU NoPendingUpdate
             else okU ()))))"

definition start_execution ::
  "'z update_env_scheme \<Rightarrow> lock_state \<Rightarrow> bool list \<Rightarrow> string \<Rightarrow> execution_mode \<Rightarrow> update_state \<Rightarrow>
   string update_result \<times> update_state" where
  "start_execution env locks guards execution_id mode st =
     (if update_in_progress st then (Inl ExecutionConflict, st)
      else case execution_admitted env locks guards mode (executions st) (update_storage_of st) of
        (Inl e, s') \<Rightarrow> (Inl e, st\<lparr>update_storage_of := s', update_in_progress := False\<rparr>)
      | (Inr _, s') \<Rightarrow> (Inr execution_id, st\<lparr>update_storage_of := s', update_in_progress := True,
          executions := AList.update execution_id \<lparr>exec_mode = mode, exec_status = Running\<rparr>
            (filter (\<lambda>(_, e). exec_status e = Running) (executions st)),
          update_tasks := (execution_id, Executing mode) # update_tasks st\<rparr>))"

definition get_execution_status :: "update_state \<Rightarrow> string \<Rightarrow> update_execution option" where
  "get_execution_status st execution_id = map_of (executions st) execution_id"

definition list_executions :: "update_state \<Rightarrow> update_execution list" where
  "list_executions st = map snd (executions st)"

text \<open>The spawned task: the operation and its status, then the release of the flag.\<close>

definition task_execute :: "'z update_env_scheme \<Rightarrow> bool \<Rightarrow> string \<Rightarrow> execution_mode \<Rightarrow> update_state \<Rightarrow> update_state" where
  "task_execute env mdd_decompress execution_id mode st =
     (case execute_operation env mdd_decompress mode (update_storage_of st) of (result, s') \<Rightarrow>
        st\<lparr>update_storage_of := s',
          executions := map (\<lambda>(i, e). if i = execution_id
            then (i, e\<lparr>exec_status := (case result of Inr _ \<Rightarrow> Completed | Inl e \<Rightarrow> Failed e)\<rparr>) else (i, e)) (executions st),
          update_tasks := map (\<lambda>(i, p). if i = execution_id then (i, Releasing) else (i, p)) (update_tasks st)\<rparr>)"

definition task_release :: "string \<Rightarrow> update_state \<Rightarrow> update_state" where
  "task_release execution_id st = st\<lparr>update_in_progress := False,
     update_tasks := filter (\<lambda>(i, _). i \<noteq> execution_id) (update_tasks st)\<rparr>"

text \<open>The steps of the plugin; uploads and deletions change the storage only.\<close>

inductive update_step :: "'z update_env_scheme \<Rightarrow> bool \<Rightarrow> update_state \<Rightarrow> update_state \<Rightarrow> bool"
  for env :: "'z update_env_scheme" and decompress :: bool where
  start: "update_step env decompress st (snd (start_execution env locks guards execution_id mode st))"
| run: "(execution_id, Executing mode) \<in> set (update_tasks st) \<Longrightarrow>
    update_step env decompress st (task_execute env decompress execution_id mode st)"
| release: "(execution_id, Releasing) \<in> set (update_tasks st) \<Longrightarrow>
    update_step env decompress st (task_release execution_id st)"
| files: "update_step env decompress st (st\<lparr>update_storage_of := s\<rparr>)"

definition update_state_new :: "storage \<Rightarrow> update_state" where
  "update_state_new s = \<lparr>update_storage_of = s, executions = [], update_in_progress = False, update_tasks = []\<rparr>"

section \<open>One execution at a time\<close>

text \<open>The task that runs, its entry and the flag belong together.\<close>

definition update_exclusive :: "update_state \<Rightarrow> bool" where
  "update_exclusive st \<longleftrightarrow> length (executions st) \<le> 1 \<and>
     (case update_tasks st of
        [] \<Rightarrow> \<not> update_in_progress st \<and> (\<forall>(i, e) \<in> set (executions st). exec_status e \<noteq> Running)
      | [(i, Executing mode)] \<Rightarrow> update_in_progress st \<and> executions st = [(i, \<lparr>exec_mode = mode, exec_status = Running\<rparr>)]
      | [(i, Releasing)] \<Rightarrow> update_in_progress st \<and> (\<forall>(j, e) \<in> set (executions st). exec_status e \<noteq> Running)
      | _ \<Rightarrow> False)"

lemma update_exclusive_tasks:
  assumes "update_exclusive st"
  obtains "update_tasks st = []" "\<not> update_in_progress st" "filter (\<lambda>(_, e). exec_status e = Running) (executions st) = []"
  | i mode where "update_tasks st = [(i, Executing mode)]" "update_in_progress st"
      "executions st = [(i, \<lparr>exec_mode = mode, exec_status = Running\<rparr>)]"
  | i where "update_tasks st = [(i, Releasing)]" "update_in_progress st"
      "filter (\<lambda>(_, e). exec_status e = Running) (executions st) = []"
  using assms by (auto simp: update_exclusive_def filter_empty_conv split: list.splits update_task_phase.splits prod.splits)

lemma start_exclusive:
  assumes "update_exclusive st"
  shows "update_exclusive (snd (start_execution env locks guards execution_id mode st))"
proof (cases "update_in_progress st")
  case True
  then show ?thesis using assms by (simp add: start_execution_def)
next
  case False
  then have "update_tasks st = []" "filter (\<lambda>(_, e). exec_status e = Running) (executions st) = []"
    using assms by (auto elim: update_exclusive_tasks)
  then show ?thesis
    using False assms by (auto simp: start_execution_def update_exclusive_def split: prod.splits sum.splits)
qed

lemma update_step_exclusive: "update_step env decompress st st' \<Longrightarrow> update_exclusive st \<Longrightarrow> update_exclusive st'"
proof (induction rule: update_step.induct)
  case (start locks guards execution_id mode st)
  then show ?case by (rule start_exclusive)
next
  case (run execution_id mode st)
  then show ?case
    by (elim update_exclusive_tasks) (auto simp: task_execute_def update_exclusive_def split: prod.splits sum.splits)
next
  case (release execution_id st)
  moreover have "length (executions st) \<le> 1" using release.prems by (simp add: update_exclusive_def)
  ultimately show ?case
    by (elim update_exclusive_tasks) (auto simp: task_release_def update_exclusive_def filter_empty_conv)
next
  case (files st s)
  then show ?case by (simp add: update_exclusive_def split: list.splits prod.splits update_task_phase.splits)
qed

interpretation update_run: step_invariant "update_step env decompress" update_exclusive for env :: "'z update_env_scheme" and decompress
  by unfold_locales (rule update_step_exclusive)

text \<open>
  C14: Executions exclude each other. In every state that starts, uploads, deletions and the steps of
  tasks reach from a new plugin, at most one task is alive, the flag that other components read is
  set exactly while it is, the table has at most one entry, and an entry that says running belongs to
  the task that is carrying out its mode.
\<close>

theorem update_executions_exclusive:
  assumes "(update_step env decompress)\<^sup>*\<^sup>* (update_state_new s) st"
  shows "length (update_tasks st) \<le> 1 \<and> (update_in_progress st \<longleftrightarrow> update_tasks st \<noteq> []) \<and>
    length (list_executions st) \<le> 1 \<and>
    (\<forall>i e. get_execution_status st i = Some e \<longrightarrow> exec_status e = Running \<longrightarrow>
       update_tasks st = [(i, Executing (exec_mode e))])"
proof -
  have "update_exclusive (update_state_new s)" by (simp add: update_exclusive_def update_state_new_def)
  then have inv: "update_exclusive st" by (rule update_run.run_preserves[OF assms])
  then have len: "length (list_executions st) \<le> 1" by (simp add: update_exclusive_def list_executions_def)
  have idle: "exec_status e \<noteq> Running" if "filter (\<lambda>(_, e). exec_status e = Running) (executions st) = []"
    "map_of (executions st) i = Some e" for i e
    using that map_of_SomeD[OF that(2)] by (auto simp: filter_empty_conv)
  from inv len show ?thesis
    by (elim update_exclusive_tasks) (auto simp: get_execution_status_def dest: idle split: if_splits)
qed

section \<open>What a start may change\<close>

lemma mdd_ecu_names_loop_disk:
  "normalized_files (fs d) \<Longrightarrow> \<forall>k \<in> set keys. Storage_Types.normalize_key k = k \<Longrightarrow> snd (mdd_ecu_names_loop env col keys d) = d"
proof (induction keys)
  case (Cons k keys)
  then have p: "snd (file_path (up_faults env) col k d) = d"
    using ensure_noop[of d k "up_faults env" col] by (simp add: file_path_def Let_def split: sum.split)
  then show ?case using Cons
    by (cases "file_path (up_faults env) col k d"; cases "fst (file_path (up_faults env) col k d)")
      (auto split: sum.splits)
qed simp

lemma mdd_ecu_names_storage:
  assumes "normalized_files (fs (disk_of s))"
  shows "snd (mdd_ecu_names env col s) = s"
proof -
  have "\<forall>k \<in> set (list_keys_in_dir (disk_of s) col). Storage_Types.normalize_key k = k"
    using list_keys_normalized by blast
  then have "snd (mdd_ecu_names_loop env col (list_keys_in_dir (disk_of s) col) (disk_of s)) = disk_of s"
    by (rule mdd_ecu_names_loop_disk[OF assms])
  then show ?thesis by (simp add: mdd_ecu_names_def list_keys_def case_prod_beta)
qed

lemma check_apply_allowed_storage:
  assumes "normalized_files (fs (disk_of s))"
  shows "snd (check_apply_allowed env locks guards p c s) = s"
proof -
  have names: "\<exists>r. mdd_ecu_names env col s = (r, s)" for col
    using mdd_ecu_names_storage[OF assms, of env col] by (metis prod.collapse)
  then obtain r r' where "mdd_ecu_names env (the p) s = (r, s)" "mdd_ecu_names env (the c) s = (r', s)" by metis
  then show ?thesis
    by (auto simp: check_apply_allowed_def errU_def okU_def bindU_def split: option.split sum.split)
qed

text \<open>The look for a backup creates an empty backup collection when there is none.\<close>

definition backup_created :: "storage \<Rightarrow> storage \<Rightarrow> bool" where
  "backup_created s s' \<longleftrightarrow> tx_active s' = tx_active s \<and> wal_file (disk_of s') = wal_file (disk_of s) \<and>
     staging (disk_of s') = staging (disk_of s) \<and>
     (fs (disk_of s') = fs (disk_of s) \<or>
      fs (disk_of s) backup_db = None \<and> fs (disk_of s') = (fs (disk_of s))(backup_db \<mapsto> Map.empty))"

lemma backup_created_refl [simp]: "backup_created s s"
  by (simp add: backup_created_def)

lemma is_backup_empty_storage: "backup_created s (snd (is_backup_empty env s))"
  by (auto simp: backup_created_def is_backup_empty_def bindU_def collection_of_def storeU_def askU_def
      get_or_create_collection_def mutate_def create_dir_def dir_exists_fs Let_def
      split: sum.split if_splits)

lemma admitted_storage:
  assumes "normalized_files (fs (disk_of s))" "execution_admitted env locks guards mode execs s = (r, s')"
  shows "if mode = Rollback then backup_created s s' else s' = s"
proof -
  obtain p c where pc: "execution_admitted env locks guards mode execs s =
      bindU (check_apply_allowed env locks guards p c) (\<lambda>_.
        if list_ex (\<lambda>(_, e). exec_status e = Running) execs then errU ExecutionConflict
        else bindU (if mode = Rollback then is_backup_empty env else okU False) (\<lambda>backup_empty.
          if backup_empty then errU NoBackup
          else if mode = Apply \<and> p = None then errU NoPendingUpdate else okU ())) s"
    by (simp add: execution_admitted_def bindU_def[of "askU _"] askU_def)
  obtain x where x: "check_apply_allowed env locks guards p c s = (x, s)"
    using check_apply_allowed_storage[OF assms(1)] by (metis prod.collapse)
  show ?thesis
    using assms(2) is_backup_empty_storage[of s env] unfolding pc
    by (auto simp: bindU_def x errU_def okU_def split: sum.splits prod.splits if_splits)
qed

lemma start_accepted:
  assumes "start_execution env locks guards execution_id mode st = (Inr i, st')"
  shows "i = execution_id \<and> \<not> update_in_progress st \<and> update_in_progress st' \<and>
    vehicle locks \<noteq> None \<and> \<not> has_non_vehicle_locks locks \<and> True \<notin> set guards \<and>
    (mode = Apply \<longrightarrow> fs (disk_of (update_storage_of st)) next_db \<noteq> None) \<and>
    (mode = Rollback \<longrightarrow> list_keys_in_dir (disk_of (update_storage_of st')) backup_db \<noteq> [])"
proof -
  let ?s = "update_storage_of st"
  obtain s' where idle: "\<not> update_in_progress st" "i = execution_id"
    and adm: "execution_admitted env locks guards mode (executions st) ?s = (Inr (), s')"
    and st': "update_in_progress st'" "update_storage_of st' = s'"
    using assms by (auto simp: start_execution_def split: if_splits prod.splits sum.splits)
  obtain p c s1 where allowed: "check_apply_allowed env locks guards p c ?s = (Inr (), s1)"
    and p: "p = (case get_collection DiagnosticDatabaseNextUpdate ?s of Inl _ \<Rightarrow> None | Inr c \<Rightarrow> Some c)"
    and apply_ok: "mode = Apply \<longrightarrow> p \<noteq> None"
    and rb: "bindU (if mode = Rollback then is_backup_empty env else okU False) (\<lambda>backup_empty.
        if backup_empty then errU NoBackup else okU ()) s1 = (Inr (), s')"
    using adm
    by (auto simp: execution_admitted_def bindU_def askU_def errU_def okU_def split: prod.splits sum.splits if_splits)
  have "vehicle locks \<noteq> None \<and> \<not> has_non_vehicle_locks locks \<and> True \<notin> set guards"
    using allowed by (auto simp: check_apply_allowed_def errU_def vehicle_lock_owner_sub_def guards_active_def list_ex_iff split: if_splits)
  moreover have "fs (disk_of ?s) next_db \<noteq> None" if "mode = Apply"
    using apply_ok that p sane_names(2) by (auto simp: get_collection_def dir_exists_fs split: if_splits)
  moreover have "list_keys_in_dir (disk_of s') backup_db \<noteq> []" if rollback: "mode = Rollback"
  proof -
    obtain s2 where "is_backup_empty env s1 = (Inr False, s2)" "s' = s2"
      using rb rollback by (auto simp: bindU_def errU_def okU_def split: prod.splits sum.splits if_splits)
    then show ?thesis
      using sane_names(3)
      by (auto simp: is_backup_empty_def bindU_def collection_of_def storeU_def get_or_create_collection_def askU_def
          collection_is_empty_def len_def split: prod.splits sum.splits if_splits)
  qed
  ultimately show ?thesis using idle st' by simp
qed

text \<open>
  C35: An execution starts only with permission. When a start is accepted, no other execution was in
  progress, the vehicle lock is held and no other lock, no guard reports activity, an apply has a
  staged update and a rollback a backup with files; the flag is then set. When it is refused,
  the flag, the table and the tasks are as before. Accepted or refused, when the files have their
  normalised names (others are renamed when they are read), the start leaves the storage as it was,
  its collections, its log and its staged files, with one exception: the start of a rollback may have
  created the backup collection, empty.
\<close>

theorem start_execution_guarded:
  assumes "start_execution env locks guards execution_id mode st = (r, st')"
    and "normalized_files (fs (disk_of (update_storage_of st)))"
  shows "(case r of
      Inr i \<Rightarrow> i = execution_id \<and> \<not> update_in_progress st \<and> update_in_progress st' \<and>
        vehicle locks \<noteq> None \<and> \<not> has_non_vehicle_locks locks \<and> True \<notin> set guards \<and>
        (mode = Apply \<longrightarrow> fs (disk_of (update_storage_of st)) next_db \<noteq> None) \<and>
        (mode = Rollback \<longrightarrow> list_keys_in_dir (disk_of (update_storage_of st')) backup_db \<noteq> [])
    | Inl e \<Rightarrow> update_in_progress st' = update_in_progress st \<and> executions st' = executions st \<and>
        update_tasks st' = update_tasks st) \<and>
    (let s = update_storage_of st; s' = update_storage_of st' in
     (mode \<noteq> Rollback \<longrightarrow> s' = s) \<and> tx_active s' = tx_active s \<and>
     wal_file (disk_of s') = wal_file (disk_of s) \<and> staging (disk_of s') = staging (disk_of s) \<and>
     (fs (disk_of s') = fs (disk_of s) \<or>
      fs (disk_of s) backup_db = None \<and> fs (disk_of s') = (fs (disk_of s))(backup_db \<mapsto> Map.empty)))"
proof -
  let ?s = "update_storage_of st" and ?s' = "update_storage_of st'"
  have "if mode = Rollback then backup_created ?s ?s' else ?s' = ?s"
  proof (cases "update_in_progress st")
    case True
    then show ?thesis using assms(1) by (auto simp: start_execution_def)
  next
    case False
    obtain x s2 where x: "execution_admitted env locks guards mode (executions st) ?s = (x, s2)" by (rule prod.exhaust)
    then have "?s' = s2" using assms(1) False by (auto simp: start_execution_def split: sum.splits)
    then show ?thesis using admitted_storage[OF assms(2) x] by simp
  qed
  then have stored: "(mode \<noteq> Rollback \<longrightarrow> ?s' = ?s) \<and> backup_created ?s ?s'" by (simp split: if_splits)
  show ?thesis
  proof (cases r)
    case (Inl e)
    then show ?thesis using assms(1) stored
      by (auto simp: start_execution_def backup_created_def Let_def split: if_splits prod.splits sum.splits)
  next
    case (Inr i)
    then show ?thesis using start_accepted[OF assms(1)[unfolded Inr]] stored
      by (simp add: backup_created_def Let_def)
  qed
qed
section \<open>A concrete execution\<close>

definition vehicle_held :: lock_state where
  "vehicle_held = (locks_new [''ECU''])\<lparr>vehicle := Some \<lparr>lock_id = ''L'', expiration = 60, owner = ''tester'', deletion_task = 0\<rparr>\<rparr>"

lemma cleanup_starts:
  "fst (start_execution small_env vehicle_held [False] ''E'' Cleanup (update_state_new fresh_storage)) = Inr ''E''"
proof -
  have "get_collection DiagnosticDatabaseNextUpdate fresh_storage = Inl (CollectionNotFound next_db)"
    using sane_names(2) by (simp add: get_collection_def dir_exists_fs fresh_fs)
  then show ?thesis
    by (simp add: start_execution_def update_state_new_def execution_admitted_def bindU_def askU_def okU_def errU_def
        check_apply_allowed_def vehicle_lock_owner_sub_def has_non_vehicle_locks_def guards_active_def vehicle_held_def
        locks_new_def is_any_locked_def)
qed

theorem start_execution_guarded_witness:
  "update_in_progress (snd (start_execution small_env vehicle_held [False] ''E'' Cleanup (update_state_new fresh_storage))) \<and>
   update_storage_of (snd (start_execution small_env vehicle_held [False] ''E'' Cleanup (update_state_new fresh_storage))) =
     fresh_storage"
  using start_execution_guarded[OF prod.collapse[symmetric], where env = small_env and locks = vehicle_held
      and guards = "[False]" and execution_id = "''E''" and mode = Cleanup
      and st = "update_state_new fresh_storage"] fresh_storage_ready
  unfolding cleanup_starts by (simp add: update_state_new_def update_ready_def Let_def)

theorem update_executions_exclusive_witness:
  "length (update_tasks (snd (start_execution small_env vehicle_held [False] ''E'' Cleanup (update_state_new fresh_storage)))) \<le> 1"
proof -
  have "(update_step small_env False)\<^sup>*\<^sup>* (update_state_new fresh_storage)
      (snd (start_execution small_env vehicle_held [False] ''E'' Cleanup (update_state_new fresh_storage)))"
    by (intro r_into_rtranclp update_step.start)
  from update_executions_exclusive[OF this] show ?thesis by blast
qed

end
