(* ===== verification/Spec2Isabelle.thy ===== *)
theory Spec2Isabelle
  imports Coded_Type_Variable Storage_Limits Can_Id Detection_Slot Duplicate_Group Detection_Requests
    Transport_Router Sovd_Lock_Safety Flash_Transfer Message_Roundtrip Encode_Total Fault_Memory
    Access_Reset Functional_Group Update_Executions
begin

text \<open>
  Verification of the Classic Diagnostic Adapter, a server that gives access to the ECUs of a
  vehicle: SOVD requests over HTTP on one side, UDS messages over DoIP or CAN on the other. A
  request passes the locks of the SOVD interface, is encoded with the coded types of the
  diagnostic database, sent by the UDS request path through the transport router, and its
  response is matched and decoded. Beside it run variant detection, which finds out which
  description of an ECU applies, the tester-present tasks, and the transactional storage that
  holds the databases on disk.

  \<^bold>\<open>Coded types.\<close> \<open>Bits\<close> is \<open>extract_bits\<close> and \<open>set_bit_checked\<close> of
  \<open>cda-interfaces/src/util.rs\<close>; \<open>Bit_Pack\<close>, \<open>Diag_Coded_Type\<close> are
  \<open>cda-database/src/datatypes/diag_coded_type.rs\<close>: masks, packing, the four length kinds, decode
  and encode with every error. The payload is a byte list; a byte is an \<open>8 word\<close>; \<open>usize\<close> is a
  natural number with saturation at \<open>2^64 - 1\<close>. \<open>Coded_Type_Correct\<close> and
  \<open>Coded_Type_Variable\<close> prove the round trip of every kind, the frame of an encoding, the
  rejection of truncated payloads, and two theorems on where the code loses bits.

  \<^bold>\<open>Storage.\<close> \<open>Storage_Types\<close>, \<open>Wal\<close>, \<open>Disk\<close>, \<open>Recovery\<close>, \<open>Local_Storage\<close> and
  \<open>Local_Collection\<close> are the crate \<open>cda-storage\<close> with the transactions of
  \<open>cda-interfaces/src/storage_api\<close>. The disk is a record of directories; every mutating call may
  fail, and a crash is a failure of all later calls. \<open>Storage_View\<close> gives the abstract content
  and the abstract effect of an operation; \<open>Storage_Forward\<close>, \<open>Storage_Undo\<close>,
  \<open>Storage_Rollback\<close>, \<open>Storage_Restore\<close>, \<open>Storage_Cleanup\<close>, \<open>Storage_Commit\<close> relate each
  phase to it; \<open>Storage_Atomic\<close> and \<open>Storage_Live\<close> conclude that the commits of transactions that
  overwrite no file (\<open>valid_tx\<close>) are atomic under crashes and succeed when they should;
  \<open>Storage_Limits\<close> has the cases outside the hypotheses, among them the overwrite that a crash loses.
  A directory loop runs over the listing at its start. Copying a file, appending to the log and
  writing its header are one step each. \<open>fsync\<close> has no effect on the model, so
  loss of unsynced data is outside it, as is a torn header write. The checksum and the
  serialisation of operations are parameters with their documented laws.

  \<^bold>\<open>UDS.\<close> \<open>Uds\<close> has the service identifiers and the filters of
  \<open>cda-interfaces/src/uds.rs\<close>, \<open>ecumanager.rs\<close> and \<open>util.rs\<close>; \<open>Hex_Text\<close> the text helpers, on
  ASCII text; \<open>Can_Id\<close> the CAN identifiers and the key of the request semaphore.
  \<open>Uds_Transport\<close> is \<open>send_with_raw_payload\<close> of \<open>cda-comm-uds/src/transport.rs\<close>: the gateway
  and the clock are a script of attempts and receive outcomes, and \<open>None\<close> means that the code
  still waits at the end of the script. The theorems say which responses are returned, how often
  a request is transmitted, that the call returns once every attempt ends, and what a silent ECU
  leads to. \<open>Tester_Present\<close> is \<open>tester_present.rs\<close>. \<open>Flash_Transfer\<close> is \<open>data_transfer.rs\<close>: the
  answers of the ECU are a script of results, and the theorems say what the ECU receives and when
  a transfer is reported as finished.

  \<^bold>\<open>Whole requests.\<close> \<open>Diag_Request\<close> joins lookup, access check, encoding, exchange and decoding
  (\<open>send_without_variant_guard\<close>, \<open>send_with_optional_timeout\<close> and \<open>send_genericservice\<close> of
  \<open>transport.rs\<close>) over one state and shows that a response belongs to its request and that the states
  follow the charts through all of it. An exchange is the script of the gateway; the detection
  before a request, which runs beside other tasks, is an argument. \<open>Fault_Codes\<close> and
  \<open>Fault_Memory\<close> are the fault memory (\<open>cda-comm-uds/src/dtc.rs\<close>,
  \<open>cda-core/src/diag_kernel/dtc.rs\<close>, \<open>cda-interfaces/src/datatypes/faults.rs\<close>): codes, status
  bytes, queries, extended data and clearing, as sequences of such requests. \<open>Access_Reset\<close> is the
  timed change of session and security level (\<open>session.rs\<close>, \<open>security.rs\<close>). \<open>Functional_Group\<close> is
  functional addressing (\<open>functional_group.rs\<close>): which ECUs are asked through which gateway, also
  when several have one address, and that the results do not depend on the order in which the
  gateways end. The conversions of the answers are interleaved gateway by gateway, as they depend on
  the database only. What a gateway does with a functional request (\<open>send_functional\<close> of the DoIP
  gateway) is an argument, of which only is assumed that it answers for the ECUs it was asked for.

  \<^bold>\<open>Runtime update.\<close> \<open>Mdd_File\<close> is the loading and rewriting of description files
  (\<open>cda-database/src/mdd_data.rs\<close>), which keeps what is loaded from them. \<open>Runtime_Update\<close> has apply,
  rollback and clean-up of \<open>cda-plugin-runtime-update\<close> on the storage above, \<open>Update_Correct\<close> shows
  that they exchange the collections as promised and that a rollback undoes an apply; \<open>Update_Files\<close>
  has uploads, deletions and listings, \<open>Update_Executions\<close> the permission to start and the
  executions, of which one runs at a time; the compare-and-swap of the flag, the checks and the
  spawning are one step, the release of the flag is another. Codec, digests and the reloader are arguments.

  \<^bold>\<open>ECU state and variants.\<close> \<open>Ecu_State\<close> has the state of an ECU and the messages of its
  coordinator (\<open>coordinator.rs\<close>, \<open>state_coordinator.rs\<close>); a message is one step, as the mailbox
  of the actor guarantees. \<open>Detection_Slot\<close> is the slot that serialises detections, a step
  relation with a step per access to shared state and a 64-bit generation that wraps, in which a burst
  of triggers runs one detection, the one triggered last; it covers ECUs with a coordinator handle, which all loaded ECUs have. \<open>Variant_Detection\<close> is
  the detection of one ECU (\<open>cda-core/src/diag_kernel/variant.rs\<close>, \<open>variant_detection.rs\<close>),
  \<open>Duplicate_Group\<close> the verdict for ECUs that share an address (\<open>cda-comm-uds/src/variant.rs\<close>),
  \<open>Detection_Requests\<close> the requests a detection sends.

  \<^bold>\<open>Services and states.\<close> \<open>Diag_Layers\<close> has the layers of the description and the resolution of
  parent references (\<open>cda-core/src/diag_kernel/service_lookup.rs\<close>), proved equal to a depth-first
  walk; \<open>Service_Access\<close> the session and security states, their transitions and the preconditions
  of services (\<open>state.rs\<close>, \<open>security.rs\<close>), proved to follow the state charts.

  \<^bold>\<open>Values and messages.\<close> \<open>Ieee_Float\<close> has the binary32 and binary64 numbers of the language,
  rounding to nearest even; \<open>Diag_Value\<close> and \<open>Compu_Method\<close> the typed values, limits and computation
  methods of \<open>cda-core/src/diag_kernel.rs\<close>, \<open>diag_kernel/operations.rs\<close> and
  \<open>cda-database/src/datatypes/data_operation.rs\<close>; the casts of \<open>num_traits\<close>, the \<open>hex\<close> crate and the
  printing of floats are the record \<open>externs\<close>. \<open>Diag_Description\<close> is the description of parameters,
  structures, fields and multiplexers that the flatbuffer accessors return; \<open>Payload_View\<close>,
  \<open>Payload_Decode\<close> and \<open>Response_Conversion\<close> are \<open>payload.rs\<close> and \<open>payload_decode.rs\<close>,
  \<open>Payload_Encode\<close> is \<open>payload_encode.rs\<close>, \<open>Response_Json\<close> is \<open>diagservices.rs\<close>,
  \<open>Service_Lookup\<close> the cached lookup of services by name (\<open>service_lookup.rs\<close>,
  \<open>database_naming_convention.rs\<close>) and \<open>Request_Prefix\<close> the check of raw requests
  (\<open>cda-database/src/datatypes.rs\<close>, \<open>payload_encode.rs\<close>). The two recursions over the description take
  its depth as fuel, and \<open>Decode_Sound\<close> and \<open>Encode_Total\<close> show in a locale each that a depth of the
  size of the description is enough: the conversion of a response returns a value or an ordinary
  error, and the encoding a value, an error or the panic of a value that cannot be converted.
  \<open>Compu_Correct\<close> has the round trips of computation methods, \<open>Byte_Slots\<close> and \<open>Message_Roundtrip\<close>
  the round trip of a whole request from JSON through the encoder, the decoder and the printing back
  to the same JSON. A failure is an error of the program, a panic or a loop that does not end, so the places
  where the code can panic are visible in the model.

  \<^bold>\<open>Routing.\<close> \<open>Transport_Router\<close> is \<open>cda-transport-router/src/lib.rs\<close>, sequentially and as
  interleaved resolutions; the gateways are parameters.

  \<^bold>\<open>Locks.\<close> \<open>Sovd_Locks\<close> is \<open>cda-sovd/src/sovd/locks.rs\<close> with the functional-group handlers;
  \<open>Sovd_Lock_Safety\<close> proves exclusive access, isolation of clients, that the vehicle lock
  includes all others, and expiry. Clock, fresh identifiers and the loaded ECUs are arguments.

  \<^bold>\<open>Shared.\<close> \<open>Prelude\<close> has results, loops and bytes, \<open>Diag_Error\<close> the errors of
  \<open>cda-interfaces/src/lib.rs\<close> with the variable parts of messages left out. The locales
  \<open>bit_store\<close>, \<open>self_inverse\<close>, \<open>simulation\<close>, \<open>step_invariant\<close> and \<open>step_history\<close> carry the
  lemmas that several components share and are interpreted on the definitions of the model.

  \<^bold>\<open>Not modelled.\<close> Listings for the web interface in \<open>cda-comm-uds\<close>; component
  listings and schemas in \<open>cda-core\<close>; the reloader of the runtime-update
  plugin, which rebuilds the application; the DoIP and CAN
  gateways, which are sockets and timers of the operating system; the HTTP layer; the bodies of the
  generated database accessors; start-up, logging and health. A read-write lock or mutex is the
  atomicity of the step it guards.
\<close>

end
